(* ===== verification/R8_Prelude.thy ===== *)
theory R8_Prelude
  imports Main "HOL-Library.Word"
begin

text \<open>
  The shared ground of the R8 development: the Rust integer and byte types, \<open>Result\<close> as a
  sum with Rust's combinators, big-endian encoding, slices, and the two interface locales the
  components are read through (\<open>codec\<close>, an encoder/decoder pair with its two round-trip laws,
  and \<open>preserved\<close>, a step relation with an inductive invariant).
\<close>

unbundle bit_operations_syntax

named_theorems result_simps \<open>unfolding of the Result combinators\<close>
named_theorems byte_simps \<open>lengths and slices of byte strings\<close>

section \<open>Machine types\<close>

type_synonym u8 = "8 word"
type_synonym u16 = "16 word"
type_synonym u32 = "32 word"
type_synonym u64 = "64 word"
type_synonym bytes = "8 word list"

abbreviation u64_max :: u64 where "u64_max \<equiv> 0xFFFFFFFFFFFFFFFF"

text \<open>
  \<open>usize\<close> values (lengths, budgets) are naturals below \<open>2 ^ 64\<close>; the checked operations write
  the overflow out.
\<close>

definition usize_checked_add :: "nat \<Rightarrow> nat \<Rightarrow> nat option" where
  "usize_checked_add a b = (if a + b < 2 ^ 64 then Some (a + b) else None)"

definition checked_add :: "'a::len word \<Rightarrow> 'a word \<Rightarrow> 'a word option" where
  "checked_add a b = (if unat a + unat b < 2 ^ LENGTH('a) then Some (a + b) else None)"

definition checked_sub :: "'a::len word \<Rightarrow> 'a word \<Rightarrow> 'a word option" where
  "checked_sub a b = (if b \<le> a then Some (a - b) else None)"

definition saturating_add :: "'a::len word \<Rightarrow> 'a word \<Rightarrow> 'a word" where
  "saturating_add a b = (if unat a + unat b < 2 ^ LENGTH('a) then a + b else - 1)"

definition saturating_sub :: "'a::len word \<Rightarrow> 'a word \<Rightarrow> 'a word" where
  "saturating_sub a b = (if b \<le> a then a - b else 0)"

definition saturating_mul :: "'a::len word \<Rightarrow> 'a word \<Rightarrow> 'a word" where
  "saturating_mul a b = (if unat a * unat b < 2 ^ LENGTH('a) then a * b else - 1)"

section \<open>Result\<close>

type_synonym ('a, 'e) result = "'e + 'a"

text \<open>\<open>and_then r f\<close> is the \<open>?\<close> operator: an error returns at once, a value goes on.\<close>

definition and_then :: "'e + 'a \<Rightarrow> ('a \<Rightarrow> 'e + 'b) \<Rightarrow> 'e + 'b" where
  "and_then r f = (case r of Inl e \<Rightarrow> Inl e | Inr x \<Rightarrow> f x)"

definition map_err :: "('e \<Rightarrow> 'f) \<Rightarrow> 'e + 'a \<Rightarrow> 'f + 'a" where
  "map_err g r = (case r of Inl e \<Rightarrow> Inl (g e) | Inr x \<Rightarrow> Inr x)"

definition ok_or :: "'e \<Rightarrow> 'a option \<Rightarrow> 'e + 'a" where
  "ok_or e r = (case r of None \<Rightarrow> Inl e | Some x \<Rightarrow> Inr x)"

definition is_ok :: "'e + 'a \<Rightarrow> bool" where
  "is_ok r = (case r of Inl _ \<Rightarrow> False | Inr _ \<Rightarrow> True)"

lemma and_then_simps [simp, result_simps]:
  "and_then (Inl e) f = Inl e"
  "and_then (Inr x) f = f x"
  by (simp_all add: and_then_def)

lemma map_err_simps [simp, result_simps]:
  "map_err g (Inl e) = Inl (g e)"
  "map_err g (Inr x) = Inr x"
  by (simp_all add: map_err_def)

lemma ok_or_simps [simp, result_simps]:
  "ok_or e None = Inl e"
  "ok_or e (Some x) = Inr x"
  by (simp_all add: ok_or_def)

lemma is_ok_simps [simp]: "is_ok (Inl e) = False" "is_ok (Inr x) = True"
  by (simp_all add: is_ok_def)

lemma is_ok_iff: "is_ok r \<longleftrightarrow> (\<exists>x. r = Inr x)"
  by (cases r) auto

lemma and_then_Inr [result_simps]:
  "and_then r f = Inr y \<longleftrightarrow> (\<exists>x. r = Inr x \<and> f x = Inr y)"
  by (cases r) auto

lemma and_then_Inl [result_simps]:
  "and_then r f = Inl e \<longleftrightarrow> r = Inl e \<or> (\<exists>x. r = Inr x \<and> f x = Inl e)"
  by (cases r) auto

lemma map_err_Inr [simp, result_simps]: "map_err g r = Inr x \<longleftrightarrow> r = Inr x"
  by (cases r) auto

lemma map_err_Inl [result_simps]: "map_err g r = Inl f \<longleftrightarrow> (\<exists>e. r = Inl e \<and> f = g e)"
  by (cases r) auto

lemma ok_or_Inr [simp, result_simps]: "ok_or e r = Inr x \<longleftrightarrow> r = Some x"
  by (cases r) auto

lemma ok_or_Inl [simp, result_simps]: "ok_or e r = Inl f \<longleftrightarrow> r = None \<and> f = e"
  by (cases r) auto

lemma and_then_split:
  "P (and_then r f) \<longleftrightarrow> (\<forall>e. r = Inl e \<longrightarrow> P (Inl e)) \<and> (\<forall>x. r = Inr x \<longrightarrow> P (f x))"
  by (cases r) auto

lemma if_Inl_Inr [result_simps]:
  "(if c then Inl e else r) = Inr x \<longleftrightarrow> \<not> c \<and> r = Inr x"
  by auto

lemma usize_checked_add_Some [simp]:
  "usize_checked_add a b = Some c \<longleftrightarrow> a + b < 2 ^ 64 \<and> c = a + b"
  by (auto simp: usize_checked_add_def)

lemma usize_checked_add_small [simp]: "a + b < 2 ^ 64 \<Longrightarrow> usize_checked_add a b = Some (a + b)"
  by simp

lemma usize_checked_add_None [simp]: "usize_checked_add a b = None \<longleftrightarrow> 2 ^ 64 \<le> a + b"
  by (auto simp: usize_checked_add_def)

lemma checked_add_Some:
  "checked_add a b = Some c \<longleftrightarrow> unat a + unat b < 2 ^ LENGTH('a) \<and> c = a + b"
  for a b c :: "'a::len word"
  by (auto simp: checked_add_def)

lemma unat_add_small:
  "unat a + unat b < 2 ^ LENGTH('a) \<Longrightarrow> unat (a + b) = unat a + unat b"
  for a b :: "'a::len word"
  by (simp add: unat_word_ariths)

lemma checked_add_unat:
  "checked_add a b = Some c \<Longrightarrow> unat c = unat a + unat b"
  for a b c :: "'a::len word"
  by (auto simp: checked_add_Some unat_add_small)

lemma unat_saturating_add:
  "unat (saturating_add a b) = min (unat a + unat b) (2 ^ LENGTH('a) - 1)"
  for a b :: "'a::len word"
  by (auto simp: saturating_add_def unat_add_small unsigned_minus_1_eq_mask mask_eq_exp_minus_1)

lemma unat_saturating_sub: "unat (saturating_sub a b) = unat a - unat b"
  for a b :: "'a::len word"
  by (auto simp: saturating_sub_def unat_sub word_le_nat_alt)

section \<open>Slices\<close>

text \<open>\<open>slice_of lo hi xs\<close> is \<open>&xs[lo..hi]\<close>; every use is behind a length check of the source.\<close>

definition slice_of :: "nat \<Rightarrow> nat \<Rightarrow> 'a list \<Rightarrow> 'a list" where
  "slice_of lo hi xs = take (hi - lo) (drop lo xs)"

text \<open>\<open>xs[lo..lo + src.len()].copy_from_slice(src)\<close>.\<close>

definition copy_at :: "nat \<Rightarrow> 'a list \<Rightarrow> 'a list \<Rightarrow> 'a list" where
  "copy_at lo src xs = take lo xs @ src @ drop (lo + length src) xs"

lemma length_slice [simp, byte_simps]: "length (slice_of lo hi xs) = min (hi - lo) (length xs - lo)"
  by (simp add: slice_of_def)

lemma length_copy_at [simp, byte_simps]:
  "lo + length src \<le> length xs \<Longrightarrow> length (copy_at lo src xs) = length xs"
  by (simp add: copy_at_def)

lemma nth_slice: "lo + i < hi \<Longrightarrow> hi \<le> length xs \<Longrightarrow> slice_of lo hi xs ! i = xs ! (lo + i)"
  by (simp add: slice_of_def)

lemma slice_append_left [simp]: "hi \<le> length xs \<Longrightarrow> slice_of lo hi (xs @ ys) = slice_of lo hi xs"
  by (simp add: slice_of_def)

lemma slice_append_right [simp]:
  "length xs \<le> lo \<Longrightarrow> slice_of lo hi (xs @ ys) = slice_of (lo - length xs) (hi - length xs) ys"
  by (simp add: slice_of_def)

lemma slice_drop_join: "lo \<le> hi \<Longrightarrow> slice_of lo hi xs @ drop hi xs = drop lo xs"
  using append_take_drop_id [of "hi - lo" "drop lo xs"] by (simp add: slice_of_def)

lemma slice_to_end [simp]: "length xs \<le> hi \<Longrightarrow> slice_of lo hi xs = drop lo xs"
  by (simp add: slice_of_def)

lemma slice_Cons [simp]: "0 < lo \<Longrightarrow> slice_of lo hi (x # xs) = slice_of (lo - 1) (hi - 1) xs"
  by (simp add: slice_of_def drop_Cons')

lemma slice_concat:
  "lo \<le> mid \<Longrightarrow> mid \<le> hi \<Longrightarrow> slice_of lo mid xs @ slice_of mid hi xs = slice_of lo hi xs"
  using take_add [of "mid - lo" "hi - mid" "drop lo xs"] by (simp add: slice_of_def)

section \<open>Vectors\<close>

text \<open>\<open>iter().position(p)\<close> and \<open>Vec::remove(i)\<close>; \<open>iter().find(p)\<close> is the library's \<open>find\<close>.\<close>

fun position :: "('a \<Rightarrow> bool) \<Rightarrow> 'a list \<Rightarrow> nat option" where
  "position p [] = None"
| "position p (x # xs) = (if p x then Some 0 else map_option Suc (position p xs))"

definition remove_at :: "nat \<Rightarrow> 'a list \<Rightarrow> 'a list" where
  "remove_at i xs = take i xs @ drop (Suc i) xs"

lemma position_None: "position p xs = None \<longleftrightarrow> (\<forall>x \<in> set xs. \<not> p x)"
  by (induction xs) auto

lemma position_Some: "position p xs = Some i \<Longrightarrow> i < length xs \<and> p (xs ! i)"
  by (induction xs arbitrary: i) (auto split: if_splits)

lemma position_first: "position p xs = Some i \<Longrightarrow> j < i \<Longrightarrow> \<not> p (xs ! j)"
proof (induction xs arbitrary: i j)
  case (Cons x xs)
  then show ?case by (cases j) (auto split: if_splits)
qed simp

lemma position_find: "find p xs = map_option (\<lambda>i. xs ! i) (position p xs)"
  by (induction xs) (auto simp: option.map_comp comp_def)

lemma set_remove_at: "set (remove_at i xs) \<subseteq> set xs"
  unfolding remove_at_def using set_take_subset set_drop_subset by (metis Un_least set_append)

lemma length_remove_at: "i < length xs \<Longrightarrow> length (remove_at i xs) = length xs - 1"
  by (simp add: remove_at_def)

lemma map_remove_at: "map f (remove_at i xs) = remove_at i (map f xs)"
  by (simp add: remove_at_def take_map drop_map)

lemma distinct_remove_at: "distinct xs \<Longrightarrow> distinct (remove_at i xs)"
  unfolding remove_at_def
  by (metis Suc_n_not_le_n distinct_append distinct_drop distinct_take inf_commute nle_le
      set_take_disj_set_drop_if_distinct order_refl le_SucI)

lemma remove_at_member: "distinct xs \<Longrightarrow> i < length xs \<Longrightarrow> set (remove_at i xs) = set xs - {xs ! i}"
proof -
  assume d: "distinct xs" and i: "i < length xs"
  have xs: "xs = take i xs @ xs ! i # drop (Suc i) xs" using i by (rule id_take_nth_drop)
  with d have "xs ! i \<notin> set (take i xs) \<union> set (drop (Suc i) xs)"
    by (metis distinct_append distinct.simps(2) Un_iff disjoint_iff list.set_intros(1))
  moreover have "set xs = set (take i xs) \<union> {xs ! i} \<union> set (drop (Suc i) xs)"
    by (subst xs) auto
  ultimately show ?thesis by (auto simp: remove_at_def)
qed

lemma sorted_distinct_adj: "sorted xs \<Longrightarrow> distinct_adj xs \<longleftrightarrow> distinct xs" for xs :: "'a::linorder list"
proof (induction xs rule: induct_list012)
  case (3 x y zs)
  then show ?case by (auto simp: distinct_adj_Cons)
qed simp_all

text \<open>The sorted contents of a \<open>BTreeSet\<close> are as many as the items only if those are distinct.\<close>

lemma sorted_set_length:
  "length (remdups_adj (sort xs)) = length xs \<longleftrightarrow> distinct xs" for xs :: "'a::linorder list"
  using distinct_adj_conv_length_remdups_adj [of "sort xs"] sorted_distinct_adj [of "sort xs"] by simp

section \<open>Big-endian bytes\<close>

definition to_be :: "nat \<Rightarrow> 'a::len word \<Rightarrow> bytes" where
  "to_be n w = map (\<lambda>i. ucast (drop_bit (8 * i) w)) (rev [0..<n])"

definition from_be :: "bytes \<Rightarrow> 'a::len word" where
  "from_be bs = foldl (\<lambda>acc b. push_bit 8 acc OR ucast b) 0 bs"

abbreviation u16_to_be_bytes :: "u16 \<Rightarrow> bytes" where "u16_to_be_bytes \<equiv> to_be 2"
abbreviation u32_to_be_bytes :: "u32 \<Rightarrow> bytes" where "u32_to_be_bytes \<equiv> to_be 4"
abbreviation u64_to_be_bytes :: "u64 \<Rightarrow> bytes" where "u64_to_be_bytes \<equiv> to_be 8"
abbreviation u16_from_be_bytes :: "bytes \<Rightarrow> u16" where "u16_from_be_bytes \<equiv> from_be"
abbreviation u32_from_be_bytes :: "bytes \<Rightarrow> u32" where "u32_from_be_bytes \<equiv> from_be"
abbreviation u64_from_be_bytes :: "bytes \<Rightarrow> u64" where "u64_from_be_bytes \<equiv> from_be"

lemma length_to_be [simp, byte_simps]: "length (to_be n w) = n"
  by (simp add: to_be_def)

lemma to_be_Suc: "to_be (Suc n) w = ucast (drop_bit (8 * n) w) # to_be n w"
  by (simp add: to_be_def)

lemma to_be_2: "to_be 2 w = [ucast (drop_bit 8 w), ucast w]"
  by (simp add: numeral_2_eq_2 to_be_Suc) (simp add: to_be_def)

lemma to_be_4:
  "to_be 4 w = [ucast (drop_bit 24 w), ucast (drop_bit 16 w), ucast (drop_bit 8 w), ucast w]"
  by (simp add: numeral_eq_Suc to_be_Suc) (simp add: to_be_def)

lemma to_be_8:
  "to_be 8 w = [ucast (drop_bit 56 w), ucast (drop_bit 48 w), ucast (drop_bit 40 w),
     ucast (drop_bit 32 w), ucast (drop_bit 24 w), ucast (drop_bit 16 w), ucast (drop_bit 8 w),
     ucast w]"
  by (simp add: numeral_eq_Suc to_be_Suc) (simp add: to_be_def)

lemma from_be_snoc: "from_be (bs @ [b]) = push_bit 8 (from_be bs) OR ucast b"
  by (simp add: from_be_def)

lemma bit_from_be:
  "bit (from_be bs :: 'a::len word) i \<longleftrightarrow>
     i < LENGTH('a) \<and> i div 8 < length bs \<and> bit (rev bs ! (i div 8)) (i mod 8)"
proof (induction bs arbitrary: i rule: rev_induct)
  case Nil
  then show ?case by (simp add: from_be_def)
next
  case (snoc b bs)
  show ?case
  proof (cases "i < 8")
    case True
    then show ?thesis
      by (auto simp: from_be_snoc bit_simps)
  next
    case False
    then obtain k where k: "i = 8 + k" by (metis le_Suc_ex not_less)
    then have "i div 8 = Suc (k div 8)" "i mod 8 = k mod 8" by simp_all
    moreover have "\<not> bit b i" using False bit_imp_le_length [of b i] by auto
    ultimately show ?thesis
      using snoc.IH [of k] k by (auto simp: from_be_snoc bit_simps)
  qed
qed

lemma rev_to_be_nth: "i < n \<Longrightarrow> rev (to_be n w) ! i = ucast (drop_bit (8 * i) w)"
  by (simp add: to_be_def rev_map)

lemma from_be_to_be [simp]:
  assumes "LENGTH('a) \<le> 8 * n"
  shows "from_be (to_be n w) = (w :: 'a::len word)"
proof (rule bit_word_eqI)
  fix i assume i: "i < LENGTH('a)"
  with assms have d: "i div 8 < n" by (simp add: div_less_iff_less_mult mult.commute)
  with i show "bit (from_be (to_be n w) :: 'a word) i = bit w i"
    by (simp add: bit_from_be rev_to_be_nth bit_simps)
qed

lemma to_be_from_be [simp]:
  assumes "length bs = n" and "8 * n \<le> LENGTH('a::len)"
  shows "to_be n (from_be bs :: 'a word) = bs"
proof -
  have "rev (to_be n (from_be bs :: 'a word)) = rev bs"
  proof (rule nth_equalityI)
    fix i assume "i < length (rev (to_be n (from_be bs :: 'a word)))"
    then have i: "i < n" by simp
    show "rev (to_be n (from_be bs :: 'a word)) ! i = rev bs ! i"
    proof (rule bit_word_eqI)
      fix j :: nat assume j: "j < LENGTH(8)"
      then have "(8 * i + j) div 8 = i" "(8 * i + j) mod 8 = j" by simp_all
      with i j assms show "bit (rev (to_be n (from_be bs :: 'a word)) ! i) j = bit (rev bs ! i) j"
        by (simp add: rev_to_be_nth bit_simps bit_from_be)
    qed
  qed (simp add: assms)
  then show ?thesis by simp
qed

lemma to_be_inject:
  "LENGTH('a) \<le> 8 * n \<Longrightarrow> to_be n v = to_be n w \<longleftrightarrow> v = w" for v w :: "'a::len word"
  by (metis from_be_to_be)

section \<open>Interfaces\<close>

text \<open>
  A codec: \<open>enc\<close> may refuse a value, \<open>dec\<close> may refuse a byte string; on \<open>valid\<close> values they
  are inverse in both directions.
\<close>

locale codec =
  fixes enc :: "'a \<Rightarrow> 'e + bytes"
    and dec :: "bytes \<Rightarrow> 'f + 'a"
    and valid :: "'a \<Rightarrow> bool"
  assumes dec_enc: "valid a \<Longrightarrow> enc a = Inr bs \<Longrightarrow> dec bs = Inr a"
    and enc_dec: "dec bs = Inr a \<Longrightarrow> enc a = Inr bs"
    and dec_valid: "dec bs = Inr a \<Longrightarrow> valid a"
begin

lemma dec_iff_enc: "dec bs = Inr a \<longleftrightarrow> valid a \<and> enc a = Inr bs"
  using dec_enc enc_dec dec_valid by blast

lemma dec_injective: "dec bs = Inr a \<Longrightarrow> dec cs = Inr a \<Longrightarrow> bs = cs"
  using enc_dec [of bs a] enc_dec [of cs a] by simp

lemma enc_injective: "valid a \<Longrightarrow> valid b \<Longrightarrow> enc a = Inr bs \<Longrightarrow> enc b = Inr bs \<Longrightarrow> a = b"
  using dec_enc [of a bs] dec_enc [of b bs] by simp

end

text \<open>
  An anti-replay filter: \<open>admit\<close> takes an item or refuses it, \<open>key\<close> is the item's identifier,
  \<open>hist s H\<close> says that \<open>H\<close> holds the identifiers taken so far. \<open>run_filter\<close> feeds it a sequence and returns what it took.
\<close>

fun run_filter :: "('s \<Rightarrow> 'c \<Rightarrow> 's option) \<Rightarrow> 's \<Rightarrow> 'c list \<Rightarrow> 's \<times> 'c list" where
  "run_filter admit s [] = (s, [])"
| "run_filter admit s (c # cs) =
     (case admit s c of
        None \<Rightarrow> run_filter admit s cs
      | Some s' \<Rightarrow> (let (t, acc) = run_filter admit s' cs in (t, c # acc)))"

locale anti_replay =
  fixes admit :: "'s \<Rightarrow> 'c \<Rightarrow> 's option"
    and key :: "'c \<Rightarrow> 'k"
    and hist :: "'s \<Rightarrow> 'k set \<Rightarrow> bool"
  assumes admit_fresh: "hist s H \<Longrightarrow> admit s c = Some s' \<Longrightarrow> key c \<notin> H"
    and admit_hist: "hist s H \<Longrightarrow> admit s c = Some s' \<Longrightarrow> hist s' (insert (key c) H)"
begin

lemma run_filter_hist:
  "hist s H \<Longrightarrow> run_filter admit s cs = (t, acc) \<Longrightarrow>
     distinct (map key acc) \<and> key ` set acc \<inter> H = {} \<and> hist t (H \<union> key ` set acc)"
proof (induction cs arbitrary: s H t acc)
  case Nil
  then show ?case by simp
next
  case (Cons c cs)
  show ?case
  proof (cases "admit s c")
    case None
    with Cons show ?thesis by simp
  next
    case (Some s')
    with Cons.prems(2) obtain acc' where run: "run_filter admit s' cs = (t, acc')" "acc = c # acc'"
      by (auto split: prod.splits)
    have h: "key c \<notin> H" "hist s' (insert (key c) H)"
      using Some Cons.prems(1) by (auto intro: admit_fresh admit_hist dest: admit_fresh)
    from Cons.IH [OF h(2) run(1)] h(1) show ?thesis by (auto simp: run(2))
  qed
qed

end

text \<open>A step relation and a predicate every step keeps.\<close>

locale preserved =
  fixes step :: "'s \<Rightarrow> 's \<Rightarrow> bool"
    and inv :: "'s \<Rightarrow> bool"
  assumes step_keeps: "inv s \<Longrightarrow> step s t \<Longrightarrow> inv t"
begin

lemma run_keeps: "step\<^sup>*\<^sup>* s t \<Longrightarrow> inv s \<Longrightarrow> inv t"
  by (induction rule: rtranclp_induct) (auto intro: step_keeps)

end

end
