(* ===== verification/Wire.thy ===== *)
theory Wire
  imports R8_Prelude
begin

text \<open>
  The wire format (\<open>rust/crates/r8-proto/src/lib.rs\<close>): the 48-byte header, its strict
  validation, packing and unpacking under a packet budget, the 16-bit one's complement checksum
  over a pseudo header, and the two checksummed payload formats CTL and DGRAM.
\<close>

section \<open>Constants, errors and the header\<close>

definition R8_ETHERTYPE :: u16 where "R8_ETHERTYPE = 0x88B5"
definition VERSION :: u8 where "VERSION = 8"
definition HEADER_LEN :: nat where "HEADER_LEN = 48"
definition SERIALIZED_R8_MAX :: nat where "SERIALIZED_R8_MAX = 1280"

definition NH_CTL :: u8 where "NH_CTL = 1"
definition NH_DGRAM :: u8 where "NH_DGRAM = 2"
definition NH_SES :: u8 where "NH_SES = 3"
definition NH_NONE :: u8 where "NH_NONE = 59"

definition CTL_ECHO_REQUEST :: u8 where "CTL_ECHO_REQUEST = 1"
definition CTL_ECHO_REPLY :: u8 where "CTL_ECHO_REPLY = 2"
definition CTL_DEST_UNREACHABLE :: u8 where "CTL_DEST_UNREACHABLE = 128"
definition CTL_TIME_EXCEEDED :: u8 where "CTL_TIME_EXCEEDED = 129"
definition CTL_PACKET_TOO_BIG :: u8 where "CTL_PACKET_TOO_BIG = 130"

lemmas wire_consts =
  VERSION_def HEADER_LEN_def SERIALIZED_R8_MAX_def NH_CTL_def NH_DGRAM_def NH_SES_def NH_NONE_def
  CTL_ECHO_REQUEST_def CTL_ECHO_REPLY_def CTL_DEST_UNREACHABLE_def CTL_TIME_EXCEEDED_def
  CTL_PACKET_TOO_BIG_def

datatype WireError =
    Truncated | TrailingBytes | PacketCap | BindingBudget | LengthOverflow | Version | Profile
  | TrafficClass | NextHeader | HopLimit | Flags | PathSlot | Scid | NonePayload | CtlShort
  | CtlType | CtlCode | CtlBody | CtlChecksum | DgramShort | DgramLength | DgramChecksum

text \<open>A \<open>Loc\<close> is \<open>[u8; 16]\<close>; the array length is the predicate \<open>wf_header\<close> below.\<close>

type_synonym Loc = bytes

record header =
  h_profile :: u8
  h_tc :: u8
  h_next_header :: u8
  h_hop_limit :: u8
  h_flags :: u8
  h_path_slot :: u8
  h_scid :: u64
  h_src :: Loc
  h_dst :: Loc

definition wf_header :: "header \<Rightarrow> bool" where
  "wf_header h \<longleftrightarrow> length (h_src h) = 16 \<and> length (h_dst h) = 16"

definition Header_new :: "u8 \<Rightarrow> Loc \<Rightarrow> Loc \<Rightarrow> header" where
  "Header_new next_header src dst =
     \<lparr>h_profile = 0, h_tc = 0, h_next_header = next_header, h_hop_limit = 64, h_flags = 0,
      h_path_slot = 0, h_scid = 0, h_src = src, h_dst = dst\<rparr>"

definition u16_try_from :: "nat \<Rightarrow> u16 option" where
  "u16_try_from n = (if n < 2 ^ 16 then Some (of_nat n) else None)"

definition u32_try_from :: "nat \<Rightarrow> u32 option" where
  "u32_try_from n = (if n < 2 ^ 32 then Some (of_nat n) else None)"

definition checked_packet_len :: "nat \<Rightarrow> nat \<Rightarrow> WireError + nat" where
  "checked_packet_len payload_len budget =
     (if payload_len > 65535 then Inl LengthOverflow
      else and_then (ok_or LengthOverflow (usize_checked_add HEADER_LEN payload_len)) (\<lambda>total.
        if total > SERIALIZED_R8_MAX then Inl PacketCap
        else if total > budget then Inl BindingBudget
        else Inr total))"

section \<open>Checksum\<close>

definition fold16 :: "u32 \<Rightarrow> u32" where
  "fold16 s = (s AND 0xffff) + drop_bit 16 s"

fun sum16_loop :: "u32 \<Rightarrow> bytes \<Rightarrow> u32" where
  "sum16_loop s (a # b # rest) = sum16_loop (fold16 (s + ucast (u16_from_be_bytes [a, b]))) rest"
| "sum16_loop s [x] = fold16 (s + push_bit 8 (ucast x))"
| "sum16_loop s [] = s"

definition sum16 :: "bytes \<Rightarrow> u32" where
  "sum16 data = sum16_loop 0 data"

definition checksum_raw :: "bytes \<Rightarrow> bytes \<Rightarrow> u16" where
  "checksum_raw pseudo body =
     (let s = fold16 (fold16 (sum16 pseudo + sum16 body))
      in case u16_try_from (unat s) of Some folded \<Rightarrow> NOT folded | None \<Rightarrow> 0)"

definition checksum16 :: "bytes \<Rightarrow> bytes \<Rightarrow> u16" where
  "checksum16 pseudo body =
     (let checksum = checksum_raw pseudo body in if checksum = 0 then 0xffff else checksum)"

definition pseudo_header :: "header \<Rightarrow> u32 \<Rightarrow> u8 \<Rightarrow> bytes" where
  "pseudo_header h payload_len next_header =
     h_src h @ h_dst h @ u32_to_be_bytes payload_len @ u32_to_be_bytes (ucast next_header)"

definition checksum_valid :: "header \<Rightarrow> bytes \<Rightarrow> u8 \<Rightarrow> bool" where
  "checksum_valid h payload next_header \<longleftrightarrow>
     checksum_raw
       (pseudo_header h (case u32_try_from (length payload) of Some n \<Rightarrow> n | None \<Rightarrow> 0xffffffff)
          next_header)
       payload = 0"

section \<open>CTL and DGRAM payloads\<close>

definition validate_ctl :: "u8 \<Rightarrow> u8 \<Rightarrow> bytes \<Rightarrow> WireError + unit" where
  "validate_ctl typ code body =
     (if typ = CTL_ECHO_REQUEST \<or> typ = CTL_ECHO_REPLY then
        if code \<noteq> 0 then Inl CtlCode
        else if length body < 4 then Inl CtlBody
        else Inr ()
      else if typ = CTL_DEST_UNREACHABLE then
        if \<not> (code = 0 \<or> code = 1 \<or> code = 3 \<or> code = 4) then Inl CtlCode
        else if length body > 512 then Inl CtlBody
        else Inr ()
      else if typ = CTL_TIME_EXCEEDED then
        if code \<noteq> 0 then Inl CtlCode
        else if length body > 512 then Inl CtlBody
        else Inr ()
      else if typ = CTL_PACKET_TOO_BIG then
        if code \<noteq> 0 then Inl CtlCode
        else if length body < 4 \<or> length body - 4 > 512 then Inl CtlBody
        else Inr ()
      else Inl CtlType)"

definition validate_ctl_shape :: "bytes \<Rightarrow> WireError + unit" where
  "validate_ctl_shape payload =
     (if length payload < 4 then Inl CtlShort
      else validate_ctl (payload ! 0) (payload ! 1) (drop 4 payload))"

definition parse_ctl :: "header \<Rightarrow> bytes \<Rightarrow> WireError + u8 \<times> u8 \<times> bytes" where
  "parse_ctl h payload =
     and_then (validate_ctl_shape payload) (\<lambda>_.
       if u16_from_be_bytes [payload ! 2, payload ! 3] = 0 \<or> \<not> checksum_valid h payload NH_CTL
       then Inl CtlChecksum
       else Inr (payload ! 0, payload ! 1, drop 4 payload))"

definition validate_dgram_shape :: "bytes \<Rightarrow> WireError + unit" where
  "validate_dgram_shape payload =
     (if length payload < 8 then Inl DgramShort
      else if unat (u16_from_be_bytes [payload ! 4, payload ! 5]) \<noteq> length payload
      then Inl DgramLength
      else Inr ())"

definition parse_dgram :: "header \<Rightarrow> bytes \<Rightarrow> WireError + u16 \<times> u16 \<times> bytes" where
  "parse_dgram h payload =
     and_then (validate_dgram_shape payload) (\<lambda>_.
       if u16_from_be_bytes [payload ! 6, payload ! 7] = 0 \<or> \<not> checksum_valid h payload NH_DGRAM
       then Inl DgramChecksum
       else Inr (u16_from_be_bytes [payload ! 0, payload ! 1],
                 u16_from_be_bytes [payload ! 2, payload ! 3], drop 8 payload))"

section \<open>Header validation\<close>

definition known_next_header :: "u8 \<Rightarrow> bool" where
  "known_next_header nh \<longleftrightarrow> nh = NH_CTL \<or> nh = NH_DGRAM \<or> nh = NH_SES \<or> nh = NH_NONE"

definition validate_ses_header :: "header \<Rightarrow> bytes \<Rightarrow> WireError + unit" where
  "validate_ses_header h payload =
     (if h_scid h = 0 then Inl Scid
      else if length payload < 4 then Inl Truncated
      else let typ = payload ! 0 in
        if \<not> (1 \<le> typ \<and> typ \<le> 7) \<or> payload ! 1 \<noteq> 1 then Inl NextHeader
        else if h_profile h > 3 \<or> payload ! 2 \<noteq> h_profile h then Inl Profile
        else if h_tc h \<noteq> 0 then Inl TrafficClass
        else if h_hop_limit h = 0 then Inl HopLimit
        else if payload ! 3 \<noteq> 0 \<or> h_flags h AND NOT 3 \<noteq> 0 then Inl Flags
        else if typ \<le> 4 then
          if h_flags h \<noteq> 0 then Inl Flags
          else if h_path_slot h \<noteq> 0 then Inl PathSlot
          else Inr ()
        else if typ = 5 then
          if h_flags h \<noteq> 1 then Inl Flags
          else if h_path_slot h \<noteq> 0 then Inl PathSlot
          else Inr ()
        else if h_profile h = 3 then
          if \<not> (h_flags h = 1 \<or> h_flags h = 3) then Inl Flags
          else if h_path_slot h \<noteq> (if h_flags h = 1 then 0 else 1) then Inl PathSlot
          else Inr ()
        else
          if h_flags h \<noteq> 1 then Inl Flags
          else if h_path_slot h \<noteq> 0 then Inl PathSlot
          else Inr ())"

definition validate_header :: "header \<Rightarrow> bytes \<Rightarrow> WireError + unit" where
  "validate_header h payload =
     (if \<not> known_next_header (h_next_header h) then Inl NextHeader
      else if h_next_header h = NH_SES then validate_ses_header h payload
      else if h_profile h > 3 then Inl Profile
      else if h_tc h \<noteq> 0 then Inl TrafficClass
      else if h_hop_limit h = 0 then Inl HopLimit
      else if h_flags h AND NOT 3 \<noteq> 0 then Inl Flags
      else if h_next_header h = NH_CTL then
        if h_profile h \<noteq> 0 then Inl Profile
        else if h_flags h \<noteq> 0 then Inl Flags
        else if h_path_slot h \<noteq> 0 then Inl PathSlot
        else if h_scid h \<noteq> 0 then Inl Scid
        else and_then (parse_ctl h payload) (\<lambda>_. Inr ())
      else if h_next_header h = NH_DGRAM then
        if h_profile h \<noteq> 0 then Inl Profile
        else if h_flags h \<noteq> 0 then Inl Flags
        else if h_path_slot h \<noteq> 0 then Inl PathSlot
        else if h_scid h \<noteq> 0 then Inl Scid
        else and_then (parse_dgram h payload) (\<lambda>_. Inr ())
      else
        if h_profile h \<noteq> 0 then Inl Profile
        else if h_flags h \<noteq> 0 then Inl Flags
        else if h_path_slot h \<noteq> 0 then Inl PathSlot
        else if h_scid h \<noteq> 0 then Inl Scid
        else if payload \<noteq> [] then Inl NonePayload
        else Inr ())"

section \<open>Packing and unpacking\<close>

definition pack_with_budget :: "header \<Rightarrow> bytes \<Rightarrow> nat \<Rightarrow> WireError + bytes" where
  "pack_with_budget h payload budget =
     and_then (checked_packet_len (length payload) budget) (\<lambda>total.
     and_then (validate_header h payload) (\<lambda>_.
     and_then (ok_or LengthOverflow (u16_try_from (length payload))) (\<lambda>payload_len.
       Inr ([push_bit 4 VERSION OR h_profile h, h_tc h] @ u16_to_be_bytes payload_len
            @ [h_next_header h, h_hop_limit h, h_flags h, h_path_slot h]
            @ u64_to_be_bytes (h_scid h) @ h_src h @ h_dst h @ payload))))"

definition pack :: "header \<Rightarrow> bytes \<Rightarrow> WireError + bytes" where
  "pack h payload = pack_with_budget h payload SERIALIZED_R8_MAX"

definition unpack_with_budget :: "bytes \<Rightarrow> nat \<Rightarrow> WireError + header \<times> bytes" where
  "unpack_with_budget data budget =
     (if length data > SERIALIZED_R8_MAX then Inl PacketCap
      else if length data > budget then Inl BindingBudget
      else if length data < HEADER_LEN then Inl Truncated
      else let payload_len = unat (u16_from_be_bytes [data ! 2, data ! 3]) in
        and_then (ok_or LengthOverflow (usize_checked_add HEADER_LEN payload_len)) (\<lambda>expected.
        if length data < expected then Inl Truncated
        else if length data > expected then Inl TrailingBytes
        else if drop_bit 4 (data ! 0) \<noteq> VERSION then Inl Version
        else if \<not> known_next_header (data ! 4) then Inl NextHeader
        else
          let h = \<lparr>h_profile = data ! 0 AND 0x0f, h_tc = data ! 1, h_next_header = data ! 4,
                   h_hop_limit = data ! 5, h_flags = data ! 6, h_path_slot = data ! 7,
                   h_scid = u64_from_be_bytes (slice_of 8 16 data), h_src = slice_of 16 32 data,
                   h_dst = slice_of 32 48 data\<rparr>;
              payload = slice_of HEADER_LEN expected data
          in and_then (validate_header h payload) (\<lambda>_. Inr (h, payload))))"

definition unpack :: "bytes \<Rightarrow> WireError + header \<times> bytes" where
  "unpack data = unpack_with_budget data SERIALIZED_R8_MAX"

section \<open>Builders\<close>

definition build_ctl_with_budget ::
    "header \<Rightarrow> u8 \<Rightarrow> u8 \<Rightarrow> bytes \<Rightarrow> nat \<Rightarrow> WireError + bytes" where
  "build_ctl_with_budget h ctype code body budget =
     (if h_next_header h \<noteq> NH_CTL then Inl NextHeader
      else and_then (ok_or LengthOverflow (usize_checked_add 4 (length body))) (\<lambda>len.
        and_then (checked_packet_len len budget) (\<lambda>_.
        and_then (validate_ctl ctype code body) (\<lambda>_.
        let payload = [ctype, code, 0, 0] @ body in
        and_then (ok_or LengthOverflow (u32_try_from len)) (\<lambda>len32.
        let checksum = checksum16 (pseudo_header h len32 NH_CTL) payload in
        pack_with_budget h (copy_at 2 (u16_to_be_bytes checksum) payload) budget)))))"

definition build_ctl :: "header \<Rightarrow> u8 \<Rightarrow> u8 \<Rightarrow> bytes \<Rightarrow> WireError + bytes" where
  "build_ctl h ctype code body = build_ctl_with_budget h ctype code body SERIALIZED_R8_MAX"

definition build_dgram_with_budget ::
    "header \<Rightarrow> u16 \<Rightarrow> u16 \<Rightarrow> bytes \<Rightarrow> nat \<Rightarrow> WireError + bytes" where
  "build_dgram_with_budget h sport dport data budget =
     (if h_next_header h \<noteq> NH_DGRAM then Inl NextHeader
      else and_then (ok_or LengthOverflow (usize_checked_add 8 (length data))) (\<lambda>len.
        and_then (checked_packet_len len budget) (\<lambda>_.
        and_then (ok_or LengthOverflow (u16_try_from len)) (\<lambda>length_u16.
        let payload = u16_to_be_bytes sport @ u16_to_be_bytes dport
                      @ u16_to_be_bytes length_u16 @ [0, 0] @ data in
        and_then (ok_or LengthOverflow (u32_try_from len)) (\<lambda>len32.
        let checksum = checksum16 (pseudo_header h len32 NH_DGRAM) payload in
        pack_with_budget h (copy_at 6 (u16_to_be_bytes checksum) payload) budget)))))"

definition build_dgram :: "header \<Rightarrow> u16 \<Rightarrow> u16 \<Rightarrow> bytes \<Rightarrow> WireError + bytes" where
  "build_dgram h sport dport data = build_dgram_with_budget h sport dport data SERIALIZED_R8_MAX"

section \<open>The checksum against its reference sum\<close>

text \<open>
  The reference: the plain sum of the big-endian 16-bit words (an odd last byte is the high
  byte of a word), without any folding.
\<close>

fun word_sum :: "bytes \<Rightarrow> nat" where
  "word_sum (a # b # rest) = 256 * unat a + unat b + word_sum rest"
| "word_sum [x] = 256 * unat x"
| "word_sum [] = 0"

lemma u8_lt: "unat (x :: u8) < 256"
  using unsigned_less [where w = x] by simp

lemma u16_lt: "unat (x :: u16) < 65536"
  using unsigned_less [where w = x] by simp

lemma u32_lt: "unat (x :: u32) < 4294967296"
  using unsigned_less [where w = x] by simp

lemma or_push_bit_8: "push_bit 8 a OR b = 256 * a + b" if "b < 256" for a b :: nat
proof -
  have "take_bit 8 b = b" using that by (simp add: take_bit_nat_eq_self)
  then have "push_bit 8 a AND b = 0"
    by (metis bit_eq_iff bit_and_iff bit_push_bit_iff bit_take_bit_iff bit_0_eq not_less bot_apply bot_bool_def)
  then have "push_bit 8 a OR b = push_bit 8 a + b"
    by (metis disjunctive_add_eq_or)
  then show ?thesis by (simp add: push_bit_eq_mult)
qed

lemma unat_from_be_2: "unat (u16_from_be_bytes [a, b]) = 256 * unat a + unat b"
proof -
  have "unat a * 256 < 65536" using u8_lt [of a] by linarith
  moreover have "unat a < 65536" "unat b < 65536"
    using u8_lt [of a] u8_lt [of b] by linarith+
  ultimately have "unat (u16_from_be_bytes [a, b]) = push_bit 8 (unat a) OR unat b"
    by (simp add: from_be_def unsigned_or_eq unsigned_push_bit_eq unsigned_ucast_eq
        take_bit_nat_eq_self push_bit_nat_def)
  then show ?thesis by (simp add: or_push_bit_8 u8_lt)
qed

lemma unat_fold16: "unat (fold16 s) = unat s mod 65536 + unat s div 65536"
proof -
  have "s AND 0xffff = take_bit 16 s" by (simp add: take_bit_eq_mask mask_eq_exp_minus_1)
  then have a: "unat (s AND 0xffff) = unat s mod 65536"
    by (simp only: unsigned_take_bit_eq) (simp add: take_bit_eq_mod)
  have b: "unat (drop_bit 16 s) = unat s div 65536"
    by (simp only: unat_drop_bit_eq) (simp add: drop_bit_eq_div)
  have "unat s mod 65536 + unat s div 65536 < 2 ^ LENGTH(32)"
    using u32_lt [of s] by simp
  then show ?thesis
    by (simp add: fold16_def unat_add_small a b)
qed

lemma fold16_mod: "unat (fold16 s) mod 65535 = unat s mod 65535"
proof -
  have "unat s = unat s mod 65536 + unat s div 65536 + 65535 * (unat s div 65536)"
    by simp
  then show ?thesis by (metis mod_mult_self2 unat_fold16)
qed

lemma fold16_zero: "unat (fold16 s) = 0 \<longleftrightarrow> unat s = 0"
  by (auto simp: unat_fold16)

lemma fold_bound: "n mod 65536 + n div 65536 \<le> 65536" if "n \<le> 131072" for n :: nat
proof (cases "n < 65536")
  case False
  then obtain k where k: "n = 65536 + k" using le_Suc_ex [of 65536 n] by auto
  show ?thesis
  proof (cases "k < 65536")
    case False
    with k that have "k = 65536" by linarith
    with k show ?thesis by simp
  qed (simp add: k)
qed simp

lemma fold16_le: "unat s \<le> 131072 \<Longrightarrow> unat (fold16 s) \<le> 65536"
  unfolding unat_fold16 by (rule fold_bound)

lemma fold16_lt: "unat s \<le> 65536 \<Longrightarrow> unat (fold16 s) < 65536"
  by (cases "unat s = 65536") (simp_all add: unat_fold16)

text \<open>The invariant of the summation loop: no overflow, the residue, and zero only for zero.\<close>

definition sum_rep :: "u32 \<Rightarrow> nat \<Rightarrow> bool" where
  "sum_rep s n \<longleftrightarrow> unat s \<le> 65536 \<and> unat s mod 65535 = n mod 65535 \<and> (unat s = 0 \<longleftrightarrow> n = 0)"

lemma sum_rep_step:
  assumes "sum_rep s n" and "unat w < 65536"
  shows "sum_rep (fold16 (s + w)) (n + unat w)"
proof -
  have le: "unat s \<le> 65536" using assms by (simp add: sum_rep_def)
  then have u: "unat (s + w) = unat s + unat w"
    using assms(2) by (intro unat_add_small) simp
  have "unat (fold16 (s + w)) mod 65535 = (n + unat w) mod 65535"
    using assms(1) by (simp add: fold16_mod u sum_rep_def) (metis mod_add_left_eq)
  moreover have "unat (fold16 (s + w)) \<le> 65536"
    by (rule fold16_le) (use u le assms(2) in linarith)
  moreover have "unat (fold16 (s + w)) = 0 \<longleftrightarrow> n + unat w = 0"
    using assms(1) by (simp only: fold16_zero u sum_rep_def) auto
  ultimately show ?thesis by (simp add: sum_rep_def)
qed

lemma unat_ucast_16_32: "unat (ucast (w :: u16) :: u32) = unat w"
  using u16_lt [of w] by (simp add: unsigned_ucast_eq take_bit_nat_eq_self_iff)

lemma unat_push_8_32: "unat (push_bit 8 (ucast (x :: u8) :: u32)) = 256 * unat x"
  using u8_lt [of x]
  by (simp add: unsigned_push_bit_eq unsigned_ucast_eq push_bit_nat_def take_bit_nat_eq_self)

lemma sum_rep_loop: "sum_rep s n \<Longrightarrow> sum_rep (sum16_loop s d) (n + word_sum d)"
proof (induction s d arbitrary: n rule: sum16_loop.induct)
  case (1 s a b rest)
  have "sum_rep (fold16 (s + ucast (u16_from_be_bytes [a, b]))) (n + (256 * unat a + unat b))"
    using sum_rep_step [OF "1.prems", of "ucast (u16_from_be_bytes [a, b])"]
    by (simp only: unat_ucast_16_32 unat_from_be_2) (metis u16_lt unat_from_be_2)
  from "1.IH" [OF this] show ?case by (simp add: add.assoc)
next
  case (2 s x)
  then show ?case
    using sum_rep_step [OF 2, of "push_bit 8 (ucast x)"] u8_lt [of x]
    by (simp add: unat_push_8_32)
qed simp

lemma sum_rep_sum16: "sum_rep (sum16 d) (word_sum d)"
  using sum_rep_loop [of 0 0 d] by (simp add: sum16_def sum_rep_def)

lemma unat_not_u16: "unat (NOT (w :: u16)) = 65535 - unat w"
proof -
  have "NOT w = - 1 - w" by (simp add: not_eq_complement)
  moreover have "unat (- 1 - w) = unat (- 1 :: u16) - unat w"
    by (rule unat_sub) simp
  ultimately show ?thesis by (simp add: unsigned_minus_1_eq_mask mask_eq_exp_minus_1)
qed

text \<open>
  The folded sum fits 16 bits (the \<open>Err\<close> arm of the source's \<open>match\<close> is never taken) and
  represents the reference sum modulo 65535.
\<close>

lemma checksum_raw_rep:
  obtains f where "checksum_raw p b = NOT f"
    and "unat f mod 65535 = (word_sum p + word_sum b) mod 65535"
    and "unat f = 0 \<longleftrightarrow> word_sum p + word_sum b = 0"
proof -
  let ?s = "sum16 p + sum16 b"
  have r: "sum_rep (sum16 p) (word_sum p)" "sum_rep (sum16 b) (word_sum b)"
    by (rule sum_rep_sum16)+
  then have le: "unat (sum16 p) \<le> 65536" "unat (sum16 b) \<le> 65536" by (simp_all add: sum_rep_def)
  then have u: "unat ?s = unat (sum16 p) + unat (sum16 b)"
    by (intro unat_add_small) simp
  have m: "unat ?s mod 65535 = (word_sum p + word_sum b) mod 65535"
    using r unfolding u sum_rep_def by (metis mod_add_eq)
  have z: "unat ?s = 0 \<longleftrightarrow> word_sum p + word_sum b = 0"
    using r unfolding u sum_rep_def by auto
  have "unat (fold16 ?s) \<le> 65536" using le u by (intro fold16_le) linarith
  then have lt: "unat (fold16 (fold16 ?s)) < 65536"
    by (rule fold16_lt)
  let ?f = "ucast (fold16 (fold16 ?s)) :: u16"
  have f: "unat ?f = unat (fold16 (fold16 ?s))"
    using lt by (simp add: unsigned_ucast_eq take_bit_nat_eq_self)
  show thesis
  proof
    show "checksum_raw p b = NOT ?f"
      using lt by (simp add: checksum_raw_def u16_try_from_def)
    show "unat ?f mod 65535 = (word_sum p + word_sum b) mod 65535"
      by (simp add: f fold16_mod m)
    show "unat ?f = 0 \<longleftrightarrow> word_sum p + word_sum b = 0"
      by (simp add: f fold16_zero z)
  qed
qed

lemma unat_u16_eq_0: "unat w = 0 \<longleftrightarrow> w = 0" for w :: u16
  by (metis unat_0 unsigned_word_eqI)

lemma checksum_raw_eq_0:
  "checksum_raw p b = 0 \<longleftrightarrow> 65535 dvd word_sum p + word_sum b \<and> 0 < word_sum p + word_sum b"
proof -
  obtain f where f: "checksum_raw p b = NOT f"
    "unat f mod 65535 = (word_sum p + word_sum b) mod 65535"
    "unat f = 0 \<longleftrightarrow> word_sum p + word_sum b = 0"
    by (rule checksum_raw_rep)
  have "checksum_raw p b = 0 \<longleftrightarrow> unat f = 65535"
    using u16_lt [of f] unat_not_u16 [of f] unat_u16_eq_0 [of "NOT f"] by (auto simp: f(1))
  also have "\<dots> \<longleftrightarrow> unat f mod 65535 = 0 \<and> unat f \<noteq> 0"
    using u16_lt [of f] by auto
  finally show ?thesis by (simp only: f(2,3)) auto
qed

lemma checksum16_residue:
  "65535 dvd word_sum p + word_sum b + unat (checksum16 p b)" (is ?D)
  "checksum16 p b \<noteq> 0" (is ?N)
proof -
  obtain f where f: "checksum_raw p b = NOT f"
    "unat f mod 65535 = (word_sum p + word_sum b) mod 65535"
    by (rule checksum_raw_rep)
  have c: "unat (checksum16 p b) = (if unat f = 65535 then 65535 else 65535 - unat f)"
    using unat_not_u16 [of f] unat_u16_eq_0 [of "NOT f"] u16_lt [of f]
    by (auto simp: checksum16_def f(1) Let_def)
  have "(word_sum p + word_sum b + unat (checksum16 p b)) mod 65535
      = (unat f + unat (checksum16 p b)) mod 65535"
    using f(2) by (metis mod_add_left_eq)
  also have "\<dots> = 0" using u16_lt [of f] by (auto simp: c)
  finally show ?D by (rule mod_0_imp_dvd)
  have "unat (checksum16 p b) \<noteq> 0" using u16_lt [of f] by (auto simp: c)
  then show ?N by (simp add: unat_u16_eq_0)
qed

section \<open>Round trips\<close>

lemma u8_le_3_cases: "p \<le> 3 \<longleftrightarrow> p = 0 \<or> p = 1 \<or> p = 2 \<or> p = 3" for p :: u8
proof
  assume "p \<le> 3"
  then have "unat p \<le> 3" by (simp add: word_le_nat_alt)
  then have "unat p = 0 \<or> unat p = 1 \<or> unat p = 2 \<or> unat p = 3" by linarith
  then show "p = 0 \<or> p = 1 \<or> p = 2 \<or> p = 3" by (simp add: word_unat_eq_iff)
qed auto

lemma validate_header_profile: "validate_header h p = Inr u \<Longrightarrow> h_profile h \<le> 3"
  by (auto simp: validate_header_def validate_ses_header_def Let_def not_less split: if_splits)

lemma validate_header_known: "validate_header h p = Inr u \<Longrightarrow> known_next_header (h_next_header h)"
  by (auto simp: validate_header_def split: if_splits)

lemma version_nibble:
  "p \<le> 3 \<Longrightarrow> drop_bit 4 (push_bit 4 VERSION) OR drop_bit 4 p = VERSION"
  "p \<le> 3 \<Longrightarrow> (push_bit 4 VERSION OR p) AND 0x0f = p"
  by (auto simp: u8_le_3_cases VERSION_def)

lemma version_nibble_join: "drop_bit 4 x = v \<Longrightarrow> push_bit 4 v OR (x AND 0x0f) = x" for x v :: u8
proof -
  assume "drop_bit 4 x = v"
  moreover have "x AND 0x0f = take_bit 4 x" by (simp add: take_bit_eq_mask mask_eq_exp_minus_1)
  ultimately show ?thesis
    by (auto intro!: bit_word_eqI simp: bit_simps)
qed

lemma take_nth_list: "n \<le> length xs \<Longrightarrow> take n xs = map ((!) xs) [0..<n]"
  by (rule nth_equalityI) auto

lemma take_8: "8 \<le> length xs \<Longrightarrow>
    take 8 xs = [xs ! 0, xs ! 1, xs ! 2, xs ! 3, xs ! 4, xs ! 5, xs ! 6, xs ! 7]"
  by (simp add: take_nth_list numeral_eq_Suc)

text \<open>The byte image of a header and payload, as \<open>pack_with_budget\<close> writes it.\<close>

definition header_image :: "header \<Rightarrow> bytes \<Rightarrow> bytes" where
  "header_image h payload =
     [push_bit 4 VERSION OR h_profile h, h_tc h] @ u16_to_be_bytes (of_nat (length payload))
     @ [h_next_header h, h_hop_limit h, h_flags h, h_path_slot h]
     @ u64_to_be_bytes (h_scid h) @ h_src h @ h_dst h @ payload"

lemma pack_iff:
  "pack_with_budget h p b = Inr d \<longleftrightarrow>
     length p + 48 \<le> 1280 \<and> length p + 48 \<le> b \<and> validate_header h p = Inr () \<and>
     d = header_image h p"
  by (auto simp: pack_with_budget_def checked_packet_len_def result_simps u16_try_from_def
      wire_consts header_image_def)

lemma length_header_image: "wf_header h \<Longrightarrow> length (header_image h p) = 48 + length p"
  by (simp add: header_image_def wf_header_def)

lemma header_image_nth:
  "header_image h p ! 0 = push_bit 4 VERSION OR h_profile h"
  "header_image h p ! Suc 0 = h_tc h"
  "[header_image h p ! 2, header_image h p ! 3] = u16_to_be_bytes (of_nat (length p))"
  "header_image h p ! 4 = h_next_header h"
  "header_image h p ! 5 = h_hop_limit h"
  "header_image h p ! 6 = h_flags h"
  "header_image h p ! 7 = h_path_slot h"
  by (simp_all add: header_image_def to_be_2)

lemma header_image_slices:
  assumes "wf_header h"
  shows "slice_of 8 16 (header_image h p) = u64_to_be_bytes (h_scid h)"
    "slice_of 16 32 (header_image h p) = h_src h"
    "slice_of 32 48 (header_image h p) = h_dst h"
    "drop 48 (header_image h p) = p"
  using assms by (simp_all add: header_image_def wf_header_def)

lemma header_eta [simp]:
  "\<lparr>h_profile = h_profile h, h_tc = h_tc h, h_next_header = h_next_header h,
    h_hop_limit = h_hop_limit h, h_flags = h_flags h, h_path_slot = h_path_slot h,
    h_scid = h_scid h, h_src = h_src h, h_dst = h_dst h\<rparr> = h"
  by simp

text \<open>Unpacking accepts exactly the images of valid headers and payloads within the budget.\<close>

lemma unpack_image:
  assumes "wf_header h" and "length p + 48 \<le> 1280" and "length p + 48 \<le> b"
    and "validate_header h p = Inr ()"
  shows "unpack_with_budget (header_image h p) b = Inr (h, p)"
proof -
  have "unat (u16_from_be_bytes [header_image h p ! 2, header_image h p ! 3]) = length p"
    using assms(2) by (simp add: header_image_nth unat_of_nat)
  moreover have "h_profile h \<le> 3" "known_next_header (h_next_header h)"
    using assms(4) by (auto dest: validate_header_profile validate_header_known)
  ultimately show ?thesis
    using assms
    by (simp add: unpack_with_budget_def length_header_image wire_consts(2,3) Let_def
        header_image_nth(1,2,4,5,6,7) header_image_slices version_nibble)
qed

lemma unpack_invert:
  assumes "unpack_with_budget d b = Inr (h, p)"
  shows "wf_header h" "length p + 48 \<le> 1280" "length p + 48 \<le> b"
    "validate_header h p = Inr ()" "d = header_image h p"
proof -
  have len: "length d \<le> 1280" "length d \<le> b" "48 \<le> length d"
    and pl: "length d = 48 + unat (u16_from_be_bytes [d ! 2, d ! 3])"
    and ver: "drop_bit 4 (d ! 0) = VERSION"
    and h: "h = \<lparr>h_profile = d ! 0 AND 0x0f, h_tc = d ! 1, h_next_header = d ! 4,
                 h_hop_limit = d ! 5, h_flags = d ! 6, h_path_slot = d ! 7,
                 h_scid = u64_from_be_bytes (slice_of 8 16 d), h_src = slice_of 16 32 d,
                 h_dst = slice_of 32 48 d\<rparr>"
    and p: "p = drop 48 d" and v: "validate_header h p = Inr ()"
    using assms
    by (auto simp: unpack_with_budget_def Let_def result_simps wire_consts(2,3)
        split: if_splits)
  have lp: "length p = unat (u16_from_be_bytes [d ! 2, d ! 3])" using pl p by simp
  show "wf_header h" "length p + 48 \<le> 1280" "length p + 48 \<le> b" "validate_header h p = Inr ()"
    using len pl p v by (simp_all add: wf_header_def h)
  have "d = take 8 d @ slice_of 8 16 d @ slice_of 16 32 d @ slice_of 32 48 d @ drop 48 d"
    by (simp add: slice_drop_join)
  also have "\<dots> = header_image h p"
    using len version_nibble_join [OF ver] lp
    by (simp add: header_image_def h take_8 p)
  finally show "d = header_image h p" .
qed

lemma unpack_iff:
  "unpack_with_budget d b = Inr (h, p) \<longleftrightarrow>
     wf_header h \<and> length p + 48 \<le> 1280 \<and> length p + 48 \<le> b \<and>
     validate_header h p = Inr () \<and> d = header_image h p"
proof
  assume u: "unpack_with_budget d b = Inr (h, p)"
  show "wf_header h \<and> length p + 48 \<le> 1280 \<and> length p + 48 \<le> b \<and>
      validate_header h p = Inr () \<and> d = header_image h p"
    by (intro conjI unpack_invert [OF u])
qed (simp add: unpack_image)

interpretation wire: codec "\<lambda>(h, p). pack_with_budget h p b" "\<lambda>d. unpack_with_budget d b"
    "\<lambda>(h, p). wf_header h" for b
  by unfold_locales (auto simp: pack_iff unpack_iff)

text \<open>Rewriting the hop-limit byte of a packet, as a forwarder does, only changes that field.\<close>

lemma validate_header_hop:
  "validate_header h p = Inr () \<Longrightarrow> k \<noteq> 0 \<Longrightarrow> validate_header (h\<lparr>h_hop_limit := k\<rparr>) p = Inr ()"
  by (auto simp: validate_header_def validate_ses_header_def parse_ctl_def parse_dgram_def
      checksum_valid_def pseudo_header_def Let_def result_simps split: if_splits)

lemma header_image_hop:
  "(header_image h p)[5 := k] = header_image (h\<lparr>h_hop_limit := k\<rparr>) p"
  by (simp add: header_image_def to_be_2)

lemma unpack_set_hop:
  assumes "unpack_with_budget d b = Inr (h, p)" and "k \<noteq> 0"
  shows "unpack_with_budget (d[5 := k]) b = Inr (h\<lparr>h_hop_limit := k\<rparr>, p)"
  using assms by (auto simp: unpack_iff wf_header_def header_image_hop intro: validate_header_hop)

lemma unpack_hop_nonzero: "unpack_with_budget d b = Inr (h, p) \<Longrightarrow> h_hop_limit h \<noteq> 0"
  by (auto simp: unpack_iff validate_header_def validate_ses_header_def Let_def split: if_splits)

lemma unpack_length: "unpack_with_budget d b = Inr (h, p) \<Longrightarrow> length d = 48 + length p"
  by (simp add: unpack_iff length_header_image)

lemma unpack_budget_mono:
  "unpack_with_budget d b = Inr hp \<Longrightarrow> length d \<le> b' \<Longrightarrow> unpack_with_budget d b' = Inr hp"
  by (cases hp) (auto simp: unpack_iff length_header_image)

section \<open>Builders produce packets the parsers accept\<close>

definition plain_header :: "u8 \<Rightarrow> header \<Rightarrow> bool" where
  "plain_header nh h \<longleftrightarrow>
     h_next_header h = nh \<and> h_profile h = 0 \<and> h_tc h = 0 \<and> h_hop_limit h \<noteq> 0 \<and> h_flags h = 0 \<and>
     h_path_slot h = 0 \<and> h_scid h = 0"

lemma plain_validate_ctl:
  "plain_header NH_CTL h \<Longrightarrow> validate_header h p = and_then (parse_ctl h p) (\<lambda>_. Inr ())"
  by (simp add: plain_header_def validate_header_def known_next_header_def wire_consts)

lemma plain_validate_dgram:
  "plain_header NH_DGRAM h \<Longrightarrow> validate_header h p = and_then (parse_dgram h p) (\<lambda>_. Inr ())"
  by (simp add: plain_header_def validate_header_def known_next_header_def wire_consts)

lemma unat_be_pair: "256 * unat (ucast (drop_bit 8 c) :: u8) + unat (ucast c :: u8) = unat c"
  for c :: u16
proof -
  have "u16_from_be_bytes (to_be 2 c) = c" by simp
  then show ?thesis
    using unat_from_be_2 [of "ucast (drop_bit 8 c)" "ucast c"] by (simp only: to_be_2)
qed

text \<open>Writing the computed checksum over a zeroed field makes the payload verify.\<close>

lemma patched_checksum:
  assumes "word_sum b' = word_sum b + unat (checksum16 p b)"
  shows "checksum_raw p b' = 0"
  using checksum16_residue(1) [of p b] checksum16_residue(2) [of p b] assms
  by (simp add: checksum_raw_eq_0 unat_gt_0 add.assoc)

lemma ctl_payload: "copy_at 2 (u16_to_be_bytes c) ([t, k, 0, 0] @ body) = [t, k] @ to_be 2 c @ body"
  by (simp add: copy_at_def numeral_2_eq_2)

lemma dgram_payload:
  "copy_at 6 (u16_to_be_bytes c) (to_be 2 (s :: u16) @ to_be 2 (d :: u16) @ to_be 2 (n :: u16)
     @ [0, 0] @ body) = to_be 2 s @ to_be 2 d @ to_be 2 n @ to_be 2 c @ body"
  by (simp add: copy_at_def)

lemma ctl_built_checksum:
  assumes "length body + 4 < 2 ^ 32"
  shows "checksum_valid h ([t, k] @ to_be 2 (checksum16 (pseudo_header h (of_nat (4 + length body)) NH_CTL)
           ([t, k, 0, 0] @ body)) @ body) NH_CTL"
proof -
  let ?ps = "pseudo_header h (of_nat (4 + length body)) NH_CTL"
  let ?c = "checksum16 ?ps ([t, k, 0, 0] @ body)"
  have "checksum_raw ?ps ([t, k] @ to_be 2 ?c @ body) = 0"
    by (rule patched_checksum [where b = "[t, k, 0, 0] @ body"])
      (use unat_be_pair [of ?c] in \<open>simp add: to_be_2\<close>)
  then show ?thesis
    using assms by (simp add: checksum_valid_def u32_try_from_def)
qed

lemma dgram_built_checksum:
  fixes s d n :: u16
  assumes "length body + 8 < 2 ^ 32"
  shows "checksum_valid h (to_be 2 s @ to_be 2 d @ to_be 2 n
           @ to_be 2 (checksum16 (pseudo_header h (of_nat (8 + length body)) NH_DGRAM)
               (to_be 2 s @ to_be 2 d @ to_be 2 n @ [0, 0] @ body)) @ body) NH_DGRAM"
proof -
  let ?ps = "pseudo_header h (of_nat (8 + length body)) NH_DGRAM"
  let ?z = "to_be 2 s @ to_be 2 d @ to_be 2 n @ [0, 0] @ body"
  let ?c = "checksum16 ?ps ?z"
  have "checksum_raw ?ps (to_be 2 s @ to_be 2 d @ to_be 2 n @ to_be 2 ?c @ body) = 0"
    by (rule patched_checksum [where b = ?z])
      (use unat_be_pair [of ?c] in \<open>simp add: to_be_2\<close>)
  then show ?thesis
    using assms by (simp add: checksum_valid_def u32_try_from_def)
qed

lemma be_pair_from_be: "u16_from_be_bytes [ucast (drop_bit 8 c), ucast c] = c" for c :: u16
proof -
  have "u16_from_be_bytes (to_be 2 c) = c" by simp
  then show ?thesis by (simp only: to_be_2)
qed

lemma build_ctl_payload_parses:
  assumes "validate_ctl t k body = Inr ()" and "length body + 4 < 2 ^ 32"
    and c: "c = checksum16 (pseudo_header h (of_nat (4 + length body)) NH_CTL) ([t, k, 0, 0] @ body)"
  shows "parse_ctl h ([t, k] @ to_be 2 c @ body) = Inr (t, k, body)"
proof -
  have "checksum_valid h ([t, k] @ to_be 2 c @ body) NH_CTL"
    unfolding c by (rule ctl_built_checksum) (rule assms(2))
  moreover have "c \<noteq> 0" unfolding c by (rule checksum16_residue(2))
  ultimately show ?thesis
    using assms(1)
    by (simp add: parse_ctl_def validate_ctl_shape_def to_be_2 be_pair_from_be)
qed

lemma build_dgram_payload_parses:
  fixes s d n :: u16
  assumes "n = of_nat (8 + length body)" and len: "8 + length body < 2 ^ 16"
    and c: "c = checksum16 (pseudo_header h (of_nat (8 + length body)) NH_DGRAM)
               (to_be 2 s @ to_be 2 d @ to_be 2 n @ [0, 0] @ body)"
  shows "parse_dgram h (to_be 2 s @ to_be 2 d @ to_be 2 n @ to_be 2 c @ body) = Inr (s, d, body)"
proof -
  have "checksum_valid h (to_be 2 s @ to_be 2 d @ to_be 2 n @ to_be 2 c @ body) NH_DGRAM"
    unfolding c by (rule dgram_built_checksum) (use len in simp)
  moreover have "c \<noteq> 0" unfolding c by (rule checksum16_residue(2))
  moreover have "unat n = 8 + length body" unfolding assms(1) using len by (subst unat_of_nat) simp
  ultimately show ?thesis
    by (simp add: parse_dgram_def validate_dgram_shape_def to_be_2 be_pair_from_be)
qed

section \<open>Corruption\<close>

text \<open>Replacing one byte moves the reference sum by less than 65535, in either direction.\<close>

definition byte_weight :: "nat \<Rightarrow> nat" where
  "byte_weight i = (if even i then 256 else 1)"

lemma byte_weight_Suc_Suc [simp]: "byte_weight (Suc (Suc i)) = byte_weight i"
  by (simp add: byte_weight_def)

lemma word_sum_update:
  "i < length xs \<Longrightarrow>
     word_sum (xs[i := x]) + byte_weight i * unat (xs ! i) = word_sum xs + byte_weight i * unat x"
proof (induction xs arbitrary: i rule: word_sum.induct)
  case (1 a b rest)
  show ?case
  proof (cases "i < 2")
    case True
    then have "i = 0 \<or> i = 1" by linarith
    then show ?thesis by (auto simp: byte_weight_def)
  next
    case False
    then obtain j where "i = Suc (Suc j)" by (metis add_2_eq_Suc le_Suc_ex not_less)
    with 1 show ?thesis by simp
  qed
qed (auto simp: byte_weight_def)

lemma residue_unique:
  fixes a b w :: nat
  assumes "65535 dvd s" and "65535 dvd t" and "t + w * a = s + w * b"
    and "a < 256" and "b < 256" and "w = 1 \<or> w = 256"
  shows "a = b"
proof -
  have "int t - int s = int w * (int b - int a)"
    using arg_cong [OF assms(3), of int] by (simp add: algebra_simps)
  moreover have "(65535 :: int) dvd int t - int s"
    using assms(1,2) by (metis dvd_diff int_dvd_int_iff of_nat_numeral)
  ultimately obtain k where k: "int w * (int b - int a) = 65535 * k" by (metis dvdE)
  have "\<bar>int w * (int b - int a)\<bar> < 65535" using assms(4-6) by auto
  with k have "k = 0" by linarith
  with k assms(6) show ?thesis by auto
qed

lemma checksum_valid_byte:
  assumes "checksum_valid h p nh" and "checksum_valid h (p[i := x]) nh" and "i < length p"
  shows "x = p ! i"
proof -
  let ?ps = "word_sum (pseudo_header h (case u32_try_from (length p) of Some n \<Rightarrow> n | None \<Rightarrow> 0xffffffff) nh)"
  have "65535 dvd ?ps + word_sum p" "65535 dvd ?ps + word_sum (p[i := x])"
    using assms(1,2) by (simp_all add: checksum_valid_def checksum_raw_eq_0)
  moreover have "?ps + word_sum (p[i := x]) + byte_weight i * unat (p ! i)
      = ?ps + word_sum p + byte_weight i * unat x"
    using word_sum_update [OF assms(3), of x] by simp
  ultimately have "unat (p ! i) = unat x"
    by (rule residue_unique) (simp_all add: u8_lt byte_weight_def)
  then show ?thesis by (simp add: word_unat_eq_iff)
qed

section \<open>Properties\<close>

text \<open>C16: A byte string unpacks to a header and payload exactly when packing that header and
  payload under the same budget gives the byte string: decoding inverts encoding, and no two
  packets decode alike.\<close>

theorem wire_unpack_iff_pack:
  "unpack_with_budget d b = Inr (h, p) \<longleftrightarrow> wf_header h \<and> pack_with_budget h p b = Inr d"
  using wire.dec_iff_enc [of d b "(h, p)"] by simp

text \<open>The folded 32-bit checksum arithmetic implements the reference: a payload verifies
  exactly when the unfolded sum of the 16-bit words of pseudo header and payload is a positive
  multiple of 65535. No intermediate sum overflows.\<close>

theorem checksum_valid_reference:
  "checksum_valid h p nh \<longleftrightarrow>
     (let s = word_sum (pseudo_header h (if length p < 2 ^ 32 then of_nat (length p) else 0xffffffff) nh)
              + word_sum p
      in 65535 dvd s \<and> 0 < s)"
  by (simp add: checksum_valid_def checksum_raw_eq_0 u32_try_from_def Let_def)

text \<open>For a plain CTL header and a body the CTL rules allow, within the size limits,
  \<open>build_ctl_with_budget\<close> succeeds, its packet unpacks to the same header, and the payload
  parses to the same type, code and body.\<close>

theorem build_ctl_roundtrip:
  assumes "wf_header h" and "plain_header NH_CTL h" and "validate_ctl t k body = Inr ()"
    and "52 + length body \<le> 1280" and "52 + length body \<le> b"
  shows "\<exists>d p. build_ctl_with_budget h t k body b = Inr d \<and> unpack_with_budget d b = Inr (h, p) \<and>
    parse_ctl h p = Inr (t, k, body)"
proof -
  define c where "c = checksum16 (pseudo_header h (of_nat (4 + length body)) NH_CTL) ([t, k, 0, 0] @ body)"
  define p where "p = [t, k] @ to_be 2 c @ body"
  have parse: "parse_ctl h p = Inr (t, k, body)"
    unfolding p_def by (rule build_ctl_payload_parses) (use assms c_def in simp_all)
  have v: "validate_header h p = Inr ()"
    using assms(2) by (simp add: plain_validate_ctl parse)
  have "build_ctl_with_budget h t k body b = pack_with_budget h p b"
    using assms ctl_payload [of c t k body]
    by (simp add: build_ctl_with_budget_def plain_header_def checked_packet_len_def wire_consts(2,3)
        u32_try_from_def c_def p_def Let_def)
  also have "\<dots> = Inr (header_image h p)"
    using assms v by (simp add: pack_iff p_def)
  finally have "build_ctl_with_budget h t k body b = Inr (header_image h p)" .
  moreover have "unpack_with_budget (header_image h p) b = Inr (h, p)"
    by (rule unpack_image) (use assms v in \<open>simp_all add: p_def\<close>)
  ultimately show ?thesis using parse by blast
qed

theorem build_ctl_roundtrip_witness:
  "\<exists>d p. build_ctl_with_budget (Header_new NH_CTL (replicate 16 1) (replicate 16 2))
        CTL_ECHO_REQUEST 0 [0, 1, 0, 2] 100 = Inr d \<and>
     unpack_with_budget d 100 = Inr (Header_new NH_CTL (replicate 16 1) (replicate 16 2), p) \<and>
     parse_ctl (Header_new NH_CTL (replicate 16 1) (replicate 16 2)) p
       = Inr (CTL_ECHO_REQUEST, 0, [0, 1, 0, 2])"
  by (rule build_ctl_roundtrip)
    (simp_all add: wf_header_def plain_header_def Header_new_def validate_ctl_def)

text \<open>For a plain DGRAM header and data within the size limits, \<open>build_dgram_with_budget\<close>
  succeeds, its packet unpacks to the same header, and the payload parses to the same ports and
  data.\<close>

theorem build_dgram_roundtrip:
  assumes "wf_header h" and "plain_header NH_DGRAM h"
    and "56 + length data \<le> 1280" and "56 + length data \<le> b"
  shows "\<exists>d p. build_dgram_with_budget h s t data b = Inr d \<and>
    unpack_with_budget d b = Inr (h, p) \<and> parse_dgram h p = Inr (s, t, data)"
proof -
  define n :: u16 where "n = of_nat (8 + length data)"
  define c where "c = checksum16 (pseudo_header h (of_nat (8 + length data)) NH_DGRAM)
    (to_be 2 s @ to_be 2 t @ to_be 2 n @ [0, 0] @ data)"
  define p where "p = to_be 2 s @ to_be 2 t @ to_be 2 n @ to_be 2 c @ data"
  have parse: "parse_dgram h p = Inr (s, t, data)"
    unfolding p_def by (rule build_dgram_payload_parses) (use assms c_def n_def in simp_all)
  have v: "validate_header h p = Inr ()"
    using assms(2) by (simp add: plain_validate_dgram parse)
  have "build_dgram_with_budget h s t data b = pack_with_budget h p b"
    using assms dgram_payload [of c s t n data]
    by (simp add: build_dgram_with_budget_def plain_header_def checked_packet_len_def
        wire_consts(2,3) u16_try_from_def u32_try_from_def c_def p_def n_def Let_def)
  also have "\<dots> = Inr (header_image h p)"
    using assms v by (simp add: pack_iff p_def)
  finally have "build_dgram_with_budget h s t data b = Inr (header_image h p)" .
  moreover have "unpack_with_budget (header_image h p) b = Inr (h, p)"
    by (rule unpack_image) (use assms v in \<open>simp_all add: p_def\<close>)
  ultimately show ?thesis using parse by blast
qed

theorem build_dgram_roundtrip_witness:
  "\<exists>d p. build_dgram_with_budget (Header_new NH_DGRAM (replicate 16 1) (replicate 16 2))
        4660 22136 [7, 8, 9] 59 = Inr d \<and>
     unpack_with_budget d 59 = Inr (Header_new NH_DGRAM (replicate 16 1) (replicate 16 2), p) \<and>
     parse_dgram (Header_new NH_DGRAM (replicate 16 1) (replicate 16 2)) p
       = Inr (4660, 22136, [7, 8, 9])"
  by (rule build_dgram_roundtrip)
    (simp_all add: wf_header_def plain_header_def Header_new_def)

text \<open>Changing any single byte of an accepted CTL or DGRAM payload makes the parser reject
  it.\<close>

theorem single_byte_corruption_rejected:
  assumes "i < length p" and "x \<noteq> p ! i"
  shows "(is_ok (parse_ctl h p) \<longrightarrow> \<not> is_ok (parse_ctl h (p[i := x]))) \<and>
    (is_ok (parse_dgram h p) \<longrightarrow> \<not> is_ok (parse_dgram h (p[i := x])))"
  using assms checksum_valid_byte [of h p _ i x]
  by (auto simp: parse_ctl_def parse_dgram_def is_ok_iff result_simps split: if_splits)

definition sample_loc :: Loc where
  "sample_loc = [0, 0, 0, 0, 0, 0, 0, 0, 0, 0, 0, 0, 0, 0, 0, 0]"

theorem single_byte_corruption_rejected_witness:
  "is_ok (parse_ctl (Header_new NH_CTL sample_loc sample_loc) [1, 0, 254, 246, 0, 0, 0, 0]) \<and>
   \<not> is_ok (parse_ctl (Header_new NH_CTL sample_loc sample_loc)
       ([1, 0, 254, 246, 0, 0, 0, 0][5 := 3]))"
proof -
  have ok: "is_ok (parse_ctl (Header_new NH_CTL sample_loc sample_loc) [1, 0, 254, 246, 0, 0, 0, 0])"
    by (simp add: parse_ctl_def Header_new_def sample_loc_def validate_ctl_shape_def
        validate_ctl_def wire_consts checksum_valid_def checksum_raw_eq_0 u32_try_from_def
        pseudo_header_def to_be_4 from_be_def)
  show ?thesis
    using ok single_byte_corruption_rejected [of 5 "[1, 0, 254, 246, 0, 0, 0, 0]" 3] by simp
qed

end
