(* ===== verification/Session_Types.thy ===== *)
theory Session_Types
  imports Wire
begin

text \<open>The error type and the protocol constants of \<open>rust/crates/r8-session/src/lib.rs\<close>.\<close>

definition WIRE_VERSION :: u8 where "WIRE_VERSION = 8"
definition SESSION_VERSION :: u8 where "SESSION_VERSION = 1"
definition OPEN :: u8 where "OPEN = 1"
definition VERIFY_COOKIE :: u8 where "VERIFY_COOKIE = 2"
definition OPEN_AUTH :: u8 where "OPEN_AUTH = 3"
definition OPEN_ACK :: u8 where "OPEN_ACK = 4"
definition SESSION_ACCEPT :: u8 where "SESSION_ACCEPT = 5"
definition SESSION_DATA :: u8 where "SESSION_DATA = 6"
definition CLOSE :: u8 where "CLOSE = 7"
definition REPLAY_WINDOW :: u64 where "REPLAY_WINDOW = 4096"
definition REPLAY_JUMP_MAX :: u64 where "REPLAY_JUMP_MAX = 65536"
definition PROFILE3_DATA_PACKET_OVERHEAD :: nat where "PROFILE3_DATA_PACKET_OVERHEAD = 84"

lemmas session_consts =
  WIRE_VERSION_def SESSION_VERSION_def OPEN_def VERIFY_COOKIE_def OPEN_AUTH_def OPEN_ACK_def
  SESSION_ACCEPT_def SESSION_DATA_def CLOSE_def REPLAY_WINDOW_def REPLAY_JUMP_MAX_def
  PROFILE3_DATA_PACKET_OVERHEAD_def

datatype SessionError =
    Truncated | TrailingBytes | Type | Version | Profile | Flags | RoleMismatch | ServiceMismatch
  | PinMismatch | EidKeyMismatch | CookieInvalid | AuthFailed | CounterRange | CounterExhausted
  | Replay | ScidCollision | Capacity | RestartRequired | Timeout | UnexpectedMessage | Budget
  | Binding | RngFailure | ConfigError

end
