(* ===== verification/Replay.thy ===== *)
theory Replay
  imports Session_Types
begin

text \<open>
  The per-direction counters and the 4096-bit anti-replay window of
  \<open>rust/crates/r8-session/src/lib.rs\<close> (\<open>ReplayWindow\<close>, \<open>ReplayCommit\<close>, \<open>Counters\<close>). A method
  taking \<open>&mut self\<close> returns its result together with the new state, so that what an error path
  leaves behind is visible.
\<close>

section \<open>The window\<close>

record replay_window =
  rw_largest :: u64
  rw_bits :: "u64 list"
  rw_generation :: u64

record replay_commit =
  rc_counter :: u64
  rc_generation :: u64

definition ReplayWindow_new :: replay_window where
  "ReplayWindow_new = \<lparr>rw_largest = 0, rw_bits = replicate 64 0, rw_generation = 0\<rparr>"

definition ReplayWindow_check :: "replay_window \<Rightarrow> u64 \<Rightarrow> SessionError + unit" where
  "ReplayWindow_check w counter =
     (if counter = 0 \<or> counter = u64_max then Inl CounterRange
      else if rw_largest w > 0 \<and> counter > saturating_add (rw_largest w) REPLAY_JUMP_MAX
      then Inl Replay
      else if rw_largest w > 0 \<and> saturating_add counter REPLAY_WINDOW \<le> rw_largest w
      then Inl Replay
      else if counter \<le> rw_largest w then
        let delta = rw_largest w - counter in
        if delta < REPLAY_WINDOW
           \<and> (rw_bits w ! unat (delta div 64)) AND push_bit (unat (delta mod 64)) 1 \<noteq> 0
        then Inl Replay
        else Inr ()
      else Inr ())"

definition ReplayWindow_preview :: "replay_window \<Rightarrow> u64 \<Rightarrow> SessionError + replay_commit" where
  "ReplayWindow_preview w counter =
     and_then (ReplayWindow_check w counter) (\<lambda>_.
       Inr \<lparr>rc_counter = counter, rc_generation = rw_generation w\<rparr>)"

text \<open>One pass of the inner loop, \<open>for i in (0..64).rev()\<close>: shift the whole window by one bit.\<close>

definition shift_word :: "u64 list \<Rightarrow> nat \<Rightarrow> u64 list" where
  "shift_word bits i =
     bits[i := push_bit 1 (bits ! i) OR (if i > 0 then drop_bit 63 (bits ! (i - 1)) else 0)]"

definition shift_bits :: "u64 list \<Rightarrow> u64 list" where
  "shift_bits bits = foldl shift_word bits (rev [0..<64])"

definition ReplayWindow_mark :: "replay_window \<Rightarrow> u64 \<Rightarrow> replay_window" where
  "ReplayWindow_mark w counter =
     (let w' =
        (if counter > rw_largest w then
           let shift = counter - rw_largest w;
               bits = (if shift \<ge> REPLAY_WINDOW then replicate 64 0
                       else (shift_bits ^^ unat shift) (rw_bits w))
           in w\<lparr>rw_largest := counter, rw_bits := bits\<rparr>
         else w);
        delta = rw_largest w' - counter;
        i = unat (delta div 64)
      in w'\<lparr>rw_bits := (rw_bits w')[i := (rw_bits w' ! i) OR push_bit (unat (delta mod 64)) 1]\<rparr>)"

definition ReplayWindow_commit ::
    "replay_window \<Rightarrow> replay_commit \<Rightarrow> (SessionError + unit) \<times> replay_window" where
  "ReplayWindow_commit w token =
     (if rc_generation token \<noteq> rw_generation w then (Inl Replay, w)
      else case ReplayWindow_check w (rc_counter token) of
        Inl e \<Rightarrow> (Inl e, w)
      | Inr _ \<Rightarrow>
          (case checked_add (rw_generation w) 1 of
             None \<Rightarrow> (Inl Replay, w)
           | Some generation \<Rightarrow>
               (Inr (), (ReplayWindow_mark w (rc_counter token))\<lparr>rw_generation := generation\<rparr>)))"

definition ReplayWindow_mark_after_auth ::
    "replay_window \<Rightarrow> u64 \<Rightarrow> (SessionError + unit) \<times> replay_window" where
  "ReplayWindow_mark_after_auth w counter =
     (case ReplayWindow_preview w counter of
        Inl e \<Rightarrow> (Inl e, w)
      | Inr token \<Rightarrow> ReplayWindow_commit w token)"

section \<open>Send counters\<close>

record counters =
  c_next :: u64

definition Counters_new :: counters where
  "Counters_new = \<lparr>c_next = 1\<rparr>"

definition Counters_reserve :: "counters \<Rightarrow> (SessionError + u64) \<times> counters" where
  "Counters_reserve c =
     (if c_next c = 0 \<or> c_next c = u64_max then (Inl CounterExhausted, c)
      else (Inr (c_next c), c\<lparr>c_next := c_next c + 1\<rparr>))"

definition Counters_can_reserve :: "counters \<Rightarrow> bool" where
  "Counters_can_reserve c \<longleftrightarrow> c_next c \<noteq> 0 \<and> c_next c \<noteq> u64_max"

section \<open>Bits of the window\<close>

definition wbit :: "u64 list \<Rightarrow> nat \<Rightarrow> bool" where
  "wbit bits k = bit (bits ! (k div 64)) (k mod 64)"

lemma length_shift_word [simp]: "length (shift_word bits i) = length bits"
  by (simp add: shift_word_def)

lemma foldl_shift_word:
  "n \<le> length bits \<Longrightarrow>
     length (foldl shift_word bits (rev [0..<n])) = length bits \<and>
     (\<forall>i < length bits. foldl shift_word bits (rev [0..<n]) ! i =
        (if i < n then push_bit 1 (bits ! i) OR (if i > 0 then drop_bit 63 (bits ! (i - 1)) else 0)
         else bits ! i))"
proof (induction n arbitrary: bits)
  case 0
  then show ?case by simp
next
  case (Suc n)
  have "n \<le> length (shift_word bits n)" using Suc.prems by simp
  from Suc.IH [OF this] Suc.prems show ?case
    by (auto simp: shift_word_def nth_list_update less_Suc_eq)
qed

lemma length_shift_bits [simp]: "length bits = 64 \<Longrightarrow> length (shift_bits bits) = 64"
  using foldl_shift_word [of 64 bits] by (simp add: shift_bits_def)

lemma bit_shifted_word:
  "j < 64 \<Longrightarrow> bit (push_bit 1 x OR (if c then drop_bit 63 y else 0)) j \<longleftrightarrow>
     (if j = 0 then c \<and> bit y 63 else bit x (j - 1))" for x y :: u64
  unfolding bit_or_iff bit_push_bit_iff
  using bit_imp_le_length [of y "63 + j"] by (cases j) (auto simp: bit_drop_bit_eq)

lemma wbit_shift_bits:
  assumes "length bits = 64" and k: "k < 4096"
  shows "wbit (shift_bits bits) k \<longleftrightarrow> 0 < k \<and> wbit bits (k - 1)"
proof -
  have i: "k div 64 < 64" using k by (simp add: div_less_iff_less_mult)
  have nth: "shift_bits bits ! (k div 64) = push_bit 1 (bits ! (k div 64)) OR
      (if k div 64 > 0 then drop_bit 63 (bits ! (k div 64 - 1)) else 0)"
    using foldl_shift_word [of 64 bits] assms(1) i by (simp add: shift_bits_def)
  have w: "wbit (shift_bits bits) k \<longleftrightarrow>
      (if k mod 64 = 0 then k div 64 > 0 \<and> bit (bits ! (k div 64 - 1)) 63
       else bit (bits ! (k div 64)) (k mod 64 - 1))"
    unfolding wbit_def nth by (rule bit_shifted_word) simp
  show ?thesis
  proof (cases "k mod 64 = 0")
    case True
    then obtain q where q: "k = 64 * q" by auto
    show ?thesis
    proof (cases q)
      case (Suc r)
      then have "(k - 1) div 64 = r" "(k - 1) mod 64 = 63"
        using q by simp_all
      with q Suc w show ?thesis by (simp add: wbit_def)
    qed (use q w in simp)
  next
    case False
    then obtain j where j: "k mod 64 = Suc j" by (metis not0_implies_Suc)
    have lt: "Suc j < 64" using j by (metis mod_less_divisor zero_less_numeral)
    have "k = 64 * (k div 64) + Suc j" using j by (metis mult_div_mod_eq)
    then have "k - 1 = 64 * (k div 64) + j" by linarith
    then have "(k - 1) div 64 = k div 64" "(k - 1) mod 64 = j" using lt by simp_all
    moreover have "0 < k" using False by (metis mod_0 neq0_conv)
    ultimately show ?thesis using j w by (simp add: wbit_def)
  qed
qed

lemma wbit_shift_bits_iter:
  assumes "length bits = 64"
  shows "length ((shift_bits ^^ n) bits) = 64 \<and>
    (\<forall>k < 4096. wbit ((shift_bits ^^ n) bits) k \<longleftrightarrow> n \<le> k \<and> wbit bits (k - n))"
proof (induction n)
  case 0
  then show ?case using assms by simp
next
  case (Suc n)
  then show ?case
    by (auto simp: wbit_shift_bits Suc_le_eq)
qed

lemma wbit_zero [simp]: "k < 4096 \<Longrightarrow> \<not> wbit (replicate 64 0) k"
  by (simp add: wbit_def div_less_iff_less_mult)

lemma wbit_set:
  assumes "length bits = 64" and "k < 4096" and "m < 4096"
  shows "wbit (bits[k div 64 := (bits ! (k div 64)) OR push_bit (k mod 64) 1]) m
    \<longleftrightarrow> m = k \<or> wbit bits m"
proof -
  have "k div 64 < 64" using assms by (simp add: div_less_iff_less_mult)
  moreover have "m = k \<longleftrightarrow> m div 64 = k div 64 \<and> m mod 64 = k mod 64"
    by (metis mult_div_mod_eq)
  ultimately show ?thesis
    using assms(1) by (auto simp: wbit_def nth_list_update bit_simps)
qed

section \<open>What the window remembers\<close>

text \<open>
  \<open>rw_inv\<close> is the invariant of the private fields. \<open>replay_hist w H\<close> relates the window to the
  set of all counters ever accepted: the largest is the maximum of \<open>H\<close>, and the bits hold
  exactly the members of \<open>H\<close> less than 4096 behind it.
\<close>

definition rw_inv :: "replay_window \<Rightarrow> bool" where
  "rw_inv w \<longleftrightarrow> length (rw_bits w) = 64 \<and> rw_largest w \<noteq> u64_max"

definition rw_set :: "replay_window \<Rightarrow> nat set" where
  "rw_set w = {n. n \<le> unat (rw_largest w) \<and> unat (rw_largest w) - n < 4096 \<and>
                 wbit (rw_bits w) (unat (rw_largest w) - n)}"

definition replay_hist :: "replay_window \<Rightarrow> u64 set \<Rightarrow> bool" where
  "replay_hist w H \<longleftrightarrow>
     rw_inv w \<and> 0 \<notin> H \<and> (H = {} \<longleftrightarrow> rw_largest w = 0) \<and> (H \<noteq> {} \<longrightarrow> rw_largest w \<in> H) \<and>
     (\<forall>c \<in> H. c \<le> rw_largest w) \<and>
     rw_set w = {n \<in> unat ` H. unat (rw_largest w) - n < 4096}"

text \<open>The specification: an ideal filter that remembers every accepted counter. It refuses the
  two reserved values, repetitions, jumps of more than 65536 and counters 4096 or more behind.\<close>

definition hist_largest :: "u64 set \<Rightarrow> nat" where
  "hist_largest H = Max (insert 0 (unat ` H))"

definition replay_accepts :: "u64 set \<Rightarrow> u64 \<Rightarrow> bool" where
  "replay_accepts H c \<longleftrightarrow>
     c \<noteq> 0 \<and> c \<noteq> u64_max \<and> c \<notin> H \<and>
     (H = {} \<or> unat c \<le> hist_largest H + 65536 \<and> hist_largest H < unat c + 4096)"

lemma replay_hist_largest: "replay_hist w H \<Longrightarrow> unat (rw_largest w) = hist_largest H"
  unfolding hist_largest_def replay_hist_def
  by (cases "H = {}") (auto intro!: Max_eqI [symmetric] simp: word_le_nat_alt)

lemma unat_u64_max: "unat u64_max = 2 ^ 64 - 1"
  by simp

lemma u64_lt: "unat (x :: u64) < 2 ^ 64"
  using unsigned_less [where w = x] by simp

lemma u64_not_max: "x \<noteq> u64_max \<longleftrightarrow> unat x < 2 ^ 64 - 1" for x :: u64
  using u64_lt [of x] by (simp add: word_unat_eq_iff) linarith

lemma unat_div_64: "unat (d div 64) = unat d div 64" "unat (d mod 64) = unat d mod 64" for d :: u64
  by (simp_all add: unat_div_distrib unat_mod_distrib)

lemma unat_diff_u64: "a \<le> b \<Longrightarrow> unat (b - a) = unat b - unat a" for a b :: u64
  by (simp add: unat_sub word_le_nat_alt)

lemma check_Inr:
  assumes "rw_inv w"
  shows "ReplayWindow_check w c = Inr () \<longleftrightarrow>
    c \<noteq> 0 \<and> c \<noteq> u64_max \<and> unat c \<notin> rw_set w \<and>
    (rw_largest w = 0 \<or>
       unat c \<le> unat (rw_largest w) + 65536 \<and> unat (rw_largest w) < unat c + 4096)"
proof -
  have jump: "c > saturating_add (rw_largest w) REPLAY_JUMP_MAX \<longleftrightarrow>
      unat c > unat (rw_largest w) + 65536"
    using u64_lt [of c] by (simp add: word_less_nat_alt unat_saturating_add session_consts) linarith
  have old: "saturating_add c REPLAY_WINDOW \<le> rw_largest w \<longleftrightarrow> unat c + 4096 \<le> unat (rw_largest w)"
    using assms
    by (simp add: word_le_nat_alt unat_saturating_add session_consts rw_inv_def u64_not_max) linarith
  have small: "rw_largest w - c < REPLAY_WINDOW \<longleftrightarrow> unat (rw_largest w) - unat c < 4096"
    if "c \<le> rw_largest w"
    using that by (simp add: word_less_nat_alt unat_diff_u64 session_consts)
  have seen: "unat c \<in> rw_set w \<longleftrightarrow> c \<le> rw_largest w \<and> rw_largest w - c < REPLAY_WINDOW \<and>
      (rw_bits w ! unat ((rw_largest w - c) div 64)) AND
        push_bit (unat ((rw_largest w - c) mod 64)) 1 \<noteq> 0"
    using small
    by (auto simp: rw_set_def wbit_def and_exp_eq_0_iff_not_bit unat_div_64 unat_diff_u64 word_le_nat_alt)
  show ?thesis
    unfolding ReplayWindow_check_def Let_def
    by (auto simp: jump old seen word_gt_0 not_less not_le)
qed

lemma mark_fields:
  assumes "rw_inv w" and "ReplayWindow_check w c = Inr ()"
  shows "rw_inv (ReplayWindow_mark w c)"
    "rw_largest (ReplayWindow_mark w c) = max (rw_largest w) c"
    "rw_generation (ReplayWindow_mark w c) = rw_generation w"
  using assms wbit_shift_bits_iter [of "rw_bits w"]
  by (auto simp: ReplayWindow_mark_def rw_inv_def Let_def check_Inr max_def)

text \<open>Marking a counter the check accepted adds it and forgets what falls out of the window.\<close>

lemma mark_set:
  assumes "rw_inv w" and "ReplayWindow_check w c = Inr ()"
  shows "rw_set (ReplayWindow_mark w c) =
    insert (unat c) {n \<in> rw_set w. unat (max (rw_largest w) c) - n < 4096}"
proof -
  let ?L = "unat (rw_largest w)"
  have len: "length (rw_bits w) = 64" using assms(1) by (simp add: rw_inv_def)
  show ?thesis
  proof (cases "c > rw_largest w")
    case True
    then have lt: "?L < unat c" and m: "max (rw_largest w) c = c"
      by (simp_all add: word_less_nat_alt)
    define n where "n = unat c - ?L"
    have sh: "unat (c - rw_largest w) = n" using True by (simp add: n_def unat_diff_u64)
    define bs where "bs = (if 4096 \<le> n then replicate 64 0 else (shift_bits ^^ n) (rw_bits w))"
    have bs: "length bs = 64" "\<And>k. k < 4096 \<Longrightarrow> wbit bs k \<longleftrightarrow> n \<le> k \<and> wbit (rw_bits w) (k - n)"
      using wbit_shift_bits_iter [OF len, of n] by (auto simp: bs_def)
    have mk: "rw_largest (ReplayWindow_mark w c) = c"
      "rw_bits (ReplayWindow_mark w c) = bs[0 div 64 := (bs ! (0 div 64)) OR push_bit (0 mod 64) 1]"
      using True
      by (auto simp: ReplayWindow_mark_def Let_def bs_def sh word_le_nat_alt session_consts)
    have "wbit (rw_bits (ReplayWindow_mark w c)) k \<longleftrightarrow> k = 0 \<or> n \<le> k \<and> wbit (rw_bits w) (k - n)"
      if "k < 4096" for k
      using wbit_set [OF bs(1), of 0 k] bs(2) that by (simp add: mk(2))
    then show ?thesis
      using lt by (auto simp: rw_set_def mk(1) m n_def)
  next
    case False
    then have m: "max (rw_largest w) c = rw_largest w" by simp
    have le: "unat c \<le> ?L" using False by (simp add: word_le_nat_alt not_less)
    define k where "k = ?L - unat c"
    have k: "k < 4096" using assms le by (auto simp: check_Inr k_def)
    have "unat (rw_largest w - c) = k" using False by (simp add: k_def unat_diff_u64 not_less)
    then have mk: "rw_largest (ReplayWindow_mark w c) = rw_largest w"
      "rw_bits (ReplayWindow_mark w c)
         = (rw_bits w)[k div 64 := (rw_bits w ! (k div 64)) OR push_bit (k mod 64) 1]"
      using False by (auto simp: ReplayWindow_mark_def Let_def unat_div_64)
    have "wbit (rw_bits (ReplayWindow_mark w c)) i \<longleftrightarrow> i = k \<or> wbit (rw_bits w) i"
      if "i < 4096" for i
      using wbit_set [OF len k that] by (simp only: mk(2))
    then show ?thesis
      using le k by (auto simp: rw_set_def mk(1) m k_def)
  qed
qed

lemma replay_hist_new: "replay_hist ReplayWindow_new {}"
  by (auto simp: replay_hist_def rw_inv_def rw_set_def ReplayWindow_new_def)

lemma check_refines:
  assumes "replay_hist w H"
  shows "ReplayWindow_check w c = Inr () \<longleftrightarrow> replay_accepts H c"
proof -
  have inv: "rw_inv w" and set: "rw_set w = {n \<in> unat ` H. unat (rw_largest w) - n < 4096}"
    and emp: "H = {} \<longleftrightarrow> rw_largest w = 0"
    using assms by (auto simp: replay_hist_def)
  have "unat c \<in> rw_set w \<longleftrightarrow> c \<in> H \<and> unat (rw_largest w) - unat c < 4096"
    unfolding set by (auto simp flip: word_unat_eq_iff)
  then show ?thesis
    unfolding check_Inr [OF inv] replay_accepts_def replay_hist_largest [OF assms, symmetric]
    using emp by auto
qed

lemma mark_hist:
  assumes "replay_hist w H" and "ReplayWindow_check w c = Inr ()"
  shows "replay_hist ((ReplayWindow_mark w c)\<lparr>rw_generation := g\<rparr>) (insert c H)"
proof -
  have inv: "rw_inv w" using assms(1) by (simp add: replay_hist_def)
  have c0: "c \<noteq> 0" using assms(2) inv by (simp add: check_Inr)
  let ?w = "ReplayWindow_mark w c"
  have L: "rw_largest ?w = max (rw_largest w) c" and inv': "rw_inv ?w"
    using mark_fields [OF inv assms(2)] by simp_all
  have "max (rw_largest w) c \<noteq> 0" using c0 by (simp add: max_def word_gt_0) auto
  moreover have "rw_set ?w = {n \<in> unat ` insert c H. unat (rw_largest ?w) - n < 4096}"
  proof -
    have set: "rw_set w = {n \<in> unat ` H. unat (rw_largest w) - n < 4096}"
      using assms(1) by (simp add: replay_hist_def)
    have le: "unat (rw_largest w) \<le> unat (rw_largest ?w)"
      by (simp add: L max_def word_le_nat_alt)
    have "unat (rw_largest ?w) - unat c < 4096"
      using assms(2) inv by (auto simp: L check_Inr max_def word_le_nat_alt)
    then show ?thesis
      unfolding mark_set [OF inv assms(2)] set L [symmetric] using le by auto
  qed
  ultimately show ?thesis
    using assms(1) c0 L inv'
    by (auto simp: replay_hist_def rw_inv_def rw_set_def max_def)
qed

lemma commit_cases:
  "ReplayWindow_commit w t = (Inr u, w') \<longleftrightarrow>
     rc_generation t = rw_generation w \<and> ReplayWindow_check w (rc_counter t) = Inr () \<and>
     unat (rw_generation w) + 1 < 2 ^ 64 \<and>
     w' = (ReplayWindow_mark w (rc_counter t))\<lparr>rw_generation := rw_generation w + 1\<rparr>"
  by (auto simp: ReplayWindow_commit_def checked_add_def split: sum.splits if_splits)

lemma commit_error_frame: "ReplayWindow_commit w t = (Inl e, w') \<Longrightarrow> w' = w"
  by (auto simp: ReplayWindow_commit_def split: sum.splits if_splits option.splits)

lemma commit_hist:
  "replay_hist w H \<Longrightarrow> ReplayWindow_commit w t = (Inr u, w') \<Longrightarrow>
     rc_counter t \<notin> H \<and> replay_hist w' (insert (rc_counter t) H)"
  by (auto simp: commit_cases check_refines replay_accepts_def intro: mark_hist)

definition replay_admit :: "replay_window \<Rightarrow> u64 \<Rightarrow> replay_window option" where
  "replay_admit w c =
     (case ReplayWindow_mark_after_auth w c of (Inr _, w') \<Rightarrow> Some w' | (Inl _, _) \<Rightarrow> None)"

lemma replay_admit_Some:
  "replay_admit w c = Some w' \<longleftrightarrow>
     ReplayWindow_commit w \<lparr>rc_counter = c, rc_generation = rw_generation w\<rparr> = (Inr (), w')"
  by (auto simp: replay_admit_def ReplayWindow_mark_after_auth_def ReplayWindow_preview_def
      ReplayWindow_commit_def split: sum.splits prod.splits if_splits option.splits)

interpretation rw: anti_replay replay_admit "\<lambda>c. c" replay_hist
  by unfold_locales (auto simp: replay_admit_Some dest: commit_hist)

section \<open>Counter sequences\<close>

fun reserve_many :: "nat \<Rightarrow> counters \<Rightarrow> u64 list \<times> counters" where
  "reserve_many 0 c = ([], c)"
| "reserve_many (Suc n) c =
     (case Counters_reserve c of
        (Inl _, c') \<Rightarrow> reserve_many n c'
      | (Inr k, c') \<Rightarrow> (let (ks, c'') = reserve_many n c' in (k # ks, c'')))"

lemma unat_Suc_u64: "x \<noteq> u64_max \<Longrightarrow> unat (x + 1) = Suc (unat x)" for x :: u64
  using u64_not_max [of x] unat_add_small [of x 1] by simp

lemma reserve_many_upt:
  "c_next c \<noteq> 0 \<Longrightarrow>
     map unat (fst (reserve_many n c)) =
       [unat (c_next c)..<min (unat (c_next c) + n) (2 ^ 64 - 1)]"
proof (induction n arbitrary: c)
  case 0
  then show ?case by simp
next
  case (Suc n)
  show ?case
  proof (cases "c_next c = u64_max")
    case True
    then have "Counters_reserve c = (Inl CounterExhausted, c)" by (simp add: Counters_reserve_def)
    with Suc True show ?thesis by simp
  next
    case False
    let ?c = "c\<lparr>c_next := c_next c + 1\<rparr>"
    have nx: "unat (c_next ?c) = Suc (unat (c_next c))" using False by (simp add: unat_Suc_u64)
    then have "c_next ?c \<noteq> 0" by (metis unat_0 nat.distinct(1))
    from Suc.IH [OF this] nx have
      "map unat (fst (reserve_many n ?c)) =
         [Suc (unat (c_next c))..<min (unat (c_next c) + Suc n) (2 ^ 64 - 1)]"
      by simp
    moreover have "Counters_reserve c = (Inr (c_next c), ?c)"
      using Suc.prems False by (simp add: Counters_reserve_def)
    moreover have lt: "unat (c_next c) < min (unat (c_next c) + Suc n) (2 ^ 64 - 1)"
      using False u64_not_max [of "c_next c"] by simp
    ultimately have "map unat (fst (reserve_many (Suc n) c)) =
        unat (c_next c) # [Suc (unat (c_next c))..<min (unat (c_next c) + Suc n) (2 ^ 64 - 1)]"
      by (cases "reserve_many n ?c") (simp del: upt_Suc)
    with lt show ?thesis by (simp only: upt_conv_Cons)
  qed
qed

section \<open>Properties\<close>

text \<open>Whatever sequence of counters is presented to a fresh window, no counter is accepted
  twice, and the window's state represents exactly the accepted history.\<close>

theorem replay_no_counter_twice:
  "let (w, acc) = run_filter replay_admit ReplayWindow_new cs
   in distinct acc \<and> replay_hist w (set acc)"
  using rw.run_filter_hist [OF replay_hist_new] by (auto split: prod.splits)

text \<open>C17: The 4096-bit window with its word-wise shifting decides exactly like the ideal filter
  that remembers the whole history.\<close>

theorem replay_window_refines_history:
  "let (w, acc) = run_filter replay_admit ReplayWindow_new cs
   in ReplayWindow_check w c = Inr () \<longleftrightarrow> replay_accepts (set acc) c"
  using rw.run_filter_hist [OF replay_hist_new] by (auto simp: check_refines split: prod.splits)

text \<open>A commit token is good for one commit: once any commit on the window succeeds, every
  token previewed before it is refused and leaves the window unchanged.\<close>

theorem replay_stale_token_refused:
  assumes "ReplayWindow_commit w t = (Inr (), w')" and "ReplayWindow_preview w c = Inr t'"
  shows "ReplayWindow_commit w' t' = (Inl Replay, w')"
proof -
  have "rw_generation w' = rw_generation w + 1" and "unat (rw_generation w) + 1 < 2 ^ 64"
    using assms(1) by (auto simp: commit_cases)
  moreover have "rc_generation t' = rw_generation w"
    using assms(2) by (auto simp: ReplayWindow_preview_def result_simps)
  ultimately show ?thesis by (simp add: ReplayWindow_commit_def)
qed

theorem replay_stale_token_refused_witness:
  "ReplayWindow_commit ReplayWindow_new \<lparr>rc_counter = 1, rc_generation = 0\<rparr>
     = (Inr (), (ReplayWindow_mark ReplayWindow_new 1)\<lparr>rw_generation := 1\<rparr>) \<and>
   ReplayWindow_commit ((ReplayWindow_mark ReplayWindow_new 1)\<lparr>rw_generation := 1\<rparr>)
     \<lparr>rc_counter = 2, rc_generation = 0\<rparr>
     = (Inl Replay, (ReplayWindow_mark ReplayWindow_new 1)\<lparr>rw_generation := 1\<rparr>)"
proof -
  have c: "ReplayWindow_check ReplayWindow_new k = Inr ()" if "k = 1 \<or> k = 2" for k
    using that by (auto simp: check_refines [OF replay_hist_new] replay_accepts_def)
  have com: "ReplayWindow_commit ReplayWindow_new \<lparr>rc_counter = 1, rc_generation = 0\<rparr>
      = (Inr (), (ReplayWindow_mark ReplayWindow_new 1)\<lparr>rw_generation := 1\<rparr>)"
    by (simp add: commit_cases c) (simp add: ReplayWindow_new_def)
  have "ReplayWindow_preview ReplayWindow_new 2 = Inr \<lparr>rc_counter = 2, rc_generation = 0\<rparr>"
    by (simp add: ReplayWindow_preview_def c) (simp add: ReplayWindow_new_def)
  from com replay_stale_token_refused [OF com this] show ?thesis by simp
qed

text \<open>A fresh direction hands out the counters 1, 2, 3, ... in order, never 0 and never the
  reserved maximum, never one twice, and stops (without wrapping) when they are used up.\<close>

theorem counters_never_repeat:
  "map unat (fst (reserve_many n Counters_new)) = [1..<min (n + 1) (2 ^ 64 - 1)]"
  using reserve_many_upt [of Counters_new n] by (simp add: Counters_new_def)

end
