(* ===== verification/Session_Codec.thy ===== *)
theory Session_Codec
  imports Session_Types
begin

text \<open>
  The data a session handshake moves (\<open>rust/crates/r8-session/src/lib.rs\<close>, lines 107-560):
  identities, observed bindings, session messages, cookies, the signed transcript, the key
  schedule. The cryptographic crates (sha2, aws-lc-rs, ed25519-dalek, x25519-dalek,
  chacha20poly1305) are outside the repository: they are the fields of the record \<open>crypto\<close>,
  which every definition that calls them takes as an argument, and \<open>crypto_ok\<close> is the documented
  behaviour the properties assume of them.
\<close>

section \<open>The cryptographic crates\<close>

record crypto =
  sha256 :: "bytes \<Rightarrow> bytes"
  hmac_sha256 :: "bytes \<Rightarrow> bytes \<Rightarrow> bytes"
  ed_verifying_key :: "bytes \<Rightarrow> bytes"
  ed_key_ok :: "bytes \<Rightarrow> bool"
  ed_sign :: "bytes \<Rightarrow> bytes \<Rightarrow> bytes"
  ed_verify :: "bytes \<Rightarrow> bytes \<Rightarrow> bytes \<Rightarrow> bool"
  x_public :: "bytes \<Rightarrow> bytes"
  x_diffie_hellman :: "bytes \<Rightarrow> bytes \<Rightarrow> bytes"
  hkdf_extract :: "bytes \<Rightarrow> bytes \<Rightarrow> bytes"
  hkdf_expand :: "bytes \<Rightarrow> bytes \<Rightarrow> nat \<Rightarrow> bytes option"
  aead_encrypt :: "bytes \<Rightarrow> bytes \<Rightarrow> bytes \<Rightarrow> bytes \<Rightarrow> (bytes \<times> bytes) option"
  aead_decrypt :: "bytes \<Rightarrow> bytes \<Rightarrow> bytes \<Rightarrow> bytes \<Rightarrow> bytes \<Rightarrow> bytes option"

text \<open>Digest and signature sizes, and the correctness (not the secrecy) of each primitive.\<close>

definition hash_ok :: "crypto \<Rightarrow> bool" where
  "hash_ok c \<longleftrightarrow> (\<forall>m. length (sha256 c m) = 32) \<and> (\<forall>k m. length (hmac_sha256 c k m) = 32)"

definition signature_ok :: "crypto \<Rightarrow> bool" where
  "signature_ok c \<longleftrightarrow>
     (\<forall>sk. ed_key_ok c (ed_verifying_key c sk) \<and> length (ed_verifying_key c sk) = 32)
     \<and> (\<forall>sk m. ed_verify c (ed_verifying_key c sk) m (ed_sign c sk m)
              \<and> length (ed_sign c sk m) = 64)"

definition kex_ok :: "crypto \<Rightarrow> bool" where
  "kex_ok c \<longleftrightarrow>
     (\<forall>a. length (x_public c a) = 32)
     \<and> (\<forall>a b. x_diffie_hellman c a (x_public c b) = x_diffie_hellman c b (x_public c a))
     \<and> (\<forall>prk info. \<exists>okm. hkdf_expand c prk info 32 = Some okm \<and> length okm = 32)"

definition aead_ok :: "crypto \<Rightarrow> bool" where
  "aead_ok c \<longleftrightarrow>
     (\<forall>k n a m. length m \<le> 65535 \<longrightarrow>
        (\<exists>ct t. aead_encrypt c k n a m = Some (ct, t) \<and> length ct = length m \<and> length t = 16
               \<and> aead_decrypt c k n a ct t = Some m))"

definition crypto_ok :: "crypto \<Rightarrow> bool" where
  "crypto_ok c \<longleftrightarrow> hash_ok c \<and> signature_ok c \<and> kex_ok c \<and> aead_ok c"

text \<open>A byte-string literal \<open>b"..."\<close>.\<close>

definition ascii :: "string \<Rightarrow> bytes" where
  "ascii s = map of_char s"

lemma length_ascii [simp]: "length (ascii s) = length s"
  by (simp add: ascii_def)

section \<open>Identity\<close>

record identity =
  id_role :: u8
  id_service_context :: u32
  id_eid :: bytes
  id_public_key :: bytes

definition eid :: "crypto \<Rightarrow> bytes \<Rightarrow> bytes" where
  "eid c public_key = take 16 (sha256 c (ascii ''R8 EID v1'' @ public_key))"

definition Identity_from_public_key ::
    "crypto \<Rightarrow> u8 \<Rightarrow> u32 \<Rightarrow> bytes \<Rightarrow> SessionError + identity" where
  "Identity_from_public_key c role service_context public_key =
     (if \<not> (role = 1 \<or> role = 2) \<or> service_context = 0 then Inl ConfigError
      else Inr \<lparr>id_role = role, id_service_context = service_context, id_eid = eid c public_key,
                id_public_key = public_key\<rparr>)"

definition Identity_validate :: "crypto \<Rightarrow> identity \<Rightarrow> SessionError + unit" where
  "Identity_validate c i =
     (if \<not> (id_role i = 1 \<or> id_role i = 2) then Inl RoleMismatch
      else if id_service_context i = 0 then Inl ServiceMismatch
      else if eid c (id_public_key i) \<noteq> id_eid i then Inl EidKeyMismatch
      else Inr ())"

text \<open>The array sizes of the Rust type.\<close>

definition wf_identity :: "identity \<Rightarrow> bool" where
  "wf_identity i \<longleftrightarrow> length (id_eid i) = 16 \<and> length (id_public_key i) = 32"

section \<open>Bindings\<close>

datatype UdpBinding = UdpBinding (binding_bytes: bytes)

definition UdpBinding_ipv4 :: "bytes \<Rightarrow> u16 \<Rightarrow> u8 \<Rightarrow> bytes \<Rightarrow> SessionError + UdpBinding" where
  "UdpBinding_ipv4 address port selector_kind selector =
     (if port = 0 \<or> \<not> (selector_kind = 1 \<or> selector_kind = 2) then Inl Binding
      else
        let b0 = (replicate 25 0)[0 := 1];
            b1 = b0[1 := 4];
            b2 = copy_at 2 address b1;
            b3 = copy_at 6 (u16_to_be_bytes port) b2;
            b4 = b3[8 := selector_kind];
            b5 = copy_at 9 selector b4
        in Inr (UdpBinding b5))"

definition UdpBinding_ipv6 :: "bytes \<Rightarrow> u16 \<Rightarrow> u8 \<Rightarrow> bytes \<Rightarrow> SessionError + UdpBinding" where
  "UdpBinding_ipv6 address port selector_kind selector =
     (if port = 0 \<or> \<not> (selector_kind = 1 \<or> selector_kind = 2) then Inl Binding
      else Inr (UdpBinding ([1, 6] @ address @ u16_to_be_bytes port @ [selector_kind] @ selector)))"

definition UdpBinding_parse :: "bytes \<Rightarrow> SessionError + UdpBinding" where
  "UdpBinding_parse bs =
     (let valid =
        (if 9 \<le> length bs \<and> bs ! 0 = 1 \<and> bs ! 1 = 4
            \<and> length bs = 25 \<and> u16_from_be_bytes [bs ! 6, bs ! 7] \<noteq> 0
            \<and> (bs ! 8 = 1 \<or> bs ! 8 = 2) then True
         else if 2 \<le> length bs \<and> bs ! 0 = 1 \<and> bs ! 1 = 6
            \<and> length bs = 37 \<and> u16_from_be_bytes [bs ! 18, bs ! 19] \<noteq> 0
            \<and> (bs ! 20 = 1 \<or> bs ! 20 = 2) then True
         else False)
      in if \<not> valid then Inl Binding else Inr (UdpBinding bs))"

datatype ObservedBinding =
    Udp UdpBinding
  | Native (ingress_descriptor_id: u32) (next_hop_mac: bytes)

fun ObservedBinding_validate :: "ObservedBinding \<Rightarrow> SessionError + unit" where
  "ObservedBinding_validate (Udp b) = and_then (UdpBinding_parse (binding_bytes b)) (\<lambda>_. Inr ())"
| "ObservedBinding_validate (Native ifid _) = (if ifid \<noteq> 0 then Inr () else Inl Binding)"

fun ObservedBinding_encode :: "ObservedBinding \<Rightarrow> bytes" where
  "ObservedBinding_encode (Udp b) = binding_bytes b"
| "ObservedBinding_encode (Native ifid mac) = [2] @ u32_to_be_bytes ifid @ mac"

definition ObservedBinding_parse :: "bytes \<Rightarrow> SessionError + ObservedBinding" where
  "ObservedBinding_parse bs =
     (if bs \<noteq> [] \<and> bs ! 0 = 1 then and_then (UdpBinding_parse bs) (\<lambda>b. Inr (Udp b))
      else if bs \<noteq> [] \<and> bs ! 0 = 2 \<and> length bs = 11 then
        let ifid = u32_from_be_bytes (slice_of 1 5 bs) in
        if ifid = 0 then Inl Binding else Inr (Native ifid (drop 5 bs))
      else Inl Binding)"

fun wf_binding :: "ObservedBinding \<Rightarrow> bool" where
  "wf_binding (Udp _) \<longleftrightarrow> True"
| "wf_binding (Native _ mac) \<longleftrightarrow> length mac = 6"

section \<open>Session messages\<close>

record session_message =
  sm_typ :: u8
  sm_profile :: u8
  sm_body :: bytes

definition validate_role_pair :: "bytes \<Rightarrow> SessionError + unit" where
  "validate_role_pair body =
     (if \<not> (body ! 0 = 1 \<or> body ! 0 = 2) \<or> \<not> (body ! 1 = 1 \<or> body ! 1 = 2) \<or> body ! 0 = body ! 1
      then Inl RoleMismatch else Inr ())"

definition exact_body_len :: "u8 \<Rightarrow> nat option" where
  "exact_body_len typ =
     (if typ = OPEN then Some 118
      else if typ = VERIFY_COOKIE then Some 118
      else if typ = OPEN_AUTH then Some 230
      else if typ = OPEN_ACK then Some 182
      else if typ = SESSION_ACCEPT then Some 68
      else if typ = CLOSE then Some 26
      else if typ = SESSION_DATA then Some 24
      else None)"

definition validate_body :: "u8 \<Rightarrow> bytes \<Rightarrow> SessionError + unit" where
  "validate_body typ body =
     (case exact_body_len typ of
        None \<Rightarrow> Inl Type
      | Some exact \<Rightarrow>
          if length body < exact then Inl Truncated
          else if typ \<noteq> SESSION_DATA \<and> length body \<noteq> exact then Inl TrailingBytes
          else and_then
            (if typ = OPEN \<or> typ = VERIFY_COOKIE \<or> typ = OPEN_AUTH \<or> typ = OPEN_ACK
             then validate_role_pair body else Inr ()) (\<lambda>_.
          if typ = SESSION_ACCEPT \<or> typ = SESSION_DATA \<or> typ = CLOSE then
            let counter = u64_from_be_bytes (take 8 body) in
            if counter = 0 \<or> counter = u64_max then Inl CounterRange else Inr ()
          else Inr ()))"

definition SessionMessage_decode :: "bytes \<Rightarrow> u8 \<Rightarrow> nat \<Rightarrow> SessionError + session_message" where
  "SessionMessage_decode payload header_profile budget =
     (if length payload > budget then Inl Budget
      else if length payload < 4 then Inl Truncated
      else let typ = payload ! 0 in
        if \<not> (OPEN \<le> typ \<and> typ \<le> CLOSE) then Inl Type
        else if payload ! 1 \<noteq> SESSION_VERSION then Inl Version
        else if payload ! 2 \<noteq> header_profile then Inl Profile
        else if payload ! 3 \<noteq> 0 then Inl Flags
        else let body = drop 4 payload in
          and_then (validate_body typ body) (\<lambda>_.
            Inr \<lparr>sm_typ = typ, sm_profile = payload ! 2, sm_body = body\<rparr>))"

definition SessionMessage_encode :: "session_message \<Rightarrow> nat \<Rightarrow> SessionError + bytes" where
  "SessionMessage_encode m budget =
     and_then (validate_body (sm_typ m) (sm_body m)) (\<lambda>_.
     and_then (ok_or Budget (usize_checked_add 4 (length (sm_body m)))) (\<lambda>len.
       if len > budget then Inl Budget
       else Inr ([sm_typ m, SESSION_VERSION, sm_profile m, 0] @ sm_body m)))"

section \<open>Cookies\<close>

record cookie_context =
  cc_binding :: ObservedBinding
  cc_client :: identity
  cc_server :: identity
  cc_scid :: u64
  cc_client_ephemeral :: bytes
  cc_boot :: bytes
  cc_bucket :: u64
  cc_server_context_id :: u32

definition cookie_input :: "crypto \<Rightarrow> cookie_context \<Rightarrow> SessionError + bytes" where
  "cookie_input c ctx =
     and_then (Identity_validate c (cc_client ctx)) (\<lambda>_.
     and_then (Identity_validate c (cc_server ctx)) (\<lambda>_.
     if cc_server_context_id ctx = 0 then Inl ConfigError
     else and_then (ObservedBinding_validate (cc_binding ctx)) (\<lambda>_.
       Inr (ascii ''R8 cookie v1'' @ ObservedBinding_encode (cc_binding ctx)
            @ [WIRE_VERSION, SESSION_VERSION, id_role (cc_client ctx), id_role (cc_server ctx)]
            @ u32_to_be_bytes (id_service_context (cc_client ctx))
            @ u64_to_be_bytes (cc_scid ctx) @ id_eid (cc_client ctx)
            @ sha256 c (id_public_key (cc_client ctx)) @ sha256 c (cc_client_ephemeral ctx)
            @ cc_boot ctx @ u64_to_be_bytes (cc_bucket ctx)
            @ u32_to_be_bytes (cc_server_context_id ctx)))))"

definition cookie :: "crypto \<Rightarrow> bytes \<Rightarrow> bytes \<Rightarrow> bytes" where
  "cookie c key input = hmac_sha256 c key input"

definition cookie_matches :: "crypto \<Rightarrow> bytes \<Rightarrow> bytes \<Rightarrow> bytes \<Rightarrow> bytes \<Rightarrow> bool" where
  "cookie_matches c current previous supplied input \<longleftrightarrow>
     cookie c current input = supplied \<or> cookie c previous input = supplied"

definition cookie_matches_buckets ::
    "crypto \<Rightarrow> bytes \<Rightarrow> bytes \<Rightarrow> u64 \<Rightarrow> bytes \<Rightarrow> cookie_context \<Rightarrow> u64 \<Rightarrow> SessionError + bool" where
  "cookie_matches_buckets c current_key previous_key previous_key_rotated_ms supplied ctx now_ms =
     (let current_bucket = now_ms div 10000 in
      and_then (cookie_input c (ctx\<lparr>cc_bucket := current_bucket\<rparr>)) (\<lambda>current_input.
      let current_match = cookie c current_key current_input = supplied in
      and_then
        (case checked_sub current_bucket 1 of
           Some bucket \<Rightarrow> and_then (cookie_input c (ctx\<lparr>cc_bucket := bucket\<rparr>)) (\<lambda>input.
             Inr (cookie c current_key input = supplied))
         | None \<Rightarrow> Inr False) (\<lambda>prior_match.
      and_then
        (if saturating_sub now_ms previous_key_rotated_ms \<le> 20000 then
           let current = cookie c previous_key current_input = supplied in
           and_then
             (case checked_sub current_bucket 1 of
                Some bucket \<Rightarrow> and_then (cookie_input c (ctx\<lparr>cc_bucket := bucket\<rparr>)) (\<lambda>input.
                  Inr (cookie c previous_key input = supplied))
              | None \<Rightarrow> Inr False) (\<lambda>prior. Inr (current \<or> prior))
         else Inr False) (\<lambda>prior_key_match.
      Inr (current_match \<or> prior_match \<or> prior_key_match)))))"

section \<open>Transcript, signatures and key schedule\<close>

record transcript_context =
  tc_profile :: u8
  tc_scid :: u64
  tc_client :: identity
  tc_server :: identity
  tc_client_ephemeral :: bytes
  tc_server_ephemeral :: bytes
  tc_client_nonce :: bytes
  tc_server_nonce :: bytes
  tc_boot :: bytes

definition transcript_t0 :: "crypto \<Rightarrow> transcript_context \<Rightarrow> SessionError + bytes" where
  "transcript_t0 c ctx =
     and_then (Identity_validate c (tc_client ctx)) (\<lambda>_.
     if \<not> (id_role (tc_server ctx) = 1 \<or> id_role (tc_server ctx) = 2)
        \<or> id_service_context (tc_server ctx) = 0 then Inl RoleMismatch
     else if id_public_key (tc_server ctx) \<noteq> replicate 32 0
        \<and> eid c (id_public_key (tc_server ctx)) \<noteq> id_eid (tc_server ctx) then Inl EidKeyMismatch
     else if id_service_context (tc_client ctx) \<noteq> id_service_context (tc_server ctx)
     then Inl ServiceMismatch
     else Inr (ascii ''R8 session transcript v1'' @ [WIRE_VERSION, tc_profile ctx]
            @ u64_to_be_bytes (tc_scid ctx)
            @ [id_role (tc_client ctx), id_role (tc_server ctx)]
            @ u32_to_be_bytes (id_service_context (tc_client ctx))
            @ id_eid (tc_client ctx) @ id_public_key (tc_client ctx)
            @ id_eid (tc_server ctx) @ id_public_key (tc_server ctx)
            @ tc_client_ephemeral ctx @ tc_server_ephemeral ctx
            @ tc_client_nonce ctx @ tc_server_nonce ctx @ tc_boot ctx))"

definition sign :: "crypto \<Rightarrow> bytes \<Rightarrow> bytes \<Rightarrow> bytes \<Rightarrow> bytes" where
  "sign c key domain t0 = ed_sign c key (domain @ t0)"

definition sign_open_auth :: "crypto \<Rightarrow> bytes \<Rightarrow> bytes \<Rightarrow> bytes" where
  "sign_open_auth c key t0 = sign c key (ascii ''R8 OPEN_AUTH v1'') t0"

definition sign_open_ack :: "crypto \<Rightarrow> bytes \<Rightarrow> bytes \<Rightarrow> bytes" where
  "sign_open_ack c key t0 = sign c key (ascii ''R8 OPEN_ACK v1'') t0"

definition verify_signature ::
    "crypto \<Rightarrow> bytes \<Rightarrow> bytes \<Rightarrow> bytes \<Rightarrow> bytes \<Rightarrow> SessionError + unit" where
  "verify_signature c public_key domain t0 signature =
     (if \<not> ed_key_ok c public_key then Inl PinMismatch
      else if ed_verify c public_key (domain @ t0) signature then Inr () else Inl AuthFailed)"

definition transcript_hash :: "crypto \<Rightarrow> bytes \<Rightarrow> bytes \<Rightarrow> bytes \<Rightarrow> bytes" where
  "transcript_hash c t0 client_signature server_signature =
     sha256 c (t0 @ client_signature @ server_signature)"

definition x25519 :: "crypto \<Rightarrow> bytes \<Rightarrow> bytes \<Rightarrow> SessionError + bytes" where
  "x25519 c secret peer =
     (let shared = x_diffie_hellman c secret peer
      in if shared = replicate 32 0 then Inl AuthFailed else Inr shared)"

definition hkdf_prk_bytes :: "crypto \<Rightarrow> bytes \<Rightarrow> bytes \<Rightarrow> bytes" where
  "hkdf_prk_bytes c shared th = hkdf_extract c th shared"

definition derive_key_from_prk ::
    "crypto \<Rightarrow> bytes \<Rightarrow> bytes \<Rightarrow> u8 \<Rightarrow> u8 \<Rightarrow> u8 \<Rightarrow> u8 \<Rightarrow> SessionError + bytes" where
  "derive_key_from_prk c prk th profile sender_role receiver_role slot =
     (if \<not> (sender_role = 1 \<or> sender_role = 2) \<or> \<not> (receiver_role = 1 \<or> receiver_role = 2)
         \<or> sender_role = receiver_role \<or> slot > 1 then Inl ConfigError
      else ok_or ConfigError
        (hkdf_expand c prk
           (ascii ''R8 key v1'' @ [WIRE_VERSION, SESSION_VERSION, profile] @ th
            @ [sender_role, receiver_role, slot]) 32))"

definition derive_key ::
    "crypto \<Rightarrow> bytes \<Rightarrow> bytes \<Rightarrow> u8 \<Rightarrow> u8 \<Rightarrow> u8 \<Rightarrow> u8 \<Rightarrow> SessionError + bytes" where
  "derive_key c shared th profile sender_role receiver_role slot =
     derive_key_from_prk c (hkdf_prk_bytes c shared th) th profile sender_role receiver_role slot"

section \<open>Bindings: the encoding is a canonical prefix code\<close>

lemma udp_parse_bytes: "UdpBinding_parse bs = Inr b \<Longrightarrow> binding_bytes b = bs"
  by (auto simp: UdpBinding_parse_def Let_def split: if_splits)

lemma udp_parse_self: "UdpBinding_parse bs = Inr b \<Longrightarrow> b = UdpBinding bs"
  by (auto simp: UdpBinding_parse_def Let_def split: if_splits)

lemma udp_parse_head: "UdpBinding_parse bs = Inr b \<Longrightarrow> bs \<noteq> [] \<and> bs ! 0 = 1"
  by (auto simp: UdpBinding_parse_def Let_def split: if_splits)

lemma udp_parse_length:
  "UdpBinding_parse bs = Inr b \<Longrightarrow> length bs = (if bs ! 1 = 4 then 25 else 37)"
  by (auto simp: UdpBinding_parse_def Let_def split: if_splits)

lemma u32_from_be_nonzero: "length bs = 4 \<Longrightarrow> to_be 4 (u32_from_be_bytes bs) = bs"
  by simp

lemma ObservedBinding_parse_iff:
  "ObservedBinding_parse bs = Inr b \<longleftrightarrow>
     wf_binding b \<and> ObservedBinding_validate b = Inr () \<and> ObservedBinding_encode b = bs"
proof
  assume p: "ObservedBinding_parse bs = Inr b"
  show "wf_binding b \<and> ObservedBinding_validate b = Inr () \<and> ObservedBinding_encode b = bs"
  proof (cases "bs \<noteq> [] \<and> bs ! 0 = 1")
    case True
    with p obtain u where u: "UdpBinding_parse bs = Inr u" "b = Udp u"
      by (auto simp: ObservedBinding_parse_def and_then_Inr)
    with udp_parse_bytes [OF u(1)] show ?thesis by simp
  next
    case False
    with p have b: "bs \<noteq> []" "bs ! 0 = 2" "length bs = 11"
      "u32_from_be_bytes (slice_of 1 5 bs) \<noteq> 0"
      "b = Native (u32_from_be_bytes (slice_of 1 5 bs)) (drop 5 bs)"
      by (auto simp: ObservedBinding_parse_def Let_def split: if_splits)
    then have "[2] @ slice_of 1 5 bs @ drop 5 bs = bs"
      by (simp add: slice_drop_join) (metis Cons_nth_drop_Suc One_nat_def drop0 length_greater_0_conv)
    with b show ?thesis by simp
  qed
next
  assume "wf_binding b \<and> ObservedBinding_validate b = Inr () \<and> ObservedBinding_encode b = bs"
  then show "ObservedBinding_parse bs = Inr b"
  proof (cases b)
    case (Udp u)
    then show ?thesis
      using \<open>wf_binding b \<and> _\<close> udp_parse_self [of bs] udp_parse_head [of bs]
      by (auto simp: ObservedBinding_parse_def and_then_Inr)
  next
    case (Native ifid mac)
    with \<open>wf_binding b \<and> _\<close> have "bs = 2 # to_be 4 ifid @ mac" "length mac = 6" "ifid \<noteq> 0"
      by (auto split: if_splits)
    with Native show ?thesis by (simp add: ObservedBinding_parse_def Let_def)
  qed
qed

lemma binding_encode_length:
  assumes "ObservedBinding_validate b = Inr ()" and "wf_binding b"
  shows "length (ObservedBinding_encode b) =
     (if ObservedBinding_encode b ! 0 = 2 then 11
      else if ObservedBinding_encode b ! 1 = 4 then 25 else 37)
     \<and> 11 \<le> length (ObservedBinding_encode b)"
proof (cases b)
  case (Udp u)
  with assms obtain u' where "UdpBinding_parse (binding_bytes u) = Inr u'"
    by (auto simp: and_then_Inr)
  from udp_parse_head [OF this] udp_parse_length [OF this] show ?thesis by (simp add: Udp)
next
  case (Native ifid mac)
  with assms show ?thesis by simp
qed

lemma binding_encode_prefix_free:
  assumes a: "ObservedBinding_validate a = Inr ()" "wf_binding a"
    and b: "ObservedBinding_validate b = Inr ()" "wf_binding b"
    and eq: "ObservedBinding_encode a @ xs = ObservedBinding_encode b @ ys"
  shows "a = b \<and> xs = ys"
proof -
  let ?a = "ObservedBinding_encode a" and ?b = "ObservedBinding_encode b"
  have la: "11 \<le> length ?a" and lb: "11 \<le> length ?b"
    using binding_encode_length a b by blast+
  have "?a ! i = ?b ! i" if "i < 2" for i
  proof -
    have "(?a @ xs) ! i = (?b @ ys) ! i" by (simp add: eq)
    with that la lb show ?thesis by (simp add: nth_append)
  qed
  then have "?a ! 0 = ?b ! 0" "?a ! 1 = ?b ! 1" by simp_all
  with binding_encode_length [OF a] binding_encode_length [OF b] have "length ?a = length ?b"
    by simp
  with eq have e: "?a = ?b" "xs = ys" by (simp_all add: append_eq_append_conv)
  have "ObservedBinding_parse ?a = Inr a" "ObservedBinding_parse ?b = Inr b"
    using a b by (simp_all add: ObservedBinding_parse_iff)
  with e show ?thesis by (metis sum.inject(2))
qed

lemma udp_ipv4_parses:
  assumes "length address = 4" "length selector = 16"
    and "UdpBinding_ipv4 address port k selector = Inr b"
  shows "binding_bytes b = [1, 4] @ address @ u16_to_be_bytes port @ [k] @ selector
    \<and> UdpBinding_parse (binding_bytes b) = Inr b"
proof -
  from assms(1) obtain a0 a1 a2 a3 where a: "address = [a0, a1, a2, a3]"
    by (auto simp: numeral_eq_Suc length_Suc_conv)
  from assms(3) have g: "port \<noteq> 0" "k = 1 \<or> k = 2"
    by (auto simp: UdpBinding_ipv4_def split: if_splits)
  have bb: "binding_bytes b = [1, 4] @ address @ u16_to_be_bytes port @ [k] @ selector"
  proof -
    obtain p0 p1 where p: "u16_to_be_bytes port = [p0, p1]" by (simp add: to_be_2)
    have "b = UdpBinding (copy_at 9 selector
        ((copy_at 6 [p0, p1] (copy_at 2 address (((replicate 25 0)[0 := 1])[1 := 4])))[8 := k]))"
      using assms(3) g by (simp add: UdpBinding_ipv4_def Let_def p)
    then show ?thesis
      using assms(2) unfolding p by (simp add: a copy_at_def numeral_eq_Suc)
  qed
  moreover have "u16_from_be_bytes [ucast (drop_bit 8 port), ucast port] = port"
    using from_be_to_be [of 2 port] by (simp add: to_be_2)
  ultimately have "UdpBinding_parse (binding_bytes b) = Inr (UdpBinding (binding_bytes b))"
    using assms(2) g by (simp add: UdpBinding_parse_def a to_be_2)
  with bb show ?thesis by (cases b) simp
qed

lemma udp_ipv6_parses:
  assumes "length address = 16" "length selector = 16"
    and "UdpBinding_ipv6 address port k selector = Inr b"
  shows "UdpBinding_parse (binding_bytes b) = Inr b"
proof -
  from assms(3) have g: "port \<noteq> 0" "k = 1 \<or> k = 2"
    "b = UdpBinding ([1, 6] @ address @ u16_to_be_bytes port @ [k] @ selector)"
    by (auto simp: UdpBinding_ipv6_def split: if_splits)
  moreover have "u16_from_be_bytes [ucast (drop_bit 8 port), ucast port] = port"
    using from_be_to_be [of 2 port] by (simp add: to_be_2)
  ultimately show ?thesis
    using assms(1,2) by (auto simp: UdpBinding_parse_def nth_append to_be_2)
qed

section \<open>Messages: decode and encode are inverse\<close>

lemma exact_body_len_range: "exact_body_len typ = Some n \<Longrightarrow> OPEN \<le> typ \<and> typ \<le> CLOSE"
  by (auto simp: exact_body_len_def session_consts split: if_splits)

lemma validate_body_range: "validate_body typ body = Inr () \<Longrightarrow> OPEN \<le> typ \<and> typ \<le> CLOSE"
  by (auto simp: validate_body_def split: option.splits intro: exact_body_len_range
      dest: exact_body_len_range)

lemma list_4_drop:
  "4 \<le> length xs \<Longrightarrow> xs = [xs ! 0, xs ! 1, xs ! 2, xs ! 3] @ drop 4 xs"
  by (rule nth_equalityI) (auto simp: nth_append nth_Cons numeral_eq_Suc split: nat.splits)

lemma decode_iff_encode:
  assumes "budget < 2 ^ 64"
  shows "SessionMessage_decode bs p budget = Inr m \<longleftrightarrow>
     sm_profile m = p \<and> SessionMessage_encode m budget = Inr bs"
proof
  assume d: "SessionMessage_decode bs p budget = Inr m"
  then have f: "4 \<le> length bs" "length bs \<le> budget" "bs ! 1 = SESSION_VERSION" "bs ! 2 = p"
    "bs ! 3 = 0" "validate_body (bs ! 0) (drop 4 bs) = Inr ()"
    "m = \<lparr>sm_typ = bs ! 0, sm_profile = p, sm_body = drop 4 bs\<rparr>"
    by (auto simp: SessionMessage_decode_def Let_def and_then_Inr split: if_splits)
  with assms list_4_drop [OF f(1)] show
    "sm_profile m = p \<and> SessionMessage_encode m budget = Inr bs"
    by (simp add: SessionMessage_encode_def and_then_Inr)
next
  assume "sm_profile m = p \<and> SessionMessage_encode m budget = Inr bs"
  then show "SessionMessage_decode bs p budget = Inr m"
    using validate_body_range [of "sm_typ m" "sm_body m"]
    by (auto simp: SessionMessage_encode_def SessionMessage_decode_def and_then_Inr Let_def
        split: if_splits)
qed

interpretation message: codec
  "\<lambda>m. SessionMessage_encode m (unat (b :: u64))" "\<lambda>bs. SessionMessage_decode bs p (unat b)"
  "\<lambda>m. sm_profile m = p"
proof -
  have "unat b < 2 ^ 64" using unsigned_less [where w = b] by simp
  note iff = decode_iff_encode [OF this]
  show "codec (\<lambda>m. SessionMessage_encode m (unat b)) (\<lambda>bs. SessionMessage_decode bs p (unat b))
    (\<lambda>m. sm_profile m = p)"
    by unfold_locales (auto simp: iff)
qed

interpretation binding: codec
  "\<lambda>b. and_then (ObservedBinding_validate b) (\<lambda>_. Inr (ObservedBinding_encode b))"
  ObservedBinding_parse wf_binding
  by unfold_locales (auto simp: ObservedBinding_parse_iff and_then_Inr)

section \<open>Cookies and transcripts: what the authenticated strings determine\<close>

lemma append_split: "length a = length c \<Longrightarrow> a @ b = c @ d \<longleftrightarrow> a = c \<and> b = d"
  by simp

text \<open>The fields of a cookie context that its authenticated input covers.\<close>

definition cookie_view :: "crypto \<Rightarrow> cookie_context \<Rightarrow>
    ObservedBinding \<times> u8 \<times> u8 \<times> u32 \<times> u64 \<times> bytes \<times> bytes \<times> bytes \<times> bytes \<times> u64 \<times> u32" where
  "cookie_view c ctx =
     (cc_binding ctx, id_role (cc_client ctx), id_role (cc_server ctx),
      id_service_context (cc_client ctx), cc_scid ctx, id_eid (cc_client ctx),
      sha256 c (id_public_key (cc_client ctx)), sha256 c (cc_client_ephemeral ctx), cc_boot ctx,
      cc_bucket ctx, cc_server_context_id ctx)"

definition wf_cookie_context :: "cookie_context \<Rightarrow> bool" where
  "wf_cookie_context ctx \<longleftrightarrow>
     wf_binding (cc_binding ctx) \<and> wf_identity (cc_client ctx) \<and> length (cc_boot ctx) = 16"

lemma cookie_input_injective_aux:
  assumes "hash_ok c" "wf_cookie_context x" "wf_cookie_context y"
    and x: "cookie_input c x = Inr bs" and y: "cookie_input c y = Inr bs"
  shows "cookie_view c x = cookie_view c y"
proof -
  let ?e = "ObservedBinding_encode"
  let ?t = "\<lambda>x. [WIRE_VERSION, SESSION_VERSION, id_role (cc_client x), id_role (cc_server x)]
     @ u32_to_be_bytes (id_service_context (cc_client x)) @ u64_to_be_bytes (cc_scid x)
     @ id_eid (cc_client x) @ sha256 c (id_public_key (cc_client x))
     @ sha256 c (cc_client_ephemeral x) @ cc_boot x @ u64_to_be_bytes (cc_bucket x)
     @ u32_to_be_bytes (cc_server_context_id x)"
  have v: "ObservedBinding_validate (cc_binding z) = Inr ()" "bs = ascii ''R8 cookie v1'' @ ?e (cc_binding z) @ ?t z"
    if "cookie_input c z = Inr bs" for z
    using that by (auto simp: cookie_input_def and_then_Inr split: if_splits)
  have "?e (cc_binding x) @ ?t x = ?e (cc_binding y) @ ?t y"
    using v(2) [OF x] v(2) [OF y] by (metis same_append_eq)
  then have "cc_binding x = cc_binding y" "?t x = ?t y"
    using binding_encode_prefix_free [OF v(1) [OF x] _ v(1) [OF y]] assms(2,3)
    unfolding wf_cookie_context_def by blast+
  with assms(1-3) show ?thesis
    by (simp add: cookie_view_def wf_cookie_context_def wf_identity_def hash_ok_def append_split
        to_be_inject)
qed

definition wf_transcript_context :: "transcript_context \<Rightarrow> bool" where
  "wf_transcript_context t \<longleftrightarrow>
     wf_identity (tc_client t) \<and> wf_identity (tc_server t)
     \<and> length (tc_client_ephemeral t) = 32 \<and> length (tc_server_ephemeral t) = 32
     \<and> length (tc_client_nonce t) = 32 \<and> length (tc_server_nonce t) = 32
     \<and> length (tc_boot t) = 16"

lemma transcript_t0_ok:
  "transcript_t0 c t = Inr bs \<Longrightarrow>
     id_service_context (tc_client t) = id_service_context (tc_server t)
     \<and> Identity_validate c (tc_client t) = Inr ()"
  by (auto simp: transcript_t0_def and_then_Inr split: if_splits)

lemma transcript_t0_injective_aux:
  assumes "wf_transcript_context x" "wf_transcript_context y"
    and x: "transcript_t0 c x = Inr bs" and y: "transcript_t0 c y = Inr bs"
  shows "x = y"
proof -
  let ?t = "\<lambda>x. [WIRE_VERSION, tc_profile x] @ u64_to_be_bytes (tc_scid x)
            @ [id_role (tc_client x), id_role (tc_server x)]
            @ u32_to_be_bytes (id_service_context (tc_client x))
            @ id_eid (tc_client x) @ id_public_key (tc_client x)
            @ id_eid (tc_server x) @ id_public_key (tc_server x)
            @ tc_client_ephemeral x @ tc_server_ephemeral x
            @ tc_client_nonce x @ tc_server_nonce x @ tc_boot x"
  have t: "bs = ascii ''R8 session transcript v1'' @ ?t z" if "transcript_t0 c z = Inr bs" for z
    using that by (auto simp: transcript_t0_def and_then_Inr split: if_splits)
  have "?t x = ?t y" using t [OF x] t [OF y] by (metis same_append_eq)
  with assms(1,2) transcript_t0_ok [OF x] transcript_t0_ok [OF y] show ?thesis
    by (simp add: wf_transcript_context_def wf_identity_def append_split to_be_inject
        transcript_context.equality identity.equality)
qed

lemma cookie_input_bucket:
  "cookie_input c ctx = Inr i \<Longrightarrow> \<exists>j. cookie_input c (ctx\<lparr>cc_bucket := b\<rparr>) = Inr j"
  by (auto simp: cookie_input_def and_then_Inr split: if_splits)

text \<open>The bucket a cookie was issued for, the key it was made with.\<close>

definition cookie_made_with :: "crypto \<Rightarrow> cookie_context \<Rightarrow> bytes \<Rightarrow> u64 \<Rightarrow> bytes \<Rightarrow> bool" where
  "cookie_made_with c ctx key bucket supplied \<longleftrightarrow>
     (\<exists>input. cookie_input c (ctx\<lparr>cc_bucket := bucket\<rparr>) = Inr input
              \<and> cookie c key input = supplied)"

lemma cookie_made_with_iff:
  "cookie_input c (ctx\<lparr>cc_bucket := b\<rparr>) = Inr i \<Longrightarrow>
     cookie_made_with c ctx key b supplied \<longleftrightarrow> cookie c key i = supplied"
  by (simp add: cookie_made_with_def)

lemma cookie_matches_buckets_eq:
  assumes "cookie_input c ctx = Inr i0"
  shows "cookie_matches_buckets c cur prev rot supplied ctx now = Inr
    (\<exists>key b. (key = cur \<or> key = prev \<and> saturating_sub now rot \<le> 20000)
       \<and> (b = now div 10000 \<or> Some b = checked_sub (now div 10000) 1)
       \<and> cookie_made_with c ctx key b supplied)"
proof -
  obtain i where i: "cookie_input c (ctx\<lparr>cc_bucket := now div 10000\<rparr>) = Inr i"
    using cookie_input_bucket [OF assms] by blast
  show ?thesis
  proof (cases "checked_sub (now div 10000) 1")
    case None
    with i show ?thesis
      by (auto simp: cookie_matches_buckets_def Let_def cookie_made_with_def)
  next
    case (Some b)
    obtain j where "cookie_input c (ctx\<lparr>cc_bucket := b\<rparr>) = Inr j"
      using cookie_input_bucket [OF assms] by blast
    with i Some show ?thesis
      by (auto simp: cookie_matches_buckets_def Let_def cookie_made_with_def)
  qed
qed

lemma recent_bucket_iff:
  "(b = now div 10000 \<or> Some b = checked_sub (now div 10000) 1) \<longleftrightarrow>
     unat b \<le> unat now div 10000 \<and> unat now div 10000 \<le> Suc (unat b)" for b now :: u64
proof -
  have d: "unat (now div 10000) = unat now div 10000" by (simp add: unat_div)
  have "Some b = checked_sub (now div 10000) 1 \<longleftrightarrow> unat now div 10000 = Suc (unat b)"
  proof (cases "now div 10000 = 0")
    case True
    then have "unat now div 10000 = 0" using d by simp
    with True show ?thesis by (simp add: checked_sub_def)
  next
    case False
    then have nz: "unat now div 10000 \<noteq> 0" using d by (metis unsigned_eq_0_iff)
    have le: "1 \<le> now div 10000" using nz d by (simp add: word_le_nat_alt)
    have "unat (now div 10000 - 1) = unat now div 10000 - 1"
      using unat_sub [OF le] d by simp
    then have "b = now div 10000 - 1 \<longleftrightarrow> unat b = unat now div 10000 - 1"
      by (simp add: word_unat_eq_iff)
    with nz le show ?thesis by (auto simp: checked_sub_def)
  qed
  moreover have "b = now div 10000 \<longleftrightarrow> unat b = unat now div 10000"
    using d by (simp add: word_unat_eq_iff)
  moreover have "(x = n \<or> n = Suc x) \<longleftrightarrow> x \<le> n \<and> n \<le> Suc x" for x n :: nat by auto
  ultimately show ?thesis by (simp only:)
qed

section \<open>A concrete instance of the cryptographic interface\<close>

text \<open>
  Not cryptography: padding and concatenation that satisfy the laws of \<open>crypto_ok\<close>, so that the
  properties below can be applied to concrete values.
\<close>

definition pad :: "nat \<Rightarrow> bytes \<Rightarrow> bytes" where
  "pad n m = take n (m @ replicate n 0)"

definition sample_crypto :: crypto where
  "sample_crypto = \<lparr>sha256 = pad 32, hmac_sha256 = (\<lambda>k m. pad 32 (pad 16 k @ m)),
     ed_verifying_key = pad 32, ed_key_ok = (\<lambda>_. True),
     ed_sign = (\<lambda>k m. pad 64 (pad 32 k @ m)), ed_verify = (\<lambda>k m s. s = pad 64 (pad 32 k @ m)),
     x_public = pad 32, x_diffie_hellman = (\<lambda>a b. map2 (+) (pad 32 a) (pad 32 b)),
     hkdf_extract = (\<lambda>salt m. m), hkdf_expand = (\<lambda>prk info n. Some (pad n (prk @ info))),
     aead_encrypt = (\<lambda>k n a m. Some (m, pad 16 (pad 12 n @ k))),
     aead_decrypt = (\<lambda>k n a m t. if t = pad 16 (pad 12 n @ k) then Some m else None)\<rparr>"

lemma length_pad [simp]: "length (pad n m) = n"
  by (simp add: pad_def)

lemma pad_pad [simp]: "pad n (pad n m) = pad n m"
  by (simp add: pad_def)

lemma map2_add_commute: "map2 (+) xs ys = map2 (+) ys xs" for xs ys :: bytes
  by (rule nth_equalityI) (simp_all add: add.commute)

lemma sample_crypto_ok: "crypto_ok sample_crypto"
proof -
  have "kex_ok sample_crypto"
    by (simp add: kex_ok_def sample_crypto_def map2_add_commute)
  then show ?thesis
    by (simp add: crypto_ok_def hash_ok_def signature_ok_def aead_ok_def sample_crypto_def)
qed

definition sample_identity :: "u8 \<Rightarrow> identity" where
  "sample_identity role =
     \<lparr>id_role = role, id_service_context = 1, id_eid = pad 16 (ascii ''R8 EID v1'' @ [role]),
      id_public_key = pad 32 [role]\<rparr>"

lemma sample_identity_ok:
  "role = 1 \<or> role = 2 \<Longrightarrow> Identity_validate sample_crypto (sample_identity role) = Inr ()"
  by (auto simp: Identity_validate_def sample_identity_def sample_crypto_def eid_def pad_def
      numeral_eq_Suc ascii_def)

lemma wf_sample_identity [simp]: "wf_identity (sample_identity role)"
  by (simp add: wf_identity_def sample_identity_def)

definition sample_cookie_context :: cookie_context where
  "sample_cookie_context =
     \<lparr>cc_binding = Native 1 (replicate 6 0), cc_client = sample_identity 1,
      cc_server = sample_identity 2, cc_scid = 7, cc_client_ephemeral = replicate 32 5,
      cc_boot = replicate 16 9, cc_bucket = 0, cc_server_context_id = 1\<rparr>"

lemma sample_cookie_input: "\<exists>i. cookie_input sample_crypto sample_cookie_context = Inr i"
  by (simp add: cookie_input_def sample_cookie_context_def sample_identity_ok)

definition sample_transcript :: transcript_context where
  "sample_transcript =
     \<lparr>tc_profile = 1, tc_scid = 7, tc_client = sample_identity 1, tc_server = sample_identity 2,
      tc_client_ephemeral = replicate 32 1, tc_server_ephemeral = replicate 32 2,
      tc_client_nonce = replicate 32 3, tc_server_nonce = replicate 32 4,
      tc_boot = replicate 16 5\<rparr>"

lemma sample_transcript_t0: "\<exists>bs. transcript_t0 sample_crypto sample_transcript = Inr bs"
proof -
  have "eid sample_crypto (id_public_key (sample_identity 2)) = id_eid (sample_identity 2)"
    using sample_identity_ok [of 2] by (auto simp: Identity_validate_def split: if_splits)
  moreover have "id_role (sample_identity r) = r" "id_service_context (sample_identity r) = 1" for r
    by (simp_all add: sample_identity_def)
  ultimately show ?thesis
    by (simp add: transcript_t0_def sample_transcript_def sample_identity_ok)
qed

section \<open>Properties\<close>

text \<open>The session message codec is canonical: decoding under a header profile yields a message
  exactly when the message has that profile and encodes to those very bytes.\<close>

theorem session_message_canonical:
  "SessionMessage_decode bs p (unat (budget :: u64)) = Inr m \<longleftrightarrow>
     sm_profile m = p \<and> SessionMessage_encode m (unat budget) = Inr bs"
  by (rule message.dec_iff_enc)

text \<open>The observed-binding codec is canonical: a byte string parses to a binding exactly when
  the binding is valid and encodes to that byte string; the IPv4, IPv6 and native forms never
  overlap.\<close>

theorem binding_parse_canonical:
  "ObservedBinding_parse bs = Inr b \<longleftrightarrow>
     wf_binding b \<and> ObservedBinding_validate b = Inr () \<and> ObservedBinding_encode b = bs"
  by (rule ObservedBinding_parse_iff)

text \<open>Every binding the two UDP constructors build is accepted by the parser and is the value
  the parser returns.\<close>

theorem udp_constructors_parse:
  assumes "length a4 = 4" "length a6 = 16" "length selector = 16"
    and "UdpBinding_ipv4 a4 port k selector = Inr b4"
    and "UdpBinding_ipv6 a6 port k selector = Inr b6"
  shows "ObservedBinding_parse (binding_bytes b4) = Inr (Udp b4)
    \<and> ObservedBinding_parse (binding_bytes b6) = Inr (Udp b6)"
proof -
  have "UdpBinding_parse (binding_bytes b4) = Inr b4" "UdpBinding_parse (binding_bytes b6) = Inr b6"
    using udp_ipv4_parses udp_ipv6_parses assms by blast+
  then show ?thesis by (simp add: ObservedBinding_parse_iff and_then_Inr)
qed

theorem udp_constructors_parse_witness:
  "\<exists>b. UdpBinding_ipv4 [10, 0, 0, 1] 4097 1 (replicate 16 0) = Inr b
     \<and> ObservedBinding_parse (binding_bytes b) = Inr (Udp b)"
proof -
  obtain b4 where "UdpBinding_ipv4 [10, 0, 0, 1] 4097 1 (replicate 16 0) = Inr b4"
    by (auto simp: UdpBinding_ipv4_def Let_def)
  moreover obtain b6 where "UdpBinding_ipv6 (replicate 16 0) 4097 1 (replicate 16 0) = Inr b6"
    by (auto simp: UdpBinding_ipv6_def)
  ultimately show ?thesis
    using udp_constructors_parse [of "[10, 0, 0, 1]" "replicate 16 0" "replicate 16 0" 4097 1 b4 b6]
    by simp
qed

text \<open>The signed transcript determines the handshake: two handshakes with the same transcript
  bytes agree on the profile, the connection id, both identities, both ephemeral keys, both
  nonces and the server's boot instance.\<close>

theorem transcript_unambiguous:
  assumes "wf_transcript_context x" "wf_transcript_context y"
    and "transcript_t0 c x = Inr bs" "transcript_t0 c y = Inr bs"
  shows "x = y"
  using assms by (rule transcript_t0_injective_aux)

theorem transcript_unambiguous_witness:
  "\<exists>bs. transcript_t0 sample_crypto sample_transcript = Inr bs
     \<and> transcript_t0 sample_crypto (sample_transcript\<lparr>tc_scid := 8\<rparr>) \<noteq> Inr bs"
proof -
  obtain bs where bs: "transcript_t0 sample_crypto sample_transcript = Inr bs"
    using sample_transcript_t0 by blast
  have wf: "wf_transcript_context sample_transcript"
    "wf_transcript_context (sample_transcript\<lparr>tc_scid := 8\<rparr>)"
    by (simp_all add: wf_transcript_context_def sample_transcript_def)
  have "sample_transcript \<noteq> sample_transcript\<lparr>tc_scid := 8\<rparr>" by (simp add: sample_transcript_def)
  with transcript_unambiguous [OF wf bs] bs show ?thesis by blast
qed

text \<open>The cookie's authenticated input determines everything the cookie binds: observed
  binding, both roles, service context, connection id, client EID, the digests of the client's
  static and ephemeral keys, boot instance, time bucket and server context.\<close>

theorem cookie_input_unambiguous:
  assumes "hash_ok c" "wf_cookie_context x" "wf_cookie_context y"
    and "cookie_input c x = Inr bs" "cookie_input c y = Inr bs"
  shows "cookie_view c x = cookie_view c y"
  using assms by (rule cookie_input_injective_aux)

theorem cookie_input_unambiguous_witness:
  "\<exists>bs. cookie_input sample_crypto sample_cookie_context = Inr bs
     \<and> cookie_input sample_crypto (sample_cookie_context\<lparr>cc_bucket := 3\<rparr>) \<noteq> Inr bs"
proof -
  obtain bs where bs: "cookie_input sample_crypto sample_cookie_context = Inr bs"
    using sample_cookie_input by blast
  have wf: "wf_cookie_context sample_cookie_context"
    "wf_cookie_context (sample_cookie_context\<lparr>cc_bucket := 3\<rparr>)"
    by (simp_all add: wf_cookie_context_def sample_cookie_context_def)
  have "hash_ok sample_crypto" using sample_crypto_ok by (simp add: crypto_ok_def)
  from cookie_input_unambiguous [OF this wf bs] bs show ?thesis
    by (auto simp: cookie_view_def sample_cookie_context_def)
qed

text \<open>A cookie is accepted exactly when it was made for this context in the current or the
  previous ten-second bucket, with the current key, or with the previous key no later than
  twenty seconds after the rotation.\<close>

theorem cookie_accepted_iff:
  assumes "cookie_input c ctx = Inr i0"
  shows "cookie_matches_buckets c cur prev rot supplied ctx now = Inr
    (\<exists>key b. (key = cur \<or> key = prev \<and> unat now - unat rot \<le> 20000)
       \<and> unat b \<le> unat now div 10000 \<and> unat now div 10000 \<le> Suc (unat b)
       \<and> cookie_made_with c ctx key b supplied)"
proof -
  have "saturating_sub now rot \<le> 20000 \<longleftrightarrow> unat now - unat rot \<le> 20000"
    by (simp add: word_le_nat_alt unat_saturating_sub)
  then show ?thesis
    by (simp add: cookie_matches_buckets_eq [OF assms] recent_bucket_iff del: One_nat_def)
qed

theorem cookie_accepted_iff_witness:
  "\<exists>i. cookie_input sample_crypto sample_cookie_context = Inr i
     \<and> cookie_matches_buckets sample_crypto [1] [2] 0 (cookie sample_crypto [1] i)
         sample_cookie_context 9999 = Inr True"
proof -
  obtain i where i: "cookie_input sample_crypto sample_cookie_context = Inr i"
    using sample_cookie_input by blast
  moreover have "sample_cookie_context\<lparr>cc_bucket := 0\<rparr> = sample_cookie_context"
    by (simp add: sample_cookie_context_def)
  ultimately have "cookie_made_with sample_crypto sample_cookie_context [1] 0
      (cookie sample_crypto [1] i)"
    by (simp add: cookie_made_with_def)
  then have "\<exists>key b. (key = [1] \<or> key = [2] \<and> unat (9999 :: u64) - unat (0 :: u64) \<le> 20000)
       \<and> unat (b :: u64) \<le> unat (9999 :: u64) div 10000
       \<and> unat (9999 :: u64) div 10000 \<le> Suc (unat b)
       \<and> cookie_made_with sample_crypto sample_cookie_context key b (cookie sample_crypto [1] i)"
    by (intro exI [of _ "[1]"] exI [of _ "0 :: u64"]) simp
  with cookie_accepted_iff [OF i] i show ?thesis by simp
qed

end
