(* ===== verification/Directional.thy ===== *)
theory Directional
  imports Replay Session_Codec
begin

text \<open>
  The protected data path of \<open>rust/crates/r8-session/src/lib.rs\<close> (lines 588-740 and 850-1345):
  nonces, associated data, sealing and opening, and \<open>DirectionalSession\<close> with its previews,
  replay proofs and commits, for ordinary protected messages and for Profile-3 data.

  A \<open>&mut self\<close> method returns its result and the new session. The receive lease
  (\<open>Arc<AtomicBool>\<close>, cleared when the session is dropped) is identified by the session's unique
  owner number; \<open>live\<close> is the set of leases that still hold \<open>true\<close>. The global owner counter
  \<open>NEXT_SESSION_OWNER\<close> is threaded explicitly and \<open>None\<close> is the panic at its end.
\<close>

section \<open>Nonce, associated data, sealing\<close>

definition nonce :: "u64 \<Rightarrow> SessionError + bytes" where
  "nonce counter =
     (if counter = 0 \<or> counter = u64_max then Inl CounterRange
      else Inr (copy_at 4 (u64_to_be_bytes counter) (replicate 12 0)))"

definition protected_aad :: "bytes \<Rightarrow> u64 \<Rightarrow> SessionError + bytes" where
  "protected_aad packet counter =
     (if length packet < HEADER_LEN + 12 then Inl Truncated
      else and_then (map_err (\<lambda>_. AuthFailed) (unpack packet)) (\<lambda>_.
        Inr ((take (HEADER_LEN + 4) packet)[5 := 0] @ u64_to_be_bytes counter)))"

definition seal :: "crypto \<Rightarrow> bytes \<Rightarrow> u64 \<Rightarrow> bytes \<Rightarrow> bytes \<Rightarrow> SessionError + bytes" where
  "seal c key counter aad plaintext =
     and_then (nonce counter) (\<lambda>n.
     and_then (ok_or AuthFailed (aead_encrypt c key n aad plaintext)) (\<lambda>(data, tag).
       Inr (data @ tag)))"

definition open_sealed :: "crypto \<Rightarrow> bytes \<Rightarrow> u64 \<Rightarrow> bytes \<Rightarrow> bytes \<Rightarrow> SessionError + bytes" where
  "open_sealed c key counter aad ciphertext =
     (if length ciphertext < 16 then Inl Truncated
      else and_then (nonce counter) (\<lambda>n.
        let split = length ciphertext - 16 in
        ok_or AuthFailed (aead_decrypt c key n aad (take split ciphertext) (drop split ciphertext))))"

section \<open>Sessions, previews and proofs\<close>

record directional_session =
  ds_send_key :: bytes
  ds_receive_key :: bytes
  ds_send_counters :: counters
  ds_replay :: replay_window
  ds_transcript_hash :: bytes
  ds_receive_budget :: nat
  ds_receive_owner :: u64

record protected_preview =
  pp_plaintext :: bytes
  pp_commit :: replay_commit
  pp_receive_owner :: u64

record protected_replay_proof =
  pr_preview :: "protected_preview option"
  pr_committed :: bool

record profile3_data_preview =
  p3_delivery_id :: u64
  p3_plaintext :: bytes
  p3_commit :: replay_commit
  p3_receive_owner :: u64

record profile3_replay_proof =
  p3r_preview :: "profile3_data_preview option"
  p3r_committed :: bool

definition allocate_session_owner :: "u64 \<Rightarrow> (u64 \<times> u64) option" where
  "allocate_session_owner next_owner =
     (if next_owner = 0 \<or> next_owner = u64_max then None else Some (next_owner, next_owner + 1))"

definition DirectionalSession_new ::
    "bytes \<Rightarrow> bytes \<Rightarrow> bytes \<Rightarrow> nat \<Rightarrow> u64 \<Rightarrow> (directional_session \<times> u64) option" where
  "DirectionalSession_new send_key receive_key th receive_budget next_owner =
     (case allocate_session_owner next_owner of
        None \<Rightarrow> None
      | Some (owner, next_owner') \<Rightarrow>
          Some (\<lparr>ds_send_key = send_key, ds_receive_key = receive_key,
                 ds_send_counters = Counters_new, ds_replay = ReplayWindow_new,
                 ds_transcript_hash = th, ds_receive_budget = receive_budget,
                 ds_receive_owner = owner\<rparr>, next_owner'))"

definition DirectionalSession_can_reserve :: "directional_session \<Rightarrow> bool" where
  "DirectionalSession_can_reserve s = Counters_can_reserve (ds_send_counters s)"

text \<open>A replay binding is the owner number of the session it was taken from.\<close>

definition protected_replay_binding :: "directional_session \<Rightarrow> u64" where
  "protected_replay_binding s = ds_receive_owner s"

definition profile3_replay_binding :: "directional_session \<Rightarrow> u64" where
  "profile3_replay_binding s = ds_receive_owner s"

definition ProtectedReplayBinding_matches_proof :: "u64 \<Rightarrow> protected_replay_proof \<Rightarrow> bool" where
  "ProtectedReplayBinding_matches_proof binding proof =
     (case pr_preview proof of None \<Rightarrow> False | Some p \<Rightarrow> pp_receive_owner p = binding)"

definition Profile3ReplayBinding_matches_proof :: "u64 \<Rightarrow> profile3_replay_proof \<Rightarrow> bool" where
  "Profile3ReplayBinding_matches_proof binding proof =
     (case p3r_preview proof of None \<Rightarrow> False | Some p \<Rightarrow> p3_receive_owner p = binding)"

definition ProtectedPreview_plaintext :: "u64 set \<Rightarrow> protected_preview \<Rightarrow> SessionError + bytes" where
  "ProtectedPreview_plaintext live p =
     (if pp_receive_owner p \<in> live then Inr (pp_plaintext p) else Inl Replay)"

definition ProtectedPreview_into_replay_proof :: "protected_preview \<Rightarrow> protected_replay_proof" where
  "ProtectedPreview_into_replay_proof p = \<lparr>pr_preview = Some p, pr_committed = False\<rparr>"

definition ProtectedReplayProof_matches_plaintext ::
    "u64 set \<Rightarrow> protected_replay_proof \<Rightarrow> bytes \<Rightarrow> bool" where
  "ProtectedReplayProof_matches_plaintext live proof plaintext =
     (case pr_preview proof of None \<Rightarrow> False
      | Some p \<Rightarrow> ProtectedPreview_plaintext live p = Inr plaintext)"

definition Profile3DataPreview_into_replay_proof ::
    "profile3_data_preview \<Rightarrow> profile3_replay_proof" where
  "Profile3DataPreview_into_replay_proof p = \<lparr>p3r_preview = Some p, p3r_committed = False\<rparr>"

definition Profile3ReplayProof_matches_plaintext :: "profile3_replay_proof \<Rightarrow> bytes \<Rightarrow> bool" where
  "Profile3ReplayProof_matches_plaintext proof plaintext =
     (case p3r_preview proof of None \<Rightarrow> False | Some p \<Rightarrow> p3_plaintext p = plaintext)"

section \<open>Header checks\<close>

definition validate_protected_header ::
    "header \<Rightarrow> u8 \<Rightarrow> u64 \<Rightarrow> bytes \<Rightarrow> bytes \<Rightarrow> SessionError + unit" where
  "validate_protected_header h profile scid source destination =
     (if h_next_header h \<noteq> NH_SES \<or> h_profile h \<noteq> profile \<or> h_scid h \<noteq> scid \<or> h_flags h \<noteq> 1
         \<or> h_path_slot h \<noteq> 0 \<or> h_src h \<noteq> source \<or> h_dst h \<noteq> destination
      then Inl AuthFailed else Inr ())"

definition profile3_data_aad :: "bytes \<Rightarrow> u64 \<Rightarrow> u64 \<Rightarrow> SessionError + bytes" where
  "profile3_data_aad packet counter delivery_id =
     and_then (protected_aad packet counter) (\<lambda>aad. Inr (aad @ u64_to_be_bytes delivery_id))"

definition validate_profile3_data_header :: "header \<Rightarrow> SessionError + unit" where
  "validate_profile3_data_header h =
     and_then (if h_path_slot h = 0 then Inr 1
               else if h_path_slot h = 1 then Inr 3
               else Inl AuthFailed) (\<lambda>expected_flags.
       if h_profile h \<noteq> 3 \<or> h_next_header h \<noteq> NH_SES \<or> h_flags h \<noteq> expected_flags \<or> h_tc h \<noteq> 0
          \<or> h_hop_limit h = 0 \<or> h_scid h = 0
       then Inl AuthFailed else Inr ())"

section \<open>Sending\<close>

text \<open>What \<open>encrypt\<close> does once its counter is reserved.\<close>

definition encrypt_with_counter ::
    "crypto \<Rightarrow> bytes \<Rightarrow> u64 \<Rightarrow> header \<Rightarrow> u8 \<Rightarrow> bytes \<Rightarrow> nat \<Rightarrow> nat \<Rightarrow> SessionError + bytes" where
  "encrypt_with_counter c key counter h typ plaintext payload_len budget =
     (let head = [typ, SESSION_VERSION, h_profile h, 0] @ u64_to_be_bytes counter;
          payload = head @ replicate (payload_len - length head) 0 in
      and_then (map_err (\<lambda>_. Budget) (pack_with_budget h payload budget)) (\<lambda>packet.
      and_then (protected_aad packet counter) (\<lambda>aad.
      and_then (seal c key counter aad plaintext) (\<lambda>ciphertext.
        map_err (\<lambda>_. Budget) (pack_with_budget h (copy_at 12 ciphertext payload) budget)))))"

definition DirectionalSession_encrypt ::
    "crypto \<Rightarrow> directional_session \<Rightarrow> header \<Rightarrow> u8 \<Rightarrow> bytes \<Rightarrow> nat \<Rightarrow>
       (SessionError + bytes) \<times> directional_session" where
  "DirectionalSession_encrypt c s h typ plaintext budget =
     (if \<not> (typ = SESSION_ACCEPT \<or> typ = SESSION_DATA \<or> typ = CLOSE) then (Inl Type, s)
      else if typ = SESSION_ACCEPT \<and> length plaintext \<noteq> 44 then (Inl AuthFailed, s)
      else if typ = CLOSE \<and> length plaintext \<noteq> 2 then (Inl AuthFailed, s)
      else case Option.bind (usize_checked_add 12 (length plaintext))
                  (\<lambda>len. usize_checked_add len 16) of
        None \<Rightarrow> (Inl Budget, s)
      | Some payload_len \<Rightarrow>
        (case usize_checked_add payload_len 48 of
           None \<Rightarrow> (Inl Budget, s)
         | Some packet_len \<Rightarrow>
             if packet_len > budget then (Inl Budget, s)
             else case Counters_reserve (ds_send_counters s) of
               (Inl e, cs) \<Rightarrow> (Inl e, s\<lparr>ds_send_counters := cs\<rparr>)
             | (Inr counter, cs) \<Rightarrow>
                 (encrypt_with_counter c (ds_send_key s) counter h typ plaintext payload_len budget,
                  s\<lparr>ds_send_counters := cs\<rparr>)))"

definition DirectionalSession_encrypt_profile3_data ::
    "crypto \<Rightarrow> directional_session \<Rightarrow> header \<Rightarrow> u64 \<Rightarrow> bytes \<Rightarrow> nat \<Rightarrow>
       (SessionError + bytes) \<times> directional_session" where
  "DirectionalSession_encrypt_profile3_data c s h delivery_id plaintext budget =
     (if delivery_id = u64_max then (Inl CounterRange, s)
      else case usize_checked_add (length plaintext) (PROFILE3_DATA_PACKET_OVERHEAD - HEADER_LEN) of
        None \<Rightarrow> (Inl Budget, s)
      | Some payload_len \<Rightarrow>
        (case usize_checked_add payload_len HEADER_LEN of
           None \<Rightarrow> (Inl Budget, s)
         | Some packet_len \<Rightarrow>
           if packet_len > budget then (Inl Budget, s)
           else
             let head = [SESSION_DATA, SESSION_VERSION, 3, 0];
                 payload = copy_at 12 (u64_to_be_bytes delivery_id)
                   (head @ replicate (payload_len - length head) 0) in
             case and_then (validate_profile3_data_header h) (\<lambda>_.
                    map_err (\<lambda>_. Budget) (pack_with_budget h payload budget)) of
               Inl e \<Rightarrow> (Inl e, s)
             | Inr _ \<Rightarrow>
               if \<not> Counters_can_reserve (ds_send_counters s) then (Inl CounterExhausted, s)
               else case Counters_reserve (ds_send_counters s) of
                 (Inl e, cs) \<Rightarrow> (Inl e, s\<lparr>ds_send_counters := cs\<rparr>)
               | (Inr counter, cs) \<Rightarrow>
                   (and_then (map_err (\<lambda>_. Budget) (pack_with_budget h
                        (copy_at 4 (u64_to_be_bytes counter) payload) budget)) (\<lambda>packet.
                    and_then (profile3_data_aad packet counter delivery_id) (\<lambda>aad.
                    and_then (seal c (ds_send_key s) counter aad plaintext) (\<lambda>ciphertext.
                      Inr (copy_at (HEADER_LEN + 20) ciphertext packet)))),
                    s\<lparr>ds_send_counters := cs\<rparr>)))"

section \<open>Receiving\<close>

definition receive_error :: "WireError \<Rightarrow> SessionError" where
  "receive_error e = (if e = WireError.BindingBudget then Budget else AuthFailed)"

definition DirectionalSession_preview ::
    "crypto \<Rightarrow> directional_session \<Rightarrow> bytes \<Rightarrow> SessionError + protected_preview" where
  "DirectionalSession_preview c s packet =
     and_then (map_err receive_error (unpack_with_budget packet (ds_receive_budget s)))
       (\<lambda>(h, payload).
     and_then (map_err (\<lambda>_. AuthFailed)
         (SessionMessage_decode payload (h_profile h) (ds_receive_budget s))) (\<lambda>message.
     if \<not> (sm_typ message = SESSION_ACCEPT \<or> sm_typ message = SESSION_DATA \<or> sm_typ message = CLOSE)
     then Inl UnexpectedMessage
     else let counter = u64_from_be_bytes (take 8 (sm_body message)) in
       and_then (ReplayWindow_preview (ds_replay s) counter) (\<lambda>commit.
       and_then (protected_aad packet counter) (\<lambda>aad.
       and_then (open_sealed c (ds_receive_key s) counter aad (drop 8 (sm_body message))) (\<lambda>plaintext.
         Inr \<lparr>pp_plaintext = plaintext, pp_commit = commit,
              pp_receive_owner = ds_receive_owner s\<rparr>)))))"

definition DirectionalSession_commit ::
    "directional_session \<Rightarrow> protected_preview \<Rightarrow> (SessionError + bytes) \<times> directional_session" where
  "DirectionalSession_commit s p =
     (if ds_receive_owner s \<noteq> pp_receive_owner p then (Inl Replay, s)
      else case ReplayWindow_commit (ds_replay s) (pp_commit p) of
        (Inl e, w) \<Rightarrow> (Inl e, s\<lparr>ds_replay := w\<rparr>)
      | (Inr _, w) \<Rightarrow> (Inr (pp_plaintext p), s\<lparr>ds_replay := w\<rparr>))"

definition DirectionalSession_commit_protected_replay ::
    "directional_session \<Rightarrow> protected_replay_proof \<Rightarrow>
       (SessionError + unit) \<times> directional_session \<times> protected_replay_proof" where
  "DirectionalSession_commit_protected_replay s proof =
     (if pr_committed proof then (Inl Replay, s, proof)
      else case pr_preview proof of
        None \<Rightarrow> (Inl Replay, s, proof)
      | Some p \<Rightarrow>
          let taken = proof\<lparr>pr_preview := None\<rparr> in
          if ds_receive_owner s \<noteq> pp_receive_owner p then (Inl Replay, s, taken)
          else case ReplayWindow_commit (ds_replay s) (pp_commit p) of
            (Inl e, w) \<Rightarrow> (Inl e, s\<lparr>ds_replay := w\<rparr>, taken)
          | (Inr _, w) \<Rightarrow> (Inr (), s\<lparr>ds_replay := w\<rparr>, taken\<lparr>pr_committed := True\<rparr>))"

definition profile3_decode_error :: "SessionError \<Rightarrow> SessionError" where
  "profile3_decode_error e = (if e = CounterRange then e else AuthFailed)"

definition DirectionalSession_preview_profile3_data ::
    "crypto \<Rightarrow> directional_session \<Rightarrow> bytes \<Rightarrow> SessionError + profile3_data_preview" where
  "DirectionalSession_preview_profile3_data c s packet =
     and_then (map_err receive_error (unpack_with_budget packet (ds_receive_budget s)))
       (\<lambda>(h, payload).
     and_then (validate_profile3_data_header h) (\<lambda>_.
     and_then (map_err profile3_decode_error
         (SessionMessage_decode payload (h_profile h) (ds_receive_budget s))) (\<lambda>message.
     if sm_typ message \<noteq> SESSION_DATA \<or> sm_profile message \<noteq> 3 \<or> length (sm_body message) < 32
     then Inl UnexpectedMessage
     else
       let counter = u64_from_be_bytes (take 8 (sm_body message));
           delivery_id = u64_from_be_bytes (slice_of 8 16 (sm_body message)) in
       if delivery_id = 0 then Inl AuthFailed
       else if delivery_id = u64_max then Inl CounterRange
       else and_then (ReplayWindow_preview (ds_replay s) counter) (\<lambda>commit.
         and_then (profile3_data_aad packet counter delivery_id) (\<lambda>aad.
         and_then (open_sealed c (ds_receive_key s) counter aad (drop 16 (sm_body message))) (\<lambda>plaintext.
           Inr \<lparr>p3_delivery_id = delivery_id, p3_plaintext = plaintext, p3_commit = commit,
                p3_receive_owner = ds_receive_owner s\<rparr>))))))"

definition DirectionalSession_commit_profile3_replay ::
    "directional_session \<Rightarrow> profile3_replay_proof \<Rightarrow>
       (SessionError + unit) \<times> directional_session \<times> profile3_replay_proof" where
  "DirectionalSession_commit_profile3_replay s proof =
     (if p3r_committed proof then (Inl Replay, s, proof)
      else case p3r_preview proof of
        None \<Rightarrow> (Inl Replay, s, proof)
      | Some p \<Rightarrow>
          let taken = proof\<lparr>p3r_preview := None\<rparr> in
          if ds_receive_owner s \<noteq> p3_receive_owner p then (Inl Replay, s, taken)
          else case ReplayWindow_commit (ds_replay s) (p3_commit p) of
            (Inl e, w) \<Rightarrow> (Inl e, s\<lparr>ds_replay := w\<rparr>, taken)
          | (Inr _, w) \<Rightarrow> (Inr (), s\<lparr>ds_replay := w\<rparr>, taken\<lparr>p3r_committed := True\<rparr>))"

definition DirectionalSession_commit_profile3_data ::
    "directional_session \<Rightarrow> profile3_data_preview \<Rightarrow>
       (SessionError + u64 \<times> bytes) \<times> directional_session" where
  "DirectionalSession_commit_profile3_data s p =
     (if ds_receive_owner s \<noteq> p3_receive_owner p then (Inl Replay, s)
      else case ReplayWindow_commit (ds_replay s) (p3_commit p) of
        (Inl e, w) \<Rightarrow> (Inl e, s\<lparr>ds_replay := w\<rparr>)
      | (Inr _, w) \<Rightarrow> (Inr (p3_delivery_id p, p3_plaintext p), s\<lparr>ds_replay := w\<rparr>))"

definition DirectionalSession_decrypt ::
    "crypto \<Rightarrow> directional_session \<Rightarrow> bytes \<Rightarrow> (SessionError + bytes) \<times> directional_session" where
  "DirectionalSession_decrypt c s packet =
     (case DirectionalSession_preview c s packet of
        Inl e \<Rightarrow> (Inl e, s)
      | Inr p \<Rightarrow> DirectionalSession_commit s p)"

definition DirectionalSession_decrypt_profile3_data ::
    "crypto \<Rightarrow> directional_session \<Rightarrow> bytes \<Rightarrow>
       (SessionError + u64 \<times> bytes) \<times> directional_session" where
  "DirectionalSession_decrypt_profile3_data c s packet =
     (case DirectionalSession_preview_profile3_data c s packet of
        Inl e \<Rightarrow> (Inl e, s)
      | Inr p \<Rightarrow> DirectionalSession_commit_profile3_data s p)"

section \<open>Nonces and sealing\<close>

lemma nonce_Inr:
  "nonce n = Inr b \<longleftrightarrow> n \<noteq> 0 \<and> n \<noteq> u64_max \<and> b = replicate 4 0 @ u64_to_be_bytes n"
  by (auto simp: nonce_def copy_at_def numeral_eq_Suc)

lemma open_seal:
  assumes "aead_ok c" and "n \<noteq> 0" "n \<noteq> u64_max" and "length m \<le> 65535"
  obtains ct where "seal c k n a m = Inr ct" "length ct = length m + 16"
    "open_sealed c k n a ct = Inr m"
proof -
  obtain nb where nb: "nonce n = Inr nb" using assms by (simp add: nonce_Inr)
  obtain d t where "aead_encrypt c k nb a m = Some (d, t)" "length d = length m" "length t = 16"
    "aead_decrypt c k nb a d t = Some m"
    using assms unfolding aead_ok_def by blast
  with nb have "seal c k n a m = Inr (d @ t)" "open_sealed c k n a (d @ t) = Inr m"
    by (simp_all add: seal_def open_sealed_def)
  with \<open>length d = length m\<close> \<open>length t = 16\<close> show ?thesis using that by simp
qed

section \<open>Associated data: everything but the hop limit\<close>

abbreviation hop0 :: "header \<Rightarrow> header" where "hop0 h \<equiv> h\<lparr>h_hop_limit := 0\<rparr>"

lemma take_52_image:
  assumes "wf_header h" "length p = length q" "take 4 p = take 4 q"
  shows "take 52 (header_image h p) = take 52 (header_image h q)"
  using assms by (simp add: header_image_def wf_header_def)

lemma wf_header_hop [simp]: "wf_header (h\<lparr>h_hop_limit := k\<rparr>) = wf_header h"
  by (simp add: wf_header_def)

lemma protected_aad_eq:
  assumes "unpack_with_budget d b = Inr (h, p)" and "12 \<le> length p"
  shows "protected_aad d n = Inr (take 52 (header_image (hop0 h) p) @ u64_to_be_bytes n)"
proof -
  have d: "d = header_image h p" "length d = 48 + length p" "length d \<le> 1280"
    using assms(1) by (auto simp: unpack_iff length_header_image)
  have "unpack d = Inr (h, p)"
    using unpack_budget_mono [OF assms(1)] d by (simp add: unpack_def wire_consts)
  moreover have "(take 52 d)[5 := 0] = take 52 (header_image (hop0 h) p)"
    unfolding d(1) header_image_hop [symmetric] by (simp add: take_update_swap)
  ultimately show ?thesis
    using assms(2) d(2) by (simp add: protected_aad_def wire_consts)
qed

lemma protected_aad_Inr:
  assumes "protected_aad d n = Inr a"
  obtains h p where "unpack d = Inr (h, p)" "12 \<le> length p"
    "a = take 52 (header_image (hop0 h) p) @ u64_to_be_bytes n"
proof -
  from assms obtain h p where u: "unpack d = Inr (h, p)" and l: "60 \<le> length d"
    by (auto simp: protected_aad_def result_simps wire_consts split: if_splits)
  have "12 \<le> length p" using u l by (auto simp: unpack_def unpack_iff length_header_image)
  moreover have "a = take 52 (header_image (hop0 h) p) @ u64_to_be_bytes n"
    using protected_aad_eq [OF u [unfolded unpack_def] \<open>12 \<le> length p\<close>, of n] assms by simp
  ultimately show ?thesis using that u by blast
qed

section \<open>The protected packet\<close>

definition protected_payload :: "u8 \<Rightarrow> u8 \<Rightarrow> u64 \<Rightarrow> bytes \<Rightarrow> bytes" where
  "protected_payload typ profile n ct =
     [typ, SESSION_VERSION, profile, 0] @ u64_to_be_bytes n @ ct"

definition protected_type :: "u8 \<Rightarrow> bool" where
  "protected_type typ \<longleftrightarrow> typ = SESSION_ACCEPT \<or> typ = SESSION_DATA \<or> typ = CLOSE"

text \<open>The plaintext length each protected message type must have.\<close>

definition plaintext_fits :: "u8 \<Rightarrow> bytes \<Rightarrow> bool" where
  "plaintext_fits typ m \<longleftrightarrow>
     (typ = SESSION_ACCEPT \<longrightarrow> length m = 44) \<and> (typ = CLOSE \<longrightarrow> length m = 2)"

lemma validate_ses_prefix:
  "validate_ses_header h ([a, b, c, d] @ p) = validate_ses_header h [a, b, c, d]"
  by (simp add: validate_ses_header_def)

definition ses_header_ok :: "header \<Rightarrow> u8 \<Rightarrow> bool" where
  "ses_header_ok h typ \<longleftrightarrow>
     h_next_header h = NH_SES
     \<and> validate_ses_header h [typ, SESSION_VERSION, h_profile h, 0] = Inr ()"

lemma validate_protected_payload:
  assumes "h_next_header h = NH_SES"
  shows "validate_header h (protected_payload typ (h_profile h) n ct) = Inr () \<longleftrightarrow> ses_header_ok h typ"
proof -
  have "validate_header h p = validate_ses_header h p" for p
    using assms by (simp add: validate_header_def known_next_header_def)
  then have "validate_header h (protected_payload typ (h_profile h) n ct)
      = validate_ses_header h [typ, SESSION_VERSION, h_profile h, 0]"
    unfolding protected_payload_def by (simp only: validate_ses_prefix)
  with assms show ?thesis by (simp add: ses_header_ok_def)
qed

lemma length_protected_payload [simp]:
  "length (protected_payload typ profile n ct) = 12 + length ct"
  by (simp add: protected_payload_def)

lemma take_4_protected_payload [simp]:
  "take 4 (protected_payload typ profile n ct) = [typ, SESSION_VERSION, profile, 0]"
  by (simp add: protected_payload_def)

lemma copy_protected_payload:
  "length ct = length z \<Longrightarrow>
     copy_at 12 ct (protected_payload typ profile n z) = protected_payload typ profile n ct"
  by (simp add: protected_payload_def copy_at_def)

lemma reserve_cases:
  "Counters_reserve cs = (Inr n, cs') \<longleftrightarrow>
     n = c_next cs \<and> n \<noteq> 0 \<and> n \<noteq> u64_max \<and> cs' = cs\<lparr>c_next := n + 1\<rparr>"
  "Counters_reserve cs = (Inl e, cs') \<longleftrightarrow>
     (c_next cs = 0 \<or> c_next cs = u64_max) \<and> e = CounterExhausted \<and> cs' = cs"
  by (auto simp: Counters_reserve_def)

text \<open>The associated data of a protected packet, as both ends compute it.\<close>

definition packet_aad :: "header \<Rightarrow> u8 \<Rightarrow> u64 \<Rightarrow> bytes \<Rightarrow> bytes" where
  "packet_aad h typ n ct =
     take 52 (header_image (hop0 h) (protected_payload typ (h_profile h) n ct)) @ u64_to_be_bytes n"

lemma packet_aad_length:
  "wf_header h \<Longrightarrow> length ct = length ct' \<Longrightarrow> packet_aad h typ n ct = packet_aad h typ n ct'"
  unfolding packet_aad_def by (simp add: take_52_image)

lemma seal_aad_lengths:
  assumes "aead_ok c" "n \<noteq> 0" "n \<noteq> u64_max" "length m \<le> 65535"
  shows "\<exists>ct. seal c k n a m = Inr ct \<and> length ct = length m + 16 \<and> open_sealed c k n a ct = Inr m"
  using open_seal [OF assms] by blast

text \<open>One unfolding of the send path once its counter is known.\<close>

lemma encrypt_with_counter_unfold:
  assumes "wf_header h"
  shows "encrypt_with_counter c k n h typ m (length m + 28) budget =
    (let z = replicate (length m + 16) 0; pp = protected_payload typ (h_profile h) n in
     and_then (map_err (\<lambda>_. Budget) (pack_with_budget h (pp z) budget)) (\<lambda>_.
     and_then (seal c k n (packet_aad h typ n z) m) (\<lambda>ct.
       map_err (\<lambda>_. Budget) (pack_with_budget h (copy_at 12 ct (pp z)) budget))))"
proof -
  let ?z = "replicate (length m + 16) (0 :: u8)"
  let ?pp = "protected_payload typ (h_profile h) n"
  have pay: "([typ, SESSION_VERSION, h_profile h, 0] @ u64_to_be_bytes n)
      @ replicate (length m + 28 - length ([typ, SESSION_VERSION, h_profile h, 0] @ u64_to_be_bytes n)) 0
      = ?pp ?z"
    by (simp add: protected_payload_def)
  have aad: "protected_aad d n = Inr (packet_aad h typ n ?z)"
    if "pack_with_budget h (?pp ?z) budget = Inr d" for d
  proof -
    have "unpack_with_budget d budget = Inr (h, ?pp ?z)"
      using that assms by (simp add: unpack_iff pack_iff)
    from protected_aad_eq [OF this] show ?thesis by (simp add: packet_aad_def)
  qed
  show ?thesis
    unfolding encrypt_with_counter_def Let_def pay
    by (cases "pack_with_budget h (?pp ?z) budget") (simp_all add: aad)
qed

lemma encrypt_with_counter_ok:
  assumes "aead_ok c" "wf_header h" "n \<noteq> 0" "n \<noteq> u64_max"
    and len: "length m + 76 \<le> budget" "length m + 76 \<le> 1280"
    and v: "h_next_header h = NH_SES" "ses_header_ok h typ"
  shows "\<exists>d. encrypt_with_counter c k n h typ m (length m + 28) budget = Inr d"
proof -
  let ?z = "replicate (length m + 16) (0 :: u8)"
  have "length m \<le> 65535" using len by simp
  then obtain ct where ct: "seal c k n (packet_aad h typ n ?z) m = Inr ct"
      "length ct = length m + 16"
    using seal_aad_lengths [OF assms(1,3,4)] by blast
  have pk: "pack_with_budget h (protected_payload typ (h_profile h) n x) budget
      = Inr (header_image h (protected_payload typ (h_profile h) n x))"
    if "length x = length m + 16" for x
    using that len v by (simp add: pack_iff validate_protected_payload)
  show ?thesis
    unfolding encrypt_with_counter_unfold [OF assms(2)] Let_def
    by (simp add: pk ct copy_protected_payload)
qed

lemma encrypt_with_counter_invert:
  assumes "aead_ok c" "wf_header h" "n \<noteq> 0" "n \<noteq> u64_max"
    and "encrypt_with_counter c k n h typ m (length m + 28) budget = Inr d"
  obtains ct where "length ct = length m + 16" "length m + 76 \<le> budget"
    "unpack_with_budget d budget = Inr (h, protected_payload typ (h_profile h) n ct)"
    "open_sealed c k n (packet_aad h typ n ct) ct = Inr m"
proof -
  let ?z = "replicate (length m + 16) (0 :: u8)"
  let ?pp = "protected_payload typ (h_profile h) n"
  from assms(5) obtain ct d0 where e: "pack_with_budget h (?pp ?z) budget = Inr d0"
      "seal c k n (packet_aad h typ n ?z) m = Inr ct"
      "pack_with_budget h (copy_at 12 ct (?pp ?z)) budget = Inr d"
    unfolding encrypt_with_counter_unfold [OF assms(2)] Let_def by (auto simp: and_then_Inr)
  have len: "length m + 76 \<le> budget" "length m \<le> 65535"
    using e(1) by (simp_all add: pack_iff)
  have ct: "length ct = length m + 16" "open_sealed c k n (packet_aad h typ n ?z) ct = Inr m"
    using seal_aad_lengths [OF assms(1,3,4) len(2), of k "packet_aad h typ n ?z"] e(2) by auto
  then have cp: "copy_at 12 ct (?pp ?z) = ?pp ct" by (simp add: copy_protected_payload)
  have "unpack_with_budget d budget = Inr (h, ?pp ct)"
    using e(3) assms(2) unfolding cp by (simp add: unpack_iff pack_iff)
  moreover have "packet_aad h typ n ct = packet_aad h typ n ?z"
    using ct(1) by (simp add: packet_aad_length [OF assms(2)])
  ultimately show ?thesis using that ct len(1) by simp
qed

abbreviation next_counter :: "directional_session \<Rightarrow> u64" where
  "next_counter s \<equiv> c_next (ds_send_counters s)"

abbreviation counter_used :: "directional_session \<Rightarrow> directional_session" where
  "counter_used s \<equiv> s\<lparr>ds_send_counters := \<lparr>c_next = c_next (ds_send_counters s) + 1\<rparr>\<rparr>"

lemma reserve_eq:
  "Counters_reserve (ds_send_counters s) =
     (if next_counter s = 0 \<or> next_counter s = u64_max
      then (Inl CounterExhausted, ds_send_counters s)
      else (Inr (next_counter s), \<lparr>c_next = next_counter s + 1\<rparr>))"
  by (cases "ds_send_counters s") (simp add: Counters_reserve_def)

lemma encrypt_unfold:
  "DirectionalSession_encrypt c s h typ m budget =
     (if \<not> protected_type typ then (Inl Type, s)
      else if \<not> plaintext_fits typ m then (Inl AuthFailed, s)
      else if \<not> (length m + 76 < 2 ^ 64 \<and> length m + 76 \<le> budget) then (Inl Budget, s)
      else if next_counter s = 0 \<or> next_counter s = u64_max then (Inl CounterExhausted, s)
      else (encrypt_with_counter c (ds_send_key s) (next_counter s) h typ m (length m + 28) budget,
            counter_used s))"
proof -
  have o: "(case Option.bind (usize_checked_add 12 (length m)) (\<lambda>len. usize_checked_add len 16) of
        None \<Rightarrow> (Inl Budget, s)
      | Some payload_len \<Rightarrow>
        (case usize_checked_add payload_len 48 of None \<Rightarrow> (Inl Budget, s) | Some n \<Rightarrow> f payload_len n))
      = (if length m + 76 < 2 ^ 64 then f (length m + 28) (length m + 76) else (Inl Budget, s))"
    for f :: "nat \<Rightarrow> nat \<Rightarrow> (SessionError + bytes) \<times> directional_session"
    by (auto simp: usize_checked_add_def add.commute)
  show ?thesis
    unfolding DirectionalSession_encrypt_def o protected_type_def plaintext_fits_def reserve_eq
    by (auto simp: session_consts)
qed

lemma encrypt_Inr:
  "DirectionalSession_encrypt c s h typ m budget = (Inr d, s') \<longleftrightarrow>
     protected_type typ \<and> plaintext_fits typ m \<and> length m + 76 \<le> budget \<and> length m + 76 < 2 ^ 64 \<and>
     next_counter s \<noteq> 0 \<and> next_counter s \<noteq> u64_max \<and>
     encrypt_with_counter c (ds_send_key s) (next_counter s) h typ m (length m + 28) budget = Inr d \<and>
     s' = counter_used s"
  unfolding encrypt_unfold by auto

text \<open>The Profile-3 send path in the same form.\<close>

definition profile3_payload :: "u64 \<Rightarrow> u64 \<Rightarrow> bytes \<Rightarrow> bytes" where
  "profile3_payload n did ct =
     [SESSION_DATA, SESSION_VERSION, 3, 0] @ u64_to_be_bytes n @ u64_to_be_bytes did @ ct"

lemma length_profile3_payload [simp]: "length (profile3_payload n did ct) = 20 + length ct"
  by (simp add: profile3_payload_def)

lemma to_be_0 [simp]: "to_be n 0 = replicate n 0"
  by (simp add: to_be_def map_replicate_const)

lemma profile3_blank_payload:
  "copy_at 12 (u64_to_be_bytes did)
     ([SESSION_DATA, SESSION_VERSION, 3, 0] @ replicate (m + 36 - length [SESSION_DATA, SESSION_VERSION, 3, 0]) 0)
   = profile3_payload 0 did (replicate (m + 16) 0)"
proof -
  have "replicate (m + 36 - 4) (0 :: u8) = replicate 8 0 @ replicate 8 0 @ replicate (m + 16) 0"
    by (simp flip: replicate_add)
  then show ?thesis by (simp add: copy_at_def profile3_payload_def)
qed

lemma profile3_counter_payload:
  "copy_at 4 (u64_to_be_bytes n) (profile3_payload 0 did ct) = profile3_payload n did ct"
  by (simp add: copy_at_def profile3_payload_def)

definition encrypt_profile3_with_counter ::
    "crypto \<Rightarrow> bytes \<Rightarrow> u64 \<Rightarrow> header \<Rightarrow> u64 \<Rightarrow> bytes \<Rightarrow> nat \<Rightarrow> SessionError + bytes" where
  "encrypt_profile3_with_counter c k n h did m budget =
     and_then (map_err (\<lambda>_. Budget)
       (pack_with_budget h (profile3_payload n did (replicate (length m + 16) 0)) budget)) (\<lambda>packet.
     and_then (profile3_data_aad packet n did) (\<lambda>aad.
     and_then (seal c k n aad m) (\<lambda>ciphertext. Inr (copy_at 68 ciphertext packet))))"

lemma encrypt_profile3_unfold:
  "DirectionalSession_encrypt_profile3_data c s h did m budget =
     (if did = u64_max then (Inl CounterRange, s)
      else if \<not> (length m + 84 < 2 ^ 64 \<and> length m + 84 \<le> budget) then (Inl Budget, s)
      else case and_then (validate_profile3_data_header h) (\<lambda>_. map_err (\<lambda>_. Budget)
             (pack_with_budget h (profile3_payload 0 did (replicate (length m + 16) 0)) budget)) of
        Inl e \<Rightarrow> (Inl e, s)
      | Inr _ \<Rightarrow>
          if next_counter s = 0 \<or> next_counter s = u64_max then (Inl CounterExhausted, s)
          else (encrypt_profile3_with_counter c (ds_send_key s) (next_counter s) h did m budget,
                counter_used s))"
proof -
  have o: "(case usize_checked_add (length m) (PROFILE3_DATA_PACKET_OVERHEAD - HEADER_LEN) of
        None \<Rightarrow> (Inl Budget, s)
      | Some payload_len \<Rightarrow>
        (case usize_checked_add payload_len HEADER_LEN of None \<Rightarrow> (Inl Budget, s) | Some n \<Rightarrow> f payload_len n))
      = (if length m + 84 < 2 ^ 64 then f (length m + 36) (length m + 84) else (Inl Budget, s))"
    for f :: "nat \<Rightarrow> nat \<Rightarrow> (SessionError + bytes) \<times> directional_session"
    by (auto simp: usize_checked_add_def add.commute wire_consts session_consts)
  have hl: "HEADER_LEN + 20 = 68" by (simp add: wire_consts)
  show ?thesis
    unfolding DirectionalSession_encrypt_profile3_data_def o Let_def profile3_blank_payload
      profile3_counter_payload reserve_eq Counters_can_reserve_def hl
      encrypt_profile3_with_counter_def
    by (auto split: sum.split)
qed

lemma encrypt_profile3_Inr:
  "DirectionalSession_encrypt_profile3_data c s h did m budget = (Inr d, s') \<longleftrightarrow>
     did \<noteq> u64_max \<and> length m + 84 < 2 ^ 64 \<and> length m + 84 \<le> budget \<and>
     validate_profile3_data_header h = Inr () \<and>
     is_ok (pack_with_budget h (profile3_payload 0 did (replicate (length m + 16) 0)) budget) \<and>
     next_counter s \<noteq> 0 \<and> next_counter s \<noteq> u64_max \<and>
     encrypt_profile3_with_counter c (ds_send_key s) (next_counter s) h did m budget = Inr d \<and>
     s' = counter_used s"
  unfolding encrypt_profile3_unfold
  by (auto simp: is_ok_iff result_simps split: sum.split)

lemma decode_protected:
  assumes "protected_type typ" "plaintext_fits typ m" "length ct = length m + 16"
    and "n \<noteq> 0" "n \<noteq> u64_max" "12 + length ct \<le> budget"
  shows "SessionMessage_decode (protected_payload typ profile n ct) profile budget =
    Inr \<lparr>sm_typ = typ, sm_profile = profile, sm_body = u64_to_be_bytes n @ ct\<rparr>"
  using assms
  by (auto simp: SessionMessage_decode_def protected_payload_def Let_def protected_type_def
      plaintext_fits_def validate_body_def exact_body_len_def session_consts)

lemma preview_protected:
  assumes u: "unpack_with_budget d (ds_receive_budget s) =
      Inr (h, protected_payload typ (h_profile h) n ct)"
    and "protected_type typ" "plaintext_fits typ m" "length ct = length m + 16"
    and "n \<noteq> 0" "n \<noteq> u64_max"
    and "open_sealed c (ds_receive_key s) n (packet_aad h typ n ct) ct = Inr m"
    and "ReplayWindow_check (ds_replay s) n = Inr ()"
  shows "DirectionalSession_preview c s d =
    Inr \<lparr>pp_plaintext = m,
         pp_commit = \<lparr>rc_counter = n, rc_generation = rw_generation (ds_replay s)\<rparr>,
         pp_receive_owner = ds_receive_owner s\<rparr>"
proof -
  have "12 + length ct \<le> ds_receive_budget s" using u by (simp add: unpack_iff)
  from decode_protected [OF assms(2-6) this] have
    "SessionMessage_decode (protected_payload typ (h_profile h) n ct) (h_profile h)
       (ds_receive_budget s)
     = Inr \<lparr>sm_typ = typ, sm_profile = h_profile h, sm_body = u64_to_be_bytes n @ ct\<rparr>" .
  moreover have "protected_aad d n = Inr (packet_aad h typ n ct)"
    using protected_aad_eq [OF u] by (simp add: packet_aad_def)
  ultimately show ?thesis
    using assms by (simp add: DirectionalSession_preview_def ReplayWindow_preview_def
        protected_type_def [symmetric])
qed

lemma commit_preview_hist:
  assumes "replay_hist (ds_replay s) H" "n \<notin> H" "replay_accepts H n"
    and "unat (rw_generation (ds_replay s)) + 1 < 2 ^ 64"
  obtains s' where "DirectionalSession_commit s
      \<lparr>pp_plaintext = m, pp_commit = \<lparr>rc_counter = n, rc_generation = rw_generation (ds_replay s)\<rparr>,
       pp_receive_owner = ds_receive_owner s\<rparr> = (Inr m, s')"
    "s' = s\<lparr>ds_replay := ds_replay s'\<rparr>" "replay_hist (ds_replay s') (insert n H)"
proof -
  let ?t = "\<lparr>rc_counter = n, rc_generation = rw_generation (ds_replay s)\<rparr>"
  obtain w where w: "ReplayWindow_commit (ds_replay s) ?t = (Inr (), w)"
    using assms by (simp add: commit_cases check_refines)
  with commit_hist [OF assms(1) w] show ?thesis
    by (intro that [of "s\<lparr>ds_replay := w\<rparr>"]) (simp_all add: DirectionalSession_commit_def)
qed

text \<open>A packet whose hop limit was rewritten on the way opens to the plaintext that was sent.\<close>

lemma unpack_rehop:
  assumes "unpack_with_budget d b = Inr (h, p)" "k \<noteq> 0" "length d \<le> b'"
  shows "unpack_with_budget (d[5 := k]) b' = Inr (h\<lparr>h_hop_limit := k\<rparr>, p)"
  using unpack_set_hop [OF unpack_budget_mono [OF assms(1,3)] assms(2)] .

lemma packet_aad_hop [simp]: "packet_aad (h\<lparr>h_hop_limit := k\<rparr>) typ n ct = packet_aad h typ n ct"
  by (simp add: packet_aad_def)

lemma encrypt_decrypt:
  assumes "aead_ok c" "wf_header h" "ds_send_key a = ds_receive_key b"
    and e: "DirectionalSession_encrypt c a h typ m budget = (Inr d, a')"
    and "k \<noteq> 0" "length d \<le> ds_receive_budget b"
    and r: "replay_hist (ds_replay b) H" "replay_accepts H (c_next (ds_send_counters a))"
    and g: "unat (rw_generation (ds_replay b)) + 1 < 2 ^ 64"
  shows "\<exists>b'. DirectionalSession_decrypt c b (d[5 := k]) = (Inr m, b')
     \<and> b' = b\<lparr>ds_replay := ds_replay b'\<rparr>
     \<and> replay_hist (ds_replay b') (insert (c_next (ds_send_counters a)) H)"
proof -
  let ?n = "c_next (ds_send_counters a)"
  from e have n: "?n \<noteq> 0" "?n \<noteq> u64_max" and t: "protected_type typ" "plaintext_fits typ m"
    and w: "encrypt_with_counter c (ds_send_key a) ?n h typ m (length m + 28) budget = Inr d"
    by (simp_all add: encrypt_Inr)
  from encrypt_with_counter_invert [OF assms(1,2) n w] obtain ct where
    ct: "length ct = length m + 16" "length m + 76 \<le> budget"
      "unpack_with_budget d budget = Inr (h, protected_payload typ (h_profile h) ?n ct)"
      "open_sealed c (ds_send_key a) ?n (packet_aad h typ ?n ct) ct = Inr m" .
  let ?h = "h\<lparr>h_hop_limit := k\<rparr>"
  have u: "unpack_with_budget (d[5 := k]) (ds_receive_budget b) =
      Inr (?h, protected_payload typ (h_profile ?h) ?n ct)"
    using unpack_rehop [OF ct(3) assms(5,6)] by simp
  have o: "open_sealed c (ds_receive_key b) ?n (packet_aad ?h typ ?n ct) ct = Inr m"
    using ct(4) assms(3) by simp
  have chk: "ReplayWindow_check (ds_replay b) ?n = Inr ()"
    using check_refines [OF r(1)] r(2) by simp
  note pv = preview_protected [OF u t ct(1) n o chk]
  have "?n \<notin> H" using r(2) by (simp add: replay_accepts_def)
  from commit_preview_hist [OF r(1) this r(2) g, of m] obtain b' where
    "DirectionalSession_commit b
      \<lparr>pp_plaintext = m, pp_commit = \<lparr>rc_counter = ?n, rc_generation = rw_generation (ds_replay b)\<rparr>,
       pp_receive_owner = ds_receive_owner b\<rparr> = (Inr m, b')"
    "b' = b\<lparr>ds_replay := ds_replay b'\<rparr>" "replay_hist (ds_replay b') (insert ?n H)" .
  with pv show ?thesis by (auto simp: DirectionalSession_decrypt_def)
qed

section \<open>The receive filter\<close>

text \<open>The counter a protected packet carries.\<close>

definition packet_counter :: "bytes \<Rightarrow> u64" where
  "packet_counter d = u64_from_be_bytes (slice_of 52 60 d)"

lemma slice_of_image:
  "wf_header h \<Longrightarrow> 48 \<le> lo \<Longrightarrow> slice_of lo hi (header_image h p) = slice_of (lo - 48) (hi - 48) p"
  using length_header_image [of h "[]"]
  by (simp add: header_image_def wf_header_def)

lemma decode_Inr:
  "SessionMessage_decode p profile b = Inr m \<Longrightarrow>
     4 \<le> length p \<and> sm_body m = drop 4 p \<and> sm_typ m = p ! 0 \<and> sm_profile m = profile"
  by (auto simp: SessionMessage_decode_def Let_def result_simps split: if_splits)

lemma replay_preview_Inr:
  "ReplayWindow_preview w n = Inr t \<longleftrightarrow>
     ReplayWindow_check w n = Inr () \<and> t = \<lparr>rc_counter = n, rc_generation = rw_generation w\<rparr>"
  by (auto simp: ReplayWindow_preview_def result_simps)

lemma preview_Inr:
  assumes "DirectionalSession_preview c s d = Inr p"
  shows "ReplayWindow_preview (ds_replay s) (packet_counter d) = Inr (pp_commit p)"
    and "\<exists>aad. protected_aad d (packet_counter d) = Inr aad
      \<and> open_sealed c (ds_receive_key s) (packet_counter d) aad (drop 60 d) = Inr (pp_plaintext p)"
    and "pp_receive_owner p = ds_receive_owner s"
proof -
  from assms obtain h pl msg n aad pt cm where
    u: "unpack_with_budget d (ds_receive_budget s) = Inr (h, pl)"
    and m: "SessionMessage_decode pl (h_profile h) (ds_receive_budget s) = Inr msg"
    and n: "n = u64_from_be_bytes (take 8 (sm_body msg))"
    and x: "ReplayWindow_preview (ds_replay s) n = Inr cm" "protected_aad d n = Inr aad"
      "open_sealed c (ds_receive_key s) n aad (drop 8 (sm_body msg)) = Inr pt"
      "p = \<lparr>pp_plaintext = pt, pp_commit = cm, pp_receive_owner = ds_receive_owner s\<rparr>"
    unfolding DirectionalSession_preview_def
    by (auto simp: and_then_Inr Let_def split: prod.splits if_splits)
  have d: "wf_header h" "d = header_image h pl" using u by (simp_all add: unpack_iff)
  have b: "sm_body msg = drop 4 pl" using decode_Inr [OF m] by simp
  have "n = packet_counter d"
    unfolding packet_counter_def d(2) n b using slice_of_image [OF d(1), of 52 60 pl]
    by (simp add: slice_of_def)
  moreover have "drop 60 d = drop 8 (sm_body msg)"
  proof -
    have "drop 60 d = drop 12 (drop 48 d)" by simp
    then show ?thesis unfolding d(2) b header_image_slices(4) [OF d(1)] by simp
  qed
  ultimately show "ReplayWindow_preview (ds_replay s) (packet_counter d) = Inr (pp_commit p)"
    "\<exists>aad. protected_aad d (packet_counter d) = Inr aad
      \<and> open_sealed c (ds_receive_key s) (packet_counter d) aad (drop 60 d) = Inr (pp_plaintext p)"
    "pp_receive_owner p = ds_receive_owner s"
    using x by auto
qed

definition decrypt_admit ::
    "crypto \<Rightarrow> directional_session \<Rightarrow> bytes \<Rightarrow> directional_session option" where
  "decrypt_admit c s d =
     (case DirectionalSession_decrypt c s d of (Inr _, s') \<Rightarrow> Some s' | (Inl _, _) \<Rightarrow> None)"

lemma decrypt_Inr:
  assumes "DirectionalSession_decrypt c s d = (Inr m, s')"
  shows "\<exists>p w. DirectionalSession_preview c s d = Inr p \<and> pp_plaintext p = m
      \<and> ReplayWindow_commit (ds_replay s) (pp_commit p) = (Inr (), w) \<and> s' = s\<lparr>ds_replay := w\<rparr>
      \<and> rc_counter (pp_commit p) = packet_counter d"
proof -
  from assms obtain p where p: "DirectionalSession_preview c s d = Inr p"
    by (auto simp: DirectionalSession_decrypt_def split: sum.splits)
  have "rc_counter (pp_commit p) = packet_counter d"
    using preview_Inr(1) [OF p] by (simp add: replay_preview_Inr)
  with p assms preview_Inr(3) [OF p] show ?thesis
    by (auto simp: DirectionalSession_decrypt_def DirectionalSession_commit_def
        split: sum.splits prod.splits)
qed

interpretation ds: anti_replay "decrypt_admit c" packet_counter "\<lambda>s. replay_hist (ds_replay s)"
proof
  fix s d s' H
  assume h: "replay_hist (ds_replay s) H" and "decrypt_admit c s d = Some s'"
  then obtain m where "DirectionalSession_decrypt c s d = (Inr m, s')"
    by (auto simp: decrypt_admit_def split: sum.splits prod.splits)
  from decrypt_Inr [OF this] commit_hist [OF h]
  show "packet_counter d \<notin> H" "replay_hist (ds_replay s') (insert (packet_counter d) H)"
    by fastforce+
qed

section \<open>The send side never repeats a nonce\<close>

datatype send_op =
    SendProtected header u8 bytes nat
  | SendProfile3 header u64 bytes nat

fun send_header :: "send_op \<Rightarrow> header" where
  "send_header (SendProtected h _ _ _) = h"
| "send_header (SendProfile3 h _ _ _) = h"

fun send_step :: "crypto \<Rightarrow> directional_session \<Rightarrow> send_op \<Rightarrow>
    (SessionError + bytes) \<times> directional_session" where
  "send_step c s (SendProtected h typ m budget) = DirectionalSession_encrypt c s h typ m budget"
| "send_step c s (SendProfile3 h did m budget) =
     DirectionalSession_encrypt_profile3_data c s h did m budget"

fun send_all :: "crypto \<Rightarrow> directional_session \<Rightarrow> send_op list \<Rightarrow> bytes list" where
  "send_all c s [] = []"
| "send_all c s (op # ops) =
     (case send_step c s op of
        (Inr d, s') \<Rightarrow> d # send_all c s' ops
      | (Inl _, s') \<Rightarrow> send_all c s' ops)"

lemma encrypt_state:
  "snd (DirectionalSession_encrypt c s h typ m b) = s
   \<or> next_counter s \<noteq> 0 \<and> next_counter s \<noteq> u64_max
     \<and> snd (DirectionalSession_encrypt c s h typ m b) = counter_used s"
  unfolding encrypt_unfold by simp

lemma encrypt_profile3_state:
  "snd (DirectionalSession_encrypt_profile3_data c s h did m b) = s
   \<or> next_counter s \<noteq> 0 \<and> next_counter s \<noteq> u64_max
     \<and> snd (DirectionalSession_encrypt_profile3_data c s h did m b) = counter_used s"
  unfolding encrypt_profile3_unfold by (simp split: sum.split)

lemma packet_counter_image:
  assumes "wf_header h" "length a = 4"
  shows "packet_counter (header_image h (a @ u64_to_be_bytes n @ rest)) = n"
proof -
  have "slice_of 52 60 (header_image h (a @ u64_to_be_bytes n @ rest)) = u64_to_be_bytes n"
    using assms by (simp add: slice_of_image)
  then show ?thesis by (simp add: packet_counter_def)
qed

lemma header_image_prefix:
  assumes "wf_header h"
  shows "header_image h p = take 48 (header_image h p) @ p"
    and "length p = length q \<Longrightarrow> take 48 (header_image h p) = take 48 (header_image h q)"
proof -
  show "header_image h p = take 48 (header_image h p) @ p"
    using header_image_slices(4) [OF assms, of p] append_take_drop_id [of 48 "header_image h p"]
    by simp
  show "take 48 (header_image h p) = take 48 (header_image h q)" if "length p = length q"
    using assms that by (simp add: header_image_def wf_header_def)
qed

lemma copy_at_counter:
  assumes "60 \<le> lo" "lo \<le> length d"
  shows "packet_counter (copy_at lo src d) = packet_counter d"
proof -
  have "slice_of 52 60 (copy_at lo src d) = slice_of 52 60 (take lo d)"
    using assms by (simp add: copy_at_def)
  also have "\<dots> = slice_of 52 60 d"
    using assms(1) by (simp add: slice_of_def drop_take min_def)
  finally show ?thesis by (simp add: packet_counter_def)
qed

lemma encrypt_packet_counter:
  assumes "wf_header h" "DirectionalSession_encrypt c s h typ m b = (Inr d, s')"
  shows "packet_counter d = next_counter s"
proof -
  from assms(2) obtain p ct where
    "pack_with_budget h (copy_at 12 ct (protected_payload typ (h_profile h) (next_counter s)
       (replicate (length m + 16) 0))) b = Inr d"
    unfolding encrypt_Inr encrypt_with_counter_unfold [OF assms(1)] Let_def
    by (auto simp: and_then_Inr)
  moreover have "copy_at 12 ct (protected_payload typ (h_profile h) (next_counter s) z)
     = [typ, SESSION_VERSION, h_profile h, 0] @ u64_to_be_bytes (next_counter s)
       @ ct @ drop (length ct) z" for z
    by (simp add: protected_payload_def copy_at_def drop_Cons')
  ultimately have "d = header_image h ([typ, SESSION_VERSION, h_profile h, 0]
      @ u64_to_be_bytes (next_counter s) @ ct @ drop (length ct) (replicate (length m + 16) 0))"
    by (simp only: pack_iff)
  then show ?thesis
    using packet_counter_image [OF assms(1), of "[typ, SESSION_VERSION, h_profile h, 0]"] by simp
qed

lemma encrypt_profile3_packet_counter:
  assumes "wf_header h" "DirectionalSession_encrypt_profile3_data c s h did m b = (Inr d, s')"
  shows "packet_counter d = next_counter s"
proof -
  let ?p = "profile3_payload (next_counter s) did (replicate (length m + 16) 0)"
  from assms(2) obtain ct where "d = copy_at 68 ct (header_image h ?p)"
    unfolding encrypt_profile3_Inr encrypt_profile3_with_counter_def
    by (auto simp: and_then_Inr pack_iff)
  moreover have "packet_counter (header_image h ?p) = next_counter s"
    using packet_counter_image [OF assms(1), of "[SESSION_DATA, SESSION_VERSION, 3, 0]"]
    by (simp add: profile3_payload_def)
  ultimately show ?thesis
    using assms(1) by (simp add: copy_at_counter length_header_image)
qed

lemma send_step_counter:
  assumes "wf_header (send_header op)" and "send_step c s op = (r, s')"
  shows "(s' = s \<or> next_counter s \<noteq> u64_max \<and> s' = counter_used s)
    \<and> (\<forall>d. r = Inr d \<longrightarrow> packet_counter d = next_counter s \<and> next_counter s \<noteq> u64_max
           \<and> s' = counter_used s)"
proof (cases op)
  case (SendProtected h t m b)
  with assms show ?thesis
    using encrypt_state [of c s h t m b] encrypt_packet_counter [of h c s t m b _ s']
    by (auto simp: encrypt_Inr)
next
  case (SendProfile3 h did m b)
  with assms show ?thesis
    using encrypt_profile3_state [of c s h did m b]
      encrypt_profile3_packet_counter [of h c s did m b _ s']
    by (auto simp: encrypt_profile3_Inr)
qed

lemma send_all_counters:
  assumes "\<forall>op \<in> set ops. wf_header (send_header op)"
  shows "sorted_wrt (<) (map packet_counter (send_all c s ops))
    \<and> (\<forall>d \<in> set (send_all c s ops). next_counter s \<le> packet_counter d)"
  using assms
proof (induction ops arbitrary: s)
  case Nil
  then show ?case by simp
next
  case (Cons op ops)
  obtain r s' where st: "send_step c s op = (r, s')" by force
  have wf: "wf_header (send_header op)" using Cons.prems by simp
  note sc = send_step_counter [OF wf st]
  have up: "next_counter s < next_counter (counter_used s)" if "next_counter s \<noteq> u64_max"
    using that by (simp add: word_less_nat_alt unat_Suc_u64)
  note ih = Cons.IH [of s'] Cons.prems
  show ?case
  proof (cases r)
    case (Inl e)
    moreover have "next_counter s \<le> next_counter s'" using sc up by fastforce
    ultimately show ?thesis using ih st by fastforce
  next
    case (Inr d)
    with sc have d: "packet_counter d = next_counter s" "next_counter s < next_counter s'"
      using up by simp_all
    with ih have "\<forall>x \<in> set (send_all c s' ops). packet_counter d < packet_counter x"
      by fastforce
    moreover from this d(1) have "\<forall>x \<in> set (send_all c s' ops). next_counter s \<le> packet_counter x"
      by (simp add: less_imp_le)
    ultimately show ?thesis using ih st Inr d(1) by simp
  qed
qed

section \<open>Profile-3 data\<close>

definition profile3_aad :: "header \<Rightarrow> u64 \<Rightarrow> u64 \<Rightarrow> bytes \<Rightarrow> bytes" where
  "profile3_aad h n did ct =
     take 52 (header_image (hop0 h) (profile3_payload n did ct)) @ u64_to_be_bytes n
       @ u64_to_be_bytes did"

lemma profile3_aad_eq:
  assumes "unpack_with_budget d b = Inr (h, profile3_payload n did ct)"
  shows "profile3_data_aad d n did = Inr (profile3_aad h n did ct)"
  using protected_aad_eq [OF assms] by (simp add: profile3_data_aad_def profile3_aad_def)

lemma validate_profile3_ses: "validate_profile3_data_header h = Inr () \<Longrightarrow> h_next_header h = NH_SES"
  by (auto simp: validate_profile3_data_header_def split: if_splits)

lemma profile3_aad_length:
  assumes "wf_header h" "length ct = length ct'"
  shows "profile3_aad h n did ct = profile3_aad h n did ct'"
proof -
  have "take 4 (profile3_payload n did x) = [SESSION_DATA, SESSION_VERSION, 3, 0]" for x
    by (simp add: profile3_payload_def)
  then show ?thesis
    using assms take_52_image [of "hop0 h" "profile3_payload n did ct" "profile3_payload n did ct'"]
    by (simp add: profile3_aad_def)
qed

lemma validate_profile3_payload:
  assumes "h_next_header h = NH_SES"
  shows "validate_header h (profile3_payload n did ct)
    = validate_ses_header h [SESSION_DATA, SESSION_VERSION, 3, 0]"
proof -
  have "validate_header h p = validate_ses_header h p" for p
    using assms by (simp add: validate_header_def known_next_header_def)
  then show ?thesis unfolding profile3_payload_def by (simp only: validate_ses_prefix)
qed

lemma encrypt_profile3_invert:
  assumes "aead_ok c" "wf_header h" "n \<noteq> 0" "n \<noteq> u64_max" "h_next_header h = NH_SES"
    and "encrypt_profile3_with_counter c k n h did m budget = Inr d"
  obtains ct where "length ct = length m + 16"
    "unpack_with_budget d budget = Inr (h, profile3_payload n did ct)"
    "open_sealed c k n (profile3_aad h n did ct) ct = Inr m"
proof -
  let ?z = "replicate (length m + 16) (0 :: u8)"
  let ?pp = "profile3_payload n did"
  from assms(6) obtain ct aad where
      e: "pack_with_budget h (?pp ?z) budget = Inr (header_image h (?pp ?z))"
      "profile3_data_aad (header_image h (?pp ?z)) n did = Inr aad" "seal c k n aad m = Inr ct"
      "d = copy_at 68 ct (header_image h (?pp ?z))"
    unfolding encrypt_profile3_with_counter_def by (auto simp: and_then_Inr pack_iff)
  have u: "unpack_with_budget (header_image h (?pp ?z)) budget = Inr (h, ?pp ?z)"
    using e(1) assms(2) by (simp add: unpack_iff pack_iff)
  have aad: "aad = profile3_aad h n did ?z" using profile3_aad_eq [OF u] e(2) by simp
  have "length m \<le> 65535" using e(1) by (simp add: pack_iff)
  from seal_aad_lengths [OF assms(1,3,4) this, of k aad] e(3) have
    ct: "length ct = length m + 16" "open_sealed c k n aad ct = Inr m" by auto
  have "d = header_image h (?pp ct)"
  proof -
    have "copy_at 68 ct (x @ ?pp ?z) = x @ ?pp ct" if "length x = 48" for x
      using that ct(1) by (simp add: copy_at_def profile3_payload_def)
    moreover have "length (take 48 (header_image h (?pp ?z))) = 48"
      using length_header_image [OF assms(2)] by simp
    ultimately show ?thesis
      using e(4) header_image_prefix(1) [OF assms(2)] ct(1)
        header_image_prefix(2) [OF assms(2), of "?pp ct" "?pp ?z"]
      by (metis length_profile3_payload length_replicate)
  qed
  then have "unpack_with_budget d budget = Inr (h, ?pp ct)"
    using u assms(5) ct(1) by (simp add: unpack_iff validate_profile3_payload)
  moreover have "profile3_aad h n did ct = aad"
    unfolding aad using ct(1) assms(2) by (simp add: profile3_aad_length)
  ultimately show ?thesis using that ct by simp
qed

lemma validate_profile3_hop:
  "validate_profile3_data_header h = Inr () \<Longrightarrow> k \<noteq> 0 \<Longrightarrow>
     validate_profile3_data_header (h\<lparr>h_hop_limit := k\<rparr>) = Inr ()"
  by (auto simp: validate_profile3_data_header_def split: if_splits)

lemma preview_profile3:
  assumes u: "unpack_with_budget d (ds_receive_budget s) = Inr (h, profile3_payload n did ct)"
    and v: "validate_profile3_data_header h = Inr ()"
    and "16 \<le> length ct" "n \<noteq> 0" "n \<noteq> u64_max" "did \<noteq> 0" "did \<noteq> u64_max"
    and "open_sealed c (ds_receive_key s) n (profile3_aad h n did ct) ct = Inr m"
    and "ReplayWindow_check (ds_replay s) n = Inr ()"
  shows "DirectionalSession_preview_profile3_data c s d =
    Inr \<lparr>p3_delivery_id = did, p3_plaintext = m,
         p3_commit = \<lparr>rc_counter = n, rc_generation = rw_generation (ds_replay s)\<rparr>,
         p3_receive_owner = ds_receive_owner s\<rparr>"
proof -
  have p: "h_profile h = 3" using v by (auto simp: validate_profile3_data_header_def split: if_splits)
  have "20 + length ct \<le> ds_receive_budget s" using u by (simp add: unpack_iff)
  with assms(3-5) have "SessionMessage_decode (profile3_payload n did ct) 3 (ds_receive_budget s)
     = Inr \<lparr>sm_typ = SESSION_DATA, sm_profile = 3,
           sm_body = u64_to_be_bytes n @ u64_to_be_bytes did @ ct\<rparr>"
    by (auto simp: SessionMessage_decode_def profile3_payload_def Let_def validate_body_def
        exact_body_len_def session_consts)
  with assms p profile3_aad_eq [OF u] show ?thesis
    by (simp add: DirectionalSession_preview_profile3_data_def ReplayWindow_preview_def)
qed

lemma profile3_aad_hop [simp]: "profile3_aad (h\<lparr>h_hop_limit := k\<rparr>) n did ct = profile3_aad h n did ct"
  by (simp add: profile3_aad_def)

lemma encrypt_decrypt_profile3:
  assumes "aead_ok c" "wf_header h" "ds_send_key a = ds_receive_key b"
    and e: "DirectionalSession_encrypt_profile3_data c a h did m budget = (Inr d, a')"
    and "did \<noteq> 0" "k \<noteq> 0" "length d \<le> ds_receive_budget b"
    and r: "replay_hist (ds_replay b) H" "replay_accepts H (next_counter a)"
    and g: "unat (rw_generation (ds_replay b)) + 1 < 2 ^ 64"
  shows "\<exists>b'. DirectionalSession_decrypt_profile3_data c b (d[5 := k]) = (Inr (did, m), b')
     \<and> replay_hist (ds_replay b') (insert (next_counter a) H)"
proof -
  let ?n = "next_counter a"
  from e have n: "?n \<noteq> 0" "?n \<noteq> u64_max" "did \<noteq> u64_max"
    and v: "validate_profile3_data_header h = Inr ()"
    and w: "encrypt_profile3_with_counter c (ds_send_key a) ?n h did m budget = Inr d"
    by (simp_all add: encrypt_profile3_Inr)
  from encrypt_profile3_invert [OF assms(1,2) n(1,2) validate_profile3_ses [OF v] w] obtain ct where
    ct: "length ct = length m + 16"
      "unpack_with_budget d budget = Inr (h, profile3_payload ?n did ct)"
      "open_sealed c (ds_send_key a) ?n (profile3_aad h ?n did ct) ct = Inr m" .
  let ?t = "\<lparr>rc_counter = ?n, rc_generation = rw_generation (ds_replay b)\<rparr>"
  have "DirectionalSession_preview_profile3_data c b (d[5 := k]) =
    Inr \<lparr>p3_delivery_id = did, p3_plaintext = m, p3_commit = ?t,
         p3_receive_owner = ds_receive_owner b\<rparr>"
    using unpack_rehop [OF ct(2) assms(6,7)] validate_profile3_hop [OF v assms(6)] ct n assms(3,5)
      check_refines [OF r(1)] r(2) by (intro preview_profile3 [where h = "h\<lparr>h_hop_limit := k\<rparr>"]) simp_all
  moreover obtain w where w: "ReplayWindow_commit (ds_replay b) ?t = (Inr (), w)"
    using assms by (simp add: commit_cases check_refines)
  moreover have "replay_hist w (insert ?n H)" using commit_hist [OF r(1) w] by simp
  ultimately show ?thesis
    by (simp add: DirectionalSession_decrypt_profile3_data_def
        DirectionalSession_commit_profile3_data_def)
qed

section \<open>Refused packets leave no trace, proofs are one-shot\<close>

lemma decrypt_Inl: "DirectionalSession_decrypt c s d = (Inl e, s') \<Longrightarrow> s' = s"
  by (auto simp: DirectionalSession_decrypt_def DirectionalSession_commit_def
      dest!: commit_error_frame split: sum.splits if_splits prod.splits)

lemma decrypt_profile3_Inl: "DirectionalSession_decrypt_profile3_data c s d = (Inl e, s') \<Longrightarrow> s' = s"
  by (auto simp: DirectionalSession_decrypt_profile3_data_def
      DirectionalSession_commit_profile3_data_def
      dest!: commit_error_frame split: sum.splits if_splits prod.splits)

lemma encrypt_profile3_length:
  assumes "aead_ok c" "wf_header h"
    and "DirectionalSession_encrypt_profile3_data c s h did m budget = (Inr d, s')"
  shows "length d = length m + 84"
proof -
  from assms(3) have v: "validate_profile3_data_header h = Inr ()"
    and e: "next_counter s \<noteq> 0" "next_counter s \<noteq> u64_max"
    "encrypt_profile3_with_counter c (ds_send_key s) (next_counter s) h did m budget = Inr d"
    by (simp_all add: encrypt_profile3_Inr)
  obtain ct where "length ct = length m + 16"
    "unpack_with_budget d budget = Inr (h, profile3_payload (next_counter s) did ct)"
    using encrypt_profile3_invert [OF assms(1,2) e(1,2) validate_profile3_ses [OF v] e(3)] by blast
  with unpack_length show ?thesis by fastforce
qed

lemma protected_proof_spent:
  "DirectionalSession_commit_protected_replay s p = (r, s', p') \<Longrightarrow>
     pr_committed p' \<or> pr_preview p' = None"
  by (auto simp: DirectionalSession_commit_protected_replay_def Let_def
      split: if_splits option.splits sum.splits prod.splits)

lemma profile3_proof_spent:
  "DirectionalSession_commit_profile3_replay s p = (r, s', p') \<Longrightarrow>
     p3r_committed p' \<or> p3r_preview p' = None"
  by (auto simp: DirectionalSession_commit_profile3_replay_def Let_def
      split: if_splits option.splits sum.splits prod.splits)

section \<open>A concrete pair of sessions\<close>

definition sample_session :: "u64 \<Rightarrow> directional_session" where
  "sample_session owner =
     \<lparr>ds_send_key = [1], ds_receive_key = [1], ds_send_counters = Counters_new,
      ds_replay = ReplayWindow_new, ds_transcript_hash = [], ds_receive_budget = 1280,
      ds_receive_owner = owner\<rparr>"

definition sample_ses_header :: "u8 \<Rightarrow> header" where
  "sample_ses_header profile =
     \<lparr>h_profile = profile, h_tc = 0, h_next_header = NH_SES, h_hop_limit = 64, h_flags = 1,
      h_path_slot = 0, h_scid = 7, h_src = replicate 16 1, h_dst = replicate 16 2\<rparr>"

lemma wf_sample_ses_header [simp]: "wf_header (sample_ses_header profile)"
  by (simp add: wf_header_def sample_ses_header_def)

lemma encrypt_ok:
  assumes "aead_ok c" "wf_header h" "protected_type typ" "plaintext_fits typ m"
    and "ses_header_ok h typ" "length m + 76 \<le> budget" "length m + 76 \<le> 1280"
    and "next_counter s \<noteq> 0" "next_counter s \<noteq> u64_max"
  shows "\<exists>d. DirectionalSession_encrypt c s h typ m budget = (Inr d, counter_used s)"
proof -
  have "h_next_header h = NH_SES" using assms(5) by (simp add: ses_header_ok_def)
  from encrypt_with_counter_ok [OF assms(1,2,8,9,6,7) this assms(5)] obtain d where
    "encrypt_with_counter c (ds_send_key s) (next_counter s) h typ m (length m + 28) budget = Inr d"
    by blast
  moreover have "length m + 76 < 2 ^ 64" using assms(7) by simp
  ultimately show ?thesis using assms by (simp add: encrypt_unfold)
qed

lemma encrypt_unpacks:
  assumes "aead_ok c" "wf_header h" "DirectionalSession_encrypt c s h typ m budget = (Inr d, s')"
  obtains p where "unpack_with_budget d budget = Inr (h, p)" "length p = length m + 28"
proof -
  from assms(3) have "next_counter s \<noteq> 0" "next_counter s \<noteq> u64_max"
    "encrypt_with_counter c (ds_send_key s) (next_counter s) h typ m (length m + 28) budget = Inr d"
    by (simp_all add: encrypt_Inr)
  from encrypt_with_counter_invert [OF assms(1,2) this] obtain ct where
    "length ct = length m + 16"
    "unpack_with_budget d budget = Inr (h, protected_payload typ (h_profile h) (next_counter s) ct)" .
  with that show ?thesis by simp
qed

lemma encrypt_length:
  assumes "aead_ok c" "wf_header h" "DirectionalSession_encrypt c s h typ m budget = (Inr d, s')"
  shows "length d = length m + 76"
  by (rule encrypt_unpacks [OF assms]) (simp add: unpack_length)

lemma encrypt_profile3_ok:
  assumes "aead_ok c" "wf_header h" "validate_profile3_data_header h = Inr ()"
    and "did \<noteq> u64_max" "length m + 84 \<le> budget" "length m + 84 \<le> 1280"
    and "next_counter s \<noteq> 0" "next_counter s \<noteq> u64_max"
  shows "\<exists>d. DirectionalSession_encrypt_profile3_data c s h did m budget = (Inr d, counter_used s)"
proof -
  let ?z = "replicate (length m + 16) (0 :: u8)"
  note ses = validate_profile3_ses [OF assms(3)]
  have "validate_ses_header h [SESSION_DATA, SESSION_VERSION, 3, 0] = Inr ()"
    using assms(3) by (auto simp: validate_ses_header_def validate_profile3_data_header_def
        session_consts split: if_splits)
  then have pk: "pack_with_budget h (profile3_payload n did ?z) budget
      = Inr (header_image h (profile3_payload n did ?z))" for n
    using assms(5,6) ses by (simp add: pack_iff validate_profile3_payload)
  have u: "unpack_with_budget (header_image h (profile3_payload n did ?z)) budget
      = Inr (h, profile3_payload n did ?z)" for n
    using pk [of n] assms(2) by (simp add: unpack_iff pack_iff)
  have "length m \<le> 65535" using assms(6) by simp
  from seal_aad_lengths [OF assms(1,7,8) this] obtain ct where
    "seal c (ds_send_key s) (next_counter s) (profile3_aad h (next_counter s) did ?z) m = Inr ct"
    by blast
  then have "\<exists>d. encrypt_profile3_with_counter c (ds_send_key s) (next_counter s) h did m budget = Inr d"
    using profile3_aad_eq [OF u] by (simp add: encrypt_profile3_with_counter_def pk)
  moreover have "length m + 84 < 2 ^ 64" using assms(6) by simp
  ultimately show ?thesis
    using assms pk by (auto simp: encrypt_profile3_unfold)
qed

lemma sample_encrypts:
  "\<exists>d. DirectionalSession_encrypt sample_crypto (sample_session 1) (sample_ses_header 0)
     SESSION_DATA [1, 2, 3] 100 = (Inr d, counter_used (sample_session 1))"
  using sample_crypto_ok
  by (intro encrypt_ok) (simp_all add: crypto_ok_def protected_type_def plaintext_fits_def
      ses_header_ok_def sample_ses_header_def validate_ses_header_def session_consts
      sample_session_def Counters_new_def wf_header_def)

lemma sample_replay: "replay_hist (ds_replay (sample_session n)) {}"
  by (simp add: sample_session_def replay_hist_new)

definition sample_protected_proof :: protected_replay_proof where
  "sample_protected_proof = ProtectedPreview_into_replay_proof
     \<lparr>pp_plaintext = [], pp_commit = \<lparr>rc_counter = 1, rc_generation = 0\<rparr>, pp_receive_owner = 1\<rparr>"

definition sample_profile3_proof :: profile3_replay_proof where
  "sample_profile3_proof = Profile3DataPreview_into_replay_proof
     \<lparr>p3_delivery_id = 5, p3_plaintext = [], p3_commit = \<lparr>rc_counter = 1, rc_generation = 0\<rparr>,
      p3_receive_owner = 1\<rparr>"

lemma sample_encrypts_profile3:
  "\<exists>d. DirectionalSession_encrypt_profile3_data sample_crypto (sample_session 1)
     (sample_ses_header 3) 5 [1, 2, 3] 100 = (Inr d, counter_used (sample_session 1))"
  using sample_crypto_ok
  by (intro encrypt_profile3_ok) (simp_all add: crypto_ok_def validate_profile3_data_header_def
      sample_ses_header_def sample_session_def Counters_new_def wf_header_def)

section \<open>Properties\<close>

text \<open>What one end of a direction seals, the other end opens: a packet \<open>encrypt\<close> returned is
  accepted by the session that holds the same key, yields the plaintext that was sent and
  records its counter, also when every hop on the way rewrote the hop limit, as long as the
  receiver's window still admits the counter.\<close>

theorem protected_roundtrip:
  assumes "aead_ok c" "wf_header h" "ds_send_key a = ds_receive_key b"
    and "DirectionalSession_encrypt c a h t m budget = (Inr d, a')"
    and "k \<noteq> 0" "length d \<le> ds_receive_budget b"
    and "replay_hist (ds_replay b) H" "replay_accepts H (c_next (ds_send_counters a))"
    and "unat (rw_generation (ds_replay b)) + 1 < 2 ^ 64"
  shows "\<exists>b'. DirectionalSession_decrypt c b (d[5 := k]) = (Inr m, b')
     \<and> b' = b\<lparr>ds_replay := ds_replay b'\<rparr>
     \<and> replay_hist (ds_replay b') (insert (c_next (ds_send_counters a)) H)"
  using assms by (rule encrypt_decrypt)

theorem protected_roundtrip_witness:
  "\<exists>d a' b'. DirectionalSession_encrypt sample_crypto (sample_session 1) (sample_ses_header 0)
       SESSION_DATA [1, 2, 3] 100 = (Inr d, a')
     \<and> DirectionalSession_decrypt sample_crypto (sample_session 2) (d[5 := 63]) = (Inr [1, 2, 3], b')"
proof -
  obtain d where e: "DirectionalSession_encrypt sample_crypto (sample_session 1)
      (sample_ses_header 0) SESSION_DATA [1, 2, 3] 100 = (Inr d, counter_used (sample_session 1))"
    using sample_encrypts by blast
  have "length d \<le> 100"
    using encrypt_length [OF _ _ e] sample_crypto_ok by (simp add: crypto_ok_def)
  then have "length d \<le> ds_receive_budget (sample_session 2)" by (simp add: sample_session_def)
  moreover have "aead_ok sample_crypto" using sample_crypto_ok by (simp add: crypto_ok_def)
  moreover have "ds_send_key (sample_session 1) = ds_receive_key (sample_session 2)"
    "replay_accepts {} (next_counter (sample_session 1))"
    "unat (rw_generation (ds_replay (sample_session 2))) + 1 < 2 ^ 64"
    by (simp_all add: sample_session_def replay_accepts_def Counters_new_def ReplayWindow_new_def)
  ultimately show ?thesis
    using protected_roundtrip [OF _ _ _ e, of "sample_session 2" 63 "{}"] e sample_replay
    by fastforce
qed

text \<open>The same for Profile-3 data, which also carries the delivery id.\<close>

theorem profile3_roundtrip:
  assumes "aead_ok c" "wf_header h" "ds_send_key a = ds_receive_key b"
    and "DirectionalSession_encrypt_profile3_data c a h did m budget = (Inr d, a')"
    and "did \<noteq> 0" "k \<noteq> 0" "length d \<le> ds_receive_budget b"
    and "replay_hist (ds_replay b) H" "replay_accepts H (c_next (ds_send_counters a))"
    and "unat (rw_generation (ds_replay b)) + 1 < 2 ^ 64"
  shows "\<exists>b'. DirectionalSession_decrypt_profile3_data c b (d[5 := k]) = (Inr (did, m), b')
     \<and> replay_hist (ds_replay b') (insert (c_next (ds_send_counters a)) H)"
  using assms by (rule encrypt_decrypt_profile3)

theorem profile3_roundtrip_witness:
  "\<exists>d a' b'. DirectionalSession_encrypt_profile3_data sample_crypto (sample_session 1)
       (sample_ses_header 3) 5 [1, 2, 3] 100 = (Inr d, a')
     \<and> DirectionalSession_decrypt_profile3_data sample_crypto (sample_session 2) (d[5 := 63])
         = (Inr (5, [1, 2, 3]), b')"
proof -
  obtain d where e: "DirectionalSession_encrypt_profile3_data sample_crypto (sample_session 1)
      (sample_ses_header 3) 5 [1, 2, 3] 100 = (Inr d, counter_used (sample_session 1))"
    using sample_encrypts_profile3 by blast
  have aead: "aead_ok sample_crypto" using sample_crypto_ok by (simp add: crypto_ok_def)
  have "length d \<le> ds_receive_budget (sample_session 2)"
    using encrypt_profile3_length [OF aead _ e] by (simp add: sample_session_def)
  moreover have "ds_send_key (sample_session 1) = ds_receive_key (sample_session 2)"
    "replay_accepts {} (next_counter (sample_session 1))"
    "unat (rw_generation (ds_replay (sample_session 2))) + 1 < 2 ^ 64"
    by (simp_all add: sample_session_def replay_accepts_def Counters_new_def ReplayWindow_new_def)
  ultimately show ?thesis
    using profile3_roundtrip [OF aead _ _ e, of "sample_session 2" 63 "{}"] e sample_replay
    by fastforce
qed

text \<open>\<open>encrypt\<close> does send: with a header the session rules admit, a plaintext of the size its
  message type asks for, room in the budget and a counter left, it returns a packet 76 bytes
  longer than the plaintext and uses up exactly one counter.\<close>

theorem encrypt_succeeds:
  assumes "aead_ok c" "wf_header h" "protected_type t" "plaintext_fits t m"
    and "ses_header_ok h t" "length m + 76 \<le> budget" "length m + 76 \<le> 1280"
    and "c_next (ds_send_counters s) \<noteq> 0" "c_next (ds_send_counters s) \<noteq> u64_max"
  shows "\<exists>d. DirectionalSession_encrypt c s h t m budget
      = (Inr d, s\<lparr>ds_send_counters := \<lparr>c_next = c_next (ds_send_counters s) + 1\<rparr>\<rparr>)
      \<and> length d = length m + 76"
  using encrypt_ok [OF assms] encrypt_length [OF assms(1,2)] by blast

theorem encrypt_succeeds_witness:
  "\<exists>d. DirectionalSession_encrypt sample_crypto (sample_session 1) (sample_ses_header 0)
     SESSION_DATA [1, 2, 3] 100 = (Inr d, (sample_session 1)\<lparr>ds_send_counters := \<lparr>c_next = 2\<rparr>\<rparr>)
     \<and> length d = 79"
proof -
  have "aead_ok sample_crypto" "protected_type SESSION_DATA" "plaintext_fits SESSION_DATA [1, 2, 3]"
    "ses_header_ok (sample_ses_header 0) SESSION_DATA"
    "c_next (ds_send_counters (sample_session 1)) = 1"
    using sample_crypto_ok
    by (simp_all add: crypto_ok_def protected_type_def plaintext_fits_def ses_header_ok_def
        sample_ses_header_def validate_ses_header_def session_consts sample_session_def
        Counters_new_def)
  with encrypt_succeeds [of sample_crypto "sample_ses_header 0" SESSION_DATA "[1, 2, 3]" 100
      "sample_session 1"] show ?thesis by simp
qed

text \<open>C10: No protected packet is delivered twice: over any sequence of packets, forged, repeated or
  reordered, the packets a fresh session decrypts carry pairwise different counters.\<close>

theorem decrypt_no_replay:
  "let (s', acc) = run_filter (decrypt_admit c) (s\<lparr>ds_replay := ReplayWindow_new\<rparr>) ds
   in distinct (map packet_counter acc)"
  using ds.run_filter_hist [where s = "s\<lparr>ds_replay := ReplayWindow_new\<rparr>" and H = "{}"]
  by (auto simp: replay_hist_new split: prod.splits)

text \<open>C12: No nonce is used twice under one key: over any sequence of protected and Profile-3 sends,
  successful or failing, the packets a session emits carry strictly increasing counters.\<close>

theorem send_nonces_increase:
  assumes "\<forall>op \<in> set ops. wf_header (send_header op)"
  shows "sorted_wrt (<) (map packet_counter (send_all c s ops))"
  using send_all_counters [OF assms] by blast

theorem send_nonces_increase_witness:
  "\<exists>d rest. send_all sample_crypto (sample_session 1)
      [SendProtected (sample_ses_header 0) SESSION_DATA [1, 2, 3] 100,
       SendProfile3 (sample_ses_header 3) 5 [] 100] = d # rest
    \<and> (\<forall>e \<in> set rest. packet_counter d < packet_counter e)"
proof -
  obtain d where "DirectionalSession_encrypt sample_crypto (sample_session 1) (sample_ses_header 0)
     SESSION_DATA [1, 2, 3] 100 = (Inr d, counter_used (sample_session 1))"
    using sample_encrypts by blast
  with send_nonces_increase [of "[SendProtected (sample_ses_header 0) SESSION_DATA [1, 2, 3] 100,
       SendProfile3 (sample_ses_header 3) 5 [] 100]" sample_crypto "sample_session 1"]
  show ?thesis by (auto split: sum.splits prod.splits)
qed

text \<open>The associated data binds the packet: two packets with the same associated data have the
  same counter, the same length and the same bytes in the R8 header and the session preamble,
  except for the hop limit.\<close>

theorem aad_binds_header:
  assumes "protected_aad d n = Inr a" "protected_aad d' n' = Inr a"
  shows "n = n' \<and> length d = length d' \<and> (\<forall>i < 52. i \<noteq> 5 \<longrightarrow> d ! i = d' ! i)"
proof -
  have def: "60 \<le> length d \<and> a = (take 52 d)[5 := 0] @ u64_to_be_bytes n"
    if "protected_aad d n = Inr a" for d n
    using that by (auto simp: protected_aad_def result_simps wire_consts split: if_splits)
  have eq: "(take 52 d)[5 := 0] = (take 52 d')[5 := 0]" "n = n'"
    using def [OF assms(1)] def [OF assms(2)] by (auto simp: to_be_inject append_eq_append_conv)
  have nth: "d ! i = d' ! i" if "i < 52" "i \<noteq> 5" for i
  proof -
    have "(take 52 d)[5 := 0] ! i = (take 52 d')[5 := 0] ! i" by (simp add: eq)
    with that show ?thesis by simp
  qed
  from assms obtain h p h' p' where u: "unpack d = Inr (h, p)" "unpack d' = Inr (h', p')"
    by (meson protected_aad_Inr)
  have l: "length x = 48 + unat (u16_from_be_bytes [x ! 2, x ! 3])" if "unpack x = Inr (g, q)" for x g q
    using that by (auto simp: unpack_def unpack_iff length_header_image header_image_nth unat_of_nat)
  have "length d = length d'"
    using l [OF u(1)] l [OF u(2)] nth [of 2] nth [of 3] by simp
  with eq(2) nth show ?thesis by blast
qed

definition sample_packet :: bytes where
  "sample_packet = header_image (sample_ses_header 0) (protected_payload SESSION_DATA 0 1 (replicate 16 0))"

theorem aad_binds_header_witness:
  "\<exists>a. protected_aad sample_packet 1 = Inr a \<and> protected_aad (sample_packet[5 := 63]) 1 = Inr a
     \<and> (\<forall>i < 52. i \<noteq> 5 \<longrightarrow> sample_packet ! i = sample_packet[5 := 63] ! i)"
proof -
  let ?p = "protected_payload SESSION_DATA 0 1 (replicate 16 0)"
  have u: "unpack_with_budget sample_packet 1280 = Inr (sample_ses_header 0, ?p)"
    unfolding sample_packet_def
    by (rule unpack_image) (simp_all add: validate_header_def known_next_header_def validate_ses_header_def
        sample_ses_header_def protected_payload_def session_consts wire_consts wf_header_def Let_def)
  have l: "12 \<le> length ?p" by simp
  obtain a where a: "protected_aad sample_packet 1 = Inr a" "protected_aad (sample_packet[5 := 63]) 1 = Inr a"
    using protected_aad_eq [OF u l, of 1] protected_aad_eq [OF unpack_set_hop [OF u, of 63] l, of 1]
    by simp
  with aad_binds_header [OF a] show ?thesis by blast
qed

text \<open>A refused packet leaves the session as it was, for protected messages and for Profile-3
  data alike: an attacker without the key cannot advance the replay window.\<close>

theorem refused_packet_no_effect:
  "(\<forall>e s'. DirectionalSession_decrypt c s d = (Inl e, s') \<longrightarrow> s' = s)
   \<and> (\<forall>e s'. DirectionalSession_decrypt_profile3_data c s d = (Inl e, s') \<longrightarrow> s' = s)"
  using decrypt_Inl decrypt_profile3_Inl by blast

theorem refused_packet_no_effect_witness:
  "DirectionalSession_decrypt sample_crypto (sample_session 1) [] = (Inl AuthFailed, sample_session 1)"
proof -
  have "fst (DirectionalSession_decrypt sample_crypto (sample_session 1) []) = Inl AuthFailed"
    by (simp add: DirectionalSession_decrypt_def DirectionalSession_preview_def receive_error_def
        unpack_with_budget_def wire_consts)
  then show ?thesis
    using refused_packet_no_effect [of sample_crypto "sample_session 1" "[]"]
    by (metis prod.collapse)
qed

text \<open>A replay proof commits at most once: whatever the first attempt on any session returned,
  every later attempt with that proof, on any session, is refused and changes nothing.\<close>

theorem replay_proof_one_shot:
  assumes "DirectionalSession_commit_protected_replay s p = (r, s', p')"
    and "DirectionalSession_commit_profile3_replay u q = (r3, u', q')"
  shows "DirectionalSession_commit_protected_replay t p' = (Inl Replay, t, p')
    \<and> DirectionalSession_commit_profile3_replay v q' = (Inl Replay, v, q')"
  using protected_proof_spent [OF assms(1)] profile3_proof_spent [OF assms(2)]
  by (auto simp: DirectionalSession_commit_protected_replay_def
      DirectionalSession_commit_profile3_replay_def)

theorem replay_proof_one_shot_witness:
  "\<exists>s' p'. DirectionalSession_commit_protected_replay (sample_session 1) sample_protected_proof
       = (Inr (), s', p')
     \<and> DirectionalSession_commit_protected_replay s' p' = (Inl Replay, s', p')"
proof -
  obtain r s' p' where 1: "DirectionalSession_commit_protected_replay (sample_session 1)
      sample_protected_proof = (r, s', p')" by (rule prod_cases3)
  obtain r3 u' q' where 2: "DirectionalSession_commit_profile3_replay (sample_session 1)
      sample_profile3_proof = (r3, u', q')" by (rule prod_cases3)
  have "ReplayWindow_check ReplayWindow_new 1 = Inr ()"
    by (simp add: check_refines [OF replay_hist_new] replay_accepts_def)
  then have "r = Inr ()"
    using 1 by (auto simp: DirectionalSession_commit_protected_replay_def sample_session_def
        sample_protected_proof_def ProtectedPreview_into_replay_proof_def Let_def
        ReplayWindow_commit_def ReplayWindow_new_def checked_add_def split: prod.splits sum.splits)
  with 1 replay_proof_one_shot [OF 1 2, of s'] show ?thesis by blast
qed

end
