(* ===== verification/Handshake.thy ===== *)
theory Handshake
  imports Directional
begin

text \<open>
  What the client and the server machine of \<open>rust/crates/r8-session/src/lib.rs\<close> share: the
  configuration and its validation (lines 768-803), the key material structs, the Profile-3
  bootstrap a finished handshake hands over (lines 1345-1462), data previews, the session header
  and the construction of unprotected handshake packets.
\<close>

record handshake_config =
  hc_local :: identity
  hc_peer :: identity
  hc_profile :: u8
  hc_source :: bytes
  hc_destination :: bytes
  hc_budget :: nat
  hc_pending_limit :: nat
  hc_established_limit :: nat
  hc_server_context_id :: u32

definition HandshakeConfig_validate :: "crypto \<Rightarrow> handshake_config \<Rightarrow> SessionError + unit" where
  "HandshakeConfig_validate c cfg =
     and_then (Identity_validate c (hc_local cfg)) (\<lambda>_.
     and_then (Identity_validate c (hc_peer cfg)) (\<lambda>_.
     if id_role (hc_local cfg) = id_role (hc_peer cfg) then Inl RoleMismatch
     else if id_service_context (hc_local cfg) \<noteq> id_service_context (hc_peer cfg)
     then Inl ServiceMismatch
     else if hc_profile cfg > 3 \<or> \<not> (48 \<le> hc_budget cfg \<and> hc_budget cfg \<le> 1280)
        \<or> \<not> (1 \<le> hc_pending_limit cfg \<and> hc_pending_limit cfg \<le> 256)
        \<or> \<not> (1 \<le> hc_established_limit cfg \<and> hc_established_limit cfg \<le> 1024)
        \<or> hc_server_context_id cfg = 0
     then Inl ConfigError
     else Inr ()))"

text \<open>The array sizes of the Rust types.\<close>

definition wf_config :: "handshake_config \<Rightarrow> bool" where
  "wf_config cfg \<longleftrightarrow>
     wf_identity (hc_local cfg) \<and> wf_identity (hc_peer cfg)
     \<and> length (hc_source cfg) = 16 \<and> length (hc_destination cfg) = 16"

record client_material =
  cm_ephemeral_secret :: bytes
  cm_nonce :: bytes

record server_material =
  svm_boot_instance :: bytes
  svm_current_cookie_key :: bytes
  svm_previous_cookie_key :: bytes
  svm_previous_key_rotated_ms :: u64

record server_handshake_material =
  shm_ephemeral_secret :: bytes
  shm_nonce :: bytes

text \<open>The header literal both machines write for every session packet.\<close>

definition session_header :: "u8 \<Rightarrow> u8 \<Rightarrow> u8 \<Rightarrow> u64 \<Rightarrow> bytes \<Rightarrow> bytes \<Rightarrow> header" where
  "session_header profile flags slot scid src dst =
     \<lparr>h_profile = profile, h_tc = 0, h_next_header = NH_SES, h_hop_limit = 64, h_flags = flags,
      h_path_slot = slot, h_scid = scid, h_src = src, h_dst = dst\<rparr>"

text \<open>\<open>ClientMachine::packet\<close> and \<open>ServerMachine::packet\<close> differ only in the direction.\<close>

definition machine_packet ::
    "handshake_config \<Rightarrow> bytes \<Rightarrow> bytes \<Rightarrow> u64 \<Rightarrow> u8 \<Rightarrow> u8 \<Rightarrow> u8 \<Rightarrow> bytes \<Rightarrow> SessionError + bytes" where
  "machine_packet cfg src dst scid typ flags slot body =
     and_then (SessionMessage_encode
        \<lparr>sm_typ = typ, sm_profile = hc_profile cfg, sm_body = body\<rparr> (hc_budget cfg)) (\<lambda>payload.
     map_err (\<lambda>_. Budget)
       (pack_with_budget (session_header (hc_profile cfg) flags slot scid src dst) payload
          (hc_budget cfg)))"

record data_preview =
  dp_scid :: u64
  dp_header :: header
  dp_commit :: protected_preview

section \<open>Profile-3 bootstrap\<close>

record profile3_bootstrap =
  pb_scid :: u64
  pb_local_loc :: bytes
  pb_peer_loc :: bytes
  pb_budget :: nat
  pb_local_role :: u8
  pb_peer_role :: u8
  pb_transcript_hash :: bytes
  pb_schedule :: "bytes option"
  pb_slot0 :: "directional_session option"

definition Profile3Bootstrap_new ::
    "u64 \<Rightarrow> bytes \<Rightarrow> bytes \<Rightarrow> nat \<Rightarrow> u8 \<Rightarrow> u8 \<Rightarrow> bytes \<Rightarrow> bytes \<Rightarrow> directional_session \<Rightarrow>
       profile3_bootstrap" where
  "Profile3Bootstrap_new scid local_loc peer_loc budget local_role peer_role th schedule slot0 =
     \<lparr>pb_scid = scid, pb_local_loc = local_loc, pb_peer_loc = peer_loc, pb_budget = budget,
      pb_local_role = local_role, pb_peer_role = peer_role, pb_transcript_hash = th,
      pb_schedule = Some schedule, pb_slot0 = Some slot0\<rparr>"

definition Profile3Bootstrap_take_slot0 ::
    "profile3_bootstrap \<Rightarrow> (SessionError + directional_session) \<times> profile3_bootstrap" where
  "Profile3Bootstrap_take_slot0 b = (ok_or UnexpectedMessage (pb_slot0 b), b\<lparr>pb_slot0 := None\<rparr>)"

text \<open>\<open>None\<close> is the panic of the owner allocator; the allocator's counter is threaded.\<close>

definition Profile3Bootstrap_take_slot1_after_admission ::
    "crypto \<Rightarrow> profile3_bootstrap \<Rightarrow> u64 \<Rightarrow>
       ((SessionError + directional_session) \<times> profile3_bootstrap \<times> u64) option" where
  "Profile3Bootstrap_take_slot1_after_admission c b next_owner =
     (case pb_schedule b of
        None \<Rightarrow> Some (Inl UnexpectedMessage, b, next_owner)
      | Some schedule \<Rightarrow>
          let b' = b\<lparr>pb_schedule := None\<rparr> in
          case derive_key_from_prk c schedule (pb_transcript_hash b) 3 (pb_local_role b)
                 (pb_peer_role b) 1 of
            Inl e \<Rightarrow> Some (Inl e, b', next_owner)
          | Inr send_key \<Rightarrow>
              (case derive_key_from_prk c schedule (pb_transcript_hash b) 3 (pb_peer_role b)
                      (pb_local_role b) 1 of
                 Inl e \<Rightarrow> Some (Inl e, b', next_owner)
               | Inr receive_key \<Rightarrow>
                   map_option (\<lambda>(s, next_owner'). (Inr s, b', next_owner'))
                     (DirectionalSession_new send_key receive_key (pb_transcript_hash b)
                        (pb_budget b) next_owner)))"

definition Profile3Bootstrap_close ::
    "profile3_bootstrap \<Rightarrow> (SessionError + unit) \<times> profile3_bootstrap" where
  "Profile3Bootstrap_close b =
     (case pb_slot0 b of
        None \<Rightarrow> (Inl UnexpectedMessage, b\<lparr>pb_slot0 := None\<rparr>)
      | Some _ \<Rightarrow> (Inr (), b\<lparr>pb_slot0 := None, pb_schedule := None\<rparr>))"

section \<open>Shared facts\<close>

lemma HandshakeConfig_validate_Inr:
  "HandshakeConfig_validate c cfg = Inr () \<longleftrightarrow>
     Identity_validate c (hc_local cfg) = Inr () \<and> Identity_validate c (hc_peer cfg) = Inr ()
     \<and> id_role (hc_local cfg) \<noteq> id_role (hc_peer cfg)
     \<and> id_service_context (hc_local cfg) = id_service_context (hc_peer cfg)
     \<and> hc_profile cfg \<le> 3 \<and> 48 \<le> hc_budget cfg \<and> hc_budget cfg \<le> 1280
     \<and> 1 \<le> hc_pending_limit cfg \<and> hc_pending_limit cfg \<le> 256
     \<and> 1 \<le> hc_established_limit cfg \<and> hc_established_limit cfg \<le> 1024
     \<and> hc_server_context_id cfg \<noteq> 0"
  by (auto simp: HandshakeConfig_validate_def result_simps not_less)

lemma wf_session_header [simp]:
  "wf_header (session_header profile flags slot scid src dst) \<longleftrightarrow> length src = 16 \<and> length dst = 16"
  by (simp add: wf_header_def session_header_def)

text \<open>A handshake packet, once built, unpacks to the header and message it was built from.\<close>

lemma machine_packet_Inr:
  assumes "machine_packet cfg src dst scid t flags slot body = Inr d"
    and "length src = 16" "length dst = 16"
  shows "unpack_with_budget d (hc_budget cfg) =
      Inr (session_header (hc_profile cfg) flags slot scid src dst,
           [t, SESSION_VERSION, hc_profile cfg, 0] @ body)
    \<and> validate_body t body = Inr ()"
proof -
  from assms(1) obtain payload where
    "SessionMessage_encode \<lparr>sm_typ = t, sm_profile = hc_profile cfg, sm_body = body\<rparr>
       (hc_budget cfg) = Inr payload"
    and p: "pack_with_budget (session_header (hc_profile cfg) flags slot scid src dst) payload
       (hc_budget cfg) = Inr d"
    by (auto simp: machine_packet_def and_then_Inr)
  then have "payload = [t, SESSION_VERSION, hc_profile cfg, 0] @ body" "validate_body t body = Inr ()"
    by (auto simp: SessionMessage_encode_def result_simps split: if_splits)
  with p assms(2,3) show ?thesis by (auto simp: pack_iff unpack_iff)
qed

text \<open>The handshake messages (types 1 to 4) are built whenever they fit.\<close>

lemma machine_packet_ok:
  assumes "validate_body t body = Inr ()" "OPEN \<le> t" "t \<le> OPEN_ACK"
    and "length body + 52 \<le> hc_budget cfg" "hc_budget cfg \<le> 1280" "hc_profile cfg \<le> 3" "scid \<noteq> 0"
  shows "machine_packet cfg src dst scid t 0 0 body =
    Inr (header_image (session_header (hc_profile cfg) 0 0 scid src dst)
      ([t, SESSION_VERSION, hc_profile cfg, 0] @ body))"
proof -
  have "t \<le> 7" using assms(3) by (rule order_trans) (simp add: session_consts)
  then have "validate_header (session_header (hc_profile cfg) 0 0 scid src dst)
      ([t, SESSION_VERSION, hc_profile cfg, 0] @ body) = Inr ()"
    using assms(2,3,6,7) by (auto simp: validate_header_def validate_ses_header_def
        session_header_def known_next_header_def wire_consts session_consts Let_def not_less)
  then have "pack_with_budget (session_header (hc_profile cfg) 0 0 scid src dst)
      ([t, SESSION_VERSION, hc_profile cfg, 0] @ body) (hc_budget cfg)
    = Inr (header_image (session_header (hc_profile cfg) 0 0 scid src dst)
        ([t, SESSION_VERSION, hc_profile cfg, 0] @ body))"
    using assms(4,5) by (simp add: pack_iff)
  then show ?thesis
    using assms(1,4,5) by (simp add: machine_packet_def SessionMessage_encode_def and_then_Inr)
qed

lemma header_unpacked_length:
  "unpack_with_budget d b = Inr (h, p) \<Longrightarrow> length (h_src h) = 16 \<and> length (h_dst h) = 16"
  by (simp add: unpack_iff wf_header_def)

section \<open>Concrete configurations\<close>

definition sample_config :: "u8 \<Rightarrow> u8 \<Rightarrow> handshake_config" where
  "sample_config self peer =
     \<lparr>hc_local = sample_identity self, hc_peer = sample_identity peer, hc_profile = 1,
      hc_source = replicate 16 1, hc_destination = replicate 16 2, hc_budget = 1280,
      hc_pending_limit = 2, hc_established_limit = 2, hc_server_context_id = 1\<rparr>"

lemma sample_config_ok:
  "HandshakeConfig_validate sample_crypto (sample_config 1 2) = Inr ()"
  "HandshakeConfig_validate sample_crypto (sample_config 2 1) = Inr ()"
  "wf_config (sample_config a b)"
  by (simp_all add: HandshakeConfig_validate_Inr sample_config_def sample_identity_ok wf_config_def)
    (simp_all add: sample_identity_def)

end
