(* ===== verification/Client_Machine.thy ===== *)
theory Client_Machine
  imports Handshake
begin

text \<open>
  \<open>ClientMachine\<close> of \<open>rust/crates/r8-session/src/lib.rs\<close> (lines 1480-2112). The state enum keeps the
  source's constructors. A \<open>&mut self\<close> method returns its result and the machine; \<open>receive_ack\<close>,
  which may create a session, also threads the owner allocator and is \<open>None\<close> when that panics.
\<close>

datatype client_state =
    Idle
  | CookieWait (cw_scid: u64) (cw_material: client_material) (cw_open: bytes) (cw_deadline_ms: u64)
  | AuthWait (aw_scid: u64) (aw_material: client_material) (aw_boot: bytes) (aw_opening: bytes)
      (aw_verify_header: header) (aw_verify_cookie: bytes) (aw_open_auth: bytes)
      (aw_deadline_ms: u64)
  | Established (es_scid: u64) (es_session: directional_session) (es_schedule: "bytes option")
      (es_cached_accept: bytes)
  | Released

record client_machine =
  cl_config :: handshake_config
  cl_signing_key :: bytes
  cl_state :: client_state
  cl_local_loc :: bytes
  cl_peer_loc :: bytes

definition ClientMachine_new ::
    "crypto \<Rightarrow> handshake_config \<Rightarrow> bytes \<Rightarrow> SessionError + client_machine" where
  "ClientMachine_new c cfg signing_key =
     and_then (HandshakeConfig_validate c cfg) (\<lambda>_.
     if ed_verifying_key c signing_key \<noteq> id_public_key (hc_local cfg) then Inl PinMismatch
     else Inr \<lparr>cl_config = cfg, cl_signing_key = signing_key, cl_state = Idle,
               cl_local_loc = hc_source cfg, cl_peer_loc = hc_destination cfg\<rparr>)"

definition ClientMachine_packet ::
    "client_machine \<Rightarrow> u64 \<Rightarrow> u8 \<Rightarrow> u8 \<Rightarrow> u8 \<Rightarrow> bytes \<Rightarrow> SessionError + bytes" where
  "ClientMachine_packet m scid typ flags slot body =
     machine_packet (cl_config m) (hc_source (cl_config m)) (hc_destination (cl_config m))
       scid typ flags slot body"

definition ClientMachine_take_profile3_bootstrap ::
    "client_machine \<Rightarrow> (SessionError + profile3_bootstrap) \<times> client_machine" where
  "ClientMachine_take_profile3_bootstrap m =
     (if hc_profile (cl_config m) \<noteq> 3 then (Inl Profile, m)
      else case cl_state m of
        Established scid session (Some schedule) _ \<Rightarrow>
          (Inr (Profile3Bootstrap_new scid (cl_local_loc m) (cl_peer_loc m)
             (hc_budget (cl_config m)) (id_role (hc_local (cl_config m)))
             (id_role (hc_peer (cl_config m))) (ds_transcript_hash session) schedule session),
           m\<lparr>cl_state := Released\<rparr>)
      | _ \<Rightarrow> (Inl UnexpectedMessage, m))"

definition ClientMachine_start ::
    "crypto \<Rightarrow> client_machine \<Rightarrow> u64 \<Rightarrow> client_material \<Rightarrow> u64 \<Rightarrow>
       (SessionError + bytes) \<times> client_machine" where
  "ClientMachine_start c m scid material now_ms =
     (if scid = 0 \<or> cl_state m \<noteq> Idle then (Inl UnexpectedMessage, m)
      else
        let cfg = cl_config m;
            ephemeral = x_public c (cm_ephemeral_secret material);
            body = [id_role (hc_local cfg), id_role (hc_peer cfg)]
              @ u32_to_be_bytes (id_service_context (hc_local cfg))
              @ id_eid (hc_local cfg) @ id_public_key (hc_local cfg) @ ephemeral
              @ cm_nonce material in
        case ClientMachine_packet m scid OPEN 0 0 body of
          Inl e \<Rightarrow> (Inl e, m)
        | Inr packet \<Rightarrow>
            (Inr packet,
             m\<lparr>cl_state := CookieWait scid material packet (saturating_add now_ms 5000)\<rparr>))"

definition ClientMachine_release_cookie_wait_if_expired ::
    "client_machine \<Rightarrow> u64 \<Rightarrow> bool \<times> client_machine" where
  "ClientMachine_release_cookie_wait_if_expired m now_ms =
     (case cl_state m of
        CookieWait _ _ _ deadline_ms \<Rightarrow>
          if now_ms \<ge> deadline_ms then (True, m\<lparr>cl_state := Released\<rparr>) else (False, m)
      | _ \<Rightarrow> (False, m))"

definition ClientMachine_retry ::
    "client_machine \<Rightarrow> u64 \<Rightarrow> (SessionError + bytes) \<times> client_machine" where
  "ClientMachine_retry m0 now_ms =
     (let (expired, m) = ClientMachine_release_cookie_wait_if_expired m0 now_ms in
      if expired then (Inl UnexpectedMessage, m)
      else case cl_state m of
        CookieWait _ _ opening deadline_ms \<Rightarrow>
          if now_ms < deadline_ms then (Inr opening, m) else (Inl UnexpectedMessage, m)
      | AuthWait _ _ _ _ _ _ open_auth deadline_ms \<Rightarrow>
          if now_ms < deadline_ms then (Inr open_auth, m) else (Inl UnexpectedMessage, m)
      | Established _ _ _ cached_accept \<Rightarrow> (Inr cached_accept, m)
      | _ \<Rightarrow> (Inl UnexpectedMessage, m))"

definition ClientMachine_expire :: "client_machine \<Rightarrow> u64 \<Rightarrow> client_machine" where
  "ClientMachine_expire m now_ms =
     (let expired = (case cl_state m of
          CookieWait _ _ _ deadline_ms \<Rightarrow> now_ms \<ge> deadline_ms
        | AuthWait _ _ _ _ _ _ _ deadline_ms \<Rightarrow> now_ms \<ge> deadline_ms
        | _ \<Rightarrow> False)
      in if expired then m\<lparr>cl_state := Released\<rparr> else m)"

definition ClientMachine_validate_verify_cookie ::
    "crypto \<Rightarrow> client_machine \<Rightarrow> bytes \<Rightarrow> u64 \<Rightarrow> client_material \<Rightarrow> bytes \<Rightarrow>
       SessionError + header \<times> bytes \<times> bytes" where
  "ClientMachine_validate_verify_cookie c m packet scid material opening =
     (let cfg = cl_config m in
      and_then (map_err (\<lambda>_. AuthFailed) (unpack_with_budget opening (hc_budget cfg)))
        (\<lambda>(opening_header, opening_payload).
      let expected_ephemeral = x_public c (cm_ephemeral_secret material) in
      if h_next_header opening_header \<noteq> NH_SES
         \<or> h_profile opening_header \<noteq> hc_profile cfg
         \<or> h_scid opening_header \<noteq> scid
         \<or> h_flags opening_header \<noteq> 0
         \<or> h_path_slot opening_header \<noteq> 0
         \<or> h_src opening_header \<noteq> hc_source cfg
         \<or> h_dst opening_header \<noteq> hc_destination cfg
         \<or> length opening_payload \<noteq> 122
         \<or> opening_payload ! 0 \<noteq> OPEN
         \<or> opening_payload ! 1 \<noteq> SESSION_VERSION
         \<or> opening_payload ! 2 \<noteq> hc_profile cfg
         \<or> opening_payload ! 3 \<noteq> 0
         \<or> opening_payload ! 4 \<noteq> id_role (hc_local cfg)
         \<or> opening_payload ! 5 \<noteq> id_role (hc_peer cfg)
         \<or> u32_from_be_bytes (slice_of 6 10 opening_payload) \<noteq> id_service_context (hc_local cfg)
         \<or> slice_of 10 26 opening_payload \<noteq> id_eid (hc_local cfg)
         \<or> slice_of 26 58 opening_payload \<noteq> id_public_key (hc_local cfg)
         \<or> slice_of 58 90 opening_payload \<noteq> expected_ephemeral
         \<or> slice_of 90 122 opening_payload \<noteq> cm_nonce material
      then Inl AuthFailed
      else and_then (map_err (\<lambda>_. AuthFailed) (unpack_with_budget packet (hc_budget cfg)))
        (\<lambda>(h, payload).
      if h_next_header h \<noteq> NH_SES
         \<or> h_profile h \<noteq> hc_profile cfg
         \<or> h_scid h \<noteq> scid
         \<or> h_flags h \<noteq> 0
         \<or> h_path_slot h \<noteq> 0
         \<or> h_src h \<noteq> hc_destination cfg
         \<or> h_dst h \<noteq> hc_source cfg
         \<or> length payload \<noteq> 122
         \<or> payload ! 0 \<noteq> VERIFY_COOKIE
         \<or> payload ! 1 \<noteq> SESSION_VERSION
         \<or> payload ! 2 \<noteq> hc_profile cfg
         \<or> payload ! 3 \<noteq> 0
         \<or> payload ! 4 \<noteq> id_role (hc_peer cfg)
         \<or> payload ! 5 \<noteq> id_role (hc_local cfg)
         \<or> u32_from_be_bytes (slice_of 6 10 payload) \<noteq> id_service_context (hc_local cfg)
         \<or> slice_of 10 42 payload \<noteq> slice_of 26 58 opening_payload
      then Inl AuthFailed
      else if sha256 c (slice_of 58 90 opening_payload) \<noteq> slice_of 42 74 payload
      then Inl AuthFailed
      else Inr (h, slice_of 74 90 payload, slice_of 90 122 payload))))"

text \<open>The closure of \<open>receive_verify\<close>: everything from the cookie check to the signed packet.\<close>

definition ClientMachine_open_auth ::
    "crypto \<Rightarrow> client_machine \<Rightarrow> bytes \<Rightarrow> u64 \<Rightarrow> client_material \<Rightarrow> bytes \<Rightarrow>
       SessionError + header \<times> bytes \<times> bytes \<times> bytes \<times> bytes" where
  "ClientMachine_open_auth c m packet scid material opening =
     (let cfg = cl_config m in
      and_then (ClientMachine_validate_verify_cookie c m packet scid material opening)
        (\<lambda>(h, boot, ck).
      let expected_ephemeral = x_public c (cm_ephemeral_secret material);
          placeholder_server =
            \<lparr>id_role = id_role (hc_peer cfg),
             id_service_context = id_service_context (hc_peer cfg),
             id_eid = id_eid (hc_peer cfg), id_public_key = replicate 32 0\<rparr> in
      and_then (transcript_t0 c
          \<lparr>tc_profile = hc_profile cfg, tc_scid = scid, tc_client = hc_local cfg,
           tc_server = placeholder_server, tc_client_ephemeral = expected_ephemeral,
           tc_server_ephemeral = replicate 32 0, tc_client_nonce = cm_nonce material,
           tc_server_nonce = replicate 32 0, tc_boot = boot\<rparr>) (\<lambda>t0.
      let signature = sign_open_auth c (cl_signing_key m) t0;
          body = [id_role (hc_local cfg), id_role (hc_peer cfg)]
            @ u32_to_be_bytes (id_service_context (hc_local cfg))
            @ id_eid (hc_local cfg) @ id_public_key (hc_local cfg) @ expected_ephemeral
            @ cm_nonce material @ boot @ ck @ signature in
      and_then (ClientMachine_packet m scid OPEN_AUTH 0 0 body) (\<lambda>open_auth.
        Inr (h, boot, ck, opening, open_auth)))))"

definition ClientMachine_receive_verify ::
    "crypto \<Rightarrow> client_machine \<Rightarrow> bytes \<Rightarrow> u64 \<Rightarrow> (SessionError + bytes) \<times> client_machine" where
  "ClientMachine_receive_verify c m0 packet now_ms =
     (let (expired, m) = ClientMachine_release_cookie_wait_if_expired m0 now_ms in
      if expired then (Inl UnexpectedMessage, m)
      else case cl_state m of
        CookieWait scid material opening deadline_ms \<Rightarrow>
          if now_ms < deadline_ms then
            (case ClientMachine_open_auth c m packet scid material opening of
               Inr (h, boot, ck, opening, open_auth) \<Rightarrow>
                 (Inr open_auth,
                  m\<lparr>cl_state := AuthWait scid material boot opening h ck open_auth deadline_ms\<rparr>)
             | Inl error \<Rightarrow> (Inl error, m\<lparr>cl_state := Released\<rparr>))
          else (Inl UnexpectedMessage, m)
      | AuthWait scid material boot opening verify_header verify_cookie open_auth deadline_ms \<Rightarrow>
          if now_ms < deadline_ms then
            (case ClientMachine_validate_verify_cookie c m packet scid material opening of
               Inl e \<Rightarrow> (Inl e, m)
             | Inr (h, candidate_boot, candidate_cookie) \<Rightarrow>
                 if h \<noteq> verify_header \<or> candidate_boot \<noteq> boot \<or> candidate_cookie \<noteq> verify_cookie
                 then (Inl AuthFailed, m) else (Inr open_auth, m))
          else (Inl UnexpectedMessage, m)
      | _ \<Rightarrow> (Inl UnexpectedMessage, m))"

text \<open>
  \<open>receive_ack\<close> up to the derived keys: the checks of the OPEN_ACK, the server's signature over
  the transcript, the key exchange and the schedule.
\<close>

definition ClientMachine_check_ack ::
    "crypto \<Rightarrow> client_machine \<Rightarrow> bytes \<Rightarrow> u64 \<Rightarrow> client_material \<Rightarrow> bytes \<Rightarrow> bytes \<Rightarrow>
       SessionError + bytes \<times> bytes \<times> bytes \<times> bytes" where
  "ClientMachine_check_ack c m packet scid material boot open_auth =
     (let cfg = cl_config m in
      and_then (map_err (\<lambda>_. AuthFailed) (unpack_with_budget packet (hc_budget cfg)))
        (\<lambda>(h, payload).
      if h_next_header h \<noteq> NH_SES
         \<or> h_profile h \<noteq> hc_profile cfg
         \<or> h_scid h \<noteq> scid
         \<or> h_flags h \<noteq> 0
         \<or> h_path_slot h \<noteq> 0
         \<or> h_src h \<noteq> hc_destination cfg
         \<or> h_dst h \<noteq> hc_source cfg
      then Inl AuthFailed
      else and_then (SessionMessage_decode payload (hc_profile cfg) (hc_budget cfg)) (\<lambda>ack.
      if sm_typ ack \<noteq> OPEN_ACK then Inl UnexpectedMessage
      else let body = sm_body ack in
      if body ! 0 \<noteq> id_role (hc_peer cfg) \<or> body ! 1 \<noteq> id_role (hc_local cfg)
      then Inl RoleMismatch
      else if u32_from_be_bytes (slice_of 2 6 body) \<noteq> id_service_context (hc_peer cfg)
      then Inl ServiceMismatch
      else if slice_of 6 22 body \<noteq> id_eid (hc_peer cfg)
         \<or> slice_of 22 54 body \<noteq> id_public_key (hc_peer cfg)
      then Inl PinMismatch
      else
        let server_ephemeral = slice_of 54 86 body;
            server_nonce = slice_of 86 118 body;
            signature = slice_of 118 182 body;
            client_ephemeral = x_public c (cm_ephemeral_secret material) in
        and_then (transcript_t0 c
            \<lparr>tc_profile = hc_profile cfg, tc_scid = scid, tc_client = hc_local cfg,
             tc_server = hc_peer cfg, tc_client_ephemeral = client_ephemeral,
             tc_server_ephemeral = server_ephemeral, tc_client_nonce = cm_nonce material,
             tc_server_nonce = server_nonce, tc_boot = boot\<rparr>) (\<lambda>t0.
        and_then (verify_signature c (id_public_key (hc_peer cfg)) (ascii ''R8 OPEN_ACK v1'') t0
            signature) (\<lambda>_.
        and_then (x25519 c (cm_ephemeral_secret material) server_ephemeral) (\<lambda>shared.
        and_then (map_err (\<lambda>_. AuthFailed) (unpack open_auth)) (\<lambda>(_, auth_payload).
        let client_signature = slice_of 166 230 (drop 4 auth_payload);
            hash = transcript_hash c t0 client_signature signature;
            schedule = hkdf_prk_bytes c shared hash in
        and_then (derive_key_from_prk c schedule hash (hc_profile cfg) (id_role (hc_local cfg))
            (id_role (hc_peer cfg)) 0) (\<lambda>send_key.
        and_then (derive_key_from_prk c schedule hash (hc_profile cfg) (id_role (hc_peer cfg))
            (id_role (hc_local cfg)) 0) (\<lambda>receive_key.
          Inr (send_key, receive_key, hash, schedule))))))))))"

definition ClientMachine_receive_ack ::
    "crypto \<Rightarrow> client_machine \<Rightarrow> bytes \<Rightarrow> u64 \<Rightarrow> u64 \<Rightarrow>
       ((SessionError + bytes) \<times> client_machine \<times> u64) option" where
  "ClientMachine_receive_ack c m packet now_ms next_owner =
     (case cl_state m of
        AuthWait scid material boot _ _ _ open_auth deadline_ms \<Rightarrow>
          if now_ms \<ge> deadline_ms then
            Some (Inl Timeout, m\<lparr>cl_state := Released\<rparr>, next_owner)
          else
            (case ClientMachine_check_ack c m packet scid material boot open_auth of
               Inl e \<Rightarrow> Some (Inl e, m, next_owner)
             | Inr (send_key, receive_key, hash, schedule) \<Rightarrow>
                 (case DirectionalSession_new send_key receive_key hash (hc_budget (cl_config m))
                         next_owner of
                    None \<Rightarrow> None
                  | Some (session, next_owner') \<Rightarrow>
                      let cfg = cl_config m;
                          h = session_header (hc_profile cfg) 1 0 scid (hc_source cfg)
                                (hc_destination cfg);
                          plaintext = ascii ''R8 ACCEPT v1'' @ hash in
                      case DirectionalSession_encrypt c session h SESSION_ACCEPT plaintext
                             (hc_budget cfg) of
                        (Inl e, _) \<Rightarrow> Some (Inl e, m, next_owner')
                      | (Inr accept, session') \<Rightarrow>
                          Some (Inr accept,
                            m\<lparr>cl_state := Established scid session'
                                 (if hc_profile cfg = 3 then Some schedule else None) accept\<rparr>,
                            next_owner')))
      | Established _ _ _ cached_accept \<Rightarrow> Some (Inr cached_accept, m, next_owner)
      | _ \<Rightarrow> Some (Inl UnexpectedMessage, m, next_owner))"

section \<open>Data and close\<close>

definition ClientMachine_send_data_with_locs ::
    "crypto \<Rightarrow> client_machine \<Rightarrow> bytes \<Rightarrow> bytes \<Rightarrow> bytes \<Rightarrow>
       (SessionError + bytes) \<times> client_machine" where
  "ClientMachine_send_data_with_locs c m plaintext source destination =
     (case cl_state m of
        Established scid session schedule cached_accept \<Rightarrow>
          let (result, session') = DirectionalSession_encrypt c session
                (session_header (hc_profile (cl_config m)) 1 0 scid source destination)
                SESSION_DATA plaintext (hc_budget (cl_config m)) in
          if result = Inl CounterExhausted then (result, m\<lparr>cl_state := Released\<rparr>)
          else (result, m\<lparr>cl_state := Established scid session' schedule cached_accept\<rparr>)
      | _ \<Rightarrow> (Inl UnexpectedMessage, m))"

definition ClientMachine_send_data ::
    "crypto \<Rightarrow> client_machine \<Rightarrow> bytes \<Rightarrow> (SessionError + bytes) \<times> client_machine" where
  "ClientMachine_send_data c m plaintext =
     ClientMachine_send_data_with_locs c m plaintext (cl_local_loc m) (cl_peer_loc m)"

definition ClientMachine_close ::
    "crypto \<Rightarrow> client_machine \<Rightarrow> u16 \<Rightarrow> (SessionError + bytes) \<times> client_machine" where
  "ClientMachine_close c m code =
     (case cl_state m of
        Established scid session schedule cached_accept \<Rightarrow>
          (case DirectionalSession_encrypt c session
              (session_header (hc_profile (cl_config m)) 1 0 scid (cl_local_loc m) (cl_peer_loc m))
              CLOSE (u16_to_be_bytes code) (hc_budget (cl_config m)) of
             (Inr packet, _) \<Rightarrow> (Inr packet, m\<lparr>cl_state := Released\<rparr>)
           | (Inl error, session') \<Rightarrow>
               if error = CounterExhausted then (Inl CounterExhausted, m\<lparr>cl_state := Released\<rparr>)
               else (Inl error, m\<lparr>cl_state := Established scid session' schedule cached_accept\<rparr>))
      | _ \<Rightarrow> (Inl UnexpectedMessage, m))"

definition ClientMachine_preview_data_with_locs ::
    "crypto \<Rightarrow> client_machine \<Rightarrow> bytes \<Rightarrow> bytes list \<Rightarrow> bytes list \<Rightarrow> SessionError + data_preview" where
  "ClientMachine_preview_data_with_locs c m packet allowed_sources allowed_destinations =
     (let cfg = cl_config m in
      and_then (map_err (\<lambda>_. AuthFailed) (unpack_with_budget packet (hc_budget cfg)))
        (\<lambda>(h, payload).
      and_then (case cl_state m of
          Established scid session _ _ \<Rightarrow>
            if scid = h_scid h then Inr session else Inl UnexpectedMessage
        | _ \<Rightarrow> Inl UnexpectedMessage) (\<lambda>session.
      if h_next_header h \<noteq> NH_SES
         \<or> h_profile h \<noteq> hc_profile cfg
         \<or> h_flags h \<noteq> 1
         \<or> h_path_slot h \<noteq> 0
         \<or> (h_src h \<noteq> cl_peer_loc m \<and> h_src h \<notin> set allowed_sources)
         \<or> (h_dst h \<noteq> cl_local_loc m \<and> h_dst h \<notin> set allowed_destinations)
      then Inl AuthFailed
      else and_then (SessionMessage_decode payload (h_profile h) (hc_budget cfg)) (\<lambda>message.
      if sm_typ message \<noteq> SESSION_DATA then Inl UnexpectedMessage
      else and_then (DirectionalSession_preview c session packet) (\<lambda>commit.
        Inr \<lparr>dp_scid = h_scid h, dp_header = h, dp_commit = commit\<rparr>)))))"

definition ClientMachine_commit_data ::
    "client_machine \<Rightarrow> data_preview \<Rightarrow> (SessionError + bytes) \<times> client_machine" where
  "ClientMachine_commit_data m preview =
     (if h_scid (dp_header preview) \<noteq> dp_scid preview then (Inl Replay, m)
      else case cl_state m of
        Established scid session schedule cached_accept \<Rightarrow>
          if scid = dp_scid preview then
            let (result, session') = DirectionalSession_commit session (dp_commit preview)
            in (result, m\<lparr>cl_state := Established scid session' schedule cached_accept\<rparr>)
          else (Inl Replay, m)
      | _ \<Rightarrow> (Inl Replay, m))"

definition ClientMachine_receive_data ::
    "crypto \<Rightarrow> client_machine \<Rightarrow> bytes \<Rightarrow> (SessionError + bytes) \<times> client_machine" where
  "ClientMachine_receive_data c m packet =
     (case ClientMachine_preview_data_with_locs c m packet [] [] of
        Inl e \<Rightarrow> (Inl e, m)
      | Inr preview \<Rightarrow> ClientMachine_commit_data m preview)"

definition ClientMachine_protected_replay_binding :: "client_machine \<Rightarrow> SessionError + u64" where
  "ClientMachine_protected_replay_binding m =
     (case cl_state m of
        Established _ session _ _ \<Rightarrow> Inr (protected_replay_binding session)
      | _ \<Rightarrow> Inl UnexpectedMessage)"

definition ClientMachine_commit_protected_replay ::
    "client_machine \<Rightarrow> protected_replay_proof \<Rightarrow>
       (SessionError + unit) \<times> client_machine \<times> protected_replay_proof" where
  "ClientMachine_commit_protected_replay m proof =
     (case cl_state m of
        Established scid session schedule cached_accept \<Rightarrow>
          let (result, session', proof') = DirectionalSession_commit_protected_replay session proof
          in (result, m\<lparr>cl_state := Established scid session' schedule cached_accept\<rparr>, proof')
      | _ \<Rightarrow> (Inl Replay, m, proof))"

definition ClientMachine_promote_local_loc :: "client_machine \<Rightarrow> bytes \<Rightarrow> client_machine" where
  "ClientMachine_promote_local_loc m new_loc = m\<lparr>cl_local_loc := new_loc\<rparr>"

definition ClientMachine_promote_peer_loc :: "client_machine \<Rightarrow> bytes \<Rightarrow> client_machine" where
  "ClientMachine_promote_peer_loc m new_loc = m\<lparr>cl_peer_loc := new_loc\<rparr>"

definition ClientMachine_receive_close ::
    "crypto \<Rightarrow> client_machine \<Rightarrow> bytes \<Rightarrow> (SessionError + u16) \<times> client_machine" where
  "ClientMachine_receive_close c m packet =
     (case cl_state m of
        Established scid session schedule cached_accept \<Rightarrow>
          let cfg = cl_config m in
          (case and_then (map_err (\<lambda>_. AuthFailed) (unpack_with_budget packet (hc_budget cfg)))
              (\<lambda>(h, payload).
              and_then (validate_protected_header h (hc_profile cfg) scid (cl_peer_loc m)
                  (cl_local_loc m)) (\<lambda>_.
              and_then (SessionMessage_decode payload (h_profile h) (hc_budget cfg)) (\<lambda>message.
              if sm_typ message \<noteq> CLOSE then Inl UnexpectedMessage else Inr ()))) of
             Inl e \<Rightarrow> (Inl e, m)
           | Inr _ \<Rightarrow>
               (case DirectionalSession_decrypt c session packet of
                  (Inl e, session') \<Rightarrow>
                    (Inl e, m\<lparr>cl_state := Established scid session' schedule cached_accept\<rparr>)
                | (Inr plaintext, session') \<Rightarrow>
                    if length plaintext \<noteq> 2 then
                      (Inl AuthFailed, m\<lparr>cl_state := Established scid session' schedule cached_accept\<rparr>)
                    else (Inr (u16_from_be_bytes plaintext), m\<lparr>cl_state := Released\<rparr>)))
      | _ \<Rightarrow> (Inl UnexpectedMessage, m))"

section \<open>The client as a state machine\<close>

text \<open>How far the handshake has come; no operation ever goes back.\<close>

fun client_phase :: "client_state \<Rightarrow> nat" where
  "client_phase Idle = 0"
| "client_phase (CookieWait _ _ _ _) = 1"
| "client_phase (AuthWait _ _ _ _ _ _ _ _) = 2"
| "client_phase (Established _ _ _ _) = 3"
| "client_phase Released = 4"

text \<open>One call on the client, with any arguments.\<close>

inductive client_step :: "crypto \<Rightarrow> client_machine \<Rightarrow> client_machine \<Rightarrow> bool"
  for c :: crypto where
  start: "ClientMachine_start c m scid material now = (r1, m') \<Longrightarrow> client_step c m m'"
| retry: "ClientMachine_retry m now = (r1, m') \<Longrightarrow> client_step c m m'"
| expire: "client_step c m (ClientMachine_expire m now)"
| verify: "ClientMachine_receive_verify c m packet now = (r1, m') \<Longrightarrow> client_step c m m'"
| ack: "ClientMachine_receive_ack c m packet now n = Some (r1, m', n') \<Longrightarrow> client_step c m m'"
| send: "ClientMachine_send_data_with_locs c m pt src dst = (r1, m') \<Longrightarrow> client_step c m m'"
| close: "ClientMachine_close c m code = (r1, m') \<Longrightarrow> client_step c m m'"
| commit: "ClientMachine_commit_data m pv = (r1, m') \<Longrightarrow> client_step c m m'"
| data: "ClientMachine_receive_data c m packet = (r1, m') \<Longrightarrow> client_step c m m'"
| commit_proof: "ClientMachine_commit_protected_replay m pf = (r2, m', pf') \<Longrightarrow> client_step c m m'"
| receive_close: "ClientMachine_receive_close c m packet = (r3, m') \<Longrightarrow> client_step c m m'"
| bootstrap: "ClientMachine_take_profile3_bootstrap m = (r4, m') \<Longrightarrow> client_step c m m'"
| promote_local: "client_step c m (ClientMachine_promote_local_loc m loc)"
| promote_peer: "client_step c m (ClientMachine_promote_peer_loc m loc)"

lemma commit_data_phase:
  "client_phase (cl_state (snd (ClientMachine_commit_data m pv))) = client_phase (cl_state m)
   \<and> cl_config (snd (ClientMachine_commit_data m pv)) = cl_config m
   \<and> cl_signing_key (snd (ClientMachine_commit_data m pv)) = cl_signing_key m"
  by (auto simp: ClientMachine_commit_data_def Let_def split: client_state.split prod.split)

lemma verify_phase:
  "client_phase (cl_state m) \<le> client_phase (cl_state (snd (ClientMachine_receive_verify c m packet now)))
   \<and> cl_config (snd (ClientMachine_receive_verify c m packet now)) = cl_config m
   \<and> cl_signing_key (snd (ClientMachine_receive_verify c m packet now)) = cl_signing_key m"
  by (auto simp: ClientMachine_receive_verify_def ClientMachine_release_cookie_wait_if_expired_def
      split: client_state.split sum.split prod.split)

lemma ack_phase:
  assumes "ClientMachine_receive_ack c m packet now n = Some (r, m', n')"
  shows "client_phase (cl_state m) \<le> client_phase (cl_state m') \<and> cl_config m' = cl_config m
    \<and> cl_signing_key m' = cl_signing_key m"
  using assms
  by (auto simp: ClientMachine_receive_ack_def Let_def
      split: client_state.splits sum.splits option.splits prod.splits if_splits)

text \<open>A step moves forward and never touches the configuration or the signing key.\<close>

lemma client_step_forward:
  "client_step c m m' \<Longrightarrow>
     client_phase (cl_state m) \<le> client_phase (cl_state m') \<and> cl_config m' = cl_config m
     \<and> cl_signing_key m' = cl_signing_key m"
proof (induction rule: client_step.induct)
  case (start m scid material now r1 m')
  then show ?case
    by (auto simp: ClientMachine_start_def Let_def split: if_splits sum.splits)
next
  case (retry m now r1 m')
  then show ?case
    by (auto simp: ClientMachine_retry_def ClientMachine_release_cookie_wait_if_expired_def
        split: client_state.splits if_splits)
next
  case (verify m packet now r1 m')
  then show ?case using verify_phase [of m c packet now] by simp
next
  case (ack m packet now n r1 m' n')
  then show ?case by (rule ack_phase)
next
  case (commit m pv r1 m')
  then show ?case using commit_data_phase [of m pv] by simp
next
  case (data m packet r1 m')
  then show ?case
    using commit_data_phase [of m] by (auto simp: ClientMachine_receive_data_def split: sum.splits) (metis snd_conv order_refl)+
qed (auto simp: ClientMachine_expire_def ClientMachine_send_data_with_locs_def
    ClientMachine_close_def ClientMachine_commit_protected_replay_def
    ClientMachine_receive_close_def ClientMachine_take_profile3_bootstrap_def
    ClientMachine_promote_local_loc_def ClientMachine_promote_peer_loc_def Let_def
    split: client_state.splits sum.splits option.splits prod.splits if_splits)

definition beyond :: "nat \<Rightarrow> client_machine \<Rightarrow> bool" where
  "beyond k m \<longleftrightarrow> k \<le> client_phase (cl_state m)"

interpretation client: preserved "client_step c" "beyond k"
  by unfold_locales (auto simp: beyond_def dest: client_step_forward)

definition sample_client :: client_machine where
  "sample_client =
     \<lparr>cl_config = sample_config 1 2, cl_signing_key = [1], cl_state = Idle,
      cl_local_loc = replicate 16 1, cl_peer_loc = replicate 16 2\<rparr>"

definition sample_client_material :: client_material where
  "sample_client_material = \<lparr>cm_ephemeral_secret = [3], cm_nonce = replicate 32 6\<rparr>"

section \<open>Properties\<close>

text \<open>The client handshake only moves forward (idle, cookie wait, authentication wait,
  established, released): no sequence of calls leads back, and in particular a released client
  stays released.\<close>

theorem client_never_goes_back:
  assumes "(client_step c)\<^sup>*\<^sup>* m m'"
  shows "client_phase (cl_state m) \<le> client_phase (cl_state m')
    \<and> (cl_state m = Released \<longrightarrow> cl_state m' = Released)"
proof -
  have "beyond (client_phase (cl_state m)) m'"
    using client.run_keeps [OF assms, of "client_phase (cl_state m)"] by (simp add: beyond_def)
  then have "client_phase (cl_state m) \<le> client_phase (cl_state m')" by (simp add: beyond_def)
  moreover from this have "cl_state m = Released \<longrightarrow> cl_state m' = Released"
    by (cases "cl_state m'") auto
  ultimately show ?thesis by blast
qed

theorem client_never_goes_back_witness:
  "let m = sample_client\<lparr>cl_state := CookieWait 7 sample_client_material [] 10\<rparr>;
       m' = ClientMachine_expire m 10
   in client_phase (cl_state m) \<le> client_phase (cl_state m') \<and> cl_state m' = Released"
proof -
  let ?m = "sample_client\<lparr>cl_state := CookieWait 7 sample_client_material [] 10\<rparr>"
  have "(client_step sample_crypto)\<^sup>*\<^sup>* ?m (ClientMachine_expire ?m 10)"
    by (rule r_into_rtranclp) (rule client_step.expire)
  from client_never_goes_back [OF this] show ?thesis
    by (simp add: Let_def ClientMachine_expire_def)
qed

end
