(* ===== verification/Limiter.thy ===== *)
theory Limiter
  imports Session_Types
begin

text \<open>
  \<open>PrevalidationLimiter\<close> of \<open>rust/crates/r8-session/src/lib.rs\<close> (lines 2724-2835): the token bucket and the
  per-source byte accounts that stand before the stateless cookie exchange. \<open>admit\<close> changes the
  limiter on its error paths too, so it returns the result and the new limiter on every path.
  \<open>as u32\<close> keeps the low 32 bits, as in Rust.
\<close>

record source_allowance =
  sa_source :: bytes
  sa_window_started_ms :: u64
  sa_last_seen_ms :: u64
  sa_request_bytes :: nat
  sa_response_bytes :: nat

record limiter =
  pl_sources :: "source_allowance list"
  pl_tokens :: u32
  pl_token_second :: u64

definition PrevalidationLimiter_new :: limiter where
  "PrevalidationLimiter_new = \<lparr>pl_sources = [], pl_tokens = 2000, pl_token_second = 0\<rparr>"

definition refill :: "limiter \<Rightarrow> u64 \<Rightarrow> limiter" where
  "refill l now_ms =
     (let second = now_ms div 1000 in
      if second > pl_token_second l then
        let elapsed = second - pl_token_second l in
        l\<lparr>pl_tokens := min (saturating_add (pl_tokens l) (ucast (saturating_mul elapsed 1000))) 2000,
          pl_token_second := second\<rparr>
      else l)"

text \<open>The source's entry among those still kept: its index and the list that holds it.\<close>

definition allowance_slot ::
    "source_allowance list \<Rightarrow> bytes \<Rightarrow> u64 \<Rightarrow> (nat \<times> source_allowance list) option" where
  "allowance_slot kept source now_ms =
     (case position (\<lambda>e. sa_source e = source) kept of
        Some index \<Rightarrow> Some (index, kept)
      | None \<Rightarrow>
          if length kept < 4096 then
            Some (length kept,
              kept @ [\<lparr>sa_source = source, sa_window_started_ms = now_ms,
                       sa_last_seen_ms = now_ms, sa_request_bytes = 0, sa_response_bytes = 0\<rparr>])
          else None)"

definition open_window :: "source_allowance \<Rightarrow> u64 \<Rightarrow> source_allowance" where
  "open_window entry now_ms =
     (if saturating_sub now_ms (sa_window_started_ms entry) \<ge> 20000
      then entry\<lparr>sa_window_started_ms := now_ms, sa_request_bytes := 0, sa_response_bytes := 0\<rparr>
      else entry)"

definition PrevalidationLimiter_admit ::
    "limiter \<Rightarrow> bytes \<Rightarrow> nat \<Rightarrow> nat \<Rightarrow> u64 \<Rightarrow> (SessionError + unit) \<times> limiter" where
  "PrevalidationLimiter_admit l0 source request_bytes response_bytes now_ms =
     (let l = refill l0 now_ms in
      if pl_tokens l = 0 \<or> response_bytes > request_bytes then (Inl Capacity, l)
      else
        let kept = filter (\<lambda>e. saturating_sub now_ms (sa_last_seen_ms e) < 20000) (pl_sources l) in
        case allowance_slot kept source now_ms of
          None \<Rightarrow> (Inl Capacity, l\<lparr>pl_sources := kept\<rparr>)
        | Some (index, sources) \<Rightarrow>
            let entry = open_window (sources ! index) now_ms;
                l = l\<lparr>pl_sources := sources[index := entry]\<rparr> in
            case usize_checked_add (sa_request_bytes entry) request_bytes of
              None \<Rightarrow> (Inl Capacity, l)
            | Some requests \<Rightarrow>
                (case usize_checked_add (sa_response_bytes entry) response_bytes of
                   None \<Rightarrow> (Inl Capacity, l)
                 | Some responses \<Rightarrow>
                     if responses > requests then (Inl Capacity, l)
                     else (Inr (),
                       l\<lparr>pl_sources := sources[index := entry\<lparr>sa_request_bytes := requests,
                             sa_response_bytes := responses, sa_last_seen_ms := now_ms\<rparr>],
                         pl_tokens := pl_tokens l - 1\<rparr>)))"

section \<open>Invariant\<close>

definition fair_account :: "source_allowance \<Rightarrow> bool" where
  "fair_account e \<longleftrightarrow> sa_response_bytes e \<le> sa_request_bytes e"

definition limiter_inv :: "limiter \<Rightarrow> bool" where
  "limiter_inv l \<longleftrightarrow>
     pl_tokens l \<le> 2000 \<and> length (pl_sources l) \<le> 4096
     \<and> distinct (map sa_source (pl_sources l)) \<and> (\<forall>e \<in> set (pl_sources l). fair_account e)"

text \<open>One call of the limiter, whatever its arguments and outcome.\<close>

definition limiter_step :: "limiter \<Rightarrow> limiter \<Rightarrow> bool" where
  "limiter_step l l' \<longleftrightarrow>
     (\<exists>source rq rs now. l' = snd (PrevalidationLimiter_admit l source rq rs now))"

lemma refill_sources [simp]: "pl_sources (refill l now) = pl_sources l"
  by (simp add: refill_def Let_def)

lemma refill_cap: "pl_tokens l \<le> 2000 \<Longrightarrow> pl_tokens (refill l now) \<le> 2000"
  by (simp add: refill_def Let_def)

lemma distinct_snoc_source:
  "distinct (map sa_source es) \<Longrightarrow> position (\<lambda>e. sa_source e = s) es = None \<Longrightarrow> sa_source x = s \<Longrightarrow>
     distinct (map sa_source (es @ [x]))"
  by (auto simp: position_None)

lemma update_source_inv:
  assumes "length es \<le> 4096" "distinct (map sa_source es)" "\<forall>e \<in> set es. fair_account e"
    and "i < length es" "sa_source x = sa_source (es ! i)" "fair_account x"
  shows "length (es[i := x]) \<le> 4096 \<and> distinct (map sa_source (es[i := x]))
    \<and> (\<forall>e \<in> set (es[i := x]). fair_account e)"
proof -
  have "map sa_source (es[i := x]) = map sa_source es"
    using assms(4,5) by (metis list_update_id map_update nth_map)
  then show ?thesis
    using assms set_update_subset_insert [of es i x] by (auto simp del: map_update)
qed

definition sources_inv :: "source_allowance list \<Rightarrow> bool" where
  "sources_inv es \<longleftrightarrow>
     length es \<le> 4096 \<and> distinct (map sa_source es) \<and> (\<forall>e \<in> set es. fair_account e)"

lemma limiter_inv_iff: "limiter_inv l \<longleftrightarrow> pl_tokens l \<le> 2000 \<and> sources_inv (pl_sources l)"
  by (auto simp: limiter_inv_def sources_inv_def)

lemma sources_inv_filter: "sources_inv es \<Longrightarrow> sources_inv (filter p es)"
  by (auto simp: sources_inv_def distinct_map_filter intro: le_trans [OF length_filter_le])

lemma allowance_slot_inv:
  assumes "sources_inv es" "allowance_slot es source now = Some (i, es')"
  shows "sources_inv es' \<and> i < length es' \<and> sa_source (es' ! i) = source"
proof (cases "position (\<lambda>e. sa_source e = source) es")
  case None
  with assms show ?thesis
    by (auto simp: allowance_slot_def sources_inv_def fair_account_def position_None
        split: if_splits)
next
  case (Some k)
  with assms position_Some [OF Some] show ?thesis by (auto simp: allowance_slot_def)
qed

lemma open_window_fair: "fair_account e \<Longrightarrow> fair_account (open_window e now)"
  by (simp add: open_window_def fair_account_def)

lemma open_window_source [simp]: "sa_source (open_window e now) = sa_source e"
  by (simp add: open_window_def)

lemma sources_inv_update:
  assumes "sources_inv es" "i < length es" "sa_source x = sa_source (es ! i)" "fair_account x"
  shows "sources_inv (es[i := x])"
  using update_source_inv [of es i x] assms by (simp add: sources_inv_def)

text \<open>Every way a call can end, with the entry it worked on.\<close>

lemma admit_outcomes:
  assumes "sources_inv (pl_sources l0)"
    and "PrevalidationLimiter_admit l0 source rq rs now = (r, l')"
  shows "sources_inv (pl_sources l')
    \<and> (r = Inl Capacity \<and> pl_tokens l' = pl_tokens (refill l0 now)
       \<or> r = Inr () \<and> pl_tokens (refill l0 now) \<noteq> 0
         \<and> pl_tokens l' = pl_tokens (refill l0 now) - 1 \<and> rs \<le> rq)
    \<and> pl_token_second l' = pl_token_second (refill l0 now)"
proof -
  let ?l = "refill l0 now"
  let ?kept = "filter (\<lambda>e. saturating_sub now (sa_last_seen_ms e) < 20000) (pl_sources ?l)"
  have kept: "sources_inv ?kept" using assms(1) by (simp add: sources_inv_filter)
  show ?thesis
  proof (cases "pl_tokens ?l = 0 \<or> rs > rq")
    case True
    with assms show ?thesis by (auto simp: PrevalidationLimiter_admit_def)
  next
    case False
    show ?thesis
    proof (cases "allowance_slot ?kept source now")
      case None
      with assms False kept show ?thesis by (auto simp: PrevalidationLimiter_admit_def)
    next
      case (Some p)
      obtain i es where p: "p = (i, es)" by force
      note slot = allowance_slot_inv [OF kept Some [unfolded p]]
      let ?e = "open_window (es ! i) now"
      have fair: "fair_account ?e"
        using slot by (auto simp: sources_inv_def intro: open_window_fair)
      have upd: "sources_inv (es[i := x])" if "sa_source x = sa_source ?e" "fair_account x" for x
        using that slot by (intro sources_inv_update) auto
      have upd2: "sources_inv (es[i := ?e\<lparr>sa_request_bytes := a, sa_response_bytes := b,
          sa_last_seen_ms := now\<rparr>])" if "b \<le> a" for a b
        using that by (intro upd) (simp_all add: fair_account_def)
      show ?thesis
        using assms(2) False Some p upd [OF refl fair] upd2
        by (auto simp: PrevalidationLimiter_admit_def Let_def split: option.splits if_splits)
    qed
  qed
qed

lemma admit_keeps_inv: "limiter_inv l \<Longrightarrow> limiter_step l l' \<Longrightarrow> limiter_inv l'"
proof -
  assume inv: "limiter_inv l" and "limiter_step l l'"
  then obtain source rq rs now r where
    a: "PrevalidationLimiter_admit l source rq rs now = (r, l')"
    unfolding limiter_step_def by (metis prod.collapse)
  have "sources_inv (pl_sources l)" and t: "pl_tokens (refill l now) \<le> 2000"
    using inv refill_cap by (auto simp: limiter_inv_iff)
  from admit_outcomes [OF this(1) a] t show "limiter_inv l'"
    by (auto simp: limiter_inv_iff word_le_nat_alt unat_minus_one)
qed

interpretation limiter: preserved limiter_step limiter_inv
  by unfold_locales (rule admit_keeps_inv)

lemma limiter_inv_new: "limiter_inv PrevalidationLimiter_new"
  by (simp add: limiter_inv_def PrevalidationLimiter_new_def)

section \<open>Rate\<close>

text \<open>A sequence of calls, and how many of them were admitted.\<close>

fun run_admit :: "limiter \<Rightarrow> (bytes \<times> nat \<times> nat \<times> u64) list \<Rightarrow> limiter \<times> nat" where
  "run_admit l [] = (l, 0)"
| "run_admit l ((source, rq, rs, now) # calls) =
     (let (r, l') = PrevalidationLimiter_admit l source rq rs now;
          (l'', n) = run_admit l' calls
      in (l'', if is_ok r then Suc n else n))"

lemma u64_mul_1000: "unat (saturating_mul e 1000 :: u64) \<le> unat e * 1000"
proof (cases "unat e * unat (1000 :: u64) < 2 ^ 64")
  case True
  then show ?thesis by (simp add: saturating_mul_def unat_mult_lem [THEN iffD1])
next
  case False
  then have "2 ^ 64 \<le> unat e * 1000" by simp
  moreover have "unat (saturating_mul e 1000) < 2 ^ 64"
    using unsigned_less [where w = "saturating_mul e 1000"] by simp
  ultimately show ?thesis by simp
qed

lemma refill_rate:
  "unat (pl_tokens (refill l now)) + 1000 * unat (pl_token_second l)
     \<le> unat (pl_tokens l) + 1000 * unat (pl_token_second (refill l now))
   \<and> pl_token_second l \<le> pl_token_second (refill l now)"
proof (cases "now div 1000 > pl_token_second l")
  case True
  let ?e = "now div 1000 - pl_token_second l"
  have e: "unat ?e + unat (pl_token_second l) = unat (now div 1000)"
    using True by (simp add: unat_sub word_less_nat_alt word_le_nat_alt)
  have "unat (min (saturating_add (pl_tokens l) (ucast (saturating_mul ?e 1000))) 2000)
      \<le> unat (saturating_add (pl_tokens l) (ucast (saturating_mul ?e 1000) :: u32))"
    by (simp add: min_def word_le_nat_alt)
  also have "\<dots> \<le> unat (pl_tokens l) + unat (ucast (saturating_mul ?e 1000) :: u32)"
    by (simp add: unat_saturating_add)
  also have "unat (ucast (saturating_mul ?e 1000) :: u32) \<le> unat (saturating_mul ?e 1000)"
    by (simp add: unsigned_ucast_eq take_bit_nat_less_eq_self)
  also have "\<dots> \<le> unat ?e * 1000" by (rule u64_mul_1000)
  finally have "unat (pl_tokens (refill l now)) \<le> unat (pl_tokens l) + unat ?e * 1000"
    using True by (simp add: refill_def Let_def)
  moreover have "pl_token_second (refill l now) = now div 1000"
    using True by (simp add: refill_def Let_def)
  ultimately show ?thesis using e True by (auto simp: algebra_simps less_imp_le)
next
  case False
  then show ?thesis by (simp add: refill_def Let_def)
qed

lemma run_admit_rate:
  assumes "limiter_inv l" "run_admit l calls = (l', n)"
  shows "n + unat (pl_tokens l') + 1000 * unat (pl_token_second l)
      \<le> unat (pl_tokens l) + 1000 * unat (pl_token_second l')"
  using assms
proof (induction calls arbitrary: l n)
  case Nil
  then show ?case by simp
next
  case (Cons a calls)
  obtain source rq rs now where a: "a = (source, rq, rs, now)" by (cases a)
  obtain r l1 where s: "PrevalidationLimiter_admit l source rq rs now = (r, l1)" by force
  obtain n1 where n1: "run_admit l1 calls = (l', n1)" "n = (if is_ok r then Suc n1 else n1)"
    using Cons.prems(2) s a by (auto split: prod.splits)
  have "limiter_step l l1" unfolding limiter_step_def using s by (metis snd_conv)
  with Cons.prems(1) have "limiter_inv l1" by (rule admit_keeps_inv)
  note ih = Cons.IH [OF this n1(1)]
  have "sources_inv (pl_sources l)" using Cons.prems(1) by (simp add: limiter_inv_iff)
  from admit_outcomes [OF this s] have
    "(if is_ok r then 1 else 0) + unat (pl_tokens l1) \<le> unat (pl_tokens (refill l now))"
    "pl_token_second l1 = pl_token_second (refill l now)"
    by (auto simp: unat_minus_one unat_gt_0 Suc_le_eq)
  with ih refill_rate [of l now] n1(2) show ?case by (auto split: if_splits)
qed

section \<open>Admission\<close>

text \<open>The account a call is booked on: the source's own entry if it is still kept, else empty.\<close>

definition account_of :: "limiter \<Rightarrow> bytes \<Rightarrow> u64 \<Rightarrow> nat \<times> nat" where
  "account_of l source now_ms =
     (let kept = filter (\<lambda>e. saturating_sub now_ms (sa_last_seen_ms e) < 20000) (pl_sources l) in
      case find (\<lambda>e. sa_source e = source) kept of
        None \<Rightarrow> (0, 0)
      | Some e \<Rightarrow> let e' = open_window e now_ms in (sa_request_bytes e', sa_response_bytes e'))"

definition known_sources :: "limiter \<Rightarrow> u64 \<Rightarrow> bytes list" where
  "known_sources l now_ms =
     map sa_source (filter (\<lambda>e. saturating_sub now_ms (sa_last_seen_ms e) < 20000) (pl_sources l))"

lemma allowance_slot_exists:
  "source \<in> sa_source ` set kept \<or> length kept < 4096 \<Longrightarrow>
     \<exists>i es. allowance_slot kept source now = Some (i, es)"
  by (auto simp: allowance_slot_def position_None split: option.split)

lemma allowance_slot_account:
  assumes "allowance_slot kept source now = Some (i, es)"
  shows "(case find (\<lambda>e. sa_source e = source) kept of None \<Rightarrow> (0, 0)
          | Some e \<Rightarrow> (sa_request_bytes (open_window e now), sa_response_bytes (open_window e now)))
    = (sa_request_bytes (open_window (es ! i) now), sa_response_bytes (open_window (es ! i) now))"
  using assms
  by (auto simp: allowance_slot_def position_find open_window_def saturating_sub_def
      split: option.splits if_splits)

lemma admit_ok:
  assumes "limiter_inv l" "pl_tokens (refill l now) \<noteq> 0" "rs \<le> rq"
    and "source \<in> set (known_sources l now) \<or> length (known_sources l now) < 4096"
    and "fst (account_of l source now) + rq < 2 ^ 64"
  shows "fst (PrevalidationLimiter_admit l source rq rs now) = Inr ()"
proof -
  let ?kept = "filter (\<lambda>e. saturating_sub now (sa_last_seen_ms e) < 20000) (pl_sources l)"
  obtain i es where slot: "allowance_slot ?kept source now = Some (i, es)"
    using allowance_slot_exists [of source ?kept now] assms(4) by (auto simp: known_sources_def)
  let ?e = "open_window (es ! i) now"
  have "sources_inv ?kept" using assms(1) by (simp add: limiter_inv_iff sources_inv_filter)
  from allowance_slot_inv [OF this slot] have "fair_account (es ! i)"
    by (auto simp: sources_inv_def)
  then have fair: "sa_response_bytes ?e \<le> sa_request_bytes ?e"
    using open_window_fair by (simp add: fair_account_def)
  have "account_of l source now = (sa_request_bytes ?e, sa_response_bytes ?e)"
    unfolding account_of_def Let_def allowance_slot_account [OF slot, symmetric] ..
  with assms(5) have "sa_request_bytes ?e + rq < 2 ^ 64" by simp
  moreover from this have "sa_response_bytes ?e + rs < 2 ^ 64" using fair assms(3) by linarith
  moreover have "sa_response_bytes ?e + rs \<le> sa_request_bytes ?e + rq"
    using fair assms(3) by simp
  ultimately show ?thesis
    using assms(2,3) slot by (simp add: PrevalidationLimiter_admit_def Let_def)
qed

section \<open>Properties\<close>

text \<open>However the limiter is called, it never holds more than 2000 tokens or 4096 sources, keeps
  one account per source, and no account ever has more response bytes than request bytes: the
  stateless exchange cannot be used to amplify traffic.\<close>

theorem limiter_invariant:
  assumes "limiter_step\<^sup>*\<^sup>* PrevalidationLimiter_new l"
  shows "pl_tokens l \<le> 2000 \<and> length (pl_sources l) \<le> 4096
    \<and> distinct (map sa_source (pl_sources l))
    \<and> (\<forall>e \<in> set (pl_sources l). sa_response_bytes e \<le> sa_request_bytes e)"
  using limiter.run_keeps [OF assms limiter_inv_new] by (simp add: limiter_inv_def fair_account_def)

theorem limiter_invariant_witness:
  "let l = snd (PrevalidationLimiter_admit PrevalidationLimiter_new [7] 200 170 5000)
   in pl_sources l \<noteq> [] \<and> (\<forall>e \<in> set (pl_sources l). sa_response_bytes e \<le> sa_request_bytes e)"
proof -
  let ?l = "snd (PrevalidationLimiter_admit PrevalidationLimiter_new [7] 200 170 5000)"
  have "limiter_step PrevalidationLimiter_new ?l" unfolding limiter_step_def by blast
  then have "\<forall>e \<in> set (pl_sources ?l). sa_response_bytes e \<le> sa_request_bytes e"
    using limiter_invariant [of ?l] by blast
  moreover have "pl_sources ?l \<noteq> []"
    by (simp add: PrevalidationLimiter_admit_def PrevalidationLimiter_new_def refill_def
        allowance_slot_def open_window_def saturating_sub_def saturating_add_def
        saturating_mul_def Let_def)
  ultimately show ?thesis by (simp add: Let_def)
qed

text \<open>The admission rate is bounded: from a fresh limiter, whatever the calls and their clock
  readings, at most 2000 responses are admitted plus 1000 per second the limiter's clock has
  advanced.\<close>

theorem limiter_rate_bound:
  assumes "run_admit PrevalidationLimiter_new calls = (l, n)"
  shows "n \<le> 2000 + 1000 * unat (pl_token_second l)"
  using run_admit_rate [OF limiter_inv_new assms] by (simp add: PrevalidationLimiter_new_def)

theorem limiter_rate_bound_witness:
  "\<exists>l n. run_admit PrevalidationLimiter_new [([7], 200, 170, 0), ([8], 100, 170, 0)] = (l, n)
     \<and> n \<le> 2000 + 1000 * unat (pl_token_second l)"
proof -
  obtain l n where "run_admit PrevalidationLimiter_new [([7], 200, 170, 0), ([8], 100, 170, 0)] = (l, n)"
    by (meson surj_pair)
  with limiter_rate_bound [OF this] show ?thesis by blast
qed

text \<open>The limiter does admit: with a token left after the refill, a response no longer than its
  request, room for the source and no overflow of its byte account, the request is admitted;
  the cumulative byte check never refuses what the per-request check let through.\<close>

theorem limiter_admits:
  assumes "limiter_inv l" "pl_tokens (refill l now) \<noteq> 0" "rs \<le> rq"
    and "source \<in> set (known_sources l now) \<or> length (known_sources l now) < 4096"
    and "fst (account_of l source now) + rq < 2 ^ 64"
  shows "fst (PrevalidationLimiter_admit l source rq rs now) = Inr ()"
  using assms by (rule admit_ok)

theorem limiter_admits_witness:
  "fst (PrevalidationLimiter_admit PrevalidationLimiter_new [7] 170 170 999) = Inr ()"
  using limiter_admits [OF limiter_inv_new, of 999 170 170 "[7]"]
  by (simp add: PrevalidationLimiter_new_def refill_def known_sources_def account_of_def)

end
