(* ===== verification/Server_Machine.thy ===== *)
theory Server_Machine
  imports Handshake Limiter
begin

text \<open>
  \<open>ServerMachine\<close> of \<open>rust/crates/r8-session/src/lib.rs\<close> (lines 2113-2720): the stateless cookie
  reply, the pending and the established tables with their limits and deadlines, and the
  protected data path per session. Methods return their result and the machine; the one that
  creates a session threads the owner allocator and is \<open>None\<close> when that panics. Every session a
  table holds keeps its receive lease, so previews taken from it are readable.
\<close>

record pending_session =
  ps_scid :: u64
  ps_opening :: bytes
  ps_cached_ack :: bytes
  ps_binding :: ObservedBinding
  ps_deadline_ms :: u64
  ps_session :: directional_session
  ps_schedule :: "bytes option"

record established_session =
  se_scid :: u64
  se_session :: directional_session
  se_schedule :: "bytes option"
  se_opening :: bytes
  se_cached_ack :: bytes
  se_binding :: ObservedBinding
  se_accepted :: bytes
  se_last_active_ms :: u64

record server_machine =
  sv_config :: handshake_config
  sv_signing_key :: bytes
  sv_material :: server_material
  sv_pending :: "pending_session list"
  sv_established :: "established_session list"
  sv_local_loc :: bytes
  sv_peer_loc :: bytes

definition ServerMachine_new ::
    "crypto \<Rightarrow> handshake_config \<Rightarrow> bytes \<Rightarrow> server_material \<Rightarrow> SessionError + server_machine" where
  "ServerMachine_new c cfg signing_key material =
     and_then (HandshakeConfig_validate c cfg) (\<lambda>_.
     if ed_verifying_key c signing_key \<noteq> id_public_key (hc_local cfg) then Inl PinMismatch
     else Inr \<lparr>sv_config = cfg, sv_signing_key = signing_key, sv_material = material,
               sv_pending = [], sv_established = [], sv_local_loc = hc_destination cfg,
               sv_peer_loc = hc_source cfg\<rparr>)"

definition ServerMachine_packet ::
    "server_machine \<Rightarrow> u64 \<Rightarrow> u8 \<Rightarrow> u8 \<Rightarrow> u8 \<Rightarrow> bytes \<Rightarrow> SessionError + bytes" where
  "ServerMachine_packet m scid typ flags slot body =
     machine_packet (sv_config m) (hc_destination (sv_config m)) (hc_source (sv_config m))
       scid typ flags slot body"

definition ServerMachine_take_profile3_bootstrap ::
    "server_machine \<Rightarrow> u64 \<Rightarrow> (SessionError + profile3_bootstrap) \<times> server_machine" where
  "ServerMachine_take_profile3_bootstrap m scid =
     (if hc_profile (sv_config m) \<noteq> 3 then (Inl Profile, m)
      else case position (\<lambda>e. se_scid e = scid) (sv_established m) of
        None \<Rightarrow> (Inl UnexpectedMessage, m)
      | Some index \<Rightarrow>
          let entry = sv_established m ! index in
          (case se_schedule entry of
             Some schedule \<Rightarrow>
               (Inr (Profile3Bootstrap_new (se_scid entry) (sv_local_loc m) (sv_peer_loc m)
                  (hc_budget (sv_config m)) (id_role (hc_local (sv_config m)))
                  (id_role (hc_peer (sv_config m))) (ds_transcript_hash (se_session entry))
                  schedule (se_session entry)),
                m\<lparr>sv_established := remove_at index (sv_established m)\<rparr>)
           | None \<Rightarrow> (Inl UnexpectedMessage, m)))"

definition ServerMachine_validate_handshake_header ::
    "server_machine \<Rightarrow> header \<Rightarrow> u64 \<Rightarrow> SessionError + unit" where
  "ServerMachine_validate_handshake_header m h scid =
     (let cfg = sv_config m in
      if h_next_header h \<noteq> NH_SES \<or> h_profile h \<noteq> hc_profile cfg \<or> h_scid h \<noteq> scid
         \<or> h_flags h \<noteq> 0 \<or> h_path_slot h \<noteq> 0 \<or> h_src h \<noteq> hc_source cfg
         \<or> h_dst h \<noteq> hc_destination cfg
      then Inl AuthFailed else Inr ())"

definition ServerMachine_client_identity ::
    "crypto \<Rightarrow> server_machine \<Rightarrow> bytes \<Rightarrow> SessionError + identity" where
  "ServerMachine_client_identity c m body =
     (let cfg = sv_config m in
      if body ! 0 \<noteq> id_role (hc_peer cfg) \<or> body ! 1 \<noteq> id_role (hc_local cfg)
      then Inl RoleMismatch
      else if u32_from_be_bytes (slice_of 2 6 body) \<noteq> id_service_context (hc_peer cfg)
      then Inl ServiceMismatch
      else
        let e = slice_of 6 22 body; public_key = slice_of 22 54 body in
        if public_key \<noteq> id_public_key (hc_peer cfg) then Inl PinMismatch
        else
          let identity = \<lparr>id_role = body ! 0,
                id_service_context = id_service_context (hc_peer cfg), id_eid = e,
                id_public_key = public_key\<rparr> in
          and_then (Identity_validate c identity) (\<lambda>_. Inr identity))"

definition ServerMachine_receive_open ::
    "crypto \<Rightarrow> server_machine \<Rightarrow> bytes \<Rightarrow> ObservedBinding \<Rightarrow> u64 \<Rightarrow> SessionError + bytes" where
  "ServerMachine_receive_open c m packet binding bucket =
     (let cfg = sv_config m in
      and_then (ObservedBinding_validate binding) (\<lambda>_.
      and_then (map_err (\<lambda>_. AuthFailed) (unpack_with_budget packet (hc_budget cfg)))
        (\<lambda>(h, payload).
      and_then (ServerMachine_validate_handshake_header m h (h_scid h)) (\<lambda>_.
      and_then (SessionMessage_decode payload (hc_profile cfg) (hc_budget cfg)) (\<lambda>opening.
      if sm_typ opening \<noteq> OPEN then Inl UnexpectedMessage
      else let body = sm_body opening in
      and_then (ServerMachine_client_identity c m body) (\<lambda>client.
      let ephemeral = slice_of 54 86 body in
      and_then (cookie_input c
          \<lparr>cc_binding = binding, cc_client = client, cc_server = hc_local cfg,
           cc_scid = h_scid h, cc_client_ephemeral = ephemeral,
           cc_boot = svm_boot_instance (sv_material m), cc_bucket = bucket,
           cc_server_context_id = hc_server_context_id cfg\<rparr>) (\<lambda>input.
      let ck = cookie c (svm_current_cookie_key (sv_material m)) input in
      ServerMachine_packet m (h_scid h) VERIFY_COOKIE 0 0
        ([id_role (hc_local cfg), id_role client]
         @ u32_to_be_bytes (id_service_context (hc_local cfg)) @ id_public_key client
         @ sha256 c ephemeral @ svm_boot_instance (sv_material m) @ ck))))))))"

definition ServerMachine_receive_open_limited ::
    "crypto \<Rightarrow> server_machine \<Rightarrow> bytes \<Rightarrow> ObservedBinding \<Rightarrow> bytes \<Rightarrow> u64 \<Rightarrow> u64 \<Rightarrow> limiter \<Rightarrow>
       (SessionError + bytes) \<times> limiter" where
  "ServerMachine_receive_open_limited c m packet binding opaque_source now_ms bucket l =
     (case PrevalidationLimiter_admit l opaque_source (length packet) 170 now_ms of
        (Inl e, l') \<Rightarrow> (Inl e, l')
      | (Inr _, l') \<Rightarrow> (ServerMachine_receive_open c m packet binding bucket, l'))"

definition ServerMachine_expire :: "server_machine \<Rightarrow> u64 \<Rightarrow> server_machine" where
  "ServerMachine_expire m now_ms =
     m\<lparr>sv_pending := filter (\<lambda>e. now_ms < ps_deadline_ms e) (sv_pending m),
       sv_established := filter (\<lambda>e. saturating_sub now_ms (se_last_active_ms e) < 120000)
         (sv_established m)\<rparr>"

definition ServerMachine_is_live :: "server_machine \<Rightarrow> u64 \<Rightarrow> bool" where
  "ServerMachine_is_live m scid \<longleftrightarrow>
     list_ex (\<lambda>e. ps_scid e = scid) (sv_pending m) \<or> list_ex (\<lambda>e. se_scid e = scid) (sv_established m)"

definition ServerMachine_rotate_cookie_key :: "server_machine \<Rightarrow> bytes \<Rightarrow> u64 \<Rightarrow> server_machine" where
  "ServerMachine_rotate_cookie_key m new_key now_ms =
     m\<lparr>sv_material := (sv_material m)
        \<lparr>svm_previous_cookie_key := svm_current_cookie_key (sv_material m),
         svm_current_cookie_key := new_key, svm_previous_key_rotated_ms := now_ms\<rparr>\<rparr>"

definition ServerMachine_restart :: "server_machine \<Rightarrow> server_material \<Rightarrow> server_machine" where
  "ServerMachine_restart m material =
     m\<lparr>sv_pending := [], sv_established := [], sv_material := material\<rparr>"

section \<open>OPEN_AUTH\<close>

text \<open>
  The first half of \<open>receive_open_auth\<close>: the message, and the answer for a connection id that is
  already known (\<open>Inr (Inl ack)\<close>), or the header and body of a new one (\<open>Inr (Inr ...)\<close>).
\<close>

definition ServerMachine_lookup_open_auth ::
    "server_machine \<Rightarrow> bytes \<Rightarrow> ObservedBinding \<Rightarrow> SessionError + (bytes + header \<times> bytes)" where
  "ServerMachine_lookup_open_auth m packet binding =
     (let cfg = sv_config m in
      and_then (map_err (\<lambda>_. AuthFailed) (unpack_with_budget packet (hc_budget cfg)))
        (\<lambda>(h, payload).
      and_then (ServerMachine_validate_handshake_header m h (h_scid h)) (\<lambda>_.
      and_then (SessionMessage_decode payload (hc_profile cfg) (hc_budget cfg)) (\<lambda>auth.
      if sm_typ auth \<noteq> OPEN_AUTH then Inl UnexpectedMessage
      else case find (\<lambda>e. ps_scid e = h_scid h) (sv_pending m) of
        Some pending \<Rightarrow>
          if ps_opening pending = packet \<and> ps_binding pending = binding
          then Inr (Inl (ps_cached_ack pending)) else Inl ScidCollision
      | None \<Rightarrow>
          (case find (\<lambda>e. se_scid e = h_scid h) (sv_established m) of
             Some established \<Rightarrow>
               if se_opening established = packet \<and> se_binding established = binding
               then Inr (Inl (se_cached_ack established)) else Inl ScidCollision
           | None \<Rightarrow> Inr (Inr (h, sm_body auth)))))))"

text \<open>
  The second half up to the OPEN_ACK packet: cookie, capacity, client signature, key exchange,
  own signature, keys. The result is (ack, send key, receive key, transcript hash, schedule).
\<close>

definition ServerMachine_check_open_auth ::
    "crypto \<Rightarrow> server_machine \<Rightarrow> header \<Rightarrow> bytes \<Rightarrow> ObservedBinding \<Rightarrow> u64 \<Rightarrow> u64 \<Rightarrow>
       server_handshake_material option \<Rightarrow>
       SessionError + bytes \<times> bytes \<times> bytes \<times> bytes \<times> bytes" where
  "ServerMachine_check_open_auth c m h body binding now_ms bucket handshake_material =
     (let cfg = sv_config m; mat = sv_material m in
      and_then (ServerMachine_client_identity c m body) (\<lambda>client.
      let client_ephemeral = slice_of 54 86 body;
          client_nonce = slice_of 86 118 body;
          boot = slice_of 118 134 body;
          supplied_cookie = slice_of 134 166 body in
      if boot \<noteq> svm_boot_instance mat then Inl CookieInvalid
      else and_then (cookie_matches_buckets c (svm_current_cookie_key mat)
          (svm_previous_cookie_key mat) (svm_previous_key_rotated_ms mat) supplied_cookie
          \<lparr>cc_binding = binding, cc_client = client, cc_server = hc_local cfg, cc_scid = h_scid h,
           cc_client_ephemeral = client_ephemeral, cc_boot = boot, cc_bucket = bucket,
           cc_server_context_id = hc_server_context_id cfg\<rparr> now_ms) (\<lambda>matched.
      if \<not> matched then Inl CookieInvalid
      else if length (sv_pending m) \<ge> hc_pending_limit cfg then Inl Capacity
      else and_then (ok_or UnexpectedMessage handshake_material) (\<lambda>hm.
      let signature = slice_of 166 230 body;
          placeholder_server =
            \<lparr>id_role = id_role (hc_local cfg),
             id_service_context = id_service_context (hc_local cfg),
             id_eid = id_eid (hc_local cfg), id_public_key = replicate 32 0\<rparr> in
      and_then (transcript_t0 c
          \<lparr>tc_profile = hc_profile cfg, tc_scid = h_scid h, tc_client = client,
           tc_server = placeholder_server, tc_client_ephemeral = client_ephemeral,
           tc_server_ephemeral = replicate 32 0, tc_client_nonce = client_nonce,
           tc_server_nonce = replicate 32 0, tc_boot = boot\<rparr>) (\<lambda>placeholder.
      and_then (verify_signature c (id_public_key client) (ascii ''R8 OPEN_AUTH v1'') placeholder
          signature) (\<lambda>_.
      let server_ephemeral = x_public c (shm_ephemeral_secret hm) in
      and_then (x25519 c (shm_ephemeral_secret hm) client_ephemeral) (\<lambda>shared.
      and_then (transcript_t0 c
          \<lparr>tc_profile = hc_profile cfg, tc_scid = h_scid h, tc_client = client,
           tc_server = hc_local cfg, tc_client_ephemeral = client_ephemeral,
           tc_server_ephemeral = server_ephemeral, tc_client_nonce = client_nonce,
           tc_server_nonce = shm_nonce hm, tc_boot = boot\<rparr>) (\<lambda>actual.
      let server_signature = sign_open_ack c (sv_signing_key m) actual;
          hash = transcript_hash c actual signature server_signature;
          schedule = hkdf_prk_bytes c shared hash in
      and_then (derive_key_from_prk c schedule hash (hc_profile cfg) (id_role (hc_local cfg))
          (id_role client) 0) (\<lambda>send_key.
      and_then (derive_key_from_prk c schedule hash (hc_profile cfg) (id_role client)
          (id_role (hc_local cfg)) 0) (\<lambda>receive_key.
      and_then (ServerMachine_packet m (h_scid h) OPEN_ACK 0 0
          ([id_role (hc_local cfg), id_role client]
           @ u32_to_be_bytes (id_service_context (hc_local cfg)) @ id_eid (hc_local cfg)
           @ id_public_key (hc_local cfg) @ server_ephemeral @ shm_nonce hm @ server_signature))
        (\<lambda>ack. Inr (ack, send_key, receive_key, hash, schedule))))))))))))"

definition ServerMachine_receive_open_auth ::
    "crypto \<Rightarrow> server_machine \<Rightarrow> bytes \<Rightarrow> ObservedBinding \<Rightarrow> u64 \<Rightarrow> u64 \<Rightarrow>
       server_handshake_material option \<Rightarrow> u64 \<Rightarrow>
       ((SessionError + bytes) \<times> server_machine \<times> u64) option" where
  "ServerMachine_receive_open_auth c m0 packet binding now_ms bucket handshake_material next_owner =
     (case ObservedBinding_validate binding of
        Inl e \<Rightarrow> Some (Inl e, m0, next_owner)
      | Inr _ \<Rightarrow>
          let m = ServerMachine_expire m0 now_ms in
          case ServerMachine_lookup_open_auth m packet binding of
            Inl e \<Rightarrow> Some (Inl e, m, next_owner)
          | Inr (Inl cached_ack) \<Rightarrow> Some (Inr cached_ack, m, next_owner)
          | Inr (Inr (h, body)) \<Rightarrow>
              (case ServerMachine_check_open_auth c m h body binding now_ms bucket
                      handshake_material of
                 Inl e \<Rightarrow> Some (Inl e, m, next_owner)
               | Inr (ack, send_key, receive_key, hash, schedule) \<Rightarrow>
                   (case DirectionalSession_new send_key receive_key hash
                           (hc_budget (sv_config m)) next_owner of
                      None \<Rightarrow> None
                    | Some (session, next_owner') \<Rightarrow>
                        Some (Inr ack,
                          m\<lparr>sv_pending := sv_pending m @
                             [\<lparr>ps_scid = h_scid h, ps_opening = packet, ps_cached_ack = ack,
                               ps_binding = binding,
                               ps_deadline_ms = saturating_add now_ms 5000,
                               ps_session = session,
                               ps_schedule = (if hc_profile (sv_config m) = 3 then Some schedule
                                              else None)\<rparr>]\<rparr>,
                          next_owner'))))"

section \<open>SESSION_ACCEPT\<close>

text \<open>The checks that need no session, the promotion of a pending session, and their composition.\<close>

definition ServerMachine_accept_header :: "server_machine \<Rightarrow> bytes \<Rightarrow> SessionError + header" where
  "ServerMachine_accept_header m packet =
     (let cfg = sv_config m in
      and_then (map_err (\<lambda>_. AuthFailed) (unpack_with_budget packet (hc_budget cfg)))
        (\<lambda>(h, payload).
      and_then (validate_protected_header h (hc_profile cfg) (h_scid h) (hc_source cfg)
          (hc_destination cfg)) (\<lambda>_.
      and_then (SessionMessage_decode payload (h_profile h) (hc_budget cfg)) (\<lambda>message.
      if sm_typ message \<noteq> SESSION_ACCEPT then Inl UnexpectedMessage else Inr h))))"

definition ServerMachine_accept_pending ::
    "crypto \<Rightarrow> server_machine \<Rightarrow> nat \<Rightarrow> bytes \<Rightarrow> u64 \<Rightarrow> (SessionError + unit) \<times> server_machine" where
  "ServerMachine_accept_pending c m index packet now_ms =
     (let pending = sv_pending m ! index in
      case DirectionalSession_preview c (ps_session pending) packet of
        Inl e \<Rightarrow> (Inl e, m)
      | Inr preview \<Rightarrow>
          let plaintext = pp_plaintext preview in
          if length plaintext \<noteq> 44
             \<or> take 12 plaintext \<noteq> ascii ''R8 ACCEPT v1''
             \<or> drop 12 plaintext \<noteq> ds_transcript_hash (ps_session pending)
          then (Inl AuthFailed, m)
          else if length (sv_established m) \<ge> hc_established_limit (sv_config m)
          then (Inl Capacity, m)
          else
            (case DirectionalSession_commit (ps_session pending) preview of
               (Inl e, session) \<Rightarrow>
                 (Inl e, m\<lparr>sv_pending := (sv_pending m)[index := pending\<lparr>ps_session := session\<rparr>]\<rparr>)
             | (Inr _, session) \<Rightarrow>
                 (Inr (), m\<lparr>sv_pending := remove_at index (sv_pending m),
                    sv_established := sv_established m @
                      [\<lparr>se_scid = ps_scid pending, se_session = session,
                        se_schedule = ps_schedule pending, se_opening = ps_opening pending,
                        se_cached_ack = ps_cached_ack pending, se_binding = ps_binding pending,
                        se_accepted = packet, se_last_active_ms = now_ms\<rparr>]\<rparr>)))"

definition ServerMachine_receive_accept ::
    "crypto \<Rightarrow> server_machine \<Rightarrow> bytes \<Rightarrow> u64 \<Rightarrow> (SessionError + unit) \<times> server_machine" where
  "ServerMachine_receive_accept c m0 packet now_ms =
     (let m = ServerMachine_expire m0 now_ms in
      case ServerMachine_accept_header m packet of
        Inl e \<Rightarrow> (Inl e, m)
      | Inr h \<Rightarrow>
          (case find (\<lambda>e. se_scid e = h_scid h) (sv_established m) of
             Some entry \<Rightarrow>
               if se_accepted entry = packet then (Inr (), m) else (Inl AuthFailed, m)
           | None \<Rightarrow>
               (case position (\<lambda>e. ps_scid e = h_scid h) (sv_pending m) of
                  None \<Rightarrow> (Inl UnexpectedMessage, m)
                | Some index \<Rightarrow> ServerMachine_accept_pending c m index packet now_ms)))"

section \<open>Data and close\<close>

definition ServerMachine_preview_data_with_locs ::
    "crypto \<Rightarrow> server_machine \<Rightarrow> bytes \<Rightarrow> bytes list \<Rightarrow> bytes list \<Rightarrow> u64 \<Rightarrow>
       (SessionError + data_preview) \<times> server_machine" where
  "ServerMachine_preview_data_with_locs c m0 packet allowed_sources allowed_destinations now_ms =
     (let m = ServerMachine_expire m0 now_ms; cfg = sv_config m in
      (and_then (map_err (\<lambda>_. AuthFailed) (unpack_with_budget packet (hc_budget cfg)))
        (\<lambda>(h, payload).
       and_then (ok_or UnexpectedMessage (map_option se_session
          (find (\<lambda>e. se_scid e = h_scid h) (sv_established m)))) (\<lambda>session.
       if h_next_header h \<noteq> NH_SES
          \<or> h_profile h \<noteq> hc_profile cfg
          \<or> h_flags h \<noteq> 1
          \<or> h_path_slot h \<noteq> 0
          \<or> (h_src h \<noteq> sv_peer_loc m \<and> h_src h \<notin> set allowed_sources)
          \<or> (h_dst h \<noteq> sv_local_loc m \<and> h_dst h \<notin> set allowed_destinations)
       then Inl AuthFailed
       else and_then (SessionMessage_decode payload (h_profile h) (hc_budget cfg)) (\<lambda>message.
       if sm_typ message \<noteq> SESSION_DATA then Inl UnexpectedMessage
       else and_then (DirectionalSession_preview c session packet) (\<lambda>commit.
         Inr \<lparr>dp_scid = h_scid h, dp_header = h, dp_commit = commit\<rparr>)))),
       m))"

definition ServerMachine_commit_data ::
    "server_machine \<Rightarrow> data_preview \<Rightarrow> u64 \<Rightarrow> (SessionError + bytes) \<times> server_machine" where
  "ServerMachine_commit_data m0 preview now_ms =
     (if h_scid (dp_header preview) \<noteq> dp_scid preview then (Inl Replay, m0)
      else
        let m = ServerMachine_expire m0 now_ms in
        case position (\<lambda>e. se_scid e = dp_scid preview) (sv_established m) of
          None \<Rightarrow> (Inl Replay, m)
        | Some index \<Rightarrow>
            let entry = sv_established m ! index in
            (case DirectionalSession_commit (se_session entry) (dp_commit preview) of
               (Inl e, session) \<Rightarrow>
                 (Inl e, m\<lparr>sv_established := (sv_established m)
                    [index := entry\<lparr>se_session := session\<rparr>]\<rparr>)
             | (Inr plaintext, session) \<Rightarrow>
                 (Inr plaintext, m\<lparr>sv_established := (sv_established m)
                    [index := entry\<lparr>se_session := session, se_last_active_ms := now_ms\<rparr>]\<rparr>)))"

definition ServerMachine_receive_data ::
    "crypto \<Rightarrow> server_machine \<Rightarrow> bytes \<Rightarrow> u64 \<Rightarrow> (SessionError + bytes) \<times> server_machine" where
  "ServerMachine_receive_data c m packet now_ms =
     (case ServerMachine_preview_data_with_locs c (ServerMachine_expire m now_ms) packet [] [] now_ms of
        (Inl e, m') \<Rightarrow> (Inl e, m')
      | (Inr preview, m') \<Rightarrow> ServerMachine_commit_data m' preview now_ms)"

definition ServerMachine_protected_replay_binding :: "server_machine \<Rightarrow> u64 \<Rightarrow> SessionError + u64" where
  "ServerMachine_protected_replay_binding m scid =
     ok_or UnexpectedMessage (map_option (\<lambda>e. protected_replay_binding (se_session e))
       (find (\<lambda>e. se_scid e = scid) (sv_established m)))"

definition ServerMachine_commit_protected_replay ::
    "server_machine \<Rightarrow> u64 \<Rightarrow> protected_replay_proof \<Rightarrow> u64 \<Rightarrow>
       (SessionError + unit) \<times> server_machine \<times> protected_replay_proof" where
  "ServerMachine_commit_protected_replay m0 scid proof now_ms =
     (let m = ServerMachine_expire m0 now_ms in
      case position (\<lambda>e. se_scid e = scid) (sv_established m) of
        None \<Rightarrow> (Inl Replay, m, proof)
      | Some index \<Rightarrow>
          let entry = sv_established m ! index;
              (result, session, proof') =
                DirectionalSession_commit_protected_replay (se_session entry) proof
          in (result, m\<lparr>sv_established := (sv_established m)
                [index := entry\<lparr>se_session := session\<rparr>]\<rparr>, proof'))"

definition ServerMachine_promote_local_loc :: "server_machine \<Rightarrow> bytes \<Rightarrow> server_machine" where
  "ServerMachine_promote_local_loc m new_loc = m\<lparr>sv_local_loc := new_loc\<rparr>"

definition ServerMachine_promote_peer_loc :: "server_machine \<Rightarrow> bytes \<Rightarrow> server_machine" where
  "ServerMachine_promote_peer_loc m new_loc = m\<lparr>sv_peer_loc := new_loc\<rparr>"

definition ServerMachine_send_data_with_locs ::
    "crypto \<Rightarrow> server_machine \<Rightarrow> u64 \<Rightarrow> bytes \<Rightarrow> bytes \<Rightarrow> bytes \<Rightarrow>
       (SessionError + bytes) \<times> server_machine" where
  "ServerMachine_send_data_with_locs c m scid plaintext source destination =
     (case position (\<lambda>e. se_scid e = scid) (sv_established m) of
        None \<Rightarrow> (Inl UnexpectedMessage, m)
      | Some index \<Rightarrow>
          let entry = sv_established m ! index;
              (result, session) = DirectionalSession_encrypt c (se_session entry)
                (session_header (hc_profile (sv_config m)) 1 0 scid source destination)
                SESSION_DATA plaintext (hc_budget (sv_config m)) in
          if result = Inl CounterExhausted
          then (result, m\<lparr>sv_established := remove_at index (sv_established m)\<rparr>)
          else (result, m\<lparr>sv_established := (sv_established m)
                  [index := entry\<lparr>se_session := session\<rparr>]\<rparr>))"

definition ServerMachine_send_data ::
    "crypto \<Rightarrow> server_machine \<Rightarrow> u64 \<Rightarrow> bytes \<Rightarrow> (SessionError + bytes) \<times> server_machine" where
  "ServerMachine_send_data c m scid plaintext =
     ServerMachine_send_data_with_locs c m scid plaintext (sv_local_loc m) (sv_peer_loc m)"

definition ServerMachine_close ::
    "crypto \<Rightarrow> server_machine \<Rightarrow> u64 \<Rightarrow> u16 \<Rightarrow> (SessionError + bytes) \<times> server_machine" where
  "ServerMachine_close c m scid code =
     (case position (\<lambda>e. se_scid e = scid) (sv_established m) of
        None \<Rightarrow> (Inl UnexpectedMessage, m)
      | Some index \<Rightarrow>
          let entry = sv_established m ! index in
          (case DirectionalSession_encrypt c (se_session entry)
              (session_header (hc_profile (sv_config m)) 1 0 scid (sv_local_loc m) (sv_peer_loc m))
              CLOSE (u16_to_be_bytes code) (hc_budget (sv_config m)) of
             (Inr packet, _) \<Rightarrow>
               (Inr packet, m\<lparr>sv_established := remove_at index (sv_established m)\<rparr>)
           | (Inl error, session) \<Rightarrow>
               if error = CounterExhausted
               then (Inl CounterExhausted,
                     m\<lparr>sv_established := remove_at index (sv_established m)\<rparr>)
               else (Inl error, m\<lparr>sv_established := (sv_established m)
                       [index := entry\<lparr>se_session := session\<rparr>]\<rparr>)))"

definition ServerMachine_receive_close ::
    "crypto \<Rightarrow> server_machine \<Rightarrow> bytes \<Rightarrow> u64 \<Rightarrow> (SessionError + u16) \<times> server_machine" where
  "ServerMachine_receive_close c m0 packet now_ms =
     (let m = ServerMachine_expire m0 now_ms; cfg = sv_config m in
      case and_then (map_err (\<lambda>_. AuthFailed) (unpack_with_budget packet (hc_budget cfg)))
          (\<lambda>(h, payload).
          and_then (validate_protected_header h (hc_profile cfg) (h_scid h) (sv_peer_loc m)
              (sv_local_loc m)) (\<lambda>_.
          and_then (ok_or UnexpectedMessage
              (position (\<lambda>e. se_scid e = h_scid h) (sv_established m))) (\<lambda>index.
          and_then (SessionMessage_decode payload (h_profile h) (hc_budget cfg)) (\<lambda>message.
          if sm_typ message \<noteq> CLOSE then Inl UnexpectedMessage else Inr index)))) of
        Inl e \<Rightarrow> (Inl e, m)
      | Inr index \<Rightarrow>
          let entry = sv_established m ! index in
          (case DirectionalSession_decrypt c (se_session entry) packet of
             (Inl e, session) \<Rightarrow>
               (Inl e, m\<lparr>sv_established := (sv_established m)
                  [index := entry\<lparr>se_session := session\<rparr>]\<rparr>)
           | (Inr plaintext, session) \<Rightarrow>
               if length plaintext \<noteq> 2 then
                 (Inl AuthFailed, m\<lparr>sv_established := (sv_established m)
                    [index := entry\<lparr>se_session := session\<rparr>]\<rparr>)
               else (Inr (u16_from_be_bytes plaintext),
                     m\<lparr>sv_established := remove_at index (sv_established m)\<rparr>)))"

section \<open>Two tables with one key space\<close>

lemma find_SomeD: "find p xs = Some x \<Longrightarrow> x \<in> set xs \<and> p x"
  by (auto simp: find_Some_iff)

lemma find_unique:
  "distinct (map f xs) \<Longrightarrow> x \<in> set xs \<Longrightarrow> f x = k \<Longrightarrow> find (\<lambda>e. f e = k) xs = Some x"
  by (induction xs) (auto simp: image_iff)

definition keyed :: "('p \<Rightarrow> 'k) \<Rightarrow> ('e \<Rightarrow> 'k) \<Rightarrow> 'p list \<Rightarrow> 'e list \<Rightarrow> bool" where
  "keyed f g ps es \<longleftrightarrow> distinct (map f ps @ map g es)"

lemma keyed_filter: "keyed f g ps es \<Longrightarrow> keyed f g (filter a ps) (filter b es)"
  by (auto simp: keyed_def distinct_map_filter)

lemma keyed_remove: "keyed f g ps es \<Longrightarrow> keyed f g ps (remove_at i es)"
  using set_remove_at [of i "map g es"]
  by (auto simp: keyed_def map_remove_at distinct_remove_at)

lemma keyed_update_established:
  "i < length es \<Longrightarrow> g x = g (es ! i) \<Longrightarrow> keyed f g ps es \<Longrightarrow> keyed f g ps (es[i := x])"
  by (metis keyed_def list_update_id map_update nth_map)

lemma keyed_update_pending:
  "i < length ps \<Longrightarrow> f x = f (ps ! i) \<Longrightarrow> keyed f g ps es \<Longrightarrow> keyed f g (ps[i := x]) es"
  by (metis keyed_def list_update_id map_update nth_map)

lemma keyed_push:
  "keyed f g ps es \<Longrightarrow> f x \<notin> f ` set ps \<Longrightarrow> f x \<notin> g ` set es \<Longrightarrow> keyed f g (ps @ [x]) es"
  by (auto simp: keyed_def)

lemma keyed_move:
  assumes "keyed f g ps es" "i < length ps" "g x = f (ps ! i)"
  shows "keyed f g (remove_at i ps) (es @ [x])"
proof -
  have d: "distinct (map f ps)" "distinct (map g es)" "set (map f ps) \<inter> set (map g es) = {}"
    using assms(1) by (auto simp: keyed_def)
  have "set (map f (remove_at i ps)) = set (map f ps) - {f (ps ! i)}"
    using remove_at_member [OF d(1), of i] assms(2) by (simp add: map_remove_at)
  moreover have "f (ps ! i) \<in> set (map f ps)" using assms(2) by simp
  ultimately show ?thesis
    using d assms(3) distinct_remove_at [OF d(1), of i]
    by (auto simp: keyed_def map_remove_at)
qed

section \<open>The server invariant\<close>

definition session_ok :: "directional_session \<Rightarrow> bool" where
  "session_ok s \<longleftrightarrow> (\<exists>H. replay_hist (ds_replay s) H)"

abbreviation ps_owner :: "pending_session \<Rightarrow> u64" where
  "ps_owner e \<equiv> ds_receive_owner (ps_session e)"

abbreviation se_owner :: "established_session \<Rightarrow> u64" where
  "se_owner e \<equiv> ds_receive_owner (se_session e)"

definition server_inv :: "server_machine \<Rightarrow> u64 \<Rightarrow> bool" where
  "server_inv m next_owner \<longleftrightarrow>
     length (sv_pending m) \<le> hc_pending_limit (sv_config m)
     \<and> length (sv_established m) \<le> hc_established_limit (sv_config m)
     \<and> keyed ps_scid se_scid (sv_pending m) (sv_established m)
     \<and> keyed ps_owner se_owner (sv_pending m) (sv_established m)
     \<and> (\<forall>e \<in> set (sv_pending m). session_ok (ps_session e) \<and> ps_owner e < next_owner)
     \<and> (\<forall>e \<in> set (sv_established m). session_ok (se_session e) \<and> se_owner e < next_owner)"

lemma commit_hist_ex: "replay_hist w H \<Longrightarrow> ReplayWindow_commit w t = (Inr u, w') \<Longrightarrow> Ex (replay_hist w')"
  using commit_hist by blast

lemma session_ok_commit:
  assumes "session_ok s" "DirectionalSession_commit s p = (r, s')"
  shows "session_ok s' \<and> ds_receive_owner s' = ds_receive_owner s"
  using assms
  by (auto simp: session_ok_def DirectionalSession_commit_def intro: commit_hist_ex
      dest!: commit_error_frame split: if_splits sum.splits prod.splits)

lemma session_ok_commit_proof:
  assumes "session_ok s" "DirectionalSession_commit_protected_replay s p = (r, s', p')"
  shows "session_ok s' \<and> ds_receive_owner s' = ds_receive_owner s"
  using assms
  by (auto simp: session_ok_def DirectionalSession_commit_protected_replay_def Let_def
      intro: commit_hist_ex dest!: commit_error_frame
      split: if_splits sum.splits prod.splits option.splits)

lemma session_ok_decrypt:
  assumes "session_ok s" "DirectionalSession_decrypt c s p = (r, s')"
  shows "session_ok s' \<and> ds_receive_owner s' = ds_receive_owner s"
  using assms session_ok_commit
  by (auto simp: DirectionalSession_decrypt_def split: sum.splits)

lemma session_ok_encrypt:
  assumes "session_ok s" "DirectionalSession_encrypt c s h t p b = (r, s')"
  shows "session_ok s' \<and> ds_receive_owner s' = ds_receive_owner s"
  using assms encrypt_state [of c s h t p b] by (auto simp: session_ok_def)

lemma session_ok_new:
  assumes "DirectionalSession_new k1 k2 th b o1 = Some (s, o2)"
  shows "session_ok s \<and> ds_receive_owner s = o1 \<and> o1 < o2"
  using assms replay_hist_new unat_Suc_u64 [of o1]
  by (auto simp: DirectionalSession_new_def allocate_session_owner_def session_ok_def
      word_less_nat_alt split: option.splits if_splits)

lemma server_inv_expire: "server_inv m n \<Longrightarrow> server_inv (ServerMachine_expire m now) n"
  by (auto simp: server_inv_def ServerMachine_expire_def intro: keyed_filter
      intro: le_trans [OF length_filter_le])

lemma server_inv_update:
  assumes "server_inv m n" "i < length (sv_established m)"
    and "se_scid x = se_scid (sv_established m ! i)" "se_owner x = se_owner (sv_established m ! i)"
    and "session_ok (se_session x)"
  shows "server_inv (m\<lparr>sv_established := (sv_established m)[i := x]\<rparr>) n"
  using assms set_update_subset_insert [of "sv_established m" i x]
  by (auto simp: server_inv_def keyed_update_established [of i] subset_iff)

lemma server_inv_update_pending:
  assumes "server_inv m n" "i < length (sv_pending m)"
    and "ps_scid x = ps_scid (sv_pending m ! i)" "ps_owner x = ps_owner (sv_pending m ! i)"
    and "session_ok (ps_session x)"
  shows "server_inv (m\<lparr>sv_pending := (sv_pending m)[i := x]\<rparr>) n"
  using assms set_update_subset_insert [of "sv_pending m" i x]
  by (auto simp: server_inv_def keyed_update_pending [of i] subset_iff)

lemma server_inv_remove:
  assumes "server_inv m n" "i < length (sv_established m)"
  shows "server_inv (m\<lparr>sv_established := remove_at i (sv_established m)\<rparr>) n"
  using assms set_remove_at [of i "sv_established m"]
  by (auto simp: server_inv_def keyed_remove length_remove_at subset_iff)

lemma server_inv_move:
  assumes "server_inv m n" "i < length (sv_pending m)"
    and "length (sv_established m) < hc_established_limit (sv_config m)"
    and "se_scid x = ps_scid (sv_pending m ! i)" "se_owner x = ps_owner (sv_pending m ! i)"
    and "session_ok (se_session x)"
  shows "server_inv (m\<lparr>sv_pending := remove_at i (sv_pending m),
      sv_established := sv_established m @ [x]\<rparr>) n"
  using assms set_remove_at [of i "sv_pending m"]
  by (auto simp: server_inv_def keyed_move length_remove_at subset_iff)

lemma server_inv_push:
  assumes "server_inv m n" "length (sv_pending m) < hc_pending_limit (sv_config m)"
    and "ps_scid x \<notin> ps_scid ` set (sv_pending m)" "ps_scid x \<notin> se_scid ` set (sv_established m)"
    and "session_ok (ps_session x)" "ps_owner x = n" "n < n'"
  shows "server_inv (m\<lparr>sv_pending := sv_pending m @ [x]\<rparr>) n'"
proof -
  have "keyed ps_owner se_owner (sv_pending m @ [x]) (sv_established m)"
    using assms by (intro keyed_push) (auto simp: server_inv_def)
  moreover have "keyed ps_scid se_scid (sv_pending m @ [x]) (sv_established m)"
    using assms by (intro keyed_push) (auto simp: server_inv_def)
  ultimately show ?thesis
    using assms by (auto simp: server_inv_def intro: less_trans)
qed

section \<open>Every operation keeps the invariant\<close>

lemma lookup_open_auth_fresh:
  assumes "ServerMachine_lookup_open_auth m packet binding = Inr (Inr (h, body))"
  shows "h_scid h \<notin> ps_scid ` set (sv_pending m)" "h_scid h \<notin> se_scid ` set (sv_established m)"
proof -
  have "find (\<lambda>e. ps_scid e = h_scid h) (sv_pending m) = None
      \<and> find (\<lambda>e. se_scid e = h_scid h) (sv_established m) = None"
    using assms
    by (cases "find (\<lambda>e. ps_scid e = h_scid h) (sv_pending m)")
      (auto simp: ServerMachine_lookup_open_auth_def and_then_Inr Let_def
        split: option.splits if_splits)
  then show "h_scid h \<notin> ps_scid ` set (sv_pending m)" "h_scid h \<notin> se_scid ` set (sv_established m)"
    by (auto simp: find_None_iff)
qed

lemma check_open_auth_capacity:
  assumes "ServerMachine_check_open_auth c m h body binding now bucket hm = Inr r"
  shows "length (sv_pending m) < hc_pending_limit (sv_config m)"
  using assms by (auto simp: ServerMachine_check_open_auth_def Let_def and_then_Inr split: if_splits)

lemma expire_config [simp]: "sv_config (ServerMachine_expire m now) = sv_config m"
  by (simp add: ServerMachine_expire_def)

lemma receive_open_auth_inv:
  assumes "server_inv m n"
    and "ServerMachine_receive_open_auth c m packet binding now bucket hm n = Some (r, m', n')"
  shows "server_inv m' n'"
proof -
  let ?m = "ServerMachine_expire m now"
  have inv: "server_inv ?m n" using assms(1) by (rule server_inv_expire)
  show ?thesis
  proof (cases "ObservedBinding_validate binding")
    case (Inl e)
    with assms show ?thesis by (simp add: ServerMachine_receive_open_auth_def)
  next
    case b: (Inr u)
    show ?thesis
    proof (cases "ServerMachine_lookup_open_auth ?m packet binding")
      case (Inl e)
      with b assms inv show ?thesis by (simp add: ServerMachine_receive_open_auth_def Let_def)
    next
      case l: (Inr x)
      show ?thesis
      proof (cases x)
        case (Inl ack)
        with b l assms inv show ?thesis by (simp add: ServerMachine_receive_open_auth_def Let_def)
      next
        case x: (Inr hb)
        obtain h body where hb: "hb = (h, body)" by force
        show ?thesis
        proof (cases "ServerMachine_check_open_auth c ?m h body binding now bucket hm")
          case (Inl e)
          with b l x hb assms inv show ?thesis
            by (simp add: ServerMachine_receive_open_auth_def Let_def)
        next
          case k: (Inr y)
          obtain ack k1 k2 th sch where y: "y = (ack, k1, k2, th, sch)" by (cases y)
          from assms(2) b l x hb k y obtain s where
            s: "DirectionalSession_new k1 k2 th (hc_budget (sv_config m)) n = Some (s, n')"
            and m': "m' = ?m\<lparr>sv_pending := sv_pending ?m @
               [\<lparr>ps_scid = h_scid h, ps_opening = packet, ps_cached_ack = ack,
                 ps_binding = binding, ps_deadline_ms = saturating_add now 5000, ps_session = s,
                 ps_schedule = (if hc_profile (sv_config m) = 3 then Some sch else None)\<rparr>]\<rparr>"
            by (auto simp: ServerMachine_receive_open_auth_def Let_def split: option.splits)
          show ?thesis
            unfolding m'
            using inv session_ok_new [OF s] check_open_auth_capacity [OF k]
              lookup_open_auth_fresh [OF l [unfolded x hb]]
            by (intro server_inv_push [where n = n]) auto
        qed
      qed
    qed
  qed
qed

lemma accept_pending_inv:
  assumes inv: "server_inv m n" and i: "i < length (sv_pending m)"
  shows "server_inv (snd (ServerMachine_accept_pending c m i packet now)) n"
proof -
  let ?p = "sv_pending m ! i"
  have ok: "session_ok (ps_session ?p)" using inv i by (auto simp: server_inv_def)
  show ?thesis
  proof (cases "DirectionalSession_preview c (ps_session ?p) packet")
    case (Inl e)
    with inv show ?thesis by (simp add: ServerMachine_accept_pending_def)
  next
    case (Inr pv)
    obtain r s where cm: "DirectionalSession_commit (ps_session ?p) pv = (r, s)" by force
    note s = session_ok_commit [OF ok cm]
    have "server_inv (m\<lparr>sv_pending := (sv_pending m)[i := ?p\<lparr>ps_session := s\<rparr>]\<rparr>) n"
      using inv i s by (intro server_inv_update_pending) simp_all
    moreover have "length (sv_established m) < hc_established_limit (sv_config m) \<Longrightarrow>
      server_inv (m\<lparr>sv_pending := remove_at i (sv_pending m),
        sv_established := sv_established m @
          [\<lparr>se_scid = ps_scid ?p, se_session = s, se_schedule = ps_schedule ?p,
            se_opening = ps_opening ?p, se_cached_ack = ps_cached_ack ?p,
            se_binding = ps_binding ?p, se_accepted = packet, se_last_active_ms = now\<rparr>]\<rparr>) n"
      using inv i s by (intro server_inv_move) simp_all
    ultimately show ?thesis
      using inv Inr cm by (simp add: ServerMachine_accept_pending_def Let_def split: sum.split)
  qed
qed

lemma receive_accept_inv:
  assumes "server_inv m n"
  shows "server_inv (snd (ServerMachine_receive_accept c m packet now)) n"
  using server_inv_expire [OF assms, of now]
  by (auto simp: ServerMachine_receive_accept_def Let_def split: sum.split option.split
      intro!: accept_pending_inv dest: position_Some)

lemma established_entry_ok:
  assumes "server_inv m n" "position p (sv_established m) = Some i"
  shows "i < length (sv_established m)" "session_ok (se_session (sv_established m ! i))"
  using assms position_Some [OF assms(2)] by (auto simp: server_inv_def)

text \<open>Replacing an established entry's session by what one of its operations returned.\<close>

lemma server_inv_session:
  assumes "server_inv m n" "position p (sv_established m) = Some i"
    and "session_ok s" "ds_receive_owner s = se_owner (sv_established m ! i)"
  shows "server_inv (m\<lparr>sv_established := (sv_established m)
      [i := (sv_established m ! i)\<lparr>se_session := s\<rparr>]\<rparr>) n"
    "server_inv (m\<lparr>sv_established := (sv_established m)
      [i := (sv_established m ! i)\<lparr>se_session := s, se_last_active_ms := now\<rparr>]\<rparr>) n"
  using assms established_entry_ok [OF assms(1,2)] by (auto intro!: server_inv_update)

lemma server_inv_drop:
  "server_inv m n \<Longrightarrow> position p (sv_established m) = Some i \<Longrightarrow>
     server_inv (m\<lparr>sv_established := remove_at i (sv_established m)\<rparr>) n"
  using established_entry_ok(1) by (blast intro: server_inv_remove)

lemma commit_data_inv:
  assumes "server_inv m n"
  shows "server_inv (snd (ServerMachine_commit_data m pv now)) n"
proof -
  let ?m = "ServerMachine_expire m now"
  let ?p = "position (\<lambda>e. se_scid e = dp_scid pv) (sv_established ?m)"
  have inv: "server_inv ?m n" using assms by (rule server_inv_expire)
  show ?thesis
  proof (cases ?p)
    case None
    with inv assms show ?thesis by (simp add: ServerMachine_commit_data_def)
  next
    case (Some i)
    obtain r s where cm: "DirectionalSession_commit (se_session (sv_established ?m ! i))
        (dp_commit pv) = (r, s)" by force
    note s = session_ok_commit [OF established_entry_ok(2) [OF inv Some] cm]
    show ?thesis
      using assms Some cm server_inv_session [OF inv Some] s
      by (simp add: ServerMachine_commit_data_def Let_def split: sum.split)
  qed
qed

lemma receive_data_inv:
  "server_inv m n \<Longrightarrow> server_inv (snd (ServerMachine_receive_data c m packet now)) n"
  using commit_data_inv server_inv_expire
  by (auto simp: ServerMachine_receive_data_def ServerMachine_preview_data_with_locs_def Let_def
      split: sum.splits)

lemma commit_protected_replay_inv:
  assumes "server_inv m n"
    and "ServerMachine_commit_protected_replay m scid proof now = (r, m', proof')"
  shows "server_inv m' n"
proof -
  let ?m = "ServerMachine_expire m now"
  have inv: "server_inv ?m n" using assms(1) by (rule server_inv_expire)
  show ?thesis
  proof (cases "position (\<lambda>e. se_scid e = scid) (sv_established ?m)")
    case None
    with inv assms show ?thesis by (simp add: ServerMachine_commit_protected_replay_def)
  next
    case (Some i)
    obtain r s q where cm: "DirectionalSession_commit_protected_replay
        (se_session (sv_established ?m ! i)) proof = (r, s, q)" by (rule prod_cases3)
    note s = session_ok_commit_proof [OF established_entry_ok(2) [OF inv Some] cm]
    show ?thesis
      using assms(2) Some cm server_inv_session [OF inv Some] s
      by (auto simp: ServerMachine_commit_protected_replay_def Let_def)
  qed
qed

lemma send_data_inv:
  assumes inv: "server_inv m n"
  shows "server_inv (snd (ServerMachine_send_data_with_locs c m scid pt src dst)) n"
proof (cases "position (\<lambda>e. se_scid e = scid) (sv_established m)")
  case None
  with inv show ?thesis by (simp add: ServerMachine_send_data_with_locs_def)
next
  case (Some i)
  obtain r s where e: "DirectionalSession_encrypt c (se_session (sv_established m ! i))
      (session_header (hc_profile (sv_config m)) 1 0 scid src dst) SESSION_DATA pt
      (hc_budget (sv_config m)) = (r, s)" by force
  note s = session_ok_encrypt [OF established_entry_ok(2) [OF inv Some] e]
  show ?thesis
    using Some e server_inv_session [OF inv Some] server_inv_drop [OF inv Some] s
    by (simp add: ServerMachine_send_data_with_locs_def Let_def)
qed

lemma close_inv:
  assumes inv: "server_inv m n"
  shows "server_inv (snd (ServerMachine_close c m scid code)) n"
proof (cases "position (\<lambda>e. se_scid e = scid) (sv_established m)")
  case None
  with inv show ?thesis by (simp add: ServerMachine_close_def)
next
  case (Some i)
  obtain r s where e: "DirectionalSession_encrypt c (se_session (sv_established m ! i))
      (session_header (hc_profile (sv_config m)) 1 0 scid (sv_local_loc m) (sv_peer_loc m)) CLOSE
      (u16_to_be_bytes code) (hc_budget (sv_config m)) = (r, s)" by force
  note s = session_ok_encrypt [OF established_entry_ok(2) [OF inv Some] e]
  show ?thesis
    using Some e server_inv_session [OF inv Some] server_inv_drop [OF inv Some] s
    by (simp add: ServerMachine_close_def Let_def split: sum.split)
qed

lemma receive_close_inv:
  assumes "server_inv m n"
  shows "server_inv (snd (ServerMachine_receive_close c m packet now)) n"
proof -
  let ?m = "ServerMachine_expire m now"
  have inv: "server_inv ?m n" using assms by (rule server_inv_expire)
  let ?chk = "and_then (map_err (\<lambda>_. AuthFailed) (unpack_with_budget packet (hc_budget (sv_config ?m))))
          (\<lambda>(h, payload).
          and_then (validate_protected_header h (hc_profile (sv_config ?m)) (h_scid h)
              (sv_peer_loc ?m) (sv_local_loc ?m)) (\<lambda>_.
          and_then (ok_or UnexpectedMessage
              (position (\<lambda>e. se_scid e = h_scid h) (sv_established ?m))) (\<lambda>index.
          and_then (SessionMessage_decode payload (h_profile h) (hc_budget (sv_config ?m))) (\<lambda>message.
          if sm_typ message \<noteq> CLOSE then Inl UnexpectedMessage else Inr index))))"
  show ?thesis
  proof (cases ?chk)
    case (Inl e)
    with inv show ?thesis by (simp add: ServerMachine_receive_close_def Let_def)
  next
    case (Inr i)
    then have "\<exists>h :: header. position (\<lambda>e. se_scid e = h_scid h) (sv_established ?m) = Some i"
      by (auto simp: and_then_Inr split: if_splits)
    then obtain h :: header where pos: "position (\<lambda>e. se_scid e = h_scid h) (sv_established ?m) = Some i" ..
    obtain r s where d: "DirectionalSession_decrypt c (se_session (sv_established ?m ! i)) packet
        = (r, s)" by force
    note s = session_ok_decrypt [OF established_entry_ok(2) [OF inv pos] d]
    show ?thesis
      using Inr d server_inv_session [OF inv pos] server_inv_drop [OF inv pos] s
      by (simp add: ServerMachine_receive_close_def Let_def split: sum.split)
  qed
qed

lemma take_bootstrap_inv:
  assumes "server_inv m n"
  shows "server_inv (snd (ServerMachine_take_profile3_bootstrap m scid)) n"
  using assms established_entry_ok(1) [OF assms]
  by (auto simp: ServerMachine_take_profile3_bootstrap_def Let_def split: option.split
      intro!: server_inv_remove)

section \<open>The step relation\<close>

text \<open>
  One call on the server, with any arguments; the second component is the owner allocator,
  which other machines of the process may advance in between.
\<close>

inductive server_step :: "crypto \<Rightarrow> server_machine \<times> u64 \<Rightarrow> server_machine \<times> u64 \<Rightarrow> bool"
  for c :: crypto where
  open_auth: "ServerMachine_receive_open_auth c m packet binding now bucket hm n = Some (r, m', n')
    \<Longrightarrow> server_step c (m, n) (m', n')"
| accept: "ServerMachine_receive_accept c m packet now = (r1, m') \<Longrightarrow> server_step c (m, n) (m', n)"
| preview_data: "ServerMachine_preview_data_with_locs c m packet srcs dsts now = (r2, m')
    \<Longrightarrow> server_step c (m, n) (m', n)"
| commit: "ServerMachine_commit_data m pv now = (r3, m') \<Longrightarrow> server_step c (m, n) (m', n)"
| data: "ServerMachine_receive_data c m packet now = (r3, m') \<Longrightarrow> server_step c (m, n) (m', n)"
| commit_proof: "ServerMachine_commit_protected_replay m scid pf now = (r1, m', pf')
    \<Longrightarrow> server_step c (m, n) (m', n)"
| send: "ServerMachine_send_data_with_locs c m scid pt src dst = (r3, m')
    \<Longrightarrow> server_step c (m, n) (m', n)"
| close: "ServerMachine_close c m scid code = (r3, m') \<Longrightarrow> server_step c (m, n) (m', n)"
| receive_close: "ServerMachine_receive_close c m packet now = (r4, m')
    \<Longrightarrow> server_step c (m, n) (m', n)"
| bootstrap: "ServerMachine_take_profile3_bootstrap m scid = (r5, m') \<Longrightarrow> server_step c (m, n) (m', n)"
| expire: "server_step c (m, n) (ServerMachine_expire m now, n)"
| rotate: "server_step c (m, n) (ServerMachine_rotate_cookie_key m key now, n)"
| restart: "server_step c (m, n) (ServerMachine_restart m material, n)"
| promote_local: "server_step c (m, n) (ServerMachine_promote_local_loc m loc, n)"
| promote_peer: "server_step c (m, n) (ServerMachine_promote_peer_loc m loc, n)"
| allocate: "n \<le> n' \<Longrightarrow> server_step c (m, n) (m, n')"

definition server_inv_pair :: "server_machine \<times> u64 \<Rightarrow> bool" where
  "server_inv_pair = (\<lambda>(m, n). server_inv m n)"

lemma server_inv_mono: "server_inv m n \<Longrightarrow> n \<le> n' \<Longrightarrow> server_inv m n'"
  by (auto simp: server_inv_def intro: less_le_trans)

lemma preview_data_inv:
  "server_inv m n \<Longrightarrow>
     server_inv (snd (ServerMachine_preview_data_with_locs c m packet srcs dsts now)) n"
  by (simp add: ServerMachine_preview_data_with_locs_def Let_def server_inv_expire)

lemma server_step_inv: "server_step c st st' \<Longrightarrow> server_inv_pair st \<Longrightarrow> server_inv_pair st'"
proof (induction rule: server_step.induct)
  case (open_auth m packet binding now bucket hm n r m' n')
  then show ?case using receive_open_auth_inv by (simp add: server_inv_pair_def)
next
  case (accept m packet now r1 m' n)
  then show ?case using receive_accept_inv [of m n c packet now] by (simp add: server_inv_pair_def)
next
  case (preview_data m packet srcs dsts now r2 m' n)
  then show ?case
    using preview_data_inv [of m n c packet srcs dsts now] by (simp add: server_inv_pair_def)
next
  case (commit m pv now r3 m' n)
  then show ?case using commit_data_inv [of m n pv now] by (simp add: server_inv_pair_def)
next
  case (data m packet now r3 m' n)
  then show ?case using receive_data_inv [of m n c packet now] by (simp add: server_inv_pair_def)
next
  case (commit_proof m scid pf now r1 m' pf' n)
  then show ?case using commit_protected_replay_inv by (simp add: server_inv_pair_def)
next
  case (send m scid pt src dst r3 m' n)
  then show ?case using send_data_inv [of m n c scid pt src dst] by (simp add: server_inv_pair_def)
next
  case (close m scid code r3 m' n)
  then show ?case using close_inv [of m n c scid code] by (simp add: server_inv_pair_def)
next
  case (receive_close m packet now r4 m' n)
  then show ?case using receive_close_inv [of m n c packet now] by (simp add: server_inv_pair_def)
next
  case (bootstrap m scid r5 m' n)
  then show ?case using take_bootstrap_inv [of m n scid] by (simp add: server_inv_pair_def)
next
  case (expire m n now)
  then show ?case by (simp add: server_inv_pair_def server_inv_expire)
next
  case (rotate m n key now)
  then show ?case
    by (simp add: server_inv_pair_def server_inv_def ServerMachine_rotate_cookie_key_def)
next
  case (restart m n material)
  then show ?case
    by (simp add: server_inv_pair_def server_inv_def ServerMachine_restart_def keyed_def)
next
  case (promote_local m n loc)
  then show ?case
    by (simp add: server_inv_pair_def server_inv_def ServerMachine_promote_local_loc_def)
next
  case (promote_peer m n loc)
  then show ?case
    by (simp add: server_inv_pair_def server_inv_def ServerMachine_promote_peer_loc_def)
next
  case (allocate n n' m)
  then show ?case using server_inv_mono by (auto simp: server_inv_pair_def)
qed

interpretation server: preserved "server_step c" server_inv_pair
  by unfold_locales (rule server_step_inv)

lemma server_inv_new:
  assumes "ServerMachine_new c cfg key material = Inr m"
  shows "server_inv m n"
  using assms
  by (auto simp: ServerMachine_new_def result_simps server_inv_def keyed_def split: if_splits)

lemma accept_pending_config:
  "sv_config (snd (ServerMachine_accept_pending c m i packet now)) = sv_config m"
  by (auto simp: ServerMachine_accept_pending_def Let_def split: sum.split prod.split)

lemma server_step_config: "server_step c st st' \<Longrightarrow> sv_config (fst st') = sv_config (fst st)"
proof (induction rule: server_step.induct)
  case (open_auth m packet binding now bucket hm n r m' n')
  then show ?case
    by (auto simp: ServerMachine_receive_open_auth_def Let_def
        split: sum.splits option.splits prod.splits)
next
  case (accept m packet now r1 m' n)
  then have "m' = snd (ServerMachine_receive_accept c m packet now)" by simp
  then show ?case
    by (auto simp: ServerMachine_receive_accept_def Let_def accept_pending_config
        split: sum.splits option.splits)
next
  case (data m packet now r3 m' n)
  then show ?case
    by (auto simp: ServerMachine_receive_data_def ServerMachine_preview_data_with_locs_def
        ServerMachine_commit_data_def Let_def split: sum.splits option.splits prod.splits if_splits)
qed (auto simp: ServerMachine_preview_data_with_locs_def ServerMachine_commit_data_def
    ServerMachine_commit_protected_replay_def ServerMachine_send_data_with_locs_def
    ServerMachine_close_def ServerMachine_receive_close_def
    ServerMachine_take_profile3_bootstrap_def ServerMachine_rotate_cookie_key_def
    ServerMachine_restart_def ServerMachine_promote_local_loc_def
    ServerMachine_promote_peer_loc_def Let_def
    split: sum.splits option.splits prod.splits if_splits)

interpretation server_config: preserved "server_step c" "\<lambda>st. sv_config (fst st) = cfg"
  by unfold_locales (simp add: server_step_config)

section \<open>The stateless reply\<close>

lemma length_sha256: "hash_ok c \<Longrightarrow> length (sha256 c m) = 32"
  by (simp add: hash_ok_def)

lemma machine_packet_length:
  assumes "machine_packet cfg src dst scid t flags slot body = Inr d"
    and "length src = 16" "length dst = 16"
  shows "length d = length body + 52"
  using machine_packet_Inr [OF assms] unpack_length by fastforce

text \<open>The body length of every message type that goes out in a handshake packet is fixed.\<close>

lemma receive_open_length:
  assumes "length (hc_source (sv_config m)) = 16" "length (hc_destination (sv_config m)) = 16"
    and "ServerMachine_receive_open c m packet binding bucket = Inr d"
  shows "length d = 170"
proof -
  from assms(3) obtain scid body where
    p: "ServerMachine_packet m scid VERIFY_COOKIE 0 0 body = Inr d"
    by (auto simp: ServerMachine_receive_open_def and_then_Inr Let_def split: if_splits)
  note mp = p [unfolded ServerMachine_packet_def]
  have "length body = 118"
    using machine_packet_Inr [OF mp assms(2,1)]
    by (auto simp: validate_body_def exact_body_len_def session_consts split: if_splits)
  with machine_packet_length [OF mp assms(2,1)] show ?thesis by simp
qed

lemma admit_needs_request:
  "PrevalidationLimiter_admit l source rq rs now = (Inr u, l') \<Longrightarrow> rs \<le> rq"
  by (auto simp: PrevalidationLimiter_admit_def Let_def split: if_splits option.splits prod.splits)

section \<open>Retransmitted OPEN_AUTH\<close>

lemma open_auth_entry:
  assumes "ServerMachine_receive_open_auth c m packet binding now bucket hm n = Some (Inr ack, m', n')"
  obtains h payload auth where
    "ObservedBinding_validate binding = Inr ()"
    "unpack_with_budget packet (hc_budget (sv_config m')) = Inr (h, payload)"
    "ServerMachine_validate_handshake_header m' h (h_scid h) = Inr ()"
    "SessionMessage_decode payload (hc_profile (sv_config m')) (hc_budget (sv_config m')) = Inr auth"
    "sm_typ auth = OPEN_AUTH"
    "(\<exists>e \<in> set (sv_pending m'). ps_scid e = h_scid h \<and> ps_opening e = packet
        \<and> ps_binding e = binding \<and> ps_cached_ack e = ack)
     \<or> (\<exists>e \<in> set (sv_established m'). se_scid e = h_scid h \<and> se_opening e = packet
        \<and> se_binding e = binding \<and> se_cached_ack e = ack)"
proof -
  let ?m = "ServerMachine_expire m now"
  have b: "ObservedBinding_validate binding = Inr ()"
    using assms by (auto simp: ServerMachine_receive_open_auth_def split: sum.splits)
  have cfg: "sv_config m' = sv_config ?m"
    using server_step_config [OF server_step.open_auth [OF assms]] by simp
  have look: "\<exists>r. ServerMachine_lookup_open_auth ?m packet binding = Inr r"
    using assms b by (auto simp: ServerMachine_receive_open_auth_def Let_def split: sum.splits)
  then obtain r h payload auth where l: "ServerMachine_lookup_open_auth ?m packet binding = Inr r"
    and u: "unpack_with_budget packet (hc_budget (sv_config ?m)) = Inr (h, payload)"
    "ServerMachine_validate_handshake_header ?m h (h_scid h) = Inr ()"
    "SessionMessage_decode payload (hc_profile (sv_config ?m)) (hc_budget (sv_config ?m)) = Inr auth"
    "sm_typ auth = OPEN_AUTH"
    by (auto simp: ServerMachine_lookup_open_auth_def and_then_Inr Let_def split: if_splits)
  have "(\<exists>e \<in> set (sv_pending m'). ps_scid e = h_scid h \<and> ps_opening e = packet
        \<and> ps_binding e = binding \<and> ps_cached_ack e = ack)
     \<or> (\<exists>e \<in> set (sv_established m'). se_scid e = h_scid h \<and> se_opening e = packet
        \<and> se_binding e = binding \<and> se_cached_ack e = ack)"
  proof (cases r)
    case (Inl a)
    then have m': "m' = ?m" "a = ack"
      using assms b l by (simp_all add: ServerMachine_receive_open_auth_def Let_def)
    show ?thesis
      using l u Inl unfolding m'
      by (auto simp: ServerMachine_lookup_open_auth_def Let_def dest!: find_SomeD
          split: option.splits if_splits)
  next
    case (Inr hb)
    then have "hb = (h, sm_body auth)"
      using l u by (auto simp: ServerMachine_lookup_open_auth_def Let_def
          split: option.splits if_splits)
    with Inr show ?thesis
      using assms b l by (auto simp: ServerMachine_receive_open_auth_def Let_def
          split: sum.splits option.splits)
  qed
  moreover have "ServerMachine_validate_handshake_header m' h (h_scid h) = Inr ()"
    using u(2) cfg by (simp add: ServerMachine_validate_handshake_header_def)
  ultimately show ?thesis using that b u cfg by simp
qed

lemma keyed_find_pending:
  "keyed f g ps es \<Longrightarrow> x \<in> set ps \<Longrightarrow> find (\<lambda>e. f e = f x) ps = Some x"
  by (simp add: keyed_def find_unique)

lemma keyed_find_established:
  "keyed f g ps es \<Longrightarrow> x \<in> set es \<Longrightarrow>
     find (\<lambda>e. f e = g x) ps = None \<and> find (\<lambda>e. g e = g x) es = Some x"
  by (auto simp: keyed_def find_unique find_None_iff)

lemma live_pending:
  "ServerMachine_is_live m k \<longleftrightarrow>
     k \<in> ps_scid ` set (sv_pending m) \<or> k \<in> se_scid ` set (sv_established m)"
  by (auto simp: ServerMachine_is_live_def list_ex_iff)

lemma keyed_unique:
  assumes "keyed f g ps es"
  shows "x \<in> set ps \<Longrightarrow> y \<in> set ps \<Longrightarrow> f x = f y \<Longrightarrow> x = y"
    and "x \<in> set ps \<Longrightarrow> z \<in> set es \<Longrightarrow> f x \<noteq> g z"
    and "z \<in> set es \<Longrightarrow> w \<in> set es \<Longrightarrow> g z = g w \<Longrightarrow> z = w"
  using assms by (auto simp: keyed_def distinct_map dest: inj_onD)

lemma expire_subset:
  "set (sv_pending (ServerMachine_expire m now)) \<subseteq> set (sv_pending m)"
  "set (sv_established (ServerMachine_expire m now)) \<subseteq> set (sv_established m)"
  by (auto simp: ServerMachine_expire_def)

text \<open>The one entry of a connection id survives expiry as long as the id stays live.\<close>

lemma live_entry_pending:
  assumes "keyed ps_scid se_scid (sv_pending m) (sv_established m)" "e \<in> set (sv_pending m)"
    and "ServerMachine_is_live (ServerMachine_expire m now) (ps_scid e)"
  shows "e \<in> set (sv_pending (ServerMachine_expire m now))"
proof -
  from assms(3) consider y where "y \<in> set (sv_pending (ServerMachine_expire m now))" "ps_scid e = ps_scid y"
    | z where "z \<in> set (sv_established (ServerMachine_expire m now))" "ps_scid e = se_scid z"
    unfolding live_pending by blast
  then show ?thesis
    using keyed_unique(1,2) [OF assms(1)] expire_subset [of m now] assms(2) by cases (metis subsetD)+
qed

lemma live_entry_established:
  assumes "keyed ps_scid se_scid (sv_pending m) (sv_established m)" "e \<in> set (sv_established m)"
    and "ServerMachine_is_live (ServerMachine_expire m now) (se_scid e)"
  shows "e \<in> set (sv_established (ServerMachine_expire m now))"
proof -
  from assms(3) consider y where "y \<in> set (sv_pending (ServerMachine_expire m now))" "se_scid e = ps_scid y"
    | z where "z \<in> set (sv_established (ServerMachine_expire m now))" "se_scid e = se_scid z"
    unfolding live_pending by blast
  then show ?thesis
    using keyed_unique(2,3) [OF assms(1)] expire_subset [of m now] assms(2) by cases (metis subsetD)+
qed

lemma open_auth_again:
  assumes inv: "server_inv m' n'"
    and first: "ServerMachine_receive_open_auth c m packet binding now bucket hm n = Some (Inr ack, m', n')"
    and u: "unpack_with_budget packet (hc_budget (sv_config m')) = Inr (h, payload)"
    and live: "ServerMachine_is_live (ServerMachine_expire m' now') (h_scid h)"
  shows "ServerMachine_receive_open_auth c m' packet binding now' bucket' hm' k
    = Some (Inr ack, ServerMachine_expire m' now', k)"
proof -
  let ?m = "ServerMachine_expire m' now'"
  have key: "keyed ps_scid se_scid (sv_pending m') (sv_established m')"
    using inv by (simp add: server_inv_def)
  have key': "keyed ps_scid se_scid (sv_pending ?m) (sv_established ?m)"
    using server_inv_expire [OF inv] by (simp add: server_inv_def)
  from open_auth_entry [OF first] u obtain auth where b: "ObservedBinding_validate binding = Inr ()"
    and v: "ServerMachine_validate_handshake_header m' h (h_scid h) = Inr ()"
      "SessionMessage_decode payload (hc_profile (sv_config m')) (hc_budget (sv_config m')) = Inr auth"
      "sm_typ auth = OPEN_AUTH"
    and entry: "(\<exists>e \<in> set (sv_pending m'). ps_scid e = h_scid h \<and> ps_opening e = packet
        \<and> ps_binding e = binding \<and> ps_cached_ack e = ack)
     \<or> (\<exists>e \<in> set (sv_established m'). se_scid e = h_scid h \<and> se_opening e = packet
        \<and> se_binding e = binding \<and> se_cached_ack e = ack)"
    by (metis Inr_inject Pair_inject)
  have v': "ServerMachine_validate_handshake_header ?m h (h_scid h) = Inr ()"
    using v(1) by (simp add: ServerMachine_validate_handshake_header_def)
  from entry have "ServerMachine_lookup_open_auth ?m packet binding = Inr (Inl ack)"
  proof
    assume "\<exists>e \<in> set (sv_pending m'). ps_scid e = h_scid h \<and> ps_opening e = packet
        \<and> ps_binding e = binding \<and> ps_cached_ack e = ack"
    then obtain e where e: "e \<in> set (sv_pending m')" "ps_scid e = h_scid h" "ps_opening e = packet"
      "ps_binding e = binding" "ps_cached_ack e = ack" by blast
    with live_entry_pending [OF key e(1)] live have "e \<in> set (sv_pending ?m)" by simp
    from keyed_find_pending [OF key' this] e(2)
    have "find (\<lambda>x. ps_scid x = h_scid h) (sv_pending ?m) = Some e" by simp
    with u v v' e show ?thesis by (simp add: ServerMachine_lookup_open_auth_def Let_def)
  next
    assume "\<exists>e \<in> set (sv_established m'). se_scid e = h_scid h \<and> se_opening e = packet
        \<and> se_binding e = binding \<and> se_cached_ack e = ack"
    then obtain e where e: "e \<in> set (sv_established m')" "se_scid e = h_scid h"
      "se_opening e = packet" "se_binding e = binding" "se_cached_ack e = ack" by blast
    with live_entry_established [OF key e(1)] live have "e \<in> set (sv_established ?m)" by simp
    from keyed_find_established [OF key' this] e(2)
    have "find (\<lambda>x. ps_scid x = h_scid h) (sv_pending ?m) = None"
      "find (\<lambda>x. se_scid x = h_scid h) (sv_established ?m) = Some e" by simp_all
    with u v v' e show ?thesis by (simp add: ServerMachine_lookup_open_auth_def Let_def)
  qed
  with b show ?thesis by (simp add: ServerMachine_receive_open_auth_def Let_def)
qed

end
