(* ===== verification/Handshake_Run.thy ===== *)
theory Handshake_Run
  imports Client_Machine Server_Machine
begin

text \<open>
  The two machines against each other: every message of an undisturbed handshake computed from the
  definitions of \<open>Client_Machine\<close> and \<open>Server_Machine\<close>, up to both ends holding the same keys, and
  what each end has verified about the other when it commits state.
\<close>

section \<open>Two machines configured for each other\<close>

definition matched :: "handshake_config \<Rightarrow> handshake_config \<Rightarrow> bool" where
  "matched ccfg scfg \<longleftrightarrow>
     hc_local ccfg = hc_peer scfg \<and> hc_peer ccfg = hc_local scfg
     \<and> hc_profile ccfg = hc_profile scfg
     \<and> hc_source ccfg = hc_source scfg \<and> hc_destination ccfg = hc_destination scfg"

text \<open>
  The preconditions of an undisturbed handshake: correct primitives, validated and matching
  configurations with room for the largest handshake packet (282 bytes), the right signing keys,
  and material of the sizes the Rust arrays have.
\<close>

definition honest_pair ::
    "crypto \<Rightarrow> client_machine \<Rightarrow> server_machine \<Rightarrow> client_material \<Rightarrow> server_handshake_material \<Rightarrow> bool"
  where
  "honest_pair c m s cm hm \<longleftrightarrow>
     crypto_ok c
     \<and> HandshakeConfig_validate c (cl_config m) = Inr () \<and> wf_config (cl_config m)
     \<and> HandshakeConfig_validate c (sv_config s) = Inr () \<and> wf_config (sv_config s)
     \<and> matched (cl_config m) (sv_config s)
     \<and> ed_verifying_key c (cl_signing_key m) = id_public_key (hc_local (cl_config m))
     \<and> ed_verifying_key c (sv_signing_key s) = id_public_key (hc_local (sv_config s))
     \<and> 282 \<le> hc_budget (cl_config m) \<and> 282 \<le> hc_budget (sv_config s)
     \<and> length (cm_nonce cm) = 32 \<and> length (shm_nonce hm) = 32
     \<and> length (svm_boot_instance (sv_material s)) = 16"

definition open_body :: "crypto \<Rightarrow> handshake_config \<Rightarrow> client_material \<Rightarrow> bytes" where
  "open_body c cfg cm =
     [id_role (hc_local cfg), id_role (hc_peer cfg)]
     @ u32_to_be_bytes (id_service_context (hc_local cfg)) @ id_eid (hc_local cfg)
     @ id_public_key (hc_local cfg) @ x_public c (cm_ephemeral_secret cm) @ cm_nonce cm"

definition handshake_image :: "handshake_config \<Rightarrow> bytes \<Rightarrow> bytes \<Rightarrow> u64 \<Rightarrow> u8 \<Rightarrow> bytes \<Rightarrow> bytes" where
  "handshake_image cfg src dst scid t body =
     header_image (session_header (hc_profile cfg) 0 0 scid src dst)
       ([t, SESSION_VERSION, hc_profile cfg, 0] @ body)"

lemma identity_lengths:
  assumes "wf_config cfg"
  shows "length (id_eid (hc_local cfg)) = 16" "length (id_public_key (hc_local cfg)) = 32"
    "length (id_eid (hc_peer cfg)) = 16" "length (id_public_key (hc_peer cfg)) = 32"
    "length (hc_source cfg) = 16" "length (hc_destination cfg) = 16"
  using assms by (simp_all add: wf_config_def wf_identity_def)

lemma config_roles:
  assumes "HandshakeConfig_validate c cfg = Inr ()"
  shows "id_role (hc_local cfg) = 1 \<and> id_role (hc_peer cfg) = 2
    \<or> id_role (hc_local cfg) = 2 \<and> id_role (hc_peer cfg) = 1"
  using assms by (auto simp: HandshakeConfig_validate_Inr Identity_validate_def split: if_splits)

lemma role_pair_ok:
  assumes "HandshakeConfig_validate c cfg = Inr ()"
  shows "validate_role_pair (id_role (hc_local cfg) # id_role (hc_peer cfg) # xs) = Inr ()"
    "validate_role_pair (id_role (hc_peer cfg) # id_role (hc_local cfg) # xs) = Inr ()"
  using config_roles [OF assms] by (auto simp: validate_role_pair_def)

text \<open>The handshake message bodies, by type and length.\<close>

lemma validate_body_handshake:
  assumes "validate_role_pair body = Inr ()"
    and "t = OPEN \<and> length body = 118 \<or> t = VERIFY_COOKIE \<and> length body = 118
      \<or> t = OPEN_AUTH \<and> length body = 230 \<or> t = OPEN_ACK \<and> length body = 182"
  shows "validate_body t body = Inr ()"
  using assms by (auto simp: validate_body_def exact_body_len_def session_consts)

lemma handshake_packet:
  assumes cfg: "HandshakeConfig_validate c cfg = Inr ()" "282 \<le> hc_budget cfg"
    and "scid \<noteq> 0" and roles: "validate_role_pair body = Inr ()"
    and t: "t = OPEN \<and> length body = 118 \<or> t = VERIFY_COOKIE \<and> length body = 118
      \<or> t = OPEN_AUTH \<and> length body = 230 \<or> t = OPEN_ACK \<and> length body = 182"
  shows "machine_packet cfg src dst scid t 0 0 body = Inr (handshake_image cfg src dst scid t body)"
proof -
  have "OPEN \<le> t" "t \<le> OPEN_ACK" "length body + 52 \<le> 282"
    using t by (auto simp: session_consts)
  with assms validate_body_handshake [OF roles t] show ?thesis
    unfolding handshake_image_def
    by (intro machine_packet_ok) (auto simp: HandshakeConfig_validate_Inr)
qed

text \<open>The receiving end reads such a packet back.\<close>

lemma handshake_unpack:
  assumes cfg: "HandshakeConfig_validate c cfg = Inr ()" "282 \<le> hc_budget cfg" "282 \<le> b"
    and "length src = 16" "length dst = 16" "scid \<noteq> 0" and roles: "validate_role_pair body = Inr ()"
    and t: "t = OPEN \<and> length body = 118 \<or> t = VERIFY_COOKIE \<and> length body = 118
      \<or> t = OPEN_AUTH \<and> length body = 230 \<or> t = OPEN_ACK \<and> length body = 182"
  shows "unpack_with_budget (handshake_image cfg src dst scid t body) b =
      Inr (session_header (hc_profile cfg) 0 0 scid src dst,
           [t, SESSION_VERSION, hc_profile cfg, 0] @ body)"
    and "SessionMessage_decode ([t, SESSION_VERSION, hc_profile cfg, 0] @ body) (hc_profile cfg) b =
      Inr \<lparr>sm_typ = t, sm_profile = hc_profile cfg, sm_body = body\<rparr>"
proof -
  have len: "length (handshake_image cfg src dst scid t body) \<le> 282"
    using t assms(4,5) by (auto simp: handshake_image_def length_header_image)
  note mp = handshake_packet [OF cfg(1,2) assms(6) roles t, of src dst]
  note up = conjunct1 [OF machine_packet_Inr [OF mp assms(4,5)]]
  from len cfg(3) show
    "unpack_with_budget (handshake_image cfg src dst scid t body) b =
      Inr (session_header (hc_profile cfg) 0 0 scid src dst,
           [t, SESSION_VERSION, hc_profile cfg, 0] @ body)"
    by (intro unpack_budget_mono [OF up]) simp
  have "OPEN \<le> t" "t \<le> CLOSE" "length body + 4 \<le> b"
    using t cfg(3) by (auto simp: session_consts)
  then show "SessionMessage_decode ([t, SESSION_VERSION, hc_profile cfg, 0] @ body) (hc_profile cfg) b =
      Inr \<lparr>sm_typ = t, sm_profile = hc_profile cfg, sm_body = body\<rparr>"
    using validate_body_handshake [OF roles t] by (simp add: SessionMessage_decode_def Let_def)
qed

section \<open>The messages of one run\<close>

lemma honest_facts:
  assumes "honest_pair c m s cm hm"
  shows "HandshakeConfig_validate c (cl_config m) = Inr ()"
    "HandshakeConfig_validate c (sv_config s) = Inr ()"
    "282 \<le> hc_budget (cl_config m)" "282 \<le> hc_budget (sv_config s)"
    "length (hc_source (cl_config m)) = 16" "length (hc_destination (cl_config m)) = 16"
    "hc_source (sv_config s) = hc_source (cl_config m)"
    "hc_destination (sv_config s) = hc_destination (cl_config m)"
    "hc_profile (sv_config s) = hc_profile (cl_config m)"
    "hc_peer (sv_config s) = hc_local (cl_config m)"
    "hc_local (sv_config s) = hc_peer (cl_config m)"
  using assms identity_lengths [of "cl_config m"]
  by (simp_all add: honest_pair_def matched_def)

lemma honest_lengths:
  assumes "honest_pair c m s cm hm"
  shows "length (id_eid (hc_local (cl_config m))) = 16"
    "length (id_public_key (hc_local (cl_config m))) = 32"
    "length (id_eid (hc_peer (cl_config m))) = 16"
    "length (id_public_key (hc_peer (cl_config m))) = 32"
    "length (cm_nonce cm) = 32" "length (shm_nonce hm) = 32"
    "length (svm_boot_instance (sv_material s)) = 16"
    "length (x_public c k) = 32" "length (sha256 c k) = 32" "length (hmac_sha256 c k k') = 32"
    "length (ed_sign c k k') = 64"
  using assms identity_lengths [of "cl_config m"]
  by (simp_all add: honest_pair_def crypto_ok_def hash_ok_def kex_ok_def signature_ok_def)

lemma open_body_length:
  assumes "honest_pair c m s cm hm"
  shows "length (open_body c (cl_config m) cm) = 118"
  by (simp add: open_body_def honest_lengths [OF assms])

lemma open_body_roles:
  assumes "honest_pair c m s cm hm"
  shows "validate_role_pair (open_body c (cl_config m) cm) = Inr ()"
  using role_pair_ok(1) [OF honest_facts(1) [OF assms]] by (simp add: open_body_def)

abbreviation client_open :: "crypto \<Rightarrow> client_machine \<Rightarrow> client_material \<Rightarrow> u64 \<Rightarrow> bytes" where
  "client_open c m cm scid \<equiv>
     handshake_image (cl_config m) (hc_source (cl_config m)) (hc_destination (cl_config m)) scid OPEN
       (open_body c (cl_config m) cm)"

lemma run_start:
  assumes "honest_pair c m s cm hm" "cl_state m = Idle" "scid \<noteq> 0"
  shows "ClientMachine_start c m scid cm t =
    (Inr (client_open c m cm scid),
     m\<lparr>cl_state := CookieWait scid cm (client_open c m cm scid) (saturating_add t 5000)\<rparr>)"
  using assms handshake_packet [OF honest_facts(1,3) [OF assms(1)] assms(3)
      open_body_roles [OF assms(1)], of OPEN] open_body_length [OF assms(1)]
  by (simp add: ClientMachine_start_def ClientMachine_packet_def Let_def open_body_def)

lemma identity_eta [simp]:
  "\<lparr>id_role = id_role i, id_service_context = id_service_context i, id_eid = id_eid i,
    id_public_key = id_public_key i\<rparr> = (i :: identity)"
  by simp

lemma client_identity_honest:
  assumes "honest_pair c m s cm hm"
    and "body = open_body c (cl_config m) cm @ rest"
  shows "ServerMachine_client_identity c s body = Inr (hc_local (cl_config m))"
proof -
  have "Identity_validate c (hc_local (cl_config m)) = Inr ()"
    "id_service_context (hc_peer (cl_config m)) = id_service_context (hc_local (cl_config m))"
    using honest_facts(1) [OF assms(1)] by (simp_all add: HandshakeConfig_validate_Inr)
  then show ?thesis
    by (simp add: ServerMachine_client_identity_def Let_def assms(2) open_body_def
        honest_facts(7-11) [OF assms(1)] honest_lengths [OF assms(1)])
qed

text \<open>The cookie context the server sees for this client.\<close>

definition run_cookie_context ::
    "crypto \<Rightarrow> client_machine \<Rightarrow> server_machine \<Rightarrow> client_material \<Rightarrow> u64 \<Rightarrow> ObservedBinding \<Rightarrow> u64 \<Rightarrow>
       cookie_context" where
  "run_cookie_context c m s cm scid binding bucket =
     \<lparr>cc_binding = binding, cc_client = hc_local (cl_config m), cc_server = hc_peer (cl_config m),
      cc_scid = scid, cc_client_ephemeral = x_public c (cm_ephemeral_secret cm),
      cc_boot = svm_boot_instance (sv_material s), cc_bucket = bucket,
      cc_server_context_id = hc_server_context_id (sv_config s)\<rparr>"

lemma run_cookie_input:
  assumes "honest_pair c m s cm hm" "ObservedBinding_validate binding = Inr ()"
  shows "\<exists>i. cookie_input c (run_cookie_context c m s cm scid binding bucket) = Inr i"
  using assms honest_facts(1,2) [OF assms(1)]
  by (simp add: cookie_input_def run_cookie_context_def HandshakeConfig_validate_Inr)

definition verify_body :: "crypto \<Rightarrow> client_machine \<Rightarrow> server_machine \<Rightarrow> client_material \<Rightarrow> bytes \<Rightarrow> bytes"
  where
  "verify_body c m s cm ck =
     [id_role (hc_peer (cl_config m)), id_role (hc_local (cl_config m))]
     @ u32_to_be_bytes (id_service_context (hc_peer (cl_config m)))
     @ id_public_key (hc_local (cl_config m))
     @ sha256 c (x_public c (cm_ephemeral_secret cm)) @ svm_boot_instance (sv_material s) @ ck"

abbreviation server_verify ::
    "crypto \<Rightarrow> client_machine \<Rightarrow> server_machine \<Rightarrow> client_material \<Rightarrow> u64 \<Rightarrow> bytes \<Rightarrow> bytes" where
  "server_verify c m s cm scid ck \<equiv>
     handshake_image (sv_config s) (hc_destination (cl_config m)) (hc_source (cl_config m)) scid
       VERIFY_COOKIE (verify_body c m s cm ck)"

lemma verify_body_ok:
  assumes "honest_pair c m s cm hm" "length ck = 32"
  shows "length (verify_body c m s cm ck) = 118" "validate_role_pair (verify_body c m s cm ck) = Inr ()"
  using role_pair_ok(2) [OF honest_facts(1) [OF assms(1)]] assms(2)
  by (simp_all add: verify_body_def honest_lengths [OF assms(1)])

lemma client_open_unpacks:
  assumes "honest_pair c m s cm hm" "scid \<noteq> 0" "282 \<le> b"
  shows "unpack_with_budget (client_open c m cm scid) b =
      Inr (session_header (hc_profile (cl_config m)) 0 0 scid (hc_source (cl_config m))
             (hc_destination (cl_config m)),
           [OPEN, SESSION_VERSION, hc_profile (cl_config m), 0] @ open_body c (cl_config m) cm)"
    "SessionMessage_decode ([OPEN, SESSION_VERSION, hc_profile (cl_config m), 0]
         @ open_body c (cl_config m) cm) (hc_profile (cl_config m)) b =
      Inr \<lparr>sm_typ = OPEN, sm_profile = hc_profile (cl_config m), sm_body = open_body c (cl_config m) cm\<rparr>"
  using handshake_unpack [OF honest_facts(1,3) [OF assms(1)] assms(3)
      honest_facts(5,6) [OF assms(1)] assms(2) open_body_roles [OF assms(1)], of OPEN]
    open_body_length [OF assms(1)] by simp_all

lemma run_receive_open:
  assumes h: "honest_pair c m s cm hm" and "scid \<noteq> 0" "ObservedBinding_validate binding = Inr ()"
    and i: "cookie_input c (run_cookie_context c m s cm scid binding bucket) = Inr i"
  shows "ServerMachine_receive_open c s (client_open c m cm scid) binding bucket =
    Inr (server_verify c m s cm scid (cookie c (svm_current_cookie_key (sv_material s)) i))"
proof -
  let ?ck = "cookie c (svm_current_cookie_key (sv_material s)) i"
  have ck: "length ?ck = 32" by (simp add: cookie_def honest_lengths [OF h])
  have "machine_packet (sv_config s) (hc_destination (cl_config m)) (hc_source (cl_config m)) scid
      VERIFY_COOKIE 0 0 (verify_body c m s cm ?ck) = Inr (server_verify c m s cm scid ?ck)"
    using verify_body_ok [OF h ck] honest_facts(2,4) [OF h] assms(2)
    by (intro handshake_packet) auto
  moreover have "ServerMachine_client_identity c s (open_body c (cl_config m) cm)
      = Inr (hc_local (cl_config m))"
    using client_identity_honest [OF h, of _ "[]"] by simp
  moreover have "slice_of 54 86 (open_body c (cl_config m) cm) = x_public c (cm_ephemeral_secret cm)"
    by (simp add: open_body_def honest_lengths [OF h])
  moreover have "ServerMachine_validate_handshake_header s
      (session_header (hc_profile (cl_config m)) 0 0 scid (hc_source (cl_config m))
        (hc_destination (cl_config m))) scid = Inr ()"
    by (simp add: ServerMachine_validate_handshake_header_def session_header_def
        honest_facts(7-9) [OF h])
  moreover have "h_scid (session_header (hc_profile (cl_config m)) 0 0 scid (hc_source (cl_config m))
        (hc_destination (cl_config m))) = scid" by (simp add: session_header_def)
  ultimately show ?thesis
    using client_open_unpacks [OF h assms(2) honest_facts(4) [OF h]] assms(3) i
    by (simp add: ServerMachine_receive_open_def Let_def honest_facts(7-11) [OF h]
        ServerMachine_packet_def verify_body_def run_cookie_context_def)
qed

section \<open>VERIFY_COOKIE and OPEN_AUTH\<close>

definition placeholder_transcript ::
    "crypto \<Rightarrow> handshake_config \<Rightarrow> client_material \<Rightarrow> u64 \<Rightarrow> bytes \<Rightarrow> transcript_context" where
  "placeholder_transcript c cfg cm scid boot =
     \<lparr>tc_profile = hc_profile cfg, tc_scid = scid, tc_client = hc_local cfg,
      tc_server = (hc_peer cfg)\<lparr>id_public_key := replicate 32 0\<rparr>,
      tc_client_ephemeral = x_public c (cm_ephemeral_secret cm),
      tc_server_ephemeral = replicate 32 0, tc_client_nonce = cm_nonce cm,
      tc_server_nonce = replicate 32 0, tc_boot = boot\<rparr>"

lemma placeholder_t0:
  assumes "HandshakeConfig_validate c cfg = Inr ()"
  shows "\<exists>t0. transcript_t0 c (placeholder_transcript c cfg cm scid boot) = Inr t0"
  using assms
  by (auto simp: transcript_t0_def placeholder_transcript_def HandshakeConfig_validate_Inr
      Identity_validate_def split: if_splits)

lemma placeholder_server [simp]:
  "\<lparr>id_role = id_role i, id_service_context = id_service_context i, id_eid = id_eid i,
    id_public_key = k\<rparr> = (i :: identity)\<lparr>id_public_key := k\<rparr>"
  by (cases i) simp

definition auth_body :: "crypto \<Rightarrow> client_machine \<Rightarrow> server_machine \<Rightarrow> client_material \<Rightarrow> bytes \<Rightarrow>
    bytes \<Rightarrow> bytes" where
  "auth_body c m s cm ck sig =
     open_body c (cl_config m) cm @ svm_boot_instance (sv_material s) @ ck @ sig"

abbreviation client_auth ::
    "crypto \<Rightarrow> client_machine \<Rightarrow> server_machine \<Rightarrow> client_material \<Rightarrow> u64 \<Rightarrow> bytes \<Rightarrow> bytes \<Rightarrow> bytes" where
  "client_auth c m s cm scid ck sig \<equiv>
     handshake_image (cl_config m) (hc_source (cl_config m)) (hc_destination (cl_config m)) scid
       OPEN_AUTH (auth_body c m s cm ck sig)"

lemma auth_body_ok:
  assumes "honest_pair c m s cm hm" "length ck = 32" "length sig = 64"
  shows "length (auth_body c m s cm ck sig) = 230"
    "validate_role_pair (auth_body c m s cm ck sig) = Inr ()"
  using role_pair_ok(1) [OF honest_facts(1) [OF assms(1)]] assms(2,3)
  by (simp_all add: auth_body_def open_body_def honest_lengths [OF assms(1)])

lemma server_verify_unpacks:
  assumes "honest_pair c m s cm hm" "scid \<noteq> 0" "282 \<le> b" "length ck = 32"
  shows "unpack_with_budget (server_verify c m s cm scid ck) b =
      Inr (session_header (hc_profile (cl_config m)) 0 0 scid (hc_destination (cl_config m))
             (hc_source (cl_config m)),
           [VERIFY_COOKIE, SESSION_VERSION, hc_profile (cl_config m), 0] @ verify_body c m s cm ck)"
  using handshake_unpack(1) [OF honest_facts(2,4) [OF assms(1)] assms(3)
      honest_facts(6,5) [OF assms(1)] assms(2) verify_body_ok(2) [OF assms(1,4)], of VERIFY_COOKIE]
    verify_body_ok(1) [OF assms(1,4)] by (simp add: honest_facts(9) [OF assms(1)])

lemma run_validate_verify:
  assumes h: "honest_pair c m s cm hm" and "scid \<noteq> 0" "length ck = 32"
  shows "ClientMachine_validate_verify_cookie c (m\<lparr>cl_state := st\<rparr>) (server_verify c m s cm scid ck)
      scid cm (client_open c m cm scid) =
    Inr (session_header (hc_profile (cl_config m)) 0 0 scid (hc_destination (cl_config m))
             (hc_source (cl_config m)), svm_boot_instance (sv_material s), ck)"
proof -
  have "id_service_context (hc_peer (cl_config m)) = id_service_context (hc_local (cl_config m))"
    using honest_facts(1) [OF h] by (simp add: HandshakeConfig_validate_Inr)
  then show ?thesis
    using client_open_unpacks(1) [OF h assms(2) honest_facts(3) [OF h]]
      server_verify_unpacks [OF h assms(2) honest_facts(3) [OF h] assms(3)] assms(3)
    by (simp add: ClientMachine_validate_verify_cookie_def Let_def session_header_def
        open_body_def verify_body_def honest_lengths [OF h])
qed

definition auth_signature :: "crypto \<Rightarrow> client_machine \<Rightarrow> bytes \<Rightarrow> bytes" where
  "auth_signature c m t0 = sign_open_auth c (cl_signing_key m) t0"

lemma length_auth_signature: "honest_pair c m s cm hm \<Longrightarrow> length (auth_signature c m t0) = 64"
  by (simp add: auth_signature_def sign_open_auth_def sign_def honest_lengths)

lemma run_receive_verify:
  assumes h: "honest_pair c m s cm hm" and "scid \<noteq> 0" "length ck = 32" "t < d"
    and t0: "transcript_t0 c (placeholder_transcript c (cl_config m) cm scid
        (svm_boot_instance (sv_material s))) = Inr t0"
  shows "ClientMachine_receive_verify c
      (m\<lparr>cl_state := CookieWait scid cm (client_open c m cm scid) d\<rparr>)
      (server_verify c m s cm scid ck) t =
    (Inr (client_auth c m s cm scid ck (auth_signature c m t0)),
     m\<lparr>cl_state := AuthWait scid cm (svm_boot_instance (sv_material s)) (client_open c m cm scid)
          (session_header (hc_profile (cl_config m)) 0 0 scid (hc_destination (cl_config m))
             (hc_source (cl_config m))) ck
          (client_auth c m s cm scid ck (auth_signature c m t0)) d\<rparr>)"
proof -
  let ?sig = "auth_signature c m t0"
  let ?st = "CookieWait scid cm (client_open c m cm scid) d"
  have "ClientMachine_packet (m\<lparr>cl_state := ?st\<rparr>) scid OPEN_AUTH 0 0 (auth_body c m s cm ck ?sig)
      = Inr (client_auth c m s cm scid ck ?sig)"
    using handshake_packet [OF honest_facts(1,3) [OF h] assms(2)
        auth_body_ok(2) [OF h assms(3) length_auth_signature [OF h]], of OPEN_AUTH]
      auth_body_ok(1) [OF h assms(3) length_auth_signature [OF h]]
    by (simp add: ClientMachine_packet_def)
  then have "ClientMachine_open_auth c (m\<lparr>cl_state := ?st\<rparr>) (server_verify c m s cm scid ck) scid cm
      (client_open c m cm scid) =
    Inr (session_header (hc_profile (cl_config m)) 0 0 scid (hc_destination (cl_config m))
         (hc_source (cl_config m)), svm_boot_instance (sv_material s), ck, client_open c m cm scid,
       client_auth c m s cm scid ck ?sig)"
    using run_validate_verify [OF h assms(2,3), of ?st] t0
    by (simp add: ClientMachine_open_auth_def Let_def placeholder_transcript_def auth_body_def
        open_body_def auth_signature_def)
  then show ?thesis
    using assms(4)
    by (simp add: ClientMachine_receive_verify_def
        ClientMachine_release_cookie_wait_if_expired_def not_le)
qed

section \<open>Keys\<close>

definition run_transcript ::
    "crypto \<Rightarrow> client_machine \<Rightarrow> server_machine \<Rightarrow> client_material \<Rightarrow> server_handshake_material \<Rightarrow> u64 \<Rightarrow>
       transcript_context" where
  "run_transcript c m s cm hm scid =
     \<lparr>tc_profile = hc_profile (cl_config m), tc_scid = scid, tc_client = hc_local (cl_config m),
      tc_server = hc_peer (cl_config m),
      tc_client_ephemeral = x_public c (cm_ephemeral_secret cm),
      tc_server_ephemeral = x_public c (shm_ephemeral_secret hm), tc_client_nonce = cm_nonce cm,
      tc_server_nonce = shm_nonce hm, tc_boot = svm_boot_instance (sv_material s)\<rparr>"

lemma run_t0:
  assumes "honest_pair c m s cm hm"
  shows "\<exists>t0. transcript_t0 c (run_transcript c m s cm hm scid) = Inr t0"
  using honest_facts(1) [OF assms]
  by (auto simp: transcript_t0_def run_transcript_def HandshakeConfig_validate_Inr
      Identity_validate_def split: if_splits)

text \<open>Everything the two ends compute from the same run.\<close>

definition ack_signature :: "crypto \<Rightarrow> server_machine \<Rightarrow> bytes \<Rightarrow> bytes" where
  "ack_signature c s t0 = sign_open_ack c (sv_signing_key s) t0"

definition run_hash :: "crypto \<Rightarrow> client_machine \<Rightarrow> server_machine \<Rightarrow> bytes \<Rightarrow> bytes \<Rightarrow> bytes" where
  "run_hash c m s p0 t0 = transcript_hash c t0 (auth_signature c m p0) (ack_signature c s t0)"

definition run_schedule ::
    "crypto \<Rightarrow> client_machine \<Rightarrow> server_machine \<Rightarrow> client_material \<Rightarrow> server_handshake_material \<Rightarrow>
       bytes \<Rightarrow> bytes \<Rightarrow> bytes" where
  "run_schedule c m s cm hm p0 t0 = hkdf_prk_bytes c
     (x_diffie_hellman c (cm_ephemeral_secret cm) (x_public c (shm_ephemeral_secret hm)))
     (run_hash c m s p0 t0)"

definition run_key ::
    "crypto \<Rightarrow> client_machine \<Rightarrow> server_machine \<Rightarrow> client_material \<Rightarrow> server_handshake_material \<Rightarrow>
       bytes \<Rightarrow> bytes \<Rightarrow> u8 \<Rightarrow> u8 \<Rightarrow> SessionError + bytes" where
  "run_key c m s cm hm p0 t0 sender receiver =
     derive_key_from_prk c (run_schedule c m s cm hm p0 t0) (run_hash c m s p0 t0)
       (hc_profile (cl_config m)) sender receiver 0"

lemma run_key_ok:
  assumes "honest_pair c m s cm hm"
  shows "\<exists>k. run_key c m s cm hm p0 t0 (id_role (hc_local (cl_config m)))
      (id_role (hc_peer (cl_config m))) = Inr k"
    "\<exists>k. run_key c m s cm hm p0 t0 (id_role (hc_peer (cl_config m)))
      (id_role (hc_local (cl_config m))) = Inr k"
proof -
  have "kex_ok c" using assms by (simp add: honest_pair_def crypto_ok_def)
  then have e: "\<exists>k. hkdf_expand c prk info 32 = Some k" for prk info
    unfolding kex_ok_def by blast
  show "\<exists>k. run_key c m s cm hm p0 t0 (id_role (hc_local (cl_config m)))
      (id_role (hc_peer (cl_config m))) = Inr k"
    "\<exists>k. run_key c m s cm hm p0 t0 (id_role (hc_peer (cl_config m)))
      (id_role (hc_local (cl_config m))) = Inr k"
    using config_roles [OF honest_facts(1) [OF assms]] e
    by (auto simp: run_key_def derive_key_from_prk_def)
qed

lemma run_shared:
  assumes "honest_pair c m s cm hm"
    and "x_diffie_hellman c (cm_ephemeral_secret cm) (x_public c (shm_ephemeral_secret hm))
      \<noteq> replicate 32 0"
  shows "x25519 c (cm_ephemeral_secret cm) (x_public c (shm_ephemeral_secret hm)) =
      Inr (x_diffie_hellman c (cm_ephemeral_secret cm) (x_public c (shm_ephemeral_secret hm)))"
    "x25519 c (shm_ephemeral_secret hm) (x_public c (cm_ephemeral_secret cm)) =
      Inr (x_diffie_hellman c (cm_ephemeral_secret cm) (x_public c (shm_ephemeral_secret hm)))"
proof -
  have "x_diffie_hellman c (shm_ephemeral_secret hm) (x_public c (cm_ephemeral_secret cm)) =
      x_diffie_hellman c (cm_ephemeral_secret cm) (x_public c (shm_ephemeral_secret hm))"
    using assms(1) unfolding honest_pair_def crypto_ok_def kex_ok_def by blast
  with assms(2) show
    "x25519 c (cm_ephemeral_secret cm) (x_public c (shm_ephemeral_secret hm)) =
      Inr (x_diffie_hellman c (cm_ephemeral_secret cm) (x_public c (shm_ephemeral_secret hm)))"
    "x25519 c (shm_ephemeral_secret hm) (x_public c (cm_ephemeral_secret cm)) =
      Inr (x_diffie_hellman c (cm_ephemeral_secret cm) (x_public c (shm_ephemeral_secret hm)))"
    by (simp_all add: x25519_def)
qed

lemma own_signature_verifies:
  assumes "honest_pair c m s cm hm"
  shows "verify_signature c (id_public_key (hc_local (cl_config m))) (ascii ''R8 OPEN_AUTH v1'') t0
      (auth_signature c m t0) = Inr ()"
    "verify_signature c (id_public_key (hc_peer (cl_config m))) (ascii ''R8 OPEN_ACK v1'') t0
      (ack_signature c s t0) = Inr ()"
proof -
  have so: "signature_ok c" using assms by (simp add: honest_pair_def crypto_ok_def)
  have k: "id_public_key (hc_local (cl_config m)) = ed_verifying_key c (cl_signing_key m)"
    "id_public_key (hc_peer (cl_config m)) = ed_verifying_key c (sv_signing_key s)"
    using assms by (simp_all add: honest_pair_def matched_def)
  show "verify_signature c (id_public_key (hc_local (cl_config m))) (ascii ''R8 OPEN_AUTH v1'') t0
      (auth_signature c m t0) = Inr ()"
    "verify_signature c (id_public_key (hc_peer (cl_config m))) (ascii ''R8 OPEN_ACK v1'') t0
      (ack_signature c s t0) = Inr ()"
    using so unfolding k
    by (simp_all add: verify_signature_def auth_signature_def ack_signature_def sign_open_auth_def
        sign_open_ack_def sign_def signature_ok_def)
qed

section \<open>OPEN_AUTH at the server\<close>

definition ack_body ::
    "crypto \<Rightarrow> client_machine \<Rightarrow> server_handshake_material \<Rightarrow> bytes \<Rightarrow> bytes" where
  "ack_body c m hm sig =
     [id_role (hc_peer (cl_config m)), id_role (hc_local (cl_config m))]
     @ u32_to_be_bytes (id_service_context (hc_peer (cl_config m)))
     @ id_eid (hc_peer (cl_config m)) @ id_public_key (hc_peer (cl_config m))
     @ x_public c (shm_ephemeral_secret hm) @ shm_nonce hm @ sig"

abbreviation server_ack ::
    "crypto \<Rightarrow> client_machine \<Rightarrow> server_machine \<Rightarrow> server_handshake_material \<Rightarrow> u64 \<Rightarrow> bytes \<Rightarrow> bytes" where
  "server_ack c m s hm scid sig \<equiv>
     handshake_image (sv_config s) (hc_destination (cl_config m)) (hc_source (cl_config m)) scid
       OPEN_ACK (ack_body c m hm sig)"

lemma ack_body_ok:
  assumes "honest_pair c m s cm hm" "length sig = 64"
  shows "length (ack_body c m hm sig) = 182" "validate_role_pair (ack_body c m hm sig) = Inr ()"
  using role_pair_ok(2) [OF honest_facts(1) [OF assms(1)]] assms(2)
  by (simp_all add: ack_body_def honest_lengths [OF assms(1)])

lemma length_ack_signature: "honest_pair c m s cm hm \<Longrightarrow> length (ack_signature c s t0) = 64"
  by (simp add: ack_signature_def sign_open_ack_def sign_def honest_lengths)

lemma auth_body_slices:
  assumes "honest_pair c m s cm hm" "length ck = 32" "length sig = 64"
  shows "slice_of 54 86 (auth_body c m s cm ck sig) = x_public c (cm_ephemeral_secret cm)"
    "slice_of 86 118 (auth_body c m s cm ck sig) = cm_nonce cm"
    "slice_of 118 134 (auth_body c m s cm ck sig) = svm_boot_instance (sv_material s)"
    "slice_of 134 166 (auth_body c m s cm ck sig) = ck"
    "slice_of 166 230 (auth_body c m s cm ck sig) = sig"
  using assms(2,3) by (simp_all add: auth_body_def open_body_def honest_lengths [OF assms(1)])

lemma run_cookie_matches:
  assumes "honest_pair c m s cm hm"
    and i: "cookie_input c (run_cookie_context c m s cm scid binding b) = Inr i"
    and recent: "unat b \<le> unat now div 10000" "unat now div 10000 \<le> Suc (unat b)"
  shows "cookie_matches_buckets c (svm_current_cookie_key (sv_material s)) prev rot
      (cookie c (svm_current_cookie_key (sv_material s)) i)
      (run_cookie_context c m s cm scid binding bucket) now = Inr True"
proof -
  let ?ctx = "run_cookie_context c m s cm scid binding bucket"
  let ?k = "svm_current_cookie_key (sv_material s)"
  have b: "?ctx\<lparr>cc_bucket := b\<rparr> = run_cookie_context c m s cm scid binding b"
    by (simp add: run_cookie_context_def)
  have "?ctx = (run_cookie_context c m s cm scid binding b)\<lparr>cc_bucket := bucket\<rparr>"
    by (simp add: run_cookie_context_def)
  then obtain j where j: "cookie_input c ?ctx = Inr j" using cookie_input_bucket [OF i] by metis
  have "cookie_made_with c ?ctx ?k b (cookie c ?k i)"
    using i b by (simp add: cookie_made_with_def)
  moreover have "b = now div 10000 \<or> Some b = checked_sub (now div 10000) 1"
    using recent recent_bucket_iff by blast
  ultimately show ?thesis unfolding cookie_matches_buckets_eq [OF j] by blast
qed

lemma run_check_open_auth:
  assumes h: "honest_pair c m s cm hm" and "scid \<noteq> 0"
    and i: "cookie_input c (run_cookie_context c m s cm scid binding b) = Inr i"
    and recent: "unat b \<le> unat now div 10000" "unat now div 10000 \<le> Suc (unat b)"
    and dh: "x_diffie_hellman c (cm_ephemeral_secret cm) (x_public c (shm_ephemeral_secret hm))
      \<noteq> replicate 32 0"
    and p0: "transcript_t0 c (placeholder_transcript c (cl_config m) cm scid
        (svm_boot_instance (sv_material s))) = Inr p0"
    and t0: "transcript_t0 c (run_transcript c m s cm hm scid) = Inr t0"
    and k: "run_key c m s cm hm p0 t0 (id_role (hc_peer (cl_config m)))
          (id_role (hc_local (cl_config m))) = Inr k_sc"
      "run_key c m s cm hm p0 t0 (id_role (hc_local (cl_config m)))
          (id_role (hc_peer (cl_config m))) = Inr k_cs"
    and s': "sv_config s' = sv_config s" "sv_material s' = sv_material s"
      "sv_signing_key s' = sv_signing_key s" "length (sv_pending s') < hc_pending_limit (sv_config s)"
    and ck: "ck = cookie c (svm_current_cookie_key (sv_material s)) i"
  shows "ServerMachine_check_open_auth c s'
      (session_header (hc_profile (cl_config m)) 0 0 scid (hc_source (cl_config m))
         (hc_destination (cl_config m)))
      (auth_body c m s cm ck (auth_signature c m p0)) binding now bucket (Some hm) =
    Inr (server_ack c m s hm scid (ack_signature c s t0), k_sc, k_cs, run_hash c m s p0 t0,
         run_schedule c m s cm hm p0 t0)"
proof -
  let ?sig = "auth_signature c m p0" and ?asig = "ack_signature c s t0"
  have len: "length ck = 32" "length ?sig = 64" "length ?asig = 64"
    by (simp_all add: ck cookie_def honest_lengths [OF h] length_auth_signature [OF h]
        length_ack_signature [OF h])
  note sl = auth_body_slices [OF h len(1,2)]
  have id: "ServerMachine_client_identity c s' (auth_body c m s cm ck ?sig) = Inr (hc_local (cl_config m))"
    using client_identity_honest [OF h, of "auth_body c m s cm ck ?sig"] s'(1)
    by (simp add: auth_body_def ServerMachine_client_identity_def)
  have cm: "cookie_matches_buckets c (svm_current_cookie_key (sv_material s))
      (svm_previous_cookie_key (sv_material s)) (svm_previous_key_rotated_ms (sv_material s)) ck
      (run_cookie_context c m s cm scid binding bucket) now = Inr True"
    unfolding ck by (rule run_cookie_matches [OF h i recent])
  have pk: "machine_packet (sv_config s) (hc_destination (cl_config m)) (hc_source (cl_config m)) scid
      OPEN_ACK 0 0 (ack_body c m hm ?asig) = Inr (server_ack c m s hm scid ?asig)"
    using ack_body_ok [OF h len(3)] honest_facts(2,4) [OF h] assms(2)
    by (intro handshake_packet) auto
  have sc: "h_scid (session_header (hc_profile (cl_config m)) 0 0 scid (hc_source (cl_config m))
        (hc_destination (cl_config m))) = scid" by (simp add: session_header_def)
  show ?thesis
    using cm pk k p0 t0 run_shared [OF h dh] own_signature_verifies(1) [OF h, of p0] s'(4)
    unfolding ServerMachine_check_open_auth_def Let_def id sl sc s'(1-3)
    by (simp add: run_cookie_context_def placeholder_transcript_def run_transcript_def
        honest_facts(7-11) [OF h] run_key_def run_hash_def run_schedule_def
        ServerMachine_packet_def ack_body_def s'(1) ack_signature_def [symmetric])
qed

lemma not_live_find:
  assumes "\<not> ServerMachine_is_live s scid"
  shows "find (\<lambda>e. ps_scid e = scid) (sv_pending (ServerMachine_expire s now)) = None"
    "find (\<lambda>e. se_scid e = scid) (sv_established (ServerMachine_expire s now)) = None"
  using assms by (auto simp: live_pending find_None_iff ServerMachine_expire_def)

definition run_pending ::
    "crypto \<Rightarrow> client_machine \<Rightarrow> server_machine \<Rightarrow> client_material \<Rightarrow> server_handshake_material \<Rightarrow> u64 \<Rightarrow>
       ObservedBinding \<Rightarrow> bytes \<Rightarrow> bytes \<Rightarrow> bytes \<Rightarrow> u64 \<Rightarrow> directional_session \<Rightarrow> pending_session" where
  "run_pending c m s cm hm scid binding ck p0 t0 now ss =
     \<lparr>ps_scid = scid, ps_opening = client_auth c m s cm scid ck (auth_signature c m p0),
      ps_cached_ack = server_ack c m s hm scid (ack_signature c s t0), ps_binding = binding,
      ps_deadline_ms = saturating_add now 5000, ps_session = ss,
      ps_schedule = (if hc_profile (cl_config m) = 3
                     then Some (run_schedule c m s cm hm p0 t0) else None)\<rparr>"

lemma run_receive_open_auth:
  assumes h: "honest_pair c m s cm hm" and "scid \<noteq> 0" "ObservedBinding_validate binding = Inr ()"
    and i: "cookie_input c (run_cookie_context c m s cm scid binding b) = Inr i"
    and recent: "unat b \<le> unat now div 10000" "unat now div 10000 \<le> Suc (unat b)"
    and dh: "x_diffie_hellman c (cm_ephemeral_secret cm) (x_public c (shm_ephemeral_secret hm))
      \<noteq> replicate 32 0"
    and p0: "transcript_t0 c (placeholder_transcript c (cl_config m) cm scid
        (svm_boot_instance (sv_material s))) = Inr p0"
    and t0: "transcript_t0 c (run_transcript c m s cm hm scid) = Inr t0"
    and k: "run_key c m s cm hm p0 t0 (id_role (hc_peer (cl_config m)))
          (id_role (hc_local (cl_config m))) = Inr k_sc"
      "run_key c m s cm hm p0 t0 (id_role (hc_local (cl_config m)))
          (id_role (hc_peer (cl_config m))) = Inr k_cs"
    and ck: "ck = cookie c (svm_current_cookie_key (sv_material s)) i"
    and free: "\<not> ServerMachine_is_live s scid" "length (sv_pending s) < hc_pending_limit (sv_config s)"
    and new: "DirectionalSession_new k_sc k_cs (run_hash c m s p0 t0) (hc_budget (sv_config s)) n
      = Some (ss, n')"
  shows "ServerMachine_receive_open_auth c s
      (client_auth c m s cm scid ck (auth_signature c m p0)) binding now bucket (Some hm) n =
    Some (Inr (server_ack c m s hm scid (ack_signature c s t0)),
      (ServerMachine_expire s now)\<lparr>sv_pending := sv_pending (ServerMachine_expire s now)
         @ [run_pending c m s cm hm scid binding ck p0 t0 now ss]\<rparr>, n')"
proof -
  let ?s = "ServerMachine_expire s now" and ?sig = "auth_signature c m p0"
  let ?h = "session_header (hc_profile (cl_config m)) 0 0 scid (hc_source (cl_config m))
         (hc_destination (cl_config m))"
  have len: "length ck = 32" "length ?sig = 64"
    by (simp_all add: ck cookie_def honest_lengths [OF h] length_auth_signature [OF h])
  note ab = auth_body_ok [OF h len]
  have t: "OPEN_AUTH = OPEN \<and> length (auth_body c m s cm ck ?sig) = 118 \<or>
      OPEN_AUTH = VERIFY_COOKIE \<and> length (auth_body c m s cm ck ?sig) = 118 \<or>
      OPEN_AUTH = OPEN_AUTH \<and> length (auth_body c m s cm ck ?sig) = 230 \<or>
      OPEN_AUTH = OPEN_ACK \<and> length (auth_body c m s cm ck ?sig) = 182" using ab(1) by simp
  note u = handshake_unpack [OF honest_facts(1,3,4) [OF h] honest_facts(5,6) [OF h] assms(2) ab(2) t]
  have cap: "length (sv_pending ?s) < hc_pending_limit (sv_config s)"
    using free(2) by (auto simp: ServerMachine_expire_def intro: le_less_trans [OF length_filter_le])
  have mat: "sv_material ?s = sv_material s" "sv_signing_key ?s = sv_signing_key s"
    by (simp_all add: ServerMachine_expire_def)
  have sc: "h_scid ?h = scid" by (simp add: session_header_def)
  have "ServerMachine_validate_handshake_header ?s ?h scid = Inr ()"
    by (simp add: ServerMachine_validate_handshake_header_def session_header_def
        honest_facts(7-9) [OF h])
  then have "ServerMachine_lookup_open_auth ?s (client_auth c m s cm scid ck ?sig) binding =
      Inr (Inr (?h, auth_body c m s cm ck ?sig))"
    using u not_live_find [OF free(1), of now]
    by (simp add: ServerMachine_lookup_open_auth_def Let_def honest_facts(9) [OF h] sc)
  moreover note run_check_open_auth [OF h assms(2) i recent dh p0 t0 k expire_config mat cap ck,
      of bucket]
  ultimately show ?thesis
    using assms(3) new
    by (simp add: ServerMachine_receive_open_auth_def Let_def sc run_pending_def
        honest_facts(9) [OF h])
qed

section \<open>OPEN_ACK at the client\<close>

lemma run_check_ack:
  assumes h: "honest_pair c m s cm hm" and "scid \<noteq> 0" "length ck = 32"
    and dh: "x_diffie_hellman c (cm_ephemeral_secret cm) (x_public c (shm_ephemeral_secret hm))
      \<noteq> replicate 32 0"
    and t0: "transcript_t0 c (run_transcript c m s cm hm scid) = Inr t0"
    and k: "run_key c m s cm hm p0 t0 (id_role (hc_peer (cl_config m)))
          (id_role (hc_local (cl_config m))) = Inr k_sc"
      "run_key c m s cm hm p0 t0 (id_role (hc_local (cl_config m)))
          (id_role (hc_peer (cl_config m))) = Inr k_cs"
  shows "ClientMachine_check_ack c (m\<lparr>cl_state := st\<rparr>)
      (server_ack c m s hm scid (ack_signature c s t0)) scid cm (svm_boot_instance (sv_material s))
      (client_auth c m s cm scid ck (auth_signature c m p0)) =
    Inr (k_cs, k_sc, run_hash c m s p0 t0, run_schedule c m s cm hm p0 t0)"
proof -
  let ?sig = "auth_signature c m p0" and ?asig = "ack_signature c s t0"
  have len: "length ?sig = 64" "length ?asig = 64"
    by (simp_all add: length_auth_signature [OF h] length_ack_signature [OF h])
  note ab = auth_body_ok [OF h assms(3) len(1)] and kb = ack_body_ok [OF h len(2)]
  have t: "OPEN_AUTH = OPEN \<and> length (auth_body c m s cm ck ?sig) = 118 \<or>
      OPEN_AUTH = VERIFY_COOKIE \<and> length (auth_body c m s cm ck ?sig) = 118 \<or>
      OPEN_AUTH = OPEN_AUTH \<and> length (auth_body c m s cm ck ?sig) = 230 \<or>
      OPEN_AUTH = OPEN_ACK \<and> length (auth_body c m s cm ck ?sig) = 182" using ab(1) by simp
  have t': "OPEN_ACK = OPEN \<and> length (ack_body c m hm ?asig) = 118 \<or>
      OPEN_ACK = VERIFY_COOKIE \<and> length (ack_body c m hm ?asig) = 118 \<or>
      OPEN_ACK = OPEN_AUTH \<and> length (ack_body c m hm ?asig) = 230 \<or>
      OPEN_ACK = OPEN_ACK \<and> length (ack_body c m hm ?asig) = 182" using kb(1) by simp
  have au: "unpack (client_auth c m s cm scid ck ?sig) =
      Inr (session_header (hc_profile (cl_config m)) 0 0 scid (hc_source (cl_config m))
         (hc_destination (cl_config m)),
        [OPEN_AUTH, SESSION_VERSION, hc_profile (cl_config m), 0] @ auth_body c m s cm ck ?sig)"
    unfolding unpack_def
    by (rule handshake_unpack(1) [OF honest_facts(1,3) [OF h] _ honest_facts(5,6) [OF h] assms(2) ab(2) t])
      (simp add: wire_consts)
  note ku = handshake_unpack [OF honest_facts(2,4,3) [OF h] honest_facts(6,5) [OF h] assms(2) kb(2) t']
  have sl: "slice_of 54 86 (ack_body c m hm ?asig) = x_public c (shm_ephemeral_secret hm)"
    "slice_of 86 118 (ack_body c m hm ?asig) = shm_nonce hm"
    "slice_of 118 182 (ack_body c m hm ?asig) = ?asig"
    "slice_of 6 22 (ack_body c m hm ?asig) = id_eid (hc_peer (cl_config m))"
    "slice_of 22 54 (ack_body c m hm ?asig) = id_public_key (hc_peer (cl_config m))"
    "u32_from_be_bytes (slice_of 2 6 (ack_body c m hm ?asig)) = id_service_context (hc_peer (cl_config m))"
    "ack_body c m hm ?asig ! 0 = id_role (hc_peer (cl_config m))"
    "ack_body c m hm ?asig ! 1 = id_role (hc_local (cl_config m))"
    using len(2) by (simp_all add: ack_body_def honest_lengths [OF h])
  show ?thesis
    using ku au t0 k run_shared [OF h dh] own_signature_verifies(2) [OF h, of t0]
      auth_body_slices(5) [OF h assms(3) len(1)]
    by (simp add: ClientMachine_check_ack_def Let_def honest_facts(9) [OF h] sl
        session_header_def run_transcript_def [symmetric] run_hash_def run_key_def
        run_schedule_def del: One_nat_def)
qed

lemma run_hash_length: "honest_pair c m s cm hm \<Longrightarrow> length (run_hash c m s p0 t0) = 32"
  by (simp add: run_hash_def transcript_hash_def honest_lengths)

section \<open>SESSION_ACCEPT\<close>

lemma new_session_fields:
  assumes "DirectionalSession_new k1 k2 th b n = Some (ds, n')"
  shows "ds_send_key ds = k1" "ds_receive_key ds = k2" "ds_transcript_hash ds = th"
    "ds_receive_budget ds = b" "ds_replay ds = ReplayWindow_new" "next_counter ds = 1"
  using assms
  by (auto simp: DirectionalSession_new_def Counters_new_def split: option.splits prod.splits)

text \<open>What the client sends last, and how it looks to whoever unpacks it.\<close>

lemma run_accept_packet:
  assumes h: "honest_pair c m s cm hm" and "scid \<noteq> 0"
    and new: "DirectionalSession_new k_cs k_sc (run_hash c m s p0 t0) (hc_budget (cl_config m)) n
      = Some (cs, n')"
  obtains accept ct where
    "DirectionalSession_encrypt c cs
       (session_header (hc_profile (cl_config m)) 1 0 scid (hc_source (cl_config m))
          (hc_destination (cl_config m))) SESSION_ACCEPT
       (ascii ''R8 ACCEPT v1'' @ run_hash c m s p0 t0) (hc_budget (cl_config m))
      = (Inr accept, counter_used cs)"
    "\<And>b. 282 \<le> b \<Longrightarrow> unpack_with_budget accept b =
      Inr (session_header (hc_profile (cl_config m)) 1 0 scid (hc_source (cl_config m))
          (hc_destination (cl_config m)), protected_payload SESSION_ACCEPT (hc_profile (cl_config m)) 1 ct)"
    "length ct = length (ascii ''R8 ACCEPT v1'' @ run_hash c m s p0 t0) + 16"
    "open_sealed c k_cs 1 (packet_aad (session_header (hc_profile (cl_config m)) 1 0 scid
          (hc_source (cl_config m)) (hc_destination (cl_config m))) SESSION_ACCEPT 1 ct) ct
      = Inr (ascii ''R8 ACCEPT v1'' @ run_hash c m s p0 t0)"
proof -
  let ?h = "session_header (hc_profile (cl_config m)) 1 0 scid (hc_source (cl_config m))
          (hc_destination (cl_config m))"
  let ?pt = "ascii ''R8 ACCEPT v1'' @ run_hash c m s p0 t0"
  have aead: "aead_ok c" using h by (simp add: honest_pair_def crypto_ok_def)
  have wf: "wf_header ?h" using honest_facts(5,6) [OF h] by simp
  have lpt: "length ?pt = 44" by (simp add: run_hash_length [OF h])
  have ok: "protected_type SESSION_ACCEPT" "plaintext_fits SESSION_ACCEPT ?pt"
    using lpt by (simp_all add: protected_type_def plaintext_fits_def session_consts)
  have ses: "ses_header_ok ?h SESSION_ACCEPT"
    using honest_facts(1) [OF h] assms(2)
    by (simp add: ses_header_ok_def session_header_def validate_ses_header_def session_consts
        HandshakeConfig_validate_Inr not_less)
  have n1: "next_counter cs = 1" using new_session_fields [OF new] by simp
  then have n: "next_counter cs \<noteq> 0" "next_counter cs \<noteq> u64_max" by simp_all
  have "length ?pt + 76 \<le> hc_budget (cl_config m)" "length ?pt + 76 \<le> 1280"
    using lpt honest_facts(3) [OF h] by simp_all
  from encrypt_ok [OF aead wf ok ses this n] obtain accept where
    e: "DirectionalSession_encrypt c cs ?h SESSION_ACCEPT ?pt (hc_budget (cl_config m))
        = (Inr accept, counter_used cs)" by blast
  then have w: "encrypt_with_counter c (ds_send_key cs) (next_counter cs) ?h SESSION_ACCEPT ?pt
      (length ?pt + 28) (hc_budget (cl_config m)) = Inr accept" by (simp add: encrypt_Inr)
  have key: "ds_send_key cs = k_cs" using new_session_fields [OF new] by simp
  have prof: "h_profile ?h = hc_profile (cl_config m)" by (simp add: session_header_def)
  from encrypt_with_counter_invert [OF aead wf n w] obtain ct where
    ct: "length ct = length ?pt + 16"
      "unpack_with_budget accept (hc_budget (cl_config m)) =
         Inr (?h, protected_payload SESSION_ACCEPT (h_profile ?h) (next_counter cs) ct)"
      "open_sealed c (ds_send_key cs) (next_counter cs)
         (packet_aad ?h SESSION_ACCEPT (next_counter cs) ct) ct = Inr ?pt" by blast
  have "length accept \<le> 282"
    using unpack_length [OF ct(2)] ct(1) lpt by simp
  then have up: "unpack_with_budget accept b = Inr (?h, protected_payload SESSION_ACCEPT
      (hc_profile (cl_config m)) 1 ct)" if "282 \<le> b" for b
    using unpack_budget_mono [OF ct(2), of b] that unfolding n1 prof by simp
  show ?thesis by (rule that [OF e up ct(1) ct(3) [unfolded n1 key]])
qed

lemma position_unique:
  assumes "distinct (map f xs)" "x \<in> set xs" "f x = k"
  obtains i where "position (\<lambda>e. f e = k) xs = Some i" "i < length xs" "xs ! i = x"
proof -
  have "find (\<lambda>e. f e = k) xs = Some x" using find_unique [OF assms] .
  then obtain i where "position (\<lambda>e. f e = k) xs = Some i" "xs ! i = x"
    by (auto simp: position_find)
  with position_Some show ?thesis using that by blast
qed

lemma run_receive_accept:
  assumes h: "honest_pair c m s cm hm" and "scid \<noteq> 0"
    and cfg: "sv_config s1 = sv_config s"
    and free: "scid \<notin> se_scid ` set (sv_established s1)"
      "length (sv_established s1) < hc_established_limit (sv_config s)"
    and p: "p \<in> set (sv_pending s1)" "ps_scid p = scid" "now < ps_deadline_ms p"
      "distinct (map ps_scid (sv_pending s1))"
    and ss: "DirectionalSession_new k_sc k_cs (run_hash c m s p0 t0) (hc_budget (sv_config s)) n0
      = Some (ps_session p, n0')"
    and u: "\<And>b. 282 \<le> b \<Longrightarrow> unpack_with_budget accept b =
      Inr (session_header (hc_profile (cl_config m)) 1 0 scid (hc_source (cl_config m))
          (hc_destination (cl_config m)), protected_payload SESSION_ACCEPT (hc_profile (cl_config m)) 1 ct)"
    and ct: "length ct = length (ascii ''R8 ACCEPT v1'' @ run_hash c m s p0 t0) + 16"
      "open_sealed c k_cs 1 (packet_aad (session_header (hc_profile (cl_config m)) 1 0 scid
          (hc_source (cl_config m)) (hc_destination (cl_config m))) SESSION_ACCEPT 1 ct) ct
      = Inr (ascii ''R8 ACCEPT v1'' @ run_hash c m s p0 t0)"
  shows "\<exists>s2 e. ServerMachine_receive_accept c s1 accept now = (Inr (), s2)
    \<and> e \<in> set (sv_established s2) \<and> se_scid e = scid \<and> se_schedule e = ps_schedule p
    \<and> ds_send_key (se_session e) = k_sc \<and> ds_receive_key (se_session e) = k_cs
    \<and> ds_transcript_hash (se_session e) = run_hash c m s p0 t0"
proof -
  let ?h = "session_header (hc_profile (cl_config m)) 1 0 scid (hc_source (cl_config m))
          (hc_destination (cl_config m))"
  let ?pt = "ascii ''R8 ACCEPT v1'' @ run_hash c m s p0 t0"
  let ?s = "ServerMachine_expire s1 now"
  note b = honest_facts(4) [OF h]
  have lpt: "length ?pt = 44" by (simp add: run_hash_length [OF h])
  have ok: "protected_type SESSION_ACCEPT" "plaintext_fits SESSION_ACCEPT ?pt"
    using lpt by (simp_all add: protected_type_def plaintext_fits_def session_consts)
  have prof: "h_profile ?h = hc_profile (cl_config m)" "h_scid ?h = scid"
    by (simp_all add: session_header_def)
  have dec: "SessionMessage_decode (protected_payload SESSION_ACCEPT (hc_profile (cl_config m)) 1 ct)
      (hc_profile (cl_config m)) (hc_budget (sv_config s)) = Inr \<lparr>sm_typ = SESSION_ACCEPT,
        sm_profile = hc_profile (cl_config m), sm_body = u64_to_be_bytes 1 @ ct\<rparr>"
    using ok ct(1) b lpt by (intro decode_protected [where m = ?pt]) simp_all
  have hdr: "ServerMachine_accept_header ?s accept = Inr ?h"
    using u [OF b] dec cfg
    by (simp add: ServerMachine_accept_header_def Let_def prof validate_protected_header_def
        honest_facts(7-9) [OF h]) (simp add: session_header_def)
  have pe: "p \<in> set (sv_pending ?s)" "distinct (map ps_scid (sv_pending ?s))"
    using p by (simp_all add: ServerMachine_expire_def distinct_map_filter)
  obtain i where i: "position (\<lambda>e. ps_scid e = scid) (sv_pending ?s) = Some i"
    "i < length (sv_pending ?s)" "sv_pending ?s ! i = p"
    using position_unique [OF pe(2,1) p(2)] .
  have est: "find (\<lambda>e. se_scid e = scid) (sv_established ?s) = None"
    "length (sv_established ?s) < hc_established_limit (sv_config ?s)"
    using free cfg
    by (auto simp: find_None_iff ServerMachine_expire_def intro: le_less_trans [OF length_filter_le])
  note f = new_session_fields [OF ss]
  have "ReplayWindow_check ReplayWindow_new 1 = Inr ()"
    by (simp add: check_refines [OF replay_hist_new] replay_accepts_def)
  then have pv: "DirectionalSession_preview c (ps_session p) accept =
    Inr \<lparr>pp_plaintext = ?pt,
         pp_commit = \<lparr>rc_counter = 1, rc_generation = rw_generation (ds_replay (ps_session p))\<rparr>,
         pp_receive_owner = ds_receive_owner (ps_session p)\<rparr>"
    using u [OF b] ok ct f by (intro preview_protected [where h = ?h and ct = ct]) (simp_all add: prof)
  have hist: "replay_hist (ds_replay (ps_session p)) {}" "replay_accepts {} 1"
    "unat (rw_generation (ds_replay (ps_session p))) + 1 < 2 ^ 64"
    unfolding f(5) by (simp_all add: replay_hist_new replay_accepts_def)
      (simp add: ReplayWindow_new_def)
  obtain s' where cm: "DirectionalSession_commit (ps_session p)
      \<lparr>pp_plaintext = ?pt, pp_commit = \<lparr>rc_counter = 1, rc_generation = rw_generation (ds_replay (ps_session p))\<rparr>,
       pp_receive_owner = ds_receive_owner (ps_session p)\<rparr> = (Inr ?pt, s')"
    and s': "s' = (ps_session p)\<lparr>ds_replay := ds_replay s'\<rparr>"
    using commit_preview_hist [OF hist(1) _ hist(2,3), of ?pt] by blast
  let ?e = "\<lparr>se_scid = ps_scid p, se_session = s', se_schedule = ps_schedule p,
      se_opening = ps_opening p, se_cached_ack = ps_cached_ack p, se_binding = ps_binding p,
      se_accepted = accept, se_last_active_ms = now\<rparr>"
  have k: "ds_send_key s' = k_sc" "ds_receive_key s' = k_cs"
    "ds_transcript_hash s' = run_hash c m s p0 t0"
    using f by (subst s', simp)+
  show ?thesis
    using hdr i est pv cm lpt f k p(2)
    by (intro exI [of _ "?s\<lparr>sv_pending := remove_at i (sv_pending ?s), sv_established := sv_established ?s @ [?e]\<rparr>"]
        exI [of _ ?e])
      (simp add: ServerMachine_receive_accept_def ServerMachine_accept_pending_def Let_def prof)
qed

section \<open>The whole run\<close>

lemma owner_session:
  assumes "n \<noteq> 0" "n \<noteq> u64_max"
  obtains ds where "DirectionalSession_new k1 k2 th b n = Some (ds, n + 1)"
  using assms by (auto simp: DirectionalSession_new_def allocate_session_owner_def)

lemma handshake_run:
  assumes h: "honest_pair c m s cm hm" and idle: "cl_state m = Idle" and "scid \<noteq> 0"
    and bind: "ObservedBinding_validate binding = Inr ()"
    and dh: "x_diffie_hellman c (cm_ephemeral_secret cm) (x_public c (shm_ephemeral_secret hm))
      \<noteq> replicate 32 0"
    and free: "\<not> ServerMachine_is_live s scid" "distinct (map ps_scid (sv_pending s))"
      "length (sv_pending s) < hc_pending_limit (sv_config s)"
      "length (sv_established s) < hc_established_limit (sv_config s)"
    and owner: "n \<noteq> 0" "unat n + 1 < 2 ^ 64 - 1"
    and client_time: "t2 < saturating_add t1 5000" "t4 < saturating_add t1 5000"
    and server_time: "unat b \<le> unat t3 div 10000" "unat t3 div 10000 \<le> Suc (unat b)"
      "t5 < saturating_add t3 5000"
  shows "\<exists>m1 m2 m3 s1 s2 n1 n2 d_open d_verify d_auth d_ack d_accept cs e sch vh vc.
      ClientMachine_start c m scid cm t1 = (Inr d_open, m1)
    \<and> ServerMachine_receive_open c s d_open binding b = Inr d_verify
    \<and> ClientMachine_receive_verify c m1 d_verify t2 = (Inr d_auth, m2)
    \<and> cl_state m2 = AuthWait scid cm (svm_boot_instance (sv_material s)) d_open vh vc d_auth
        (saturating_add t1 5000)
    \<and> ServerMachine_receive_open_auth c s d_auth binding t3 bucket (Some hm) n
        = Some (Inr d_ack, s1, n1)
    \<and> ClientMachine_receive_ack c m2 d_ack t4 n1 = Some (Inr d_accept, m3, n2)
    \<and> ServerMachine_receive_accept c s1 d_accept t5 = (Inr (), s2)
    \<and> cl_state m3 = Established scid cs sch d_accept
    \<and> e \<in> set (sv_established s2) \<and> se_scid e = scid \<and> se_schedule e = sch
    \<and> ds_send_key cs = ds_receive_key (se_session e)
    \<and> ds_receive_key cs = ds_send_key (se_session e)
    \<and> ds_transcript_hash cs = ds_transcript_hash (se_session e)"
proof -
  obtain i where i: "cookie_input c (run_cookie_context c m s cm scid binding b) = Inr i"
    using run_cookie_input [OF h bind] by blast
  obtain p0 where p0: "transcript_t0 c (placeholder_transcript c (cl_config m) cm scid
        (svm_boot_instance (sv_material s))) = Inr p0"
    using placeholder_t0 [OF honest_facts(1) [OF h]] by blast
  obtain t0 where t0: "transcript_t0 c (run_transcript c m s cm hm scid) = Inr t0"
    using run_t0 [OF h] by blast
  obtain k_sc k_cs where k: "run_key c m s cm hm p0 t0 (id_role (hc_peer (cl_config m)))
          (id_role (hc_local (cl_config m))) = Inr k_sc"
      "run_key c m s cm hm p0 t0 (id_role (hc_local (cl_config m)))
          (id_role (hc_peer (cl_config m))) = Inr k_cs"
    using run_key_ok [OF h] by metis
  define ck where "ck = cookie c (svm_current_cookie_key (sv_material s)) i"
  have lck: "length ck = 32" by (simp add: ck_def cookie_def honest_lengths [OF h])
  have n: "n \<noteq> u64_max" "unat (n + 1) = Suc (unat n)"
    using owner u64_not_max [of n] unat_Suc_u64 [of n] by auto
  then have n1: "n + 1 \<noteq> 0" "n + 1 \<noteq> u64_max"
    using owner u64_not_max [of "n + 1"] by (auto simp flip: unat_eq_0)
  obtain ss where ss: "DirectionalSession_new k_sc k_cs (run_hash c m s p0 t0)
      (hc_budget (sv_config s)) n = Some (ss, n + 1)"
    using owner_session [OF owner(1) n(1)] .
  obtain cs where cs: "DirectionalSession_new k_cs k_sc (run_hash c m s p0 t0)
      (hc_budget (cl_config m)) (n + 1) = Some (cs, n + 1 + 1)"
    using owner_session [OF n1] .
  let ?p = "run_pending c m s cm hm scid binding ck p0 t0 t3 ss"
  let ?s1 = "(ServerMachine_expire s t3)\<lparr>sv_pending := sv_pending (ServerMachine_expire s t3) @ [?p]\<rparr>"
  let ?sch = "if hc_profile (cl_config m) = 3 then Some (run_schedule c m s cm hm p0 t0) else None"
  from run_accept_packet [OF h assms(3) cs] obtain accept ct where
    acc: "DirectionalSession_encrypt c cs
       (session_header (hc_profile (cl_config m)) 1 0 scid (hc_source (cl_config m))
          (hc_destination (cl_config m))) SESSION_ACCEPT
       (ascii ''R8 ACCEPT v1'' @ run_hash c m s p0 t0) (hc_budget (cl_config m))
      = (Inr accept, counter_used cs)"
    and u: "\<And>b. 282 \<le> b \<Longrightarrow> unpack_with_budget accept b =
      Inr (session_header (hc_profile (cl_config m)) 1 0 scid (hc_source (cl_config m))
          (hc_destination (cl_config m)), protected_payload SESSION_ACCEPT (hc_profile (cl_config m)) 1 ct)"
    and ct: "length ct = length (ascii ''R8 ACCEPT v1'' @ run_hash c m s p0 t0) + 16"
      "open_sealed c k_cs 1 (packet_aad (session_header (hc_profile (cl_config m)) 1 0 scid
          (hc_source (cl_config m)) (hc_destination (cl_config m))) SESSION_ACCEPT 1 ct) ct
      = Inr (ascii ''R8 ACCEPT v1'' @ run_hash c m s p0 t0)" by blast
  have sp: "set (sv_pending (ServerMachine_expire s t3)) \<subseteq> set (sv_pending s)"
    "set (sv_established (ServerMachine_expire s t3)) \<subseteq> set (sv_established s)"
    using expire_subset by blast+
  have dist: "distinct (map ps_scid (sv_pending ?s1))"
    using free(1,2) sp(1) by (auto simp: live_pending run_pending_def ServerMachine_expire_def
        distinct_map_filter)
  have est: "scid \<notin> se_scid ` set (sv_established ?s1)"
    "length (sv_established ?s1) < hc_established_limit (sv_config s)"
    using free(1,4) by (auto simp: live_pending ServerMachine_expire_def
        intro: le_less_trans [OF length_filter_le])
  have pp: "?p \<in> set (sv_pending ?s1)" "ps_scid ?p = scid" "t5 < ps_deadline_ms ?p"
    "ps_session ?p = ss" "ps_schedule ?p = ?sch"
    using server_time(3) by (simp_all add: run_pending_def)
  have "\<exists>s2 e. ServerMachine_receive_accept c ?s1 accept t5 = (Inr (), s2)
    \<and> e \<in> set (sv_established s2) \<and> se_scid e = scid \<and> se_schedule e = ps_schedule ?p
    \<and> ds_send_key (se_session e) = k_sc \<and> ds_receive_key (se_session e) = k_cs
    \<and> ds_transcript_hash (se_session e) = run_hash c m s p0 t0"
    using ss u ct
    by (intro run_receive_accept [OF h assms(3) _ est pp(1,2,3) dist]) (simp_all add: pp(4))
  then obtain s2 e where fin: "ServerMachine_receive_accept c ?s1 accept t5 = (Inr (), s2)"
    "e \<in> set (sv_established s2)" "se_scid e = scid" "se_schedule e = ?sch"
    "ds_send_key (se_session e) = k_sc" "ds_receive_key (se_session e) = k_cs"
    "ds_transcript_hash (se_session e) = run_hash c m s p0 t0"
    unfolding pp(5) by blast
  have ack: "ClientMachine_receive_ack c
      (m\<lparr>cl_state := AuthWait scid cm (svm_boot_instance (sv_material s)) (client_open c m cm scid)
          (session_header (hc_profile (cl_config m)) 0 0 scid (hc_destination (cl_config m))
             (hc_source (cl_config m))) ck
          (client_auth c m s cm scid ck (auth_signature c m p0)) (saturating_add t1 5000)\<rparr>)
      (server_ack c m s hm scid (ack_signature c s t0)) t4 (n + 1) =
    Some (Inr accept, m\<lparr>cl_state := Established scid (counter_used cs) ?sch accept\<rparr>, n + 1 + 1)"
    using run_check_ack [OF h assms(3) lck dh t0 k] cs acc client_time(2)
    by (simp add: ClientMachine_receive_ack_def Let_def)
  note steps = run_start [OF h idle assms(3), of t1]
    run_receive_open [OF h assms(3) bind i, folded ck_def]
    run_receive_verify [OF h assms(3) lck client_time(1) p0]
    run_receive_open_auth [OF h assms(3) bind i server_time(1,2) dh p0 t0 k ck_def free(1,3) ss,
      of bucket]
    ack fin(1)
  have keys: "ds_send_key (counter_used cs) = ds_receive_key (se_session e)"
    "ds_receive_key (counter_used cs) = ds_send_key (se_session e)"
    "ds_transcript_hash (counter_used cs) = ds_transcript_hash (se_session e)"
    using new_session_fields [OF cs] fin by simp_all
  show ?thesis
    by (intro exI conjI) (rule steps keys fin(2,3,4) refl | simp)+
qed

section \<open>Who is authenticated when state is committed\<close>

lemma client_identity_pinned:
  assumes "ServerMachine_client_identity c s body = Inr client"
    and "Identity_validate c (hc_peer (sv_config s)) = Inr ()"
  shows "client = hc_peer (sv_config s)"
  using assms
  by (auto simp: ServerMachine_client_identity_def Identity_validate_def Let_def result_simps
      split: if_splits)

lemma open_auth_new_entry:
  assumes "ServerMachine_receive_open_auth c s packet binding now bucket hm n = Some (Inr ack, s', n')"
    and "unpack_with_budget packet (hc_budget (sv_config s)) = Inr (h, payload)"
    and "\<not> ServerMachine_is_live s (h_scid h)"
  obtains k1 k2 hash sch ss where
    "ServerMachine_check_open_auth c (ServerMachine_expire s now) h (drop 4 payload) binding now
       bucket hm = Inr (ack, k1, k2, hash, sch)"
    "DirectionalSession_new k1 k2 hash (hc_budget (sv_config s)) n = Some (ss, n')"
    "s' = (ServerMachine_expire s now)\<lparr>sv_pending := sv_pending (ServerMachine_expire s now) @
       [\<lparr>ps_scid = h_scid h, ps_opening = packet, ps_cached_ack = ack, ps_binding = binding,
         ps_deadline_ms = saturating_add now 5000, ps_session = ss,
         ps_schedule = (if hc_profile (sv_config s) = 3 then Some sch else None)\<rparr>]\<rparr>"
proof -
  let ?s = "ServerMachine_expire s now"
  note nl = not_live_find [OF assms(3), of now]
  have b: "ObservedBinding_validate binding = Inr ()"
    using assms(1) by (auto simp: ServerMachine_receive_open_auth_def split: sum.splits)
  have "\<exists>r. ServerMachine_lookup_open_auth ?s packet binding = Inr r"
    using assms(1) b by (auto simp: ServerMachine_receive_open_auth_def Let_def split: sum.splits)
  then have l: "ServerMachine_lookup_open_auth ?s packet binding = Inr (Inr (h, drop 4 payload))"
    using assms(2) nl
    by (auto simp: ServerMachine_lookup_open_auth_def Let_def and_then_Inr dest!: decode_Inr
        split: if_splits)
  from assms(1) b l obtain k1 k2 hash sch ss where
    "ServerMachine_check_open_auth c ?s h (drop 4 payload) binding now bucket hm
       = Inr (ack, k1, k2, hash, sch)"
    "DirectionalSession_new k1 k2 hash (hc_budget (sv_config s)) n = Some (ss, n')"
    "s' = ?s\<lparr>sv_pending := sv_pending ?s @
       [\<lparr>ps_scid = h_scid h, ps_opening = packet, ps_cached_ack = ack, ps_binding = binding,
         ps_deadline_ms = saturating_add now 5000, ps_session = ss,
         ps_schedule = (if hc_profile (sv_config s) = 3 then Some sch else None)\<rparr>]\<rparr>"
    by (auto simp: ServerMachine_receive_open_auth_def Let_def split: sum.splits option.splits)
  then show ?thesis using that by blast
qed

section \<open>Concrete machines\<close>

definition sample_server :: server_machine where
  "sample_server =
     \<lparr>sv_config = sample_config 2 1, sv_signing_key = [2],
      sv_material = \<lparr>svm_boot_instance = replicate 16 9, svm_current_cookie_key = [8],
        svm_previous_cookie_key = [7], svm_previous_key_rotated_ms = 0\<rparr>,
      sv_pending = [], sv_established = [], sv_local_loc = replicate 16 2,
      sv_peer_loc = replicate 16 1\<rparr>"

definition sample_server_material :: server_handshake_material where
  "sample_server_material = \<lparr>shm_ephemeral_secret = [4], shm_nonce = replicate 32 7\<rparr>"

definition sample_binding :: ObservedBinding where
  "sample_binding = Native 1 (replicate 6 0)"

lemma sample_honest:
  "honest_pair sample_crypto sample_client sample_server sample_client_material
     sample_server_material"
proof -
  have "ed_verifying_key sample_crypto [r] = id_public_key (sample_identity r)" for r
    by (simp add: sample_crypto_def sample_identity_def)
  then show ?thesis
    using sample_crypto_ok sample_config_ok
    by (simp add: honest_pair_def sample_client_def sample_server_def matched_def
        sample_client_material_def sample_server_material_def)
      (simp add: sample_config_def)
qed

lemma sample_server_new:
  "ServerMachine_new sample_crypto (sample_config 2 1) [2] (sv_material sample_server)
     = Inr sample_server"
proof -
  have "ed_verifying_key sample_crypto [2] = id_public_key (sample_identity 2)"
    by (simp add: sample_crypto_def sample_identity_def)
  then show ?thesis
    using sample_config_ok(2) by (simp add: ServerMachine_new_def sample_server_def sample_config_def)
qed

lemma sample_dh:
  "x_diffie_hellman sample_crypto (cm_ephemeral_secret sample_client_material)
     (x_public sample_crypto (shm_ephemeral_secret sample_server_material)) \<noteq> replicate 32 0"
proof -
  have "map2 (+) (pad 32 [3]) (pad 32 (pad 32 [4])) \<noteq> replicate 32 (0 :: u8)"
  proof
    assume "map2 (+) (pad 32 [3]) (pad 32 (pad 32 [4])) = replicate 32 (0 :: u8)"
    from arg_cong [OF this, of "\<lambda>x. x ! 0"] show False by (simp add: pad_def)
  qed
  then show ?thesis
    by (simp add: sample_crypto_def sample_client_material_def sample_server_material_def)
qed

lemma sample_server_idle:
  "ObservedBinding_validate sample_binding = Inr ()" "cl_state sample_client = Idle"
  "\<not> ServerMachine_is_live sample_server k" "distinct (map ps_scid (sv_pending sample_server))"
  "length (sv_pending sample_server) < hc_pending_limit (sv_config sample_server)"
  "length (sv_established sample_server) < hc_established_limit (sv_config sample_server)"
  by (simp_all add: sample_binding_def sample_client_def sample_server_def
      ServerMachine_is_live_def sample_config_def)

text \<open>The concrete run the witnesses below are read off.\<close>

lemma sample_run:
  "\<exists>m1 m2 m3 s1 s2 n1 n2 d_open d_verify d_auth d_ack d_accept cs e sch vh vc.
      ClientMachine_start sample_crypto sample_client 7 sample_client_material 0 = (Inr d_open, m1)
    \<and> ServerMachine_receive_open sample_crypto sample_server d_open sample_binding 0 = Inr d_verify
    \<and> ClientMachine_receive_verify sample_crypto m1 d_verify 1 = (Inr d_auth, m2)
    \<and> cl_state m2 = AuthWait 7 sample_client_material (svm_boot_instance (sv_material sample_server))
        d_open vh vc d_auth (saturating_add 0 5000)
    \<and> ServerMachine_receive_open_auth sample_crypto sample_server d_auth sample_binding 2 0
        (Some sample_server_material) 1 = Some (Inr d_ack, s1, n1)
    \<and> ClientMachine_receive_ack sample_crypto m2 d_ack 3 n1 = Some (Inr d_accept, m3, n2)
    \<and> ServerMachine_receive_accept sample_crypto s1 d_accept 4 = (Inr (), s2)
    \<and> cl_state m3 = Established 7 cs sch d_accept
    \<and> e \<in> set (sv_established s2) \<and> se_scid e = 7 \<and> se_schedule e = sch
    \<and> ds_send_key cs = ds_receive_key (se_session e)
    \<and> ds_receive_key cs = ds_send_key (se_session e)
    \<and> ds_transcript_hash cs = ds_transcript_hash (se_session e)"
  by (rule handshake_run [OF sample_honest sample_server_idle(2) _ sample_server_idle(1)
        sample_dh sample_server_idle(3-6)])
    (simp_all add: saturating_add_def)

lemma sample_run_client:
  "\<exists>m2 d_ack n1 accept m3 n2 scid cm boot opening vh vc auth deadline.
      cl_state m2 = AuthWait scid cm boot opening vh vc auth deadline
    \<and> ClientMachine_receive_ack sample_crypto m2 d_ack 3 n1 = Some (Inr accept, m3, n2)
    \<and> cl_config m2 = sample_config 1 2"
proof -
  obtain m1 m2 m3 n1 n2 d_open d_verify d_auth d_ack d_accept scid cm boot op vh vc au dl where
    r: "ClientMachine_start sample_crypto sample_client 7 sample_client_material 0 = (Inr d_open, m1)"
      "ClientMachine_receive_verify sample_crypto m1 d_verify 1 = (Inr d_auth, m2)"
      "cl_state m2 = AuthWait scid cm boot op vh vc au dl"
      "ClientMachine_receive_ack sample_crypto m2 d_ack 3 n1 = Some (Inr d_accept, m3, n2)"
    using sample_run by blast
  have "cl_config m2 = cl_config sample_client"
    using client_step_forward [OF client_step.start [OF r(1)]]
      client_step_forward [OF client_step.verify [OF r(2)]] by simp
  then have "cl_config m2 = sample_config 1 2" by (simp add: sample_client_def)
  with r(3,4) show ?thesis by blast
qed

section \<open>Properties\<close>

text \<open>C1: An undisturbed handshake completes and the ends agree: with correct primitives, matching
  configurations and clocks inside the deadlines, the five packets are accepted one after the
  other, the client ends established, the server holds an established entry for the connection
  id, the sending key of each side is the receiving key of the other, and both have the same
  transcript hash and Profile-3 schedule.\<close>

theorem honest_handshake_agrees:
  assumes "honest_pair c m s cm hm" "cl_state m = Idle" "scid \<noteq> 0"
    and "ObservedBinding_validate binding = Inr ()"
    and "x_diffie_hellman c (cm_ephemeral_secret cm) (x_public c (shm_ephemeral_secret hm))
      \<noteq> replicate 32 0"
    and "\<not> ServerMachine_is_live s scid" "distinct (map ps_scid (sv_pending s))"
      "length (sv_pending s) < hc_pending_limit (sv_config s)"
      "length (sv_established s) < hc_established_limit (sv_config s)"
    and "n \<noteq> 0" "unat n + 1 < 2 ^ 64 - 1"
    and "t2 < saturating_add t1 5000" "t4 < saturating_add t1 5000"
    and "unat b \<le> unat t3 div 10000" "unat t3 div 10000 \<le> Suc (unat b)"
      "t5 < saturating_add t3 5000"
  shows "\<exists>m1 m2 m3 s1 s2 n1 n2 d_open d_verify d_auth d_ack d_accept cs e sch.
      ClientMachine_start c m scid cm t1 = (Inr d_open, m1)
    \<and> ServerMachine_receive_open c s d_open binding b = Inr d_verify
    \<and> ClientMachine_receive_verify c m1 d_verify t2 = (Inr d_auth, m2)
    \<and> ServerMachine_receive_open_auth c s d_auth binding t3 bucket (Some hm) n
        = Some (Inr d_ack, s1, n1)
    \<and> ClientMachine_receive_ack c m2 d_ack t4 n1 = Some (Inr d_accept, m3, n2)
    \<and> ServerMachine_receive_accept c s1 d_accept t5 = (Inr (), s2)
    \<and> cl_state m3 = Established scid cs sch d_accept
    \<and> e \<in> set (sv_established s2) \<and> se_scid e = scid \<and> se_schedule e = sch
    \<and> ds_send_key cs = ds_receive_key (se_session e)
    \<and> ds_receive_key cs = ds_send_key (se_session e)
    \<and> ds_transcript_hash cs = ds_transcript_hash (se_session e)"
  using handshake_run [OF assms] by fast

theorem honest_handshake_agrees_witness:
  "\<exists>m1 m2 m3 s1 s2 n1 n2 d_open d_verify d_auth d_ack d_accept cs e sch.
      ClientMachine_start sample_crypto sample_client 7 sample_client_material 0 = (Inr d_open, m1)
    \<and> ServerMachine_receive_open sample_crypto sample_server d_open sample_binding 0 = Inr d_verify
    \<and> ClientMachine_receive_verify sample_crypto m1 d_verify 1 = (Inr d_auth, m2)
    \<and> ServerMachine_receive_open_auth sample_crypto sample_server d_auth sample_binding 2 0
        (Some sample_server_material) 1 = Some (Inr d_ack, s1, n1)
    \<and> ClientMachine_receive_ack sample_crypto m2 d_ack 3 n1 = Some (Inr d_accept, m3, n2)
    \<and> ServerMachine_receive_accept sample_crypto s1 d_accept 4 = (Inr (), s2)
    \<and> cl_state m3 = Established 7 cs sch d_accept
    \<and> e \<in> set (sv_established s2) \<and> se_scid e = 7 \<and> se_schedule e = sch
    \<and> ds_send_key cs = ds_receive_key (se_session e)
    \<and> ds_receive_key cs = ds_send_key (se_session e)
    \<and> ds_transcript_hash cs = ds_transcript_hash (se_session e)"
  by (rule honest_handshake_agrees [OF sample_honest sample_server_idle(2) _ sample_server_idle(1)
        sample_dh sample_server_idle(3-6)])
    (simp_all add: saturating_add_def)

text \<open>C2: The client authenticates the server: it becomes established only through an OPEN_ACK of the
  pinned peer identity whose signature verifies, under the pinned key, over the transcript with
  the client's own connection id, ephemeral key and nonce and the boot instance its cookie
  exchange fixed; the session keys come from that transcript and the key exchange with the
  server ephemeral key it signs.\<close>

theorem client_authenticates_server:
  assumes "cl_state m = AuthWait scid material boot opening vh vc open_auth deadline"
    and "ClientMachine_receive_ack c m packet now n = Some (Inr accept, m', n')"
  shows "\<exists>server_ephemeral server_nonce sig t0 shared hash session sch client_sig.
      transcript_t0 c
        \<lparr>tc_profile = hc_profile (cl_config m), tc_scid = scid, tc_client = hc_local (cl_config m),
         tc_server = hc_peer (cl_config m),
         tc_client_ephemeral = x_public c (cm_ephemeral_secret material),
         tc_server_ephemeral = server_ephemeral, tc_client_nonce = cm_nonce material,
         tc_server_nonce = server_nonce, tc_boot = boot\<rparr> = Inr t0
    \<and> ed_verify c (id_public_key (hc_peer (cl_config m))) (ascii ''R8 OPEN_ACK v1'' @ t0) sig
    \<and> x25519 c (cm_ephemeral_secret material) server_ephemeral = Inr shared
    \<and> hash = transcript_hash c t0 client_sig sig
    \<and> cl_state m' = Established scid session sch accept
    \<and> derive_key c shared hash (hc_profile (cl_config m)) (id_role (hc_local (cl_config m)))
        (id_role (hc_peer (cl_config m))) 0 = Inr (ds_send_key session)
    \<and> derive_key c shared hash (hc_profile (cl_config m)) (id_role (hc_peer (cl_config m)))
        (id_role (hc_local (cl_config m))) 0 = Inr (ds_receive_key session)
    \<and> now < deadline"
proof -
  let ?cfg = "cl_config m"
  from assms obtain k1 k2 hash sch s1 s2 where
    chk: "ClientMachine_check_ack c m packet scid material boot open_auth = Inr (k1, k2, hash, sch)"
    and new: "DirectionalSession_new k1 k2 hash (hc_budget ?cfg) n = Some (s1, n')"
    and enc: "DirectionalSession_encrypt c s1 (session_header (hc_profile ?cfg) 1 0 scid
        (hc_source ?cfg) (hc_destination ?cfg)) SESSION_ACCEPT (ascii ''R8 ACCEPT v1'' @ hash)
        (hc_budget ?cfg) = (Inr accept, s2)"
    and m': "cl_state m' = Established scid s2 (if hc_profile ?cfg = 3 then Some sch else None) accept"
    and now: "now < deadline"
    by (auto simp: ClientMachine_receive_ack_def Let_def not_le
        split: if_splits sum.splits option.splits prod.splits)
  have keys: "ds_send_key s2 = k1" "ds_receive_key s2 = k2"
    using enc new by (auto simp: encrypt_Inr DirectionalSession_new_def
        split: option.splits prod.splits)
  from chk obtain se sn sig t0 shared cs where
    f: "transcript_t0 c
        \<lparr>tc_profile = hc_profile ?cfg, tc_scid = scid, tc_client = hc_local ?cfg,
         tc_server = hc_peer ?cfg, tc_client_ephemeral = x_public c (cm_ephemeral_secret material),
         tc_server_ephemeral = se, tc_client_nonce = cm_nonce material, tc_server_nonce = sn,
         tc_boot = boot\<rparr> = Inr t0"
      "verify_signature c (id_public_key (hc_peer ?cfg)) (ascii ''R8 OPEN_ACK v1'') t0 sig = Inr ()"
      "x25519 c (cm_ephemeral_secret material) se = Inr shared"
      "hash = transcript_hash c t0 cs sig"
      "derive_key c shared hash (hc_profile ?cfg) (id_role (hc_local ?cfg)) (id_role (hc_peer ?cfg)) 0
         = Inr k1"
      "derive_key c shared hash (hc_profile ?cfg) (id_role (hc_peer ?cfg)) (id_role (hc_local ?cfg)) 0
         = Inr k2"
    unfolding ClientMachine_check_ack_def Let_def derive_key_def
    by (auto simp: and_then_Inr split: if_splits prod.splits)
  have "ed_verify c (id_public_key (hc_peer ?cfg)) (ascii ''R8 OPEN_ACK v1'' @ t0) sig"
    using f(2) by (simp add: verify_signature_def split: if_splits)
  with f m' now keys show ?thesis by blast
qed

theorem client_authenticates_server_witness:
  "\<exists>m2 d_ack n1 accept m3 n2 sig t0.
      ClientMachine_receive_ack sample_crypto m2 d_ack 3 n1 = Some (Inr accept, m3, n2)
    \<and> ed_verify sample_crypto (id_public_key (sample_identity 2)) (ascii ''R8 OPEN_ACK v1'' @ t0) sig"
proof -
  obtain m2 d_ack n1 accept m3 n2 st1 st2 st3 st4 st5 st6 st7 st8 where
    a: "cl_state m2 = AuthWait st1 st2 st3 st4 st5 st6 st7 st8"
      "ClientMachine_receive_ack sample_crypto m2 d_ack 3 n1 = Some (Inr accept, m3, n2)"
      "cl_config m2 = sample_config 1 2"
    using sample_run_client by blast
  from client_authenticates_server [OF a(1,2)] have
    "\<exists>t0 sig. ed_verify sample_crypto (id_public_key (sample_identity 2))
       (ascii ''R8 OPEN_ACK v1'' @ t0) sig"
    unfolding a(3) by (auto simp: sample_config_def)
  with a(2) show ?thesis by blast
qed

text \<open>A cookie that matches was made with one of the two keys for a recent bucket.\<close>

lemma matching_cookie_origin:
  assumes "cookie_matches_buckets c cur prev rot ck ctx now = Inr True"
  obtains key b where "key = cur \<or> key = prev" "unat b \<le> unat now div 10000"
    "unat now div 10000 \<le> Suc (unat b)" "cookie_made_with c ctx key b ck"
proof -
  obtain i where "cookie_input c (ctx\<lparr>cc_bucket := now div 10000\<rparr>) = Inr i"
    using assms unfolding cookie_matches_buckets_def Let_def by (auto simp: and_then_Inr)
  from cookie_input_bucket [OF this, of "cc_bucket ctx"] obtain j where "cookie_input c ctx = Inr j"
    by auto
  from assms [unfolded cookie_matches_buckets_eq [OF this]] that show thesis
    unfolding recent_bucket_iff by auto
qed

text \<open>The keys of a session that \<open>check_open_auth\<close> accepts: the exchange of the server's secret with
  the ephemeral key in the packet, over the transcript with the client's signature and its own.\<close>

lemma check_open_auth_keys:
  assumes "ServerMachine_check_open_auth c m h body binding now bucket hm
      = Inr (ack, k1, k2, hash, sch)"
    and "ServerMachine_client_identity c m body = Inr client"
  obtains sm shared t0 where "hm = Some sm"
    "slice_of 118 134 body = svm_boot_instance (sv_material m)"
    "x25519 c (shm_ephemeral_secret sm) (slice_of 54 86 body) = Inr shared"
    "transcript_t0 c
        \<lparr>tc_profile = hc_profile (sv_config m), tc_scid = h_scid h, tc_client = client,
         tc_server = hc_local (sv_config m), tc_client_ephemeral = slice_of 54 86 body,
         tc_server_ephemeral = x_public c (shm_ephemeral_secret sm),
         tc_client_nonce = slice_of 86 118 body, tc_server_nonce = shm_nonce sm,
         tc_boot = svm_boot_instance (sv_material m)\<rparr> = Inr t0"
    "hash = transcript_hash c t0 (slice_of 166 230 body) (sign_open_ack c (sv_signing_key m) t0)"
    "derive_key c shared hash (hc_profile (sv_config m)) (id_role (hc_local (sv_config m)))
        (id_role client) 0 = Inr k1"
    "derive_key c shared hash (hc_profile (sv_config m)) (id_role client)
        (id_role (hc_local (sv_config m))) 0 = Inr k2"
  using assms unfolding ServerMachine_check_open_auth_def Let_def derive_key_def
  by (auto simp: and_then_Inr ok_or_Inr split: if_splits)

text \<open>C3: The server commits no state for a stranger: a new pending session exists only for a packet
  whose cookie field was made by this server with one of its two keys, for the ephemeral key in
  the packet and the observed binding, in the current or previous time bucket, and whose signature
  field verifies under the pinned client key over the transcript of the pinned client, this
  connection id, the ephemeral key and nonce in the packet and the server's boot instance. The
  session is keyed by the exchange with the client's ephemeral key: its two keys are derived from
  that shared secret and from the transcript with both signatures.\<close>

theorem server_authenticates_client:
  assumes "ServerMachine_receive_open_auth c s packet binding now bucket hm n
      = Some (Inr ack, s', n')"
    and "unpack_with_budget packet (hc_budget (sv_config s)) = Inr (h, payload)"
    and "\<not> ServerMachine_is_live s (h_scid h)"
    and "HandshakeConfig_validate c (sv_config s) = Inr ()"
    and "body = drop 4 payload" "client_ephemeral = slice_of 54 86 body"
    and "client_nonce = slice_of 86 118 body" "boot = slice_of 118 134 body"
    and "supplied_cookie = slice_of 134 166 body" "signature = slice_of 166 230 body"
  shows "\<exists>p0 key b entry sm shared t0 hash.
      boot = svm_boot_instance (sv_material s)
    \<and> transcript_t0 c
        \<lparr>tc_profile = hc_profile (sv_config s), tc_scid = h_scid h, tc_client = hc_peer (sv_config s),
         tc_server = (hc_local (sv_config s))\<lparr>id_public_key := replicate 32 0\<rparr>,
         tc_client_ephemeral = client_ephemeral, tc_server_ephemeral = replicate 32 0,
         tc_client_nonce = client_nonce, tc_server_nonce = replicate 32 0,
         tc_boot = boot\<rparr> = Inr p0
    \<and> ed_verify c (id_public_key (hc_peer (sv_config s))) (ascii ''R8 OPEN_AUTH v1'' @ p0) signature
    \<and> cookie_made_with c
        \<lparr>cc_binding = binding, cc_client = hc_peer (sv_config s), cc_server = hc_local (sv_config s),
         cc_scid = h_scid h, cc_client_ephemeral = client_ephemeral,
         cc_boot = boot, cc_bucket = bucket,
         cc_server_context_id = hc_server_context_id (sv_config s)\<rparr> key b supplied_cookie
    \<and> (key = svm_current_cookie_key (sv_material s) \<or> key = svm_previous_cookie_key (sv_material s))
    \<and> unat b \<le> unat now div 10000 \<and> unat now div 10000 \<le> Suc (unat b)
    \<and> hm = Some sm \<and> x25519 c (shm_ephemeral_secret sm) client_ephemeral = Inr shared
    \<and> transcript_t0 c
        \<lparr>tc_profile = hc_profile (sv_config s), tc_scid = h_scid h, tc_client = hc_peer (sv_config s),
         tc_server = hc_local (sv_config s), tc_client_ephemeral = client_ephemeral,
         tc_server_ephemeral = x_public c (shm_ephemeral_secret sm), tc_client_nonce = client_nonce,
         tc_server_nonce = shm_nonce sm, tc_boot = boot\<rparr> = Inr t0
    \<and> hash = transcript_hash c t0 signature (sign_open_ack c (sv_signing_key s) t0)
    \<and> derive_key c shared hash (hc_profile (sv_config s)) (id_role (hc_local (sv_config s)))
        (id_role (hc_peer (sv_config s))) 0 = Inr (ds_send_key (ps_session entry))
    \<and> derive_key c shared hash (hc_profile (sv_config s)) (id_role (hc_peer (sv_config s)))
        (id_role (hc_local (sv_config s))) 0 = Inr (ds_receive_key (ps_session entry))
    \<and> entry \<in> set (sv_pending s') \<and> ps_scid entry = h_scid h \<and> ps_opening entry = packet
    \<and> ps_binding entry = binding
    \<and> length (sv_pending s') \<le> hc_pending_limit (sv_config s)"
proof -
  let ?s = "ServerMachine_expire s now" and ?cfg = "sv_config s" and ?mat = "sv_material s"
  have keep: "sv_material ?s = ?mat" "sv_signing_key ?s = sv_signing_key s"
    by (simp_all add: ServerMachine_expire_def)
  obtain k1 k2 hash sch ss where
    chk: "ServerMachine_check_open_auth c ?s h body binding now bucket hm
       = Inr (ack, k1, k2, hash, sch)"
    and new: "DirectionalSession_new k1 k2 hash (hc_budget ?cfg) n = Some (ss, n')"
    and s': "s' = ?s\<lparr>sv_pending := sv_pending ?s @
       [\<lparr>ps_scid = h_scid h, ps_opening = packet, ps_cached_ack = ack, ps_binding = binding,
         ps_deadline_ms = saturating_add now 5000, ps_session = ss,
         ps_schedule = (if hc_profile ?cfg = 3 then Some sch else None)\<rparr>]\<rparr>"
    unfolding assms(5) by (rule open_auth_new_entry [OF assms(1-3)])
  from chk obtain client where id: "ServerMachine_client_identity c ?s body = Inr client"
    unfolding ServerMachine_check_open_auth_def Let_def by (auto simp: and_then_Inr)
  have "client = hc_peer ?cfg"
    using client_identity_pinned [OF id] assms(4) by (simp add: HandshakeConfig_validate_Inr)
  note id = id [unfolded this]
  obtain sm shared t0 where keys: "hm = Some sm" "boot = svm_boot_instance ?mat"
    "x25519 c (shm_ephemeral_secret sm) client_ephemeral = Inr shared"
    "transcript_t0 c
        \<lparr>tc_profile = hc_profile ?cfg, tc_scid = h_scid h, tc_client = hc_peer ?cfg,
         tc_server = hc_local ?cfg, tc_client_ephemeral = client_ephemeral,
         tc_server_ephemeral = x_public c (shm_ephemeral_secret sm), tc_client_nonce = client_nonce,
         tc_server_nonce = shm_nonce sm, tc_boot = boot\<rparr> = Inr t0"
    "hash = transcript_hash c t0 signature (sign_open_ack c (sv_signing_key s) t0)"
    "derive_key c shared hash (hc_profile ?cfg) (id_role (hc_local ?cfg)) (id_role (hc_peer ?cfg)) 0 = Inr k1"
    "derive_key c shared hash (hc_profile ?cfg) (id_role (hc_peer ?cfg)) (id_role (hc_local ?cfg)) 0 = Inr k2"
    by (rule check_open_auth_keys [OF chk id]) (simp add: assms(6-10) keep)
  have ss: "ds_send_key ss = k1" "ds_receive_key ss = k2"
    using new by (auto simp: DirectionalSession_new_def split: option.splits)
  define ctx where "ctx = \<lparr>cc_binding = binding, cc_client = hc_peer ?cfg, cc_server = hc_local ?cfg,
         cc_scid = h_scid h, cc_client_ephemeral = client_ephemeral, cc_boot = boot,
         cc_bucket = bucket, cc_server_context_id = hc_server_context_id ?cfg\<rparr>"
  from chk obtain p0 where
    cook: "cookie_matches_buckets c (svm_current_cookie_key ?mat) (svm_previous_cookie_key ?mat)
        (svm_previous_key_rotated_ms ?mat) supplied_cookie ctx now = Inr True"
    and tr: "transcript_t0 c
        \<lparr>tc_profile = hc_profile ?cfg, tc_scid = h_scid h, tc_client = hc_peer ?cfg,
         tc_server = (hc_local ?cfg)\<lparr>id_public_key := replicate 32 0\<rparr>,
         tc_client_ephemeral = client_ephemeral, tc_server_ephemeral = replicate 32 0,
         tc_client_nonce = client_nonce, tc_server_nonce = replicate 32 0,
         tc_boot = boot\<rparr> = Inr p0"
    and sig: "verify_signature c (id_public_key (hc_peer ?cfg)) (ascii ''R8 OPEN_AUTH v1'') p0 signature = Inr ()"
    unfolding ServerMachine_check_open_auth_def Let_def id keep ctx_def assms(6-10)
    by (auto simp: and_then_Inr split: if_splits)
  from cook obtain key b where
    kb: "key = svm_current_cookie_key ?mat \<or> key = svm_previous_cookie_key ?mat"
      "unat b \<le> unat now div 10000" "unat now div 10000 \<le> Suc (unat b)"
      "cookie_made_with c ctx key b supplied_cookie"
    by (rule matching_cookie_origin)
  have "ed_verify c (id_public_key (hc_peer ?cfg)) (ascii ''R8 OPEN_AUTH v1'' @ p0) signature"
    using sig by (simp add: verify_signature_def split: if_splits)
  moreover have "length (sv_pending s') \<le> hc_pending_limit ?cfg"
    using check_open_auth_capacity [OF chk] by (simp add: s')
  moreover have "\<exists>entry \<in> set (sv_pending s'). ps_scid entry = h_scid h \<and> ps_opening entry = packet
      \<and> ps_binding entry = binding \<and> ps_session entry = ss"
    by (simp add: s')
  ultimately show ?thesis using tr kb keys unfolding ctx_def ss [symmetric] by blast
qed

theorem server_authenticates_client_witness:
  "\<exists>d_auth ack s' n' sig p0.
      ServerMachine_receive_open_auth sample_crypto sample_server d_auth sample_binding 2 0
        (Some sample_server_material) 1 = Some (Inr ack, s', n')
    \<and> ed_verify sample_crypto (id_public_key (sample_identity 1)) (ascii ''R8 OPEN_AUTH v1'' @ p0) sig"
proof -
  obtain d_auth ack s' n' where
    a: "ServerMachine_receive_open_auth sample_crypto sample_server d_auth sample_binding 2 0
        (Some sample_server_material) 1 = Some (Inr ack, s', n')"
    using sample_run by blast
  obtain h payload where u: "unpack_with_budget d_auth (hc_budget (sv_config sample_server)) = Inr (h, payload)"
    using open_auth_entry [OF a] server_step_config [OF server_step.open_auth [OF a]] by fastforce
  have "HandshakeConfig_validate sample_crypto (sv_config sample_server) = Inr ()"
    using sample_config_ok by (simp add: sample_server_def)
  from server_authenticates_client [OF a u sample_server_idle(3) this refl refl refl refl refl refl] have
    "\<exists>p0 sig. ed_verify sample_crypto (id_public_key (sample_identity 1))
       (ascii ''R8 OPEN_AUTH v1'' @ p0) sig"
    by (auto simp: sample_server_def sample_config_def)
  with a show ?thesis by blast
qed

text \<open>C14: The server's tables stay within their limits and keep one entry per connection id: from
  a new server, through any calls with any packets and clocks, there are at most 256 pending and
  1024 established sessions (or the smaller configured limits), no connection id occurs twice
  in the two tables together, and no two sessions share a replay owner.\<close>

theorem server_tables_invariant:
  assumes "ServerMachine_new c cfg key material = Inr m"
    and "(server_step c)\<^sup>*\<^sup>* (m, n) (m', n')"
  shows "length (sv_pending m') \<le> hc_pending_limit cfg \<and> hc_pending_limit cfg \<le> 256
    \<and> length (sv_established m') \<le> hc_established_limit cfg \<and> hc_established_limit cfg \<le> 1024
    \<and> distinct (map ps_scid (sv_pending m') @ map se_scid (sv_established m'))
    \<and> distinct (map (ds_receive_owner \<circ> ps_session) (sv_pending m')
         @ map (ds_receive_owner \<circ> se_session) (sv_established m'))"
proof -
  have "server_inv m' n'"
    using server.run_keeps [OF assms(2)] server_inv_new [OF assms(1)]
    by (simp add: server_inv_pair_def)
  moreover have "sv_config m = cfg" and v: "HandshakeConfig_validate c cfg = Inr ()"
    using assms(1) by (auto simp: ServerMachine_new_def result_simps split: if_splits)
  moreover from this have "sv_config m' = cfg"
    using server_config.run_keeps [OF assms(2), of cfg] by simp
  ultimately show ?thesis
    by (simp add: server_inv_def keyed_def HandshakeConfig_validate_Inr comp_def)
qed

theorem server_tables_invariant_witness:
  "\<exists>d_auth ack s' n'.
      ServerMachine_receive_open_auth sample_crypto sample_server d_auth sample_binding 2 0
        (Some sample_server_material) 1 = Some (Inr ack, s', n')
    \<and> length (sv_pending s') \<le> 2
    \<and> distinct (map ps_scid (sv_pending s') @ map se_scid (sv_established s'))"
proof -
  obtain d_auth ack s' n' where
    a: "ServerMachine_receive_open_auth sample_crypto sample_server d_auth sample_binding 2 0
        (Some sample_server_material) 1 = Some (Inr ack, s', n')"
    using sample_run by blast
  from server_tables_invariant [OF sample_server_new r_into_rtranclp, of 1 s' n'] server_step.open_auth [OF a] a
  show ?thesis by (auto simp: sample_config_def)
qed

text \<open>The stateless reply never amplifies: whatever packet claims to be an OPEN, the reply that
  \<open>receive_open_limited\<close> lets out has exactly the 170 bytes the limiter accounts for it and is
  no longer than the packet it answers.\<close>

theorem open_reply_bounded:
  assumes "length (hc_source (sv_config s)) = 16" "length (hc_destination (sv_config s)) = 16"
    and "ServerMachine_receive_open_limited c s packet binding source now bucket l = (Inr d, l')"
  shows "length d = 170 \<and> length d \<le> length packet"
proof -
  from assms(3) obtain u where
    a: "PrevalidationLimiter_admit l source (length packet) 170 now = (Inr u, l')"
    and o: "ServerMachine_receive_open c s packet binding bucket = Inr d"
    by (auto simp: ServerMachine_receive_open_limited_def split: sum.splits prod.splits)
  with receive_open_length [OF assms(1,2) o] admit_needs_request [OF a] show ?thesis by simp
qed

theorem open_reply_bounded_witness:
  "\<exists>d_open d l'. ServerMachine_receive_open_limited sample_crypto sample_server d_open sample_binding
      [1] 0 0 PrevalidationLimiter_new = (Inr d, l') \<and> length d \<le> length d_open"
proof -
  let ?o = "client_open sample_crypto sample_client sample_client_material 7"
  obtain i where i: "cookie_input sample_crypto (run_cookie_context sample_crypto sample_client
      sample_server sample_client_material 7 sample_binding 0) = Inr i"
    using run_cookie_input [OF sample_honest sample_server_idle(1)] by blast
  have lo: "length ?o = 170"
    using open_body_length [OF sample_honest]
    by (simp add: handshake_image_def length_header_image sample_client_def sample_config_def)
  have "limiter_inv PrevalidationLimiter_new" by (rule limiter_inv_new)
  then have "fst (PrevalidationLimiter_admit PrevalidationLimiter_new [1] (length ?o) 170 0) = Inr ()"
    by (rule admit_ok) (simp_all add: lo PrevalidationLimiter_new_def refill_def known_sources_def
        account_of_def)
  then obtain l' where "PrevalidationLimiter_admit PrevalidationLimiter_new [1] (length ?o) 170 0
      = (Inr (), l')" by (metis prod.collapse)
  with run_receive_open [OF sample_honest _ sample_server_idle(1) i] obtain d where
    r: "ServerMachine_receive_open_limited sample_crypto sample_server ?o sample_binding
      [1] 0 0 PrevalidationLimiter_new = (Inr d, l')"
    by (auto simp: ServerMachine_receive_open_limited_def)
  have "length (hc_source (sv_config sample_server)) = 16"
    "length (hc_destination (sv_config sample_server)) = 16"
    by (simp_all add: sample_server_def sample_config_def)
  from open_reply_bounded [OF this r] r show ?thesis by blast
qed

text \<open>A retransmitted OPEN_AUTH is answered from the table: once a packet was acknowledged, the
  same packet from the same binding gets the very same OPEN_ACK again, at any later clock at
  which the connection id is still live, without new keys, new material or new table entries.\<close>

theorem open_auth_idempotent:
  assumes "ServerMachine_new c cfg key material = Inr s0" "(server_step c)\<^sup>*\<^sup>* (s0, n0) (s, n)"
    and "ServerMachine_receive_open_auth c s packet binding now bucket hm n = Some (Inr ack, s', n')"
    and "unpack_with_budget packet (hc_budget (sv_config s')) = Inr (h, payload)"
    and "ServerMachine_is_live (ServerMachine_expire s' now') (h_scid h)"
  shows "ServerMachine_receive_open_auth c s' packet binding now' bucket' hm' k
    = Some (Inr ack, ServerMachine_expire s' now', k)"
proof -
  have "server_inv s n"
    using server.run_keeps [OF assms(2)] server_inv_new [OF assms(1)]
    by (simp add: server_inv_pair_def)
  then have "server_inv s' n'" using assms(3) by (rule receive_open_auth_inv)
  then show ?thesis using assms(3-5) by (rule open_auth_again)
qed

theorem open_auth_idempotent_witness:
  "\<exists>d_auth ack s' n'.
      ServerMachine_receive_open_auth sample_crypto sample_server d_auth sample_binding 2 0
        (Some sample_server_material) 1 = Some (Inr ack, s', n')
    \<and> ServerMachine_receive_open_auth sample_crypto s' d_auth sample_binding 3 0 None n'
        = Some (Inr ack, ServerMachine_expire s' 3, n')"
proof -
  obtain d_auth ack s' n' where
    a: "ServerMachine_receive_open_auth sample_crypto sample_server d_auth sample_binding 2 0
        (Some sample_server_material) 1 = Some (Inr ack, s', n')"
    using sample_run by blast
  have cfg: "sv_config s' = sv_config sample_server"
    using server_step_config [OF server_step.open_auth [OF a]] by simp
  obtain h payload where u: "unpack_with_budget d_auth (hc_budget (sv_config s')) = Inr (h, payload)"
    using open_auth_entry [OF a] by blast
  obtain k1 k2 hash sch ss where
    "s' = (ServerMachine_expire sample_server 2)\<lparr>sv_pending := sv_pending (ServerMachine_expire sample_server 2) @
       [\<lparr>ps_scid = h_scid h, ps_opening = d_auth, ps_cached_ack = ack, ps_binding = sample_binding,
         ps_deadline_ms = saturating_add 2 5000, ps_session = ss,
         ps_schedule = (if hc_profile (sv_config sample_server) = 3 then Some sch else None)\<rparr>]\<rparr>"
    by (rule open_auth_new_entry [OF a u [unfolded cfg] sample_server_idle(3)]) blast
  then have live: "ServerMachine_is_live (ServerMachine_expire s' 3) (h_scid h)"
    by (simp add: ServerMachine_is_live_def ServerMachine_expire_def saturating_add_def)
  from open_auth_idempotent [OF sample_server_new _ a u live] a show ?thesis by blast
qed

end
