(* ===== verification/Manifest.thy ===== *)
theory Manifest
  imports Wire "HOL-Library.List_Lexorder" "HOL-Library.Multiset"
begin

text \<open>
  The native manifest of \<open>r8d\<close> (\<open>src/rust/crates/r8d/src/manifest.rs\<close>): the startup file that
  fixes the local locators, the interfaces and the static routes for the life of the daemon.
  JSON decoding is \<open>serde_json\<close> and is a parameter; every check made on the decoded value, and
  the lookups the forwarder makes, are translated. The theorems say what a manifest that passed
  validation guarantees and that route selection is the unique longest matching prefix.
\<close>

section \<open>Data\<close>

datatype ManifestError = Syntax | Schema | Invariant

record interface =
  descriptor_id :: u32
  interface_name :: string
  allowed_source_macs :: "bytes list"
  local_delivery :: bool
  transit :: bool

record route =
  destination_network :: bytes
  prefix_length :: u8
  egress_descriptor_id :: u32
  route_next_hop_mac :: bytes

record native_manifest =
  local_locs :: "bytes list"
  interfaces :: "interface list"
  routes :: "route list"

record raw_interface =
  raw_descriptor_id :: u32
  raw_interface_name :: string
  raw_allowed_source_macs :: "bytes list"
  raw_local_delivery :: bool
  raw_transit :: bool

record raw_prefix =
  raw_network :: bytes
  raw_prefix_length :: u8

record raw_route =
  raw_destination_prefix :: raw_prefix
  raw_egress_descriptor_id :: u32
  raw_next_hop_mac :: bytes

record raw_manifest =
  raw_local_locs :: "bytes list"
  raw_interfaces :: "raw_interface list"
  raw_routes :: "raw_route list"

text \<open>What the source uses of \<open>serde_json\<close>: the decoder and the two error predicates.\<close>

record 'j serde =
  from_slice :: "bytes \<Rightarrow> 'j + raw_manifest"
  is_syntax :: "'j \<Rightarrow> bool"
  is_eof :: "'j \<Rightarrow> bool"

section \<open>Address arithmetic\<close>

definition is_broadcast :: "bytes \<Rightarrow> bool" where
  "is_broadcast mac \<longleftrightarrow> mac = replicate 6 0xff"

definition is_canonical_network :: "bytes \<Rightarrow> u8 \<Rightarrow> bool" where
  "is_canonical_network network plen =
     (let full_bytes = unat (plen div 8); remaining_bits = plen mod 8 in
      if remaining_bits \<noteq> 0 \<and>
         network ! full_bytes AND (push_bit (unat (8 - remaining_bits)) 1 - 1) \<noteq> 0
      then False
      else list_all (\<lambda>byte. byte = 0)
             (drop (full_bytes + (if remaining_bits \<noteq> 0 then 1 else 0)) network))"

definition prefix_matches :: "bytes \<Rightarrow> bytes \<Rightarrow> u8 \<Rightarrow> bool" where
  "prefix_matches network loc plen =
     (let full_bytes = unat (plen div 8) in
      if take full_bytes network \<noteq> take full_bytes loc then False
      else let remaining_bits = plen mod 8 in
        remaining_bits = 0 \<or>
        drop_bit (unat (8 - remaining_bits)) (network ! full_bytes) =
        drop_bit (unat (8 - remaining_bits)) (loc ! full_bytes))"

section \<open>Lookups\<close>

definition permits_source_mac :: "interface \<Rightarrow> bytes \<Rightarrow> bool" where
  "permits_source_mac ifc mac \<longleftrightarrow> mac \<in> set (allowed_source_macs ifc)"

definition route_matches :: "route \<Rightarrow> bytes \<Rightarrow> bool" where
  "route_matches r loc = prefix_matches (destination_network r) loc (prefix_length r)"

definition is_local_loc :: "native_manifest \<Rightarrow> bytes \<Rightarrow> bool" where
  "is_local_loc m loc \<longleftrightarrow> loc \<in> set (local_locs m)"

definition NativeManifest_interface :: "native_manifest \<Rightarrow> u32 \<Rightarrow> interface option" where
  "NativeManifest_interface m ifid = find (\<lambda>ifc. descriptor_id ifc = ifid) (interfaces m)"

text \<open>\<open>Iterator::max_by_key\<close>: the last of the elements with the greatest key.\<close>

fun max_by_key :: "('a \<Rightarrow> 'b::linorder) \<Rightarrow> 'a list \<Rightarrow> 'a option" where
  "max_by_key f [] = None"
| "max_by_key f (x # xs) = Some (foldl (\<lambda>acc y. if f acc \<le> f y then y else acc) x xs)"

definition route_for :: "native_manifest \<Rightarrow> bytes \<Rightarrow> route option" where
  "route_for m loc = max_by_key prefix_length (filter (\<lambda>r. route_matches r loc) (routes m))"

section \<open>Validation\<close>

definition classify_json_error :: "'j serde \<Rightarrow> 'j \<Rightarrow> ManifestError" where
  "classify_json_error J e = (if is_syntax J e \<or> is_eof J e then Syntax else Schema)"

text \<open>The loop over one interface's source addresses; \<open>seen\<close> is \<open>source_macs\<close>.\<close>

fun source_macs_loop :: "bytes set \<Rightarrow> bytes list \<Rightarrow> ManifestError + unit" where
  "source_macs_loop seen [] = Inr ()"
| "source_macs_loop seen (mac # macs) =
     (if is_broadcast mac \<or> mac \<in> seen then Inl Invariant
      else source_macs_loop (insert mac seen) macs)"

text \<open>The loop over the interfaces, with \<open>descriptor_ids\<close> and \<open>interface_names\<close>.\<close>

fun interfaces_loop :: "string set \<Rightarrow> u32 set \<Rightarrow> string set \<Rightarrow> interface list \<Rightarrow> raw_interface list
    \<Rightarrow> ManifestError + u32 set \<times> interface list" where
  "interfaces_loop allowed ids names acc [] = Inr (ids, acc)"
| "interfaces_loop allowed ids names acc (r # rs) =
     (if raw_descriptor_id r = 0 \<or> raw_interface_name r = [] \<or> raw_interface_name r \<notin> allowed
         \<or> raw_descriptor_id r \<in> ids \<or> raw_interface_name r \<in> names
         \<or> raw_allowed_source_macs r = []
      then Inl Invariant
      else and_then (source_macs_loop {} (raw_allowed_source_macs r)) (\<lambda>_.
        interfaces_loop allowed (insert (raw_descriptor_id r) ids)
          (insert (raw_interface_name r) names)
          (acc @ [\<lparr>descriptor_id = raw_descriptor_id r, interface_name = raw_interface_name r,
                   allowed_source_macs = raw_allowed_source_macs r,
                   local_delivery = raw_local_delivery r, transit = raw_transit r\<rparr>]) rs))"

text \<open>\<open>BTreeSet\<close> of locators as its sorted contents.\<close>

fun local_locs_loop :: "bytes list \<Rightarrow> bytes list \<Rightarrow> ManifestError + bytes list" where
  "local_locs_loop locs [] = Inr locs"
| "local_locs_loop locs (loc # rest) =
     (if loc \<in> set locs then Inl Invariant else local_locs_loop (insort loc locs) rest)"

fun routes_loop :: "u32 set \<Rightarrow> (bytes \<times> u8) set \<Rightarrow> route list \<Rightarrow> raw_route list
    \<Rightarrow> ManifestError + route list" where
  "routes_loop ids keys acc [] = Inr acc"
| "routes_loop ids keys acc (r # rs) =
     (let prefix = raw_destination_prefix r in
      if raw_prefix_length prefix = 0 \<or> raw_prefix_length prefix > 128
         \<or> \<not> is_canonical_network (raw_network prefix) (raw_prefix_length prefix)
         \<or> raw_egress_descriptor_id r = 0 \<or> raw_egress_descriptor_id r \<notin> ids
         \<or> is_broadcast (raw_next_hop_mac r)
         \<or> (raw_network prefix, raw_prefix_length prefix) \<in> keys
      then Inl Invariant
      else routes_loop ids (insert (raw_network prefix, raw_prefix_length prefix) keys)
        (acc @ [\<lparr>destination_network = raw_network prefix,
                 prefix_length = raw_prefix_length prefix,
                 egress_descriptor_id = raw_egress_descriptor_id r,
                 route_next_hop_mac = raw_next_hop_mac r\<rparr>]) rs)"

definition validate_manifest_json ::
    "'j serde \<Rightarrow> bytes \<Rightarrow> string list \<Rightarrow> ManifestError + native_manifest" where
  "validate_manifest_json J bs allowlist =
     and_then (map_err (classify_json_error J) (from_slice J bs)) (\<lambda>raw.
     and_then (interfaces_loop (set allowlist) {} {} [] (raw_interfaces raw)) (\<lambda>(ids, ifcs).
     and_then (local_locs_loop [] (raw_local_locs raw)) (\<lambda>locs.
     and_then (routes_loop ids {} [] (raw_routes raw)) (\<lambda>rts.
       Inr \<lparr>local_locs = locs, interfaces = ifcs, routes = rts\<rparr>))))"

section \<open>Bits of an address\<close>

text \<open>Bit \<open>i\<close> of a locator, counted from the most significant bit of its first byte.\<close>

definition addr_bit :: "bytes \<Rightarrow> nat \<Rightarrow> bool" where
  "addr_bit a i \<longleftrightarrow> bit (a ! (i div 8)) (7 - i mod 8)"

lemma byte_eq_iff_bits: "(a :: u8) = b \<longleftrightarrow> (\<forall>j < 8. bit a (7 - j) = bit b (7 - j))"
proof
  assume *: "\<forall>j < 8. bit a (7 - j) = bit b (7 - j)"
  show "a = b"
  proof (rule bit_word_eqI)
    fix n assume "n < LENGTH(8)"
    then show "bit a n = bit b n" using * [rule_format, of "7 - n"] by simp
  qed
qed simp

lemma drop_bit_byte_eq_iff:
  assumes "r \<le> 8"
  shows "drop_bit (8 - r) (a :: u8) = drop_bit (8 - r) b \<longleftrightarrow> (\<forall>j < r. bit a (7 - j) = bit b (7 - j))"
proof
  assume *: "\<forall>j < r. bit a (7 - j) = bit b (7 - j)"
  show "drop_bit (8 - r) a = drop_bit (8 - r) b"
  proof (rule bit_word_eqI)
    fix n :: nat assume "n < LENGTH(8)"
    show "bit (drop_bit (8 - r) a) n = bit (drop_bit (8 - r) b) n"
    proof (cases "n < r")
      case True
      then have "7 - (r - Suc n) = 8 - r + n" "r - Suc n < r" using assms by simp_all
      then show ?thesis using * [rule_format, of "r - Suc n"] by (simp add: bit_simps)
    next
      case False
      then have "8 \<le> 8 - r + n" using assms by simp
      then show ?thesis
        using bit_imp_le_length [of a "8 - r + n"] bit_imp_le_length [of b "8 - r + n"]
        by (auto simp: bit_simps)
    qed
  qed
next
  assume *: "drop_bit (8 - r) a = drop_bit (8 - r) b"
  show "\<forall>j < r. bit a (7 - j) = bit b (7 - j)"
  proof (intro allI impI)
    fix j assume j: "j < r"
    then have "8 - r + (r - Suc j) = 7 - j" using assms by simp
    then show "bit a (7 - j) = bit b (7 - j)"
      using arg_cong [OF *, of "\<lambda>w. bit w (r - Suc j)"] by (simp add: bit_simps)
  qed
qed

lemma low_bits_zero_iff:
  assumes "0 < r" and "r \<le> 8"
  shows "(a :: u8) AND (push_bit (8 - r) 1 - 1) = 0 \<longleftrightarrow> (\<forall>j < 8. r \<le> j \<longrightarrow> \<not> bit a (7 - j))"
proof -
  have "push_bit (8 - r) 1 - 1 = (mask (8 - r) :: u8)"
    by (simp add: mask_eq_exp_minus_1 push_bit_of_1)
  then have "a AND (push_bit (8 - r) 1 - 1) = 0 \<longleftrightarrow> (\<forall>n < 8. \<not> bit (a AND mask (8 - r)) n)"
    using bit_eq_iff [of "a AND mask (8 - r)" 0] by (simp only: bit_0_eq bot_apply) simp
  also have "\<dots> \<longleftrightarrow> (\<forall>n < 8 - r. \<not> bit a n)"
    by (auto simp: bit_simps) (metis diff_le_self order_less_le_trans)
  also have "\<dots> \<longleftrightarrow> (\<forall>j < 8. r \<le> j \<longrightarrow> \<not> bit a (7 - j))"
  proof safe
    fix n assume "\<forall>j < 8. r \<le> j \<longrightarrow> \<not> bit a (7 - j)" "n < 8 - r" "bit a n"
    moreover have "7 - (7 - n) = n" "7 - n < 8" "r \<le> 7 - n" using \<open>n < 8 - r\<close> assms by simp_all
    ultimately show False by metis
  next
    fix j assume "\<forall>n < 8 - r. \<not> bit a n" "j < 8" "r \<le> j" "bit a (7 - j)"
    moreover have "7 - j < 8 - r" using \<open>r \<le> j\<close> \<open>j < 8\<close> by simp
    ultimately show False by blast
  qed
  finally show ?thesis .
qed

text \<open>A prefix of \<open>n\<close> bits is its full bytes and the high bits of the next one.\<close>

lemma all_bits_split:
  "(\<forall>i < n. P i) \<longleftrightarrow>
     (\<forall>k < n div 8. \<forall>j < 8. P (8 * k + j)) \<and> (\<forall>j < n mod 8. P (8 * (n div 8) + j))"
  for n :: nat
proof safe
  fix k j :: nat assume *: "\<forall>i < n. P i" "k < n div 8" "j < 8"
  then have "8 * k + j < n" by (simp add: less_eq_div_iff_mult_less_eq [symmetric])
  with *(1) show "P (8 * k + j)" by blast
next
  fix j assume "\<forall>i < n. P i" "j < n mod 8"
  moreover have "8 * (n div 8) + j < n" using \<open>j < n mod 8\<close> by presburger
  ultimately show "P (8 * (n div 8) + j)" by blast
next
  fix i assume *: "\<forall>k < n div 8. \<forall>j < 8. P (8 * k + j)" "\<forall>j < n mod 8. P (8 * (n div 8) + j)" "i < n"
  have i: "i = 8 * (i div 8) + i mod 8" by simp
  show "P i"
  proof (cases "i div 8 < n div 8")
    case True
    then show ?thesis using *(1) i by (metis mod_less_divisor zero_less_numeral)
  next
    case False
    then have "i div 8 = n div 8" using *(3) by (meson div_le_mono le_antisym less_imp_le not_less)
    moreover from this have "i mod 8 < n mod 8" using *(3) i by (metis add_less_cancel_left mult_div_mod_eq)
    ultimately show ?thesis using *(2) i by metis
  qed
qed

lemma addr_bit_byte [simp]: "j < 8 \<Longrightarrow> addr_bit a (8 * k + j) \<longleftrightarrow> bit (a ! k) (7 - j)"
  by (simp add: addr_bit_def)

lemma unat_plen:
  "unat (n div 8) = unat n div 8" "unat (n mod 8) = unat n mod 8" "unat (8 - n mod 8) = 8 - unat n mod 8"
  "n mod 8 = 0 \<longleftrightarrow> unat n mod 8 = 0" for n :: u8
proof -
  show d: "unat (n div 8) = unat n div 8" "unat (n mod 8) = unat n mod 8"
    by (simp_all add: unat_div unat_mod)
  have "n mod 8 \<le> 8" by (simp add: word_le_nat_alt d)
  then show "unat (8 - n mod 8) = 8 - unat n mod 8" by (simp add: unat_sub d)
  show "n mod 8 = 0 \<longleftrightarrow> unat n mod 8 = 0" using d(2) by (metis unat_eq_zero)
qed

lemma take_eq_bits:
  "k \<le> length xs \<Longrightarrow> k \<le> length ys \<Longrightarrow>
     take k xs = take k ys \<longleftrightarrow> (\<forall>i < k. \<forall>j < 8. bit (xs ! i) (7 - j) = bit (ys ! i) (7 - j))"
  for xs ys :: bytes
  by (simp add: list_eq_iff_nth_eq byte_eq_iff_bits [symmetric])

lemma prefix_matches_bits:
  assumes "length network = 16" "length loc = 16" "plen \<le> 128"
  shows "prefix_matches network loc plen \<longleftrightarrow>
     (\<forall>i < unat plen. addr_bit network i = addr_bit loc i)"
proof -
  have le: "unat plen div 8 \<le> 16" using assms(3) by (simp add: word_le_nat_alt)
  have r: "unat plen mod 8 \<le> 8" by (meson less_imp_le mod_less_divisor zero_less_numeral)
  show ?thesis
    unfolding prefix_matches_def Let_def unat_plen all_bits_split [of "unat plen"]
      drop_bit_byte_eq_iff [OF r]
    using le assms(1,2) by (auto simp: take_eq_bits)
qed

lemma is_canonical_network_bits:
  assumes "length network = 16" "plen \<le> 128"
  shows "is_canonical_network network plen \<longleftrightarrow>
     (\<forall>i. unat plen \<le> i \<and> i < 128 \<longrightarrow> \<not> addr_bit network i)"
proof -
  define f where "f = unat plen div 8"
  define r where "r = unat plen mod 8"
  have n: "unat plen = 8 * f + r" "r < 8" "8 * f + r \<le> 128"
    using assms(2) by (simp_all add: f_def r_def word_le_nat_alt)
  define g where "g = f + (if r \<noteq> 0 then 1 else 0)"
  have byte: "b = 0 \<longleftrightarrow> (\<forall>j < 8. \<not> bit b (7 - j))" for b :: u8
    using byte_eq_iff_bits [of b 0] by simp
  have tail: "list_all (\<lambda>byte. byte = 0) (drop g network) \<longleftrightarrow>
      (\<forall>k. g \<le> k \<and> k < 16 \<longrightarrow> (\<forall>j < 8. \<not> addr_bit network (8 * k + j)))"
  proof -
    have "list_all (\<lambda>byte. byte = 0) (drop g network) \<longleftrightarrow> (\<forall>i < 16 - g. network ! (g + i) = 0)"
      using assms(1) by (auto simp: list_all_length)
    also have "\<dots> \<longleftrightarrow> (\<forall>k. g \<le> k \<and> k < 16 \<longrightarrow> network ! k = 0)"
      by (metis add.commute le_add1 le_add_diff_inverse2 less_diff_conv)
    finally show ?thesis by (simp add: byte [symmetric])
  qed
  have mid: "(r \<noteq> 0 \<and> network ! f AND (push_bit (8 - r) 1 - 1) \<noteq> 0) \<longleftrightarrow>
      \<not> (r \<noteq> 0 \<longrightarrow> (\<forall>j < 8. r \<le> j \<longrightarrow> \<not> addr_bit network (8 * f + j)))"
    using low_bits_zero_iff [of r "network ! f"] n(2) by auto
  have "is_canonical_network network plen \<longleftrightarrow>
      (r \<noteq> 0 \<longrightarrow> (\<forall>j < 8. r \<le> j \<longrightarrow> \<not> addr_bit network (8 * f + j))) \<and>
      (\<forall>k. g \<le> k \<and> k < 16 \<longrightarrow> (\<forall>j < 8. \<not> addr_bit network (8 * k + j)))"
    unfolding is_canonical_network_def Let_def unat_plen f_def [symmetric] r_def [symmetric]
      g_def [symmetric] mid tail by simp
  also have "\<dots> \<longleftrightarrow> (\<forall>i. 8 * f + r \<le> i \<and> i < 128 \<longrightarrow> \<not> addr_bit network i)" (is "?L \<longleftrightarrow> ?R")
  proof
    assume L: ?L
    show ?R
    proof (intro allI impI)
      fix i assume i: "8 * f + r \<le> i \<and> i < 128"
      have e: "8 * (i div 8) + i mod 8 = i" by simp
      have k: "i div 8 < 16" "f \<le> i div 8" using i by presburger+
      show "\<not> addr_bit network i"
      proof (cases "i div 8 = f \<and> r \<noteq> 0")
        case True
        then have "r \<le> i mod 8" using i e by (metis add_le_cancel_left)
        then show ?thesis using L True e by (metis mod_less_divisor zero_less_numeral)
      next
        case False
        then have "g \<le> i div 8" using k by (auto simp: g_def)
        then show ?thesis using L k e by (metis mod_less_divisor zero_less_numeral)
      qed
    qed
  next
    assume R: ?R
    have "\<not> addr_bit network (8 * f + j)" if "r \<noteq> 0" "j < 8" "r \<le> j" for j
    proof -
      have "8 * f + j < 128" using that n(3) by presburger
      with R that show ?thesis by (meson add_left_mono)
    qed
    moreover have "\<not> addr_bit network (8 * k + j)" if "g \<le> k" "k < 16" "j < 8" for k j
      using R [rule_format, of "8 * k + j"] that n by (auto simp: g_def split: if_splits)
    ultimately show ?L by blast
  qed
  finally show ?thesis by (simp add: n)
qed

section \<open>What validation accepts\<close>

definition interface_of :: "raw_interface \<Rightarrow> interface" where
  "interface_of r =
     \<lparr>descriptor_id = raw_descriptor_id r, interface_name = raw_interface_name r,
      allowed_source_macs = raw_allowed_source_macs r,
      local_delivery = raw_local_delivery r, transit = raw_transit r\<rparr>"

definition route_of :: "raw_route \<Rightarrow> route" where
  "route_of r =
     \<lparr>destination_network = raw_network (raw_destination_prefix r),
      prefix_length = raw_prefix_length (raw_destination_prefix r),
      egress_descriptor_id = raw_egress_descriptor_id r,
      route_next_hop_mac = raw_next_hop_mac r\<rparr>"

definition manifest_of :: "raw_manifest \<Rightarrow> native_manifest" where
  "manifest_of raw =
     \<lparr>local_locs = sort (raw_local_locs raw), interfaces = map interface_of (raw_interfaces raw),
      routes = map route_of (raw_routes raw)\<rparr>"

definition interface_ok :: "interface \<Rightarrow> bool" where
  "interface_ok i \<longleftrightarrow> descriptor_id i \<noteq> 0 \<and> interface_name i \<noteq> [] \<and> allowed_source_macs i \<noteq> []
     \<and> distinct (allowed_source_macs i) \<and> replicate 6 0xff \<notin> set (allowed_source_macs i)"

definition route_key :: "route \<Rightarrow> bytes \<times> u8" where
  "route_key r = (destination_network r, prefix_length r)"

definition route_ok :: "u32 set \<Rightarrow> route \<Rightarrow> bool" where
  "route_ok ids r \<longleftrightarrow> 0 < prefix_length r \<and> prefix_length r \<le> 128
     \<and> is_canonical_network (destination_network r) (prefix_length r)
     \<and> egress_descriptor_id r \<noteq> 0 \<and> egress_descriptor_id r \<in> ids
     \<and> route_next_hop_mac r \<noteq> replicate 6 0xff"

definition manifest_ok :: "native_manifest \<Rightarrow> bool" where
  "manifest_ok m \<longleftrightarrow>
     distinct (map descriptor_id (interfaces m)) \<and> distinct (map interface_name (interfaces m))
     \<and> (\<forall>i \<in> set (interfaces m). interface_ok i)
     \<and> sorted (local_locs m) \<and> distinct (local_locs m)
     \<and> (\<forall>r \<in> set (routes m). route_ok (descriptor_id ` set (interfaces m)) r)
     \<and> distinct (map route_key (routes m))"

lemma interface_of_simps [simp]:
  "descriptor_id (interface_of r) = raw_descriptor_id r"
  "interface_name (interface_of r) = raw_interface_name r"
  "allowed_source_macs (interface_of r) = raw_allowed_source_macs r"
  by (simp_all add: interface_of_def)

lemma source_macs_loop_iff:
  "source_macs_loop seen macs = Inr u \<longleftrightarrow>
     distinct macs \<and> set macs \<inter> seen = {} \<and> replicate 6 0xff \<notin> set macs"
  by (induction seen macs rule: source_macs_loop.induct) (auto simp: is_broadcast_def)

lemma interfaces_loop_iff:
  "interfaces_loop allowed ids names acc rs = Inr (ids', ifcs) \<longleftrightarrow>
     ids' = ids \<union> raw_descriptor_id ` set rs \<and> ifcs = acc @ map interface_of rs
     \<and> distinct (map raw_descriptor_id rs) \<and> raw_descriptor_id ` set rs \<inter> ids = {}
     \<and> distinct (map raw_interface_name rs) \<and> raw_interface_name ` set rs \<inter> names = {}
     \<and> raw_interface_name ` set rs \<subseteq> allowed \<and> (\<forall>r \<in> set rs. interface_ok (interface_of r))"
proof (induction rs arbitrary: ids names acc)
  case (Cons r rs)
  have ok: "interface_ok (interface_of r) \<longleftrightarrow>
      raw_descriptor_id r \<noteq> 0 \<and> raw_interface_name r \<noteq> [] \<and> raw_allowed_source_macs r \<noteq> [] \<and>
      source_macs_loop {} (raw_allowed_source_macs r) = Inr ()"
    by (auto simp: interface_ok_def source_macs_loop_iff)
  show ?case
    by (auto simp: Cons.IH ok and_then_Inr interface_of_def [symmetric])
qed auto

lemma local_locs_loop_iff:
  "sorted acc \<Longrightarrow> distinct acc \<Longrightarrow> local_locs_loop acc locs = Inr res \<longleftrightarrow>
     distinct locs \<and> set locs \<inter> set acc = {} \<and> res = sort (acc @ locs)"
proof (induction acc locs rule: local_locs_loop.induct)
  case (1 acc)
  then show ?case by (auto simp: sorted_sort_id)
next
  case (2 acc loc rest)
  have "sort (insort loc acc @ rest) = sort (acc @ loc # rest)"
    by (rule properties_for_sort) (simp_all add: ac_simps)
  with 2 show ?case
    by (auto simp: sorted_insort distinct_insort set_insort_key)
qed

lemma routes_loop_iff:
  "routes_loop ids keys acc rs = Inr res \<longleftrightarrow>
     res = acc @ map route_of rs \<and> (\<forall>r \<in> set rs. route_ok ids (route_of r))
     \<and> distinct (map (\<lambda>r. route_key (route_of r)) rs)
     \<and> (\<lambda>r. route_key (route_of r)) ` set rs \<inter> keys = {}"
proof (induction rs arbitrary: keys acc)
  case (Cons r rs)
  have key: "route_key (route_of r) =
      (raw_network (raw_destination_prefix r), raw_prefix_length (raw_destination_prefix r))" for r
    by (simp add: route_key_def route_of_def)
  have ok: "route_ok ids (route_of r) \<longleftrightarrow>
     \<not> (raw_prefix_length (raw_destination_prefix r) = 0
        \<or> raw_prefix_length (raw_destination_prefix r) > 128
        \<or> \<not> is_canonical_network (raw_network (raw_destination_prefix r))
              (raw_prefix_length (raw_destination_prefix r))
        \<or> raw_egress_descriptor_id r = 0 \<or> raw_egress_descriptor_id r \<notin> ids
        \<or> is_broadcast (raw_next_hop_mac r))"
    by (auto simp: route_ok_def route_of_def is_broadcast_def word_neq_0_conv not_less)
  show ?case
    by (auto simp: Cons.IH ok Let_def key [symmetric] route_of_def [symmetric])
qed auto

text \<open>
  Validation is exact. \<open>validate_manifest_json\<close> returns a manifest precisely when the
  JSON decodes, every interface name is on the allowlist and the resulting manifest meets the
  whole contract \<open>manifest_ok\<close>: descriptor ids and names non-empty and unique, each interface
  with a non-empty duplicate-free set of non-broadcast source addresses, locators unique and
  sorted, every route a canonical prefix of 1 to 128 bits with a known egress interface, a
  non-broadcast next hop and a prefix no other route has. The result is the decoded value
  field by field, with the locators sorted.
\<close>

theorem manifest_validation_exact:
  "validate_manifest_json J bs allowlist = Inr m \<longleftrightarrow>
     (\<exists>raw. from_slice J bs = Inr raw \<and> m = manifest_of raw \<and> manifest_ok m
        \<and> interface_name ` set (interfaces m) \<subseteq> set allowlist)"
  by (cases "from_slice J bs")
    (auto simp: validate_manifest_json_def and_then_Inr interfaces_loop_iff local_locs_loop_iff
      routes_loop_iff manifest_of_def manifest_ok_def image_image image_subset_iff comp_def)

section \<open>Route selection\<close>

text \<open>
  The decoder returns the declared array sizes: 16 bytes for a locator or network, 6 for an
  address (fixed-size arrays of the source).
\<close>

definition serde_ok :: "'j serde \<Rightarrow> bool" where
  "serde_ok J \<longleftrightarrow> (\<forall>bs raw. from_slice J bs = Inr raw \<longrightarrow>
     (\<forall>l \<in> set (raw_local_locs raw). length l = 16)
     \<and> (\<forall>i \<in> set (raw_interfaces raw). \<forall>mac \<in> set (raw_allowed_source_macs i). length mac = 6)
     \<and> (\<forall>r \<in> set (raw_routes raw). length (raw_network (raw_destination_prefix r)) = 16
          \<and> length (raw_next_hop_mac r) = 6))"

text \<open>The reference meaning of a route: the first \<open>prefix_length\<close> bits agree.\<close>

definition covers :: "route \<Rightarrow> bytes \<Rightarrow> bool" where
  "covers r loc \<longleftrightarrow> (\<forall>i < unat (prefix_length r). addr_bit (destination_network r) i = addr_bit loc i)"

definition routes_sized :: "native_manifest \<Rightarrow> bool" where
  "routes_sized m \<longleftrightarrow>
     (\<forall>r \<in> set (routes m). length (destination_network r) = 16 \<and> length (route_next_hop_mac r) = 6)"

lemma validated_ok:
  "validate_manifest_json J bs allowlist = Inr m \<Longrightarrow> manifest_ok m"
  by (auto simp: validate_manifest_json_def and_then_Inr interfaces_loop_iff local_locs_loop_iff
      routes_loop_iff manifest_ok_def image_image comp_def)

lemma validated_sized:
  "serde_ok J \<Longrightarrow> validate_manifest_json J bs allowlist = Inr m \<Longrightarrow> routes_sized m"
  by (fastforce simp: validate_manifest_json_def and_then_Inr interfaces_loop_iff local_locs_loop_iff
      routes_loop_iff routes_sized_def serde_ok_def route_of_def)

lemma route_matches_covers:
  "manifest_ok m \<Longrightarrow> routes_sized m \<Longrightarrow> r \<in> set (routes m) \<Longrightarrow> length loc = 16 \<Longrightarrow>
     route_matches r loc \<longleftrightarrow> covers r loc"
  unfolding route_matches_def covers_def
  by (rule prefix_matches_bits) (auto simp: manifest_ok_def routes_sized_def route_ok_def)

lemma addr_eqI:
  assumes "length a = 16" "length b = 16" "\<And>i. i < 128 \<Longrightarrow> addr_bit a i = addr_bit b i"
  shows "a = b"
proof -
  have "take 16 a = take 16 b"
    using assms by (subst take_eq_bits) (auto simp: addr_bit_byte [symmetric] simp del: addr_bit_byte)
  with assms show ?thesis by simp
qed

text \<open>Two validated routes of one length that cover a common locator are one route.\<close>

lemma covers_unique:
  assumes m: "manifest_ok m" "routes_sized m" and r: "r \<in> set (routes m)" "s \<in> set (routes m)"
    and c: "covers r loc" "covers s loc" "prefix_length r = prefix_length s"
  shows "r = s"
proof -
  have l: "length (destination_network x) = 16 \<and> prefix_length x \<le> 128
      \<and> is_canonical_network (destination_network x) (prefix_length x)" if "x \<in> set (routes m)" for x
    using m that by (auto simp: manifest_ok_def routes_sized_def route_ok_def)
  have "destination_network r = destination_network s"
  proof (rule addr_eqI)
    fix i :: nat assume i: "i < 128"
    show "addr_bit (destination_network r) i = addr_bit (destination_network s) i"
    proof (cases "i < unat (prefix_length r)")
      case True
      with c show ?thesis by (simp add: covers_def)
    next
      case False
      with i c(3) l [OF r(1)] l [OF r(2)] show ?thesis
        by (metis is_canonical_network_bits not_less)
    qed
  qed (use l r in auto)
  with c(3) have "route_key r = route_key s" by (simp add: route_key_def)
  with m(1) r show ?thesis by (auto simp: manifest_ok_def distinct_map inj_on_def)
qed

lemma foldl_max_key:
  "foldl (\<lambda>acc y. if f acc \<le> f y then y else acc) x xs \<in> insert x (set xs) \<and>
   (\<forall>z \<in> insert x (set xs). f z \<le> f (foldl (\<lambda>acc y. if f acc \<le> f y then y else acc) x xs))"
  for f :: "'a \<Rightarrow> 'b::linorder"
proof (induction xs arbitrary: x)
  case (Cons y ys)
  show ?case
  proof (cases "f x \<le> f y")
    case True
    with Cons.IH [of y] show ?thesis by (auto intro: order_trans)
  next
    case False
    then have "f y \<le> f x" by simp
    with False Cons.IH [of x] show ?thesis by (auto intro: order_trans)
  qed
qed simp

lemma max_by_key_Some:
  "max_by_key f xs = Some x \<Longrightarrow> x \<in> set xs \<and> (\<forall>z \<in> set xs. f z \<le> f x)"
  using foldl_max_key [of f "hd xs" "tl xs"] by (cases xs) auto

lemma max_by_key_None: "max_by_key f xs = None \<longleftrightarrow> xs = []"
  by (cases xs) auto

lemma route_for_Some:
  assumes "route_for m loc = Some r"
  shows "r \<in> set (routes m)" "route_matches r loc"
    "\<And>s. s \<in> set (routes m) \<Longrightarrow> route_matches s loc \<Longrightarrow> prefix_length s \<le> prefix_length r"
  using max_by_key_Some [OF assms [unfolded route_for_def]] by auto

lemma route_for_None: "route_for m loc = None \<longleftrightarrow> (\<forall>r \<in> set (routes m). \<not> route_matches r loc)"
  by (auto simp: route_for_def max_by_key_None filter_empty_conv)

text \<open>
  C26: Route selection is longest-prefix match. For a validated manifest, \<open>route_for\<close> returns
  the route \<open>r\<close> exactly when \<open>r\<close> covers the destination (the first \<open>prefix_length\<close> bits agree)
  and every other route that covers it is strictly shorter; it returns none exactly when no
  route covers the destination. The answer is therefore unique and independent of the order of
  the routes in the file.
\<close>

theorem route_for_longest_prefix:
  assumes "serde_ok J" and "validate_manifest_json J bs allowlist = Inr m" and "length loc = 16"
  shows "(route_for m loc = Some r \<longleftrightarrow>
            r \<in> set (routes m) \<and> covers r loc \<and>
            (\<forall>s \<in> set (routes m). covers s loc \<longrightarrow> s = r \<or> prefix_length s < prefix_length r))
    \<and> (route_for m loc = None \<longleftrightarrow> (\<forall>s \<in> set (routes m). \<not> covers s loc))"
proof -
  note m = validated_ok [OF assms(2)] validated_sized [OF assms(1,2)]
  note cov = route_matches_covers [OF m _ assms(3)]
  have none: "route_for m loc = None \<longleftrightarrow> (\<forall>s \<in> set (routes m). \<not> covers s loc)"
    using cov by (auto simp: route_for_None)
  have found: "r \<in> set (routes m) \<and> covers r loc \<and>
      (\<forall>s \<in> set (routes m). covers s loc \<longrightarrow> s = r \<or> prefix_length s < prefix_length r)"
    if "route_for m loc = Some r" for r
    using route_for_Some [OF that] cov covers_unique [OF m] by (metis order_le_imp_less_or_eq)
  show ?thesis
  proof (intro conjI none iffI)
    assume *: "r \<in> set (routes m) \<and> covers r loc \<and>
      (\<forall>s \<in> set (routes m). covers s loc \<longrightarrow> s = r \<or> prefix_length s < prefix_length r)"
    then obtain s where s: "route_for m loc = Some s" using none by (metis option.exhaust)
    with found [OF s] * show "route_for m loc = Some r" by (metis order_less_asym)
  qed (use found in blast)+
qed

text \<open>A two-route manifest: 8.0.0.0/5 and 8.8.0.0/16 in the first bytes of a locator.\<close>

definition sample_raw :: raw_manifest where
  "sample_raw =
     \<lparr>raw_local_locs = [],
      raw_interfaces =
        [\<lparr>raw_descriptor_id = 1, raw_interface_name = ''r8a'',
          raw_allowed_source_macs = [[2, 0, 0, 0, 0, 1]], raw_local_delivery = False,
          raw_transit = True\<rparr>,
         \<lparr>raw_descriptor_id = 2, raw_interface_name = ''r8b'',
          raw_allowed_source_macs = [[2, 0, 0, 0, 0, 3]], raw_local_delivery = False,
          raw_transit = True\<rparr>],
      raw_routes =
        [\<lparr>raw_destination_prefix = \<lparr>raw_network = 8 # replicate 15 0, raw_prefix_length = 5\<rparr>,
          raw_egress_descriptor_id = 1, raw_next_hop_mac = [2, 0, 0, 0, 0, 1]\<rparr>,
         \<lparr>raw_destination_prefix = \<lparr>raw_network = 8 # 8 # replicate 14 0, raw_prefix_length = 16\<rparr>,
          raw_egress_descriptor_id = 2, raw_next_hop_mac = [2, 0, 0, 0, 0, 3]\<rparr>]\<rparr>"

definition sample_serde :: "unit serde" where
  "sample_serde = \<lparr>from_slice = (\<lambda>_. Inr sample_raw), is_syntax = (\<lambda>_. True), is_eof = (\<lambda>_. False)\<rparr>"

definition sample_manifest :: native_manifest where
  "sample_manifest = manifest_of sample_raw"

lemma serde_ok_sample: "serde_ok sample_serde"
  by (auto simp: serde_ok_def sample_serde_def sample_raw_def)

lemma sample_validates:
  "validate_manifest_json sample_serde [] [''r8a'', ''r8b''] = Inr sample_manifest"
  by code_simp

lemma sample_routes:
  "routes sample_manifest =
     [\<lparr>destination_network = 8 # replicate 15 0, prefix_length = 5, egress_descriptor_id = 1,
       route_next_hop_mac = [2, 0, 0, 0, 0, 1]\<rparr>,
      \<lparr>destination_network = 8 # 8 # replicate 14 0, prefix_length = 16, egress_descriptor_id = 2,
       route_next_hop_mac = [2, 0, 0, 0, 0, 3]\<rparr>]"
  by (simp add: sample_manifest_def manifest_of_def sample_raw_def route_of_def)

theorem route_for_longest_prefix_witness:
  "\<exists>r. route_for sample_manifest (8 # 8 # replicate 14 7) = Some r \<and> egress_descriptor_id r = 2
     \<and> (\<forall>s \<in> set (routes sample_manifest). covers s (8 # 8 # replicate 14 7) \<longrightarrow>
          s = r \<or> prefix_length s < prefix_length r)"
proof -
  have len: "length (8 # 8 # replicate 14 (7 :: u8)) = 16" by simp
  have "route_for sample_manifest (8 # 8 # replicate 14 7) = Some (routes sample_manifest ! 1)"
    by (simp add: route_for_def sample_routes route_matches_def prefix_matches_def)
  with route_for_longest_prefix [OF serde_ok_sample sample_validates len, of "routes sample_manifest ! 1"]
  show ?thesis by (auto simp: sample_routes)
qed

end
