(* ===== verification/Forward.thy ===== *)
theory Forward
  imports Manifest Session_Codec
begin

text \<open>
  Stateless frame admission and forwarding (\<open>src/rust/crates/r8d/src/forward.rs\<close>): the packet
  budget of each descriptor and \<open>process_frame\<close>, which turns one Ethernet II frame into a drop
  with its reason, a local delivery or a forwarded packet. The theorems give the exact
  conditions of a forward and of a delivery, and, through the locale \<open>transit\<close>, what any chain
  of forwarders does to a packet: only the hop limit changes and the chain is shorter than it.
\<close>

section \<open>Descriptor budgets\<close>

definition ETHERNET_II_HEADER_LEN :: nat where "ETHERNET_II_HEADER_LEN = 14"
definition MIN_R8_PACKET_BUDGET :: nat where "MIN_R8_PACKET_BUDGET = 48"

datatype DescriptorBudgetError = Invalid | Incomplete

text \<open>The \<open>BTreeMap\<close> is an association list whose keys are distinct; nothing reads its order.\<close>

type_synonym descriptor_budgets = "(u32 \<times> nat) list"

definition DescriptorBudgets_get :: "descriptor_budgets \<Rightarrow> u32 \<Rightarrow> nat option" where
  "DescriptorBudgets_get values ifid = map_of values ifid"

fun budgets_loop :: "descriptor_budgets \<Rightarrow> (u32 \<times> nat) list \<Rightarrow>
    DescriptorBudgetError + descriptor_budgets" where
  "budgets_loop values [] = Inr values"
| "budgets_loop values ((ifid, budget) # rest) =
     (if \<not> (MIN_R8_PACKET_BUDGET \<le> budget \<and> budget \<le> SERIALIZED_R8_MAX) then Inl Invalid
      else if map_of values ifid \<noteq> None then Inl Invalid
      else budgets_loop ((ifid, budget) # values) rest)"

definition DescriptorBudgets_new ::
    "native_manifest \<Rightarrow> (u32 \<times> nat) list \<Rightarrow> DescriptorBudgetError + descriptor_budgets" where
  "DescriptorBudgets_new m budgets =
     and_then (budgets_loop [] budgets) (\<lambda>values.
       if length values \<noteq> length (interfaces m)
          \<or> list_ex (\<lambda>ifc. map_of values (descriptor_id ifc) = None) (interfaces m)
       then Inl Incomplete
       else Inr values)"

section \<open>Frames\<close>

datatype FrameDropReason =
    InvalidFrame | UnknownIngressDescriptor | SourceNotAllowed | IngressBudget | MalformedPacket
  | LocalDeliveryDisabled | TransitDisabled | HopLimitReached | NoRoute | EgressBudget

datatype FrameAction =
    Drop FrameDropReason
  | Deliver bytes ObservedBinding
  | Forward bytes u32 bytes

definition process_frame ::
    "native_manifest \<Rightarrow> descriptor_budgets \<Rightarrow> u32 \<Rightarrow> bytes \<Rightarrow> FrameAction" where
  "process_frame m budgets ingress_id frame =
     (if length frame < ETHERNET_II_HEADER_LEN
         \<or> slice_of 12 14 frame \<noteq> u16_to_be_bytes R8_ETHERTYPE
      then Drop InvalidFrame
      else case NativeManifest_interface m ingress_id of
        None \<Rightarrow> Drop UnknownIngressDescriptor
      | Some ingress \<Rightarrow>
        let source_mac = slice_of 6 12 frame in
        if \<not> permits_source_mac ingress source_mac then Drop SourceNotAllowed
        else let packet = drop ETHERNET_II_HEADER_LEN frame in
          case DescriptorBudgets_get budgets ingress_id of
            None \<Rightarrow> Drop IngressBudget
          | Some ingress_budget \<Rightarrow>
            if length packet > ingress_budget then Drop IngressBudget
            else case unpack_with_budget packet ingress_budget of
              Inl _ \<Rightarrow> Drop MalformedPacket
            | Inr (h, _) \<Rightarrow>
              if is_local_loc m (h_dst h) then
                if \<not> local_delivery ingress then Drop LocalDeliveryDisabled
                else Deliver packet (Native ingress_id source_mac)
              else if \<not> transit ingress then Drop TransitDisabled
              else if h_hop_limit h \<le> 1 then Drop HopLimitReached
              else case route_for m (h_dst h) of
                None \<Rightarrow> Drop NoRoute
              | Some r \<Rightarrow>
                (case DescriptorBudgets_get budgets (egress_descriptor_id r) of
                   None \<Rightarrow> Drop EgressBudget
                 | Some egress_budget \<Rightarrow>
                   if length packet > egress_budget then Drop EgressBudget
                   else Forward (packet[5 := packet ! 5 - 1]) (egress_descriptor_id r)
                          (route_next_hop_mac r)))"

section \<open>Budgets\<close>

lemma budgets_loop_iff:
  "budgets_loop acc bs = Inr vs \<longleftrightarrow>
     vs = rev bs @ acc \<and> distinct (map fst bs) \<and> fst ` set bs \<inter> fst ` set acc = {}
     \<and> (\<forall>(ifid, b) \<in> set bs. 48 \<le> b \<and> b \<le> 1280)"
proof (induction acc bs rule: budgets_loop.induct)
  case (2 acc ifid b rest)
  have "map_of acc ifid = None \<longleftrightarrow> ifid \<notin> fst ` set acc" by (rule map_of_eq_None_iff)
  with 2 show ?case
    by (auto simp: MIN_R8_PACKET_BUDGET_def SERIALIZED_R8_MAX_def)
qed auto

lemma budgets_new_iff:
  "DescriptorBudgets_new m bs = Inr vs \<longleftrightarrow>
     vs = rev bs \<and> distinct (map fst bs) \<and> (\<forall>(ifid, b) \<in> set bs. 48 \<le> b \<and> b \<le> 1280)
     \<and> length bs = length (interfaces m) \<and> descriptor_id ` set (interfaces m) \<subseteq> fst ` set bs"
  by (auto simp: DescriptorBudgets_new_def and_then_Inr budgets_loop_iff list_ex_iff
      map_of_eq_None_iff)

lemma map_of_rev_distinct: "distinct (map fst xs) \<Longrightarrow> map_of (rev xs) = map_of xs"
  by (subst map_of_inject_set) (simp_all add: rev_map [symmetric])

text \<open>
  Budgets are exact. \<open>DescriptorBudgets::new\<close> on a manifest with unique descriptor ids
  accepts a list precisely when it names every interface once and nothing else, each with a
  budget between the 48-byte header and the 1280-byte packet cap; \<open>get\<close> then returns that
  budget for the interfaces of the manifest and nothing for any other descriptor.
\<close>

theorem descriptor_budgets_exact:
  assumes "distinct (map descriptor_id (interfaces m))"
  shows "((\<exists>vs. DescriptorBudgets_new m bs = Inr vs) \<longleftrightarrow>
      distinct (map fst bs) \<and> fst ` set bs = descriptor_id ` set (interfaces m)
      \<and> (\<forall>(ifid, b) \<in> set bs. 48 \<le> b \<and> b \<le> 1280))
    \<and> (\<forall>vs. DescriptorBudgets_new m bs = Inr vs \<longrightarrow>
         (\<forall>ifid. DescriptorBudgets_get vs ifid = map_of bs ifid))"
proof -
  have card: "length bs = length (interfaces m) \<and> descriptor_id ` set (interfaces m) \<subseteq> fst ` set bs
      \<longleftrightarrow> fst ` set bs = descriptor_id ` set (interfaces m)" if "distinct (map fst bs)"
  proof -
    have "card (fst ` set bs) = length bs"
      "card (descriptor_id ` set (interfaces m)) = length (interfaces m)"
      using that assms by (metis distinct_card length_map set_map)+
    then show ?thesis by (metis card_subset_eq finite_imageI List.finite_set subset_refl)
  qed
  have "(\<exists>vs. DescriptorBudgets_new m bs = Inr vs) \<longleftrightarrow>
      distinct (map fst bs) \<and> fst ` set bs = descriptor_id ` set (interfaces m)
      \<and> (\<forall>(ifid, b) \<in> set bs. 48 \<le> b \<and> b \<le> 1280)"
    unfolding budgets_new_iff using card by (cases "distinct (map fst bs)") (simp_all, blast)
  moreover have "DescriptorBudgets_get vs ifid = map_of bs ifid"
    if "DescriptorBudgets_new m bs = Inr vs" for vs ifid
    using that by (auto simp: budgets_new_iff DescriptorBudgets_get_def map_of_rev_distinct)
  ultimately show ?thesis by blast
qed

section \<open>What a forward and a delivery are\<close>

text \<open>An admitted frame: known ingress, allowed source, a well-formed packet within the budget.\<close>

definition admitted ::
    "native_manifest \<Rightarrow> descriptor_budgets \<Rightarrow> u32 \<Rightarrow> bytes \<Rightarrow> interface \<Rightarrow> header \<Rightarrow> bytes \<Rightarrow> bool" where
  "admitted m budgets ifid frame ingress h payload \<longleftrightarrow>
     14 \<le> length frame \<and> slice_of 12 14 frame = [0x88, 0xB5]
     \<and> NativeManifest_interface m ifid = Some ingress
     \<and> slice_of 6 12 frame \<in> set (allowed_source_macs ingress)
     \<and> (\<exists>b. DescriptorBudgets_get budgets ifid = Some b
          \<and> unpack_with_budget (drop 14 frame) b = Inr (h, payload))"

lemma ethertype_bytes: "u16_to_be_bytes R8_ETHERTYPE = [0x88, 0xB5]"
  by (simp add: R8_ETHERTYPE_def to_be_2)

lemma not_le_1_byte: "\<not> k \<le> 1 \<longleftrightarrow> 1 < k" for k :: u8
  by auto

lemma unpack_within: "unpack_with_budget (drop n d) b = Inr hp \<Longrightarrow> \<not> b < length d - n"
  by (cases hp) (metis add.commute length_drop not_less unpack_invert(3) unpack_length)

lemma process_frame_forward_iff:
  "process_frame m budgets ifid frame = Forward q out mac \<longleftrightarrow>
     (\<exists>ingress h payload r eb. admitted m budgets ifid frame ingress h payload
        \<and> h_dst h \<notin> set (local_locs m) \<and> transit ingress \<and> 1 < h_hop_limit h
        \<and> route_for m (h_dst h) = Some r
        \<and> DescriptorBudgets_get budgets (egress_descriptor_id r) = Some eb
        \<and> length (drop 14 frame) \<le> eb \<and> out = egress_descriptor_id r \<and> mac = route_next_hop_mac r
        \<and> q = (drop 14 frame)[5 := drop 14 frame ! 5 - 1])"
  (is "?L \<longleftrightarrow> ?R")
proof
  assume ?L
  then show ?R
    unfolding process_frame_def admitted_def ethertype_bytes
    by (auto simp: Let_def ETHERNET_II_HEADER_LEN_def permits_source_mac_def is_local_loc_def
        not_le_1_byte split: if_splits option.splits sum.splits prod.splits)
next
  assume ?R
  then show ?L
    unfolding process_frame_def admitted_def ethertype_bytes
    by (auto simp: Let_def ETHERNET_II_HEADER_LEN_def permits_source_mac_def is_local_loc_def
        not_le_1_byte dest: unpack_within)
qed

lemma process_frame_deliver_iff:
  "process_frame m budgets ifid frame = Deliver packet binding \<longleftrightarrow>
     (\<exists>ingress h payload. admitted m budgets ifid frame ingress h payload
        \<and> h_dst h \<in> set (local_locs m) \<and> local_delivery ingress
        \<and> packet = drop 14 frame \<and> binding = Native ifid (slice_of 6 12 frame))"
  (is "?L \<longleftrightarrow> ?R")
proof
  assume ?L
  then show ?R
    unfolding process_frame_def admitted_def ethertype_bytes
    by (auto simp: Let_def ETHERNET_II_HEADER_LEN_def permits_source_mac_def is_local_loc_def
        not_le_1_byte split: if_splits option.splits sum.splits prod.splits)
next
  assume ?R
  then show ?L
    unfolding process_frame_def admitted_def ethertype_bytes
    by (auto simp: Let_def ETHERNET_II_HEADER_LEN_def permits_source_mac_def is_local_loc_def
        dest: unpack_within)
qed

text \<open>The forwarded bytes are the packet with one hop less, in the egress budget.\<close>

lemma forwarded_reparses:
  assumes "unpack_with_budget p b = Inr (h, payload)" and "1 < h_hop_limit h" and "length p \<le> eb"
  shows "unpack_with_budget q eb = Inr (h\<lparr>h_hop_limit := h_hop_limit h - 1\<rparr>, payload)
     \<longleftrightarrow> q = p[5 := p ! 5 - 1]"
proof -
  have "p ! 5 = h_hop_limit h"
    using assms(1) by (auto simp: unpack_iff header_image_nth)
  moreover have "h_hop_limit h - 1 \<noteq> 0" using assms(2) by auto
  ultimately have u: "unpack_with_budget (p[5 := p ! 5 - 1]) eb =
      Inr (h\<lparr>h_hop_limit := h_hop_limit h - 1\<rparr>, payload)"
    using unpack_set_hop [OF unpack_budget_mono [OF assms(1,3)]] by simp
  then show ?thesis by (auto simp: unpack_iff)
qed

text \<open>
  C25: Forwarding is exact. \<open>process_frame\<close> forwards a packet to descriptor \<open>out\<close> and next hop
  \<open>mac\<close> precisely when the frame carries the R8 ethertype and enters on a known interface from
  a source address that interface allows, the packet is well formed within the ingress budget,
  its destination is not local, the interface permits transit, the hop limit is at least two,
  and the route selected for the destination is \<open>(out, mac)\<close> with a budget that fits the
  packet. What leaves is exactly that packet with the hop limit one lower, and it is well
  formed within the egress budget.
\<close>

theorem forward_exact:
  "process_frame m budgets ifid frame = Forward q out mac \<longleftrightarrow>
     (\<exists>ingress h payload r eb. admitted m budgets ifid frame ingress h payload
        \<and> h_dst h \<notin> set (local_locs m) \<and> transit ingress \<and> 1 < h_hop_limit h
        \<and> route_for m (h_dst h) = Some r
        \<and> DescriptorBudgets_get budgets (egress_descriptor_id r) = Some eb
        \<and> length frame \<le> 14 + eb \<and> out = egress_descriptor_id r \<and> mac = route_next_hop_mac r
        \<and> unpack_with_budget q eb = Inr (h\<lparr>h_hop_limit := h_hop_limit h - 1\<rparr>, payload))"
  unfolding process_frame_forward_iff
proof (intro iff_exI conj_cong refl)
  fix ingress h payload r eb
  assume *: "admitted m budgets ifid frame ingress h payload" "1 < h_hop_limit h"
  from *(1) show len: "length (drop 14 frame) \<le> eb \<longleftrightarrow> length frame \<le> 14 + eb"
    by (auto simp: admitted_def)
  assume "length frame \<le> 14 + eb"
  with len * show "q = (drop 14 frame)[5 := drop 14 frame ! 5 - 1] \<longleftrightarrow>
      unpack_with_budget q eb = Inr (h\<lparr>h_hop_limit := h_hop_limit h - 1\<rparr>, payload)"
    by (auto simp: admitted_def forwarded_reparses)
qed

section \<open>Chains of forwarders\<close>

lemma unat_sub_of_nat: "n < unat k \<Longrightarrow> unat (k - of_nat n) = unat k - n" for k :: u8
  using u8_lt [of k] by (subst unat_sub) (simp_all add: word_le_nat_alt unat_of_nat)

text \<open>
  A transit relation: one hop takes a well-formed packet with at least two hops left and
  rewrites its hop limit, nothing else.
\<close>

locale transit =
  fixes hop :: "bytes \<Rightarrow> bytes \<Rightarrow> bool"
  assumes hop_rewrites: "hop p q \<Longrightarrow>
    \<exists>b h payload. unpack_with_budget p b = Inr (h, payload) \<and> 1 < h_hop_limit h
      \<and> q = p[5 := h_hop_limit h - 1]"
begin

lemma hop_parsed:
  assumes "hop p q" and "unpack_with_budget p b = Inr (h, payload)"
  shows "1 < h_hop_limit h" "q = p[5 := h_hop_limit h - 1]"
    "unpack_with_budget q b = Inr (h\<lparr>h_hop_limit := h_hop_limit h - 1\<rparr>, payload)"
proof -
  obtain b' h' payload' where *: "unpack_with_budget p b' = Inr (h', payload')" "1 < h_hop_limit h'"
      "q = p[5 := h_hop_limit h' - 1]"
    using hop_rewrites [OF assms(1)] by blast
  have "p = header_image h payload" "p = header_image h' payload'"
    using assms(2) *(1) by (auto simp: unpack_iff)
  then have e: "h_hop_limit h' = h_hop_limit h" using header_image_nth(5) by metis
  with * show "1 < h_hop_limit h" "q = p[5 := h_hop_limit h - 1]" by simp_all
  then show "unpack_with_budget q b = Inr (h\<lparr>h_hop_limit := h_hop_limit h - 1\<rparr>, payload)"
    by (auto intro!: unpack_set_hop [OF assms(2)])
qed

lemma path_parsed:
  assumes "(hop ^^ n) p q" and "unpack_with_budget p b = Inr (h, payload)"
  shows "n < unat (h_hop_limit h) \<and> q = p[5 := h_hop_limit h - of_nat n]"
  using assms
proof (induction n arbitrary: q)
  case 0
  then show ?case
    using unpack_hop_nonzero [OF assms(2)] by (auto simp: unpack_iff header_image_hop unat_gt_0)
next
  case (Suc n)
  then obtain r where r: "(hop ^^ n) p r" "hop r q" by auto
  let ?k = "h_hop_limit h - of_nat n"
  have IH: "n < unat (h_hop_limit h)" "r = p[5 := ?k]" using Suc.IH [OF r(1) assms(2)] by auto
  have k: "unat ?k = unat (h_hop_limit h) - n"
    using IH(1) by (rule unat_sub_of_nat)
  then have "?k \<noteq> 0" using IH(1) by auto
  then have u: "unpack_with_budget r b = Inr (h\<lparr>h_hop_limit := ?k\<rparr>, payload)"
    using unpack_set_hop [OF assms(2)] IH(2) by simp
  from hop_parsed [OF r(2) u] have "1 < ?k" "q = r[5 := ?k - 1]" by simp_all
  then show ?case using k IH(2) by (auto simp: word_less_nat_alt algebra_simps)
qed

lemma hop_wf: "wfP (\<lambda>q p. hop p q)"
proof (rule wfp_if_convertible_to_nat [where f = "\<lambda>p. unat (p ! 5)"])
  fix q p assume "hop p q"
  then obtain b h payload where *: "unpack_with_budget p b = Inr (h, payload)" "1 < h_hop_limit h"
      "q = p[5 := h_hop_limit h - 1]"
    using hop_rewrites by blast
  moreover have "p ! 5 = h_hop_limit h" "5 < length p"
    using *(1) unpack_length [OF *(1)] by (auto simp: unpack_iff header_image_nth)
  ultimately show "unat (q ! 5) < unat (p ! 5)"
    by (auto simp: word_less_nat_alt unat_sub word_le_nat_alt)
qed

end

text \<open>
  One hop of the network: some forwarder, whatever its manifest and budgets, receives the
  packet in a frame and answers with \<open>Forward\<close>.
\<close>

inductive forwards :: "bytes \<Rightarrow> bytes \<Rightarrow> bool" where
  "length dst = 6 \<Longrightarrow> length src = 6 \<Longrightarrow>
   process_frame m budgets ifid (dst @ src @ u16_to_be_bytes R8_ETHERTYPE @ p) = Forward q out mac \<Longrightarrow>
   forwards p q"

inductive_cases forwardsE: "forwards p q"

lemma drop_ethernet:
  "length dst = 6 \<Longrightarrow> length src = 6 \<Longrightarrow> drop 14 (dst @ src @ u16_to_be_bytes w @ p) = p"
  by simp

interpretation forwarding: transit forwards
proof
  fix p q assume "forwards p q"
  then show "\<exists>b h payload. unpack_with_budget p b = Inr (h, payload) \<and> 1 < h_hop_limit h
      \<and> q = p[5 := h_hop_limit h - 1]"
  proof (rule forwardsE)
    fix dst src :: bytes and m budgets ifid out mac
    assume l: "length dst = 6" "length src = 6"
      and f: "process_frame m budgets ifid (dst @ src @ u16_to_be_bytes R8_ETHERTYPE @ p) = Forward q out mac"
    from f obtain b h payload where *: "unpack_with_budget p b = Inr (h, payload)" "1 < h_hop_limit h"
        "q = p[5 := p ! 5 - 1]"
      unfolding process_frame_forward_iff admitted_def drop_ethernet [OF l] by blast
    then show ?thesis by (auto simp: unpack_iff header_image_nth)
  qed
qed

text \<open>
  A forwarding path. If \<open>n\<close> forwarders in a row pass a packet on, then \<open>n\<close> is below the
  hop limit the packet started with, and what comes out parses to the same header and payload
  with the hop limit lowered by \<open>n\<close>: no forwarder alters addresses, session id or payload.
\<close>

theorem forwarding_path:
  assumes "(forwards ^^ n) p q" and "unpack_with_budget p b = Inr (h, payload)"
  shows "n < unat (h_hop_limit h)
    \<and> unpack_with_budget q b = Inr (h\<lparr>h_hop_limit := h_hop_limit h - of_nat n\<rparr>, payload)"
proof -
  have n: "n < unat (h_hop_limit h)" "q = p[5 := h_hop_limit h - of_nat n]"
    using forwarding.path_parsed [OF assms] by auto
  then have "h_hop_limit h - of_nat n \<noteq> 0"
    using unat_sub_of_nat [OF n(1)] by auto
  with n unpack_set_hop [OF assms(2)] show ?thesis by simp
qed

text \<open>
  No forwarding loop. Whatever the manifests of the forwarders are, also with routes that
  form a cycle, the forwarding relation has no infinite chain: every packet is dropped or
  delivered after finitely many hops.
\<close>

theorem forwarding_terminates: "wfP (\<lambda>q p. forwards p q)"
  by (rule forwarding.hop_wf)

section \<open>Samples\<close>

definition sample_budgets :: descriptor_budgets where "sample_budgets = [(2, 1280), (1, 1280)]"

definition sample_none_packet :: bytes where
  "sample_none_packet = header_image (Header_new NH_NONE (replicate 16 1) (8 # 8 # replicate 14 7)) []"

lemma sample_budgets_new:
  "DescriptorBudgets_new sample_manifest [(1, 1280), (2, 1280)] = Inr sample_budgets"
  by (simp add: budgets_new_iff sample_budgets_def sample_manifest_def manifest_of_def sample_raw_def)

lemma sample_none_unpacks:
  "48 \<le> b \<Longrightarrow> unpack_with_budget sample_none_packet b =
     Inr (Header_new NH_NONE (replicate 16 1) (8 # 8 # replicate 14 7), [])"
  unfolding sample_none_packet_def
  by (rule unpack_image) (simp_all add: wf_header_def Header_new_def validate_header_def
      known_next_header_def wire_consts)

lemma sample_route:
  "route_for sample_manifest (8 # 8 # replicate 14 7) = Some (routes sample_manifest ! 1)"
  by (simp add: route_for_def sample_routes route_matches_def prefix_matches_def)

text \<open>The sample forwarder passes on every packet for its longer prefix that has hops left.\<close>

lemma sample_forwards_packet:
  assumes "unpack_with_budget p 1280 = Inr (h, payload)" and "h_dst h = 8 # 8 # replicate 14 7"
    and "1 < h_hop_limit h"
  shows "process_frame sample_manifest sample_budgets 1
     (replicate 6 0 @ [2, 0, 0, 0, 0, 1] @ u16_to_be_bytes R8_ETHERTYPE @ p) =
   Forward (p[5 := p ! 5 - 1]) 2 [2, 0, 0, 0, 0, 3]"
  unfolding process_frame_forward_iff
proof (intro exI conjI)
  show "admitted sample_manifest sample_budgets 1
      (replicate 6 0 @ [2, 0, 0, 0, 0, 1] @ u16_to_be_bytes R8_ETHERTYPE @ p)
      (interfaces sample_manifest ! 0) h payload"
    by (simp add: admitted_def ethertype_bytes NativeManifest_interface_def sample_manifest_def
        manifest_of_def sample_raw_def interface_of_def sample_budgets_def DescriptorBudgets_get_def
        assms(1)) (simp add: slice_of_def)
  show "DescriptorBudgets_get sample_budgets (egress_descriptor_id (routes sample_manifest ! 1)) = Some 1280"
    by (simp add: sample_routes sample_budgets_def DescriptorBudgets_get_def)
  show "route_for sample_manifest (h_dst h) = Some (routes sample_manifest ! 1)"
    by (simp add: assms(2) sample_route)
  show "length (drop 14 (replicate 6 0 @ [2, 0, 0, 0, 0, 1] @ u16_to_be_bytes R8_ETHERTYPE @ p)) \<le> 1280"
    using unpack_within [of 0 p 1280] assms(1) by simp
qed (simp_all add: sample_manifest_def manifest_of_def sample_raw_def interface_of_def assms
    route_of_def)

lemma sample_process_frame:
  "process_frame sample_manifest sample_budgets 1
     (replicate 6 0 @ [2, 0, 0, 0, 0, 1] @ u16_to_be_bytes R8_ETHERTYPE @ sample_none_packet) =
   Forward (sample_none_packet[5 := sample_none_packet ! 5 - 1]) 2 [2, 0, 0, 0, 0, 3]"
  by (rule sample_forwards_packet [OF sample_none_unpacks]) (simp_all add: Header_new_def)

lemma sample_forwards: "forwards sample_none_packet (sample_none_packet[5 := 63])"
proof -
  have "sample_none_packet ! 5 - 1 = 63"
    by (simp add: sample_none_packet_def header_image_nth Header_new_def)
  moreover have "forwards sample_none_packet (sample_none_packet[5 := sample_none_packet ! 5 - 1])"
    by (rule forwards.intros [OF _ _ sample_process_frame]) simp_all
  ultimately show ?thesis by simp
qed

theorem descriptor_budgets_exact_witness:
  "DescriptorBudgets_get sample_budgets 2 = Some 1280 \<and> DescriptorBudgets_get sample_budgets 3 = None"
proof -
  have "distinct (map descriptor_id (interfaces sample_manifest))"
    by (simp add: sample_manifest_def manifest_of_def sample_raw_def)
  from descriptor_budgets_exact [OF this, of "[(1, 1280), (2, 1280)]"] sample_budgets_new
  show ?thesis by simp
qed

theorem forwarding_path_witness:
  "\<exists>h. unpack (sample_none_packet[5 := 63]) = Inr (h, []) \<and> h_hop_limit h = 63"
proof -
  have path: "(forwards ^^ 1) sample_none_packet (sample_none_packet[5 := 63])"
    using sample_forwards by (simp add: relcompp_apply)
  from forwarding_path [OF path sample_none_unpacks [of 1280]] show ?thesis
    by (simp add: unpack_def SERIALIZED_R8_MAX_def Header_new_def)
qed

end
