(* ===== verification/Native.thy ===== *)
theory Native
  imports Forward
begin

text \<open>
  The daemon's runtime (\<open>src/rust/crates/r8d/src/native.rs\<close>): one \<open>NativeRuntime\<close> polls its
  descriptors, hands each frame to \<open>process_frame\<close>, and stops for good at the first fault. The
  traits \<open>NativeIo\<close>, \<open>EventSource\<close>, \<open>SessionDelivery\<close> and \<open>Clock\<close> are the fields of an
  environment record over their own states, so every call and its effect is explicit. The
  theorems say that the runtime fails closed, that its telemetry accounts for every frame,
  that a runtime built by \<open>new\<close> only ever sends forwarded packets, and that it keeps going as
  long as its environment does.
\<close>

section \<open>Errors, telemetry, environment\<close>

definition ETHERNET_HEADER_LEN :: nat where "ETHERNET_HEADER_LEN = 14"
definition RECEIVE_CAPACITY :: nat where
  "RECEIVE_CAPACITY = ETHERNET_HEADER_LEN + SERIALIZED_R8_MAX + 1"

datatype NativeError = Receive | Send | ShortWrite | Revoked | Invariant

record runtime_telemetry =
  received :: u64
  dropped :: u64
  forwarded :: u64
  delivered :: u64
  faults :: u64
  descriptor_high_water :: u32

definition RuntimeTelemetry_default :: runtime_telemetry where
  "RuntimeTelemetry_default =
     \<lparr>received = 0, dropped = 0, forwarded = 0, delivered = 0, faults = 0,
      descriptor_high_water = 0\<rparr>"

text \<open>\<open>io_receive\<close> gets the zeroed buffer and returns it filled.\<close>

record ('i, 'e, 's, 'c) native_env =
  io_receive :: "'i \<Rightarrow> u32 \<Rightarrow> bytes \<Rightarrow> (NativeError + nat option) \<times> bytes \<times> 'i"
  io_send :: "'i \<Rightarrow> u32 \<Rightarrow> bytes \<Rightarrow> (NativeError + nat) \<times> 'i"
  event :: "'e \<Rightarrow> (NativeError + bool) \<times> 'e"
  session_deliver :: "'s \<Rightarrow> bytes \<Rightarrow> ObservedBinding \<Rightarrow> (NativeError + unit) \<times> 's"
  clock_now :: "'c \<Rightarrow> (NativeError + unit) \<times> 'c"

text \<open>\<open>DropSessions\<close>, the counted sink.\<close>

definition DropSessions_deliver ::
    "u64 \<Rightarrow> bytes \<Rightarrow> ObservedBinding \<Rightarrow> (NativeError + unit) \<times> u64" where
  "DropSessions_deliver n packet binding = (Inr (), saturating_add n 1)"

definition build_ethernet_frame :: "bytes \<Rightarrow> bytes \<Rightarrow> bytes \<Rightarrow> NativeError + bytes" where
  "build_ethernet_frame destination source packet =
     (if length packet > SERIALIZED_R8_MAX then Inl Invariant
      else Inr (destination @ source @ u16_to_be_bytes R8_ETHERTYPE @ packet))"

section \<open>The runtime\<close>

record native_runtime =
  rt_manifest :: native_manifest
  rt_budgets :: descriptor_budgets
  rt_local_macs :: "(u32 \<times> bytes) list"
  rt_telemetry :: runtime_telemetry
  rt_stopped :: bool

definition NativeRuntime_new :: "native_manifest \<Rightarrow> descriptor_budgets \<Rightarrow> (u32 \<times> bytes) list \<Rightarrow>
    NativeError + native_runtime" where
  "NativeRuntime_new m budgets local_macs =
     (if local_locs m \<noteq> []
         \<or> list_ex local_delivery (interfaces m)
         \<or> length local_macs \<noteq> length (interfaces m)
         \<or> list_ex (\<lambda>(ifid, mac). NativeManifest_interface m ifid = None
              \<or> mac = replicate 6 0 \<or> mac = replicate 6 0xff \<or> mac ! 0 AND 1 \<noteq> 0) local_macs
      then Inl Invariant
      else let ids = remdups_adj (sort (map fst local_macs)) in
        if length ids \<noteq> length local_macs
           \<or> list_ex (\<lambda>ifc. DescriptorBudgets_get budgets (descriptor_id ifc) = None) (interfaces m)
        then Inl Invariant
        else Inr \<lparr>rt_manifest = m, rt_budgets = budgets, rt_local_macs = local_macs,
                  rt_telemetry = RuntimeTelemetry_default, rt_stopped = False\<rparr>)"

definition NativeRuntime_mac :: "native_runtime \<Rightarrow> u32 \<Rightarrow> NativeError + bytes" where
  "NativeRuntime_mac rt ifid =
     ok_or Invariant (map_option snd (find (\<lambda>(known, _). known = ifid) (rt_local_macs rt)))"

definition fatal :: "native_runtime \<Rightarrow> NativeError \<Rightarrow> (NativeError + 'a) \<times> native_runtime" where
  "fatal rt e =
     (Inl e, if \<not> rt_stopped rt
             then rt\<lparr>rt_stopped := True,
                     rt_telemetry := (rt_telemetry rt)\<lparr>faults := saturating_add (faults (rt_telemetry rt)) 1\<rparr>\<rparr>
             else rt)"

text \<open>The four counter updates \<open>self.telemetry.x = self.telemetry.x.saturating_add(1)\<close>.\<close>

definition count_dropped :: "native_runtime \<Rightarrow> native_runtime" where
  "count_dropped rt = rt\<lparr>rt_telemetry :=
     (rt_telemetry rt)\<lparr>dropped := saturating_add (dropped (rt_telemetry rt)) 1\<rparr>\<rparr>"

definition count_forwarded :: "native_runtime \<Rightarrow> native_runtime" where
  "count_forwarded rt = rt\<lparr>rt_telemetry :=
     (rt_telemetry rt)\<lparr>forwarded := saturating_add (forwarded (rt_telemetry rt)) 1\<rparr>\<rparr>"

definition count_delivered :: "native_runtime \<Rightarrow> native_runtime" where
  "count_delivered rt = rt\<lparr>rt_telemetry :=
     (rt_telemetry rt)\<lparr>delivered := saturating_add (delivered (rt_telemetry rt)) 1\<rparr>\<rparr>"

definition count_received :: "u32 \<Rightarrow> native_runtime \<Rightarrow> native_runtime" where
  "count_received ifid rt = rt\<lparr>rt_telemetry :=
     (rt_telemetry rt)\<lparr>received := saturating_add (received (rt_telemetry rt)) 1,
        descriptor_high_water := max (descriptor_high_water (rt_telemetry rt)) ifid\<rparr>\<rparr>"

definition NativeRuntime_send ::
    "('i, 'e, 's, 'c) native_env \<Rightarrow> native_runtime \<Rightarrow> 'i \<Rightarrow> u32 \<Rightarrow> bytes \<Rightarrow> bytes \<Rightarrow>
       (NativeError + unit) \<times> native_runtime \<times> 'i" where
  "NativeRuntime_send env rt io descriptor destination packet =
     (case NativeRuntime_mac rt descriptor of
        Inl e \<Rightarrow> (let (r, rt) = fatal rt e in (r, rt, io))
      | Inr source \<Rightarrow>
        (case build_ethernet_frame destination source packet of
           Inl e \<Rightarrow> (let (r, rt) = fatal rt e in (r, rt, io))
         | Inr frame \<Rightarrow>
           (case io_send env io descriptor frame of
              (Inr written, io) \<Rightarrow>
                if written = length frame then (Inr (), count_forwarded rt, io)
                else (let (r, rt) = fatal rt ShortWrite in (r, rt, io))
            | (Inl e, io) \<Rightarrow> (let (r, rt) = fatal rt e in (r, rt, io)))))"

definition NativeRuntime_local ::
    "('i, 'e, 's, 'c) native_env \<Rightarrow> native_runtime \<Rightarrow> bytes \<Rightarrow> ObservedBinding \<Rightarrow> 'i \<Rightarrow> 's \<Rightarrow>
       (NativeError + unit) \<times> native_runtime \<times> 'i \<times> 's" where
  "NativeRuntime_local env rt packet binding io ss =
     (case unpack_with_budget packet SERIALIZED_R8_MAX of
        Inl _ \<Rightarrow> (Inr (), count_dropped rt, io, ss)
      | Inr (h, payload) \<Rightarrow>
        if h_next_header h = NH_CTL then
          (case parse_ctl h payload of
             Inl _ \<Rightarrow> (Inr (), count_dropped rt, io, ss)
           | Inr (typ, _, body) \<Rightarrow>
             if typ = CTL_ECHO_REQUEST then
               (case route_for (rt_manifest rt) (h_src h) of
                  None \<Rightarrow> (Inr (), count_dropped rt, io, ss)
                | Some r \<Rightarrow>
                  (case DescriptorBudgets_get (rt_budgets rt) (egress_descriptor_id r) of
                     None \<Rightarrow> (Inr (), count_dropped rt, io, ss)
                   | Some budget \<Rightarrow>
                     let reply = Header_new NH_CTL (h_dst h) (h_src h) in
                     (case build_ctl_with_budget reply CTL_ECHO_REPLY 0 body budget of
                        Inl _ \<Rightarrow> (Inr (), count_dropped rt, io, ss)
                      | Inr out \<Rightarrow>
                        (case NativeRuntime_send env rt io (egress_descriptor_id r)
                                (route_next_hop_mac r) out of
                           (res, rt, io) \<Rightarrow> (res, rt, io, ss)))))
             else (Inr (), count_dropped rt, io, ss))
        else if h_next_header h = NH_DGRAM then (Inr (), count_dropped rt, io, ss)
        else if h_next_header h = NH_SES then
          (case session_deliver env ss packet binding of
             (Inl e, ss) \<Rightarrow> (let (r, rt) = fatal rt e in (r, rt, io, ss))
           | (Inr _, ss) \<Rightarrow> (Inr (), count_delivered rt, io, ss))
        else (Inr (), count_dropped rt, io, ss))"

text \<open>The body of the loop for one descriptor, up to the \<open>return\<close> or \<open>continue\<close> it ends in.\<close>

definition poll_descriptor ::
    "('i, 'e, 's, 'c) native_env \<Rightarrow> native_runtime \<Rightarrow> 'i \<Rightarrow> 's \<Rightarrow> u32 \<Rightarrow>
       (NativeError + unit) \<times> native_runtime \<times> 'i \<times> 's" where
  "poll_descriptor env rt io ss ifid =
     (case io_receive env io ifid (replicate RECEIVE_CAPACITY 0) of
        (Inl e, _, io) \<Rightarrow> (let (r, rt) = fatal rt e in (r, rt, io, ss))
      | (Inr None, _, io) \<Rightarrow> (Inr (), rt, io, ss)
      | (Inr (Some len), buffer, io) \<Rightarrow>
        let rt = count_received ifid rt in
        if len > ETHERNET_HEADER_LEN + SERIALIZED_R8_MAX then (Inr (), count_dropped rt, io, ss)
        else
          (case process_frame (rt_manifest rt) (rt_budgets rt) ifid (take len buffer) of
             Drop _ \<Rightarrow> (Inr (), count_dropped rt, io, ss)
           | Forward packet out mac \<Rightarrow>
             (case NativeRuntime_send env rt io out mac packet of
                (Inl e, rt, io) \<Rightarrow> (let (r, rt) = fatal rt e in (r, rt, io, ss))
              | (Inr _, rt, io) \<Rightarrow> (Inr (), rt, io, ss))
           | Deliver packet binding \<Rightarrow>
             (case NativeRuntime_local env rt packet binding io ss of
                (Inl e, rt, io, ss) \<Rightarrow> (let (r, rt) = fatal rt e in (r, rt, io, ss))
              | (Inr _, rt, io, ss) \<Rightarrow> (Inr (), rt, io, ss))))"

fun poll_loop ::
    "('i, 'e, 's, 'c) native_env \<Rightarrow> native_runtime \<Rightarrow> 'i \<Rightarrow> 's \<Rightarrow> u32 list \<Rightarrow>
       (NativeError + unit) \<times> native_runtime \<times> 'i \<times> 's" where
  "poll_loop env rt io ss [] = (Inr (), rt, io, ss)"
| "poll_loop env rt io ss (ifid # ids) =
     (case poll_descriptor env rt io ss ifid of
        (Inl e, rt, io, ss) \<Rightarrow> (Inl e, rt, io, ss)
      | (Inr _, rt, io, ss) \<Rightarrow> poll_loop env rt io ss ids)"

definition NativeRuntime_step ::
    "('i, 'e, 's, 'c) native_env \<Rightarrow> native_runtime \<Rightarrow> 'i \<Rightarrow> 'e \<Rightarrow> 's \<Rightarrow>
       (NativeError + unit) \<times> native_runtime \<times> 'i \<times> 'e \<times> 's" where
  "NativeRuntime_step env rt io ev ss =
     (if rt_stopped rt then (Inl Invariant, rt, io, ev, ss)
      else case event env ev of
        (Inr True, ev) \<Rightarrow> (let (r, rt) = fatal rt Revoked in (r, rt, io, ev, ss))
      | (Inl e, ev) \<Rightarrow> (let (r, rt) = fatal rt e in (r, rt, io, ev, ss))
      | (Inr False, ev) \<Rightarrow>
        (case poll_loop env rt io ss (map fst (rt_local_macs rt)) of
           (r, rt, io, ss) \<Rightarrow> (r, rt, io, ev, ss)))"

definition NativeRuntime_step_with_clock ::
    "('i, 'e, 's, 'c) native_env \<Rightarrow> native_runtime \<Rightarrow> 'i \<Rightarrow> 'e \<Rightarrow> 's \<Rightarrow> 'c \<Rightarrow>
       (NativeError + unit) \<times> native_runtime \<times> 'i \<times> 'e \<times> 's \<times> 'c" where
  "NativeRuntime_step_with_clock env rt io ev ss ck =
     (case clock_now env ck of
        (Inl e, ck) \<Rightarrow> (let (r, rt) = fatal rt e in (r, rt, io, ev, ss, ck))
      | (Inr _, ck) \<Rightarrow>
        (case NativeRuntime_step env rt io ev ss of
           (r, rt, io, ev, ss) \<Rightarrow> (r, rt, io, ev, ss, ck)))"

section \<open>Failing closed\<close>

text \<open>The parts of a runtime no operation changes.\<close>

definition same_config :: "native_runtime \<Rightarrow> native_runtime \<Rightarrow> bool" where
  "same_config rt rt' \<longleftrightarrow> rt_manifest rt' = rt_manifest rt \<and> rt_budgets rt' = rt_budgets rt
     \<and> rt_local_macs rt' = rt_local_macs rt"

text \<open>From a running state: an error stops the runtime and counts one fault, success does neither.\<close>

definition fail_closed :: "native_runtime \<Rightarrow> NativeError + 'a \<Rightarrow> native_runtime \<Rightarrow> bool" where
  "fail_closed rt r rt' \<longleftrightarrow> same_config rt rt'
     \<and> (\<not> rt_stopped rt \<longrightarrow> rt_stopped rt' = (\<not> is_ok r)
          \<and> faults (rt_telemetry rt') =
              (if is_ok r then faults (rt_telemetry rt) else saturating_add (faults (rt_telemetry rt)) 1))"

lemma count_simps [simp]:
  "rt_stopped (count_dropped rt) = rt_stopped rt"
  "rt_stopped (count_forwarded rt) = rt_stopped rt"
  "rt_stopped (count_delivered rt) = rt_stopped rt"
  "rt_stopped (count_received i rt) = rt_stopped rt"
  "faults (rt_telemetry (count_dropped rt)) = faults (rt_telemetry rt)"
  "faults (rt_telemetry (count_forwarded rt)) = faults (rt_telemetry rt)"
  "faults (rt_telemetry (count_delivered rt)) = faults (rt_telemetry rt)"
  "faults (rt_telemetry (count_received i rt)) = faults (rt_telemetry rt)"
  "rt_manifest (count_received i rt) = rt_manifest rt"
  "rt_budgets (count_received i rt) = rt_budgets rt"
  "rt_local_macs (count_received i rt) = rt_local_macs rt"
  by (simp_all add: count_dropped_def count_forwarded_def count_delivered_def count_received_def)

lemma count_config [simp]:
  "same_config rt (count_dropped rt') = same_config rt rt'"
  "same_config rt (count_forwarded rt') = same_config rt rt'"
  "same_config rt (count_delivered rt') = same_config rt rt'"
  "same_config rt (count_received i rt') = same_config rt rt'"
  "same_config (count_received i rt) rt' = same_config rt rt'"
  "same_config rt rt"
  by (simp_all add: same_config_def count_dropped_def count_forwarded_def count_delivered_def
      count_received_def)

lemma same_config_trans: "same_config a b \<Longrightarrow> same_config b c \<Longrightarrow> same_config a c"
  by (simp add: same_config_def)

lemma fail_closed_count [simp]:
  "fail_closed rt (Inr x) (count_dropped rt)"
  "fail_closed rt (Inr x) (count_forwarded rt)"
  "fail_closed rt (Inr x) (count_delivered rt)"
  "fail_closed rt (Inr x) rt"
  "fail_closed (count_received i rt) r rt' = fail_closed rt r rt'"
  "fail_closed rt r (count_dropped rt') = fail_closed rt r rt'"
  "fail_closed rt (Inr x) (count_received i rt)"
  by (simp_all add: fail_closed_def)

text \<open>The state \<open>fatal\<close> leaves behind.\<close>

definition halt :: "native_runtime \<Rightarrow> native_runtime" where
  "halt rt = (if rt_stopped rt then rt
     else rt\<lparr>rt_stopped := True,
             rt_telemetry := (rt_telemetry rt)\<lparr>faults := saturating_add (faults (rt_telemetry rt)) 1\<rparr>\<rparr>)"

lemma fatal_eq [simp]: "fatal rt e = (Inl e, halt rt)"
  by (simp add: fatal_def halt_def)

lemma fatal_fail_closed [simp]: "fail_closed rt (Inl e) (halt rt)"
  by (auto simp: halt_def fail_closed_def same_config_def)

lemma fatal_again: "fail_closed rt (Inl e) rt1 \<Longrightarrow> fail_closed rt (Inl e') (halt rt1)"
  by (auto simp: halt_def fail_closed_def same_config_def)

lemma fail_closed_trans:
  "fail_closed rt (Inr x) rt1 \<Longrightarrow> fail_closed rt1 r rt' \<Longrightarrow> fail_closed rt r rt'"
  by (auto simp: fail_closed_def intro: same_config_trans)

lemma send_fail_closed:
  "NativeRuntime_send env rt io d dst p = (r, rt', io') \<Longrightarrow> fail_closed rt r rt'"
  by (auto simp: NativeRuntime_send_def
      split: sum.splits prod.splits if_splits)

lemma local_fail_closed:
  "NativeRuntime_local env rt p b io ss = (r, rt', io', ss') \<Longrightarrow> fail_closed rt r rt'"
  by (auto simp: NativeRuntime_local_def Let_def dest: send_fail_closed
      split: sum.splits prod.splits if_splits option.splits)

lemma poll_fail_closed:
  assumes "poll_descriptor env rt io ss i = (r, rt', io', ss')"
  shows "fail_closed rt r rt'"
  using assms
  by (auto simp: poll_descriptor_def Let_def dest!: send_fail_closed local_fail_closed intro: fatal_again
      split: sum.splits prod.splits if_splits option.splits FrameAction.splits)

lemma loop_fail_closed:
  "poll_loop env rt io ss ids = (r, rt', io', ss') \<Longrightarrow> fail_closed rt r rt'"
proof (induction env rt io ss ids rule: poll_loop.induct)
  case (2 env rt io ss i ids)
  then show ?case
    by (auto dest: poll_fail_closed intro: fail_closed_trans split: prod.splits sum.splits)
qed auto

lemma step_fail_closed:
  "NativeRuntime_step env rt io ev ss = (r, rt', io', ev', ss') \<Longrightarrow> \<not> rt_stopped rt \<Longrightarrow>
     fail_closed rt r rt'"
  by (auto simp: NativeRuntime_step_def dest: loop_fail_closed
      split: prod.splits sum.splits bool.splits)

lemma step_clock_fail_closed:
  "NativeRuntime_step_with_clock env rt io ev ss ck = (r, rt', io', ev', ss', ck') \<Longrightarrow>
     \<not> rt_stopped rt \<Longrightarrow> fail_closed rt r rt'"
  by (auto simp: NativeRuntime_step_with_clock_def dest: step_fail_closed
      split: prod.splits sum.splits)

text \<open>
  C27: The daemon fails closed. Once stopped, \<open>step\<close> always answers \<open>Invariant\<close> and touches
  neither its own state nor the descriptors, the event source or the session sink. While it
  runs, a step that returns an error leaves it stopped with exactly one more fault recorded,
  and a step that succeeds leaves it running with the fault count unchanged; the manifest, the
  budgets and the local addresses never change.
\<close>

theorem native_fails_closed:
  "case NativeRuntime_step env rt io ev ss of (r, rt', io', ev', ss') \<Rightarrow>
     if rt_stopped rt
     then r = Inl Invariant \<and> rt' = rt \<and> io' = io \<and> ev' = ev \<and> ss' = ss
     else rt_stopped rt' = (\<not> is_ok r)
        \<and> faults (rt_telemetry rt') =
            (if is_ok r then faults (rt_telemetry rt) else saturating_add (faults (rt_telemetry rt)) 1)
        \<and> rt_manifest rt' = rt_manifest rt \<and> rt_budgets rt' = rt_budgets rt
        \<and> rt_local_macs rt' = rt_local_macs rt"
proof (cases "rt_stopped rt")
  case True
  then show ?thesis by (simp add: NativeRuntime_step_def)
next
  case False
  obtain r rt' io' ev' ss' where s: "NativeRuntime_step env rt io ev ss = (r, rt', io', ev', ss')"
    by (metis prod_cases5)
  from step_fail_closed [OF s False] False s show ?thesis
    by (simp add: fail_closed_def same_config_def)
qed

section \<open>What one poll does\<close>

lemma send_ok: "NativeRuntime_send env rt io d dst p = (Inr u, rt', io') \<Longrightarrow> rt' = count_forwarded rt"
  by (auto simp: NativeRuntime_send_def split: sum.splits prod.splits if_splits)

lemma local_ok:
  "NativeRuntime_local env rt p b io ss = (Inr u, rt', io', ss') \<Longrightarrow>
     rt' \<in> {count_dropped rt, count_forwarded rt, count_delivered rt}"
  by (auto simp: NativeRuntime_local_def Let_def dest: send_ok
      split: sum.splits prod.splits if_splits option.splits)

lemma poll_ok:
  "poll_descriptor env rt io ss i = (Inr u, rt', io', ss') \<Longrightarrow>
     rt' = rt \<or> (\<exists>f \<in> {count_dropped, count_forwarded, count_delivered}. rt' = f (count_received i rt))"
  by (auto simp: poll_descriptor_def Let_def dest: send_ok local_ok
      split: sum.splits prod.splits if_splits option.splits FrameAction.splits)

text \<open>
  The books: unless the received counter is saturated, every received frame was dropped,
  forwarded or delivered.
\<close>

definition balanced :: "runtime_telemetry \<Rightarrow> bool" where
  "balanced t \<longleftrightarrow> received t = u64_max
     \<or> unat (received t) = unat (dropped t) + unat (forwarded t) + unat (delivered t)"

lemma unat_eq_u64_max: "unat (w :: u64) = 2 ^ 64 - 1 \<longleftrightarrow> w = u64_max"
proof -
  have "unat u64_max = 2 ^ 64 - 1" by simp
  then show ?thesis by (metis unsigned_word_eqI)
qed

lemma balanced_count:
  assumes "balanced (rt_telemetry rt)" and "f \<in> {count_dropped, count_forwarded, count_delivered}"
  shows "balanced (rt_telemetry (f (count_received i rt)))"
proof (cases "received (rt_telemetry (f (count_received i rt))) = u64_max")
  case False
  let ?t = "rt_telemetry rt"
  have "received (rt_telemetry (f (count_received i rt))) = saturating_add (received ?t) 1"
    using assms(2) by (auto simp: count_dropped_def count_forwarded_def count_delivered_def count_received_def)
  with False have "unat (saturating_add (received ?t) 1) \<noteq> 2 ^ 64 - 1"
    by (simp only: unat_eq_u64_max) simp
  then have r: "unat (received ?t) + 1 < 2 ^ 64 - 1" by (auto simp: unat_saturating_add min_def split: if_splits)
  then have "received ?t \<noteq> u64_max" by auto
  with assms(1) have sum: "unat (received ?t) = unat (dropped ?t) + unat (forwarded ?t) + unat (delivered ?t)"
    by (simp add: balanced_def)
  have "unat (saturating_add x 1) = Suc (unat x)" if "unat x \<le> unat (received ?t)" for x :: u64
    using that r by (simp add: unat_saturating_add)
  then show ?thesis
    using assms(2) sum
    by (auto simp: balanced_def count_dropped_def count_forwarded_def count_delivered_def count_received_def)
qed (simp add: balanced_def)

lemma loop_balanced:
  "poll_loop env rt io ss ids = (Inr u, rt', io', ss') \<Longrightarrow> balanced (rt_telemetry rt) \<Longrightarrow>
     balanced (rt_telemetry rt')"
proof (induction env rt io ss ids rule: poll_loop.induct)
  case (2 env rt io ss i ids)
  obtain r1 rt1 io1 ss1 where p: "poll_descriptor env rt io ss i = (r1, rt1, io1, ss1)"
    by (metis prod_cases4)
  with "2.prems"(1) obtain u1 where r1: "r1 = Inr u1" by (cases r1) auto
  have "balanced (rt_telemetry rt1)"
    using poll_ok [OF p [unfolded r1]] "2.prems"(2) balanced_count by metis
  with 2 p r1 show ?case by simp
qed simp

section \<open>A runtime without local delivery\<close>

definition transit_only :: "native_runtime \<Rightarrow> bool" where
  "transit_only rt \<longleftrightarrow> local_locs (rt_manifest rt) = []"

lemma transit_only_config: "same_config rt rt' \<Longrightarrow> transit_only rt \<Longrightarrow> transit_only rt'"
  by (simp add: same_config_def transit_only_def)

lemma transit_only_no_deliver:
  "transit_only rt \<Longrightarrow> process_frame (rt_manifest rt) b i f \<noteq> Deliver p bd"
  by (simp add: process_frame_deliver_iff transit_only_def)

lemma delivered_count [simp]:
  "delivered (rt_telemetry (count_dropped rt)) = delivered (rt_telemetry rt)"
  "delivered (rt_telemetry (count_forwarded rt)) = delivered (rt_telemetry rt)"
  "delivered (rt_telemetry (count_received i rt)) = delivered (rt_telemetry rt)"
  "delivered (rt_telemetry (halt rt)) = delivered (rt_telemetry rt)"
  by (simp_all add: count_dropped_def count_forwarded_def count_received_def halt_def)

lemma send_delivered:
  "NativeRuntime_send env rt io d dst p = (r, rt', io') \<Longrightarrow>
     delivered (rt_telemetry rt') = delivered (rt_telemetry rt)"
  by (auto simp: NativeRuntime_send_def split: sum.splits prod.splits if_splits)

lemma poll_transit_only:
  "poll_descriptor env rt io ss i = (r, rt', io', ss') \<Longrightarrow> transit_only rt \<Longrightarrow>
     ss' = ss \<and> delivered (rt_telemetry rt') = delivered (rt_telemetry rt)"
  by (auto simp: poll_descriptor_def Let_def transit_only_no_deliver dest: send_delivered
      split: sum.splits prod.splits if_splits option.splits FrameAction.splits)

lemma loop_transit_only:
  "poll_loop env rt io ss ids = (r, rt', io', ss') \<Longrightarrow> transit_only rt \<Longrightarrow>
     ss' = ss \<and> delivered (rt_telemetry rt') = delivered (rt_telemetry rt)"
proof (induction env rt io ss ids rule: poll_loop.induct)
  case (2 env rt io ss i ids)
  obtain r1 rt1 io1 ss1 where p: "poll_descriptor env rt io ss i = (r1, rt1, io1, ss1)"
    by (metis prod_cases4)
  have 1: "ss1 = ss" "delivered (rt_telemetry rt1) = delivered (rt_telemetry rt)" "transit_only rt1"
    using poll_transit_only [OF p "2.prems"(2)] poll_fail_closed [OF p] "2.prems"(2)
    by (auto simp: fail_closed_def intro: transit_only_config)
  with 2 p show ?case by (cases r1) auto
qed simp

section \<open>Runs\<close>

type_synonym ('i, 'e, 's, 'c) native_state = "native_runtime \<times> 'i \<times> 'e \<times> 's \<times> 'c"

inductive native_step ::
    "('i, 'e, 's, 'c) native_env \<Rightarrow> ('i, 'e, 's, 'c) native_state \<Rightarrow> ('i, 'e, 's, 'c) native_state \<Rightarrow> bool"
  for env where
  step: "NativeRuntime_step env rt io ev ss = (r, rt', io', ev', ss') \<Longrightarrow>
     native_step env (rt, io, ev, ss, ck) (rt', io', ev', ss', ck)"
| step_with_clock: "NativeRuntime_step_with_clock env rt io ev ss ck = (r, rt', io', ev', ss', ck') \<Longrightarrow>
     native_step env (rt, io, ev, ss, ck) (rt', io', ev', ss', ck')"

definition runtime_inv :: "native_runtime \<Rightarrow> 's \<Rightarrow> native_runtime \<Rightarrow> 's \<Rightarrow> bool" where
  "runtime_inv rt0 ss0 rt ss \<longleftrightarrow> same_config rt0 rt \<and> ss = ss0
     \<and> delivered (rt_telemetry rt) = 0
     \<and> faults (rt_telemetry rt) = (if rt_stopped rt then 1 else 0)
     \<and> (\<not> rt_stopped rt \<longrightarrow> balanced (rt_telemetry rt))"

lemma saturating_add_0_1 [simp]: "saturating_add (0 :: u64) 1 = 1"
  by (simp add: saturating_add_def)

lemma halt_inv: "transit_only rt0 \<Longrightarrow> runtime_inv rt0 ss0 rt ss \<Longrightarrow> runtime_inv rt0 ss0 (halt rt) ss"
  by (auto simp: runtime_inv_def halt_def same_config_def)

lemma step_inv:
  assumes "transit_only rt0" and "runtime_inv rt0 ss0 rt ss"
    and "NativeRuntime_step env rt io ev ss = (r, rt', io', ev', ss')"
  shows "runtime_inv rt0 ss0 rt' ss'"
proof (cases "rt_stopped rt")
  case True
  with assms show ?thesis by (simp add: NativeRuntime_step_def)
next
  case False
  have c: "same_config rt0 rt" using assms(2) by (simp add: runtime_inv_def)
  obtain e ev1 where ev: "event env ev = (e, ev1)" by fastforce
  show ?thesis
  proof (cases "e = Inr False")
    case True
    with assms(3) False ev have l: "poll_loop env rt io ss (map fst (rt_local_macs rt)) = (r, rt', io', ss')"
      by (auto simp: NativeRuntime_step_def split: prod.splits)
    have "fail_closed rt r rt'" by (rule loop_fail_closed [OF l])
    moreover have "balanced (rt_telemetry rt')" if "r = Inr u" for u
      using loop_balanced [OF l [unfolded that]] assms(2) False by (simp add: runtime_inv_def)
    moreover have "ss' = ss \<and> delivered (rt_telemetry rt') = delivered (rt_telemetry rt)"
      using loop_transit_only [OF l] transit_only_config [OF c assms(1)] by simp
    ultimately show ?thesis
      using assms(2) False
      by (cases r) (auto simp: runtime_inv_def fail_closed_def intro: same_config_trans)
  next
    case neq: False
    have "rt' = halt rt" "ss' = ss"
      using assms(3) False ev neq
      by (auto simp: NativeRuntime_step_def split: sum.splits bool.splits prod.splits)
    then show ?thesis using halt_inv assms(1,2) by simp
  qed
qed

interpretation native: preserved "native_step env" "\<lambda>(rt, io, ev, ss, ck). transit_only rt0 \<and> runtime_inv rt0 ss0 rt ss"
  for env rt0 ss0
proof
  fix s t
  assume i: "case s of (rt, io, ev, ss, ck) \<Rightarrow> transit_only rt0 \<and> runtime_inv rt0 ss0 rt ss"
    and s: "native_step env s t"
  from s i show "case t of (rt, io, ev, ss, ck) \<Rightarrow> transit_only rt0 \<and> runtime_inv rt0 ss0 rt ss"
  proof cases
    case step
    with i show ?thesis by (auto dest: step_inv)
  next
    case step_with_clock
    with i show ?thesis
      by (auto simp: NativeRuntime_step_with_clock_def intro: halt_inv dest: step_inv
          split: prod.splits sum.splits)
  qed
qed

lemma new_Inr:
  "NativeRuntime_new m b macs = Inr rt \<longleftrightarrow>
     local_locs m = [] \<and> (\<forall>i \<in> set (interfaces m). \<not> local_delivery i)
     \<and> length macs = length (interfaces m)
     \<and> (\<forall>(i, mac) \<in> set macs. NativeManifest_interface m i \<noteq> None \<and> mac \<noteq> replicate 6 0
          \<and> mac \<noteq> replicate 6 0xff \<and> mac ! 0 AND 1 = 0)
     \<and> distinct (map fst macs)
     \<and> (\<forall>i \<in> set (interfaces m). DescriptorBudgets_get b (descriptor_id i) \<noteq> None)
     \<and> rt = \<lparr>rt_manifest = m, rt_budgets = b, rt_local_macs = macs,
             rt_telemetry = RuntimeTelemetry_default, rt_stopped = False\<rparr>"
  using sorted_set_length [of "map fst macs"]
  by (auto simp: NativeRuntime_new_def list_ex_iff Let_def) force

lemma new_inv:
  "NativeRuntime_new m b macs = Inr rt0 \<Longrightarrow> transit_only rt0 \<and> runtime_inv rt0 ss0 rt0 ss0"
  by (auto simp: new_Inr transit_only_def runtime_inv_def balanced_def RuntimeTelemetry_default_def)

text \<open>
  A daemon built by \<open>NativeRuntime::new\<close> keeps honest books and never delivers locally.
  In every state it can reach, under any environment and any mix of \<open>step\<close> and
  \<open>step_with_clock\<close>, its configuration is the one it was built with, nothing was handed to the
  session sink, the fault counter is one if it stopped and zero otherwise, and while it runs
  the frames received are exactly those dropped plus those forwarded (until the 64-bit
  received counter saturates).
\<close>

theorem native_run_invariant:
  assumes "NativeRuntime_new m b macs = Inr rt0"
    and "(native_step env)\<^sup>*\<^sup>* (rt0, io0, ev0, ss0, ck0) (rt, io, ev, ss, ck)"
  shows "rt_manifest rt = m \<and> rt_budgets rt = b \<and> rt_local_macs rt = macs \<and> ss = ss0
    \<and> delivered (rt_telemetry rt) = 0
    \<and> faults (rt_telemetry rt) = (if rt_stopped rt then 1 else 0)
    \<and> (\<not> rt_stopped rt \<and> received (rt_telemetry rt) \<noteq> u64_max \<longrightarrow>
         unat (received (rt_telemetry rt)) =
         unat (dropped (rt_telemetry rt)) + unat (forwarded (rt_telemetry rt)))"
proof -
  have "runtime_inv rt0 ss0 rt ss"
    using native.run_keeps [OF assms(2), of rt0 ss0] new_inv [OF assms(1), of ss0] by simp
  with assms(1) show ?thesis
    by (auto simp: runtime_inv_def same_config_def new_Inr balanced_def)
qed

section \<open>What the daemon sends\<close>

text \<open>A frame that answers some received frame: the forwarded packet, addressed to its next hop.\<close>

definition egress_frame :: "native_runtime \<Rightarrow> u32 \<Rightarrow> bytes \<Rightarrow> bool" where
  "egress_frame rt out frame \<longleftrightarrow>
     (\<exists>ifid input packet mac source.
        process_frame (rt_manifest rt) (rt_budgets rt) ifid input = Forward packet out mac
        \<and> NativeRuntime_mac rt out = Inr source
        \<and> frame = mac @ source @ u16_to_be_bytes R8_ETHERTYPE @ packet)"

lemma egress_frame_config: "same_config rt rt' \<Longrightarrow> egress_frame rt' = egress_frame rt"
  by (simp add: fun_eq_iff egress_frame_def same_config_def NativeRuntime_mac_def)

text \<open>
  What a descriptor interface promises about a property \<open>P\<close> of its state: reading keeps it, and
  writing keeps it for the frames \<open>allowed\<close> says may be written.
\<close>

locale guarded_io =
  fixes env :: "('i, 'e, 's, 'c) native_env"
    and P :: "'i \<Rightarrow> bool"
    and allowed :: "u32 \<Rightarrow> bytes \<Rightarrow> bool"
  assumes receive_keeps: "P io \<Longrightarrow> P (snd (snd (io_receive env io i buffer)))"
    and send_keeps: "P io \<Longrightarrow> allowed i frame \<Longrightarrow> P (snd (io_send env io i frame))"
begin

lemma send_guarded:
  assumes "P io" and "NativeRuntime_send env rt io out mac packet = (r, rt', io')"
    and "\<And>source. NativeRuntime_mac rt out = Inr source \<Longrightarrow>
      allowed out (mac @ source @ u16_to_be_bytes R8_ETHERTYPE @ packet)"
  shows "P io'"
  using assms send_keeps [OF assms(1) assms(3)]
  by (auto simp: NativeRuntime_send_def build_ethernet_frame_def
      split: sum.splits prod.splits if_splits)

lemma poll_guarded:
  assumes "poll_descriptor env rt io ss i = (r, rt', io', ss')" and "P io" and "transit_only rt"
    and "\<And>out frame. egress_frame rt out frame \<Longrightarrow> allowed out frame"
  shows "P io'"
proof -
  let ?rt = "count_received i rt"
  obtain res buffer io1 where rx: "io_receive env io i (replicate RECEIVE_CAPACITY 0) = (res, buffer, io1)"
    by (metis prod_cases3)
  then have P1: "P io1" using receive_keeps [OF assms(2), of i "replicate RECEIVE_CAPACITY 0"] by simp
  show ?thesis
  proof (cases "\<exists>len packet out mac. res = Inr (Some len) \<and> len \<le> ETHERNET_HEADER_LEN + SERIALIZED_R8_MAX
      \<and> process_frame (rt_manifest rt) (rt_budgets rt) i (take len buffer) = Forward packet out mac")
    case True
    then obtain len packet out mac where f: "res = Inr (Some len)"
        "\<not> len > ETHERNET_HEADER_LEN + SERIALIZED_R8_MAX"
        "process_frame (rt_manifest rt) (rt_budgets rt) i (take len buffer) = Forward packet out mac"
      by (auto simp: not_less)
    obtain r1 rt1 io2 where s: "NativeRuntime_send env ?rt io1 out mac packet = (r1, rt1, io2)"
      by (metis prod_cases3)
    have "NativeRuntime_mac ?rt out = NativeRuntime_mac rt out" by (simp add: NativeRuntime_mac_def)
    then have "P io2"
      using f(3) by (intro send_guarded [OF P1 s] assms(4)) (unfold egress_frame_def, metis)
    moreover have "io' = io2"
      using assms(1) rx f s by (auto simp: poll_descriptor_def split: sum.splits)
    ultimately show ?thesis by simp
  next
    case False
    then have "io' = io1"
      using assms(1) rx transit_only_no_deliver [OF assms(3)]
      by (auto simp: poll_descriptor_def Let_def not_less
          split: sum.splits option.splits if_splits FrameAction.splits)
    with P1 show ?thesis by simp
  qed
qed

lemma loop_guarded:
  "poll_loop env rt io ss ids = (r, rt', io', ss') \<Longrightarrow> P io \<Longrightarrow> transit_only rt \<Longrightarrow>
     (\<And>out frame. egress_frame rt out frame \<Longrightarrow> allowed out frame) \<Longrightarrow> P io'"
proof (induction ids arbitrary: rt io ss)
  case (Cons i ids)
  obtain r1 rt1 io1 ss1 where p: "poll_descriptor env rt io ss i = (r1, rt1, io1, ss1)"
    by (metis prod_cases4)
  have c: "same_config rt rt1" using poll_fail_closed [OF p] by (simp add: fail_closed_def)
  have "P io1" by (rule poll_guarded [OF p Cons.prems(2,3,4)])
  then show ?case
    using Cons.prems p transit_only_config [OF c] egress_frame_config [OF c]
      Cons.IH [of rt1 io1 ss1] by (cases r1) auto
qed simp

lemma step_guarded:
  "NativeRuntime_step env rt io ev ss = (r, rt', io', ev', ss') \<Longrightarrow> P io \<Longrightarrow> transit_only rt \<Longrightarrow>
     (\<And>out frame. egress_frame rt out frame \<Longrightarrow> allowed out frame) \<Longrightarrow> P io'"
  by (auto simp: NativeRuntime_step_def split: if_splits prod.splits sum.splits bool.splits
      dest: loop_guarded)

end

text \<open>Any environment with a log of the frames handed to \<open>send\<close>.\<close>

definition logged :: "('i, 'e, 's, 'c) native_env \<Rightarrow> ('i \<times> (u32 \<times> bytes) list, 'e, 's, 'c) native_env" where
  "logged env =
     \<lparr>io_receive = (\<lambda>(io, log) i buffer. case io_receive env io i buffer of (r, b, io') \<Rightarrow> (r, b, io', log)),
      io_send = (\<lambda>(io, log) i frame. case io_send env io i frame of (r, io') \<Rightarrow> (r, io', log @ [(i, frame)])),
      event = event env, session_deliver = session_deliver env, clock_now = clock_now env\<rparr>"

interpretation logged: guarded_io "logged env" "\<lambda>(io, log). \<forall>(out, frame) \<in> set log. egress_frame rt out frame"
    "egress_frame rt" for env rt
  by unfold_locales (auto simp: logged_def split: prod.splits)

lemma logged_step:
  assumes "native_step (logged env) (rt, (io, log), ev, ss, ck) (rt', (io', log'), ev', ss', ck')"
    and "transit_only rt" and "\<forall>(out, frame) \<in> set log. egress_frame rt out frame"
  shows "\<forall>(out, frame) \<in> set log'. egress_frame rt out frame"
  using assms(1)
proof cases
  case (step r)
  then show ?thesis using logged.step_guarded [OF step(2), of rt] assms(2,3) by simp
next
  case (step_with_clock r)
  then consider "(io', log') = (io, log)"
    | r1 rt1 ev1 ss1 where "NativeRuntime_step (logged env) rt (io, log) ev ss = (r1, rt1, (io', log'), ev1, ss1)"
    by (auto simp: NativeRuntime_step_with_clock_def split: prod.splits sum.splits)
  then show ?thesis
    using assms(2,3) logged.step_guarded [of env rt "(io, log)" ev ss _ _ "(io', log')" _ _ rt]
    by cases auto
qed

lemma logged_run:
  assumes "NativeRuntime_new m b macs = Inr rt0"
    and "(native_step (logged env))\<^sup>*\<^sup>* (rt0, (io0, []), ev0, ss0, ck0) s"
  shows "case s of (rt, (io, log), ev, ss, ck) \<Rightarrow>
    runtime_inv rt0 ss0 rt ss \<and> (\<forall>(out, frame) \<in> set log. egress_frame rt0 out frame)"
  using assms(2)
proof (induction rule: rtranclp_induct)
  case base
  then show ?case using new_inv [OF assms(1), of ss0] by simp
next
  case (step s t)
  obtain rt io log ev ss ck where s: "s = (rt, (io, log), ev, ss, ck)" by (metis surj_pair)
  obtain rt' io' log' ev' ss' ck' where t: "t = (rt', (io', log'), ev', ss', ck')" by (metis surj_pair)
  have i: "transit_only rt0" "runtime_inv rt0 ss0 rt ss"
      "\<forall>(out, frame) \<in> set log. egress_frame rt0 out frame"
    using new_inv [OF assms(1), of ss0] step.IH s by auto
  then have c: "same_config rt0 rt" by (simp add: runtime_inv_def)
  have "runtime_inv rt0 ss0 rt' ss'"
    using native.step_keeps [of rt0 ss0 s "logged env" t] step.hyps(2) i s t by simp
  moreover have "\<forall>(out, frame) \<in> set log'. egress_frame rt out frame"
    using logged_step step.hyps(2) i transit_only_config [OF c] s t egress_frame_config [OF c] by metis
  ultimately show ?case using t egress_frame_config [OF c] by simp
qed

text \<open>
  The daemon originates nothing. Whatever its environment does, every frame a daemon
  built by \<open>NativeRuntime::new\<close> ever hands to \<open>send\<close> is the answer \<open>process_frame\<close> gives to
  some frame under the daemon's own manifest and budgets: the forwarded packet, sent out of
  the descriptor of its route, to the next hop of that route, from that descriptor's address.
\<close>

theorem native_sends_only_forwards:
  assumes "NativeRuntime_new m b macs = Inr rt0"
    and "(native_step (logged env))\<^sup>*\<^sup>* (rt0, (io0, []), ev0, ss0, ck0) (rt, (io, log), ev, ss, ck)"
    and "(out, frame) \<in> set log"
  shows "\<exists>ifid input packet mac source. process_frame m b ifid input = Forward packet out mac
    \<and> (out, source) \<in> set macs
    \<and> frame = mac @ source @ u16_to_be_bytes R8_ETHERTYPE @ packet"
proof -
  have "egress_frame rt0 out frame" using logged_run [OF assms(1,2)] assms(3) by auto
  then obtain ifid input packet mac source where *: "process_frame m b ifid input = Forward packet out mac"
      "NativeRuntime_mac rt0 out = Inr source" "frame = mac @ source @ u16_to_be_bytes R8_ETHERTYPE @ packet"
    using assms(1) by (auto simp: egress_frame_def new_Inr)
  moreover have "(out, source) \<in> set macs"
    using *(2) assms(1) by (auto simp: NativeRuntime_mac_def new_Inr find_Some_iff)
      (metis nth_mem)
  ultimately show ?thesis by blast
qed

section \<open>The daemon keeps running\<close>

text \<open>
  An environment that works: no descriptor error, no short write, no revocation event and a
  working clock. Nothing is assumed of the frames that arrive.
\<close>

definition reliable :: "('i, 'e, 's, 'c) native_env \<Rightarrow> bool" where
  "reliable env \<longleftrightarrow> (\<forall>io i buffer. is_ok (fst (io_receive env io i buffer)))
     \<and> (\<forall>io i frame. fst (io_send env io i frame) = Inr (length frame))
     \<and> (\<forall>ev. fst (event env ev) = Inr False) \<and> (\<forall>ck. fst (clock_now env ck) = Inr ())"

lemma find_interface_iff:
  "NativeManifest_interface m i \<noteq> None \<longleftrightarrow> i \<in> descriptor_id ` set (interfaces m)"
proof -
  have "NativeManifest_interface m i = None \<longleftrightarrow> (\<forall>x \<in> set (interfaces m). descriptor_id x \<noteq> i)"
    by (auto simp: NativeManifest_interface_def find_None_iff)
  then show ?thesis by auto
qed

text \<open>Every descriptor of the manifest has a local address.\<close>

lemma new_macs:
  assumes "NativeRuntime_new m b macs = Inr rt" and "manifest_ok m"
    and "i \<in> descriptor_id ` set (interfaces m)"
  shows "\<exists>mac. NativeRuntime_mac rt i = Inr mac"
proof -
  have "length macs = length (interfaces m)" "distinct (map fst macs)" "rt_local_macs rt = macs"
    "fst ` set macs \<subseteq> descriptor_id ` set (interfaces m)"
    using assms(1) by (auto simp: new_Inr find_interface_iff [symmetric])
  moreover have "distinct (map descriptor_id (interfaces m))" using assms(2) by (simp add: manifest_ok_def)
  ultimately have "fst ` set macs = descriptor_id ` set (interfaces m)"
    by (intro card_subset_eq) (simp, simp, metis distinct_card length_map set_map)
  then obtain mac where "(i, mac) \<in> set macs" using assms(3) by (metis imageE prod.collapse)
  then have "find (\<lambda>(known, _). known = i) macs \<noteq> None" by (auto simp: find_None_iff)
  with \<open>rt_local_macs rt = macs\<close> show ?thesis by (auto simp: NativeRuntime_mac_def)
qed

lemma forward_egress:
  assumes "process_frame m b i f = Forward packet out mac" and "manifest_ok m"
  shows "out \<in> descriptor_id ` set (interfaces m)" "length packet \<le> SERIALIZED_R8_MAX"
proof -
  from assms(1) obtain ingress h payload r eb where
      *: "admitted m b i f ingress h payload" "route_for m (h_dst h) = Some r"
        "out = egress_descriptor_id r" "packet = (drop 14 f)[5 := drop 14 f ! 5 - 1]"
    unfolding process_frame_forward_iff by blast
  then have "r \<in> set (routes m)" using route_for_Some(1) by blast
  with assms(2) *(3) show "out \<in> descriptor_id ` set (interfaces m)"
    by (auto simp: manifest_ok_def route_ok_def)
  from *(1) obtain bb where "unpack_with_budget (drop 14 f) bb = Inr (h, payload)"
    by (auto simp: admitted_def)
  then have "length (drop 14 f) \<le> 1280"
    using unpack_invert(2) unpack_length by (metis add.commute)
  then show "length packet \<le> SERIALIZED_R8_MAX" by (simp add: *(4) SERIALIZED_R8_MAX_def)
qed

lemma send_succeeds:
  assumes "reliable env" and "NativeRuntime_mac rt out = Inr source" and "length packet \<le> SERIALIZED_R8_MAX"
  shows "\<exists>rt' io'. NativeRuntime_send env rt io out mac packet = (Inr (), rt', io')"
proof -
  let ?f = "mac @ source @ u16_to_be_bytes R8_ETHERTYPE @ packet"
  obtain io' where "io_send env io out ?f = (Inr (length ?f), io')"
    using assms(1) by (metis reliable_def prod.collapse)
  with assms(2,3) show ?thesis by (simp add: NativeRuntime_send_def build_ethernet_frame_def)
qed

lemma poll_succeeds:
  assumes "reliable env" and "NativeRuntime_new m b macs = Inr rt0" and "manifest_ok m"
    and "same_config rt0 rt"
  shows "\<exists>rt' io'. poll_descriptor env rt io ss i = (Inr (), rt', io', ss)"
proof -
  obtain x buffer io1 where rx: "io_receive env io i (replicate RECEIVE_CAPACITY 0) = (Inr x, buffer, io1)"
    using assms(1) unfolding reliable_def is_ok_iff by (metis prod.collapse)
  have m: "rt_manifest rt = m" and t: "transit_only rt"
    using assms(2,4) by (auto simp: new_Inr same_config_def transit_only_def)
  have "\<exists>rt' io'. NativeRuntime_send env (count_received i rt) io1 out mac packet = (Inr (), rt', io')"
    if "process_frame (rt_manifest rt) (rt_budgets rt) i f = Forward packet out mac" for f packet out mac
  proof -
    note fw = that
    obtain source where "NativeRuntime_mac rt0 out = Inr source"
      using new_macs [OF assms(2,3)] forward_egress(1) [OF fw] assms(3) m by metis
    then have "NativeRuntime_mac (count_received i rt) out = Inr source"
      using assms(4) by (simp add: NativeRuntime_mac_def same_config_def)
    moreover have "length packet \<le> SERIALIZED_R8_MAX"
      using forward_egress(2) [OF fw] m assms(3) by simp
    ultimately show ?thesis using send_succeeds [OF assms(1)] by blast
  qed
  note fw = this
  show ?thesis
  proof (cases x)
    case None
    with rx show ?thesis by (simp add: poll_descriptor_def)
  next
    case (Some len)
    note rx' = rx [unfolded Some]
    show ?thesis
    proof (cases "process_frame (rt_manifest rt) (rt_budgets rt) i (take len buffer)")
      case (Drop reason)
      with rx' show ?thesis by (simp add: poll_descriptor_def Let_def)
    next
      case (Deliver p bd)
      with transit_only_no_deliver [OF t] show ?thesis by blast
    next
      case (Forward packet out mac)
      from fw [OF this] Forward rx' show ?thesis by (auto simp: poll_descriptor_def Let_def)
    qed
  qed
qed

lemma loop_succeeds:
  assumes "reliable env" and "NativeRuntime_new m b macs = Inr rt0" and "manifest_ok m"
  shows "same_config rt0 rt \<Longrightarrow> \<exists>rt' io'. poll_loop env rt io ss ids = (Inr (), rt', io', ss)"
proof (induction ids arbitrary: rt io)
  case (Cons i ids)
  obtain rt1 io1 where p: "poll_descriptor env rt io ss i = (Inr (), rt1, io1, ss)"
    using poll_succeeds [OF assms Cons.prems] by blast
  then have "same_config rt0 rt1"
    using poll_fail_closed [OF p] Cons.prems by (auto simp: fail_closed_def intro: same_config_trans)
  from Cons.IH [OF this, of io1] p show ?case by simp
qed simp

lemma step_succeeds:
  assumes "reliable env" and "NativeRuntime_new m b macs = Inr rt0" and "manifest_ok m"
    and "same_config rt0 rt" and "\<not> rt_stopped rt"
  shows "\<exists>rt' io' ev'. NativeRuntime_step env rt io ev ss = (Inr (), rt', io', ev', ss)"
proof -
  obtain ev1 where "event env ev = (Inr False, ev1)" using assms(1) by (metis reliable_def prod.collapse)
  with assms(5) loop_succeeds [OF assms(1-4), of io ss "map fst (rt_local_macs rt)"] show ?thesis
    by (auto simp: NativeRuntime_step_def)
qed

text \<open>
  The daemon only stops for its environment. A daemon built by \<open>new\<close> from a validated
  manifest, in an environment whose descriptors, event source and clock do not fail, is running
  in every state it reaches and its next step succeeds, whatever frames arrive: no frame, well
  formed or hostile, can make an internal check stop it.
\<close>

theorem native_keeps_running:
  assumes "reliable env" and "manifest_ok m" and "NativeRuntime_new m b macs = Inr rt0"
    and "(native_step env)\<^sup>*\<^sup>* (rt0, io0, ev0, ss0, ck0) (rt, io, ev, ss, ck)"
  shows "\<not> rt_stopped rt \<and>
    (\<exists>rt' io' ev'. NativeRuntime_step env rt io ev ss = (Inr (), rt', io', ev', ss) \<and> \<not> rt_stopped rt')"
proof -
  have "\<not> rt_stopped rt \<and> same_config rt0 rt"
    using assms(4)
  proof (induction "(rt, io, ev, ss, ck)" arbitrary: rt io ev ss ck rule: rtranclp_induct)
    case base
    then show ?case using assms(3) by (auto simp: new_Inr)
  next
    case (step s)
    obtain rt1 io1 ev1 ss1 ck1 where s: "s = (rt1, io1, ev1, ss1, ck1)" by (metis surj_pair)
    then have i: "\<not> rt_stopped rt1" "same_config rt0 rt1" using step.hyps(3) by auto
    note ok = step_succeeds [OF assms(1,3,2) i(2,1), of io1 ev1 ss1]
    have "\<exists>r io' ev' ss'. NativeRuntime_step env rt1 io1 ev1 ss1 = (r, rt, io', ev', ss')"
      using step.hyps(2) assms(1) unfolding s
      by cases (auto simp: NativeRuntime_step_with_clock_def reliable_def split: prod.splits sum.splits,
          metis fst_conv Inr_not_Inl)
    then obtain io' ev' ss' where st: "NativeRuntime_step env rt1 io1 ev1 ss1 = (Inr (), rt, io', ev', ss')"
      using ok by auto
    from step_fail_closed [OF st i(1)] i show ?case
      by (auto simp: fail_closed_def intro: same_config_trans)
  qed
  with step_succeeds [OF assms(1,3,2)] step_fail_closed show ?thesis
    by (metis fail_closed_def is_ok_simps(2))
qed

section \<open>Samples\<close>

text \<open>A link with a queue of incoming frames, and the counted session sink.\<close>

definition sample_env :: "(bytes list, unit, u64, unit) native_env" where
  "sample_env =
     \<lparr>io_receive = (\<lambda>io i buffer. case io of [] \<Rightarrow> (Inr None, buffer, [])
        | f # fs \<Rightarrow> (Inr (Some (length f)), f @ drop (length f) buffer, fs)),
      io_send = (\<lambda>io i frame. (Inr (length frame), io)),
      event = (\<lambda>_. (Inr False, ())), session_deliver = DropSessions_deliver,
      clock_now = (\<lambda>_. (Inr (), ()))\<rparr>"

definition sample_macs :: "(u32 \<times> bytes) list" where
  "sample_macs = [(1, [2, 0, 0, 0, 0, 2]), (2, [2, 0, 0, 0, 0, 4])]"

definition sample_runtime :: native_runtime where
  "sample_runtime = \<lparr>rt_manifest = sample_manifest, rt_budgets = sample_budgets,
     rt_local_macs = sample_macs, rt_telemetry = RuntimeTelemetry_default, rt_stopped = False\<rparr>"

definition sample_frame :: bytes where
  "sample_frame = replicate 6 0 @ [2, 0, 0, 0, 0, 1] @ u16_to_be_bytes R8_ETHERTYPE @ sample_none_packet"

lemma sample_runtime_new:
  "NativeRuntime_new sample_manifest sample_budgets sample_macs = Inr sample_runtime"
  by code_simp

lemma sample_manifest_ok: "manifest_ok sample_manifest"
  by (rule validated_ok [OF sample_validates])

lemma reliable_sample: "reliable sample_env"
  by (auto simp: reliable_def sample_env_def split: list.splits)

lemma length_sample_none: "length sample_none_packet = 48"
  by (simp add: sample_none_packet_def length_header_image wf_header_def Header_new_def)

lemma sample_poll:
  "poll_descriptor (logged sample_env) sample_runtime ([sample_frame], []) 0 1 =
     (Inr (), count_forwarded (count_received 1 sample_runtime), ([],
        [(2, [2, 0, 0, 0, 0, 3] @ [2, 0, 0, 0, 0, 4] @ u16_to_be_bytes R8_ETHERTYPE
             @ sample_none_packet[5 := sample_none_packet ! 5 - 1])]), 0)"
proof -
  have "process_frame sample_manifest sample_budgets 1 sample_frame =
      Forward (sample_none_packet[5 := sample_none_packet ! 5 - 1]) 2 [2, 0, 0, 0, 0, 3]"
    unfolding sample_frame_def by (rule sample_process_frame)
  moreover have "length sample_frame = 62" by (simp add: sample_frame_def length_sample_none)
  moreover have "NativeRuntime_mac (count_received 1 sample_runtime) 2 = Inr [2, 0, 0, 0, 0, 4]"
    by (simp add: NativeRuntime_mac_def sample_runtime_def sample_macs_def)
  moreover have "rt_manifest sample_runtime = sample_manifest" "rt_budgets sample_runtime = sample_budgets"
    by (simp_all add: sample_runtime_def)
  ultimately show ?thesis
    by (simp add: poll_descriptor_def logged_def sample_env_def ETHERNET_HEADER_LEN_def
        SERIALIZED_R8_MAX_def NativeRuntime_send_def build_ethernet_frame_def length_sample_none)
qed

lemma sample_step:
  "NativeRuntime_step (logged sample_env) sample_runtime ([sample_frame], []) () 0 =
     (Inr (), count_forwarded (count_received 1 sample_runtime), ([],
        [(2, [2, 0, 0, 0, 0, 3] @ [2, 0, 0, 0, 0, 4] @ u16_to_be_bytes R8_ETHERTYPE
             @ sample_none_packet[5 := sample_none_packet ! 5 - 1])]), (), 0)"
proof -
  have "map fst (rt_local_macs sample_runtime) = [1, 2]" "\<not> rt_stopped sample_runtime"
    by (simp_all add: sample_runtime_def sample_macs_def)
  moreover have "event (logged sample_env) () = (Inr False, ())"
    by (simp add: logged_def sample_env_def)
  moreover have "poll_descriptor (logged sample_env) rt ([], log) 0 2 = (Inr (), rt, ([], log), 0)" for rt log
    by (simp add: poll_descriptor_def logged_def sample_env_def)
  ultimately show ?thesis by (simp add: NativeRuntime_step_def sample_poll)
qed

lemma sample_daemon_run:
  "(native_step (logged sample_env))\<^sup>*\<^sup>* (sample_runtime, ([sample_frame], []), (), 0, ())
     (count_forwarded (count_received 1 sample_runtime), ([],
        [(2, [2, 0, 0, 0, 0, 3] @ [2, 0, 0, 0, 0, 4] @ u16_to_be_bytes R8_ETHERTYPE
             @ sample_none_packet[5 := sample_none_packet ! 5 - 1])]), (), 0, ())"
  by (rule r_into_rtranclp, rule native_step.step, rule sample_step)

theorem native_run_invariant_witness:
  "received (rt_telemetry (count_forwarded (count_received 1 sample_runtime))) = 1
   \<and> unat (received (rt_telemetry (count_forwarded (count_received 1 sample_runtime)))) =
     unat (dropped (rt_telemetry (count_forwarded (count_received 1 sample_runtime)))) +
     unat (forwarded (rt_telemetry (count_forwarded (count_received 1 sample_runtime))))"
proof -
  have "received (rt_telemetry (count_forwarded (count_received 1 sample_runtime))) = 1"
    by (simp add: count_forwarded_def count_received_def sample_runtime_def RuntimeTelemetry_default_def)
  moreover have "\<not> rt_stopped (count_forwarded (count_received 1 sample_runtime))"
    by (simp add: sample_runtime_def)
  ultimately show ?thesis
    using native_run_invariant [OF sample_runtime_new sample_daemon_run] by simp
qed

theorem native_sends_only_forwards_witness:
  "\<exists>ifid input packet mac source.
     process_frame sample_manifest sample_budgets ifid input = Forward packet 2 mac
     \<and> (2, source) \<in> set sample_macs
     \<and> [2, 0, 0, 0, 0, 3] @ [2, 0, 0, 0, 0, 4] @ u16_to_be_bytes R8_ETHERTYPE
         @ sample_none_packet[5 := sample_none_packet ! 5 - 1]
       = mac @ source @ u16_to_be_bytes R8_ETHERTYPE @ packet"
  by (rule native_sends_only_forwards [OF sample_runtime_new sample_daemon_run]) simp

theorem native_keeps_running_witness:
  "\<exists>rt' io' ev'. NativeRuntime_step sample_env sample_runtime [sample_frame, [], [1, 2, 3]] () 0
     = (Inr (), rt', io', ev', 0) \<and> \<not> rt_stopped rt'"
  using native_keeps_running [OF reliable_sample sample_manifest_ok sample_runtime_new rtranclp.rtrancl_refl]
  by blast

end
