(* ===== verification/Rust_Str.thy ===== *)
theory Rust_Str
  imports R8_Prelude "HOL-Library.Sublist" "HOL-Library.Char_ord" "HOL-Library.List_Lexorder"
begin

text \<open>
  What the launcher uses of Rust's \<open>str\<close>: \<open>lines\<close>, \<open>trim\<close>, \<open>split_whitespace\<close>,
  \<open>strip_prefix\<close>, \<open>from_str_radix\<close>, the ASCII predicates and UTF-8 validation. A \<open>str\<close> is the
  list of its UTF-8 bytes, so \<open>len\<close> and \<open>bytes\<close> are those of the list; white space is the
  Unicode property \<open>White_Space\<close>, given by the encodings of its 25 code points (no encoding
  starts inside another, so scanning bytes and scanning code points agree). The lemmas read
  text back that was laid out as fields, blanks and lines of digits.
\<close>

section \<open>ASCII\<close>

definition in_range :: "char \<Rightarrow> char \<Rightarrow> char \<Rightarrow> bool" where
  "in_range lo hi c \<longleftrightarrow> (of_char lo :: nat) \<le> of_char c \<and> (of_char c :: nat) \<le> of_char hi"

definition is_ascii_digit :: "char \<Rightarrow> bool" where
  "is_ascii_digit c \<longleftrightarrow> in_range CHR ''0'' CHR ''9'' c"

definition is_ascii_hexdigit :: "char \<Rightarrow> bool" where
  "is_ascii_hexdigit c \<longleftrightarrow>
     is_ascii_digit c \<or> in_range CHR ''a'' CHR ''f'' c \<or> in_range CHR ''A'' CHR ''F'' c"

definition is_ascii_alphanumeric :: "char \<Rightarrow> bool" where
  "is_ascii_alphanumeric c \<longleftrightarrow>
     is_ascii_digit c \<or> in_range CHR ''a'' CHR ''z'' c \<or> in_range CHR ''A'' CHR ''Z'' c"

text \<open>The printable ASCII characters other than the blank.\<close>

definition is_ascii_graphic :: "char \<Rightarrow> bool" where
  "is_ascii_graphic c \<longleftrightarrow> in_range CHR ''!'' CHR ''~'' c"

section \<open>UTF-8\<close>

definition utf8_cont :: "char \<Rightarrow> bool" where
  "utf8_cont c \<longleftrightarrow> in_range CHR 0x80 CHR 0xBF c"

text \<open>\<open>CStr::to_str\<close> accepts exactly the well-formed sequences of the Unicode standard.\<close>

fun utf8_valid :: "string \<Rightarrow> bool" where
  "utf8_valid [] = True"
| "utf8_valid (c # cs) =
     (if (of_char c :: nat) < 0x80 then utf8_valid cs
      else case cs of
        [] \<Rightarrow> False
      | d # ds \<Rightarrow>
        if in_range CHR 0xC2 CHR 0xDF c then utf8_cont d \<and> utf8_valid ds
        else case ds of
          [] \<Rightarrow> False
        | e # es \<Rightarrow>
          if in_range CHR 0xE0 CHR 0xEF c then
            (if c = CHR 0xE0 then in_range CHR 0xA0 CHR 0xBF d
             else if c = CHR 0xED then in_range CHR 0x80 CHR 0x9F d
             else utf8_cont d) \<and> utf8_cont e \<and> utf8_valid es
          else case es of
            [] \<Rightarrow> False
          | f # fs \<Rightarrow>
            in_range CHR 0xF0 CHR 0xF4 c
            \<and> (if c = CHR 0xF0 then in_range CHR 0x90 CHR 0xBF d
               else if c = CHR 0xF4 then in_range CHR 0x80 CHR 0x8F d
               else utf8_cont d) \<and> utf8_cont e \<and> utf8_cont f \<and> utf8_valid fs)"

section \<open>White space\<close>

definition whitespace_chars :: "string list" where
  "whitespace_chars =
     [[CHR 0x09], [CHR 0x0A], [CHR 0x0B], [CHR 0x0C], [CHR 0x0D], [CHR 0x20],
      [CHR 0xC2, CHR 0x85], [CHR 0xC2, CHR 0xA0], [CHR 0xE1, CHR 0x9A, CHR 0x80],
      [CHR 0xE2, CHR 0x80, CHR 0x80], [CHR 0xE2, CHR 0x80, CHR 0x81],
      [CHR 0xE2, CHR 0x80, CHR 0x82], [CHR 0xE2, CHR 0x80, CHR 0x83],
      [CHR 0xE2, CHR 0x80, CHR 0x84], [CHR 0xE2, CHR 0x80, CHR 0x85],
      [CHR 0xE2, CHR 0x80, CHR 0x86], [CHR 0xE2, CHR 0x80, CHR 0x87],
      [CHR 0xE2, CHR 0x80, CHR 0x88], [CHR 0xE2, CHR 0x80, CHR 0x89],
      [CHR 0xE2, CHR 0x80, CHR 0x8A], [CHR 0xE2, CHR 0x80, CHR 0xA8],
      [CHR 0xE2, CHR 0x80, CHR 0xA9], [CHR 0xE2, CHR 0x80, CHR 0xAF],
      [CHR 0xE2, CHR 0x81, CHR 0x9F], [CHR 0xE3, CHR 0x80, CHR 0x80]]"

text \<open>One white-space character off the front.\<close>

definition strip_ws :: "string \<Rightarrow> string option" where
  "strip_ws s = map_option (\<lambda>w. drop (length w) s) (find (\<lambda>w. prefix w s) whitespace_chars)"

lemma strip_ws_shorter: "strip_ws s = Some t \<Longrightarrow> length t < length s"
proof -
  assume "strip_ws s = Some t"
  then obtain w where w: "find (\<lambda>w. prefix w s) whitespace_chars = Some w" "t = drop (length w) s"
    by (auto simp: strip_ws_def)
  then have "w \<in> set whitespace_chars" "prefix w s" by (auto simp: find_Some_iff)
  moreover have "[] \<notin> set whitespace_chars" by (simp add: whitespace_chars_def)
  ultimately have "0 < length w" "length w \<le> length s" by (auto dest: prefix_length_le)
  with w(2) show ?thesis by (simp only: length_drop)
qed

function trim_start :: "string \<Rightarrow> string" where
  "trim_start s = (case strip_ws s of None \<Rightarrow> s | Some t \<Rightarrow> trim_start t)"
  by auto
termination by (relation "measure length") (auto dest: strip_ws_shorter)

declare trim_start.simps [simp del]

fun trim_end :: "string \<Rightarrow> string" where
  "trim_end [] = []"
| "trim_end (c # cs) = (if trim_start (c # cs) = [] then [] else c # trim_end cs)"

definition trim :: "string \<Rightarrow> string" where
  "trim s = trim_end (trim_start s)"

text \<open>\<open>cur\<close> is the field read so far.\<close>

function split_fields :: "string \<Rightarrow> string \<Rightarrow> string list" where
  "split_fields cur s =
     (case s of
        [] \<Rightarrow> if cur = [] then [] else [cur]
      | c # cs \<Rightarrow>
        (case strip_ws s of
           Some t \<Rightarrow> (if cur = [] then [] else [cur]) @ split_fields [] t
         | None \<Rightarrow> split_fields (cur @ [c]) cs))"
  by pat_completeness auto
termination by (relation "measure (length \<circ> snd)") (auto dest: strip_ws_shorter)

declare split_fields.simps [simp del]

definition split_whitespace :: "string \<Rightarrow> string list" where
  "split_whitespace s = split_fields [] s"

section \<open>Lines\<close>

definition strip_cr :: "string \<Rightarrow> string" where
  "strip_cr s = (if s \<noteq> [] \<and> last s = CHR 0x0D then butlast s else s)"

text \<open>A final line without its newline keeps a carriage return.\<close>

fun lines_from :: "string \<Rightarrow> string \<Rightarrow> string list" where
  "lines_from cur [] = (if cur = [] then [] else [cur])"
| "lines_from cur (c # cs) =
     (if c = CHR 0x0A then strip_cr cur # lines_from [] cs else lines_from (cur @ [c]) cs)"

definition str_lines :: "string \<Rightarrow> string list" where
  "str_lines s = lines_from [] s"

definition str_strip_prefix :: "string \<Rightarrow> string \<Rightarrow> string option" where
  "str_strip_prefix p s = (if prefix p s then Some (drop (length p) s) else None)"

text \<open>\<open>Iterator::find_map\<close>.\<close>

fun find_map :: "('a \<Rightarrow> 'b option) \<Rightarrow> 'a list \<Rightarrow> 'b option" where
  "find_map f [] = None"
| "find_map f (x # xs) = (case f x of None \<Rightarrow> find_map f xs | Some y \<Rightarrow> Some y)"

section \<open>Numbers\<close>

text \<open>\<open>char::to_digit\<close> for a radix of at most sixteen.\<close>

definition to_digit :: "nat \<Rightarrow> char \<Rightarrow> nat option" where
  "to_digit radix c =
     (let d = (if is_ascii_digit c then of_char c - 48
               else if in_range CHR ''a'' CHR ''f'' c then of_char c - 87
               else if in_range CHR ''A'' CHR ''F'' c then of_char c - 55 else radix) in
      if d < radix then Some d else None)"

fun digits_value :: "nat \<Rightarrow> nat \<Rightarrow> nat \<Rightarrow> string \<Rightarrow> nat option" where
  "digits_value bits radix acc [] = Some acc"
| "digits_value bits radix acc (c # cs) =
     (case to_digit radix c of
        None \<Rightarrow> None
      | Some d \<Rightarrow>
        if acc * radix + d < 2 ^ bits then digits_value bits radix (acc * radix + d) cs else None)"

text \<open>An optional plus sign, then at least one digit; \<open>None\<close> is a \<open>ParseIntError\<close>.\<close>

definition from_str_radix :: "nat \<Rightarrow> nat \<Rightarrow> string \<Rightarrow> nat option" where
  "from_str_radix bits radix s =
     (case s of
        [] \<Rightarrow> None
      | c # cs \<Rightarrow>
        if c = CHR ''+'' then (if cs = [] then None else digits_value bits radix 0 cs)
        else digits_value bits radix 0 s)"

section \<open>Reading laid-out text\<close>

lemma in_range_simps:
  "in_range lo hi c \<longleftrightarrow> of_char c \<in> {of_char lo..of_char hi :: nat}"
  by (simp add: in_range_def)

lemmas ascii_simps = is_ascii_digit_def is_ascii_hexdigit_def is_ascii_alphanumeric_def
  is_ascii_graphic_def in_range_def

lemma strip_ws_Nil [simp]: "strip_ws [] = None"
  by (simp add: strip_ws_def whitespace_chars_def)

lemma whitespace_first:
  "w \<in> set whitespace_chars \<Longrightarrow>
     hd w \<in> {CHR 0x09, CHR 0x0A, CHR 0x0B, CHR 0x0C, CHR 0x0D, CHR 0x20, CHR 0xC2, CHR 0xE1,
             CHR 0xE2, CHR 0xE3}"
  by (auto simp: whitespace_chars_def)

lemma strip_ws_graphic [simp]:
  assumes "is_ascii_graphic c"
  shows "strip_ws (c # cs) = None"
proof -
  have "\<not> prefix w (c # cs)" if w: "w \<in> set whitespace_chars" for w
  proof
    assume "prefix w (c # cs)"
    moreover have "w \<noteq> []" using w by (auto simp: whitespace_chars_def)
    ultimately have "hd w = c" by (cases w) simp_all
    with whitespace_first [OF w] assms show False by (auto simp: ascii_simps)
  qed
  then show ?thesis by (simp add: strip_ws_def find_None_iff)
qed

lemma strip_ws_blank [simp]:
  "strip_ws (CHR 0x20 # s) = Some s" "strip_ws (CHR 0x09 # s) = Some s"
  "strip_ws (CHR 0x0A # s) = Some s"
  by (simp_all add: strip_ws_def whitespace_chars_def)

definition graphic :: "string \<Rightarrow> bool" where
  "graphic s \<longleftrightarrow> list_all is_ascii_graphic s"

lemma graphic_simps [simp]:
  "graphic []" "graphic (c # cs) \<longleftrightarrow> is_ascii_graphic c \<and> graphic cs"
  "graphic (s @ t) \<longleftrightarrow> graphic s \<and> graphic t"
  by (simp_all add: graphic_def)

lemma split_fields_graphic:
  "graphic f \<Longrightarrow> split_fields cur (f @ s) = split_fields (cur @ f) s"
  by (induction f arbitrary: cur) (simp_all add: split_fields.simps [of _ "_ # _"])

lemma split_fields_blank [simp]:
  "split_fields cur (CHR 0x20 # s) = (if cur = [] then [] else [cur]) @ split_fields [] s"
  "split_fields cur (CHR 0x09 # s) = (if cur = [] then [] else [cur]) @ split_fields [] s"
  by (simp_all add: split_fields.simps [of _ "_ # _"])

lemma split_fields_Nil [simp]: "split_fields cur [] = (if cur = [] then [] else [cur])"
  by (simp add: split_fields.simps)

lemma split_fields_blanks:
  "split_fields cur (replicate n CHR 0x20) = (if cur = [] then [] else [cur])"
  by (induction n arbitrary: cur) simp_all

text \<open>Fields with a tab before each, then blanks to the end of the record.\<close>

lemma split_fields_tabs:
  "list_all (\<lambda>f. f \<noteq> [] \<and> graphic f) fs \<Longrightarrow>
     split_fields cur (concat (map (\<lambda>f. CHR 0x09 # f) fs) @ replicate n CHR 0x20) =
     (if cur = [] then [] else [cur]) @ fs"
  by (induction fs arbitrary: cur) (simp_all add: split_fields_blanks split_fields_graphic)

lemma split_whitespace_fields:
  "f \<noteq> [] \<Longrightarrow> graphic f \<Longrightarrow> list_all (\<lambda>f. f \<noteq> [] \<and> graphic f) fs \<Longrightarrow>
     split_whitespace (f @ concat (map (\<lambda>f. CHR 0x09 # f) fs) @ replicate n CHR 0x20) = f # fs"
  unfolding split_whitespace_def by (simp add: split_fields_graphic split_fields_tabs)

lemma lines_from_line:
  "CHR 0x0A \<notin> set l \<Longrightarrow> lines_from cur (l @ CHR 0x0A # s) = strip_cr (cur @ l) # lines_from [] s"
  by (induction l arbitrary: cur) auto

lemma str_lines_concat:
  "list_all (\<lambda>l. CHR 0x0A \<notin> set l \<and> strip_cr l = l) ls \<Longrightarrow>
     str_lines (concat (map (\<lambda>l. l @ [CHR 0x0A]) ls)) = ls"
  unfolding str_lines_def by (induction ls) (simp_all add: lines_from_line)

text \<open>Fixed-width hexadecimal and decimal, as \<open>printf\<close> writes them.\<close>

definition hex_digit :: "bool \<Rightarrow> nat \<Rightarrow> char" where
  "hex_digit upper d = char_of (if d < 10 then 48 + d else if upper then 55 + d else 87 + d)"

fun hex_field :: "bool \<Rightarrow> nat \<Rightarrow> nat \<Rightarrow> string" where
  "hex_field upper 0 v = []"
| "hex_field upper (Suc n) v = hex_field upper n (v div 16) @ [hex_digit upper (v mod 16)]"

fun dec_field :: "nat \<Rightarrow> string" where
  "dec_field v = (if v < 10 then [] else dec_field (v div 10)) @ [hex_digit True (v mod 10)]"

declare dec_field.simps [simp del]

lemma of_char_hex_digit:
  "d < 16 \<Longrightarrow> of_char (hex_digit u d) = (if d < 10 then 48 + d else if u then 55 + d else 87 + d :: nat)"
  by (simp add: hex_digit_def)

lemma hex_digit_props [simp]:
  assumes "d < 16"
  shows "is_ascii_hexdigit (hex_digit u d)" "is_ascii_graphic (hex_digit u d)"
    "hex_digit u d \<noteq> CHR ''+''" "to_digit 16 (hex_digit u d) = Some d"
  using of_char_hex_digit [OF assms, of u] assms
  by (auto simp: ascii_simps to_digit_def Let_def split: if_splits)

lemma dec_digit_props [simp]:
  assumes "d < 10"
  shows "is_ascii_digit (hex_digit u d)" "to_digit 10 (hex_digit u d) = Some d"
  using of_char_hex_digit [of d u] assms
  by (auto simp: ascii_simps to_digit_def Let_def)

lemma length_hex_field [simp]: "length (hex_field u n v) = n"
  by (induction n arbitrary: v) simp_all

lemma hex_field_Nil [simp]: "hex_field u n v = [] \<longleftrightarrow> n = 0"
  by (cases n) simp_all

lemma hex_field_hex [simp]: "list_all is_ascii_hexdigit (hex_field u n v)"
  by (induction n arbitrary: v) simp_all

lemma hex_field_graphic [simp]: "graphic (hex_field u n v)"
  by (induction n arbitrary: v) (simp_all add: graphic_def)

lemma digits_value_append:
  "digits_value bits r acc (s @ t) =
     Option.bind (digits_value bits r acc s) (\<lambda>v. digits_value bits r v t)"
  by (induction bits r acc s rule: digits_value.induct) (auto split: option.splits)

lemma digits_value_hex:
  "v < 16 ^ n \<Longrightarrow> v < 2 ^ bits \<Longrightarrow> digits_value bits 16 0 (hex_field u n v) = Some v"
proof (induction n arbitrary: v)
  case (Suc n)
  have "v div 16 < 16 ^ n" "v div 16 < 2 ^ bits"
    using Suc.prems by (auto simp: less_mult_imp_div_less mult.commute intro: le_less_trans [OF div_le_dividend])
  from Suc.IH [OF this] Suc.prems show ?case by (simp add: digits_value_append)
qed simp

lemma from_str_radix_hex:
  assumes "v < 16 ^ n" "v < 2 ^ bits" "0 < n"
  shows "from_str_radix bits 16 (hex_field u n v) = Some v"
proof -
  have "hex_field u n v \<noteq> []" "CHR ''+'' \<notin> set (hex_field u n v)"
  proof -
    show "hex_field u n v \<noteq> []" using assms(3) by (cases n) simp_all
    have "\<not> is_ascii_hexdigit CHR ''+''" by (simp add: ascii_simps)
    with hex_field_hex [of u n v] show "CHR ''+'' \<notin> set (hex_field u n v)" by (auto simp: list_all_iff)
  qed
  with digits_value_hex [OF assms(1,2), of u] show ?thesis
    by (cases "hex_field u n v") (auto simp: from_str_radix_def)
qed

lemma hex_field_inject:
  assumes "v < 16 ^ n" "w < 16 ^ n"
  shows "hex_field u n v = hex_field u n w \<longleftrightarrow> v = w"
proof
  have "(16 :: nat) ^ n = 2 ^ (4 * n)" by (simp add: power_mult)
  then have "v < 2 ^ (4 * n)" "w < 2 ^ (4 * n)" using assms by (simp_all only:)
  assume "hex_field u n v = hex_field u n w"
  moreover have "digits_value (4 * n) 16 0 (hex_field u n v) = Some v"
    "digits_value (4 * n) 16 0 (hex_field u n w) = Some w"
    by (rule digits_value_hex, fact, fact)+
  ultimately show "v = w" by (metis option.inject)
qed simp

lemma hex_field_zero: "hex_field u n 0 = replicate n CHR ''0''"
proof -
  have "hex_digit u 0 = CHR ''0''" by (simp add: hex_digit_def char_of_def bit_iff_odd)
  then show ?thesis by (induction n) (simp_all add: replicate_append_same)
qed

lemma dec_field_props [simp]:
  "dec_field v \<noteq> []" "list_all is_ascii_digit (dec_field v)"
proof -
  show "dec_field v \<noteq> []" by (simp add: dec_field.simps [of v])
  show "list_all is_ascii_digit (dec_field v)"
    by (induction v rule: dec_field.induct) (subst dec_field.simps, auto)
qed

lemma digit_graphic: "is_ascii_digit c \<Longrightarrow> is_ascii_graphic c"
  by (auto simp: ascii_simps)

lemma dec_field_graphic [simp]: "graphic (dec_field v)"
  using dec_field_props(2) [of v] by (auto simp: graphic_def list_all_iff intro: digit_graphic)

lemma digits_value_dec: "v < 2 ^ bits \<Longrightarrow> digits_value bits 10 0 (dec_field v) = Some v"
proof (induction v rule: dec_field.induct)
  case (1 v)
  have "v div 10 < 2 ^ bits" using 1(2) by (auto intro: le_less_trans [OF div_le_dividend])
  with 1 show ?case
    by (subst dec_field.simps) (auto simp: digits_value_append)
qed

lemma from_str_radix_dec:
  assumes "v < 2 ^ bits"
  shows "from_str_radix bits 10 (dec_field v) = Some v"
proof -
  have "\<not> is_ascii_digit CHR ''+''" by (simp add: ascii_simps)
  with dec_field_props(2) [of v] have "CHR ''+'' \<notin> set (dec_field v)" by (auto simp: list_all_iff)
  with digits_value_dec [OF assms] dec_field_props(1) [of v] show ?thesis
    by (cases "dec_field v") (auto simp: from_str_radix_def)
qed

text \<open>A graphic word survives trimming, whatever blanks follow.\<close>

lemma trim_start_graphic: "is_ascii_graphic c \<Longrightarrow> trim_start (c # cs) = c # cs"
  by (simp add: trim_start.simps)

lemma trim_end_graphic: "graphic s \<Longrightarrow> trim_end (s @ t) = s @ trim_end t"
  by (induction s) (simp_all add: trim_start_graphic)

lemma trim_graphic: "graphic s \<Longrightarrow> trim s = s"
  using trim_end_graphic [of s "[]"] by (cases s) (simp_all add: trim_def trim_start.simps)

lemma trim_word_newline:
  assumes "graphic s"
  shows "trim (s @ [CHR 0x0A]) = s"
proof -
  have nl: "trim_start [CHR 0x0A] = []" by (simp add: trim_start.simps)
  show ?thesis
  proof (cases s)
    case Nil
    then show ?thesis by (simp add: trim_def nl)
  next
    case (Cons c cs)
    with assms trim_end_graphic [of s "[CHR 0x0A]"] show ?thesis
      by (simp add: trim_def trim_start_graphic nl)
  qed
qed

end
