(* ===== verification/Linux_Process.thy ===== *)
theory Linux_Process
  imports Rust_Str
begin

text \<open>
  The process side of the launcher's safety primitives
  (\<open>src/rust/crates/r8d/src/linux.rs\<close>): dropping every privilege and the sealed in-memory
  manifest. The system calls are the fields of two records over a kernel state, so each call,
  its order and its result are explicit; what the calls do is a predicate on those records
  (\<open>cred_laws\<close>, \<open>memfd_laws\<close>) that states their documented behaviour. The theorems say that
  a reported success of \<open>drop_privileges\<close> means the credentials are gone, whatever the calls
  that set them did, and that a sealed manifest reads back as it was written.
\<close>

section \<open>Errors and fallible kernel steps\<close>

datatype LinuxError =
    Namespace | Network | DefaultRouteV4 | Interface | Address | Socket | Privilege | Manifest

text \<open>\<open>io_then\<close> is \<open>?\<close> over calls that change the kernel; \<open>io_call\<close> a call that cannot fail.\<close>

definition io_then :: "('k \<Rightarrow> ('e + 'a) \<times> 'k) \<Rightarrow> ('a \<Rightarrow> 'k \<Rightarrow> ('e + 'b) \<times> 'k) \<Rightarrow> 'k \<Rightarrow> ('e + 'b) \<times> 'k" where
  "io_then m f k = (case m k of (Inl e, k) \<Rightarrow> (Inl e, k) | (Inr x, k) \<Rightarrow> f x k)"

definition io_call :: "('k \<Rightarrow> 'a \<times> 'k) \<Rightarrow> ('a \<Rightarrow> 'k \<Rightarrow> 'b \<times> 'k) \<Rightarrow> 'k \<Rightarrow> 'b \<times> 'k" where
  "io_call m f k = (case m k of (x, k) \<Rightarrow> f x k)"

definition io_ret :: "'a \<Rightarrow> 'k \<Rightarrow> 'a \<times> 'k" where
  "io_ret x k = (x, k)"

text \<open>\<open>if call != 0 { return Err(e) }\<close>.\<close>

definition zero_or :: "'e \<Rightarrow> ('k \<Rightarrow> int \<times> 'k) \<Rightarrow> 'k \<Rightarrow> ('e + unit) \<times> 'k" where
  "zero_or e m k = (case m k of (r, k) \<Rightarrow> (if r \<noteq> 0 then Inl e else Inr (), k))"

lemma io_then_Inr:
  "io_then m f k = (Inr y, k') \<longleftrightarrow> (\<exists>x k1. m k = (Inr x, k1) \<and> f x k1 = (Inr y, k'))"
  by (auto simp: io_then_def split: prod.splits sum.splits)

lemma io_then_pair: "m k = (Inr x, k1) \<Longrightarrow> io_then m f k = f x k1"
  by (simp add: io_then_def)

lemma io_then_Inl:
  "io_then m f k = (Inl e, k') \<longleftrightarrow>
     m k = (Inl e, k') \<or> (\<exists>x k1. m k = (Inr x, k1) \<and> f x k1 = (Inl e, k'))"
  by (auto simp: io_then_def split: prod.splits sum.splits)

lemma io_call_pair: "io_call m f k = r \<longleftrightarrow> (\<exists>x k1. m k = (x, k1) \<and> f x k1 = r)"
  by (auto simp: io_call_def split: prod.splits)

lemma io_call_fst_snd:
  "fst (io_call m f k) = fst (f (fst (m k)) (snd (m k)))"
  "snd (io_call m f k) = snd (f (fst (m k)) (snd (m k)))"
  by (simp_all add: io_call_def split: prod.splits)

lemma io_ret_pair [simp]: "io_ret x k = (x, k)"
  by (simp add: io_ret_def)

lemma zero_or_Inr: "zero_or e m k = (Inr u, k') \<longleftrightarrow> m k = (0, k')"
  by (auto simp: zero_or_def split: prod.splits)

lemma zero_or_Inl: "zero_or e m k = (Inl f, k') \<longleftrightarrow> f = e \<and> (\<exists>r. r \<noteq> 0 \<and> m k = (r, k'))"
  by (auto simp: zero_or_def split: prod.splits)

text \<open>\<open>map_err\<close> over a call.\<close>

definition lift_err :: "('e \<Rightarrow> 'f) \<Rightarrow> ('k \<Rightarrow> ('e + 'a) \<times> 'k) \<Rightarrow> 'k \<Rightarrow> ('f + 'a) \<times> 'k" where
  "lift_err g m = io_call m (\<lambda>r. io_ret (map_err g r))"

lemma lift_err_Inr: "lift_err g m k = (Inr x, k') \<longleftrightarrow> m k = (Inr x, k')"
  by (auto simp: lift_err_def io_call_def split: prod.splits)

text \<open>An early return of an error, in the three shapes it is written in.\<close>

lemma io_guard_Inr:
  "(if b then io_ret (Inl e) else m) k = (Inr y, k') \<longleftrightarrow> \<not> b \<and> m k = (Inr y, k')"
  "(case v of None \<Rightarrow> io_ret (Inl e) | Some x \<Rightarrow> f x) k = (Inr y, k') \<longleftrightarrow>
     (\<exists>x. v = Some x \<and> f x k = (Inr y, k'))"
  "(case w of Inl e \<Rightarrow> io_ret (Inl (h e)) | Inr x \<Rightarrow> g x) k = (Inr y, k') \<longleftrightarrow>
     (\<exists>x. w = Inr x \<and> g x k = (Inr y, k'))"
  by (auto split: option.splits sum.splits)

lemmas io_simps = io_then_Inr io_then_Inl io_call_pair zero_or_Inr zero_or_Inl io_guard_Inr

text \<open>
  Time in the kernel state: \<open>time\<close> reads the clock, \<open>queued\<close> is the number of datagrams that can still be
  received before the clock moves. A call moves on when time does not run back and nothing is queued
  while it stands still; it uses something up when the clock moves or a datagram is gone.
\<close>

definition moves_on :: "('k \<Rightarrow> nat) \<Rightarrow> ('k \<Rightarrow> nat) \<Rightarrow> 'k \<Rightarrow> 'k \<Rightarrow> bool" where
  "moves_on time queued k k' \<longleftrightarrow> time k < time k' \<or> time k' = time k \<and> queued k' \<le> queued k"

definition uses_up :: "('k \<Rightarrow> nat) \<Rightarrow> ('k \<Rightarrow> nat) \<Rightarrow> 'k \<Rightarrow> 'k \<Rightarrow> bool" where
  "uses_up time queued k k' \<longleftrightarrow> time k < time k' \<or> time k' = time k \<and> queued k' < queued k"

lemma moves_on_uses_up: "moves_on time queued k k1 \<Longrightarrow> uses_up time queued k1 k' \<Longrightarrow> uses_up time queued k k'"
  by (auto simp: moves_on_def uses_up_def)

lemma moves_on_time: "moves_on time queued k k' \<Longrightarrow> time k \<le> time k'"
  by (auto simp: moves_on_def)

text \<open>A loop that runs up to a deadline and uses something up in each pass ends.\<close>

lemma deadline_induct [case_names pass]:
  assumes pass: "\<And>k. (\<And>k'. time k \<le> deadline \<Longrightarrow> uses_up time queued k k' \<Longrightarrow> P k') \<Longrightarrow> P k"
  shows "P (k :: 'k)"
proof -
  have "wf (inv_image (less_than <*lex*> less_than) (\<lambda>k. (Suc deadline - time k, queued k)))" (is "wf ?r")
    by (intro wf_inv_image wf_lex_prod wf_less_than)
  then show ?thesis
  proof (induction k rule: wf_induct_rule)
    case (less k)
    show ?case
    proof (rule pass)
      fix k'
      assume "time k \<le> deadline" "uses_up time queued k k'"
      then have "(k', k) \<in> ?r" by (auto simp: uses_up_def)
      then show "P k'" by (rule less)
    qed
  qed
qed

text \<open>The same over steps that may also panic or not return, which is \<open>None\<close>.\<close>

type_synonym ('e, 'w, 'a) act = "'w \<Rightarrow> (('e + 'a) \<times> 'w) option"

definition act_then :: "('e, 'w, 'a) act \<Rightarrow> ('a \<Rightarrow> ('e, 'w, 'b) act) \<Rightarrow> ('e, 'w, 'b) act" where
  "act_then m f w =
     (case m w of
        None \<Rightarrow> None
      | Some (Inl e, w) \<Rightarrow> Some (Inl e, w)
      | Some (Inr x, w) \<Rightarrow> f x w)"

definition act_ret :: "'e + 'a \<Rightarrow> ('e, 'w, 'a) act" where
  "act_ret r w = Some (r, w)"

lemma act_then_Inr:
  "act_then m f w = Some (Inr y, w') \<longleftrightarrow> (\<exists>x w1. m w = Some (Inr x, w1) \<and> f x w1 = Some (Inr y, w'))"
  by (auto simp: act_then_def split: option.splits prod.splits sum.splits)

lemma act_ret_Inr: "act_ret r w = Some (Inr y, w') \<longleftrightarrow> r = Inr y \<and> w' = w"
  by (auto simp: act_ret_def)

lemma act_then_cases:
  assumes "act_then m f w = Some (r, w')"
  obtains (stop) e where "m w = Some (Inl e, w')" "r = Inl e"
  | (go) x w1 where "m w = Some (Inr x, w1)" "f x w1 = Some (r, w')"
  using assms by (auto simp: act_then_def split: option.splits prod.splits sum.splits)

section \<open>Dropping privilege\<close>

definition PR_SET_NO_NEW_PRIVS :: int where "PR_SET_NO_NEW_PRIVS = 38"
definition PR_GET_NO_NEW_PRIVS :: int where "PR_GET_NO_NEW_PRIVS = 39"
definition PR_CAP_AMBIENT :: int where "PR_CAP_AMBIENT = 47"
definition PR_CAP_AMBIENT_CLEAR_ALL :: u64 where "PR_CAP_AMBIENT_CLEAR_ALL = 4"
definition PR_SET_DUMPABLE :: int where "PR_SET_DUMPABLE = 4"
definition PR_GET_DUMPABLE :: int where "PR_GET_DUMPABLE = 3"
definition CAPSET_VERSION_3 :: u32 where "CAPSET_VERSION_3 = 0x20080522"

text \<open>\<open>libc::PR_CAPBSET_DROP\<close>.\<close>

definition PR_CAPBSET_DROP :: int where "PR_CAPBSET_DROP = 24"

record cap_user_header =
  cap_version :: u32
  cap_pid :: int

record cap_user_data =
  cap_effective :: u32
  cap_permitted :: u32
  cap_inheritable :: u32

definition CapUserData_default :: cap_user_data where
  "CapUserData_default = \<lparr>cap_effective = 0, cap_permitted = 0, cap_inheritable = 0\<rparr>"

text \<open>
  The calls the launcher makes on its own credentials: \<open>prctl\<close> takes the operation and its
  first argument (the others are always zero), \<open>getgroups\<close> returns the list it stored.
\<close>

record 'k cred_kernel =
  read_to_string :: "string \<Rightarrow> 'k \<Rightarrow> string option \<times> 'k"
  sys_prctl :: "int \<Rightarrow> u64 \<Rightarrow> 'k \<Rightarrow> int \<times> 'k"
  sys_setgroups :: "u32 list \<Rightarrow> 'k \<Rightarrow> int \<times> 'k"
  sys_setresgid :: "u32 \<Rightarrow> u32 \<Rightarrow> u32 \<Rightarrow> 'k \<Rightarrow> int \<times> 'k"
  sys_setresuid :: "u32 \<Rightarrow> u32 \<Rightarrow> u32 \<Rightarrow> 'k \<Rightarrow> int \<times> 'k"
  sys_capset :: "cap_user_header \<Rightarrow> cap_user_data list \<Rightarrow> 'k \<Rightarrow> int \<times> 'k"
  sys_getgroups :: "int \<Rightarrow> 'k \<Rightarrow> (int \<times> u32 list) \<times> 'k"
  sys_getresuid :: "'k \<Rightarrow> (int \<times> u32 \<times> u32 \<times> u32) \<times> 'k"
  sys_getresgid :: "'k \<Rightarrow> (int \<times> u32 \<times> u32 \<times> u32) \<times> 'k"
  sys_setfsuid :: "u32 \<Rightarrow> 'k \<Rightarrow> u32 \<times> 'k"
  sys_setfsgid :: "u32 \<Rightarrow> 'k \<Rightarrow> u32 \<times> 'k"

fun bounding_loop :: "'k cred_kernel \<Rightarrow> u64 list \<Rightarrow> 'k \<Rightarrow> int \<times> 'k" where
  "bounding_loop K [] k = (0, k)"
| "bounding_loop K (capability # rest) k =
     (case sys_prctl K PR_CAPBSET_DROP capability k of
        (r, k) \<Rightarrow> if r \<noteq> 0 then (- 1, k) else bounding_loop K rest k)"

definition drop_bounding_capabilities :: "'k cred_kernel \<Rightarrow> 'k \<Rightarrow> int \<times> 'k" where
  "drop_bounding_capabilities K =
     io_call (read_to_string K ''/proc/sys/kernel/cap_last_cap'') (\<lambda>text.
       case Option.bind text (\<lambda>value. from_str_radix 64 10 (trim value)) of
         None \<Rightarrow> io_ret (- 1)
       | Some last_cap \<Rightarrow> bounding_loop K (map of_nat [0..<Suc last_cap]))"

definition set_nondumpable :: "'k cred_kernel \<Rightarrow> 'k \<Rightarrow> (LinuxError + unit) \<times> 'k" where
  "set_nondumpable K =
     io_then (zero_or Privilege (sys_prctl K PR_SET_DUMPABLE 0)) (\<lambda>_.
       zero_or Privilege (sys_prctl K PR_GET_DUMPABLE 0))"

record privilege_snapshot =
  ps_uid :: u32
  ps_gid :: u32
  ps_groups :: "u32 list"
  ps_cap_eff :: u64
  ps_no_new_privs :: bool

definition validate_privilege_snapshot ::
    "privilege_snapshot \<Rightarrow> u32 \<Rightarrow> u32 \<Rightarrow> LinuxError + unit" where
  "validate_privilege_snapshot snapshot uid gid =
     (if uid = 0 \<or> gid = 0 \<or> ps_uid snapshot \<noteq> uid \<or> ps_gid snapshot \<noteq> gid
         \<or> ps_groups snapshot \<noteq> [] \<or> ps_cap_eff snapshot \<noteq> 0 \<or> \<not> ps_no_new_privs snapshot
      then Inl Privilege else Inr ())"

record full_privilege_snapshot =
  fs_uid :: "u32 list"
  fs_gid :: "u32 list"
  fs_groups :: "u32 list"
  fs_capabilities :: "u64 list"
  fs_no_new_privs :: bool

definition validate_full_privilege_snapshot ::
    "full_privilege_snapshot \<Rightarrow> u32 \<Rightarrow> u32 \<Rightarrow> LinuxError + unit" where
  "validate_full_privilege_snapshot snapshot uid gid =
     (if uid = 0 \<or> gid = 0 \<or> fs_uid snapshot \<noteq> replicate 4 uid \<or> fs_gid snapshot \<noteq> replicate 4 gid
         \<or> fs_groups snapshot \<noteq> [] \<or> fs_capabilities snapshot \<noteq> replicate 5 0
         \<or> \<not> fs_no_new_privs snapshot
      then Inl Privilege else Inr ())"

definition capability_labels :: "string list" where
  "capability_labels =
     [''CapEff:'' @ [CHR 0x09], ''CapPrm:'' @ [CHR 0x09], ''CapInh:'' @ [CHR 0x09],
      ''CapAmb:'' @ [CHR 0x09], ''CapBnd:'' @ [CHR 0x09]]"

text \<open>One pass of the loop over the labels of \<open>/proc/self/status\<close>.\<close>

definition capability_of :: "string \<Rightarrow> string \<Rightarrow> u64 option" where
  "capability_of status name =
     map_option of_nat
       (Option.bind (find_map (str_strip_prefix name) (str_lines status))
          (\<lambda>value. from_str_radix 64 16 (trim value)))"

fun capabilities_loop :: "string \<Rightarrow> string list \<Rightarrow> LinuxError + u64 list" where
  "capabilities_loop status [] = Inr []"
| "capabilities_loop status (name # names) =
     and_then (ok_or Privilege (capability_of status name)) (\<lambda>v.
       and_then (capabilities_loop status names) (\<lambda>vs. Inr (v # vs)))"

text \<open>\<open>!0 as uid_t\<close> makes \<open>setfsuid\<close> report the identity and change nothing.\<close>

definition current_full_privilege_snapshot ::
    "'k cred_kernel \<Rightarrow> 'k \<Rightarrow> (LinuxError + full_privilege_snapshot) \<times> 'k" where
  "current_full_privilege_snapshot K =
     io_call (sys_getgroups K 0) (\<lambda>(group_count, _).
       if group_count < 0 then io_ret (Inl Privilege)
       else io_then
         (if group_count \<noteq> 0
          then io_call (sys_getgroups K group_count) (\<lambda>(n, groups).
                 if n \<noteq> group_count then io_ret (Inl Privilege) else io_ret (Inr groups))
          else io_ret (Inr [])) (\<lambda>groups.
       io_call (sys_getresuid K) (\<lambda>(r, u0, u1, u2).
       if r \<noteq> 0 then io_ret (Inl Privilege)
       else io_call (sys_getresgid K) (\<lambda>(r, g0, g1, g2).
       if r \<noteq> 0 then io_ret (Inl Privilege)
       else io_call (sys_setfsuid K 0xFFFFFFFF) (\<lambda>u3.
       io_call (sys_setfsgid K 0xFFFFFFFF) (\<lambda>g3.
       io_call (read_to_string K ''/proc/self/status'') (\<lambda>text.
       case text of
         None \<Rightarrow> io_ret (Inl Privilege)
       | Some status \<Rightarrow>
         (case capabilities_loop status capability_labels of
            Inl e \<Rightarrow> io_ret (Inl e)
          | Inr capabilities \<Rightarrow>
            io_call (sys_prctl K PR_GET_NO_NEW_PRIVS 0) (\<lambda>no_new_privs.
            if no_new_privs < 0 then io_ret (Inl Privilege)
            else io_ret (Inr \<lparr>fs_uid = [u0, u1, u2, u3], fs_gid = [g0, g1, g2, g3],
                   fs_groups = groups, fs_capabilities = capabilities,
                   fs_no_new_privs = (no_new_privs = 1)\<rparr>))))))))))"

definition drop_privileges ::
    "'k cred_kernel \<Rightarrow> u32 \<Rightarrow> u32 \<Rightarrow> 'k \<Rightarrow> (LinuxError + unit) \<times> 'k" where
  "drop_privileges K uid gid =
     (if uid = 0 \<or> gid = 0 then io_ret (Inl Privilege)
      else
        io_then (zero_or Privilege (drop_bounding_capabilities K)) (\<lambda>_.
        io_then (zero_or Privilege (sys_setgroups K [])) (\<lambda>_.
        io_then (zero_or Privilege (sys_setresgid K gid gid gid)) (\<lambda>_.
        io_then (zero_or Privilege (sys_setresuid K uid uid uid)) (\<lambda>_.
        io_then (zero_or Privilege (sys_capset K \<lparr>cap_version = CAPSET_VERSION_3, cap_pid = 0\<rparr>
          [CapUserData_default, CapUserData_default])) (\<lambda>_.
        io_then (zero_or Privilege (sys_prctl K PR_CAP_AMBIENT PR_CAP_AMBIENT_CLEAR_ALL)) (\<lambda>_.
        io_then (zero_or Privilege (sys_prctl K PR_SET_NO_NEW_PRIVS 1)) (\<lambda>_.
        io_then (set_nondumpable K) (\<lambda>_.
        io_then (current_full_privilege_snapshot K) (\<lambda>snapshot.
        io_ret (validate_full_privilege_snapshot snapshot uid gid)))))))))))"

section \<open>The sealed manifest\<close>

text \<open>\<open>libc\<close>'s seal flags and the flags of \<open>memfd_create\<close>.\<close>

definition REQUIRED_SEALS :: int where
  "REQUIRED_SEALS = 0x1 OR 0x2 OR 0x4 OR 0x8"

definition MFD_FLAGS :: int where
  "MFD_FLAGS = 0x1 OR 0x2"

text \<open>
  \<open>sys_pread\<close> takes the room left and the offset and returns the bytes it stored. The name of
  the file has no zero byte, so \<open>CString::new\<close> does not fail.
\<close>

record 'k memfd_kernel =
  sys_memfd_create :: "string \<Rightarrow> int \<Rightarrow> 'k \<Rightarrow> int \<times> 'k"
  sys_write :: "int \<Rightarrow> bytes \<Rightarrow> 'k \<Rightarrow> int \<times> 'k"
  sys_add_seals :: "int \<Rightarrow> int \<Rightarrow> 'k \<Rightarrow> int \<times> 'k"
  sys_get_seals :: "int \<Rightarrow> 'k \<Rightarrow> int \<times> 'k"
  sys_fstat_size :: "int \<Rightarrow> 'k \<Rightarrow> int option \<times> 'k"
  sys_pread :: "int \<Rightarrow> nat \<Rightarrow> nat \<Rightarrow> 'k \<Rightarrow> (int \<times> bytes) \<times> 'k"
  sys_close :: "int \<Rightarrow> 'k \<Rightarrow> 'k"

text \<open>An \<open>OwnedFd\<close> is closed when the function that holds it returns an error.\<close>

definition owning :: "(int \<Rightarrow> 'k \<Rightarrow> 'k) \<Rightarrow> int \<Rightarrow> ('k \<Rightarrow> ('e + 'a) \<times> 'k) \<Rightarrow> 'k \<Rightarrow> ('e + 'a) \<times> 'k" where
  "owning close fd m k = (case m k of (Inl e, k) \<Rightarrow> (Inl e, close fd k) | (Inr x, k) \<Rightarrow> (Inr x, k))"

definition verify_immutable_manifest :: "'k memfd_kernel \<Rightarrow> int \<Rightarrow> 'k \<Rightarrow> (LinuxError + unit) \<times> 'k" where
  "verify_immutable_manifest K fd =
     io_call (sys_get_seals K fd) (\<lambda>seals.
       io_ret (if seals < 0 \<or> seals AND REQUIRED_SEALS \<noteq> REQUIRED_SEALS then Inl Manifest
               else Inr ()))"

function write_loop ::
    "'k memfd_kernel \<Rightarrow> int \<Rightarrow> bytes \<Rightarrow> nat \<Rightarrow> 'k \<Rightarrow> (LinuxError + unit) \<times> 'k" where
  "write_loop K fd bs offset k =
     (if offset < length bs then
        (case sys_write K fd (drop offset bs) k of
           (written, k) \<Rightarrow>
             if written \<le> 0 then (Inl Manifest, k)
             else write_loop K fd bs (offset + nat written) k)
      else (Inr (), k))"
  by pat_completeness auto
termination by (relation "measure (\<lambda>(K, fd, bs, offset, k). length bs - offset)") auto

declare write_loop.simps [simp del]

definition create_immutable_manifest ::
    "'k memfd_kernel \<Rightarrow> bytes \<Rightarrow> 'k \<Rightarrow> (LinuxError + int) \<times> 'k" where
  "create_immutable_manifest K bs =
     io_call (sys_memfd_create K ''r8-manifest'' MFD_FLAGS) (\<lambda>fd.
       if fd < 0 then io_ret (Inl Manifest)
       else owning (sys_close K) fd
         (io_then (write_loop K fd bs 0) (\<lambda>_.
          io_then (zero_or Manifest (sys_add_seals K fd REQUIRED_SEALS)) (\<lambda>_.
          io_then (verify_immutable_manifest K fd) (\<lambda>_. io_ret (Inr fd))))))"

function read_loop ::
    "'k memfd_kernel \<Rightarrow> int \<Rightarrow> bytes \<Rightarrow> nat \<Rightarrow> 'k \<Rightarrow> (LinuxError + bytes) \<times> 'k" where
  "read_loop K fd bs offset k =
     (if offset < length bs then
        (case sys_pread K fd (length bs - offset) offset k of
           ((n, got), k) \<Rightarrow>
             if n \<le> 0 then (Inl Manifest, k)
             else read_loop K fd (copy_at offset (take (length bs - offset) got) bs)
                    (offset + nat n) k)
      else (Inr bs, k))"
  by pat_completeness auto
termination by (relation "measure (\<lambda>(K, fd, bs, offset, k). length bs - offset)") auto

declare read_loop.simps [simp del]

definition read_immutable_manifest :: "'k memfd_kernel \<Rightarrow> int \<Rightarrow> 'k \<Rightarrow> (LinuxError + bytes) \<times> 'k" where
  "read_immutable_manifest K fd =
     io_then (verify_immutable_manifest K fd) (\<lambda>_.
     io_call (sys_fstat_size K fd) (\<lambda>st_size.
       case st_size of
         None \<Rightarrow> io_ret (Inl Manifest)
       | Some n \<Rightarrow>
         if n < 0 then io_ret (Inl Manifest)
         else read_loop K fd (replicate (nat n) 0) 0))"

section \<open>A reported drop is a drop\<close>

text \<open>
  The credentials the kernel keeps for the process: real, effective, saved and file-system ids,
  supplementary groups, the five capability sets in the order of \<open>capability_labels\<close>, and the
  two flags.
\<close>

record creds =
  cr_uid :: "u32 list"
  cr_gid :: "u32 list"
  cr_groups :: "u32 list"
  cr_capabilities :: "u64 list"
  cr_no_new_privs :: bool
  cr_dumpable :: int

text \<open>
  What the launcher relies on, per the manual pages: the calls that report credentials report
  the ones the kernel has, and leave them alone. Nothing is said of the calls that set them.
\<close>

definition status_reports :: "string \<Rightarrow> u64 list \<Rightarrow> bool" where
  "status_reports text caps \<longleftrightarrow>
     map (\<lambda>name. find_map (str_strip_prefix name) (str_lines text)) capability_labels =
     map (\<lambda>c. Some (hex_field False 16 (unat c))) caps"

definition cred_laws :: "'k cred_kernel \<Rightarrow> ('k \<Rightarrow> creds) \<Rightarrow> bool" where
  "cred_laws K cr \<longleftrightarrow>
     (\<forall>k n gs k'. sys_getgroups K 0 k = ((n, gs), k') \<longrightarrow>
        cr k' = cr k \<and> (n < 0 \<or> n = int (length (cr_groups (cr k)))))
     \<and> (\<forall>k n m gs k'. sys_getgroups K n k = ((m, gs), k') \<longrightarrow> n \<noteq> 0 \<longrightarrow>
        cr k' = cr k \<and> (m < 0 \<or> gs = cr_groups (cr k)))
     \<and> (\<forall>k u0 u1 u2 k'. sys_getresuid K k = ((0, u0, u1, u2), k') \<longrightarrow>
        cr k' = cr k \<and> [u0, u1, u2] = take 3 (cr_uid (cr k)))
     \<and> (\<forall>k g0 g1 g2 k'. sys_getresgid K k = ((0, g0, g1, g2), k') \<longrightarrow>
        cr k' = cr k \<and> [g0, g1, g2] = take 3 (cr_gid (cr k)))
     \<and> (\<forall>k u k'. sys_setfsuid K 0xFFFFFFFF k = (u, k') \<longrightarrow> cr k' = cr k \<and> [u] = drop 3 (cr_uid (cr k)))
     \<and> (\<forall>k g k'. sys_setfsgid K 0xFFFFFFFF k = (g, k') \<longrightarrow> cr k' = cr k \<and> [g] = drop 3 (cr_gid (cr k)))
     \<and> (\<forall>k text k'. read_to_string K ''/proc/self/status'' k = (Some text, k') \<longrightarrow>
        cr k' = cr k \<and> status_reports text (cr_capabilities (cr k)))
     \<and> (\<forall>k r k'. sys_prctl K PR_GET_NO_NEW_PRIVS 0 k = (r, k') \<longrightarrow>
        cr k' = cr k \<and> (r = 1 \<longrightarrow> cr_no_new_privs (cr k)))
     \<and> (\<forall>k r k'. sys_prctl K PR_GET_DUMPABLE 0 k = (r, k') \<longrightarrow>
        cr k' = cr k \<and> (r = 0 \<longrightarrow> cr_dumpable (cr k) = 0))"

lemma cred_lawsD:
  assumes "cred_laws K cr"
  shows "sys_getgroups K 0 k = ((n, gs), k') \<Longrightarrow>
      cr k' = cr k \<and> (n < 0 \<or> n = int (length (cr_groups (cr k))))"
    and "sys_getgroups K n k = ((m, gs), k') \<Longrightarrow> n \<noteq> 0 \<Longrightarrow>
      cr k' = cr k \<and> (m < 0 \<or> gs = cr_groups (cr k))"
    and "sys_getresuid K k = ((0, u0, u1, u2), k') \<Longrightarrow>
      cr k' = cr k \<and> take 3 (cr_uid (cr k)) = [u0, u1, u2]"
    and "sys_getresgid K k = ((0, u0, u1, u2), k') \<Longrightarrow>
      cr k' = cr k \<and> take 3 (cr_gid (cr k)) = [u0, u1, u2]"
    and "sys_setfsuid K 0xFFFFFFFF k = (u0, k') \<Longrightarrow> cr k' = cr k \<and> drop 3 (cr_uid (cr k)) = [u0]"
    and "sys_setfsgid K 0xFFFFFFFF k = (u0, k') \<Longrightarrow> cr k' = cr k \<and> drop 3 (cr_gid (cr k)) = [u0]"
    and "read_to_string K ''/proc/self/status'' k = (Some st, k') \<Longrightarrow>
      cr k' = cr k \<and> status_reports st (cr_capabilities (cr k))"
    and "sys_prctl K PR_GET_NO_NEW_PRIVS 0 k = (m, k') \<Longrightarrow>
      cr k' = cr k \<and> (m = 1 \<longrightarrow> cr_no_new_privs (cr k))"
    and "sys_prctl K PR_GET_DUMPABLE 0 k = (m, k') \<Longrightarrow>
      cr k' = cr k \<and> (m = 0 \<longrightarrow> cr_dumpable (cr k) = 0)"
  using assms unfolding cred_laws_def by metis+

lemma capabilities_loop_map:
  "capabilities_loop status names = Inr vs \<longleftrightarrow> map (capability_of status) names = map Some vs"
  by (induction names arbitrary: vs) (auto simp: and_then_Inr Cons_eq_map_conv map_eq_Cons_conv)

lemma capability_of_reported:
  "find_map (str_strip_prefix name) (str_lines text) = Some (hex_field False 16 (unat (c :: u64)))
     \<Longrightarrow> capability_of text name = Some c"
proof -
  have c: "unat c < 2 ^ 64" using unsigned_less [of c] by simp
  have "trim (hex_field False 16 (unat c)) = hex_field False 16 (unat c)" by (rule trim_graphic) simp
  moreover have "from_str_radix 64 16 (hex_field False 16 (unat c)) = Some (unat c)"
    by (rule from_str_radix_hex) (use c in simp_all)
  moreover assume "find_map (str_strip_prefix name) (str_lines text) = Some (hex_field False 16 (unat c))"
  ultimately show ?thesis by (simp add: capability_of_def)
qed

lemma capabilities_reported:
  assumes "status_reports st caps"
  shows "capabilities_loop st capability_labels = Inr caps"
  unfolding capabilities_loop_map
proof (rule nth_equalityI)
  from assms show l: "length (map (capability_of st) capability_labels) = length (map Some caps)"
    by (auto simp: status_reports_def dest: map_eq_imp_length_eq)
  fix i assume i: "i < length (map (capability_of st) capability_labels)"
  with l assms have "find_map (str_strip_prefix (capability_labels ! i)) (str_lines st)
      = Some (hex_field False 16 (unat (caps ! i)))"
    unfolding status_reports_def by (metis (no_types, lifting) length_map nth_map)
  from capability_of_reported [OF this] i l
  show "map (capability_of st) capability_labels ! i = map Some caps ! i" by simp
qed

lemma split_at_3: "take 3 xs = [a, b, c] \<Longrightarrow> drop 3 xs = [d] \<Longrightarrow> xs = [a, b, c, d]"
  by (metis append_take_drop_id append_Cons append_Nil)

lemma snapshot_reports:
  assumes "cred_laws K cr" "current_full_privilege_snapshot K k = (Inr s, k')"
  shows "cr k' = cr k \<and> fs_uid s = cr_uid (cr k) \<and> fs_gid s = cr_gid (cr k)
    \<and> fs_groups s = cr_groups (cr k) \<and> fs_capabilities s = cr_capabilities (cr k)
    \<and> (fs_no_new_privs s \<longrightarrow> cr_no_new_privs (cr k))"
proof -
  from assms(2) obtain n gs0 k1 gs k2 u0 u1 u2 k3 g0 g1 g2 k4 u3 k5 g3 k6 st k7 caps r where
    calls: "sys_getgroups K 0 k = ((n, gs0), k1)" "\<not> n < 0"
      "(if n \<noteq> 0 then io_call (sys_getgroups K n) (\<lambda>(m, groups).
           if m \<noteq> n then io_ret (Inl Privilege) else io_ret (Inr groups)) else io_ret (Inr [])) k1
         = (Inr gs, k2)"
      "sys_getresuid K k2 = ((0, u0, u1, u2), k3)" "sys_getresgid K k3 = ((0, g0, g1, g2), k4)"
      "sys_setfsuid K 0xFFFFFFFF k4 = (u3, k5)" "sys_setfsgid K 0xFFFFFFFF k5 = (g3, k6)"
      "read_to_string K ''/proc/self/status'' k6 = (Some st, k7)"
      "capabilities_loop st capability_labels = Inr caps"
      "sys_prctl K PR_GET_NO_NEW_PRIVS 0 k7 = (r, k')"
    and s: "s = \<lparr>fs_uid = [u0, u1, u2, u3], fs_gid = [g0, g1, g2, g3], fs_groups = gs,
      fs_capabilities = caps, fs_no_new_privs = (r = 1)\<rparr>"
    unfolding current_full_privilege_snapshot_def
    by (auto simp: io_simps split: prod.splits)
  have k1: "cr k1 = cr k" "n = int (length (cr_groups (cr k)))"
    using cred_lawsD(1) [OF assms(1) calls(1)] calls(2) by auto
  have k2: "cr k2 = cr k" "gs = cr_groups (cr k)"
  proof -
    have "cr k2 = cr k \<and> gs = cr_groups (cr k)"
    proof (cases "n = 0")
      case True
      with calls(3) k1 show ?thesis by auto
    next
      case False
      with calls(3) have "sys_getgroups K n k1 = ((n, gs), k2)"
        by (auto simp: io_simps split: if_splits prod.splits)
      from cred_lawsD(2) [OF assms(1) this False] calls(2) k1(1) show ?thesis by simp
    qed
    then show "cr k2 = cr k" "gs = cr_groups (cr k)" by auto
  qed
  note k3 = cred_lawsD(3) [OF assms(1) calls(4), unfolded k2]
  note k4 = cred_lawsD(4) [OF assms(1) calls(5), unfolded k3 [THEN conjunct1]]
  note k5 = cred_lawsD(5) [OF assms(1) calls(6), unfolded k4 [THEN conjunct1]]
  note k6 = cred_lawsD(6) [OF assms(1) calls(7), unfolded k5 [THEN conjunct1]]
  note k7 = cred_lawsD(7) [OF assms(1) calls(8), unfolded k6 [THEN conjunct1]]
  note k8 = cred_lawsD(8) [OF assms(1) calls(10), unfolded k7 [THEN conjunct1]]
  show ?thesis
    using split_at_3 [OF k3 [THEN conjunct2] k5 [THEN conjunct2]]
      split_at_3 [OF k4 [THEN conjunct2] k6 [THEN conjunct2]]
      capabilities_reported [OF k7 [THEN conjunct2]] calls(9) k2(2) k8
    by (simp add: s)
qed

lemma drop_laws:
  assumes "cred_laws K cr" "drop_privileges K uid gid k = (Inr (), k')"
  shows "uid \<noteq> 0 \<and> gid \<noteq> 0 \<and>
    cr k' = \<lparr>cr_uid = replicate 4 uid, cr_gid = replicate 4 gid, cr_groups = [],
             cr_capabilities = replicate 5 0, cr_no_new_privs = True, cr_dumpable = 0\<rparr>"
proof -
  from assms(2) obtain k0 k1 s where
    steps: "set_nondumpable K k0 = (Inr (), k1)" "current_full_privilege_snapshot K k1 = (Inr s, k')"
    and valid: "validate_full_privilege_snapshot s uid gid = Inr ()"
    and nz: "uid \<noteq> 0" "gid \<noteq> 0"
    unfolding drop_privileges_def by (auto simp: io_then_Inr split: if_splits)
  from steps(1) obtain k00 where "sys_prctl K PR_GET_DUMPABLE 0 k00 = (0, k1)"
    by (auto simp: set_nondumpable_def io_simps)
  from cred_lawsD(9) [OF assms(1) this] have d: "cr_dumpable (cr k1) = 0" by simp
  note snap = snapshot_reports [OF assms(1) steps(2)]
  from valid have "fs_uid s = replicate 4 uid" "fs_gid s = replicate 4 gid" "fs_groups s = []"
    "fs_capabilities s = replicate 5 0" "fs_no_new_privs s"
    by (auto simp: validate_full_privilege_snapshot_def split: if_splits)
  with snap d nz show ?thesis by (simp add: creds.equality)
qed

text \<open>
  C21: A reported drop is a drop. If \<open>drop_privileges\<close> returns success, then the process holds
  no privilege: all four user ids and all four group ids are the requested non-zero ones, there
  is no supplementary group, all five capability sets are empty, \<open>no_new_privs\<close> is set and the
  process is not dumpable. Only the calls that report credentials are trusted: the calls that
  change them may do anything, and a failure of theirs cannot be reported as success.
\<close>

theorem drop_privileges_sound:
  assumes "cred_laws K cr" "drop_privileges K uid gid k = (Inr (), k')"
  shows "uid \<noteq> 0 \<and> gid \<noteq> 0 \<and>
    cr k' = \<lparr>cr_uid = replicate 4 uid, cr_gid = replicate 4 gid, cr_groups = [],
             cr_capabilities = replicate 5 0, cr_no_new_privs = True, cr_dumpable = 0\<rparr>"
  using assms by (rule drop_laws)

subsection \<open>A kernel with the documented permission rules\<close>

text \<open>
  For the witness: user ids, group ids, groups, the five capability sets and the two flags,
  with the setters guarded by the capabilities their manual pages name (\<open>CAP_SETGID\<close> 6,
  \<open>CAP_SETUID\<close> 7, \<open>CAP_SETPCAP\<close> 8), and \<open>setresuid\<close> away from root clearing the sets.
\<close>

type_synonym sample_proc =
  "(u32 \<times> u32 \<times> u32 \<times> u32) \<times> (u32 \<times> u32 \<times> u32 \<times> u32) \<times> u32 list
   \<times> (u64 \<times> u64 \<times> u64 \<times> u64 \<times> u64) \<times> bool \<times> int"

definition sample_creds :: "sample_proc \<Rightarrow> creds" where
  "sample_creds p =
     (case p of ((u0, u1, u2, u3), (g0, g1, g2, g3), gs, (eff, prm, inh, amb, bnd), nnp, dump) \<Rightarrow>
        \<lparr>cr_uid = [u0, u1, u2, u3], cr_gid = [g0, g1, g2, g3], cr_groups = gs,
         cr_capabilities = [eff, prm, inh, amb, bnd], cr_no_new_privs = nnp, cr_dumpable = dump\<rparr>)"

definition sample_status :: "u64 \<times> u64 \<times> u64 \<times> u64 \<times> u64 \<Rightarrow> string" where
  "sample_status c =
     (case c of (eff, prm, inh, amb, bnd) \<Rightarrow>
        concat (map (\<lambda>l. l @ [CHR 0x0A])
          [''Name:'' @ [CHR 0x09] @ ''r8-native'',
           ''CapInh:'' @ [CHR 0x09] @ hex_field False 16 (unat inh),
           ''CapPrm:'' @ [CHR 0x09] @ hex_field False 16 (unat prm),
           ''CapEff:'' @ [CHR 0x09] @ hex_field False 16 (unat eff),
           ''CapBnd:'' @ [CHR 0x09] @ hex_field False 16 (unat bnd),
           ''CapAmb:'' @ [CHR 0x09] @ hex_field False 16 (unat amb),
           ''NoNewPrivs:'' @ [CHR 0x09] @ ''0'']))"

definition sample_prctl :: "int \<Rightarrow> u64 \<Rightarrow> sample_proc \<Rightarrow> int \<times> sample_proc" where
  "sample_prctl opn arg p =
     (case p of (u, g, gs, (eff, prm, inh, amb, bnd), nnp, dump) \<Rightarrow>
        if opn = 24 then
          if bit eff 8 then (0, u, g, gs, (eff, prm, inh, amb, bnd AND NOT (push_bit (unat arg) 1)), nnp, dump)
          else (- 1, p)
        else if opn = 47 then (0, u, g, gs, (eff, prm, inh, 0, bnd), nnp, dump)
        else if opn = 38 then (0, u, g, gs, (eff, prm, inh, amb, bnd), True, dump)
        else if opn = 39 then (if nnp then 1 else 0, p)
        else if opn = 4 then (0, u, g, gs, (eff, prm, inh, amb, bnd), nnp, int (unat arg))
        else if opn = 3 then (dump, p)
        else (- 1, p))"

definition sample_cred_kernel :: "sample_proc cred_kernel" where
  "sample_cred_kernel =
     \<lparr>read_to_string = (\<lambda>path p.
        (if path = ''/proc/self/status'' then Some (sample_status (fst (snd (snd (snd p)))))
         else if path = ''/proc/sys/kernel/cap_last_cap'' then Some (''2'' @ [CHR 0x0A]) else None, p)),
      sys_prctl = sample_prctl,
      sys_setgroups = (\<lambda>gs (u, g, old, (eff, rest), fl).
        if bit eff 6 then (0, u, g, gs, (eff, rest), fl) else (- 1, u, g, old, (eff, rest), fl)),
      sys_setresgid = (\<lambda>r e s (u, g, gs, (eff, rest), fl).
        if bit eff 6 then (0, u, (r, e, s, e), gs, (eff, rest), fl)
        else (- 1, u, g, gs, (eff, rest), fl)),
      sys_setresuid = (\<lambda>r e s (u, g, gs, (eff, prm, inh, amb, bnd), fl).
        if bit eff 7 then (0, (r, e, s, e), g, gs, (0, 0, inh, 0, bnd), fl)
        else (- 1, u, g, gs, (eff, prm, inh, amb, bnd), fl)),
      sys_capset = (\<lambda>h d (u, g, gs, (eff, prm, inh, amb, bnd), fl).
        if h = \<lparr>cap_version = CAPSET_VERSION_3, cap_pid = 0\<rparr>
           \<and> d = [CapUserData_default, CapUserData_default]
        then (0, u, g, gs, (0, 0, 0, amb, bnd), fl)
        else (- 1, u, g, gs, (eff, prm, inh, amb, bnd), fl)),
      sys_getgroups = (\<lambda>n p. ((int (length (fst (snd (snd p)))), fst (snd (snd p))), p)),
      sys_getresuid = (\<lambda>p. ((0, fst (fst p), fst (snd (fst p)), fst (snd (snd (fst p)))), p)),
      sys_getresgid = (\<lambda>p.
        ((0, fst (fst (snd p)), fst (snd (fst (snd p))), fst (snd (snd (fst (snd p))))), p)),
      sys_setfsuid = (\<lambda>_ p. (snd (snd (snd (fst p))), p)),
      sys_setfsgid = (\<lambda>_ p. (snd (snd (snd (fst (snd p)))), p))\<rparr>"

lemma graphic_no_newline: "graphic s \<Longrightarrow> CHR 0x0A \<notin> set s"
  by (auto simp: graphic_def list_all_iff ascii_simps)

lemma graphic_strip_cr: "graphic (s @ t) \<Longrightarrow> t \<noteq> [] \<Longrightarrow> strip_cr (u @ t) = u @ t"
proof -
  assume "graphic (s @ t)" "t \<noteq> []"
  then have "is_ascii_graphic (last t)" by (simp add: graphic_def list_all_iff)
  then have "last t \<noteq> CHR 0x0D" by (auto simp: ascii_simps)
  with \<open>t \<noteq> []\<close> show ?thesis by (simp add: strip_cr_def)
qed

lemma hex_field_line:
  "CHR 0x0A \<notin> set (hex_field u n v)" "0 < n \<Longrightarrow> strip_cr (p @ hex_field u n v) = p @ hex_field u n v"
proof -
  show "CHR 0x0A \<notin> set (hex_field u n v)" by (simp add: graphic_no_newline)
  assume "0 < n"
  then have "hex_field u n v \<noteq> []" by (cases n) simp_all
  then show "strip_cr (p @ hex_field u n v) = p @ hex_field u n v"
    using graphic_strip_cr [of "[]" "hex_field u n v" p] by simp
qed

lemma sample_status_reports:
  "status_reports (sample_status (eff, prm, inh, amb, bnd)) [eff, prm, inh, amb, bnd]"
proof -
  have "str_lines (sample_status (eff, prm, inh, amb, bnd)) =
      [''Name:'' @ [CHR 0x09] @ ''r8-native'',
       ''CapInh:'' @ [CHR 0x09] @ hex_field False 16 (unat inh),
       ''CapPrm:'' @ [CHR 0x09] @ hex_field False 16 (unat prm),
       ''CapEff:'' @ [CHR 0x09] @ hex_field False 16 (unat eff),
       ''CapBnd:'' @ [CHR 0x09] @ hex_field False 16 (unat bnd),
       ''CapAmb:'' @ [CHR 0x09] @ hex_field False 16 (unat amb),
       ''NoNewPrivs:'' @ [CHR 0x09] @ ''0'']" (is "_ = ?ls")
    unfolding sample_status_def prod.case
    by (rule str_lines_concat)
      (use hex_field_line(1) [of False 16] hex_field_line(2) [of 16 "''Cap'' @ c # d # e # '':'' @ [CHR 0x09]" for c d e]
       in \<open>simp add: strip_cr_def [of "_ # _ # _ # _ # _ # CHR 0x09 # _"] strip_cr_def [of "CHR ''N'' # _"]\<close>)
  then show ?thesis
    by (simp add: status_reports_def capability_labels_def str_strip_prefix_def)
qed

lemma sample_cred_laws: "cred_laws sample_cred_kernel sample_creds"
  unfolding cred_laws_def sample_cred_kernel_def
  by (auto simp: sample_creds_def sample_prctl_def PR_GET_NO_NEW_PRIVS_def PR_GET_DUMPABLE_def
      sample_status_reports split: prod.splits if_splits)

lemma replicate_4_5: "replicate 4 x = [x, x, x, x]" "replicate 5 x = [x, x, x, x, x]"
  by (simp_all add: numeral_eq_Suc)

lemmas pr_simps = PR_SET_NO_NEW_PRIVS_def PR_GET_NO_NEW_PRIVS_def PR_CAP_AMBIENT_def
  PR_CAP_AMBIENT_CLEAR_ALL_def PR_SET_DUMPABLE_def PR_GET_DUMPABLE_def PR_CAPBSET_DROP_def

definition root_process :: sample_proc where
  "root_process = ((0, 0, 0, 0), (0, 0, 0, 0), [0, 27], (0x1C7, 0x1C7, 0, 0, 0x7), False, 1)"

lemma sample_last_cap: "from_str_radix 64 10 (trim [CHR ''2'', CHR 0x0A]) = Some 2"
  using trim_word_newline [of "''2''"] by (simp add: ascii_simps from_str_radix_def to_digit_def)

theorem drop_privileges_sound_witness:
  "cred_laws sample_cred_kernel sample_creds
   \<and> fst (drop_privileges sample_cred_kernel 1000 1001 root_process) = Inr ()
   \<and> sample_creds (snd (drop_privileges sample_cred_kernel 1000 1001 root_process)) =
       \<lparr>cr_uid = replicate 4 1000, cr_gid = replicate 4 1001, cr_groups = [],
        cr_capabilities = replicate 5 0, cr_no_new_privs = True, cr_dumpable = 0\<rparr>"
proof -
  have run: "fst (drop_privileges sample_cred_kernel 1000 1001 root_process) = Inr ()"
    by (simp add: drop_privileges_def drop_bounding_capabilities_def set_nondumpable_def
        current_full_privilege_snapshot_def io_then_def io_call_def zero_or_def root_process_def
        sample_cred_kernel_def sample_prctl_def pr_simps sample_last_cap upt_rec replicate_4_5
        capabilities_reported [OF sample_status_reports] validate_full_privilege_snapshot_def)
  have "drop_privileges sample_cred_kernel 1000 1001 root_process =
      (Inr (), snd (drop_privileges sample_cred_kernel 1000 1001 root_process))"
    by (simp only: run [symmetric] prod.collapse)
  from drop_privileges_sound [OF sample_cred_laws this] run sample_cred_laws show ?thesis by simp
qed

section \<open>A sealed manifest reads back\<close>

text \<open>
  What the launcher relies on of memory files, per \<open>memfd_create(2)\<close>, \<open>write(2)\<close>,
  \<open>fcntl(2)\<close> and \<open>pread(2)\<close>; \<open>file k fd\<close> is the content and the seals of an open one. A
  \<open>write\<close> appends because the launcher never moves the position of the file it created.
\<close>

definition memfd_laws :: "'k memfd_kernel \<Rightarrow> ('k \<Rightarrow> int \<Rightarrow> (bytes \<times> int) option) \<Rightarrow> bool" where
  "memfd_laws K file \<longleftrightarrow>
     (\<forall>name flags k fd k'. sys_memfd_create K name flags k = (fd, k') \<longrightarrow>
        (if fd < 0 then file k' = file k else file k fd = None \<and> file k' = (file k)(fd \<mapsto> ([], 0))))
     \<and> (\<forall>fd bs k n k' content seals. sys_write K fd bs k = (n, k') \<longrightarrow> file k fd = Some (content, seals) \<longrightarrow>
        (if n \<le> 0 then file k' = file k
         else n \<le> int (length bs) \<and> file k' = (file k)(fd \<mapsto> (content @ take (nat n) bs, seals))))
     \<and> (\<forall>fd new k r k' content seals. sys_add_seals K fd new k = (r, k') \<longrightarrow> file k fd = Some (content, seals) \<longrightarrow>
        (if r \<noteq> 0 then file k' = file k else file k' = (file k)(fd \<mapsto> (content, seals OR new))))
     \<and> (\<forall>fd k r k'. sys_get_seals K fd k = (r, k') \<longrightarrow> file k' = file k)
     \<and> (\<forall>fd k n k' content seals. sys_fstat_size K fd k = (Some n, k') \<longrightarrow> file k fd = Some (content, seals) \<longrightarrow>
        n = int (length content))
     \<and> (\<forall>fd k n k'. sys_fstat_size K fd k = (n, k') \<longrightarrow> file k' = file k)
     \<and> (\<forall>fd room off k n got k' content seals.
        sys_pread K fd room off k = ((n, got), k') \<longrightarrow> file k fd = Some (content, seals) \<longrightarrow>
        file k' = file k \<and>
        (0 < n \<longrightarrow> n \<le> int room \<and> int off + n \<le> int (length content)
            \<and> got = take (nat n) (drop off content)))
     \<and> (\<forall>fd k. file (sys_close K fd k) = (file k)(fd := None))"

text \<open>
  Memory files do not run out in the middle: a write or a read inside the file makes progress,
  and a seal is added and reported.
\<close>

definition memfd_progress :: "'k memfd_kernel \<Rightarrow> ('k \<Rightarrow> int \<Rightarrow> (bytes \<times> int) option) \<Rightarrow> bool" where
  "memfd_progress K file \<longleftrightarrow>
     (\<forall>name flags k. 0 \<le> fst (sys_memfd_create K name flags k))
     \<and> (\<forall>fd bs k. file k fd \<noteq> None \<longrightarrow> bs \<noteq> [] \<longrightarrow> 0 < fst (sys_write K fd bs k))
     \<and> (\<forall>fd new k. file k fd \<noteq> None \<longrightarrow> fst (sys_add_seals K fd new k) = 0)
     \<and> (\<forall>fd k content seals. file k fd = Some (content, seals) \<longrightarrow> fst (sys_get_seals K fd k) = seals)
     \<and> (\<forall>fd k content seals. file k fd = Some (content, seals) \<longrightarrow>
          fst (sys_fstat_size K fd k) = Some (int (length content)))
     \<and> (\<forall>fd room off k content seals. file k fd = Some (content, seals) \<longrightarrow> off < length content \<longrightarrow>
          0 < room \<longrightarrow> 0 < fst (fst (sys_pread K fd room off k)))"

lemma memfd_lawsD:
  assumes "memfd_laws K file"
  shows "sys_memfd_create K name flags k = (fd, k') \<Longrightarrow>
      (if fd < 0 then file k' = file k else file k fd = None \<and> file k' = (file k)(fd \<mapsto> ([], 0)))"
    and "sys_write K fd bs k = (n, k') \<Longrightarrow> file k fd = Some (content, seals) \<Longrightarrow>
      (if n \<le> 0 then file k' = file k
       else n \<le> int (length bs) \<and> file k' = (file k)(fd \<mapsto> (content @ take (nat n) bs, seals)))"
    and "sys_add_seals K fd n k = (r, k') \<Longrightarrow> file k fd = Some (content, seals) \<Longrightarrow>
      (if r \<noteq> 0 then file k' = file k else file k' = (file k)(fd \<mapsto> (content, seals OR n)))"
    and "sys_get_seals K fd k = (n, k') \<Longrightarrow> file k' = file k"
    and "sys_fstat_size K fd k = (Some n, k') \<Longrightarrow> file k fd = Some (content, seals) \<Longrightarrow>
      n = int (length content)"
    and "sys_fstat_size K fd k = (sz, k') \<Longrightarrow> file k' = file k"
    and "sys_pread K fd room off k = ((n, got), k') \<Longrightarrow> file k fd = Some (content, seals) \<Longrightarrow>
      file k' = file k \<and> (0 < n \<longrightarrow> n \<le> int room \<and> int off + n \<le> int (length content)
        \<and> got = take (nat n) (drop off content))"
    and "file (sys_close K fd k) = (file k)(fd := None)"
  using assms unfolding memfd_laws_def by metis+

lemma write_loop_laws:
  "memfd_laws K file \<Longrightarrow> write_loop K fd bs offset k = (r, k') \<Longrightarrow>
    file k fd = Some (take offset bs, seals) \<Longrightarrow>
    \<exists>m. file k' = (file k)(fd \<mapsto> (take m bs, seals)) \<and> (r = Inr () \<and> length bs \<le> m \<or>
          r = Inl Manifest \<and> \<not> memfd_progress K file)"
proof (induction K fd bs offset k rule: write_loop.induct)
  case (1 K fd bs offset k)
  show ?case
  proof (cases "offset < length bs")
    case False
    with "1.prems" show ?thesis
      by (intro exI [of _ offset]) (auto simp: write_loop.simps fun_upd_idem)
  next
    case True
    obtain n k1 where w: "sys_write K fd (drop offset bs) k = (n, k1)" by force
    note law = memfd_lawsD(2) [OF "1.prems"(1) w "1.prems"(3)]
    show ?thesis
    proof (cases "n \<le> 0")
      case neg: True
      have "memfd_progress K file \<Longrightarrow> 0 < n"
        using True "1.prems"(3) w unfolding memfd_progress_def by (metis drop_eq_Nil fst_conv not_less option.distinct(1))
      with neg law True w "1.prems" show ?thesis
        by (intro exI [of _ offset]) (auto simp: write_loop.simps fun_upd_idem)
    next
      case False
      have step: "write_loop K fd bs (offset + nat n) k1 = (r, k')"
        using "1.prems"(2) True False w by (simp add: write_loop.simps [of K fd bs offset])
      have k1: "file k1 = (file k)(fd \<mapsto> (take (offset + nat n) bs, seals))"
        using law False by (simp add: take_add)
      then have "file k1 fd = Some (take (offset + nat n) bs, seals)" by simp
      from "1.IH" [OF True w [symmetric] False "1.prems"(1) step this] obtain m where m: "file k' = (file k1)(fd \<mapsto> (take m bs, seals))"
        "r = Inr () \<and> length bs \<le> m \<or> r = Inl Manifest \<and> \<not> memfd_progress K file"
        by blast
      then show ?thesis by (intro exI [of _ m]) (simp only: k1 fun_upd_upd simp_thms)
    qed
  qed
qed

lemma take_copy_at: "lo \<le> length xs \<Longrightarrow> take (lo + length src) (copy_at lo src xs) = take lo xs @ src"
  by (simp add: copy_at_def)

lemma read_loop_laws:
  "memfd_laws K file \<Longrightarrow> read_loop K fd bs offset k = (r, k') \<Longrightarrow>
    file k fd = Some (content, seals) \<Longrightarrow> length bs = length content \<Longrightarrow>
    take offset bs = take offset content \<Longrightarrow>
    file k' = file k \<and> (r = Inl Manifest \<or> r = Inr content)
      \<and> (memfd_progress K file \<longrightarrow> r = Inr content)"
proof (induction K fd bs offset k rule: read_loop.induct)
  case (1 K fd bs offset k)
  show ?case
  proof (cases "offset < length bs")
    case False
    with "1.prems" show ?thesis by (auto simp: read_loop.simps)
  next
    case True
    obtain n got k1 where w: "sys_pread K fd (length bs - offset) offset k = ((n, got), k1)"
      by (metis prod.exhaust)
    note law = memfd_lawsD(7) [OF "1.prems"(1) w "1.prems"(3)]
    show ?thesis
    proof (cases "n \<le> 0")
      case neg: True
      have "memfd_progress K file \<Longrightarrow> 0 < n"
        using True "1.prems"(3,4) w unfolding memfd_progress_def
        by (metis fst_conv zero_less_diff)
      with neg law True w "1.prems" show ?thesis by (auto simp: read_loop.simps)
    next
      case False
      let ?got = "take (length bs - offset) got"
      have got: "?got = take (nat n) (drop offset content)" "length ?got = nat n"
        "offset + nat n \<le> length content"
        using law False "1.prems"(4) by auto
      have "take (offset + nat n) (copy_at offset ?got bs) = take offset content @ ?got"
        using take_copy_at [of offset bs ?got] True got(2) "1.prems"(5) by simp
      also have "\<dots> = take (offset + nat n) content" using got(1) by (simp add: take_add)
      finally have pre: "take (offset + nat n) (copy_at offset ?got bs) = take (offset + nat n) content" .
      have len: "length (copy_at offset ?got bs) = length content"
        using got "1.prems"(4) by simp
      have "read_loop K fd (copy_at offset ?got bs) (offset + nat n) k1 = (r, k')"
        using "1.prems"(2) True False w by (simp add: read_loop.simps [of K fd bs offset])
      from "1.IH" [OF True w [symmetric] refl False "1.prems"(1) this _ len pre] law "1.prems"(3)
      show ?thesis by simp
    qed
  qed
qed

lemma verify_laws:
  "memfd_laws K file \<Longrightarrow> verify_immutable_manifest K fd k = (r, k') \<Longrightarrow>
     file k' = file k \<and> (r = Inl Manifest \<or> r = Inr ())
     \<and> (memfd_progress K file \<longrightarrow> file k fd = Some (content, REQUIRED_SEALS) \<longrightarrow> r = Inr ())"
proof -
  assume laws: "memfd_laws K file" and v: "verify_immutable_manifest K fd k = (r, k')"
  obtain s where s: "sys_get_seals K fd k = (s, k')"
    and r: "r = (if s < 0 \<or> s AND REQUIRED_SEALS \<noteq> REQUIRED_SEALS then Inl Manifest else Inr ())"
    using v by (auto simp: verify_immutable_manifest_def io_simps)
  have "memfd_progress K file \<Longrightarrow> file k fd = Some (content, REQUIRED_SEALS) \<Longrightarrow> s = REQUIRED_SEALS"
    using s unfolding memfd_progress_def by (metis fst_conv)
  moreover have "\<not> REQUIRED_SEALS < 0" "REQUIRED_SEALS AND REQUIRED_SEALS = REQUIRED_SEALS"
    by (simp_all add: REQUIRED_SEALS_def)
  ultimately show ?thesis using memfd_lawsD(4) [OF laws s] r by auto
qed

lemma create_laws:
  assumes laws: "memfd_laws K file" and create: "create_immutable_manifest K bs k = (r, k')"
  shows "(\<forall>e. r = Inl e \<longrightarrow> e = Manifest \<and> file k' = file k)
    \<and> (\<forall>fd. r = Inr fd \<longrightarrow> file k fd = None \<and> file k' = (file k)(fd \<mapsto> (bs, REQUIRED_SEALS)))
    \<and> (memfd_progress K file \<longrightarrow> (\<exists>fd. r = Inr fd))"
proof -
  obtain fd k0 where c: "sys_memfd_create K ''r8-manifest'' MFD_FLAGS k = (fd, k0)" by force
  note law0 = memfd_lawsD(1) [OF laws c]
  show ?thesis
  proof (cases "fd < 0")
    case True
    have "memfd_progress K file \<Longrightarrow> 0 \<le> fd" using c unfolding memfd_progress_def by (metis fst_conv)
    with True c law0 create show ?thesis
      by (auto simp: create_immutable_manifest_def io_call_def)
  next
    case False
    with law0 have fresh: "file k fd = None" and k0: "file k0 = (file k)(fd \<mapsto> ([], 0))" by auto
    obtain r1 k1 where w: "write_loop K fd bs 0 k0 = (r1, k1)" by force
    from write_loop_laws [OF laws w, of 0] k0 obtain m where
      k1: "file k1 = (file k)(fd \<mapsto> (take m bs, 0))"
        "r1 = Inr () \<and> length bs \<le> m \<or> r1 = Inl Manifest \<and> \<not> memfd_progress K file" by auto
    obtain r2 k2 where a: "sys_add_seals K fd REQUIRED_SEALS k1 = (r2, k2)" by force
    have k2: "if r2 \<noteq> 0 then file k2 = file k1
        else file k2 = (file k1)(fd \<mapsto> (take m bs, REQUIRED_SEALS))"
      using memfd_lawsD(3) [OF laws a, of "take m bs" 0] k1(1) by simp
    have p2: "memfd_progress K file \<Longrightarrow> r2 = 0"
      using a k1(1) unfolding memfd_progress_def by (metis fst_conv fun_upd_same option.distinct(1))
    obtain r3 k3 where v: "verify_immutable_manifest K fd k2 = (r3, k3)" by force
    note k3 = verify_laws [OF laws v, of "take m bs"]
    have close: "file (sys_close K fd x) = file k" if "file x = (file k)(fd \<mapsto> y)" for x y
      using memfd_lawsD(8) [OF laws] that fresh by (simp add: fun_upd_idem)
    have r: "(r, k') = owning (sys_close K) fd (io_then (write_loop K fd bs 0) (\<lambda>_.
          io_then (zero_or Manifest (sys_add_seals K fd REQUIRED_SEALS)) (\<lambda>_.
          io_then (verify_immutable_manifest K fd) (\<lambda>_. io_ret (Inr fd))))) k0"
      using create c False by (simp add: create_immutable_manifest_def io_call_def)
    show ?thesis
    proof (cases r1)
      case (Inl e)
      with r w k1 close [OF k1(1)] show ?thesis by (auto simp: owning_def io_then_def)
    next
      case (Inr u)
      with k1 have m: "take m bs = bs" by simp
      show ?thesis
      proof (cases "r2 = 0 \<and> r3 = Inr ()")
        case True
        with Inr r w a v k2 k3 k1(1) m fresh show ?thesis
          by (auto simp: owning_def io_then_def zero_or_def)
      next
        case False
        then have "r = Inl Manifest \<and> file k' = file k"
          using Inr r w a v k2 k3 k1(1) m close
          by (auto simp: owning_def io_then_def zero_or_def split: if_splits)
        moreover have "\<not> memfd_progress K file"
          using False p2 k2 k3 k1(1) by auto
        ultimately show ?thesis by auto
      qed
    qed
  qed
qed

lemma sealed_laws:
  assumes "memfd_laws K file" "create_immutable_manifest K bs k = (r, k1)"
  shows "case r of
      Inl e \<Rightarrow> e = Manifest \<and> file k1 = file k \<and> \<not> memfd_progress K file
    | Inr fd \<Rightarrow> file k fd = None \<and> file k1 = (file k)(fd \<mapsto> (bs, REQUIRED_SEALS)) \<and>
        (case read_immutable_manifest K fd k1 of (q, k2) \<Rightarrow>
           file k2 = file k1 \<and> (q = Inl Manifest \<or> q = Inr bs)
           \<and> (memfd_progress K file \<longrightarrow> q = Inr bs))"
proof (cases r)
  case (Inl e)
  with create_laws [OF assms] show ?thesis by auto
next
  case (Inr fd)
  with create_laws [OF assms] have k1: "file k fd = None"
    "file k1 = (file k)(fd \<mapsto> (bs, REQUIRED_SEALS))" by auto
  obtain v k2 where v: "verify_immutable_manifest K fd k1 = (v, k2)" by force
  from verify_laws [OF assms(1) v, of bs] k1(2) have
    k2: "file k2 = file k1" "v = Inl Manifest \<or> v = Inr ()" "memfd_progress K file \<longrightarrow> v = Inr ()" by auto
  obtain sz k3 where sz: "sys_fstat_size K fd k2 = (sz, k3)" by force
  from memfd_lawsD(6) [OF assms(1) sz] k1 k2 have
    k3: "file k3 = file k1" "file k2 fd = Some (bs, REQUIRED_SEALS)" "file k3 fd = Some (bs, REQUIRED_SEALS)"
    by auto
  have size: "sz = None \<or> sz = Some (int (length bs))" "memfd_progress K file \<longrightarrow> sz = Some (int (length bs))"
    using memfd_lawsD(5) [OF assms(1) _ k3(2)] sz k3(2) unfolding memfd_progress_def
    by (metis not_None_eq, metis fst_conv)
  obtain q k4 where q: "read_loop K fd (replicate (length bs) 0) 0 k3 = (q, k4)" by force
  from read_loop_laws [OF assms(1) q k3(3)] k3(1) have
    k4: "file k4 = file k1" "q = Inl Manifest \<or> q = Inr bs" "memfd_progress K file \<longrightarrow> q = Inr bs" by auto
  show ?thesis
    using Inr k1 k2 v sz size q k3(1) k4
    by (auto simp: read_immutable_manifest_def io_then_def io_call_def split: option.splits)
qed

text \<open>
  The sealed manifest reads back. \<open>create_immutable_manifest\<close>, however the kernel splits
  its writes, ends in one of two ways: an error that leaves no file behind, or a descriptor of
  a new file that holds exactly the given bytes under all four seals. Reading that descriptor
  with \<open>read_immutable_manifest\<close>, however the reads are split, changes nothing and returns
  those bytes or an error; when the memory file system makes progress neither step fails.
\<close>

theorem sealed_manifest_roundtrip:
  assumes "memfd_laws K file" "create_immutable_manifest K bs k = (r, k1)"
  shows "case r of
      Inl e \<Rightarrow> e = Manifest \<and> file k1 = file k \<and> \<not> memfd_progress K file
    | Inr fd \<Rightarrow> file k fd = None \<and> file k1 = (file k)(fd \<mapsto> (bs, REQUIRED_SEALS)) \<and>
        (case read_immutable_manifest K fd k1 of (q, k2) \<Rightarrow>
           file k2 = file k1 \<and> (q = Inl Manifest \<or> q = Inr bs)
           \<and> (memfd_progress K file \<longrightarrow> q = Inr bs))"
  using assms by (rule sealed_laws)

text \<open>For the witness, a kernel that writes two bytes at a time and reads three.\<close>

definition sample_file :: "(bytes \<times> int) option list \<Rightarrow> int \<Rightarrow> (bytes \<times> int) option" where
  "sample_file k fd = (if 0 \<le> fd \<and> nat fd < length k then k ! nat fd else None)"

definition sample_memfd_kernel :: "(bytes \<times> int) option list memfd_kernel" where
  "sample_memfd_kernel =
     \<lparr>sys_memfd_create = (\<lambda>_ _ k. (int (length k), k @ [Some ([], 0)])),
      sys_write = (\<lambda>fd bs k.
        case sample_file k fd of
          None \<Rightarrow> (- 1, k)
        | Some (content, seals) \<Rightarrow>
          (int (min 2 (length bs)), k[nat fd := Some (content @ take 2 bs, seals)])),
      sys_add_seals = (\<lambda>fd new k.
        case sample_file k fd of
          None \<Rightarrow> (- 1, k)
        | Some (content, seals) \<Rightarrow> (0, k[nat fd := Some (content, seals OR new)])),
      sys_get_seals = (\<lambda>fd k. (case sample_file k fd of None \<Rightarrow> - 1 | Some (_, seals) \<Rightarrow> seals, k)),
      sys_fstat_size = (\<lambda>fd k. (map_option (\<lambda>(content, _). int (length content)) (sample_file k fd), k)),
      sys_pread = (\<lambda>fd room off k.
        case sample_file k fd of
          None \<Rightarrow> ((- 1, []), k)
        | Some (content, _) \<Rightarrow>
          let got = take (min 3 room) (drop off content) in ((int (length got), got), k)),
      sys_close = (\<lambda>fd k. if fd < 0 then k else k[nat fd := None])\<rparr>"

lemma sample_file_update:
  "sample_file k fd \<noteq> None \<Longrightarrow> sample_file (k[nat fd := Some v]) = (sample_file k)(fd \<mapsto> v)"
  by (auto simp: sample_file_def fun_eq_iff nth_list_update split: if_splits)

lemma sample_file_push:
  "sample_file k (int (length k)) = None \<and>
     sample_file (k @ [Some v]) = (sample_file k)(int (length k) \<mapsto> v)"
  by (auto simp: sample_file_def fun_eq_iff nth_append split: if_splits)

lemma sample_file_close:
  "sample_file (if fd < 0 then k else k[nat fd := None]) = (sample_file k)(fd := None)"
  by (auto simp: sample_file_def fun_eq_iff nth_list_update)

lemma take_min_length: "take (min n (length xs)) xs = take n xs"
  by (metis min.commute take_all_iff take_take min.cobounded2 take_all order_refl)

lemma sample_memfd_laws: "memfd_laws sample_memfd_kernel sample_file"
  unfolding memfd_laws_def sample_memfd_kernel_def
  by (auto simp: sample_file_update sample_file_push sample_file_close Let_def take_min_length
      min_def split: option.splits if_splits)

lemma sample_memfd_progress: "memfd_progress sample_memfd_kernel sample_file"
  unfolding memfd_progress_def sample_memfd_kernel_def
  by (auto simp: Let_def split: option.splits)

theorem sealed_manifest_roundtrip_witness:
  "memfd_laws sample_memfd_kernel sample_file
   \<and> fst (create_immutable_manifest sample_memfd_kernel [0x7B, 1, 2, 3, 0x7D] []) = Inr 0
   \<and> fst (read_immutable_manifest sample_memfd_kernel 0
        (snd (create_immutable_manifest sample_memfd_kernel [0x7B, 1, 2, 3, 0x7D] [])))
      = Inr [0x7B, 1, 2, 3, 0x7D]"
proof -
  let ?c = "create_immutable_manifest sample_memfd_kernel [0x7B, 1, 2, 3, 0x7D] []"
  have c: "fst ?c = Inr 0"
    by (simp add: create_immutable_manifest_def verify_immutable_manifest_def io_call_def
        io_then_def owning_def zero_or_def sample_memfd_kernel_def sample_file_def
        write_loop.simps REQUIRED_SEALS_def)
  then have "?c = (Inr 0, snd ?c)" by (simp only: c [symmetric] prod.collapse)
  from sealed_manifest_roundtrip [OF sample_memfd_laws this] sample_memfd_progress c sample_memfd_laws
  show ?thesis by (simp split: prod.splits)
qed

end
