(* ===== verification/Linux_Net.thy ===== *)
theory Linux_Net
  imports Linux_Process Forward
begin

text \<open>
  The network side of the launcher's safety primitives
  (\<open>src/rust/crates/r8d/src/linux.rs\<close>): the checks that the network namespace is isolated, the
  reader of \<open>/proc/net/route\<close>, the socket filter and the filtered packet socket. Files and
  system calls are the fields of records over a kernel state. The theorems say exactly which
  topologies are accepted, that the route reader finds every default route of a table the
  kernel printed (and which interface name hides one), which frames the filter passes, and what
  socket a successful open leaves behind.
\<close>

section \<open>Names and routes\<close>

definition IFNAMSIZ :: nat where "IFNAMSIZ = 16"

definition valid_interface_name :: "string \<Rightarrow> bool" where
  "valid_interface_name name \<longleftrightarrow>
     name \<noteq> [] \<and> name \<noteq> ''lo'' \<and> length name < IFNAMSIZ
     \<and> list_all (\<lambda>byte. is_ascii_alphanumeric byte \<or> byte \<in> {CHR ''_'', CHR ''.'', CHR ''-''}) name"

definition is_hex_field :: "string \<Rightarrow> nat \<Rightarrow> bool" where
  "is_hex_field value n \<longleftrightarrow> length value = n \<and> list_all is_ascii_hexdigit value"

definition route_is_reject :: "string \<Rightarrow> bool" where
  "route_is_reject flags =
     (case from_str_radix 32 16 flags of
        None \<Rightarrow> False
      | Some value \<Rightarrow> (of_nat value :: u32) AND 0x0200 \<noteq> 0)"

text \<open>The body of the loop: is this record unsafe?\<close>

definition route_line_unsafe :: "string \<Rightarrow> bool" where
  "route_line_unsafe line =
     (let fields = split_whitespace line in
      if fields \<noteq> [] \<and> hd fields = ''Iface'' then False
      else if length fields \<noteq> 11
         \<or> fields ! 0 = []
         \<or> \<not> is_hex_field (fields ! 1) 8
         \<or> \<not> is_hex_field (fields ! 2) 8
         \<or> fields ! 3 = []
         \<or> length (fields ! 3) > 8
         \<or> \<not> list_all is_ascii_hexdigit (fields ! 3)
         \<or> \<not> list_all (\<lambda>index. list_all is_ascii_digit (fields ! index)) [4, 5, 6, 8, 9, 10]
         \<or> \<not> is_hex_field (fields ! 7) 8
      then True
      else fields ! 1 = ''00000000'' \<and> fields ! 7 = ''00000000'' \<and> \<not> route_is_reject (fields ! 3))"

definition has_ipv4_default_route :: "string \<Rightarrow> bool" where
  "has_ipv4_default_route route_table =
     list_ex route_line_unsafe (filter (\<lambda>line. trim line \<noteq> []) (str_lines route_table))"

section \<open>The isolated namespace\<close>

text \<open>An entry of the list \<open>getifaddrs\<close> returns, and the kernel as these checks see it.\<close>

datatype sockaddr = Sa_inet | Sa_inet6 bytes | Sa_other

record ifaddrs =
  ifa_name :: "string option"
  ifa_flags :: u32
  ifa_addr :: "sockaddr option"

record 'k net_kernel =
  net_read_to_string :: "string \<Rightarrow> 'k \<Rightarrow> string option \<times> 'k"
  net_metadata :: "string \<Rightarrow> 'k \<Rightarrow> (u64 \<times> u64) option \<times> 'k"
  net_exists :: "string \<Rightarrow> 'k \<Rightarrow> bool \<times> 'k"
  net_getifaddrs :: "'k \<Rightarrow> ifaddrs list option \<times> 'k"

text \<open>\<open>metadata\<close> is the pair of inode and device.\<close>

definition namespace_matches_pid_one :: "'k net_kernel \<Rightarrow> 'k \<Rightarrow> (LinuxError + bool) \<times> 'k" where
  "namespace_matches_pid_one K =
     io_call (net_metadata K ''/proc/self/ns/net'') (\<lambda>current.
       case current of
         None \<Rightarrow> io_ret (Inl Namespace)
       | Some self \<Rightarrow>
         io_call (net_metadata K ''/proc/1/ns/net'') (\<lambda>init.
           case init of
             None \<Rightarrow> io_ret (Inl Namespace)
           | Some one \<Rightarrow> io_ret (Inr (fst self = fst one \<and> snd self = snd one))))"

definition ipv6_path :: "string \<Rightarrow> string" where
  "ipv6_path scope = ''/proc/sys/net/ipv6/conf/'' @ scope @ ''/disable_ipv6''"

fun ipv6_loop :: "'k net_kernel \<Rightarrow> string list \<Rightarrow> 'k \<Rightarrow> (LinuxError + unit) \<times> 'k" where
  "ipv6_loop K [] = io_ret (Inr ())"
| "ipv6_loop K (scope # scopes) =
     io_call (net_read_to_string K (ipv6_path scope)) (\<lambda>content.
       case content of
         None \<Rightarrow> io_ret (Inl Network)
       | Some value \<Rightarrow> if trim value \<noteq> ''1'' then io_ret (Inl Network) else ipv6_loop K scopes)"

definition verify_ipv6_disabled :: "'k net_kernel \<Rightarrow> string list \<Rightarrow> 'k \<Rightarrow> (LinuxError + unit) \<times> 'k" where
  "verify_ipv6_disabled K names = ipv6_loop K ([''all'', ''default'', ''lo''] @ names)"

definition verify_no_default_route :: "'k net_kernel \<Rightarrow> 'k \<Rightarrow> (LinuxError + unit) \<times> 'k" where
  "verify_no_default_route K =
     io_call (net_read_to_string K ''/proc/net/route'') (\<lambda>ipv4.
       case ipv4 of
         None \<Rightarrow> io_ret (Inl Network)
       | Some table \<Rightarrow>
         if has_ipv4_default_route table then io_ret (Inl DefaultRouteV4) else io_ret (Inr ()))"

record interface_address =
  ia_name :: string
  ia_loopback :: bool
  ia_up :: bool
  ia_ipv4 :: bool
  ia_global_ipv6 :: bool

definition is_non_global_ipv6 :: "bytes \<Rightarrow> bool" where
  "is_non_global_ipv6 address \<longleftrightarrow>
     address = replicate 16 0
     \<or> address = [0, 0, 0, 0, 0, 0, 0, 0, 0, 0, 0, 0, 0, 0, 0, 1]
     \<or> address ! 0 = 0xfe \<and> address ! 1 AND 0xc0 = 0x80"

text \<open>\<open>libc::IFF_UP\<close> and \<open>libc::IFF_LOOPBACK\<close>.\<close>

definition IFF_UP :: u32 where "IFF_UP = 0x1"
definition IFF_LOOPBACK :: u32 where "IFF_LOOPBACK = 0x8"

text \<open>What one item adds to the entry of its interface.\<close>

definition merge_item :: "ifaddrs \<Rightarrow> interface_address \<Rightarrow> interface_address" where
  "merge_item item entry =
     (let entry = entry\<lparr>ia_loopback := ia_loopback entry \<or> ifa_flags item AND IFF_LOOPBACK \<noteq> 0\<rparr>;
          entry = entry\<lparr>ia_up := ia_up entry \<or> ifa_flags item AND IFF_UP \<noteq> 0\<rparr> in
      case ifa_addr item of
        None \<Rightarrow> entry
      | Some Sa_inet \<Rightarrow> entry\<lparr>ia_ipv4 := True\<rparr>
      | Some (Sa_inet6 address) \<Rightarrow>
        if \<not> is_non_global_ipv6 address then entry\<lparr>ia_global_ipv6 := True\<rparr> else entry
      | Some Sa_other \<Rightarrow> entry)"

fun addresses_loop :: "interface_address list \<Rightarrow> ifaddrs list \<Rightarrow> LinuxError + interface_address list" where
  "addresses_loop result [] = Inr result"
| "addresses_loop result (item # items) =
     (case ifa_name item of
        None \<Rightarrow> addresses_loop result items
      | Some name \<Rightarrow>
        if \<not> utf8_valid name then Inl Interface
        else
          let (index, result) =
            (case position (\<lambda>entry. ia_name entry = name) result of
               Some index \<Rightarrow> (index, result)
             | None \<Rightarrow>
               (length result,
                result @ [\<lparr>ia_name = name, ia_loopback = False, ia_up = False, ia_ipv4 = False,
                           ia_global_ipv6 = False\<rparr>])) in
          addresses_loop (result[index := merge_item item (result ! index)]) items)"

definition interface_addresses :: "'k net_kernel \<Rightarrow> 'k \<Rightarrow> (LinuxError + interface_address list) \<times> 'k" where
  "interface_addresses K =
     io_call (net_getifaddrs K) (\<lambda>raw.
       case raw of
         None \<Rightarrow> io_ret (Inl Interface)
       | Some items \<Rightarrow> io_ret (addresses_loop [] items))"

definition has_master_or_virtual_attachment :: "'k net_kernel \<Rightarrow> string \<Rightarrow> 'k \<Rightarrow> bool \<times> 'k" where
  "has_master_or_virtual_attachment K name =
     (let base = ''/sys/class/net/'' @ name in
      io_call (net_exists K (base @ ''/master'')) (\<lambda>master.
        if master then io_ret True
        else io_call (net_exists K (base @ ''/bridge'')) (\<lambda>bridge.
          if bridge then io_ret True
          else net_exists K (base @ ''/bonding''))))"

fun names_loop ::
    "'k net_kernel \<Rightarrow> interface_address list \<Rightarrow> string list \<Rightarrow> 'k \<Rightarrow> (LinuxError + unit) \<times> 'k" where
  "names_loop K addresses [] = io_ret (Inr ())"
| "names_loop K addresses (name # names) =
     (case find (\<lambda>entry. ia_name entry = name) addresses of
        None \<Rightarrow> io_ret (Inl Address)
      | Some entry \<Rightarrow>
        if ia_loopback entry \<or> \<not> ia_up entry \<or> ia_ipv4 entry \<or> ia_global_ipv6 entry
        then io_ret (Inl Address)
        else io_call (has_master_or_virtual_attachment K name) (\<lambda>attached.
          if attached then io_ret (Inl Address) else names_loop K addresses names))"

text \<open>The comparisons on the folded interface list.\<close>

definition check_links ::
    "'k net_kernel \<Rightarrow> string list \<Rightarrow> interface_address list \<Rightarrow> 'k \<Rightarrow> (LinuxError + unit) \<times> 'k" where
  "check_links K names addresses =
     (if set (map ia_name addresses) \<noteq> set (''lo'' # names) then io_ret (Inl Interface)
      else case find (\<lambda>entry. ia_name entry = ''lo'') addresses of
        None \<Rightarrow> io_ret (Inl Address)
      | Some loopback \<Rightarrow>
        if \<not> ia_loopback loopback \<or> ia_up loopback then io_ret (Inl Address)
        else names_loop K addresses names)"

text \<open>The \<open>BTreeSet\<close> of requested names is its sorted contents.\<close>

definition verify_isolated_topology ::
    "'k net_kernel \<Rightarrow> string list \<Rightarrow> bool \<Rightarrow> 'k \<Rightarrow> (LinuxError + unit) \<times> 'k" where
  "verify_isolated_topology K requested compare_pid_one =
     (let names = remdups_adj (sort requested) in
      if names = [] \<or> length names \<noteq> length requested \<or> list_ex (\<lambda>name. \<not> valid_interface_name name) names
      then io_ret (Inl Interface)
      else
        io_then (if compare_pid_one then namespace_matches_pid_one K else io_ret (Inr False)) (\<lambda>same.
        if same then io_ret (Inl Namespace)
        else
          io_then (verify_ipv6_disabled K names) (\<lambda>_.
          io_then (verify_no_default_route K) (\<lambda>_.
          io_then (interface_addresses K) (check_links K names)))))"

definition verify_isolated_namespace :: "'k net_kernel \<Rightarrow> string list \<Rightarrow> 'k \<Rightarrow> (LinuxError + unit) \<times> 'k" where
  "verify_isolated_namespace K interface_names = verify_isolated_topology K interface_names True"

definition verify_isolated_namespace_after_drop ::
    "'k net_kernel \<Rightarrow> string list \<Rightarrow> 'k \<Rightarrow> (LinuxError + unit) \<times> 'k" where
  "verify_isolated_namespace_after_drop K interface_names =
     verify_isolated_topology K interface_names False"

section \<open>The route reader against the kernel's printer\<close>

text \<open>
  A route of the kernel's table and the record \<open>/proc/net/route\<close> prints for it: eleven fields
  separated by tabs (name, destination, gateway, flags, reference count, use, metric, mask,
  MTU, window, IRTT), padded with blanks to 127 columns, one per line under a header.
\<close>

record kernel_route =
  kr_iface :: string
  kr_destination :: u32
  kr_gateway :: u32
  kr_flags :: u16
  kr_refcnt :: nat
  kr_use :: nat
  kr_metric :: nat
  kr_mask :: u32
  kr_mtu :: nat
  kr_window :: nat
  kr_irtt :: nat

definition tabbed :: "string list \<Rightarrow> string" where
  "tabbed fs = hd fs @ concat (map (\<lambda>f. CHR 0x09 # f) (tl fs))"

definition padded :: "string \<Rightarrow> string" where
  "padded s = s @ replicate (127 - length s) CHR 0x20"

definition route_fields :: "kernel_route \<Rightarrow> string list" where
  "route_fields r =
     [kr_iface r, hex_field True 8 (unat (kr_destination r)), hex_field True 8 (unat (kr_gateway r)),
      hex_field True 4 (unat (kr_flags r)), dec_field (kr_refcnt r), dec_field (kr_use r),
      dec_field (kr_metric r), hex_field True 8 (unat (kr_mask r)), dec_field (kr_mtu r),
      dec_field (kr_window r), dec_field (kr_irtt r)]"

definition route_header :: "string list" where
  "route_header =
     [''Iface'', ''Destination'', ''Gateway'', ''Flags'', ''RefCnt'', ''Use'', ''Metric'',
      ''Mask'', ''MTU'', ''Window'', ''IRTT'']"

definition route_table_text :: "kernel_route list \<Rightarrow> string" where
  "route_table_text rs =
     concat (map (\<lambda>l. l @ [CHR 0x0A]) (map (padded \<circ> tabbed) (route_header # map route_fields rs)))"

text \<open>An unrejected route to everywhere; \<open>RTF_REJECT\<close> is bit 9 of the flags.\<close>

definition default_route :: "kernel_route \<Rightarrow> bool" where
  "default_route r \<longleftrightarrow> kr_destination r = 0 \<and> kr_mask r = 0 \<and> \<not> bit (kr_flags r) 9"

definition printable_iface :: "kernel_route \<Rightarrow> bool" where
  "printable_iface r \<longleftrightarrow> kr_iface r \<noteq> [] \<and> graphic (kr_iface r)"

lemma padded_fields:
  assumes "fs \<noteq> []" "list_all (\<lambda>f. f \<noteq> [] \<and> graphic f) fs"
  shows "split_whitespace (padded (tabbed fs)) = fs"
  using assms split_whitespace_fields [of "hd fs" "tl fs"]
  by (cases fs) (simp_all add: padded_def tabbed_def)

lemma padded_line:
  assumes "fs \<noteq> []" "list_all (\<lambda>f. f \<noteq> [] \<and> graphic f) fs"
  shows "CHR 0x0A \<notin> set (padded (tabbed fs)) \<and> strip_cr (padded (tabbed fs)) = padded (tabbed fs)
    \<and> trim (padded (tabbed fs)) \<noteq> []"
proof -
  obtain f fs' where fs: "fs = f # fs'" using assms(1) by (cases fs) auto
  obtain c cs where f: "f = c # cs" "is_ascii_graphic c" using assms(2) fs by (cases f) auto
  have chars: "set (padded (tabbed fs)) \<subseteq> \<Union> (set ` set fs) \<union> {CHR 0x09, CHR 0x20}"
    by (auto simp: padded_def tabbed_def fs)
  have "\<forall>x \<in> \<Union> (set ` set fs). is_ascii_graphic x"
    using assms(2) by (auto simp: list_all_iff graphic_def)
  then have n: "\<forall>x \<in> set (padded (tabbed fs)). x \<noteq> CHR 0x0A \<and> x \<noteq> CHR 0x0D"
    using chars by (fastforce simp: ascii_simps)
  then have "strip_cr (padded (tabbed fs)) = padded (tabbed fs)"
    by (auto simp: strip_cr_def dest: last_in_set)
  moreover have "trim (padded (tabbed fs)) \<noteq> []"
  proof -
    obtain t where t: "padded (tabbed fs) = c # t" by (simp add: padded_def tabbed_def fs f)
    show ?thesis using f(2) by (simp add: t trim_def trim_start_graphic)
  qed
  ultimately show ?thesis using n by blast
qed

lemma route_fields_ok:
  "printable_iface r \<Longrightarrow> list_all (\<lambda>f. f \<noteq> [] \<and> graphic f) (route_fields r)"
  by (simp add: route_fields_def printable_iface_def)

lemma route_header_ok: "list_all (\<lambda>f. f \<noteq> [] \<and> graphic f) route_header"
  by (simp add: route_header_def ascii_simps)

lemma reject_printed: "route_is_reject (hex_field True 4 (unat (f :: u16))) \<longleftrightarrow> bit f 9"
proof -
  have "unat f < 2 ^ 16" using unsigned_less [of f] by simp
  then have "from_str_radix 32 16 (hex_field True 4 (unat f)) = Some (unat f)"
    by (intro from_str_radix_hex) simp_all
  moreover have "(of_nat (unat f) :: u32) AND 0x200 \<noteq> 0 \<longleftrightarrow> bit f 9"
  proof -
    have "(of_nat (unat f) :: u32) = ucast f" by (simp add: unsigned_def)
    moreover have "(ucast f :: u32) AND 2 ^ 9 = 0 \<longleftrightarrow> \<not> bit (ucast f :: u32) 9"
      by (rule and_exp_eq_0_iff_not_bit)
    ultimately show ?thesis by (simp add: bit_simps)
  qed
  ultimately show ?thesis by (simp add: route_is_reject_def)
qed

lemma zero_printed: "hex_field True 8 (unat (w :: u32)) = ''00000000'' \<longleftrightarrow> w = 0"
proof -
  have "unat w < 16 ^ 8" using unsigned_less [of w] by simp
  moreover have "''00000000'' = hex_field True 8 0" by (simp add: hex_field_zero numeral_eq_Suc)
  ultimately show ?thesis using hex_field_inject [of "unat w" 8 0 True] by (simp add: unsigned_eq_0_iff)
qed

lemma route_line_printed:
  assumes "printable_iface r"
  shows "route_line_unsafe (padded (tabbed (route_fields r))) \<longleftrightarrow>
    kr_iface r \<noteq> ''Iface'' \<and> default_route r"
proof -
  have f: "split_whitespace (padded (tabbed (route_fields r))) = route_fields r"
    by (rule padded_fields) (simp_all add: route_fields_ok [OF assms], simp add: route_fields_def)
  have "kr_iface r \<noteq> []" using assms by (simp add: printable_iface_def)
  then show ?thesis unfolding route_line_unsafe_def f Let_def
    by (simp add: route_fields_def is_hex_field_def reject_printed zero_printed default_route_def)
qed

lemma route_text_iff:
  assumes "list_all printable_iface rs"
  shows "has_ipv4_default_route (route_table_text rs) \<longleftrightarrow>
    (\<exists>r \<in> set rs. default_route r \<and> kr_iface r \<noteq> ''Iface'')"
proof -
  let ?ls = "map (padded \<circ> tabbed) (route_header # map route_fields rs)"
  have ok: "list_all (\<lambda>fs. fs \<noteq> [] \<and> list_all (\<lambda>f. f \<noteq> [] \<and> graphic f) fs) (route_header # map route_fields rs)"
    using assms route_header_ok route_fields_ok
    by (auto simp: list_all_iff) (simp_all add: route_header_def route_fields_def)
  have good: "\<forall>l \<in> set ?ls. CHR 0x0A \<notin> set l \<and> strip_cr l = l \<and> trim l \<noteq> []"
    using ok padded_line by (fastforce simp: list_all_iff)
  then have lines: "str_lines (route_table_text rs) = ?ls"
    unfolding route_table_text_def by (intro str_lines_concat) (simp add: list_all_iff)
  have "filter (\<lambda>line. trim line \<noteq> []) ?ls = ?ls" using good unfolding filter_id_conv by blast
  then have "has_ipv4_default_route (route_table_text rs) \<longleftrightarrow> list_ex route_line_unsafe ?ls"
    unfolding has_ipv4_default_route_def lines by simp
  moreover have "\<not> route_line_unsafe (padded (tabbed route_header))"
    unfolding route_line_unsafe_def Let_def
    by (subst (1 2) padded_fields) (use route_header_ok in \<open>simp_all add: route_header_def\<close>)
  ultimately show ?thesis
    using assms route_line_printed by (auto simp: list_ex_iff list_all_iff)
qed

text \<open>
  Every default route is found. On the text the kernel prints for a routing table whose
  interface names are printable, \<open>has_ipv4_default_route\<close> answers true exactly when some route
  has destination and mask zero, is not a reject route, and is not on an interface called
  \<open>Iface\<close>: no route it should find is missed for any other reason, and no table is refused
  without one.
\<close>

theorem route_reader_exact:
  assumes "list_all printable_iface rs"
  shows "has_ipv4_default_route (route_table_text rs) \<longleftrightarrow>
    (\<exists>r \<in> set rs. default_route r \<and> kr_iface r \<noteq> ''Iface'')"
  using assms by (rule route_text_iff)

definition sample_route :: "string \<Rightarrow> u32 \<Rightarrow> u32 \<Rightarrow> kernel_route" where
  "sample_route name dst nm =
     \<lparr>kr_iface = name, kr_destination = dst, kr_gateway = 0, kr_flags = 3, kr_refcnt = 0, kr_use = 0,
      kr_metric = 100, kr_mask = nm, kr_mtu = 0, kr_window = 0, kr_irtt = 0\<rparr>"

theorem route_reader_exact_witness:
  "has_ipv4_default_route (route_table_text [sample_route ''r8a'' 0x0A 0xFF, sample_route ''r8b'' 0 0])
   \<and> \<not> has_ipv4_default_route (route_table_text [sample_route ''r8a'' 0x0A 0xFF])"
  using route_reader_exact [of "[sample_route ''r8a'' 0x0A 0xFF, sample_route ''r8b'' 0 0]"]
    route_reader_exact [of "[sample_route ''r8a'' 0x0A 0xFF]"]
  by (simp add: sample_route_def printable_iface_def default_route_def ascii_simps)

text \<open>
  A default route can hide behind a name. The reader skips every record whose first field
  is \<open>Iface\<close>, not only the header, and \<open>Iface\<close> is a valid interface name: a table with an
  unrejected default route on an interface of that name is reported as having none.
\<close>

theorem default_route_hidden_by_name:
  "valid_interface_name ''Iface''
   \<and> default_route (r\<lparr>kr_iface := ''Iface'', kr_destination := 0, kr_mask := 0, kr_flags := 3\<rparr>)
   \<and> \<not> has_ipv4_default_route (route_table_text
         [r\<lparr>kr_iface := ''Iface'', kr_destination := 0, kr_mask := 0, kr_flags := 3\<rparr>])"
proof -
  let ?r = "r\<lparr>kr_iface := ''Iface'', kr_destination := 0, kr_mask := 0, kr_flags := 3\<rparr>"
  have "\<not> has_ipv4_default_route (route_table_text [?r])"
    by (subst route_text_iff) (simp_all add: printable_iface_def ascii_simps)
  moreover have "default_route ?r" by (simp add: default_route_def)
  moreover have "valid_interface_name ''Iface''"
    by (simp add: valid_interface_name_def IFNAMSIZ_def ascii_simps)
  ultimately show ?thesis by blast
qed

section \<open>What an accepted topology is\<close>

text \<open>
  The interface list folds to one entry per name, in the order the names first appear, each
  the disjunction over the items of that name.
\<close>

definition named :: "string \<Rightarrow> ifaddrs list \<Rightarrow> ifaddrs list" where
  "named n items = filter (\<lambda>i. ifa_name i = Some n) items"

definition global_address :: "ifaddrs \<Rightarrow> bool" where
  "global_address i = (case ifa_addr i of Some (Sa_inet6 a) \<Rightarrow> \<not> is_non_global_ipv6 a | _ \<Rightarrow> False)"

definition summary :: "ifaddrs list \<Rightarrow> string \<Rightarrow> interface_address" where
  "summary items n =
     \<lparr>ia_name = n, ia_loopback = list_ex (\<lambda>i. ifa_flags i AND IFF_LOOPBACK \<noteq> 0) (named n items),
      ia_up = list_ex (\<lambda>i. ifa_flags i AND IFF_UP \<noteq> 0) (named n items),
      ia_ipv4 = list_ex (\<lambda>i. ifa_addr i = Some Sa_inet) (named n items),
      ia_global_ipv6 = list_ex global_address (named n items)\<rparr>"

definition item_names :: "ifaddrs list \<Rightarrow> string set" where
  "item_names items = {n. \<exists>i \<in> set items. ifa_name i = Some n}"

lemma item_names_Nil [simp]: "item_names [] = {}"
  by (simp add: item_names_def)

lemma ia_name_summary [simp]: "ia_name (summary items n) = n"
  by (simp add: summary_def)

lemma summary_other [simp]: "ifa_name i \<noteq> Some n \<Longrightarrow> summary (items @ [i]) n = summary items n"
  by (simp add: summary_def named_def)

lemma summary_same: "ifa_name i = Some n \<Longrightarrow> summary (items @ [i]) n = merge_item i (summary items n)"
  by (auto simp: summary_def named_def merge_item_def Let_def global_address_def
      split: option.splits sockaddr.splits)

lemma summary_new:
  "n \<notin> item_names items \<Longrightarrow>
     summary items n = \<lparr>ia_name = n, ia_loopback = False, ia_up = False, ia_ipv4 = False,
       ia_global_ipv6 = False\<rparr>"
  by (auto simp: summary_def named_def item_names_def list_ex_iff)

lemma item_names_snoc:
  "item_names (items @ [i]) = item_names items \<union> (case ifa_name i of None \<Rightarrow> {} | Some n \<Rightarrow> {n})"
  by (auto simp: item_names_def split: option.splits)

lemma position_name:
  "position (\<lambda>e. ia_name e = n) (map (summary items) ns) = position (\<lambda>m. m = n) ns"
  by (induction ns) simp_all

lemma update_summary:
  assumes "distinct ns" "j < length ns" "ns ! j = n" "ifa_name i = Some n"
  shows "(map (summary items) ns)[j := merge_item i (summary items n)] = map (summary (items @ [i])) ns"
proof (rule nth_equalityI)
  fix l assume l: "l < length ((map (summary items) ns)[j := merge_item i (summary items n)])"
  show "(map (summary items) ns)[j := merge_item i (summary items n)] ! l = map (summary (items @ [i])) ns ! l"
  proof (cases "l = j")
    case True
    with assms l show ?thesis by (simp add: summary_same)
  next
    case False
    with assms l have "ns ! l \<noteq> n" by (auto simp: nth_eq_iff_index_eq)
    with False assms(4) l show ?thesis by simp
  qed
qed simp

lemma addresses_loop_summary:
  assumes "distinct ns" "set ns = item_names seen"
  shows "case addresses_loop (map (summary seen) ns) items of
      Inl e \<Rightarrow> e = Interface \<and> (\<exists>i \<in> set items. \<exists>n. ifa_name i = Some n \<and> \<not> utf8_valid n)
    | Inr es \<Rightarrow> (\<forall>i \<in> set items. \<forall>n. ifa_name i = Some n \<longrightarrow> utf8_valid n)
        \<and> (\<exists>ns'. distinct ns' \<and> set ns' = item_names (seen @ items)
             \<and> es = map (summary (seen @ items)) ns')"
  using assms
proof (induction items arbitrary: seen ns)
  case Nil
  then show ?case by auto
next
  case (Cons i items)
  note IH = Cons.IH [where seen = "seen @ [i]"]
  show ?case
  proof (cases "ifa_name i")
    case None
    then have "map (summary seen) ns = map (summary (seen @ [i])) ns" by simp
    moreover have "set ns = item_names (seen @ [i])" using Cons.prems None by (simp add: item_names_snoc)
    ultimately show ?thesis using IH [OF Cons.prems(1)] None by (auto split: sum.splits)
  next
    case (Some n)
    have names: "item_names (seen @ [i]) = insert n (set ns)"
      using Cons.prems(2) Some by (simp add: item_names_snoc)
    show ?thesis
    proof (cases "utf8_valid n")
      case False
      with Some show ?thesis by auto
    next
      case valid: True
      show ?thesis
      proof (cases "position (\<lambda>m. m = n) ns")
        case (Some j)
        from position_Some [OF this] have j: "j < length ns" "ns ! j = n" by auto
        have "addresses_loop (map (summary seen) ns) (i # items) =
            addresses_loop (map (summary (seen @ [i])) ns) items"
          using \<open>ifa_name i = Some n\<close> valid Some j update_summary [OF Cons.prems(1) j \<open>ifa_name i = Some n\<close>]
          by (simp add: position_name)
        moreover have "set ns = item_names (seen @ [i])" using names j by auto
        ultimately show ?thesis
          using IH [OF Cons.prems(1)] valid \<open>ifa_name i = Some n\<close> by (auto split: sum.splits)
      next
        case None
        then have new: "n \<notin> set ns" by (auto simp: position_None)
        have "addresses_loop (map (summary seen) ns) (i # items) =
            addresses_loop ((map (summary seen) (ns @ [n]))[length ns := merge_item i (summary seen n)]) items"
          using \<open>ifa_name i = Some n\<close> valid None new Cons.prems(2)
          by (simp add: position_name summary_new nth_append)
        also have "(map (summary seen) (ns @ [n]))[length ns := merge_item i (summary seen n)] =
            map (summary (seen @ [i])) (ns @ [n])"
          by (rule update_summary) (use Cons.prems(1) new \<open>ifa_name i = Some n\<close> in auto)
        finally have "addresses_loop (map (summary seen) ns) (i # items) =
            addresses_loop (map (summary (seen @ [i])) (ns @ [n])) items" .
        moreover have "distinct (ns @ [n])" "set (ns @ [n]) = item_names (seen @ [i])"
          using names new Cons.prems(1) by auto
        ultimately show ?thesis
          using IH [of "ns @ [n]"] valid \<open>ifa_name i = Some n\<close> by (auto split: sum.splits)
      qed
    qed
  qed
qed

text \<open>
  The topology behind the files and calls: the contents of the IPv6 switches, the routes, the
  interface items, the two namespace identities and the paths under \<open>/sys\<close> that exist; \<open>None\<close>
  where a read fails.
\<close>

record topology =
  tp_ipv6 :: "string \<Rightarrow> string option"
  tp_routes :: "kernel_route list option"
  tp_links :: "ifaddrs list option"
  tp_self_ns :: "(u64 \<times> u64) option"
  tp_init_ns :: "(u64 \<times> u64) option"
  tp_paths :: "string \<Rightarrow> bool"

text \<open>The reads report the topology and leave it alone.\<close>

definition net_laws :: "'k net_kernel \<Rightarrow> ('k \<Rightarrow> topology) \<Rightarrow> bool" where
  "net_laws K tp \<longleftrightarrow>
     (\<forall>k scope. fst (net_read_to_string K (ipv6_path scope) k) = tp_ipv6 (tp k) scope)
     \<and> (\<forall>k. fst (net_read_to_string K ''/proc/net/route'' k) = map_option route_table_text (tp_routes (tp k)))
     \<and> (\<forall>k path. tp (snd (net_read_to_string K path k)) = tp k)
     \<and> (\<forall>k. fst (net_metadata K ''/proc/self/ns/net'' k) = tp_self_ns (tp k))
     \<and> (\<forall>k. fst (net_metadata K ''/proc/1/ns/net'' k) = tp_init_ns (tp k))
     \<and> (\<forall>k path. tp (snd (net_metadata K path k)) = tp k)
     \<and> (\<forall>k path. fst (net_exists K path k) = tp_paths (tp k) path)
     \<and> (\<forall>k path. tp (snd (net_exists K path k)) = tp k)
     \<and> (\<forall>k. fst (net_getifaddrs K k) = tp_links (tp k))
     \<and> (\<forall>k. tp (snd (net_getifaddrs K k)) = tp k)
     \<and> (\<forall>k rs. tp_routes (tp k) = Some rs \<longrightarrow> list_all printable_iface rs)"

definition attached :: "topology \<Rightarrow> string \<Rightarrow> bool" where
  "attached t n \<longleftrightarrow> tp_paths t (''/sys/class/net/'' @ n @ ''/master'')
     \<or> tp_paths t (''/sys/class/net/'' @ n @ ''/bridge'') \<or> tp_paths t (''/sys/class/net/'' @ n @ ''/bonding'')"

text \<open>
  The isolation the launcher requires: valid, distinct names; a namespace other than that of
  process 1; IPv6 off everywhere; no default route; no interface but the loopback, which is
  down, and the named ones, each up, without an IPv4 or a global IPv6 address and attached to
  nothing.
\<close>

definition isolated :: "topology \<Rightarrow> string list \<Rightarrow> bool \<Rightarrow> bool" where
  "isolated t names compare_pid_one \<longleftrightarrow>
     names \<noteq> [] \<and> distinct names \<and> (\<forall>n \<in> set names. valid_interface_name n)
     \<and> (compare_pid_one \<longrightarrow> (\<exists>a b. tp_self_ns t = Some a \<and> tp_init_ns t = Some b \<and> a \<noteq> b))
     \<and> (\<forall>s \<in> {''all'', ''default'', ''lo''} \<union> set names. map_option trim (tp_ipv6 t s) = Some ''1'')
     \<and> (\<exists>rs. tp_routes t = Some rs \<and> \<not> (\<exists>r \<in> set rs. default_route r))
     \<and> (\<exists>ls. tp_links t = Some ls \<and> (\<forall>n \<in> item_names ls. utf8_valid n)
          \<and> item_names ls = insert ''lo'' (set names)
          \<and> ia_loopback (summary ls ''lo'') \<and> \<not> ia_up (summary ls ''lo'')
          \<and> (\<forall>n \<in> set names. \<not> ia_loopback (summary ls n) \<and> ia_up (summary ls n)
               \<and> \<not> ia_ipv4 (summary ls n) \<and> \<not> ia_global_ipv6 (summary ls n) \<and> \<not> attached t n))"

text \<open>
  What the route reader sees of a topology: it takes every line that begins with \<open>Iface\<close> for the
  header of the table, so that the routes of an interface with that name are not read.
\<close>

definition listed_routes :: "topology \<Rightarrow> topology" where
  "listed_routes t = t\<lparr>tp_routes := map_option (filter (\<lambda>r. kr_iface r \<noteq> ''Iface'')) (tp_routes t)\<rparr>"

lemma listed_routes_all:
  "\<forall>rs. tp_routes t = Some rs \<longrightarrow> (\<forall>r \<in> set rs. kr_iface r \<noteq> ''Iface'') \<Longrightarrow> listed_routes t = t"
  by (cases "tp_routes t") (auto simp: listed_routes_def)

lemma listed_routes_same [simp]:
  "tp_ipv6 (listed_routes t) = tp_ipv6 t" "tp_links (listed_routes t) = tp_links t"
  "tp_self_ns (listed_routes t) = tp_self_ns t" "tp_init_ns (listed_routes t) = tp_init_ns t"
  "attached (listed_routes t) = attached t"
  "tp_routes (listed_routes t) = map_option (filter (\<lambda>r. kr_iface r \<noteq> ''Iface'')) (tp_routes t)"
  by (simp_all add: listed_routes_def attached_def fun_eq_iff)

lemma net_lawsD:
  assumes "net_laws K tp"
  shows "fst (net_read_to_string K (ipv6_path scope) k) = tp_ipv6 (tp k) scope"
    "fst (net_read_to_string K ''/proc/net/route'' k) = map_option route_table_text (tp_routes (tp k))"
    "tp (snd (net_read_to_string K path k)) = tp k"
    "fst (net_metadata K ''/proc/self/ns/net'' k) = tp_self_ns (tp k)"
    "fst (net_metadata K ''/proc/1/ns/net'' k) = tp_init_ns (tp k)"
    "tp (snd (net_metadata K path k)) = tp k"
    "fst (net_exists K path k) = tp_paths (tp k) path"
    "tp (snd (net_exists K path k)) = tp k"
    "fst (net_getifaddrs K k) = tp_links (tp k)"
    "tp (snd (net_getifaddrs K k)) = tp k"
    "tp_routes (tp k) = Some rs \<Longrightarrow> list_all printable_iface rs"
  using assms unfolding net_laws_def by auto

lemma io_then_fst: "fst (io_then m f k) = Inr y \<longleftrightarrow>
    (\<exists>x. fst (m k) = Inr x \<and> fst (f x (snd (m k))) = Inr y)"
  by (auto simp: io_then_def split: prod.splits sum.splits)

lemma io_then_snd: "(\<And>x k. tp (snd (f x k)) = tp k) \<Longrightarrow> tp (snd (io_then m f k)) = tp (snd (m k))"
  by (auto simp: io_then_def split: prod.splits sum.splits)

lemma ipv6_loop_iff:
  assumes "net_laws K tp"
  shows "fst (ipv6_loop K scopes k) = Inr () \<longleftrightarrow>
      (\<forall>s \<in> set scopes. map_option trim (tp_ipv6 (tp k) s) = Some ''1'')"
    and "tp (snd (ipv6_loop K scopes k)) = tp k"
  by (induction scopes arbitrary: k)
    (auto simp: io_call_fst_snd net_lawsD [OF assms] split: option.splits)

lemma attachment_iff:
  assumes "net_laws K tp"
  shows "fst (has_master_or_virtual_attachment K n k) \<longleftrightarrow> attached (tp k) n"
    and "tp (snd (has_master_or_virtual_attachment K n k)) = tp k"
  by (simp_all add: has_master_or_virtual_attachment_def Let_def io_call_fst_snd net_lawsD [OF assms]
      attached_def)

lemma find_summary: "find (\<lambda>e. ia_name e = n) (map (summary ls) ns) =
    (if n \<in> set ns then Some (summary ls n) else None)"
  by (induction ns) auto

lemma names_loop_iff:
  assumes "net_laws K tp" "set names \<subseteq> set ns"
  shows "fst (names_loop K (map (summary ls) ns) names k) = Inr () \<longleftrightarrow>
      (\<forall>n \<in> set names. \<not> ia_loopback (summary ls n) \<and> ia_up (summary ls n)
         \<and> \<not> ia_ipv4 (summary ls n) \<and> \<not> ia_global_ipv6 (summary ls n) \<and> \<not> attached (tp k) n)"
    and "tp (snd (names_loop K (map (summary ls) ns) names k)) = tp k"
  using assms(2)
  by (induction names arbitrary: k)
    (auto simp: io_call_fst_snd find_summary attachment_iff [OF assms(1)])

lemma interface_addresses_fst:
  assumes "net_laws K tp"
  shows "fst (interface_addresses K k) =
      (case tp_links (tp k) of None \<Rightarrow> Inl Interface | Some ls \<Rightarrow> addresses_loop [] ls)"
    and "tp (snd (interface_addresses K k)) = tp k"
  by (simp_all add: interface_addresses_def io_call_fst_snd net_lawsD [OF assms] split: option.splits)

lemma addresses_loop_start:
  "addresses_loop [] ls = Inr es \<Longrightarrow>
     (\<forall>n \<in> item_names ls. utf8_valid n) \<and> (\<exists>ns. set ns = item_names ls \<and> es = map (summary ls) ns)"
  "\<forall>n \<in> item_names ls. utf8_valid n \<Longrightarrow>
     \<exists>ns. set ns = item_names ls \<and> addresses_loop [] ls = Inr (map (summary ls) ns)"
proof -
  have start: "case addresses_loop [] ls of
      Inl e \<Rightarrow> e = Interface \<and> (\<exists>i \<in> set ls. \<exists>n. ifa_name i = Some n \<and> \<not> utf8_valid n)
    | Inr es \<Rightarrow> (\<forall>i \<in> set ls. \<forall>n. ifa_name i = Some n \<longrightarrow> utf8_valid n)
        \<and> (\<exists>ns'. distinct ns' \<and> set ns' = item_names ls \<and> es = map (summary ls) ns')"
    using addresses_loop_summary [of "[]" "[]" ls] unfolding append_Nil list.map by simp
  {
    assume "addresses_loop [] ls = Inr es"
    with start show "(\<forall>n \<in> item_names ls. utf8_valid n)
        \<and> (\<exists>ns. set ns = item_names ls \<and> es = map (summary ls) ns)"
      by (auto simp: item_names_def)
  next
    assume "\<forall>n \<in> item_names ls. utf8_valid n"
    with start show "\<exists>ns. set ns = item_names ls \<and> addresses_loop [] ls = Inr (map (summary ls) ns)"
      by (cases "addresses_loop [] ls") (auto simp: item_names_def)
  }
qed

lemma interface_addresses_iff:
  assumes "net_laws K tp"
  shows "fst (interface_addresses K k) = Inr es \<Longrightarrow> \<exists>ls ns. tp_links (tp k) = Some ls
      \<and> (\<forall>n \<in> item_names ls. utf8_valid n) \<and> set ns = item_names ls \<and> es = map (summary ls) ns"
    and "tp_links (tp k) = Some ls \<Longrightarrow> \<forall>n \<in> item_names ls. utf8_valid n \<Longrightarrow>
      \<exists>ns. set ns = item_names ls \<and> fst (interface_addresses K k) = Inr (map (summary ls) ns)"
  using addresses_loop_start
  by (fastforce simp: interface_addresses_fst [OF assms] split: option.splits)+

text \<open>The stages of the check, one by one.\<close>

definition links_ok :: "topology \<Rightarrow> ifaddrs list \<Rightarrow> string list \<Rightarrow> bool" where
  "links_ok t ls names \<longleftrightarrow>
     item_names ls = insert ''lo'' (set names)
     \<and> ia_loopback (summary ls ''lo'') \<and> \<not> ia_up (summary ls ''lo'')
     \<and> (\<forall>n \<in> set names. \<not> ia_loopback (summary ls n) \<and> ia_up (summary ls n)
          \<and> \<not> ia_ipv4 (summary ls n) \<and> \<not> ia_global_ipv6 (summary ls n) \<and> \<not> attached t n)"

lemma check_links_iff:
  assumes laws: "net_laws K tp" and ns: "set ns = item_names ls"
  shows "fst (check_links K names (map (summary ls) ns) k) = Inr () \<longleftrightarrow> links_ok (tp k) ls names"
    and "tp (snd (check_links K names (map (summary ls) ns) k)) = tp k"
proof -
  have s: "set (map ia_name (map (summary ls) ns)) = item_names ls" by (simp add: ns [symmetric])
  note loop = names_loop_iff [OF laws, of names ns ls]
  show "fst (check_links K names (map (summary ls) ns) k) = Inr () \<longleftrightarrow> links_ok (tp k) ls names"
    unfolding check_links_def s using ns loop(1)
    by (auto simp: find_summary links_ok_def simp del: names_loop.simps)
  show "tp (snd (check_links K names (map (summary ls) ns) k)) = tp k"
    unfolding check_links_def s using ns loop(2)
    by (auto simp: find_summary simp del: names_loop.simps)
qed

lemma namespace_iff:
  assumes "net_laws K tp"
  shows "fst ((if compare then namespace_matches_pid_one K else io_ret (Inr False)) k) = Inr False \<longleftrightarrow>
      (compare \<longrightarrow> (\<exists>a b. tp_self_ns (tp k) = Some a \<and> tp_init_ns (tp k) = Some b \<and> a \<noteq> b))"
    and "tp (snd ((if compare then namespace_matches_pid_one K else io_ret (Inr False)) k)) = tp k"
  by (auto simp: namespace_matches_pid_one_def io_call_fst_snd net_lawsD [OF assms] prod_eq_iff
      split: option.splits)

lemma no_default_route_iff:
  assumes "net_laws K tp"
  shows "fst (verify_no_default_route K k) = Inr () \<longleftrightarrow>
      (\<exists>rs. tp_routes (listed_routes (tp k)) = Some rs \<and> \<not> (\<exists>r \<in> set rs. default_route r))"
  using net_lawsD(11) [OF assms, of k]
  by (auto simp: verify_no_default_route_def io_call_fst_snd net_lawsD [OF assms] route_text_iff
      split: option.splits)

lemma no_default_route_keeps: "net_laws K tp \<Longrightarrow> tp (snd (verify_no_default_route K k)) = tp k"
  by (auto simp: verify_no_default_route_def io_call_fst_snd net_lawsD split: option.splits)

lemma io_then_flag:
  "fst (io_then m (\<lambda>same. if same then io_ret (Inl e) else rest) k) = Inr y \<longleftrightarrow>
     fst (m k) = Inr False \<and> fst (rest (snd (m k))) = Inr y"
  by (auto simp: io_then_fst split: if_splits)

lemma io_guard_fst: "fst ((if \<not> g then io_ret (Inl e) else m) k) = Inr y \<longleftrightarrow> g \<and> fst (m k) = Inr y"
  by simp

lemma io_then_unit:
  "fst (io_then m (\<lambda>_. rest) k) = Inr y \<longleftrightarrow> fst (m k) = Inr () \<and> fst (rest (snd (m k))) = Inr y"
  by (auto simp: io_then_fst)

lemma listed_topology_iff:
  assumes laws: "net_laws K tp"
  shows "fst (verify_isolated_topology K requested compare k) = Inr () \<longleftrightarrow>
    isolated (listed_routes (tp k)) requested compare"
proof -
  let ?names = "remdups_adj (sort requested)"
  let ?k1 = "snd ((if compare then namespace_matches_pid_one K else io_ret (Inr False)) k)"
  let ?k2 = "snd (verify_ipv6_disabled K ?names ?k1)"
  let ?k3 = "snd (verify_no_default_route K ?k2)"
  let ?k4 = "snd (interface_addresses K ?k3)"
  have k1: "tp ?k1 = tp k" by (rule namespace_iff(2) [OF laws])
  have v6: "fst (verify_ipv6_disabled K ?names ?k1) = Inr () \<longleftrightarrow>
      (\<forall>s \<in> {''all'', ''default'', ''lo''} \<union> set requested. map_option trim (tp_ipv6 (tp k) s) = Some ''1'')"
    and k2: "tp ?k2 = tp k"
    using ipv6_loop_iff [OF laws] k1 by (auto simp: verify_ipv6_disabled_def simp del: ipv6_loop.simps)
  have rt: "fst (verify_no_default_route K ?k2) = Inr () \<longleftrightarrow>
      (\<exists>rs. tp_routes (listed_routes (tp k)) = Some rs \<and> \<not> (\<exists>r \<in> set rs. default_route r))"
    using no_default_route_iff [OF laws, of ?k2] k2 by simp
  have k3: "tp ?k3 = tp k" using no_default_route_keeps [OF laws] k2 by simp
  have k4: "tp ?k4 = tp k" using interface_addresses_fst(2) [OF laws] k3 by simp
  have lk: "(\<exists>es. fst (interface_addresses K ?k3) = Inr es \<and> fst (check_links K ?names es ?k4) = Inr ()) \<longleftrightarrow>
      (\<exists>ls. tp_links (tp k) = Some ls \<and> (\<forall>n \<in> item_names ls. utf8_valid n) \<and> links_ok (tp k) ls requested)"
    (is "?L \<longleftrightarrow> ?R")
  proof
    assume ?L
    then obtain es where es: "fst (interface_addresses K ?k3) = Inr es"
      "fst (check_links K ?names es ?k4) = Inr ()" by blast
    from interface_addresses_iff(1) [OF laws es(1)] k3 obtain ls ns where ls: "tp_links (tp k) = Some ls"
      "\<forall>n \<in> item_names ls. utf8_valid n" "set ns = item_names ls" "es = map (summary ls) ns" by auto
    with check_links_iff(1) [OF laws ls(3), of ?names ?k4] es(2) k4 show ?R by (auto simp: links_ok_def)
  next
    assume ?R
    then obtain ls where ls: "tp_links (tp ?k3) = Some ls" "\<forall>n \<in> item_names ls. utf8_valid n"
      "links_ok (tp k) ls requested" using k3 by auto
    from interface_addresses_iff(2) [OF laws ls(1,2)] obtain ns where
      ns: "set ns = item_names ls" "fst (interface_addresses K ?k3) = Inr (map (summary ls) ns)" by blast
    with check_links_iff(1) [OF laws ns(1), of ?names ?k4] ls(3) k4 show ?L by (auto simp: links_ok_def)
  qed
  have empty: "?names = [] \<longleftrightarrow> requested = []" by (metis remdups_adj_set set_empty set_sort)
  have stages: "fst (verify_isolated_topology K requested compare k) = Inr () \<longleftrightarrow>
      requested \<noteq> [] \<and> distinct requested \<and> (\<forall>n \<in> set requested. valid_interface_name n)
      \<and> fst ((if compare then namespace_matches_pid_one K else io_ret (Inr False)) k) = Inr False
      \<and> fst (verify_ipv6_disabled K ?names ?k1) = Inr () \<and> fst (verify_no_default_route K ?k2) = Inr ()
      \<and> (\<exists>es. fst (interface_addresses K ?k3) = Inr es \<and> fst (check_links K ?names es ?k4) = Inr ())"
  proof -
    have guard: "(?names = [] \<or> length ?names \<noteq> length requested
        \<or> list_ex (\<lambda>name. \<not> valid_interface_name name) ?names) \<longleftrightarrow>
        \<not> (requested \<noteq> [] \<and> distinct requested \<and> (\<forall>n \<in> set requested. valid_interface_name n))"
      unfolding sorted_set_length empty by (auto simp: list_ex_iff)
    show ?thesis
      unfolding verify_isolated_topology_def Let_def guard io_guard_fst io_then_flag io_then_unit
        io_then_fst [of "interface_addresses K"] by blast
  qed
  show ?thesis
    unfolding stages namespace_iff(1) [OF laws] v6 rt lk isolated_def links_ok_def listed_routes_same(1-5)
    by blast
qed

lemma topology_iff:
  assumes "net_laws K tp"
    and "\<forall>rs. tp_routes (tp k) = Some rs \<longrightarrow> (\<forall>r \<in> set rs. kr_iface r \<noteq> ''Iface'')"
  shows "fst (verify_isolated_topology K requested compare k) = Inr () \<longleftrightarrow> isolated (tp k) requested compare"
  using listed_topology_iff [OF assms(1)] listed_routes_all [OF assms(2)] by simp

text \<open>
  C22: Exactly the isolated topologies pass. While the network does not change under the
  checks, and no route is on an interface called \<open>Iface\<close>, \<open>verify_isolated_namespace\<close> accepts
  the named interfaces if and only if the topology is \<open>isolated\<close>, and the pass after the
  privilege drop accepts if and only if it is isolated but for the comparison with process 1.
\<close>

theorem isolation_exact:
  assumes "net_laws K tp"
    and "\<forall>rs. tp_routes (tp k) = Some rs \<longrightarrow> (\<forall>r \<in> set rs. kr_iface r \<noteq> ''Iface'')"
  shows "(fst (verify_isolated_namespace K names k) = Inr () \<longleftrightarrow> isolated (tp k) names True)
    \<and> (fst (verify_isolated_namespace_after_drop K names k) = Inr () \<longleftrightarrow> isolated (tp k) names False)"
  using topology_iff [OF assms]
  by (simp add: verify_isolated_namespace_def verify_isolated_namespace_after_drop_def)

text \<open>For the witness: a namespace with the loopback down and two bare interfaces up.\<close>

definition sample_topology :: topology where
  "sample_topology =
     \<lparr>tp_ipv6 = (\<lambda>_. Some (''1'' @ [CHR 0x0A])),
      tp_routes = Some [sample_route ''r8a'' 0x0A 0xFF],
      tp_links = Some
        [\<lparr>ifa_name = Some ''lo'', ifa_flags = 0x8, ifa_addr = Some Sa_other\<rparr>,
         \<lparr>ifa_name = Some ''r8a'', ifa_flags = 0x1043, ifa_addr = Some Sa_other\<rparr>,
         \<lparr>ifa_name = Some ''r8b'', ifa_flags = 0x1043, ifa_addr = Some Sa_other\<rparr>],
      tp_self_ns = Some (7, 4), tp_init_ns = Some (1, 4), tp_paths = (\<lambda>_. False)\<rparr>"

definition sample_net_kernel :: "'k net_kernel" where
  "sample_net_kernel =
     \<lparr>net_read_to_string = (\<lambda>path k.
        (if path = ''/proc/net/route'' then Some (route_table_text [sample_route ''r8a'' 0x0A 0xFF])
         else Some (''1'' @ [CHR 0x0A]), k)),
      net_metadata = (\<lambda>path k. (if path = ''/proc/1/ns/net'' then Some (1, 4) else Some (7, 4), k)),
      net_exists = (\<lambda>_ k. (False, k)),
      net_getifaddrs = (\<lambda>k. (tp_links sample_topology, k))\<rparr>"

lemma sample_net_laws: "net_laws sample_net_kernel (\<lambda>_. sample_topology)"
  unfolding net_laws_def
  by (simp add: sample_net_kernel_def sample_topology_def ipv6_path_def sample_route_def
      printable_iface_def ascii_simps)

lemma sample_links:
  obtains ls where "tp_links sample_topology = Some ls" "item_names ls = insert ''lo'' (set [''r8a'', ''r8b''])"
  by (auto simp: item_names_def sample_topology_def)

lemma sample_isolated: "isolated sample_topology [''r8a'', ''r8b''] c"
proof -
  have one: "trim (''1'' @ [CHR 0x0A]) = ''1''" by (rule trim_word_newline) (simp add: ascii_simps)
  obtain ls where ls: "tp_links sample_topology = Some ls" and
    names: "item_names ls = insert ''lo'' (set [''r8a'', ''r8b''])" by (rule sample_links)
  have sum: "summary ls n = \<lparr>ia_name = n, ia_loopback = (n = ''lo''), ia_up = (n \<noteq> ''lo''),
      ia_ipv4 = False, ia_global_ipv6 = False\<rparr>" if "n \<in> insert ''lo'' (set [''r8a'', ''r8b''])" for n
    using that ls by (auto simp: sample_topology_def summary_def named_def global_address_def
        IFF_UP_def IFF_LOOPBACK_def)
  have free: "\<not> attached sample_topology n" for n by (simp add: sample_topology_def attached_def)
  have "valid_interface_name ''r8a''" "valid_interface_name ''r8b''"
    by (simp_all add: valid_interface_name_def IFNAMSIZ_def ascii_simps)
  moreover have "\<exists>rs. tp_routes sample_topology = Some rs \<and> \<not> (\<exists>r \<in> set rs. default_route r)"
    by (simp add: sample_topology_def sample_route_def default_route_def)
  moreover have "map_option trim (tp_ipv6 sample_topology s) = Some ''1''" for s
    using one by (simp add: sample_topology_def)
  moreover have "tp_self_ns sample_topology = Some (7, 4)" "tp_init_ns sample_topology = Some (1, 4)"
    by (simp_all add: sample_topology_def)
  moreover have "\<exists>ls. tp_links sample_topology = Some ls \<and> (\<forall>n \<in> item_names ls. utf8_valid n)
      \<and> links_ok sample_topology ls [''r8a'', ''r8b'']"
    using ls names sum free by (intro exI [of _ ls]) (simp add: links_ok_def)
  ultimately show ?thesis
    unfolding isolated_def links_ok_def by (intro conjI) simp_all
qed

theorem isolation_exact_witness:
  "fst (verify_isolated_namespace sample_net_kernel [''r8a'', ''r8b''] ()) = Inr ()
   \<and> fst (verify_isolated_namespace sample_net_kernel [''r8a''] ()) \<noteq> Inr ()"
proof -
  obtain ls where ls: "tp_links sample_topology = Some ls" and
    names: "item_names ls = insert ''lo'' (set [''r8a'', ''r8b''])" by (rule sample_links)
  have "\<not> isolated sample_topology [''r8a''] True"
  proof -
    have "''r8b'' \<in> item_names ls" "''r8b'' \<notin> insert ''lo'' (set [''r8a''])" using names by simp_all
    then have "item_names ls \<noteq> insert ''lo'' (set [''r8a''])" by metis
    then show ?thesis unfolding isolated_def using ls by (metis option.inject)
  qed
  moreover have "\<forall>rs. tp_routes sample_topology = Some rs \<longrightarrow> (\<forall>r \<in> set rs. kr_iface r \<noteq> ''Iface'')"
    by (simp add: sample_topology_def sample_route_def)
  ultimately show ?thesis
    using isolation_exact [OF sample_net_laws, of "[''r8a'', ''r8b'']" "()"] sample_isolated
      isolation_exact [OF sample_net_laws, of "[''r8a'']" "()"] by simp
qed

end
