(* ===== verification/Linux_Socket.thy ===== *)
theory Linux_Socket
  imports Linux_Net
begin

text \<open>
  The packet socket of the launcher (\<open>src/rust/crates/r8d/src/linux.rs\<close>): the seven
  instructions of its classic BPF filter and \<open>open_filtered_descriptor\<close>, which binds a raw
  socket to one interface, attaches and locks the filter and proves the lock by trying to
  remove it. The filter machine and the socket calls belong to the kernel and are parameters
  with their documented behaviour (\<open>bpf_laws\<close>, \<open>socket_laws\<close>). The theorems say which frames
  pass, that no frame the forwarder would act on is lost in the filter, and that an open
  either leaves exactly one locked, filtered, bound socket or none at all.
\<close>

section \<open>The filter\<close>

record sock_filter =
  sf_code :: u16
  sf_jt :: u8
  sf_jf :: u8
  sf_k :: u32

definition ETH_P_R8 :: u16 where "ETH_P_R8 = 0x88b5"
definition R8_VERSION_MASK :: u32 where "R8_VERSION_MASK = 0xf0"
definition R8_VERSION_NIBBLE :: u32 where "R8_VERSION_NIBBLE = 0x80"

definition r8_bpf_program :: "sock_filter list" where
  "r8_bpf_program =
     [\<lparr>sf_code = 0x28, sf_jt = 0, sf_jf = 0, sf_k = 12\<rparr>,
      \<lparr>sf_code = 0x15, sf_jt = 0, sf_jf = 4, sf_k = ucast ETH_P_R8\<rparr>,
      \<lparr>sf_code = 0x30, sf_jt = 0, sf_jf = 0, sf_k = 14\<rparr>,
      \<lparr>sf_code = 0x54, sf_jt = 0, sf_jf = 0, sf_k = R8_VERSION_MASK\<rparr>,
      \<lparr>sf_code = 0x15, sf_jt = 0, sf_jf = 1, sf_k = R8_VERSION_NIBBLE\<rparr>,
      \<lparr>sf_code = 0x06, sf_jt = 0, sf_jf = 0, sf_k = 0xFFFFFFFF\<rparr>,
      \<lparr>sf_code = 0x06, sf_jt = 0, sf_jf = 0, sf_k = 0\<rparr>]"

text \<open>
  The documented classic BPF semantics of the opcodes used, on the machine's program counter
  and accumulator: load half word and load byte at an absolute offset (a load past the end of
  the packet drops it), \<open>and\<close> with a constant, jump if equal to a constant, return a constant
  (how much of the packet to keep, zero to drop it).
\<close>

definition bpf_laws :: "(sock_filter list \<Rightarrow> bytes \<Rightarrow> nat \<Rightarrow> u32 \<Rightarrow> u32) \<Rightarrow> bool" where
  "bpf_laws exec \<longleftrightarrow>
     (\<forall>prog pkt pc acc. pc < length prog \<longrightarrow>
        (let ins = prog ! pc; at = unat (sf_k ins) in
          (sf_code ins = 0x28 \<longrightarrow> exec prog pkt pc acc =
             (if at + 2 \<le> length pkt then exec prog pkt (Suc pc) (from_be (slice_of at (at + 2) pkt)) else 0))
          \<and> (sf_code ins = 0x30 \<longrightarrow> exec prog pkt pc acc =
             (if at + 1 \<le> length pkt then exec prog pkt (Suc pc) (ucast (pkt ! at)) else 0))
          \<and> (sf_code ins = 0x54 \<longrightarrow> exec prog pkt pc acc = exec prog pkt (Suc pc) (acc AND sf_k ins))
          \<and> (sf_code ins = 0x15 \<longrightarrow> exec prog pkt pc acc =
             exec prog pkt (Suc pc + unat (if acc = sf_k ins then sf_jt ins else sf_jf ins)) acc)
          \<and> (sf_code ins = 0x06 \<longrightarrow> exec prog pkt pc acc = sf_k ins)))"

lemma bpf_lawsD:
  assumes "bpf_laws exec" "pc < length prog"
  shows "sf_code (prog ! pc) = 0x28 \<Longrightarrow> exec prog pkt pc acc =
      (if unat (sf_k (prog ! pc)) + 2 \<le> length pkt
       then exec prog pkt (Suc pc) (from_be (slice_of (unat (sf_k (prog ! pc))) (unat (sf_k (prog ! pc)) + 2) pkt))
       else 0)"
    and "sf_code (prog ! pc) = 0x30 \<Longrightarrow> exec prog pkt pc acc =
      (if unat (sf_k (prog ! pc)) + 1 \<le> length pkt
       then exec prog pkt (Suc pc) (ucast (pkt ! unat (sf_k (prog ! pc)))) else 0)"
    and "sf_code (prog ! pc) = 0x54 \<Longrightarrow> exec prog pkt pc acc = exec prog pkt (Suc pc) (acc AND sf_k (prog ! pc))"
    and "sf_code (prog ! pc) = 0x15 \<Longrightarrow> exec prog pkt pc acc =
      exec prog pkt (Suc pc + unat (if acc = sf_k (prog ! pc) then sf_jt (prog ! pc) else sf_jf (prog ! pc))) acc"
    and "sf_code (prog ! pc) = 0x06 \<Longrightarrow> exec prog pkt pc acc = sf_k (prog ! pc)"
  using assms unfolding bpf_laws_def Let_def by metis+

lemma filter_run:
  assumes "bpf_laws exec"
  shows "exec r8_bpf_program pkt 0 acc =
    (if 14 \<le> length pkt \<and> (from_be (slice_of 12 14 pkt) :: u32) = 0x88b5 \<and> 15 \<le> length pkt
        \<and> (ucast (pkt ! 14) :: u32) AND 0xf0 = 0x80
     then 0xFFFFFFFF else 0)"
proof -
  let ?p = r8_bpf_program
  have len: "length ?p = 7" by (simp add: r8_bpf_program_def)
  have ins: "?p ! 0 = \<lparr>sf_code = 0x28, sf_jt = 0, sf_jf = 0, sf_k = 12\<rparr>"
    "?p ! Suc 0 = \<lparr>sf_code = 0x15, sf_jt = 0, sf_jf = 4, sf_k = 0x88b5\<rparr>"
    "?p ! 2 = \<lparr>sf_code = 0x30, sf_jt = 0, sf_jf = 0, sf_k = 14\<rparr>"
    "?p ! 3 = \<lparr>sf_code = 0x54, sf_jt = 0, sf_jf = 0, sf_k = 0xf0\<rparr>"
    "?p ! 4 = \<lparr>sf_code = 0x15, sf_jt = 0, sf_jf = 1, sf_k = 0x80\<rparr>"
    "?p ! 5 = \<lparr>sf_code = 0x06, sf_jt = 0, sf_jf = 0, sf_k = 0xFFFFFFFF\<rparr>"
    "?p ! 6 = \<lparr>sf_code = 0x06, sf_jt = 0, sf_jf = 0, sf_k = 0\<rparr>"
    by (simp_all add: r8_bpf_program_def ETH_P_R8_def R8_VERSION_MASK_def R8_VERSION_NIBBLE_def)
  note law = bpf_lawsD [OF assms, where prog = ?p and pkt = pkt, unfolded len]
  have "exec ?p pkt 6 a = 0" "exec ?p pkt 5 a = 0xFFFFFFFF" for a
    using law(5) [of 6 a] law(5) [of 5 a] by (simp_all add: ins)
  moreover have "exec ?p pkt 4 a = exec ?p pkt (if a = 0x80 then 5 else 6) a" for a
    using law(4) [of 4 a] by (simp add: ins)
  moreover have "exec ?p pkt 3 a = exec ?p pkt 4 (a AND 0xf0)" for a
    using law(3) [of 3 a] by (simp add: ins)
  moreover have "exec ?p pkt 2 a = (if 15 \<le> length pkt then exec ?p pkt 3 (ucast (pkt ! 14)) else 0)" for a
    using law(2) [of 2 a] by (simp add: ins)
  moreover have "exec ?p pkt 1 a = exec ?p pkt (if a = 0x88b5 then 2 else 6) a" for a
    using law(4) [of "Suc 0" a] by (simp add: ins numeral_2_eq_2 [symmetric])
  moreover have "exec ?p pkt 0 a = (if 14 \<le> length pkt then exec ?p pkt 1 (from_be (slice_of 12 14 pkt)) else 0)" for a
    using law(1) [of 0 a] by (simp add: ins)
  ultimately show ?thesis by simp
qed

text \<open>For the witness: the machine itself, whose jumps only go forward.\<close>

function bpf_exec :: "sock_filter list \<Rightarrow> bytes \<Rightarrow> nat \<Rightarrow> u32 \<Rightarrow> u32" where
  "bpf_exec prog pkt pc acc =
     (if length prog \<le> pc then 0
      else
        let ins = prog ! pc; at = unat (sf_k ins) in
        if sf_code ins = 0x28 then
          (if at + 2 \<le> length pkt then bpf_exec prog pkt (Suc pc) (from_be (slice_of at (at + 2) pkt)) else 0)
        else if sf_code ins = 0x30 then
          (if at + 1 \<le> length pkt then bpf_exec prog pkt (Suc pc) (ucast (pkt ! at)) else 0)
        else if sf_code ins = 0x54 then bpf_exec prog pkt (Suc pc) (acc AND sf_k ins)
        else if sf_code ins = 0x15 then
          bpf_exec prog pkt (Suc pc + unat (if acc = sf_k ins then sf_jt ins else sf_jf ins)) acc
        else if sf_code ins = 0x06 then sf_k ins
        else 0)"
  by pat_completeness auto
termination by (relation "measure (\<lambda>(prog, pkt, pc, acc). length prog - pc)") auto

declare bpf_exec.simps [simp del]

lemma bpf_exec_laws: "bpf_laws bpf_exec"
  unfolding bpf_laws_def Let_def
  by (intro allI impI conjI) (simp_all add: bpf_exec.simps [of _ _ "_ :: nat"] Let_def)

lemma r8_ethertype_bytes: "u16_to_be_bytes R8_ETHERTYPE = [0x88, 0xb5]"
  by (simp add: to_be_2 R8_ETHERTYPE_def)

lemma ethertype_slice:
  assumes "14 \<le> length pkt"
  shows "(from_be (slice_of 12 14 pkt) :: u32) = 0x88b5 \<longleftrightarrow> slice_of 12 14 pkt = u16_to_be_bytes R8_ETHERTYPE"
proof -
  have t: "to_be 2 (0x88b5 :: u32) = [0x88, 0xb5]" by (simp add: to_be_2)
  have "to_be 2 (from_be (slice_of 12 14 pkt) :: u32) = slice_of 12 14 pkt"
    by (rule to_be_from_be) (use assms in simp_all)
  moreover have "(from_be [0x88, 0xb5] :: u32) = 0x88b5" by (simp add: from_be_def)
  ultimately show ?thesis by (metis t r8_ethertype_bytes)
qed

lemma masked_version: "(ucast (b :: u8) :: u32) AND 0xf0 = 0x80 \<longleftrightarrow> drop_bit 4 b = VERSION"
proof -
  have "\<forall>n < 256. ((of_nat n :: u32) AND 0xf0 = 0x80) = (n div 16 = 8)"
    by code_simp
  moreover have "unat b < 256" using unsigned_less [of b] by simp
  moreover have "(ucast b :: u32) = of_nat (unat b)" by (simp add: unsigned_def)
  moreover have "drop_bit 4 b = VERSION \<longleftrightarrow> unat b div 16 = 8"
    by (simp add: VERSION_def word_unat_eq_iff unat_div drop_bit_eq_div)
  ultimately show ?thesis by metis
qed

text \<open>
  A frame is an R8 frame: an Ethernet header with the R8 type and at least one byte of payload
  whose high nibble is the version.
\<close>

definition r8_frame :: "bytes \<Rightarrow> bool" where
  "r8_frame frame \<longleftrightarrow> 15 \<le> length frame \<and> slice_of 12 14 frame = u16_to_be_bytes R8_ETHERTYPE
     \<and> drop_bit 4 (frame ! 14) = VERSION"

lemma filter_passes:
  assumes "bpf_laws exec"
  shows "exec r8_bpf_program frame 0 acc = (if r8_frame frame then 0xFFFFFFFF else 0)"
  using filter_run [OF assms, of frame acc] ethertype_slice [of frame] masked_version
  by (auto simp: r8_frame_def)

lemma acted_on_is_r8:
  assumes "\<forall>r. process_frame m budgets ingress frame \<noteq> Drop r"
  shows "r8_frame frame"
proof -
  from assms have len: "\<not> length frame < 14" and ty: "slice_of 12 14 frame = u16_to_be_bytes R8_ETHERTYPE"
    by (auto simp: process_frame_def ETHERNET_II_HEADER_LEN_def split: if_splits)
  from assms obtain b h p where u: "unpack_with_budget (drop 14 frame) b = Inr (h, p)"
    unfolding process_frame_def ETHERNET_II_HEADER_LEN_def Let_def
    by (auto split: if_splits option.splits sum.splits)
  from unpack_length [OF this] have "48 \<le> length (drop 14 frame)" by simp
  moreover have "drop_bit 4 (drop 14 frame ! 0) = VERSION"
    using u by (auto simp: unpack_with_budget_def Let_def and_then_Inr split: if_splits)
  ultimately show ?thesis using len ty by (simp add: r8_frame_def)
qed

text \<open>
  C23: The socket filter is exact and loses nothing. On any machine with the classic BPF
  semantics the program keeps the whole of a frame that has the R8 Ethernet type and the R8
  version nibble, and drops every other frame, the short ones included; and every frame that
  \<open>process_frame\<close> would deliver or forward, under any manifest, passes it.
\<close>

theorem socket_filter_exact:
  assumes "bpf_laws exec"
  shows "exec r8_bpf_program frame 0 0 = (if r8_frame frame then 0xFFFFFFFF else 0)
    \<and> ((\<forall>r. process_frame m budgets ingress frame \<noteq> Drop r) \<longrightarrow>
          exec r8_bpf_program frame 0 0 = 0xFFFFFFFF)"
  using filter_passes [OF assms] acted_on_is_r8 by auto

theorem socket_filter_exact_witness:
  "bpf_laws bpf_exec
   \<and> bpf_exec r8_bpf_program (replicate 12 0 @ [0x88, 0xb5, 0x81]) 0 0 = 0xFFFFFFFF
   \<and> bpf_exec r8_bpf_program (replicate 12 0 @ [0x88, 0xb5, 0x41]) 0 0 = 0
   \<and> bpf_exec r8_bpf_program (replicate 12 0 @ [0x88, 0xb5]) 0 0 = 0"
proof -
  have "r8_frame (replicate 12 0 @ [0x88, 0xb5, 0x81])" "\<not> r8_frame (replicate 12 0 @ [0x88, 0xb5, 0x41])"
    "\<not> r8_frame (replicate 12 0 @ [0x88, 0xb5])"
    by (simp_all add: r8_frame_def r8_ethertype_bytes slice_of_def VERSION_def nth_append)
  then show ?thesis using socket_filter_exact [OF bpf_exec_laws] bpf_exec_laws by simp
qed

section \<open>The packet socket\<close>

text \<open>The constants of \<open>libc\<close> that the calls take.\<close>

definition AF_INET :: int where "AF_INET = 2"
definition AF_PACKET :: int where "AF_PACKET = 17"
definition SOCK_DGRAM :: int where "SOCK_DGRAM = 2"
definition SOCK_RAW :: int where "SOCK_RAW = 3"
definition SOCK_NONBLOCK :: int where "SOCK_NONBLOCK = 0x800"
definition SOCK_CLOEXEC :: int where "SOCK_CLOEXEC = 0x80000"
definition SIOCGIFINDEX :: int where "SIOCGIFINDEX = 0x8933"
definition SIOCGIFMTU :: int where "SIOCGIFMTU = 0x8921"
definition SIOCGIFHWADDR :: int where "SIOCGIFHWADDR = 0x8927"
definition SOL_SOCKET :: int where "SOL_SOCKET = 1"
definition EPERM :: int where "EPERM = 1"

definition SOL_PACKET :: int where "SOL_PACKET = 263"
definition PACKET_IGNORE_OUTGOING :: int where "PACKET_IGNORE_OUTGOING = 23"
definition SO_ATTACH_FILTER :: int where "SO_ATTACH_FILTER = 26"
definition SO_DETACH_FILTER :: int where "SO_DETACH_FILTER = 27"
definition SO_LOCK_FILTER :: int where "SO_LOCK_FILTER = 44"

text \<open>\<open>u16::to_be\<close> on the little-endian targets of the launcher.\<close>

definition u16_to_be :: "u16 \<Rightarrow> u16" where
  "u16_to_be w = from_be (rev (to_be 2 w))"

record sockaddr_ll =
  sll_protocol :: u16
  sll_ifindex :: int

text \<open>The union \<open>IfReqData\<close>, by the field the code reads after each request.\<close>

record if_req_data =
  ifr_value :: int
  ifr_sa_data :: bytes

datatype sockopt = Opt_program "sock_filter list" | Opt_int int

text \<open>\<open>sk_setsockopt\<close> returns its result and the error number.\<close>

record 'k socket_kernel =
  sk_socket :: "int \<Rightarrow> int \<Rightarrow> int \<Rightarrow> 'k \<Rightarrow> int \<times> 'k"
  sk_close :: "int \<Rightarrow> 'k \<Rightarrow> 'k"
  sk_ioctl :: "int \<Rightarrow> int \<Rightarrow> bytes \<Rightarrow> 'k \<Rightarrow> (int \<times> if_req_data) \<times> 'k"
  sk_bind :: "int \<Rightarrow> sockaddr_ll \<Rightarrow> 'k \<Rightarrow> int \<times> 'k"
  sk_setsockopt :: "int \<Rightarrow> int \<Rightarrow> int \<Rightarrow> sockopt \<Rightarrow> 'k \<Rightarrow> (int \<times> int) \<times> 'k"

record filtered_descriptor =
  fdesc_fd :: int
  fdesc_ifindex :: int
  fdesc_mtu :: int
  fdesc_local_mac :: bytes

text \<open>A descriptor closed on every way out of the function that holds it.\<close>

definition scoped :: "(int \<Rightarrow> 'k \<Rightarrow> 'k) \<Rightarrow> int \<Rightarrow> ('k \<Rightarrow> 'a \<times> 'k) \<Rightarrow> 'k \<Rightarrow> 'a \<times> 'k" where
  "scoped close fd m k = (case m k of (r, k) \<Rightarrow> (r, close fd k))"

text \<open>The name copied into the sixteen zeroed slots of the request.\<close>

definition if_req_name :: "string \<Rightarrow> bytes" where
  "if_req_name name = take IFNAMSIZ (map of_char name @ replicate IFNAMSIZ 0)"

definition interface_details ::
    "'k socket_kernel \<Rightarrow> string \<Rightarrow> 'k \<Rightarrow> (LinuxError + int \<times> int \<times> bytes) \<times> 'k" where
  "interface_details K name =
     io_call (sk_socket K AF_INET (SOCK_DGRAM OR SOCK_CLOEXEC) 0) (\<lambda>control.
       if control < 0 then io_ret (Inl Socket)
       else scoped (sk_close K) control
         (io_call (sk_ioctl K control SIOCGIFINDEX (if_req_name name)) (\<lambda>(r, data).
          if r \<noteq> 0 then io_ret (Inl Interface)
          else let ifindex = ifr_value data in
            io_call (sk_ioctl K control SIOCGIFMTU (if_req_name name)) (\<lambda>(r, data).
            if r \<noteq> 0 then io_ret (Inl Interface)
            else let mtu = ifr_value data in
              io_call (sk_ioctl K control SIOCGIFHWADDR (if_req_name name)) (\<lambda>(r, data).
              if r \<noteq> 0 then io_ret (Inl Interface)
              else io_ret (Inr (ifindex, mtu, take 6 (ifr_sa_data data))))))))"

definition set_socket_option ::
    "'k socket_kernel \<Rightarrow> int \<Rightarrow> int \<Rightarrow> int \<Rightarrow> sockopt \<Rightarrow> 'k \<Rightarrow> (LinuxError + unit) \<times> 'k" where
  "set_socket_option K fd level opt_name value =
     io_call (sk_setsockopt K fd level opt_name value) (\<lambda>(r, _).
       if r \<noteq> 0 then io_ret (Inl Socket) else io_ret (Inr ()))"

definition open_filtered_descriptor ::
    "'k socket_kernel \<Rightarrow> string \<Rightarrow> 'k \<Rightarrow> (LinuxError + filtered_descriptor) \<times> 'k" where
  "open_filtered_descriptor K name =
     (if \<not> valid_interface_name name then io_ret (Inl Interface)
      else io_then (interface_details K name) (\<lambda>(ifindex, mtu, local_mac).
        if ifindex \<le> 0 \<or> mtu \<le> 0 then io_ret (Inl Interface)
        else
          io_call (sk_socket K AF_PACKET (SOCK_RAW OR SOCK_NONBLOCK OR SOCK_CLOEXEC)
            (uint (u16_to_be ETH_P_R8))) (\<lambda>fd.
          if fd < 0 then io_ret (Inl Socket)
          else owning (sk_close K) fd
            (io_then (zero_or Socket (sk_bind K fd
               \<lparr>sll_protocol = u16_to_be ETH_P_R8, sll_ifindex = ifindex\<rparr>)) (\<lambda>_.
             io_then (set_socket_option K fd SOL_SOCKET SO_ATTACH_FILTER (Opt_program r8_bpf_program)) (\<lambda>_.
             io_then (set_socket_option K fd SOL_PACKET PACKET_IGNORE_OUTGOING (Opt_int 1)) (\<lambda>_.
             io_then (set_socket_option K fd SOL_SOCKET SO_LOCK_FILTER (Opt_int 1)) (\<lambda>_.
             io_call (sk_setsockopt K fd SOL_SOCKET SO_DETACH_FILTER (Opt_int 1)) (\<lambda>(detach, errno).
             if detach = 0 \<or> errno \<noteq> EPERM then io_ret (Inl Socket)
             else io_ret (Inr \<lparr>fdesc_fd = fd, fdesc_ifindex = ifindex, fdesc_mtu = mtu,
               fdesc_local_mac = local_mac\<rparr>))))))))))"

section \<open>What an open leaves behind\<close>

text \<open>
  The kernel's view of an open socket, and the documented effect of the calls on it
  (\<open>socket(2)\<close>, \<open>packet(7)\<close>, \<open>socket(7)\<close>): a call that fails changes nothing, and a locked
  filter cannot be removed or replaced.
\<close>

record sock_view =
  sv_binding :: "sockaddr_ll option"
  sv_filter :: "sock_filter list option"
  sv_ignore_outgoing :: bool
  sv_locked :: bool

definition fresh_socket :: sock_view where
  "fresh_socket = \<lparr>sv_binding = None, sv_filter = None, sv_ignore_outgoing = False, sv_locked = False\<rparr>"

text \<open>The view after a successful \<open>setsockopt\<close> with the options the launcher uses.\<close>

definition option_effect :: "int \<Rightarrow> int \<Rightarrow> sockopt \<Rightarrow> sock_view \<Rightarrow> sock_view" where
  "option_effect level opt_name value v =
     (if level = SOL_SOCKET \<and> opt_name = SO_ATTACH_FILTER then
        (case value of Opt_program p \<Rightarrow> v\<lparr>sv_filter := Some p\<rparr> | Opt_int _ \<Rightarrow> v)
      else if level = SOL_SOCKET \<and> opt_name = SO_DETACH_FILTER then v\<lparr>sv_filter := None\<rparr>
      else if level = SOL_SOCKET \<and> opt_name = SO_LOCK_FILTER then v\<lparr>sv_locked := (value = Opt_int 1)\<rparr>
      else if level = SOL_PACKET \<and> opt_name = PACKET_IGNORE_OUTGOING
      then v\<lparr>sv_ignore_outgoing := (value = Opt_int 1)\<rparr>
      else v)"

definition socket_laws :: "'k socket_kernel \<Rightarrow> ('k \<Rightarrow> int \<Rightarrow> sock_view option) \<Rightarrow> bool" where
  "socket_laws K view \<longleftrightarrow>
     (\<forall>d t p k fd k'. sk_socket K d t p k = (fd, k') \<longrightarrow>
        (if fd < 0 then view k' = view k
         else view k fd = None \<and> view k' = (view k)(fd \<mapsto> fresh_socket)))
     \<and> (\<forall>fd k. view (sk_close K fd k) = (view k)(fd := None))
     \<and> (\<forall>fd req name k r data k'. sk_ioctl K fd req name k = ((r, data), k') \<longrightarrow>
        view k' = view k \<and> length (ifr_sa_data data) = 14)
     \<and> (\<forall>fd a k r k' v. sk_bind K fd a k = (r, k') \<longrightarrow> view k fd = Some v \<longrightarrow>
        view k' = (if r = 0 then (view k)(fd \<mapsto> v\<lparr>sv_binding := Some a\<rparr>) else view k))
     \<and> (\<forall>fd level opt_name value k r e k' v.
        sk_setsockopt K fd level opt_name value k = ((r, e), k') \<longrightarrow> view k fd = Some v \<longrightarrow>
        view k' = (if r = 0 then (view k)(fd \<mapsto> option_effect level opt_name value v) else view k))"

lemma socket_lawsD:
  assumes "socket_laws K view"
  shows "sk_socket K d t p k = (fd, k') \<Longrightarrow>
      (if fd < 0 then view k' = view k else view k fd = None \<and> view k' = (view k)(fd \<mapsto> fresh_socket))"
    and "view (sk_close K fd k) = (view k)(fd := None)"
    and "sk_ioctl K fd req name k = ((r, data), k') \<Longrightarrow> view k' = view k \<and> length (ifr_sa_data data) = 14"
    and "sk_bind K fd a k = (r, k') \<Longrightarrow> view k fd = Some v \<Longrightarrow>
      view k' = (if r = 0 then (view k)(fd \<mapsto> v\<lparr>sv_binding := Some a\<rparr>) else view k)"
    and "sk_setsockopt K fd level opt_name value k = ((r, e), k') \<Longrightarrow> view k fd = Some v \<Longrightarrow>
      view k' = (if r = 0 then (view k)(fd \<mapsto> option_effect level opt_name value v) else view k)"
  using assms unfolding socket_laws_def by metis+

lemma set_socket_option_laws:
  assumes "socket_laws K view" "set_socket_option K fd level opt_name value k = (r, k')" "view k fd = Some v"
  shows "r = Inr () \<and> view k' = (view k)(fd \<mapsto> option_effect level opt_name value v)
    \<or> r = Inl Socket \<and> view k' = view k"
proof -
  obtain s e where s: "sk_setsockopt K fd level opt_name value k = ((s, e), k')"
    and r: "r = (if s \<noteq> 0 then Inl Socket else Inr ())"
    using assms(2) by (auto simp: set_socket_option_def io_call_pair split: if_splits)
  from socket_lawsD(5) [OF assms(1) s assms(3)] r show ?thesis by auto
qed

lemma details_body_laws:
  assumes "socket_laws K view"
    and "io_call (sk_ioctl K control SIOCGIFINDEX n) (\<lambda>(r, data).
          if r \<noteq> 0 then io_ret (Inl Interface)
          else let ifindex = ifr_value data in
            io_call (sk_ioctl K control SIOCGIFMTU n) (\<lambda>(r, data).
            if r \<noteq> 0 then io_ret (Inl Interface)
            else let mtu = ifr_value data in
              io_call (sk_ioctl K control SIOCGIFHWADDR n) (\<lambda>(r, data).
              if r \<noteq> 0 then io_ret (Inl Interface)
              else io_ret (Inr (ifindex, mtu, take 6 (ifr_sa_data data)))))) k = (r, k')"
  shows "view k' = view k \<and> (r = Inl Interface \<or> (\<exists>i m mac. r = Inr (i, m, mac) \<and> length mac = 6))"
proof -
  obtain r1 d1 k1 where c1: "sk_ioctl K control SIOCGIFINDEX n k = ((r1, d1), k1)" by (metis prod.exhaust)
  obtain r2 d2 k2 where c2: "sk_ioctl K control SIOCGIFMTU n k1 = ((r2, d2), k2)" by (metis prod.exhaust)
  obtain r3 d3 k3 where c3: "sk_ioctl K control SIOCGIFHWADDR n k2 = ((r3, d3), k3)" by (metis prod.exhaust)
  note l = socket_lawsD(3) [OF assms(1) c1] socket_lawsD(3) [OF assms(1) c2] socket_lawsD(3) [OF assms(1) c3]
  from assms(2) l show ?thesis
    by (auto simp: io_call_def c1 c2 c3 Let_def split: if_splits)
qed

lemma interface_details_laws:
  assumes laws: "socket_laws K view" and details: "interface_details K name k = (r, k')"
  shows "view k' = view k \<and> (r = Inl Socket \<or> r = Inl Interface
    \<or> (\<exists>i m mac. r = Inr (i, m, mac) \<and> length mac = 6))"
proof -
  obtain fd k0 where s: "sk_socket K AF_INET (SOCK_DGRAM OR SOCK_CLOEXEC) 0 k = (fd, k0)" by force
  note l0 = socket_lawsD(1) [OF laws s]
  show ?thesis
  proof (cases "fd < 0")
    case True
    with details s l0 show ?thesis by (simp add: interface_details_def io_call_def)
  next
    case False
    let ?b = "io_call (sk_ioctl K fd SIOCGIFINDEX (if_req_name name)) (\<lambda>(r, data).
          if r \<noteq> 0 then io_ret (Inl Interface)
          else let ifindex = ifr_value data in
            io_call (sk_ioctl K fd SIOCGIFMTU (if_req_name name)) (\<lambda>(r, data).
            if r \<noteq> 0 then io_ret (Inl Interface)
            else let mtu = ifr_value data in
              io_call (sk_ioctl K fd SIOCGIFHWADDR (if_req_name name)) (\<lambda>(r, data).
              if r \<noteq> 0 then io_ret (Inl Interface)
              else io_ret (Inr (ifindex, mtu, take 6 (ifr_sa_data data))))))"
    obtain q k1 where b: "?b k0 = (q, k1)" by force
    have "interface_details K name k = scoped (sk_close K) fd ?b k0"
      unfolding interface_details_def io_call_def [of "sk_socket K AF_INET _ _"] s prod.case using False by simp
    then have "r = q" "k' = sk_close K fd k1" using details b by (simp_all add: scoped_def)
    with details_body_laws [OF laws b] l0 False socket_lawsD(2) [OF laws] show ?thesis
      by (auto simp: fun_upd_idem)
  qed
qed

text \<open>The socket a successful open leaves: bound, filtered, deaf to its own frames, locked.\<close>

definition guarded_socket :: "int \<Rightarrow> sock_view" where
  "guarded_socket ifindex =
     \<lparr>sv_binding = Some \<lparr>sll_protocol = u16_to_be ETH_P_R8, sll_ifindex = ifindex\<rparr>,
      sv_filter = Some r8_bpf_program, sv_ignore_outgoing = True, sv_locked = True\<rparr>"

lemmas option_defs = option_effect_def SOL_SOCKET_def SOL_PACKET_def SO_ATTACH_FILTER_def
  SO_DETACH_FILTER_def SO_LOCK_FILTER_def PACKET_IGNORE_OUTGOING_def

lemma guard_body_laws:
  assumes laws: "socket_laws K view" and k0: "view k0 = base(fd \<mapsto> fresh_socket)"
    and body: "io_then (zero_or Socket (sk_bind K fd
               \<lparr>sll_protocol = u16_to_be ETH_P_R8, sll_ifindex = ifindex\<rparr>)) (\<lambda>_.
             io_then (set_socket_option K fd SOL_SOCKET SO_ATTACH_FILTER (Opt_program r8_bpf_program)) (\<lambda>_.
             io_then (set_socket_option K fd SOL_PACKET PACKET_IGNORE_OUTGOING (Opt_int 1)) (\<lambda>_.
             io_then (set_socket_option K fd SOL_SOCKET SO_LOCK_FILTER (Opt_int 1)) (\<lambda>_.
             io_call (sk_setsockopt K fd SOL_SOCKET SO_DETACH_FILTER (Opt_int 1)) (\<lambda>(detach, errno).
             if detach = 0 \<or> errno \<noteq> EPERM then io_ret (Inl Socket)
             else io_ret (Inr d)))))) k0 = (r, k')"
  shows "r = Inr d \<and> view k' = base(fd \<mapsto> guarded_socket ifindex)
    \<or> r = Inl Socket \<and> (\<exists>w. view k' = base(fd \<mapsto> w))"
proof -
  let ?a = "\<lparr>sll_protocol = u16_to_be ETH_P_R8, sll_ifindex = ifindex\<rparr>"
  let ?v1 = "fresh_socket\<lparr>sv_binding := Some ?a\<rparr>"
  let ?v2 = "?v1\<lparr>sv_filter := Some r8_bpf_program\<rparr>"
  let ?v3 = "?v2\<lparr>sv_ignore_outgoing := True\<rparr>"
  let ?v4 = "?v3\<lparr>sv_locked := True\<rparr>"
  obtain r1 k1 where c1: "sk_bind K fd ?a k0 = (r1, k1)" by force
  obtain r2 k2 where c2: "set_socket_option K fd SOL_SOCKET SO_ATTACH_FILTER (Opt_program r8_bpf_program) k1 = (r2, k2)" by force
  obtain r3 k3 where c3: "set_socket_option K fd SOL_PACKET PACKET_IGNORE_OUTGOING (Opt_int 1) k2 = (r3, k3)" by force
  obtain r4 k4 where c4: "set_socket_option K fd SOL_SOCKET SO_LOCK_FILTER (Opt_int 1) k3 = (r4, k4)" by force
  obtain r5 e5 k5 where c5: "sk_setsockopt K fd SOL_SOCKET SO_DETACH_FILTER (Opt_int 1) k4 = ((r5, e5), k5)"
    by (metis prod.exhaust)
  have k1: "view k1 = (if r1 = 0 then base(fd \<mapsto> ?v1) else base(fd \<mapsto> fresh_socket))"
    using socket_lawsD(4) [OF laws c1, of fresh_socket] k0 by simp
  have k2: "view k1 = base(fd \<mapsto> ?v1) \<Longrightarrow> r2 = Inr () \<and> view k2 = base(fd \<mapsto> ?v2) \<or> r2 = Inl Socket \<and> view k2 = view k1"
    using set_socket_option_laws [OF laws c2, of ?v1] by (simp add: option_defs)
  have k3: "view k2 = base(fd \<mapsto> ?v2) \<Longrightarrow> r3 = Inr () \<and> view k3 = base(fd \<mapsto> ?v3) \<or> r3 = Inl Socket \<and> view k3 = view k2"
    using set_socket_option_laws [OF laws c3, of ?v2] by (simp add: option_defs)
  have k4: "view k3 = base(fd \<mapsto> ?v3) \<Longrightarrow> r4 = Inr () \<and> view k4 = base(fd \<mapsto> ?v4) \<or> r4 = Inl Socket \<and> view k4 = view k3"
    using set_socket_option_laws [OF laws c4, of ?v3] by (simp add: option_defs)
  have k5: "view k4 = base(fd \<mapsto> ?v4) \<Longrightarrow> view k5 = (if r5 = 0 then base(fd \<mapsto> ?v4\<lparr>sv_filter := None\<rparr>) else base(fd \<mapsto> ?v4))"
    using socket_lawsD(5) [OF laws c5, of ?v4] by (simp add: option_defs)
  have v4: "?v4 = guarded_socket ifindex" by (simp add: fresh_socket_def guarded_socket_def)
  from body k1 k2 k3 k4 k5 show ?thesis
    unfolding v4 [symmetric]
    by (auto simp: io_then_def io_call_def zero_or_def c1 c2 c3 c4 c5 split: if_splits)
qed

lemma open_laws:
  assumes "socket_laws K view" "open_filtered_descriptor K name k = (r, k')"
  shows "case r of
      Inl e \<Rightarrow> (e = Interface \<or> e = Socket) \<and> view k' = view k
    | Inr d \<Rightarrow> valid_interface_name name \<and> 0 < fdesc_ifindex d \<and> 0 < fdesc_mtu d
        \<and> length (fdesc_local_mac d) = 6 \<and> view k (fdesc_fd d) = None
        \<and> view k' = (view k)(fdesc_fd d \<mapsto> guarded_socket (fdesc_ifindex d))"
proof (cases "valid_interface_name name")
  case False
  with assms(2) show ?thesis by (auto simp: open_filtered_descriptor_def)
next
  case valid: True
  obtain q k1 where q: "interface_details K name k = (q, k1)" by force
  note l1 = interface_details_laws [OF assms(1) q]
  show ?thesis
  proof (cases "\<exists>i m mac. q = Inr (i, m, mac) \<and> 0 < i \<and> 0 < m")
    case False
    with assms(2) valid q l1 show ?thesis
      by (auto simp: open_filtered_descriptor_def io_then_def)
  next
    case True
    then obtain i m mac where im: "q = Inr (i, m, mac)" "0 < i" "0 < m" by blast
    with l1 have k1: "view k1 = view k" "length mac = 6" by auto
    obtain fd k2 where s: "sk_socket K AF_PACKET (SOCK_RAW OR SOCK_NONBLOCK OR SOCK_CLOEXEC)
        (uint (u16_to_be ETH_P_R8)) k1 = (fd, k2)" by force
    note l2 = socket_lawsD(1) [OF assms(1) s]
    show ?thesis
    proof (cases "fd < 0")
      case True
      with assms(2) valid q im s l2 k1(1) show ?thesis
        by (auto simp: open_filtered_descriptor_def io_then_def io_call_def)
    next
      case False
      let ?d = "\<lparr>fdesc_fd = fd, fdesc_ifindex = i, fdesc_mtu = m, fdesc_local_mac = mac\<rparr>"
      let ?b = "io_then (zero_or Socket (sk_bind K fd
               \<lparr>sll_protocol = u16_to_be ETH_P_R8, sll_ifindex = i\<rparr>)) (\<lambda>_.
             io_then (set_socket_option K fd SOL_SOCKET SO_ATTACH_FILTER (Opt_program r8_bpf_program)) (\<lambda>_.
             io_then (set_socket_option K fd SOL_PACKET PACKET_IGNORE_OUTGOING (Opt_int 1)) (\<lambda>_.
             io_then (set_socket_option K fd SOL_SOCKET SO_LOCK_FILTER (Opt_int 1)) (\<lambda>_.
             io_call (sk_setsockopt K fd SOL_SOCKET SO_DETACH_FILTER (Opt_int 1)) (\<lambda>(detach, errno).
             if detach = 0 \<or> errno \<noteq> EPERM then io_ret (Inl Socket)
             else io_ret (Inr ?d))))))"
      obtain p k3 where b: "?b k2 = (p, k3)" by force
      have new: "view k fd = None" "view k2 = (view k)(fd \<mapsto> fresh_socket)" using l2 False k1(1) by auto
      have "open_filtered_descriptor K name k = owning (sk_close K) fd ?b k2"
        using valid q im s False
        by (simp add: open_filtered_descriptor_def io_then_def [of "interface_details K name"] io_call_def [of "sk_socket K _ _ _"])
      then have "(r, k') = owning (sk_close K) fd ?b k2" using assms(2) by simp
      then have r: "(r, k') = (case p of Inl e \<Rightarrow> (Inl e, sk_close K fd k3) | Inr x \<Rightarrow> (Inr x, k3))"
        unfolding owning_def b by (simp split: sum.splits)
      from guard_body_laws [OF assms(1) new(2) b] show ?thesis
      proof
        assume "p = Inr ?d \<and> view k3 = (view k)(fd \<mapsto> guarded_socket i)"
        with r im(2,3) k1(2) new(1) valid show ?thesis by simp
      next
        assume "p = Inl Socket \<and> (\<exists>w. view k3 = (view k)(fd \<mapsto> w))"
        with r socket_lawsD(2) [OF assms(1)] new(1) show ?thesis by (auto simp: fun_upd_idem)
      qed
    qed
  qed
qed

text \<open>
  \<open>SIOCGIFINDEX\<close> (\<open>netdevice(7)\<close>) reports the index of the interface with the given name; \<open>ifx\<close> holds
  the indices, which an interface keeps as long as it exists. The opened socket is then bound to
  the named interface.
\<close>

lemma scoped_pair: "scoped c fd m k = (r, k') \<longleftrightarrow> (\<exists>k1. m k = (r, k1) \<and> k' = c fd k1)"
  by (auto simp: scoped_def split: prod.splits)

lemma owning_Inr: "owning c fd m k = (Inr x, k') \<longleftrightarrow> m k = (Inr x, k')"
  by (auto simp: owning_def split: prod.splits sum.splits)

definition index_laws :: "'k socket_kernel \<Rightarrow> (string \<Rightarrow> int) \<Rightarrow> bool" where
  "index_laws K ifx \<longleftrightarrow>
     (\<forall>fd name k data k'. valid_interface_name name \<longrightarrow>
        sk_ioctl K fd SIOCGIFINDEX (if_req_name name) k = ((0, data), k') \<longrightarrow> ifr_value data = ifx name)"

lemma interface_details_index:
  assumes "index_laws K ifx" "valid_interface_name name" "interface_details K name k = (Inr (i, m, mac), k')"
  shows "i = ifx name"
proof -
  from assms(3) obtain fd k1 data k2 where
    "sk_ioctl K fd SIOCGIFINDEX (if_req_name name) k1 = ((0, data), k2)" "i = ifr_value data"
    by (auto simp: interface_details_def io_call_pair scoped_pair Let_def split: if_splits)
  with assms(1,2) show ?thesis unfolding index_laws_def by blast
qed

lemma open_index:
  assumes "index_laws K ifx" "open_filtered_descriptor K name k = (Inr d, k')"
  shows "fdesc_ifindex d = ifx name"
proof -
  have valid: "valid_interface_name name"
    using assms(2) by (auto simp: open_filtered_descriptor_def split: if_splits)
  with assms(2) obtain i m mac k1 where i: "interface_details K name k = (Inr (i, m, mac), k1)"
    by (auto simp: open_filtered_descriptor_def io_then_Inr)
  have "fdesc_ifindex d = i"
    using assms(2) i valid
    by (auto simp: open_filtered_descriptor_def io_simps owning_Inr set_socket_option_def split: if_splits)
  with interface_details_index [OF assms(1) valid i] show ?thesis by simp
qed

text \<open>
  C24: An open leaves one guarded socket or nothing. When \<open>open_filtered_descriptor\<close> succeeds,
  exactly one new socket exists: bound to the R8 Ethernet type on an interface with a positive
  index and MTU, with the R8 filter attached and locked, and ignoring outgoing frames. On each
  of its error paths the sockets are those from before the call: the control socket and a
  half-configured packet socket are both closed.
\<close>

theorem open_leaves_guarded_socket:
  assumes "socket_laws K view" "open_filtered_descriptor K name k = (r, k')"
  shows "case r of
      Inl e \<Rightarrow> (e = Interface \<or> e = Socket) \<and> view k' = view k
    | Inr d \<Rightarrow> valid_interface_name name \<and> 0 < fdesc_ifindex d \<and> 0 < fdesc_mtu d
        \<and> length (fdesc_local_mac d) = 6 \<and> view k (fdesc_fd d) = None
        \<and> view k' = (view k)(fdesc_fd d \<mapsto> guarded_socket (fdesc_ifindex d))"
  using assms by (rule open_laws)

text \<open>For the witness: sockets in a list, a locked filter refusing changes with \<open>EPERM\<close>.\<close>

definition sample_sockets :: "sock_view option list \<Rightarrow> int \<Rightarrow> sock_view option" where
  "sample_sockets k fd = (if 0 \<le> fd \<and> nat fd < length k then k ! nat fd else None)"

definition sample_index :: "bytes \<Rightarrow> int" where
  "sample_index name = (if take 3 name = [114, 56, 97] then 3 else if take 3 name = [114, 56, 98] then 4 else 5)"

definition sample_socket_kernel :: "sock_view option list socket_kernel" where
  "sample_socket_kernel =
     \<lparr>sk_socket = (\<lambda>_ _ _ k. (int (length k), k @ [Some fresh_socket])),
      sk_close = (\<lambda>fd k. if fd < 0 then k else k[nat fd := None]),
      sk_ioctl = (\<lambda>_ req name k.
        ((0, \<lparr>ifr_value = (if req = SIOCGIFINDEX then sample_index name else 1500),
              ifr_sa_data = [2, 0, 0, 0, 0, 1] @ replicate 8 0\<rparr>), k)),
      sk_bind = (\<lambda>fd a k.
        case sample_sockets k fd of
          None \<Rightarrow> (- 1, k)
        | Some v \<Rightarrow> (0, k[nat fd := Some (v\<lparr>sv_binding := Some a\<rparr>)])),
      sk_setsockopt = (\<lambda>fd level opt_name value k.
        case sample_sockets k fd of
          None \<Rightarrow> ((- 1, 9), k)
        | Some v \<Rightarrow>
          if sv_locked v then ((- 1, EPERM), k)
          else ((0, 0), k[nat fd := Some (option_effect level opt_name value v)]))\<rparr>"

lemma sample_sockets_simps:
  "sample_sockets k fd \<noteq> None \<Longrightarrow> sample_sockets (k[nat fd := Some v]) = (sample_sockets k)(fd \<mapsto> v)"
  "sample_sockets k (int (length k)) = None"
  "sample_sockets (k @ [Some v]) = (sample_sockets k)(int (length k) \<mapsto> v)"
  "sample_sockets (if fd < 0 then k else k[nat fd := None]) = (sample_sockets k)(fd := None)"
  by (auto simp: sample_sockets_def fun_eq_iff nth_append nth_list_update split: if_splits)

lemma sample_index_names [simp]:
  "sample_index (if_req_name ''r8a'') = 3" "sample_index (if_req_name ''r8b'') = 4"
  by (simp_all add: sample_index_def if_req_name_def IFNAMSIZ_def ascii_simps)

lemma sample_index_pos: "0 < sample_index name"
  by (simp add: sample_index_def)

lemma sample_index_laws: "index_laws sample_socket_kernel (\<lambda>name. sample_index (if_req_name name))"
  by (simp add: index_laws_def sample_socket_kernel_def)

lemma sample_socket_laws: "socket_laws sample_socket_kernel sample_sockets"
  unfolding socket_laws_def sample_socket_kernel_def
  by (auto simp: sample_sockets_simps split: option.splits if_splits)

theorem open_leaves_guarded_socket_witness:
  "\<exists>d k'. open_filtered_descriptor sample_socket_kernel ''r8a'' [] = (Inr d, k')
     \<and> sample_sockets k' (fdesc_fd d) = Some (guarded_socket 3)"
proof -
  have name: "valid_interface_name ''r8a''" by (simp add: valid_interface_name_def IFNAMSIZ_def ascii_simps)
  let ?o = "open_filtered_descriptor sample_socket_kernel ''r8a'' []"
  have r: "fst ?o = Inr \<lparr>fdesc_fd = 1, fdesc_ifindex = 3, fdesc_mtu = 1500, fdesc_local_mac = [2, 0, 0, 0, 0, 1]\<rparr>"
    by (simp add: open_filtered_descriptor_def name interface_details_def io_then_def io_call_def
        scoped_def owning_def zero_or_def set_socket_option_def sample_socket_kernel_def
        sample_sockets_def fresh_socket_def option_defs SIOCGIFINDEX_def SIOCGIFMTU_def EPERM_def)
  have "?o = (fst ?o, snd ?o)" by simp
  from open_leaves_guarded_socket [OF sample_socket_laws this] r show ?thesis
    by (intro exI [of _ "\<lparr>fdesc_fd = 1, fdesc_ifindex = 3, fdesc_mtu = 1500, fdesc_local_mac = [2, 0, 0, 0, 0, 1]\<rparr>"]
        exI [of _ "snd ?o"]) (simp add: prod_eq_iff)
qed

end
