(* ===== verification/Kernel_Frame.thy ===== *)
theory Kernel_Frame
  imports Linux_Process
begin

text \<open>
  How a program over the kernel moves its state: rules that go through the program text. The locale
  \<open>step_relation\<close> has them for any reflexive and transitive relation between the state before and
  after, for calls that return (\<open>io_in\<close>) and for steps that may not (\<open>act_in\<close>); \<open>keeps obs\<close> is its
  instance for calls that leave an observation alone, such as the calls of \<open>drop_privileges\<close>.
\<close>

section \<open>Programs that move the state along a relation\<close>

definition io_in :: "('k \<Rightarrow> 'k \<Rightarrow> bool) \<Rightarrow> ('k \<Rightarrow> 'a \<times> 'k) \<Rightarrow> bool" where
  "io_in R m \<longleftrightarrow> (\<forall>k. R k (snd (m k)))"

definition act_in :: "('w \<Rightarrow> 'w \<Rightarrow> bool) \<Rightarrow> ('w \<Rightarrow> ('a \<times> 'w) option) \<Rightarrow> bool" where
  "act_in R m \<longleftrightarrow> (\<forall>w r w'. m w = Some (r, w') \<longrightarrow> R w w')"

lemma io_inD: "io_in R m \<Longrightarrow> m k = (r, k') \<Longrightarrow> R k k'"
  unfolding io_in_def by (metis snd_conv)

lemma act_inD: "act_in R m \<Longrightarrow> m w = Some (r, w') \<Longrightarrow> R w w'"
  by (simp add: act_in_def)

lemma act_in_io: "io_in R m \<Longrightarrow> act_in R (\<lambda>k. Some (m k))"
  by (auto simp: act_in_def dest: io_inD)

named_theorems moving \<open>branches of programs that move along a relation\<close>

lemma in_if [moving]:
  "(b \<Longrightarrow> io_in R m) \<Longrightarrow> (\<not> b \<Longrightarrow> io_in R n) \<Longrightarrow> io_in R (if b then m else n)"
  "(b \<Longrightarrow> act_in R f) \<Longrightarrow> (\<not> b \<Longrightarrow> act_in R g) \<Longrightarrow> act_in R (if b then f else g)"
  by simp_all

lemma in_option [moving]:
  "io_in R m \<Longrightarrow> (\<And>x. io_in R (n x)) \<Longrightarrow> io_in R (case v of None \<Rightarrow> m | Some x \<Rightarrow> n x)"
  "act_in R f \<Longrightarrow> (\<And>x. act_in R (g x)) \<Longrightarrow> act_in R (case v of None \<Rightarrow> f | Some x \<Rightarrow> g x)"
  by (simp_all split: option.splits)

lemma in_sum [moving]:
  "(\<And>e. io_in R (m e)) \<Longrightarrow> (\<And>x. io_in R (n x)) \<Longrightarrow> io_in R (case v of Inl e \<Rightarrow> m e | Inr x \<Rightarrow> n x)"
  "(\<And>e. act_in R (f e)) \<Longrightarrow> (\<And>x. act_in R (g x)) \<Longrightarrow> act_in R (case v of Inl e \<Rightarrow> f e | Inr x \<Rightarrow> g x)"
  by (simp_all split: sum.splits)

lemma in_prod [moving]:
  "(\<And>x y. io_in R (m x y)) \<Longrightarrow> io_in R (case p of (x, y) \<Rightarrow> m x y)"
  "(\<And>x y. act_in R (f x y)) \<Longrightarrow> act_in R (case p of (x, y) \<Rightarrow> f x y)"
  by (simp_all split: prod.splits)

locale step_relation =
  fixes R :: "'s \<Rightarrow> 's \<Rightarrow> bool"
  assumes R_refl: "R s s" and R_trans: "R s t \<Longrightarrow> R t u \<Longrightarrow> R s u"
begin

lemma io_in_ret: "io_in R (io_ret x)"
  by (simp add: io_in_def R_refl)

lemma io_in_then:
  assumes "io_in R m" "\<And>x. io_in R (f x)"
  shows "io_in R (io_then m f)"
  unfolding io_in_def
proof
  fix k
  obtain r k1 where m: "m k = (r, k1)" by force
  from io_inD [OF assms(1) m] assms(2) show "R k (snd (io_then m f k))"
    by (cases r) (auto simp: io_then_def m io_in_def intro: R_trans)
qed

lemma io_in_call: "io_in R m \<Longrightarrow> (\<And>x. io_in R (f x)) \<Longrightarrow> io_in R (io_call m f)"
  unfolding io_in_def io_call_fst_snd(2) using R_trans by blast

lemma io_in_zero_or: "io_in R m \<Longrightarrow> io_in R (zero_or e m)"
  unfolding io_in_def zero_or_def by (auto split: prod.splits) (metis snd_conv)

lemma io_in_lift: "io_in R m \<Longrightarrow> io_in R (lift_err g m)"
  unfolding lift_err_def by (intro io_in_call io_in_ret)

lemma act_in_ret: "act_in R (act_ret r)"
  by (simp add: act_in_def act_ret_def R_refl)

lemma act_in_then: "act_in R m \<Longrightarrow> (\<And>x. act_in R (f x)) \<Longrightarrow> act_in R (act_then m f)"
  by (auto simp: act_in_def elim!: act_then_cases) (blast intro: R_trans)

lemmas rules = io_in_ret io_in_then io_in_call io_in_zero_or io_in_lift act_in_ret act_in_then moving

end

section \<open>Calls that leave a part of the kernel alone\<close>

abbreviation same :: "('k \<Rightarrow> 'x) \<Rightarrow> 'k \<Rightarrow> 'k \<Rightarrow> bool" where
  "same obs k k' \<equiv> obs k' = obs k"

abbreviation keeps :: "('k \<Rightarrow> 'x) \<Rightarrow> ('k \<Rightarrow> 'a \<times> 'k) \<Rightarrow> bool" where
  "keeps obs m \<equiv> io_in (same obs) m"

interpretation frame: step_relation "same obs" for obs
  by unfold_locales simp_all

lemmas keeping = frame.rules
lemmas keeps_def = io_in_def
lemmas keepsD = io_inD [of "same obs" for obs]

section \<open>Dropping privileges touches nothing else\<close>

definition cred_frame :: "'k cred_kernel \<Rightarrow> ('k \<Rightarrow> 'x) \<Rightarrow> bool" where
  "cred_frame K obs \<longleftrightarrow>
     (\<forall>p. keeps obs (read_to_string K p)) \<and> (\<forall>i a. keeps obs (sys_prctl K i a))
     \<and> (\<forall>gs. keeps obs (sys_setgroups K gs)) \<and> (\<forall>a b c. keeps obs (sys_setresgid K a b c))
     \<and> (\<forall>a b c. keeps obs (sys_setresuid K a b c)) \<and> (\<forall>h d. keeps obs (sys_capset K h d))
     \<and> (\<forall>n. keeps obs (sys_getgroups K n)) \<and> keeps obs (sys_getresuid K) \<and> keeps obs (sys_getresgid K)
     \<and> (\<forall>u. keeps obs (sys_setfsuid K u)) \<and> (\<forall>g. keeps obs (sys_setfsgid K g))"

lemma bounding_loop_keeps: "cred_frame K obs \<Longrightarrow> keeps obs (bounding_loop K cs)"
proof (induction cs)
  case (Cons c cs)
  have "keeps obs (sys_prctl K PR_CAPBSET_DROP c)" using Cons.prems by (simp add: cred_frame_def)
  with Cons show ?case by (auto simp: keeps_def split: prod.splits) (metis snd_conv)+
qed (simp add: keeps_def)

lemma set_nondumpable_keeps: "cred_frame K obs \<Longrightarrow> keeps obs (set_nondumpable K)"
  unfolding set_nondumpable_def by (intro keeping) (auto simp: cred_frame_def)

lemma drop_privileges_keeps: "cred_frame K obs \<Longrightarrow> keeps obs (drop_privileges K uid gid)"
  unfolding drop_privileges_def drop_bounding_capabilities_def current_full_privilege_snapshot_def
  by (intro keeping set_nondumpable_keeps bounding_loop_keeps) (auto simp: cred_frame_def)

end
