(* ===== verification/Native_Main.thy ===== *)
theory Native_Main
  imports Native Linux_Socket Kernel_Frame
begin

text \<open>
  The native launcher (\<open>src/rust/crates/r8d/src/bin/r8-native.rs\<close>): command line, start-up
  sequence, the Linux implementations of the runtime's seams and the serving loop. Start-up is
  one composition over the kernel records of the other \<open>Linux\<close> theories, in the order of the
  source. The theorems say what holds when the launcher reports that it is ready, that the
  command line is parsed exactly, and that the loop keeps the runtime's invariant until its
  first error ends it.
\<close>

section \<open>The command line\<close>

record args =
  arg_manifest :: string
  arg_interfaces :: "string list"
  arg_uid :: u32
  arg_gid :: u32

text \<open>\<open>--uid\<close> and \<open>--gid\<close>: a non-zero 32-bit decimal.\<close>

definition parse_id :: "string \<Rightarrow> string \<Rightarrow> string + u32" where
  "parse_id what text =
     (case from_str_radix 32 10 text of
        None \<Rightarrow> Inl what
      | Some value \<Rightarrow> if value = 0 then Inl what else Inr (of_nat value))"

fun arguments_loop :: "string option \<Rightarrow> string list \<Rightarrow> u32 option \<Rightarrow> u32 option \<Rightarrow> string list \<Rightarrow> string + args" where
  "arguments_loop manifest ifaces uid gid [] =
     and_then (ok_or ''manifest'' manifest) (\<lambda>manifest.
     if ifaces = [] then Inl ''interface''
     else and_then (ok_or ''uid'' uid) (\<lambda>uid.
       and_then (ok_or ''gid'' gid) (\<lambda>gid.
         Inr \<lparr>arg_manifest = manifest, arg_interfaces = ifaces, arg_uid = uid, arg_gid = gid\<rparr>)))"
| "arguments_loop manifest ifaces uid gid (flag # rest) =
     (if flag = ''--manifest'' \<and> manifest = None then
        (case rest of
           [] \<Rightarrow> Inl ''manifest''
         | value # rest \<Rightarrow> arguments_loop (Some value) ifaces uid gid rest)
      else if flag = ''--interface'' then
        (case rest of
           [] \<Rightarrow> Inl ''interface''
         | value # rest \<Rightarrow>
           if value = [] \<or> value \<in> set ifaces then Inl ''interface''
           else arguments_loop manifest (ifaces @ [value]) uid gid rest)
      else if flag = ''--uid'' \<and> uid = None then
        (case rest of
           [] \<Rightarrow> Inl ''uid''
         | value # rest \<Rightarrow>
           (case parse_id ''uid'' value of
              Inl e \<Rightarrow> Inl e
            | Inr v \<Rightarrow> arguments_loop manifest ifaces (Some v) gid rest))
      else if flag = ''--gid'' \<and> gid = None then
        (case rest of
           [] \<Rightarrow> Inl ''gid''
         | value # rest \<Rightarrow>
           (case parse_id ''gid'' value of
              Inl e \<Rightarrow> Inl e
            | Inr v \<Rightarrow> arguments_loop manifest ifaces uid (Some v) rest))
      else Inl ''arguments'')"

definition arguments :: "string list \<Rightarrow> string + args" where
  "arguments argv = arguments_loop None [] None None argv"

section \<open>The kernel of the launcher\<close>

text \<open>
  The four groups of calls of \<open>linux.rs\<close> and those the executable makes itself. \<open>lk_recv\<close>
  returns the count, whether a failure was \<open>WouldBlock\<close>, and the buffer.
\<close>

record 'k launcher_kernel =
  lk_cred :: "'k cred_kernel"
  lk_memfd :: "'k memfd_kernel"
  lk_net :: "'k net_kernel"
  lk_socket :: "'k socket_kernel"
  lk_read_file :: "string \<Rightarrow> 'k \<Rightarrow> bytes option \<times> 'k"
  lk_bind_netlink :: "int \<Rightarrow> u32 \<Rightarrow> 'k \<Rightarrow> int \<times> 'k"
  lk_recv :: "int \<Rightarrow> bytes \<Rightarrow> int \<Rightarrow> 'k \<Rightarrow> (int \<times> bool \<times> bytes) \<times> 'k"
  lk_send :: "int \<Rightarrow> bytes \<Rightarrow> int \<Rightarrow> 'k \<Rightarrow> int \<times> 'k"
  lk_clock_gettime :: "'k \<Rightarrow> int \<times> 'k"
  lk_poll :: "int list \<Rightarrow> 'k \<Rightarrow> (int \<times> u16 list) \<times> 'k"

definition AF_NETLINK :: int where "AF_NETLINK = 16"
definition NETLINK_ROUTE :: int where "NETLINK_ROUTE = 0"
definition MSG_DONTWAIT :: int where "MSG_DONTWAIT = 0x40"
definition MSG_TRUNC :: int where "MSG_TRUNC = 0x20"

text \<open>\<open>RTMGRP_LINK | RTMGRP_IPV4_IFADDR | RTMGRP_IPV6_IFADDR | RTMGRP_IPV4_ROUTE | RTMGRP_IPV6_ROUTE\<close>.\<close>

definition watch_groups :: u32 where
  "watch_groups = 0x1 OR 0x10 OR 0x100 OR 0x40 OR 0x400"

section \<open>The seams\<close>

type_synonym linux_fds = "(u32 \<times> int) list"

definition LinuxIo_fd :: "linux_fds \<Rightarrow> u32 \<Rightarrow> NativeError + int" where
  "LinuxIo_fd fds ident = ok_or NativeError.Invariant (map_option snd (find (\<lambda>(known, _). known = ident) fds))"

definition LinuxIo_receive :: "'k launcher_kernel \<Rightarrow> linux_fds \<Rightarrow> u32 \<Rightarrow> bytes \<Rightarrow> 'k \<Rightarrow>
    ((NativeError + nat option) \<times> bytes) \<times> 'k" where
  "LinuxIo_receive K fds ident buffer =
     (case LinuxIo_fd fds ident of
        Inl e \<Rightarrow> io_ret (Inl e, buffer)
      | Inr fd \<Rightarrow>
        io_call (lk_recv K fd buffer (MSG_DONTWAIT OR MSG_TRUNC)) (\<lambda>(n, would_block, buffer).
          io_ret (if 0 \<le> n then Inr (Some (nat n)) else if would_block then Inr None else Inl Receive,
                  buffer)))"

definition LinuxIo_send :: "'k launcher_kernel \<Rightarrow> linux_fds \<Rightarrow> u32 \<Rightarrow> bytes \<Rightarrow> 'k \<Rightarrow>
    (NativeError + nat) \<times> 'k" where
  "LinuxIo_send K fds ident frame =
     (case LinuxIo_fd fds ident of
        Inl e \<Rightarrow> io_ret (Inl e)
      | Inr fd \<Rightarrow>
        io_call (lk_send K fd frame 0) (\<lambda>n. io_ret (if n < 0 then Inl Send else Inr (nat n))))"

record watch =
  watch_fd :: int
  watch_names :: "string list"

definition Watch_event :: "'k launcher_kernel \<Rightarrow> watch \<Rightarrow> 'k \<Rightarrow> (NativeError + bool) \<times> 'k" where
  "Watch_event K w =
     io_call (lk_recv K (watch_fd w) [0] MSG_DONTWAIT) (\<lambda>(n, would_block, _).
       if 0 \<le> n then
         io_call (verify_isolated_namespace (lk_net K) (watch_names w)) (\<lambda>r.
           io_ret (case r of Inl _ \<Rightarrow> Inl Revoked | Inr _ \<Rightarrow> Inr True))
       else if would_block then io_ret (Inr False)
       else io_ret (Inl Revoked))"

definition Watch_reject_pending :: "'k launcher_kernel \<Rightarrow> watch \<Rightarrow> 'k \<Rightarrow> (NativeError + unit) \<times> 'k" where
  "Watch_reject_pending K w =
     io_then (Watch_event K w) (\<lambda>pending. io_ret (if pending then Inl Revoked else Inr ()))"

definition route_watch :: "'k launcher_kernel \<Rightarrow> string list \<Rightarrow> 'k \<Rightarrow> (NativeError + watch) \<times> 'k" where
  "route_watch K names =
     io_call (sk_socket (lk_socket K) AF_NETLINK (SOCK_RAW OR SOCK_NONBLOCK OR SOCK_CLOEXEC) NETLINK_ROUTE) (\<lambda>raw.
       if raw < 0 then io_ret (Inl NativeError.Invariant)
       else owning (sk_close (lk_socket K)) raw
         (io_call (lk_bind_netlink K raw watch_groups) (\<lambda>r.
            if r \<noteq> 0 then io_ret (Inl NativeError.Invariant)
            else io_ret (Inr \<lparr>watch_fd = raw, watch_names = names\<rparr>))))"

definition MonotonicClock_now :: "'k launcher_kernel \<Rightarrow> 'k \<Rightarrow> (NativeError + unit) \<times> 'k" where
  "MonotonicClock_now K =
     io_call (lk_clock_gettime K) (\<lambda>r. io_ret (if r = 0 then Inr () else Inl NativeError.Invariant))"

section \<open>Start-up\<close>

datatype launch_error =
    Launch_text string | Launch_linux LinuxError | Launch_manifest ManifestError
  | Launch_budget DescriptorBudgetError | Launch_native NativeError

text \<open>The loop over the manifest's interfaces: records, budgets and descriptors.\<close>

fun descriptors_loop :: "'k launcher_kernel \<Rightarrow> interface list \<Rightarrow> 'k \<Rightarrow>
    (launch_error + (u32 \<times> bytes) list \<times> (u32 \<times> nat) list \<times> linux_fds) \<times> 'k" where
  "descriptors_loop K [] = io_ret (Inr ([], [], []))"
| "descriptors_loop K (ifc # ifcs) =
     io_then (lift_err Launch_linux (open_filtered_descriptor (lk_socket K) (interface_name ifc))) (\<lambda>d.
     io_then (descriptors_loop K ifcs) (\<lambda>(records, budgets, fds).
       io_ret (Inr ((descriptor_id ifc, fdesc_local_mac d) # records,
                    (descriptor_id ifc, min 1280 (nat (fdesc_mtu d))) # budgets,
                    (descriptor_id ifc, fdesc_fd d) # fds))))"

definition read_manifest :: "'k launcher_kernel \<Rightarrow> 'j serde \<Rightarrow> args \<Rightarrow> 'k \<Rightarrow> (launch_error + native_manifest) \<times> 'k" where
  "read_manifest K J a =
     io_call (lk_read_file K (arg_manifest a)) (\<lambda>raw.
       case raw of
         None \<Rightarrow> io_ret (Inl (Launch_text ''manifest rejected''))
       | Some bs \<Rightarrow>
         io_then (lift_err Launch_linux (create_immutable_manifest (lk_memfd K) bs)) (\<lambda>sealed.
         scoped (sys_close (lk_memfd K)) sealed
           (io_then (lift_err Launch_linux (read_immutable_manifest (lk_memfd K) sealed)) (\<lambda>content.
            io_ret (map_err Launch_manifest (validate_manifest_json J content (arg_interfaces a)))))))"

definition startup :: "'k launcher_kernel \<Rightarrow> 'j serde \<Rightarrow> string list \<Rightarrow> 'k \<Rightarrow>
    (launch_error + args \<times> native_runtime \<times> linux_fds \<times> watch) \<times> 'k" where
  "startup K J argv =
     (case arguments argv of
        Inl _ \<Rightarrow> io_ret (Inl (Launch_text ''r8-native arguments rejected''))
      | Inr a \<Rightarrow>
        io_then (read_manifest K J a) (\<lambda>m.
        if local_locs m \<noteq> [] \<or> list_ex local_delivery (interfaces m)
        then io_ret (Inl (Launch_text ''manifest local delivery rejected''))
        else if set (map interface_name (interfaces m)) \<noteq> set (arg_interfaces a)
        then io_ret (Inl (Launch_text ''manifest allowlist rejected''))
        else
          io_then (lift_err Launch_native (route_watch K (arg_interfaces a))) (\<lambda>w.
          io_then (lift_err Launch_linux (verify_isolated_namespace (lk_net K) (arg_interfaces a))) (\<lambda>_.
          io_then (descriptors_loop K (interfaces m)) (\<lambda>(records, budgets, fds).
          io_then (io_ret (map_err Launch_budget (DescriptorBudgets_new m budgets))) (\<lambda>budgets.
          io_then (lift_err (\<lambda>_. Launch_text ''startup isolation revoked'') (Watch_reject_pending K w)) (\<lambda>_.
          io_then (lift_err (\<lambda>_. Launch_text ''startup isolation revoked'')
            (verify_isolated_namespace (lk_net K) (arg_interfaces a))) (\<lambda>_.
          io_then (lift_err Launch_linux (drop_privileges (lk_cred K) (arg_uid a) (arg_gid a))) (\<lambda>_.
          io_then (lift_err Launch_linux (set_nondumpable (lk_cred K))) (\<lambda>_.
          io_then (io_ret (map_err Launch_native (NativeRuntime_new m budgets records))) (\<lambda>runtime.
          io_then (lift_err (\<lambda>_. Launch_text ''readiness isolation revoked'') (Watch_reject_pending K w)) (\<lambda>_.
          io_then (lift_err (\<lambda>_. Launch_text ''readiness isolation revoked'')
            (verify_isolated_namespace_after_drop (lk_net K) (arg_interfaces a))) (\<lambda>_.
          io_ret (Inr (a, runtime, fds, w)))))))))))))))"

section \<open>Serving\<close>

text \<open>
  The environment of the runtime: each seam carries the kernel state its own calls see (the
  packet sockets, the route socket, the clock), and the sink is \<open>DropSessions\<close>.
\<close>

definition linux_env :: "'k launcher_kernel \<Rightarrow>
    (linux_fds \<times> 'k, watch \<times> 'k, u64, 'k) native_env" where
  "linux_env K =
     \<lparr>io_receive = (\<lambda>(fds, k) ident buffer.
        case LinuxIo_receive K fds ident buffer k of ((r, buffer), k) \<Rightarrow> (r, buffer, fds, k)),
      io_send = (\<lambda>(fds, k) ident frame.
        case LinuxIo_send K fds ident frame k of (r, k) \<Rightarrow> (r, fds, k)),
      event = (\<lambda>(w, k). case Watch_event K w k of (r, k) \<Rightarrow> (r, w, k)),
      session_deliver = DropSessions_deliver,
      clock_now = MonotonicClock_now K\<rparr>"

text \<open>\<open>POLLERR | POLLHUP | POLLNVAL\<close>.\<close>

definition poll_failed :: "int \<Rightarrow> u16 list \<Rightarrow> bool" where
  "poll_failed n revents \<longleftrightarrow> n \<le> 0 \<or> list_ex (\<lambda>r. r AND (0x8 OR 0x10 OR 0x20) \<noteq> 0) revents"

definition serve_once :: "'k launcher_kernel \<Rightarrow>
    (linux_fds \<times> 'k, watch \<times> 'k, u64, 'k) native_state \<Rightarrow>
    (launch_error + unit) \<times> (linux_fds \<times> 'k, watch \<times> 'k, u64, 'k) native_state" where
  "serve_once K st =
     (case st of (rt, (fds, k), (w, kw), ss, ck) \<Rightarrow>
       (case lk_poll K (map snd fds @ [watch_fd w]) k of
          ((n, revents), k) \<Rightarrow>
            if poll_failed n revents
            then (Inl (Launch_text ''poll failed''), rt, (fds, k), (w, kw), ss, ck)
            else
              (case NativeRuntime_step_with_clock (linux_env K) rt (fds, k) (w, kw) ss ck of
                 (r, st) \<Rightarrow> (map_err Launch_native r, st))))"

text \<open>The endless loop, for at most \<open>n\<close> iterations.\<close>

fun serve :: "'k launcher_kernel \<Rightarrow> nat \<Rightarrow>
    (linux_fds \<times> 'k, watch \<times> 'k, u64, 'k) native_state \<Rightarrow>
    (launch_error + unit) \<times> (linux_fds \<times> 'k, watch \<times> 'k, u64, 'k) native_state" where
  "serve K 0 st = (Inr (), st)"
| "serve K (Suc n) st =
     (case serve_once K st of
        (Inl e, st) \<Rightarrow> (Inl e, st)
      | (Inr _, st) \<Rightarrow> serve K n st)"

section \<open>The command line is parsed exactly\<close>

definition flag_values :: "string \<Rightarrow> (string \<times> string) list \<Rightarrow> string list" where
  "flag_values f ps = map snd (filter (\<lambda>p. fst p = f) ps)"

definition flat_args :: "(string \<times> string) list \<Rightarrow> string list" where
  "flat_args ps = concat (map (\<lambda>(f, v). [f, v]) ps)"

definition known_flags :: "string set" where
  "known_flags = {''--manifest'', ''--interface'', ''--uid'', ''--gid''}"

lemma flag_values_simps [simp]:
  "flag_values f [] = []"
  "flag_values f ((g, v) # ps) = (if g = f then v # flag_values f ps else flag_values f ps)"
  by (simp_all add: flag_values_def)

lemma flat_args_simps [simp]: "flat_args [] = []" "flat_args ((f, v) # ps) = f # v # flat_args ps"
  by (simp_all add: flat_args_def)

definition option_list :: "'a option \<Rightarrow> 'a list" where
  "option_list x = (case x of None \<Rightarrow> [] | Some y \<Rightarrow> [y])"

lemma option_list_simps [simp]: "option_list None = []" "option_list (Some y) = [y]"
  by (simp_all add: option_list_def)

text \<open>What the rest of the command line must be, given the flags seen so far.\<close>

definition args_rest :: "string option \<Rightarrow> string list \<Rightarrow> u32 option \<Rightarrow> u32 option \<Rightarrow> (string \<times> string) list \<Rightarrow> args \<Rightarrow> bool" where
  "args_rest m is u g ps a \<longleftrightarrow>
     fst ` set ps \<subseteq> known_flags
     \<and> option_list m @ flag_values ''--manifest'' ps = [arg_manifest a]
     \<and> is @ flag_values ''--interface'' ps = arg_interfaces a
     \<and> arg_interfaces a \<noteq> [] \<and> distinct (arg_interfaces a) \<and> [] \<notin> set (flag_values ''--interface'' ps)
     \<and> map Inr (option_list u) @ map (parse_id ''uid'') (flag_values ''--uid'' ps) = [Inr (arg_uid a)]
     \<and> map Inr (option_list g) @ map (parse_id ''gid'') (flag_values ''--gid'' ps) = [Inr (arg_gid a)]"

lemma flat_args_Cons:
  "flag # rest = flat_args ps \<longleftrightarrow> (\<exists>v qs. rest = v # flat_args qs \<and> ps = (flag, v) # qs)"
  by (cases ps) auto

lemma flat_args_Nil: "[] = flat_args ps \<longleftrightarrow> ps = []"
  by (cases ps) auto

lemma args_rest_Cons:
  "args_rest m is u g ((flag, v) # qs) a \<longleftrightarrow>
     (if flag = ''--manifest'' \<and> m = None then args_rest (Some v) is u g qs a
      else if flag = ''--interface'' then v \<noteq> [] \<and> v \<notin> set is \<and> args_rest m (is @ [v]) u g qs a
      else if flag = ''--uid'' \<and> u = None then
        (case parse_id ''uid'' v of Inl _ \<Rightarrow> False | Inr x \<Rightarrow> args_rest m is (Some x) g qs a)
      else if flag = ''--gid'' \<and> g = None then
        (case parse_id ''gid'' v of Inl _ \<Rightarrow> False | Inr x \<Rightarrow> args_rest m is u (Some x) qs a)
      else False)"
proof -
  consider "flag = ''--manifest''" | "flag = ''--interface''" | "flag = ''--uid''" | "flag = ''--gid''"
    | "flag \<notin> known_flags" by (auto simp: known_flags_def)
  then show ?thesis
  proof cases
    case 1
    then show ?thesis by (cases m) (auto simp: args_rest_def known_flags_def)
  next
    case 2
    have "is @ v # vs = arg_interfaces a \<and> distinct (arg_interfaces a) \<longrightarrow> v \<notin> set is" for vs
      by (metis distinct_append list.set_intros(1) disjoint_iff)
    with 2 show ?thesis by (auto simp: args_rest_def known_flags_def)
  next
    case 3
    then show ?thesis
      by (cases u; cases "parse_id ''uid'' v") (auto simp: args_rest_def known_flags_def)
  next
    case 4
    then show ?thesis
      by (cases g; cases "parse_id ''gid'' v") (auto simp: args_rest_def known_flags_def)
  next
    case 5
    then show ?thesis by (auto simp: args_rest_def known_flags_def)
  qed
qed

lemma arguments_loop_iff:
  "arguments_loop m is u g argv = Inr a \<longleftrightarrow> (\<exists>ps. argv = flat_args ps \<and> args_rest m is u g ps a)"
  if "distinct is"
  using that
proof (induction m "is" u g argv rule: arguments_loop.induct)
  case (1 m "is" u g)
  then show ?case
    by (cases m; cases u; cases g) (auto simp: flat_args_Nil args_rest_def known_flags_def)
next
  case (2 m "is" u g flag rest)
  show ?case
  proof (cases rest)
    case Nil
    then show ?thesis by (auto simp: flat_args_Cons)
  next
    case (Cons v rest')
    have e: "(\<exists>ps. flag # rest = flat_args ps \<and> args_rest m is u g ps a) \<longleftrightarrow>
        (\<exists>qs. rest' = flat_args qs \<and> args_rest m is u g ((flag, v) # qs) a)"
      by (auto simp: flat_args_Cons Cons)
    show ?thesis
      unfolding e args_rest_Cons
      using "2.IH" "2.prems" Cons
      by (auto split: sum.splits)
  qed
qed

text \<open>
  The command line is parsed exactly. \<open>arguments\<close> accepts precisely the lists of flag and
  value pairs, in any order, with one \<open>--manifest\<close>, at least one \<open>--interface\<close>, the names
  non-empty and distinct, and one \<open>--uid\<close> and one \<open>--gid\<close> that read as non-zero 32-bit
  numbers; it returns those values, the interfaces in the order given, and nothing else is
  accepted (no repeated flag, no missing value, no unknown flag).
\<close>

theorem arguments_exact:
  "arguments argv = Inr a \<longleftrightarrow>
     (\<exists>ps. argv = flat_args ps \<and> fst ` set ps \<subseteq> {''--manifest'', ''--interface'', ''--uid'', ''--gid''}
        \<and> flag_values ''--manifest'' ps = [arg_manifest a]
        \<and> flag_values ''--interface'' ps = arg_interfaces a
        \<and> arg_interfaces a \<noteq> [] \<and> distinct (arg_interfaces a) \<and> [] \<notin> set (arg_interfaces a)
        \<and> map (parse_id ''uid'') (flag_values ''--uid'' ps) = [Inr (arg_uid a)]
        \<and> map (parse_id ''gid'') (flag_values ''--gid'' ps) = [Inr (arg_gid a)])"
  unfolding arguments_def arguments_loop_iff [of "[]", simplified] args_rest_def
    known_flags_def
  by auto

section \<open>Calls that leave a part of the kernel alone\<close>

definition net_frame :: "'k net_kernel \<Rightarrow> ('k \<Rightarrow> 'x) \<Rightarrow> bool" where
  "net_frame K obs \<longleftrightarrow> (\<forall>p. keeps obs (net_read_to_string K p)) \<and> (\<forall>p. keeps obs (net_metadata K p))
     \<and> (\<forall>p. keeps obs (net_exists K p)) \<and> keeps obs (net_getifaddrs K)"

lemma ipv6_loop_keeps: "net_frame K obs \<Longrightarrow> keeps obs (ipv6_loop K scopes)"
  by (induction scopes) (auto simp: net_frame_def intro!: keeping)

lemma names_loop_keeps: "net_frame K obs \<Longrightarrow> keeps obs (names_loop K addresses names)"
  by (induction names)
    (auto simp: net_frame_def has_master_or_virtual_attachment_def Let_def intro!: keeping)

lemma verify_topology_keeps: "net_frame K obs \<Longrightarrow> keeps obs (verify_isolated_topology K names c)"
  unfolding verify_isolated_topology_def namespace_matches_pid_one_def verify_ipv6_disabled_def
    verify_no_default_route_def interface_addresses_def check_links_def Let_def
  by (intro keeping ipv6_loop_keeps names_loop_keeps) (auto simp: net_frame_def)

lemma Watch_keeps:
  assumes "net_frame (lk_net K) obs" "\<forall>fd b f. keeps obs (lk_recv K fd b f)"
  shows "keeps obs (Watch_event K w)" "keeps obs (Watch_reject_pending K w)"
  using assms unfolding Watch_reject_pending_def Watch_event_def verify_isolated_namespace_def
  by (auto intro!: keeping verify_topology_keeps)

section \<open>Ready means safe\<close>

text \<open>
  What start-up relies on: the laws of the four groups of calls; that the network reads and
  \<open>recv\<close> touch neither sockets nor credentials and the credential calls no sockets; that
  \<open>PR_SET_DUMPABLE\<close> changes only its flag; and that \<open>SIOCGIFINDEX\<close> reports the index of the
  named interface.
\<close>

definition launcher_laws :: "'k launcher_kernel \<Rightarrow> ('k \<Rightarrow> int \<Rightarrow> (bytes \<times> int) option) \<Rightarrow> ('k \<Rightarrow> topology) \<Rightarrow>
    ('k \<Rightarrow> int \<Rightarrow> sock_view option) \<Rightarrow> ('k \<Rightarrow> creds) \<Rightarrow> (string \<Rightarrow> int) \<Rightarrow> bool" where
  "launcher_laws K file tp view cr ifx \<longleftrightarrow>
     memfd_laws (lk_memfd K) file \<and> net_laws (lk_net K) tp \<and> socket_laws (lk_socket K) view
     \<and> cred_laws (lk_cred K) cr
     \<and> net_frame (lk_net K) view \<and> net_frame (lk_net K) cr \<and> cred_frame (lk_cred K) view
     \<and> (\<forall>fd b f. keeps view (lk_recv K fd b f)) \<and> (\<forall>fd b f. keeps cr (lk_recv K fd b f))
     \<and> (\<forall>k. \<exists>x. cr (snd (sys_prctl (lk_cred K) PR_SET_DUMPABLE 0 k)) = (cr k)\<lparr>cr_dumpable := x\<rparr>)
     \<and> index_laws (lk_socket K) ifx"

lemma nondumpable_again:
  assumes "launcher_laws K file tp view cr ifx" "set_nondumpable (lk_cred K) k = (Inr (), k')"
    and "cr_dumpable (cr k) = 0"
  shows "cr k' = cr k"
proof -
  from assms(2) obtain k1 where
    c: "sys_prctl (lk_cred K) PR_SET_DUMPABLE 0 k = (0, k1)" "sys_prctl (lk_cred K) PR_GET_DUMPABLE 0 k1 = (0, k')"
    by (auto simp: set_nondumpable_def io_simps)
  from assms(1) c(1) obtain x where k1: "cr k1 = (cr k)\<lparr>cr_dumpable := x\<rparr>"
    unfolding launcher_laws_def by (metis snd_conv)
  have "cred_laws (lk_cred K) cr" using assms(1) by (simp add: launcher_laws_def)
  from cred_lawsD(9) [OF this c(2)] k1 have "cr k' = (cr k)\<lparr>cr_dumpable := 0\<rparr>" by simp
  with assms(3) show ?thesis by simp
qed

text \<open>The sockets after the loop: those from before, and one guarded socket per interface.\<close>

lemma descriptors_loop_laws:
  "socket_laws (lk_socket K) view \<Longrightarrow> index_laws (lk_socket K) ifx \<Longrightarrow>
     descriptors_loop K ifcs k = (Inr (records, budgets, fds), k') \<Longrightarrow>
     map fst records = map descriptor_id ifcs \<and> map fst budgets = map descriptor_id ifcs
     \<and> map fst fds = map descriptor_id ifcs \<and> (\<forall>(_, mac) \<in> set records. length mac = 6)
     \<and> (\<forall>fd v. view k fd = Some v \<longrightarrow> view k' fd = Some v)
     \<and> list_all2 (\<lambda>i (ifid, fd). ifid = descriptor_id i \<and> 0 < ifx (interface_name i)
          \<and> view k' fd = Some (guarded_socket (ifx (interface_name i)))) ifcs fds"
proof (induction ifcs arbitrary: k records budgets fds)
  case Nil
  then show ?case by simp
next
  case (Cons ifc ifcs)
  from Cons.prems(3) obtain d k1 rs bs fs where
    o: "open_filtered_descriptor (lk_socket K) (interface_name ifc) k = (Inr d, k1)"
    and l: "descriptors_loop K ifcs k1 = (Inr (rs, bs, fs), k')"
    and r: "records = (descriptor_id ifc, fdesc_local_mac d) # rs"
      "budgets = (descriptor_id ifc, min 1280 (nat (fdesc_mtu d))) # bs"
      "fds = (descriptor_id ifc, fdesc_fd d) # fs"
    by (auto simp: io_then_Inr lift_err_Inr)
  note k1 = open_laws [OF Cons.prems(1) o, simplified]
  note IH = Cons.IH [OF Cons.prems(1,2) l] and ix = open_index [OF Cons.prems(2) o]
  have "view k' (fdesc_fd d) = Some (guarded_socket (ifx (interface_name ifc)))" using IH k1 ix by auto
  moreover have "view k fd = Some v \<Longrightarrow> view k' fd = Some v" for fd v
    using IH k1 by (metis fun_upd_apply option.distinct(1))
  ultimately show ?case using IH k1 ix r by auto
qed

lemma read_manifest_laws:
  assumes "memfd_laws (lk_memfd K) file" "read_manifest K J a k = (Inr m, k')"
  shows "\<exists>bs k1. lk_read_file K (arg_manifest a) k = (Some bs, k1)
    \<and> validate_manifest_json J bs (arg_interfaces a) = Inr m"
proof -
  from assms(2) obtain bs k1 fd k2 q k3 where
    c: "lk_read_file K (arg_manifest a) k = (Some bs, k1)"
      "create_immutable_manifest (lk_memfd K) bs k1 = (Inr fd, k2)"
    and q: "(io_then (lift_err Launch_linux (read_immutable_manifest (lk_memfd K) fd)) (\<lambda>content.
            io_ret (map_err Launch_manifest (validate_manifest_json J content (arg_interfaces a)))) k2) = (Inr m, k3)"
    unfolding read_manifest_def
    by (auto simp: io_call_pair io_guard_Inr io_then_Inr [of "lift_err Launch_linux (create_immutable_manifest _ _)"]
        lift_err_Inr scoped_pair)
  from q obtain content where content: "read_immutable_manifest (lk_memfd K) fd k2 = (Inr content, k3)"
    "validate_manifest_json J content (arg_interfaces a) = Inr m"
    by (auto simp: io_then_Inr lift_err_Inr)
  have "content = bs" using sealed_laws [OF assms(1) c(2)] content(1) by simp
  with c(1) content(2) show ?thesis by blast
qed


text \<open>A successful start-up, stage by stage.\<close>

lemma startup_stages:
  assumes "startup K J argv k = (Inr (a, rt, fds, w), k')"
  obtains m k1 k3 records budgets k4 bud k5 k6 k7 k8 k9 where
    "arguments argv = Inr a" "read_manifest K J a k = (Inr m, k1)"
    "local_locs m = []" "\<not> list_ex local_delivery (interfaces m)"
    "set (map interface_name (interfaces m)) = set (arg_interfaces a)"
    "descriptors_loop K (interfaces m) k3 = (Inr (records, budgets, fds), k4)"
    "DescriptorBudgets_new m budgets = Inr bud" "Watch_reject_pending K w k4 = (Inr (), k5)"
    "verify_isolated_topology (lk_net K) (arg_interfaces a) True k5 = (Inr (), k6)"
    "drop_privileges (lk_cred K) (arg_uid a) (arg_gid a) k6 = (Inr (), k7)"
    "set_nondumpable (lk_cred K) k7 = (Inr (), k8)" "NativeRuntime_new m bud records = Inr rt"
    "Watch_reject_pending K w k8 = (Inr (), k9)"
    "verify_isolated_topology (lk_net K) (arg_interfaces a) False k9 = (Inr (), k')"
  using assms unfolding startup_def verify_isolated_namespace_def verify_isolated_namespace_after_drop_def
  by (auto simp: io_then_Inr lift_err_Inr io_guard_Inr split: prod.splits)

lemma fresh_budgets:
  assumes "DescriptorBudgets_new m budgets = Inr bud" "NativeRuntime_new m bud records = Inr rt"
    and "i \<in> set (interfaces m)"
  shows "\<exists>b. DescriptorBudgets_get bud (descriptor_id i) = Some b \<and> 48 \<le> b \<and> b \<le> 1280"
proof -
  from assms(1) have b: "bud = rev budgets" "\<forall>(ifid, b) \<in> set budgets. 48 \<le> b \<and> b \<le> 1280"
    by (auto simp: budgets_new_iff)
  from assms(2,3) obtain x where x: "DescriptorBudgets_get bud (descriptor_id i) = Some x"
    by (auto simp: new_Inr)
  then have "(descriptor_id i, x) \<in> set budgets" using b(1)
    by (auto simp: DescriptorBudgets_get_def dest: map_of_SomeD)
  with x b(2) show ?thesis by auto
qed

lemma verified_isolated:
  assumes "launcher_laws K file tp view cr ifx"
    and v: "verify_isolated_topology (lk_net K) names b k = (Inr (), k')"
  shows "isolated (listed_routes (tp k')) names b"
proof -
  from assms(1) have laws: "net_laws (lk_net K) tp" by (auto simp: launcher_laws_def)
  have "isolated (listed_routes (tp k)) names b" using listed_topology_iff [OF laws, of names b k] v by simp
  moreover have "tp k' = tp k"
    by (rule keepsD [OF verify_topology_keeps v]) (use laws in \<open>simp add: net_frame_def keeps_def net_lawsD\<close>)
  ultimately show ?thesis by simp
qed

text \<open>
  C6: Ready means safe. When start-up succeeds: the manifest in force is the validation of
  exactly the bytes read from the named file, it delivers nothing locally and names exactly the
  interfaces of the command line; the topology just checked is isolated, but for routes of an
  interface called \<open>Iface\<close>, which the check does not see (\<open>default_route_hidden_by_name\<close>); the
  process has no privilege left and runs as the requested user and group; the runtime has one
  descriptor for each interface of the manifest, a locked, filtered socket bound to the index of
  that very interface; and the runtime is a fresh one over that manifest with a packet budget of
  48 to 1280 bytes for every interface.
\<close>

theorem ready_means_safe:
  assumes "launcher_laws K file tp view cr ifx" "startup K J argv k = (Inr (a, rt, fds, w), k')"
  shows "arguments argv = Inr a
    \<and> (\<exists>bs k1. lk_read_file K (arg_manifest a) k = (Some bs, k1)
         \<and> validate_manifest_json J bs (arg_interfaces a) = Inr (rt_manifest rt))
    \<and> local_locs (rt_manifest rt) = [] \<and> (\<forall>i \<in> set (interfaces (rt_manifest rt)). \<not> local_delivery i)
    \<and> interface_name ` set (interfaces (rt_manifest rt)) = set (arg_interfaces a)
    \<and> isolated (listed_routes (tp k')) (arg_interfaces a) False
    \<and> arg_uid a \<noteq> 0 \<and> arg_gid a \<noteq> 0
    \<and> cr k' = \<lparr>cr_uid = replicate 4 (arg_uid a), cr_gid = replicate 4 (arg_gid a), cr_groups = [],
               cr_capabilities = replicate 5 0, cr_no_new_privs = True, cr_dumpable = 0\<rparr>
    \<and> list_all2 (\<lambda>i (ifid, fd). ifid = descriptor_id i \<and> 0 < ifx (interface_name i)
         \<and> view k' fd = Some (guarded_socket (ifx (interface_name i)))) (interfaces (rt_manifest rt)) fds
    \<and> \<not> rt_stopped rt \<and> rt_telemetry rt = RuntimeTelemetry_default
    \<and> (\<forall>i \<in> set (interfaces (rt_manifest rt)).
         \<exists>b. DescriptorBudgets_get (rt_budgets rt) (descriptor_id i) = Some b \<and> 48 \<le> b \<and> b \<le> 1280)"
proof -
  from assms(1) have laws: "memfd_laws (lk_memfd K) file"
    "socket_laws (lk_socket K) view" "cred_laws (lk_cred K) cr" "net_frame (lk_net K) view"
    "net_frame (lk_net K) cr" "cred_frame (lk_cred K) view"
    "\<forall>fd b f. keeps view (lk_recv K fd b f)" "\<forall>fd b f. keeps cr (lk_recv K fd b f)"
    "index_laws (lk_socket K) ifx"
    by (auto simp: launcher_laws_def)
  from assms(2) obtain m k1 k3 records budgets k4 bud k5 k6 k7 k8 k9 where
    start: "arguments argv = Inr a" "local_locs m = []" "\<not> list_ex local_delivery (interfaces m)"
      "set (map interface_name (interfaces m)) = set (arg_interfaces a)"
    and m: "read_manifest K J a k = (Inr m, k1)"
    and descs: "descriptors_loop K (interfaces m) k3 = (Inr (records, budgets, fds), k4)"
    and bud: "DescriptorBudgets_new m budgets = Inr bud"
    and pend: "Watch_reject_pending K w k4 = (Inr (), k5)"
    and iso: "verify_isolated_topology (lk_net K) (arg_interfaces a) True k5 = (Inr (), k6)"
    and drop: "drop_privileges (lk_cred K) (arg_uid a) (arg_gid a) k6 = (Inr (), k7)"
    and nond: "set_nondumpable (lk_cred K) k7 = (Inr (), k8)"
    and rt: "NativeRuntime_new m bud records = Inr rt"
    and pend': "Watch_reject_pending K w k8 = (Inr (), k9)"
    and iso': "verify_isolated_topology (lk_net K) (arg_interfaces a) False k9 = (Inr (), k')"
    by (rule startup_stages)
  note dropped = drop_laws [OF laws(3) drop]
  have "cr k' = cr k7"
    using nondumpable_again [OF assms(1) nond] dropped keepsD [OF Watch_keeps(2) [OF laws(5,8)] pend']
      keepsD [OF verify_topology_keeps [OF laws(5)] iso'] by simp
  moreover have "view k' = view k4"
    using keepsD [OF Watch_keeps(2) [OF laws(4,7)] pend] keepsD [OF Watch_keeps(2) [OF laws(4,7)] pend']
      keepsD [OF verify_topology_keeps [OF laws(4)] iso] keepsD [OF verify_topology_keeps [OF laws(4)] iso']
      keepsD [OF drop_privileges_keeps [OF laws(6)] drop] keepsD [OF set_nondumpable_keeps [OF laws(6)] nond]
    by simp
  moreover from rt have "rt_manifest rt = m" "rt_budgets rt = bud" "\<not> rt_stopped rt"
    "rt_telemetry rt = RuntimeTelemetry_default" by (auto simp: new_Inr)
  ultimately show ?thesis
    using read_manifest_laws [OF laws(1) m] start verified_isolated [OF assms(1) iso'] dropped
      descriptors_loop_laws [OF laws(2,9) descs] fresh_budgets [OF bud rt]
    by (auto simp: list_ex_iff)
qed

subsection \<open>A machine that starts\<close>

text \<open>For the witness: the sample kernels side by side, each on its own part of the state.\<close>

type_synonym sample_machine = "(bytes \<times> int) option list \<times> sock_view option list \<times> sample_proc"

definition on_files :: "((bytes \<times> int) option list \<Rightarrow> 'a \<times> (bytes \<times> int) option list) \<Rightarrow> sample_machine \<Rightarrow> 'a \<times> sample_machine" where
  "on_files m k = (case m (fst k) of (r, x) \<Rightarrow> (r, x, snd k))"

definition on_sockets :: "(sock_view option list \<Rightarrow> 'a \<times> sock_view option list) \<Rightarrow> sample_machine \<Rightarrow> 'a \<times> sample_machine" where
  "on_sockets m k = (case m (fst (snd k)) of (r, x) \<Rightarrow> (r, fst k, x, snd (snd k)))"

definition on_proc :: "(sample_proc \<Rightarrow> 'a \<times> sample_proc) \<Rightarrow> sample_machine \<Rightarrow> 'a \<times> sample_machine" where
  "on_proc m k = (case m (snd (snd k)) of (r, x) \<Rightarrow> (r, fst k, fst (snd k), x))"

definition machine_cred :: "sample_machine cred_kernel" where
  "machine_cred =
     \<lparr>read_to_string = (\<lambda>p. on_proc (read_to_string sample_cred_kernel p)),
      sys_prctl = (\<lambda>i a. on_proc (sys_prctl sample_cred_kernel i a)),
      sys_setgroups = (\<lambda>gs. on_proc (sys_setgroups sample_cred_kernel gs)),
      sys_setresgid = (\<lambda>a b c. on_proc (sys_setresgid sample_cred_kernel a b c)),
      sys_setresuid = (\<lambda>a b c. on_proc (sys_setresuid sample_cred_kernel a b c)),
      sys_capset = (\<lambda>h d. on_proc (sys_capset sample_cred_kernel h d)),
      sys_getgroups = (\<lambda>n. on_proc (sys_getgroups sample_cred_kernel n)),
      sys_getresuid = on_proc (sys_getresuid sample_cred_kernel),
      sys_getresgid = on_proc (sys_getresgid sample_cred_kernel),
      sys_setfsuid = (\<lambda>u. on_proc (sys_setfsuid sample_cred_kernel u)),
      sys_setfsgid = (\<lambda>g. on_proc (sys_setfsgid sample_cred_kernel g))\<rparr>"

definition machine_memfd :: "sample_machine memfd_kernel" where
  "machine_memfd =
     \<lparr>sys_memfd_create = (\<lambda>n f. on_files (sys_memfd_create sample_memfd_kernel n f)),
      sys_write = (\<lambda>fd bs. on_files (sys_write sample_memfd_kernel fd bs)),
      sys_add_seals = (\<lambda>fd s. on_files (sys_add_seals sample_memfd_kernel fd s)),
      sys_get_seals = (\<lambda>fd. on_files (sys_get_seals sample_memfd_kernel fd)),
      sys_fstat_size = (\<lambda>fd. on_files (sys_fstat_size sample_memfd_kernel fd)),
      sys_pread = (\<lambda>fd n off. on_files (sys_pread sample_memfd_kernel fd n off)),
      sys_close = (\<lambda>fd k. (sys_close sample_memfd_kernel fd (fst k), snd k))\<rparr>"

definition machine_socket :: "sample_machine socket_kernel" where
  "machine_socket =
     \<lparr>sk_socket = (\<lambda>d t p. on_sockets (sk_socket sample_socket_kernel d t p)),
      sk_close = (\<lambda>fd k. (fst k, sk_close sample_socket_kernel fd (fst (snd k)), snd (snd k))),
      sk_ioctl = (\<lambda>fd r n. on_sockets (sk_ioctl sample_socket_kernel fd r n)),
      sk_bind = (\<lambda>fd a. on_sockets (sk_bind sample_socket_kernel fd a)),
      sk_setsockopt = (\<lambda>fd l n v. on_sockets (sk_setsockopt sample_socket_kernel fd l n v))\<rparr>"

definition machine_kernel :: "sample_machine launcher_kernel" where
  "machine_kernel =
     \<lparr>lk_cred = machine_cred, lk_memfd = machine_memfd, lk_net = sample_net_kernel,
      lk_socket = machine_socket, lk_read_file = (\<lambda>_ k. (Some [], k)),
      lk_bind_netlink = (\<lambda>_ _ k. (0, k)), lk_recv = (\<lambda>_ b _ k. ((- 1, True, b), k)),
      lk_send = (\<lambda>_ f _ k. (int (length f), k)), lk_clock_gettime = (\<lambda>k. (0, k)),
      lk_poll = (\<lambda>fds k. ((1, map (\<lambda>_. 1) fds), k))\<rparr>"

abbreviation machine_file :: "sample_machine \<Rightarrow> int \<Rightarrow> (bytes \<times> int) option" where
  "machine_file k \<equiv> sample_file (fst k)"
abbreviation machine_view :: "sample_machine \<Rightarrow> int \<Rightarrow> sock_view option" where
  "machine_view k \<equiv> sample_sockets (fst (snd k))"
abbreviation machine_creds :: "sample_machine \<Rightarrow> creds" where
  "machine_creds k \<equiv> sample_creds (snd (snd k))"

lemma on_part_pair:
  "on_files m k = (r, k') \<longleftrightarrow> (\<exists>x. m (fst k) = (r, x) \<and> k' = (x, snd k))"
  "on_sockets n k = (s, k') \<longleftrightarrow> (\<exists>x. n (fst (snd k)) = (s, x) \<and> k' = (fst k, x, snd (snd k)))"
  "on_proc p k = (q, k') \<longleftrightarrow> (\<exists>x. p (snd (snd k)) = (q, x) \<and> k' = (fst k, fst (snd k), x))"
  by (auto simp: on_files_def on_sockets_def on_proc_def split: prod.splits)

lemma on_proc_keeps: "keeps machine_view (on_proc m)"
  by (simp add: keeps_def on_proc_def split: prod.splits)

lemma machine_cred_laws: "cred_laws machine_cred machine_creds"
  unfolding cred_laws_def machine_cred_def
  by (intro conjI allI impI) (auto simp: on_part_pair dest: cred_lawsD [OF sample_cred_laws])

lemma machine_memfd_laws: "memfd_laws machine_memfd machine_file"
  unfolding memfd_laws_def machine_memfd_def
  by (intro conjI allI impI)
    (auto simp: on_part_pair memfd_lawsD(8) [OF sample_memfd_laws] dest: memfd_lawsD(1-7) [OF sample_memfd_laws])

lemma machine_socket_laws: "socket_laws machine_socket machine_view"
  unfolding socket_laws_def machine_socket_def
  by (intro conjI allI impI)
    (auto simp: on_part_pair socket_lawsD(2) [OF sample_socket_laws] dest: socket_lawsD(1,3-5) [OF sample_socket_laws])

lemma machine_net_laws: "net_laws sample_net_kernel (\<lambda>_ :: sample_machine. sample_topology)"
  using sample_net_laws unfolding net_laws_def sample_net_kernel_def by simp

lemma machine_laws:
  "launcher_laws machine_kernel machine_file (\<lambda>_. sample_topology) machine_view machine_creds
     (\<lambda>name. sample_index (if_req_name name))"
proof -
  have "net_frame (sample_net_kernel :: sample_machine net_kernel) machine_view"
    "net_frame (sample_net_kernel :: sample_machine net_kernel) machine_creds"
    by (auto simp: net_frame_def keeps_def sample_net_kernel_def)
  moreover have "cred_frame machine_cred machine_view"
    by (simp add: cred_frame_def machine_cred_def on_proc_keeps)
  moreover have "\<exists>x. machine_creds (snd (sys_prctl machine_cred PR_SET_DUMPABLE 0 k)) =
      (machine_creds k)\<lparr>cr_dumpable := x\<rparr>" for k
    by (auto simp: machine_cred_def on_proc_def sample_cred_kernel_def sample_prctl_def
        PR_SET_DUMPABLE_def sample_creds_def split: prod.splits)
  moreover have "index_laws machine_socket (\<lambda>name. sample_index (if_req_name name))"
    by (auto simp: index_laws_def machine_socket_def on_sockets_def sample_socket_kernel_def)
  ultimately show ?thesis
    using machine_cred_laws machine_memfd_laws machine_socket_laws machine_net_laws
    by (simp add: launcher_laws_def machine_kernel_def keeps_def)
qed

definition sample_argv :: "string list" where
  "sample_argv = [''--manifest'', ''r8.json'', ''--interface'', ''r8a'', ''--uid'', ''1000'',
     ''--interface'', ''r8b'', ''--gid'', ''1001'']"

definition sample_args :: args where
  "sample_args = \<lparr>arg_manifest = ''r8.json'', arg_interfaces = [''r8a'', ''r8b''], arg_uid = 1000, arg_gid = 1001\<rparr>"

lemma sample_arguments: "arguments sample_argv = Inr sample_args"
proof -
  have "parse_id w ''1000'' = Inr 1000" "parse_id w ''1001'' = Inr 1001" for w
    by (simp_all add: parse_id_def from_str_radix_def to_digit_def ascii_simps)
  then show ?thesis by (simp add: arguments_def sample_argv_def sample_args_def)
qed

lemma machine_verify:
  "verify_isolated_topology sample_net_kernel [''r8a'', ''r8b''] c (k :: sample_machine) = (Inr (), k)"
proof -
  let ?v = "verify_isolated_topology sample_net_kernel [''r8a'', ''r8b''] c k"
  have "\<forall>rs. tp_routes sample_topology = Some rs \<longrightarrow> (\<forall>r \<in> set rs. kr_iface r \<noteq> ''Iface'')"
    by (simp add: sample_topology_def sample_route_def)
  then have "fst ?v = Inr ()"
    using topology_iff [OF machine_net_laws, where k = k] sample_isolated by simp
  moreover have "net_frame sample_net_kernel (\<lambda>k :: sample_machine. k)"
    by (simp add: net_frame_def keeps_def sample_net_kernel_def)
  then have "snd ?v = k" using verify_topology_keeps unfolding keeps_def by blast
  ultimately show ?thesis by (metis prod.collapse)
qed

lemma machine_manifest:
  "read_manifest machine_kernel sample_serde sample_args ([], s, p) = (Inr sample_manifest, ([None], s, p))"
  using sample_validates
  by (simp add: read_manifest_def machine_kernel_def machine_memfd_def sample_args_def io_call_def
      io_then_def lift_err_def create_immutable_manifest_def read_immutable_manifest_def
      verify_immutable_manifest_def owning_def scoped_def zero_or_def on_files_def
      sample_memfd_kernel_def sample_file_def write_loop.simps read_loop.simps REQUIRED_SEALS_def)

lemma machine_open:
  "valid_interface_name name \<Longrightarrow>
   open_filtered_descriptor machine_socket name (f, ss, p) =
     (Inr \<lparr>fdesc_fd = int (Suc (length ss)), fdesc_ifindex = sample_index (if_req_name name), fdesc_mtu = 1500,
           fdesc_local_mac = [2, 0, 0, 0, 0, 1]\<rparr>,
      (f, ss @ [None, Some (guarded_socket (sample_index (if_req_name name)))], p))"
  using sample_index_pos [of "if_req_name name"]
  by (simp add: open_filtered_descriptor_def interface_details_def io_then_def io_call_def machine_socket_def
      on_sockets_def scoped_def owning_def zero_or_def set_socket_option_def sample_socket_kernel_def
      sample_sockets_def fresh_socket_def guarded_socket_def option_defs SIOCGIFINDEX_def SIOCGIFMTU_def EPERM_def
      nth_append)

lemma machine_drop:
  "fst (drop_privileges machine_cred 1000 1001 (f, s, root_process)) = Inr ()"
  by (simp add: drop_privileges_def drop_bounding_capabilities_def set_nondumpable_def
      current_full_privilege_snapshot_def io_then_def io_call_def zero_or_def root_process_def
      machine_cred_def on_proc_def sample_cred_kernel_def sample_prctl_def pr_simps sample_last_cap upt_rec replicate_4_5
      capabilities_reported [OF sample_status_reports] validate_full_privilege_snapshot_def)

lemma machine_nondumpable: "fst (set_nondumpable machine_cred k) = Inr ()"
  by (auto simp: set_nondumpable_def io_then_def zero_or_def machine_cred_def on_proc_def
      sample_cred_kernel_def sample_prctl_def pr_simps split: prod.splits)

lemma machine_quiet: "Watch_reject_pending machine_kernel w k = (Inr (), k)"
  by (simp add: Watch_reject_pending_def Watch_event_def io_then_def io_call_def machine_kernel_def)

lemma sample_interfaces:
  "map interface_name (interfaces sample_manifest) = [''r8a'', ''r8b'']"
  "map descriptor_id (interfaces sample_manifest) = [1, 2]"
  "local_locs sample_manifest = []" "\<not> list_ex local_delivery (interfaces sample_manifest)"
  by (simp_all add: sample_manifest_def manifest_of_def sample_raw_def interface_of_def)

lemma machine_descriptors:
  assumes "map interface_name ifcs = [''r8a'', ''r8b'']" "map descriptor_id ifcs = [i, j]"
  shows "descriptors_loop machine_kernel ifcs (f, ss, p) =
    (Inr ([(i, [2, 0, 0, 0, 0, 1]), (j, [2, 0, 0, 0, 0, 1])], [(i, 1280), (j, 1280)],
          [(i, int (Suc (length ss))), (j, int (length ss + 3))]),
     (f, ss @ [None, Some (guarded_socket 3), None, Some (guarded_socket 4)], p))"
proof -
  have "valid_interface_name ''r8a''" "valid_interface_name ''r8b''"
    by (simp_all add: valid_interface_name_def IFNAMSIZ_def ascii_simps)
  with assms show ?thesis
    by (auto simp: map_eq_Cons_conv io_then_def lift_err_def io_call_def machine_open
        machine_kernel_def)
qed

lemma machine_starts:
  "\<exists>rt fds w k'. startup machine_kernel sample_serde sample_argv ([], [], root_process)
     = (Inr (sample_args, rt, fds, w), k')"
proof -
  let ?w = "\<lparr>watch_fd = 0, watch_names = [''r8a'', ''r8b'']\<rparr>"
  let ?ss = "[Some fresh_socket, None, Some (guarded_socket 3), None, Some (guarded_socket 4)]"
  let ?macs = "[(1, [2, 0, 0, 0, 0, 1]), (2, [2, 0, 0, 0, 0, 1])] :: (u32 \<times> bytes) list"
  have watch: "route_watch machine_kernel [''r8a'', ''r8b''] (f, [], p) = (Inr ?w, (f, [Some fresh_socket], p))" for f p
    by (simp add: route_watch_def io_call_def owning_def machine_kernel_def machine_socket_def
        on_sockets_def sample_socket_kernel_def)
  have budgets: "DescriptorBudgets_new sample_manifest [(1, 1280), (2, 1280)] = Inr [(2, 1280), (1, 1280)]"
    using sample_interfaces(2)
    by (auto simp: budgets_new_iff dest: map_eq_imp_length_eq)
  have r6: "replicate 6 x = [x, x, x, x, x, x]" for x :: u8 by (simp add: numeral_eq_Suc)
  have "\<exists>rt. NativeRuntime_new sample_manifest [(2, 1280), (1, 1280)] ?macs = Inr rt"
    by (simp add: NativeRuntime_new_def sample_manifest_def manifest_of_def sample_raw_def interface_of_def
        NativeManifest_interface_def DescriptorBudgets_get_def r6)
  then obtain rt where rt: "NativeRuntime_new sample_manifest [(2, 1280), (1, 1280)] ?macs = Inr rt" by blast
  obtain k7 where drop: "drop_privileges machine_cred 1000 1001 ([None], ?ss, root_process) = (Inr (), k7)"
    using machine_drop by (metis prod.collapse)
  obtain k8 where nond: "set_nondumpable machine_cred k7 = (Inr (), k8)"
    using machine_nondumpable by (metis prod.collapse)
  have descs: "descriptors_loop machine_kernel (interfaces sample_manifest) ([None], [Some fresh_socket], root_process) =
      (Inr (?macs, [(1, 1280), (2, 1280)], [(1, 2), (2, 4)]), ([None], ?ss, root_process))"
    using machine_descriptors [OF sample_interfaces(1,2), of "[None]" "[Some fresh_socket]" root_process] by simp
  have names: "set (map interface_name (interfaces sample_manifest)) = set (arg_interfaces sample_args)"
    "arg_interfaces sample_args = [''r8a'', ''r8b'']" "arg_uid sample_args = 1000" "arg_gid sample_args = 1001"
    using sample_interfaces(1) by (simp_all add: sample_args_def)
  have K: "lk_net machine_kernel = sample_net_kernel" "lk_cred machine_kernel = machine_cred"
    by (simp_all add: machine_kernel_def)
  have "startup machine_kernel sample_serde sample_argv ([], [], root_process)
      = (Inr (sample_args, rt, [(1, 2), (2, 4)], ?w), k8)"
    unfolding startup_def sample_arguments sum.case
    by (simp add: machine_manifest sample_interfaces(3,4) names K io_then_def lift_err_def io_call_def
        watch machine_verify verify_isolated_namespace_def verify_isolated_namespace_after_drop_def
        descs budgets machine_quiet drop nond rt del: set_map)
  then show ?thesis by blast
qed

theorem ready_means_safe_witness:
  "\<exists>rt fds w k'. startup machine_kernel sample_serde sample_argv ([], [], root_process)
       = (Inr (sample_args, rt, fds, w), k')
     \<and> launcher_laws machine_kernel machine_file (\<lambda>_. sample_topology) machine_view machine_creds
         (\<lambda>name. sample_index (if_req_name name))
     \<and> cr_uid (machine_creds k') = replicate 4 1000 \<and> cr_capabilities (machine_creds k') = replicate 5 0
     \<and> list_all2 (\<lambda>i (ifid, fd). ifid = descriptor_id i \<and> 0 < sample_index (if_req_name (interface_name i))
          \<and> machine_view k' fd = Some (guarded_socket (sample_index (if_req_name (interface_name i)))))
         (interfaces (rt_manifest rt)) fds"
proof -
  from machine_starts obtain rt fds w k' where
    s: "startup machine_kernel sample_serde sample_argv ([], [], root_process) = (Inr (sample_args, rt, fds, w), k')"
    by blast
  from ready_means_safe [OF machine_laws s] s machine_laws show ?thesis
    by (intro exI [of _ rt] exI [of _ fds] exI [of _ w] exI [of _ k']) (simp add: sample_args_def)
qed

section \<open>The loop ends at its first fault\<close>

lemma startup_runtime:
  assumes "startup K J argv k = (Inr (a, rt, fds, w), k')"
  shows "\<exists>m bud records. NativeRuntime_new m bud records = Inr rt"
  using assms by (rule startup_stages) blast

text \<open>Running, a runtime over \<open>rt0\<close>'s configuration that has kept its books.\<close>

lemma serve_once_inv:
  assumes "transit_only rt0" "runtime_inv rt0 ss0 rt ss" "\<not> rt_stopped rt"
    and "serve_once K (rt, io, ev, ss, ck) = (r, (rt', io', ev', ss', ck'))"
  shows "runtime_inv rt0 ss0 rt' ss' \<and> (rt_stopped rt' \<longrightarrow> \<not> is_ok r)"
proof -
  obtain fds k w kw where io: "io = (fds, k)" "ev = (w, kw)" by (metis prod.exhaust)
  obtain n re k1 where p: "lk_poll K (map snd fds @ [watch_fd w]) k = ((n, re), k1)" by (metis prod.exhaust)
  show ?thesis
  proof (cases "poll_failed n re")
    case True
    with assms io p show ?thesis by (auto simp: serve_once_def)
  next
    case False
    obtain q st where s: "NativeRuntime_step_with_clock (linux_env K) rt (fds, k1) ev ss ck = (q, st)"
      by (metis prod.exhaust)
    with assms(4) io p False have r: "r = map_err Launch_native q" "st = (rt', io', ev', ss', ck')"
      by (auto simp: serve_once_def)
    have "native_step (linux_env K) (rt, (fds, k1), ev, ss, ck) (rt', io', ev', ss', ck')"
      using s r(2) by (auto intro: native_step.step_with_clock)
    from native.step_keeps [OF _ this, of rt0 ss0] assms(1,2) have "runtime_inv rt0 ss0 rt' ss'" by simp
    moreover have "rt_stopped rt' \<longrightarrow> \<not> is_ok q"
      using step_clock_fail_closed [OF s [unfolded r(2)]] assms(3) by (auto simp: fail_closed_def)
    ultimately show ?thesis using r(1) by (cases q) auto
  qed
qed

lemma serve_inv:
  "transit_only rt0 \<Longrightarrow> runtime_inv rt0 ss0 rt ss \<Longrightarrow> \<not> rt_stopped rt \<Longrightarrow>
   serve K n (rt, io, ev, ss, ck) = (r, (rt', io', ev', ss', ck')) \<Longrightarrow>
   runtime_inv rt0 ss0 rt' ss' \<and> (rt_stopped rt' \<longrightarrow> \<not> is_ok r)"
proof (induction n arbitrary: rt io ev ss ck)
  case (Suc n)
  obtain q rt1 io1 ev1 ss1 ck1 where s: "serve_once K (rt, io, ev, ss, ck) = (q, (rt1, io1, ev1, ss1, ck1))"
    by (metis prod.exhaust)
  note one = serve_once_inv [OF Suc.prems(1,2,3) s]
  show ?case
  proof (cases q)
    case (Inl e)
    with Suc.prems(4) s one show ?thesis by auto
  next
    case (Inr u)
    with Suc.prems(4) s have v: "serve K n (rt1, io1, ev1, ss1, ck1) = (r, (rt', io', ev', ss', ck'))" by simp
    show ?thesis by (rule Suc.IH [OF Suc.prems(1) _ _ v]) (use one Inr in auto)
  qed
qed auto

text \<open>
  The launcher serves until its first fault. However many iterations of the loop run after
  a successful start, under any kernel, the runtime keeps the manifest, budgets and addresses
  it started with, hands nothing to the session sink, and counts one fault if it stopped and
  none otherwise; and once it has stopped the loop has returned an error, so a stopped runtime
  is never stepped again.
\<close>

theorem serves_until_fault:
  assumes "startup K J argv k = (Inr (a, rt, fds, w), k')"
    and "serve K n (rt, (fds, k'), (w, k'), 0, k') = (r, (rt', io', ev', ss', ck'))"
  shows "rt_manifest rt' = rt_manifest rt \<and> rt_budgets rt' = rt_budgets rt
    \<and> rt_local_macs rt' = rt_local_macs rt \<and> ss' = 0 \<and> delivered (rt_telemetry rt') = 0
    \<and> faults (rt_telemetry rt') = (if rt_stopped rt' then 1 else 0)
    \<and> (rt_stopped rt' \<longrightarrow> \<not> is_ok r)"
proof -
  from startup_runtime [OF assms(1)] obtain m bud records where
    new: "NativeRuntime_new m bud records = Inr rt" by blast
  then have "\<not> rt_stopped rt" by (simp add: new_Inr)
  with serve_inv [OF _ _ _ assms(2), of rt 0] new_inv [OF new, of 0]
  show ?thesis by (simp add: runtime_inv_def same_config_def)
qed

theorem serves_until_fault_witness:
  "\<exists>rt fds w k' r rt' io' ev' ck'.
     startup machine_kernel sample_serde sample_argv ([], [], root_process) = (Inr (sample_args, rt, fds, w), k')
     \<and> serve machine_kernel 3 (rt, (fds, k'), (w, k'), 0, k') = (r, (rt', io', ev', 0, ck'))
     \<and> rt_manifest rt' = rt_manifest rt"
proof -
  from machine_starts obtain rt fds w k' where
    s: "startup machine_kernel sample_serde sample_argv ([], [], root_process) = (Inr (sample_args, rt, fds, w), k')"
    by blast
  obtain r rt' io' ev' ss' ck' where
    v: "serve machine_kernel 3 (rt, (fds, k'), (w, k'), 0, k') = (r, (rt', io', ev', ss', ck'))"
    by (metis prod.exhaust)
  from serves_until_fault [OF s v] s v show ?thesis by blast
qed

end
