(* ===== verification/Mobility_Codec.thy ===== *)
theory Mobility_Codec
  imports Session_Codec
begin

text \<open>
  The R8M1 candidate-binding controls (\<open>src/rust/crates/r8-mobility/src/lib.rs\<close>, lines 1-460):
  the five messages with their byte format, the string a location update signs and the string a
  binding token authenticates. The theorems say that the format is canonical in both directions
  and that both authenticated strings determine every field they cover.
\<close>

section \<open>Constants, errors and controls\<close>

definition LOC_UPDATE :: u8 where "LOC_UPDATE = 1"
definition BIND_PROBE :: u8 where "BIND_PROBE = 2"
definition BIND_CHALLENGE :: u8 where "BIND_CHALLENGE = 3"
definition BIND_RESPONSE :: u8 where "BIND_RESPONSE = 4"
definition CANDIDATE_RESULT :: u8 where "CANDIDATE_RESULT = 5"
definition LIVE_CANDIDATES_MAX :: nat where "LIVE_CANDIDATES_MAX = 2"
definition PROPOSAL_SLOTS :: nat where "PROPOSAL_SLOTS = 2"
definition RESULT_CACHE_SLOTS :: nat where "RESULT_CACHE_SLOTS = 2"
definition CHALLENGE_EXPIRY_MS :: u64 where "CHALLENGE_EXPIRY_MS = 3000"
definition OLD_BINDING_GRACE_MS :: u64 where "OLD_BINDING_GRACE_MS = 10000"

lemmas control_types =
  LOC_UPDATE_def BIND_PROBE_def BIND_CHALLENGE_def BIND_RESPONSE_def CANDIDATE_RESULT_def

lemmas mobility_limits =
  LIVE_CANDIDATES_MAX_def PROPOSAL_SLOTS_def RESULT_CACHE_SLOTS_def

datatype MobilityError = Candidate_err | Capacity_err | Timeout_err | Replay_err

text \<open>The fields in the order of the source; see the equations of \<open>Control_encode\<close>.\<close>

datatype Control =
    LocUpdate bytes bytes bytes u64 u64 u64 u8 bytes
  | BindProbe bytes bytes u64 u8 bytes
  | BindChallenge bytes bytes u64 u8 u64 bytes
  | BindResponse bytes bytes u64 u8 u64 bytes
  | CandidateResult bytes u64 u8 u8

fun Control_typ :: "Control \<Rightarrow> u8" where
  "Control_typ (LocUpdate _ _ _ _ _ _ _ _) = LOC_UPDATE"
| "Control_typ (BindProbe _ _ _ _ _) = BIND_PROBE"
| "Control_typ (BindChallenge _ _ _ _ _ _) = BIND_CHALLENGE"
| "Control_typ (BindResponse _ _ _ _ _ _) = BIND_RESPONSE"
| "Control_typ (CandidateResult _ _ _ _) = CANDIDATE_RESULT"

fun Control_fields :: "Control \<Rightarrow> bytes" where
  "Control_fields (LocUpdate candidate_id old_loc new_loc epoch not_before_ms valid_for_ms path_slot signature) =
     candidate_id @ old_loc @ new_loc @ u64_to_be_bytes epoch @ u64_to_be_bytes not_before_ms
     @ u64_to_be_bytes valid_for_ms @ [path_slot] @ signature"
| "Control_fields (BindProbe candidate_id loc epoch path_slot probe_nonce) =
     candidate_id @ loc @ u64_to_be_bytes epoch @ [path_slot] @ probe_nonce"
| "Control_fields (BindChallenge candidate_id loc epoch path_slot expiry_ms token) =
     candidate_id @ loc @ u64_to_be_bytes epoch @ [path_slot] @ u64_to_be_bytes expiry_ms @ token"
| "Control_fields (BindResponse candidate_id loc epoch path_slot expiry_ms token) =
     candidate_id @ loc @ u64_to_be_bytes epoch @ [path_slot] @ u64_to_be_bytes expiry_ms @ token"
| "Control_fields (CandidateResult candidate_id epoch path_slot outcome) =
     candidate_id @ u64_to_be_bytes epoch @ [path_slot] @ [outcome]"

definition Control_encode :: "Control \<Rightarrow> MobilityError + bytes" where
  "Control_encode ctl = Inr (ascii ''R8M1'' @ [Control_typ ctl, 1, 0, 0] @ Control_fields ctl)"

fun Control_candidate_id :: "Control \<Rightarrow> bytes" where
  "Control_candidate_id (LocUpdate i _ _ _ _ _ _ _) = i"
| "Control_candidate_id (BindProbe i _ _ _ _) = i"
| "Control_candidate_id (BindChallenge i _ _ _ _ _) = i"
| "Control_candidate_id (BindResponse i _ _ _ _ _) = i"
| "Control_candidate_id (CandidateResult i _ _ _) = i"

fun Control_path_slot :: "Control \<Rightarrow> u8" where
  "Control_path_slot (LocUpdate _ _ _ _ _ _ s _) = s"
| "Control_path_slot (BindProbe _ _ _ s _) = s"
| "Control_path_slot (BindChallenge _ _ _ s _ _) = s"
| "Control_path_slot (BindResponse _ _ _ s _ _) = s"
| "Control_path_slot (CandidateResult _ _ s _) = s"

fun Control_result :: "Control \<Rightarrow> u8 option" where
  "Control_result (CandidateResult _ _ _ r) = Some r"
| "Control_result _ = None"

text \<open>\<open>bytes.get(lo..hi).ok_or(Candidate)\<close>.\<close>

definition get_slice :: "nat \<Rightarrow> nat \<Rightarrow> bytes \<Rightarrow> MobilityError + bytes" where
  "get_slice lo hi bs = (if hi \<le> length bs then Inr (slice_of lo hi bs) else Inl Candidate_err)"

definition a16 :: "bytes \<Rightarrow> nat \<Rightarrow> MobilityError + bytes" where
  "a16 bs offset = get_slice offset (offset + 16) bs"

definition u64at :: "bytes \<Rightarrow> nat \<Rightarrow> MobilityError + u64" where
  "u64at bs offset = and_then (get_slice offset (offset + 8) bs) (\<lambda>b. Inr (u64_from_be_bytes b))"

definition Control_parse :: "bytes \<Rightarrow> MobilityError + Control" where
  "Control_parse bs =
     (if length bs < 8 \<or> take 4 bs \<noteq> ascii ''R8M1'' \<or> bs ! 5 \<noteq> 1 \<or> slice_of 6 8 bs \<noteq> [0, 0]
      then Inl Candidate_err
      else and_then
        (if bs ! 4 = LOC_UPDATE \<and> length bs = 145 then
           and_then (a16 bs 8) (\<lambda>candidate_id. and_then (a16 bs 24) (\<lambda>old_loc.
           and_then (a16 bs 40) (\<lambda>new_loc. and_then (u64at bs 56) (\<lambda>epoch.
           and_then (u64at bs 64) (\<lambda>not_before_ms. and_then (u64at bs 72) (\<lambda>valid_for_ms.
             Inr (LocUpdate candidate_id old_loc new_loc epoch not_before_ms valid_for_ms (bs ! 80)
                    (slice_of 81 145 bs))))))))
         else if bs ! 4 = BIND_PROBE \<and> length bs = 65 then
           and_then (a16 bs 8) (\<lambda>candidate_id. and_then (a16 bs 24) (\<lambda>loc.
           and_then (u64at bs 40) (\<lambda>epoch. and_then (a16 bs 49) (\<lambda>probe_nonce.
             Inr (BindProbe candidate_id loc epoch (bs ! 48) probe_nonce)))))
         else if (bs ! 4 = BIND_CHALLENGE \<or> bs ! 4 = BIND_RESPONSE) \<and> length bs = 89 then
           and_then (a16 bs 8) (\<lambda>candidate_id. and_then (a16 bs 24) (\<lambda>loc.
           and_then (u64at bs 40) (\<lambda>epoch. and_then (u64at bs 49) (\<lambda>expiry_ms.
             if bs ! 4 = BIND_CHALLENGE
             then Inr (BindChallenge candidate_id loc epoch (bs ! 48) expiry_ms (slice_of 57 89 bs))
             else Inr (BindResponse candidate_id loc epoch (bs ! 48) expiry_ms (slice_of 57 89 bs))))))
         else if bs ! 4 = CANDIDATE_RESULT \<and> length bs = 34 then
           and_then (a16 bs 8) (\<lambda>candidate_id. and_then (u64at bs 24) (\<lambda>epoch.
             Inr (CandidateResult candidate_id epoch (bs ! 32) (bs ! 33))))
         else Inl Candidate_err) (\<lambda>ctl.
        if Control_candidate_id ctl = replicate 16 0 \<or> Control_path_slot ctl > 1
           \<or> (case Control_result ctl of None \<Rightarrow> False | Some v \<Rightarrow> \<not> (1 \<le> v \<and> v \<le> 3))
        then Inl Candidate_err
        else Inr ctl))"

section \<open>Authenticated strings\<close>

record mobility_context =
  mc_profile :: u8
  mc_scid :: u64
  mc_sender :: identity
  mc_receiver :: identity
  mc_policy_id :: u32

record loc_update_fields =
  lf_candidate_id :: bytes
  lf_old_loc :: bytes
  lf_new_loc :: bytes
  lf_epoch :: u64
  lf_path_slot :: u8

record token_fields =
  tf_candidate_id :: bytes
  tf_loc :: bytes
  tf_binding :: ObservedBinding
  tf_epoch :: u64
  tf_path_slot :: u8
  tf_expiry_ms :: u64

definition profile_allows_slot :: "u8 \<Rightarrow> u8 \<Rightarrow> bool" where
  "profile_allows_slot profile path_slot \<longleftrightarrow>
     profile \<le> 2 \<and> path_slot = 0 \<or> profile = 3 \<and> path_slot = 1"

definition loc_update_signature_input ::
    "mobility_context \<Rightarrow> loc_update_fields \<Rightarrow> MobilityError + bytes" where
  "loc_update_signature_input ctx f =
     (if mc_profile ctx > 3 \<or> id_role (mc_sender ctx) = id_role (mc_receiver ctx)
         \<or> \<not> (1 \<le> id_role (mc_sender ctx) \<and> id_role (mc_sender ctx) \<le> 2)
         \<or> \<not> (1 \<le> id_role (mc_receiver ctx) \<and> id_role (mc_receiver ctx) \<le> 2)
         \<or> \<not> profile_allows_slot (mc_profile ctx) (lf_path_slot f)
      then Inl Candidate_err
      else Inr (ascii ''R8 LOC_UPDATE v1'' @ [SESSION_VERSION, mc_profile ctx]
        @ u64_to_be_bytes (mc_scid ctx) @ id_eid (mc_sender ctx) @ id_eid (mc_receiver ctx)
        @ lf_old_loc f @ lf_new_loc f @ u64_to_be_bytes (lf_epoch f) @ u64_to_be_bytes 0
        @ u64_to_be_bytes 5000 @ lf_candidate_id f @ [lf_path_slot f]))"

definition sign_loc_update ::
    "crypto \<Rightarrow> bytes \<Rightarrow> mobility_context \<Rightarrow> loc_update_fields \<Rightarrow> MobilityError + Control" where
  "sign_loc_update c signing ctx f =
     and_then (loc_update_signature_input ctx f) (\<lambda>input.
       Inr (LocUpdate (lf_candidate_id f) (lf_old_loc f) (lf_new_loc f) (lf_epoch f) 0 5000
              (lf_path_slot f) (ed_sign c signing input)))"

fun verify_loc_update :: "crypto \<Rightarrow> Control \<Rightarrow> mobility_context \<Rightarrow> MobilityError + unit" where
  "verify_loc_update c
     (LocUpdate candidate_id old_loc new_loc epoch not_before_ms valid_for_ms path_slot signature) ctx =
     (if not_before_ms \<noteq> 0 \<or> valid_for_ms \<noteq> 5000 then Inl Candidate_err
      else and_then (loc_update_signature_input ctx
             \<lparr>lf_candidate_id = candidate_id, lf_old_loc = old_loc, lf_new_loc = new_loc,
              lf_epoch = epoch, lf_path_slot = path_slot\<rparr>) (\<lambda>input.
        if \<not> ed_key_ok c (id_public_key (mc_sender ctx)) then Inl Candidate_err
        else if ed_verify c (id_public_key (mc_sender ctx)) input signature then Inr ()
        else Inl Candidate_err))"
| "verify_loc_update c _ ctx = Inl Candidate_err"

definition token_input :: "mobility_context \<Rightarrow> token_fields \<Rightarrow> MobilityError + bytes" where
  "token_input ctx f =
     (if \<not> is_ok (ObservedBinding_validate (tf_binding f)) \<or> mc_profile ctx > 3
         \<or> \<not> profile_allows_slot (mc_profile ctx) (tf_path_slot f)
         \<or> id_role (mc_sender ctx) = id_role (mc_receiver ctx)
         \<or> \<not> (1 \<le> id_role (mc_sender ctx) \<and> id_role (mc_sender ctx) \<le> 2)
         \<or> \<not> (1 \<le> id_role (mc_receiver ctx) \<and> id_role (mc_receiver ctx) \<le> 2)
      then Inl Candidate_err
      else
        let direction = (if id_role (mc_sender ctx) = 1 then 1 else 2) in
        Inr (ascii ''R8 bind v1'' @ [SESSION_VERSION, mc_profile ctx]
          @ u64_to_be_bytes (mc_scid ctx) @ id_eid (mc_sender ctx) @ id_eid (mc_receiver ctx)
          @ tf_candidate_id f @ tf_loc f @ ObservedBinding_encode (tf_binding f) @ [direction]
          @ u64_to_be_bytes (tf_epoch f) @ [tf_path_slot f] @ u32_to_be_bytes (mc_policy_id ctx)
          @ u64_to_be_bytes (tf_expiry_ms f)))"

definition token ::
    "crypto \<Rightarrow> bytes \<Rightarrow> mobility_context \<Rightarrow> token_fields \<Rightarrow> MobilityError + bytes" where
  "token c secret ctx f =
     and_then (token_input ctx f) (\<lambda>input. Inr (hmac_sha256 c secret input))"

section \<open>The format is canonical\<close>

text \<open>The array sizes of the Rust fields, and what the receiver checks of a decoded control.\<close>

fun control_sized :: "Control \<Rightarrow> bool" where
  "control_sized (LocUpdate i ol nl e nb vf s sig) \<longleftrightarrow>
     length i = 16 \<and> length ol = 16 \<and> length nl = 16 \<and> length sig = 64"
| "control_sized (BindProbe i l e s n) \<longleftrightarrow> length i = 16 \<and> length l = 16 \<and> length n = 16"
| "control_sized (BindChallenge i l e s x t) \<longleftrightarrow> length i = 16 \<and> length l = 16 \<and> length t = 32"
| "control_sized (BindResponse i l e s x t) \<longleftrightarrow> length i = 16 \<and> length l = 16 \<and> length t = 32"
| "control_sized (CandidateResult i e s r) \<longleftrightarrow> length i = 16"

definition control_ok :: "Control \<Rightarrow> bool" where
  "control_ok ctl \<longleftrightarrow> control_sized ctl \<and> Control_candidate_id ctl \<noteq> replicate 16 0
     \<and> Control_path_slot ctl \<le> 1
     \<and> (\<forall>v. Control_result ctl = Some v \<longrightarrow> 1 \<le> v \<and> v \<le> 3)"

lemma get_slice_Inr [simp]: "get_slice lo hi bs = Inr x \<longleftrightarrow> hi \<le> length bs \<and> x = slice_of lo hi bs"
  by (auto simp: get_slice_def)

lemma a16_Inr [simp]: "a16 bs n = Inr x \<longleftrightarrow> n + 16 \<le> length bs \<and> x = slice_of n (n + 16) bs"
  by (simp add: a16_def)

lemma u64at_Inr [simp]:
  "u64at bs n = Inr x \<longleftrightarrow> n + 8 \<le> length bs \<and> x = u64_from_be_bytes (slice_of n (n + 8) bs)"
  by (auto simp: u64at_def and_then_Inr)

lemma ascii_R8M1: "ascii ''R8M1'' = [0x52, 0x38, 0x4d, 0x31]"
  by (simp add: ascii_def)

lemma slice_one: "n < length xs \<Longrightarrow> slice_of n (Suc n) xs = [xs ! n]"
  by (simp add: slice_of_def take_Suc_conv_app_nth Cons_nth_drop_Suc [symmetric])

text \<open>The eight bytes every control starts with.\<close>

lemma control_head:
  assumes "8 \<le> length bs" "take 4 bs = ascii ''R8M1''" "bs ! 5 = 1" "slice_of 6 8 bs = [0, 0]"
  shows "bs = ascii ''R8M1'' @ [bs ! 4, 1, 0, 0] @ drop 8 bs"
proof -
  have "bs = take 4 bs @ slice_of 4 5 bs @ slice_of 5 6 bs @ slice_of 6 8 bs @ drop 8 bs"
    by (simp add: slice_drop_join)
  moreover have "slice_of 4 5 bs = [bs ! 4]" "slice_of 5 6 bs = [bs ! 5]"
    using assms(1) slice_one [of 4 bs] slice_one [of 5 bs] by simp_all
  ultimately show ?thesis using assms by simp
qed

lemma nth_drop_join: "n < length xs \<Longrightarrow> m = Suc n \<Longrightarrow> xs ! n # drop m xs = drop n xs"
  by (simp add: Cons_nth_drop_Suc)

lemma nth_last_drop: "length xs = Suc n \<Longrightarrow> [xs ! n] = drop n xs"
  by (simp add: Cons_nth_drop_Suc [symmetric])

lemma slice_of_0: "slice_of 0 n xs = take n xs"
  by (simp add: slice_of_def)

lemma parse_encode:
  assumes "Control_parse bs = Inr ctl"
  shows "control_ok ctl \<and> Control_encode ctl = Inr bs"
proof -
  have h: "8 \<le> length bs" "take 4 bs = ascii ''R8M1''" "bs ! 5 = 1" "slice_of 6 8 bs = [0, 0]"
    using assms by (auto simp: Control_parse_def split: if_splits)
  note head = control_head [OF this]
  have chk: "Control_candidate_id ctl \<noteq> replicate 16 0 \<and> \<not> Control_path_slot ctl > 1
      \<and> (\<forall>v. Control_result ctl = Some v \<longrightarrow> 1 \<le> v \<and> v \<le> 3)"
    using assms by (auto simp: Control_parse_def and_then_Inr split: if_splits option.splits)
  have "control_sized ctl \<and> Control_typ ctl = bs ! 4 \<and> Control_fields ctl = drop 8 bs"
    using assms h(1)
    by (auto simp: Control_parse_def and_then_Inr slice_drop_join slice_one
        simp del: slice_to_end split: if_splits)
      (simp_all add: slice_drop_join nth_drop_join nth_last_drop)
  with head chk show ?thesis by (auto simp: control_ok_def Control_encode_def not_less)
qed

lemma encode_parse:
  assumes "control_ok ctl" and "Control_encode ctl = Inr bs"
  shows "Control_parse bs = Inr ctl"
proof -
  have bs: "bs = [0x52, 0x38, 0x4d, 0x31, Control_typ ctl, 1, 0, 0] @ Control_fields ctl"
    using assms(2) by (simp add: Control_encode_def ascii_R8M1)
  show ?thesis
  proof (cases ctl)
    case (LocUpdate i ol nl e nb vf s sig)
    with assms(1) show ?thesis
      by (simp add: bs Control_parse_def ascii_R8M1 control_ok_def control_types a16_def u64at_def get_slice_def nth_append not_less slice_of_0)
  next
    case (BindProbe i l e s n)
    with assms(1) show ?thesis
      by (simp add: bs Control_parse_def ascii_R8M1 control_ok_def control_types a16_def u64at_def get_slice_def nth_append not_less slice_of_0)
  next
    case (BindChallenge i l e s x t)
    with assms(1) show ?thesis
      by (simp add: bs Control_parse_def ascii_R8M1 control_ok_def control_types a16_def u64at_def get_slice_def nth_append not_less slice_of_0)
  next
    case (BindResponse i l e s x t)
    with assms(1) show ?thesis
      by (simp add: bs Control_parse_def ascii_R8M1 control_ok_def control_types a16_def u64at_def get_slice_def nth_append not_less slice_of_0)
  next
    case (CandidateResult i e s r)
    with assms(1) show ?thesis
      by (simp add: bs Control_parse_def ascii_R8M1 control_ok_def control_types a16_def u64at_def get_slice_def nth_append not_less slice_of_0)
  qed
qed

interpretation control: codec Control_encode Control_parse control_ok
  by unfold_locales (auto dest: parse_encode encode_parse)

text \<open>
  The R8M1 format is canonical. \<open>Control::parse\<close> accepts a byte string exactly when it is
  the encoding of a control with a non-zero candidate id, a path slot of 0 or 1 and, for a
  result, an outcome between 1 and 3; it then returns that control. Every control has one
  encoding and no two controls share one.
\<close>

theorem control_canonical:
  "Control_parse bs = Inr ctl \<longleftrightarrow> control_ok ctl \<and> Control_encode ctl = Inr bs"
  by (rule control.dec_iff_enc)

section \<open>What the authenticated strings determine\<close>

definition wf_mobility_context :: "mobility_context \<Rightarrow> bool" where
  "wf_mobility_context ctx \<longleftrightarrow>
     length (id_eid (mc_sender ctx)) = 16 \<and> length (id_eid (mc_receiver ctx)) = 16"

definition wf_token_fields :: "token_fields \<Rightarrow> bool" where
  "wf_token_fields f \<longleftrightarrow>
     length (tf_candidate_id f) = 16 \<and> length (tf_loc f) = 16 \<and> wf_binding (tf_binding f)"

definition wf_loc_update_fields :: "loc_update_fields \<Rightarrow> bool" where
  "wf_loc_update_fields f \<longleftrightarrow>
     length (lf_candidate_id f) = 16 \<and> length (lf_old_loc f) = 16 \<and> length (lf_new_loc f) = 16"

lemma token_input_Inr:
  "token_input ctx f = Inr bs \<longleftrightarrow>
     ObservedBinding_validate (tf_binding f) = Inr () \<and> mc_profile ctx \<le> 3
     \<and> profile_allows_slot (mc_profile ctx) (tf_path_slot f)
     \<and> id_role (mc_sender ctx) \<noteq> id_role (mc_receiver ctx)
     \<and> id_role (mc_sender ctx) \<in> {1..2} \<and> id_role (mc_receiver ctx) \<in> {1..2}
     \<and> bs = ascii ''R8 bind v1'' @ [SESSION_VERSION, mc_profile ctx]
          @ u64_to_be_bytes (mc_scid ctx) @ id_eid (mc_sender ctx) @ id_eid (mc_receiver ctx)
          @ tf_candidate_id f @ tf_loc f @ ObservedBinding_encode (tf_binding f)
          @ [if id_role (mc_sender ctx) = 1 then 1 else 2]
          @ u64_to_be_bytes (tf_epoch f) @ [tf_path_slot f] @ u32_to_be_bytes (mc_policy_id ctx)
          @ u64_to_be_bytes (tf_expiry_ms f)"
  by (auto simp: token_input_def is_ok_iff not_less Let_def)

lemma role_1_or_2: "r \<in> {1..2} \<longleftrightarrow> r = 1 \<or> r = 2" for r :: u8
proof
  assume "r \<in> {1..2}"
  then have "unat r = 1 \<or> unat r = 2" by (auto simp: word_le_nat_alt)
  then show "r = 1 \<or> r = 2" by (simp add: word_unat_eq_iff)
qed auto

lemma token_input_injective:
  assumes w: "wf_mobility_context x" "wf_mobility_context y" "wf_token_fields f" "wf_token_fields g"
    and x: "token_input x f = Inr bs" and y: "token_input y g = Inr bs"
  shows "f = g \<and> mc_profile x = mc_profile y \<and> mc_scid x = mc_scid y
    \<and> id_eid (mc_sender x) = id_eid (mc_sender y) \<and> id_eid (mc_receiver x) = id_eid (mc_receiver y)
    \<and> id_role (mc_sender x) = id_role (mc_sender y) \<and> mc_policy_id x = mc_policy_id y"
proof -
  let ?t = "\<lambda>ctx f. [if id_role (mc_sender ctx) = 1 then 1 else 2]
     @ u64_to_be_bytes (tf_epoch f) @ [tf_path_slot f] @ u32_to_be_bytes (mc_policy_id ctx)
     @ u64_to_be_bytes (tf_expiry_ms f)"
  let ?h = "\<lambda>ctx f. [SESSION_VERSION, mc_profile ctx] @ u64_to_be_bytes (mc_scid ctx)
     @ id_eid (mc_sender ctx) @ id_eid (mc_receiver ctx) @ tf_candidate_id f @ tf_loc f"
  note X = x [unfolded token_input_Inr] and Y = y [unfolded token_input_Inr]
  have "ascii ''R8 bind v1'' @ ?h x f @ ObservedBinding_encode (tf_binding f) @ ?t x f
      = ascii ''R8 bind v1'' @ ?h y g @ ObservedBinding_encode (tf_binding g) @ ?t y g"
    using X Y by (metis append_assoc)
  then have eq: "?h x f @ ObservedBinding_encode (tf_binding f) @ ?t x f
      = ?h y g @ ObservedBinding_encode (tf_binding g) @ ?t y g" by simp
  have "length (?h x f) = length (?h y g)"
    using w by (simp add: wf_mobility_context_def wf_token_fields_def)
  with eq have h: "?h x f = ?h y g"
    and r: "ObservedBinding_encode (tf_binding f) @ ?t x f = ObservedBinding_encode (tf_binding g) @ ?t y g"
    by (simp_all only: append_split)
  have b: "tf_binding f = tf_binding g" "?t x f = ?t y g"
    using binding_encode_prefix_free [OF _ _ _ _ r] X Y w by (simp_all add: wf_token_fields_def)
  have "id_role (mc_sender x) = 1 \<or> id_role (mc_sender x) = 2"
    "id_role (mc_sender y) = 1 \<or> id_role (mc_sender y) = 2"
    using X Y by (simp_all only: role_1_or_2)
  with b(2) have "id_role (mc_sender x) = id_role (mc_sender y)" by auto
  with h b w show ?thesis
    by (simp add: wf_mobility_context_def wf_token_fields_def append_split to_be_inject
        token_fields.equality)
qed

text \<open>
  A binding token names one binding. Two token inputs are the same byte string only for
  the same candidate, locator, observed binding, epoch, path slot and expiry, in the same
  session, profile, direction and policy; and no token input is ever the string a location
  update signs. An HMAC made for one carrier address therefore answers no other challenge.
\<close>

theorem token_input_unambiguous:
  assumes "wf_mobility_context x" "wf_mobility_context y" "wf_token_fields f" "wf_token_fields g"
    and "token_input x f = Inr bs" and "token_input y g = Inr bs"
  shows "f = g \<and> mc_profile x = mc_profile y \<and> mc_scid x = mc_scid y
    \<and> id_eid (mc_sender x) = id_eid (mc_sender y) \<and> id_eid (mc_receiver x) = id_eid (mc_receiver y)
    \<and> id_role (mc_sender x) = id_role (mc_sender y) \<and> mc_policy_id x = mc_policy_id y
    \<and> loc_update_signature_input z k \<noteq> Inr bs"
proof -
  have "bs ! 3 = 0x62"
    using assms(5) by (auto simp: token_input_Inr ascii_def)
  moreover have "bs ! 3 = 0x4c" if "loc_update_signature_input z k = Inr bs"
    using that by (auto simp: loc_update_signature_input_def ascii_def split: if_splits)
  ultimately have "loc_update_signature_input z k \<noteq> Inr bs" by auto
  with token_input_injective [OF assms] show ?thesis by blast
qed

definition sample_mobility_context :: mobility_context where
  "sample_mobility_context = \<lparr>mc_profile = 0, mc_scid = 7, mc_sender = sample_identity 1,
     mc_receiver = sample_identity 2, mc_policy_id = 9\<rparr>"

definition sample_token_fields :: token_fields where
  "sample_token_fields = \<lparr>tf_candidate_id = replicate 16 1, tf_loc = replicate 16 2,
     tf_binding = Native 1 (replicate 6 3), tf_epoch = 4, tf_path_slot = 0, tf_expiry_ms = 5\<rparr>"

lemma sample_token_input: "\<exists>bs. token_input sample_mobility_context sample_token_fields = Inr bs"
  by (simp add: token_input_Inr sample_mobility_context_def sample_token_fields_def
      sample_identity_def profile_allows_slot_def)

theorem token_input_unambiguous_witness:
  "\<exists>bs. token_input sample_mobility_context sample_token_fields = Inr bs
     \<and> token_input sample_mobility_context (sample_token_fields\<lparr>tf_epoch := 6\<rparr>) \<noteq> Inr bs"
proof -
  have w: "wf_mobility_context sample_mobility_context" "wf_token_fields sample_token_fields"
    "wf_token_fields (sample_token_fields\<lparr>tf_epoch := 6\<rparr>)"
    by (simp_all add: wf_mobility_context_def sample_mobility_context_def sample_identity_def
        wf_token_fields_def sample_token_fields_def)
  obtain bs where bs: "token_input sample_mobility_context sample_token_fields = Inr bs"
    using sample_token_input by blast
  moreover have "token_input sample_mobility_context (sample_token_fields\<lparr>tf_epoch := 6\<rparr>) \<noteq> Inr bs"
    using token_input_unambiguous [OF w(1,1,2,3) bs] by (auto simp: sample_token_fields_def)
  ultimately show ?thesis by blast
qed

text \<open>What one end signs, the other end verifies.\<close>

lemma verify_signed_loc_update:
  assumes "signature_ok c" and "id_public_key (mc_sender ctx) = ed_verifying_key c signing"
    and "sign_loc_update c signing ctx f = Inr ctl"
  shows "verify_loc_update c ctl ctx = Inr ()"
proof -
  have "\<lparr>lf_candidate_id = lf_candidate_id f, lf_old_loc = lf_old_loc f, lf_new_loc = lf_new_loc f,
      lf_epoch = lf_epoch f, lf_path_slot = lf_path_slot f\<rparr> = f" by simp
  note eta = this
  from assms obtain input where "loc_update_signature_input ctx f = Inr input"
    "ctl = LocUpdate (lf_candidate_id f) (lf_old_loc f) (lf_new_loc f) (lf_epoch f) 0 5000
       (lf_path_slot f) (ed_sign c signing input)"
    by (auto simp: sign_loc_update_def and_then_Inr)
  with assms(1,2) show ?thesis by (simp only: verify_loc_update.simps eta) (simp add: signature_ok_def)
qed

end
