(* ===== verification/Mobility.thy ===== *)
theory Mobility
  imports Mobility_Codec Server_Machine Client_Machine "HOL-Library.List_Lexorder"
begin

text \<open>
  The candidate manager of \<open>src/rust/crates/r8-mobility/src/lib.rs\<close> (lines 470-2080): the
  proposals, challenged bindings and results of a peer that moves, the previews that turn a
  decrypted control into a transition, the commits that apply it once the session has accepted
  the packet, expiry and close.

  The manager's state sits behind a mutex, so each method is one atomic step that returns its
  result and the new state; a poisoned mutex needs a panic under the lock and is left out. A
  panic (\<open>expect\<close>) is \<open>None\<close>. The \<open>debug_assert!\<close> of \<open>settle_frozen_cohort\<close> is not part of a
  release build and has no counterpart. An \<open>Arc<AdmissionCapability>\<close> is the number of its
  allocation, and \<open>live\<close> sets hold the allocations that still have an owner.
\<close>

section \<open>State\<close>

record proposal =
  po_bytes :: bytes
  po_candidate_id :: bytes
  po_loc :: bytes
  po_epoch :: u64
  po_slot :: u8
  po_expiry_ms :: u64

datatype CandidateState = Challenged | Proven | Failed | Promoted

record bind_response_identity =
  br_loc :: bytes
  br_binding :: ObservedBinding
  br_expiry_ms :: u64
  br_token :: bytes

record candidate =
  ca_candidate_id :: bytes
  ca_loc :: bytes
  ca_epoch :: u64
  ca_slot :: u8
  ca_binding :: ObservedBinding
  ca_expiry_ms :: u64
  ca_response :: "bind_response_identity option"
  ca_state :: CandidateState

datatype ResultOrigin = Emitted | Received

record cached_result =
  re_candidate_id :: bytes
  re_epoch :: u64
  re_slot :: u8
  re_bytes :: bytes
  re_expiry_ms :: u64
  re_response :: "bind_response_identity option"
  re_origin :: ResultOrigin
  re_received_binding :: "ObservedBinding option"

record outbound_candidate =
  oc_candidate_id :: bytes
  oc_loc :: bytes
  oc_epoch :: u64
  oc_slot :: u8
  oc_binding :: "ObservedBinding option"
  oc_expiry_ms :: u64

record admission_owner =
  ao_scid :: u64
  ao_policy_id :: u32
  ao_replay_binding :: u64
  ao_capability :: nat

record profile3_admission =
  ad_owner :: admission_owner
  ad_scid :: u64
  ad_policy_id :: u32
  ad_binding :: ObservedBinding
  ad_local_loc :: bytes
  ad_peer_loc :: bytes
  ad_epoch :: u64

record mobility_state =
  ms_generation :: u64
  ms_closed :: bool
  ms_local_epoch :: u64
  ms_peer_epoch :: u64
  ms_local_loc :: bytes
  ms_peer_loc :: bytes
  ms_current_binding :: ObservedBinding
  ms_old_binding :: "(ObservedBinding \<times> u64) option"
  ms_proposals :: "proposal list"
  ms_candidates :: "candidate list"
  ms_results :: "cached_result list"
  ms_proposal_tokens :: u8
  ms_proposal_refill_ms :: u64
  ms_candidate_secret :: "bytes option"
  ms_frozen_cohort :: "(u64 \<times> proposal list) option"
  ms_outbound :: "outbound_candidate list"
  ms_emitted_results :: "bytes list"
  ms_profile3_slot1_admitted :: bool
  ms_profile3_admission :: "profile3_admission option"
  ms_profile3_owner :: "admission_owner option"
  ms_tombstones :: "(bytes \<times> u64) list"

datatype Action =
    CacheProposal proposal u8 u64
  | Challenge candidate
  | ExistingChallenge candidate
  | Respond bytes
  | CommitLocal u64 bytes ObservedBinding bool cached_result
  | Prove bytes u64 u8 u64 bind_response_identity
  | NoAction

record transition =
  tr_generation :: u64
  tr_owner_id :: u64
  tr_action :: Action
  tr_protected_proof :: "protected_replay_proof option"
  tr_profile3_proof :: "profile3_replay_proof option"

record candidate_manager =
  cm_signing :: bytes
  cm_local :: identity
  cm_peer :: identity
  cm_profile :: u8
  cm_scid :: u64
  cm_policy_id :: u32
  cm_owner_id :: u64
  cm_protected_replay_binding :: "u64 option"
  cm_state :: mobility_state

record candidate_manager_config =
  cc_signing :: bytes
  cc_local :: identity
  cc_peer :: identity
  cc_profile :: u8
  cc_scid :: u64
  cc_policy_id :: u32
  cc_local_loc :: bytes
  cc_peer_loc :: bytes
  cc_initial_peer_binding :: ObservedBinding
  cc_candidate_secret :: bytes

section \<open>Profile-3 admission capabilities\<close>

text \<open>\<open>cap\<close> is the fresh allocation; the issuer keeps the same number as a weak reference.\<close>

definition Profile3AdmissionOwner_issue ::
    "u64 \<Rightarrow> u32 \<Rightarrow> u64 \<Rightarrow> nat \<Rightarrow> MobilityError + admission_owner \<times> nat" where
  "Profile3AdmissionOwner_issue scid policy_id replay_binding cap =
     (if scid = 0 then Inl Candidate_err
      else Inr (\<lparr>ao_scid = scid, ao_policy_id = policy_id, ao_replay_binding = replay_binding,
                 ao_capability = cap\<rparr>, cap))"

definition Profile3AdmissionIssuer_owner_is_live :: "nat set \<Rightarrow> nat \<Rightarrow> bool" where
  "Profile3AdmissionIssuer_owner_is_live live issuer \<longleftrightarrow> issuer \<in> live"

definition Profile3AdmissionIssuer_admits :: "nat set \<Rightarrow> nat \<Rightarrow> profile3_admission \<Rightarrow> bool" where
  "Profile3AdmissionIssuer_admits live issuer admission \<longleftrightarrow>
     issuer \<in> live \<and> issuer = ao_capability (ad_owner admission)"

definition Profile3Admission_matches_replay_binding :: "profile3_admission \<Rightarrow> u64 \<Rightarrow> bool" where
  "Profile3Admission_matches_replay_binding admission binding \<longleftrightarrow>
     ao_replay_binding (ad_owner admission) = binding"

section \<open>Cohorts and results\<close>

definition frozen_slots :: "mobility_state \<Rightarrow> nat" where
  "frozen_slots st = (case ms_frozen_cohort st of None \<Rightarrow> 0 | Some (_, members) \<Rightarrow> length members)"

definition record_tombstone :: "mobility_state \<Rightarrow> bytes \<Rightarrow> u64 \<Rightarrow> mobility_state" where
  "record_tombstone st candidate_id now_ms =
     (if list_ex (\<lambda>(existing, _). existing = candidate_id) (ms_tombstones st) then st
      else st\<lparr>ms_tombstones :=
        (if length (ms_tombstones st) = RESULT_CACHE_SLOTS then remove_at 0 (ms_tombstones st)
         else ms_tombstones st) @ [(candidate_id, saturating_add now_ms 10000)]\<rparr>)"

text \<open>The bytes of a result; \<open>encode\<close> of a fixed-width control never fails.\<close>

definition result_bytes :: "proposal \<Rightarrow> u8 \<Rightarrow> bytes" where
  "result_bytes p outcome =
     (case Control_encode (CandidateResult (po_candidate_id p) (po_epoch p) (po_slot p) outcome) of
        Inl _ \<Rightarrow> [] | Inr bs \<Rightarrow> bs)"

definition result_entry ::
    "proposal \<Rightarrow> u8 \<Rightarrow> u64 \<Rightarrow> bind_response_identity option \<Rightarrow> cached_result" where
  "result_entry p outcome now_ms response =
     \<lparr>re_candidate_id = po_candidate_id p, re_epoch = po_epoch p, re_slot = po_slot p,
      re_bytes = result_bytes p outcome, re_expiry_ms = saturating_add now_ms 10000,
      re_response = response, re_origin = Emitted, re_received_binding = None\<rparr>"

definition has_id :: "bytes \<Rightarrow> candidate \<Rightarrow> bool" where
  "has_id candidate_id ca \<longleftrightarrow> ca_candidate_id ca = candidate_id"

text \<open>Some member is still a proposal and has a candidate that is neither proven nor failed.\<close>

definition cohort_unsettled :: "mobility_state \<Rightarrow> proposal list \<Rightarrow> bool" where
  "cohort_unsettled st members = list_ex (\<lambda>p.
     list_ex (\<lambda>q. po_candidate_id q = po_candidate_id p) (ms_proposals st)
     \<and> list_ex (\<lambda>ca. has_id (po_candidate_id p) ca \<and> \<not> (ca_state ca = Proven \<or> ca_state ca = Failed))
         (ms_candidates st)) members"

definition cohort_proven :: "mobility_state \<Rightarrow> proposal list \<Rightarrow> bytes list" where
  "cohort_proven st members = map po_candidate_id (filter (\<lambda>p.
     list_ex (\<lambda>ca. has_id (po_candidate_id p) ca \<and> ca_state ca = Proven) (ms_candidates st)) members)"

definition cohort_winner :: "mobility_state \<Rightarrow> proposal list \<Rightarrow> bytes option" where
  "cohort_winner st members =
     (case sort (cohort_proven st members) of [] \<Rightarrow> None | w # _ \<Rightarrow> Some w)"

definition cohort_outcome :: "mobility_state \<Rightarrow> bytes option \<Rightarrow> u64 \<Rightarrow> proposal \<Rightarrow> cached_result" where
  "cohort_outcome st winner now_ms p = result_entry p
     (case winner of
        Some w \<Rightarrow> if w = po_candidate_id p then 1
                  else if list_ex (has_id (po_candidate_id p)) (ms_candidates st) then 2 else 3
      | None \<Rightarrow> 3) now_ms
     (Option.bind (find (has_id (po_candidate_id p)) (ms_candidates st)) ca_response)"

text \<open>
  The Profile-3 hand-over shared by both ends: the owner moves into the admission, once.
\<close>

definition admit_profile3 ::
    "mobility_state \<Rightarrow> u64 \<Rightarrow> ObservedBinding \<Rightarrow> bytes \<Rightarrow> bytes \<Rightarrow> u64 \<Rightarrow> mobility_state" where
  "admit_profile3 st scid binding local_loc peer_loc epoch =
     (if ms_profile3_slot1_admitted st then st
      else case ms_profile3_owner st of
        None \<Rightarrow> st
      | Some owner \<Rightarrow> st\<lparr>ms_profile3_owner := None,
          ms_profile3_admission := Some \<lparr>ad_owner = owner, ad_scid = scid,
            ad_policy_id = ao_policy_id owner, ad_binding = binding, ad_local_loc = local_loc,
            ad_peer_loc = peer_loc, ad_epoch = epoch\<rparr>,
          ms_profile3_slot1_admitted := True\<rparr>)"

definition mark_settled :: "u64 \<Rightarrow> bytes \<Rightarrow> candidate \<Rightarrow> candidate" where
  "mark_settled epoch winner ca =
     (if ca_epoch ca = epoch
      then ca\<lparr>ca_state := (if ca_candidate_id ca = winner then Promoted else Failed)\<rparr>
      else ca)"

definition settle_tail :: "mobility_state \<Rightarrow> u64 \<Rightarrow> cached_result list \<Rightarrow> mobility_state" where
  "settle_tail st epoch outcomes =
     st\<lparr>ms_emitted_results := ms_emitted_results st @ map re_bytes outcomes,
        ms_results := ms_results st @ outcomes,
        ms_proposals := filter (\<lambda>p. po_epoch p > epoch) (ms_proposals st),
        ms_candidates := filter (\<lambda>ca. ca_epoch ca > epoch) (ms_candidates st),
        ms_frozen_cohort := None\<rparr>"

definition settle_frozen_cohort ::
    "mobility_state \<Rightarrow> u8 \<Rightarrow> u64 \<Rightarrow> u64 \<Rightarrow> (bool \<times> mobility_state) option" where
  "settle_frozen_cohort st profile scid now_ms =
     (case ms_frozen_cohort st of
        None \<Rightarrow> Some (False, st)
      | Some (epoch, members) \<Rightarrow>
        if cohort_unsettled st members then Some (False, st)
        else if length (ms_emitted_results st) + length members > RESULT_CACHE_SLOTS
        then Some (False, st)
        else
          let winner = cohort_winner st members;
              outcomes = map (cohort_outcome st winner now_ms) members in
          case winner of
            None \<Rightarrow> Some (True, settle_tail st epoch outcomes)
          | Some w \<Rightarrow>
            (case find (has_id w) (ms_candidates st) of
               None \<Rightarrow> None
             | Some ca \<Rightarrow>
               if profile = 3 then
                 let st1 = admit_profile3 st scid (ca_binding ca) (ms_local_loc st) (ca_loc ca) epoch in
                 if ms_profile3_slot1_admitted st1 then
                   Some (True, st1\<lparr>ms_emitted_results := map re_bytes outcomes, ms_results := [],
                     ms_proposals := [], ms_candidates := [], ms_outbound := [],
                     ms_frozen_cohort := None, ms_candidate_secret := None\<rparr>)
                 else Some (True, settle_tail (st1\<lparr>ms_candidates :=
                   map (mark_settled epoch w) (ms_candidates st1)\<rparr>) epoch outcomes)
               else
                 let st1 = st\<lparr>ms_peer_epoch := epoch, ms_peer_loc := ca_loc ca,
                   ms_old_binding := Some (ms_current_binding st,
                     saturating_add now_ms OLD_BINDING_GRACE_MS),
                   ms_current_binding := ca_binding ca\<rparr> in
                 Some (True, settle_tail (st1\<lparr>ms_candidates :=
                   map (mark_settled epoch w) (ms_candidates st1)\<rparr>) epoch outcomes)))"

section \<open>Creating a manager\<close>

definition initial_state ::
    "candidate_manager_config \<Rightarrow> admission_owner option \<Rightarrow> mobility_state" where
  "initial_state cfg owner =
     \<lparr>ms_generation = 0, ms_closed = False, ms_local_epoch = 0, ms_peer_epoch = 0,
      ms_local_loc = cc_local_loc cfg, ms_peer_loc = cc_peer_loc cfg,
      ms_current_binding = cc_initial_peer_binding cfg, ms_old_binding = None,
      ms_proposals = [], ms_candidates = [], ms_results = [], ms_proposal_tokens = 2,
      ms_proposal_refill_ms = 0, ms_candidate_secret = Some (cc_candidate_secret cfg),
      ms_frozen_cohort = None, ms_outbound = [], ms_emitted_results = [],
      ms_profile3_slot1_admitted = False, ms_profile3_admission = None,
      ms_profile3_owner = owner, ms_tombstones = []\<rparr>"

text \<open>
  \<open>next_id\<close> is \<open>NEXT_CANDIDATE_MANAGER_OWNER_ID\<close>, a process-wide counter: \<open>fetch_update\<close>
  returns the old value and stores the successor, or fails at the end of the range.
\<close>

definition CandidateManager_new_inner ::
    "crypto \<Rightarrow> candidate_manager_config \<Rightarrow> admission_owner option \<Rightarrow> u64 option \<Rightarrow> u64 \<Rightarrow>
       MobilityError + candidate_manager \<times> u64" where
  "CandidateManager_new_inner c cfg owner replay_binding next_id =
     (if cc_profile cfg > 3 \<or> cc_scid cfg = 0
         \<or> \<not> is_ok (Identity_validate c (cc_local cfg)) \<or> \<not> is_ok (Identity_validate c (cc_peer cfg))
         \<or> \<not> is_ok (ObservedBinding_validate (cc_initial_peer_binding cfg))
         \<or> id_role (cc_local cfg) = id_role (cc_peer cfg)
         \<or> ed_verifying_key c (cc_signing cfg) \<noteq> id_public_key (cc_local cfg)
         \<or> (cc_profile cfg = 3 \<and> (case owner of None \<Rightarrow> True
              | Some ow \<Rightarrow> ao_scid ow \<noteq> cc_scid cfg \<or> ao_policy_id ow \<noteq> cc_policy_id cfg))
         \<or> (cc_profile cfg \<noteq> 3 \<and> owner \<noteq> None)
         \<or> (cc_profile cfg \<noteq> 3 \<and> replay_binding = None)
         \<or> (cc_profile cfg = 3 \<and> replay_binding \<noteq> None)
      then Inl Candidate_err
      else case checked_add next_id 1 of
        None \<Rightarrow> Inl Replay_err
      | Some next_id' \<Rightarrow>
          Inr (\<lparr>cm_signing = cc_signing cfg, cm_local = cc_local cfg, cm_peer = cc_peer cfg,
                cm_profile = cc_profile cfg, cm_scid = cc_scid cfg, cm_policy_id = cc_policy_id cfg,
                cm_owner_id = next_id, cm_protected_replay_binding = replay_binding,
                cm_state = initial_state cfg owner\<rparr>, next_id'))"

definition CandidateManager_new_with_protected_replay_binding ::
    "crypto \<Rightarrow> candidate_manager_config \<Rightarrow> u64 \<Rightarrow> u64 \<Rightarrow> MobilityError + candidate_manager \<times> u64" where
  "CandidateManager_new_with_protected_replay_binding c cfg binding next_id =
     CandidateManager_new_inner c cfg None (Some binding) next_id"

definition CandidateManager_new_with_profile3_admission_owner ::
    "crypto \<Rightarrow> candidate_manager_config \<Rightarrow> admission_owner \<Rightarrow> u64 \<Rightarrow>
       MobilityError + candidate_manager \<times> u64" where
  "CandidateManager_new_with_profile3_admission_owner c cfg owner next_id =
     CandidateManager_new_inner c cfg (Some owner) None next_id"

section \<open>The moving end: proposing and probing\<close>

text \<open>The contexts of messages this end sends and of messages its peer sends.\<close>

definition outgoing_context :: "candidate_manager \<Rightarrow> mobility_context" where
  "outgoing_context m = \<lparr>mc_profile = cm_profile m, mc_scid = cm_scid m, mc_sender = cm_local m,
     mc_receiver = cm_peer m, mc_policy_id = cm_policy_id m\<rparr>"

definition incoming_context :: "candidate_manager \<Rightarrow> mobility_context" where
  "incoming_context m = \<lparr>mc_profile = cm_profile m, mc_scid = cm_scid m, mc_sender = cm_peer m,
     mc_receiver = cm_local m, mc_policy_id = cm_policy_id m\<rparr>"

text \<open>A Profile-3 manager stops once slot 1 is admitted.\<close>

definition slot1_done :: "candidate_manager \<Rightarrow> bool" where
  "slot1_done m \<longleftrightarrow> cm_profile m = 3 \<and> ms_profile3_slot1_admitted (cm_state m)"

definition buried :: "mobility_state \<Rightarrow> bytes \<Rightarrow> u64 \<Rightarrow> bool" where
  "buried st candidate_id now_ms =
     list_ex (\<lambda>(existing, expiry). existing = candidate_id \<and> now_ms < expiry) (ms_tombstones st)"

definition CandidateManager_propose_local ::
    "crypto \<Rightarrow> candidate_manager \<Rightarrow> bytes \<Rightarrow> bytes \<Rightarrow> u64 \<Rightarrow> u8 \<Rightarrow> u64 \<Rightarrow>
       (MobilityError + Control) \<times> candidate_manager" where
  "CandidateManager_propose_local c m candidate_id new_loc epoch path_slot now_ms =
     (let st = cm_state m;
          fields = \<lparr>lf_candidate_id = candidate_id, lf_old_loc = ms_local_loc st,
            lf_new_loc = new_loc, lf_epoch = epoch, lf_path_slot = path_slot\<rparr> in
      if ms_closed st \<or> candidate_id = replicate 16 0 \<or> epoch \<le> ms_local_epoch st
         \<or> \<not> profile_allows_slot (cm_profile m) path_slot \<or> slot1_done m
         \<or> buried st candidate_id now_ms
      then (Inl Candidate_err, m)
      else case find (\<lambda>oc. oc_candidate_id oc = candidate_id) (ms_outbound st) of
        Some existing \<Rightarrow>
          (if oc_loc existing = new_loc \<and> oc_epoch existing = epoch \<and> oc_slot existing = path_slot
           then (sign_loc_update c (cm_signing m) (outgoing_context m) fields, m)
           else (Inl Candidate_err, m))
      | None \<Rightarrow>
          if length (ms_outbound st) = PROPOSAL_SLOTS then (Inl Capacity_err, m)
          else case sign_loc_update c (cm_signing m) (outgoing_context m) fields of
            Inl e \<Rightarrow> (Inl e, m)
          | Inr update \<Rightarrow>
            let st1 = st\<lparr>ms_outbound := ms_outbound st @
                  [\<lparr>oc_candidate_id = candidate_id, oc_loc = new_loc, oc_epoch = epoch,
                    oc_slot = path_slot, oc_binding = None,
                    oc_expiry_ms = saturating_add now_ms 5000\<rparr>]\<rparr> in
            case checked_add (ms_generation st) 1 of
              None \<Rightarrow> (Inl Replay_err, m\<lparr>cm_state := st1\<rparr>)
            | Some g \<Rightarrow> (Inr update, m\<lparr>cm_state := st1\<lparr>ms_generation := g\<rparr>\<rparr>))"

definition CandidateManager_make_probe ::
    "candidate_manager \<Rightarrow> bytes \<Rightarrow> ObservedBinding \<Rightarrow> bytes \<Rightarrow> u64 \<Rightarrow>
       (MobilityError + Control) \<times> candidate_manager" where
  "CandidateManager_make_probe m candidate_id carrier probe_nonce now_ms =
     (let st = cm_state m in
      if \<not> is_ok (ObservedBinding_validate carrier) then (Inl Candidate_err, m)
      else if ms_closed st \<or> slot1_done m then (Inl Candidate_err, m)
      else case position (\<lambda>oc. oc_candidate_id oc = candidate_id) (ms_outbound st) of
        None \<Rightarrow> (Inl Candidate_err, m)
      | Some i \<Rightarrow>
        let oc = ms_outbound st ! i;
            probe = BindProbe (oc_candidate_id oc) (oc_loc oc) (oc_epoch oc) (oc_slot oc) probe_nonce in
        if now_ms \<ge> oc_expiry_ms oc then (Inl Candidate_err, m)
        else case oc_binding oc of
          Some binding \<Rightarrow> if binding \<noteq> carrier then (Inl Candidate_err, m) else (Inr probe, m)
        | None \<Rightarrow> (Inr probe, m\<lparr>cm_state := st\<lparr>ms_outbound :=
            (ms_outbound st)[i := oc\<lparr>oc_binding := Some carrier\<rparr>]\<rparr>\<rparr>))"

section \<open>Previews\<close>

definition max_epoch :: "proposal list \<Rightarrow> u64 option" where
  "max_epoch ps = (case ps of [] \<Rightarrow> None
     | p # qs \<Rightarrow> Some (foldl (\<lambda>e q. max e (po_epoch q)) (po_epoch p) qs))"

text \<open>The refilled token bucket: one proposal a second, at most two at once.\<close>

definition refilled :: "mobility_state \<Rightarrow> u64 \<Rightarrow> u8 \<times> u64" where
  "refilled st now_ms =
     (let elapsed = saturating_sub now_ms (ms_proposal_refill_ms st) div 1000 in
      (ucast (min (ucast (ms_proposal_tokens st) + elapsed) 2),
       saturating_add (ms_proposal_refill_ms st) (elapsed * 1000)))"

definition preview_loc_update ::
    "crypto \<Rightarrow> candidate_manager \<Rightarrow> Control \<Rightarrow> bytes \<Rightarrow> bytes \<Rightarrow> bytes \<Rightarrow> u64 \<Rightarrow> u8 \<Rightarrow> u64 \<Rightarrow>
       MobilityError + Action" where
  "preview_loc_update c m control candidate_id old_loc new_loc epoch path_slot now_ms =
     (let st = cm_state m in
      and_then (verify_loc_update c control (incoming_context m)) (\<lambda>_.
      if old_loc \<noteq> ms_peer_loc st \<or> epoch \<le> ms_peer_epoch st \<or> slot1_done m
      then Inl Candidate_err
      else and_then (Control_encode control) (\<lambda>bytes.
        case find (\<lambda>p. po_candidate_id p = candidate_id) (ms_proposals st) of
          Some p \<Rightarrow> if po_bytes p = bytes then Inr NoAction else Inl Candidate_err
        | None \<Rightarrow>
          if (case ms_frozen_cohort st of None \<Rightarrow> False
                | Some (cohort_epoch, _) \<Rightarrow> epoch \<le> cohort_epoch)
             \<or> list_ex (has_id candidate_id) (ms_candidates st)
             \<or> list_ex (\<lambda>oc. oc_candidate_id oc = candidate_id) (ms_outbound st)
             \<or> list_ex (\<lambda>e. re_candidate_id e = candidate_id) (ms_results st)
             \<or> buried st candidate_id now_ms
          then Inl Candidate_err
          else if ms_emitted_results st \<noteq> [] then Inl Capacity_err
          else if length (ms_proposals st) = PROPOSAL_SLOTS
             \<or> length (ms_results st) + length (ms_proposals st) \<ge> RESULT_CACHE_SLOTS
          then Inl Capacity_err
          else let (tokens, refill_ms) = refilled st now_ms in
            if tokens = 0 then Inl Candidate_err
            else Inr (CacheProposal
              \<lparr>po_bytes = bytes, po_candidate_id = candidate_id, po_loc = new_loc, po_epoch = epoch,
               po_slot = path_slot, po_expiry_ms = saturating_add now_ms 5000\<rparr>
              (tokens - 1) refill_ms))))"

text \<open>The candidate a probe or a response names, on the binding it came from.\<close>

definition same_candidate ::
    "bytes \<Rightarrow> bytes \<Rightarrow> u64 \<Rightarrow> u8 \<Rightarrow> ObservedBinding \<Rightarrow> candidate \<Rightarrow> bool" where
  "same_candidate candidate_id loc epoch path_slot binding ca \<longleftrightarrow>
     ca_candidate_id ca = candidate_id \<and> ca_loc ca = loc \<and> ca_epoch ca = epoch
     \<and> ca_slot ca = path_slot \<and> ca_binding ca = binding"

definition preview_bind_probe ::
    "candidate_manager \<Rightarrow> bytes \<Rightarrow> bytes \<Rightarrow> u64 \<Rightarrow> u8 \<Rightarrow> ObservedBinding \<Rightarrow> u64 \<Rightarrow>
       MobilityError + Action" where
  "preview_bind_probe m candidate_id loc epoch path_slot binding now_ms =
     (let st = cm_state m in
      case find (\<lambda>p. po_candidate_id p = candidate_id \<and> po_loc p = loc \<and> po_epoch p = epoch
             \<and> po_slot p = path_slot \<and> now_ms < po_expiry_ms p) (ms_proposals st) of
        None \<Rightarrow> Inl Candidate_err
      | Some p \<Rightarrow>
        (case find (same_candidate candidate_id loc epoch path_slot binding) (ms_candidates st) of
           Some ca \<Rightarrow> if ca_state ca = Challenged then Inr (ExistingChallenge ca)
                      else Inl Candidate_err
         | None \<Rightarrow>
           let bindings = 1 + (if ms_old_binding st \<noteq> None then 1 else 0) in
           if length (ms_candidates st) = LIVE_CANDIDATES_MAX \<or> bindings = LIVE_CANDIDATES_MAX
           then Inl Capacity_err
           else Inr (Challenge
             \<lparr>ca_candidate_id = po_candidate_id p, ca_loc = po_loc p, ca_epoch = po_epoch p,
              ca_slot = po_slot p, ca_binding = binding,
              ca_expiry_ms = saturating_add now_ms CHALLENGE_EXPIRY_MS, ca_response = None,
              ca_state = Challenged\<rparr>)))"

text \<open>A cached result for this candidate that has not expired.\<close>

definition cached_result_for :: "mobility_state \<Rightarrow> bytes \<Rightarrow> u64 \<Rightarrow> u8 \<Rightarrow> u64 \<Rightarrow> cached_result option" where
  "cached_result_for st candidate_id epoch path_slot now_ms =
     find (\<lambda>e. re_candidate_id e = candidate_id \<and> re_epoch e = epoch \<and> re_slot e = path_slot
        \<and> now_ms < re_expiry_ms e) (ms_results st)"

definition preview_bind_response ::
    "crypto \<Rightarrow> candidate_manager \<Rightarrow> bytes \<Rightarrow> bytes \<Rightarrow> u64 \<Rightarrow> u8 \<Rightarrow> u64 \<Rightarrow> bytes \<Rightarrow> ObservedBinding \<Rightarrow>
       u64 \<Rightarrow> MobilityError + Action" where
  "preview_bind_response c m candidate_id loc epoch path_slot expiry_ms supplied binding now_ms =
     (let st = cm_state m;
          response = \<lparr>br_loc = loc, br_binding = binding, br_expiry_ms = expiry_ms,
            br_token = supplied\<rparr> in
      case cached_result_for st candidate_id epoch path_slot now_ms of
        Some e \<Rightarrow>
          if re_response e = Some response then Inr (Respond (re_bytes e)) else Inl Candidate_err
      | None \<Rightarrow>
        (case find (same_candidate candidate_id loc epoch path_slot binding) (ms_candidates st) of
           None \<Rightarrow> Inl Candidate_err
         | Some ca \<Rightarrow>
           if ca_state ca \<noteq> Challenged then Inl Candidate_err
           else if now_ms \<ge> ca_expiry_ms ca \<or> expiry_ms \<noteq> ca_expiry_ms ca then Inl Timeout_err
           else and_then (ok_or Candidate_err (ms_candidate_secret st)) (\<lambda>secret.
             and_then (token c secret (incoming_context m)
               \<lparr>tf_candidate_id = candidate_id, tf_loc = loc, tf_binding = binding,
                tf_epoch = epoch, tf_path_slot = path_slot, tf_expiry_ms = expiry_ms\<rparr>) (\<lambda>expected.
             if expected \<noteq> supplied then Inl Candidate_err
             else and_then (ok_or Candidate_err (max_epoch (ms_proposals st))) (\<lambda>greatest.
               let members = (case ms_frozen_cohort st of
                     Some (cohort_epoch, members) \<Rightarrow>
                       if cohort_epoch = greatest then members
                       else filter (\<lambda>p. po_epoch p = greatest) (ms_proposals st)
                   | None \<Rightarrow> filter (\<lambda>p. po_epoch p = greatest) (ms_proposals st)) in
               if ms_frozen_cohort st = None \<and> epoch = greatest
                  \<and> length (ms_results st) + length members > RESULT_CACHE_SLOTS
               then Inl Capacity_err
               else Inr (Prove candidate_id epoch path_slot now_ms response))))))"

definition preview_bind_challenge ::
    "candidate_manager \<Rightarrow> bytes \<Rightarrow> bytes \<Rightarrow> u64 \<Rightarrow> u8 \<Rightarrow> u64 \<Rightarrow> bytes \<Rightarrow> ObservedBinding \<Rightarrow> u64 \<Rightarrow>
       MobilityError + Action" where
  "preview_bind_challenge m candidate_id loc epoch path_slot expiry_ms tok binding now_ms =
     (case find (\<lambda>oc. oc_candidate_id oc = candidate_id \<and> oc_loc oc = loc \<and> oc_epoch oc = epoch
            \<and> oc_slot oc = path_slot \<and> oc_binding oc = Some binding \<and> now_ms < oc_expiry_ms oc)
          (ms_outbound (cm_state m)) of
        None \<Rightarrow> Inl Candidate_err
      | Some oc \<Rightarrow>
        and_then (Control_encode (BindResponse (oc_candidate_id oc) (oc_loc oc) (oc_epoch oc)
          (oc_slot oc) expiry_ms tok)) (\<lambda>bytes. Inr (Respond bytes)))"

definition preview_candidate_result ::
    "candidate_manager \<Rightarrow> Control \<Rightarrow> bytes \<Rightarrow> u64 \<Rightarrow> u8 \<Rightarrow> u8 \<Rightarrow> ObservedBinding \<Rightarrow> u64 \<Rightarrow>
       MobilityError + Action" where
  "preview_candidate_result m control candidate_id epoch path_slot outcome binding now_ms =
     (let st = cm_state m in
      case cached_result_for st candidate_id epoch path_slot now_ms of
        Some e \<Rightarrow>
          and_then (if re_origin e = Received
                    then and_then (Control_encode control) (\<lambda>bytes. Inr (re_bytes e = bytes))
                    else Inr False) (\<lambda>same.
          if same \<and> re_received_binding e = Some binding then Inr NoAction else Inl Candidate_err)
      | None \<Rightarrow>
        (case find (\<lambda>oc. oc_candidate_id oc = candidate_id \<and> oc_epoch oc = epoch
               \<and> oc_slot oc = path_slot \<and> oc_binding oc = Some binding \<and> now_ms < oc_expiry_ms oc)
             (ms_outbound st) of
           None \<Rightarrow> Inl Candidate_err
         | Some oc \<Rightarrow>
           if length (ms_results st) + frozen_slots st \<ge> RESULT_CACHE_SLOTS then Inl Capacity_err
           else and_then (Control_encode control) (\<lambda>bytes.
             Inr (CommitLocal (oc_epoch oc) (oc_loc oc) binding (outcome = 1)
               \<lparr>re_candidate_id = candidate_id, re_epoch = epoch, re_slot = path_slot,
                re_bytes = bytes, re_expiry_ms = saturating_add now_ms 10000, re_response = None,
                re_origin = Received, re_received_binding = Some binding\<rparr>))))"

definition preview_action ::
    "crypto \<Rightarrow> candidate_manager \<Rightarrow> Control \<Rightarrow> ObservedBinding \<Rightarrow> u64 \<Rightarrow> MobilityError + Action" where
  "preview_action c m control binding now_ms =
     (case control of
        LocUpdate candidate_id old_loc new_loc epoch not_before_ms valid_for_ms path_slot signature \<Rightarrow>
          preview_loc_update c m control candidate_id old_loc new_loc epoch path_slot now_ms
      | BindProbe candidate_id loc epoch path_slot probe_nonce \<Rightarrow>
          preview_bind_probe m candidate_id loc epoch path_slot binding now_ms
      | BindResponse candidate_id loc epoch path_slot expiry_ms supplied \<Rightarrow>
          preview_bind_response c m candidate_id loc epoch path_slot expiry_ms supplied binding now_ms
      | BindChallenge candidate_id loc epoch path_slot expiry_ms tok \<Rightarrow>
          preview_bind_challenge m candidate_id loc epoch path_slot expiry_ms tok binding now_ms
      | CandidateResult candidate_id epoch path_slot outcome \<Rightarrow>
          preview_candidate_result m control candidate_id epoch path_slot outcome binding now_ms)"

definition CandidateManager_preview_inner ::
    "crypto \<Rightarrow> candidate_manager \<Rightarrow> bytes \<Rightarrow> ObservedBinding \<Rightarrow> u64 \<Rightarrow>
       protected_replay_proof option \<Rightarrow> profile3_replay_proof option \<Rightarrow> MobilityError + transition" where
  "CandidateManager_preview_inner c m plaintext binding now_ms protected_proof profile3_proof =
     and_then (map_err (\<lambda>_. Candidate_err) (ObservedBinding_validate binding)) (\<lambda>_.
     and_then (Control_parse plaintext) (\<lambda>control.
     if \<not> profile_allows_slot (cm_profile m) (Control_path_slot control) then Inl Candidate_err
     else if ms_closed (cm_state m) \<or> ms_generation (cm_state m) = u64_max \<or> slot1_done m
     then Inl Candidate_err
     else and_then (preview_action c m control binding now_ms) (\<lambda>action.
       Inr \<lparr>tr_generation = ms_generation (cm_state m), tr_owner_id = cm_owner_id m,
            tr_action = action, tr_protected_proof = protected_proof,
            tr_profile3_proof = profile3_proof\<rparr>)))"

definition CandidateManager_preview_protected ::
    "crypto \<Rightarrow> u64 set \<Rightarrow> candidate_manager \<Rightarrow> bytes \<Rightarrow> ObservedBinding \<Rightarrow> protected_replay_proof \<Rightarrow>
       u64 \<Rightarrow> MobilityError + transition" where
  "CandidateManager_preview_protected c live m plaintext binding proof now_ms =
     (if cm_profile m = 3 \<or> \<not> ProtectedReplayProof_matches_plaintext live proof plaintext
         \<or> \<not> (case cm_protected_replay_binding m of None \<Rightarrow> False
                | Some b \<Rightarrow> ProtectedReplayBinding_matches_proof b proof)
      then Inl Replay_err
      else CandidateManager_preview_inner c m plaintext binding now_ms (Some proof) None)"

definition CandidateManager_preview_profile3 ::
    "crypto \<Rightarrow> candidate_manager \<Rightarrow> bytes \<Rightarrow> ObservedBinding \<Rightarrow> profile3_replay_proof \<Rightarrow>
       u64 \<Rightarrow> MobilityError + transition" where
  "CandidateManager_preview_profile3 c m plaintext binding proof now_ms =
     (if cm_profile m \<noteq> 3 \<or> \<not> Profile3ReplayProof_matches_plaintext proof plaintext
      then Inl Candidate_err
      else if \<not> (case ms_profile3_owner (cm_state m) of None \<Rightarrow> False
                | Some owner \<Rightarrow> Profile3ReplayBinding_matches_proof (ao_replay_binding owner) proof)
      then Inl Replay_err
      else CandidateManager_preview_inner c m plaintext binding now_ms None (Some proof))"

definition challenge_token :: "crypto \<Rightarrow> candidate_manager \<Rightarrow> bytes \<Rightarrow> candidate \<Rightarrow> MobilityError + bytes" where
  "challenge_token c m secret ca =
     token c secret (incoming_context m)
       \<lparr>tf_candidate_id = ca_candidate_id ca, tf_loc = ca_loc ca, tf_binding = ca_binding ca,
        tf_epoch = ca_epoch ca, tf_path_slot = ca_slot ca, tf_expiry_ms = ca_expiry_ms ca\<rparr>"

definition CandidateManager_response_for ::
    "crypto \<Rightarrow> candidate_manager \<Rightarrow> transition \<Rightarrow> MobilityError + Control option" where
  "CandidateManager_response_for c m tr =
     (let st = cm_state m;
          challenge = (\<lambda>ca. and_then (ok_or Candidate_err (ms_candidate_secret st)) (\<lambda>secret.
            and_then (challenge_token c m secret ca) (\<lambda>tok.
            Inr (Some (BindChallenge (ca_candidate_id ca) (ca_loc ca) (ca_epoch ca) (ca_slot ca)
              (ca_expiry_ms ca) tok))))) in
      if ms_closed st \<or> tr_owner_id tr \<noteq> cm_owner_id m \<or> ms_generation st \<noteq> tr_generation tr
      then Inl Replay_err
      else case tr_action tr of
        Challenge ca \<Rightarrow> challenge ca
      | ExistingChallenge ca \<Rightarrow> challenge ca
      | Respond bytes \<Rightarrow> and_then (Control_parse bytes) (\<lambda>ctl. Inr (Some ctl))
      | _ \<Rightarrow> Inr None)"

section \<open>Applying a transition\<close>

fun mutates :: "Action \<Rightarrow> bool" where
  "mutates (ExistingChallenge _) = False"
| "mutates (Respond _) = False"
| "mutates NoAction = False"
| "mutates _ = True"

definition commit_local ::
    "u8 \<Rightarrow> u64 \<Rightarrow> mobility_state \<Rightarrow> u64 \<Rightarrow> bytes \<Rightarrow> ObservedBinding \<Rightarrow> bool \<Rightarrow> cached_result \<Rightarrow>
       mobility_state" where
  "commit_local profile scid st epoch loc binding promote entry =
     (let st1 = st\<lparr>ms_results := ms_results st @ [entry]\<rparr>;
          st2 = (if promote then
                   if profile = 3 then
                     let st3 = admit_profile3 st1 scid binding loc (ms_peer_loc st1) epoch in
                     if ms_profile3_slot1_admitted st3
                     then st3\<lparr>ms_proposals := [], ms_candidates := [], ms_outbound := [],
                       ms_results := [], ms_frozen_cohort := None, ms_candidate_secret := None\<rparr>
                     else st3
                   else st1\<lparr>ms_local_epoch := epoch, ms_local_loc := loc,
                     ms_old_binding := Some (ms_current_binding st1, re_expiry_ms entry),
                     ms_current_binding := binding\<rparr>
                 else st1) in
      if promote then st2\<lparr>ms_outbound := filter (\<lambda>oc. oc_epoch oc > epoch) (ms_outbound st2)\<rparr>
      else st2\<lparr>ms_outbound :=
        filter (\<lambda>oc. oc_candidate_id oc \<noteq> re_candidate_id entry) (ms_outbound st2)\<rparr>)"

definition prove_candidate ::
    "u8 \<Rightarrow> u64 \<Rightarrow> mobility_state \<Rightarrow> bytes \<Rightarrow> u64 \<Rightarrow> u8 \<Rightarrow> u64 \<Rightarrow> bind_response_identity \<Rightarrow>
       mobility_state option" where
  "prove_candidate profile scid st candidate_id epoch slot grace_until_ms response =
     (case position (\<lambda>ca. ca_candidate_id ca = candidate_id \<and> ca_epoch ca = epoch \<and> ca_slot ca = slot)
          (ms_candidates st) of
        None \<Rightarrow> None
      | Some i \<Rightarrow>
        let st1 = st\<lparr>ms_candidates := (ms_candidates st)
              [i := (ms_candidates st ! i)\<lparr>ca_state := Proven, ca_response := Some response\<rparr>]\<rparr>;
            st2 = (if ms_frozen_cohort st1 = None \<and> max_epoch (ms_proposals st1) = Some epoch
                   then st1\<lparr>ms_frozen_cohort :=
                     Some (epoch, filter (\<lambda>p. po_epoch p = epoch) (ms_proposals st1))\<rparr>
                   else st1) in
        map_option snd (settle_frozen_cohort st2 profile scid grace_until_ms))"

definition apply_action :: "u8 \<Rightarrow> u64 \<Rightarrow> mobility_state \<Rightarrow> Action \<Rightarrow> mobility_state option" where
  "apply_action profile scid st action =
     (case action of
        CacheProposal p tokens refill_ms \<Rightarrow>
          Some (st\<lparr>ms_proposal_tokens := tokens, ms_proposal_refill_ms := refill_ms,
                   ms_proposals := ms_proposals st @ [p]\<rparr>)
      | Challenge ca \<Rightarrow> Some (st\<lparr>ms_candidates := ms_candidates st @ [ca]\<rparr>)
      | ExistingChallenge _ \<Rightarrow> Some st
      | Respond _ \<Rightarrow> Some st
      | CommitLocal epoch loc binding promote entry \<Rightarrow>
          Some (commit_local profile scid st epoch loc binding promote entry)
      | Prove candidate_id epoch slot grace_until_ms response \<Rightarrow>
          prove_candidate profile scid st candidate_id epoch slot grace_until_ms response
      | NoAction \<Rightarrow> Some st)"

definition apply_after_replay ::
    "candidate_manager \<Rightarrow> mobility_state \<Rightarrow> transition \<Rightarrow>
       ((MobilityError + unit) \<times> mobility_state) option" where
  "apply_after_replay m st tr =
     (if mutates (tr_action tr) then
        case checked_add (ms_generation st) 1 of
          None \<Rightarrow> Some (Inl Replay_err, st)
        | Some next_generation \<Rightarrow>
            map_option (\<lambda>st1. (Inr (), st1\<lparr>ms_generation := next_generation\<rparr>))
              (apply_action (cm_profile m) (cm_scid m) st (tr_action tr))
      else map_option (\<lambda>st1. (Inr (), st1))
        (apply_action (cm_profile m) (cm_scid m) st (tr_action tr)))"

section \<open>Commits\<close>

text \<open>
  \<open>x\<close> is the session the replay commit runs on and \<open>commit\<close> its operation. The transition is
  consumed. The state is checked under the lock before the session's replay window changes.
\<close>

definition CandidateManager_commit_protected_replay ::
    "candidate_manager \<Rightarrow> transition \<Rightarrow> 'x \<Rightarrow>
       ('x \<Rightarrow> protected_replay_proof \<Rightarrow> (MobilityError + unit) \<times> 'x \<times> protected_replay_proof) \<Rightarrow>
       ((MobilityError + unit) \<times> candidate_manager \<times> 'x) option" where
  "CandidateManager_commit_protected_replay m tr x commit =
     (let st = cm_state m in
      if cm_profile m = 3 \<or> tr_owner_id tr \<noteq> cm_owner_id m then Some (Inl Replay_err, m, x)
      else case tr_protected_proof tr of
        None \<Rightarrow> Some (Inl Replay_err, m, x)
      | Some proof \<Rightarrow>
        if ms_closed st \<or> ms_generation st \<noteq> tr_generation tr then Some (Inl Replay_err, m, x)
        else case commit x proof of
          (Inl e, x', proof') \<Rightarrow> Some (Inl e, m, x')
        | (Inr _, x', proof') \<Rightarrow>
          if \<not> pr_committed proof' then Some (Inl Replay_err, m, x')
          else map_option (\<lambda>(r, st1). (r, m\<lparr>cm_state := st1\<rparr>, x'))
            (apply_after_replay m st (tr\<lparr>tr_protected_proof := None\<rparr>)))"

definition CandidateManager_commit_protected ::
    "candidate_manager \<Rightarrow> transition \<Rightarrow> directional_session \<Rightarrow>
       ((MobilityError + unit) \<times> candidate_manager \<times> directional_session) option" where
  "CandidateManager_commit_protected m tr session =
     CandidateManager_commit_protected_replay m tr session (\<lambda>s proof.
       let (r, s', proof') = DirectionalSession_commit_protected_replay s proof
       in (map_err (\<lambda>_. Replay_err) r, s', proof'))"

definition CandidateManager_commit_protected_client ::
    "candidate_manager \<Rightarrow> transition \<Rightarrow> client_machine \<Rightarrow>
       ((MobilityError + unit) \<times> candidate_manager \<times> client_machine) option" where
  "CandidateManager_commit_protected_client m tr client =
     CandidateManager_commit_protected_replay m tr client (\<lambda>s proof.
       let (r, s', proof') = ClientMachine_commit_protected_replay s proof
       in (map_err (\<lambda>_. Replay_err) r, s', proof'))"

definition CandidateManager_commit_protected_server ::
    "candidate_manager \<Rightarrow> transition \<Rightarrow> server_machine \<Rightarrow> u64 \<Rightarrow> u64 \<Rightarrow>
       ((MobilityError + unit) \<times> candidate_manager \<times> server_machine) option" where
  "CandidateManager_commit_protected_server m tr server scid now_ms =
     CandidateManager_commit_protected_replay m tr server (\<lambda>s proof.
       let (r, s', proof') = ServerMachine_commit_protected_replay s scid proof now_ms
       in (map_err (\<lambda>_. Replay_err) r, s', proof'))"

definition CandidateManager_commit_profile3 ::
    "candidate_manager \<Rightarrow> transition \<Rightarrow> directional_session \<Rightarrow>
       ((MobilityError + unit) \<times> candidate_manager \<times> directional_session) option" where
  "CandidateManager_commit_profile3 m tr session =
     (let st = cm_state m in
      if cm_profile m \<noteq> 3 \<or> tr_owner_id tr \<noteq> cm_owner_id m then Some (Inl Replay_err, m, session)
      else case tr_profile3_proof tr of
        None \<Rightarrow> Some (Inl Replay_err, m, session)
      | Some proof \<Rightarrow>
        if ms_closed st \<or> ms_generation st \<noteq> tr_generation tr then Some (Inl Replay_err, m, session)
        else case DirectionalSession_commit_profile3_replay session proof of
          (Inl e, session', proof') \<Rightarrow> Some (Inl Replay_err, m, session')
        | (Inr _, session', proof') \<Rightarrow>
          if \<not> p3r_committed proof' then Some (Inl Replay_err, m, session')
          else map_option (\<lambda>(r, st1). (r, m\<lparr>cm_state := st1\<rparr>, session'))
            (apply_after_replay m st (tr\<lparr>tr_profile3_proof := None\<rparr>)))"

section \<open>Expiry\<close>

text \<open>The passes of \<open>expire\<close> in order; each returns whether it changed the state.\<close>

definition fail_candidate :: "candidate \<Rightarrow> candidate" where
  "fail_candidate ca = ca\<lparr>ca_state := Failed, ca_response := None\<rparr>"

definition challenge_expired :: "u64 \<Rightarrow> candidate \<Rightarrow> bool" where
  "challenge_expired now_ms ca \<longleftrightarrow> now_ms \<ge> ca_expiry_ms ca \<and> ca_state ca = Challenged"

definition expire_challenges :: "mobility_state \<Rightarrow> u64 \<Rightarrow> bool \<times> mobility_state" where
  "expire_challenges st now_ms =
     (list_ex (challenge_expired now_ms) (ms_candidates st),
      st\<lparr>ms_candidates := map (\<lambda>ca. if challenge_expired now_ms ca then fail_candidate ca else ca)
        (ms_candidates st)\<rparr>)"

definition expire_member :: "mobility_state \<Rightarrow> u64 \<Rightarrow> proposal \<Rightarrow> bool \<times> mobility_state" where
  "expire_member st now_ms p =
     (let expired = (now_ms \<ge> po_expiry_ms p);
          (changed, st1) =
            (case position (has_id (po_candidate_id p)) (ms_candidates st) of
               Some i \<Rightarrow>
                 let ca = ms_candidates st ! i in
                 if expired \<and> \<not> (ca_state ca = Proven \<or> ca_state ca = Failed)
                 then (True, st\<lparr>ms_candidates := (ms_candidates st)[i := fail_candidate ca]\<rparr>)
                 else (False, st)
             | None \<Rightarrow> (expired, st)) in
      (changed, if expired then record_tombstone st1 (po_candidate_id p) now_ms else st1))"

fun expire_members :: "mobility_state \<Rightarrow> u64 \<Rightarrow> proposal list \<Rightarrow> bool \<times> mobility_state" where
  "expire_members st now_ms [] = (False, st)"
| "expire_members st now_ms (p # ps) =
     (let (changed, st1) = expire_member st now_ms p;
          (rest, st2) = expire_members st1 now_ms ps in
      (changed \<or> rest, st2))"

definition member_of :: "proposal list \<Rightarrow> candidate \<Rightarrow> bool" where
  "member_of ps ca = list_ex (\<lambda>p. po_candidate_id p = ca_candidate_id ca) ps"

definition timeout_failures :: "mobility_state \<Rightarrow> proposal list \<Rightarrow> proposal list" where
  "timeout_failures st frozen_members =
     List.map_filter (\<lambda>ca. find (\<lambda>p. po_candidate_id p = ca_candidate_id ca) (ms_proposals st))
       (filter (\<lambda>ca. ca_state ca = Failed \<and> \<not> member_of frozen_members ca) (ms_candidates st))"

fun emit_timeouts :: "mobility_state \<Rightarrow> u64 \<Rightarrow> proposal list \<Rightarrow> bool \<times> mobility_state" where
  "emit_timeouts st now_ms [] = (False, st)"
| "emit_timeouts st now_ms (p # ps) =
     (if length (ms_results st) \<ge> RESULT_CACHE_SLOTS
         \<or> length (ms_emitted_results st) \<ge> RESULT_CACHE_SLOTS
         \<or> list_ex (\<lambda>e. re_candidate_id e = po_candidate_id p) (ms_results st)
      then emit_timeouts st now_ms ps
      else
        let entry = result_entry p 3 now_ms None;
            st1 = st\<lparr>ms_emitted_results := ms_emitted_results st @ [re_bytes entry],
                     ms_results := ms_results st @ [entry]\<rparr> in
        (True, snd (emit_timeouts st1 now_ms ps)))"

definition expired_ids :: "mobility_state \<Rightarrow> u64 \<Rightarrow> bytes list" where
  "expired_ids st now_ms =
     map po_candidate_id (filter (\<lambda>p. now_ms \<ge> po_expiry_ms p) (ms_proposals st))
     @ map oc_candidate_id (filter (\<lambda>oc. now_ms \<ge> oc_expiry_ms oc) (ms_outbound st))"

definition bury_expired :: "mobility_state \<Rightarrow> u64 \<Rightarrow> mobility_state" where
  "bury_expired st now_ms =
     (let st1 = foldl (\<lambda>s i. record_tombstone s i now_ms) st (expired_ids st now_ms) in
      st1\<lparr>ms_tombstones := filter (\<lambda>(_, expiry). now_ms < expiry) (ms_tombstones st1)\<rparr>)"

definition drop_results :: "mobility_state \<Rightarrow> u64 \<Rightarrow> bool \<times> mobility_state" where
  "drop_results st now_ms =
     (let kept = filter (\<lambda>e. now_ms < re_expiry_ms e) (ms_results st) in
      (length kept \<noteq> length (ms_results st), st\<lparr>ms_results := kept\<rparr>))"

definition drop_proposals :: "mobility_state \<Rightarrow> u64 \<Rightarrow> bool \<times> mobility_state" where
  "drop_proposals st now_ms =
     (let kept = filter (\<lambda>p. now_ms < po_expiry_ms p) (ms_proposals st) in
      (length kept \<noteq> length (ms_proposals st), st\<lparr>ms_proposals := kept\<rparr>))"

text \<open>A cohort none of whose proposals is left is dropped.\<close>

definition drop_cohort :: "mobility_state \<Rightarrow> bool \<times> mobility_state" where
  "drop_cohort st =
     (case ms_frozen_cohort st of
        Some (epoch, _) \<Rightarrow>
          if \<not> list_ex (\<lambda>p. po_epoch p = epoch) (ms_proposals st)
          then (True, st\<lparr>ms_frozen_cohort := None\<rparr>) else (False, st)
      | None \<Rightarrow> (False, st))"

text \<open>Without a cohort, the greatest epoch that has a proven candidate becomes one.\<close>

definition freeze_proven :: "mobility_state \<Rightarrow> bool \<times> mobility_state" where
  "freeze_proven st =
     (if ms_frozen_cohort st \<noteq> None then (False, st)
      else case max_epoch (filter (\<lambda>p. list_ex (\<lambda>ca. has_id (po_candidate_id p) ca
               \<and> ca_state ca = Proven) (ms_candidates st)) (ms_proposals st)) of
        None \<Rightarrow> (False, st)
      | Some epoch \<Rightarrow> (True, st\<lparr>ms_frozen_cohort :=
          Some (epoch, filter (\<lambda>p. po_epoch p = epoch) (ms_proposals st))\<rparr>))"

definition drop_failed :: "mobility_state \<Rightarrow> proposal list \<Rightarrow> bool \<times> mobility_state" where
  "drop_failed st frozen_members =
     (let kept = filter (\<lambda>ca. ca_state ca \<noteq> Failed \<or> member_of frozen_members ca) (ms_candidates st) in
      (length kept \<noteq> length (ms_candidates st), st\<lparr>ms_candidates := kept\<rparr>))"

definition drop_outbound :: "mobility_state \<Rightarrow> u64 \<Rightarrow> bool \<times> mobility_state" where
  "drop_outbound st now_ms =
     (let kept = filter (\<lambda>oc. now_ms < oc_expiry_ms oc) (ms_outbound st) in
      (length kept \<noteq> length (ms_outbound st), st\<lparr>ms_outbound := kept\<rparr>))"

definition drop_old_binding :: "mobility_state \<Rightarrow> u64 \<Rightarrow> bool \<times> mobility_state" where
  "drop_old_binding st now_ms =
     (case ms_old_binding st of
        Some (_, expiry) \<Rightarrow>
          if now_ms \<ge> expiry then (True, st\<lparr>ms_old_binding := None\<rparr>) else (False, st)
      | None \<Rightarrow> (False, st))"

text \<open>What \<open>close\<close> erases, and what \<open>expire\<close> erases when the generation is used up.\<close>

definition erase_state :: "mobility_state \<Rightarrow> mobility_state" where
  "erase_state st = st\<lparr>ms_closed := True, ms_proposals := [], ms_candidates := [], ms_results := [],
     ms_outbound := [], ms_emitted_results := [], ms_profile3_admission := None,
     ms_profile3_owner := None, ms_old_binding := None, ms_frozen_cohort := None,
     ms_candidate_secret := None, ms_tombstones := []\<rparr>"

text \<open>
  The passes between the two attempts to settle the cohort; \<open>frozen_members\<close> is the cohort as it
  was when \<open>expire\<close> started.
\<close>

definition expire_passes :: "mobility_state \<Rightarrow> u64 \<Rightarrow> proposal list \<Rightarrow> bool \<times> mobility_state" where
  "expire_passes st now_ms frozen_members =
     (let (c1, st1) = drop_results st now_ms;
          (c2, st2) = emit_timeouts st1 now_ms (timeout_failures st1 frozen_members);
          st3 = bury_expired st2 now_ms;
          (c4, st4) = drop_proposals st3 now_ms;
          (c5, st5) = drop_cohort st4;
          (c6, st6) = freeze_proven st5;
          (c7, st7) = drop_failed st6 frozen_members;
          (c8, st8) = drop_outbound st7 now_ms;
          (c9, st9) = drop_old_binding st8 now_ms in
      (c1 \<or> c2 \<or> c4 \<or> c5 \<or> c6 \<or> c7 \<or> c8 \<or> c9, st9))"

definition bump_or_erase :: "bool \<Rightarrow> mobility_state \<Rightarrow> mobility_state" where
  "bump_or_erase changed st =
     (if \<not> changed then st
      else case checked_add (ms_generation st) 1 of
        Some g \<Rightarrow> st\<lparr>ms_generation := g\<rparr>
      | None \<Rightarrow> erase_state st)"

definition expire_state :: "u8 \<Rightarrow> u64 \<Rightarrow> mobility_state \<Rightarrow> u64 \<Rightarrow> mobility_state option" where
  "expire_state profile scid st now_ms =
     (if ms_closed st then Some st
      else
        let frozen_members = (case ms_frozen_cohort st of None \<Rightarrow> [] | Some (_, members) \<Rightarrow> members);
            (c1, st1) = expire_challenges st now_ms;
            (c2, st2) = expire_members st1 now_ms frozen_members in
        Option.bind (settle_frozen_cohort st2 profile scid now_ms) (\<lambda>(c3, st3).
          let (c4, st4) = expire_passes st3 now_ms frozen_members in
          map_option (\<lambda>(c5, st5). bump_or_erase (c1 \<or> c2 \<or> c3 \<or> c4 \<or> c5) st5)
            (settle_frozen_cohort st4 profile scid now_ms)))"

definition CandidateManager_expire :: "candidate_manager \<Rightarrow> u64 \<Rightarrow> candidate_manager option" where
  "CandidateManager_expire m now_ms =
     map_option (\<lambda>st. m\<lparr>cm_state := st\<rparr>) (expire_state (cm_profile m) (cm_scid m) (cm_state m) now_ms)"

section \<open>Close and observation\<close>

definition CandidateManager_close :: "candidate_manager \<Rightarrow> candidate_manager" where
  "CandidateManager_close m =
     (let st = erase_state (cm_state m) in
      m\<lparr>cm_state := st\<lparr>ms_generation := saturating_add (ms_generation st) 1\<rparr>\<rparr>)"

definition CandidateManager_restart :: "candidate_manager \<Rightarrow> candidate_manager" where
  "CandidateManager_restart m = CandidateManager_close m"

definition CandidateManager_binding_allowed_inbound ::
    "candidate_manager \<Rightarrow> ObservedBinding \<Rightarrow> u64 \<Rightarrow> bool" where
  "CandidateManager_binding_allowed_inbound m binding now_ms \<longleftrightarrow>
     is_ok (ObservedBinding_validate binding)
     \<and> (binding = ms_current_binding (cm_state m)
        \<or> (case ms_old_binding (cm_state m) of None \<Rightarrow> False
           | Some (old, expiry) \<Rightarrow> binding = old \<and> now_ms < expiry))"

definition CandidateManager_take_results :: "candidate_manager \<Rightarrow> Control list \<times> candidate_manager" where
  "CandidateManager_take_results m =
     (List.map_filter (\<lambda>bytes. case Control_parse bytes of Inl _ \<Rightarrow> None | Inr ctl \<Rightarrow> Some ctl)
        (ms_emitted_results (cm_state m)),
      m\<lparr>cm_state := (cm_state m)\<lparr>ms_emitted_results := []\<rparr>\<rparr>)"

definition CandidateManager_take_profile3_admissions ::
    "candidate_manager \<Rightarrow> profile3_admission list \<times> candidate_manager" where
  "CandidateManager_take_profile3_admissions m =
     (if ms_emitted_results (cm_state m) \<noteq> [] then ([], m)
      else ((case ms_profile3_admission (cm_state m) of None \<Rightarrow> [] | Some a \<Rightarrow> [a]),
            m\<lparr>cm_state := (cm_state m)\<lparr>ms_profile3_admission := None\<rparr>\<rparr>))"

end
