(* ===== verification/Mobility_Safety.thy ===== *)
theory Mobility_Safety
  imports Mobility
begin

text \<open>
  What a candidate manager keeps over every run: bounded vectors, pending epochs ahead of the
  committed ones, one Profile-3 capability in one place, transitions that are still true when they
  are committed. The proofs go pass by pass (\<open>sound_pass\<close>), then operation by operation
  (\<open>sound_step\<close>), then over the step relation \<open>mobility_step\<close>, which interleaves all operations.
\<close>

section \<open>The invariant\<close>

text \<open>Every vector of the state is bounded.\<close>

definition bounded_state :: "mobility_state \<Rightarrow> bool" where
  "bounded_state st \<longleftrightarrow>
     length (ms_proposals st) \<le> 2 \<and> length (ms_candidates st) \<le> 2 \<and> length (ms_outbound st) \<le> 2
     \<and> length (ms_emitted_results st) \<le> 2 \<and> length (ms_tombstones st) \<le> 2
     \<and> length (ms_results st) + length (ms_proposals st) \<le> 6 \<and> ms_proposal_tokens st \<le> 2
     \<and> (case ms_frozen_cohort st of None \<Rightarrow> True | Some (e, members) \<Rightarrow>
          length members \<le> 2
          \<and> length (ms_results st) + length members
              + length (filter (\<lambda>p. e < po_epoch p) (ms_proposals st)) \<le> 6)"

text \<open>What is pending is newer than what has been committed.\<close>

definition epochs_ahead :: "mobility_state \<Rightarrow> bool" where
  "epochs_ahead st \<longleftrightarrow>
     (\<forall>p \<in> set (ms_proposals st). ms_peer_epoch st < po_epoch p)
     \<and> (\<forall>oc \<in> set (ms_outbound st). ms_local_epoch st < oc_epoch oc)
     \<and> (\<forall>e members. ms_frozen_cohort st = Some (e, members) \<longrightarrow> ms_peer_epoch st < e)"

text \<open>
  The Profile-3 capability \<open>ow\<close> is in one place: with the manager, in the pending admission, or
  in the one admission that has been taken.
\<close>

definition issued_from :: "admission_owner option \<Rightarrow> u64 \<Rightarrow> profile3_admission \<Rightarrow> bool" where
  "issued_from ow scid a \<longleftrightarrow>
     ow = Some (ad_owner a) \<and> ad_scid a = scid \<and> ad_policy_id a = ao_policy_id (ad_owner a)"

definition owner_once ::
    "admission_owner option \<Rightarrow> u64 \<Rightarrow> profile3_admission list \<Rightarrow> mobility_state \<Rightarrow> bool" where
  "owner_once ow scid taken st \<longleftrightarrow>
     (ms_profile3_owner st \<noteq> None \<longrightarrow>
        ms_profile3_owner st = ow \<and> ms_profile3_admission st = None \<and> taken = [])
     \<and> (\<forall>a. ms_profile3_admission st = Some a \<longrightarrow> issued_from ow scid a \<and> taken = [])
     \<and> (\<forall>a \<in> set taken. issued_from ow scid a) \<and> length taken \<le> 1"

definition mobility_inv ::
    "admission_owner option \<Rightarrow> u64 \<Rightarrow> profile3_admission list \<Rightarrow> mobility_state \<Rightarrow> bool" where
  "mobility_inv ow scid taken st \<longleftrightarrow>
     bounded_state st \<and> epochs_ahead st \<and> owner_once ow scid taken st"

lemmas mobility_inv_defs = mobility_inv_def bounded_state_def epochs_ahead_def owner_once_def

text \<open>
  How a step may move the committed part: a new binding takes a new epoch on one side or the
  other, a new locator a new epoch on its own side.
\<close>

definition advances :: "mobility_state \<Rightarrow> mobility_state \<Rightarrow> bool" where
  "advances st st' \<longleftrightarrow>
     ms_peer_epoch st \<le> ms_peer_epoch st' \<and> ms_local_epoch st \<le> ms_local_epoch st'
     \<and> (ms_current_binding st' \<noteq> ms_current_binding st \<longrightarrow>
          ms_peer_epoch st < ms_peer_epoch st' \<or> ms_local_epoch st < ms_local_epoch st')
     \<and> (ms_peer_loc st' \<noteq> ms_peer_loc st \<longrightarrow> ms_peer_epoch st < ms_peer_epoch st')
     \<and> (ms_local_loc st' \<noteq> ms_local_loc st \<longrightarrow> ms_local_epoch st < ms_local_epoch st')"

lemma advances_refl [simp]: "advances st st"
  by (simp add: advances_def)

lemma advances_trans [trans]: "advances r st \<Longrightarrow> advances st t \<Longrightarrow> advances r t"
proof -
  assume a: "advances r st" and b: "advances st t"
  note m = a [unfolded advances_def] b [unfolded advances_def]
  show "advances r t"
    unfolding advances_def
  proof (intro conjI impI)
    show "ms_peer_epoch r \<le> ms_peer_epoch t" "ms_local_epoch r \<le> ms_local_epoch t" using m by auto
    show "ms_peer_epoch r < ms_peer_epoch t" if "ms_peer_loc t \<noteq> ms_peer_loc r"
      using m that by (cases "ms_peer_loc st = ms_peer_loc r") auto
    show "ms_local_epoch r < ms_local_epoch t" if "ms_local_loc t \<noteq> ms_local_loc r"
      using m that by (cases "ms_local_loc st = ms_local_loc r") auto
    show "ms_peer_epoch r < ms_peer_epoch t \<or> ms_local_epoch r < ms_local_epoch t"
      if "ms_current_binding t \<noteq> ms_current_binding r"
      using m that by (cases "ms_current_binding st = ms_current_binding r") auto
  qed
qed

text \<open>The part of the state a transition depends on.\<close>

definition same_core :: "mobility_state \<Rightarrow> mobility_state \<Rightarrow> bool" where
  "same_core st st' \<longleftrightarrow>
     ms_proposals st' = ms_proposals st \<and> ms_candidates st' = ms_candidates st
     \<and> ms_results st' = ms_results st \<and> ms_frozen_cohort st' = ms_frozen_cohort st
     \<and> ms_peer_epoch st' = ms_peer_epoch st \<and> ms_local_epoch st' = ms_local_epoch st"

lemma same_core_refl [simp]: "same_core st st"
  by (simp add: same_core_def)

lemma same_core_trans [trans]: "same_core r st \<Longrightarrow> same_core st t \<Longrightarrow> same_core r t"
  by (simp add: same_core_def)

text \<open>
  A pass of an operation: it keeps the invariant and the generation, only moves the committed part
  forward, and leaves the core alone when it reports no change.
\<close>

definition sound_pass ::
    "admission_owner option \<Rightarrow> u64 \<Rightarrow> profile3_admission list \<Rightarrow>
       mobility_state \<Rightarrow> bool \<Rightarrow> mobility_state \<Rightarrow> bool" where
  "sound_pass ow scid taken st changed st' \<longleftrightarrow>
     mobility_inv ow scid taken st' \<and> ms_generation st' = ms_generation st
     \<and> ms_closed st' = ms_closed st \<and> advances st st' \<and> (\<not> changed \<longrightarrow> same_core st st')"

lemma sound_pass_trans [trans]:
  "sound_pass ow scid taken r b st \<Longrightarrow> sound_pass ow scid taken st c t \<Longrightarrow>
     sound_pass ow scid taken r (b \<or> c) t"
  unfolding sound_pass_def using advances_trans same_core_trans by simp blast

lemma sound_pass_refl: "mobility_inv ow scid taken st \<Longrightarrow> sound_pass ow scid taken st b st"
  by (simp add: sound_pass_def)

lemma length_filter_bound: "length xs \<le> n \<Longrightarrow> length (filter P xs) \<le> n"
  using length_filter_le order_trans by blast

lemma length_filter_filter: "length (filter P (filter Q xs)) \<le> length (filter P xs)"
  by (induction xs) auto

text \<open>A pass that only shortens the vectors.\<close>

definition shrinks :: "mobility_state \<Rightarrow> mobility_state \<Rightarrow> bool" where
  "shrinks st st' \<longleftrightarrow>
     (\<exists>P. ms_proposals st' = filter P (ms_proposals st))
     \<and> length (ms_candidates st') \<le> length (ms_candidates st)
     \<and> (\<exists>P. ms_outbound st' = filter P (ms_outbound st))
     \<and> ms_emitted_results st' = ms_emitted_results st
     \<and> (length (ms_tombstones st) \<le> 2 \<longrightarrow> length (ms_tombstones st') \<le> 2)
     \<and> length (ms_results st') \<le> length (ms_results st)
     \<and> (ms_frozen_cohort st' = ms_frozen_cohort st \<or> ms_frozen_cohort st' = None)
     \<and> ms_proposal_tokens st' = ms_proposal_tokens st
     \<and> ms_profile3_owner st' = ms_profile3_owner st
     \<and> ms_profile3_admission st' = ms_profile3_admission st
     \<and> ms_peer_epoch st' = ms_peer_epoch st \<and> ms_local_epoch st' = ms_local_epoch st
     \<and> ms_peer_loc st' = ms_peer_loc st \<and> ms_local_loc st' = ms_local_loc st
     \<and> ms_current_binding st' = ms_current_binding st
     \<and> ms_generation st' = ms_generation st \<and> ms_closed st' = ms_closed st"

lemma shrinks_bounded:
  assumes "bounded_state st" "shrinks st st'"
  shows "bounded_state st'"
proof -
  obtain P Q where f: "ms_proposals st' = filter P (ms_proposals st)"
    "ms_outbound st' = filter Q (ms_outbound st)" using assms(2) by (auto simp: shrinks_def)
  have l: "length (ms_proposals st') \<le> length (ms_proposals st)"
    "length (ms_outbound st') \<le> length (ms_outbound st)"
    "\<And>e. length (filter (\<lambda>p. e < po_epoch p) (ms_proposals st'))
       \<le> length (filter (\<lambda>p. e < po_epoch p) (ms_proposals st))"
    by (simp_all add: f length_filter_filter del: filter_filter)
  have "case ms_frozen_cohort st' of None \<Rightarrow> True | Some (e, members) \<Rightarrow>
      length members \<le> 2 \<and> length (ms_results st') + length members
        + length (filter (\<lambda>p. e < po_epoch p) (ms_proposals st')) \<le> 6"
  proof (cases "ms_frozen_cohort st'")
    case (Some c)
    then have "ms_frozen_cohort st = Some (fst c, snd c)" "length (ms_results st') \<le> length (ms_results st)"
      using assms(2) by (auto simp: shrinks_def)
    with assms(1) Some l(3) [of "fst c"] show ?thesis
      by (auto simp: bounded_state_def split: prod.split)
  qed simp
  moreover have "length (ms_results st') \<le> length (ms_results st)"
    "length (ms_candidates st') \<le> length (ms_candidates st)"
    "ms_emitted_results st' = ms_emitted_results st"
    "length (ms_tombstones st) \<le> 2 \<longrightarrow> length (ms_tombstones st') \<le> 2"
    "ms_proposal_tokens st' = ms_proposal_tokens st"
    using assms(2) by (simp_all add: shrinks_def)
  moreover have "length (ms_proposals st) \<le> 2" "length (ms_candidates st) \<le> 2"
    "length (ms_outbound st) \<le> 2" "length (ms_emitted_results st) \<le> 2"
    "length (ms_tombstones st) \<le> 2" "length (ms_results st) + length (ms_proposals st) \<le> 6"
    "ms_proposal_tokens st \<le> 2"
    using assms(1) by (simp_all add: bounded_state_def)
  ultimately show ?thesis using l(1,2) unfolding bounded_state_def
    by (intro conjI) (assumption | linarith | simp)+
qed

lemma shrinks_sound:
  assumes inv: "mobility_inv ow scid taken st" and s: "shrinks st st'"
    and core: "\<not> b \<Longrightarrow> same_core st st'"
  shows "sound_pass ow scid taken st b st'"
proof -
  have "bounded_state st'" using inv s shrinks_bounded by (auto simp: mobility_inv_def)
  moreover have "epochs_ahead st'"
  proof -
    have "set (ms_proposals st') \<subseteq> set (ms_proposals st)" "set (ms_outbound st') \<subseteq> set (ms_outbound st)"
      and "ms_frozen_cohort st' = ms_frozen_cohort st \<or> ms_frozen_cohort st' = None"
      and "ms_peer_epoch st' = ms_peer_epoch st" "ms_local_epoch st' = ms_local_epoch st"
      using s by (auto simp: shrinks_def)
    with inv show ?thesis unfolding mobility_inv_def epochs_ahead_def by (metis option.distinct(1) subsetD)
  qed
  moreover have "owner_once ow scid taken st'"
    using inv s unfolding mobility_inv_def owner_once_def shrinks_def by metis
  moreover have "advances st st'" using s by (simp add: advances_def shrinks_def)
  ultimately show ?thesis using core s by (auto simp: sound_pass_def mobility_inv_def shrinks_def)
qed

lemma filter_same: "length (filter P xs) = length xs \<Longrightarrow> filter P xs = xs"
  by (metis filter_id_conv length_filter_less linorder_not_less order_refl)

lemma filter_all: "\<exists>P. xs = filter P xs"
  by (rule exI [of _ "\<lambda>_. True"]) simp

lemma filter_of: "\<exists>P. filter Q xs = filter P xs"
  by blast

lemma record_tombstone_shrinks: "shrinks st (record_tombstone st i now)"
  by (auto simp: shrinks_def record_tombstone_def mobility_limits filter_all remove_at_def)

lemma record_tombstone_core: "same_core st (record_tombstone st i now)"
  by (simp add: same_core_def record_tombstone_def)

lemma bury_expired_shrinks: "shrinks st (bury_expired st now) \<and> same_core st (bury_expired st now)"
proof -
  have fold: "shrinks r (foldl (\<lambda>s i. record_tombstone s i now) r ids)
      \<and> same_core r (foldl (\<lambda>s i. record_tombstone s i now) r ids)" for r ids
  proof (induction ids rule: rev_induct)
    case (snoc i ids)
    then show ?case
      by (auto simp: shrinks_def same_core_def record_tombstone_def mobility_limits filter_all remove_at_def)
  qed (simp add: shrinks_def filter_all)
  show ?thesis
    using fold [of st "expired_ids st now"]
    by (auto simp: bury_expired_def Let_def shrinks_def same_core_def intro: length_filter_bound)
qed

lemmas drop_defs =
  drop_results_def drop_proposals_def drop_cohort_def drop_failed_def drop_outbound_def
  drop_old_binding_def expire_challenges_def

lemma shrinks_refl [simp]: "shrinks st st"
  by (simp add: shrinks_def filter_all)

lemma shrinks_trans [trans]: "shrinks r st \<Longrightarrow> shrinks st t \<Longrightarrow> shrinks r t"
  unfolding shrinks_def by (elim conjE exE, intro conjI) (auto intro: order_trans)

lemma shrinks_update:
  "shrinks st (st\<lparr>ms_results := filter P (ms_results st)\<rparr>)"
  "shrinks st (st\<lparr>ms_proposals := filter Q (ms_proposals st)\<rparr>)"
  "shrinks st (st\<lparr>ms_frozen_cohort := None\<rparr>)"
  "length cs \<le> length (ms_candidates st) \<Longrightarrow> shrinks st (st\<lparr>ms_candidates := cs\<rparr>)"
  "shrinks st (st\<lparr>ms_outbound := filter R (ms_outbound st)\<rparr>)"
  "shrinks st (st\<lparr>ms_old_binding := x\<rparr>)"
  unfolding shrinks_def by (simp_all add: filter_all) blast+

lemma drop_pass_core:
  "drop_results st now = (False, st') \<Longrightarrow> same_core st st'"
  "drop_proposals st now = (False, st') \<Longrightarrow> same_core st st'"
  "drop_cohort st = (False, st') \<Longrightarrow> same_core st st'"
  "drop_failed st ms = (False, st') \<Longrightarrow> same_core st st'"
  "drop_outbound st now = (b, st') \<Longrightarrow> same_core st st'"
  "drop_old_binding st now = (b, st') \<Longrightarrow> same_core st st'"
  "expire_challenges st now = (False, st') \<Longrightarrow> same_core st st'"
  by (auto simp: drop_defs Let_def same_core_def filter_same list_ex_iff
      intro!: map_idI split: option.splits if_splits)

lemma drop_pass_shrinks:
  "drop_results st now = (b, st') \<Longrightarrow> shrinks st st'"
  "drop_proposals st now = (b, st') \<Longrightarrow> shrinks st st'"
  "drop_cohort st = (b, st') \<Longrightarrow> shrinks st st'"
  "drop_failed st ms = (b, st') \<Longrightarrow> shrinks st st'"
  "drop_outbound st now = (b, st') \<Longrightarrow> shrinks st st'"
  "drop_old_binding st now = (b, st') \<Longrightarrow> shrinks st st'"
  "expire_challenges st now = (b, st') \<Longrightarrow> shrinks st st'"
  by (auto simp: drop_defs Let_def shrinks_update split: option.splits if_splits)

lemma expire_member_shrinks:
  "expire_member st now p = (b, st') \<Longrightarrow> shrinks st st' \<and> (\<not> b \<longrightarrow> same_core st st')"
  by (auto simp: expire_member_def Let_def record_tombstone_core
      intro: shrinks_trans [OF shrinks_update(4) record_tombstone_shrinks] shrinks_update(4)
        record_tombstone_shrinks
      split: option.splits if_splits prod.splits)

lemma expire_members_shrinks:
  "expire_members st now ps = (b, st') \<Longrightarrow> shrinks st st' \<and> (\<not> b \<longrightarrow> same_core st st')"
proof (induction ps arbitrary: st b st')
  case (Cons p ps)
  obtain b1 st1 where p: "expire_member st now p = (b1, st1)" by force
  obtain b2 st2 where ps: "expire_members st1 now ps = (b2, st2)" by force
  have "b = (b1 \<or> b2)" "st' = st2" using Cons.prems by (simp_all add: p ps)
  with expire_member_shrinks [OF p] Cons.IH [OF ps] show ?case
    using shrinks_trans same_core_trans by blast
qed simp

text \<open>The passes that add results or a cohort.\<close>

lemma results_room:
  assumes inv: "mobility_inv ow scid taken st" and room: "length (ms_results st) + frozen_slots st \<le> 3"
  shows "mobility_inv ow scid taken (st\<lparr>ms_results := ms_results st @ [entry]\<rparr>)"
proof -
  have l: "length (filter (\<lambda>p. e < po_epoch p) (ms_proposals st)) \<le> 2" for e
    using inv by (auto simp: mobility_inv_def bounded_state_def intro: length_filter_bound)
  have "length (ms_results st) + length ms
      + length (filter (\<lambda>p. e < po_epoch p) (ms_proposals st)) \<le> 5"
    if "ms_frozen_cohort st = Some (e, ms)" for e ms
    using that room l [of e] by (simp add: frozen_slots_def)
  with assms show ?thesis
    by (cases "ms_frozen_cohort st") (auto simp: mobility_inv_defs frozen_slots_def)
qed

lemma emit_timeouts_sound:
  "mobility_inv ow scid taken st \<Longrightarrow> emit_timeouts st now ps = (b, st') \<Longrightarrow>
     sound_pass ow scid taken st b st'"
proof (induction ps arbitrary: st b)
  case Nil
  then show ?case by (simp add: sound_pass_refl)
next
  case (Cons p ps)
  show ?case
  proof (cases "length (ms_results st) \<ge> RESULT_CACHE_SLOTS
      \<or> length (ms_emitted_results st) \<ge> RESULT_CACHE_SLOTS
      \<or> list_ex (\<lambda>e. re_candidate_id e = po_candidate_id p) (ms_results st)")
    case True
    with Cons show ?thesis by simp
  next
    case False
    define entry where "entry = result_entry p 3 now None"
    define st1 where "st1 = st\<lparr>ms_emitted_results := ms_emitted_results st @ [re_bytes entry],
      ms_results := ms_results st @ [entry]\<rparr>"
    obtain b2 where rest: "emit_timeouts st1 now ps = (b2, st')" and b: "b = True"
      using Cons.prems(2) False by (auto simp: entry_def [symmetric] st1_def [symmetric] Let_def
          prod_eq_iff)
    have "length (ms_results st) + frozen_slots st \<le> 3"
      using Cons.prems(1) False
      by (cases "ms_frozen_cohort st")
        (auto simp: mobility_inv_def bounded_state_def frozen_slots_def mobility_limits)
    note inv = results_room [OF Cons.prems(1) this, of entry]
    then have "sound_pass ow scid taken st True st1"
      using False by (cases "ms_frozen_cohort st")
        (simp_all add: sound_pass_def st1_def mobility_inv_defs advances_def mobility_limits)
    from sound_pass_trans [OF this] Cons.IH [OF _ rest] this show ?thesis
      by (auto simp: b sound_pass_def)
  qed
qed

lemma max_epoch_Some: "max_epoch ps = Some e \<Longrightarrow> e \<in> po_epoch ` set ps \<and> (\<forall>p \<in> set ps. po_epoch p \<le> e)"
proof -
  have "foldl (\<lambda>e q. max e (po_epoch q)) a qs \<in> insert a (po_epoch ` set qs)
      \<and> a \<le> foldl (\<lambda>e q. max e (po_epoch q)) a qs
      \<and> (\<forall>q \<in> set qs. po_epoch q \<le> foldl (\<lambda>e q. max e (po_epoch q)) a qs)" for a qs
    by (induction qs rule: rev_induct) (auto simp: max_def)
  then show "max_epoch ps = Some e \<Longrightarrow> ?thesis" 
    by (cases ps) (auto simp: max_epoch_def)
qed

lemma filter_disjoint_length:
  "(\<And>x. x \<in> set xs \<Longrightarrow> \<not> (P x \<and> Q x)) \<Longrightarrow> length (filter P xs) + length (filter Q xs) \<le> length xs"
  by (induction xs) (auto simp: le_SucI)

lemma freeze_sound:
  assumes inv: "mobility_inv ow scid taken st" and e: "\<exists>p \<in> set (ms_proposals st). po_epoch p = e"
  shows "sound_pass ow scid taken st True
    (st\<lparr>ms_frozen_cohort := Some (e, filter (\<lambda>p. po_epoch p = e) (ms_proposals st))\<rparr>)"
proof -
  have "length (filter (\<lambda>p. po_epoch p = e) (ms_proposals st))
      + length (filter (\<lambda>p. e < po_epoch p) (ms_proposals st)) \<le> length (ms_proposals st)"
    by (rule filter_disjoint_length) simp
  moreover have "length (ms_results st) + length (ms_proposals st) \<le> 6"
    "length (ms_proposals st) \<le> 2" using inv by (simp_all add: mobility_inv_def bounded_state_def)
  ultimately have "length (ms_results st) + length (filter (\<lambda>p. po_epoch p = e) (ms_proposals st))
      + length (filter (\<lambda>p. e < po_epoch p) (ms_proposals st)) \<le> 6"
    "length (filter (\<lambda>p. po_epoch p = e) (ms_proposals st)) \<le> 2" by linarith+
  moreover have "ms_peer_epoch st < e" using inv e by (auto simp: mobility_inv_def epochs_ahead_def)
  ultimately show ?thesis
    using inv by (simp add: sound_pass_def mobility_inv_defs advances_def)
qed

lemma freeze_proven_sound:
  assumes "mobility_inv ow scid taken st" "freeze_proven st = (b, st')"
  shows "sound_pass ow scid taken st b st'"
proof (cases b)
  case True
  with assms(2) obtain e Q where m: "max_epoch (filter Q (ms_proposals st)) = Some e"
    and st': "st' = st\<lparr>ms_frozen_cohort := Some (e, filter (\<lambda>p. po_epoch p = e) (ms_proposals st))\<rparr>"
    by (auto simp: freeze_proven_def split: if_splits option.splits)
  have "\<exists>p \<in> set (ms_proposals st). po_epoch p = e" using max_epoch_Some [OF m] by auto
  from freeze_sound [OF assms(1) this] True show ?thesis by (simp add: st')
next
  case False
  with assms(2) have "st' = st" by (auto simp: freeze_proven_def split: if_splits option.splits)
  with assms(1) show ?thesis by (simp add: sound_pass_refl)
qed

section \<open>Settling a cohort\<close>

lemma find_Some_in: "find P xs = Some x \<Longrightarrow> x \<in> set xs \<and> P x"
  by (auto simp: find_Some_iff)

lemma find_exists: "x \<in> set xs \<Longrightarrow> P x \<Longrightarrow> \<exists>y. find P xs = Some y"
  by (cases "find P xs") (auto simp: find_None_iff)

lemma cohort_winner_Some:
  assumes "cohort_winner st members = Some w"
  shows "w \<in> set (cohort_proven st members) \<and> (\<forall>i \<in> set (cohort_proven st members). w \<le> i)"
proof -
  obtain r where r: "sort (cohort_proven st members) = w # r"
    using assms by (auto simp: cohort_winner_def split: list.splits)
  have "sorted (w # r)" "set (w # r) = set (cohort_proven st members)"
    by (simp_all flip: r)
  then show ?thesis by (auto simp flip: \<open>set (w # r) = _\<close>)
qed

lemma cohort_winner_found:
  assumes "cohort_winner st members = Some w"
  shows "\<exists>ca. find (has_id w) (ms_candidates st) = Some ca"
proof -
  obtain ca where "ca \<in> set (ms_candidates st)" "has_id w ca"
    using cohort_winner_Some [OF assms] by (auto simp: cohort_proven_def list_ex_iff)
  then show ?thesis by (rule find_exists)
qed

text \<open>The panic of \<open>settle_frozen_cohort\<close> is out of reach.\<close>

lemma settle_total: "\<exists>b st'. settle_frozen_cohort st profile scid now = Some (b, st')"
  by (auto simp: settle_frozen_cohort_def Let_def split: option.split dest: cohort_winner_found)

lemma settle_False: "settle_frozen_cohort st profile scid now = Some (False, st') \<Longrightarrow> st' = st"
  by (auto simp: settle_frozen_cohort_def Let_def split: option.splits if_splits prod.splits)

lemma settle_tail_bounded:
  assumes "bounded_state st" "ms_frozen_cohort st = Some (e, members)"
    and "length (ms_emitted_results st) + length members \<le> 2" "length outcomes = length members"
  shows "bounded_state (settle_tail st e outcomes)"
proof -
  have "length (filter P (ms_proposals st)) \<le> length (ms_proposals st)"
    "length (filter Q (ms_candidates st)) \<le> length (ms_candidates st)" for P Q by simp_all
  with assms show ?thesis
    by (auto simp: bounded_state_def settle_tail_def intro: length_filter_bound)
qed

lemma settle_tail_ahead:
  "epochs_ahead (st\<lparr>ms_frozen_cohort := None\<rparr>) \<Longrightarrow> epochs_ahead (settle_tail st e outcomes)"
  by (auto simp: epochs_ahead_def settle_tail_def)

lemma settle_tail_same [simp]:
  "ms_generation (settle_tail st e outcomes) = ms_generation st"
  "ms_closed (settle_tail st e outcomes) = ms_closed st"
  "ms_peer_epoch (settle_tail st e outcomes) = ms_peer_epoch st"
  "ms_local_epoch (settle_tail st e outcomes) = ms_local_epoch st"
  "ms_peer_loc (settle_tail st e outcomes) = ms_peer_loc st"
  "ms_local_loc (settle_tail st e outcomes) = ms_local_loc st"
  "ms_current_binding (settle_tail st e outcomes) = ms_current_binding st"
  "owner_once ow scid taken (settle_tail st e outcomes) = owner_once ow scid taken st"
  by (simp_all add: settle_tail_def owner_once_def)

lemma admit_profile3_cases:
  "admit_profile3 st scid b ll pl e = st
   \<or> (\<exists>ow. \<not> ms_profile3_slot1_admitted st \<and> ms_profile3_owner st = Some ow
        \<and> admit_profile3 st scid b ll pl e = st\<lparr>ms_profile3_owner := None,
          ms_profile3_admission := Some \<lparr>ad_owner = ow, ad_scid = scid,
            ad_policy_id = ao_policy_id ow, ad_binding = b, ad_local_loc = ll, ad_peer_loc = pl,
            ad_epoch = e\<rparr>,
          ms_profile3_slot1_admitted := True\<rparr>)"
  by (auto simp: admit_profile3_def split: option.split)

lemma admit_profile3_same [simp]:
  "ms_generation (admit_profile3 st scid b ll pl e) = ms_generation st"
  "ms_closed (admit_profile3 st scid b ll pl e) = ms_closed st"
  "ms_peer_epoch (admit_profile3 st scid b ll pl e) = ms_peer_epoch st"
  "ms_local_epoch (admit_profile3 st scid b ll pl e) = ms_local_epoch st"
  "ms_peer_loc (admit_profile3 st scid b ll pl e) = ms_peer_loc st"
  "ms_local_loc (admit_profile3 st scid b ll pl e) = ms_local_loc st"
  "ms_current_binding (admit_profile3 st scid b ll pl e) = ms_current_binding st"
  "ms_frozen_cohort (admit_profile3 st scid b ll pl e) = ms_frozen_cohort st"
  "ms_emitted_results (admit_profile3 st scid b ll pl e) = ms_emitted_results st"
  "ms_tombstones (admit_profile3 st scid b ll pl e) = ms_tombstones st"
  "ms_proposals (admit_profile3 st scid b ll pl e) = ms_proposals st"
  "ms_candidates (admit_profile3 st scid b ll pl e) = ms_candidates st"
  "ms_outbound (admit_profile3 st scid b ll pl e) = ms_outbound st"
  "ms_results (admit_profile3 st scid b ll pl e) = ms_results st"
  "ms_proposal_tokens (admit_profile3 st scid b ll pl e) = ms_proposal_tokens st"
  by (simp_all add: admit_profile3_def split: option.split)
lemma admit_profile3_once:
  assumes "owner_once ow scid taken st"
  shows "owner_once ow scid taken (admit_profile3 st scid b ll pl e)"
proof (cases "ms_profile3_slot1_admitted st \<or> ms_profile3_owner st = None")
  case True
  then have "admit_profile3 st scid b ll pl e = st" by (auto simp: admit_profile3_def)
  with assms show ?thesis by simp
next
  case False
  with assms show ?thesis by (auto simp: admit_profile3_def owner_once_def issued_from_def)
qed

text \<open>The three ways a cohort settles: nobody proved, Profile-3 admission, promotion.\<close>

lemma settled_unproven_sound:
  assumes inv: "mobility_inv ow scid taken st" and fc: "ms_frozen_cohort st = Some (e, ms)"
    and room: "length (ms_emitted_results st) + length ms \<le> 2" "length os = length ms"
  shows "sound_pass ow scid taken st True (settle_tail st e os)"
proof -
  have "epochs_ahead (settle_tail st e os)"
    by (rule settle_tail_ahead) (use inv in \<open>simp add: mobility_inv_def epochs_ahead_def\<close>)
  with inv settle_tail_bounded [OF _ fc room] show ?thesis
    by (simp add: sound_pass_def mobility_inv_def advances_def)
qed

lemma settled_profile3_sound:
  assumes inv: "mobility_inv ow scid taken st" and fc: "ms_frozen_cohort st = Some (e, ms)"
    and room: "length (ms_emitted_results st) + length ms \<le> 2" "length os = length ms"
    and cs: "length cs = length (ms_candidates st)"
    and st1_def: "st1 = admit_profile3 st scid b ll pl e"
  shows "sound_pass ow scid taken st True (st1\<lparr>ms_emitted_results := map re_bytes os, ms_results := [],
       ms_proposals := [], ms_candidates := [], ms_outbound := [], ms_frozen_cohort := None,
       ms_candidate_secret := None\<rparr>)"
    and "sound_pass ow scid taken st True (settle_tail (st1\<lparr>ms_candidates := cs\<rparr>) e os)"
proof -
  have o: "owner_once ow scid taken st1"
    using inv by (simp add: st1_def admit_profile3_once mobility_inv_def)
  then show "sound_pass ow scid taken st True (st1\<lparr>ms_emitted_results := map re_bytes os, ms_results := [],
       ms_proposals := [], ms_candidates := [], ms_outbound := [], ms_frozen_cohort := None,
       ms_candidate_secret := None\<rparr>)"
    using inv room by (simp add: sound_pass_def mobility_inv_defs advances_def st1_def)
  have "mobility_inv ow scid taken (st1\<lparr>ms_candidates := cs\<rparr>)"
    using inv o cs fc by (simp add: mobility_inv_defs st1_def)
  from settled_unproven_sound [OF this, of e ms os]
  show "sound_pass ow scid taken st True (settle_tail (st1\<lparr>ms_candidates := cs\<rparr>) e os)"
    using fc room by (simp add: sound_pass_def st1_def advances_def)
qed

lemma settled_promoted_sound:
  assumes inv: "mobility_inv ow scid taken st" and fc: "ms_frozen_cohort st = Some (e, ms)"
    and room: "length (ms_emitted_results st) + length ms \<le> 2" "length os = length ms"
    and cs: "length cs = length (ms_candidates st)"
    and st1_def: "st1 = st\<lparr>ms_peer_epoch := e, ms_peer_loc := loc, ms_old_binding := old,
      ms_current_binding := b, ms_candidates := cs\<rparr>"
  shows "sound_pass ow scid taken st True (settle_tail st1 e os)"
proof -
  have "bounded_state (settle_tail st1 e os)"
    by (rule settle_tail_bounded [of _ _ ms])
      (use inv fc room cs in \<open>simp_all add: mobility_inv_def bounded_state_def st1_def\<close>)
  moreover have "epochs_ahead (settle_tail st1 e os)"
    using inv by (auto simp: mobility_inv_def epochs_ahead_def st1_def settle_tail_def)
  moreover have "ms_peer_epoch st < e" using inv fc by (simp add: mobility_inv_def epochs_ahead_def)
  moreover have "owner_once ow scid taken st1"
    using inv by (simp add: mobility_inv_def owner_once_def st1_def)
  ultimately show ?thesis by (simp add: sound_pass_def mobility_inv_def advances_def st1_def)
qed

lemma settle_sound:
  assumes inv: "mobility_inv ow scid taken st"
    and settle: "settle_frozen_cohort st profile scid now = Some (b, st')"
  shows "sound_pass ow scid taken st b st'"
proof (cases b)
  case False
  then have "st' = st" using settle by (auto dest: settle_False)
  with inv show ?thesis by (simp add: sound_pass_refl)
next
  case True
  then obtain e ms where fc: "ms_frozen_cohort st = Some (e, ms)"
    using settle by (auto simp: settle_frozen_cohort_def split: option.splits)
  have room: "length (ms_emitted_results st) + length ms \<le> 2"
    using settle True fc
    by (auto simp: settle_frozen_cohort_def mobility_limits split: if_splits)
  define w where "w = cohort_winner st ms"
  have os: "length (map (cohort_outcome st w now) ms) = length ms" by simp
  show ?thesis
  proof (cases w)
    case None
    then show ?thesis
      using settle True fc settled_unproven_sound [OF inv fc room os]
      by (auto simp: settle_frozen_cohort_def Let_def w_def split: if_splits)
  next
    case (Some win)
    obtain ca where ca: "find (has_id win) (ms_candidates st) = Some ca"
      using cohort_winner_found Some unfolding w_def by blast
    have cs: "length (map (mark_settled e win) (ms_candidates st)) = length (ms_candidates st)" by simp
    show ?thesis
      using settle True fc Some ca settled_profile3_sound [OF inv fc room os cs refl]
        settled_promoted_sound [OF inv fc room os cs refl]
      by (auto simp: settle_frozen_cohort_def Let_def w_def split: if_splits)
  qed
qed

section \<open>Expiry\<close>

lemma sound_pass_inv: "sound_pass ow scid taken st b st' \<Longrightarrow> mobility_inv ow scid taken st'"
  by (simp add: sound_pass_def)

lemma drop_results_sound:
  "mobility_inv ow scid taken st \<Longrightarrow> drop_results st now = (b, st') \<Longrightarrow> sound_pass ow scid taken st b st'"
  by (erule shrinks_sound) (auto dest: drop_pass_shrinks drop_pass_core)

lemma drop_proposals_sound:
  "mobility_inv ow scid taken st \<Longrightarrow> drop_proposals st now = (b, st') \<Longrightarrow> sound_pass ow scid taken st b st'"
  by (erule shrinks_sound) (auto dest: drop_pass_shrinks drop_pass_core)

lemma drop_cohort_sound:
  "mobility_inv ow scid taken st \<Longrightarrow> drop_cohort st = (b, st') \<Longrightarrow> sound_pass ow scid taken st b st'"
  by (erule shrinks_sound) (auto dest: drop_pass_shrinks drop_pass_core)

lemma drop_failed_sound:
  "mobility_inv ow scid taken st \<Longrightarrow> drop_failed st ms = (b, st') \<Longrightarrow> sound_pass ow scid taken st b st'"
  by (erule shrinks_sound) (auto dest: drop_pass_shrinks drop_pass_core)

lemma drop_outbound_sound:
  "mobility_inv ow scid taken st \<Longrightarrow> drop_outbound st now = (b, st') \<Longrightarrow> sound_pass ow scid taken st b st'"
  by (erule shrinks_sound) (auto dest: drop_pass_shrinks drop_pass_core)

lemma drop_old_binding_sound:
  "mobility_inv ow scid taken st \<Longrightarrow> drop_old_binding st now = (b, st') \<Longrightarrow> sound_pass ow scid taken st b st'"
  by (erule shrinks_sound) (auto dest: drop_pass_shrinks drop_pass_core)

lemma expire_challenges_sound:
  "mobility_inv ow scid taken st \<Longrightarrow> expire_challenges st now = (b, st') \<Longrightarrow> sound_pass ow scid taken st b st'"
  by (erule shrinks_sound) (auto dest: drop_pass_shrinks drop_pass_core)

lemma expire_members_sound:
  "mobility_inv ow scid taken st \<Longrightarrow> expire_members st now ms = (b, st') \<Longrightarrow> sound_pass ow scid taken st b st'"
  by (erule shrinks_sound) (auto dest: expire_members_shrinks)

lemma bury_expired_sound:
  "mobility_inv ow scid taken st \<Longrightarrow> sound_pass ow scid taken st False (bury_expired st now)"
  by (erule shrinks_sound) (simp_all add: bury_expired_shrinks)

lemma expire_passes_sound:
  assumes inv: "mobility_inv ow scid taken st" and e: "expire_passes st now ms = (b, st')"
  shows "sound_pass ow scid taken st b st'"
proof -
  obtain c1 st1 where 1: "drop_results st now = (c1, st1)" by force
  obtain c2 st2 where 2: "emit_timeouts st1 now (timeout_failures st1 ms) = (c2, st2)" by force
  obtain st3 where 3: "bury_expired st2 now = st3" by simp
  obtain c4 st4 where 4: "drop_proposals st3 now = (c4, st4)" by force
  obtain c5 st5 where 5: "drop_cohort st4 = (c5, st5)" by force
  obtain c6 st6 where 6: "freeze_proven st5 = (c6, st6)" by force
  obtain c7 st7 where 7: "drop_failed st6 ms = (c7, st7)" by force
  obtain c8 st8 where 8: "drop_outbound st7 now = (c8, st8)" by force
  obtain c9 st9 where 9: "drop_old_binding st8 now = (c9, st9)" by force
  have eq: "b = (c1 \<or> c2 \<or> False \<or> c4 \<or> c5 \<or> c6 \<or> c7 \<or> c8 \<or> c9)" "st' = st9"
    using e by (simp_all add: expire_passes_def 1 2 3 4 5 6 7 8 9)
  note s1 = drop_results_sound [OF inv 1]
  note s2 = emit_timeouts_sound [OF sound_pass_inv [OF s1] 2]
  note s3 = bury_expired_sound [OF sound_pass_inv [OF s2], where now = now, unfolded 3]
  note s4 = drop_proposals_sound [OF sound_pass_inv [OF s3] 4]
  note s5 = drop_cohort_sound [OF sound_pass_inv [OF s4] 5]
  note s6 = freeze_proven_sound [OF sound_pass_inv [OF s5] 6]
  note s7 = drop_failed_sound [OF sound_pass_inv [OF s6] 7]
  note s8 = drop_outbound_sound [OF sound_pass_inv [OF s7] 8]
  note s9 = drop_old_binding_sound [OF sound_pass_inv [OF s8] 9]
  show ?thesis
    unfolding eq
    by (rule sound_pass_trans [OF s1 sound_pass_trans [OF s2 sound_pass_trans [OF s3
      sound_pass_trans [OF s4 sound_pass_trans [OF s5 sound_pass_trans [OF s6
      sound_pass_trans [OF s7 sound_pass_trans [OF s8 s9]]]]]]]])
qed

text \<open>Closing erases, and an exhausted generation closes.\<close>

lemma erase_inv: "mobility_inv ow scid taken st \<Longrightarrow> mobility_inv ow scid taken (erase_state st)"
  by (simp add: mobility_inv_defs erase_state_def)

lemma generation_inv:
  "mobility_inv ow scid taken (st\<lparr>ms_generation := g\<rparr>) = mobility_inv ow scid taken st"
  by (cases "ms_frozen_cohort st") (simp_all add: mobility_inv_defs)

lemma checked_Suc:
  "checked_add g 1 = Some h \<longleftrightarrow> g \<noteq> u64_max \<and> h = g + 1" "checked_add g 1 = None \<longleftrightarrow> g = u64_max"
  for g h :: u64
proof -
  have "unat g + 1 < 2 ^ 64 \<longleftrightarrow> g \<noteq> u64_max"
    using unsigned_less [of g, where 'a = nat] by (auto simp: word_unat_eq_iff)
  then show "checked_add g 1 = Some h \<longleftrightarrow> g \<noteq> u64_max \<and> h = g + 1"
    "checked_add g 1 = None \<longleftrightarrow> g = u64_max" by (auto simp: checked_add_def)
qed

lemma less_Suc_word: "g \<noteq> u64_max \<Longrightarrow> g < g + 1" for g :: u64
  using checked_Suc(1) [of g "g + 1"] checked_add_unat [of g 1 "g + 1"] by (simp add: word_less_nat_alt)

text \<open>
  A complete operation: the invariant, the committed part, and either a greater generation, a
  closed manager, or an untouched core.
\<close>

definition sound_step ::
    "admission_owner option \<Rightarrow> u64 \<Rightarrow> profile3_admission list \<Rightarrow>
       mobility_state \<Rightarrow> mobility_state \<Rightarrow> bool" where
  "sound_step ow scid taken st st' \<longleftrightarrow>
     mobility_inv ow scid taken st' \<and> advances st st' \<and> (ms_closed st \<longrightarrow> ms_closed st')
     \<and> ms_generation st \<le> ms_generation st'
     \<and> (ms_generation st < ms_generation st' \<or> ms_closed st' \<or> same_core st st')"

lemma bump_or_erase_step:
  assumes s: "sound_pass ow scid taken st b st1"
  shows "sound_step ow scid taken st (bump_or_erase b st1)"
proof (cases "b \<and> ms_generation st1 \<noteq> u64_max")
  case True
  then have "bump_or_erase b st1 = st1\<lparr>ms_generation := ms_generation st1 + 1\<rparr>"
    "ms_generation st1 < ms_generation st1 + 1"
    by (simp_all add: bump_or_erase_def checked_Suc less_Suc_word split: option.split)
  with s show ?thesis
    by (simp add: sound_step_def sound_pass_def generation_inv advances_def same_core_def)
next
  case False
  then have "bump_or_erase b st1 = (if b then erase_state st1 else st1)"
    by (auto simp: bump_or_erase_def checked_Suc split: option.split)
  with s show ?thesis
    by (auto simp: sound_step_def sound_pass_def erase_inv) (auto simp: erase_state_def advances_def)
qed

lemma expire_step:
  assumes inv: "mobility_inv ow scid taken st"
  shows "\<exists>st'. expire_state profile scid st now = Some st' \<and> sound_step ow scid taken st st'"
proof (cases "ms_closed st")
  case True
  with inv show ?thesis by (simp add: expire_state_def sound_step_def)
next
  case False
  define ms where "ms = (case ms_frozen_cohort st of None \<Rightarrow> [] | Some (_, members) \<Rightarrow> members)"
  obtain c1 st1 where 1: "expire_challenges st now = (c1, st1)" by force
  obtain c2 st2 where 2: "expire_members st1 now ms = (c2, st2)" by force
  obtain c3 st3 where 3: "settle_frozen_cohort st2 profile scid now = Some (c3, st3)"
    using settle_total by blast
  obtain c4 st4 where 4: "expire_passes st3 now ms = (c4, st4)" by force
  obtain c5 st5 where 5: "settle_frozen_cohort st4 profile scid now = Some (c5, st5)"
    using settle_total by blast
  have "expire_state profile scid st now
      = Some (bump_or_erase (c1 \<or> c2 \<or> c3 \<or> c4 \<or> c5) st5)"
    using False by (simp add: expire_state_def ms_def [symmetric] 1 2 3 4 5)
  moreover note s1 = expire_challenges_sound [OF inv 1]
  moreover note s2 = expire_members_sound [OF sound_pass_inv [OF s1] 2]
  moreover note s3 = settle_sound [OF sound_pass_inv [OF s2] 3]
  moreover note s4 = expire_passes_sound [OF sound_pass_inv [OF s3] 4]
  moreover note s5 = settle_sound [OF sound_pass_inv [OF s4] 5]
  ultimately show ?thesis
    using bump_or_erase_step [OF sound_pass_trans [OF s1 sound_pass_trans [OF s2
      sound_pass_trans [OF s3 sound_pass_trans [OF s4 s5]]]]] by blast
qed

section \<open>Transitions\<close>

text \<open>What a preview has established about the state it saw.\<close>

fun action_ok :: "mobility_state \<Rightarrow> Action \<Rightarrow> bool" where
  "action_ok st (CacheProposal p tokens refill_ms) \<longleftrightarrow>
     length (ms_results st) + length (ms_proposals st) < 2 \<and> tokens \<le> 2
     \<and> ms_peer_epoch st < po_epoch p"
| "action_ok st (Challenge ca) \<longleftrightarrow> length (ms_candidates st) < 2"
| "action_ok st (CommitLocal epoch loc binding promote entry) \<longleftrightarrow>
     length (ms_results st) + frozen_slots st < 2 \<and> ms_local_epoch st < epoch"
| "action_ok st (Prove candidate_id epoch slot grace response) \<longleftrightarrow>
     (\<exists>ca \<in> set (ms_candidates st). ca_candidate_id ca = candidate_id \<and> ca_epoch ca = epoch
        \<and> ca_slot ca = slot)"
| "action_ok st _ \<longleftrightarrow> True"

definition transition_ok :: "candidate_manager \<Rightarrow> transition \<Rightarrow> bool" where
  "transition_ok m tr \<longleftrightarrow>
     tr_owner_id tr = cm_owner_id m \<longrightarrow>
       tr_generation tr \<le> ms_generation (cm_state m)
       \<and> (tr_generation tr = ms_generation (cm_state m) \<and> \<not> ms_closed (cm_state m) \<longrightarrow>
            action_ok (cm_state m) (tr_action tr))"

lemma action_ok_core: "same_core st st' \<Longrightarrow> action_ok st a \<Longrightarrow> action_ok st' a"
  by (cases a) (auto simp: same_core_def frozen_slots_def)

lemma transition_ok_step:
  assumes "transition_ok m tr" and s: "sound_step ow scid taken (cm_state m) st'"
  shows "transition_ok (m\<lparr>cm_state := st'\<rparr>) tr"
proof -
  have "action_ok st' (tr_action tr)"
    if "tr_owner_id tr = cm_owner_id m" "tr_generation tr = ms_generation st'" "\<not> ms_closed st'"
  proof -
    have "tr_generation tr \<le> ms_generation (cm_state m)" using assms(1) that(1) by (simp add: transition_ok_def)
    with that s have "same_core (cm_state m) st'" "tr_generation tr = ms_generation (cm_state m)"
      "\<not> ms_closed (cm_state m)" by (auto simp: sound_step_def)
    with assms(1) that show ?thesis by (auto simp: transition_ok_def intro: action_ok_core)
  qed
  with assms show ?thesis by (auto simp: transition_ok_def sound_step_def)
qed

lemma min_2_le: "ucast (min (x :: u64) 2) \<le> (2 :: u8)"
proof -
  have "min x 2 = 0 \<or> min x 2 = 1 \<or> min x 2 = 2"
  proof -
    have "unat (min x 2) \<le> unat (2 :: u64)" unfolding word_le_nat_alt [symmetric] by (rule min.cobounded2)
    then have "unat (min x 2) = 0 \<or> unat (min x 2) = 1 \<or> unat (min x 2) = 2" by auto
    then show ?thesis by (simp add: word_unat_eq_iff)
  qed
  then show ?thesis by auto
qed

lemma pred_le_2: "t \<noteq> 0 \<Longrightarrow> t \<le> 2 \<Longrightarrow> t - 1 \<le> 2" for t :: u8
  by (simp add: word_le_nat_alt unat_minus_one)

lemma preview_action_ok:
  assumes inv: "mobility_inv ow scid taken (cm_state m)" 
    and "preview_action c m control binding now = Inr a"
  shows "action_ok (cm_state m) a"
proof (cases control)
  case (LocUpdate i ol nl e nb vf s sig)
  with assms(2) show ?thesis
    by (auto simp: preview_action_def preview_loc_update_def Let_def and_then_Inr mobility_limits
        refilled_def min_2_le pred_le_2 not_le split: if_splits option.splits prod.splits)
next
  case (BindProbe i l e s n)
  with assms show ?thesis
    by (auto simp: preview_action_def preview_bind_probe_def Let_def mobility_limits mobility_inv_def
        bounded_state_def split: if_splits option.splits)
next
  case (BindResponse i l e s x t)
  with assms(2) show ?thesis
    by (auto simp: preview_action_def preview_bind_response_def Let_def and_then_Inr
        same_candidate_def dest!: find_Some_in split: if_splits option.splits)
next
  case (BindChallenge i l e s x t)
  with assms(2) show ?thesis
    by (auto simp: preview_action_def preview_bind_challenge_def and_then_Inr split: option.splits)
next
  case (CandidateResult i e s r)
  with assms show ?thesis
    by (auto simp: preview_action_def preview_candidate_result_def Let_def and_then_Inr mobility_limits
        mobility_inv_def epochs_ahead_def dest!: find_Some_in split: if_splits option.splits)
qed

lemma filter_outbound_inv:
  "mobility_inv ow scid taken st \<Longrightarrow>
     mobility_inv ow scid taken (st\<lparr>ms_outbound := filter P (ms_outbound st)\<rparr>)"
  using shrinks_sound [OF _ shrinks_update(5), of ow scid taken st True P] by (simp add: sound_pass_def)

lemma admit_profile3_inv:
  "mobility_inv ow scid taken st \<Longrightarrow> mobility_inv ow scid taken (admit_profile3 st scid b ll pl e)"
  by (cases "ms_frozen_cohort st")
    (simp_all add: mobility_inv_def bounded_state_def epochs_ahead_def admit_profile3_once)

lemma commit_local_step:
  assumes inv: "mobility_inv ow scid taken st" and a: "action_ok st (CommitLocal e loc b pr entry)"
    and st': "st' = commit_local profile scid st e loc b pr entry"
  shows "mobility_inv ow scid taken st' \<and> advances st st' \<and> ms_closed st' = ms_closed st"
proof -
  define st1 where "st1 = st\<lparr>ms_results := ms_results st @ [entry]\<rparr>"
  have 1: "mobility_inv ow scid taken st1" using results_room inv a by (simp add: st1_def)
  have same: "advances st st1" "ms_closed st1 = ms_closed st" by (simp_all add: st1_def advances_def)
  consider (keep) "\<not> pr" | (three) "pr" "profile = 3" | (move) "pr" "profile \<noteq> 3" by blast
  then show ?thesis
  proof cases
    case keep
    with 1 same show ?thesis
      by (simp add: st' commit_local_def st1_def [symmetric] filter_outbound_inv)
        (simp add: advances_def)
  next
    case three
    define st3 where "st3 = admit_profile3 st1 scid b loc (ms_peer_loc st1) e"
    have 3: "mobility_inv ow scid taken st3" using 1 by (simp add: st3_def admit_profile3_inv)
    then have "mobility_inv ow scid taken (st3\<lparr>ms_proposals := [], ms_candidates := [], ms_outbound := [],
        ms_results := [], ms_frozen_cohort := None, ms_candidate_secret := None\<rparr>)"
      by (simp add: mobility_inv_defs)
    with three 3 same show ?thesis
      by (simp add: st' commit_local_def st1_def [symmetric] st3_def [symmetric] filter_outbound_inv Let_def)
        (simp add: advances_def st3_def)
  next
    case move
    have e: "ms_local_epoch st < e" using a by simp
    have "mobility_inv ow scid taken st'"
      using 1 move by (cases "ms_frozen_cohort st1")
        (auto simp: st' commit_local_def st1_def [symmetric] Let_def mobility_inv_defs intro: length_filter_bound)
    with move e same show ?thesis
      by (simp add: st' commit_local_def Let_def) (simp add: advances_def)
  qed
qed

lemma prove_step:
  assumes inv: "mobility_inv ow scid taken st" and a: "action_ok st (Prove i e s g r)"
  shows "\<exists>st'. prove_candidate profile scid st i e s g r = Some st'
    \<and> mobility_inv ow scid taken st' \<and> advances st st' \<and> ms_closed st' = ms_closed st"
proof -
  obtain k where k: "position (\<lambda>ca. ca_candidate_id ca = i \<and> ca_epoch ca = e \<and> ca_slot ca = s)
      (ms_candidates st) = Some k"
    using a by (cases "position (\<lambda>ca. ca_candidate_id ca = i \<and> ca_epoch ca = e \<and> ca_slot ca = s)
      (ms_candidates st)") (auto simp: position_None)
  define st1 where "st1 = st\<lparr>ms_candidates := (ms_candidates st)
    [k := (ms_candidates st ! k)\<lparr>ca_state := Proven, ca_response := Some r\<rparr>]\<rparr>"
  define st2 where "st2 = (if ms_frozen_cohort st1 = None \<and> max_epoch (ms_proposals st1) = Some e
    then st1\<lparr>ms_frozen_cohort := Some (e, filter (\<lambda>p. po_epoch p = e) (ms_proposals st1))\<rparr> else st1)"
  have s1: "sound_pass ow scid taken st True st1"
    unfolding st1_def by (rule shrinks_sound [OF inv shrinks_update(4)]) simp_all
  have s2: "sound_pass ow scid taken st1 True st2"
  proof (cases "ms_frozen_cohort st1 = None \<and> max_epoch (ms_proposals st1) = Some e")
    case True
    then have "\<exists>p \<in> set (ms_proposals st1). po_epoch p = e" using max_epoch_Some by blast
    with freeze_sound [OF sound_pass_inv [OF s1]] True show ?thesis by (simp add: st2_def)
  next
    case False
    then have "st2 = st1" unfolding st2_def by (rule if_not_P)
    with sound_pass_refl [OF sound_pass_inv [OF s1]] show ?thesis by simp
  qed
  obtain b st' where st': "settle_frozen_cohort st2 profile scid g = Some (b, st')"
    using settle_total by blast
  note s3 = settle_sound [OF sound_pass_inv [OF s2] st']
  have "prove_candidate profile scid st i e s g r = Some st'"
    using st' unfolding st2_def st1_def by (simp add: prove_candidate_def k Let_def)
  with sound_pass_trans [OF s1 sound_pass_trans [OF s2 s3]] show ?thesis
    by (simp add: sound_pass_def)
qed

lemma cache_step:
  assumes inv: "mobility_inv ow scid taken st" and a: "action_ok st (CacheProposal p tokens refl_ms)"
    and st': "st' = st\<lparr>ms_proposal_tokens := tokens, ms_proposal_refill_ms := refl_ms,
      ms_proposals := ms_proposals st @ [p]\<rparr>"
  shows "mobility_inv ow scid taken st' \<and> advances st st' \<and> ms_closed st' = ms_closed st"
proof (cases "ms_frozen_cohort st")
  case None
  with a inv show ?thesis by (auto simp: st' mobility_inv_defs advances_def)
next
  case (Some fc)
  have "length (filter (\<lambda>p. fst fc < po_epoch p) (ms_proposals st)) \<le> length (ms_proposals st)" by simp
  moreover have "length (ms_results st) + length (ms_proposals st) < 2" "length (snd fc) \<le> 2"
    using a inv Some by (simp_all add: mobility_inv_def bounded_state_def split_def)
  ultimately have "length (ms_results st) + length (snd fc)
      + length (filter (\<lambda>p. fst fc < po_epoch p) (ms_proposals st)) \<le> 5" by linarith
  with a inv Some show ?thesis
    by (cases fc) (auto simp: st' mobility_inv_defs advances_def)
qed

lemma apply_step:
  assumes inv: "mobility_inv ow scid taken st" and a: "action_ok st (tr_action tr)"
    and scid: "cm_scid m = scid"
  shows "\<exists>r st'. apply_after_replay m st tr = Some (r, st') \<and> sound_step ow scid taken st st'"
proof -
  have "\<exists>st'. apply_action (cm_profile m) scid st (tr_action tr) = Some st'
      \<and> mobility_inv ow scid taken st' \<and> advances st st' \<and> ms_closed st' = ms_closed st
      \<and> (\<not> mutates (tr_action tr) \<longrightarrow> st' = st)"
  proof (cases "tr_action tr")
    case (CacheProposal p tokens refl_ms)
    with cache_step [OF inv] a show ?thesis by (simp add: apply_action_def)
  next
    case (Challenge ca)
    with a inv show ?thesis
      by (cases "ms_frozen_cohort st") (auto simp: apply_action_def mobility_inv_defs advances_def)
  next
    case (CommitLocal e loc b pr entry)
    with commit_local_step [OF inv _ refl] a show ?thesis by (simp add: apply_action_def)
  next
    case (Prove i e s g r)
    with prove_step [OF inv] a show ?thesis by (simp add: apply_action_def)
  qed (use inv in \<open>simp_all add: apply_action_def\<close>)
  then obtain st' where st': "apply_action (cm_profile m) scid st (tr_action tr) = Some st'"
    and s: "mobility_inv ow scid taken st'" "advances st st'" "ms_closed st' = ms_closed st"
      "\<not> mutates (tr_action tr) \<Longrightarrow> st' = st" by blast
  show ?thesis
  proof (cases "checked_add (ms_generation st) 1")
    case None
    with st' s inv show ?thesis by (auto simp: apply_after_replay_def sound_step_def scid)
  next
    case (Some g)
    then have "ms_generation st < g" by (auto simp: checked_Suc less_Suc_word)
    with Some st' s inv show ?thesis
      by (auto simp: apply_after_replay_def sound_step_def scid generation_inv advances_def)
  qed
qed

section \<open>Runs\<close>

text \<open>
  One call after another on a manager, in any order and at any times. The world holds the
  manager, the transitions that have been previewed and not yet committed, and the Profile-3
  admissions handed out so far. A commit may present a transition of its own list or one of
  another manager.
\<close>

type_synonym mobility_world = "candidate_manager \<times> transition list \<times> profile3_admission list"

inductive mobility_step :: "crypto \<Rightarrow> mobility_world \<Rightarrow> mobility_world \<Rightarrow> bool" for c where
  propose: "CandidateManager_propose_local c m i loc e s now = (r, m') \<Longrightarrow>
    mobility_step c (m, trs, taken) (m', trs, taken)"
| probe: "CandidateManager_make_probe m i b n now = (r, m') \<Longrightarrow>
    mobility_step c (m, trs, taken) (m', trs, taken)"
| preview: "CandidateManager_preview_protected c live m pt b pf now = Inr tr \<Longrightarrow>
    mobility_step c (m, trs, taken) (m, tr # trs, taken)"
| preview3: "CandidateManager_preview_profile3 c m pt b pf3 now = Inr tr \<Longrightarrow>
    mobility_step c (m, trs, taken) (m, tr # trs, taken)"
| commit: "tr \<in> set trs \<or> tr_owner_id tr \<noteq> cm_owner_id m \<Longrightarrow>
    CandidateManager_commit_protected m tr x = Some (r, m', x') \<Longrightarrow>
    mobility_step c (m, trs, taken) (m', remove1 tr trs, taken)"
| commit_client: "tr \<in> set trs \<or> tr_owner_id tr \<noteq> cm_owner_id m \<Longrightarrow>
    CandidateManager_commit_protected_client m tr xc = Some (r, m', xc') \<Longrightarrow>
    mobility_step c (m, trs, taken) (m', remove1 tr trs, taken)"
| commit_server: "tr \<in> set trs \<or> tr_owner_id tr \<noteq> cm_owner_id m \<Longrightarrow>
    CandidateManager_commit_protected_server m tr xs scid now = Some (r, m', xs') \<Longrightarrow>
    mobility_step c (m, trs, taken) (m', remove1 tr trs, taken)"
| commit3: "tr \<in> set trs \<or> tr_owner_id tr \<noteq> cm_owner_id m \<Longrightarrow>
    CandidateManager_commit_profile3 m tr x = Some (r, m', x') \<Longrightarrow>
    mobility_step c (m, trs, taken) (m', remove1 tr trs, taken)"
| expire: "CandidateManager_expire m now = Some m' \<Longrightarrow>
    mobility_step c (m, trs, taken) (m', trs, taken)"
| close: "mobility_step c (m, trs, taken) (CandidateManager_close m, trs, taken)"
| take_results: "CandidateManager_take_results m = (rs, m') \<Longrightarrow>
    mobility_step c (m, trs, taken) (m', trs, taken)"
| take_admissions: "CandidateManager_take_profile3_admissions m = (as, m') \<Longrightarrow>
    mobility_step c (m, trs, taken) (m', trs, taken @ as)"

definition same_manager :: "candidate_manager \<Rightarrow> candidate_manager \<Rightarrow> bool" where
  "same_manager m m' \<longleftrightarrow> m' = m\<lparr>cm_state := cm_state m'\<rparr>"

lemma propose_step:
  assumes inv: "mobility_inv ow scid taken (cm_state m)"
    and p: "CandidateManager_propose_local c m i loc e s now = (r, m')"
  shows "same_manager m m' \<and> sound_step ow scid taken (cm_state m) (cm_state m')"
proof -
  have push: "mobility_inv ow scid taken (cm_state m\<lparr>ms_outbound := ms_outbound (cm_state m) @ [oc]\<rparr>)"
    if "length (ms_outbound (cm_state m)) \<noteq> 2" "ms_local_epoch (cm_state m) < oc_epoch oc" for oc
    using inv that by (cases "ms_frozen_cohort (cm_state m)") (auto simp: mobility_inv_defs)
  show ?thesis
    using p inv
    by (auto simp: CandidateManager_propose_local_def Let_def same_manager_def sound_step_def
        mobility_limits not_le generation_inv checked_Suc less_Suc_word intro!: push
        split: if_splits option.splits sum.splits)
      (auto simp: advances_def same_core_def less_imp_le less_Suc_word)
qed

lemma probe_step:
  assumes inv: "mobility_inv ow scid taken (cm_state m)"
    and p: "CandidateManager_make_probe m i b n now = (r, m')"
  shows "same_manager m m' \<and> sound_step ow scid taken (cm_state m) (cm_state m')"
proof -
  have upd: "mobility_inv ow scid taken (cm_state m\<lparr>ms_outbound :=
      (ms_outbound (cm_state m))[k := (ms_outbound (cm_state m) ! k)\<lparr>oc_binding := Some b\<rparr>]\<rparr>)"
    if "position Q (ms_outbound (cm_state m)) = Some k" for k Q
    using inv position_Some [OF that]
    by (cases "ms_frozen_cohort (cm_state m)")
      (auto simp: mobility_inv_defs dest: subsetD [OF set_update_subset_insert])
  show ?thesis
    using p inv
    by (auto simp: CandidateManager_make_probe_def Let_def same_manager_def sound_step_def
        intro: upd split: if_splits option.splits)
      (auto simp: advances_def same_core_def)
qed

lemma preview_inner_ok:
  assumes "mobility_inv ow scid taken (cm_state m)"
    and "CandidateManager_preview_inner c m pt b now pp p3 = Inr tr"
  shows "transition_ok m tr"
  using assms preview_action_ok
  by (auto simp: CandidateManager_preview_inner_def and_then_Inr transition_ok_def split: if_splits)

text \<open>
  A commit leaves the manager alone or applies a transition of this manager's own generation.
\<close>

lemma commit_protected_replay_cases:
  assumes "CandidateManager_commit_protected_replay m tr x f = res"
  shows "(\<exists>e x'. res = Some (Inl e, m, x'))
    \<or> (tr_owner_id tr = cm_owner_id m \<and> tr_generation tr = ms_generation (cm_state m)
       \<and> \<not> ms_closed (cm_state m)
       \<and> (\<exists>x'. res = map_option (\<lambda>(r, st'). (r, m\<lparr>cm_state := st'\<rparr>, x'))
            (apply_after_replay m (cm_state m) (tr\<lparr>tr_protected_proof := None\<rparr>))))"
  using assms
  by (auto simp: CandidateManager_commit_protected_replay_def Let_def
      split: if_splits option.splits sum.splits prod.splits)

lemma commit_profile3_cases:
  assumes "CandidateManager_commit_profile3 m tr x = res"
  shows "(\<exists>e x'. res = Some (Inl e, m, x'))
    \<or> (tr_owner_id tr = cm_owner_id m \<and> tr_generation tr = ms_generation (cm_state m)
       \<and> \<not> ms_closed (cm_state m)
       \<and> (\<exists>x'. res = map_option (\<lambda>(r, st'). (r, m\<lparr>cm_state := st'\<rparr>, x'))
            (apply_after_replay m (cm_state m) (tr\<lparr>tr_profile3_proof := None\<rparr>))))"
  using assms
  by (auto simp: CandidateManager_commit_profile3_def Let_def
      split: if_splits option.splits sum.splits prod.splits)

lemma sound_step_refl: "mobility_inv ow scid taken st \<Longrightarrow> sound_step ow scid taken st st"
  by (simp add: sound_step_def)

lemma commit_step:
  assumes inv: "mobility_inv ow (cm_scid m) taken (cm_state m)" and tr: "transition_ok m tr"
    and "(\<exists>e x'. res = Some (Inl e, m, x'))
    \<or> (tr_owner_id tr = cm_owner_id m \<and> tr_generation tr = ms_generation (cm_state m)
       \<and> \<not> ms_closed (cm_state m) \<and> tr_action tr' = tr_action tr
       \<and> (\<exists>x'. res = map_option (\<lambda>(r, st'). (r, m\<lparr>cm_state := st'\<rparr>, x'))
            (apply_after_replay m (cm_state m) tr')))"
  shows "\<exists>r m' x'. res = Some (r, m', x') \<and> same_manager m m'
    \<and> sound_step ow (cm_scid m) taken (cm_state m) (cm_state m')"
  using assms(3)
proof (elim disjE conjE exE)
  fix e x' assume "res = Some (Inl e, m, x')"
  with inv show ?thesis by (auto simp: same_manager_def sound_step_refl)
next
  fix x' assume own: "tr_owner_id tr = cm_owner_id m" "tr_generation tr = ms_generation (cm_state m)"
    "\<not> ms_closed (cm_state m)" "tr_action tr' = tr_action tr"
    and res: "res = map_option (\<lambda>(r, st'). (r, m\<lparr>cm_state := st'\<rparr>, x'))
            (apply_after_replay m (cm_state m) tr')"
  have "action_ok (cm_state m) (tr_action tr')" using tr own by (simp add: transition_ok_def)
  from apply_step [OF inv this refl] res show ?thesis by (auto simp: same_manager_def)
qed

lemma commit_protected_replay_step:
  assumes "mobility_inv ow (cm_scid m) taken (cm_state m)" "transition_ok m tr"
  shows "\<exists>r m' x'. CandidateManager_commit_protected_replay m tr x f = Some (r, m', x')
    \<and> same_manager m m' \<and> sound_step ow (cm_scid m) taken (cm_state m) (cm_state m')"
  by (rule commit_step [OF assms, of _ "tr\<lparr>tr_protected_proof := None\<rparr>"])
    (use commit_protected_replay_cases [OF refl, of m tr x f] in auto)

lemma commit_profile3_step:
  assumes "mobility_inv ow (cm_scid m) taken (cm_state m)" "transition_ok m tr"
  shows "\<exists>r m' x'. CandidateManager_commit_profile3 m tr x = Some (r, m', x')
    \<and> same_manager m m' \<and> sound_step ow (cm_scid m) taken (cm_state m) (cm_state m')"
  by (rule commit_step [OF assms, of _ "tr\<lparr>tr_profile3_proof := None\<rparr>"])
    (use commit_profile3_cases [OF refl, of m tr x] in auto)

lemma foreign_ok: "tr_owner_id tr \<noteq> cm_owner_id m \<Longrightarrow> transition_ok m tr"
  by (simp add: transition_ok_def)

definition world_inv :: "admission_owner option \<Rightarrow> mobility_world \<Rightarrow> bool" where
  "world_inv ow w \<longleftrightarrow> (case w of (m, trs, taken) \<Rightarrow>
     mobility_inv ow (cm_scid m) taken (cm_state m) \<and> (\<forall>tr \<in> set trs. transition_ok m tr))"

lemma transition_ok_same:
  assumes "transition_ok m tr" "same_core (cm_state m) st'"
    and "ms_generation st' = ms_generation (cm_state m)" "ms_closed st' = ms_closed (cm_state m)"
  shows "transition_ok (m\<lparr>cm_state := st'\<rparr>) tr"
  using assms action_ok_core by (auto simp: transition_ok_def)

lemma same_managerD: "same_manager m m' \<Longrightarrow> m' = m\<lparr>cm_state := cm_state m'\<rparr> \<and> cm_scid m' = cm_scid m"
  unfolding same_manager_def by (metis candidate_manager.select_convs(5) candidate_manager.surjective
      candidate_manager.update_convs(9))

lemma world_inv_step:
  assumes w: "world_inv ow (m, trs, taken)"
    and s: "same_manager m m'" "sound_step ow (cm_scid m) taken (cm_state m) (cm_state m')"
    and sub: "set trs' \<subseteq> set trs"
  shows "world_inv ow (m', trs', taken) \<and> same_manager m m' \<and> advances (cm_state m) (cm_state m')"
proof -
  have m': "m' = m\<lparr>cm_state := cm_state m'\<rparr>" "cm_scid m' = cm_scid m" using same_managerD [OF s(1)] by auto
  have "transition_ok m' tr" if "tr \<in> set trs'" for tr
    using transition_ok_step [OF _ s(2), of tr] that w sub m'(1) by (auto simp: world_inv_def)
  with s m'(2) show ?thesis by (simp add: world_inv_def sound_step_def)
qed

lemma close_step:
  "mobility_inv ow scid taken (cm_state m) \<Longrightarrow>
     same_manager m (CandidateManager_close m)
     \<and> sound_step ow scid taken (cm_state m) (cm_state (CandidateManager_close m))"
proof -
  have "g \<le> saturating_add g 1" for g :: u64
    using unsigned_less [of g, where 'a = nat] by (simp add: word_le_nat_alt unat_saturating_add)
  then show "mobility_inv ow scid taken (cm_state m) \<Longrightarrow> ?thesis"
    using erase_inv by (auto simp: CandidateManager_close_def Let_def same_manager_def sound_step_def generation_inv
        erase_state_def advances_def)
qed

lemma world_inv_own:
  assumes "world_inv ow (m, trs, taken)" "tr \<in> set trs \<or> tr_owner_id tr \<noteq> cm_owner_id m"
  shows "mobility_inv ow (cm_scid m) taken (cm_state m)" "transition_ok m tr"
  using assms by (auto simp: world_inv_def foreign_ok)

lemma commit_world:
  assumes w: "world_inv ow (m, trs, taken)" "tr \<in> set trs \<or> tr_owner_id tr \<noteq> cm_owner_id m"
    and "CandidateManager_commit_protected_replay m tr x f = Some (r, m', x')"
  shows "world_inv ow (m', remove1 tr trs, taken) \<and> same_manager m m'
    \<and> advances (cm_state m) (cm_state m')"
  using commit_protected_replay_step [OF world_inv_own [OF w], of x f] assms(3)
  by (intro world_inv_step [OF w(1)]) (auto dest: notin_set_remove1 subsetD [OF set_remove1_subset])

lemma commit_profile3_world:
  assumes w: "world_inv ow (m, trs, taken)" "tr \<in> set trs \<or> tr_owner_id tr \<noteq> cm_owner_id m"
    and "CandidateManager_commit_profile3 m tr x = Some (r, m', x')"
  shows "world_inv ow (m', remove1 tr trs, taken) \<and> same_manager m m'
    \<and> advances (cm_state m) (cm_state m')"
  using commit_profile3_step [OF world_inv_own [OF w], of x] assms(3)
  by (intro world_inv_step [OF w(1)]) (auto dest: notin_set_remove1 subsetD [OF set_remove1_subset])

lemma take_results_step:
  assumes "mobility_inv ow scid taken st"
  shows "sound_step ow scid taken st (st\<lparr>ms_emitted_results := []\<rparr>)"
proof -
  have "bounded_state (st\<lparr>ms_emitted_results := []\<rparr>)"
    using assms by (cases "ms_frozen_cohort st") (simp_all add: mobility_inv_def bounded_state_def)
  with assms show ?thesis
    by (simp add: sound_step_def mobility_inv_def epochs_ahead_def owner_once_def advances_def same_core_def)
qed

lemma take_admission_inv:
  assumes "mobility_inv ow scid taken st"
  shows "mobility_inv ow scid (taken @ (case ms_profile3_admission st of None \<Rightarrow> [] | Some a \<Rightarrow> [a]))
    (st\<lparr>ms_profile3_admission := None\<rparr>)"
proof -
  have "bounded_state (st\<lparr>ms_profile3_admission := None\<rparr>)"
    using assms by (cases "ms_frozen_cohort st") (simp_all add: mobility_inv_def bounded_state_def)
  moreover have "epochs_ahead (st\<lparr>ms_profile3_admission := None\<rparr>)"
    using assms by (simp add: mobility_inv_def epochs_ahead_def)
  moreover have "owner_once ow scid
      (taken @ (case ms_profile3_admission st of None \<Rightarrow> [] | Some a \<Rightarrow> [a]))
      (st\<lparr>ms_profile3_admission := None\<rparr>)"
    using assms by (cases "ms_profile3_admission st") (auto simp: mobility_inv_def owner_once_def)
  ultimately show ?thesis by (simp add: mobility_inv_def)
qed

lemma mobility_step_inv:
  assumes "mobility_step c w w'" and "world_inv ow w"
  shows "world_inv ow w' \<and> same_manager (fst w) (fst w')
    \<and> advances (cm_state (fst w)) (cm_state (fst w'))"
  using assms
proof (induction rule: mobility_step.induct)
  case (propose m i loc e s now r m' trs taken)
  then have "mobility_inv ow (cm_scid m) taken (cm_state m)" by (simp add: world_inv_def)
  from propose_step [OF this propose.hyps] world_inv_step [OF propose.prems, of m' trs] show ?case by simp
next
  case (probe m i b n now r m' trs taken)
  then have "mobility_inv ow (cm_scid m) taken (cm_state m)" by (simp add: world_inv_def)
  from probe_step [OF this probe.hyps] world_inv_step [OF probe.prems, of m' trs] show ?case by simp
next
  case (preview live m pt b pf now tr trs taken)
  then show ?case
    using preview_inner_ok
    by (auto simp: world_inv_def same_manager_def CandidateManager_preview_protected_def split: if_splits)
next
  case (preview3 m pt b pf3 now tr trs taken)
  then show ?case
    using preview_inner_ok
    by (auto simp: world_inv_def same_manager_def CandidateManager_preview_profile3_def split: if_splits)
next
  case (commit tr trs m x r m' x' taken)
  then show ?case by (simp add: CandidateManager_commit_protected_def commit_world)
next
  case (commit_client tr trs m xc r m' xc' taken)
  then show ?case by (simp add: CandidateManager_commit_protected_client_def commit_world)
next
  case (commit_server tr trs m xs scid now r m' xs' taken)
  then show ?case by (simp add: CandidateManager_commit_protected_server_def commit_world)
next
  case (commit3 tr trs m x r m' x' taken)
  then show ?case by (simp add: commit_profile3_world)
next
  case (expire m now m' trs taken)
  then have "mobility_inv ow (cm_scid m) taken (cm_state m)" by (simp add: world_inv_def)
  from expire_step [OF this, of "cm_profile m" now] expire.hyps obtain st'
    where "m' = m\<lparr>cm_state := st'\<rparr>" "sound_step ow (cm_scid m) taken (cm_state m) st'"
    by (auto simp: CandidateManager_expire_def)
  with world_inv_step [OF expire.prems, of m' trs] show ?case by (simp add: same_manager_def)
next
  case (close m trs taken)
  then have "mobility_inv ow (cm_scid m) taken (cm_state m)" by (simp add: world_inv_def)
  from close_step [OF this] world_inv_step [OF close, of _ trs] show ?case by simp
next
  case (take_results m rs m' trs taken)
  then have m': "m' = m\<lparr>cm_state := (cm_state m)\<lparr>ms_emitted_results := []\<rparr>\<rparr>"
    by (simp add: CandidateManager_take_results_def)
  have "mobility_inv ow (cm_scid m) taken (cm_state m)" using take_results by (simp add: world_inv_def)
  from take_results_step [OF this] world_inv_step [OF take_results.prems, of m' trs] show ?case
    by (simp add: m' same_manager_def)
next
  case (take_admissions m as m' trs taken)
  then have inv: "mobility_inv ow (cm_scid m) taken (cm_state m)" and tr: "\<forall>tr \<in> set trs. transition_ok m tr"
    by (simp_all add: world_inv_def)
  show ?case
  proof (cases "ms_emitted_results (cm_state m) = []")
    case True
    then have m': "m' = m\<lparr>cm_state := (cm_state m)\<lparr>ms_profile3_admission := None\<rparr>\<rparr>"
      "as = (case ms_profile3_admission (cm_state m) of None \<Rightarrow> [] | Some a \<Rightarrow> [a])"
      using take_admissions.hyps by (auto simp: CandidateManager_take_profile3_admissions_def)
    have "transition_ok m' tr" if "tr \<in> set trs" for tr
      unfolding m' by (rule transition_ok_same) (use tr that in \<open>simp_all add: same_core_def\<close>)
    with take_admission_inv [OF inv] show ?thesis
      by (simp add: world_inv_def m'(2)) (simp add: m'(1) same_manager_def advances_def)
  next
    case False
    then show ?thesis
      using take_admissions by (simp add: CandidateManager_take_profile3_admissions_def same_manager_def)
  qed
qed

interpretation mobility: preserved "mobility_step c" "world_inv ow"
  by unfold_locales (use mobility_step_inv in blast)

lemma new_world_inv:
  "CandidateManager_new_inner c cfg owner rb n = Inr (m, n') \<Longrightarrow> world_inv owner (m, [], [])"
  by (auto simp: CandidateManager_new_inner_def world_inv_def mobility_inv_defs initial_state_def
      split: if_splits option.splits)

end
