(* ===== verification/Mobility_Run.thy ===== *)
theory Mobility_Run
  imports Mobility_Safety
begin

text \<open>
  The properties of the candidate manager over its runs, with a concrete manager
  (\<open>sample_manager\<close>) and the controls its peer sends. Two runs of that manager show what the code
  does when one candidate is probed from two addresses, and when results arrive between a proof
  and the settling of its cohort.
\<close>

lemma reachable_inv:
  assumes "CandidateManager_new_inner c cfg owner rb n = Inr (m0, n')"
    and "(mobility_step c)\<^sup>*\<^sup>* (m0, [], []) w"
  shows "world_inv owner w"
  using mobility.run_keeps [OF assms(2)] new_world_inv [OF assms(1)] by blast

section \<open>Samples\<close>

definition sample_mobility_config :: candidate_manager_config where
  "sample_mobility_config = \<lparr>cc_signing = [2], cc_local = sample_identity 2, cc_peer = sample_identity 1,
     cc_profile = 0, cc_scid = 7, cc_policy_id = 9, cc_local_loc = replicate 16 10,
     cc_peer_loc = replicate 16 20, cc_initial_peer_binding = Native 1 (replicate 6 1),
     cc_candidate_secret = replicate 32 5\<rparr>"

definition sample_manager :: candidate_manager where
  "sample_manager = \<lparr>cm_signing = [2], cm_local = sample_identity 2, cm_peer = sample_identity 1,
     cm_profile = 0, cm_scid = 7, cm_policy_id = 9, cm_owner_id = 1,
     cm_protected_replay_binding = Some 1, cm_state = initial_state sample_mobility_config None\<rparr>"

lemma sample_manager_new:
  "CandidateManager_new_inner sample_crypto sample_mobility_config None (Some 1) 1 = Inr (sample_manager, 2)"
  by (simp add: CandidateManager_new_inner_def sample_mobility_config_def sample_manager_def
      sample_identity_ok checked_Suc split: option.split)
    (simp add: sample_crypto_def sample_identity_def)

text \<open>
  One protected control, decrypted by a session with owner number 1: previewed, then committed.
\<close>

definition sample_proof :: "bytes \<Rightarrow> protected_replay_proof" where
  "sample_proof pt = ProtectedPreview_into_replay_proof \<lparr>pp_plaintext = pt,
     pp_commit = \<lparr>rc_counter = 1, rc_generation = 0\<rparr>, pp_receive_owner = 1\<rparr>"

definition deliver ::
    "crypto \<Rightarrow> Control \<times> ObservedBinding \<times> u64 \<Rightarrow> candidate_manager \<Rightarrow> candidate_manager option" where
  "deliver c ev m = (case ev of (ctl, binding, now_ms) \<Rightarrow>
     (case Control_encode ctl of Inl _ \<Rightarrow> None
      | Inr pt \<Rightarrow>
        (case CandidateManager_preview_protected c {1} m pt binding (sample_proof pt) now_ms of
           Inl _ \<Rightarrow> None
         | Inr tr \<Rightarrow>
           (case CandidateManager_commit_protected m tr (sample_session 1) of
              Some (Inr _, m', _) \<Rightarrow> Some m' | _ \<Rightarrow> None))))"

fun deliver_all ::
    "crypto \<Rightarrow> (Control \<times> ObservedBinding \<times> u64) list \<Rightarrow> candidate_manager \<Rightarrow> candidate_manager option" where
  "deliver_all c [] m = Some m"
| "deliver_all c (ev # evs) m = Option.bind (deliver c ev m) (deliver_all c evs)"

lemma deliver_step:
  assumes "deliver c ev m = Some m'"
  shows "(mobility_step c)\<^sup>*\<^sup>* (m, trs, taken) (m', trs, taken)"
proof -
  obtain tr pt b now r x' live where 1: "CandidateManager_preview_protected c live m pt b (sample_proof pt) now = Inr tr"
    and 2: "CandidateManager_commit_protected m tr (sample_session 1) = Some (Inr r, m', x')"
    using assms by (auto simp: deliver_def split: prod.splits sum.splits option.splits)
  have "mobility_step c (m, trs, taken) (m, tr # trs, taken)" by (rule mobility_step.preview [OF 1])
  moreover have "mobility_step c (m, tr # trs, taken) (m', remove1 tr (tr # trs), taken)"
    by (rule mobility_step.commit [OF _ 2]) simp
  ultimately show ?thesis by simp
qed

lemma deliver_all_steps:
  "deliver_all c evs m = Some m' \<Longrightarrow> (mobility_step c)\<^sup>*\<^sup>* (m, trs, taken) (m', trs, taken)"
proof (induction evs arbitrary: m)
  case (Cons ev evs)
  then obtain m1 where "deliver c ev m = Some m1" "deliver_all c evs m1 = Some m'"
    by (auto simp: bind_eq_Some_conv)
  with deliver_step [of c ev m m1 trs taken] Cons.IH [of m1] show ?case by (meson rtranclp_trans)
qed simp

lemma sample_commit:
  obtains x p where "DirectionalSession_commit_protected_replay (sample_session 1) (sample_proof pt) = (Inr (), x, p)"
    "pr_committed p"
proof -
  have "ReplayWindow_check ReplayWindow_new 1 = Inr ()"
    by (simp add: check_refines [OF replay_hist_new] replay_accepts_def)
  then show thesis
    by (intro that [of _ "\<lparr>pr_preview = None, pr_committed = True\<rparr>"]) (simp_all add: DirectionalSession_commit_protected_replay_def sample_session_def
        sample_proof_def ProtectedPreview_into_replay_proof_def Let_def
        ReplayWindow_commit_def ReplayWindow_new_def checked_add_def)
qed

text \<open>What one delivery does, once the control is known to be well formed.\<close>

lemma deliver_eq:
  assumes ctl: "control_ok ctl" and b: "ObservedBinding_validate b = Inr ()"
    and m: "cm_profile m \<noteq> 3" "cm_protected_replay_binding m = Some 1"
      "profile_allows_slot (cm_profile m) (Control_path_slot ctl)"
      "\<not> ms_closed (cm_state m)" "ms_generation (cm_state m) \<noteq> u64_max"
    and a: "preview_action c m ctl b now = Inr a"
      "apply_action (cm_profile m) (cm_scid m) (cm_state m) a = Some st'" "mutates a"
  shows "deliver c (ctl, b, now) m = Some (m\<lparr>cm_state := st'\<lparr>ms_generation := ms_generation (cm_state m) + 1\<rparr>\<rparr>)"
proof -
  obtain pt where pt: "Control_encode ctl = Inr pt" by (simp add: Control_encode_def)
  have parse: "Control_parse pt = Inr ctl" using encode_parse [OF ctl pt] .
  define tr where "tr = \<lparr>tr_generation = ms_generation (cm_state m), tr_owner_id = cm_owner_id m,
    tr_action = a, tr_protected_proof = Some (sample_proof pt), tr_profile3_proof = None\<rparr>"
  have "ProtectedReplayProof_matches_plaintext {1} (sample_proof pt) pt"
    "ProtectedReplayBinding_matches_proof 1 (sample_proof pt)"
    by (simp_all add: ProtectedReplayProof_matches_plaintext_def ProtectedReplayBinding_matches_proof_def
        sample_proof_def ProtectedPreview_into_replay_proof_def ProtectedPreview_plaintext_def)
  then have preview: "CandidateManager_preview_protected c {1} m pt b (sample_proof pt) now = Inr tr"
    using m a(1) b parse
    by (simp add: CandidateManager_preview_protected_def CandidateManager_preview_inner_def slot1_done_def tr_def)
  have next_gen: "checked_add (ms_generation (cm_state m)) 1 = Some (ms_generation (cm_state m) + 1)"
    using m by (simp add: checked_Suc)
  obtain x p where "DirectionalSession_commit_protected_replay (sample_session 1) (sample_proof pt) = (Inr (), x, p)"
    "pr_committed p" by (rule sample_commit)
  then have "CandidateManager_commit_protected m tr (sample_session 1)
      = Some (Inr (), m\<lparr>cm_state := st'\<lparr>ms_generation := ms_generation (cm_state m) + 1\<rparr>\<rparr>, x)"
    using m a next_gen
    by (simp add: CandidateManager_commit_protected_def CandidateManager_commit_protected_replay_def
        tr_def apply_after_replay_def Let_def)
  with preview pt show ?thesis by (simp add: deliver_def)
qed

text \<open>The peer of \<open>sample_manager\<close> moves: an update, a probe, and the answer to a challenge.\<close>

definition sample_update :: "u8 \<Rightarrow> u64 \<Rightarrow> Control" where
  "sample_update i e = LocUpdate (replicate 16 i) (replicate 16 20) (replicate 16 30) e 0 5000 0
     (pad 64 (pad 32 [1] @ ascii ''R8 LOC_UPDATE v1'' @ [SESSION_VERSION, 0] @ u64_to_be_bytes 7
       @ id_eid (sample_identity 1) @ id_eid (sample_identity 2) @ replicate 16 20 @ replicate 16 30
       @ u64_to_be_bytes e @ u64_to_be_bytes 0 @ u64_to_be_bytes 5000 @ replicate 16 i @ [0]))"

definition sample_probe :: "u8 \<Rightarrow> u64 \<Rightarrow> Control" where
  "sample_probe i e = BindProbe (replicate 16 i) (replicate 16 30) e 0 (replicate 16 9)"

definition sample_carrier :: "u8 \<Rightarrow> ObservedBinding" where
  "sample_carrier i = Native 1 (replicate 6 i)"

definition sample_token :: "u8 \<Rightarrow> u64 \<Rightarrow> ObservedBinding \<Rightarrow> bytes" where
  "sample_token i e b = (case token sample_crypto (replicate 32 5) (incoming_context sample_manager)
     \<lparr>tf_candidate_id = replicate 16 i, tf_loc = replicate 16 30, tf_binding = b, tf_epoch = e,
      tf_path_slot = 0, tf_expiry_ms = 3000\<rparr> of Inl _ \<Rightarrow> [] | Inr t \<Rightarrow> t)"

definition sample_response :: "u8 \<Rightarrow> u64 \<Rightarrow> ObservedBinding \<Rightarrow> Control" where
  "sample_response i e b = BindResponse (replicate 16 i) (replicate 16 30) e 0 3000 (sample_token i e b)"

definition sample_proposal :: "u8 \<Rightarrow> u64 \<Rightarrow> proposal" where
  "sample_proposal i e = \<lparr>po_bytes = (case Control_encode (sample_update i e) of Inr bs \<Rightarrow> bs | Inl _ \<Rightarrow> []),
     po_candidate_id = replicate 16 i, po_loc = replicate 16 30, po_epoch = e, po_slot = 0,
     po_expiry_ms = 5000\<rparr>"

definition sample_candidate :: "u8 \<Rightarrow> u64 \<Rightarrow> ObservedBinding \<Rightarrow> candidate" where
  "sample_candidate i e b = \<lparr>ca_candidate_id = replicate 16 i, ca_loc = replicate 16 30, ca_epoch = e,
     ca_slot = 0, ca_binding = b, ca_expiry_ms = 3000, ca_response = None, ca_state = Challenged\<rparr>"

lemma sample_update_verifies:
  "verify_loc_update sample_crypto (sample_update i e) (incoming_context m) = Inr ()"
  if "cm_profile m = 0" "cm_scid m = 7" "cm_peer m = sample_identity 1" "cm_local m = sample_identity 2"
  using that
  by (simp add: sample_update_def incoming_context_def loc_update_signature_input_def
      profile_allows_slot_def sample_identity_def sample_crypto_def)

lemma sample_token_eq:
  "token sample_crypto (replicate 32 5) (incoming_context m)
     \<lparr>tf_candidate_id = replicate 16 i, tf_loc = replicate 16 30, tf_binding = sample_carrier b,
      tf_epoch = e, tf_path_slot = 0, tf_expiry_ms = 3000\<rparr> = Inr (sample_token i e (sample_carrier b))"
  "length (sample_token i e (sample_carrier b)) = 32"
  if "incoming_context m = incoming_context sample_manager"
proof -
  obtain bs where "token_input (incoming_context sample_manager)
     \<lparr>tf_candidate_id = replicate 16 i, tf_loc = replicate 16 30, tf_binding = sample_carrier b,
      tf_epoch = e, tf_path_slot = 0, tf_expiry_ms = 3000\<rparr> = Inr bs"
    by (simp add: token_input_Inr incoming_context_def sample_manager_def sample_identity_def
        profile_allows_slot_def sample_carrier_def)
  then show "token sample_crypto (replicate 32 5) (incoming_context m)
     \<lparr>tf_candidate_id = replicate 16 i, tf_loc = replicate 16 30, tf_binding = sample_carrier b,
      tf_epoch = e, tf_path_slot = 0, tf_expiry_ms = 3000\<rparr> = Inr (sample_token i e (sample_carrier b))"
    "length (sample_token i e (sample_carrier b)) = 32"
    using that by (simp_all add: token_def sample_token_def sample_crypto_def)
qed

lemma sample_controls_ok:
  "i \<noteq> 0 \<Longrightarrow> control_ok (sample_update i e)" "i \<noteq> 0 \<Longrightarrow> control_ok (sample_probe i e)"
  "i \<noteq> 0 \<Longrightarrow> control_ok (sample_response i e (sample_carrier b))"
  by (simp_all add: control_ok_def sample_update_def sample_probe_def sample_response_def
      sample_token_eq(2) [OF refl])

definition sample_at :: "mobility_state \<Rightarrow> candidate_manager" where
  "sample_at st = sample_manager\<lparr>cm_state := st\<rparr>"

lemma sample_at_simps [simp]:
  "cm_profile (sample_at st) = 0" "cm_scid (sample_at st) = 7" "cm_peer (sample_at st) = sample_identity 1"
  "cm_local (sample_at st) = sample_identity 2" "cm_state (sample_at st) = st"
  "cm_protected_replay_binding (sample_at st) = Some 1" "(sample_at st)\<lparr>cm_state := st'\<rparr> = sample_at st'"
  "incoming_context (sample_at st) = incoming_context sample_manager" "slot1_done (sample_at st) = False"
  by (simp_all add: sample_at_def sample_manager_def incoming_context_def slot1_done_def)

lemma sample_binding_ok [simp]: "ObservedBinding_validate (sample_carrier b) = Inr ()"
  by (simp add: sample_carrier_def)

definition sample_start :: mobility_state where
  "sample_start = initial_state sample_mobility_config None"

lemma sample_manager_at: "sample_manager = sample_at sample_start"
  by (simp add: sample_at_def sample_start_def sample_manager_def)

lemma sample_start_simps [simp]:
  "ms_generation sample_start = 0" "\<not> ms_closed sample_start" "ms_local_epoch sample_start = 0"
  "ms_peer_epoch sample_start = 0" "ms_peer_loc sample_start = replicate 16 20"
  "ms_current_binding sample_start = sample_carrier 1" "ms_old_binding sample_start = None"
  "ms_proposals sample_start = []" "ms_candidates sample_start = []" "ms_results sample_start = []"
  "ms_proposal_tokens sample_start = 2" "ms_proposal_refill_ms sample_start = 0"
  "ms_candidate_secret sample_start = Some (replicate 32 5)" "ms_frozen_cohort sample_start = None"
  "ms_outbound sample_start = []" "ms_emitted_results sample_start = []" "ms_tombstones sample_start = []"
  by (simp_all add: sample_start_def initial_state_def sample_mobility_config_def sample_carrier_def)

text \<open>The sample manager with one proposal and the candidates \<open>cs\<close>, at generation \<open>g\<close>.\<close>

definition sample_moving :: "candidate list \<Rightarrow> u64 \<Rightarrow> mobility_state" where
  "sample_moving cs g = sample_start\<lparr>ms_proposal_tokens := 1, ms_proposals := [sample_proposal 1 1],
     ms_candidates := cs, ms_generation := g\<rparr>"

lemma sample_delivers_update:
  "deliver sample_crypto (sample_update 1 1, sample_carrier 1, 0) (sample_at sample_start)
   = Some (sample_at (sample_moving [] 1))"
proof -
  have "preview_action sample_crypto (sample_at sample_start) (sample_update 1 1) (sample_carrier 1) 0
      = Inr (CacheProposal (sample_proposal 1 1) 1 0)"
    using sample_update_verifies [of "sample_at sample_start" 1 1]
    by (simp add: preview_action_def sample_update_def preview_loc_update_def Let_def refilled_def
        saturating_sub_def saturating_add_def sample_proposal_def Control_encode_def buried_def
        mobility_limits)
  from deliver_eq [OF sample_controls_ok(1) sample_binding_ok _ _ _ _ _ this, of "sample_moving [] 0"]
  show ?thesis
    by (simp add: profile_allows_slot_def apply_action_def sample_update_def sample_moving_def)
qed

lemma sample_delivers_probe:
  assumes "find (same_candidate (replicate 16 1) (replicate 16 30) 1 0 (sample_carrier b)) cs = None"
    and "length cs < 2" and "g \<noteq> u64_max"
  shows "deliver sample_crypto (sample_probe 1 1, sample_carrier b, 0) (sample_at (sample_moving cs g))
   = Some (sample_at (sample_moving (cs @ [sample_candidate 1 1 (sample_carrier b)]) (g + 1)))"
proof -
  have "preview_action sample_crypto (sample_at (sample_moving cs g)) (sample_probe 1 1) (sample_carrier b) 0
      = Inr (Challenge (sample_candidate 1 1 (sample_carrier b)))"
    using assms
    by (simp add: preview_action_def sample_probe_def preview_bind_probe_def Let_def sample_moving_def
        saturating_add_def sample_proposal_def sample_candidate_def CHALLENGE_EXPIRY_MS_def mobility_limits)
  from deliver_eq [OF sample_controls_ok(2) sample_binding_ok _ _ _ _ _ this, of
      "sample_moving (cs @ [sample_candidate 1 1 (sample_carrier b)]) g"] assms(3)
  show ?thesis
    by (simp add: profile_allows_slot_def apply_action_def sample_probe_def sample_moving_def)
qed

lemma sample_binding_inject [simp]: "sample_carrier a = sample_carrier b \<longleftrightarrow> a = b"
  by (simp add: sample_carrier_def numeral_eq_Suc)

lemma sample_candidate_simps [simp]:
  "ca_candidate_id (sample_candidate i e b) = replicate 16 i" "ca_loc (sample_candidate i e b) = replicate 16 30"
  "ca_epoch (sample_candidate i e b) = e" "ca_slot (sample_candidate i e b) = 0"
  "ca_binding (sample_candidate i e b) = b" "ca_expiry_ms (sample_candidate i e b) = 3000"
  "ca_state (sample_candidate i e b) = Challenged" "ca_response (sample_candidate i e b) = None"
  by (simp_all add: sample_candidate_def)

definition sample_answer :: "u8 \<Rightarrow> bind_response_identity" where
  "sample_answer b = \<lparr>br_loc = replicate 16 30, br_binding = sample_carrier b, br_expiry_ms = 3000,
     br_token = sample_token 1 1 (sample_carrier b)\<rparr>"

text \<open>Two addresses probed, \<open>a\<close> first; the answer comes from \<open>b\<close> and marks the first candidate.\<close>

definition sample_misproved :: "u8 \<Rightarrow> u8 \<Rightarrow> mobility_state" where
  "sample_misproved a b = sample_start\<lparr>ms_proposal_tokens := 1, ms_proposals := [sample_proposal 1 1],
     ms_candidates := [(sample_candidate 1 1 (sample_carrier a))
         \<lparr>ca_state := Proven, ca_response := Some (sample_answer b)\<rparr>,
       sample_candidate 1 1 (sample_carrier b)],
     ms_frozen_cohort := Some (1, [sample_proposal 1 1]), ms_generation := 4\<rparr>"

lemma sample_proposal_simps [simp]:
  "po_candidate_id (sample_proposal i e) = replicate 16 i" "po_epoch (sample_proposal i e) = e"
  "po_loc (sample_proposal i e) = replicate 16 30" "po_slot (sample_proposal i e) = 0"
  "po_expiry_ms (sample_proposal i e) = 5000"
  by (simp_all add: sample_proposal_def)

lemma sample_delivers_response:
  assumes "a \<noteq> b"
  shows "deliver sample_crypto (sample_response 1 1 (sample_carrier b), sample_carrier b, 0)
     (sample_at (sample_moving [sample_candidate 1 1 (sample_carrier a),
        sample_candidate 1 1 (sample_carrier b)] 3)) = Some (sample_at (sample_misproved a b))"
proof -
  let ?st = "sample_moving [sample_candidate 1 1 (sample_carrier a), sample_candidate 1 1 (sample_carrier b)] 3"
  have "preview_action sample_crypto (sample_at ?st) (sample_response 1 1 (sample_carrier b)) (sample_carrier b) 0
      = Inr (Prove (replicate 16 1) 1 0 0 (sample_answer b))"
    using assms sample_token_eq(1) [of "sample_at ?st" 1 b 1]
    by (simp add: preview_action_def sample_response_def preview_bind_response_def Let_def sample_moving_def
        cached_result_for_def same_candidate_def max_epoch_def mobility_limits sample_answer_def)
  moreover have "apply_action 0 7 ?st (Prove (replicate 16 1) 1 0 0 (sample_answer b))
      = Some ((sample_misproved a b)\<lparr>ms_generation := 3\<rparr>)"
    by (simp add: apply_action_def prove_candidate_def sample_moving_def Let_def max_epoch_def
        settle_frozen_cohort_def cohort_unsettled_def has_id_def sample_misproved_def)
  ultimately show ?thesis
    using deliver_eq [OF sample_controls_ok(3) sample_binding_ok, of 1 "sample_at ?st" 1 b]
    by (simp add: profile_allows_slot_def sample_response_def sample_moving_def sample_misproved_def)
qed

lemma sample_misproved_expires:
  assumes "a \<noteq> b"
  shows "\<exists>m. CandidateManager_expire (sample_at (sample_misproved a b)) 3000 = Some m
    \<and> ms_current_binding (cm_state m) = sample_carrier a"
proof -
  let ?st = "sample_misproved a b"
  let ?p = "sample_proposal 1 1"
  let ?cs = "[(sample_candidate 1 1 (sample_carrier a))\<lparr>ca_state := Proven, ca_response := Some (sample_answer b)\<rparr>,
     fail_candidate (sample_candidate 1 1 (sample_carrier b))]"
  have 1: "expire_challenges ?st 3000 = (True, ?st\<lparr>ms_candidates := ?cs\<rparr>)"
    by (simp add: expire_challenges_def sample_misproved_def challenge_expired_def)
  have 2: "expire_members (?st\<lparr>ms_candidates := ?cs\<rparr>) 3000 [?p] = (False, ?st\<lparr>ms_candidates := ?cs\<rparr>)"
    by (simp add: expire_member_def has_id_def)
  have w: "cohort_winner (?st\<lparr>ms_candidates := ?cs\<rparr>) [?p] = Some (replicate 16 1)"
    by (simp add: cohort_winner_def cohort_proven_def has_id_def)
  obtain st3 where 3: "settle_frozen_cohort (?st\<lparr>ms_candidates := ?cs\<rparr>) 0 7 3000 = Some (True, st3)"
    and c3: "ms_current_binding st3 = sample_carrier a" "ms_frozen_cohort st3 = None"
      "ms_proposals st3 = []" "ms_candidates st3 = []" "ms_old_binding st3 = Some (sample_carrier 1, 13000)"
      "ms_generation st3 = 4" "ms_outbound st3 = []"
    using w by (simp add: Let_def settle_frozen_cohort_def cohort_unsettled_def has_id_def fail_candidate_def
        mobility_limits sample_misproved_def settle_tail_def mark_settled_def saturating_add_def
        OLD_BINDING_GRACE_MS_def)
  obtain c4 st4 where 4: "expire_passes st3 3000 [?p] = (c4, st4)" by force
  then have "ms_frozen_cohort st4 = None \<and> ms_current_binding st4 = sample_carrier a \<and> ms_generation st4 = 4"
    using c3 by (auto simp: expire_passes_def drop_results_def timeout_failures_def bury_expired_def
        expired_ids_def drop_proposals_def drop_cohort_def freeze_proven_def max_epoch_def drop_failed_def
        drop_outbound_def drop_old_binding_def map_filter_def Let_def split: if_splits)
  moreover from this have 5: "settle_frozen_cohort st4 0 7 3000 = Some (False, st4)"
    by (simp add: settle_frozen_cohort_def)
  moreover have "ms_frozen_cohort ?st = Some (1, [?p])" "\<not> ms_closed ?st"
    by (simp_all add: sample_misproved_def)
  ultimately show ?thesis
    by (simp add: CandidateManager_expire_def expire_state_def 1 2 3 4 bump_or_erase_def checked_add_def
        del: expire_members.simps)
qed

text \<open>
  C39: A binding that never answered can be promoted. A proposal probed from two addresses, first
  \<open>a\<close> and then \<open>b\<close>, has two candidates with one id; the answer to the challenge sent to \<open>b\<close>
  is applied to the first candidate with that id, which is \<open>a\<close>'s. When \<open>b\<close>'s own challenge
  expires three seconds later the cohort settles, and the session's traffic is sent to \<open>a\<close>,
  although the only response came from \<open>b\<close>, with \<open>b\<close>'s token.
\<close>

theorem unproven_binding_promoted:
  "\<exists>m m'. CandidateManager_new_inner sample_crypto sample_mobility_config None (Some 1) 1
         = Inr (sample_manager, 2)
     \<and> deliver_all sample_crypto [(sample_update 1 1, sample_carrier 1, 0),
         (sample_probe 1 1, sample_carrier 7, 0), (sample_probe 1 1, sample_carrier 8, 0),
         (sample_response 1 1 (sample_carrier 8), sample_carrier 8, 0)] sample_manager = Some m
     \<and> CandidateManager_expire m 3000 = Some m'
     \<and> ms_current_binding (cm_state m') = sample_carrier 7"
proof -
  have "deliver_all sample_crypto [(sample_update 1 1, sample_carrier 1, 0),
         (sample_probe 1 1, sample_carrier 7, 0), (sample_probe 1 1, sample_carrier 8, 0),
         (sample_response 1 1 (sample_carrier 8), sample_carrier 8, 0)] sample_manager
       = Some (sample_at (sample_misproved 7 8))"
    by (simp add: sample_manager_at sample_delivers_update sample_delivers_probe same_candidate_def
        sample_delivers_response)
  with sample_misproved_expires [of 7 8] sample_manager_new show ?thesis by auto
qed

section \<open>The result cache\<close>

text \<open>Proposals of two epochs; the older one is answered first, so no cohort is frozen.\<close>

definition sample_two :: "candidate list \<Rightarrow> outbound_candidate list \<Rightarrow> cached_result list \<Rightarrow> u64 \<Rightarrow> mobility_state" where
  "sample_two cs os rs g = sample_start\<lparr>ms_proposal_tokens := 0,
     ms_proposals := [sample_proposal 1 1, sample_proposal 2 2], ms_candidates := cs,
     ms_results := rs, ms_outbound := os, ms_generation := g\<rparr>"

lemma sample_delivers_second:
  "deliver sample_crypto (sample_update 2 2, sample_carrier 1, 0) (sample_at (sample_moving [] 1))
   = Some (sample_at (sample_two [] [] [] 2))"
proof -
  have "preview_action sample_crypto (sample_at (sample_moving [] 1)) (sample_update 2 2) (sample_carrier 1) 0
      = Inr (CacheProposal (sample_proposal 2 2) 0 0)"
    using sample_update_verifies [of "sample_at (sample_moving [] 1)" 2 2]
    by (simp add: preview_action_def sample_update_def preview_loc_update_def Let_def refilled_def
        saturating_sub_def saturating_add_def sample_proposal_def Control_encode_def buried_def
        mobility_limits sample_moving_def)
  from deliver_eq [OF sample_controls_ok(1) sample_binding_ok _ _ _ _ _ this, of "sample_two [] [] [] 1"]
  show ?thesis
    by (simp add: profile_allows_slot_def apply_action_def sample_update_def sample_moving_def sample_two_def)
qed

abbreviation sample_answered :: candidate where
  "sample_answered \<equiv> (sample_candidate 1 1 (sample_carrier 7))
     \<lparr>ca_state := Proven, ca_response := Some (sample_answer 7)\<rparr>"

lemma sample_delivers_probe_two:
  "deliver sample_crypto (sample_probe 1 1, sample_carrier 7, 0) (sample_at (sample_two [] [] [] 2))
   = Some (sample_at (sample_two [sample_candidate 1 1 (sample_carrier 7)] [] [] 3))"
proof -
  have "preview_action sample_crypto (sample_at (sample_two [] [] [] 2)) (sample_probe 1 1) (sample_carrier 7) 0
      = Inr (Challenge (sample_candidate 1 1 (sample_carrier 7)))"
    by (simp add: preview_action_def sample_probe_def preview_bind_probe_def Let_def sample_two_def
        saturating_add_def sample_candidate_def CHALLENGE_EXPIRY_MS_def mobility_limits)
  from deliver_eq [OF sample_controls_ok(2) sample_binding_ok _ _ _ _ _ this, of
      "sample_two [sample_candidate 1 1 (sample_carrier 7)] [] [] 2"]
  show ?thesis
    by (simp add: profile_allows_slot_def apply_action_def sample_probe_def sample_two_def)
qed

lemma sample_delivers_response_two:
  "deliver sample_crypto (sample_response 1 1 (sample_carrier 7), sample_carrier 7, 0)
     (sample_at (sample_two [sample_candidate 1 1 (sample_carrier 7)] [] [] 3))
   = Some (sample_at (sample_two [sample_answered] [] [] 4))"
proof -
  let ?st = "sample_two [sample_candidate 1 1 (sample_carrier 7)] [] [] 3"
  have "preview_action sample_crypto (sample_at ?st) (sample_response 1 1 (sample_carrier 7)) (sample_carrier 7) 0
      = Inr (Prove (replicate 16 1) 1 0 0 (sample_answer 7))"
    using sample_token_eq(1) [of "sample_at ?st" 1 7 1]
    by (simp add: preview_action_def sample_response_def preview_bind_response_def Let_def sample_two_def
        cached_result_for_def same_candidate_def max_epoch_def mobility_limits sample_answer_def)
  moreover have "apply_action 0 7 ?st (Prove (replicate 16 1) 1 0 0 (sample_answer 7))
      = Some (sample_two [sample_answered] [] [] 3)"
    by (simp add: apply_action_def prove_candidate_def sample_two_def Let_def max_epoch_def
        settle_frozen_cohort_def has_id_def)
  ultimately show ?thesis
    using deliver_eq [OF sample_controls_ok(3) sample_binding_ok, of 1 "sample_at ?st" 1 7]
    by (simp add: profile_allows_slot_def sample_response_def sample_two_def)
qed

text \<open>The manager's own proposals, each bound to a carrier, and the peer's verdict on them.\<close>

definition sample_outbound :: "u8 \<Rightarrow> outbound_candidate" where
  "sample_outbound i = \<lparr>oc_candidate_id = replicate 16 i, oc_loc = replicate 16 40, oc_epoch = 1,
     oc_slot = 0, oc_binding = Some (sample_carrier i), oc_expiry_ms = 5000\<rparr>"

definition sample_propose :: "u8 \<Rightarrow> candidate_manager \<Rightarrow> candidate_manager" where
  "sample_propose i m = snd (CandidateManager_make_probe
     (snd (CandidateManager_propose_local sample_crypto m (replicate 16 i) (replicate 16 40) 1 0 0))
     (replicate 16 i) (sample_carrier i) (replicate 16 9) 0)"

definition sample_verdict :: "u8 \<Rightarrow> Control" where
  "sample_verdict i = CandidateResult (replicate 16 i) 1 0 3"

definition sample_received :: "u8 \<Rightarrow> cached_result" where
  "sample_received i = \<lparr>re_candidate_id = replicate 16 i, re_epoch = 1, re_slot = 0,
     re_bytes = (case Control_encode (sample_verdict i) of Inr bs \<Rightarrow> bs | Inl _ \<Rightarrow> []),
     re_expiry_ms = 10000, re_response = None, re_origin = Received,
     re_received_binding = Some (sample_carrier i)\<rparr>"

lemma sample_signs: "\<exists>ctl. sign_loc_update sample_crypto sk (outgoing_context (sample_at st))
    \<lparr>lf_candidate_id = i, lf_old_loc = l, lf_new_loc = n, lf_epoch = e, lf_path_slot = 0\<rparr> = Inr ctl"
  by (simp add: sign_loc_update_def loc_update_signature_input_def outgoing_context_def sample_at_def
      sample_manager_def sample_identity_def profile_allows_slot_def)

lemma position_snoc: "\<forall>x \<in> set xs. \<not> P x \<Longrightarrow> P y \<Longrightarrow> position P (xs @ [y]) = Some (length xs)"
  by (induction xs) auto

lemma sample_proposes:
  assumes "i \<noteq> 0" "length os < 2" "find (\<lambda>oc. oc_candidate_id oc = replicate 16 i) os = None" "g \<noteq> u64_max"
  shows "sample_propose i (sample_at (sample_two cs os rs g))
    = sample_at (sample_two cs (os @ [sample_outbound i]) rs (g + 1))"
proof -
  have id: "replicate 16 i \<noteq> replicate 16 0" using assms(1) by (simp add: numeral_eq_Suc)
  obtain ctl where "sign_loc_update sample_crypto (cm_signing (sample_at (sample_two cs os rs g)))
      (outgoing_context (sample_at (sample_two cs os rs g)))
      \<lparr>lf_candidate_id = replicate 16 i, lf_old_loc = ms_local_loc (sample_two cs os rs g),
       lf_new_loc = replicate 16 40, lf_epoch = 1, lf_path_slot = 0\<rparr> = Inr ctl"
    using sample_signs by blast
  with assms id have 1: "snd (CandidateManager_propose_local sample_crypto (sample_at (sample_two cs os rs g))
      (replicate 16 i) (replicate 16 40) 1 0 0)
    = sample_at (sample_two cs (os @ [(sample_outbound i)\<lparr>oc_binding := None\<rparr>]) rs (g + 1))"
    by (simp add: CandidateManager_propose_local_def Let_def profile_allows_slot_def buried_def
        mobility_limits)
      (simp add: sample_two_def sample_outbound_def saturating_add_def Let_def checked_Suc [THEN iffD2])
  have p: "position (\<lambda>oc. oc_candidate_id oc = replicate 16 i) (os @ [(sample_outbound i)\<lparr>oc_binding := None\<rparr>])
      = Some (length os)"
    by (rule position_snoc) (use assms(3) in \<open>simp_all add: find_None_iff sample_outbound_def\<close>)
  have swap: "st\<lparr>ms_generation := h, ms_outbound := ocs\<rparr> = st\<lparr>ms_outbound := ocs, ms_generation := h\<rparr>"
    for st :: mobility_state and h ocs by simp
  show ?thesis
    unfolding sample_propose_def 1
    by (simp add: CandidateManager_make_probe_def Let_def sample_two_def p)
      (simp add: Let_def sample_outbound_def swap)
qed

lemma sample_delivers_verdict:
  assumes "i \<noteq> 0" "os = sample_outbound i # os'" "length rs < 2" "g \<noteq> u64_max"
    and "\<forall>r \<in> set rs. re_candidate_id r \<noteq> replicate 16 i" "\<forall>oc \<in> set os'. oc_candidate_id oc \<noteq> replicate 16 i"
  shows "deliver sample_crypto (sample_verdict i, sample_carrier i, 0) (sample_at (sample_two cs os rs g))
    = Some (sample_at (sample_two cs os' (rs @ [sample_received i]) (g + 1)))"
proof -
  let ?st = "sample_two cs os rs g"
  have ctl: "control_ok (sample_verdict i)"
    using assms(1) by (simp add: control_ok_def sample_verdict_def)
  have "find (\<lambda>e. re_candidate_id e = replicate 16 i \<and> re_epoch e = 1 \<and> re_slot e = 0 \<and> 0 < re_expiry_ms e) rs
      = None"
    using assms(5) by (auto simp: find_None_iff)
  then have "preview_action sample_crypto (sample_at ?st) (sample_verdict i) (sample_carrier i) 0
      = Inr (CommitLocal 1 (replicate 16 40) (sample_carrier i) False (sample_received i))"
    using assms by (simp add: preview_action_def sample_verdict_def preview_candidate_result_def Let_def
        cached_result_for_def sample_two_def sample_outbound_def sample_received_def Control_encode_def
        frozen_slots_def mobility_limits saturating_add_def)
  moreover have "filter (\<lambda>oc. oc_candidate_id oc \<noteq> replicate 16 i) os = os'"
    using assms by (simp add: sample_outbound_def filter_id_conv)
  then have "apply_action 0 7 ?st (CommitLocal 1 (replicate 16 40) (sample_carrier i) False (sample_received i))
      = Some (sample_two cs os' (rs @ [sample_received i]) g)"
    by (simp add: apply_action_def commit_local_def Let_def sample_two_def sample_received_def)
  ultimately show ?thesis
    using deliver_eq [OF ctl sample_binding_ok, of "sample_at ?st"] assms(4)
    by (simp add: profile_allows_slot_def sample_verdict_def sample_two_def)
qed

lemma sample_overflows:
  "\<exists>m'. CandidateManager_expire (sample_at (sample_two [sample_answered] [] [sample_received 3, sample_received 4] 8)) 1000
     = Some m' \<and> length (ms_results (cm_state m')) = 3"
proof -
  let ?rs = "[sample_received 3, sample_received 4]"
  let ?st = "sample_two [sample_answered] [] ?rs 8"
  let ?st6 = "?st\<lparr>ms_frozen_cohort := Some (1, [sample_proposal 1 1])\<rparr>"
  have 1: "expire_challenges ?st 1000 = (False, ?st)"
    by (simp add: expire_challenges_def sample_two_def challenge_expired_def)
  have 3: "settle_frozen_cohort ?st 0 7 1000 = Some (False, ?st)"
    by (simp add: settle_frozen_cohort_def sample_two_def)
  have 4: "expire_passes ?st 1000 [] = (True, ?st6)"
    by (simp add: expire_passes_def drop_results_def timeout_failures_def bury_expired_def sample_two_def
        expired_ids_def drop_proposals_def drop_cohort_def freeze_proven_def max_epoch_def drop_failed_def
        drop_outbound_def drop_old_binding_def map_filter_def Let_def has_id_def sample_received_def)
  have w: "cohort_winner ?st6 [sample_proposal 1 1] = Some (replicate 16 1)"
    by (simp add: cohort_winner_def cohort_proven_def has_id_def sample_two_def)
  obtain st5 where 5: "settle_frozen_cohort ?st6 0 7 1000 = Some (True, st5)"
    and "length (ms_results st5) = 3" "ms_generation st5 = 8"
    using w by (simp add: Let_def settle_frozen_cohort_def cohort_unsettled_def has_id_def mobility_limits
        sample_two_def settle_tail_def)
  moreover have "ms_frozen_cohort ?st = None" "\<not> ms_closed ?st" by (simp_all add: sample_two_def)
  ultimately show ?thesis
    by (simp add: CandidateManager_expire_def expire_state_def 1 3 4 bump_or_erase_def checked_add_def)
qed

text \<open>
  C40: The result cache outgrows its two slots. The peer's updates 1 and 2 are cached, update 1 is
  probed and answered (epoch 2 is greater, so no cohort is frozen and no slot is reserved), the
  manager's own proposals 3 and 4 are refused by the peer and fill both slots, and the next
  \<open>expire\<close> freezes and settles update 1 without looking at the cache: three results, where
  \<open>RESULT_CACHE_SLOTS\<close> is two. In a debug build the \<open>debug_assert!\<close> of
  \<open>settle_frozen_cohort\<close> panics there.
\<close>

theorem result_cache_overflows:
  "\<exists>m1 m2 m3. deliver_all sample_crypto [(sample_update 1 1, sample_carrier 1, 0),
         (sample_update 2 2, sample_carrier 1, 0), (sample_probe 1 1, sample_carrier 7, 0),
         (sample_response 1 1 (sample_carrier 7), sample_carrier 7, 0)] sample_manager = Some m1
     \<and> deliver_all sample_crypto [(sample_verdict 3, sample_carrier 3, 0),
         (sample_verdict 4, sample_carrier 4, 0)] (sample_propose 4 (sample_propose 3 m1)) = Some m2
     \<and> CandidateManager_expire m2 1000 = Some m3
     \<and> length (ms_results (cm_state m3)) > RESULT_CACHE_SLOTS"
proof -
  have 1: "deliver_all sample_crypto [(sample_update 1 1, sample_carrier 1, 0),
         (sample_update 2 2, sample_carrier 1, 0), (sample_probe 1 1, sample_carrier 7, 0),
         (sample_response 1 1 (sample_carrier 7), sample_carrier 7, 0)] sample_manager
      = Some (sample_at (sample_two [sample_answered] [] [] 4))"
    by (simp add: sample_manager_at sample_delivers_update sample_delivers_second
        sample_delivers_probe_two sample_delivers_response_two)
  have 2: "sample_propose 4 (sample_propose 3 (sample_at (sample_two [sample_answered] [] [] 4)))
      = sample_at (sample_two [sample_answered] [sample_outbound 3, sample_outbound 4] [] 6)"
    by (simp add: sample_proposes sample_outbound_def)
  have "deliver_all sample_crypto [(sample_verdict 3, sample_carrier 3, 0),
         (sample_verdict 4, sample_carrier 4, 0)]
      (sample_at (sample_two [sample_answered] [sample_outbound 3, sample_outbound 4] [] 6))
    = Some (sample_at (sample_two [sample_answered] [] [sample_received 3, sample_received 4] 8))"
    using sample_delivers_verdict [of 3 "[sample_outbound 3, sample_outbound 4]" "[sample_outbound 4]" "[]" 6]
      sample_delivers_verdict [of 4 "[sample_outbound 4]" "[]" "[sample_received 3]" 7]
    by (simp add: sample_outbound_def sample_received_def)
  with 1 2 sample_overflows show ?thesis by (auto simp: mobility_limits)
qed

section \<open>What every run keeps\<close>

text \<open>
  A manager's memory is bounded. Over every run, whatever the peer sends and in whatever
  order calls arrive, at most two proposals, two candidates, two outbound proposals, two emitted
  results and two tombstones are held, the proposal bucket never exceeds two tokens, and the
  result cache never exceeds six entries (its nominal two slots are not respected, see
  \<open>result_cache_overflows\<close>).
\<close>

theorem mobility_bounded:
  assumes "CandidateManager_new_inner c cfg owner rb n = Inr (m0, n')"
    and "(mobility_step c)\<^sup>*\<^sup>* (m0, [], []) (m, trs, taken)"
  shows "length (ms_proposals (cm_state m)) \<le> PROPOSAL_SLOTS
    \<and> length (ms_candidates (cm_state m)) \<le> LIVE_CANDIDATES_MAX
    \<and> length (ms_outbound (cm_state m)) \<le> PROPOSAL_SLOTS
    \<and> length (ms_emitted_results (cm_state m)) \<le> RESULT_CACHE_SLOTS
    \<and> length (ms_tombstones (cm_state m)) \<le> RESULT_CACHE_SLOTS
    \<and> ms_proposal_tokens (cm_state m) \<le> 2 \<and> length (ms_results (cm_state m)) \<le> 6"
  using reachable_inv [OF assms]
  by (simp add: world_inv_def mobility_inv_def bounded_state_def mobility_limits)

lemma sample_moves:
  "(mobility_step sample_crypto)\<^sup>*\<^sup>* (sample_manager, [], []) (sample_at (sample_moving [] 1), [], [])"
  by (rule deliver_all_steps [of _ "[(sample_update 1 1, sample_carrier 1, 0)]"])
    (simp add: sample_manager_at sample_delivers_update)

theorem mobility_bounded_witness:
  "length (ms_proposals (cm_state (sample_at (sample_moving [] 1)))) = 1
   \<and> length (ms_results (cm_state (sample_at (sample_moving [] 1)))) \<le> 6"
  using mobility_bounded [OF sample_manager_new sample_moves] by (simp add: sample_moving_def)

lemma commit_total:
  assumes "world_inv ow (m, trs, taken)" "tr \<in> set trs"
  shows "CandidateManager_commit_protected_replay m tr q f \<noteq> None"
  using commit_protected_replay_step [OF world_inv_own [OF assms(1) disjI1 [OF assms(2)]], of q f] by auto

text \<open>
  C20: No \<open>expect\<close> of the manager is ever reached. In a build without debug assertions, in every
  reachable state, \<open>expire\<close> returns at any time, and every transition the manager has previewed,
  however stale, can be presented to every commit without a panic: the candidates that
  \<open>settle_frozen_cohort\<close> and \<open>apply_after_replay\<close> expect are there. (A build with debug assertions
  has one more way to panic, and \<open>result_cache_overflows\<close> shows it.)
\<close>

theorem mobility_expects_hold:
  assumes "CandidateManager_new_inner c cfg owner rb n = Inr (m0, n')"
    and "(mobility_step c)\<^sup>*\<^sup>* (m0, [], []) (m, trs, taken)"
    and "tr \<in> set trs"
  shows "CandidateManager_expire m now \<noteq> None
    \<and> CandidateManager_commit_protected m tr x \<noteq> None
    \<and> CandidateManager_commit_protected_client m tr y \<noteq> None
    \<and> CandidateManager_commit_protected_server m tr z scid t \<noteq> None
    \<and> CandidateManager_commit_profile3 m tr x \<noteq> None"
proof -
  have w: "world_inv owner (m, trs, taken)" using reachable_inv [OF assms(1,2)] .
  then have inv: "mobility_inv owner (cm_scid m) taken (cm_state m)" by (simp add: world_inv_def)
  note commits = commit_total [OF w assms(3)]
  have "CandidateManager_expire m now \<noteq> None"
    using expire_step [OF inv, of "cm_profile m" now] by (auto simp: CandidateManager_expire_def)
  moreover have "CandidateManager_commit_profile3 m tr x \<noteq> None"
    using commit_profile3_step [OF world_inv_own [OF w disjI1 [OF assms(3)]], of x] by auto
  ultimately show ?thesis
    by (simp only: CandidateManager_commit_protected_def commits not_False_eq_True simp_thms
        CandidateManager_commit_protected_client_def CandidateManager_commit_protected_server_def)
qed

lemma sample_previews:
  "\<exists>tr. (mobility_step sample_crypto)\<^sup>*\<^sup>* (sample_manager, [], []) (sample_manager, [tr], [])"
proof -
  obtain live pt tr where "CandidateManager_preview_protected sample_crypto live sample_manager pt
      (sample_carrier 1) (sample_proof pt) 0 = Inr tr"
    using sample_delivers_update
    by (auto simp: deliver_def sample_manager_at split: sum.splits)
  from mobility_step.preview [OF this] show ?thesis by blast
qed

theorem mobility_expects_hold_witness:
  "\<exists>tr x. (mobility_step sample_crypto)\<^sup>*\<^sup>* (sample_manager, [], []) (sample_manager, [tr], [])
     \<and> CandidateManager_commit_protected sample_manager tr x \<noteq> None"
proof -
  obtain tr where run: "(mobility_step sample_crypto)\<^sup>*\<^sup>* (sample_manager, [], []) (sample_manager, [tr], [])"
    using sample_previews by blast
  have "CandidateManager_commit_protected sample_manager tr x \<noteq> None" for x
    using mobility_expects_hold [OF sample_manager_new run list.set_intros(1)] by blast
  with run show ?thesis by blast
qed

text \<open>
  C15: A new binding takes a new epoch. Whatever step a reachable manager takes, neither epoch
  goes back; the binding that traffic is sent to changes only with a strictly greater peer or
  local epoch, a peer locator only with a greater peer epoch and a local locator only with a
  greater local epoch. An old move therefore cannot be replayed over a newer one.
\<close>

theorem mobility_epochs_advance:
  assumes "CandidateManager_new_inner c cfg owner rb n = Inr (m0, n')"
    and "(mobility_step c)\<^sup>*\<^sup>* (m0, [], []) (m, trs, taken)"
    and "mobility_step c (m, trs, taken) (m', trs', taken')"
  shows "ms_peer_epoch (cm_state m) \<le> ms_peer_epoch (cm_state m')
    \<and> ms_local_epoch (cm_state m) \<le> ms_local_epoch (cm_state m')
    \<and> (ms_current_binding (cm_state m') \<noteq> ms_current_binding (cm_state m) \<longrightarrow>
         ms_peer_epoch (cm_state m) < ms_peer_epoch (cm_state m')
         \<or> ms_local_epoch (cm_state m) < ms_local_epoch (cm_state m'))
    \<and> (ms_peer_loc (cm_state m') \<noteq> ms_peer_loc (cm_state m) \<longrightarrow>
         ms_peer_epoch (cm_state m) < ms_peer_epoch (cm_state m'))
    \<and> (ms_local_loc (cm_state m') \<noteq> ms_local_loc (cm_state m) \<longrightarrow>
         ms_local_epoch (cm_state m) < ms_local_epoch (cm_state m'))"
  using mobility_step_inv [OF assms(3) reachable_inv [OF assms(1,2)]] by (simp add: advances_def)

theorem mobility_epochs_advance_witness:
  "\<exists>m'. mobility_step sample_crypto (sample_at (sample_moving [] 1), [], []) (m', [], [])
     \<and> ms_peer_epoch (cm_state m') \<ge> ms_peer_epoch (cm_state (sample_at (sample_moving [] 1)))"
proof -
  have "mobility_step sample_crypto (sample_at (sample_moving [] 1), [], [])
      (CandidateManager_close (sample_at (sample_moving [] 1)), [], [])" by (rule mobility_step.close)
  with mobility_epochs_advance [OF sample_manager_new sample_moves this] show ?thesis by blast
qed

text \<open>
  C13: Slot 1 is admitted once. Over a whole run of a Profile-3 manager, at most one admission is
  ever handed out; it carries the very capability the manager was created with, its session and
  its policy, and once it is out the manager holds neither the capability nor another admission.
\<close>

theorem profile3_admitted_once:
  assumes "CandidateManager_new_inner c cfg owner rb n = Inr (m0, n')"
    and "(mobility_step c)\<^sup>*\<^sup>* (m0, [], []) (m, trs, taken)"
  shows "length taken \<le> 1
    \<and> (\<forall>a \<in> set taken. owner = Some (ad_owner a) \<and> ad_scid a = cm_scid m
         \<and> ad_policy_id a = ao_policy_id (ad_owner a)
         \<and> ms_profile3_owner (cm_state m) = None \<and> ms_profile3_admission (cm_state m) = None)"
proof -
  have o: "owner_once owner (cm_scid m) taken (cm_state m)"
    using reachable_inv [OF assms] by (simp add: world_inv_def mobility_inv_def)
  have "ms_profile3_owner (cm_state m) = None \<and> ms_profile3_admission (cm_state m) = None"
    if "a \<in> set taken" for a
    using o that unfolding owner_once_def by (metis empty_iff list.set(1) not_None_eq)
  moreover have "length taken \<le> 1" "\<forall>a \<in> set taken. issued_from owner (cm_scid m) a"
    using o by (simp_all add: owner_once_def)
  ultimately show ?thesis by (simp add: issued_from_def)
qed

text \<open>A Profile-3 manager whose own slot-1 proposal is accepted by the peer.\<close>

definition sample_owner :: admission_owner where
  "sample_owner = \<lparr>ao_scid = 7, ao_policy_id = 9, ao_replay_binding = 1, ao_capability = 0\<rparr>"

definition sample3_config :: candidate_manager_config where
  "sample3_config = sample_mobility_config\<lparr>cc_profile := 3\<rparr>"

definition sample3_at :: "mobility_state \<Rightarrow> candidate_manager" where
  "sample3_at st = \<lparr>cm_signing = [2], cm_local = sample_identity 2, cm_peer = sample_identity 1,
     cm_profile = 3, cm_scid = 7, cm_policy_id = 9, cm_owner_id = 1,
     cm_protected_replay_binding = None, cm_state = st\<rparr>"

definition sample3_start :: mobility_state where
  "sample3_start = initial_state sample3_config (Some sample_owner)"

lemma sample3_new:
  "CandidateManager_new_inner sample_crypto sample3_config (Some sample_owner) None 1
     = Inr (sample3_at sample3_start, 2)"
  by (simp add: CandidateManager_new_inner_def sample_mobility_config_def sample3_config_def sample3_at_def
      sample3_start_def sample_identity_ok checked_Suc sample_owner_def split: option.split)
    (simp add: sample_crypto_def sample_identity_def)

definition sample3_proof :: "bytes \<Rightarrow> profile3_replay_proof" where
  "sample3_proof pt = Profile3DataPreview_into_replay_proof \<lparr>p3_delivery_id = 1, p3_plaintext = pt,
     p3_commit = \<lparr>rc_counter = 1, rc_generation = 0\<rparr>, p3_receive_owner = 1\<rparr>"

definition sample3_verdict :: Control where
  "sample3_verdict = CandidateResult (replicate 16 3) 1 1 1"

definition sample3_outbound :: outbound_candidate where
  "sample3_outbound = \<lparr>oc_candidate_id = replicate 16 3, oc_loc = replicate 16 40, oc_epoch = 1,
     oc_slot = 1, oc_binding = Some (sample_carrier 3), oc_expiry_ms = 5000\<rparr>"

definition sample3_asked :: mobility_state where
  "sample3_asked = sample3_start\<lparr>ms_generation := 1, ms_outbound := [sample3_outbound]\<rparr>"

lemma sample3_proposes:
  "(mobility_step sample_crypto)\<^sup>*\<^sup>* (sample3_at sample3_start, [], []) (sample3_at sample3_asked, [], [])"
proof -
  let ?m1 = "sample3_at (sample3_start\<lparr>ms_generation := 1, ms_outbound := [sample3_outbound\<lparr>oc_binding := None\<rparr>]\<rparr>)"
  have "snd (CandidateManager_propose_local sample_crypto (sample3_at sample3_start)
      (replicate 16 3) (replicate 16 40) 1 1 0) = ?m1"
    by (simp add: CandidateManager_propose_local_def sample3_at_def sample3_start_def initial_state_def
        sample3_config_def sample_mobility_config_def profile_allows_slot_def slot1_done_def buried_def
        sign_loc_update_def loc_update_signature_input_def outgoing_context_def sample_identity_def
        mobility_limits checked_add_def sample3_outbound_def saturating_add_def)
  then have 1: "mobility_step sample_crypto (sample3_at sample3_start, [], []) (?m1, [], [])"
    by (metis mobility_step.propose prod.collapse)
  have "snd (CandidateManager_make_probe ?m1 (replicate 16 3) (sample_carrier 3) (replicate 16 9) 0)
      = sample3_at sample3_asked"
    by (simp add: CandidateManager_make_probe_def sample3_at_def slot1_done_def sample3_outbound_def
        sample3_asked_def sample3_start_def initial_state_def)
  then have 2: "mobility_step sample_crypto (?m1, [], []) (sample3_at sample3_asked, [], [])"
    by (metis mobility_step.probe prod.collapse)
  from 1 2 show ?thesis by simp
qed

definition sample3_admission :: profile3_admission where
  "sample3_admission = \<lparr>ad_owner = sample_owner, ad_scid = 7, ad_policy_id = 9,
     ad_binding = sample_carrier 3, ad_local_loc = replicate 16 40, ad_peer_loc = replicate 16 20,
     ad_epoch = 1\<rparr>"

lemma sample3_admits:
  "\<exists>m. (mobility_step sample_crypto)\<^sup>*\<^sup>* (sample3_at sample3_start, [], []) (m, [], [sample3_admission])"
proof -
  obtain pt where pt: "Control_encode sample3_verdict = Inr pt" by (simp add: Control_encode_def)
  have parse: "Control_parse pt = Inr sample3_verdict"
    by (rule encode_parse [OF _ pt]) (simp add: control_ok_def sample3_verdict_def)
  define m where "m = sample3_at sample3_asked"
  have owner: "Profile3ReplayBinding_matches_proof 1 (sample3_proof pt)"
    "Profile3ReplayProof_matches_plaintext (sample3_proof pt) pt"
    by (simp_all add: Profile3ReplayBinding_matches_proof_def Profile3ReplayProof_matches_plaintext_def
        sample3_proof_def Profile3DataPreview_into_replay_proof_def)
  obtain entry where a: "preview_action sample_crypto m sample3_verdict (sample_carrier 3) 0
      = Inr (CommitLocal 1 (replicate 16 40) (sample_carrier 3) True entry)"
    using pt by (simp add: preview_action_def sample3_verdict_def preview_candidate_result_def Let_def m_def
        sample3_at_def sample3_asked_def sample3_start_def initial_state_def cached_result_for_def
        sample3_outbound_def frozen_slots_def mobility_limits)
  define tr where "tr = \<lparr>tr_generation = 1, tr_owner_id = 1,
    tr_action = CommitLocal 1 (replicate 16 40) (sample_carrier 3) True entry,
    tr_protected_proof = None, tr_profile3_proof = Some (sample3_proof pt)\<rparr>"
  have "CandidateManager_preview_profile3 sample_crypto m pt (sample_carrier 3) (sample3_proof pt) 0 = Inr tr"
    using a parse owner
    by (simp add: CandidateManager_preview_profile3_def CandidateManager_preview_inner_def tr_def m_def)
      (simp add: sample3_at_def sample3_asked_def sample3_start_def initial_state_def sample_owner_def
        profile_allows_slot_def slot1_done_def sample3_verdict_def)
  then have 1: "mobility_step sample_crypto (m, [], []) (m, [tr], [])" by (rule mobility_step.preview3)
  have "ReplayWindow_check ReplayWindow_new 1 = Inr ()"
    by (simp add: check_refines [OF replay_hist_new] replay_accepts_def)
  then obtain x where "DirectionalSession_commit_profile3_replay (sample_session 1) (sample3_proof pt)
      = (Inr (), x, \<lparr>p3r_preview = None, p3r_committed = True\<rparr>)"
    by (simp add: DirectionalSession_commit_profile3_replay_def sample_session_def sample3_proof_def
        Profile3DataPreview_into_replay_proof_def Let_def ReplayWindow_commit_def ReplayWindow_new_def
        checked_add_def)
  then obtain m2 where "CandidateManager_commit_profile3 m tr (sample_session 1) = Some (Inr (), m2, x)"
    and m2: "ms_emitted_results (cm_state m2) = []" "ms_profile3_admission (cm_state m2) = Some sample3_admission"
    by (simp add: CandidateManager_commit_profile3_def m_def sample3_at_def sample3_asked_def tr_def
        sample3_start_def initial_state_def apply_after_replay_def checked_add_def apply_action_def
        commit_local_def admit_profile3_def Let_def sample3_admission_def sample_owner_def
        sample3_config_def sample_mobility_config_def)
  then have 2: "mobility_step sample_crypto (m, [tr], []) (m2, [], [])"
    using mobility_step.commit3 [of tr "[tr]" m "sample_session 1" "Inr ()" m2 x sample_crypto "[]"] by simp
  obtain m3 where "CandidateManager_take_profile3_admissions m2 = ([sample3_admission], m3)"
    using m2 by (simp add: CandidateManager_take_profile3_admissions_def)
  then have 3: "mobility_step sample_crypto (m2, [], []) (m3, [], [] @ [sample3_admission])"
    by (rule mobility_step.take_admissions)
  from 1 2 3 sample3_proposes show ?thesis
    unfolding m_def by (simp only: append_Nil) (meson rtranclp.rtrancl_into_rtrancl)
qed

theorem profile3_admitted_once_witness:
  "\<exists>m. (mobility_step sample_crypto)\<^sup>*\<^sup>* (sample3_at sample3_start, [], []) (m, [], [sample3_admission])
     \<and> ms_profile3_owner (cm_state m) = None"
  using sample3_admits profile3_admitted_once [OF sample3_new] by fastforce

section \<open>Transitions and proofs\<close>

lemma apply_mutates_generation:
  assumes "apply_after_replay m st tr = Some (Inr (), st')" "mutates (tr_action tr)"
  shows "ms_generation st' = ms_generation st + 1 \<and> ms_generation st \<noteq> u64_max"
  using assms by (auto simp: apply_after_replay_def checked_Suc split: option.splits)

lemma commit_protected_Inr:
  assumes "CandidateManager_commit_protected m tr x = Some (Inr (), m', x')"
  obtains st' where "m' = m\<lparr>cm_state := st'\<rparr>"
    "apply_after_replay m (cm_state m) (tr\<lparr>tr_protected_proof := None\<rparr>) = Some (Inr (), st')"
  using commit_protected_replay_cases [OF assms [unfolded CandidateManager_commit_protected_def]] that
  by (cases "apply_after_replay m (cm_state m) (tr\<lparr>tr_protected_proof := None\<rparr>)") auto

text \<open>
  One change per generation. When a transition that changes the state has been committed,
  every other transition previewed before that commit is refused with \<open>Replay\<close>, and neither the
  manager nor the session it is presented with changes: two controls judged against the same
  state cannot both take effect.
\<close>

theorem one_change_per_generation:
  assumes "CandidateManager_commit_protected m tr x = Some (Inr (), m', x')" and "mutates (tr_action tr)"
    and "tr_generation tr' = ms_generation (cm_state m)"
  shows "CandidateManager_commit_protected m' tr' y = Some (Inl Replay_err, m', y)
    \<and> CandidateManager_commit_protected_client m' tr' u = Some (Inl Replay_err, m', u)
    \<and> CandidateManager_commit_protected_server m' tr' v scid now = Some (Inl Replay_err, m', v)
    \<and> CandidateManager_commit_profile3 m' tr' y = Some (Inl Replay_err, m', y)
    \<and> CandidateManager_response_for c m' tr' = Inl Replay_err"
proof -
  obtain st' where st': "m' = m\<lparr>cm_state := st'\<rparr>"
    "apply_after_replay m (cm_state m) (tr\<lparr>tr_protected_proof := None\<rparr>) = Some (Inr (), st')"
    using assms(1) by (rule commit_protected_Inr)
  have "ms_generation st' = ms_generation (cm_state m) + 1" "ms_generation (cm_state m) \<noteq> u64_max"
    using apply_mutates_generation [OF st'(2)] assms(2) by simp_all
  then have "ms_generation st' \<noteq> tr_generation tr'"
    using less_Suc_word [of "ms_generation (cm_state m)"] assms(3) by auto
  then show ?thesis
    by (simp add: st'(1) CandidateManager_commit_protected_def CandidateManager_commit_protected_client_def
        CandidateManager_commit_protected_server_def CandidateManager_commit_protected_replay_def
        CandidateManager_commit_profile3_def CandidateManager_response_for_def Let_def split: option.split)
qed

theorem one_change_per_generation_witness:
  "\<exists>tr m' x'. CandidateManager_commit_protected sample_manager tr (sample_session 1) = Some (Inr (), m', x')
     \<and> CandidateManager_commit_protected m' tr (sample_session 1) = Some (Inl Replay_err, m', sample_session 1)"
proof -
  obtain pt tr where tr: "CandidateManager_preview_protected sample_crypto {1} sample_manager pt
      (sample_carrier 1) (sample_proof pt) 0 = Inr tr"
    and "\<exists>x'. CandidateManager_commit_protected sample_manager tr (sample_session 1)
      = Some (Inr (), sample_at (sample_moving [] 1), x')"
    using sample_delivers_update
    by (auto simp: deliver_def sample_manager_at split: sum.splits option.splits prod.splits)
  then obtain x' where c: "CandidateManager_commit_protected sample_manager tr (sample_session 1)
      = Some (Inr (), sample_at (sample_moving [] 1), x')" by blast
  have g: "tr_generation tr = ms_generation (cm_state sample_manager)"
    using tr by (auto simp: CandidateManager_preview_protected_def CandidateManager_preview_inner_def
        and_then_Inr split: if_splits)
  have "mutates (tr_action tr)"
  proof (rule ccontr)
    assume "\<not> mutates (tr_action tr)"
    moreover obtain st' where "sample_at (sample_moving [] 1) = sample_manager\<lparr>cm_state := st'\<rparr>"
      "apply_after_replay sample_manager (cm_state sample_manager) (tr\<lparr>tr_protected_proof := None\<rparr>)
         = Some (Inr (), st')" using c by (rule commit_protected_Inr)
    ultimately have "sample_moving [] 1 = sample_start"
      by (cases "tr_action tr") (auto simp: apply_after_replay_def apply_action_def sample_manager_at
          dest: arg_cong [of _ _ cm_state])
    then have "ms_generation (sample_moving [] 1) = ms_generation sample_start" by simp
    then show False by (simp add: sample_moving_def)
  qed
  from one_change_per_generation [OF c this g, of "sample_session 1"] c show ?thesis by blast
qed

text \<open>
  C9: A binding is proven only by its own token. If a decrypted control is taken as proof of a
  candidate, then it arrived from the binding of a challenged, unexpired candidate with that id,
  locator, epoch and slot, and it carries exactly the token that \<open>response_for\<close> computes for that
  candidate's challenge. (Which candidate is then marked is another matter, see
  \<open>unproven_binding_promoted\<close>.)
\<close>

theorem proof_needs_token:
  assumes "CandidateManager_preview_inner c m plaintext binding now pp p3 = Inr tr"
    and "tr_action tr = Prove i e s g r"
  shows "\<exists>ca secret. ca \<in> set (ms_candidates (cm_state m)) \<and> ca_state ca = Challenged
    \<and> now < ca_expiry_ms ca \<and> ca_candidate_id ca = i \<and> ca_epoch ca = e \<and> ca_slot ca = s
    \<and> ca_binding ca = binding \<and> ms_candidate_secret (cm_state m) = Some secret
    \<and> challenge_token c m secret ca = Inr (br_token r)
    \<and> Control_parse plaintext = Inr (BindResponse i (ca_loc ca) e s (ca_expiry_ms ca) (br_token r))"
proof -
  obtain control where parse: "Control_parse plaintext = Inr control"
    and a: "preview_action c m control binding now = Inr (Prove i e s g r)"
    using assms by (auto simp: CandidateManager_preview_inner_def and_then_Inr split: if_splits)
  show ?thesis
  proof (cases control)
    case (BindResponse i' l e' s' x t)
    with a parse show ?thesis
      by (auto simp: preview_action_def preview_bind_response_def Let_def and_then_Inr same_candidate_def
          challenge_token_def not_le dest!: find_Some_in split: if_splits option.splits)
  qed (use a in \<open>auto simp: preview_action_def preview_loc_update_def preview_bind_probe_def
      preview_bind_challenge_def preview_candidate_result_def Let_def and_then_Inr
      split: if_splits option.splits prod.splits\<close>)
qed

text \<open>The one candidate of the one proposal: its proof settles the move.\<close>

lemma proof_settles:
  assumes "profile \<noteq> 3" "ms_frozen_cohort st = None" "ms_proposals st = [p]"
      "length (ms_emitted_results st) \<le> 1" "ms_candidates st = [ca]"
    and "ca_candidate_id ca = po_candidate_id p" "ca_epoch ca = po_epoch p"
  shows "\<exists>st'. apply_action profile scid st
        (Prove (ca_candidate_id ca) (ca_epoch ca) (ca_slot ca) now r) = Some st'
    \<and> ms_current_binding st' = ca_binding ca \<and> ms_peer_epoch st' = ca_epoch ca
    \<and> ms_peer_loc st' = ca_loc ca
    \<and> ms_old_binding st' = Some (ms_current_binding st, saturating_add now OLD_BINDING_GRACE_MS)
    \<and> ms_emitted_results st' = ms_emitted_results st @ [result_bytes p 1]
    \<and> ms_proposals st' = [] \<and> ms_candidates st' = []"
proof -
  let ?st = "st\<lparr>ms_candidates := [ca\<lparr>ca_state := Proven, ca_response := Some r\<rparr>],
    ms_frozen_cohort := Some (ca_epoch ca, [p])\<rparr>"
  have w: "cohort_winner ?st [p] = Some (ca_candidate_id ca)"
    using assms by (simp add: cohort_winner_def cohort_proven_def has_id_def)
  show ?thesis
    using assms w
    by (simp add: apply_action_def prove_candidate_def Let_def max_epoch_def settle_frozen_cohort_def
        cohort_unsettled_def has_id_def mobility_limits settle_tail_def mark_settled_def cohort_outcome_def
        result_entry_def)
qed

text \<open>
  C19: A move completes, outside Profile 3. The peer has one proposal, probed from one address, no
  cohort is frozen, and one of the two slots for results is free. When it sends back the token of
  its challenge from that address, in time and over the protected session, \<open>preview_protected\<close>
  accepts the answer and \<open>commit_protected\<close> promotes it: traffic goes to that address, the
  peer's epoch and locator are the proposal's, the old address stays valid for ten seconds, the
  result "1" is queued for the peer and the proposal is done with.
\<close>

theorem answered_move_completes:
  assumes m: "cm_profile m \<noteq> 3" "\<not> ms_closed st" "ms_generation st \<noteq> u64_max" "cm_state m = st"
      "cm_protected_replay_binding m = Some rb" "ms_candidate_secret st = Some secret"
    and move: "ms_frozen_cohort st = None" "ms_proposals st = [p]" "ms_candidates st = [ca]"
      "ca_candidate_id ca = po_candidate_id p" "ca_epoch ca = po_epoch p"
      "length (ms_emitted_results st) \<le> 1" "length (ms_results st) \<le> 1"
      "cached_result_for st (ca_candidate_id ca) (ca_epoch ca) (ca_slot ca) now = None"
    and ca: "ca_state ca = Challenged" "now < ca_expiry_ms ca" "challenge_token c m secret ca = Inr t"
      "ObservedBinding_validate (ca_binding ca) = Inr ()" "profile_allows_slot (cm_profile m) (ca_slot ca)"
    and answer: "Control_parse plaintext
        = Inr (BindResponse (ca_candidate_id ca) (ca_loc ca) (ca_epoch ca) (ca_slot ca) (ca_expiry_ms ca) t)"
      "ProtectedReplayProof_matches_plaintext live proof plaintext"
      "ProtectedReplayBinding_matches_proof rb proof"
    and fresh: "DirectionalSession_commit_protected_replay session proof = (Inr (), session', proof')"
      "pr_committed proof'"
  shows "\<exists>tr m'. CandidateManager_preview_protected c live m plaintext (ca_binding ca) proof now = Inr tr
    \<and> CandidateManager_commit_protected m tr session = Some (Inr (), m', session')
    \<and> ms_current_binding (cm_state m') = ca_binding ca
    \<and> ms_peer_epoch (cm_state m') = po_epoch p \<and> ms_peer_loc (cm_state m') = ca_loc ca
    \<and> ms_old_binding (cm_state m') = Some (ms_current_binding st, saturating_add now OLD_BINDING_GRACE_MS)
    \<and> ms_emitted_results (cm_state m') = ms_emitted_results st @ [result_bytes p 1]
    \<and> ms_proposals (cm_state m') = [] \<and> ms_candidates (cm_state m') = []"
proof -
  define r where "r = \<lparr>br_loc = ca_loc ca, br_binding = ca_binding ca, br_expiry_ms = ca_expiry_ms ca, br_token = t\<rparr>"
  let ?a = "Prove (ca_candidate_id ca) (ca_epoch ca) (ca_slot ca) now r"
  define tr where "tr = \<lparr>tr_generation = ms_generation st, tr_owner_id = cm_owner_id m, tr_action = ?a,
    tr_protected_proof = Some proof, tr_profile3_proof = None\<rparr>"
  have "preview_bind_response c m (ca_candidate_id ca) (ca_loc ca) (ca_epoch ca) (ca_slot ca) (ca_expiry_ms ca) t
      (ca_binding ca) now = Inr ?a"
    using m move ca by (simp add: preview_bind_response_def Let_def same_candidate_def challenge_token_def
        max_epoch_def mobility_limits r_def)
  then have preview: "CandidateManager_preview_protected c live m plaintext (ca_binding ca) proof now = Inr tr"
    using m ca answer
    by (simp add: CandidateManager_preview_protected_def CandidateManager_preview_inner_def preview_action_def
        slot1_done_def tr_def)
  obtain st' where st': "apply_action (cm_profile m) (cm_scid m) st ?a = Some st'"
    "ms_current_binding st' = ca_binding ca" "ms_peer_epoch st' = ca_epoch ca" "ms_peer_loc st' = ca_loc ca"
    "ms_old_binding st' = Some (ms_current_binding st, saturating_add now OLD_BINDING_GRACE_MS)"
    "ms_emitted_results st' = ms_emitted_results st @ [result_bytes p 1]"
    "ms_proposals st' = []" "ms_candidates st' = []"
    using proof_settles [OF m(1) move(1,2,6,3,4,5)] by blast
  have "checked_add (ms_generation st) 1 = Some (ms_generation st + 1)"
    using m by (simp add: checked_Suc)
  then have "CandidateManager_commit_protected m tr session
      = Some (Inr (), m\<lparr>cm_state := st'\<lparr>ms_generation := ms_generation st + 1\<rparr>\<rparr>, session')"
    using m fresh st'(1)
    by (simp add: CandidateManager_commit_protected_def CandidateManager_commit_protected_replay_def
        tr_def apply_after_replay_def Let_def)
  with preview st' move(5) show ?thesis by fastforce
qed

lemma sample_answer_taken:
  "preview_bind_response sample_crypto (sample_at (sample_moving [sample_candidate 1 1 (sample_carrier 7)] 2))
     (replicate 16 1) (replicate 16 30) 1 0 3000 (sample_token 1 1 (sample_carrier 7)) (sample_carrier 7) 0
   = Inr (Prove (replicate 16 1) 1 0 0 (sample_answer 7))"
  using sample_token_eq(1) [of "sample_at (sample_moving [sample_candidate 1 1 (sample_carrier 7)] 2)" 1 7 1]
  by (simp add: preview_bind_response_def Let_def sample_moving_def cached_result_for_def
      same_candidate_def max_epoch_def mobility_limits sample_answer_def)

theorem answered_move_completes_witness:
  "\<exists>pt tr m' x. Control_encode (sample_response 1 1 (sample_carrier 7)) = Inr pt
     \<and> CandidateManager_preview_protected sample_crypto {1}
         (sample_at (sample_moving [sample_candidate 1 1 (sample_carrier 7)] 2)) pt (sample_carrier 7)
         (sample_proof pt) 0 = Inr tr
     \<and> CandidateManager_commit_protected (sample_at (sample_moving [sample_candidate 1 1 (sample_carrier 7)] 2))
         tr (sample_session 1) = Some (Inr (), m', x)
     \<and> ms_current_binding (cm_state m') = sample_carrier 7 \<and> ms_peer_epoch (cm_state m') = 1"
proof -
  let ?ca = "sample_candidate 1 1 (sample_carrier 7)"
  let ?st = "sample_moving [?ca] 2"
  obtain pt where pt: "Control_encode (sample_response 1 1 (sample_carrier 7)) = Inr pt"
    by (simp add: Control_encode_def)
  have parse: "Control_parse pt = Inr (sample_response 1 1 (sample_carrier 7))"
    using encode_parse [OF sample_controls_ok(3) pt] by simp
  obtain x q where x: "DirectionalSession_commit_protected_replay (sample_session 1) (sample_proof pt) = (Inr (), x, q)"
    "pr_committed q" by (rule sample_commit)
  have token: "challenge_token sample_crypto (sample_at ?st) (replicate 32 5) ?ca
      = Inr (sample_token 1 1 (sample_carrier 7))"
    using sample_token_eq(1) [of "sample_at ?st" 1 7 1] by (simp add: challenge_token_def)
  have "\<exists>tr m'. CandidateManager_preview_protected sample_crypto {1} (sample_at ?st) pt (ca_binding ?ca)
        (sample_proof pt) 0 = Inr tr
    \<and> CandidateManager_commit_protected (sample_at ?st) tr (sample_session 1) = Some (Inr (), m', x)
    \<and> ms_current_binding (cm_state m') = ca_binding ?ca
    \<and> ms_peer_epoch (cm_state m') = po_epoch (sample_proposal 1 1) \<and> ms_peer_loc (cm_state m') = ca_loc ?ca
    \<and> ms_old_binding (cm_state m') = Some (ms_current_binding ?st, saturating_add 0 OLD_BINDING_GRACE_MS)
    \<and> ms_emitted_results (cm_state m') = ms_emitted_results ?st @ [result_bytes (sample_proposal 1 1) 1]
    \<and> ms_proposals (cm_state m') = [] \<and> ms_candidates (cm_state m') = []"
    by (rule answered_move_completes [OF _ _ _ _ _ _ _ _ _ _ _ _ _ _ _ _ token _ _ _ _ _ x, where rb = 1])
      (use parse in \<open>simp_all add: sample_moving_def cached_result_for_def profile_allows_slot_def sample_response_def
        ProtectedReplayProof_matches_plaintext_def ProtectedReplayBinding_matches_proof_def
        sample_proof_def ProtectedPreview_into_replay_proof_def ProtectedPreview_plaintext_def\<close>)
  with pt show ?thesis by auto
qed

theorem proof_needs_token_witness:
  "\<exists>plaintext tr ca secret.
     CandidateManager_preview_inner sample_crypto (sample_at (sample_moving [sample_candidate 1 1 (sample_carrier 7)] 2))
       plaintext (sample_carrier 7) 0 None None = Inr tr
     \<and> tr_action tr = Prove (replicate 16 1) 1 0 0 (sample_answer 7)
     \<and> challenge_token sample_crypto
         (sample_at (sample_moving [sample_candidate 1 1 (sample_carrier 7)] 2)) secret ca
       = Inr (br_token (sample_answer 7))"
proof -
  let ?m = "sample_at (sample_moving [sample_candidate 1 1 (sample_carrier 7)] 2)"
  obtain pt where pt: "Control_encode (sample_response 1 1 (sample_carrier 7)) = Inr pt"
    by (simp add: Control_encode_def)
  have "Control_parse pt = Inr (sample_response 1 1 (sample_carrier 7))"
    using encode_parse [OF sample_controls_ok(3) pt] by simp
  moreover have "preview_action sample_crypto ?m (sample_response 1 1 (sample_carrier 7)) (sample_carrier 7) 0
      = Inr (Prove (replicate 16 1) 1 0 0 (sample_answer 7))"
    using sample_answer_taken by (simp add: preview_action_def sample_response_def)
  moreover have "\<not> ms_closed (cm_state ?m)" "ms_generation (cm_state ?m) \<noteq> u64_max"
    "Control_path_slot (sample_response 1 1 (sample_carrier 7)) = 0"
    by (simp_all add: sample_moving_def sample_response_def)
  ultimately obtain tr where tr: "CandidateManager_preview_inner sample_crypto ?m pt (sample_carrier 7) 0 None None = Inr tr"
    "tr_action tr = Prove (replicate 16 1) 1 0 0 (sample_answer 7)"
    by (simp add: CandidateManager_preview_inner_def profile_allows_slot_def)
  from proof_needs_token [OF this] tr show ?thesis by blast
qed

end
