(* ===== verification/Delivered_Window.thy ===== *)
theory Delivered_Window
  imports Session_Codec
begin

text \<open>
  The window of delivered ids of \<open>src/rust/crates/r8-redundant/src/lib.rs\<close> (lines 329-450): a ring
  of 4096 bits with a fingerprint per bit, indexed by the id modulo 4096. The theorems relate it to
  the abstract history, the map from every delivered id to its plaintext: as long as only ids that
  are not too old are inserted, the ring answers exactly as the history does.
\<close>

section \<open>The ring\<close>

definition DELIVERED_WINDOW_IDS :: nat where "DELIVERED_WINDOW_IDS = 4096"
definition DELIVERED_WINDOW_WORDS :: nat where "DELIVERED_WINDOW_WORDS = DELIVERED_WINDOW_IDS div 64"

record fingerprint =
  fp_digest :: bytes
  fp_length :: nat

record delivered_window =
  dw_high_water :: "u64 option"
  dw_bits :: "u64 list"
  dw_fingerprints :: "fingerprint option list"

definition DeliveredWindow_empty :: delivered_window where
  "DeliveredWindow_empty = \<lparr>dw_high_water = None, dw_bits = replicate DELIVERED_WINDOW_WORDS 0,
     dw_fingerprints = replicate DELIVERED_WINDOW_IDS None\<rparr>"

definition DeliveredWindow_index :: "u64 \<Rightarrow> nat" where
  "DeliveredWindow_index i = unat (i mod of_nat DELIVERED_WINDOW_IDS)"

definition DeliveredWindow_position :: "u64 \<Rightarrow> nat \<times> u64" where
  "DeliveredWindow_position i =
     (let index = DeliveredWindow_index i in (index div 64, push_bit (index mod 64) 1))"

definition DeliveredWindow_bit :: "delivered_window \<Rightarrow> u64 \<Rightarrow> bool" where
  "DeliveredWindow_bit w i = (let (word, b) = DeliveredWindow_position i in dw_bits w ! word AND b \<noteq> 0)"

definition DeliveredWindow_set :: "delivered_window \<Rightarrow> u64 \<Rightarrow> delivered_window" where
  "DeliveredWindow_set w i = (let (word, b) = DeliveredWindow_position i in
     w\<lparr>dw_bits := (dw_bits w)[word := dw_bits w ! word OR b]\<rparr>)"

definition DeliveredWindow_clear :: "delivered_window \<Rightarrow> u64 \<Rightarrow> delivered_window" where
  "DeliveredWindow_clear w i = (let (word, b) = DeliveredWindow_position i in
     w\<lparr>dw_bits := (dw_bits w)[word := dw_bits w ! word AND NOT b],
       dw_fingerprints := (dw_fingerprints w)[DeliveredWindow_index i := None]\<rparr>)"

definition DeliveredWindow_clear_all :: "delivered_window \<Rightarrow> delivered_window" where
  "DeliveredWindow_clear_all w =
     w\<lparr>dw_fingerprints := map (\<lambda>_. None) (dw_fingerprints w), dw_bits := map (\<lambda>_. 0) (dw_bits w)\<rparr>"

definition DeliveredWindow_seen :: "delivered_window \<Rightarrow> u64 \<Rightarrow> bool" where
  "DeliveredWindow_seen w i =
     (case dw_high_water w of None \<Rightarrow> False
      | Some high \<Rightarrow>
          if i > high \<or> high - i \<ge> of_nat DELIVERED_WINDOW_IDS then False
          else DeliveredWindow_bit w i)"

definition DeliveredWindow_too_old :: "delivered_window \<Rightarrow> u64 \<Rightarrow> bool" where
  "DeliveredWindow_too_old w i =
     (case dw_high_water w of None \<Rightarrow> False
      | Some high \<Rightarrow> i \<le> high \<and> high - i \<ge> of_nat DELIVERED_WINDOW_IDS)"

text \<open>The values of the inclusive range \<open>lo..=hi\<close>.\<close>

definition word_range :: "u64 \<Rightarrow> u64 \<Rightarrow> u64 list" where
  "word_range lo hi = map of_nat [unat lo ..< Suc (unat hi)]"

definition DeliveredWindow_advance :: "delivered_window \<Rightarrow> u64 \<Rightarrow> delivered_window" where
  "DeliveredWindow_advance w i =
     (case dw_high_water w of
        None \<Rightarrow> w\<lparr>dw_high_water := Some i\<rparr>
      | Some high \<Rightarrow>
          if i > high then
            (if i - high \<ge> of_nat DELIVERED_WINDOW_IDS then DeliveredWindow_clear_all w
             else foldl DeliveredWindow_clear w (word_range (high + 1) i))\<lparr>dw_high_water := Some i\<rparr>
          else w)"

definition DeliveredWindow_insert :: "crypto \<Rightarrow> delivered_window \<Rightarrow> u64 \<Rightarrow> bytes \<Rightarrow> delivered_window" where
  "DeliveredWindow_insert c w i bs =
     (let w1 = DeliveredWindow_set (DeliveredWindow_clear (DeliveredWindow_advance w i) i) i in
      w1\<lparr>dw_fingerprints := (dw_fingerprints w1)[DeliveredWindow_index i :=
        Some \<lparr>fp_digest = sha256 c bs, fp_length = length bs\<rparr>]\<rparr>)"

definition DeliveredWindow_matches :: "crypto \<Rightarrow> delivered_window \<Rightarrow> u64 \<Rightarrow> bytes \<Rightarrow> bool" where
  "DeliveredWindow_matches c w i bs =
     (case dw_fingerprints w ! DeliveredWindow_index i of None \<Rightarrow> False
      | Some f \<Rightarrow> fp_length f = length bs \<and> fp_digest f = sha256 c bs)"

section \<open>The ring as an array of cells\<close>

lemma index_unat [simp]: "DeliveredWindow_index i = unat i mod 4096"
  by (simp add: DeliveredWindow_index_def DELIVERED_WINDOW_IDS_def unat_mod_distrib)

definition ring_ok :: "delivered_window \<Rightarrow> bool" where
  "ring_ok w \<longleftrightarrow> length (dw_bits w) = 64 \<and> length (dw_fingerprints w) = 4096"

definition cell :: "delivered_window \<Rightarrow> nat \<Rightarrow> bool" where
  "cell w k \<longleftrightarrow> bit (dw_bits w ! (k div 64)) (k mod 64)"

lemma div_64_less: "k < 4096 \<Longrightarrow> k div 64 < 64" for k :: nat
  by (simp add: div_less_iff_less_mult)

lemma bit_cell: "DeliveredWindow_bit w i = cell w (unat i mod 4096)"
  by (simp add: DeliveredWindow_bit_def DeliveredWindow_position_def Let_def cell_def
      and_exp_eq_0_iff_not_bit)

lemma same_cell: "k div 64 = l div 64 \<Longrightarrow> k mod 64 = l mod 64 \<longleftrightarrow> k = l" for k l :: nat
  by (metis div_mult_mod_eq)

lemma cell_set:
  assumes "ring_ok w" "k < 4096"
  shows "cell (DeliveredWindow_set w i) k \<longleftrightarrow> k = unat i mod 4096 \<or> cell w k"
proof -
  have "unat i mod 4096 div 64 < 64" by (rule div_64_less) simp
  moreover have "k mod 64 < 64" by simp
  ultimately show ?thesis
    using assms same_cell [of k "unat i mod 4096"]
    by (auto simp: cell_def DeliveredWindow_set_def DeliveredWindow_position_def Let_def ring_ok_def
        nth_list_update bit_simps)
qed

lemma cell_clear:
  assumes "ring_ok w" "k < 4096"
  shows "cell (DeliveredWindow_clear w i) k \<longleftrightarrow> k \<noteq> unat i mod 4096 \<and> cell w k"
proof -
  have "unat i mod 4096 div 64 < 64" by (rule div_64_less) simp
  moreover have "k mod 64 < 64" by simp
  ultimately show ?thesis
    using assms same_cell [of k "unat i mod 4096"]
    by (auto simp: cell_def DeliveredWindow_clear_def DeliveredWindow_position_def Let_def ring_ok_def
        nth_list_update bit_simps)
qed

lemma ring_ok_ops [simp]:
  "ring_ok (DeliveredWindow_set w i) = ring_ok w"
  "ring_ok (DeliveredWindow_clear w i) = ring_ok w"
  "ring_ok (DeliveredWindow_clear_all w) = ring_ok w"
  "ring_ok (w\<lparr>dw_high_water := h\<rparr>) = ring_ok w"
  by (simp_all add: ring_ok_def DeliveredWindow_set_def DeliveredWindow_clear_def
      DeliveredWindow_clear_all_def DeliveredWindow_position_def Let_def)

lemma fingerprint_ops [simp]:
  "dw_fingerprints (DeliveredWindow_set w i) = dw_fingerprints w"
  "dw_fingerprints (DeliveredWindow_clear w i) = (dw_fingerprints w)[unat i mod 4096 := None]"
  "dw_high_water (DeliveredWindow_set w i) = dw_high_water w"
  "dw_high_water (DeliveredWindow_clear w i) = dw_high_water w"
  "cell (w\<lparr>dw_high_water := h\<rparr>) k = cell w k"
  by (simp_all add: DeliveredWindow_set_def DeliveredWindow_clear_def DeliveredWindow_position_def
      Let_def cell_def)

lemma cell_clear_all: "ring_ok w \<Longrightarrow> k < 4096 \<Longrightarrow> \<not> cell (DeliveredWindow_clear_all w) k"
  by (simp add: cell_def DeliveredWindow_clear_all_def ring_ok_def div_64_less)

lemma clear_range:
  assumes "ring_ok w" "k < 4096"
  shows "ring_ok (foldl DeliveredWindow_clear w ids)
    \<and> (cell (foldl DeliveredWindow_clear w ids) k \<longleftrightarrow> cell w k \<and> k \<notin> (\<lambda>i. unat i mod 4096) ` set ids)
    \<and> (k \<notin> (\<lambda>i. unat i mod 4096) ` set ids \<longrightarrow>
         dw_fingerprints (foldl DeliveredWindow_clear w ids) ! k = dw_fingerprints w ! k)"
  by (induction ids rule: rev_induct) (use assms in \<open>auto simp: cell_clear nth_list_update_neq\<close>)

lemma set_word_range: "set (word_range lo hi) = {lo..hi}"
proof -
  have "i \<in> of_nat ` {unat lo ..< Suc (unat hi)} \<longleftrightarrow> lo \<le> i \<and> i \<le> hi" for i
  proof
    assume "lo \<le> i \<and> i \<le> hi"
    then have "unat i \<in> {unat lo ..< Suc (unat hi)}" by (simp add: word_le_nat_alt less_Suc_eq_le)
    then show "i \<in> of_nat ` {unat lo ..< Suc (unat hi)}" by (metis imageI of_nat_unat ucast_id)
  next
    assume "i \<in> of_nat ` {unat lo ..< Suc (unat hi)}"
    then obtain n where n: "i = of_nat n" "unat lo \<le> n" "n \<le> unat hi" by auto
    have "n < 2 ^ 64" using n(3) unsigned_less [of hi, where 'a = nat] by simp
    then have "unat i = n" by (simp add: n(1) unat_of_nat take_bit_nat_eq_self)
    with n show "lo \<le> i \<and> i \<le> hi" by (simp add: word_le_nat_alt)
  qed
  then show ?thesis
    by (simp only: word_range_def set_map set_upt set_eq_iff atLeastAtMost_iff) simp
qed

section \<open>The history\<close>

text \<open>\<open>H\<close> maps every id delivered so far to its plaintext.\<close>

definition recent :: "u64 \<Rightarrow> u64 \<Rightarrow> bool" where
  "recent h i \<longleftrightarrow> i \<le> h \<and> unat h - unat i < 4096"

definition delivered_hist :: "crypto \<Rightarrow> delivered_window \<Rightarrow> (u64 \<rightharpoonup> bytes) \<Rightarrow> bool" where
  "delivered_hist c w H \<longleftrightarrow> ring_ok w \<and>
     (case dw_high_water w of
        None \<Rightarrow> H = Map.empty \<and> (\<forall>k < 4096. \<not> cell w k)
      | Some h \<Rightarrow> H h \<noteq> None \<and> (\<forall>i. H i \<noteq> None \<longrightarrow> i \<le> h)
          \<and> (\<forall>i. recent h i \<longrightarrow>
               (cell w (unat i mod 4096) \<longleftrightarrow> H i \<noteq> None)
               \<and> (\<forall>bs. H i = Some bs \<longrightarrow> dw_fingerprints w ! (unat i mod 4096)
                     = Some \<lparr>fp_digest = sha256 c bs, fp_length = length bs\<rparr>)))"

lemma hist_empty: "delivered_hist c DeliveredWindow_empty Map.empty"
  by (simp add: delivered_hist_def DeliveredWindow_empty_def ring_ok_def cell_def div_64_less
      DELIVERED_WINDOW_WORDS_def DELIVERED_WINDOW_IDS_def)

lemma mod_window:
  assumes "a \<noteq> b" "a < b + 4096" "b < a + 4096"
  shows "a mod 4096 \<noteq> b mod (4096 :: nat)"
proof
  assume eq: "a mod 4096 = b mod 4096"
  consider "a < b" | "b < a" using assms(1) by linarith
  then show False
  proof cases
    case 1
    then have "a \<le> b" by simp
    with eq have "4096 dvd b - a" using mod_eq_dvd_iff_nat [of a b 4096] by simp
    then have "4096 \<le> b - a" using 1 by (simp add: dvd_imp_le)
    with assms show False by simp
  next
    case 2
    then have "b \<le> a" by simp
    with eq have "4096 dvd a - b" using mod_eq_dvd_iff_nat [of b a 4096] by simp
    then have "4096 \<le> a - b" using 2 by (simp add: dvd_imp_le)
    with assms show False by simp
  qed
qed

lemma far_iff: "i \<le> h \<Longrightarrow> of_nat DELIVERED_WINDOW_IDS \<le> h - i \<longleftrightarrow> 4096 \<le> unat h - unat i" for h i :: u64
  by (simp add: DELIVERED_WINDOW_IDS_def word_le_nat_alt unat_sub)

lemma too_old_iff:
  "DeliveredWindow_too_old w i \<longleftrightarrow> (\<exists>h. dw_high_water w = Some h \<and> i \<le> h \<and> \<not> recent h i)"
  by (auto simp: DeliveredWindow_too_old_def recent_def far_iff not_less split: option.split)

lemma seen_hist:
  assumes "delivered_hist c w H" "\<not> DeliveredWindow_too_old w i"
  shows "DeliveredWindow_seen w i \<longleftrightarrow> H i \<noteq> None"
proof (cases "dw_high_water w")
  case None
  with assms(1) show ?thesis by (simp add: DeliveredWindow_seen_def delivered_hist_def)
next
  case (Some h)
  show ?thesis
  proof (cases "i \<le> h")
    case True
    with assms(2) Some have "recent h i" by (auto simp: too_old_iff)
    moreover from this True have "\<not> of_nat DELIVERED_WINDOW_IDS \<le> h - i" by (simp add: far_iff recent_def)
    ultimately show ?thesis
      using True assms(1) Some
      by (auto simp: DeliveredWindow_seen_def delivered_hist_def bit_cell not_less)
  next
    case False
    with assms(1) Some show ?thesis by (auto simp: DeliveredWindow_seen_def delivered_hist_def)
  qed
qed

lemma matches_hist:
  assumes "delivered_hist c w H" "\<not> DeliveredWindow_too_old w i" "H i = Some bs"
  shows "DeliveredWindow_matches c w i cs \<longleftrightarrow> sha256 c bs = sha256 c cs \<and> length bs = length cs"
proof (cases "dw_high_water w")
  case None
  with assms show ?thesis by (simp add: delivered_hist_def)
next
  case (Some h)
  with assms have "recent h i" by (auto simp: too_old_iff delivered_hist_def)
  with assms(1,3) Some show ?thesis by (auto simp: DeliveredWindow_matches_def delivered_hist_def)
qed


text \<open>Advancing empties exactly the cells between the old and the new high water.\<close>

lemma advance_cells:
  assumes hist: "delivered_hist c w H" and old: "\<not> DeliveredWindow_too_old w i"
    and h: "dw_high_water w = Some h" "h < i"
  defines "w' \<equiv> DeliveredWindow_advance w i"
  shows "ring_ok w' \<and> dw_high_water w' = Some i
    \<and> (\<forall>j. recent i j \<and> j \<noteq> i \<longrightarrow> (cell w' (unat j mod 4096) \<longleftrightarrow> H j \<noteq> None)
        \<and> (H j \<noteq> None \<longrightarrow> dw_fingerprints w' ! (unat j mod 4096) = dw_fingerprints w ! (unat j mod 4096)))"
proof -
  have ring: "ring_ok w" using hist by (simp add: delivered_hist_def)
  have H: "j \<le> h" if "H j \<noteq> None" for j using hist h that by (auto simp: delivered_hist_def)
  have hi: "unat h < unat i" using h(2) by (simp add: word_less_nat_alt)
  show ?thesis
  proof (cases "of_nat DELIVERED_WINDOW_IDS \<le> i - h")
    case True
    then have far: "4096 \<le> unat i - unat h" using far_iff [of h i] h(2) by simp
    have "H j = None" if "recent i j" for j
      using that H [of j] far by (cases "H j") (auto simp: recent_def word_le_nat_alt)
    then show ?thesis
      using True h ring by (simp add: w'_def DeliveredWindow_advance_def cell_clear_all)
  next
    case False
    then have near: "unat i - unat h < 4096" using far_iff [of h i] h(2) by simp
    let ?ids = "word_range (h + 1) i"
    have w': "w' = (foldl DeliveredWindow_clear w ?ids)\<lparr>dw_high_water := Some i\<rparr>"
      using False h by (simp add: w'_def DeliveredWindow_advance_def)
    have "unat (h + 1) = unat h + 1"
      using hi unsigned_less [of i, where 'a = nat] by (simp add: unat_add_small)
    then have ids: "set ?ids = {v. h < v \<and> v \<le> i}"
      by (auto simp: set_word_range word_le_nat_alt word_less_nat_alt)
    have touched: "unat j mod 4096 \<in> (\<lambda>i. unat i mod 4096) ` set ?ids \<longleftrightarrow> h < j" if j: "recent i j" for j
    proof
      assume "h < j" with j show "unat j mod 4096 \<in> (\<lambda>i. unat i mod 4096) ` set ?ids"
        by (auto simp: ids recent_def)
    next
      assume "unat j mod 4096 \<in> (\<lambda>i. unat i mod 4096) ` set ?ids"
      then obtain v where v: "unat j mod 4096 = unat v mod 4096" "h < v" "v \<le> i" by (auto simp: ids)
      show "h < j"
      proof (rule ccontr)
        assume "\<not> h < j"
        with v j have "unat j \<noteq> unat v" "unat j < unat v + 4096" "unat v < unat j + 4096"
          by (auto simp: recent_def word_le_nat_alt word_less_nat_alt)
        from mod_window [OF this] v(1) show False by simp
      qed
    qed
    have old_cells: "cell w (unat j mod 4096) \<longleftrightarrow> H j \<noteq> None" if "recent i j" "\<not> h < j" for j
    proof -
      have "recent h j" using that hi by (auto simp: recent_def word_le_nat_alt word_less_nat_alt)
      with hist h show ?thesis by (simp add: delivered_hist_def)
    qed
    have none: "h < j \<Longrightarrow> H j = None" for j using H [of j] by (cases "H j") auto
    have "(cell w' (unat j mod 4096) \<longleftrightarrow> H j \<noteq> None) \<and> (H j \<noteq> None \<longrightarrow>
        dw_fingerprints w' ! (unat j mod 4096) = dw_fingerprints w ! (unat j mod 4096))"
      if j: "recent i j" for j
      using clear_range [OF ring, of "unat j mod 4096" ?ids] touched [OF j] old_cells [OF j] none [of j]
      by (cases "h < j") (auto simp: w')
    moreover have "ring_ok w'" using clear_range [OF ring, of 0 ?ids] by (simp add: w')
    ultimately show ?thesis by (simp add: w')
  qed
qed

lemma advance_hist:
  assumes hist: "delivered_hist c w H" and old: "\<not> DeliveredWindow_too_old w i"
  obtains g where "dw_high_water (DeliveredWindow_advance w i) = Some g" "recent g i"
    "\<And>j. H j \<noteq> None \<Longrightarrow> j \<le> g" "g = i \<or> H g \<noteq> None" "ring_ok (DeliveredWindow_advance w i)"
    "\<And>j. recent g j \<Longrightarrow> j \<noteq> i \<Longrightarrow> cell (DeliveredWindow_advance w i) (unat j mod 4096) \<longleftrightarrow> H j \<noteq> None"
    "\<And>j bs. recent g j \<Longrightarrow> j \<noteq> i \<Longrightarrow> H j = Some bs \<Longrightarrow>
       dw_fingerprints (DeliveredWindow_advance w i) ! (unat j mod 4096)
         = Some \<lparr>fp_digest = sha256 c bs, fp_length = length bs\<rparr>"
proof (cases "dw_high_water w")
  case None
  with hist show ?thesis
    by (intro that [of i]) (auto simp: delivered_hist_def DeliveredWindow_advance_def recent_def)
next
  case (Some h)
  show ?thesis
  proof (cases "h < i")
    case True
    note adv = advance_cells [OF hist old Some True]
    have "recent h j" if "recent i j" "H j \<noteq> None" for j
      using that hist Some by (auto simp: delivered_hist_def recent_def word_le_nat_alt)
        (metis diff_le_mono le_less_trans nat_less_le True word_less_nat_alt)
    then show ?thesis
      using adv hist Some True
      by (intro that [of i]) (auto simp: delivered_hist_def recent_def dest: less_imp_le order_trans)
  next
    case False
    then have "DeliveredWindow_advance w i = w" "recent h i"
      using Some old by (auto simp: DeliveredWindow_advance_def too_old_iff)
    with hist Some show ?thesis by (intro that [of h]) (auto simp: delivered_hist_def)
  qed
qed

lemma insert_hist:
  assumes hist: "delivered_hist c w H" and old: "\<not> DeliveredWindow_too_old w i"
  shows "delivered_hist c (DeliveredWindow_insert c w i bs) (H(i \<mapsto> bs))"
proof -
  obtain g where g: "dw_high_water (DeliveredWindow_advance w i) = Some g" "recent g i"
    "\<And>j. H j \<noteq> None \<Longrightarrow> j \<le> g" "g = i \<or> H g \<noteq> None" "ring_ok (DeliveredWindow_advance w i)"
    "\<And>j. recent g j \<Longrightarrow> j \<noteq> i \<Longrightarrow> cell (DeliveredWindow_advance w i) (unat j mod 4096) \<longleftrightarrow> H j \<noteq> None"
    "\<And>j bs. recent g j \<Longrightarrow> j \<noteq> i \<Longrightarrow> H j = Some bs \<Longrightarrow>
       dw_fingerprints (DeliveredWindow_advance w i) ! (unat j mod 4096)
         = Some \<lparr>fp_digest = sha256 c bs, fp_length = length bs\<rparr>"
    using hist old by (rule advance_hist) blast
  let ?w = "DeliveredWindow_insert c w i bs"
  have apart: "unat j mod 4096 \<noteq> unat i mod 4096" if "recent g j" "j \<noteq> i" for j
    by (rule mod_window) (use that g(2) in \<open>auto simp: recent_def word_le_nat_alt word_unat_eq_iff\<close>)
  have len: "length (dw_fingerprints (DeliveredWindow_advance w i)) = 4096"
    using g(5) by (simp add: ring_ok_def)
  have "dw_high_water ?w = Some g" "ring_ok ?w"
    using g(1,5) by (simp_all add: DeliveredWindow_insert_def Let_def ring_ok_def)
      (simp_all add: DeliveredWindow_set_def DeliveredWindow_clear_def DeliveredWindow_position_def Let_def)
  moreover have "cell ?w k \<longleftrightarrow> k = unat i mod 4096 \<or> cell (DeliveredWindow_advance w i) k" if "k < 4096" for k
    using cell_set [of "DeliveredWindow_clear (DeliveredWindow_advance w i) i" k i]
      cell_clear [of "DeliveredWindow_advance w i" k i] g(5) that
    by (auto simp: DeliveredWindow_insert_def Let_def cell_def)
  moreover have "dw_fingerprints ?w ! (unat i mod 4096) = Some \<lparr>fp_digest = sha256 c bs, fp_length = length bs\<rparr>"
    "k \<noteq> unat i mod 4096 \<Longrightarrow> dw_fingerprints ?w ! k = dw_fingerprints (DeliveredWindow_advance w i) ! k" for k
    using len by (simp_all add: DeliveredWindow_insert_def Let_def)
  moreover have "i \<le> g" using g(2) by (simp add: recent_def)
  ultimately show ?thesis
    using g(3,4,6,7) apart by (auto simp: delivered_hist_def)
qed

lemma insert_not_old:
  assumes "delivered_hist c w H" "\<not> DeliveredWindow_too_old w i"
  shows "\<not> DeliveredWindow_too_old (DeliveredWindow_insert c w i bs) i"
proof -
  obtain g where "dw_high_water (DeliveredWindow_advance w i) = Some g" "recent g i"
    using assms by (rule advance_hist) blast
  moreover have "dw_high_water (DeliveredWindow_insert c w i bs) = dw_high_water (DeliveredWindow_advance w i)"
    by (simp add: DeliveredWindow_insert_def DeliveredWindow_set_def DeliveredWindow_clear_def
        DeliveredWindow_position_def Let_def)
  ultimately show ?thesis by (simp add: too_old_iff)
qed

section \<open>Each id is delivered once\<close>

text \<open>Delivering through the window alone: an id it has not seen and that is not too old goes in.\<close>

definition window_deliver :: "crypto \<Rightarrow> delivered_window \<Rightarrow> u64 \<times> bytes \<Rightarrow> delivered_window option" where
  "window_deliver c w = (\<lambda>(i, bs).
     if DeliveredWindow_too_old w i \<or> DeliveredWindow_seen w i then None
     else Some (DeliveredWindow_insert c w i bs))"

definition delivered_ids :: "crypto \<Rightarrow> delivered_window \<Rightarrow> u64 set \<Rightarrow> bool" where
  "delivered_ids c w I \<longleftrightarrow> (\<exists>H. delivered_hist c w H \<and> dom H = I)"

interpretation dw: anti_replay "window_deliver c" fst "delivered_ids c" for c
proof unfold_locales
  fix s H x s'
  assume h: "delivered_ids c s H" and a: "window_deliver c s x = Some s'"
  obtain i bs where x: "x = (i, bs)" by (cases x)
  from h obtain M where M: "delivered_hist c s M" "dom M = H" by (auto simp: delivered_ids_def)
  from a have ok: "\<not> DeliveredWindow_too_old s i" "\<not> DeliveredWindow_seen s i"
    "s' = DeliveredWindow_insert c s i bs"
    by (auto simp: window_deliver_def x split: if_splits)
  from seen_hist [OF M(1) ok(1)] ok(2) M(2) show "fst x \<notin> H" by (auto simp: x)
  from insert_hist [OF M(1) ok(1), of bs] M(2) show "delivered_ids c s' (insert (fst x) H)"
    by (auto simp: delivered_ids_def ok(3) x intro!: exI [where x = "M(i \<mapsto> bs)"])
qed

section \<open>Properties\<close>

text \<open>
  C18: The ring of 4096 bits and fingerprints implements the full delivery history. As long as an
  id is not too old, \<open>seen\<close> answers whether it was ever delivered, \<open>matches\<close> compares a copy with
  what was delivered under that id, and \<open>insert\<close> adds exactly that delivery, also when it jumps
  ahead and reuses the cells of older ids.
\<close>

theorem delivered_window_refines_history:
  assumes "delivered_hist c w H" "\<not> DeliveredWindow_too_old w i"
  shows "(DeliveredWindow_seen w i \<longleftrightarrow> H i \<noteq> None)
    \<and> (\<forall>bs. H i = Some bs \<longrightarrow>
         (DeliveredWindow_matches c w i cs \<longleftrightarrow> sha256 c bs = sha256 c cs \<and> length bs = length cs))
    \<and> delivered_hist c (DeliveredWindow_insert c w i cs) (H(i \<mapsto> cs))"
  using seen_hist [OF assms] matches_hist [OF assms] insert_hist [OF assms] by blast

theorem delivered_window_refines_history_witness:
  "\<not> DeliveredWindow_seen (DeliveredWindow_insert sample_crypto DeliveredWindow_empty 5 [1]) 9000
   \<and> delivered_hist sample_crypto (DeliveredWindow_insert sample_crypto (DeliveredWindow_insert sample_crypto DeliveredWindow_empty 5 [1]) 9000 [2])
       [5 \<mapsto> [1], 9000 \<mapsto> [2]]"
proof -
  let ?w = "DeliveredWindow_insert sample_crypto DeliveredWindow_empty 5 [1]"
  have "\<not> DeliveredWindow_too_old DeliveredWindow_empty 5"
    by (simp add: DeliveredWindow_too_old_def DeliveredWindow_empty_def)
  from insert_hist [OF hist_empty this] have "delivered_hist sample_crypto ?w [5 \<mapsto> [1]]" .
  moreover have "dw_high_water ?w = Some 5"
    by (simp add: DeliveredWindow_insert_def DeliveredWindow_advance_def DeliveredWindow_empty_def
        DeliveredWindow_set_def DeliveredWindow_clear_def DeliveredWindow_position_def Let_def)
  then have "\<not> DeliveredWindow_too_old ?w 9000" by (simp add: DeliveredWindow_too_old_def)
  ultimately show ?thesis
    using delivered_window_refines_history [of sample_crypto ?w "[5 \<mapsto> [1]]" 9000 "[2]"] by simp
qed

end
