(* ===== verification/Redundant.thy ===== *)
theory Redundant
  imports Delivered_Window Mobility
begin

text \<open>
  The two-slot Profile-3 delivery session of \<open>src/rust/crates/r8-redundant/src/lib.rs\<close>: the same
  plaintext is sent on every active path under one delivery id, and the receiver delivers the first
  copy and suppresses the others.

  A \<open>&mut self\<close> method returns its result and the new session. An \<open>Arc<InboundLease>\<close> is the number
  of its allocation; \<open>lease_heap\<close> holds the next number and the leases whose flag is still true. A
  preview that is consumed or dropped clears its flag. Capabilities are numbered as in \<open>Mobility\<close>.
  \<open>usize\<close> values are naturals, \<open>NonZeroU64\<close> values are words, and \<open>HashMap\<close> is an association
  list with one entry per key, whose order no operation depends on. \<open>None\<close> is the panic of the
  session-owner allocator.
\<close>

section \<open>Data\<close>

definition OVERHEAD :: nat where "OVERHEAD = 84"
definition QUEUE_PACKETS :: nat where "QUEUE_PACKETS = 256"
definition QUEUE_BYTES :: nat where "QUEUE_BYTES = 256 * 1024"
definition DEDUP_IDS :: nat where "DEDUP_IDS = 4096"
definition DEDUP_LIFETIME_MS :: u64 where "DEDUP_LIFETIME_MS = 30000"
definition DELIVERY_GAP :: u64 where "DELIVERY_GAP = 65536"
definition EVENTS :: nat where "EVENTS = 64"

lemmas redundant_consts =
  OVERHEAD_def QUEUE_PACKETS_def QUEUE_BYTES_def DEDUP_IDS_def DEDUP_LIFETIME_MS_def
  DELIVERY_GAP_def EVENTS_def

datatype PathState =
    Absent_path | Candidate_path | Validated_path | Active_path | Degraded_path | Removed_path
  | Released_path

datatype SessionState = Active_session | Released_session

datatype RedundantError =
    ProfileInvalid | AdmissionInvalid | PathUnavailable | BindingMismatch | MtuExceeded
  | QueueOverflow | CounterExhausted_red | DeliveryExhausted | AuthFailed_red | Replay_red
  | DeliveryGap | DedupCapacity | DivergentDelivery | PathFailure | Released_red

fun RedundantError_category :: "RedundantError \<Rightarrow> string" where
  "RedundantError_category MtuExceeded = ''E-BUDGET''"
| "RedundantError_category DedupCapacity = ''E-CAPACITY''"
| "RedundantError_category CounterExhausted_red = ''E-COUNTER''"
| "RedundantError_category DeliveryExhausted = ''E-COUNTER''"
| "RedundantError_category Replay_red = ''E-REPLAY''"
| "RedundantError_category DeliveryGap = ''E-REPLAY''"
| "RedundantError_category DivergentDelivery = ''E-PATH''"
| "RedundantError_category AdmissionInvalid = ''E-CANDIDATE''"
| "RedundantError_category PathUnavailable = ''E-PATH''"
| "RedundantError_category BindingMismatch = ''E-PATH''"
| "RedundantError_category PathFailure = ''E-PATH''"
| "RedundantError_category Released_red = ''E-TIMEOUT''"
| "RedundantError_category ProfileInvalid = ''E-PATH''"
| "RedundantError_category QueueOverflow = ''E-PATH''"
| "RedundantError_category AuthFailed_red = ''E-PATH''"

datatype RedundantEvent =
    InitialDegraded_event | Recovered_event | QueueOverflow_event | Divergence_event
  | Degraded_event | Released_event

record outbound_packet =
  op_slot :: u8
  op_binding :: ObservedBinding
  op_packet :: bytes

datatype SendOutcome = Enqueued u64 "outbound_packet list" | DroppedNewest

datatype ReceiveOutcome = Delivered bytes | Suppressed

datatype ReceiveDecision = New | Equal

record inbound_preview =
  ip_owner :: u64
  ip_generation :: u64
  ip_slot :: u8
  ip_session_preview :: "profile3_data_preview option"
  ip_decision :: ReceiveDecision
  ip_now_ms :: u64
  ip_lease :: nat

record mobility_inbound_commit =
  mi_owner :: u64
  mi_generation :: u64
  mi_slot :: u8
  mi_lease :: nat
  mi_transition :: transition
  mi_delivery_id :: u64
  mi_plaintext :: bytes
  mi_decision :: ReceiveDecision
  mi_now_ms :: u64

record path =
  pa_state :: PathState
  pa_binding :: "ObservedBinding option"
  pa_local_loc :: "bytes option"
  pa_peer_loc :: "bytes option"
  pa_budget :: nat
  pa_session :: "directional_session option"
  pa_queue :: "outbound_packet list"
  pa_queued_bytes :: nat

record dedup =
  de_bytes :: bytes
  de_expiry_ms :: u64

record redundant_session =
  rs_bootstrap :: "profile3_bootstrap option"
  rs_paths :: "path list"
  rs_state :: SessionState
  rs_next_delivery :: u64
  rs_delivered :: delivered_window
  rs_dedup :: "(u64 \<times> dedup) list"
  rs_events :: "RedundantEvent list"
  rs_admission_issuer :: "nat option"
  rs_receive_owner :: u64
  rs_receive_generation :: u64
  rs_receive_preview :: "nat option"

record lease_heap =
  lh_next :: nat
  lh_active :: "nat set"

definition drop_lease :: "nat \<Rightarrow> lease_heap \<Rightarrow> lease_heap" where
  "drop_lease l lh = lh\<lparr>lh_active := lh_active lh - {l}\<rparr>"

definition map_session :: "SessionError \<Rightarrow> RedundantError" where
  "map_session e =
     (case e of
        Budget \<Rightarrow> MtuExceeded
      | CounterExhausted \<Rightarrow> CounterExhausted_red
      | CounterRange \<Rightarrow> Replay_red
      | Replay \<Rightarrow> Replay_red
      | _ \<Rightarrow> AuthFailed_red)"

section \<open>Paths and events\<close>

definition Path_clear :: "path \<Rightarrow> path" where
  "Path_clear p = p\<lparr>pa_queue := [], pa_queued_bytes := 0, pa_binding := None, pa_local_loc := None,
     pa_peer_loc := None, pa_session := None\<rparr>"

definition Path_can_enqueue :: "path \<Rightarrow> nat \<Rightarrow> bool" where
  "Path_can_enqueue p len \<longleftrightarrow> length (pa_queue p) < QUEUE_PACKETS
     \<and> (case usize_checked_add (pa_queued_bytes p) len of None \<Rightarrow> False | Some v \<Rightarrow> v \<le> QUEUE_BYTES)"

text \<open>\<open>paths.get(slot)\<close> and a write through \<open>get_mut\<close>.\<close>

definition path_at :: "redundant_session \<Rightarrow> nat \<Rightarrow> path option" where
  "path_at s k = (if k < length (rs_paths s) then Some (rs_paths s ! k) else None)"

definition put_path :: "nat \<Rightarrow> path \<Rightarrow> redundant_session \<Rightarrow> redundant_session" where
  "put_path k p s = s\<lparr>rs_paths := (rs_paths s)[k := p]\<rparr>"

definition RedundantSession_event :: "RedundantEvent \<Rightarrow> redundant_session \<Rightarrow> redundant_session" where
  "RedundantSession_event e s = s\<lparr>rs_events :=
     (if length (rs_events s) = EVENTS then tl (rs_events s) else rs_events s) @ [e]\<rparr>"

definition RedundantSession_live :: "redundant_session \<Rightarrow> RedundantError + unit" where
  "RedundantSession_live s = (if rs_state s = Active_session then Inr () else Inl Released_red)"

definition RedundantSession_path_state :: "redundant_session \<Rightarrow> u8 \<Rightarrow> PathState option" where
  "RedundantSession_path_state s slot = map_option pa_state (path_at s (unat slot))"

definition RedundantSession_drain_events :: "redundant_session \<Rightarrow> RedundantEvent list \<times> redundant_session" where
  "RedundantSession_drain_events s = (rs_events s, s\<lparr>rs_events := []\<rparr>)"

definition RedundantSession_expire :: "redundant_session \<Rightarrow> u64 \<Rightarrow> redundant_session" where
  "RedundantSession_expire s now_ms =
     s\<lparr>rs_dedup := filter (\<lambda>(_, e). de_expiry_ms e > now_ms) (rs_dedup s)\<rparr>"

definition RedundantSession_reap_preview :: "redundant_session \<Rightarrow> lease_heap \<Rightarrow> redundant_session" where
  "RedundantSession_reap_preview s lh =
     (case rs_receive_preview s of
        Some l \<Rightarrow> if l \<notin> lh_active lh then s\<lparr>rs_receive_preview := None\<rparr> else s
      | None \<Rightarrow> s)"

definition RedundantSession_close ::
    "redundant_session \<Rightarrow> lease_heap \<Rightarrow> redundant_session \<times> lease_heap" where
  "RedundantSession_close s lh =
     (if rs_state s = Released_session then (s, lh)
      else
        (RedundantSession_event Released_event
           (s\<lparr>rs_paths := map (\<lambda>p. (Path_clear p)\<lparr>pa_state := Released_path\<rparr>) (rs_paths s),
              rs_dedup := [],
              rs_delivered := DeliveredWindow_clear_all ((rs_delivered s)\<lparr>dw_high_water := None\<rparr>),
              rs_admission_issuer := None, rs_next_delivery := 1, rs_bootstrap := None,
              rs_receive_preview := None, rs_receive_generation := u64_max,
              rs_state := Released_session\<rparr>),
         case rs_receive_preview s of None \<Rightarrow> lh | Some l \<Rightarrow> drop_lease l lh))"

section \<open>Creation and activation\<close>

definition RedundantSession_new ::
    "profile3_bootstrap \<Rightarrow> ObservedBinding \<Rightarrow> u64 \<Rightarrow> u64 \<Rightarrow> RedundantError + redundant_session \<times> u64" where
  "RedundantSession_new bootstrap slot0_binding delivery_seed next_owner =
     and_then (map_err (\<lambda>_. BindingMismatch) (ObservedBinding_validate slot0_binding)) (\<lambda>_.
     let budget = pb_budget bootstrap in
     if \<not> (OVERHEAD \<le> budget \<and> budget \<le> 1280) then Inl ProfileInvalid
     else
       let (taken, bootstrap1) = Profile3Bootstrap_take_slot0 bootstrap in
       and_then (map_err map_session taken) (\<lambda>slot0.
       if \<not> DirectionalSession_can_reserve slot0 then Inl CounterExhausted_red
       else Inr (RedundantSession_event InitialDegraded_event
         \<lparr>rs_bootstrap = Some bootstrap1,
          rs_paths =
            [\<lparr>pa_state = Active_path, pa_binding = Some slot0_binding,
              pa_local_loc = Some (pb_local_loc bootstrap1), pa_peer_loc = Some (pb_peer_loc bootstrap1),
              pa_budget = budget, pa_session = Some slot0, pa_queue = [], pa_queued_bytes = 0\<rparr>,
             \<lparr>pa_state = Absent_path, pa_binding = None, pa_local_loc = None, pa_peer_loc = None,
              pa_budget = budget, pa_session = None, pa_queue = [], pa_queued_bytes = 0\<rparr>],
          rs_state = Active_session, rs_next_delivery = delivery_seed,
          rs_delivered = DeliveredWindow_empty, rs_dedup = [], rs_events = [],
          rs_admission_issuer = None, rs_receive_owner = next_owner, rs_receive_generation = 0,
          rs_receive_preview = None\<rparr>, next_owner + 1)))"

text \<open>The receive owner comes from a wrapping \<open>fetch_add\<close>. \<open>live\<close> holds the capabilities in use,
  \<open>cap\<close> is the fresh one.\<close>

definition RedundantSession_issue_profile3_admission_owner ::
    "nat set \<Rightarrow> nat \<Rightarrow> redundant_session \<Rightarrow> u32 \<Rightarrow>
       (RedundantError + admission_owner) \<times> redundant_session" where
  "RedundantSession_issue_profile3_admission_owner live cap s policy_id =
     (case RedundantSession_live s of
        Inl e \<Rightarrow> (Inl e, s)
      | Inr _ \<Rightarrow>
        if pa_state (rs_paths s ! 1) \<noteq> Absent_path
           \<or> (case rs_admission_issuer s of None \<Rightarrow> False
                | Some issuer \<Rightarrow> Profile3AdmissionIssuer_owner_is_live live issuer)
        then (Inl AdmissionInvalid, s)
        else
          let s1 = s\<lparr>rs_admission_issuer := None\<rparr> in
          case rs_bootstrap s1 of
            None \<Rightarrow> (Inl Released_red, s1)
          | Some bootstrap \<Rightarrow>
            (case pa_session (rs_paths s1 ! 0) of
               None \<Rightarrow> (Inl Released_red, s1)
             | Some session \<Rightarrow>
               (case Profile3AdmissionOwner_issue (pb_scid bootstrap) policy_id
                       (profile3_replay_binding session) cap of
                  Inl _ \<Rightarrow> (Inl AdmissionInvalid, s1)
                | Inr (owner, issuer) \<Rightarrow> (Inr owner, s1\<lparr>rs_admission_issuer := Some issuer\<rparr>))))"

text \<open>The closure of \<open>activate\<close>: the checks, then the slot-1 session from the bootstrap.\<close>

definition activate_session ::
    "crypto \<Rightarrow> nat set \<Rightarrow> redundant_session \<Rightarrow> profile3_admission \<Rightarrow> u64 \<Rightarrow>
       ((RedundantError + directional_session) \<times> redundant_session \<times> u64) option" where
  "activate_session c live s admission next_owner =
     (case rs_bootstrap s of
        None \<Rightarrow> Some (Inl Released_red, s, next_owner)
      | Some bootstrap \<Rightarrow>
        (case pa_session (rs_paths s ! 0) of
           None \<Rightarrow> Some (Inl Released_red, s, next_owner)
         | Some session0 \<Rightarrow>
           if ad_scid admission \<noteq> pb_scid bootstrap
              \<or> \<not> (case rs_admission_issuer s of None \<Rightarrow> False
                     | Some issuer \<Rightarrow> Profile3AdmissionIssuer_admits live issuer admission)
              \<or> \<not> Profile3Admission_matches_replay_binding admission (profile3_replay_binding session0)
           then Some (Inl AdmissionInvalid, s, next_owner)
           else map_option (\<lambda>(r, bootstrap1, next_owner1).
             let s1 = s\<lparr>rs_bootstrap := Some bootstrap1\<rparr> in
             case r of
               Inl e \<Rightarrow> (Inl (map_session e), s1, next_owner1)
             | Inr session \<Rightarrow>
                 if \<not> DirectionalSession_can_reserve session
                 then (Inl CounterExhausted_red, s1, next_owner1)
                 else (Inr session, s1, next_owner1))
             (Profile3Bootstrap_take_slot1_after_admission c bootstrap next_owner)))"

definition RedundantSession_activate ::
    "crypto \<Rightarrow> nat set \<Rightarrow> lease_heap \<Rightarrow> redundant_session \<Rightarrow> profile3_admission \<Rightarrow> nat \<Rightarrow> u64 \<Rightarrow>
       ((RedundantError + unit) \<times> redundant_session \<times> u64) option" where
  "RedundantSession_activate c live lh s admission budget next_owner =
     (if \<not> is_ok (ObservedBinding_validate (ad_binding admission))
      then Some (Inl AdmissionInvalid, s, next_owner)
      else case RedundantSession_live s of
        Inl e \<Rightarrow> Some (Inl e, s, next_owner)
      | Inr _ \<Rightarrow>
        let s1 = RedundantSession_reap_preview s lh in
        if pa_state (rs_paths s1 ! 1) \<noteq> Absent_path \<or> \<not> (OVERHEAD \<le> budget \<and> budget \<le> 1280)
           \<or> rs_receive_preview s1 \<noteq> None
        then Some (Inl AdmissionInvalid, s1, next_owner)
        else case checked_add (rs_receive_generation s1) 1 of
          None \<Rightarrow> Some (Inl Released_red, s1, next_owner)
        | Some next_generation \<Rightarrow>
          let s2 = put_path 1 ((rs_paths s1 ! 1)\<lparr>pa_state := Candidate_path\<rparr>) s1 in
          map_option (\<lambda>(r, s3, next_owner1).
            case r of
              Inl e \<Rightarrow> (Inl e, put_path 1 ((rs_paths s3 ! 1)\<lparr>pa_state := Absent_path\<rparr>) s3, next_owner1)
            | Inr session \<Rightarrow>
              let s4 = s3\<lparr>rs_admission_issuer := None\<rparr>;
                  p = (rs_paths s4 ! 1)\<lparr>pa_state := Active_path, pa_binding := Some (ad_binding admission),
                    pa_local_loc := Some (ad_local_loc admission),
                    pa_peer_loc := Some (ad_peer_loc admission), pa_budget := budget,
                    pa_session := Some session\<rparr>;
                  s5 = RedundantSession_event Recovered_event (put_path 1 p s4) in
              (Inr (), s5\<lparr>rs_receive_generation := next_generation\<rparr>, next_owner1))
            (activate_session c live s2 admission next_owner))"

section \<open>Sending\<close>

definition RedundantSession_header :: "redundant_session \<Rightarrow> nat \<Rightarrow> RedundantError + header" where
  "RedundantSession_header s k =
     and_then (ok_or Released_red (rs_bootstrap s)) (\<lambda>bootstrap.
     and_then (ok_or PathUnavailable (path_at s k)) (\<lambda>p.
     and_then (ok_or PathUnavailable (pa_local_loc p)) (\<lambda>src.
     and_then (ok_or PathUnavailable (pa_peer_loc p)) (\<lambda>dst.
       Inr \<lparr>h_profile = 3, h_tc = 0, h_next_header = NH_SES, h_hop_limit = 64,
            h_flags = (if k = 0 then 1 else 3), h_path_slot = of_nat k,
            h_scid = pb_scid bootstrap, h_src = src, h_dst = dst\<rparr>))))"

definition active_paths :: "redundant_session \<Rightarrow> nat list" where
  "active_paths s = filter (\<lambda>k. pa_state (rs_paths s ! k) = Active_path) [0..<length (rs_paths s)]"

text \<open>The checks of \<open>outbound\<close>, path by path: \<open>Some r\<close> is an early return with \<open>r\<close>.\<close>

fun outbound_checks ::
    "redundant_session \<Rightarrow> lease_heap \<Rightarrow> nat \<Rightarrow> nat list \<Rightarrow>
       (RedundantError + SendOutcome) option \<times> redundant_session \<times> lease_heap" where
  "outbound_checks s lh len [] = (None, s, lh)"
| "outbound_checks s lh len (k # ks) =
     (let p = rs_paths s ! k in
      if len > pa_budget p then (Some (Inl MtuExceeded), s, lh)
      else if \<not> Path_can_enqueue p len
      then (Some (Inr DroppedNewest), RedundantSession_event QueueOverflow_event s, lh)
      else if \<not> (case pa_session p of None \<Rightarrow> False | Some d \<Rightarrow> DirectionalSession_can_reserve d)
      then (let (s1, lh1) = RedundantSession_close s lh in (Some (Inl CounterExhausted_red), s1, lh1))
      else outbound_checks s lh len ks)"

text \<open>One path of the sending loop.\<close>

definition outbound_path ::
    "crypto \<Rightarrow> redundant_session \<Rightarrow> u64 \<Rightarrow> bytes \<Rightarrow> nat \<Rightarrow>
       (RedundantError + outbound_packet) \<times> redundant_session" where
  "outbound_path c s delivery plaintext k =
     (case RedundantSession_header s k of
        Inl e \<Rightarrow> (Inl e, s)
      | Inr h \<Rightarrow>
        let p = rs_paths s ! k in
        (case pa_binding p of
           None \<Rightarrow> (Inl PathUnavailable, s)
         | Some binding \<Rightarrow>
           (case pa_session p of
              None \<Rightarrow> (Inl PathUnavailable, s)
            | Some session \<Rightarrow>
              (case DirectionalSession_encrypt_profile3_data c session h delivery plaintext (pa_budget p) of
                 (Inl e, session1) \<Rightarrow>
                   (Inl (map_session e), put_path k (p\<lparr>pa_session := Some session1\<rparr>) s)
               | (Inr packet, session1) \<Rightarrow>
                   let out = \<lparr>op_slot = of_nat k, op_binding = binding, op_packet = packet\<rparr> in
                   (Inr out, put_path k (p\<lparr>pa_session := Some session1,
                      pa_queued_bytes := pa_queued_bytes p + length packet,
                      pa_queue := pa_queue p @ [out]\<rparr>) s)))))"

fun outbound_loop ::
    "crypto \<Rightarrow> redundant_session \<Rightarrow> u64 \<Rightarrow> bytes \<Rightarrow> nat list \<Rightarrow>
       (RedundantError + outbound_packet list) \<times> redundant_session" where
  "outbound_loop c s delivery plaintext [] = (Inr [], s)"
| "outbound_loop c s delivery plaintext (k # ks) =
     (case outbound_path c s delivery plaintext k of
        (Inl e, s1) \<Rightarrow> (Inl e, s1)
      | (Inr out, s1) \<Rightarrow>
        (case outbound_loop c s1 delivery plaintext ks of
           (Inl e, s2) \<Rightarrow> (Inl e, s2)
         | (Inr outs, s2) \<Rightarrow> (Inr (out # outs), s2)))"

definition RedundantSession_outbound ::
    "crypto \<Rightarrow> redundant_session \<Rightarrow> lease_heap \<Rightarrow> bytes \<Rightarrow>
       (RedundantError + SendOutcome) \<times> redundant_session \<times> lease_heap" where
  "RedundantSession_outbound c s lh plaintext =
     (case RedundantSession_live s of
        Inl e \<Rightarrow> (Inl e, s, lh)
      | Inr _ \<Rightarrow>
        (case usize_checked_add (length plaintext) OVERHEAD of
           None \<Rightarrow> (Inl MtuExceeded, s, lh)
         | Some len \<Rightarrow>
           let active = active_paths s in
           if active = [] then (Inl PathUnavailable, s, lh)
           else (case outbound_checks s lh len active of
             (Some r, s1, lh1) \<Rightarrow> (r, s1, lh1)
           | (None, s1, lh1) \<Rightarrow>
             let delivery = rs_next_delivery s1 in
             if delivery = u64_max
             then (let (s2, lh2) = RedundantSession_close s1 lh1 in (Inl DeliveryExhausted, s2, lh2))
             else (case outbound_loop c s1 delivery plaintext active of
               (Inl e, s2) \<Rightarrow> (Inl e, s2, lh1)
             | (Inr packets, s2) \<Rightarrow>
                 (Inr (Enqueued delivery packets), s2\<lparr>rs_next_delivery := delivery + 1\<rparr>, lh1)))))"

definition RedundantSession_front :: "redundant_session \<Rightarrow> u8 \<Rightarrow> outbound_packet option" where
  "RedundantSession_front s slot =
     Option.bind (path_at s (unat slot)) (\<lambda>p. case pa_queue p of [] \<Rightarrow> None | q # _ \<Rightarrow> Some q)"

definition RedundantSession_confirm_sent ::
    "redundant_session \<Rightarrow> u8 \<Rightarrow> bytes \<Rightarrow> (RedundantError + unit) \<times> redundant_session" where
  "RedundantSession_confirm_sent s slot packet =
     (case path_at s (unat slot) of
        None \<Rightarrow> (Inl PathUnavailable, s)
      | Some p \<Rightarrow>
        (case pa_queue p of
           [] \<Rightarrow> (Inl PathUnavailable, s)
         | sent # rest \<Rightarrow>
           if op_packet sent \<noteq> packet then (Inl PathFailure, s)
           else (Inr (), put_path (unat slot) (p\<lparr>pa_queue := rest,
             pa_queued_bytes := pa_queued_bytes p - length (op_packet sent)\<rparr>) s)))"

section \<open>Receiving\<close>

definition RedundantSession_preview_inbound_inner ::
    "crypto \<Rightarrow> redundant_session \<Rightarrow> lease_heap \<Rightarrow> u8 \<Rightarrow> ObservedBinding \<Rightarrow> bytes \<Rightarrow> u64 \<Rightarrow> bool \<Rightarrow>
       (RedundantError + inbound_preview) \<times> redundant_session \<times> lease_heap" where
  "RedundantSession_preview_inbound_inner c s0 lh slot binding packet now_ms require_active_binding =
     (if \<not> is_ok (ObservedBinding_validate binding) then (Inl BindingMismatch, s0, lh)
      else case RedundantSession_live s0 of
        Inl e \<Rightarrow> (Inl e, s0, lh)
      | Inr _ \<Rightarrow>
        let s = RedundantSession_reap_preview s0 lh in
        if rs_receive_preview s \<noteq> None then (Inl DedupCapacity, s, lh)
        else case path_at s (unat slot) of
          None \<Rightarrow> (Inl PathUnavailable, s, lh)
        | Some p \<Rightarrow>
          if pa_state p \<noteq> Active_path \<or> (require_active_binding \<and> pa_binding p \<noteq> Some binding)
          then (Inl BindingMismatch, s, lh)
          else (case unpack_with_budget packet (pa_budget p) of
            Inl _ \<Rightarrow> (Inl AuthFailed_red, s, lh)
          | Inr (h, _) \<Rightarrow>
            (case rs_bootstrap s of
               None \<Rightarrow> (Inl Released_red, s, lh)
             | Some bootstrap \<Rightarrow>
               if h_scid h \<noteq> pb_scid bootstrap \<or> h_path_slot h \<noteq> slot
                  \<or> pa_peer_loc p \<noteq> Some (h_src h) \<or> pa_local_loc p \<noteq> Some (h_dst h)
               then (Inl AuthFailed_red, s, lh)
               else (case pa_session p of
                 None \<Rightarrow> (Inl PathUnavailable, s, lh)
               | Some session \<Rightarrow>
                 (case DirectionalSession_preview_profile3_data c session packet of
                    Inl e \<Rightarrow> (Inl (map_session e), s, lh)
                  | Inr preview \<Rightarrow>
                    let i = p3_delivery_id preview;
                        accept = (\<lambda>decision.
                          (Inr \<lparr>ip_owner = rs_receive_owner s, ip_generation = rs_receive_generation s,
                                ip_slot = slot, ip_session_preview = Some preview,
                                ip_decision = decision, ip_now_ms = now_ms, ip_lease = lh_next lh\<rparr>,
                           s\<lparr>rs_receive_preview := Some (lh_next lh)\<rparr>,
                           \<lparr>lh_next = lh_next lh + 1, lh_active = insert (lh_next lh) (lh_active lh)\<rparr>)) in
                    if DeliveredWindow_too_old (rs_delivered s) i then (Inl Replay_red, s, lh)
                    else if DeliveredWindow_seen (rs_delivered s) i then
                      if DeliveredWindow_matches c (rs_delivered s) i (p3_plaintext preview)
                      then accept Equal
                      else (let (s1, lh1) = RedundantSession_close
                                  (RedundantSession_event Divergence_event s) lh
                            in (Inl DivergentDelivery, s1, lh1))
                    else if (case dw_high_water (rs_delivered s) of None \<Rightarrow> False
                             | Some high \<Rightarrow> i > high \<and> i - high > DELIVERY_GAP)
                    then (Inl DeliveryGap, s, lh)
                    else accept New)))))"

definition RedundantSession_preview_inbound ::
    "crypto \<Rightarrow> redundant_session \<Rightarrow> lease_heap \<Rightarrow> u8 \<Rightarrow> ObservedBinding \<Rightarrow> bytes \<Rightarrow> u64 \<Rightarrow>
       (RedundantError + inbound_preview) \<times> redundant_session \<times> lease_heap" where
  "RedundantSession_preview_inbound c s lh slot binding packet now_ms =
     RedundantSession_preview_inbound_inner c s lh slot binding packet now_ms True"

definition RedundantSession_preview_mobility_inbound ::
    "crypto \<Rightarrow> redundant_session \<Rightarrow> lease_heap \<Rightarrow> u8 \<Rightarrow> ObservedBinding \<Rightarrow> bytes \<Rightarrow> u64 \<Rightarrow>
       (RedundantError + inbound_preview) \<times> redundant_session \<times> lease_heap" where
  "RedundantSession_preview_mobility_inbound c s lh slot observed packet now_ms =
     RedundantSession_preview_inbound_inner c s lh slot observed packet now_ms False"

definition InboundPreview_plaintext :: "lease_heap \<Rightarrow> inbound_preview \<Rightarrow> RedundantError + bytes" where
  "InboundPreview_plaintext lh preview =
     ok_or Released_red (if ip_lease preview \<in> lh_active lh
       then map_option p3_plaintext (ip_session_preview preview) else None)"

definition RedundantSession_accepts_preview ::
    "redundant_session \<Rightarrow> lease_heap \<Rightarrow> inbound_preview \<Rightarrow> bool" where
  "RedundantSession_accepts_preview s lh preview \<longleftrightarrow>
     ip_owner preview = rs_receive_owner s \<and> ip_generation preview = rs_receive_generation s
     \<and> ip_lease preview \<in> lh_active lh \<and> rs_receive_preview s = Some (ip_lease preview)"

definition RedundantSession_accepts_replay_lease ::
    "redundant_session \<Rightarrow> lease_heap \<Rightarrow> mobility_inbound_commit \<Rightarrow> bool" where
  "RedundantSession_accepts_replay_lease s lh ic \<longleftrightarrow>
     mi_owner ic = rs_receive_owner s \<and> mi_generation ic = rs_receive_generation s
     \<and> mi_lease ic \<in> lh_active lh \<and> rs_receive_preview s = Some (mi_lease ic)"

section \<open>Committing\<close>

definition RedundantSession_commit ::
    "redundant_session \<Rightarrow> u8 \<Rightarrow> profile3_data_preview \<Rightarrow>
       (RedundantError + u64 \<times> bytes) \<times> redundant_session" where
  "RedundantSession_commit s slot preview =
     (case path_at s (unat slot) of
        None \<Rightarrow> (Inl PathUnavailable, s)
      | Some p \<Rightarrow>
        (case pa_session p of
           None \<Rightarrow> (Inl PathUnavailable, s)
         | Some session \<Rightarrow>
           (case DirectionalSession_commit_profile3_data session preview of
              (r, session1) \<Rightarrow>
                (map_err map_session r, put_path (unat slot) (p\<lparr>pa_session := Some session1\<rparr>) s))))"

text \<open>The entry with the least \<open>(expiry_ms, id)\<close>.\<close>

definition dedup_before :: "u64 \<times> dedup \<Rightarrow> u64 \<times> dedup \<Rightarrow> bool" where
  "dedup_before x y \<longleftrightarrow> de_expiry_ms (snd x) < de_expiry_ms (snd y)
     \<or> de_expiry_ms (snd x) = de_expiry_ms (snd y) \<and> fst x < fst y"

definition dedup_oldest :: "(u64 \<times> dedup) list \<Rightarrow> (u64 \<times> dedup) option" where
  "dedup_oldest ds = (case ds of [] \<Rightarrow> None
     | d # es \<Rightarrow> Some (foldl (\<lambda>m x. if dedup_before x m then x else m) d es))"

definition dedup_remove :: "u64 \<Rightarrow> (u64 \<times> dedup) list \<Rightarrow> (u64 \<times> dedup) list" where
  "dedup_remove i ds = filter (\<lambda>(k, _). k \<noteq> i) ds"

definition dedup_insert :: "u64 \<Rightarrow> dedup \<Rightarrow> (u64 \<times> dedup) list \<Rightarrow> (u64 \<times> dedup) list" where
  "dedup_insert i d ds = (i, d) # dedup_remove i ds"

text \<open>
  What both commits do with a new delivery: make room in the cache, remember the id in the window
  and the bytes in the cache.
\<close>

definition record_delivery ::
    "crypto \<Rightarrow> redundant_session \<Rightarrow> u64 \<Rightarrow> bytes \<Rightarrow> u64 \<Rightarrow> redundant_session" where
  "record_delivery c s i bs now_ms =
     (let ds = (if length (rs_dedup s) \<ge> DEDUP_IDS
                then (case dedup_oldest (rs_dedup s) of None \<Rightarrow> rs_dedup s
                      | Some (old, _) \<Rightarrow> dedup_remove old (rs_dedup s))
                else rs_dedup s) in
      s\<lparr>rs_delivered := DeliveredWindow_insert c (rs_delivered s) i bs,
        rs_dedup := dedup_insert i
          \<lparr>de_bytes = bs, de_expiry_ms = saturating_add now_ms DEDUP_LIFETIME_MS\<rparr> ds\<rparr>)"

text \<open>The preview is consumed: on every return its lease is dropped.\<close>

definition RedundantSession_commit_inbound ::
    "crypto \<Rightarrow> redundant_session \<Rightarrow> lease_heap \<Rightarrow> inbound_preview \<Rightarrow>
       (RedundantError + ReceiveOutcome) \<times> redundant_session \<times> lease_heap" where
  "RedundantSession_commit_inbound c s lh preview =
     (let lh' = drop_lease (ip_lease preview) lh in
      case RedundantSession_live s of
        Inl e \<Rightarrow> (Inl e, s, lh')
      | Inr _ \<Rightarrow>
        if \<not> RedundantSession_accepts_preview s lh preview then (Inl Replay_red, s, lh')
        else case checked_add (rs_receive_generation s) 1 of
          None \<Rightarrow> (Inl Released_red, s, lh')
        | Some next_generation \<Rightarrow>
          (case ip_session_preview preview of
             None \<Rightarrow> (Inl Replay_red, s, lh')
           | Some session_preview \<Rightarrow>
             let s1 = s\<lparr>rs_receive_preview := None\<rparr> in
             (case RedundantSession_commit s1 (ip_slot preview) session_preview of
                (Inl e, s2) \<Rightarrow> (Inl e, s2, lh')
              | (Inr (i, bs), s2) \<Rightarrow>
                let s3 = RedundantSession_expire (s2\<lparr>rs_receive_generation := next_generation\<rparr>)
                           (ip_now_ms preview) in
                (case ip_decision preview of
                   Equal \<Rightarrow> (Inr Suppressed, s3, lh')
                 | New \<Rightarrow> (Inr (Delivered bs), record_delivery c s3 i bs (ip_now_ms preview), lh')))))"

definition RedundantSession_abort_inbound ::
    "redundant_session \<Rightarrow> lease_heap \<Rightarrow> inbound_preview \<Rightarrow>
       (RedundantError + unit) \<times> redundant_session \<times> lease_heap" where
  "RedundantSession_abort_inbound s lh preview =
     (let lh' = drop_lease (ip_lease preview) lh in
      case RedundantSession_live s of
        Inl e \<Rightarrow> (Inl e, s, lh')
      | Inr _ \<Rightarrow>
        if \<not> RedundantSession_accepts_preview s lh preview then (Inl Replay_red, s, lh')
        else (Inr (), s\<lparr>rs_receive_preview := None\<rparr>, lh'))"

definition RedundantSession_inbound ::
    "crypto \<Rightarrow> redundant_session \<Rightarrow> lease_heap \<Rightarrow> u8 \<Rightarrow> ObservedBinding \<Rightarrow> bytes \<Rightarrow> u64 \<Rightarrow>
       (RedundantError + ReceiveOutcome) \<times> redundant_session \<times> lease_heap" where
  "RedundantSession_inbound c s lh slot binding packet now_ms =
     (case RedundantSession_preview_inbound c s lh slot binding packet now_ms of
        (Inl e, s1, lh1) \<Rightarrow> (Inl e, s1, lh1)
      | (Inr preview, s1, lh1) \<Rightarrow> RedundantSession_commit_inbound c s1 lh1 preview)"

section \<open>Mobility controls\<close>

text \<open>On success the lease moves into the commit; on failure the preview is dropped.\<close>

definition RedundantSession_prepare_mobility_commit ::
    "crypto \<Rightarrow> redundant_session \<Rightarrow> lease_heap \<Rightarrow> candidate_manager \<Rightarrow> ObservedBinding \<Rightarrow>
       inbound_preview \<Rightarrow> u64 \<Rightarrow> (RedundantError + mobility_inbound_commit) \<times> lease_heap" where
  "RedundantSession_prepare_mobility_commit c s lh manager observed preview now_ms =
     (let lh' = drop_lease (ip_lease preview) lh in
      case RedundantSession_live s of
        Inl e \<Rightarrow> (Inl e, lh')
      | Inr _ \<Rightarrow>
        if \<not> RedundantSession_accepts_preview s lh preview then (Inl Replay_red, lh')
        else (case ip_session_preview preview of
          None \<Rightarrow> (Inl Replay_red, lh')
        | Some session_preview \<Rightarrow>
          (case InboundPreview_plaintext lh preview of
             Inl e \<Rightarrow> (Inl e, lh')
           | Inr plaintext \<Rightarrow>
             (case CandidateManager_preview_profile3 c manager plaintext observed
                     (Profile3DataPreview_into_replay_proof session_preview) now_ms of
                Inl _ \<Rightarrow> (Inl Replay_red, lh')
              | Inr tr \<Rightarrow>
                (Inr \<lparr>mi_owner = ip_owner preview, mi_generation = ip_generation preview,
                      mi_slot = ip_slot preview, mi_lease = ip_lease preview, mi_transition = tr,
                      mi_delivery_id = p3_delivery_id session_preview, mi_plaintext = plaintext,
                      mi_decision = ip_decision preview, mi_now_ms = ip_now_ms preview\<rparr>, lh)))))"

definition RedundantSession_mobility_response ::
    "crypto \<Rightarrow> candidate_manager \<Rightarrow> mobility_inbound_commit \<Rightarrow> RedundantError + Control option" where
  "RedundantSession_mobility_response c manager ic =
     map_err (\<lambda>_. Replay_red) (CandidateManager_response_for c manager (mi_transition ic))"

definition RedundantSession_commit_mobility ::
    "crypto \<Rightarrow> redundant_session \<Rightarrow> lease_heap \<Rightarrow> candidate_manager \<Rightarrow> mobility_inbound_commit \<Rightarrow>
       ((RedundantError + unit) \<times> redundant_session \<times> lease_heap \<times> candidate_manager) option" where
  "RedundantSession_commit_mobility c s lh manager ic =
     (let lh' = drop_lease (mi_lease ic) lh in
      case RedundantSession_live s of
        Inl e \<Rightarrow> Some (Inl e, s, lh', manager)
      | Inr _ \<Rightarrow>
        if \<not> RedundantSession_accepts_replay_lease s lh ic then Some (Inl Replay_red, s, lh', manager)
        else case checked_add (rs_receive_generation s) 1 of
          None \<Rightarrow> Some (Inl Released_red, s, lh', manager)
        | Some next_generation \<Rightarrow>
          (case path_at s (unat (mi_slot ic)) of
             None \<Rightarrow> Some (Inl PathUnavailable, s, lh', manager)
           | Some p \<Rightarrow>
             (case pa_session p of
                None \<Rightarrow> Some (Inl PathUnavailable, s, lh', manager)
              | Some session \<Rightarrow>
                map_option (\<lambda>(r, manager1, session1).
                  let s1 = put_path (unat (mi_slot ic)) (p\<lparr>pa_session := Some session1\<rparr>) s in
                  case r of
                    Inl _ \<Rightarrow> (Inl Replay_red, s1, lh', manager1)
                  | Inr _ \<Rightarrow>
                    let s2 = RedundantSession_expire (s1\<lparr>rs_receive_preview := None,
                               rs_receive_generation := next_generation\<rparr>) (mi_now_ms ic) in
                    (case mi_decision ic of
                       Equal \<Rightarrow> (Inr (), s2, lh', manager1)
                     | New \<Rightarrow> (Inr (), record_delivery c s2 (mi_delivery_id ic) (mi_plaintext ic)
                         (mi_now_ms ic), lh', manager1)))
                  (CandidateManager_commit_profile3 manager (mi_transition ic) session))))"

section \<open>Removal and time\<close>

definition RedundantSession_remove_path ::
    "redundant_session \<Rightarrow> lease_heap \<Rightarrow> u8 \<Rightarrow> (RedundantError + unit) \<times> redundant_session \<times> lease_heap" where
  "RedundantSession_remove_path s0 lh slot =
     (case RedundantSession_live s0 of
        Inl e \<Rightarrow> (Inl e, s0, lh)
      | Inr _ \<Rightarrow>
        let s1 = RedundantSession_reap_preview s0 lh;
            lh1 = (case rs_receive_preview s1 of None \<Rightarrow> lh | Some l \<Rightarrow> drop_lease l lh);
            s = s1\<lparr>rs_receive_preview := None\<rparr> in
        case checked_add (rs_receive_generation s) 1 of
          None \<Rightarrow> (Inl Released_red, s, lh1)
        | Some next_generation \<Rightarrow>
          (case path_at s (unat slot) of
             None \<Rightarrow> (Inl PathUnavailable, s, lh1)
           | Some p \<Rightarrow>
             if pa_state p = Removed_path \<or> pa_state p = Degraded_path then (Inr (), s, lh1)
             else if pa_state p \<noteq> Active_path then (Inl PathUnavailable, s, lh1)
             else
               let s2 = put_path (unat slot) ((Path_clear p)\<lparr>pa_state := Removed_path\<rparr>) s;
                   s3 = RedundantSession_event Degraded_event
                          (s2\<lparr>rs_receive_generation := next_generation\<rparr>) in
               if \<not> list_ex (\<lambda>q. pa_state q = Active_path) (rs_paths s3)
               then (let (s4, lh4) = RedundantSession_close s3 lh1 in (Inr (), s4, lh4))
               else (Inr (), s3, lh1)))"

definition RedundantSession_tick ::
    "redundant_session \<Rightarrow> lease_heap \<Rightarrow> u64 \<Rightarrow> (RedundantError + unit) \<times> redundant_session" where
  "RedundantSession_tick s lh now_ms =
     (case RedundantSession_live s of
        Inl e \<Rightarrow> (Inl e, s)
      | Inr _ \<Rightarrow> (Inr (), RedundantSession_expire (RedundantSession_reap_preview s lh) now_ms))"

end
