(* ===== verification/Redundant_Safety.thy ===== *)
theory Redundant_Safety
  imports Redundant
begin

text \<open>
  The invariant of a redundant session and its preservation by every operation of \<open>Redundant\<close>: the
  queues, caches and event log stay within their bounds and consistent, an active path has what
  sending needs, and a released session holds no keys, queues or caches. \<open>quiet\<close> and \<open>delivers\<close> say
  what an operation does to the receiving side, and \<open>outbound_cases\<close> what sending does to the paths.
\<close>

section \<open>The session invariant\<close>

definition queue_ok :: "path \<Rightarrow> bool" where
  "queue_ok p \<longleftrightarrow> length (pa_queue p) \<le> QUEUE_PACKETS
     \<and> pa_queued_bytes p = sum_list (map (\<lambda>q. length (op_packet q)) (pa_queue p))
     \<and> pa_queued_bytes p \<le> QUEUE_BYTES"

text \<open>An active path has everything that sending and receiving need.\<close>

definition path_ok :: "path \<Rightarrow> bool" where
  "path_ok p \<longleftrightarrow> queue_ok p \<and> pa_budget p \<le> 1280
     \<and> (pa_state p = Active_path \<longrightarrow>
          (\<exists>b l r d. pa_binding p = Some b \<and> pa_local_loc p = Some l \<and> pa_peer_loc p = Some r
             \<and> pa_session p = Some d \<and> length l = 16 \<and> length r = 16))"

definition erased_path :: "path \<Rightarrow> bool" where
  "erased_path p \<longleftrightarrow> pa_state p = Released_path \<and> pa_queue p = [] \<and> pa_binding p = None
     \<and> pa_local_loc p = None \<and> pa_peer_loc p = None \<and> pa_session p = None"

definition boot_ok :: "profile3_bootstrap \<Rightarrow> bool" where
  "boot_ok b \<longleftrightarrow> pb_scid b \<noteq> 0 \<and> length (pb_local_loc b) = 16 \<and> length (pb_peer_loc b) = 16"

definition redundant_inv :: "redundant_session \<Rightarrow> bool" where
  "redundant_inv s \<longleftrightarrow>
     length (rs_paths s) = 2 \<and> (\<forall>p \<in> set (rs_paths s). path_ok p)
     \<and> length (rs_events s) \<le> EVENTS \<and> length (rs_dedup s) \<le> DEDUP_IDS
     \<and> distinct (map fst (rs_dedup s))
     \<and> (case rs_state s of
          Active_session \<Rightarrow> (\<exists>b. rs_bootstrap s = Some b \<and> boot_ok b)
        | Released_session \<Rightarrow> (\<forall>p \<in> set (rs_paths s). erased_path p) \<and> rs_dedup s = []
            \<and> rs_bootstrap s = None \<and> rs_admission_issuer s = None \<and> rs_receive_preview s = None)"

text \<open>
  What an operation that delivers nothing does to the receiving side: it keeps the delivered
  window, or it closes the session; a released session stays released.
\<close>

definition quiet :: "redundant_session \<Rightarrow> redundant_session \<Rightarrow> bool" where
  "quiet s s' \<longleftrightarrow> rs_receive_owner s' = rs_receive_owner s
     \<and> rs_receive_generation s \<le> rs_receive_generation s'
     \<and> (rs_state s = Released_session \<longrightarrow> rs_state s' = Released_session)
     \<and> (rs_state s' = Active_session \<longrightarrow> rs_delivered s' = rs_delivered s)"

lemma quiet_refl [simp]: "quiet s s"
  by (simp add: quiet_def)

lemma quiet_trans [trans]: "quiet r s \<Longrightarrow> quiet s t \<Longrightarrow> quiet r t"
  unfolding quiet_def by (cases "rs_state s") auto

lemma path_ok_clear:
  "path_ok p \<Longrightarrow> path_ok ((Path_clear p)\<lparr>pa_state := Removed_path\<rparr>)"
  "path_ok p \<Longrightarrow> path_ok ((Path_clear p)\<lparr>pa_state := Released_path\<rparr>)"
  "erased_path ((Path_clear p)\<lparr>pa_state := Released_path\<rparr>)"
  by (simp_all add: path_ok_def queue_ok_def Path_clear_def erased_path_def)

lemma event_inv [simp]: "redundant_inv s \<Longrightarrow> redundant_inv (RedundantSession_event e s)"
  by (auto simp: redundant_inv_def RedundantSession_event_def EVENTS_def split: SessionState.splits)

lemma event_same [simp]:
  "rs_receive_owner (RedundantSession_event e s) = rs_receive_owner s"
  "rs_receive_generation (RedundantSession_event e s) = rs_receive_generation s"
  "rs_state (RedundantSession_event e s) = rs_state s"
  "rs_delivered (RedundantSession_event e s) = rs_delivered s"
  "rs_paths (RedundantSession_event e s) = rs_paths s"
  "rs_receive_preview (RedundantSession_event e s) = rs_receive_preview s"
  "rs_next_delivery (RedundantSession_event e s) = rs_next_delivery s"
  "rs_bootstrap (RedundantSession_event e s) = rs_bootstrap s"
  "rs_dedup (RedundantSession_event e s) = rs_dedup s"
  "rs_admission_issuer (RedundantSession_event e s) = rs_admission_issuer s"
  by (simp_all add: RedundantSession_event_def)

lemma red_close_inv:
  assumes "redundant_inv s" "RedundantSession_close s lh = (s', lh')"
  shows "redundant_inv s' \<and> rs_state s' = Released_session
    \<and> rs_receive_owner s' = rs_receive_owner s \<and> rs_receive_generation s \<le> rs_receive_generation s'"
proof (cases "rs_state s = Released_session")
  case True
  with assms show ?thesis by (simp add: RedundantSession_close_def)
next
  case False
  have "g \<le> u64_max" for g :: u64
    using unsigned_less [of g, where 'a = nat] by (simp add: word_le_nat_alt)
  with False assms show ?thesis
    by (auto simp: RedundantSession_close_def redundant_inv_def path_ok_clear RedundantSession_event_def
        EVENTS_def)
qed

lemma close_quiet:
  assumes "redundant_inv s" "rs_state s = Active_session" "RedundantSession_close s lh = (s', lh')"
  shows "redundant_inv s' \<and> quiet s s'"
  using red_close_inv [OF assms(1,3)] assms(2) by (simp add: quiet_def)

lemma live_Inr [simp]: "RedundantSession_live s = Inr () \<longleftrightarrow> rs_state s = Active_session"
  by (simp add: RedundantSession_live_def)

lemma reap_same [simp]:
  "rs_receive_owner (RedundantSession_reap_preview s lh) = rs_receive_owner s"
  "rs_receive_generation (RedundantSession_reap_preview s lh) = rs_receive_generation s"
  "rs_state (RedundantSession_reap_preview s lh) = rs_state s"
  "rs_delivered (RedundantSession_reap_preview s lh) = rs_delivered s"
  "rs_paths (RedundantSession_reap_preview s lh) = rs_paths s"
  "rs_bootstrap (RedundantSession_reap_preview s lh) = rs_bootstrap s"
  "rs_next_delivery (RedundantSession_reap_preview s lh) = rs_next_delivery s"
  by (simp_all add: RedundantSession_reap_preview_def split: option.split)

lemma reap_inv: "redundant_inv s \<Longrightarrow> redundant_inv (RedundantSession_reap_preview s lh)"
  by (auto simp: RedundantSession_reap_preview_def redundant_inv_def split: option.split SessionState.splits)

lemma expire_inv: "redundant_inv s \<Longrightarrow> redundant_inv (RedundantSession_expire s now)"
proof -
  have "length (filter P (rs_dedup s)) \<le> length (rs_dedup s)" "distinct (map fst (rs_dedup s)) \<Longrightarrow>
      distinct (map fst (filter P (rs_dedup s)))" for P
    by (simp_all add: distinct_map_filter)
  then show "redundant_inv s \<Longrightarrow> ?thesis"
    by (auto simp: RedundantSession_expire_def redundant_inv_def split: SessionState.splits
        intro: order_trans [OF length_filter_le])
qed

lemma expire_same [simp]:
  "rs_receive_owner (RedundantSession_expire s now) = rs_receive_owner s"
  "rs_receive_generation (RedundantSession_expire s now) = rs_receive_generation s"
  "rs_state (RedundantSession_expire s now) = rs_state s"
  "rs_delivered (RedundantSession_expire s now) = rs_delivered s"
  "rs_paths (RedundantSession_expire s now) = rs_paths s"
  by (simp_all add: RedundantSession_expire_def)

lemma put_path_same [simp]:
  "rs_receive_owner (put_path k p s) = rs_receive_owner s"
  "rs_receive_generation (put_path k p s) = rs_receive_generation s"
  "rs_state (put_path k p s) = rs_state s"
  "rs_delivered (put_path k p s) = rs_delivered s"
  "rs_paths (put_path k p s) = (rs_paths s)[k := p]"
  "rs_bootstrap (put_path k p s) = rs_bootstrap s"
  "rs_next_delivery (put_path k p s) = rs_next_delivery s"
  "rs_receive_preview (put_path k p s) = rs_receive_preview s"
  "rs_dedup (put_path k p s) = rs_dedup s" "rs_events (put_path k p s) = rs_events s"
  "rs_admission_issuer (put_path k p s) = rs_admission_issuer s"
  by (simp_all add: put_path_def)

lemma put_path_inv:
  "redundant_inv s \<Longrightarrow> rs_state s = Active_session \<Longrightarrow> path_ok p \<Longrightarrow> redundant_inv (put_path k p s)"
  by (auto simp: redundant_inv_def dest: subsetD [OF set_update_subset_insert])

lemma path_at_ok: "redundant_inv s \<Longrightarrow> path_at s k = Some p \<Longrightarrow> path_ok p"
  by (auto simp: redundant_inv_def path_at_def split: if_splits)

section \<open>Sending keeps the invariant\<close>

lemma header_ok:
  assumes "redundant_inv s" "rs_state s = Active_session" "k < 2" "pa_state (rs_paths s ! k) = Active_path"
  obtains h b d where "RedundantSession_header s k = Inr h" "wf_header h"
    "validate_profile3_data_header h = Inr ()" "pa_binding (rs_paths s ! k) = Some b"
    "pa_session (rs_paths s ! k) = Some d" "h_path_slot h = of_nat k"
    "\<exists>bs. rs_bootstrap s = Some bs \<and> h_scid h = pb_scid bs"
    "pa_local_loc (rs_paths s ! k) = Some (h_src h)" "pa_peer_loc (rs_paths s ! k) = Some (h_dst h)"
proof -
  have "rs_paths s ! k \<in> set (rs_paths s)" using assms by (simp add: redundant_inv_def)
  then obtain b l r d where p: "pa_binding (rs_paths s ! k) = Some b" "pa_local_loc (rs_paths s ! k) = Some l"
    "pa_peer_loc (rs_paths s ! k) = Some r" "pa_session (rs_paths s ! k) = Some d"
    "length l = 16" "length r = 16"
    using assms by (auto simp: redundant_inv_def path_ok_def)
  obtain bs where bs: "rs_bootstrap s = Some bs" "boot_ok bs" using assms by (auto simp: redundant_inv_def)
  have "k = 0 \<or> k = 1" using assms(3) by linarith
  then show ?thesis
    using p bs assms
    by (intro that [where b = b and d = d and h = "\<lparr>h_profile = 3, h_tc = 0, h_next_header = NH_SES,
        h_hop_limit = 64, h_flags = (if k = 0 then 1 else 3), h_path_slot = of_nat k,
        h_scid = pb_scid bs, h_src = l, h_dst = r\<rparr>"])
      (auto simp: RedundantSession_header_def path_at_def redundant_inv_def wf_header_def boot_ok_def
        validate_profile3_data_header_def)
qed

lemma can_reserve_counter:
  "DirectionalSession_can_reserve d \<longleftrightarrow> next_counter d \<noteq> 0 \<and> next_counter d \<noteq> u64_max"
  by (simp add: DirectionalSession_can_reserve_def Counters_can_reserve_def)

text \<open>One path that passed the checks: a packet of the announced length is queued on it.\<close>

definition path_ready :: "path \<Rightarrow> nat \<Rightarrow> bool" where
  "path_ready p len \<longleftrightarrow> len \<le> pa_budget p \<and> Path_can_enqueue p len
     \<and> (\<exists>d. pa_session p = Some d \<and> DirectionalSession_can_reserve d)"

definition sent_path :: "path \<Rightarrow> directional_session \<Rightarrow> outbound_packet \<Rightarrow> path" where
  "sent_path p d out = p\<lparr>pa_session := Some (counter_used d),
     pa_queued_bytes := pa_queued_bytes p + length (op_packet out), pa_queue := pa_queue p @ [out]\<rparr>"

definition path_sent :: "crypto \<Rightarrow> redundant_session \<Rightarrow> redundant_session \<Rightarrow> u64 \<Rightarrow> bytes \<Rightarrow> nat \<Rightarrow> outbound_packet \<Rightarrow> bool" where
  "path_sent c s s' did m k out \<longleftrightarrow> (\<exists>h d. RedundantSession_header s k = Inr h
     \<and> pa_session (rs_paths s ! k) = Some d \<and> pa_binding (rs_paths s ! k) = Some (op_binding out)
     \<and> DirectionalSession_encrypt_profile3_data c d h did m (pa_budget (rs_paths s ! k))
         = (Inr (op_packet out), counter_used d)
     \<and> op_slot out = of_nat k \<and> rs_paths s' ! k = sent_path (rs_paths s ! k) d out)"

lemma sent_path_ok:
  assumes "path_ok p" "pa_session p = Some d" "Path_can_enqueue p (length (op_packet out))"
  shows "path_ok (sent_path p d out)"
  using assms by (auto simp: path_ok_def queue_ok_def sent_path_def Path_can_enqueue_def split: option.splits)

lemma outbound_path_ok:
  assumes c: "aead_ok c" and inv: "redundant_inv s" "rs_state s = Active_session"
    and k: "k < 2" "pa_state (rs_paths s ! k) = Active_path"
    and ready: "path_ready (rs_paths s ! k) (length m + OVERHEAD)" and did: "did \<noteq> u64_max"
  obtains out d where "outbound_path c s did m k = (Inr out, put_path k (sent_path (rs_paths s ! k) d out) s)"
    "path_sent c s (put_path k (sent_path (rs_paths s ! k) d out) s) did m k out"
    "path_ok (sent_path (rs_paths s ! k) d out)"
proof -
  obtain h b d where h: "RedundantSession_header s k = Inr h" "wf_header h"
    "validate_profile3_data_header h = Inr ()" "pa_binding (rs_paths s ! k) = Some b"
    "pa_session (rs_paths s ! k) = Some d"
    using inv k by (rule header_ok) blast
  have p: "rs_paths s ! k \<in> set (rs_paths s)" "length (rs_paths s) = 2" using inv(1) k by (simp_all add: redundant_inv_def)
  then have ok: "path_ok (rs_paths s ! k)" using inv(1) by (simp add: redundant_inv_def)
  then have "length m + 84 \<le> pa_budget (rs_paths s ! k)" "length m + 84 \<le> 1280"
    using ready by (auto simp: path_ready_def path_ok_def OVERHEAD_def)
  moreover have "next_counter d \<noteq> 0" "next_counter d \<noteq> u64_max"
    using ready h(5) by (simp_all add: path_ready_def can_reserve_counter)
  ultimately obtain pkt where e: "DirectionalSession_encrypt_profile3_data c d h did m (pa_budget (rs_paths s ! k))
      = (Inr pkt, counter_used d)"
    using encrypt_profile3_ok [OF c h(2,3) did] by blast
  define out where "out = \<lparr>op_slot = of_nat k, op_binding = b, op_packet = pkt\<rparr>"
  have "length pkt = length m + OVERHEAD"
    using encrypt_profile3_length [OF c h(2) e] by (simp add: OVERHEAD_def)
  then have "path_ok (sent_path (rs_paths s ! k) d out)"
    using ok ready h(5) by (intro sent_path_ok) (simp_all add: out_def path_ready_def)
  moreover have "outbound_path c s did m k = (Inr out, put_path k (sent_path (rs_paths s ! k) d out) s)"
    using h e by (simp add: outbound_path_def out_def sent_path_def Let_def)
  moreover have "path_sent c s (put_path k (sent_path (rs_paths s ! k) d out) s) did m k out"
    using h e k p by (auto simp: path_sent_def out_def)
  ultimately show ?thesis using that by blast
qed

lemma header_cong:
  "rs_bootstrap s' = rs_bootstrap s \<Longrightarrow> rs_paths s' ! k = rs_paths s ! k \<Longrightarrow>
     length (rs_paths s') = length (rs_paths s) \<Longrightarrow> RedundantSession_header s' k = RedundantSession_header s k"
  by (simp add: RedundantSession_header_def path_at_def)

lemma path_sent_cong:
  assumes "path_sent c s1 s' did m k out" "rs_bootstrap s1 = rs_bootstrap s"
    and "rs_paths s1 ! k = rs_paths s ! k" "length (rs_paths s1) = length (rs_paths s)"
  shows "path_sent c s s' did m k out"
  using assms header_cong [OF assms(2,3,4)] by (simp add: path_sent_def)

lemma outbound_loop_ok:
  assumes "aead_ok c" "did \<noteq> u64_max"
    and "redundant_inv s" "rs_state s = Active_session" "distinct ks"
    and "\<forall>k \<in> set ks. k < 2 \<and> pa_state (rs_paths s ! k) = Active_path
           \<and> path_ready (rs_paths s ! k) (length m + OVERHEAD)"
  shows "\<exists>outs s'. outbound_loop c s did m ks = (Inr outs, s') \<and> redundant_inv s'
    \<and> s' = s\<lparr>rs_paths := rs_paths s'\<rparr> \<and> length (rs_paths s') = 2
    \<and> (\<forall>k. k \<notin> set ks \<longrightarrow> rs_paths s' ! k = rs_paths s ! k)
    \<and> list_all2 (path_sent c s s' did m) ks outs"
  using assms(3-)
proof (induction ks arbitrary: s)
  case Nil
  then show ?case by (simp add: redundant_inv_def)
next
  case (Cons k ks)
  from Cons.prems have k: "k < 2" "pa_state (rs_paths s ! k) = Active_path"
    "path_ready (rs_paths s ! k) (length m + OVERHEAD)" by simp_all
  obtain out d where one: "outbound_path c s did m k = (Inr out, put_path k (sent_path (rs_paths s ! k) d out) s)"
    "path_sent c s (put_path k (sent_path (rs_paths s ! k) d out) s) did m k out"
    "path_ok (sent_path (rs_paths s ! k) d out)"
    using outbound_path_ok [OF assms(1) Cons.prems(1,2) k assms(2)] by blast
  define s1 where "s1 = put_path k (sent_path (rs_paths s ! k) d out) s"
  have len: "length (rs_paths s) = 2" using Cons.prems(1) by (simp add: redundant_inv_def)
  have other: "rs_paths s1 ! j = rs_paths s ! j" if "j \<noteq> k" for j using that by (simp add: s1_def)
  have "\<forall>j \<in> set ks. j < 2 \<and> pa_state (rs_paths s1 ! j) = Active_path
      \<and> path_ready (rs_paths s1 ! j) (length m + OVERHEAD)"
    using Cons.prems(3,4) other by (metis distinct.simps(2) list.set_intros(2))
  moreover have "redundant_inv s1" "rs_state s1 = Active_session" "distinct ks"
    using put_path_inv [OF Cons.prems(1,2) one(3)] Cons.prems by (simp_all add: s1_def)
  ultimately obtain outs s' where rest: "outbound_loop c s1 did m ks = (Inr outs, s')" "redundant_inv s'"
    "s' = s1\<lparr>rs_paths := rs_paths s'\<rparr>" "length (rs_paths s') = 2"
    "\<forall>j. j \<notin> set ks \<longrightarrow> rs_paths s' ! j = rs_paths s1 ! j" "list_all2 (path_sent c s1 s' did m) ks outs"
    using Cons.IH [of s1] by blast
  have k': "k \<notin> set ks" using Cons.prems(3) by simp
  have "path_sent c s s' did m j out'" if "j \<in> set ks" "path_sent c s1 s' did m j out'" for j out'
    proof (rule path_sent_cong [OF that(2)])
    show "rs_paths s1 ! j = rs_paths s ! j" using that(1) k' by (intro other) auto
  qed (simp_all add: s1_def)
  then have "list_all2 (path_sent c s s' did m) ks outs"
    using rest(6) by (rule list.rel_mono_strong [rotated])
  moreover have "path_sent c s s' did m k out"
    using one(2) rest(5) k' by (auto simp: path_sent_def s1_def)
  moreover have "rs_paths s' ! j = rs_paths s ! j" if "j \<notin> set (k # ks)" for j
    using that rest(5) other by simp
  moreover have "outbound_loop c s did m (k # ks) = (Inr (out # outs), s')"
    using one(1) rest(1) by (simp add: s1_def)
  moreover have "s' = s\<lparr>rs_paths := rs_paths s'\<rparr>"
    using rest(3) by (simp add: s1_def put_path_def)
  ultimately show ?case using rest(2,4) by blast
qed

lemma outbound_checks_None:
  "outbound_checks s lh len ks = (None, s', lh') \<Longrightarrow>
     s' = s \<and> lh' = lh \<and> (\<forall>k \<in> set ks. path_ready (rs_paths s ! k) len)"
  by (induction ks) (auto simp: path_ready_def Let_def not_less split: if_splits option.splits prod.splits)

lemma outbound_checks_ready:
  "\<forall>k \<in> set ks. path_ready (rs_paths s ! k) len \<Longrightarrow> outbound_checks s lh len ks = (None, s, lh)"
  by (induction ks) (auto simp: path_ready_def Let_def not_less split: option.splits)

lemma outbound_checks_Some:
  assumes "outbound_checks s lh len ks = (Some r, s', lh')" "redundant_inv s" "rs_state s = Active_session"
  shows "redundant_inv s' \<and> quiet s s'
    \<and> (r = Inr DroppedNewest \<longrightarrow> s' = RedundantSession_event QueueOverflow_event s)
    \<and> (\<forall>did outs. r \<noteq> Inr (Enqueued did outs))
    \<and> (\<forall>e. r = Inl e \<longrightarrow> s' = s \<or> rs_state s' = Released_session)"
  using assms
proof (induction ks)
  case (Cons k ks)
  then show ?case
    using close_quiet [OF Cons.prems(2,3), of lh] red_close_inv [OF Cons.prems(2), of lh]
    by (auto simp: Let_def quiet_def [of s "RedundantSession_event e s" for e]
        split: if_splits option.splits prod.splits)
qed simp

lemma active_paths_set:
  "length (rs_paths s) = 2 \<Longrightarrow> distinct (active_paths s)
    \<and> set (active_paths s) = {k. k < 2 \<and> pa_state (rs_paths s ! k) = Active_path}"
  by (auto simp: active_paths_def)

lemma outbound_cases:
  assumes c: "aead_ok c" and inv: "redundant_inv s"
    and o: "RedundantSession_outbound c s lh m = (r, s', lh')"
  shows "redundant_inv s' \<and> quiet s s'
    \<and> (\<forall>did outs. r = Inr (Enqueued did outs) \<longrightarrow>
         rs_state s = Active_session \<and> did = rs_next_delivery s \<and> did \<noteq> u64_max
         \<and> s' = s\<lparr>rs_paths := rs_paths s', rs_next_delivery := did + 1\<rparr>
         \<and> active_paths s \<noteq> [] \<and> list_all2 (path_sent c s s' did m) (active_paths s) outs
         \<and> (\<forall>k. k \<notin> set (active_paths s) \<longrightarrow> rs_paths s' ! k = rs_paths s ! k))
    \<and> (r = Inr DroppedNewest \<longrightarrow> s' = RedundantSession_event QueueOverflow_event s)
    \<and> (\<forall>e. r = Inl e \<longrightarrow> s' = s \<or> rs_state s' = Released_session)"
proof (cases "rs_state s = Active_session \<and> usize_checked_add (length m) OVERHEAD \<noteq> None \<and> active_paths s \<noteq> []")
  case False
  with o inv show ?thesis
    by (auto simp: RedundantSession_outbound_def RedundantSession_live_def Let_def split: if_splits option.splits)
next
  case True
  then obtain len where len: "rs_state s = Active_session" "usize_checked_add (length m) OVERHEAD = Some len"
    "active_paths s \<noteq> []" by auto
  have m: "len = length m + OVERHEAD" using len(2) by (auto simp: usize_checked_add_def split: if_splits)
  obtain x s1 lh1 where ch: "outbound_checks s lh len (active_paths s) = (x, s1, lh1)" by (rule prod_cases3)
  show ?thesis
  proof (cases x)
    case (Some y)
    with o len ch outbound_checks_Some [of s lh len "active_paths s" y s1 lh1] inv show ?thesis
      by (auto simp: RedundantSession_outbound_def RedundantSession_live_def)
  next
    case None
    with ch have same: "s1 = s" "lh1 = lh" "\<forall>k \<in> set (active_paths s). path_ready (rs_paths s ! k) len"
      using outbound_checks_None by blast+
    show ?thesis
    proof (cases "rs_next_delivery s = u64_max")
      case True
      obtain s2 lh2 where cl: "RedundantSession_close s lh = (s2, lh2)" by fastforce
      with o len ch None same True close_quiet [OF inv len(1) cl] red_close_inv [OF inv cl] show ?thesis
        by (auto simp: RedundantSession_outbound_def RedundantSession_live_def Let_def)
    next
      case False
      have "length (rs_paths s) = 2" using inv by (simp add: redundant_inv_def)
      with active_paths_set [of s] same(3) have ks: "distinct (active_paths s)"
        "\<forall>k \<in> set (active_paths s). k < 2 \<and> pa_state (rs_paths s ! k) = Active_path
           \<and> path_ready (rs_paths s ! k) (length m + OVERHEAD)" by (auto simp: m)
      obtain outs t where t: "outbound_loop c s (rs_next_delivery s) m (active_paths s) = (Inr outs, t)"
        "redundant_inv t" "t = s\<lparr>rs_paths := rs_paths t\<rparr>" "length (rs_paths t) = 2"
        "\<forall>k. k \<notin> set (active_paths s) \<longrightarrow> rs_paths t ! k = rs_paths s ! k"
        "list_all2 (path_sent c s t (rs_next_delivery s) m) (active_paths s) outs"
        using outbound_loop_ok [OF c False inv len(1) ks] by blast
      have "r = Inr (Enqueued (rs_next_delivery s) outs)" "s' = t\<lparr>rs_next_delivery := rs_next_delivery s + 1\<rparr>"
        using o len ch None same False t(1)
        by (simp_all add: RedundantSession_outbound_def RedundantSession_live_def Let_def)
      moreover have "redundant_inv (t\<lparr>rs_next_delivery := v\<rparr>)" for v using t(2) by (simp add: redundant_inv_def cong: SessionState.case_cong)
      moreover have "quiet s (t\<lparr>rs_next_delivery := v\<rparr>)" for v by (subst t(3)) (simp add: quiet_def len(1))
      moreover have "list_all2 (path_sent c s (t\<lparr>rs_next_delivery := v\<rparr>) (rs_next_delivery s) m) (active_paths s) outs" for v
        using t(6) by (simp add: path_sent_def [abs_def])
      moreover have "t\<lparr>rs_next_delivery := v\<rparr> = s\<lparr>rs_paths := rs_paths t, rs_next_delivery := v\<rparr>" for v
        by (subst t(3)) simp
      ultimately show ?thesis using len False t(5) by simp
    qed
  qed
qed

lemma outbound_enqueues:
  assumes c: "aead_ok c" and inv: "redundant_inv s"
    and a: "rs_state s = Active_session" "active_paths s \<noteq> []" "rs_next_delivery s \<noteq> u64_max"
    and ready: "\<forall>k \<in> set (active_paths s). path_ready (rs_paths s ! k) (length m + OVERHEAD)"
  shows "\<exists>outs s'. RedundantSession_outbound c s lh m = (Inr (Enqueued (rs_next_delivery s) outs), s', lh)"
proof -
  have "length (rs_paths s) = 2" using inv by (simp add: redundant_inv_def)
  note ks = active_paths_set [OF this]
  obtain k where k: "k \<in> set (active_paths s)" using a(2) by (meson last_in_set)
  then have "path_ok (rs_paths s ! k)" using ks inv by (simp add: redundant_inv_def)
  with ready k have "length m + OVERHEAD \<le> 1280" by (fastforce simp: path_ready_def path_ok_def)
  then have len: "usize_checked_add (length m) OVERHEAD = Some (length m + OVERHEAD)"
    by (simp add: usize_checked_add_def)
  obtain outs s' where "outbound_loop c s (rs_next_delivery s) m (active_paths s) = (Inr outs, s')"
    using outbound_loop_ok [OF c a(3) inv a(1), of "active_paths s"] ks ready by blast
  then show ?thesis
    using a len outbound_checks_ready [OF ready, of lh]
    by (simp add: RedundantSession_outbound_def RedundantSession_live_def Let_def)
qed

lemma enqueued_ready:
  assumes inv: "redundant_inv s" and o: "RedundantSession_outbound c s lh m = (r, s', lh')"
    and r: "r = Inr (Enqueued did outs)"
  shows "\<forall>k \<in> set (active_paths s). path_ready (rs_paths s ! k) (length m + OVERHEAD)"
proof -
  from o r obtain len where len: "rs_state s = Active_session" "usize_checked_add (length m) OVERHEAD = Some len"
    by (auto simp: RedundantSession_outbound_def RedundantSession_live_def split: if_splits option.splits)
  then have m: "len = length m + OVERHEAD" by (auto simp: usize_checked_add_def split: if_splits)
  obtain x s1 lh1 where ch: "outbound_checks s lh len (active_paths s) = (x, s1, lh1)" by (rule prod_cases3)
  have "x = None"
  proof (cases x)
    case (Some y)
    then have "\<forall>did outs. y \<noteq> Inr (Enqueued did outs)" using outbound_checks_Some [OF _ inv len(1)] ch by blast
    with o r len ch Some show ?thesis
      by (auto simp: RedundantSession_outbound_def RedundantSession_live_def Let_def split: if_splits)
  qed
  with ch show ?thesis using outbound_checks_None [of s lh len "active_paths s"] m by blast
qed

section \<open>The other operations keep the invariant\<close>

lemma inv_updates [simp]:
  assumes "redundant_inv s" "rs_state s = Active_session"
  shows "redundant_inv (s\<lparr>rs_receive_preview := x\<rparr>)" "redundant_inv (s\<lparr>rs_receive_generation := g\<rparr>)"
    "redundant_inv (s\<lparr>rs_admission_issuer := i\<rparr>)" "redundant_inv (s\<lparr>rs_delivered := w\<rparr>)"
    "redundant_inv (s\<lparr>rs_receive_preview := x, rs_receive_generation := g\<rparr>)"
  using assms by (simp_all add: redundant_inv_def)

lemma inv_bootstrap:
  "redundant_inv s \<Longrightarrow> rs_state s = Active_session \<Longrightarrow> boot_ok b \<Longrightarrow> redundant_inv (s\<lparr>rs_bootstrap := Some b\<rparr>)"
  by (simp add: redundant_inv_def)

lemma bootstrap_ok: "redundant_inv s \<Longrightarrow> rs_bootstrap s = Some b \<Longrightarrow> boot_ok b"
  by (auto simp: redundant_inv_def split: SessionState.splits)

lemma new_inv_red:
  assumes "RedundantSession_new b bind seed n = Inr (s, n')" "boot_ok b"
  shows "redundant_inv s \<and> rs_state s = Active_session \<and> rs_delivered s = DeliveredWindow_empty"
  using assms by (auto simp: RedundantSession_new_def and_then_Inr Profile3Bootstrap_take_slot0_def Let_def
      redundant_inv_def path_ok_def queue_ok_def boot_ok_def RedundantSession_event_def redundant_consts
      split: if_splits)

lemma drain_quiet:
  assumes "redundant_inv s" "RedundantSession_drain_events s = (es, s')"
  shows "redundant_inv s' \<and> quiet s s'"
  using assms by (auto simp: RedundantSession_drain_events_def redundant_inv_def quiet_def
      split: SessionState.splits)

lemma issue_quiet:
  assumes "redundant_inv s" "RedundantSession_issue_profile3_admission_owner live cap s pol = (r, s')"
  shows "redundant_inv s' \<and> quiet s s'"
  using assms unfolding RedundantSession_issue_profile3_admission_owner_def
  by (auto simp: Let_def quiet_def RedundantSession_live_def split: sum.splits if_splits option.splits)

lemma confirm_quiet:
  assumes "redundant_inv s" "RedundantSession_confirm_sent s slot packet = (r, s')"
  shows "redundant_inv s' \<and> quiet s s'"
proof (cases "s' = s")
  case True
  with assms show ?thesis by simp
next
  case False
  then obtain p q qs where p: "path_at s (unat slot) = Some p" "pa_queue p = q # qs"
    "s' = put_path (unat slot) (p\<lparr>pa_queue := qs, pa_queued_bytes := pa_queued_bytes p - length (op_packet q)\<rparr>) s"
    using assms(2) by (auto simp: RedundantSession_confirm_sent_def split: option.splits list.splits if_splits)
  have ok: "path_ok p" using path_at_ok [OF assms(1) p(1)] .
  have "rs_state s = Active_session"
  proof (cases "rs_state s")
    case Released_session
    with assms(1) p(1,2) show ?thesis
      by (auto simp: redundant_inv_def path_at_def erased_path_def dest!: nth_mem split: if_splits)
  qed
  moreover have "path_ok (p\<lparr>pa_queue := qs, pa_queued_bytes := pa_queued_bytes p - length (op_packet q)\<rparr>)"
    using ok p(2) by (auto simp: path_ok_def queue_ok_def)
  ultimately show ?thesis using put_path_inv [OF assms(1)] by (simp add: p(3) quiet_def)
qed

lemma slot1_takes_boot:
  assumes "Profile3Bootstrap_take_slot1_after_admission c b n = Some (r, b', n')" "boot_ok b"
  shows "boot_ok b'"
  using assms by (auto simp: Profile3Bootstrap_take_slot1_after_admission_def boot_ok_def Let_def
      split: option.splits sum.splits)

lemma activate_session_cases:
  assumes "activate_session c live s ad n = Some (r, s', n')"
  obtains e where "s' = s" "r = Inl e"
  | b d0 issuer x b' where "rs_bootstrap s = Some b" "pa_session (rs_paths s ! 0) = Some d0"
      "ad_scid ad = pb_scid b" "rs_admission_issuer s = Some issuer"
      "Profile3AdmissionIssuer_admits live issuer ad"
      "Profile3Admission_matches_replay_binding ad (profile3_replay_binding d0)"
      "Profile3Bootstrap_take_slot1_after_admission c b n = Some (x, b', n')"
      "s' = s\<lparr>rs_bootstrap := Some b'\<rparr>"
      "r = (case x of Inl e \<Rightarrow> Inl (map_session e) | Inr d \<Rightarrow>
         if DirectionalSession_can_reserve d then Inr d else Inl CounterExhausted_red)"
proof (cases "\<exists>e. s' = s \<and> r = Inl e")
  case True
  with that(1) show ?thesis by blast
next
  case False
  with assms obtain b d0 issuer x b1 n1 where z: "rs_bootstrap s = Some b" "pa_session (rs_paths s ! 0) = Some d0"
      "ad_scid ad = pb_scid b" "rs_admission_issuer s = Some issuer"
      "Profile3AdmissionIssuer_admits live issuer ad"
      "Profile3Admission_matches_replay_binding ad (profile3_replay_binding d0)"
      "Profile3Bootstrap_take_slot1_after_admission c b n = Some (x, b1, n1)"
    by (auto simp: activate_session_def split: option.splits if_splits)
  with assms show ?thesis
    by (intro that(2) [of b d0 issuer x b1, OF z(1-6)]) (auto simp: activate_session_def Let_def split: sum.splits if_splits)
qed

lemma activate_session_same:
  assumes "activate_session c live s ad n = Some (r, s', n')" "redundant_inv s" "rs_state s = Active_session"
  shows "redundant_inv s' \<and> s' = s\<lparr>rs_bootstrap := rs_bootstrap s'\<rparr>"
  using assms(1)
proof (cases rule: activate_session_cases)
  case 1
  with assms show ?thesis by simp
next
  case (2 b d0 issuer x b')
  from slot1_takes_boot [OF 2(7)] bootstrap_ok [OF assms(2) 2(1)]
  have "boot_ok b'" by simp
  with 2(8) inv_bootstrap [OF assms(2,3)] show ?thesis by simp
qed

lemma activate_quiet:
  assumes act: "RedundantSession_activate c live lh s ad budget n = Some (r, s', n')"
    and inv: "redundant_inv s" and ad: "length (ad_local_loc ad) = 16" "length (ad_peer_loc ad) = 16"
  shows "redundant_inv s' \<and> quiet s s'"
proof -
  let ?s1 = "RedundantSession_reap_preview s lh"
  let ?s2 = "put_path 1 ((rs_paths ?s1 ! 1)\<lparr>pa_state := Candidate_path\<rparr>) ?s1"
  consider "s' = s" | "rs_state s = Active_session" "s' = ?s1"
    | g x s3 where "rs_state s = Active_session" "budget \<le> 1280" "pa_state (rs_paths ?s1 ! 1) = Absent_path"
        "checked_add (rs_receive_generation s) 1 = Some g" "activate_session c live ?s2 ad n = Some (x, s3, n')"
        "s' = (case x of Inl e \<Rightarrow> put_path 1 ((rs_paths s3 ! 1)\<lparr>pa_state := Absent_path\<rparr>) s3
           | Inr d \<Rightarrow> (RedundantSession_event Recovered_event (put_path 1
               ((rs_paths s3 ! 1)\<lparr>pa_state := Active_path, pa_binding := Some (ad_binding ad),
                  pa_local_loc := Some (ad_local_loc ad), pa_peer_loc := Some (ad_peer_loc ad),
                  pa_budget := budget, pa_session := Some d\<rparr>) (s3\<lparr>rs_admission_issuer := None\<rparr>)))
              \<lparr>rs_receive_generation := g\<rparr>)"
    using act unfolding RedundantSession_activate_def RedundantSession_live_def Let_def
    by (fastforce split: if_splits option.splits sum.splits)
  then show ?thesis
  proof cases
    case 2
    with reap_inv [OF inv] show ?thesis by (simp add: quiet_def)
  next
    case 3
    have len: "length (rs_paths s) = 2" using inv by (simp add: redundant_inv_def)
    then have p: "path_ok (rs_paths s ! 1)" using inv by (simp add: redundant_inv_def)
    have s2: "redundant_inv ?s2" "rs_state ?s2 = Active_session"
      using p by (intro put_path_inv reap_inv inv) (auto simp: path_ok_def queue_ok_def 3(1))
    note same = activate_session_same [OF 3(5) s2]
    from same obtain z where z: "s3 = ?s2\<lparr>rs_bootstrap := z\<rparr>" by blast
    have s3: "rs_state s3 = Active_session" "rs_paths s3 ! 1 = (rs_paths s ! 1)\<lparr>pa_state := Candidate_path\<rparr>"
      "rs_delivered s3 = rs_delivered s" "rs_receive_owner s3 = rs_receive_owner s"
      "rs_receive_generation s3 = rs_receive_generation s"
      by (simp_all add: z len 3(1))
    have "path_ok ((rs_paths s3 ! 1)\<lparr>pa_state := Absent_path\<rparr>)"
      "path_ok ((rs_paths s3 ! 1)\<lparr>pa_state := Active_path, pa_binding := Some (ad_binding ad),
                  pa_local_loc := Some (ad_local_loc ad), pa_peer_loc := Some (ad_peer_loc ad),
                  pa_budget := budget, pa_session := Some d\<rparr>)" for d
      unfolding s3(2) using p 3(2) ad by (simp_all add: path_ok_def queue_ok_def)
    moreover have "rs_receive_generation s \<le> g"
      using 3(4) by (auto simp: checked_add_def word_le_nat_alt unat_add_small split: if_splits)
    ultimately show ?thesis
      using same s3 3(1) by (cases x) (simp_all add: 3(6) quiet_def put_path_inv)
  qed (use inv in simp)
qed

section \<open>Receiving\<close>

text \<open>
  What a preview, or a mobility commit made from it, knows: as long as its generation is the
  current one, its id is still in the window, and it is new or a true copy as it was decided.
\<close>

definition claim_ok :: "crypto \<Rightarrow> redundant_session \<Rightarrow> u64 \<Rightarrow> u64 \<Rightarrow> ReceiveDecision \<Rightarrow> bytes \<Rightarrow> bool" where
  "claim_ok c s g i decision bs \<longleftrightarrow> g \<le> rs_receive_generation s
     \<and> (g = rs_receive_generation s \<and> rs_state s = Active_session \<longrightarrow>
          \<not> DeliveredWindow_too_old (rs_delivered s) i
          \<and> (case decision of New \<Rightarrow> \<not> DeliveredWindow_seen (rs_delivered s) i
             | Equal \<Rightarrow> DeliveredWindow_seen (rs_delivered s) i
                 \<and> DeliveredWindow_matches c (rs_delivered s) i bs))"

lemma claim_quiet:
  assumes "quiet s s'" "claim_ok c s g i decision bs"
  shows "claim_ok c s' g i decision bs"
proof (cases "g = rs_receive_generation s' \<and> rs_state s' = Active_session")
  case True
  then have "rs_state s = Active_session" using assms(1) by (cases "rs_state s") (auto simp: quiet_def)
  moreover from this True assms have "g = rs_receive_generation s"
    by (intro order_antisym) (simp_all add: claim_ok_def quiet_def)
  ultimately show ?thesis using True assms
    by (simp add: claim_ok_def quiet_def split: ReceiveDecision.splits)
next
  case False
  with assms show ?thesis by (auto simp: claim_ok_def quiet_def intro: order_trans)
qed

lemma claim_advanced:
  "claim_ok c s g i decision bs \<Longrightarrow> rs_receive_generation s < rs_receive_generation s' \<Longrightarrow>
     claim_ok c s' g i decision bs"
  by (auto simp: claim_ok_def)

lemma preview_inner_cases:
  assumes pre: "RedundantSession_preview_inbound_inner c s lh slot binding packet now active = (r, s', lh')"
    and inv: "redundant_inv s"
  shows "redundant_inv s' \<and> quiet s s'
    \<and> (\<forall>pv. r = Inr pv \<longrightarrow> rs_state s = Active_session \<and> ip_owner pv = rs_receive_owner s
         \<and> ip_lease pv \<in> lh_active lh' \<and> rs_receive_preview s' = Some (ip_lease pv)
         \<and> (\<exists>p3. ip_session_preview pv = Some p3
              \<and> claim_ok c s' (ip_generation pv) (p3_delivery_id p3) (ip_decision pv) (p3_plaintext p3)))"
proof (cases "\<exists>e. r = Inl e \<and> (s' = s \<or> rs_state s = Active_session \<and> s' = RedundantSession_reap_preview s lh)")
  case True
  with reap_inv [OF inv] inv show ?thesis by (auto simp: quiet_def)
next
  case False
  let ?s = "RedundantSession_reap_preview s lh"
  let ?w = "rs_delivered s"
  let ?lh = "\<lparr>lh_next = lh_next lh + 1, lh_active = insert (lh_next lh) (lh_active lh)\<rparr>"
  from False pre obtain p h rest b d p3 where acc: "is_ok (ObservedBinding_validate binding)"
      "rs_state s = Active_session" "rs_receive_preview ?s = None" "path_at ?s (unat slot) = Some p"
      "pa_state p = Active_path" "active \<longrightarrow> pa_binding p = Some binding"
      "unpack_with_budget packet (pa_budget p) = Inr (h, rest)" "rs_bootstrap s = Some b"
      "h_scid h = pb_scid b" "h_path_slot h = slot" "pa_peer_loc p = Some (h_src h)"
      "pa_local_loc p = Some (h_dst h)"
      "pa_session p = Some d" "DirectionalSession_preview_profile3_data c d packet = Inr p3"
    unfolding RedundantSession_preview_inbound_inner_def RedundantSession_live_def Let_def
    by (auto split: if_splits option.splits sum.splits)
  let ?pv = "\<lambda>d. \<lparr>ip_owner = rs_receive_owner s, ip_generation = rs_receive_generation s, ip_slot = slot,
    ip_session_preview = Some p3, ip_decision = d, ip_now_ms = now, ip_lease = lh_next lh\<rparr>"
  have inv': "redundant_inv ?s" by (rule reap_inv [OF inv])
  consider lh2 where "DeliveredWindow_too_old ?w (p3_delivery_id p3) = False"
        "RedundantSession_close (RedundantSession_event Divergence_event ?s) lh = (s', lh2)" "r = Inl DivergentDelivery"
    | pv where "\<not> DeliveredWindow_too_old ?w (p3_delivery_id p3)" "r = Inr pv" "ip_owner pv = rs_receive_owner s"
        "ip_generation pv = rs_receive_generation s" "ip_session_preview pv = Some p3"
        "s' = ?s\<lparr>rs_receive_preview := Some (ip_lease pv)\<rparr>" "ip_lease pv \<in> lh_active lh'"
        "case ip_decision pv of New \<Rightarrow> \<not> DeliveredWindow_seen ?w (p3_delivery_id p3)
         | Equal \<Rightarrow> DeliveredWindow_seen ?w (p3_delivery_id p3)
             \<and> DeliveredWindow_matches c ?w (p3_delivery_id p3) (p3_plaintext p3)"
  proof -
    have x: "(if DeliveredWindow_too_old ?w (p3_delivery_id p3) then (Inl Replay_red, ?s, lh)
        else if DeliveredWindow_seen ?w (p3_delivery_id p3) then
          if DeliveredWindow_matches c ?w (p3_delivery_id p3) (p3_plaintext p3)
          then (Inr (?pv Equal), ?s\<lparr>rs_receive_preview := Some (lh_next lh)\<rparr>, ?lh)
          else (case RedundantSession_close (RedundantSession_event Divergence_event ?s) lh of
            (s1, lh1) \<Rightarrow> (Inl DivergentDelivery, s1, lh1))
        else if (case dw_high_water ?w of None \<Rightarrow> False | Some high \<Rightarrow>
            p3_delivery_id p3 > high \<and> p3_delivery_id p3 - high > DELIVERY_GAP)
        then (Inl DeliveryGap, ?s, lh)
        else (Inr (?pv New), ?s\<lparr>rs_receive_preview := Some (lh_next lh)\<rparr>, ?lh)) = (r, s', lh')"
      using pre acc unfolding RedundantSession_preview_inbound_inner_def RedundantSession_live_def
      by (cases active) (simp_all add: Let_def cong: if_cong)
    show thesis
    proof (cases "\<exists>d. r = Inr (?pv d)")
      case True
      then obtain d where "r = Inr (?pv d)" ..
      with x show thesis by (intro that(2) [of "?pv d"]) (auto split: if_splits prod.splits)
    next
      case r: False
      with x False acc(2) show thesis by (auto split: if_splits prod.splits intro: that(1))
    qed
  qed
  then show ?thesis
  proof cases
    case 1
    have "redundant_inv (RedundantSession_event Divergence_event ?s)" by (simp add: inv')
    from red_close_inv [OF this 1(2)] 1(3) acc(2) show ?thesis by (simp add: quiet_def)
  next
    case 2
    with inv' acc(2) show ?thesis by (simp add: quiet_def claim_ok_def split: ReceiveDecision.splits)
  qed
qed

lemma path_ok_session: "path_ok p \<Longrightarrow> pa_session p \<noteq> None \<Longrightarrow> path_ok (p\<lparr>pa_session := Some d\<rparr>)"
  by (auto simp: path_ok_def queue_ok_def)

lemma put_session_inv:
  assumes "redundant_inv s" "rs_state s = Active_session" "path_at s k = Some p" "pa_session p = Some d"
  shows "redundant_inv (put_path k (p\<lparr>pa_session := Some d'\<rparr>) s)"
  using assms path_at_ok [OF assms(1,3)] by (intro put_path_inv path_ok_session) simp_all

lemma commit_paths:
  assumes "RedundantSession_commit s slot pv = (r, s')" "redundant_inv s" "rs_state s = Active_session"
  shows "redundant_inv s' \<and> s' = s\<lparr>rs_paths := rs_paths s'\<rparr>
    \<and> (\<forall>i bs. r = Inr (i, bs) \<longrightarrow> i = p3_delivery_id pv \<and> bs = p3_plaintext pv)"
  using assms put_session_inv [OF assms(2,3)]
  by (auto simp: RedundantSession_commit_def DirectionalSession_commit_profile3_data_def put_path_def map_err_def
      split: option.splits prod.splits sum.splits if_splits)

lemma dedup_remove_length:
  "distinct (map fst ds) \<Longrightarrow> (i, d) \<in> set ds \<Longrightarrow> length (dedup_remove i ds) < length ds"
  unfolding dedup_remove_def by (rule length_filter_less) auto

lemma dedup_oldest_in: "dedup_oldest ds = Some d \<Longrightarrow> d \<in> set ds"
proof -
  have "foldl (\<lambda>m x. if dedup_before x m then x else m) d es \<in> insert d (set es)" for d es
  proof (induction es arbitrary: d)
    case (Cons a es)
    from Cons [of d] Cons [of a] show ?case by auto
  qed simp
  then show "dedup_oldest ds = Some d \<Longrightarrow> ?thesis"
    by (force simp: dedup_oldest_def split: list.splits)
qed

lemma dedup_bound:
  assumes "length ds \<le> DEDUP_IDS" "distinct (map fst ds)"
    and "es = (if length ds \<ge> DEDUP_IDS then (case dedup_oldest ds of None \<Rightarrow> ds
                 | Some (old, _) \<Rightarrow> dedup_remove old ds) else ds)"
  shows "length (dedup_insert i d es) \<le> DEDUP_IDS \<and> distinct (map fst (dedup_insert i d es))"
proof -
  have "length es < DEDUP_IDS"
  proof (cases "length ds \<ge> DEDUP_IDS")
    case True
    then have "dedup_oldest ds \<noteq> None" by (cases ds) (auto simp: dedup_oldest_def DEDUP_IDS_def)
    then obtain old x where o: "dedup_oldest ds = Some (old, x)" by auto
    with dedup_remove_length [OF assms(2) dedup_oldest_in [OF o]] True assms show ?thesis by simp
  qed (use assms in simp)
  moreover have "length (dedup_remove i es) \<le> length es" by (simp add: dedup_remove_def)
  moreover have remove: "distinct (map fst (dedup_remove j xs))" if "distinct (map fst xs)"
    for j and xs :: "(u64 \<times> dedup) list"
    using that by (simp add: dedup_remove_def distinct_map_filter)
  moreover have "distinct (map fst es)" using assms remove by (auto split: option.splits)
  moreover have "i \<notin> fst ` set (dedup_remove i es)" by (auto simp: dedup_remove_def)
  ultimately show ?thesis by (simp add: dedup_insert_def)
qed

lemma record_delivery_inv:
  assumes "redundant_inv s" "rs_state s = Active_session"
  shows "redundant_inv (record_delivery c s i bs now)"
  using assms dedup_bound [of "rs_dedup s" _ i, OF _ _ refl]
  by (simp add: redundant_inv_def record_delivery_def Let_def)

lemma record_delivery_same [simp]:
  "rs_state (record_delivery c s i bs now) = rs_state s"
  "rs_receive_owner (record_delivery c s i bs now) = rs_receive_owner s"
  "rs_receive_generation (record_delivery c s i bs now) = rs_receive_generation s"
  "rs_delivered (record_delivery c s i bs now) = DeliveredWindow_insert c (rs_delivered s) i bs"
  by (simp_all add: record_delivery_def Let_def)

text \<open>
  The effect of a commit on the receiving side: nothing, or the generation moves on and the claim
  is entered in the window when it was new.
\<close>

definition delivers :: "crypto \<Rightarrow> redundant_session \<Rightarrow> redundant_session \<Rightarrow> u64 \<Rightarrow> ReceiveDecision \<Rightarrow> bytes \<Rightarrow> bool" where
  "delivers c s s' i decision bs \<longleftrightarrow> rs_state s = Active_session \<and> rs_state s' = Active_session
     \<and> rs_receive_owner s' = rs_receive_owner s \<and> rs_receive_generation s < rs_receive_generation s'
     \<and> rs_delivered s' = (case decision of New \<Rightarrow> DeliveredWindow_insert c (rs_delivered s) i bs
         | Equal \<Rightarrow> rs_delivered s)"

lemma checked_add_less: "checked_add g 1 = Some g' \<Longrightarrow> (g :: u64) < g'"
  by (auto simp: checked_add_def word_less_nat_alt unat_add_small split: if_splits)

lemma commit_inbound_cases:
  assumes "RedundantSession_commit_inbound c s lh pv = (r, s', lh')" and inv: "redundant_inv s"
  obtains e where "r = Inl e" "redundant_inv s'" "quiet s s'"
  | p3 where "ip_session_preview pv = Some p3" "redundant_inv s'" "RedundantSession_accepts_preview s lh pv"
      "delivers c s s' (p3_delivery_id p3) (ip_decision pv) (p3_plaintext p3)"
      "r = Inr (case ip_decision pv of New \<Rightarrow> Delivered (p3_plaintext p3) | Equal \<Rightarrow> Suppressed)"
proof (cases "\<exists>e. r = Inl e \<and> s' = s")
  case True
  with that(1) inv show ?thesis by auto
next
  case False
  let ?s1 = "s\<lparr>rs_receive_preview := None\<rparr>"
  from False assms(1) obtain g p3 where acc: "rs_state s = Active_session"
      "RedundantSession_accepts_preview s lh pv" "checked_add (rs_receive_generation s) 1 = Some g"
      "ip_session_preview pv = Some p3"
    unfolding RedundantSession_commit_inbound_def RedundantSession_live_def Let_def
    by (auto split: if_splits option.splits)
  obtain x s2 where x: "RedundantSession_commit ?s1 (ip_slot pv) p3 = (x, s2)" by fastforce
  have s2: "redundant_inv s2" "\<exists>ps. s2 = ?s1\<lparr>rs_paths := ps\<rparr>"
    "\<And>i bs. x = Inr (i, bs) \<Longrightarrow> i = p3_delivery_id p3 \<and> bs = p3_plaintext p3"
    using commit_paths [OF x] inv acc(1) by auto
  then have same: "rs_state s2 = Active_session" "rs_receive_owner s2 = rs_receive_owner s"
    "rs_receive_generation s2 = rs_receive_generation s" "rs_delivered s2 = rs_delivered s"
    using acc(1) by auto
  have out: "(r, s') = (case x of Inl e \<Rightarrow> (Inl e, s2) | Inr (i, bs) \<Rightarrow>
      let s3 = RedundantSession_expire (s2\<lparr>rs_receive_generation := g\<rparr>) (ip_now_ms pv) in
      case ip_decision pv of Equal \<Rightarrow> (Inr Suppressed, s3)
      | New \<Rightarrow> (Inr (Delivered bs), record_delivery c s3 i bs (ip_now_ms pv)))"
    using assms(1) acc x unfolding RedundantSession_commit_inbound_def RedundantSession_live_def Let_def
    by (auto split: sum.splits prod.splits ReceiveDecision.splits)
  show ?thesis
  proof (cases x)
    case (Inl e)
    with out s2(1) same acc(1) show ?thesis by (intro that(1) [of e]) (auto simp: quiet_def)
  next
    case (Inr y)
    with s2(3) [of "fst y" "snd y"] have y: "x = Inr (p3_delivery_id p3, p3_plaintext p3)" by (cases y) simp
    have "redundant_inv (RedundantSession_expire (s2\<lparr>rs_receive_generation := g\<rparr>) t)" for t
      using s2(1) same(1) by (intro expire_inv) simp
    with out y acc same checked_add_less [OF acc(3)] show ?thesis
      by (intro that(2) [OF acc(4)])
        (auto simp: delivers_def Let_def record_delivery_inv split: ReceiveDecision.splits)
  qed
qed

lemma prepare_mobility_claim:
  assumes "RedundantSession_prepare_mobility_commit c s lh m observed pv now = (Inr ic, lh')"
  shows "\<exists>p3. ip_session_preview pv = Some p3 \<and> mi_owner ic = ip_owner pv \<and> mi_generation ic = ip_generation pv
    \<and> mi_delivery_id ic = p3_delivery_id p3 \<and> mi_plaintext ic = p3_plaintext p3 \<and> mi_decision ic = ip_decision pv"
  using assms by (auto simp: RedundantSession_prepare_mobility_commit_def InboundPreview_plaintext_def ok_or_def Let_def
      split: sum.splits if_splits option.splits)

lemma commit_mobility_cases:
  assumes "RedundantSession_commit_mobility c s lh m ic = Some (r, s', lh', m')" and inv: "redundant_inv s"
  obtains e where "r = Inl e" "redundant_inv s'" "quiet s s'"
  | "r = Inr ()" "redundant_inv s'" "RedundantSession_accepts_replay_lease s lh ic"
      "delivers c s s' (mi_delivery_id ic) (mi_decision ic) (mi_plaintext ic)"
proof (cases "\<exists>e. r = Inl e \<and> s' = s")
  case True
  with that(1) inv show ?thesis by auto
next
  case False
  from False assms(1) obtain g p d x m1 d1 where acc: "rs_state s = Active_session"
      "RedundantSession_accepts_replay_lease s lh ic" "checked_add (rs_receive_generation s) 1 = Some g"
      "path_at s (unat (mi_slot ic)) = Some p" "pa_session p = Some d"
      "CandidateManager_commit_profile3 m (mi_transition ic) d = Some (x, m1, d1)"
    unfolding RedundantSession_commit_mobility_def RedundantSession_live_def Let_def
    by (auto split: if_splits option.splits)
  define s1 where "s1 = put_path (unat (mi_slot ic)) (p\<lparr>pa_session := Some d1\<rparr>) s"
  have s1: "redundant_inv s1" using put_session_inv [OF inv acc(1,4,5)] by (simp add: s1_def)
  have same: "rs_state s1 = Active_session" "rs_receive_owner s1 = rs_receive_owner s"
    "rs_receive_generation s1 = rs_receive_generation s" "rs_delivered s1 = rs_delivered s"
    using acc(1) by (simp_all add: s1_def)
  have out: "(r, s') = (case x of Inl e \<Rightarrow> (Inl Replay_red, s1) | Inr _ \<Rightarrow>
      let s2 = RedundantSession_expire (s1\<lparr>rs_receive_preview := None, rs_receive_generation := g\<rparr>) (mi_now_ms ic) in
      case mi_decision ic of Equal \<Rightarrow> (Inr (), s2)
      | New \<Rightarrow> (Inr (), record_delivery c s2 (mi_delivery_id ic) (mi_plaintext ic) (mi_now_ms ic)))"
    using assms(1) acc unfolding RedundantSession_commit_mobility_def RedundantSession_live_def Let_def s1_def
    by (auto split: sum.splits ReceiveDecision.splits)
  show ?thesis
  proof (cases x)
    case (Inl e)
    with out s1 same acc(1) show ?thesis by (intro that(1) [of Replay_red]) (auto simp: quiet_def)
  next
    case (Inr y)
    have "redundant_inv (RedundantSession_expire (s1\<lparr>rs_receive_preview := None, rs_receive_generation := g\<rparr>) t)" for t
      using s1 same(1) by (intro expire_inv) simp
    with out Inr acc same checked_add_less [OF acc(3)] show ?thesis
      by (intro that(2))
        (auto simp: delivers_def Let_def record_delivery_inv split: ReceiveDecision.splits)
  qed
qed

lemma abort_quiet:
  assumes "RedundantSession_abort_inbound s lh pv = (r, s', lh')" "redundant_inv s"
  shows "redundant_inv s' \<and> quiet s s'"
  using assms by (auto simp: RedundantSession_abort_inbound_def RedundantSession_live_def Let_def quiet_def
      split: if_splits)

lemma tick_quiet:
  assumes "RedundantSession_tick s lh now = (r, s')" "redundant_inv s"
  shows "redundant_inv s' \<and> quiet s s'"
  using assms by (auto simp: RedundantSession_tick_def RedundantSession_live_def quiet_def expire_inv reap_inv
      split: if_splits)

lemma remove_path_quiet:
  assumes "RedundantSession_remove_path s lh slot = (r, s', lh')" "redundant_inv s"
  shows "redundant_inv s' \<and> quiet s s'"
proof (cases "rs_state s = Active_session")
  case True
  define s1 where "s1 = (RedundantSession_reap_preview s lh)\<lparr>rs_receive_preview := None\<rparr>"
  have s1: "redundant_inv s1" "rs_state s1 = Active_session" "rs_receive_owner s1 = rs_receive_owner s"
    "rs_receive_generation s1 = rs_receive_generation s" "rs_delivered s1 = rs_delivered s"
    using True reap_inv [OF assms(2)] by (simp_all add: s1_def)
  show ?thesis
  proof (cases "s' = s1")
    case True
    with s1 \<open>rs_state s = Active_session\<close> show ?thesis by (simp add: quiet_def)
  next
    case False
    define s3 where "s3 = (\<lambda>g p. RedundantSession_event Degraded_event ((put_path (unat slot)
        ((Path_clear p)\<lparr>pa_state := Removed_path\<rparr>) s1)\<lparr>rs_receive_generation := g\<rparr>))"
    from False assms(1) True obtain g p where g: "checked_add (rs_receive_generation s) 1 = Some g"
        "path_at s1 (unat slot) = Some p"
      unfolding RedundantSession_remove_path_def RedundantSession_live_def Let_def s1_def
      by (auto split: if_splits option.splits)
    have last: "s' = s3 g p \<or> (\<exists>lh1. RedundantSession_close (s3 g p) lh1 = (s', lh'))"
      using False assms(1) True g
      unfolding RedundantSession_remove_path_def RedundantSession_live_def Let_def s1_def s3_def
      by (auto split: if_splits prod.splits)
    have s3: "redundant_inv (s3 g p)" "rs_state (s3 g p) = Active_session" "rs_delivered (s3 g p) = rs_delivered s"
      "rs_receive_owner (s3 g p) = rs_receive_owner s" "rs_receive_generation (s3 g p) = g"
      using s1 put_path_inv [OF s1(1,2) path_ok_clear(1) [OF path_at_ok [OF s1(1) g(2)]]]
      by (simp_all add: s3_def)
    have "quiet s (s3 g p)" using s3 True checked_add_less [OF g(1)] by (simp add: quiet_def)
    with last s3(1) close_quiet [OF s3(1,2)] show ?thesis by (metis quiet_trans)
  qed
qed (use assms in \<open>simp add: RedundantSession_remove_path_def RedundantSession_live_def\<close>)

end
