(* ===== verification/Redundant_Run.thy ===== *)
theory Redundant_Run
  imports Redundant_Safety
begin

text \<open>
  A redundant session in use: the step relation of its public operations with the previews, the
  mobility commits and the delivery logs it produces, the invariant of that relation, and the
  properties of the component.
\<close>

section \<open>A session in use\<close>

text \<open>
  A session with the previews and mobility commits it handed out, and what came of them: the data
  \<open>commit_inbound\<close> returned to the caller as \<open>Delivered\<close>, the copies it answered with
  \<open>Suppressed\<close>, and the controls \<open>commit_mobility\<close> carried out.
\<close>

record link =
  ln_session :: redundant_session
  ln_leases :: lease_heap
  ln_previews :: "inbound_preview set"
  ln_commits :: "mobility_inbound_commit set"
  ln_delivered :: "(u64 \<times> bytes) list"
  ln_suppressed :: "(u64 \<times> bytes) list"
  ln_controls :: "(u64 \<times> bytes) list"

definition moved :: "link \<Rightarrow> redundant_session \<Rightarrow> lease_heap \<Rightarrow> link" where
  "moved ln s lh = ln\<lparr>ln_session := s, ln_leases := lh\<rparr>"

definition log_outcome :: "ReceiveOutcome \<Rightarrow> u64 \<Rightarrow> bytes \<Rightarrow> link \<Rightarrow> link" where
  "log_outcome out i copy ln = (case out of
     Delivered bs \<Rightarrow> ln\<lparr>ln_delivered := (i, bs) # ln_delivered ln\<rparr>
   | Suppressed \<Rightarrow> ln\<lparr>ln_suppressed := (i, copy) # ln_suppressed ln\<rparr>)"

definition log_control :: "u64 \<Rightarrow> bytes \<Rightarrow> link \<Rightarrow> link" where
  "log_control i bs ln = ln\<lparr>ln_controls := (i, bs) # ln_controls ln\<rparr>"

text \<open>Any public operation with any arguments; previews and commits are those handed out. A preview
  may also be dropped, which clears its lease.\<close>

inductive link_step :: "crypto \<Rightarrow> link \<Rightarrow> link \<Rightarrow> bool" for c where
  outbound: "RedundantSession_outbound c (ln_session ln) (ln_leases ln) m = (r, s, lh) \<Longrightarrow>
    link_step c ln (moved ln s lh)"
| confirm: "RedundantSession_confirm_sent (ln_session ln) slot packet = (r, s) \<Longrightarrow>
    link_step c ln (moved ln s (ln_leases ln))"
| drain: "RedundantSession_drain_events (ln_session ln) = (es, s) \<Longrightarrow>
    link_step c ln (moved ln s (ln_leases ln))"
| issue: "RedundantSession_issue_profile3_admission_owner live cap (ln_session ln) policy = (ro, s) \<Longrightarrow>
    link_step c ln (moved ln s (ln_leases ln))"
| activate: "length (ad_local_loc ad) = 16 \<Longrightarrow> length (ad_peer_loc ad) = 16 \<Longrightarrow>
    RedundantSession_activate c live (ln_leases ln) (ln_session ln) ad budget n = Some (ru, s, n') \<Longrightarrow>
    link_step c ln (moved ln s (ln_leases ln))"
| preview: "RedundantSession_preview_inbound_inner c (ln_session ln) (ln_leases ln) slot binding packet now active
      = (Inr pv, s, lh) \<Longrightarrow>
    link_step c ln ((moved ln s lh)\<lparr>ln_previews := insert pv (ln_previews ln)\<rparr>)"
| refuse: "RedundantSession_preview_inbound_inner c (ln_session ln) (ln_leases ln) slot binding packet now active
      = (Inl e, s, lh) \<Longrightarrow> link_step c ln (moved ln s lh)"
| drop_preview: "link_step c ln (moved ln (ln_session ln) (drop_lease l (ln_leases ln)))"
| abort: "RedundantSession_abort_inbound (ln_session ln) (ln_leases ln) pv = (ru, s, lh) \<Longrightarrow>
    link_step c ln (moved ln s lh)"
| commit: "pv \<in> ln_previews ln \<Longrightarrow> ip_session_preview pv = Some p3 \<Longrightarrow>
    RedundantSession_commit_inbound c (ln_session ln) (ln_leases ln) pv = (Inr out, s, lh) \<Longrightarrow>
    link_step c ln (log_outcome out (p3_delivery_id p3) (p3_plaintext p3) (moved ln s lh))"
| commit_refused: "RedundantSession_commit_inbound c (ln_session ln) (ln_leases ln) pv = (Inl e, s, lh) \<Longrightarrow>
    link_step c ln (moved ln s lh)"
| prepare: "pv \<in> ln_previews ln \<Longrightarrow>
    RedundantSession_prepare_mobility_commit c (ln_session ln) (ln_leases ln) mgr observed pv now = (Inr ic, lh) \<Longrightarrow>
    link_step c ln ((moved ln (ln_session ln) lh)\<lparr>ln_commits := insert ic (ln_commits ln)\<rparr>)"
| prepare_refused: "RedundantSession_prepare_mobility_commit c (ln_session ln) (ln_leases ln) mgr observed pv now = (Inl e, lh) \<Longrightarrow>
    link_step c ln (moved ln (ln_session ln) lh)"
| commit_mobility: "ic \<in> ln_commits ln \<Longrightarrow>
    RedundantSession_commit_mobility c (ln_session ln) (ln_leases ln) mgr ic = Some (Inr u, s, lh, mgr') \<Longrightarrow>
    link_step c ln (log_control (mi_delivery_id ic) (mi_plaintext ic) (moved ln s lh))"
| commit_mobility_refused:
    "RedundantSession_commit_mobility c (ln_session ln) (ln_leases ln) mgr ic = Some (Inl e, s, lh, mgr') \<Longrightarrow>
    link_step c ln (moved ln s lh)"
| remove: "RedundantSession_remove_path (ln_session ln) (ln_leases ln) slot = (ru, s, lh) \<Longrightarrow>
    link_step c ln (moved ln s lh)"
| tick: "RedundantSession_tick (ln_session ln) (ln_leases ln) now = (ru, s) \<Longrightarrow>
    link_step c ln (moved ln s (ln_leases ln))"
| close: "RedundantSession_close (ln_session ln) (ln_leases ln) = (s, lh) \<Longrightarrow>
    link_step c ln (moved ln s lh)"

definition preview_claims :: "crypto \<Rightarrow> redundant_session \<Rightarrow> inbound_preview \<Rightarrow> bool" where
  "preview_claims c s pv \<longleftrightarrow> (\<forall>p3. ip_session_preview pv = Some p3 \<longrightarrow>
     claim_ok c s (ip_generation pv) (p3_delivery_id p3) (ip_decision pv) (p3_plaintext p3))"

definition commit_claims :: "crypto \<Rightarrow> redundant_session \<Rightarrow> mobility_inbound_commit \<Rightarrow> bool" where
  "commit_claims c s ic \<longleftrightarrow> claim_ok c s (mi_generation ic) (mi_delivery_id ic) (mi_decision ic) (mi_plaintext ic)"

definition same_digest :: "crypto \<Rightarrow> bytes \<Rightarrow> bytes \<Rightarrow> bool" where
  "same_digest c bs cs \<longleftrightarrow> sha256 c bs = sha256 c cs \<and> length bs = length cs"

text \<open>
  \<open>H\<close> holds the first plaintext accepted under each id, whether it went to the caller or to the
  manager; the window remembers it, and everything accepted later under the id agrees with it.
\<close>

definition backed :: "crypto \<Rightarrow> (u64 \<times> bytes) list \<Rightarrow> (u64 \<times> bytes) list \<Rightarrow> bool" where
  "backed c H copies \<longleftrightarrow> (\<forall>i bs. (i, bs) \<in> set copies \<longrightarrow> (\<exists>cs. (i, cs) \<in> set H \<and> same_digest c bs cs))"

definition first_accepted :: "crypto \<Rightarrow> link \<Rightarrow> (u64 \<times> bytes) list \<Rightarrow> bool" where
  "first_accepted c ln H \<longleftrightarrow>
     (rs_state (ln_session ln) = Active_session \<longrightarrow>
        delivered_hist c (rs_delivered (ln_session ln)) (map_of H))
     \<and> distinct (map fst H) \<and> distinct (map fst (ln_delivered ln))
     \<and> set (ln_delivered ln) \<subseteq> set H \<and> set H \<subseteq> set (ln_delivered ln) \<union> set (ln_controls ln)
     \<and> backed c H (ln_suppressed ln) \<and> backed c H (ln_controls ln)"

lemma same_digest_refl [simp]: "same_digest c bs bs"
  by (simp add: same_digest_def)

lemma backed_Nil [simp]: "backed c H []"
  by (simp add: backed_def)

lemma backed_Cons [simp]:
  "backed c H ((i, bs) # copies) \<longleftrightarrow> (\<exists>cs. (i, cs) \<in> set H \<and> same_digest c bs cs) \<and> backed c H copies"
  by (auto simp: backed_def)

lemma backed_grow: "backed c H copies \<Longrightarrow> backed c (x # H) copies"
  unfolding backed_def by (meson list.set_intros(2))

lemma backed_ids: "backed c H copies \<Longrightarrow> fst ` set copies \<subseteq> fst ` set H"
  by (force simp: backed_def)

lemma first_accepted_handed_out [simp]:
  "first_accepted c (ln\<lparr>ln_previews := P\<rparr>) H = first_accepted c ln H"
  "first_accepted c (ln\<lparr>ln_commits := C\<rparr>) H = first_accepted c ln H"
  by (simp_all add: first_accepted_def)

lemma first_acceptedD:
  assumes "first_accepted c ln H"
  shows "distinct (map fst H)" "distinct (map fst (ln_delivered ln))"
    "set (ln_delivered ln) \<subseteq> set H" "set H \<subseteq> set (ln_delivered ln) \<union> set (ln_controls ln)"
    "backed c H (ln_suppressed ln)" "backed c H (ln_controls ln)"
  using assms by (auto simp: first_accepted_def)

definition link_inv :: "crypto \<Rightarrow> link \<Rightarrow> bool" where
  "link_inv c ln \<longleftrightarrow> redundant_inv (ln_session ln)
     \<and> (\<forall>pv \<in> ln_previews ln. preview_claims c (ln_session ln) pv)
     \<and> (\<forall>ic \<in> ln_commits ln. commit_claims c (ln_session ln) ic)
     \<and> (\<exists>H. first_accepted c ln H)"

text \<open>A step that delivers nothing.\<close>

lemma quiet_link:
  assumes "link_inv c ln" "redundant_inv s" "quiet (ln_session ln) s"
  shows "link_inv c (moved ln s lh)"
proof -
  have "preview_claims c s pv" if "preview_claims c (ln_session ln) pv" for pv
    using that claim_quiet [OF assms(3)] by (simp add: preview_claims_def)
  moreover have "commit_claims c s ic" if "commit_claims c (ln_session ln) ic" for ic
    using that claim_quiet [OF assms(3)] by (simp add: commit_claims_def)
  moreover have "rs_state (ln_session ln) = Active_session" if "rs_state s = Active_session"
    using assms(3) that by (cases "rs_state (ln_session ln)") (auto simp: quiet_def)
  ultimately show ?thesis
    using assms by (auto simp: link_inv_def first_accepted_def moved_def quiet_def)
qed

lemma same_link: "link_inv c ln \<Longrightarrow> link_inv c (moved ln (ln_session ln) lh)"
  by (rule quiet_link) (simp_all add: link_inv_def)

text \<open>A step that enters a true claim, and what it means for the first plaintext of the id.\<close>

lemma claim_first_accepted:
  assumes first: "first_accepted c ln H" and del: "delivers c (ln_session ln) s i decision bs"
    and claim: "claim_ok c (ln_session ln) (rs_receive_generation (ln_session ln)) i decision bs"
  shows "case decision of
      New \<Rightarrow> i \<notin> fst ` set H \<and> delivered_hist c (rs_delivered s) (map_of ((i, bs) # H))
    | Equal \<Rightarrow> (\<exists>cs. (i, cs) \<in> set H \<and> same_digest c bs cs) \<and> delivered_hist c (rs_delivered s) (map_of H)"
proof -
  let ?t = "ln_session ln"
  have act: "rs_state ?t = Active_session" using del by (simp add: delivers_def)
  have hist: "delivered_hist c (rs_delivered ?t) (map_of H)" using first act by (simp add: first_accepted_def)
  have old: "\<not> DeliveredWindow_too_old (rs_delivered ?t) i" using claim act by (simp add: claim_ok_def)
  note seen = seen_hist [OF hist old]
  show ?thesis
  proof (cases decision)
    case New
    with claim act have "i \<notin> fst ` set H" using seen by (auto simp: claim_ok_def map_of_eq_None_iff)
    with New insert_hist [OF hist old, of bs] del show ?thesis by (simp add: delivers_def)
  next
    case Equal
    with claim act seen obtain cs where cs: "map_of H i = Some cs"
      "DeliveredWindow_matches c (rs_delivered ?t) i bs"
      by (auto simp: claim_ok_def)
    with matches_hist [OF hist old cs(1), of bs] have "(i, cs) \<in> set H" "same_digest c bs cs"
      by (auto simp: same_digest_def dest: map_of_SomeD)
    with Equal hist del show ?thesis by (auto simp: delivers_def)
  qed
qed

lemma delivers_claims:
  assumes "link_inv c ln" "delivers c (ln_session ln) s i decision bs"
  shows "(\<forall>pv \<in> ln_previews ln. preview_claims c s pv) \<and> (\<forall>ic \<in> ln_commits ln. commit_claims c s ic)"
  using assms claim_advanced [of c "ln_session ln" _ _ _ _ s]
  by (auto simp: link_inv_def preview_claims_def commit_claims_def delivers_def)

lemma outcome_link:
  assumes inv: "link_inv c ln" "redundant_inv s" and del: "delivers c (ln_session ln) s i decision bs"
    and claim: "claim_ok c (ln_session ln) (rs_receive_generation (ln_session ln)) i decision bs"
    and out: "out = (case decision of New \<Rightarrow> Delivered bs | Equal \<Rightarrow> Suppressed)"
  shows "link_inv c (log_outcome out i bs (moved ln s lh))"
proof -
  from inv obtain H where H: "first_accepted c ln H" by (auto simp: link_inv_def)
  note f = claim_first_accepted [OF H del claim]
  have "first_accepted c (log_outcome out i bs (moved ln s lh)) (case decision of New \<Rightarrow> (i, bs) # H | Equal \<Rightarrow> H)"
  proof (cases decision)
    case New
    with f first_acceptedD [OF H] have "i \<notin> fst ` set (ln_delivered ln)" by auto
    with New f out first_acceptedD [OF H] show ?thesis
      unfolding first_accepted_def log_outcome_def moved_def by (auto simp: backed_grow)
  next
    case Equal
    with f H out show ?thesis
      by (simp add: first_accepted_def log_outcome_def moved_def)
  qed
  then show ?thesis
    using delivers_claims [OF inv(1) del] inv(2) unfolding link_inv_def
    by (auto simp: log_outcome_def moved_def split: ReceiveOutcome.splits)
qed

lemma control_link:
  assumes inv: "link_inv c ln" "redundant_inv s" and del: "delivers c (ln_session ln) s i decision bs"
    and claim: "claim_ok c (ln_session ln) (rs_receive_generation (ln_session ln)) i decision bs"
  shows "link_inv c (log_control i bs (moved ln s lh))"
proof -
  from inv obtain H where H: "first_accepted c ln H" by (auto simp: link_inv_def)
  note f = claim_first_accepted [OF H del claim]
  have "first_accepted c (log_control i bs (moved ln s lh)) (case decision of New \<Rightarrow> (i, bs) # H | Equal \<Rightarrow> H)"
  proof (cases decision)
    case New
    with f first_acceptedD [OF H] show ?thesis
      unfolding first_accepted_def log_control_def moved_def by (auto simp: backed_grow)
  next
    case Equal
    with f H show ?thesis
      by (auto simp: first_accepted_def log_control_def moved_def)
  qed
  then show ?thesis
    using delivers_claims [OF inv(1) del] inv(2) unfolding link_inv_def
    by (auto simp: log_control_def moved_def)
qed

lemma link_step_inv:
  assumes c: "aead_ok c" and inv: "link_inv c ln" and step: "link_step c ln ln'"
  shows "link_inv c ln'"
proof -
  have s: "redundant_inv (ln_session ln)" using inv by (simp add: link_inv_def)
  note quiet = quiet_link [OF inv]
  from step show ?thesis
  proof cases
    case (outbound m r s lh)
    with outbound_cases [OF c s outbound(2)] quiet show ?thesis by blast
  next
    case (confirm slot packet r s)
    with confirm_quiet [OF s confirm(2)] quiet show ?thesis by blast
  next
    case (drain es s)
    with drain_quiet [OF s drain(2)] quiet show ?thesis by blast
  next
    case (issue live cap policy ro s)
    with issue_quiet [OF s issue(2)] quiet show ?thesis by blast
  next
    case (activate ad live budget n ru s n')
    with activate_quiet [OF activate(4) s activate(2,3)] quiet show ?thesis by blast
  next
    case (preview slot binding packet now active pv s lh)
    note p = preview_inner_cases [OF preview(2) s]
    from p quiet have "link_inv c (moved ln s lh)" by blast
    with p show ?thesis by (auto simp: preview(1) link_inv_def moved_def preview_claims_def)
  next
    case (refuse slot binding packet now active e s lh)
    with preview_inner_cases [OF refuse(2) s] quiet show ?thesis by blast
  next
    case (drop_preview l)
    with same_link [OF inv] show ?thesis by simp
  next
    case (abort pv ru s lh)
    with abort_quiet [OF abort(2) s] quiet show ?thesis by blast
  next
    case (commit pv p3 out s lh)
    from commit(4) s show ?thesis
    proof (cases rule: commit_inbound_cases)
      case (2 q3)
      then have "claim_ok c (ln_session ln) (rs_receive_generation (ln_session ln)) (p3_delivery_id p3)
          (ip_decision pv) (p3_plaintext p3)"
        using inv commit(2,3) by (auto simp: link_inv_def preview_claims_def RedundantSession_accepts_preview_def)
      with outcome_link [OF inv] 2 commit show ?thesis by simp
    qed simp
  next
    case (commit_refused pv e s lh)
    from commit_refused(2) s show ?thesis
      by (cases rule: commit_inbound_cases) (auto simp: commit_refused(1) intro: quiet)
  next
    case (prepare pv mgr observed now ic lh)
    have "preview_claims c (ln_session ln) pv" using inv prepare(2) by (simp add: link_inv_def)
    with prepare_mobility_claim [OF prepare(3)] have "commit_claims c (ln_session ln) ic"
      by (auto simp: preview_claims_def commit_claims_def)
    with same_link [OF inv] show ?thesis by (auto simp: prepare(1) link_inv_def moved_def)
  next
    case (prepare_refused mgr observed pv now e lh)
    with same_link [OF inv] show ?thesis by simp
  next
    case (commit_mobility ic mgr u s lh mgr')
    from commit_mobility(3) s show ?thesis
    proof (cases rule: commit_mobility_cases)
      case 2
      then have "claim_ok c (ln_session ln) (rs_receive_generation (ln_session ln)) (mi_delivery_id ic)
          (mi_decision ic) (mi_plaintext ic)"
        using inv commit_mobility(2)
        by (auto simp: link_inv_def commit_claims_def RedundantSession_accepts_replay_lease_def)
      with control_link [OF inv] 2 commit_mobility show ?thesis by simp
    qed simp
  next
    case (commit_mobility_refused mgr ic e s lh mgr')
    from commit_mobility_refused(2) s show ?thesis
      by (cases rule: commit_mobility_cases) (auto simp: commit_mobility_refused(1) intro: quiet)
  next
    case (remove slot ru s lh)
    with remove_path_quiet [OF remove(2) s] quiet show ?thesis by blast
  next
    case (tick now ru s)
    with tick_quiet [OF tick(2) s] quiet show ?thesis by blast
  next
    case (close s lh)
    with red_close_inv [OF s close(2)] quiet show ?thesis by (simp add: quiet_def)
  qed
qed

interpretation link: preserved "\<lambda>ln ln'. aead_ok c \<and> link_step c ln ln'" "link_inv c" for c
  by unfold_locales (auto intro: link_step_inv)

definition new_link :: "redundant_session \<Rightarrow> link" where
  "new_link s = \<lparr>ln_session = s, ln_leases = \<lparr>lh_next = 0, lh_active = {}\<rparr>, ln_previews = {},
     ln_commits = {}, ln_delivered = [], ln_suppressed = [], ln_controls = []\<rparr>"

lemma link_run_inv:
  assumes "aead_ok c" "boot_ok b" "RedundantSession_new b binding seed n = Inr (s, n')"
    and "(link_step c)\<^sup>*\<^sup>* (new_link s) ln"
  shows "link_inv c ln"
proof -
  have "link_inv c (new_link s)"
    using new_inv_red [OF assms(3,2)] hist_empty [of c]
    by (auto simp: link_inv_def first_accepted_def new_link_def intro!: exI [of _ "[]"])
  moreover have "(\<lambda>ln ln'. aead_ok c \<and> link_step c ln ln')\<^sup>*\<^sup>* (new_link s) ln"
    using assms(1,4) by simp
  ultimately show ?thesis by (rule link.run_keeps [rotated])
qed

section \<open>From one end to the other\<close>

text \<open>
  Path \<open>k\<close> of the receiver \<open>t\<close> is the other end of path \<open>k\<close> of the sender \<open>s\<close>, and its replay window
  has room for the next counter.
\<close>

definition path_peers :: "redundant_session \<Rightarrow> redundant_session \<Rightarrow> nat \<Rightarrow> ObservedBinding \<Rightarrow> bool" where
  "path_peers s t k binding \<longleftrightarrow>
     is_ok (ObservedBinding_validate binding) \<and> pa_binding (rs_paths t ! k) = Some binding
     \<and> pa_state (rs_paths t ! k) = Active_path
     \<and> pa_peer_loc (rs_paths t ! k) = pa_local_loc (rs_paths s ! k)
     \<and> pa_local_loc (rs_paths t ! k) = pa_peer_loc (rs_paths s ! k)
     \<and> pa_budget (rs_paths s ! k) \<le> pa_budget (rs_paths t ! k)
     \<and> (\<exists>a b H. pa_session (rs_paths s ! k) = Some a \<and> pa_session (rs_paths t ! k) = Some b
          \<and> ds_send_key a = ds_receive_key b \<and> pa_budget (rs_paths s ! k) \<le> ds_receive_budget b
          \<and> replay_hist (ds_replay b) H \<and> replay_accepts H (next_counter a)
          \<and> unat (rw_generation (ds_replay b)) + 1 < 2 ^ 64)"

text \<open>An idle receiver.\<close>

definition receiver_ready :: "redundant_session \<Rightarrow> redundant_session \<Rightarrow> bool" where
  "receiver_ready s t \<longleftrightarrow> redundant_inv t \<and> rs_state t = Active_session \<and> rs_receive_preview t = None
     \<and> map_option pb_scid (rs_bootstrap t) = map_option pb_scid (rs_bootstrap s)"

definition gap_ok :: "delivered_window \<Rightarrow> u64 \<Rightarrow> bool" where
  "gap_ok w i \<longleftrightarrow> (case dw_high_water w of None \<Rightarrow> True | Some high \<Rightarrow> \<not> (i > high \<and> i - high > DELIVERY_GAP))"

lemma copy_opens:
  assumes c: "aead_ok c" and s: "redundant_inv s" "rs_state s = Active_session"
    and k: "k < 2" "pa_state (rs_paths s ! k) = Active_path"
    and sent: "path_sent c s s' did m k out" and "did \<noteq> 0" "hop \<noteq> 0"
    and peers: "path_peers s t k binding" and t: "receiver_ready s t"
  obtains h pl b p3 b' where
    "unpack_with_budget ((op_packet out)[5 := hop]) (pa_budget (rs_paths t ! k)) = Inr (h, pl)"
    "h_path_slot h = of_nat k" "map_option pb_scid (rs_bootstrap t) = Some (h_scid h)"
    "pa_peer_loc (rs_paths t ! k) = Some (h_src h)" "pa_local_loc (rs_paths t ! k) = Some (h_dst h)"
    "pa_session (rs_paths t ! k) = Some b"
    "DirectionalSession_preview_profile3_data c b ((op_packet out)[5 := hop]) = Inr p3"
    "p3_delivery_id p3 = did" "p3_plaintext p3 = m"
    "DirectionalSession_commit_profile3_data b p3 = (Inr (did, m), b')"
proof -
  let ?d = "op_packet out"
  obtain h bd a where h: "RedundantSession_header s k = Inr h" "wf_header h"
      "validate_profile3_data_header h = Inr ()" "pa_session (rs_paths s ! k) = Some a"
      "h_path_slot h = of_nat k" "\<exists>bs. rs_bootstrap s = Some bs \<and> h_scid h = pb_scid bs"
      "pa_local_loc (rs_paths s ! k) = Some (h_src h)" "pa_peer_loc (rs_paths s ! k) = Some (h_dst h)"
    using s k by (rule header_ok) blast
  have e: "DirectionalSession_encrypt_profile3_data c a h did m (pa_budget (rs_paths s ! k))
      = (Inr ?d, counter_used a)"
    using sent h(1,4) by (auto simp: path_sent_def)
  then have n: "did \<noteq> u64_max" "next_counter a \<noteq> 0" "next_counter a \<noteq> u64_max"
    "encrypt_profile3_with_counter c (ds_send_key a) (next_counter a) h did m (pa_budget (rs_paths s ! k)) = Inr ?d"
    "length m + 84 \<le> pa_budget (rs_paths s ! k)"
    by (simp_all add: encrypt_profile3_Inr)
  obtain ct where ct: "length ct = length m + 16"
    "unpack_with_budget ?d (pa_budget (rs_paths s ! k)) = Inr (h, profile3_payload (next_counter a) did ct)"
    "open_sealed c (ds_send_key a) (next_counter a) (profile3_aad h (next_counter a) did ct) ct = Inr m"
    using encrypt_profile3_invert [OF c h(2) n(2,3) validate_profile3_ses [OF h(3)] n(4)] by blast
  have len: "length ?d \<le> pa_budget (rs_paths s ! k)" using encrypt_profile3_length [OF c h(2) e] n(5) by simp
  from peers h(4) obtain b H where b: "pa_session (rs_paths t ! k) = Some b" "ds_send_key a = ds_receive_key b"
    "pa_budget (rs_paths s ! k) \<le> ds_receive_budget b" "replay_hist (ds_replay b) H"
    "replay_accepts H (next_counter a)" "unat (rw_generation (ds_replay b)) + 1 < 2 ^ 64"
    by (auto simp: path_peers_def)
  let ?p3 = "\<lparr>p3_delivery_id = did, p3_plaintext = m,
    p3_commit = \<lparr>rc_counter = next_counter a, rc_generation = rw_generation (ds_replay b)\<rparr>,
    p3_receive_owner = ds_receive_owner b\<rparr>"
  have unp: "unpack_with_budget (?d[5 := hop]) bud = Inr (h\<lparr>h_hop_limit := hop\<rparr>, profile3_payload (next_counter a) did ct)"
    if "pa_budget (rs_paths s ! k) \<le> bud" for bud
    using unpack_rehop [OF ct(2) assms(8)] len that by (meson order_trans)
  have chk: "ReplayWindow_check (ds_replay b) (next_counter a) = Inr ()" using check_refines [OF b(4)] b(5) by simp
  have "DirectionalSession_preview_profile3_data c b (?d[5 := hop]) = Inr ?p3"
    using unp [OF b(3)] validate_profile3_hop [OF h(3) assms(8)] ct n b(2) assms(7) chk
    by (intro preview_profile3 [where h = "h\<lparr>h_hop_limit := hop\<rparr>"]) simp_all
  moreover obtain w where "ReplayWindow_commit (ds_replay b) (p3_commit ?p3) = (Inr (), w)"
    using b(6) chk by (simp add: commit_cases)
  then have "DirectionalSession_commit_profile3_data b ?p3 = (Inr (did, m), b\<lparr>ds_replay := w\<rparr>)"
    by (simp add: DirectionalSession_commit_profile3_data_def)
  ultimately show ?thesis
    using unp [of "pa_budget (rs_paths t ! k)"] peers h t b(1)
    by (intro that [of "h\<lparr>h_hop_limit := hop\<rparr>" "profile3_payload (next_counter a) did ct" b ?p3])
      (auto simp: path_peers_def receiver_ready_def)
qed

lemma inbound_copy:
  assumes c: "aead_ok c" and s: "redundant_inv s" "rs_state s = Active_session"
    and k: "k < 2" "pa_state (rs_paths s ! k) = Active_path"
    and sent: "path_sent c s s' did m k out" and did: "did \<noteq> 0" "hop \<noteq> 0"
    and peers: "path_peers s t k binding" and t: "receiver_ready s t"
    and gen: "unat (rs_receive_generation t) + 1 < 2 ^ 64"
    and old: "\<not> DeliveredWindow_too_old (rs_delivered t) did"
    and fit: "if DeliveredWindow_seen (rs_delivered t) did
              then DeliveredWindow_matches c (rs_delivered t) did m else gap_ok (rs_delivered t) did"
  shows "\<exists>t' lh'. RedundantSession_inbound c t lh (of_nat k) binding ((op_packet out)[5 := hop]) now
      = (Inr (if DeliveredWindow_seen (rs_delivered t) did then Suppressed else Delivered m), t', lh')
    \<and> receiver_ready s t' \<and> rs_receive_generation t' = rs_receive_generation t + 1
    \<and> (\<forall>j. j \<noteq> k \<longrightarrow> rs_paths t' ! j = rs_paths t ! j)
    \<and> rs_delivered t' = (if DeliveredWindow_seen (rs_delivered t) did then rs_delivered t
        else DeliveredWindow_insert c (rs_delivered t) did m)"
proof -
  obtain h pl b p3 b' where o:
    "unpack_with_budget ((op_packet out)[5 := hop]) (pa_budget (rs_paths t ! k)) = Inr (h, pl)"
    "h_path_slot h = of_nat k" "map_option pb_scid (rs_bootstrap t) = Some (h_scid h)"
    "pa_peer_loc (rs_paths t ! k) = Some (h_src h)" "pa_local_loc (rs_paths t ! k) = Some (h_dst h)"
    "pa_session (rs_paths t ! k) = Some b"
    "DirectionalSession_preview_profile3_data c b ((op_packet out)[5 := hop]) = Inr p3"
    "p3_delivery_id p3 = did" "p3_plaintext p3 = m"
    "DirectionalSession_commit_profile3_data b p3 = (Inr (did, m), b')"
    by (rule copy_opens [OF assms(1-10)])
  have inv: "redundant_inv t" "rs_state t = Active_session" "rs_receive_preview t = None" "length (rs_paths t) = 2"
    using t by (auto simp: receiver_ready_def redundant_inv_def)
  have slot: "unat (of_nat k :: u8) = k" using k(1) by (simp add: unat_of_nat)
  have reap: "RedundantSession_reap_preview t lh = t" using inv(3) by (simp add: RedundantSession_reap_preview_def)
  have at: "path_at t' k = Some (rs_paths t' ! k)" if "rs_paths t' = rs_paths t" for t'
    using inv(4) k(1) that by (simp add: path_at_def)
  obtain bs where bs: "rs_bootstrap t = Some bs" "h_scid h = pb_scid bs" using o(3) by auto
  define dec where "dec = (if DeliveredWindow_seen (rs_delivered t) did then Equal else New)"
  let ?pv = "\<lparr>ip_owner = rs_receive_owner t, ip_generation = rs_receive_generation t, ip_slot = of_nat k,
    ip_session_preview = Some p3, ip_decision = dec, ip_now_ms = now, ip_lease = lh_next lh\<rparr>"
  let ?t1 = "t\<lparr>rs_receive_preview := Some (lh_next lh)\<rparr>"
  let ?lh1 = "\<lparr>lh_next = lh_next lh + 1, lh_active = insert (lh_next lh) (lh_active lh)\<rparr>"
  have gap: "(case dw_high_water (rs_delivered t) of None \<Rightarrow> False | Some high \<Rightarrow> did > high \<and> did - high > DELIVERY_GAP)
      = (\<not> gap_ok (rs_delivered t) did)"
    by (simp add: gap_ok_def split: option.split)
  have pv: "RedundantSession_preview_inbound c t lh (of_nat k) binding ((op_packet out)[5 := hop]) now
      = (Inr ?pv, ?t1, ?lh1)"
    using peers o inv bs old fit at [OF refl] slot
    by (simp add: RedundantSession_preview_inbound_def RedundantSession_preview_inbound_inner_def
        RedundantSession_live_def reap path_peers_def dec_def Let_def gap split: if_splits)
  let ?t2 = "put_path k ((rs_paths t ! k)\<lparr>pa_session := Some b'\<rparr>) (?t1\<lparr>rs_receive_preview := None\<rparr>)"
  have cm: "RedundantSession_commit (?t1\<lparr>rs_receive_preview := None\<rparr>) (of_nat k) p3 = (Inr (did, m), ?t2)"
    using o at [of "?t1\<lparr>rs_receive_preview := None\<rparr>"] slot by (simp add: RedundantSession_commit_def)
  have g: "checked_add (rs_receive_generation t) 1 = Some (rs_receive_generation t + 1)"
    using gen by (simp add: checked_add_def)
  let ?t3 = "RedundantSession_expire (?t2\<lparr>rs_receive_generation := rs_receive_generation t + 1\<rparr>) now"
  let ?t4 = "case dec of Equal \<Rightarrow> ?t3 | New \<Rightarrow> record_delivery c ?t3 did m now"
  have out: "RedundantSession_inbound c t lh (of_nat k) binding ((op_packet out)[5 := hop]) now
      = (Inr (case dec of Equal \<Rightarrow> Suppressed | New \<Rightarrow> Delivered m), ?t4, drop_lease (lh_next lh) ?lh1)"
    using inv g cm unfolding RedundantSession_inbound_def pv
    by (cases dec) (simp_all add: RedundantSession_commit_inbound_def RedundantSession_live_def
        RedundantSession_accepts_preview_def Let_def)
  obtain r5 s5 lh5 where r5: "RedundantSession_commit_inbound c ?t1 ?lh1 ?pv = (r5, s5, lh5)" by (rule prod_cases3)
  then have eq: "RedundantSession_inbound c t lh (of_nat k) binding ((op_packet out)[5 := hop]) now = (r5, s5, lh5)"
    by (simp add: RedundantSession_inbound_def pv)
  have "redundant_inv s5" by (rule commit_inbound_cases [OF r5]) (use inv in simp_all)
  moreover have "s5 = ?t4" using out eq by simp
  ultimately have "redundant_inv ?t4" by simp
  moreover have "rs_bootstrap (record_delivery c x i y z) = rs_bootstrap x"
    "rs_receive_preview (record_delivery c x i y z) = rs_receive_preview x"
    "rs_paths (record_delivery c x i y z) = rs_paths x" for x i y z
    by (simp_all add: record_delivery_def Let_def)
  moreover have "rs_bootstrap (RedundantSession_expire x z) = rs_bootstrap x"
    "rs_receive_preview (RedundantSession_expire x z) = rs_receive_preview x" for x z
    by (simp_all add: RedundantSession_expire_def)
  ultimately show ?thesis
    unfolding out using t inv by (cases dec) (auto simp: receiver_ready_def dec_def split: if_splits)
qed

section \<open>Properties\<close>

text \<open>
  C5: Exactly once. In any use of a redundant session, over both paths and with mobility controls
  in between, \<open>commit_inbound\<close> returns data as delivered at most once for each delivery id, and
  every copy it reports as suppressed has its original: data that was delivered or a control that
  was carried out under the id. All that was ever accepted under one id, delivered, suppressed or
  carried out, has one length and one SHA-256 digest.
\<close>

theorem redundant_delivers_once:
  assumes "aead_ok c" "boot_ok b" "RedundantSession_new b binding seed n = Inr (s, n')"
    and "(link_step c)\<^sup>*\<^sup>* (new_link s) ln"
  shows "distinct (map fst (ln_delivered ln))
    \<and> fst ` set (ln_suppressed ln) \<subseteq> fst ` (set (ln_delivered ln) \<union> set (ln_controls ln))
    \<and> (let accepted = set (ln_delivered ln) \<union> set (ln_suppressed ln) \<union> set (ln_controls ln) in
       \<forall>(i, bs) \<in> accepted. \<forall>(j, cs) \<in> accepted. i = j \<longrightarrow>
         sha256 c bs = sha256 c cs \<and> length bs = length cs)"
proof -
  obtain H where H: "first_accepted c ln H" using link_run_inv [OF assms] by (auto simp: link_inv_def)
  have first: "\<exists>cs. map_of H i = Some cs \<and> same_digest c bs cs"
    if "(i, bs) \<in> set (ln_delivered ln) \<union> set (ln_suppressed ln) \<union> set (ln_controls ln)" for i bs
  proof -
    have "\<exists>cs. (i, cs) \<in> set H \<and> same_digest c bs cs"
      using that first_acceptedD(3,5,6) [OF H] same_digest_refl unfolding backed_def by blast
    then show ?thesis using first_acceptedD(1) [OF H] by auto
  qed
  have "same_digest c bs cs"
    if "(i, bs) \<in> set (ln_delivered ln) \<union> set (ln_suppressed ln) \<union> set (ln_controls ln)"
      "(i, cs) \<in> set (ln_delivered ln) \<union> set (ln_suppressed ln) \<union> set (ln_controls ln)" for i bs cs
    using first [OF that(1)] first [OF that(2)] by (auto simp: same_digest_def)
  moreover have "fst ` set (ln_suppressed ln) \<subseteq> fst ` (set (ln_delivered ln) \<union> set (ln_controls ln))"
    using backed_ids [OF first_acceptedD(5) [OF H]] image_mono [OF first_acceptedD(4) [OF H], of fst] by blast
  ultimately show ?thesis
    using H by (auto simp: first_accepted_def same_digest_def Let_def)
qed

text \<open>
  The memory of a session is bounded whatever happens to it: at most 256 packets and 256 KiB
  are queued per path and the byte count is exact, the event log and the duplicate cache keep their
  bounds. Once released it holds nothing: no queue, binding, locator, key, cached plaintext or
  bootstrap.
\<close>

theorem redundant_bounded:
  assumes "aead_ok c" "boot_ok b" "RedundantSession_new b binding seed n = Inr (s, n')"
    and "(link_step c)\<^sup>*\<^sup>* (new_link s) ln"
  shows "(\<forall>p \<in> set (rs_paths (ln_session ln)). length (pa_queue p) \<le> 256
         \<and> pa_queued_bytes p = sum_list (map (length \<circ> op_packet) (pa_queue p)) \<and> pa_queued_bytes p \<le> 262144)
    \<and> length (rs_events (ln_session ln)) \<le> 64 \<and> length (rs_dedup (ln_session ln)) \<le> 4096
    \<and> (rs_state (ln_session ln) = Released_session \<longrightarrow> rs_dedup (ln_session ln) = []
         \<and> rs_bootstrap (ln_session ln) = None
         \<and> (\<forall>p \<in> set (rs_paths (ln_session ln)). pa_queue p = [] \<and> pa_session p = None
              \<and> pa_binding p = None \<and> pa_local_loc p = None \<and> pa_peer_loc p = None))"
proof -
  have "redundant_inv (ln_session ln)" using link_run_inv [OF assms] by (simp add: link_inv_def)
  then show ?thesis
    by (auto simp: redundant_inv_def path_ok_def queue_ok_def erased_path_def redundant_consts comp_def)
qed

text \<open>
  Sending, exactly. \<open>outbound\<close> enqueues a packet iff the session is active, some path is active,
  every active path has room in its budget, its queue and its counter, and a delivery id is left.
  Then every active path has got one packet at the end of its queue, all of the same plaintext under
  the same id, which is the next one, and the other paths are as before. When a queue is full nothing
  but the overflow event is recorded: no delivery id and no counter is used. On an error the session
  is as before or released.
\<close>

theorem outbound_exact:
  assumes "aead_ok c" "redundant_inv s" "RedundantSession_outbound c s lh m = (r, s', lh')"
  shows "((\<exists>did outs. r = Inr (Enqueued did outs)) \<longleftrightarrow>
       rs_state s = Active_session \<and> active_paths s \<noteq> [] \<and> rs_next_delivery s \<noteq> u64_max
       \<and> (\<forall>k \<in> set (active_paths s). path_ready (rs_paths s ! k) (length m + OVERHEAD)))
    \<and> (\<forall>did outs. r = Inr (Enqueued did outs) \<longrightarrow>
         did = rs_next_delivery s \<and> rs_next_delivery s' = did + 1
         \<and> list_all2 (path_sent c s s' did m) (active_paths s) outs
         \<and> (\<forall>k. k \<notin> set (active_paths s) \<longrightarrow> rs_paths s' ! k = rs_paths s ! k))
    \<and> (r = Inr DroppedNewest \<longrightarrow> s' = RedundantSession_event QueueOverflow_event s)
    \<and> (\<forall>e. r = Inl e \<longrightarrow> s' = s \<or> rs_state s' = Released_session)"
proof -
  note o = outbound_cases [OF assms]
  have "\<exists>outs. r = Inr (Enqueued (rs_next_delivery s) outs)"
    if "rs_state s = Active_session" "active_paths s \<noteq> []" "rs_next_delivery s \<noteq> u64_max"
      "\<forall>k \<in> set (active_paths s). path_ready (rs_paths s ! k) (length m + OVERHEAD)"
    using outbound_enqueues [OF assms(1,2) that, of lh] assms(3) by auto
  moreover have "\<forall>k \<in> set (active_paths s). path_ready (rs_paths s ! k) (length m + OVERHEAD)"
    if "r = Inr (Enqueued did outs)" for did outs
    using enqueued_ready [OF assms(2,3) that] .
  moreover have "rs_next_delivery s' = did + 1" if "r = Inr (Enqueued did outs)" for did outs
  proof -
    from o that obtain ps where "s' = s\<lparr>rs_paths := ps, rs_next_delivery := did + 1\<rparr>" by blast
    then show ?thesis by simp
  qed
  ultimately show ?thesis using o by blast
qed

text \<open>
  C11: The second path opens only through mobility. When \<open>activate\<close> succeeds, slot 1 was absent, the
  admission was minted by the live owner this session issued, for this SCID and for the replay domain
  of slot 0, and the budget is in range. Afterwards slot 1 is active with the admission's binding and
  locators, slot 0 is as before, the issuer is gone, and no admission is accepted again.
\<close>

theorem slot1_needs_admission:
  assumes act: "RedundantSession_activate c live lh s ad budget n = Some (Inr (), s', n')"
    and inv: "redundant_inv s"
  shows "pa_state (rs_paths s ! 1) = Absent_path \<and> 84 \<le> budget \<and> budget \<le> 1280
    \<and> (\<exists>b d0 issuer. rs_bootstrap s = Some b \<and> pa_session (rs_paths s ! 0) = Some d0
         \<and> ad_scid ad = pb_scid b \<and> rs_admission_issuer s = Some issuer
         \<and> Profile3AdmissionIssuer_admits live issuer ad
         \<and> Profile3Admission_matches_replay_binding ad (profile3_replay_binding d0))
    \<and> pa_state (rs_paths s' ! 1) = Active_path \<and> pa_binding (rs_paths s' ! 1) = Some (ad_binding ad)
    \<and> pa_local_loc (rs_paths s' ! 1) = Some (ad_local_loc ad)
    \<and> pa_peer_loc (rs_paths s' ! 1) = Some (ad_peer_loc ad)
    \<and> rs_paths s' ! 0 = rs_paths s ! 0 \<and> rs_admission_issuer s' = None
    \<and> (\<forall>live2 lh2 ad2 budget2 k. \<not> (\<exists>s2 k2.
         RedundantSession_activate c live2 lh2 s' ad2 budget2 k = Some (Inr (), s2, k2)))"
proof -
  let ?s1 = "RedundantSession_reap_preview s lh"
  let ?s2 = "put_path 1 ((rs_paths ?s1 ! 1)\<lparr>pa_state := Candidate_path\<rparr>) ?s1"
  have len: "length (rs_paths s) = 2" using inv by (simp add: redundant_inv_def)
  from act obtain g where g: "pa_state (rs_paths s ! 1) = Absent_path" "84 \<le> budget" "budget \<le> 1280"
      "rs_state s = Active_session" "is_ok (ObservedBinding_validate (ad_binding ad))"
      "rs_receive_preview ?s1 = None" "checked_add (rs_receive_generation s) 1 = Some g"
    unfolding RedundantSession_activate_def
    by (auto simp: OVERHEAD_def RedundantSession_live_def Let_def split: if_splits option.splits)
  obtain x s3 n1 where x: "activate_session c live ?s2 ad n = Some (x, s3, n1)"
    using act g unfolding RedundantSession_activate_def
    by (cases "activate_session c live ?s2 ad n") (auto simp: OVERHEAD_def RedundantSession_live_def Let_def)
  from act g x obtain d where a: "activate_session c live ?s2 ad n = Some (Inr d, s3, n')"
      "s' = (RedundantSession_event Recovered_event (put_path 1
               ((rs_paths s3 ! 1)\<lparr>pa_state := Active_path, pa_binding := Some (ad_binding ad),
                  pa_local_loc := Some (ad_local_loc ad), pa_peer_loc := Some (ad_peer_loc ad),
                  pa_budget := budget, pa_session := Some d\<rparr>) (s3\<lparr>rs_admission_issuer := None\<rparr>)))
              \<lparr>rs_receive_generation := g\<rparr>"
    unfolding RedundantSession_activate_def
    by (cases x) (auto simp: OVERHEAD_def RedundantSession_live_def Let_def)
  have reap: "rs_admission_issuer ?s1 = rs_admission_issuer s"
    by (simp add: RedundantSession_reap_preview_def split: option.split)
  have refused: "RedundantSession_activate c live2 lh2 s' ad2 budget2 k \<noteq> Some (Inr (), s2, k2)"
    if "pa_state (rs_paths s' ! 1) = Active_path" for live2 lh2 ad2 budget2 k s2 k2
    using that unfolding RedundantSession_activate_def
    by (auto simp: RedundantSession_live_def Let_def split: if_splits)
  from a(1) show ?thesis
  proof (cases rule: activate_session_cases)
    case (2 b d0 issuer x b')
    then have new: "pa_state (rs_paths s' ! 1) = Active_path" "pa_binding (rs_paths s' ! 1) = Some (ad_binding ad)"
      "pa_local_loc (rs_paths s' ! 1) = Some (ad_local_loc ad)" "pa_peer_loc (rs_paths s' ! 1) = Some (ad_peer_loc ad)"
      "rs_paths s' ! 0 = rs_paths s ! 0" "rs_admission_issuer s' = None"
      using len by (simp_all add: a(2))
    have old: "rs_bootstrap s = Some b" "pa_session (rs_paths s ! 0) = Some d0" "rs_admission_issuer s = Some issuer"
      using 2 len reap by simp_all
    show ?thesis using g(1-3) new old 2(3,5,6) refused [OF new(1)] by blast
  qed simp
qed

text \<open>
  C7: Redundant delivery, end to end. Both copies that \<open>outbound\<close> made cross their networks, each
  with its hop limit rewritten on the way, and reach the other end of their path in either order: the
  first one is delivered with the plaintext that was sent, the second one is suppressed.
\<close>

theorem redundant_end_to_end:
  assumes c: "aead_ok c" and s: "redundant_inv s" "rs_next_delivery s \<noteq> 0"
    and o: "RedundantSession_outbound c s lh0 m = (Inr (Enqueued did outs), s', lh0')" "length outs = 2"
    and k: "k < 2" "j < 2" "k \<noteq> j" and hops: "hop1 \<noteq> 0" "hop2 \<noteq> 0"
    and peers: "path_peers s t k b1" "path_peers s t j b2" and t: "receiver_ready s t"
    and gen: "unat (rs_receive_generation t) + 2 < 2 ^ 64"
    and hist: "delivered_hist c (rs_delivered t) H" "H did = None"
    and fit: "\<not> DeliveredWindow_too_old (rs_delivered t) did" "gap_ok (rs_delivered t) did"
  shows "\<exists>t1 t2 lh1 lh2.
      RedundantSession_inbound c t lh (of_nat k) b1 ((op_packet (outs ! k))[5 := hop1]) now1
        = (Inr (Delivered m), t1, lh1)
    \<and> RedundantSession_inbound c t1 lh1 (of_nat j) b2 ((op_packet (outs ! j))[5 := hop2]) now2
        = (Inr Suppressed, t2, lh2)"
proof -
  from outbound_cases [OF c s(1) o(1)] have sent: "rs_state s = Active_session" "did = rs_next_delivery s"
    "list_all2 (path_sent c s s' did m) (active_paths s) outs" by auto
  have len: "length (rs_paths s) = 2" using s(1) by (simp add: redundant_inv_def)
  have "length (active_paths s) = 2" using sent(3) o(2) by (simp add: list_all2_lengthD)
  then have act: "active_paths s = [0, 1]" "pa_state (rs_paths s ! 0) = Active_path" "pa_state (rs_paths s ! 1) = Active_path"
    unfolding active_paths_def len by (auto simp: upt_rec numeral_2_eq_2 split: if_splits)
  have two: "i = 0 \<or> i = 1" if "i < 2" for i :: nat using that by linarith
  have path: "path_sent c s s' did m i (outs ! i)" "pa_state (rs_paths s ! i) = Active_path" if "i < 2" for i
    using two [OF that] sent(3) o(2) act by (auto simp: act(1) list_all2_conv_all_nth)
  have unseen: "\<not> DeliveredWindow_seen (rs_delivered t) did" using seen_hist [OF hist(1) fit(1)] hist(2) by simp
  have did: "did \<noteq> 0" using s(2) sent(2) by simp
  have g: "unat (rs_receive_generation t) + 1 < 2 ^ 64" using gen by simp
  obtain t1 lh1 where one: "RedundantSession_inbound c t lh (of_nat k) b1 ((op_packet (outs ! k))[5 := hop1]) now1
      = (Inr (Delivered m), t1, lh1)" "receiver_ready s t1" "rs_receive_generation t1 = rs_receive_generation t + 1"
      "rs_paths t1 ! j = rs_paths t ! j" "rs_delivered t1 = DeliveredWindow_insert c (rs_delivered t) did m"
    using inbound_copy [where lh = lh and now = now1, OF c s(1) sent(1) k(1) path(2) [OF k(1)]
        path(1) [OF k(1)] did hops(1) peers(1) t g fit(1)] unseen fit(2) k(3) [symmetric] by auto
  have hist1: "delivered_hist c (rs_delivered t1) (H(did \<mapsto> m))" using insert_hist [OF hist(1) fit(1)] one(5) by simp
  have old1: "\<not> DeliveredWindow_too_old (rs_delivered t1) did"
    using insert_not_old [OF hist(1) fit(1), of m] one(5) by simp
  have m1: "DeliveredWindow_seen (rs_delivered t1) did" "DeliveredWindow_matches c (rs_delivered t1) did m"
    using seen_hist [OF hist1 old1] matches_hist [OF hist1 old1, of m m] by simp_all
  have g1: "unat (rs_receive_generation t1) + 1 < 2 ^ 64" using gen by (simp add: one(3) unat_add_small)
  have peers1: "path_peers s t1 j b2" using peers(2) one(4) by (simp add: path_peers_def)
  show ?thesis
    using inbound_copy [where lh = lh1 and now = now2, OF c s(1) sent(1) k(2) path(2) [OF k(2)]
        path(1) [OF k(2)] did hops(2) peers1 one(2) g1 old1] one(1) m1 by auto
qed

section \<open>A concrete pair of sessions\<close>

definition sample_end :: "bytes \<Rightarrow> bytes \<Rightarrow> u64 \<Rightarrow> profile3_bootstrap" where
  "sample_end here there owner = \<lparr>pb_scid = 7, pb_local_loc = here, pb_peer_loc = there, pb_budget = 1280,
     pb_local_role = 1, pb_peer_role = 2, pb_transcript_hash = [], pb_schedule = Some [],
     pb_slot0 = Some (sample_session owner)\<rparr>"

definition sample_link_binding :: "u8 \<Rightarrow> ObservedBinding" where
  "sample_link_binding i = Native 1 (replicate 6 i)"

definition sample_path :: "u8 \<Rightarrow> bytes \<Rightarrow> bytes \<Rightarrow> u64 \<Rightarrow> path" where
  "sample_path i here there owner = \<lparr>pa_state = Active_path, pa_binding = Some (sample_link_binding i),
     pa_local_loc = Some here, pa_peer_loc = Some there, pa_budget = 1280,
     pa_session = Some (sample_session owner), pa_queue = [], pa_queued_bytes = 0\<rparr>"

text \<open>A session just created, and one with both paths open.\<close>

definition sample_new :: "bytes \<Rightarrow> bytes \<Rightarrow> u64 \<Rightarrow> redundant_session" where
  "sample_new here there owner = \<lparr>rs_bootstrap = Some ((sample_end here there owner)\<lparr>pb_slot0 := None\<rparr>),
     rs_paths = [sample_path 1 here there owner,
       \<lparr>pa_state = Absent_path, pa_binding = None, pa_local_loc = None, pa_peer_loc = None,
        pa_budget = 1280, pa_session = None, pa_queue = [], pa_queued_bytes = 0\<rparr>],
     rs_state = Active_session, rs_next_delivery = 1, rs_delivered = DeliveredWindow_empty,
     rs_dedup = [], rs_events = [InitialDegraded_event], rs_admission_issuer = None,
     rs_receive_owner = owner, rs_receive_generation = 0, rs_receive_preview = None\<rparr>"

definition sample_both :: "bytes \<Rightarrow> bytes \<Rightarrow> u64 \<Rightarrow> redundant_session" where
  "sample_both here there owner = (sample_new here there owner)\<lparr>rs_paths :=
     [sample_path 1 here there owner, sample_path 2 here there (owner + 10)]\<rparr>"

lemma sample_binding_validates: "ObservedBinding_validate (sample_link_binding i) = Inr ()"
  by (simp add: sample_link_binding_def)

lemma sample_new_created:
  "RedundantSession_new (sample_end here there owner) (sample_link_binding 1) 1 owner
     = Inr (sample_new here there owner, owner + 1)"
  by (simp add: RedundantSession_new_def sample_binding_validates sample_end_def OVERHEAD_def
      Profile3Bootstrap_take_slot0_def can_reserve_counter sample_session_def Counters_new_def
      RedundantSession_event_def EVENTS_def sample_new_def sample_path_def)

lemma sample_end_ok: "length here = 16 \<Longrightarrow> length there = 16 \<Longrightarrow> boot_ok (sample_end here there owner)"
  by (simp add: boot_ok_def sample_end_def)

abbreviation sample_here :: bytes where "sample_here \<equiv> replicate 16 1"
abbreviation sample_there :: bytes where "sample_there \<equiv> replicate 16 2"
abbreviation sample_leases :: lease_heap where "sample_leases \<equiv> \<lparr>lh_next = 0, lh_active = {}\<rparr>"

lemma sample_aead: "aead_ok sample_crypto"
  using sample_crypto_ok by (simp add: crypto_ok_def)

lemma sample_invs:
  "redundant_inv (sample_new sample_here sample_there owner)" "redundant_inv (sample_new sample_there sample_here owner)"
  "redundant_inv (sample_both sample_here sample_there owner)" "redundant_inv (sample_both sample_there sample_here owner)"
  by (simp_all add: sample_both_def redundant_inv_def sample_new_def sample_path_def path_ok_def queue_ok_def
      redundant_consts boot_ok_def sample_end_def)

lemma sample_ready: "path_ready (sample_path i here there owner) (length [1, 2, 3 :: u8] + OVERHEAD)"
  by (simp add: path_ready_def sample_path_def Path_can_enqueue_def redundant_consts usize_checked_add_def
      can_reserve_counter sample_session_def Counters_new_def)

lemma sample_active:
  "active_paths (sample_new here there owner) = [0]" "active_paths (sample_both here there owner) = [0, 1]"
  by (simp_all add: active_paths_def sample_new_def sample_both_def sample_path_def upt_rec)

lemma sample_peers:
  "path_peers (sample_new here there o1) (sample_new there here o2) 0 (sample_link_binding 1)"
  "path_peers (sample_both here there o1) (sample_both there here o2) 0 (sample_link_binding 1)"
  "path_peers (sample_both here there o1) (sample_both there here o2) 1 (sample_link_binding 2)"
proof -
  have "replay_hist (ds_replay (sample_session o3)) {} \<and> replay_accepts {} (next_counter (sample_session o4))"
    for o3 o4
    using sample_replay by (simp add: sample_session_def replay_accepts_def Counters_new_def)
  moreover have "unat (rw_generation (ds_replay (sample_session o3))) + 1 < 2 ^ 64" for o3
    by (simp add: sample_session_def ReplayWindow_new_def)
  ultimately show
    "path_peers (sample_new here there o1) (sample_new there here o2) 0 (sample_link_binding 1)"
    "path_peers (sample_both here there o1) (sample_both there here o2) 0 (sample_link_binding 1)"
    "path_peers (sample_both here there o1) (sample_both there here o2) 1 (sample_link_binding 2)"
    unfolding path_peers_def sample_new_def sample_both_def sample_path_def
    by (simp_all add: sample_binding_validates) (auto simp: sample_session_def)
qed

lemma sample_receivers:
  "receiver_ready (sample_new here there o1) (sample_new sample_there sample_here o2)"
  "receiver_ready (sample_both here there o1) (sample_both sample_there sample_here o2)"
  using sample_invs by (simp_all add: receiver_ready_def sample_new_def sample_both_def sample_end_def)

lemma empty_window:
  "\<not> DeliveredWindow_too_old DeliveredWindow_empty i" "\<not> DeliveredWindow_seen DeliveredWindow_empty i"
  "gap_ok DeliveredWindow_empty i"
  by (simp_all add: DeliveredWindow_too_old_def DeliveredWindow_seen_def gap_ok_def DeliveredWindow_empty_def)

theorem outbound_exact_witness:
  "\<exists>outs s' lh'. RedundantSession_outbound sample_crypto (sample_both sample_here sample_there 1) sample_leases
     [1, 2, 3] = (Inr (Enqueued 1 outs), s', lh') \<and> length outs = 2 \<and> rs_next_delivery s' = 2"
proof -
  let ?s = "sample_both sample_here sample_there 1"
  obtain r s' lh' where o: "RedundantSession_outbound sample_crypto ?s sample_leases [1, 2, 3] = (r, s', lh')"
    by (rule prod_cases3)
  note e = outbound_exact [OF sample_aead sample_invs(3) o]
  have "rs_state ?s = Active_session" "rs_next_delivery ?s = 1" "rs_paths ?s =
      [sample_path 1 sample_here sample_there 1, sample_path 2 sample_here sample_there 11]"
    by (simp_all add: sample_both_def sample_new_def)
  with e sample_ready obtain did outs where r: "r = Inr (Enqueued did outs)"
    by (auto simp: sample_active)
  with e \<open>rs_next_delivery ?s = 1\<close> have "did = 1" "rs_next_delivery s' = 2" "length outs = 2"
    by (auto simp: sample_active list_all2_Cons1)
  with o r show ?thesis by blast
qed

theorem redundant_end_to_end_witness:
  "\<exists>outs s' lh' t1 t2 lh1 lh2.
     RedundantSession_outbound sample_crypto (sample_both sample_here sample_there 1) sample_leases [1, 2, 3]
       = (Inr (Enqueued 1 outs), s', lh')
   \<and> RedundantSession_inbound sample_crypto (sample_both sample_there sample_here 2) sample_leases 1
       (sample_link_binding 2) ((op_packet (outs ! 1))[5 := 60]) 0 = (Inr (Delivered [1, 2, 3]), t1, lh1)
   \<and> RedundantSession_inbound sample_crypto t1 lh1 0 (sample_link_binding 1) ((op_packet (outs ! 0))[5 := 61]) 5
       = (Inr Suppressed, t2, lh2)"
proof -
  let ?s = "sample_both sample_here sample_there 1" and ?t = "sample_both sample_there sample_here 2"
  have f: "rs_next_delivery ?s = 1" "rs_state ?s = Active_session" "rs_delivered ?t = DeliveredWindow_empty"
    "rs_receive_generation ?t = 0" "\<forall>k \<in> set (active_paths ?s). path_ready (rs_paths ?s ! k) (length [1, 2, 3 :: u8] + OVERHEAD)"
    using sample_ready by (simp_all add: sample_active) (simp_all add: sample_both_def sample_new_def)
  obtain outs s' lh' where o: "RedundantSession_outbound sample_crypto ?s sample_leases [1, 2, 3]
      = (Inr (Enqueued 1 outs), s', lh')"
    using outbound_enqueues [OF sample_aead sample_invs(3) f(2) _ _ f(5), of sample_leases] f(1)
    by (auto simp: sample_active)
  have "length outs = 2"
    using outbound_cases [OF sample_aead sample_invs(3) o] by (auto simp: sample_active list_all2_Cons1)
  then show ?thesis
    using o redundant_end_to_end [OF sample_aead sample_invs(3) _ o, of 1 0 60 61 ?t "sample_link_binding 2"
        "sample_link_binding 1" Map.empty sample_leases 0 5] f sample_peers sample_receivers empty_window
      hist_empty [of sample_crypto] by auto
qed

lemma inbound_steps:
  assumes "RedundantSession_inbound c (ln_session ln) (ln_leases ln) slot binding packet now = (Inr (Delivered bs), s, lh)"
  shows "\<exists>ln' i. (link_step c)\<^sup>*\<^sup>* ln ln' \<and> ln_session ln' = s \<and> ln_delivered ln' = (i, bs) # ln_delivered ln"
proof -
  from assms obtain pv s1 lh1 where p: "RedundantSession_preview_inbound_inner c (ln_session ln) (ln_leases ln) slot
      binding packet now True = (Inr pv, s1, lh1)"
    "RedundantSession_commit_inbound c s1 lh1 pv = (Inr (Delivered bs), s, lh)"
    by (auto simp: RedundantSession_inbound_def RedundantSession_preview_inbound_def split: prod.splits sum.splits)
  let ?ln1 = "(moved ln s1 lh1)\<lparr>ln_previews := insert pv (ln_previews ln)\<rparr>"
  from p(2) obtain p3 where p3: "ip_session_preview pv = Some p3" "ip_decision pv = New" "p3_plaintext p3 = bs"
    by (auto simp: RedundantSession_commit_inbound_def RedundantSession_live_def RedundantSession_commit_def
        DirectionalSession_commit_profile3_data_def Let_def map_err_def
        split: if_splits option.splits sum.splits prod.splits ReceiveDecision.splits)
  have "link_step c ln ?ln1" by (rule preview [OF p(1)])
  moreover have "link_step c ?ln1 (log_outcome (Delivered bs) (p3_delivery_id p3) bs (moved ?ln1 s lh))"
    using link_step.commit [of pv ?ln1 p3 c "Delivered bs" s lh] p(2) p3 by (simp add: moved_def)
  ultimately show ?thesis
    by (intro exI [where x = "log_outcome (Delivered bs) (p3_delivery_id p3) bs (moved ?ln1 s lh)"] exI [where x = "p3_delivery_id p3"])
      (auto simp: log_outcome_def moved_def intro: converse_rtranclp_into_rtranclp)
qed

lemma sample_link_run:
  "\<exists>ln i. (link_step sample_crypto)\<^sup>*\<^sup>* (new_link (sample_new sample_there sample_here 2)) ln
     \<and> ln_delivered ln = [(i, [1, 2, 3])]"
proof -
  let ?s = "sample_new sample_here sample_there 1" and ?t = "sample_new sample_there sample_here 2"
  have f: "rs_next_delivery ?s = 1" "rs_state ?s = Active_session" "rs_delivered ?t = DeliveredWindow_empty"
    "rs_receive_generation ?t = 0" "pa_state (rs_paths ?s ! 0) = Active_path"
    "\<forall>k \<in> set (active_paths ?s). path_ready (rs_paths ?s ! k) (length [1, 2, 3 :: u8] + OVERHEAD)"
    using sample_ready by (simp_all add: sample_active) (simp_all add: sample_new_def sample_path_def)
  obtain outs s' lh' where o: "RedundantSession_outbound sample_crypto ?s sample_leases [1, 2, 3]
      = (Inr (Enqueued 1 outs), s', lh')"
    using outbound_enqueues [OF sample_aead sample_invs(1) f(2) _ _ f(6), of sample_leases] f(1)
    by (auto simp: sample_active)
  obtain out where out: "path_sent sample_crypto ?s s' 1 [1, 2, 3] 0 out"
    using outbound_cases [OF sample_aead sample_invs(1) o] by (auto simp: sample_active list_all2_Cons1)
  obtain t1 lh1 where "RedundantSession_inbound sample_crypto ?t sample_leases (of_nat 0) (sample_link_binding 1)
      ((op_packet out)[5 := 60]) 0 = (Inr (Delivered [1, 2, 3]), t1, lh1)"
    using inbound_copy [where t = ?t and lh = sample_leases and now = 0 and hop = 60, OF sample_aead sample_invs(1) f(2) _ f(5) out _ _
        sample_peers(1) sample_receivers(1)] f(3,4) empty_window by auto
  then show ?thesis
    using inbound_steps [of sample_crypto "new_link ?t"] by (fastforce simp: new_link_def)
qed

theorem redundant_delivers_once_witness:
  "\<exists>ln i. (link_step sample_crypto)\<^sup>*\<^sup>* (new_link (sample_new sample_there sample_here 2)) ln
     \<and> ln_delivered ln = [(i, [1, 2, 3])] \<and> distinct (map fst (ln_delivered ln))"
proof -
  obtain ln i where ln: "(link_step sample_crypto)\<^sup>*\<^sup>* (new_link (sample_new sample_there sample_here 2)) ln"
    "ln_delivered ln = [(i, [1, 2, 3])]" using sample_link_run by blast
  with redundant_delivers_once [OF sample_aead sample_end_ok sample_new_created ln(1)] show ?thesis by auto
qed

theorem redundant_bounded_witness:
  "\<exists>ln. (link_step sample_crypto)\<^sup>*\<^sup>* (new_link (sample_new sample_there sample_here 2)) ln
     \<and> ln_delivered ln \<noteq> [] \<and> length (rs_dedup (ln_session ln)) \<le> 4096"
proof -
  obtain ln i where ln: "(link_step sample_crypto)\<^sup>*\<^sup>* (new_link (sample_new sample_there sample_here 2)) ln"
    "ln_delivered ln = [(i, [1, 2, 3])]" using sample_link_run by blast
  with redundant_bounded [OF sample_aead sample_end_ok sample_new_created ln(1)] show ?thesis by auto
qed

definition sample_issued :: redundant_session where
  "sample_issued = (sample_new sample_here sample_there 1)\<lparr>rs_admission_issuer := Some 5\<rparr>"

definition sample_admission :: profile3_admission where
  "sample_admission = \<lparr>ad_owner = \<lparr>ao_scid = 7, ao_policy_id = 1, ao_replay_binding = 1, ao_capability = 5\<rparr>,
     ad_scid = 7, ad_policy_id = 1, ad_binding = sample_link_binding 2, ad_local_loc = sample_here,
     ad_peer_loc = sample_there, ad_epoch = 1\<rparr>"

lemma sample_activates:
  "\<exists>s' n'. RedundantSession_activate sample_crypto {5} sample_leases sample_issued sample_admission 1280 3
     = Some (Inr (), s', n')"
proof -
  have d: "\<exists>send. derive_key_from_prk sample_crypto [] [] 3 1 2 1 = Inr send"
    "\<exists>receive. derive_key_from_prk sample_crypto [] [] 3 2 1 1 = Inr receive"
    by (simp_all add: derive_key_from_prk_def sample_crypto_def)
  then show ?thesis
    by (auto simp: RedundantSession_activate_def sample_binding_validates sample_admission_def sample_issued_def
        RedundantSession_live_def RedundantSession_reap_preview_def sample_new_def OVERHEAD_def checked_add_def
        activate_session_def put_path_def sample_path_def sample_session_def sample_end_def
        Profile3AdmissionIssuer_admits_def Profile3Admission_matches_replay_binding_def profile3_replay_binding_def
        Profile3Bootstrap_take_slot1_after_admission_def DirectionalSession_new_def allocate_session_owner_def
        can_reserve_counter Counters_new_def Let_def)
qed

theorem slot1_needs_admission_witness:
  "\<exists>s' n'. RedundantSession_activate sample_crypto {5} sample_leases sample_issued sample_admission 1280 3
       = Some (Inr (), s', n')
     \<and> pa_state (rs_paths s' ! 1) = Active_path \<and> rs_admission_issuer s' = None"
proof -
  obtain s' n' where a: "RedundantSession_activate sample_crypto {5} sample_leases sample_issued sample_admission 1280 3
       = Some (Inr (), s', n')" using sample_activates by blast
  have "redundant_inv sample_issued" using sample_invs(1) by (simp add: sample_issued_def redundant_inv_def sample_new_def)
  from slot1_needs_admission [OF a this] a show ?thesis by blast
qed

end
