(* ===== verification/Udp_Socket.thy ===== *)
theory Udp_Socket
  imports Linux_Process
begin

text \<open>
  What the executables use of \<open>std::net\<close> and \<open>std::io\<close>: socket addresses and their classes, I/O
  errors with their kinds, and a UDP socket. The kernel's side of a socket is a record of calls
  over a kernel state; reading address texts is a parameter as well.
\<close>

section \<open>Addresses\<close>

text \<open>An address holds its octets, 4 or 16 of them.\<close>

datatype IpAddr = IpV4 (octets: bytes) | IpV6 (octets: bytes)

text \<open>\<open>SocketAddr\<close>; the flow information and the scope id are those of \<open>SocketAddrV6\<close>, zero for IPv4.\<close>

record SocketAddr =
  sa_ip :: IpAddr
  sa_port :: u16
  sa_flowinfo :: u32
  sa_scope_id :: u32

fun wf_ip :: "IpAddr \<Rightarrow> bool" where
  "wf_ip (IpV4 o4) \<longleftrightarrow> length o4 = 4"
| "wf_ip (IpV6 o16) \<longleftrightarrow> length o16 = 16"

fun is_ipv4 :: "IpAddr \<Rightarrow> bool" where
  "is_ipv4 (IpV4 _) = True"
| "is_ipv4 (IpV6 _) = False"

definition is_private :: "bytes \<Rightarrow> bool" where
  "is_private o4 \<longleftrightarrow>
     o4 ! 0 = 10 \<or> o4 ! 0 = 172 \<and> 16 \<le> o4 ! 1 \<and> o4 ! 1 \<le> 31 \<or> o4 ! 0 = 192 \<and> o4 ! 1 = 168"

definition is_link_local :: "bytes \<Rightarrow> bool" where
  "is_link_local o4 \<longleftrightarrow> o4 ! 0 = 169 \<and> o4 ! 1 = 254"

definition is_unique_local :: "bytes \<Rightarrow> bool" where
  "is_unique_local o16 \<longleftrightarrow> u16_from_be_bytes (take 2 o16) AND 0xfe00 = 0xfc00"

definition is_unicast_link_local :: "bytes \<Rightarrow> bool" where
  "is_unicast_link_local o16 \<longleftrightarrow> u16_from_be_bytes (take 2 o16) AND 0xffc0 = 0xfe80"

fun is_loopback :: "IpAddr \<Rightarrow> bool" where
  "is_loopback (IpV4 o4) \<longleftrightarrow> o4 ! 0 = 127"
| "is_loopback (IpV6 o16) \<longleftrightarrow> o16 = replicate 15 0 @ [1]"

text \<open>
  Address texts: \<open>Ipv6Addr::from_str\<close> (its octets) and \<open>SocketAddr::from_str\<close>. The code relies
  on the number of octets only.
\<close>

record addr_text =
  at_ipv6 :: "string \<Rightarrow> bytes option"
  at_socket :: "string \<Rightarrow> SocketAddr option"

definition addr_text_ok :: "addr_text \<Rightarrow> bool" where
  "addr_text_ok T \<longleftrightarrow>
     (\<forall>s l. at_ipv6 T s = Some l \<longrightarrow> length l = 16) \<and>
     (\<forall>s a. at_socket T s = Some a \<longrightarrow> wf_ip (sa_ip a))"

definition parse_loc :: "addr_text \<Rightarrow> string \<Rightarrow> bytes option" where
  "parse_loc T s = at_ipv6 T s"

section \<open>I/O errors\<close>

datatype ErrorKind = WriteZero | InvalidInput | WouldBlock | TimedOut | OtherKind

datatype io_error = Os_error int | Kind_error ErrorKind

definition EAGAIN :: int where "EAGAIN = 11"
definition EMSGSIZE :: int where "EMSGSIZE = 90"
definition ETIMEDOUT :: int where "ETIMEDOUT = 110"

fun raw_os_error :: "io_error \<Rightarrow> int option" where
  "raw_os_error (Os_error n) = Some n"
| "raw_os_error (Kind_error _) = None"

text \<open>The kinds the code asks for; every other \<open>errno\<close> is one it does not.\<close>

fun error_kind :: "io_error \<Rightarrow> ErrorKind" where
  "error_kind (Os_error n) =
     (if n = EAGAIN then WouldBlock else if n = ETIMEDOUT then TimedOut else OtherKind)"
| "error_kind (Kind_error k) = k"

section \<open>Sockets, clock and randomness\<close>

text \<open>
  \<open>uk_setsockopt\<close> returns its result and \<open>errno\<close>. \<open>uk_recv_from\<close> takes the size of the buffer and
  returns the bytes it stored there; \<open>uk_recv_waits\<close> tells whether it would instead wait for ever, as it
  may on a socket without a read timeout. \<open>uk_set_timeout\<close> takes nanoseconds, \<open>uk_now\<close> returns them.
  \<open>uk_getrandom\<close> returns the requested number of bytes or fails. \<open>uk_clock_gettime\<close> returns its
  result, seconds and nanoseconds, \<open>uk_write\<close> the number of bytes written.
\<close>

record 'k udp_kernel =
  uk_bind :: "SocketAddr \<Rightarrow> 'k \<Rightarrow> (io_error + int) \<times> 'k"
  uk_setsockopt :: "int \<Rightarrow> int \<Rightarrow> int \<Rightarrow> int \<Rightarrow> 'k \<Rightarrow> (int \<times> int) \<times> 'k"
  uk_send_to :: "int \<Rightarrow> bytes \<Rightarrow> SocketAddr \<Rightarrow> 'k \<Rightarrow> (io_error + nat) \<times> 'k"
  uk_recv_from :: "int \<Rightarrow> nat \<Rightarrow> 'k \<Rightarrow> (io_error + bytes \<times> SocketAddr) \<times> 'k"
  uk_recv_waits :: "int \<Rightarrow> 'k \<Rightarrow> bool"
  uk_set_timeout :: "int \<Rightarrow> nat \<Rightarrow> 'k \<Rightarrow> (io_error + unit) \<times> 'k"
  uk_resolve :: "string \<Rightarrow> 'k \<Rightarrow> (io_error + SocketAddr list) \<times> 'k"
  uk_now :: "'k \<Rightarrow> nat \<times> 'k"
  uk_getrandom :: "nat \<Rightarrow> 'k \<Rightarrow> bytes option \<times> 'k"
  uk_clock_gettime :: "'k \<Rightarrow> (int \<times> int \<times> int) \<times> 'k"
  uk_write :: "int \<Rightarrow> bytes \<Rightarrow> 'k \<Rightarrow> int \<times> 'k"

text \<open>\<open>UdpSocket::set_read_timeout(Some(duration))\<close>: a zero duration is an error.\<close>

definition set_read_timeout :: "'k udp_kernel \<Rightarrow> int \<Rightarrow> nat \<Rightarrow> 'k \<Rightarrow> (io_error + unit) \<times> 'k" where
  "set_read_timeout K fd duration =
     (if duration = 0 then io_ret (Inl (Kind_error InvalidInput)) else uk_set_timeout K fd duration)"

text \<open>
  Time, as the kernel keeps it. \<open>Instant\<close> never runs back, and while it stands still only finitely many
  datagrams are received (\<open>queued\<close>). A socket whose read timeout is set (\<open>tmo\<close>, \<open>SO_RCVTIMEO\<close>) does not
  wait longer than that; any call may be late by up to \<open>slack\<close> nanoseconds.
\<close>

definition udp_clock ::
    "'k udp_kernel \<Rightarrow> ('k \<Rightarrow> nat) \<Rightarrow> ('k \<Rightarrow> nat) \<Rightarrow> ('k \<Rightarrow> int \<Rightarrow> nat option) \<Rightarrow> nat \<Rightarrow> bool" where
  "udp_clock K time queued tmo slack \<longleftrightarrow>
     (\<forall>k t k'. uk_now K k = (t, k') \<longrightarrow>
        t = time k' \<and> moves_on time queued k k' \<and> time k' \<le> time k + slack) \<and>
     (\<forall>fd n k r k'. uk_set_timeout K fd n k = (r, k') \<longrightarrow>
        moves_on time queued k k' \<and> time k' \<le> time k + slack \<and> (r = Inr () \<longrightarrow> tmo k' fd = Some n)) \<and>
     (\<forall>fd d a k r k'. uk_send_to K fd d a k = (r, k') \<longrightarrow> time k' \<le> time k + slack) \<and>
     (\<forall>fd k n. tmo k fd = Some n \<longrightarrow> \<not> uk_recv_waits K fd k) \<and>
     (\<forall>fd k n room r k'. tmo k fd = Some n \<longrightarrow> uk_recv_from K fd room k = (r, k') \<longrightarrow>
        time k' \<le> time k + n + slack \<and> (\<forall>x. r = Inr x \<longrightarrow> uses_up time queued k k'))"

lemma udp_clockD:
  assumes "udp_clock K time queued tmo slack"
  shows "uk_now K k = (t, k') \<Longrightarrow> t = time k' \<and> moves_on time queued k k' \<and> time k' \<le> time k + slack"
    "uk_set_timeout K fd n k = (u, k') \<Longrightarrow>
      moves_on time queued k k' \<and> time k' \<le> time k + slack \<and> (u = Inr () \<longrightarrow> tmo k' fd = Some n)"
    "uk_send_to K fd d a k = (s, k') \<Longrightarrow> time k' \<le> time k + slack"
    "tmo k fd = Some n \<Longrightarrow> \<not> uk_recv_waits K fd k"
    "tmo k fd = Some n \<Longrightarrow> uk_recv_from K fd room k = (r, k') \<Longrightarrow>
      time k' \<le> time k + n + slack \<and> (\<forall>x. r = Inr x \<longrightarrow> uses_up time queued k k')"
  using assms unfolding udp_clock_def by metis+

text \<open>A received datagram is cut to the buffer.\<close>

definition recv_fits :: "'k udp_kernel \<Rightarrow> bool" where
  "recv_fits K \<longleftrightarrow>
     (\<forall>fd n k d a k'. uk_recv_from K fd n k = (Inr (d, a), k') \<longrightarrow> length d \<le> n)"

end
