(* ===== verification/Echo.thy ===== *)
theory Echo
  imports Udp_Socket Wire
begin

text \<open>
  The echo service over UDP: the responder (\<open>src/rust/crates/r8d/src/main.rs\<close>) and the client
  (\<open>src/rust/crates/r8ping/src/main.rs\<close>), which share their underlay check and send helpers
  word for word. The printed lines are values. Only authentic requests are answered, with a
  packet of the same size that no responder answers again; the client succeeds only on its own
  answers, ends in bounded time on any network, and does succeed over one that answers.
\<close>

section \<open>Errors and the underlay\<close>

text \<open>What \<open>Box<dyn Error>\<close> holds.\<close>

datatype run_error =
    Message string | Wire_failed WireError | Io_failed io_error | Number_failed | Address_failed

definition DEFAULT_BUDGET :: nat where "DEFAULT_BUDGET = 1252"

fun isolated_ip :: "IpAddr \<Rightarrow> bool" where
  "isolated_ip (IpV4 ip) \<longleftrightarrow> is_private ip \<or> is_link_local ip"
| "isolated_ip (IpV6 ip) \<longleftrightarrow> is_unique_local ip \<or> is_unicast_link_local ip"

definition validate_underlay :: "SocketAddr \<Rightarrow> bool \<Rightarrow> run_error + unit" where
  "validate_underlay addr allow_isolated =
     (if \<not> is_ipv4 (sa_ip addr) then Inl (Message ''only IPv4 UDP underlay is supported'')
      else if is_loopback (sa_ip addr) \<or> allow_isolated \<and> isolated_ip (sa_ip addr) then Inr ()
      else if isolated_ip (sa_ip addr)
      then Inl (Message ''isolated underlay requires --allow-isolated-underlay'')
      else Inl (Message ''public underlay is rejected''))"

definition IPPROTO_IP :: int where "IPPROTO_IP = 0"
definition IP_MTU_DISCOVER :: int where "IP_MTU_DISCOVER = 10"
definition IP_PMTUDISC_DO :: int where "IP_PMTUDISC_DO = 2"

definition set_df :: "'k udp_kernel \<Rightarrow> int \<Rightarrow> 'k \<Rightarrow> (io_error + unit) \<times> 'k" where
  "set_df K fd =
     io_call (uk_setsockopt K fd IPPROTO_IP IP_MTU_DISCOVER IP_PMTUDISC_DO) (\<lambda>(result, errno).
       io_ret (if result \<noteq> 0 then Inl (Os_error errno) else Inr ()))"

section \<open>Sending\<close>

definition is_budget_send_error :: "io_error \<Rightarrow> bool" where
  "is_budget_send_error error \<longleftrightarrow> raw_os_error error = Some EMSGSIZE"

definition validate_send_count :: "nat \<Rightarrow> nat \<Rightarrow> io_error + unit" where
  "validate_send_count sent expected =
     (if sent = expected then Inr () else Inl (Kind_error WriteZero))"

definition send_packet_with ::
    "bytes \<Rightarrow> SocketAddr \<Rightarrow> (bytes \<Rightarrow> SocketAddr \<Rightarrow> 'k \<Rightarrow> (io_error + nat) \<times> 'k) \<Rightarrow> 'k \<Rightarrow>
      (run_error + nat) \<times> 'k" where
  "send_packet_with packet peer send =
     io_call (send packet peer) (\<lambda>r. io_ret
       (case r of
          Inr sent \<Rightarrow>
            and_then (map_err Io_failed (validate_send_count sent (length packet))) (\<lambda>_. Inr sent)
        | Inl error \<Rightarrow>
            if is_budget_send_error error then Inl (Wire_failed BindingBudget)
            else Inl (Io_failed error)))"

definition send_packet ::
    "'k udp_kernel \<Rightarrow> int \<Rightarrow> bytes \<Rightarrow> SocketAddr \<Rightarrow> 'k \<Rightarrow> (run_error + nat) \<times> 'k" where
  "send_packet K fd packet peer = send_packet_with packet peer (uk_send_to K fd)"

section \<open>The responder\<close>

record r8d_args =
  ra_address :: "string option"
  ra_bind :: string
  ra_budget :: nat
  ra_allow_isolated :: bool

definition r8d_defaults :: r8d_args where
  "r8d_defaults = \<lparr>ra_address = None, ra_bind = ''127.0.0.1:52808'', ra_budget = DEFAULT_BUDGET,
     ra_allow_isolated = False\<rparr>"

fun r8d_arguments :: "r8d_args \<Rightarrow> string list \<Rightarrow> run_error + r8d_args" where
  "r8d_arguments a [] = Inr a"
| "r8d_arguments a (arg # rest) =
     (if arg = ''--address'' then
        (case rest of [] \<Rightarrow> Inl (Message ''--address needs a value'')
         | value # rest \<Rightarrow> r8d_arguments (a\<lparr>ra_address := Some value\<rparr>) rest)
      else if arg = ''--bind'' then
        (case rest of [] \<Rightarrow> Inl (Message ''--bind needs a value'')
         | value # rest \<Rightarrow> r8d_arguments (a\<lparr>ra_bind := value\<rparr>) rest)
      else if arg = ''--binding-budget'' then
        (case rest of [] \<Rightarrow> Inl (Message ''--binding-budget needs a value'')
         | value # rest \<Rightarrow>
           (case from_str_radix 64 10 value of
              None \<Rightarrow> Inl Number_failed
            | Some n \<Rightarrow> r8d_arguments (a\<lparr>ra_budget := n\<rparr>) rest))
      else if arg = ''--allow-isolated-underlay'' then
        r8d_arguments (a\<lparr>ra_allow_isolated := True\<rparr>) rest
      else Inl (Message ''invalid argument''))"

text \<open>What the loop does with a datagram, up to the reply it wants to send.\<close>

datatype verdict =
    Drop_length nat | Drop_error WireError | Drop_dst | Drop_ctl | Drop_next_header
  | Dgram_received nat | Reply bytes

definition respond :: "Loc \<Rightarrow> nat \<Rightarrow> bytes \<Rightarrow> verdict" where
  "respond me budget data =
     (if length data > budget then Drop_length (length data)
      else case unpack_with_budget data budget of
        Inl error \<Rightarrow> Drop_error error
      | Inr (h, payload) \<Rightarrow>
        if h_dst h \<noteq> me then Drop_dst
        else if h_next_header h = NH_CTL then
          (case parse_ctl h payload of
             Inl error \<Rightarrow> Drop_error error
           | Inr (typ, code, body) \<Rightarrow>
             if typ = CTL_ECHO_REQUEST \<and> code = 0 then
               (case build_ctl_with_budget (Header_new NH_CTL me (h_src h)) CTL_ECHO_REPLY 0 body budget of
                  Inr packet \<Rightarrow> Reply packet
                | Inl error \<Rightarrow> Drop_error error)
             else Drop_ctl)
        else if h_next_header h = NH_DGRAM then
          (case parse_dgram h payload of
             Inr (_, _, content) \<Rightarrow> Dgram_received (length content)
           | Inl error \<Rightarrow> Drop_error error)
        else Drop_next_header)"

datatype line = Line_verdict verdict | Line_echo nat | Line_budget

definition respond_once :: "'k udp_kernel \<Rightarrow> int \<Rightarrow> Loc \<Rightarrow> nat \<Rightarrow> 'k \<Rightarrow> (run_error + line) \<times> 'k" where
  "respond_once K fd me budget =
     io_then (lift_err Io_failed (uk_recv_from K fd (budget + 1))) (\<lambda>(data, peer).
       case respond me budget data of
         Reply packet \<Rightarrow>
           io_call (send_packet K fd packet peer) (\<lambda>r. io_ret
             (case r of
                Inr _ \<Rightarrow> Inr (Line_echo (length packet))
              | Inl error \<Rightarrow> if error = Wire_failed BindingBudget then Inr Line_budget else Inl error))
       | v \<Rightarrow> io_ret (Inr (Line_verdict v)))"

text \<open>\<open>n\<close> passes of the endless loop, and the lines they print.\<close>

fun respond_loop :: "'k udp_kernel \<Rightarrow> int \<Rightarrow> Loc \<Rightarrow> nat \<Rightarrow> nat \<Rightarrow> 'k \<Rightarrow> (run_error + line list) \<times> 'k" where
  "respond_loop K fd me budget 0 = io_ret (Inr [])"
| "respond_loop K fd me budget (Suc n) =
     io_then (respond_once K fd me budget) (\<lambda>l.
     io_then (respond_loop K fd me budget n) (\<lambda>ls. io_ret (Inr (l # ls))))"

definition r8d_start ::
    "'k udp_kernel \<Rightarrow> addr_text \<Rightarrow> string list \<Rightarrow> 'k \<Rightarrow> (run_error + int \<times> Loc \<times> nat) \<times> 'k" where
  "r8d_start K T argv =
     io_then (io_ret (r8d_arguments r8d_defaults argv)) (\<lambda>a.
     if \<not> (HEADER_LEN \<le> ra_budget a \<and> ra_budget a \<le> SERIALIZED_R8_MAX)
     then io_ret (Inl (Message ''--binding-budget must be 48..1280''))
     else
       io_then (io_ret (ok_or Address_failed (at_socket T (ra_bind a)))) (\<lambda>bind.
       io_then (io_ret (validate_underlay bind (ra_allow_isolated a))) (\<lambda>_.
       io_then (io_ret (ok_or (Message ''--address is required'') (ra_address a))) (\<lambda>address.
       io_then (io_ret (ok_or Address_failed (parse_loc T address))) (\<lambda>me.
       io_then (lift_err Io_failed (uk_bind K bind)) (\<lambda>fd.
       io_then (lift_err Io_failed (set_df K fd)) (\<lambda>_.
       io_ret (Inr (fd, me, ra_budget a)))))))))"

section \<open>The client\<close>

record ping_args =
  pa_address :: "string option"
  pa_peer :: "string option"
  pa_bind :: string
  pa_count :: u16
  pa_timeout_ms :: u64
  pa_dgram :: "string option"
  pa_sport :: u16
  pa_dport :: u16
  pa_budget :: nat
  pa_allow_isolated :: bool
  pa_target :: "string option"

definition ping_defaults :: ping_args where
  "ping_defaults =
     \<lparr>pa_address = None, pa_peer = None, pa_bind = ''127.0.0.1:0'', pa_count = 4, pa_timeout_ms = 1000,
      pa_dgram = None, pa_sport = 1000, pa_dport = 9000, pa_budget = DEFAULT_BUDGET,
      pa_allow_isolated = False, pa_target = None\<rparr>"

text \<open>\<open>args.next().ok_or(message)?\<close> and its \<open>parse\<close>, with the continuation on the rest.\<close>

definition next_value :: "string \<Rightarrow> string list \<Rightarrow> run_error + string \<times> string list" where
  "next_value flag rest =
     (case rest of [] \<Rightarrow> Inl (Message (flag @ '' needs a value'')) | value # rest \<Rightarrow> Inr (value, rest))"

definition next_number :: "nat \<Rightarrow> string \<Rightarrow> string list \<Rightarrow> run_error + nat \<times> string list" where
  "next_number bits flag rest =
     and_then (next_value flag rest) (\<lambda>(value, rest).
       case from_str_radix bits 10 value of None \<Rightarrow> Inl Number_failed | Some n \<Rightarrow> Inr (n, rest))"

lemma next_value_shorter: "next_value flag rest = Inr (v, rest') \<Longrightarrow> length rest' < Suc (length rest)"
  by (auto simp: next_value_def split: list.splits)

lemma next_number_shorter: "next_number bits flag rest = Inr (n, rest') \<Longrightarrow> length rest' < Suc (length rest)"
  by (auto simp: next_number_def and_then_Inr dest: next_value_shorter split: option.splits)

function (sequential) ping_arguments :: "ping_args \<Rightarrow> string list \<Rightarrow> run_error + ping_args" where
  "ping_arguments a [] = Inr a"
| "ping_arguments a (arg # rest) =
     (if arg = ''--address'' then
        (case next_value arg rest of Inl e \<Rightarrow> Inl e
         | Inr (v, rest) \<Rightarrow> ping_arguments (a\<lparr>pa_address := Some v\<rparr>) rest)
      else if arg = ''--peer'' then
        (case next_value arg rest of Inl e \<Rightarrow> Inl e
         | Inr (v, rest) \<Rightarrow> ping_arguments (a\<lparr>pa_peer := Some v\<rparr>) rest)
      else if arg = ''--bind'' then
        (case next_value arg rest of Inl e \<Rightarrow> Inl e
         | Inr (v, rest) \<Rightarrow> ping_arguments (a\<lparr>pa_bind := v\<rparr>) rest)
      else if arg = ''--count'' then
        (case next_number 16 arg rest of Inl e \<Rightarrow> Inl e
         | Inr (n, rest) \<Rightarrow> ping_arguments (a\<lparr>pa_count := of_nat n\<rparr>) rest)
      else if arg = ''--timeout-ms'' then
        (case next_number 64 arg rest of Inl e \<Rightarrow> Inl e
         | Inr (n, rest) \<Rightarrow> ping_arguments (a\<lparr>pa_timeout_ms := of_nat n\<rparr>) rest)
      else if arg = ''--dgram'' then
        (case next_value arg rest of Inl e \<Rightarrow> Inl e
         | Inr (v, rest) \<Rightarrow> ping_arguments (a\<lparr>pa_dgram := Some v\<rparr>) rest)
      else if arg = ''--sport'' then
        (case next_number 16 arg rest of Inl e \<Rightarrow> Inl e
         | Inr (n, rest) \<Rightarrow> ping_arguments (a\<lparr>pa_sport := of_nat n\<rparr>) rest)
      else if arg = ''--dport'' then
        (case next_number 16 arg rest of Inl e \<Rightarrow> Inl e
         | Inr (n, rest) \<Rightarrow> ping_arguments (a\<lparr>pa_dport := of_nat n\<rparr>) rest)
      else if arg = ''--binding-budget'' then
        (case next_number 64 arg rest of Inl e \<Rightarrow> Inl e
         | Inr (n, rest) \<Rightarrow> ping_arguments (a\<lparr>pa_budget := n\<rparr>) rest)
      else if arg = ''--allow-isolated-underlay'' then
        ping_arguments (a\<lparr>pa_allow_isolated := True\<rparr>) rest
      else if \<not> prefix ''-'' arg \<and> pa_target a = None then
        ping_arguments (a\<lparr>pa_target := Some arg\<rparr>) rest
      else Inl (Message ''invalid argument''))"
  by pat_completeness auto
termination
  by (relation "measure (\<lambda>(a, argv). length argv)") (auto dest: next_value_shorter next_number_shorter)

text \<open>\<open>split_once('=')\<close>.\<close>

fun split_once :: "char \<Rightarrow> string \<Rightarrow> (string \<times> string) option" where
  "split_once c [] = None"
| "split_once c (x # xs) =
     (if x = c then Some ([], xs) else map_option (\<lambda>(a, b). (x # a, b)) (split_once c xs))"

definition endpoint :: "'k udp_kernel \<Rightarrow> string \<Rightarrow> 'k \<Rightarrow> (run_error + SocketAddr) \<times> 'k" where
  "endpoint K text =
     io_then (lift_err Io_failed (uk_resolve K text)) (\<lambda>addresses. io_ret
       (case addresses of
          [] \<Rightarrow> Inl (Message ''peer endpoint is unresolved'')
        | a # _ \<Rightarrow> Inr a))"

definition ping_body :: "u16 \<Rightarrow> u16 \<Rightarrow> bytes" where
  "ping_body ident sequence =
     [ucast (drop_bit 8 ident), ucast ident, ucast (drop_bit 8 sequence), ucast sequence]"

text \<open>The tests a received datagram passes to count as the reply; otherwise it is invalid.\<close>

definition is_reply :: "Loc \<Rightarrow> Loc \<Rightarrow> SocketAddr \<Rightarrow> nat \<Rightarrow> bytes \<Rightarrow> bytes \<Rightarrow> SocketAddr \<Rightarrow> bool" where
  "is_reply me target peer budget body data source \<longleftrightarrow>
     \<not> (length data > budget \<or> source \<noteq> peer) \<and>
     (case unpack_with_budget data budget of
        Inl _ \<Rightarrow> False
      | Inr (h, payload) \<Rightarrow>
        (case parse_ctl h payload of
           Inl _ \<Rightarrow> False
         | Inr (typ, code, reply) \<Rightarrow>
             typ = CTL_ECHO_REPLY \<and> code = 0 \<and> h_next_header h = NH_CTL \<and> h_src h = target
             \<and> h_dst h = me \<and> reply = body))"

text \<open>
  The loop that waits for the reply to one request: whether it came, and the number of invalid
  datagrams. The clock is read twice in each pass. \<open>None\<close> is a loop that does not end or a call that
  does not return.
\<close>

partial_function (option) wait_reply ::
    "'k udp_kernel \<Rightarrow> int \<Rightarrow> Loc \<Rightarrow> Loc \<Rightarrow> SocketAddr \<Rightarrow> nat \<Rightarrow> bytes \<Rightarrow> nat \<Rightarrow> u32 \<Rightarrow> 'k \<Rightarrow>
      ((run_error + bool \<times> u32) \<times> 'k) option" where
  "wait_reply K fd me target peer budget body deadline invalid k =
     (case uk_now K k of (now, k) \<Rightarrow>
       if \<not> now < deadline then Some (Inr (False, invalid), k)
       else case uk_now K k of (now, k) \<Rightarrow>
         (case set_read_timeout K fd (deadline - now) k of (r, k) \<Rightarrow>
           (case r of
              Inl e \<Rightarrow> Some (Inl (Io_failed e), k)
            | Inr _ \<Rightarrow>
              if uk_recv_waits K fd k then None
              else (case uk_recv_from K fd (budget + 1) k of (r, k) \<Rightarrow>
                (case r of
                   Inl e \<Rightarrow>
                     if error_kind e = TimedOut \<or> error_kind e = WouldBlock
                     then Some (Inr (False, invalid), k) else Some (Inl (Io_failed e), k)
                 | Inr (data, source) \<Rightarrow>
                     if is_reply me target peer budget body data source
                     then case uk_now K k of (_, k) \<Rightarrow> Some (Inr (True, invalid), k)
                     else wait_reply K fd me target peer budget body deadline (invalid + 1) k)))))"

fun ping_loop ::
    "'k udp_kernel \<Rightarrow> int \<Rightarrow> Loc \<Rightarrow> Loc \<Rightarrow> SocketAddr \<Rightarrow> nat \<Rightarrow> u64 \<Rightarrow> u16 \<Rightarrow> u16 list \<Rightarrow> u32 \<Rightarrow> u32 \<Rightarrow> 'k \<Rightarrow>
      ((run_error + u32 \<times> u32) \<times> 'k) option" where
  "ping_loop K fd me target peer budget timeout_ms ident [] received invalid k =
     Some (Inr (received, invalid), k)"
| "ping_loop K fd me target peer budget timeout_ms ident (sequence # rest) received invalid k =
     (let body = ping_body ident sequence in
      case build_ctl_with_budget (Header_new NH_CTL me target) CTL_ECHO_REQUEST 0 body budget of
        Inl _ \<Rightarrow> Some (Inl (Message ''E-BUDGET''), k)
      | Inr packet \<Rightarrow>
        (case uk_now K k of (started, k) \<Rightarrow>
         (case send_packet K fd packet peer k of
            (Inl e, k) \<Rightarrow> Some (Inl e, k)
          | (Inr _, k) \<Rightarrow>
            (case wait_reply K fd me target peer budget body (started + unat timeout_ms * 1000000) invalid k of
               None \<Rightarrow> None
             | Some (Inl e, k) \<Rightarrow> Some (Inl e, k)
             | Some (Inr (matched, invalid), k) \<Rightarrow>
               ping_loop K fd me target peer budget timeout_ms ident rest
                 (if matched then received + 1 else received) invalid k))))"

text \<open>\<open>1..=count\<close>.\<close>

definition ping_sequences :: "u16 \<Rightarrow> u16 list" where
  "ping_sequences count = map of_nat [1..<Suc (unat count)]"

definition ping_echo ::
    "'k udp_kernel \<Rightarrow> u32 \<Rightarrow> int \<Rightarrow> Loc \<Rightarrow> Loc \<Rightarrow> SocketAddr \<Rightarrow> nat \<Rightarrow> u64 \<Rightarrow> u16 \<Rightarrow> 'k \<Rightarrow>
      ((run_error + unit) \<times> 'k) option" where
  "ping_echo K pid fd me target peer budget timeout_ms count k =
     (let ident = ucast (pid AND 0xffff) in
      case ping_loop K fd me target peer budget timeout_ms ident (ping_sequences count) 0 0 k of
        None \<Rightarrow> None
      | Some (Inl e, k) \<Rightarrow> Some (Inl e, k)
      | Some (Inr (received, invalid), k) \<Rightarrow>
          Some (if ucast count \<noteq> received \<or> invalid \<noteq> 0
                then Inl (Message ''echo loss or invalid reply'') else Inr (), k))"

text \<open>From the command line to the socket.\<close>

definition ping_start ::
    "'k udp_kernel \<Rightarrow> addr_text \<Rightarrow> string list \<Rightarrow> 'k \<Rightarrow>
      (run_error + ping_args \<times> int \<times> Loc \<times> Loc \<times> SocketAddr) \<times> 'k" where
  "ping_start K T argv =
     io_then (io_ret (ping_arguments ping_defaults argv)) (\<lambda>a.
     if pa_count a = 0 then io_ret (Inl (Message ''--count must be greater than zero''))
     else if \<not> (HEADER_LEN \<le> pa_budget a \<and> pa_budget a \<le> SERIALIZED_R8_MAX)
     then io_ret (Inl (Message ''--binding-budget must be 48..1280''))
     else
       io_then (io_ret (ok_or (Message ''--address is required'') (pa_address a))) (\<lambda>address.
       io_then (io_ret (ok_or Address_failed (parse_loc T address))) (\<lambda>me.
       io_then (io_ret (ok_or (Message ''target locator is required'') (pa_target a))) (\<lambda>target.
       io_then (io_ret (ok_or Address_failed (parse_loc T target))) (\<lambda>target.
       io_then (io_ret (ok_or (Message ''--peer is required'') (pa_peer a))) (\<lambda>peer_argument.
       io_then (io_ret (ok_or (Message ''--peer must be loc=host:port'')
         (split_once CHR ''='' peer_argument))) (\<lambda>(peer_loc, peer_text).
       io_then (io_ret (ok_or Address_failed (parse_loc T peer_loc))) (\<lambda>peer_loc.
       if peer_loc \<noteq> target then io_ret (Inl (Message ''peer locator does not match target''))
       else
         io_then (endpoint K peer_text) (\<lambda>peer.
         io_then (io_ret (ok_or Address_failed (at_socket T (pa_bind a)))) (\<lambda>bind.
         io_then (io_ret (validate_underlay bind (pa_allow_isolated a))) (\<lambda>_.
         io_then (io_ret (validate_underlay peer (pa_allow_isolated a))) (\<lambda>_.
         io_then (lift_err Io_failed (uk_bind K bind)) (\<lambda>fd.
         io_then (lift_err Io_failed (set_df K fd)) (\<lambda>_.
         io_ret (Inr (a, fd, me, target, peer))))))))))))))))"

definition ping_dgram ::
    "'k udp_kernel \<Rightarrow> ping_args \<Rightarrow> int \<Rightarrow> Loc \<Rightarrow> Loc \<Rightarrow> SocketAddr \<Rightarrow> string \<Rightarrow> 'k \<Rightarrow> (run_error + unit) \<times> 'k" where
  "ping_dgram K a fd me target peer message =
     io_then (io_ret (map_err (\<lambda>_. Message ''E-BUDGET'')
       (build_dgram_with_budget (Header_new NH_DGRAM me target) (pa_sport a) (pa_dport a)
          (map of_char message) (pa_budget a)))) (\<lambda>packet.
     io_then (send_packet K fd packet peer) (\<lambda>_. io_ret (Inr ())))"

definition r8ping ::
    "'k udp_kernel \<Rightarrow> addr_text \<Rightarrow> u32 \<Rightarrow> string list \<Rightarrow> 'k \<Rightarrow> ((run_error + unit) \<times> 'k) option" where
  "r8ping K T pid argv k =
     (case ping_start K T argv k of
        (Inl e, k) \<Rightarrow> Some (Inl e, k)
      | (Inr (a, fd, me, target, peer), k) \<Rightarrow>
        (case pa_dgram a of
           Some message \<Rightarrow> Some (ping_dgram K a fd me target peer message k)
         | None \<Rightarrow> ping_echo K pid fd me target peer (pa_budget a) (pa_timeout_ms a) (pa_count a) k))"

section \<open>The responder answers authentic requests, once and in kind\<close>

text \<open>A datagram that is an echo request for \<open>me\<close> within the budget.\<close>

definition echo_request :: "Loc \<Rightarrow> nat \<Rightarrow> bytes \<Rightarrow> Loc \<Rightarrow> bytes \<Rightarrow> bool" where
  "echo_request me budget d src body \<longleftrightarrow>
     (\<exists>h p. unpack_with_budget d budget = Inr (h, p) \<and> h_next_header h = NH_CTL \<and> h_src h = src
        \<and> h_dst h = me \<and> parse_ctl h p = Inr (CTL_ECHO_REQUEST, 0, body))"

text \<open>A datagram that is the echo reply of \<open>src\<close> to \<open>dst\<close>.\<close>

definition echo_reply :: "Loc \<Rightarrow> Loc \<Rightarrow> nat \<Rightarrow> bytes \<Rightarrow> bytes \<Rightarrow> bool" where
  "echo_reply src dst budget d body \<longleftrightarrow>
     (\<exists>p. unpack_with_budget d budget = Inr (Header_new NH_CTL src dst, p)
        \<and> parse_ctl (Header_new NH_CTL src dst) p = Inr (CTL_ECHO_REPLY, 0, body))"

lemma parse_ctl_body: "parse_ctl h p = Inr (t, c, body) \<Longrightarrow> validate_ctl t c body = Inr () \<and> length p = 4 + length body"
  by (auto simp: parse_ctl_def validate_ctl_shape_def result_simps split: if_splits)

lemma echo_built:
  assumes "length src = 16" "length dst = 16" "t = CTL_ECHO_REQUEST \<or> t = CTL_ECHO_REPLY"
    and "4 \<le> length body" "52 + length body \<le> 1280" "52 + length body \<le> b"
  shows "\<exists>d p. build_ctl_with_budget (Header_new NH_CTL src dst) t 0 body b = Inr d
    \<and> unpack_with_budget d b = Inr (Header_new NH_CTL src dst, p)
    \<and> parse_ctl (Header_new NH_CTL src dst) p = Inr (t, 0, body) \<and> length d = 52 + length body"
proof -
  have "\<exists>d p. build_ctl_with_budget (Header_new NH_CTL src dst) t 0 body b = Inr d
      \<and> unpack_with_budget d b = Inr (Header_new NH_CTL src dst, p)
      \<and> parse_ctl (Header_new NH_CTL src dst) p = Inr (t, 0, body)"
    by (rule build_ctl_roundtrip)
      (use assms in \<open>auto simp: wf_header_def plain_header_def Header_new_def validate_ctl_def wire_consts\<close>)
  then show ?thesis by (force dest: unpack_length parse_ctl_body)
qed

lemma respond_request:
  assumes "length me = 16" "echo_request me b d src body"
  shows "\<exists>r. respond me b d = Reply r \<and> length r = length d \<and> echo_reply me src b r body"
proof -
  from assms(2) obtain h p where u: "unpack_with_budget d b = Inr (h, p)" "h_next_header h = NH_CTL"
    "h_src h = src" "h_dst h = me" and c: "parse_ctl h p = Inr (CTL_ECHO_REQUEST, 0, body)"
    by (auto simp: echo_request_def)
  from parse_ctl_body [OF c] have body: "4 \<le> length body" "length p = 4 + length body"
    by (auto simp: validate_ctl_def split: if_splits)
  from unpack_length [OF u(1)] unpack_invert(1-3) [OF u(1)] body u(3) have
    len: "length d = 52 + length body" "52 + length body \<le> 1280" "52 + length body \<le> b" "length src = 16"
    by (auto simp: wf_header_def)
  from echo_built [OF assms(1) len(4) _ body(1) len(2,3), of CTL_ECHO_REPLY] obtain r q where
    "build_ctl_with_budget (Header_new NH_CTL me src) CTL_ECHO_REPLY 0 body b = Inr r"
    "unpack_with_budget r b = Inr (Header_new NH_CTL me src, q)"
    "parse_ctl (Header_new NH_CTL me src) q = Inr (CTL_ECHO_REPLY, 0, body)" "length r = 52 + length body"
    by auto
  with u c len show ?thesis by (auto simp: respond_def echo_reply_def)
qed

lemma respond_Reply:
  "respond me b d = Reply r \<Longrightarrow> \<exists>src body. echo_request me b d src body"
  by (auto simp: respond_def echo_request_def split: if_splits sum.splits)

text \<open>
  C29: The responder answers exactly the echo requests for its own locator that are valid within
  its budget. The answer has the size of the request, so a forged source gains no amplification;
  it is a valid echo reply from the responder to the requester and carries the request's body.
\<close>

theorem responder_exact:
  assumes "length me = 16"
  shows "((\<exists>r. respond me b d = Reply r) \<longleftrightarrow> (\<exists>src body. echo_request me b d src body))
    \<and> (\<forall>r src body. respond me b d = Reply r \<and> echo_request me b d src body \<longrightarrow>
           length r = length d \<and> echo_reply me src b r body)"
  using respond_request [OF assms] respond_Reply by fastforce

theorem responder_exact_witness:
  "\<exists>d r. echo_request (replicate 16 2) 100 d (replicate 16 1) [0, 1, 0, 2]
     \<and> respond (replicate 16 2) 100 d = Reply r \<and> length r = length d"
proof -
  from echo_built [of "replicate 16 1" "replicate 16 2" CTL_ECHO_REQUEST "[0, 1, 0, 2]" 100]
  obtain d where "echo_request (replicate 16 2) 100 d (replicate 16 1) [0, 1, 0, 2]"
    by (fastforce simp: echo_request_def Header_new_def)
  with responder_exact [of "replicate 16 2" 100 d] show ?thesis by fastforce
qed

text \<open>
  No echo storm. What a responder sends is never answered by any responder, whatever its
  locator and budget: not even one that a forged source made the destination of the reply.
\<close>

theorem replies_never_answered:
  assumes "length me = 16" "respond me b d = Reply r"
  shows "respond me' b' r \<noteq> Reply r'"
proof
  assume "respond me' b' r = Reply r'"
  with respond_Reply obtain s m where "echo_request me' b' r s m" by blast
  then obtain h p where u: "unpack_with_budget r b' = Inr (h, p)" "parse_ctl h p = Inr (CTL_ECHO_REQUEST, 0, m)"
    by (auto simp: echo_request_def)
  from respond_Reply [OF assms(2)] obtain src body where "echo_request me b d src body" by blast
  from respond_request [OF assms(1) this] assms(2) obtain q where
    "unpack_with_budget r b = Inr (Header_new NH_CTL me src, q)"
    "parse_ctl (Header_new NH_CTL me src) q = Inr (CTL_ECHO_REPLY, 0, body)"
    by (auto simp: echo_reply_def)
  moreover from u(1) have "length r \<le> b'" by (auto simp: unpack_iff length_header_image)
  ultimately show False using u unpack_budget_mono [of r b _ b'] by (auto simp: wire_consts)
qed

theorem replies_never_answered_witness:
  "\<exists>d r. respond (replicate 16 2) 100 d = Reply r \<and> (\<forall>r'. respond (replicate 16 1) 100 r \<noteq> Reply r')"
proof -
  from echo_built [of "replicate 16 1" "replicate 16 2" CTL_ECHO_REQUEST "[0, 1, 0, 2]" 100]
  obtain d where "echo_request (replicate 16 2) 100 d (replicate 16 1) [0, 1, 0, 2]"
    by (fastforce simp: echo_request_def Header_new_def)
  from respond_request [OF _ this] obtain r where r: "respond (replicate 16 2) 100 d = Reply r" by auto
  from replies_never_answered [OF _ r] have "\<forall>r'. respond (replicate 16 1) 100 r \<noteq> Reply r'" by simp
  with r show ?thesis by blast
qed

section \<open>The client ends\<close>

lemma length_ping_sequences [simp]: "length (ping_sequences count) = unat count"
  by (simp add: ping_sequences_def)

lemma set_read_timeout_clock:
  assumes "udp_clock K time queued tmo slack" "set_read_timeout K fd n k = (r, k')"
  shows "moves_on time queued k k' \<and> time k' \<le> time k + slack \<and> (r = Inr () \<longrightarrow> tmo k' fd = Some n)"
  using assms(2) udp_clockD(2) [OF assms(1)] by (auto simp: set_read_timeout_def moves_on_def split: if_splits)

lemma wait_reply_returns:
  assumes clk: "udp_clock K time queued tmo slack" and "deadline \<le> b" "time k \<le> b + 2 * slack"
  shows "\<exists>r k'. wait_reply K fd me target peer budget body deadline invalid k = Some (r, k')
    \<and> time k' \<le> b + 3 * slack"
  using assms(3)
proof (induction k arbitrary: invalid rule: deadline_induct [where time = time and deadline = deadline and queued = queued])
  case (pass k)
  obtain t1 k1 t2 k2 r3 k3 r4 k4 t5 k5 where c: "uk_now K k = (t1, k1)" "uk_now K k1 = (t2, k2)"
    "set_read_timeout K fd (deadline - t2) k2 = (r3, k3)" "uk_recv_from K fd (budget + 1) k3 = (r4, k4)"
    "uk_now K k4 = (t5, k5)"
    by (metis surj_pair)
  note t = udp_clockD(1) [OF clk c(1)] udp_clockD(1) [OF clk c(2)] set_read_timeout_clock [OF clk c(3)]
    udp_clockD(1) [OF clk c(5)]
  show ?case
  proof (cases "t1 < deadline \<and> r3 = Inr ()")
    case False
    moreover have "time k1 \<le> b + 3 * slack" using t(1) pass.prems by simp
    moreover have "time k3 \<le> b + 3 * slack" if "t1 < deadline" using t that assms(2) by linarith
    ultimately show ?thesis
      using c by (subst wait_reply.simps) (auto split: sum.splits)
  next
    case True
    have "0 < deadline - t2" using c(3) True by (auto simp: set_read_timeout_def split: if_splits)
    from True t have tm: "tmo k3 fd = Some (deadline - t2)" by simp
    note r4 = udp_clockD(5) [OF clk tm c(4)]
    have k4: "time k4 \<le> b + 2 * slack" using r4 t \<open>0 < deadline - t2\<close> assms(2) by linarith
    have end_times: "time k5 \<le> b + 3 * slack" "time k4 \<le> b + 3 * slack" using t(4) k4 by simp_all
    have step: "wait_reply K fd me target peer budget body deadline invalid k =
        (case r4 of
           Inl e \<Rightarrow> if error_kind e = TimedOut \<or> error_kind e = WouldBlock
             then Some (Inr (False, invalid), k4) else Some (Inl (Io_failed e), k4)
         | Inr (data, source) \<Rightarrow>
             if is_reply me target peer budget body data source then Some (Inr (True, invalid), k5)
             else wait_reply K fd me target peer budget body deadline (invalid + 1) k4)"
      using c True udp_clockD(4) [OF clk tm] by (subst wait_reply.simps) (simp split: sum.split)
    show ?thesis
    proof (cases r4)
      case (Inl e)
      with step end_times show ?thesis by simp
    next
      case (Inr x)
      have "\<exists>r k'. wait_reply K fd me target peer budget body deadline (invalid + 1) k4 = Some (r, k')
          \<and> time k' \<le> b + 3 * slack"
      proof (rule pass.IH [OF _ _ k4])
        show "time k \<le> deadline" using t(1) moves_on_time True by fastforce
        have m: "moves_on time queued k k1" "moves_on time queued k1 k2" "moves_on time queued k2 k3"
          and u: "uses_up time queued k3 k4" using t r4 Inr by simp_all
        show "uses_up time queued k k4"
          by (rule moves_on_uses_up [OF m(1) moves_on_uses_up [OF m(2) moves_on_uses_up [OF m(3) u]]])
      qed
      with Inr step end_times show ?thesis by (cases x) simp
    qed
  qed
qed

lemma send_packet_clock:
  "udp_clock K time queued tmo slack \<Longrightarrow> send_packet K fd d a k = (r, k') \<Longrightarrow> time k' \<le> time k + slack"
  by (auto simp: send_packet_def send_packet_with_def io_call_pair dest: udp_clockD(3))

lemma ping_loop_returns:
  assumes clk: "udp_clock K time queued tmo slack"
  shows "\<exists>r k'. ping_loop K fd me target peer budget timeout_ms ident seqs received invalid k = Some (r, k')
    \<and> time k' \<le> time k + length seqs * (unat timeout_ms * 1000000 + 5 * slack)"
proof (induction seqs arbitrary: received invalid k)
  case (Cons s ss)
  let ?w = "unat timeout_ms * 1000000" and ?body = "ping_body ident s"
  obtain t1 k1 where c1: "uk_now K k = (t1, k1)" by force
  note n = udp_clockD(1) [OF clk c1]
  show ?case
  proof (cases "build_ctl_with_budget (Header_new NH_CTL me target) CTL_ECHO_REQUEST 0 ?body budget")
    case (Inr packet)
    obtain r2 k2 where c2: "send_packet K fd packet peer k1 = (r2, k2)" by force
    note s2 = send_packet_clock [OF clk c2]
    have "\<exists>r k'. wait_reply K fd me target peer budget ?body (t1 + ?w) invalid k2 = Some (r, k')
        \<and> time k' \<le> (t1 + ?w + slack) + 3 * slack"
      by (rule wait_reply_returns [OF clk]) (use n s2 in simp_all)
    then obtain r3 k3 where w: "wait_reply K fd me target peer budget ?body (t1 + ?w) invalid k2 = Some (r3, k3)"
      "time k3 \<le> t1 + ?w + 4 * slack" by auto
    have k3: "time k3 \<le> time k + (?w + 5 * slack)" using w(2) n by simp
    have k2: "time k2 \<le> time k + (?w + 5 * slack)" using s2 n by simp
    show ?thesis
    proof (cases r2)
      case (Inl e)
      with Inr c1 c2 k2 show ?thesis by (simp add: Let_def trans_le_add1 add.assoc)
    next
      case r2: (Inr x)
      show ?thesis
      proof (cases r3)
        case (Inl e)
        with r2 Inr c1 c2 w k3 show ?thesis by (simp add: Let_def trans_le_add1 add.assoc)
      next
        case r3: (Inr y)
        obtain m i where y: "y = (m, i)" by force
        from Cons.IH [of "if m then received + 1 else received" i k3] obtain r4 k4 where
          "ping_loop K fd me target peer budget timeout_ms ident ss (if m then received + 1 else received) i k3
             = Some (r4, k4)" "time k4 \<le> time k3 + length ss * (?w + 5 * slack)" by blast
        with r2 r3 y Inr c1 c2 w k3 show ?thesis by (simp add: Let_def)
      qed
    qed
  qed (simp add: Let_def)
qed simp

text \<open>
  C31: The client always ends, in time. Whatever the arguments, the network and the datagrams that
  arrive or do not, \<open>r8ping\<close> returns: a silent network does not hold it, because it sets the read
  timeout before each read, and neither does a flood of invalid datagrams. After the start-up it
  takes no longer than the timeout for each request and five times the kernel's slack.
\<close>

theorem ping_terminates:
  assumes "udp_clock K time queued tmo slack"
  shows "\<exists>r k'. r8ping K T pid argv k = Some (r, k')
    \<and> (\<forall>a fd me target peer k1. ping_start K T argv k = (Inr (a, fd, me, target, peer), k1) \<longrightarrow>
         time k' \<le> time k1 + unat (pa_count a) * (unat (pa_timeout_ms a) * 1000000 + 5 * slack))"
proof -
  obtain q k1 where q: "ping_start K T argv k = (q, k1)" by force
  show ?thesis
  proof (cases q)
    case (Inl e)
    with q show ?thesis by (simp add: r8ping_def)
  next
    case (Inr x)
    obtain a fd me target peer where x: "x = (a, fd, me, target, peer)" by (metis surj_pair)
    let ?bound = "time k1 + unat (pa_count a) * (unat (pa_timeout_ms a) * 1000000 + 5 * slack)"
    have "pa_count a \<noteq> 0" using q unfolding Inr x by (auto simp: ping_start_def io_simps split: if_splits prod.splits)
    then have "0 < unat (pa_count a)" by (simp add: unat_gt_0)
    then have one: "time k1 + slack \<le> ?bound" by (cases "unat (pa_count a)") simp_all
    show ?thesis
    proof (cases "pa_dgram a")
      case (Some message)
      obtain r k' where d: "ping_dgram K a fd me target peer message k1 = (r, k')" by force
      then have "time k' \<le> time k1 + slack"
        by (auto simp: ping_dgram_def io_then_def split: sum.splits prod.splits
            dest!: send_packet_clock [OF assms])
      with q Inr x Some d one show ?thesis by (simp add: r8ping_def)
    next
      case None
      obtain r k' where "ping_loop K fd me target peer (pa_budget a) (pa_timeout_ms a) (ucast (pid AND 0xffff))
          (ping_sequences (pa_count a)) 0 0 k1 = Some (r, k')" "time k' \<le> ?bound"
        using ping_loop_returns [OF assms, of fd me target peer "pa_budget a" "pa_timeout_ms a"
            "ucast (pid AND 0xffff)" "ping_sequences (pa_count a)" 0 0 k1]
        by auto
      with q Inr x None show ?thesis
        by (auto simp: r8ping_def ping_echo_def Let_def split: sum.split)
    qed
  qed
qed

section \<open>Success is genuine\<close>

text \<open>\<open>log\<close> is the list of datagrams received so far.\<close>

definition receive_log :: "'k udp_kernel \<Rightarrow> ('k \<Rightarrow> (bytes \<times> SocketAddr) list) \<Rightarrow> bool" where
  "receive_log K log \<longleftrightarrow>
     (\<forall>fd n k r k'. uk_recv_from K fd n k = (r, k') \<longrightarrow>
        log k' = (case r of Inl _ \<Rightarrow> log k | Inr da \<Rightarrow> log k @ [da])) \<and>
     (\<forall>k t k'. uk_now K k = (t, k') \<longrightarrow> log k' = log k) \<and>
     (\<forall>fd d a k r k'. uk_send_to K fd d a k = (r, k') \<longrightarrow> log k' = log k) \<and>
     (\<forall>fd n k r k'. uk_set_timeout K fd n k = (r, k') \<longrightarrow> log k' = log k)"

lemma receive_logD:
  assumes "receive_log K log"
  shows "uk_recv_from K fd n k = (Inr da, k') \<Longrightarrow> log k' = log k @ [da]"
    "uk_recv_from K fd n k = (Inl e, k') \<Longrightarrow> log k' = log k"
    "uk_now K k = (t, k') \<Longrightarrow> log k' = log k"
    "set_read_timeout K fd n k = (r, k') \<Longrightarrow> log k' = log k"
    "send_packet K fd d a k = (q, k') \<Longrightarrow> log k' = log k"
  using assms unfolding receive_log_def
  by (fastforce simp: set_read_timeout_def send_packet_def send_packet_with_def io_call_def
      split: if_splits prod.splits)+

text \<open>The datagrams a wait consumes: invalid ones, each counted, then the reply if it came.\<close>

definition waited :: "(bytes \<Rightarrow> SocketAddr \<Rightarrow> bool) \<Rightarrow> bool \<Rightarrow> nat \<Rightarrow> (bytes \<times> SocketAddr) list \<Rightarrow> bool" where
  "waited ok matched junk ds \<longleftrightarrow>
     length ds = junk + of_bool matched \<and> (matched \<longrightarrow> (case last ds of (d, a) \<Rightarrow> ok d a))"

lemma wait_reply_log:
  assumes "receive_log K log"
    and "wait_reply K fd me target peer budget body deadline invalid k = Some (Inr (m, i'), k')"
  shows "\<exists>ds junk. log k' = log k @ ds \<and> waited (is_reply me target peer budget body) m junk ds
    \<and> i' = invalid + of_nat junk"
proof -
  have "receive_log K log \<longrightarrow> fst res = Inr (m, i') \<longrightarrow>
      (\<exists>ds junk. log (snd res) = log k @ ds \<and> waited (is_reply me target peer budget body) m junk ds
        \<and> i' = invalid + of_nat junk)"
    if "wait_reply K fd me target peer budget body deadline invalid k = Some res" for res
  proof (rule wait_reply.raw_induct [OF _ that], goal_cases)
    case (1 W K fd me target peer budget body deadline invalid k res)
    note IH = 1(1)
    show ?case
    proof (intro impI)
      assume log: "receive_log K log" and res: "fst res = Inr (m, i')"
      obtain t1 k1 t2 k2 r3 k3 r4 k4 where c: "uk_now K k = (t1, k1)" "uk_now K k1 = (t2, k2)"
        "set_read_timeout K fd (deadline - t2) k2 = (r3, k3)" "uk_recv_from K fd (budget + 1) k3 = (r4, k4)"
        by (metis surj_pair)
      obtain t5 k5 where c5: "uk_now K k4 = (t5, k5)" by force
      note l = receive_logD(3) [OF log c(1)] receive_logD(3) [OF log c(2)] receive_logD(4) [OF log c(3)]
      show "\<exists>ds junk. log (snd res) = log k @ ds \<and> waited (is_reply me target peer budget body) m junk ds
          \<and> i' = invalid + of_nat junk"
      proof (cases "t1 < deadline \<and> (\<exists>u. r3 = Inr u) \<and> (\<exists>d a. r4 = Inr (d, a))")
        case True
        then obtain u d a where T: "t1 < deadline" "r3 = Inr u" "r4 = Inr (d, a)" by blast
        have "\<not> uk_recv_waits K fd k3" using 1(2) c T by auto
        have l4: "log k4 = log k @ [(d, a)]" using receive_logD(1) [OF log c(4) [unfolded T(3)]] l by simp
        show ?thesis
        proof (cases "is_reply me target peer budget body d a")
          case True
          then have "log (snd res) = log k @ [(d, a)] \<and> waited (is_reply me target peer budget body) m 0 [(d, a)]
              \<and> i' = invalid + of_nat 0"
            using 1(2) res c c5 T l4 receive_logD(3) [OF log c5] by (auto simp: waited_def split: if_splits)
          then show ?thesis by blast
        next
          case False
          then have w: "W K fd me target peer budget body deadline (invalid + 1) k4 = Some res"
            using 1(2) c T \<open>\<not> uk_recv_waits K fd k3\<close> by simp
          from IH [OF w] log res obtain ds junk where
            "log (snd res) = log k4 @ ds" "waited (is_reply me target peer budget body) m junk ds"
            "i' = invalid + 1 + of_nat junk"
            by blast
          then have "log (snd res) = log k @ ((d, a) # ds)
              \<and> waited (is_reply me target peer budget body) m (Suc junk) ((d, a) # ds)
              \<and> i' = invalid + of_nat (Suc junk)"
            using l4 by (auto simp: waited_def)
          then show ?thesis by blast
        qed
      next
        case False
        then have "m = False \<and> log (snd res) = log k \<and> i' = invalid"
          using 1(2) res c l receive_logD(2) [OF log]
          by (auto split: if_splits sum.splits) 
        then show ?thesis by (auto simp: waited_def intro!: exI [of _ "[]"] exI [of _ 0])
      qed
    qed
  qed
  from this [OF assms(2)] assms(1) show ?thesis by simp
qed

lemma ping_loop_log:
  assumes "receive_log K log"
  shows "ping_loop K fd me target peer budget timeout_ms ident seqs received invalid k
      = Some (Inr (received', invalid'), k') \<Longrightarrow>
    \<exists>ds junk hits. log k' = log k @ ds \<and> length ds = junk + hits \<and> hits \<le> length seqs
      \<and> received' = received + of_nat hits \<and> invalid' = invalid + of_nat junk
      \<and> (junk = 0 \<and> hits = length seqs \<longrightarrow>
          list_all2 (\<lambda>s (d, a). is_reply me target peer budget (ping_body ident s) d a) seqs ds)"
proof (induction seqs arbitrary: received invalid k)
  case Nil
  then show ?case by (auto intro!: exI [of _ "[]"])
next
  case (Cons s ss)
  obtain packet where packet: "build_ctl_with_budget (Header_new NH_CTL me target) CTL_ECHO_REQUEST 0
      (ping_body ident s) budget = Inr packet"
    using Cons.prems by (auto simp: Let_def split: sum.splits)
  obtain t k1 r k2 where c: "uk_now K k = (t, k1)" "send_packet K fd packet peer k1 = (r, k2)"
    by (metis surj_pair)
  from Cons.prems packet c obtain m i1 k3 where
    w: "wait_reply K fd me target peer budget (ping_body ident s) (t + unat timeout_ms * 1000000) invalid k2
      = Some (Inr (m, i1), k3)"
    and rest: "ping_loop K fd me target peer budget timeout_ms ident ss
      (if m then received + 1 else received) i1 k3 = Some (Inr (received', invalid'), k')"
    by (auto simp: Let_def split: sum.splits option.splits prod.splits)
  have l: "log k2 = log k" using receive_logD(3) [OF assms c(1)] receive_logD(5) [OF assms c(2)] by simp
  from wait_reply_log [OF assms w] obtain ds1 j1 where
    d1: "log k3 = log k @ ds1" "waited (is_reply me target peer budget (ping_body ident s)) m j1 ds1"
      "i1 = invalid + of_nat j1"
    using l by auto
  from Cons.IH [OF rest] obtain ds2 j2 h2 where
    d2: "log k' = log k3 @ ds2" "length ds2 = j2 + h2" "h2 \<le> length ss"
      "received' = (if m then received + 1 else received) + of_nat h2" "invalid' = i1 + of_nat j2"
      "j2 = 0 \<and> h2 = length ss \<longrightarrow>
        list_all2 (\<lambda>s (d, a). is_reply me target peer budget (ping_body ident s) d a) ss ds2"
    by blast
  show ?case
    using d1 d2
    by (intro exI [of _ "ds1 @ ds2"] exI [of _ "j1 + j2"] exI [of _ "of_bool m + h2"])
      (cases m; auto simp: waited_def length_Suc_conv)
qed

lemma is_reply_iff:
  "is_reply me target peer budget body d a \<longleftrightarrow> a = peer \<and> length d \<le> budget \<and>
     (\<exists>h p. unpack_with_budget d budget = Inr (h, p) \<and> h_next_header h = NH_CTL \<and> h_src h = target
        \<and> h_dst h = me \<and> parse_ctl h p = Inr (CTL_ECHO_REPLY, 0, body))"
  by (auto simp: is_reply_def split: sum.splits)

text \<open>
  C30: A successful ping is genuine. When the client reports success (and fewer than \<open>2 ^ 32\<close>
  datagrams came in, the range of its counter), it has received exactly one datagram for each
  request, in order, and nothing else: each came from the peer's endpoint and is a valid echo
  reply from the target to the client with the identifier and sequence number of that request.
\<close>

theorem ping_success_is_genuine:
  assumes "receive_log K log"
    and "ping_echo K pid fd me target peer budget timeout_ms count k = Some (Inr (), k')"
    and "length (log k') < length (log k) + 2 ^ 32"
  shows "\<exists>ds. log k' = log k @ ds \<and> list_all2 (\<lambda>s (d, a). a = peer \<and>
      (\<exists>h p. unpack_with_budget d budget = Inr (h, p) \<and> h_next_header h = NH_CTL \<and> h_src h = target
         \<and> h_dst h = me \<and> parse_ctl h p = Inr (CTL_ECHO_REPLY, 0, ping_body (ucast (pid AND 0xffff)) s)))
      (ping_sequences count) ds"
proof -
  from assms(2) have "ping_loop K fd me target peer budget timeout_ms (ucast (pid AND 0xffff))
      (ping_sequences count) 0 0 k = Some (Inr (ucast count, 0), k')"
    by (auto simp: ping_echo_def Let_def split: option.splits sum.splits if_splits)
  from ping_loop_log [OF assms(1) this] obtain ds junk hits where
    ds: "log k' = log k @ ds" "length ds = junk + hits" "hits \<le> unat count"
      "(ucast count :: u32) = of_nat hits" "(of_nat junk :: u32) = 0"
      "junk = 0 \<and> hits = unat count \<longrightarrow> list_all2 (\<lambda>s (d, a). is_reply me target peer budget
          (ping_body (ucast (pid AND 0xffff)) s) d a) (ping_sequences count) ds"
    by auto
  have "hits < 2 ^ 32" using ds(3) u16_lt [of count] by simp
  then have "hits = unat count"
    using arg_cong [OF ds(4), of unat] by (simp add: unat_of_nat unat_ucast_16_32)
  moreover have "junk = 0"
    using arg_cong [OF ds(5), of unat] ds(1,2) assms(3) by (simp add: unat_of_nat)
  ultimately have "list_all2 (\<lambda>s (d, a). is_reply me target peer budget
      (ping_body (ucast (pid AND 0xffff)) s) d a) (ping_sequences count) ds"
    using ds(6) by simp
  then show ?thesis using ds(1) by (auto simp: is_reply_iff elim: list_all2_mono)
qed

section \<open>Client and responder together\<close>

text \<open>
  A network that hands every datagram of the client to the responder at \<open>loc\<close> and its reply back
  from the same endpoint. The state is the clock, the datagrams on their way to the client and
  those it received; every reading of the clock takes \<open>tick\<close> nanoseconds.
\<close>

type_synonym echo_state = "nat \<times> (bytes \<times> SocketAddr) list \<times> (bytes \<times> SocketAddr) list"

definition echo_net :: "Loc \<Rightarrow> nat \<Rightarrow> nat \<Rightarrow> echo_state udp_kernel" where
  "echo_net loc rbudget tick =
     \<lparr>uk_bind = (\<lambda>_ s. (Inr 3, s)),
      uk_setsockopt = (\<lambda>_ _ _ _ s. ((0, 0), s)),
      uk_send_to = (\<lambda>_ d a (t, inbox, log). (Inr (length d),
        t, inbox @ (case respond loc rbudget d of Reply r \<Rightarrow> [(r, a)] | _ \<Rightarrow> []), log)),
      uk_recv_from = (\<lambda>_ n (t, inbox, log).
        case inbox of
          [] \<Rightarrow> (Inl (Os_error EAGAIN), t, [], log)
        | (d, a) # rest \<Rightarrow> (Inr (take n d, a), t, rest, log @ [(take n d, a)])),
      uk_recv_waits = (\<lambda>_ (t, inbox, log). inbox = []),
      uk_set_timeout = (\<lambda>_ _ s. (Inr (), s)),
      uk_resolve = (\<lambda>_ s. (Inr [], s)),
      uk_now = (\<lambda>(t, s). (t + tick, t + tick, s)),
      uk_getrandom = (\<lambda>n s. (Some (replicate n 0), s)),
      uk_clock_gettime = (\<lambda>s. ((0, 0, 0), s)),
      uk_write = (\<lambda>_ d s. (int (length d), s))\<rparr>"

lemma echo_net_log: "receive_log (echo_net loc rb tick) (snd \<circ> snd)"
  by (auto simp: receive_log_def echo_net_def split: list.splits)

lemma echo_net_wait:
  assumes "t + 2 * tick < deadline" "is_reply me target peer budget body r peer"
  shows "wait_reply (echo_net loc rb tick) fd me target peer budget body deadline invalid (t, [(r, peer)], log)
    = Some (Inr (True, invalid), (t + 3 * tick, [], log @ [(r, peer)]))"
  using assms
  by (subst wait_reply.simps) (simp add: echo_net_def set_read_timeout_def is_reply_iff)

lemma echo_net_ping:
  assumes "length me = 16" "length target = 16" "56 \<le> budget" "budget \<le> 1280" "56 \<le> rbudget"
    and "2 * tick < unat timeout_ms * 1000000"
  shows "\<exists>t' log'. ping_loop (echo_net target rbudget tick) fd me target peer budget timeout_ms ident seqs
      received invalid (t, [], log) = Some (Inr (received + of_nat (length seqs), invalid), (t', [], log'))
      \<and> length log' = length log + length seqs"
proof (induction seqs arbitrary: received t log)
  case (Cons s ss)
  let ?body = "ping_body ident s" and ?K = "echo_net target rbudget tick"
  have len: "length ?body = 4" by (simp add: ping_body_def)
  from echo_built [of me target CTL_ECHO_REQUEST ?body budget] assms len obtain d p where
    d: "build_ctl_with_budget (Header_new NH_CTL me target) CTL_ECHO_REQUEST 0 ?body budget = Inr d"
      "unpack_with_budget d budget = Inr (Header_new NH_CTL me target, p)"
      "parse_ctl (Header_new NH_CTL me target) p = Inr (CTL_ECHO_REQUEST, 0, ?body)" "length d = 56"
    by auto
  have "echo_request target rbudget d me ?body"
    using unpack_budget_mono [OF d(2), of rbudget] d(3,4) assms(5) by (auto simp: echo_request_def Header_new_def)
  from respond_request [OF assms(2) this] d(4) obtain r where
    r: "respond target rbudget d = Reply r" "length r = 56" "echo_reply target me rbudget r ?body" by auto
  then have ok: "is_reply me target peer budget ?body r peer"
    using unpack_budget_mono [of r rbudget _ budget] assms(3)
    by (fastforce simp: is_reply_iff echo_reply_def Header_new_def)
  have "send_packet ?K fd d peer (t + tick, [], log) = (Inr 56, (t + tick, [(r, peer)], log))"
    using r(1) d(4) by (simp add: send_packet_def send_packet_with_def io_call_def echo_net_def validate_send_count_def)
  moreover have "uk_now ?K (t, [], log) = (t + tick, t + tick, [], log)" by (simp add: echo_net_def)
  moreover note echo_net_wait [OF _ ok, of "t + tick" tick "t + tick + unat timeout_ms * 1000000"]
  ultimately have "ping_loop ?K fd me target peer budget timeout_ms ident (s # ss) received invalid (t, [], log)
      = ping_loop ?K fd me target peer budget timeout_ms ident ss (received + 1) invalid
          (t + 4 * tick, [], log @ [(r, peer)])"
    using d(1) assms(6) by (simp add: Let_def add.commute)
  with Cons.IH [of "received + 1" "t + 4 * tick" "log @ [(r, peer)]"] show ?case by (auto simp: add.assoc)
qed auto

text \<open>
  C28: Client and responder work together. Over a network that carries their datagrams, a client
  that pings a responder's locator gets every answer and reports success, for every count,
  every pair of locators, every budget of the client from 56 bytes and of the responder from 56,
  and every timeout longer than two readings of the clock.
\<close>

theorem echo_end_to_end:
  assumes "length me = 16" "length target = 16" "56 \<le> budget" "budget \<le> 1280" "56 \<le> rbudget"
    and "2 * tick < unat timeout_ms * 1000000"
  shows "\<exists>k'. ping_echo (echo_net target rbudget tick) pid fd me target peer budget timeout_ms count (t, [], log)
    = Some (Inr (), k')"
  using echo_net_ping [OF assms, of fd peer "ucast (pid AND 0xffff)" "ping_sequences count" 0 0 t log]
  by (auto simp: ping_echo_def Let_def)

definition sample_peer :: SocketAddr where
  "sample_peer = \<lparr>sa_ip = IpV4 [127, 0, 0, 1], sa_port = 52808, sa_flowinfo = 0, sa_scope_id = 0\<rparr>"

theorem echo_end_to_end_witness:
  "\<exists>k'. ping_echo (echo_net (replicate 16 2) 1252 5) 77 3 (replicate 16 1) (replicate 16 2) sample_peer
     1252 1000 4 (0, [], []) = Some (Inr (), k')"
  by (rule echo_end_to_end) simp_all

theorem ping_success_is_genuine_witness:
  "\<exists>k'. ping_echo (echo_net (replicate 16 2) 1252 5) 77 3 (replicate 16 1) (replicate 16 2) sample_peer
     1252 1000 4 (0, [], []) = Some (Inr (), k') \<and> length (snd (snd k')) = 4"
proof -
  let ?K = "echo_net (replicate 16 2) 1252 5"
  have "\<exists>t' log'. ping_loop ?K 3 (replicate 16 1) (replicate 16 2) sample_peer 1252 1000 (ucast ((77 :: u32) AND 0xffff))
      (ping_sequences 4) 0 0 (0, [], []) = Some (Inr (0 + of_nat (length (ping_sequences 4)), 0), (t', [], log'))
      \<and> length log' = length ([] :: (bytes \<times> SocketAddr) list) + length (ping_sequences 4)"
    by (rule echo_net_ping) simp_all
  then obtain t' log' where l: "length log' = 4" and
    e: "ping_echo ?K 77 3 (replicate 16 1) (replicate 16 2) sample_peer 1252 1000 4 (0, [], [])
      = Some (Inr (), (t', [], log'))"
    by (auto simp: ping_echo_def Let_def)
  from ping_success_is_genuine [OF echo_net_log e] l e show ?thesis by (force dest: list_all2_lengthD)
qed

text \<open>
  A network nobody answers on: the state is the clock and the read timeout. A read without a timeout
  waits for ever, one with a timeout takes just that long; reading the clock takes no time.
\<close>

definition silent_net :: "(nat \<times> nat option) udp_kernel" where
  "silent_net =
     \<lparr>uk_bind = (\<lambda>_ s. (Inr 3, s)), uk_setsockopt = (\<lambda>_ _ _ _ s. ((0, 0), s)),
      uk_send_to = (\<lambda>_ d _ s. (Inr (length d), s)),
      uk_recv_from = (\<lambda>_ _ (t, w). (Inl (Os_error EAGAIN), (case w of None \<Rightarrow> t | Some n \<Rightarrow> t + n), w)),
      uk_recv_waits = (\<lambda>_ (t, w). w = None),
      uk_set_timeout = (\<lambda>_ n (t, w). (Inr (), t, Some n)),
      uk_resolve = (\<lambda>_ s. (Inr [sample_peer], s)), uk_now = (\<lambda>(t, w). (t, t, w)),
      uk_getrandom = (\<lambda>n s. (Some (replicate n 0), s)), uk_clock_gettime = (\<lambda>s. ((0, 0, 0), s)),
      uk_write = (\<lambda>_ d s. (int (length d), s))\<rparr>"

lemma silent_net_clock: "udp_clock silent_net fst (\<lambda>_. 0) (\<lambda>k _. snd k) 0"
  by (auto simp: udp_clock_def silent_net_def moves_on_def)

definition ping_texts :: addr_text where
  "ping_texts = \<lparr>at_ipv6 = \<lambda>s. Some (replicate 16 (of_nat (length s))), at_socket = \<lambda>_. Some sample_peer\<rparr>"

definition ping_argv :: "string list" where
  "ping_argv = [''--address'', ''a'', ''--peer'', ''bb=h'', ''--count'', ''3'', ''bb'']"

lemma silent_start:
  "ping_start silent_net ping_texts ping_argv (0, None) =
     (Inr (ping_defaults\<lparr>pa_address := Some ''a'', pa_peer := Some ''bb=h'', pa_count := 3, pa_target := Some ''bb''\<rparr>,
        3, replicate 16 1, replicate 16 2, sample_peer), (0, None))"
  by (simp add: ping_start_def ping_argv_def ping_defaults_def next_value_def next_number_def from_str_radix_def
      to_digit_def ascii_simps io_then_def io_call_def lift_err_def ping_texts_def parse_loc_def DEFAULT_BUDGET_def
      wire_consts endpoint_def silent_net_def validate_underlay_def sample_peer_def set_df_def)

theorem ping_terminates_witness:
  "\<exists>r k'. r8ping silent_net ping_texts 77 ping_argv (0, None) = Some (r, k') \<and> fst k' \<le> 3000000000"
  using ping_terminates [OF silent_net_clock, of ping_texts 77 ping_argv "(0, None)"]
  unfolding silent_start by (auto simp: ping_defaults_def)

section \<open>A deadline that passes between two readings of the clock\<close>

text \<open>
  A defect of the client. The loop tests the deadline with one reading of the clock and
  computes the socket timeout from a second one. If the deadline passes in between, the remaining
  time saturates to zero, \<open>set_read_timeout\<close> refuses it, and the whole run ends with that error:
  no timeout is reported for the sequence number, the remaining requests are not sent and the
  summary is not printed.
\<close>

theorem ping_aborts_at_deadline:
  assumes "uk_now K k = (t1, k1)" "t1 < deadline" "uk_now K k1 = (t2, k2)" "deadline \<le> t2"
  shows "wait_reply K fd me target peer budget body deadline invalid k
    = Some (Inl (Io_failed (Kind_error InvalidInput)), k2)"
  using assms by (subst wait_reply.simps) (simp add: set_read_timeout_def)

theorem ping_aborts_at_deadline_witness:
  "wait_reply (echo_net (replicate 16 2) 1252 600000) 3 (replicate 16 1) (replicate 16 2) sample_peer 1252
     [0, 77, 0, 1] 1000000 0 (0, [], []) = Some (Inl (Io_failed (Kind_error InvalidInput)), (1200000, [], []))"
  by (rule ping_aborts_at_deadline [of _ _ 600000 "(600000, [], [])" _ 1200000]) (simp_all add: echo_net_def)

end
