(* ===== verification/Session_Options.thy ===== *)
theory Session_Options
  imports Udp_Socket Session_Codec
begin

text \<open>
  The command line of \<open>r8session\<close> (\<open>src/rust/crates/r8-session/src/main.rs\<close>): \<open>hex\<close>, \<open>parse_options\<close>
  and the underlay check. The outer option is a panic. Accepted options are well formed, printed
  octets are read back, and \<open>hex\<close> is less strict than its tests say: it takes a plus sign for a
  digit and panics on some texts that are not ASCII.
\<close>

section \<open>Values\<close>

datatype Mode = Serve | Connect

record options =
  op_mode :: Mode
  op_local_seed :: bytes
  op_peer_key :: bytes
  op_service :: u32
  op_server_context :: u32
  op_source :: bytes
  op_destination :: bytes
  op_bind :: SocketAddr
  op_peer :: "SocketAddr option"
  op_budget :: nat
  op_timeout :: nat
  op_max_sessions :: nat
  op_message :: "bytes option"
  op_scid :: "u64 option"
  op_ready_fd :: "int option"
  op_isolated :: bool

text \<open>\<open>?\<close> on results under a possible panic.\<close>

definition attempt :: "('e + 'a) option \<Rightarrow> ('a \<Rightarrow> ('e + 'b) option) \<Rightarrow> ('e + 'b) option" where
  "attempt m f = (case m of None \<Rightarrow> None | Some (Inl e) \<Rightarrow> Some (Inl e) | Some (Inr x) \<Rightarrow> f x)"

lemma attempt_simps [simp]:
  "attempt None f = None" "attempt (Some (Inl e)) f = Some (Inl e)" "attempt (Some (Inr x)) f = f x"
  by (simp_all add: attempt_def)

lemma attempt_Inr: "attempt m f = Some (Inr y) \<longleftrightarrow> (\<exists>x. m = Some (Inr x) \<and> f x = Some (Inr y))"
  by (auto simp: attempt_def split: option.splits sum.splits)

text \<open>
  \<open>hex\<close>: \<open>&text[i..i + 2]\<close> panics when an end of the slice is inside a character. The pairs are
  collected up to the first error.
\<close>

fun hex_pairs :: "string \<Rightarrow> (SessionError + bytes) option" where
  "hex_pairs (a # b # rest) =
     (if utf8_cont a \<or> (case rest of [] \<Rightarrow> False | c # _ \<Rightarrow> utf8_cont c) then None
      else attempt (Some (ok_or ConfigError (from_str_radix 8 16 [a, b]))) (\<lambda>v.
        attempt (hex_pairs rest) (\<lambda>vs. Some (Inr (of_nat v # vs)))))"
| "hex_pairs _ = Some (Inr [])"

definition hex :: "string \<Rightarrow> (SessionError + bytes) option" where
  "hex text = (if odd (length text) then Some (Inl ConfigError) else hex_pairs text)"

definition fixed :: "nat \<Rightarrow> string \<Rightarrow> (SessionError + bytes) option" where
  "fixed n text = attempt (hex text) (\<lambda>bs. Some (if length bs = n then Inr bs else Inl ConfigError))"

definition number :: "(string \<Rightarrow> 'a option) \<Rightarrow> string \<Rightarrow> SessionError + 'a" where
  "number from_str text = ok_or ConfigError (from_str text)"

text \<open>\<open>FromStr\<close> of the unsigned types and of \<open>i32\<close>.\<close>

definition u32_from_str :: "string \<Rightarrow> u32 option" where
  "u32_from_str s = map_option of_nat (from_str_radix 32 10 s)"

definition u64_from_str :: "string \<Rightarrow> u64 option" where
  "u64_from_str s = map_option of_nat (from_str_radix 64 10 s)"

definition usize_from_str :: "string \<Rightarrow> nat option" where
  "usize_from_str s = from_str_radix 64 10 s"

definition i32_from_str :: "string \<Rightarrow> int option" where
  "i32_from_str s =
     (case s of
        c # d # ds \<Rightarrow>
          if c = CHR ''-'' then
            (case digits_value 32 10 0 (d # ds) of
               None \<Rightarrow> None
             | Some n \<Rightarrow> if n \<le> 2 ^ 31 then Some (- int n) else None)
          else map_option int (from_str_radix 31 10 s)
      | _ \<Rightarrow> map_option int (from_str_radix 31 10 s))"

definition loc :: "addr_text \<Rightarrow> string \<Rightarrow> SessionError + bytes" where
  "loc T text = ok_or ConfigError (parse_loc T text)"

section \<open>The options\<close>

text \<open>The variables filled by \<open>value!\<close>, by the flag that fills them.\<close>

type_synonym slots = "string \<rightharpoonup> string"

definition value_flags :: "string list" where
  "value_flags = [''--local-seed-hex'', ''--peer-public-key-hex'', ''--service-context'',
     ''--server-context-id'', ''--address'', ''--peer-address'', ''--bind'', ''--binding-budget'',
     ''--timeout'', ''--ready-fd'', ''--peer'', ''--message-hex'', ''--scid'', ''--max-sessions'']"

fun options_loop :: "slots \<Rightarrow> bool \<Rightarrow> string list \<Rightarrow> SessionError + slots \<times> bool" where
  "options_loop slots isolated [] = Inr (slots, isolated)"
| "options_loop slots isolated (flag # rest) =
     (if flag \<in> set value_flags then
        if slots flag \<noteq> None then Inl ConfigError
        else (case rest of
           [] \<Rightarrow> Inl ConfigError
         | value # rest \<Rightarrow>
             if prefix ''--'' value then Inl ConfigError
             else options_loop (slots(flag \<mapsto> value)) isolated rest)
      else if flag = ''--allow-isolated-underlay'' \<and> \<not> isolated then options_loop slots True rest
      else Inl ConfigError)"

text \<open>\<open>slot.map(f).transpose()?\<close> and \<open>f(slot.ok_or(ConfigError)?)?\<close>.\<close>

definition optional :: "('a \<Rightarrow> (SessionError + 'b) option) \<Rightarrow> 'a option \<Rightarrow> (SessionError + 'b option) option" where
  "optional f v = (case v of None \<Rightarrow> Some (Inr None) | Some x \<Rightarrow> attempt (f x) (\<lambda>y. Some (Inr (Some y))))"

definition required :: "('a \<Rightarrow> (SessionError + 'b) option) \<Rightarrow> 'a option \<Rightarrow> (SessionError + 'b) option" where
  "required f v = (case v of None \<Rightarrow> Some (Inl ConfigError) | Some x \<Rightarrow> f x)"

definition unwrap_or :: "'a \<Rightarrow> 'a option \<Rightarrow> 'a" where
  "unwrap_or d v = (case v of None \<Rightarrow> d | Some x \<Rightarrow> x)"

definition SESSION_DEFAULT_BUDGET :: nat where "SESSION_DEFAULT_BUDGET = 1252"

abbreviation parsed :: "(string \<Rightarrow> 'a option) \<Rightarrow> string \<Rightarrow> (SessionError + 'a) option" where
  "parsed from_str text \<equiv> Some (number from_str text)"

definition build_options :: "addr_text \<Rightarrow> Mode \<Rightarrow> slots \<Rightarrow> bool \<Rightarrow> (SessionError + options) option" where
  "build_options T mode slots isolated =
     (if mode = Serve \<and> (slots ''--peer'' \<noteq> None \<or> slots ''--message-hex'' \<noteq> None \<or> slots ''--scid'' \<noteq> None)
         \<or> mode = Connect \<and> (slots ''--max-sessions'' \<noteq> None \<or> slots ''--peer'' = None
              \<or> slots ''--message-hex'' = None)
      then Some (Inl ConfigError)
      else
      attempt (optional (parsed usize_from_str) (slots ''--binding-budget'')) (\<lambda>budget.
      let budget = unwrap_or SESSION_DEFAULT_BUDGET budget in
      if \<not> (48 \<le> budget \<and> budget \<le> 1252) then Some (Inl ConfigError)
      else
      attempt (required (parsed u32_from_str) (slots ''--service-context'')) (\<lambda>service.
      attempt (required (parsed u32_from_str) (slots ''--server-context-id'')) (\<lambda>server_context.
      if service = 0 \<or> server_context = 0 then Some (Inl ConfigError)
      else
      attempt (optional (parsed u64_from_str) (slots ''--timeout'')) (\<lambda>timeout.
      let timeout_seconds = unwrap_or 5 timeout in
      if timeout_seconds = 0 then Some (Inl ConfigError)
      else
      attempt (optional hex (slots ''--message-hex'')) (\<lambda>message.
      if message = Some [] then Some (Inl ConfigError)
      else
      attempt (optional (parsed u64_from_str) (slots ''--scid'')) (\<lambda>scid.
      if scid = Some 0 then Some (Inl ConfigError)
      else
      attempt (optional (parsed usize_from_str) (slots ''--max-sessions'')) (\<lambda>max_sessions.
      let max_sessions = unwrap_or 1 max_sessions in
      if max_sessions = 0 \<or> max_sessions > 1024 then Some (Inl ConfigError)
      else
      attempt (required (fixed 32) (slots ''--local-seed-hex'')) (\<lambda>local_seed.
      attempt (required (fixed 32) (slots ''--peer-public-key-hex'')) (\<lambda>peer_key.
      attempt (required (\<lambda>s. Some (loc T s)) (slots ''--address'')) (\<lambda>source.
      attempt (required (\<lambda>s. Some (loc T s)) (slots ''--peer-address'')) (\<lambda>destination.
      attempt (required (parsed (at_socket T)) (slots ''--bind'')) (\<lambda>bind.
      attempt (optional (parsed (at_socket T)) (slots ''--peer'')) (\<lambda>peer.
      attempt (optional (parsed i32_from_str) (slots ''--ready-fd'')) (\<lambda>ready_fd.
      Some (Inr
        \<lparr>op_mode = mode, op_local_seed = local_seed, op_peer_key = peer_key, op_service = service,
         op_server_context = server_context, op_source = source, op_destination = destination,
         op_bind = bind, op_peer = peer, op_budget = budget, op_timeout = unat timeout_seconds * 1000000000,
         op_max_sessions = max_sessions, op_message = message, op_scid = scid,
         op_ready_fd = ready_fd, op_isolated = isolated\<rparr>))))))))))))))))"

definition parse_options :: "addr_text \<Rightarrow> string list \<Rightarrow> (SessionError + options) option" where
  "parse_options T args =
     (case args of
        _ # mode # values \<Rightarrow>
          (if mode = ''serve'' \<or> mode = ''connect'' then
             attempt (Some (options_loop Map.empty False values)) (\<lambda>(slots, isolated).
               build_options T (if mode = ''serve'' then Serve else Connect) slots isolated)
           else Some (Inl ConfigError))
      | _ \<Rightarrow> Some (Inl ConfigError))"

fun allowed_ip :: "IpAddr \<Rightarrow> bool \<Rightarrow> bool" where
  "allowed_ip (IpV4 ip) isolated \<longleftrightarrow>
     is_loopback (IpV4 ip) \<or> isolated \<and> (is_private ip \<or> is_link_local ip)"
| "allowed_ip (IpV6 ip) isolated \<longleftrightarrow> is_loopback (IpV6 ip) \<or> isolated \<and> is_unicast_link_local ip"

definition allowed_underlay :: "SocketAddr \<Rightarrow> bool \<Rightarrow> bool" where
  "allowed_underlay address isolated = allowed_ip (sa_ip address) isolated"

section \<open>Accepted options are well formed\<close>

lemma optional_Inr: "optional f v = Some (Inr y) \<longleftrightarrow>
    v = None \<and> y = None \<or> (\<exists>x z. v = Some x \<and> f x = Some (Inr z) \<and> y = Some z)"
  by (auto simp: optional_def attempt_Inr split: option.splits)

lemma required_Inr: "required f v = Some (Inr y) \<longleftrightarrow> (\<exists>x. v = Some x \<and> f x = Some (Inr y))"
  by (auto simp: required_def split: option.splits)

lemma guard_Inr: "(if b then Some (Inl e) else m) = Some (Inr y) \<longleftrightarrow> \<not> b \<and> m = Some (Inr y)"
  by auto

text \<open>What the checks on the way to accepted options establish.\<close>

lemma build_options_Inr:
  assumes "build_options T mode slots isolated = Some (Inr opts)"
  obtains budget service ctx timeout message scid max_sessions seed key source destination bind peer ready where
    "\<not> (mode = Serve \<and> (slots ''--peer'' \<noteq> None \<or> slots ''--message-hex'' \<noteq> None \<or> slots ''--scid'' \<noteq> None)
         \<or> mode = Connect \<and> (slots ''--max-sessions'' \<noteq> None \<or> slots ''--peer'' = None
              \<or> slots ''--message-hex'' = None))"
    "48 \<le> unwrap_or SESSION_DEFAULT_BUDGET budget \<and> unwrap_or SESSION_DEFAULT_BUDGET budget \<le> 1252"
      "\<not> (service = 0 \<or> ctx = 0)" "unwrap_or (5 :: u64) timeout \<noteq> 0" "message \<noteq> Some []" "scid \<noteq> Some 0"
      "\<not> (unwrap_or 1 max_sessions = 0 \<or> 1024 < unwrap_or 1 max_sessions)"
    "optional hex (slots ''--message-hex'') = Some (Inr message)"
      "optional (parsed u64_from_str) (slots ''--scid'') = Some (Inr scid)"
      "optional (parsed (at_socket T)) (slots ''--peer'') = Some (Inr peer)"
    "required (fixed 32) (slots ''--local-seed-hex'') = Some (Inr seed)"
      "required (fixed 32) (slots ''--peer-public-key-hex'') = Some (Inr key)"
      "required (\<lambda>s. Some (loc T s)) (slots ''--address'') = Some (Inr source)"
      "required (\<lambda>s. Some (loc T s)) (slots ''--peer-address'') = Some (Inr destination)"
      "required (parsed (at_socket T)) (slots ''--bind'') = Some (Inr bind)"
    "opts =
        \<lparr>op_mode = mode, op_local_seed = seed, op_peer_key = key, op_service = service,
         op_server_context = ctx, op_source = source, op_destination = destination,
         op_bind = bind, op_peer = peer, op_budget = unwrap_or SESSION_DEFAULT_BUDGET budget,
         op_timeout = unat (unwrap_or 5 timeout) * 1000000000,
         op_max_sessions = unwrap_or 1 max_sessions, op_message = message, op_scid = scid,
         op_ready_fd = ready, op_isolated = isolated\<rparr>"
  using assms unfolding build_options_def Let_def guard_Inr attempt_Inr not_not option.inject sum.inject
  by (elim exE conjE) (rule that, (assumption | erule (1) conjI | erule sym)+)

text \<open>
  C37: Whatever the command line, options that are accepted have the sizes and ranges the rest of
  the program relies on: 32-byte seed and key, 16-byte locators, non-zero contexts and session
  id, a budget of 48 to 1252 bytes, a positive timeout, 1 to 1024 sessions; a client has a peer
  and a non-empty message, a server neither of them.
\<close>

theorem options_wellformed:
  assumes "addr_text_ok T" "parse_options T args = Some (Inr opts)"
  shows "length (op_local_seed opts) = 32 \<and> length (op_peer_key opts) = 32
    \<and> op_service opts \<noteq> 0 \<and> op_server_context opts \<noteq> 0
    \<and> length (op_source opts) = 16 \<and> length (op_destination opts) = 16
    \<and> 48 \<le> op_budget opts \<and> op_budget opts \<le> 1252 \<and> 0 < op_timeout opts
    \<and> 1 \<le> op_max_sessions opts \<and> op_max_sessions opts \<le> 1024 \<and> op_scid opts \<noteq> Some 0
    \<and> wf_ip (sa_ip (op_bind opts)) \<and> (\<forall>a. op_peer opts = Some a \<longrightarrow> wf_ip (sa_ip a))
    \<and> (op_mode opts = Connect \<longrightarrow> op_peer opts \<noteq> None \<and> (\<exists>b bs. op_message opts = Some (b # bs)))
    \<and> (op_mode opts = Serve \<longrightarrow> op_peer opts = None \<and> op_message opts = None \<and> op_scid opts = None)"
proof -
  from assms(2) obtain mode slots isolated where
    "build_options T mode slots isolated = Some (Inr opts)"
    by (auto simp: parse_options_def attempt_Inr split: list.splits if_splits)
  then obtain budget service ctx timeout message scid max_sessions seed key source destination bind peer ready where
    mode: "\<not> (mode = Serve \<and> (slots ''--peer'' \<noteq> None \<or> slots ''--message-hex'' \<noteq> None \<or> slots ''--scid'' \<noteq> None)
         \<or> mode = Connect \<and> (slots ''--max-sessions'' \<noteq> None \<or> slots ''--peer'' = None
              \<or> slots ''--message-hex'' = None))"
    and ranges: "48 \<le> unwrap_or SESSION_DEFAULT_BUDGET budget \<and> unwrap_or SESSION_DEFAULT_BUDGET budget \<le> 1252"
      "\<not> (service = 0 \<or> ctx = 0)" "unwrap_or (5 :: u64) timeout \<noteq> 0" "message \<noteq> Some []" "scid \<noteq> Some 0"
      "\<not> (unwrap_or 1 max_sessions = 0 \<or> 1024 < unwrap_or 1 max_sessions)"
    and opt: "optional hex (slots ''--message-hex'') = Some (Inr message)"
      "optional (parsed u64_from_str) (slots ''--scid'') = Some (Inr scid)"
      "optional (parsed (at_socket T)) (slots ''--peer'') = Some (Inr peer)"
    and req: "required (fixed 32) (slots ''--local-seed-hex'') = Some (Inr seed)"
      "required (fixed 32) (slots ''--peer-public-key-hex'') = Some (Inr key)"
      "required (\<lambda>s. Some (loc T s)) (slots ''--address'') = Some (Inr source)"
      "required (\<lambda>s. Some (loc T s)) (slots ''--peer-address'') = Some (Inr destination)"
      "required (parsed (at_socket T)) (slots ''--bind'') = Some (Inr bind)"
    and opts: "opts =
        \<lparr>op_mode = mode, op_local_seed = seed, op_peer_key = key, op_service = service,
         op_server_context = ctx, op_source = source, op_destination = destination,
         op_bind = bind, op_peer = peer, op_budget = unwrap_or SESSION_DEFAULT_BUDGET budget,
         op_timeout = unat (unwrap_or 5 timeout) * 1000000000,
         op_max_sessions = unwrap_or 1 max_sessions, op_message = message, op_scid = scid,
         op_ready_fd = ready, op_isolated = isolated\<rparr>"
    by (rule build_options_Inr)
  have l: "loc T s = Inr x \<Longrightarrow> length x = 16" for s x
    using assms(1) by (auto simp: loc_def parse_loc_def ok_or_Inr addr_text_ok_def)
  have a: "number (at_socket T) s = Inr x \<Longrightarrow> wf_ip (sa_ip x)" for s x
    using assms(1) by (auto simp: number_def ok_or_Inr addr_text_ok_def)
  have f: "fixed n s = Some (Inr x) \<Longrightarrow> length x = n" for n s x
    by (auto simp: fixed_def attempt_Inr split: if_splits)
  have "length seed = 32" "length key = 32" "length source = 16" "length destination = 16" "wf_ip (sa_ip bind)"
    using req by (auto simp: required_Inr dest: l a f)
  moreover have "\<forall>x. peer = Some x \<longrightarrow> wf_ip (sa_ip x)" using opt(3) by (auto simp: optional_Inr dest: a)
  moreover have "mode = Connect \<longrightarrow> peer \<noteq> None \<and> (\<exists>b bs. message = Some (b # bs))"
    using mode opt(1,3) ranges(4) by (auto simp: optional_Inr neq_Nil_conv)
  moreover have "mode = Serve \<longrightarrow> peer = None \<and> message = None \<and> scid = None"
    using mode opt by (auto simp: optional_Inr)
  ultimately show ?thesis using ranges by (simp add: opts unat_gt_0)
qed

section \<open>Hexadecimal texts\<close>

definition hex_text :: "bytes \<Rightarrow> string" where
  "hex_text bs = concat (map (\<lambda>b. hex_field False 2 (unat b)) bs)"

lemma hex_digit_ascii: "d < 16 \<Longrightarrow> \<not> utf8_cont (hex_digit u d)"
  using of_char_hex_digit [of d u] by (auto simp: utf8_cont_def in_range_def split: if_splits)

lemma hex_field_2: "hex_field u 2 v = [hex_digit u (v div 16 mod 16), hex_digit u (v mod 16)]"
  by (simp add: numeral_2_eq_2)

lemma hex_pairs_text: "hex_pairs (hex_text bs) = Some (Inr bs)"
proof (induction bs)
  case (Cons b bs)
  let ?v = "unat b"
  have "from_str_radix 8 16 (hex_field False 2 ?v) = Some ?v"
    using from_str_radix_hex [of ?v 2 8 False] u8_lt [of b] by simp
  moreover have "\<not> (case hex_text bs of [] \<Rightarrow> False | c # _ \<Rightarrow> utf8_cont c)"
    by (cases bs) (simp_all add: hex_text_def hex_field_2 hex_digit_ascii)
  ultimately show ?case
    using Cons.IH by (simp add: hex_text_def hex_field_2 hex_digit_ascii)
qed (simp add: hex_text_def)

lemma even_length_hex_text: "even (length (hex_text bs))"
  by (induction bs) (simp_all add: hex_text_def)

text \<open>
  Every byte string, written as lower-case hexadecimal digits, is read back by \<open>hex\<close> as
  itself, and \<open>fixed\<close> accepts it exactly when it has the required size.
\<close>

theorem hex_roundtrip:
  "hex (hex_text bs) = Some (Inr bs)
   \<and> fixed n (hex_text bs) = Some (if length bs = n then Inr bs else Inl ConfigError)"
  by (simp add: fixed_def hex_def even_length_hex_text hex_pairs_text)

text \<open>
  A defect of \<open>hex\<close>. It is meant to be strict (its test is called \<open>strict_hex_and_underlay\<close>),
  but \<open>u8::from_str_radix\<close> takes a plus sign, so every pair \<open>+d\<close> is read as the digit \<open>d\<close>; and
  a text of even length with a two-byte character at an odd offset does not give an error but
  panics in the slice.
\<close>

theorem hex_not_strict:
  "hex [CHR ''+'', CHR ''f''] = Some (Inr [15])
   \<and> hex [CHR ''a'', CHR 0xC3, CHR 0xA9, CHR ''b''] = None
   \<and> utf8_valid [CHR ''a'', CHR 0xC3, CHR 0xA9, CHR ''b'']"
  by (simp add: hex_def from_str_radix_def to_digit_def ascii_simps utf8_cont_def in_range_def)

definition sample_text :: addr_text where
  "sample_text = \<lparr>at_ipv6 = (\<lambda>s. Some (replicate 16 (of_nat (length s)))),
     at_socket = (\<lambda>_. Some \<lparr>sa_ip = IpV4 [127, 0, 0, 1], sa_port = 9, sa_flowinfo = 0, sa_scope_id = 0\<rparr>)\<rparr>"

definition sample_session_args :: "string list" where
  "sample_session_args = [''r8session'', ''connect'', ''--local-seed-hex'', hex_text (replicate 32 7),
     ''--peer-public-key-hex'', hex_text (replicate 32 8), ''--service-context'', ''1'',
     ''--server-context-id'', ''2'', ''--address'', ''::1'', ''--peer-address'', ''fd::2'',
     ''--bind'', ''127.0.0.1:9'', ''--peer'', ''127.0.0.1:9'', ''--message-hex'', hex_text [1, 2]]"

lemma hex_text_plain: "bs \<noteq> [] \<Longrightarrow> \<not> prefix ''--'' (hex_text bs)"
proof
  assume "bs \<noteq> []" "prefix ''--'' (hex_text bs)"
  then have "hex_digit False (unat (hd bs) div 16 mod 16) = CHR ''-''"
    by (cases bs) (simp_all add: hex_text_def hex_field_2)
  then have "(of_char (hex_digit False (unat (hd bs) div 16 mod 16)) :: nat) = 45" by simp
  then show False using of_char_hex_digit [of "unat (hd bs) div 16 mod 16" False] by (auto split: if_splits)
qed

theorem options_wellformed_witness:
  "\<exists>opts. parse_options sample_text sample_session_args = Some (Inr opts)
     \<and> op_message opts = Some [1, 2] \<and> length (op_source opts) = 16 \<and> op_budget opts \<le> 1252"
proof -
  have h: "hex (hex_text bs) = Some (Inr bs)" for bs
    by (simp add: hex_def even_length_hex_text hex_pairs_text)
  have "\<exists>opts. parse_options sample_text sample_session_args = Some (Inr opts) \<and> op_message opts = Some [1, 2]"
    by (simp add: parse_options_def sample_session_args_def value_flags_def hex_text_plain
        build_options_def Let_def optional_def required_def unwrap_or_def number_def fixed_def h
        u32_from_str_def from_str_radix_def to_digit_def ascii_simps loc_def parse_loc_def sample_text_def
        SESSION_DEFAULT_BUDGET_def)
  moreover have "addr_text_ok sample_text" by (auto simp: addr_text_ok_def sample_text_def)
  ultimately show ?thesis using options_wellformed by blast
qed

end
