(* ===== verification/Session_Main.thy ===== *)
theory Session_Main
  imports Session_Options Handshake_Run
begin

text \<open>
  The executable \<open>r8session\<close> (\<open>src/rust/crates/r8-session/src/main.rs\<close>): the client's exchange with
  its retries and the server's loop around the handshake machines of \<open>Client_Machine\<close> and
  \<open>Server_Machine\<close>. An action takes a machine, the process-wide owner counter and the kernel
  state; \<open>None\<close> is a panic or a loop that does not end.
\<close>

section \<open>Actions\<close>

datatype CliError = Session SessionError | Io

type_synonym ('m, 'k) world = "'m \<times> u64 \<times> 'k"
type_synonym ('m, 'k, 'a) action = "(CliError, ('m, 'k) world, 'a) act"

text \<open>A call on the kernel, a step of the machine, and one that also numbers a session.\<close>

definition on_kernel :: "('k \<Rightarrow> (CliError + 'a) \<times> 'k) \<Rightarrow> ('m, 'k, 'a) action" where
  "on_kernel f = (\<lambda>(m, n, k). case f k of (r, k) \<Rightarrow> Some (r, (m, n, k)))"

definition on_machine :: "('m \<Rightarrow> (SessionError + 'a) \<times> 'm) \<Rightarrow> ('m, 'k, 'a) action" where
  "on_machine f = (\<lambda>(m, n, k). case f m of (r, m) \<Rightarrow> Some (map_err Session r, (m, n, k)))"

section \<open>The socket\<close>

definition RECV_EXTRA :: nat where "RECV_EXTRA = 1"

text \<open>In nanoseconds.\<close>

definition RETRIES :: "nat list" where
  "RETRIES = [500000000, 1000000000, 2000000000]"

definition configure_df :: "'k udp_kernel \<Rightarrow> int \<Rightarrow> 'k \<Rightarrow> (CliError + unit) \<times> 'k" where
  "configure_df K fd =
     io_call (uk_setsockopt K fd 0 10 2) (\<lambda>(result, _). io_ret (if result \<noteq> 0 then Inl Io else Inr ()))"

definition random :: "'k udp_kernel \<Rightarrow> nat \<Rightarrow> 'k \<Rightarrow> (CliError + bytes) \<times> 'k" where
  "random K n = io_call (uk_getrandom K n) (\<lambda>r. io_ret (ok_or (Session RngFailure) r))"

partial_function (option) random_scid :: "'k udp_kernel \<Rightarrow> 'k \<Rightarrow> ((CliError + u64) \<times> 'k) option" where
  "random_scid K k =
     (case random K 8 k of (r, k) \<Rightarrow>
       (case r of
          Inl e \<Rightarrow> Some (Inl e, k)
        | Inr bs \<Rightarrow>
          if u64_from_be_bytes bs \<noteq> 0 then Some (Inr (u64_from_be_bytes bs), k) else random_scid K k))"

fun canonical_endpoint :: "SocketAddr \<Rightarrow> bytes" where
  "canonical_endpoint endpoint =
     (case sa_ip endpoint of IpV4 a \<Rightarrow> 4 # a | IpV6 a \<Rightarrow> 6 # a) @ u16_to_be_bytes (sa_port endpoint)"

definition endpoint_binding :: "SocketAddr \<Rightarrow> bytes \<Rightarrow> SessionError + UdpBinding" where
  "endpoint_binding endpoint selector =
     (case sa_ip endpoint of
        IpV4 a \<Rightarrow> UdpBinding_ipv4 a (sa_port endpoint) 1 selector
      | IpV6 a \<Rightarrow> UdpBinding_ipv6 a (sa_port endpoint) 1 selector)"

definition opaque_source :: "crypto \<Rightarrow> SocketAddr \<Rightarrow> bytes \<Rightarrow> bytes" where
  "opaque_source c endpoint key = hmac_sha256 c key (canonical_endpoint endpoint)"

definition machine_config :: "identity \<Rightarrow> identity \<Rightarrow> options \<Rightarrow> handshake_config" where
  "machine_config local_id peer_id opts =
     \<lparr>hc_local = local_id, hc_peer = peer_id, hc_profile = 0, hc_source = op_source opts,
      hc_destination = op_destination opts, hc_budget = op_budget opts, hc_pending_limit = 256,
      hc_established_limit = 1024, hc_server_context_id = op_server_context opts\<rparr>"

definition ready :: "'k udp_kernel \<Rightarrow> int option \<Rightarrow> 'k \<Rightarrow> (CliError + unit) \<times> 'k" where
  "ready K fd =
     (case fd of
        None \<Rightarrow> io_ret (Inr ())
      | Some fd \<Rightarrow>
        io_call (uk_clock_gettime K) (\<lambda>(result, sec, nsec).
          if result \<noteq> 0 then io_ret (Inl Io)
          else
            let value = u64_to_be_bytes
              (saturating_add (saturating_mul (of_int sec) 1000000000) (of_int nsec)) in
            io_call (uk_write K fd value) (\<lambda>written.
              io_ret (if written \<noteq> int (length value) then Inl Io else Inr ()))))"

definition send_error :: "io_error \<Rightarrow> CliError" where
  "send_error error = (if raw_os_error error = Some EMSGSIZE then Session Budget else Io)"

definition send :: "'k udp_kernel \<Rightarrow> int \<Rightarrow> bytes \<Rightarrow> SocketAddr \<Rightarrow> 'k \<Rightarrow> (CliError + unit) \<times> 'k" where
  "send K fd packet peer =
     io_call (uk_send_to K fd packet peer) (\<lambda>r. io_ret
       (case r of
          Inr written \<Rightarrow> if written = length packet then Inr () else Inl Io
        | Inl error \<Rightarrow> Inl (send_error error)))"

definition cli_receive_error :: "io_error \<Rightarrow> CliError" where
  "cli_receive_error error =
     (if error_kind error = TimedOut \<or> error_kind error = WouldBlock then Session Timeout else Io)"

definition receive :: "'k udp_kernel \<Rightarrow> int \<Rightarrow> nat \<Rightarrow> nat \<Rightarrow> 'k \<Rightarrow> (CliError + bytes \<times> SocketAddr) \<times> 'k" where
  "receive K fd timeout budget =
     io_then (lift_err (\<lambda>_. Io) (set_read_timeout K fd timeout)) (\<lambda>_.
     io_then (io_ret (ok_or (Session Budget) (usize_checked_add budget RECV_EXTRA))) (\<lambda>size.
     io_call (uk_recv_from K fd size) (\<lambda>r. io_ret
       (case r of
          Inr (data, peer) \<Rightarrow> if length data \<le> budget then Inr (data, peer) else Inl (Session Budget)
        | Inl error \<Rightarrow> Inl (cli_receive_error error)))))"

text \<open>Milliseconds since \<open>start\<close>, cut to 64 bits.\<close>

definition elapsed_ms :: "'k udp_kernel \<Rightarrow> nat \<Rightarrow> 'k \<Rightarrow> u64 \<times> 'k" where
  "elapsed_ms K start k = (case uk_now K k of (now, k) \<Rightarrow> (of_nat ((now - start) div 1000000), k))"

section \<open>The client\<close>

fun retry_loop ::
    "'k udp_kernel \<Rightarrow> int \<Rightarrow> SocketAddr \<Rightarrow> bytes \<Rightarrow> nat \<Rightarrow> (bytes \<Rightarrow> ('m, 'k, 'a) action) \<Rightarrow> nat list \<Rightarrow>
      ('m, 'k, 'a) action" where
  "retry_loop K fd peer packet budget receive_packet [] w = Some (Inl (Session Timeout), w)"
| "retry_loop K fd peer packet budget receive_packet (timeout # rest) w =
     (case on_kernel (receive K fd timeout budget) w of
        None \<Rightarrow> None
      | Some (Inr (response, source), w) \<Rightarrow>
          if source = peer then
            (case receive_packet response w of
               None \<Rightarrow> None
             | Some (Inr value, w) \<Rightarrow> Some (Inr value, w)
             | Some (Inl _, w) \<Rightarrow>
                 act_then (on_kernel (send K fd packet peer)) (\<lambda>_.
                   retry_loop K fd peer packet budget receive_packet rest) w)
          else retry_loop K fd peer packet budget receive_packet rest w
      | Some (Inl e, w) \<Rightarrow>
          if e = Session Timeout then
            act_then (on_kernel (send K fd packet peer)) (\<lambda>_.
              retry_loop K fd peer packet budget receive_packet rest) w
          else Some (Inl e, w))"

definition receive_retry ::
    "'k udp_kernel \<Rightarrow> int \<Rightarrow> SocketAddr \<Rightarrow> bytes \<Rightarrow> nat \<Rightarrow> (bytes \<Rightarrow> ('m, 'k, 'a) action) \<Rightarrow> ('m, 'k, 'a) action"
  where
  "receive_retry K fd peer packet budget receive_packet =
     retry_loop K fd peer packet budget receive_packet RETRIES"

text \<open>The closures \<open>connect\<close> passes: each reads the clock first where the machine asks for the time.\<close>

definition take_verify :: "crypto \<Rightarrow> 'k udp_kernel \<Rightarrow> nat \<Rightarrow> bytes \<Rightarrow> (client_machine, 'k, bytes) action" where
  "take_verify c K start packet = (\<lambda>(m, n, k).
     case elapsed_ms K start k of (now, k) \<Rightarrow>
       on_machine (\<lambda>m. ClientMachine_receive_verify c m packet now) (m, n, k))"

definition take_ack :: "crypto \<Rightarrow> 'k udp_kernel \<Rightarrow> nat \<Rightarrow> bytes \<Rightarrow> (client_machine, 'k, bytes) action" where
  "take_ack c K start packet = (\<lambda>(m, n, k).
     case elapsed_ms K start k of (now, k) \<Rightarrow>
       (case ClientMachine_receive_ack c m packet now n of
          None \<Rightarrow> None
        | Some (r, m, n) \<Rightarrow> Some (map_err Session r, (m, n, k))))"

definition take_echo :: "crypto \<Rightarrow> bytes \<Rightarrow> (client_machine, 'k, unit) action" where
  "take_echo c packet = on_machine (\<lambda>m.
     case ClientMachine_receive_data c m packet of (r, m) \<Rightarrow> (and_then r (\<lambda>_. Inr ()), m))"

text \<open>The exchange, once the socket and the machine are there. \<open>random_scid\<close> runs in any case.\<close>

definition connect_exchange ::
    "crypto \<Rightarrow> 'k udp_kernel \<Rightarrow> options \<Rightarrow> int \<Rightarrow> SocketAddr \<Rightarrow> nat \<Rightarrow> (client_machine, 'k, unit) action" where
  "connect_exchange c K opts fd peer start =
     act_then (\<lambda>(m, n, k). map_option (\<lambda>(r, k). (r, (m, n, k))) (random_scid K k)) (\<lambda>drawn.
     act_then (on_kernel (random K 32)) (\<lambda>ephemeral_secret.
     act_then (on_kernel (random K 32)) (\<lambda>nonce.
     act_then (on_machine (\<lambda>m. ClientMachine_start c m (unwrap_or drawn (op_scid opts))
       \<lparr>cm_ephemeral_secret = ephemeral_secret, cm_nonce = nonce\<rparr> 0)) (\<lambda>opening.
     act_then (on_kernel (send K fd opening peer)) (\<lambda>_.
     act_then (receive_retry K fd peer opening (op_budget opts) (take_verify c K start)) (\<lambda>auth.
     act_then (on_kernel (send K fd auth peer)) (\<lambda>_.
     act_then (receive_retry K fd peer auth (op_budget opts) (take_ack c K start)) (\<lambda>accept.
     act_then (on_kernel (send K fd accept peer)) (\<lambda>_.
     act_then (on_kernel (ready K (op_ready_fd opts))) (\<lambda>_.
     act_then (act_ret (ok_or (Session ConfigError) (op_message opts))) (\<lambda>message.
     act_then (on_machine (\<lambda>m. ClientMachine_send_data c m message)) (\<lambda>data.
     act_then (on_kernel (send K fd data peer)) (\<lambda>_.
     act_then (receive_retry K fd peer data (op_budget opts) (take_echo c)) (\<lambda>_.
     act_then (on_machine (\<lambda>m. ClientMachine_close c m 0)) (\<lambda>close.
     on_kernel (send K fd close peer))))))))))))))))"

definition connect_start ::
    "crypto \<Rightarrow> 'k udp_kernel \<Rightarrow> options \<Rightarrow> 'k \<Rightarrow> (CliError + int \<times> SocketAddr \<times> client_machine \<times> nat) \<times> 'k" where
  "connect_start c K opts =
     io_then (lift_err (\<lambda>_. Io) (uk_bind K (op_bind opts))) (\<lambda>fd.
     io_then (configure_df K fd) (\<lambda>_.
     io_then (io_ret (ok_or (Session ConfigError) (op_peer opts))) (\<lambda>peer.
     if \<not> allowed_underlay peer (op_isolated opts) \<or> \<not> allowed_underlay (op_bind opts) (op_isolated opts)
     then io_ret (Inl (Session ConfigError))
     else
       let signing = op_local_seed opts in
       io_then (io_ret (map_err Session
         (Identity_from_public_key c 1 (op_service opts) (ed_verifying_key c signing)))) (\<lambda>local_id.
       io_then (io_ret (map_err Session
         (Identity_from_public_key c 2 (op_service opts) (op_peer_key opts)))) (\<lambda>peer_id.
       io_then (io_ret (map_err Session
         (ClientMachine_new c (machine_config local_id peer_id opts) signing))) (\<lambda>client.
       io_call (uk_now K) (\<lambda>start. io_ret (Inr (fd, peer, client, start)))))))))"

definition connect :: "crypto \<Rightarrow> 'k udp_kernel \<Rightarrow> options \<Rightarrow> u64 \<Rightarrow> 'k \<Rightarrow> ((CliError + unit) \<times> u64 \<times> 'k) option" where
  "connect c K opts n k =
     (case connect_start c K opts k of
        (Inl e, k) \<Rightarrow> Some (Inl e, n, k)
      | (Inr (fd, peer, client, start), k) \<Rightarrow>
        map_option (\<lambda>(r, (_, n, k)). (r, n, k)) (connect_exchange c K opts fd peer start (client, n, k)))"

section \<open>The server\<close>

type_synonym peer_bindings = "u64 \<rightharpoonup> SocketAddr \<times> UdpBinding"

record serve_state =
  ss_server :: server_machine
  ss_bindings :: peer_bindings
  ss_limiter :: limiter
  ss_successes :: nat
  ss_last_rotation :: u64
  ss_ready_sent :: bool

definition peer_matches :: "peer_bindings \<Rightarrow> u64 \<Rightarrow> SocketAddr \<Rightarrow> UdpBinding \<Rightarrow> bool" where
  "peer_matches bindings scid endpoint binding \<longleftrightarrow> bindings scid = Some (endpoint, binding)"

definition retain_live_peer_bindings :: "peer_bindings \<Rightarrow> (u64 \<Rightarrow> bool) \<Rightarrow> peer_bindings" where
  "retain_live_peer_bindings bindings is_live = (\<lambda>scid. if is_live scid then bindings scid else None)"

text \<open>What the big \<open>match\<close> does: \<open>continue\<close>, or go on with a response to send or none.\<close>

datatype pass = Skip | Respond "bytes option"

definition ok :: "'e + 'a \<Rightarrow> 'a option" where
  "ok r = (case r of Inl _ \<Rightarrow> None | Inr x \<Rightarrow> Some x)"

definition serve_open ::
    "crypto \<Rightarrow> bytes \<Rightarrow> bytes \<Rightarrow> SocketAddr \<Rightarrow> UdpBinding \<Rightarrow> u64 \<Rightarrow> (serve_state, 'k, pass) action" where
  "serve_open c source_key packet endpoint binding now = (\<lambda>(st, n, k).
     case ServerMachine_receive_open_limited c (ss_server st) packet (Udp binding)
       (opaque_source c endpoint source_key) now (now div 10000) (ss_limiter st) of
       (r, l) \<Rightarrow> Some (Inr (Respond (ok r)), (st\<lparr>ss_limiter := l\<rparr>, n, k)))"

definition serve_open_auth ::
    "crypto \<Rightarrow> 'k udp_kernel \<Rightarrow> bytes \<Rightarrow> SocketAddr \<Rightarrow> UdpBinding \<Rightarrow> u64 \<Rightarrow> u64 \<Rightarrow> (serve_state, 'k, pass) action" where
  "serve_open_auth c K packet endpoint binding now scid =
     act_then (on_kernel (random K 32)) (\<lambda>ephemeral_secret.
     act_then (on_kernel (random K 32)) (\<lambda>nonce (st, n, k).
     case ServerMachine_receive_open_auth c (ss_server st) packet (Udp binding) now (now div 10000)
       (Some \<lparr>shm_ephemeral_secret = ephemeral_secret, shm_nonce = nonce\<rparr>) n of
       None \<Rightarrow> None
     | Some (Inl _, sv, n) \<Rightarrow> Some (Inr (Respond None), (st\<lparr>ss_server := sv\<rparr>, n, k))
     | Some (Inr response, sv, n) \<Rightarrow>
         Some (Inr (Respond (Some response)),
           (st\<lparr>ss_server := sv, ss_bindings := (ss_bindings st)(scid \<mapsto> (endpoint, binding))\<rparr>, n, k))))"

definition serve_accept ::
    "crypto \<Rightarrow> 'k udp_kernel \<Rightarrow> options \<Rightarrow> bytes \<Rightarrow> SocketAddr \<Rightarrow> UdpBinding \<Rightarrow> u64 \<Rightarrow> u64 \<Rightarrow>
      (serve_state, 'k, pass) action" where
  "serve_accept c K opts packet endpoint binding now scid = (\<lambda>(st, n, k).
     if \<not> peer_matches (ss_bindings st) scid endpoint binding then Some (Inr Skip, (st, n, k))
     else case ServerMachine_receive_accept c (ss_server st) packet now of (r, sv) \<Rightarrow>
       let st = st\<lparr>ss_server := sv\<rparr> in
       if \<not> is_ok r then Some (Inr Skip, (st, n, k))
       else if ss_ready_sent st then Some (Inr (Respond None), (st, n, k))
       else act_then (on_kernel (ready K (op_ready_fd opts))) (\<lambda>_ (st, n, k).
         Some (Inr (Respond None), (st\<lparr>ss_ready_sent := True\<rparr>, n, k))) (st, n, k))"

definition serve_data ::
    "crypto \<Rightarrow> bytes \<Rightarrow> SocketAddr \<Rightarrow> UdpBinding \<Rightarrow> u64 \<Rightarrow> u64 \<Rightarrow> (serve_state, 'k, pass) action" where
  "serve_data c packet endpoint binding now scid = (\<lambda>(st, n, k).
     if \<not> peer_matches (ss_bindings st) scid endpoint binding then Some (Inr Skip, (st, n, k))
     else case ServerMachine_receive_data c (ss_server st) packet now of
       (Inl _, sv) \<Rightarrow> Some (Inr (Respond None), (st\<lparr>ss_server := sv\<rparr>, n, k))
     | (Inr plaintext, sv) \<Rightarrow>
         (case ServerMachine_send_data c sv scid plaintext of (r, sv) \<Rightarrow>
            Some (Inr (Respond (ok r)), (st\<lparr>ss_server := sv\<rparr>, n, k))))"

definition serve_close ::
    "crypto \<Rightarrow> bytes \<Rightarrow> SocketAddr \<Rightarrow> UdpBinding \<Rightarrow> u64 \<Rightarrow> u64 \<Rightarrow> (serve_state, 'k, pass) action" where
  "serve_close c packet endpoint binding now scid = (\<lambda>(st, n, k).
     if \<not> peer_matches (ss_bindings st) scid endpoint binding then Some (Inr Skip, (st, n, k))
     else case ServerMachine_receive_close c (ss_server st) packet now of (r, sv) \<Rightarrow>
       let st = st\<lparr>ss_server := sv\<rparr> in
       Some (Inr (Respond None),
         (if is_ok r
          then st\<lparr>ss_bindings := (ss_bindings st)(scid := None), ss_successes := ss_successes st + 1\<rparr>
          else st, n, k)))"

definition serve_packet ::
    "crypto \<Rightarrow> 'k udp_kernel \<Rightarrow> options \<Rightarrow> bytes \<Rightarrow> bytes \<Rightarrow> SocketAddr \<Rightarrow> UdpBinding \<Rightarrow> u64 \<Rightarrow>
      (serve_state, 'k, pass) action" where
  "serve_packet c K opts source_key packet endpoint binding now =
     (case unpack_with_budget packet (op_budget opts) of
        Inl _ \<Rightarrow> act_ret (Inr (Respond None))
      | Inr (h, payload) \<Rightarrow>
        (case payload of
           [] \<Rightarrow> act_ret (Inr (Respond None))
         | typ # _ \<Rightarrow>
           if typ = OPEN then serve_open c source_key packet endpoint binding now
           else if typ = OPEN_AUTH then serve_open_auth c K packet endpoint binding now (h_scid h)
           else if typ = SESSION_ACCEPT then serve_accept c K opts packet endpoint binding now (h_scid h)
           else if typ = SESSION_DATA then serve_data c packet endpoint binding now (h_scid h)
           else if typ = CLOSE then serve_close c packet endpoint binding now (h_scid h)
           else act_ret (Inr (Respond None))))"

definition rotate_cookie :: "'k udp_kernel \<Rightarrow> u64 \<Rightarrow> (serve_state, 'k, unit) action" where
  "rotate_cookie K now = (\<lambda>(st, n, k).
     if saturating_sub now (ss_last_rotation st) \<ge> 600000 then
       act_then (on_kernel (random K 32)) (\<lambda>new_key (st, n, k).
         Some (Inr (), (st\<lparr>ss_server := ServerMachine_rotate_cookie_key (ss_server st) new_key now,
           ss_last_rotation := now\<rparr>, n, k))) (st, n, k)
     else Some (Inr (), (st, n, k)))"

definition housekeeping :: "u64 \<Rightarrow> serve_state \<Rightarrow> serve_state" where
  "housekeeping now st =
     (let sv = ServerMachine_expire (ss_server st) now in
      st\<lparr>ss_server := sv,
         ss_bindings := retain_live_peer_bindings (ss_bindings st) (ServerMachine_is_live sv)\<rparr>)"

text \<open>A datagram that arrived, to the end of the pass.\<close>

definition serve_datagram ::
    "crypto \<Rightarrow> 'k udp_kernel \<Rightarrow> options \<Rightarrow> int \<Rightarrow> bytes \<Rightarrow> bytes \<Rightarrow> nat \<Rightarrow> bytes \<Rightarrow> SocketAddr \<Rightarrow>
      (serve_state, 'k, unit) action" where
  "serve_datagram c K opts fd selector source_key started packet endpoint =
     (if \<not> allowed_underlay endpoint (op_isolated opts) then act_ret (Inr ())
      else case endpoint_binding endpoint selector of
        Inl _ \<Rightarrow> act_ret (Inr ())
      | Inr binding \<Rightarrow>
        act_then (\<lambda>(st, n, k). case elapsed_ms K started k of (now, k) \<Rightarrow> Some (Inr now, (st, n, k))) (\<lambda>now.
        act_then (rotate_cookie K now) (\<lambda>_.
        act_then (serve_packet c K opts source_key packet endpoint binding now) (\<lambda>p.
          (case p of
             Skip \<Rightarrow> act_ret (Inr ())
           | Respond response \<Rightarrow>
               act_then (case response of
                   None \<Rightarrow> act_ret (Inr ())
                 | Some response \<Rightarrow> on_kernel (send K fd response endpoint)) (\<lambda>_ (st, n, k).
                 Some (Inr (), (housekeeping now st, n, k))))))))"

text \<open>One pass of the loop: \<open>False\<close> is its \<open>break\<close>.\<close>

definition serve_pass ::
    "crypto \<Rightarrow> 'k udp_kernel \<Rightarrow> options \<Rightarrow> int \<Rightarrow> bytes \<Rightarrow> bytes \<Rightarrow> nat \<Rightarrow> (serve_state, 'k, bool) action" where
  "serve_pass c K opts fd selector source_key started w =
     (case on_kernel (receive K fd (op_timeout opts) (op_budget opts)) w of
        None \<Rightarrow> None
      | Some (Inl e, w) \<Rightarrow> Some (if e = Session Timeout then Inr False else Inl e, w)
      | Some (Inr (packet, endpoint), w) \<Rightarrow>
          act_then (serve_datagram c K opts fd selector source_key started packet endpoint)
            (\<lambda>_. act_ret (Inr True)) w)"

text \<open>At most \<open>passes\<close> passes; \<open>None\<close> as the result is a server that is still running after them.\<close>

fun serve_loop ::
    "crypto \<Rightarrow> 'k udp_kernel \<Rightarrow> options \<Rightarrow> int \<Rightarrow> bytes \<Rightarrow> bytes \<Rightarrow> nat \<Rightarrow> nat \<Rightarrow>
      (serve_state, 'k, unit option) action" where
  "serve_loop c K opts fd selector source_key started passes w =
     (case w of (st, n, k) \<Rightarrow>
       if \<not> ss_successes st < op_max_sessions opts then
         Some (if ss_successes st = op_max_sessions opts then Inr (Some ()) else Inl (Session Timeout), w)
       else (case passes of
          0 \<Rightarrow> Some (Inr None, w)
        | Suc passes \<Rightarrow>
            act_then (serve_pass c K opts fd selector source_key started) (\<lambda>more.
              if more then serve_loop c K opts fd selector source_key started passes
              else (\<lambda>(st, n, k).
                Some (if ss_successes st = op_max_sessions opts then Inr (Some ()) else Inl (Session Timeout),
                  (st, n, k)))) w))"

declare serve_loop.simps [simp del]

definition serve_config :: "identity \<Rightarrow> identity \<Rightarrow> options \<Rightarrow> handshake_config" where
  "serve_config local_id peer_id opts =
     \<lparr>hc_local = local_id, hc_peer = peer_id, hc_profile = 0, hc_source = op_destination opts,
      hc_destination = op_source opts, hc_budget = op_budget opts, hc_pending_limit = 256,
      hc_established_limit = 1024, hc_server_context_id = op_server_context opts\<rparr>"

definition serve_start ::
    "crypto \<Rightarrow> 'k udp_kernel \<Rightarrow> options \<Rightarrow> 'k \<Rightarrow>
      (CliError + int \<times> bytes \<times> bytes \<times> nat \<times> serve_state) \<times> 'k" where
  "serve_start c K opts =
     io_then (lift_err (\<lambda>_. Io) (uk_bind K (op_bind opts))) (\<lambda>fd.
     io_then (configure_df K fd) (\<lambda>_.
     if \<not> allowed_underlay (op_bind opts) (op_isolated opts) then io_ret (Inl (Session ConfigError))
     else
       let signing = op_local_seed opts in
       io_then (io_ret (map_err Session
         (Identity_from_public_key c 2 (op_service opts) (ed_verifying_key c signing)))) (\<lambda>local_id.
       io_then (io_ret (map_err Session
         (Identity_from_public_key c 1 (op_service opts) (op_peer_key opts)))) (\<lambda>peer_id.
       io_then (random K 16) (\<lambda>boot.
       io_then (random K 32) (\<lambda>current.
       io_then (random K 32) (\<lambda>previous.
       io_then (io_ret (map_err Session (ServerMachine_new c (serve_config local_id peer_id opts) signing
         \<lparr>svm_boot_instance = boot, svm_current_cookie_key = current, svm_previous_cookie_key = previous,
          svm_previous_key_rotated_ms = 0\<rparr>))) (\<lambda>server.
       io_then (random K 16) (\<lambda>selector.
       io_then (random K 32) (\<lambda>source_key.
       io_call (uk_now K) (\<lambda>started.
       io_ret (Inr (fd, selector, source_key, started,
         \<lparr>ss_server = server, ss_bindings = Map.empty, ss_limiter = PrevalidationLimiter_new,
          ss_successes = 0, ss_last_rotation = 0, ss_ready_sent = False\<rparr>)))))))))))))"

definition session_serve ::
    "crypto \<Rightarrow> 'k udp_kernel \<Rightarrow> options \<Rightarrow> nat \<Rightarrow> u64 \<Rightarrow> 'k \<Rightarrow> ((CliError + unit option) \<times> u64 \<times> 'k) option" where
  "session_serve c K opts passes n k =
     (case serve_start c K opts k of
        (Inl e, k) \<Rightarrow> Some (Inl e, n, k)
      | (Inr (fd, selector, source_key, started, st), k) \<Rightarrow>
        map_option (\<lambda>(r, (_, n, k)). (r, n, k))
          (serve_loop c K opts fd selector source_key started passes (st, n, k)))"

text \<open>\<open>main\<close>: the result that decides the exit code.\<close>

definition r8session ::
    "crypto \<Rightarrow> 'k udp_kernel \<Rightarrow> addr_text \<Rightarrow> nat \<Rightarrow> string list \<Rightarrow> u64 \<Rightarrow> 'k \<Rightarrow>
      ((CliError + unit option) \<times> u64 \<times> 'k) option" where
  "r8session c K T passes args n k =
     (case parse_options T args of
        None \<Rightarrow> None
      | Some (Inl e) \<Rightarrow> Some (Inl (Session e), n, k)
      | Some (Inr opts) \<Rightarrow>
        (case op_mode opts of
           Connect \<Rightarrow>
             map_option (\<lambda>(r, w). (and_then r (\<lambda>_. Inr (Some ())), w)) (connect c K opts n k)
         | Serve \<Rightarrow> session_serve c K opts passes n k))"

end
