(* ===== verification/Session_Serve.thy ===== *)
theory Session_Serve
  imports Session_Main Kernel_Frame
begin

text \<open>
  The server's loop of \<open>r8session\<close>: its invariant over any run and any datagrams, and what follows.
  Every endpoint it talks to is allowed and is the one whose signature opened the session, a
  response is never longer than the datagram it answers, and the tables stay bounded.
\<close>

section \<open>The entries of the server's tables\<close>

text \<open>Connection id, binding, request and cached answer of every entry.\<close>

type_synonym entry = "u64 \<times> ObservedBinding \<times> bytes \<times> bytes"

definition view_pending :: "pending_session \<Rightarrow> entry" where
  "view_pending e = (ps_scid e, ps_binding e, ps_opening e, ps_cached_ack e)"

definition view_established :: "established_session \<Rightarrow> entry" where
  "view_established e = (se_scid e, se_binding e, se_opening e, se_cached_ack e)"

definition entries :: "server_machine \<Rightarrow> entry set" where
  "entries m = view_pending ` set (sv_pending m) \<union> view_established ` set (sv_established m)"

text \<open>An operation that adds no entry and leaves the configuration alone.\<close>

definition shrinks_to :: "server_machine \<Rightarrow> server_machine \<Rightarrow> bool" where
  "shrinks_to m m' \<longleftrightarrow>
     entries m' \<subseteq> entries m \<and> sv_config m' = sv_config m
     \<and> sv_local_loc m' = sv_local_loc m \<and> sv_peer_loc m' = sv_peer_loc m"

lemma shrinks_to_refl: "shrinks_to m m"
  by (simp add: shrinks_to_def)

lemma shrinks_to_trans: "shrinks_to a b \<Longrightarrow> shrinks_to b c \<Longrightarrow> shrinks_to a c"
  by (auto simp: shrinks_to_def)

lemma view_update: "f y = f (xs ! i) \<Longrightarrow> f ` set (xs[i := y]) \<subseteq> f ` set xs"
  by (cases "i < length xs") (use set_update_subset_insert [of xs i y] in \<open>auto simp: list_update_beyond\<close>)

lemma shrinks_to_expire: "shrinks_to m (ServerMachine_expire m now)"
  by (auto simp: shrinks_to_def entries_def ServerMachine_expire_def)

lemma shrinks_to_established:
  assumes "view_established ` set es \<subseteq> view_established ` set (sv_established m)"
  shows "shrinks_to m (m\<lparr>sv_established := es\<rparr>)"
  using assms by (auto simp: shrinks_to_def entries_def)

lemma shrinks_to_entry:
  "view_established y = view_established (sv_established m ! i) \<Longrightarrow>
   shrinks_to m (m\<lparr>sv_established := (sv_established m)[i := y]\<rparr>)"
  by (intro shrinks_to_established view_update)

lemma shrinks_to_removed: "shrinks_to m (m\<lparr>sv_established := remove_at i (sv_established m)\<rparr>)"
  by (rule shrinks_to_established) (rule image_mono [OF set_remove_at])

lemma shrinks_to_rotate: "shrinks_to m (ServerMachine_rotate_cookie_key m key now)"
  by (simp add: shrinks_to_def entries_def ServerMachine_rotate_cookie_key_def)

lemma shrinks_to_accept_pending:
  assumes "i < length (sv_pending m)"
  shows "shrinks_to m (snd (ServerMachine_accept_pending c m i packet now))"
proof -
  have p: "view_pending (sv_pending m ! i) \<in> view_pending ` set (sv_pending m)" using assms by auto
  have u: "shrinks_to m (m\<lparr>sv_pending := (sv_pending m)[i := y]\<rparr>)"
    if "view_pending y = view_pending (sv_pending m ! i)" for y
    using view_update [of view_pending y "sv_pending m" i] that by (auto simp: shrinks_to_def entries_def)
  have "view_pending ` set (remove_at i (sv_pending m)) \<subseteq> view_pending ` set (sv_pending m)"
    by (rule image_mono [OF set_remove_at])
  then have a: "shrinks_to m (m\<lparr>sv_pending := remove_at i (sv_pending m), sv_established := sv_established m @ [y]\<rparr>)"
    if "view_established y = view_pending (sv_pending m ! i)" for y
    using p that by (auto simp: shrinks_to_def entries_def)
  show ?thesis
    by (auto simp: ServerMachine_accept_pending_def Let_def view_pending_def view_established_def
        intro!: shrinks_to_refl u a split: sum.split prod.split)
qed

lemma shrinks_to_accept: "shrinks_to m (snd (ServerMachine_receive_accept c m packet now))"
  by (auto simp: ServerMachine_receive_accept_def Let_def position_Some shrinks_to_expire
      intro: shrinks_to_trans [OF shrinks_to_expire shrinks_to_accept_pending]
      split: sum.split option.split)

lemma shrinks_to_commit: "shrinks_to m (snd (ServerMachine_commit_data m pv now))"
  by (auto simp: ServerMachine_commit_data_def Let_def shrinks_to_expire shrinks_to_refl view_established_def
      intro!: shrinks_to_trans [OF shrinks_to_expire shrinks_to_entry] split: option.split sum.split prod.split)

lemma shrinks_to_data: "shrinks_to m (snd (ServerMachine_receive_data c m packet now))"
proof -
  obtain r m' where p: "ServerMachine_preview_data_with_locs c (ServerMachine_expire m now) packet [] [] now = (r, m')"
    by force
  then have "m' = ServerMachine_expire (ServerMachine_expire m now) now"
    by (simp add: ServerMachine_preview_data_with_locs_def Let_def)
  then have "shrinks_to m m'" using shrinks_to_trans shrinks_to_expire by blast
  with p show ?thesis
    using shrinks_to_trans [OF _ shrinks_to_commit] by (auto simp: ServerMachine_receive_data_def split: sum.split)
qed

lemma shrinks_to_send: "shrinks_to m (snd (ServerMachine_send_data c m scid pt))"
  by (auto simp: ServerMachine_send_data_def ServerMachine_send_data_with_locs_def Let_def shrinks_to_refl
      view_established_def intro!: shrinks_to_removed shrinks_to_entry split: option.split prod.split)

lemma shrinks_to_close: "shrinks_to m (snd (ServerMachine_receive_close c m packet now))"
  by (auto simp: ServerMachine_receive_close_def Let_def shrinks_to_expire view_established_def
      intro!: shrinks_to_trans [OF shrinks_to_expire shrinks_to_entry]
        shrinks_to_trans [OF shrinks_to_expire shrinks_to_removed]
      split: sum.split prod.split)

lemma entries_snoc: "entries (m\<lparr>sv_pending := sv_pending m @ [p]\<rparr>) = insert (view_pending p) (entries m)"
  by (auto simp: entries_def)

text \<open>Only an accepted OPEN_AUTH adds an entry: its own.\<close>

lemma open_auth_adds:
  assumes "ServerMachine_receive_open_auth c m packet binding now bucket hm n = Some (r, m', n')"
    and "unpack_with_budget packet (hc_budget (sv_config m)) = Inr (h, payload)"
  shows "sv_config m' = sv_config m \<and> sv_local_loc m' = sv_local_loc m \<and> sv_peer_loc m' = sv_peer_loc m
    \<and> entries m' \<subseteq> entries m \<union> {(h_scid h, binding, packet, ack) | ack. r = Inr ack}"
proof -
  let ?m = "ServerMachine_expire m now"
  have e: "shrinks_to m ?m" by (rule shrinks_to_expire)
  have h: "h' = h" if "ServerMachine_lookup_open_auth ?m packet binding = Inr (Inr (h', body))" for h' body
    using that assms(2)
    by (auto simp: ServerMachine_lookup_open_auth_def Let_def and_then_Inr split: if_splits option.splits)
  show ?thesis
    using assms(1) e
    by (auto simp: ServerMachine_receive_open_auth_def Let_def shrinks_to_def entries_snoc
        view_pending_def [of "pending_session.make _ _ _ _ _ _ _", unfolded pending_session.make_def]
        dest!: h split: sum.splits option.splits prod.splits)
qed

lemma check_open_auth_length:
  assumes "ServerMachine_check_open_auth c m h body binding now bucket hm = Inr (ack, rest)"
    and "length (hc_source (sv_config m)) = 16" "length (hc_destination (sv_config m)) = 16"
  shows "length ack = 234"
proof -
  from assms(1) obtain scid b where p: "ServerMachine_packet m scid OPEN_ACK 0 0 b = Inr ack"
    by (auto simp: ServerMachine_check_open_auth_def Let_def and_then_Inr split: if_splits)
  note mp = p [unfolded ServerMachine_packet_def]
  have "length b = 182"
    using machine_packet_Inr [OF mp assms(3,2)]
    by (auto simp: validate_body_def exact_body_len_def session_consts split: if_splits)
  with machine_packet_length [OF mp assms(3,2)] show ?thesis by simp
qed

lemma open_auth_length:
  assumes "unpack_with_budget packet b = Inr (h, payload)" "SessionMessage_decode payload p b' = Inr auth"
    and "sm_typ auth = OPEN_AUTH"
  shows "length packet = 282"
proof -
  from assms(2,3) have "length payload = 234"
    by (auto simp: SessionMessage_decode_def Let_def and_then_Inr validate_body_def exact_body_len_def
        session_consts split: if_splits)
  with unpack_length [OF assms(1)] show ?thesis by simp
qed

text \<open>No cached answer is longer than the request it answers.\<close>

definition answers_bounded :: "server_machine \<Rightarrow> bool" where
  "answers_bounded m \<longleftrightarrow> (\<forall>(_, _, opening, ack) \<in> entries m. length ack \<le> length opening)"

lemma answers_bounded_shrink: "answers_bounded m \<Longrightarrow> shrinks_to m m' \<Longrightarrow> answers_bounded m'"
  by (auto simp: answers_bounded_def shrinks_to_def)

lemma answers_bounded_entries:
  "answers_bounded m \<Longrightarrow> x \<in> entries m \<Longrightarrow> length (snd (snd (snd x))) \<le> length (fst (snd (snd x)))"
  by (auto simp: answers_bounded_def)

lemma open_auth_bounded:
  assumes "ServerMachine_receive_open_auth c m packet binding now bucket hm n = Some (Inr ack, m', n')"
    and "length (hc_source (sv_config m)) = 16" "length (hc_destination (sv_config m)) = 16"
    and "answers_bounded m"
  shows "length ack \<le> length packet \<and> answers_bounded m'"
proof -
  let ?m = "ServerMachine_expire m now"
  have b: "answers_bounded ?m" using answers_bounded_shrink [OF assms(4) shrinks_to_expire] .
  from assms(1) obtain h payload auth where
    u: "unpack_with_budget packet (hc_budget (sv_config m')) = Inr (h, payload)"
      "SessionMessage_decode payload (hc_profile (sv_config m')) (hc_budget (sv_config m')) = Inr auth"
      "sm_typ auth = OPEN_AUTH"
    by (rule open_auth_entry)
  note len = open_auth_length [OF u]
  have cfg: "sv_config m' = sv_config m"
    using server_step_config [OF server_step.open_auth [OF assms(1)]] by simp
  obtain r where "ServerMachine_lookup_open_auth ?m packet binding = Inr r"
    using assms(1) by (auto simp: ServerMachine_receive_open_auth_def Let_def split: sum.splits)
  then show ?thesis
  proof (cases r)
    case (Inl a)
    then have "m' = ?m" "a = ack"
      using assms(1) \<open>_ = Inr r\<close>
      by (auto simp: ServerMachine_receive_open_auth_def Let_def split: sum.splits)
    moreover from assms(1) have "\<exists>scid. (scid, binding, packet, ack) \<in> entries m'"
      by (rule open_auth_entry) (fastforce simp: entries_def view_pending_def view_established_def)
    ultimately show ?thesis using answers_bounded_entries [OF b] b by fastforce
  next
    case (Inr hb)
    then obtain h' body rest where "ServerMachine_check_open_auth c ?m h' body binding now bucket hm = Inr (ack, rest)"
      using assms(1) \<open>_ = Inr r\<close>
      by (auto simp: ServerMachine_receive_open_auth_def Let_def split: sum.splits option.splits prod.splits)
    then have "length ack = 234" by (rule check_open_auth_length) (use assms(2,3) in simp_all)
    with len open_auth_adds [OF assms(1), of h payload] u(1) cfg assms(4) show ?thesis
      by (auto simp: answers_bounded_def)
  qed
qed

lemma open_auth_refused:
  assumes "ServerMachine_receive_open_auth c m packet binding now bucket hm n = Some (Inl e, m', n')"
  shows "shrinks_to m m'"
  using assms shrinks_to_expire shrinks_to_refl
  by (auto simp: ServerMachine_receive_open_auth_def Let_def split: sum.splits option.splits)

lemma entries_unique:
  assumes "server_inv m n" "(scid, b, p, a) \<in> entries m" "(scid, b', p', a') \<in> entries m"
  shows "b = b'"
proof -
  have k: "keyed ps_scid se_scid (sv_pending m) (sv_established m)" using assms(1) by (simp add: server_inv_def)
  show ?thesis
    using assms(2,3) keyed_unique [OF k]
    by (auto simp: entries_def view_pending_def view_established_def) metis+
qed

lemma entries_live: "ServerMachine_is_live m scid \<longleftrightarrow> scid \<in> fst ` entries m"
  by (force simp: live_pending entries_def view_pending_def view_established_def)

section \<open>The invariant of the loop\<close>

text \<open>What the server never changes.\<close>

definition server_fixed :: "options \<Rightarrow> server_machine \<Rightarrow> bool" where
  "server_fixed opts m \<longleftrightarrow>
     hc_budget (sv_config m) = op_budget opts \<and> hc_pending_limit (sv_config m) = 256
     \<and> hc_established_limit (sv_config m) = 1024 \<and> hc_profile (sv_config m) = 0
     \<and> length (hc_source (sv_config m)) = 16 \<and> length (hc_destination (sv_config m)) = 16
     \<and> length (sv_local_loc m) = 16 \<and> length (sv_peer_loc m) = 16"

text \<open>
  Every recorded endpoint is allowed, and the binding it stands for is the one under which the
  session of that connection id was opened.
\<close>

definition pinned :: "options \<Rightarrow> bytes \<Rightarrow> server_machine \<Rightarrow> peer_bindings \<Rightarrow> bool" where
  "pinned opts selector m bindings \<longleftrightarrow>
     (\<forall>scid endpoint b. bindings scid = Some (endpoint, b) \<longrightarrow>
        allowed_underlay endpoint (op_isolated opts) \<and> endpoint_binding endpoint selector = Inr b
        \<and> (\<forall>b' p a. (scid, b', p, a) \<in> entries m \<longrightarrow> b' = Udp b))"

definition server_ok :: "options \<Rightarrow> server_machine \<Rightarrow> u64 \<Rightarrow> bool" where
  "server_ok opts m n \<longleftrightarrow> server_inv m n \<and> server_fixed opts m \<and> answers_bounded m"

definition serve_core :: "options \<Rightarrow> bytes \<Rightarrow> serve_state \<Rightarrow> u64 \<Rightarrow> bool" where
  "serve_core opts selector st n \<longleftrightarrow>
     server_ok opts (ss_server st) n \<and> limiter_inv (ss_limiter st)
     \<and> pinned opts selector (ss_server st) (ss_bindings st)"

definition loop_inv :: "options \<Rightarrow> bytes \<Rightarrow> serve_state \<Rightarrow> u64 \<Rightarrow> bool" where
  "loop_inv opts selector st n \<longleftrightarrow>
     serve_core opts selector st n \<and> finite (dom (ss_bindings st)) \<and> card (dom (ss_bindings st)) \<le> 1280"

lemma server_ok_shrink:
  "server_ok opts m n \<Longrightarrow> server_inv m' n \<Longrightarrow> shrinks_to m m' \<Longrightarrow> server_ok opts m' n"
  using answers_bounded_shrink by (auto simp: server_ok_def server_fixed_def shrinks_to_def)

lemma pinned_shrink:
  "pinned opts selector m bindings \<Longrightarrow> shrinks_to m m' \<Longrightarrow> bindings' \<subseteq>\<^sub>m bindings \<Longrightarrow>
   pinned opts selector m' bindings'"
  unfolding pinned_def shrinks_to_def map_le_def by (metis (no_types, lifting) domI subset_iff)

text \<open>A step that adds no entry and forgets at most some bindings.\<close>

lemma serve_core_shrink:
  assumes "serve_core opts selector st n" "server_inv m' n" "shrinks_to (ss_server st) m'"
    and "bindings' \<subseteq>\<^sub>m ss_bindings st"
  shows "server_ok opts m' n \<and> pinned opts selector m' bindings'"
  using assms server_ok_shrink pinned_shrink unfolding serve_core_def by blast

lemma serve_core_inv: "serve_core opts selector st n \<Longrightarrow> server_inv (ss_server st) n"
  by (simp add: serve_core_def server_ok_def)

lemma rotate_inv: "server_inv m n \<Longrightarrow> server_inv (ServerMachine_rotate_cookie_key m key now) n"
  by (simp add: server_inv_def ServerMachine_rotate_cookie_key_def)

lemma serve_open_core:
  assumes "serve_core opts selector st n"
    and "serve_open c source_key packet endpoint binding now (st, n, k) = Some (r, (st', n', k'))"
  shows "serve_core opts selector st' n' \<and> ss_bindings st' = ss_bindings st"
proof -
  obtain r' l where o: "ServerMachine_receive_open_limited c (ss_server st) packet (Udp binding)
       (opaque_source c endpoint source_key) now (now div 10000) (ss_limiter st) = (r', l)" by force
  then have "\<exists>rr. PrevalidationLimiter_admit (ss_limiter st) (opaque_source c endpoint source_key)
      (length packet) 170 now = (rr, l)"
    by (auto simp: ServerMachine_receive_open_limited_def split: sum.splits prod.splits)
  then have "limiter_step (ss_limiter st) l" by (auto simp: limiter_step_def) (metis snd_conv)
  then have "limiter_inv l" using admit_keeps_inv assms(1) by (auto simp: serve_core_def)
  with o assms show ?thesis by (auto simp: serve_open_def serve_core_def)
qed

lemma random_on_kernel:
  "on_kernel (random K i) (st, n, k) = Some (Inr bs, w) \<Longrightarrow> \<exists>k'. w = (st, n, k')"
  by (auto simp: on_kernel_def split: prod.splits)

lemma on_kernel_Inr:
  "on_kernel f (m, n, k) = Some (Inr y, (m', n', k')) \<longleftrightarrow> f k = (Inr y, k') \<and> m' = m \<and> n' = n"
  by (auto simp: on_kernel_def split: prod.splits)

lemmas act_simps = act_then_Inr on_kernel_Inr act_ret_Inr split_paired_Ex prod.case

lemma pinnedD:
  "pinned opts selector m bindings \<Longrightarrow> bindings scid = Some (ep, b) \<Longrightarrow> (scid, b', p, a) \<in> entries m \<Longrightarrow>
   b' = Udp b"
  unfolding pinned_def by blast

lemma pinned_insert:
  assumes "pinned opts selector m bindings" "allowed_underlay ep (op_isolated opts)"
    and "endpoint_binding ep selector = Inr b" "server_inv m' n" "(scid, Udp b, packet, ack) \<in> entries m'"
    and "entries m' \<subseteq> insert (scid, Udp b, packet, ack) (entries m)"
  shows "pinned opts selector m' (bindings(scid \<mapsto> (ep, b)))"
  unfolding pinned_def
proof (intro allI impI conjI)
  fix s e x
  assume m: "(bindings(scid \<mapsto> (ep, b))) s = Some (e, x)"
  show "allowed_underlay e (op_isolated opts)" "endpoint_binding e selector = Inr x"
    using m assms(1-3) by (auto simp: pinned_def split: if_splits)
  fix b' p a assume en: "(s, b', p, a) \<in> entries m'"
  show "b' = Udp x"
  proof (cases "s = scid")
    case True
    with m entries_unique [OF assms(4) en [unfolded True] assms(5)] show ?thesis by simp
  next
    case False
    then have "(s, b', p, a) \<in> entries m" using assms(6) en by auto
    from pinnedD [OF assms(1) _ this] m False show ?thesis by simp
  qed
qed

lemma open_auth_member:
  assumes "ServerMachine_receive_open_auth c m packet binding now bucket hm n = Some (Inr ack, m', n')"
    and "unpack_with_budget packet (hc_budget (sv_config m)) = Inr (h, payload)"
  shows "(h_scid h, binding, packet, ack) \<in> entries m'"
proof (rule open_auth_entry [OF assms(1)])
  fix h' payload' auth
  assume "unpack_with_budget packet (hc_budget (sv_config m')) = Inr (h', payload')"
  then have "h' = h" using open_auth_adds [OF assms] assms(2) by simp
  moreover assume "(\<exists>e \<in> set (sv_pending m'). ps_scid e = h_scid h' \<and> ps_opening e = packet
      \<and> ps_binding e = binding \<and> ps_cached_ack e = ack)
    \<or> (\<exists>e \<in> set (sv_established m'). se_scid e = h_scid h' \<and> se_opening e = packet
      \<and> se_binding e = binding \<and> se_cached_ack e = ack)"
  ultimately show ?thesis by (force simp: entries_def view_pending_def view_established_def)
qed

lemma serve_open_auth_core:
  assumes "serve_core opts selector st n" "allowed_underlay endpoint (op_isolated opts)"
    and "endpoint_binding endpoint selector = Inr binding"
    and "unpack_with_budget packet (op_budget opts) = Inr (h, payload)"
    and "serve_open_auth c K packet endpoint binding now (h_scid h) (st, n, k) = Some (Inr p, (st', n', k'))"
  shows "serve_core opts selector st' n' \<and> dom (ss_bindings st') \<subseteq> insert (h_scid h) (dom (ss_bindings st))
    \<and> (p = Respond None \<or> (\<exists>ack. p = Respond (Some ack) \<and> length ack \<le> length packet))"
proof -
  from assms(5) obtain hm k1 where
    "(case ServerMachine_receive_open_auth c (ss_server st) packet (Udp binding) now (now div 10000) (Some hm) n of
       None \<Rightarrow> None
     | Some (Inl _, sv, n) \<Rightarrow> Some (Inr (Respond None), (st\<lparr>ss_server := sv\<rparr>, n, k1))
     | Some (Inr response, sv, n) \<Rightarrow>
         Some (Inr (Respond (Some response)),
           (st\<lparr>ss_server := sv, ss_bindings := (ss_bindings st)(h_scid h \<mapsto> (endpoint, binding))\<rparr>, n, k1)))
     = Some (Inr p :: CliError + pass, (st', n', k'))"
    unfolding serve_open_auth_def act_then_Inr by (auto simp: on_kernel_Inr)
  then obtain r sv where
    o: "ServerMachine_receive_open_auth c (ss_server st) packet (Udp binding) now (now div 10000) (Some hm) n
        = Some (r, sv, n')"
    and st': "st' = (case r of Inl _ \<Rightarrow> st\<lparr>ss_server := sv\<rparr>
        | Inr _ \<Rightarrow> st\<lparr>ss_server := sv, ss_bindings := (ss_bindings st)(h_scid h \<mapsto> (endpoint, binding))\<rparr>)"
    and p: "p = Respond (ok r)"
    by (auto simp: ok_def split: option.splits sum.splits prod.splits)
  from assms(1) have ok: "server_inv (ss_server st) n" "server_fixed opts (ss_server st)" "answers_bounded (ss_server st)"
    "limiter_inv (ss_limiter st)" "pinned opts selector (ss_server st) (ss_bindings st)"
    by (simp_all add: serve_core_def server_ok_def)
  from ok(1) o have inv: "server_inv sv n'" by (rule receive_open_auth_inv)
  have u: "unpack_with_budget packet (hc_budget (sv_config (ss_server st))) = Inr (h, payload)"
    using assms(4) ok(2) by (simp add: server_fixed_def)
  note adds = open_auth_adds [OF o u]
  then have fixed: "server_fixed opts sv" using ok(2) by (simp add: server_fixed_def)
  show ?thesis
  proof (cases r)
    case (Inl e)
    from open_auth_refused [OF o [unfolded Inl]] have "shrinks_to (ss_server st) sv" .
    then have "answers_bounded sv" "pinned opts selector sv (ss_bindings st)"
      using answers_bounded_shrink ok(3) pinned_shrink [OF ok(5)] by auto
    with Inl st' p inv fixed ok(4) show ?thesis by (auto simp: serve_core_def server_ok_def ok_def)
  next
    case (Inr ack)
    have bounded: "length ack \<le> length packet" "answers_bounded sv"
      using open_auth_bounded [OF o [unfolded Inr]] ok(2,3) by (simp_all add: server_fixed_def)
    have "pinned opts selector sv ((ss_bindings st)(h_scid h \<mapsto> (endpoint, binding)))"
      using adds Inr by (intro pinned_insert [OF ok(5) assms(2,3) inv open_auth_member [OF o [unfolded Inr] u]]) auto
    with Inr st' p inv fixed ok(4) bounded show ?thesis
      by (auto simp: serve_core_def server_ok_def ok_def)
  qed
qed

section \<open>The other messages\<close>

text \<open>Decryption keeps the length (RFC 8439): what \<open>aead_ok\<close> says of sealed texts, for any text.\<close>

definition aead_length :: "crypto \<Rightarrow> bool" where
  "aead_length c \<longleftrightarrow> (\<forall>k n a ct t m. aead_decrypt c k n a ct t = Some m \<longrightarrow> length m = length ct)"

lemma preview_length:
  assumes "aead_length c" "DirectionalSession_preview c s d = Inr p"
  shows "length d = length (pp_plaintext p) + 76"
  using preview_Inr(2) [OF assms(2)] assms(1)
  by (auto simp: open_sealed_def aead_length_def Let_def and_then_Inr ok_or_Inr split: if_splits)

lemma receive_data_length:
  assumes "aead_length c" "ServerMachine_receive_data c m packet now = (Inr pt, m')"
  shows "length packet = length pt + 76"
proof -
  from assms(2) obtain pv m1 where
    pv: "ServerMachine_preview_data_with_locs c (ServerMachine_expire m now) packet [] [] now = (Inr pv, m1)"
    and cm: "ServerMachine_commit_data m1 pv now = (Inr pt, m')"
    by (auto simp: ServerMachine_receive_data_def split: sum.splits prod.splits)
  from pv obtain s where "DirectionalSession_preview c s packet = Inr (dp_commit pv)"
    by (auto simp: ServerMachine_preview_data_with_locs_def Let_def and_then_Inr split: if_splits)
  from preview_length [OF assms(1) this] cm show ?thesis
    by (auto simp: ServerMachine_commit_data_def DirectionalSession_commit_def Let_def
        split: if_splits option.splits sum.splits prod.splits)
qed

lemma send_data_length:
  assumes "aead_ok c" "length (sv_local_loc m) = 16" "length (sv_peer_loc m) = 16"
    and "ServerMachine_send_data c m scid pt = (Inr d, m')"
  shows "length d = length pt + 76"
proof -
  from assms(4) obtain s s' where "DirectionalSession_encrypt c s
      (session_header (hc_profile (sv_config m)) 1 0 scid (sv_local_loc m) (sv_peer_loc m))
      SESSION_DATA pt (hc_budget (sv_config m)) = (Inr d, s')"
    by (auto simp: ServerMachine_send_data_def ServerMachine_send_data_with_locs_def Let_def
        split: option.splits prod.splits if_splits)
  from encrypt_length [OF assms(1) _ this] assms(2,3) show ?thesis by (simp add: wf_session_header)
qed

lemma serve_accept_core:
  assumes "serve_core opts selector st n"
    and "serve_accept c K opts packet endpoint binding now scid (st, n, k) = Some (Inr p, (st', n', k'))"
  shows "serve_core opts selector st' n' \<and> ss_bindings st' = ss_bindings st \<and> (p = Skip \<or> p = Respond None)"
proof -
  obtain r sv where a: "ServerMachine_receive_accept c (ss_server st) packet now = (r, sv)" by force
  have "server_ok opts sv n \<and> pinned opts selector sv (ss_bindings st)"
    by (rule serve_core_shrink [OF assms(1)])
      (use receive_accept_inv [OF serve_core_inv [OF assms(1)], of c packet now]
        shrinks_to_accept [of "ss_server st" c packet now] a in simp_all)
  with assms a show ?thesis
    by (auto simp: serve_accept_def serve_core_def Let_def act_simps split: if_splits)
qed

lemma serve_data_core:
  assumes "serve_core opts selector st n" "aead_ok c" "aead_length c"
    and "serve_data c packet endpoint binding now scid (st, n, k) = Some (Inr p, (st', n', k'))"
  shows "serve_core opts selector st' n' \<and> ss_bindings st' = ss_bindings st
    \<and> (p = Skip \<or> p = Respond None \<or> (\<exists>d. p = Respond (Some d) \<and> length d \<le> length packet))"
proof -
  obtain r sv where a: "ServerMachine_receive_data c (ss_server st) packet now = (r, sv)" by force
  have sv: "server_ok opts sv n \<and> pinned opts selector sv (ss_bindings st)"
    by (rule serve_core_shrink [OF assms(1)])
      (use receive_data_inv [OF serve_core_inv [OF assms(1)], of c packet now]
        shrinks_to_data [of "ss_server st" c packet now] a in simp_all)
  then have core: "serve_core opts selector (st\<lparr>ss_server := sv\<rparr>) n"
    using assms(1) by (simp add: serve_core_def)
  show ?thesis
  proof (cases r)
    case (Inl e)
    with assms a core show ?thesis by (auto simp: serve_data_def split: if_splits)
  next
    case (Inr pt)
    obtain r2 sv2 where b: "ServerMachine_send_data c sv scid pt = (r2, sv2)" by force
    have "server_ok opts sv2 n \<and> pinned opts selector sv2 (ss_bindings st)"
      using serve_core_shrink [OF core, of sv2 "ss_bindings st"]
        send_data_inv [OF serve_core_inv [OF core], of c scid pt "sv_local_loc sv" "sv_peer_loc sv"] shrinks_to_send [of sv c scid pt] b
      by (simp add: ServerMachine_send_data_def)
    moreover have "length d = length packet" if "r2 = Inr d" for d
      using send_data_length [OF assms(2), of sv scid pt d sv2] receive_data_length [OF assms(3)] that a b Inr sv
      by (simp add: server_ok_def server_fixed_def)
    ultimately show ?thesis
      using assms a b Inr by (auto simp: serve_data_def serve_core_def ok_def split: if_splits sum.splits)
  qed
qed

lemma serve_close_core:
  assumes "serve_core opts selector st n"
    and "serve_close c packet endpoint binding now scid (st, n, k) = Some (Inr p, (st', n', k'))"
  shows "serve_core opts selector st' n' \<and> dom (ss_bindings st') \<subseteq> dom (ss_bindings st)
    \<and> (p = Skip \<longrightarrow> ss_bindings st' = ss_bindings st) \<and> (p = Skip \<or> p = Respond None)"
proof -
  obtain r sv where a: "ServerMachine_receive_close c (ss_server st) packet now = (r, sv)" by force
  have "server_ok opts sv n \<and> pinned opts selector sv b" if "b \<subseteq>\<^sub>m ss_bindings st" for b
    by (rule serve_core_shrink [OF assms(1) _ _ that])
      (use receive_close_inv [OF serve_core_inv [OF assms(1)], of c packet now]
        shrinks_to_close [of "ss_server st" c packet now] a in simp_all)
  from this [of "ss_bindings st"] this [of "(ss_bindings st)(scid := None)"] assms a show ?thesis
    by (auto simp: serve_close_def serve_core_def Let_def map_le_def split: if_splits)
qed

section \<open>A pass of the loop\<close>

lemma serve_packet_core:
  assumes "serve_core opts selector st n" "aead_ok c" "aead_length c"
    and "allowed_underlay endpoint (op_isolated opts)" "endpoint_binding endpoint selector = Inr binding"
    and "serve_packet c K opts source_key packet endpoint binding now (st, n, k) = Some (Inr p, (st', n', k'))"
  shows "serve_core opts selector st' n' \<and> (finite (dom (ss_bindings st)) \<longrightarrow> finite (dom (ss_bindings st')))
    \<and> (p = Skip \<longrightarrow> ss_bindings st' = ss_bindings st)
    \<and> (\<forall>d. p = Respond (Some d) \<longrightarrow> length d \<le> length packet)"
proof (cases "unpack_with_budget packet (op_budget opts)")
  case (Inl e)
  with assms show ?thesis by (auto simp: serve_packet_def act_simps)
next
  case (Inr hp)
  then obtain h payload where u: "unpack_with_budget packet (op_budget opts) = Inr (h, payload)"
    by (cases hp) simp
  show ?thesis
  proof (cases payload)
    case Nil
    with assms u show ?thesis by (auto simp: serve_packet_def act_simps)
  next
    case (Cons ty rest)
    from assms(6) u Cons consider
      "serve_open c source_key packet endpoint binding now (st, n, k) = Some (Inr p, (st', n', k'))"
    | "serve_open_auth c K packet endpoint binding now (h_scid h) (st, n, k) = Some (Inr p, (st', n', k'))"
    | "serve_accept c K opts packet endpoint binding now (h_scid h) (st, n, k) = Some (Inr p, (st', n', k'))"
    | "serve_data c packet endpoint binding now (h_scid h) (st, n, k) = Some (Inr p, (st', n', k'))"
    | "serve_close c packet endpoint binding now (h_scid h) (st, n, k) = Some (Inr p, (st', n', k'))"
    | "(st', n', k') = (st, n, k)" and "p = Respond None"
      by (auto simp: serve_packet_def act_simps split: if_splits)
    then show ?thesis
    proof cases
      case 1
      have "length d \<le> length packet" if "p = Respond (Some d)" for d
      proof -
        from 1 that obtain l where o: "ServerMachine_receive_open_limited c (ss_server st) packet (Udp binding)
            (opaque_source c endpoint source_key) now (now div 10000) (ss_limiter st) = (Inr d, l)"
          by (auto simp: serve_open_def ok_def split: prod.splits sum.splits)
        from open_reply_bounded [OF _ _ o] assms(1) show ?thesis
          by (simp add: serve_core_def server_ok_def server_fixed_def)
      qed
      moreover have "p \<noteq> Skip" using 1 by (auto simp: serve_open_def split: prod.splits)
      ultimately show ?thesis using serve_open_core [OF assms(1) 1] by simp
    next
      case 2
      from serve_open_auth_core [OF assms(1,4,5) u 2] show ?thesis by (auto intro: finite_subset)
    next
      case 3
      from serve_accept_core [OF assms(1) 3] show ?thesis by auto
    next
      case 4
      from serve_data_core [OF assms(1-3) 4] show ?thesis by auto
    next
      case 5
      from serve_close_core [OF assms(1) 5] show ?thesis by (auto intro: finite_subset)
    next
      case 6
      with assms(1) show ?thesis by simp
    qed
  qed
qed

lemma rotate_cookie_core:
  assumes "serve_core opts selector st n" "rotate_cookie K now (st, n, k) = Some (Inr u, (st', n', k'))"
  shows "serve_core opts selector st' n' \<and> ss_bindings st' = ss_bindings st"
proof -
  have "server_ok opts (ServerMachine_rotate_cookie_key (ss_server st) key now) n
      \<and> pinned opts selector (ServerMachine_rotate_cookie_key (ss_server st) key now) (ss_bindings st)" for key
    by (rule serve_core_shrink [OF assms(1) rotate_inv [OF serve_core_inv [OF assms(1)]] shrinks_to_rotate]) simp
  with assms show ?thesis
    by (auto simp: rotate_cookie_def serve_core_def act_simps split: if_splits)
qed

lemma live_bound:
  assumes "server_ok opts m n"
  shows "finite {scid. ServerMachine_is_live m scid} \<and> card {scid. ServerMachine_is_live m scid} \<le> 1280"
proof -
  have e: "{scid. ServerMachine_is_live m scid} = ps_scid ` set (sv_pending m) \<union> se_scid ` set (sv_established m)"
    by (auto simp: live_pending)
  have "length (sv_pending m) \<le> 256" "length (sv_established m) \<le> 1024"
    using assms by (auto simp: server_ok_def server_inv_def server_fixed_def)
  moreover have "card (ps_scid ` set (sv_pending m)) \<le> length (sv_pending m)"
    "card (se_scid ` set (sv_established m)) \<le> length (sv_established m)"
    by (meson card_image_le card_length finite_set le_trans)+
  ultimately show ?thesis
    using card_Un_le [of "ps_scid ` set (sv_pending m)" "se_scid ` set (sv_established m)"] by (simp add: e)
qed

lemma housekeeping_inv:
  assumes "serve_core opts selector st n" "finite (dom (ss_bindings st))"
  shows "loop_inv opts selector (housekeeping now st) n"
proof -
  let ?m = "ServerMachine_expire (ss_server st) now"
  let ?b = "retain_live_peer_bindings (ss_bindings st) (ServerMachine_is_live ?m)"
  have le: "?b \<subseteq>\<^sub>m ss_bindings st" by (auto simp: map_le_def retain_live_peer_bindings_def split: if_splits)
  have ok: "server_ok opts ?m n \<and> pinned opts selector ?m ?b"
    by (rule serve_core_shrink [OF assms(1) server_inv_expire [OF serve_core_inv [OF assms(1)]] shrinks_to_expire le])
  have "dom ?b \<subseteq> {scid. ServerMachine_is_live ?m scid}"
    by (auto simp: retain_live_peer_bindings_def split: if_splits)
  then have "card (dom ?b) \<le> 1280 \<and> finite (dom ?b)"
    using live_bound [of opts ?m n] ok by (meson card_mono le_trans finite_subset)
  with ok assms show ?thesis by (simp add: housekeeping_def loop_inv_def serve_core_def Let_def)
qed

lemma serve_datagram_inv:
  assumes "loop_inv opts selector st n" "aead_ok c" "aead_length c"
    and "serve_datagram c K opts fd selector source_key started packet endpoint (st, n, k)
      = Some (Inr u, (st', n', k'))"
  shows "loop_inv opts selector st' n'"
proof (cases "allowed_underlay endpoint (op_isolated opts) \<and> (\<exists>b. endpoint_binding endpoint selector = Inr b)")
  case False
  with assms show ?thesis by (auto simp: serve_datagram_def act_simps split: sum.splits if_splits)
next
  case True
  then obtain b where b: "allowed_underlay endpoint (op_isolated opts)" "endpoint_binding endpoint selector = Inr b"
    by blast
  obtain now k1 where t: "elapsed_ms K started k = (now, k1)" by force
  from assms(4) b t obtain st2 n2 k2 p st3 n3 k3 where
    r: "rotate_cookie K now (st, n, k1) = Some (Inr (), (st2, n2, k2))"
    and p: "serve_packet c K opts source_key packet endpoint b now (st2, n2, k2) = Some (Inr p, (st3, n3, k3))"
    and f: "(case p of
             Skip \<Rightarrow> act_ret (Inr ())
           | Respond response \<Rightarrow>
               act_then (case response of
                   None \<Rightarrow> act_ret (Inr ())
                 | Some response \<Rightarrow> on_kernel (send K fd response endpoint)) (\<lambda>_ (st, n, k).
                 Some (Inr (), (housekeeping now st, n, k)))) (st3, n3, k3) = Some (Inr u, (st', n', k'))"
    by (auto simp: serve_datagram_def act_then_Inr)
  have fin: "p = Skip \<and> st' = st3 \<and> n' = n3 \<or> p \<noteq> Skip \<and> st' = housekeeping now st3 \<and> n' = n3"
    using f by (auto simp: act_simps split: pass.splits option.splits)
  have i: "serve_core opts selector st n" "finite (dom (ss_bindings st))" "card (dom (ss_bindings st)) \<le> 1280"
    using assms(1) by (simp_all add: loop_inv_def)
  from rotate_cookie_core [OF i(1) r] have c2: "serve_core opts selector st2 n2" "ss_bindings st2 = ss_bindings st"
    by simp_all
  from serve_packet_core [OF c2(1) assms(2,3) b p] c2(2) i fin show ?thesis
    using housekeeping_inv by (auto simp: loop_inv_def)
qed

text \<open>Passes after which the loop goes on.\<close>

definition serve_step ::
    "crypto \<Rightarrow> 'k udp_kernel \<Rightarrow> options \<Rightarrow> int \<Rightarrow> bytes \<Rightarrow> bytes \<Rightarrow> nat \<Rightarrow>
      (serve_state, 'k) world \<Rightarrow> (serve_state, 'k) world \<Rightarrow> bool" where
  "serve_step c K opts fd selector source_key started w w' \<longleftrightarrow>
     serve_pass c K opts fd selector source_key started w = Some (Inr True, w')"

lemma serve_step_datagram:
  assumes "serve_step c K opts fd selector source_key started (st, n, k) w'"
  obtains packet endpoint k1 where
    "receive K fd (op_timeout opts) (op_budget opts) k = (Inr (packet, endpoint), k1)"
    "serve_datagram c K opts fd selector source_key started packet endpoint (st, n, k1) = Some (Inr (), w')"
  using assms
  by (auto simp: serve_step_def serve_pass_def on_kernel_def act_simps split: prod.splits sum.splits if_splits)

interpretation serving: preserved
  "\<lambda>w w'. aead_ok c \<and> aead_length c \<and> serve_step c K opts fd selector source_key started w w'"
  "\<lambda>(st, n, k). loop_inv opts selector st n"
proof
  fix w w'
  assume a: "aead_ok c \<and> aead_length c \<and> serve_step c K opts fd selector source_key started w w'"
    and i: "case w of (st, n, k) \<Rightarrow> loop_inv opts selector st n"
  obtain st n k where w: "w = (st, n, k)" by (rule prod_cases3)
  obtain st' n' k' where w': "w' = (st', n', k')" by (rule prod_cases3)
  obtain packet endpoint k1 where
    "serve_datagram c K opts fd selector source_key started packet endpoint (st, n, k1) = Some (Inr (), w')"
    using a serve_step_datagram w by metis
  from serve_datagram_inv [OF _ _ _ this [unfolded w']] a i w w'
  show "case w' of (st, n, k) \<Rightarrow> loop_inv opts selector st n" by simp
qed

lemma serve_run_inv:
  assumes "aead_ok c" "aead_length c" "loop_inv opts selector st0 n0"
    and "(serve_step c K opts fd selector source_key started)\<^sup>*\<^sup>* (st0, n0, k0) (st, n, k)"
  shows "loop_inv opts selector st n"
proof -
  have "(\<lambda>w w'. aead_ok c \<and> aead_length c \<and> serve_step c K opts fd selector source_key started w w')\<^sup>*\<^sup>*
      (st0, n0, k0) (st, n, k)"
    by (rule rtranclp_mono [THEN predicate2D, OF _ assms(4)]) (use assms(1,2) in auto)
  from serving.run_keeps [OF this] assms(3) show ?thesis by simp
qed

lemma serve_start_inv:
  assumes "length (op_source opts) = 16" "length (op_destination opts) = 16"
    and "serve_start c K opts k0 = (Inr (fd, selector, source_key, started, st), k)"
  shows "loop_inv opts selector st n"
proof -
  from assms(3) obtain li pi mat where
    new: "ServerMachine_new c (serve_config li pi opts) (op_local_seed opts) mat = Inr (ss_server st)"
    and st: "ss_bindings st = Map.empty" "ss_limiter st = PrevalidationLimiter_new"
    by (auto simp: serve_start_def io_simps lift_err_Inr Let_def map_err_Inr split: if_splits prod.splits)
  have "sv_config m = cfg \<and> sv_pending m = [] \<and> sv_established m = [] \<and> sv_local_loc m = hc_destination cfg
      \<and> sv_peer_loc m = hc_source cfg" if "ServerMachine_new c cfg key mat = Inr m" for m cfg key
    using that by (auto simp: ServerMachine_new_def and_then_Inr split: if_splits)
  note sv = this [OF new]
  show ?thesis
    using server_inv_new [OF new] limiter_inv_new st sv assms(1,2)
    by (simp add: loop_inv_def serve_core_def server_ok_def server_fixed_def serve_config_def
        answers_bounded_def entries_def pinned_def)
qed

text \<open>The cookie key apart, what a datagram can change.\<close>

definition same_sessions :: "serve_state \<Rightarrow> serve_state \<Rightarrow> bool" where
  "same_sessions st st' \<longleftrightarrow>
     sv_pending (ss_server st') = sv_pending (ss_server st)
     \<and> sv_established (ss_server st') = sv_established (ss_server st)
     \<and> ss_bindings st' = ss_bindings st \<and> ss_successes st' = ss_successes st
     \<and> ss_ready_sent st' = ss_ready_sent st \<and> ss_limiter st' = ss_limiter st"

lemma rotate_same_sessions:
  "rotate_cookie K now (st, n, k) = Some (r, (st', n', k')) \<Longrightarrow> same_sessions st st'"
  by (auto simp: rotate_cookie_def act_then_def on_kernel_def same_sessions_def
      ServerMachine_rotate_cookie_key_def split: if_splits prod.splits sum.splits)

lemma stranger_skipped:
  assumes "unpack_with_budget packet (op_budget opts) = Inr (h, typ # rest)"
    and "typ \<in> {SESSION_ACCEPT, SESSION_DATA, CLOSE}"
    and "\<forall>b. ss_bindings st (h_scid h) \<noteq> Some (endpoint, b)"
  shows "serve_packet c K opts source_key packet endpoint binding now (st, n, k) = Some (Inr Skip, (st, n, k))"
  using assms
  by (auto simp: serve_packet_def serve_accept_def serve_data_def serve_close_def peer_matches_def session_consts)

lemma stranger_ignored:
  assumes "unpack_with_budget packet (op_budget opts) = Inr (h, typ # rest)"
    and "typ \<in> {SESSION_ACCEPT, SESSION_DATA, CLOSE}"
    and "\<forall>b. ss_bindings st (h_scid h) \<noteq> Some (endpoint, b)"
    and "serve_datagram c K opts fd selector source_key started packet endpoint (st, n, k) = Some (r, (st', n', k'))"
  shows "same_sessions st st'"
proof (cases "allowed_underlay endpoint (op_isolated opts) \<and> (\<exists>b. endpoint_binding endpoint selector = Inr b)")
  case False
  with assms(4) show ?thesis
    by (auto simp: serve_datagram_def act_ret_def same_sessions_def split: if_splits sum.splits)
next
  case True
  then obtain b where b: "allowed_underlay endpoint (op_isolated opts)" "endpoint_binding endpoint selector = Inr b"
    by blast
  obtain now k1 where now: "elapsed_ms K started k = (now, k1)" by force
  let ?rest = "act_then (rotate_cookie K now) (\<lambda>_. act_then (serve_packet c K opts source_key packet endpoint b now)
      (\<lambda>p. case p of Skip \<Rightarrow> act_ret (Inr ()) | Respond response \<Rightarrow>
         act_then (case response of None \<Rightarrow> act_ret (Inr ()) | Some response \<Rightarrow> on_kernel (send K fd response endpoint))
           (\<lambda>_ (st, n, k). Some (Inr (), (housekeeping now st, n, k)))))"
  have "?rest (st, n, k1) = Some (r, (st', n', k'))"
    using assms(4) b now by (simp add: serve_datagram_def act_then_def)
  then show ?thesis
  proof (cases rule: act_then_cases)
    case (stop e)
    then show ?thesis by (intro rotate_same_sessions)
  next
    case (go x w)
    obtain st1 n1 k2 where w: "w = (st1, n1, k2)" by (metis surj_pair)
    have s1: "same_sessions st st1" by (rule rotate_same_sessions [OF go(1) [unfolded w]])
    then have "\<forall>b. ss_bindings st1 (h_scid h) \<noteq> Some (endpoint, b)" using assms(3) by (simp add: same_sessions_def)
    from stranger_skipped [OF assms(1,2) this, of c K source_key b now n1 k2] go(2) w have "st' = st1"
      by (simp add: act_then_def act_ret_def)
    with s1 show ?thesis by simp
  qed
qed

text \<open>
  C32: The server's loop keeps its books. Whatever datagrams arrive, in any state the loop
  reaches from its start: at most 256 sessions are pending and 1024 established, at most 1280
  endpoints are recorded, and an endpoint recorded for a connection id is allowed by the underlay
  rule and is the one whose binding the session's OPEN_AUTH was accepted under. Data, accepts and
  closes count only from that endpoint: one that comes from anywhere else for a connection id is not
  answered, and neither the sessions nor the recorded endpoints, the limiter and the count of
  completed sessions change.
\<close>

theorem serve_invariant:
  assumes "aead_ok c" "aead_length c" "length (op_source opts) = 16" "length (op_destination opts) = 16"
    and "serve_start c K opts k0 = (Inr (fd, selector, source_key, started, st0), k1)"
    and "(serve_step c K opts fd selector source_key started)\<^sup>*\<^sup>* (st0, n0, k1) (st, n, k)"
  shows "length (sv_pending (ss_server st)) \<le> 256 \<and> length (sv_established (ss_server st)) \<le> 1024
    \<and> finite (dom (ss_bindings st)) \<and> card (dom (ss_bindings st)) \<le> 1280
    \<and> (\<forall>scid endpoint b. ss_bindings st scid = Some (endpoint, b) \<longrightarrow>
         allowed_underlay endpoint (op_isolated opts) \<and> endpoint_binding endpoint selector = Inr b
         \<and> (\<forall>e \<in> set (sv_pending (ss_server st)). ps_scid e = scid \<longrightarrow> ps_binding e = Udp b)
         \<and> (\<forall>e \<in> set (sv_established (ss_server st)). se_scid e = scid \<longrightarrow> se_binding e = Udp b))
    \<and> (\<forall>packet endpoint h typ rest.
         unpack_with_budget packet (op_budget opts) = Inr (h, typ # rest) \<longrightarrow>
         typ \<in> {SESSION_ACCEPT, SESSION_DATA, CLOSE} \<longrightarrow>
         (\<forall>b. ss_bindings st (h_scid h) \<noteq> Some (endpoint, b)) \<longrightarrow>
         (\<forall>b now. serve_packet c K opts source_key packet endpoint b now (st, n, k) = Some (Inr Skip, (st, n, k)))
         \<and> (\<forall>r st' n' k'. serve_datagram c K opts fd selector source_key started packet endpoint (st, n, k)
                = Some (r, (st', n', k')) \<longrightarrow> same_sessions st st'))"
proof -
  have i: "loop_inv opts selector st n"
    by (rule serve_run_inv [OF assms(1,2) serve_start_inv [OF assms(3-5)] assms(6)])
  then have p: "pinned opts selector (ss_server st) (ss_bindings st)" by (simp add: loop_inv_def serve_core_def)
  have pend: "ps_binding e = Udp b"
    if "ss_bindings st scid = Some (ep, b)" "e \<in> set (sv_pending (ss_server st))" "ps_scid e = scid" for scid ep b e
    by (rule pinnedD [OF p that(1), of _ "ps_opening e" "ps_cached_ack e"])
      (use that in \<open>auto simp: entries_def view_pending_def\<close>)
  have est: "se_binding e = Udp b"
    if "ss_bindings st scid = Some (ep, b)" "e \<in> set (sv_established (ss_server st))" "se_scid e = scid" for scid ep b e
    by (rule pinnedD [OF p that(1), of _ "se_opening e" "se_cached_ack e"])
      (use that in \<open>auto simp: entries_def view_established_def\<close>)
  have bounds: "length (sv_pending (ss_server st)) \<le> 256" "length (sv_established (ss_server st)) \<le> 1024"
    "finite (dom (ss_bindings st))" "card (dom (ss_bindings st)) \<le> 1280"
    using i by (auto simp: loop_inv_def serve_core_def server_ok_def server_inv_def server_fixed_def)
  show ?thesis
    using p by (intro conjI allI impI ballI bounds pend est stranger_skipped)
      (auto simp: pinned_def elim: stranger_ignored)
qed

section \<open>Answers go back where the request came from, and are no longer\<close>

text \<open>\<open>log\<close> is the list of datagrams handed to the network; only \<open>send_to\<close> extends it.\<close>

definition send_log :: "'k udp_kernel \<Rightarrow> ('k \<Rightarrow> (bytes \<times> SocketAddr) list) \<Rightarrow> bool" where
  "send_log K log \<longleftrightarrow>
     (\<forall>fd d a k r k'. uk_send_to K fd d a k = (r, k') \<longrightarrow> log k' = log k @ [(d, a)]) \<and>
     (\<forall>fd n k r k'. uk_recv_from K fd n k = (r, k') \<longrightarrow> log k' = log k) \<and>
     (\<forall>fd n k r k'. uk_set_timeout K fd n k = (r, k') \<longrightarrow> log k' = log k) \<and>
     (\<forall>k t k'. uk_now K k = (t, k') \<longrightarrow> log k' = log k) \<and>
     (\<forall>n k r k'. uk_getrandom K n k = (r, k') \<longrightarrow> log k' = log k) \<and>
     (\<forall>k r k'. uk_clock_gettime K k = (r, k') \<longrightarrow> log k' = log k) \<and>
     (\<forall>fd d k r k'. uk_write K fd d k = (r, k') \<longrightarrow> log k' = log k)"

lemma send_logD:
  assumes "send_log K log"
  shows "receive K fd timeout budget k = (r1, k') \<Longrightarrow> log k' = log k"
    and "elapsed_ms K started k = (t, k') \<Longrightarrow> log k' = log k"
    and "random K i k = (r2, k') \<Longrightarrow> log k' = log k"
    and "ready K rfd k = (r3, k') \<Longrightarrow> log k' = log k"
    and "send K fd d a k = (r4, k') \<Longrightarrow> log k' = log k @ [(d, a)]"
proof -
  have l: "uk_send_to K fd d a k = (r, k') \<Longrightarrow> log k' = log k @ [(d, a)]"
    "uk_recv_from K fd n k = (q, k') \<Longrightarrow> log k' = log k" "uk_set_timeout K fd n k = (u, k') \<Longrightarrow> log k' = log k"
    "uk_now K k = (t, k') \<Longrightarrow> log k' = log k" "uk_getrandom K n k = (g, k') \<Longrightarrow> log k' = log k"
    "uk_clock_gettime K k = (z, k') \<Longrightarrow> log k' = log k" "uk_write K fd d k = (y, k') \<Longrightarrow> log k' = log k"
    for fd d a k r k' n q u t g z y using assms unfolding send_log_def by metis+
  show "receive K fd timeout budget k = (r1, k') \<Longrightarrow> log k' = log k"
    by (auto simp: receive_def io_then_def io_call_def lift_err_def set_read_timeout_def
        dest!: l(2) l(3) split: prod.splits sum.splits if_splits)
  show "elapsed_ms K started k = (t, k') \<Longrightarrow> log k' = log k"
    by (auto simp: elapsed_ms_def dest!: l(4) split: prod.splits)
  show "random K i k = (r2, k') \<Longrightarrow> log k' = log k"
    by (auto simp: random_def io_call_def dest!: l(5) split: prod.splits)
  show "ready K rfd k = (r3, k') \<Longrightarrow> log k' = log k"
    by (auto simp: ready_def io_call_def Let_def dest!: l(6) l(7) split: option.splits prod.splits if_splits)
  show "send K fd d a k = (r4, k') \<Longrightarrow> log k' = log k @ [(d, a)]"
    by (auto simp: send_def io_call_def dest!: l(1) split: prod.splits)
qed

text \<open>Actions that send nothing.\<close>

abbreviation silent :: "('k \<Rightarrow> 'l) \<Rightarrow> ('m, 'k, 'a) action \<Rightarrow> bool" where
  "silent log m \<equiv> act_in (same (\<lambda>(_, _, k). log k)) m"

lemmas silent_ret = frame.act_in_ret [of "\<lambda>(_, _, k). log k" for log]
lemmas silent_then = frame.act_in_then [of "\<lambda>(_, _, k). log k" for log]

lemma silent_kernel: "(\<And>k r k'. f k = (r, k') \<Longrightarrow> log k' = log k) \<Longrightarrow> silent log (on_kernel f)"
  by (auto simp: act_in_def on_kernel_def split: prod.splits)

lemma silent_machine:
  "(\<And>st n k r st' n' k'. m (st, n, k) = Some (r, (st', n', k')) \<Longrightarrow> k' = k) \<Longrightarrow> silent log m"
  by (auto simp: act_in_def) metis

lemma silentD: "silent log m \<Longrightarrow> m (st, n, k) = Some (r, (st', n', k')) \<Longrightarrow> log k' = log k"
  using act_inD by fastforce

lemma serve_packet_silent:
  assumes "send_log K log"
  shows "silent log (serve_packet c K opts source_key packet endpoint binding now)"
proof -
  have r: "silent log (on_kernel (random K i))" for i
    by (rule silent_kernel) (rule send_logD(3) [OF assms])
  have "silent log (serve_open c source_key packet endpoint binding now)"
    by (rule silent_machine) (auto simp: serve_open_def split: prod.splits)
  moreover have "silent log (serve_open_auth c K packet endpoint binding now scid)" for scid
    unfolding serve_open_auth_def
    by (intro silent_then r silent_machine) (auto split: option.splits prod.splits sum.splits)
  moreover have "silent log (serve_data c packet endpoint binding now scid)" for scid
    by (rule silent_machine) (auto simp: serve_data_def split: prod.splits sum.splits if_splits)
  moreover have "silent log (serve_close c packet endpoint binding now scid)" for scid
    by (rule silent_machine) (auto simp: serve_close_def Let_def split: prod.splits if_splits)
  moreover have "silent log (serve_accept c K opts packet endpoint binding now scid)" for scid
  proof -
    have "silent log (act_then (on_kernel (ready K (op_ready_fd opts))) (\<lambda>_ (st, n, k).
        Some (Inr (Respond None), (st\<lparr>ss_ready_sent := True\<rparr>, n, k))))"
      by (intro silent_then silent_machine silent_kernel send_logD(4) [OF assms]) auto
    note quiet = silentD [OF this]
    show ?thesis
      by (auto simp: act_in_def serve_accept_def Let_def split: prod.splits if_splits dest: quiet)
  qed
  ultimately show ?thesis
    by (auto simp: serve_packet_def silent_ret split: sum.splits list.splits)
qed

lemma rotate_cookie_silent: "send_log K log \<Longrightarrow> silent log (rotate_cookie K now)"
proof -
  assume l: "send_log K log"
  have "silent log (act_then (on_kernel (random K 32)) (\<lambda>new_key (st, n, k).
         Some (Inr (), (st\<lparr>ss_server := ServerMachine_rotate_cookie_key (ss_server st) new_key now,
           ss_last_rotation := now\<rparr>, n, k))))"
    by (intro silent_then silent_machine silent_kernel send_logD(3) [OF l]) auto
  note quiet = silentD [OF this]
  show ?thesis by (auto simp: act_in_def rotate_cookie_def split: if_splits dest: quiet)
qed

lemma serve_datagram_sends:
  assumes "loop_inv opts selector st n" "aead_ok c" "aead_length c" "send_log K log"
    and "serve_datagram c K opts fd selector source_key started packet endpoint (st, n, k)
      = Some (r, (st', n', k'))"
  shows "log k' = log k \<or> (\<exists>d. allowed_underlay endpoint (op_isolated opts) \<and> length d \<le> length packet
      \<and> log k' = log k @ [(d, endpoint)])"
proof (cases "allowed_underlay endpoint (op_isolated opts) \<and> (\<exists>b. endpoint_binding endpoint selector = Inr b)")
  case False
  with assms(5) show ?thesis by (auto simp: serve_datagram_def act_ret_def split: sum.splits if_splits)
next
  case True
  then obtain b where b: "allowed_underlay endpoint (op_isolated opts)" "endpoint_binding endpoint selector = Inr b"
    by blast
  obtain now k1 where t: "elapsed_ms K started k = (now, k1)" by force
  note l1 = send_logD(2) [OF assms(4) t]
  have run: "act_then (rotate_cookie K now) (\<lambda>_.
        act_then (serve_packet c K opts source_key packet endpoint b now) (\<lambda>p.
          (case p of
             Skip \<Rightarrow> act_ret (Inr ())
           | Respond response \<Rightarrow>
               act_then (case response of
                   None \<Rightarrow> act_ret (Inr ())
                 | Some response \<Rightarrow> on_kernel (send K fd response endpoint)) (\<lambda>_ (st, n, k).
                 Some (Inr (), (housekeeping now st, n, k)))))) (st, n, k1) = Some (r, (st', n', k'))"
    using assms(5) b t by (simp add: serve_datagram_def act_then_def)
  then show ?thesis
  proof (cases rule: act_then_cases)
    case (stop e)
    from silentD [OF rotate_cookie_silent [OF assms(4)] stop(1)] l1 show ?thesis by simp
  next
    case (go u w2)
    obtain st2 n2 k2 where w2: "w2 = (st2, n2, k2)" by (rule prod_cases3)
    have l2: "log k2 = log k"
      using silentD [OF rotate_cookie_silent [OF assms(4)] go(1) [unfolded w2]] l1 by simp
    have c2: "serve_core opts selector st2 n2"
      using rotate_cookie_core [OF _ go(1) [unfolded w2]] assms(1) by (simp add: loop_inv_def)
    from go(2) [unfolded w2] show ?thesis
    proof (cases rule: act_then_cases)
      case (stop e)
      from silentD [OF serve_packet_silent [OF assms(4)] stop(1)] l2 show ?thesis by simp
    next
      case (go p w3)
      obtain st3 n3 k3 where w3: "w3 = (st3, n3, k3)" by (rule prod_cases3)
      have l3: "log k3 = log k"
        using silentD [OF serve_packet_silent [OF assms(4)] go(1) [unfolded w3]] l2 by simp
      have "length d \<le> length packet" if "p = Respond (Some d)" for d
        using serve_packet_core [OF c2 assms(2,3) b go(1) [unfolded w3]] that by blast
      with go(2) l3 b(1) show ?thesis
        by (auto simp: w3 act_ret_def act_then_def on_kernel_def dest: send_logD(5) [OF assms(4)]
            split: pass.splits option.splits prod.splits sum.splits)
    qed
  qed
qed

text \<open>
  C33: The server is no amplifier and no relay. In any state its loop reaches, one pass hands the
  network at most one datagram, and only in answer to one it has just received: to the very
  address that sent it, only if the underlay rule allows that address, and never longer than what
  it answers. This holds however the pass ends, an error included.
\<close>

theorem serve_answers_in_kind:
  assumes "aead_ok c" "aead_length c" "send_log K log"
    and "length (op_source opts) = 16" "length (op_destination opts) = 16"
    and "serve_start c K opts k0 = (Inr (fd, selector, source_key, started, st0), k1)"
    and "(serve_step c K opts fd selector source_key started)\<^sup>*\<^sup>* (st0, n0, k1) (st, n, k)"
    and "serve_pass c K opts fd selector source_key started (st, n, k) = Some (r, (st', n', k'))"
  shows "log k' = log k \<or>
    (\<exists>packet endpoint d k2. receive K fd (op_timeout opts) (op_budget opts) k = (Inr (packet, endpoint), k2)
       \<and> allowed_underlay endpoint (op_isolated opts) \<and> length d \<le> length packet
       \<and> log k' = log k @ [(d, endpoint)])"
proof -
  have i: "loop_inv opts selector st n"
    by (rule serve_run_inv [OF assms(1,2) serve_start_inv [OF assms(4-6)] assms(7)])
  obtain q k2 where q: "receive K fd (op_timeout opts) (op_budget opts) k = (q, k2)" by force
  note l = send_logD(1) [OF assms(3) q]
  show ?thesis
  proof (cases q)
    case (Inl e)
    with assms(8) q l show ?thesis by (auto simp: serve_pass_def on_kernel_def)
  next
    case (Inr pe)
    obtain packet endpoint where pe: "pe = (packet, endpoint)" by force
    from assms(8) q Inr pe obtain r' where
      "serve_datagram c K opts fd selector source_key started packet endpoint (st, n, k2) = Some (r', (st', n', k'))"
      by (auto simp: serve_pass_def on_kernel_def act_then_def act_ret_def
          split: option.splits prod.splits sum.splits)
    from serve_datagram_sends [OF i assms(1-3) this] l q Inr pe show ?thesis by auto
  qed
qed

section \<open>One datagram ends the server\<close>

lemma receive_oversize:
  assumes "uk_set_timeout K fd t k = (Inr (), k1)" "t \<noteq> 0" "Suc b < 2 ^ 64"
    and "uk_recv_from K fd (b + 1) k1 = (Inr (data, peer), k2)" "b < length data"
  shows "receive K fd t b k = (Inl (Session Budget), k2)"
  using assms by (simp add: receive_def io_then_def io_call_def io_ret_def lift_err_def set_read_timeout_def
      ok_or_def usize_checked_add_def RECV_EXTRA_def)

text \<open>
  C38: One datagram that is longer than the budget stops the server, whoever sent it. \<open>receive\<close>
  reports it as an error, and \<open>serve\<close> returns on every error but a timeout, before it has asked
  whether the sender's address is allowed: all its sessions are gone. Section 7 of
  \<open>spec/0004-wire-format-v0.2.md\<close> has a received wire error drop the packet and nothing else.
\<close>

theorem oversize_datagram_stops_server:
  assumes "ss_successes st < op_max_sessions opts" "op_timeout opts \<noteq> 0" "Suc (op_budget opts) < 2 ^ 64"
    and "uk_set_timeout K fd (op_timeout opts) k = (Inr (), k1)"
    and "uk_recv_from K fd (op_budget opts + 1) k1 = (Inr (data, peer), k2)" "op_budget opts < length data"
  shows "serve_loop c K opts fd selector source_key started (Suc passes) (st, n, k)
    = Some (Inl (Session Budget), (st, n, k2))"
  using receive_oversize [OF assms(4,2,3,5,6)] assms(1)
  by (simp add: serve_loop.simps serve_pass_def on_kernel_def act_then_def)

section \<open>A server and its mailbox\<close>

text \<open>A network of two queues: what is on its way to the server, and what the server has sent.\<close>

record mailbox =
  mb_in :: "(bytes \<times> SocketAddr) list"
  mb_out :: "(bytes \<times> SocketAddr) list"

definition mail_kernel :: "mailbox udp_kernel" where
  "mail_kernel =
     \<lparr>uk_bind = (\<lambda>_ k. (Inr 3, k)),
      uk_setsockopt = (\<lambda>_ _ _ _ k. ((0, 0), k)),
      uk_send_to = (\<lambda>_ d a k. (Inr (length d), k\<lparr>mb_out := mb_out k @ [(d, a)]\<rparr>)),
      uk_recv_from = (\<lambda>_ n k. case mb_in k of
          [] \<Rightarrow> (Inl (Os_error EAGAIN), k)
        | (d, a) # ds \<Rightarrow> (Inr (take n d, a), k\<lparr>mb_in := ds\<rparr>)),
      uk_recv_waits = (\<lambda>_ _. False),
      uk_set_timeout = (\<lambda>_ _ k. (Inr (), k)),
      uk_resolve = (\<lambda>_ k. (Inr [], k)),
      uk_now = (\<lambda>k. (0, k)),
      uk_getrandom = (\<lambda>n k. (Some (replicate n 1), k)),
      uk_clock_gettime = (\<lambda>k. ((0, 0, 0), k)),
      uk_write = (\<lambda>_ d k. (int (length d), k))\<rparr>"

lemma mail_send_log: "send_log mail_kernel mb_out"
  by (auto simp: send_log_def mail_kernel_def split: list.splits)

definition loopback :: SocketAddr where
  "loopback = \<lparr>sa_ip = IpV4 [127, 0, 0, 1], sa_port = 9000, sa_flowinfo = 0, sa_scope_id = 0\<rparr>"

definition sample_options :: options where
  "sample_options =
     \<lparr>op_mode = Serve, op_local_seed = pad 32 [2], op_peer_key = pad 32 [1], op_service = 1, op_server_context = 1,
      op_source = replicate 16 2, op_destination = replicate 16 1, op_bind = loopback, op_peer = None,
      op_budget = 1252, op_timeout = 1000000000, op_max_sessions = 1, op_message = None, op_scid = None,
      op_ready_fd = None, op_isolated = False\<rparr>"

theorem oversize_datagram_stops_server_witness:
  "\<exists>st. ss_successes st < op_max_sessions sample_options \<and> \<not> allowed_underlay
      (loopback\<lparr>sa_ip := IpV4 [8, 8, 8, 8]\<rparr>) (op_isolated sample_options)
    \<and> serve_loop sample_crypto mail_kernel sample_options 3 [] [] 0 1
        (st, 1, \<lparr>mb_in = [(replicate 1253 0, loopback\<lparr>sa_ip := IpV4 [8, 8, 8, 8]\<rparr>)], mb_out = []\<rparr>)
      = Some (Inl (Session Budget), (st, 1, \<lparr>mb_in = [], mb_out = []\<rparr>))"
proof -
  let ?st = "\<lparr>ss_server = sample_server, ss_bindings = Map.empty, ss_limiter = PrevalidationLimiter_new,
          ss_successes = 0, ss_last_rotation = 0, ss_ready_sent = False\<rparr>"
  let ?a = "loopback\<lparr>sa_ip := IpV4 [8, 8, 8, 8]\<rparr>"
  let ?k = "\<lparr>mb_in = [(replicate 1253 0, ?a)], mb_out = []\<rparr>"
  have "serve_loop sample_crypto mail_kernel sample_options 3 [] [] 0 (Suc 0) (?st, 1, ?k)
      = Some (Inl (Session Budget), (?st, 1, \<lparr>mb_in = [], mb_out = []\<rparr>))"
    by (rule oversize_datagram_stops_server [of _ _ _ _ _ ?k "replicate 1253 0" ?a])
      (simp_all add: sample_options_def mail_kernel_def)
  moreover have "\<not> allowed_underlay ?a (op_isolated sample_options)"
    by (simp add: allowed_underlay_def sample_options_def loopback_def is_loopback.simps)
  moreover have "ss_successes ?st < op_max_sessions sample_options" by (simp add: sample_options_def)
  ultimately show ?thesis by (metis One_nat_def)
qed

text \<open>The first OPEN of an honest client gets its cookie.\<close>

lemma serve_packet_open:
  assumes h: "honest_pair c m (ss_server st) cm hm" and "scid \<noteq> 0" "282 \<le> op_budget opts"
    and v: "ObservedBinding_validate (Udp binding) = Inr ()"
    and fresh: "ss_limiter st = PrevalidationLimiter_new"
  obtains d l where "serve_packet c K opts source_key (client_open c m cm scid) endpoint binding 0 (st, n, k)
    = Some (Inr (Respond (Some d)), (st\<lparr>ss_limiter := l\<rparr>, n, k))"
    "ServerMachine_receive_open c (ss_server st) (client_open c m cm scid) (Udp binding) 0 = Inr d"
proof -
  let ?o = "client_open c m cm scid" and ?src = "opaque_source c endpoint source_key"
  obtain i where i: "cookie_input c (run_cookie_context c m (ss_server st) cm scid (Udp binding) 0) = Inr i"
    using run_cookie_input [OF h v] by blast
  obtain d where d: "ServerMachine_receive_open c (ss_server st) ?o (Udp binding) 0 = Inr d"
    using run_receive_open [OF h assms(2) v i] by blast
  have lo: "length ?o = 170"
    using open_body_length [OF h] honest_facts(5,6) [OF h] by (simp add: handshake_image_def length_header_image)
  have "fst (PrevalidationLimiter_admit PrevalidationLimiter_new ?src (length ?o) 170 0) = Inr ()"
    by (rule admit_ok [OF limiter_inv_new])
      (simp_all add: lo PrevalidationLimiter_new_def refill_def known_sources_def account_of_def)
  then obtain l where "PrevalidationLimiter_admit PrevalidationLimiter_new ?src (length ?o) 170 0 = (Inr (), l)"
    by (metis prod.collapse)
  with fresh d have "ServerMachine_receive_open_limited c (ss_server st) ?o (Udp binding) ?src 0 (0 div 10000)
      (ss_limiter st) = (Inr d, l)"
    by (simp add: ServerMachine_receive_open_limited_def)
  then have "serve_open c source_key ?o endpoint binding 0 (st, n, k)
      = Some (Inr (Respond (Some d)), (st\<lparr>ss_limiter := l\<rparr>, n, k))"
    by (simp add: serve_open_def ok_def)
  with client_open_unpacks(1) [OF h assms(2,3)] that d show ?thesis by (simp add: serve_packet_def)
qed

definition sample_partner :: client_machine where
  "sample_partner = sample_client\<lparr>cl_config := (sample_config 1 2)\<lparr>hc_profile := 0\<rparr>\<rparr>"

definition sample_serve :: serve_state where
  "sample_serve =
     \<lparr>ss_server =
        \<lparr>sv_config = serve_config (sample_identity 2) (sample_identity 1) sample_options, sv_signing_key = pad 32 [2],
         sv_material = \<lparr>svm_boot_instance = replicate 16 1, svm_current_cookie_key = replicate 32 1,
           svm_previous_cookie_key = replicate 32 1, svm_previous_key_rotated_ms = 0\<rparr>,
         sv_pending = [], sv_established = [], sv_local_loc = replicate 16 2, sv_peer_loc = replicate 16 1\<rparr>,
      ss_bindings = Map.empty, ss_limiter = PrevalidationLimiter_new,
      ss_successes = 0, ss_last_rotation = 0, ss_ready_sent = False\<rparr>"

lemma sample_from_key:
  "role = 1 \<or> role = 2 \<Longrightarrow>
   Identity_from_public_key sample_crypto role 1 (pad 32 [role]) = Inr (sample_identity role)"
  using sample_identity_ok [of role]
  by (auto simp: Identity_from_public_key_def Identity_validate_def sample_identity_def split: if_splits)

lemma sample_serve_config:
  "HandshakeConfig_validate sample_crypto (serve_config (sample_identity 2) (sample_identity 1) sample_options) = Inr ()"
  "HandshakeConfig_validate sample_crypto (cl_config sample_partner) = Inr ()"
  using sample_config_ok(1,2)
  by (simp_all add: HandshakeConfig_validate_Inr serve_config_def sample_options_def sample_config_def sample_partner_def)

lemma sample_serve_start:
  "serve_start sample_crypto mail_kernel sample_options k
    = (Inr (3, replicate 16 1, replicate 32 1, 0, sample_serve), k)"
proof -
  have k: "ed_verifying_key sample_crypto (pad 32 [2]) = pad 32 [2]" by (simp add: sample_crypto_def)
  have i: "Identity_from_public_key sample_crypto 2 1 (pad 32 [2]) = Inr (sample_identity 2)"
    "Identity_from_public_key sample_crypto 1 1 (pad 32 [1]) = Inr (sample_identity 1)"
    by (simp_all add: sample_from_key)
  have n: "ServerMachine_new sample_crypto (serve_config (sample_identity 2) (sample_identity 1) sample_options) (pad 32 [2])
      (sv_material (ss_server sample_serve)) = Inr (ss_server sample_serve)"
    using sample_serve_config(1)
    by (simp add: ServerMachine_new_def k sample_serve_def)
      (simp add: serve_config_def sample_identity_def sample_options_def)
  have a: "allowed_underlay loopback False" by (simp add: allowed_underlay_def loopback_def)
  show ?thesis
    using i n a unfolding serve_start_def
    by (simp add: io_then_def io_call_def io_ret_def lift_err_def random_def ok_or_def configure_df_def
        mail_kernel_def k sample_serve_def sample_options_def map_err_def Let_def)
qed

lemma sample_partner_honest:
  "honest_pair sample_crypto sample_partner (ss_server sample_serve) sample_client_material sample_server_material"
proof -
  have "ed_verifying_key sample_crypto [r] = id_public_key (sample_identity r)"
    "ed_verifying_key sample_crypto (pad 32 [r]) = id_public_key (sample_identity r)" for r
    by (simp_all add: sample_crypto_def sample_identity_def)
  then show ?thesis
    using sample_crypto_ok sample_serve_config
    by (simp add: honest_pair_def matched_def sample_client_material_def sample_server_material_def
        sample_partner_def sample_client_def sample_serve_def)
      (simp add: sample_config_def serve_config_def sample_options_def wf_config_def)
qed

lemma sample_lengths: "aead_ok sample_crypto" "aead_length sample_crypto"
    "length (op_source sample_options) = 16" "length (op_destination sample_options) = 16"
  using sample_crypto_ok
  by (simp_all add: crypto_ok_def aead_length_def sample_options_def) (simp add: sample_crypto_def)

definition sample_mail :: mailbox where
  "sample_mail = \<lparr>mb_in = [(client_open sample_crypto sample_partner sample_client_material 7, loopback)], mb_out = []\<rparr>"

text \<open>The binding of an endpoint with a port is valid: it parses.\<close>

lemma endpoint_binding_valid:
  assumes "sa_port endpoint \<noteq> 0" "length selector = 16"
    and "case sa_ip endpoint of IpV4 a \<Rightarrow> length a = 4 | IpV6 a \<Rightarrow> length a = 16"
  shows "\<exists>b. endpoint_binding endpoint selector = Inr b \<and> ObservedBinding_validate (Udp b) = Inr ()"
proof (cases "sa_ip endpoint")
  case (IpV4 a)
  then obtain b where "UdpBinding_ipv4 a (sa_port endpoint) 1 selector = Inr b"
    using assms(1) by (auto simp: UdpBinding_ipv4_def Let_def)
  with udp_ipv4_parses [OF _ assms(2) this, THEN conjunct2] assms(3) IpV4 show ?thesis
    by (simp add: endpoint_binding_def)
next
  case (IpV6 a)
  then obtain b where "UdpBinding_ipv6 a (sa_port endpoint) 1 selector = Inr b"
    using assms(1) by (auto simp: UdpBinding_ipv6_def)
  with udp_ipv6_parses [OF _ assms(2) this] assms(3) IpV6 show ?thesis by (simp add: endpoint_binding_def)
qed

lemma mail_receive:
  assumes "mb_in k = (d, a) # ds" "length d \<le> b" "t \<noteq> 0" "Suc b < 2 ^ 64"
  shows "receive mail_kernel fd t b k = (Inr (d, a), k\<lparr>mb_in := ds\<rparr>)"
  using assms by (simp add: receive_def io_then_def io_call_def io_ret_def lift_err_def set_read_timeout_def
      ok_or_def usize_checked_add_def RECV_EXTRA_def mail_kernel_def)

lemma sample_pass:
  "\<exists>d st. serve_pass sample_crypto mail_kernel sample_options 3 (replicate 16 1) (replicate 32 1) 0
      (sample_serve, 1, sample_mail) = Some (Inr True, (st, 1, \<lparr>mb_in = [], mb_out = [(d, loopback)]\<rparr>))"
proof -
  let ?o = "client_open sample_crypto sample_partner sample_client_material 7"
  have h: "honest_pair sample_crypto sample_partner (ss_server sample_serve) sample_client_material sample_server_material"
    by (rule sample_partner_honest)
  have lo: "length ?o = 170"
    using open_body_length [OF h] honest_facts(5,6) [OF h] by (simp add: handshake_image_def length_header_image)
  have "mb_in sample_mail = (?o, loopback) # []" by (simp add: sample_mail_def)
  from mail_receive [OF this, of 1252 1000000000] lo
  have rc: "receive mail_kernel 3 1000000000 1252 sample_mail
      = (Inr (?o, loopback), \<lparr>mb_in = [], mb_out = []\<rparr>)" by (simp add: sample_mail_def)
  obtain b where b: "endpoint_binding loopback (replicate 16 1) = Inr b" "ObservedBinding_validate (Udp b) = Inr ()"
    using endpoint_binding_valid [of loopback "replicate 16 1"] by (auto simp: loopback_def)
  have fresh: "ss_limiter sample_serve = PrevalidationLimiter_new" by (simp add: sample_serve_def)
  obtain d l where p: "serve_packet sample_crypto mail_kernel sample_options (replicate 32 1) ?o loopback b 0
      (sample_serve, 1, \<lparr>mb_in = [], mb_out = []\<rparr>)
      = Some (Inr (Respond (Some d)), (sample_serve\<lparr>ss_limiter := l\<rparr>, 1, \<lparr>mb_in = [], mb_out = []\<rparr>))"
    by (rule serve_packet_open [OF h _ _ b(2) fresh, of 7 sample_options]) (simp_all add: sample_options_def)
  have o: "op_timeout sample_options = 1000000000" "op_budget sample_options = 1252" "\<not> op_isolated sample_options"
    by (simp_all add: sample_options_def)
  have a: "allowed_underlay loopback False" by (simp add: allowed_underlay_def loopback_def)
  have t: "elapsed_ms mail_kernel 0 k = (0, k)" for k by (simp add: elapsed_ms_def mail_kernel_def)
  have r: "rotate_cookie mail_kernel 0 (sample_serve, 1, k) = Some (Inr (), (sample_serve, 1, k))" for k
    by (simp add: rotate_cookie_def saturating_sub_def)
  have s: "send mail_kernel 3 d loopback \<lparr>mb_in = [], mb_out = []\<rparr>
      = (Inr (), \<lparr>mb_in = [], mb_out = [(d, loopback)]\<rparr>)"
    by (simp add: send_def io_call_def io_ret_def mail_kernel_def)
  show ?thesis
    by (simp add: serve_pass_def on_kernel_def o rc act_then_def serve_datagram_def a b(1) t r p s act_ret_def)
qed

theorem serve_answers_in_kind_witness:
  "\<exists>st r st' k'. serve_start sample_crypto mail_kernel sample_options sample_mail
      = (Inr (3, replicate 16 1, replicate 32 1, 0, st), sample_mail)
    \<and> serve_pass sample_crypto mail_kernel sample_options 3 (replicate 16 1) (replicate 32 1) 0
        (st, 1, sample_mail) = Some (r, (st', 1, k'))
    \<and> mb_out k' \<noteq> mb_out sample_mail
    \<and> (\<exists>packet endpoint d k2. receive mail_kernel 3 (op_timeout sample_options) (op_budget sample_options) sample_mail
          = (Inr (packet, endpoint), k2)
       \<and> allowed_underlay endpoint (op_isolated sample_options) \<and> length d \<le> length packet
       \<and> mb_out k' = mb_out sample_mail @ [(d, endpoint)])"
proof -
  obtain d st where p: "serve_pass sample_crypto mail_kernel sample_options 3 (replicate 16 1) (replicate 32 1) 0
      (sample_serve, 1, sample_mail) = Some (Inr True, (st, 1, \<lparr>mb_in = [], mb_out = [(d, loopback)]\<rparr>))"
    using sample_pass by blast
  have "mb_out \<lparr>mb_in = [], mb_out = [(d, loopback)]\<rparr> \<noteq> mb_out sample_mail" by (simp add: sample_mail_def)
  with serve_answers_in_kind [OF sample_lengths(1,2) mail_send_log sample_lengths(3,4) sample_serve_start _ p, of 1]
    sample_serve_start p show ?thesis by blast
qed

lemma sample_close_unpacks:
  "\<exists>packet. unpack_with_budget packet 1252 =
     Inr (session_header 0 1 0 7 (replicate 16 1) (replicate 16 2), [CLOSE, 1, 0, 0])"
proof -
  let ?h = "session_header 0 1 0 7 (replicate 16 1) (replicate 16 2)"
  have "wf_header ?h" by (simp add: session_header_def wf_header_def)
  moreover have "\<exists>d. pack_with_budget ?h [CLOSE, 1, 0, 0] 1252 = Inr d"
    by (simp add: pack_with_budget_def session_header_def checked_packet_len_def usize_checked_add_def
        validate_header_def known_next_header_def validate_ses_header_def u16_try_from_def wire_consts session_consts)
  ultimately show ?thesis using wire.dec_iff_enc [of _ 1252 "(?h, [CLOSE, 1, 0, 0])"] by auto
qed

theorem serve_invariant_witness:
  "\<exists>st' k packet h b. serve_start sample_crypto mail_kernel sample_options sample_mail
      = (Inr (3, replicate 16 1, replicate 32 1, 0, sample_serve), sample_mail)
    \<and> serve_step sample_crypto mail_kernel sample_options 3 (replicate 16 1) (replicate 32 1) 0
        (sample_serve, 1, sample_mail) (st', 1, k)
    \<and> length (sv_pending (ss_server st')) \<le> 256 \<and> card (dom (ss_bindings st')) \<le> 1280
    \<and> unpack_with_budget packet (op_budget sample_options) = Inr (h, [CLOSE, 1, 0, 0])
    \<and> serve_packet sample_crypto mail_kernel sample_options (replicate 32 1) packet loopback b 0
         (sample_serve, 1, sample_mail) = Some (Inr Skip, (sample_serve, 1, sample_mail))"
proof -
  obtain d st where p: "serve_step sample_crypto mail_kernel sample_options 3 (replicate 16 1) (replicate 32 1) 0
      (sample_serve, 1, sample_mail) (st, 1, \<lparr>mb_in = [], mb_out = [(d, loopback)]\<rparr>)"
    using sample_pass unfolding serve_step_def by blast
  note i = serve_invariant [OF sample_lengths sample_serve_start]
  obtain packet h where u: "unpack_with_budget packet (op_budget sample_options) = Inr (h, [CLOSE, 1, 0, 0])"
    using sample_close_unpacks by (auto simp: sample_options_def)
  have "serve_packet sample_crypto mail_kernel sample_options (replicate 32 1) packet loopback undefined 0
      (sample_serve, 1, sample_mail) = Some (Inr Skip, (sample_serve, 1, sample_mail))"
    using i [OF rtranclp.rtrancl_refl] u by (simp add: sample_serve_def)
  moreover have "length (sv_pending (ss_server st)) \<le> 256" "card (dom (ss_bindings st)) \<le> 1280"
    using i [OF r_into_rtranclp [of "serve_step _ _ _ _ _ _ _", OF p]] by blast+
  ultimately show ?thesis using sample_serve_start p u by blast
qed

end
