(* ===== verification/Redundant_Native.thy ===== *)
theory Redundant_Native
  imports Redundant Linux_Socket Udp_Socket
begin

text \<open>
  The executable \<open>r8-redundant-native\<close>
  (\<open>src/rust/crates/r8-redundant/src/bin/r8-redundant-native.rs\<close>): one end of a Profile-3 session over
  two packet sockets. It drops its privileges, runs the handshake on the first interface, moves to
  the second one with the candidate manager, opens slot 1 with the admission this yields, and sends
  or receives one redundant delivery. The system calls are the fields of a record; a step returns
  \<open>None\<close> for a panic or a loop that does not end.
\<close>

section \<open>Arguments\<close>

definition CONTROL_RETRY_DELAYS :: "nat list" where
  "CONTROL_RETRY_DELAYS = [500000000, 1000000000, 2000000000]"

definition CLIENT_LOC :: bytes where
  "CLIENT_LOC = [0, 17, 34, 51, 68, 85, 102, 119, 136, 153, 170, 187, 204, 221, 238, 255]"

definition SERVER_LOC :: bytes where
  "SERVER_LOC = [255, 238, 221, 204, 187, 170, 153, 136, 119, 102, 85, 68, 51, 34, 17, 0]"

definition KEY_FD :: int where "KEY_FD = 3"
definition KEY_MATERIAL_LEN :: nat where "KEY_MATERIAL_LEN = 64"
definition ENDPOINT_UID :: u32 where "ENDPOINT_UID = 65534"
definition ENDPOINT_GID :: u32 where "ENDPOINT_GID = 65534"

datatype EndMode = Send | Receive

record end_args =
  ea_mode :: EndMode
  ea_interfaces :: "string list"
  ea_local :: "bytes list"
  ea_peer :: "bytes list"

text \<open>\<open>str::split\<close> at a character.\<close>

fun split_char :: "char \<Rightarrow> string \<Rightarrow> string list" where
  "split_char sep [] = [[]]"
| "split_char sep (c # cs) =
     (if c = sep then [] # split_char sep cs
      else case split_char sep cs of [] \<Rightarrow> [[c]] | part # parts \<Rightarrow> (c # part) # parts)"

fun mac_loop :: "string list \<Rightarrow> bytes option" where
  "mac_loop [] = Some []"
| "mac_loop (part # parts) =
     (if length part \<noteq> 2 then None
      else Option.bind (from_str_radix 8 16 part) (\<lambda>value.
        map_option (\<lambda>mac. of_nat value # mac) (mac_loop parts)))"

definition parse_mac :: "string \<Rightarrow> bytes option" where
  "parse_mac value =
     (let parts = split_char CHR '':'' value in if length parts \<noteq> 6 then None else mac_loop parts)"

definition end_arguments :: "string list \<Rightarrow> end_args option" where
  "end_arguments values =
     (if length values \<noteq> 8 then None
      else
        Option.bind (if values ! 1 = ''send'' then Some Send
          else if values ! 1 = ''receive'' then Some Receive else None) (\<lambda>mode.
        Option.bind (parse_mac (values ! 4)) (\<lambda>local0.
        Option.bind (parse_mac (values ! 6)) (\<lambda>local1.
        Option.bind (parse_mac (values ! 5)) (\<lambda>peer0.
        Option.bind (parse_mac (values ! 7)) (\<lambda>peer1.
          Some \<lparr>ea_mode = mode, ea_interfaces = [values ! 2, values ! 3], ea_local = [local0, local1],
            ea_peer = [peer0, peer1]\<rparr>))))))"

definition native_binding :: "u32 \<Rightarrow> bytes \<Rightarrow> ObservedBinding" where
  "native_binding ifid source = Native ifid source"

section \<open>System calls\<close>

text \<open>The address \<open>recvfrom\<close> fills in, with the length it reports.\<close>

record packet_address =
  pk_len :: nat
  pk_ifindex :: int
  pk_halen :: u8
  pk_addr :: bytes

definition SOCKADDR_LL_LEN :: nat where "SOCKADDR_LL_LEN = 20"

text \<open>
  \<open>ek_poll\<close> takes milliseconds; it and \<open>ek_recvfrom\<close> return their result and \<open>errno\<close>. A read returns its
  result and the bytes it stored. \<open>ek_sendto\<close> takes the frame, the address and its hardware part.
  \<open>ek_poll_waits\<close> and \<open>ek_recv_waits\<close> tell whether \<open>poll\<close> with that timeout or \<open>recvfrom\<close> would wait for
  ever.
\<close>

record 'k end_kernel =
  ek_cred :: "'k cred_kernel"
  ek_sock :: "'k socket_kernel"
  ek_geteuid :: "'k \<Rightarrow> u32 \<times> 'k"
  ek_fcntl_getfd :: "int \<Rightarrow> 'k \<Rightarrow> int \<times> 'k"
  ek_fstat_mode :: "int \<Rightarrow> 'k \<Rightarrow> (int \<times> u32) \<times> 'k"
  ek_read :: "int \<Rightarrow> nat \<Rightarrow> 'k \<Rightarrow> (int \<times> bytes) \<times> 'k"
  ek_getrandom :: "nat \<Rightarrow> 'k \<Rightarrow> (int \<times> bytes) \<times> 'k"
  ek_nametoindex :: "string \<Rightarrow> 'k \<Rightarrow> u32 \<times> 'k"
  ek_sendto :: "int \<Rightarrow> bytes \<Rightarrow> sockaddr_ll \<Rightarrow> bytes \<Rightarrow> 'k \<Rightarrow> int \<times> 'k"
  ek_poll :: "int \<Rightarrow> int \<Rightarrow> 'k \<Rightarrow> (int \<times> int) \<times> 'k"
  ek_poll_waits :: "int \<Rightarrow> int \<Rightarrow> 'k \<Rightarrow> bool"
  ek_recv_waits :: "int \<Rightarrow> 'k \<Rightarrow> bool"
  ek_recvfrom :: "int \<Rightarrow> nat \<Rightarrow> 'k \<Rightarrow> (int \<times> int \<times> bytes \<times> packet_address) \<times> 'k"
  ek_now :: "'k \<Rightarrow> nat \<times> 'k"

type_synonym ('k, 'a) step = "'k \<Rightarrow> ((unit + 'a) \<times> 'k) option"

text \<open>A buffer filled by calls that may store less than they are asked for; \<open>value[filled..]\<close> panics
  when a call claims to have stored more.\<close>

function fill_loop :: "(nat \<Rightarrow> 'k \<Rightarrow> (int \<times> bytes) \<times> 'k) \<Rightarrow> bytes \<Rightarrow> nat \<Rightarrow> ('k, bytes) step" where
  "fill_loop get value filled k =
     (if filled = length value then Some (Inr value, k)
      else if length value < filled then None
      else case get (length value - filled) k of
        ((stored, got), k) \<Rightarrow>
          if stored \<le> 0 then Some (Inl (), k)
          else fill_loop get (copy_at filled (take (length value - filled) got) value)
                 (filled + nat stored) k)"
  by pat_completeness auto
termination by (relation "measure (\<lambda>(get, value, filled, k). length value - filled)") auto

declare fill_loop.simps [simp del]

definition end_random :: "'k end_kernel \<Rightarrow> nat \<Rightarrow> ('k, bytes) step" where
  "end_random K n = fill_loop (ek_getrandom K) (replicate n 0) 0"

partial_function (option) end_random_scid :: "'k end_kernel \<Rightarrow> ('k, u64) step" where
  "end_random_scid K k =
     (case end_random K 8 k of
        None \<Rightarrow> None
      | Some (Inl e, k) \<Rightarrow> Some (Inl e, k)
      | Some (Inr bs, k) \<Rightarrow>
          if u64_from_be_bytes bs \<noteq> 0 then Some (Inr (u64_from_be_bytes bs), k) else end_random_scid K k)"

record credentials =
  cr_signing :: bytes
  cr_local :: identity
  cr_peer :: identity

definition S_IFMT :: u32 where "S_IFMT = 0xF000"
definition S_IFSOCK :: u32 where "S_IFSOCK = 0xC000"

text \<open>What the owned descriptor guards; it is closed on every way out.\<close>

definition read_credentials :: "crypto \<Rightarrow> 'k end_kernel \<Rightarrow> u8 \<Rightarrow> ('k, credentials) step" where
  "read_credentials c K role =
     act_then (fill_loop (ek_read K KEY_FD) (replicate KEY_MATERIAL_LEN 0) 0) (\<lambda>material k.
       case ek_read K KEY_FD 1 k of
         ((stored, _), k) \<Rightarrow>
           if stored \<noteq> 0 then Some (Inl (), k)
           else
             let signing = take 32 material; peer_public = drop 32 material in
             Some (map_err (\<lambda>_. ())
               (and_then (Identity_from_public_key c role 7 (ed_verifying_key c signing)) (\<lambda>local_id.
                and_then (Identity_from_public_key c (if role = 1 then 2 else 1) 7 peer_public) (\<lambda>peer_id.
                  Inr \<lparr>cr_signing = signing, cr_local = local_id, cr_peer = peer_id\<rparr>))), k))"

definition load_credentials :: "crypto \<Rightarrow> 'k end_kernel \<Rightarrow> u8 \<Rightarrow> ('k, credentials) step" where
  "load_credentials c K role k =
     (case ek_fcntl_getfd K KEY_FD k of (r, k) \<Rightarrow>
        if r = - 1 then Some (Inl (), k)
        else case ek_fstat_mode K KEY_FD k of ((r, mode), k) \<Rightarrow>
          if r \<noteq> 0 \<or> mode AND S_IFMT = S_IFSOCK then Some (Inl (), k)
          else map_option (\<lambda>(r, k). (r, sk_close (ek_sock K) KEY_FD k)) (read_credentials c K role k))"

section \<open>Packet sockets\<close>

text \<open>The errors of \<open>socket\<close> and \<open>transmit\<close> are never looked at. \<open>CString::new\<close> refuses a name with a
  zero byte.\<close>

definition packet_socket :: "'k end_kernel \<Rightarrow> string \<Rightarrow> 'k \<Rightarrow> (unit + int \<times> int) \<times> 'k" where
  "packet_socket K interface =
     (if CHR 0x00 \<in> set interface then io_ret (Inl ())
      else io_call (ek_nametoindex K interface) (\<lambda>i.
        let index = sint i in
        if index \<le> 0 then io_ret (Inl ())
        else io_call (sk_socket (ek_sock K) AF_PACKET (SOCK_RAW OR SOCK_CLOEXEC) (uint (u16_to_be ETH_P_R8))) (\<lambda>fd.
          if fd < 0 then io_ret (Inl ())
          else owning (sk_close (ek_sock K)) fd
            (io_call (sk_setsockopt (ek_sock K) fd SOL_PACKET PACKET_IGNORE_OUTGOING (Opt_int 1)) (\<lambda>(r, _).
             if r \<noteq> 0 then io_ret (Inl ())
             else io_then (zero_or () (sk_bind (ek_sock K) fd
               \<lparr>sll_protocol = u16_to_be ETH_P_R8, sll_ifindex = index\<rparr>)) (\<lambda>_.
               io_ret (Inr (fd, index))))))))"

text \<open>\<open>ClientCarrier\<close>; the functions that take its parts one by one take it whole.\<close>

record carrier =
  ca_fd :: int
  ca_index :: int
  ca_local :: bytes
  ca_peer :: bytes
  ca_descriptor_id :: u32

definition frame_to :: "bytes \<Rightarrow> bytes \<Rightarrow> bytes \<Rightarrow> bytes" where
  "frame_to peer local_mac payload = peer @ local_mac @ u16_to_be_bytes ETH_P_R8 @ payload"

definition transmit :: "'k end_kernel \<Rightarrow> carrier \<Rightarrow> bytes \<Rightarrow> 'k \<Rightarrow> (unit + unit) \<times> 'k" where
  "transmit K ca payload =
     (case usize_checked_add 14 (length payload) of
        None \<Rightarrow> io_ret (Inl ())
      | Some _ \<Rightarrow>
        if length payload > 1280 then io_ret (Inl ())
        else
          let frame = frame_to (ca_peer ca) (ca_local ca) payload in
          io_call (ek_sendto K (ca_fd ca) frame
            \<lparr>sll_protocol = u16_to_be ETH_P_R8, sll_ifindex = ca_index ca\<rparr> (ca_peer ca)) (\<lambda>sent.
            io_ret (if sent < 0 \<or> nat sent \<noteq> length frame then Inl () else Inr ())))"

definition MAX_FRAME_LEN :: nat where "MAX_FRAME_LEN = 14 + 1280"

definition accepted_frame :: "bytes \<Rightarrow> nat \<Rightarrow> bytes \<Rightarrow> bytes \<Rightarrow> bytes option" where
  "accepted_frame buffer stored local_mac peer =
     (if \<not> (14 \<le> stored \<and> stored \<le> MAX_FRAME_LEN) \<or> length buffer < stored
         \<or> slice_of 0 6 buffer \<noteq> local_mac \<or> slice_of 6 12 buffer \<noteq> peer
         \<or> slice_of 12 14 buffer \<noteq> u16_to_be_bytes ETH_P_R8
      then None
      else Some (slice_of 14 stored buffer))"

text \<open>The zeroed buffer with what \<open>recvfrom\<close> stored in it.\<close>

definition filled_buffer :: "bytes \<Rightarrow> bytes" where
  "filled_buffer data = take (MAX_FRAME_LEN + 1) (data @ replicate (MAX_FRAME_LEN + 1) 0)"

text \<open>Milliseconds for \<open>poll\<close>: at most \<open>i32::MAX\<close>. \<open>None\<close> is a loop that does not end or a call that does
  not return.\<close>

definition poll_timeout :: "nat \<Rightarrow> int" where
  "poll_timeout left = int (min (left div 1000000) (2 ^ 31 - 1))"

partial_function (option) receive_frame ::
    "'k end_kernel \<Rightarrow> carrier \<Rightarrow> nat \<Rightarrow> 'k \<Rightarrow> ((int + bytes \<times> bytes) \<times> 'k) option" where
  "receive_frame K ca deadline k =
     (case ek_now K k of (now, k) \<Rightarrow>
       if deadline < now then Some (Inl ETIMEDOUT, k)
       else if ek_poll_waits K (ca_fd ca) (poll_timeout (deadline - now)) k then None
       else case ek_poll K (ca_fd ca) (poll_timeout (deadline - now)) k of ((ready, errno), k) \<Rightarrow>
         if ready = 0 then Some (Inl ETIMEDOUT, k)
         else if ready < 0 then Some (Inl errno, k)
         else if ek_recv_waits K (ca_fd ca) k then None
         else case ek_recvfrom K (ca_fd ca) (MAX_FRAME_LEN + 1) k of ((stored, errno, data, address), k) \<Rightarrow>
           if stored < 0 then Some (Inl errno, k)
           else if pk_len address \<noteq> SOCKADDR_LL_LEN \<or> pk_ifindex address \<noteq> ca_index ca \<or> pk_halen address \<noteq> 6
           then receive_frame K ca deadline k
           else
             let source = take 6 (pk_addr address) in
             if source \<noteq> ca_peer ca then receive_frame K ca deadline k
             else case accepted_frame (filled_buffer data) (nat stored) (ca_local ca) (ca_peer ca) of
                 Some payload \<Rightarrow> Some (Inr (payload, source), k)
               | None \<Rightarrow> receive_frame K ca deadline k)"

definition receive_control :: "'k end_kernel \<Rightarrow> carrier \<Rightarrow> nat \<Rightarrow> ('k, bytes \<times> ObservedBinding) step" where
  "receive_control K ca deadline k =
     map_option (\<lambda>(r, k). (case r of
         Inl _ \<Rightarrow> Inl ()
       | Inr (packet, source) \<Rightarrow> Inr (packet, native_binding (ca_descriptor_id ca) source), k))
       (receive_frame K ca deadline k)"

section \<open>Time\<close>

text \<open>An \<open>Instant\<close> is a number of nanoseconds whose seconds fit an \<open>i64\<close>.\<close>

definition instant_add :: "nat \<Rightarrow> nat \<Rightarrow> nat option" where
  "instant_add t d = (if (t + d) div 1000000000 < 2 ^ 63 then Some (t + d) else None)"

definition control_retry_offset :: "nat \<Rightarrow> nat" where
  "control_retry_offset index = sum_list (take (Suc index) CONTROL_RETRY_DELAYS)"

definition end_elapsed_ms :: "'k end_kernel \<Rightarrow> nat \<Rightarrow> 'k \<Rightarrow> (unit + u64) \<times> 'k" where
  "end_elapsed_ms K start =
     io_call (ek_now K) (\<lambda>now.
       let ms = (now - start) div 1000000 in io_ret (if ms < 2 ^ 64 then Inr (of_nat ms) else Inl ()))"

definition deadline_after :: "'k end_kernel \<Rightarrow> nat \<Rightarrow> 'k \<Rightarrow> (unit + nat) \<times> 'k" where
  "deadline_after K duration = io_call (ek_now K) (\<lambda>now. io_ret (ok_or () (instant_add now duration)))"

definition deadline_at_ms :: "nat \<Rightarrow> u64 \<Rightarrow> unit + nat" where
  "deadline_at_ms start absolute_ms = ok_or () (instant_add start (unat absolute_ms * 1000000))"

section \<open>The client's waiting\<close>

function skip_retries :: "'k end_kernel \<Rightarrow> nat \<Rightarrow> nat \<Rightarrow> 'k \<Rightarrow> (unit + nat) \<times> 'k" where
  "skip_retries K started next_retry k =
     (if next_retry < length CONTROL_RETRY_DELAYS then
        (case instant_add started (control_retry_offset next_retry) of
           None \<Rightarrow> (Inl (), k)
         | Some t \<Rightarrow>
           (case ek_now K k of (now, k) \<Rightarrow>
              if t \<le> now then skip_retries K started (Suc next_retry) k else (Inr next_retry, k)))
      else (Inr next_retry, k))"
  by pat_completeness auto
termination by (relation "measure (\<lambda>(K, started, i, k). length CONTROL_RETRY_DELAYS - i)") auto

declare skip_retries.simps [simp del]

definition retry_deadline :: "nat \<Rightarrow> nat \<Rightarrow> nat \<Rightarrow> nat option" where
  "retry_deadline started deadline next_retry =
     (if next_retry < length CONTROL_RETRY_DELAYS
      then map_option (\<lambda>t. min t deadline) (instant_add started (control_retry_offset next_retry))
      else Some deadline)"

definition send_retry ::
    "'k end_kernel \<Rightarrow> carrier \<Rightarrow> nat \<Rightarrow> client_machine \<Rightarrow> 'k \<Rightarrow> (unit + client_machine) \<times> 'k" where
  "send_retry K ca started client =
     io_then (end_elapsed_ms K started) (\<lambda>now.
       case ClientMachine_retry client now of
         (Inl _, _) \<Rightarrow> io_ret (Inl ())
       | (Inr retry, client) \<Rightarrow> io_then (transmit K ca retry) (\<lambda>_. io_ret (Inr client)))"

function client_control_loop ::
    "'k end_kernel \<Rightarrow> carrier \<Rightarrow> nat \<Rightarrow> nat \<Rightarrow> client_machine \<Rightarrow> nat \<Rightarrow>
      ('k, bytes \<times> client_machine \<times> nat) step" where
  "client_control_loop K ca started deadline client next_retry k =
     (case retry_deadline started deadline next_retry of
        None \<Rightarrow> Some (Inl (), k)
      | Some limit \<Rightarrow>
        (case receive_frame K ca limit k of
           None \<Rightarrow> None
         | Some (Inr (packet, source), k) \<Rightarrow> Some (Inr (packet, client, next_retry), k)
         | Some (Inl e, k) \<Rightarrow>
             if e = ETIMEDOUT \<and> next_retry < length CONTROL_RETRY_DELAYS \<and> limit < deadline then
               (case send_retry K ca started client k of
                  (Inl _, k) \<Rightarrow> Some (Inl (), k)
                | (Inr client, k) \<Rightarrow> client_control_loop K ca started deadline client (Suc next_retry) k)
             else Some (Inl (), k)))"
  by pat_completeness auto
termination
  by (relation "measure (\<lambda>(K, ca, started, deadline, client, i, k). length CONTROL_RETRY_DELAYS - i)") auto

declare client_control_loop.simps [simp del]

text \<open>The binding it also returns is never used.\<close>

definition receive_client_control ::
    "'k end_kernel \<Rightarrow> carrier \<Rightarrow> nat \<Rightarrow> nat \<Rightarrow> client_machine \<Rightarrow> nat \<Rightarrow>
      ('k, bytes \<times> client_machine \<times> nat) step" where
  "receive_client_control K ca started deadline client next_retry k =
     (case skip_retries K started next_retry k of
        (Inl _, k) \<Rightarrow> Some (Inl (), k)
      | (Inr next_retry, k) \<Rightarrow> client_control_loop K ca started deadline client next_retry k)"

section \<open>The process\<close>

text \<open>The process-wide counters of the three crates and the leases, beside the kernel.\<close>

record 'k process =
  pr_kernel :: 'k
  pr_owner :: u64
  pr_receive :: u64
  pr_manager :: u64
  pr_leases :: lease_heap

type_synonym ('k, 'a) prog = "('k process, 'a) step"

definition kernel_step :: "('k, 'a) step \<Rightarrow> ('k, 'a) prog" where
  "kernel_step m w = map_option (\<lambda>(r, k). (r, w\<lparr>pr_kernel := k\<rparr>)) (m (pr_kernel w))"

definition kernel_call :: "('k \<Rightarrow> (unit + 'a) \<times> 'k) \<Rightarrow> ('k, 'a) prog" where
  "kernel_call m = kernel_step (\<lambda>k. Some (m k))"

definition the_ok :: "'e + 'a \<Rightarrow> ('k, 'a) prog" where
  "the_ok r = act_ret (map_err (\<lambda>_. ()) r)"

definition end_manager ::
    "crypto \<Rightarrow> 'k end_kernel \<Rightarrow> credentials \<Rightarrow> bytes \<Rightarrow> bytes \<Rightarrow> u64 \<Rightarrow> ObservedBinding \<Rightarrow> admission_owner \<Rightarrow>
      ('k, candidate_manager) prog" where
  "end_manager c K cr local_loc peer_loc scid binding owner =
     act_then (kernel_step (end_random K 32)) (\<lambda>secret w.
       case CandidateManager_new_with_profile3_admission_owner c
         \<lparr>cc_signing = cr_signing cr, cc_local = cr_local cr, cc_peer = cr_peer cr, cc_profile = 3,
          cc_scid = scid, cc_policy_id = 9, cc_local_loc = local_loc, cc_peer_loc = peer_loc,
          cc_initial_peer_binding = binding, cc_candidate_secret = secret\<rparr> owner (pr_manager w) of
         Inl _ \<Rightarrow> Some (Inl (), w)
       | Inr (manager, n) \<Rightarrow> Some (Inr manager, w\<lparr>pr_manager := n\<rparr>))"

definition commit_control ::
    "crypto \<Rightarrow> redundant_session \<Rightarrow> candidate_manager \<Rightarrow> ObservedBinding \<Rightarrow> bytes \<Rightarrow> u64 \<Rightarrow>
      ('k, Control option \<times> redundant_session \<times> candidate_manager) prog" where
  "commit_control c receiver manager observed packet now w =
     (case RedundantSession_preview_mobility_inbound c receiver (pr_leases w) 0 observed packet now of
        (Inl _, _, lh) \<Rightarrow> Some (Inl (), w\<lparr>pr_leases := lh\<rparr>)
      | (Inr preview, receiver, lh) \<Rightarrow>
        (case RedundantSession_prepare_mobility_commit c receiver lh manager observed preview now of
           (Inl _, lh) \<Rightarrow> Some (Inl (), w\<lparr>pr_leases := lh\<rparr>)
         | (Inr commit, lh) \<Rightarrow>
           (case RedundantSession_mobility_response c manager commit of
              Inl _ \<Rightarrow> Some (Inl (), w\<lparr>pr_leases := drop_lease (mi_lease commit) lh\<rparr>)
            | Inr response \<Rightarrow>
              (case RedundantSession_commit_mobility c receiver lh manager commit of
                 None \<Rightarrow> None
               | Some (Inl _, _, lh, _) \<Rightarrow> Some (Inl (), w\<lparr>pr_leases := lh\<rparr>)
               | Some (Inr _, receiver, lh, manager) \<Rightarrow>
                   Some (Inr (response, receiver, manager), w\<lparr>pr_leases := lh\<rparr>)))))"

definition end_config :: "credentials \<Rightarrow> handshake_config" where
  "end_config cr =
     \<lparr>hc_local = cr_local cr, hc_peer = cr_peer cr, hc_profile = 3, hc_source = CLIENT_LOC,
      hc_destination = SERVER_LOC, hc_budget = 1280, hc_pending_limit = 4, hc_established_limit = 4,
      hc_server_context_id = 1\<rparr>"

text \<open>The end of both handshakes: a session over the bootstrap, from a random delivery id.\<close>

definition new_redundant ::
    "'k end_kernel \<Rightarrow> profile3_bootstrap \<Rightarrow> ObservedBinding \<Rightarrow> ('k, redundant_session) prog" where
  "new_redundant K bootstrap binding =
     act_then (kernel_step (end_random_scid K)) (\<lambda>delivery w.
       case RedundantSession_new bootstrap binding delivery (pr_receive w) of
         Inl _ \<Rightarrow> Some (Inl (), w)
       | Inr (session, n) \<Rightarrow> Some (Inr session, w\<lparr>pr_receive := n\<rparr>))"

definition client_session ::
    "crypto \<Rightarrow> 'k end_kernel \<Rightarrow> credentials \<Rightarrow> carrier \<Rightarrow> ('k, redundant_session \<times> u64) prog" where
  "client_session c K cr ca =
     act_then (kernel_step (end_random_scid K)) (\<lambda>scid.
     act_then (the_ok (ClientMachine_new c (end_config cr) (cr_signing cr))) (\<lambda>client.
     act_then (kernel_step (end_random K 32)) (\<lambda>ephemeral_secret.
     act_then (kernel_step (end_random K 32)) (\<lambda>nonce.
     case ClientMachine_start c client scid \<lparr>cm_ephemeral_secret = ephemeral_secret, cm_nonce = nonce\<rparr> 0 of
       (started_ok, client) \<Rightarrow>
     act_then (the_ok started_ok) (\<lambda>opening.
     act_then (kernel_call (io_call (ek_now K) (\<lambda>now. io_ret (Inr now)))) (\<lambda>started.
     act_then (act_ret (ok_or () (instant_add started 5000000000))) (\<lambda>deadline.
     act_then (kernel_call (transmit K ca opening)) (\<lambda>_.
     act_then (kernel_step (receive_client_control K ca started deadline client 0)) (\<lambda>(verify, client, next_retry).
     act_then (kernel_call (end_elapsed_ms K started)) (\<lambda>now.
     case ClientMachine_receive_verify c client verify now of
       (verified, client) \<Rightarrow>
     act_then (the_ok verified) (\<lambda>auth.
     act_then (kernel_call (transmit K ca auth)) (\<lambda>_.
     act_then (kernel_step (receive_client_control K ca started deadline client next_retry)) (\<lambda>(ack, client, _).
     act_then (kernel_call (end_elapsed_ms K started)) (\<lambda>now.
     act_then (\<lambda>w. case ClientMachine_receive_ack c client ack now (pr_owner w) of
         None \<Rightarrow> None
       | Some (r, client, n) \<Rightarrow>
           Some (map_err (\<lambda>_. ()) (and_then r (\<lambda>accept. Inr (accept, client))), w\<lparr>pr_owner := n\<rparr>))
       (\<lambda>(accept, client).
     act_then (kernel_call (transmit K ca accept)) (\<lambda>_.
     act_then (the_ok (fst (ClientMachine_take_profile3_bootstrap client))) (\<lambda>bootstrap.
     act_then (new_redundant K bootstrap (native_binding 2 (ca_peer ca))) (\<lambda>session.
     act_ret (Inr (session, scid))))))))))))))))))))"

definition server_session ::
    "crypto \<Rightarrow> 'k end_kernel \<Rightarrow> credentials \<Rightarrow> carrier \<Rightarrow> ('k, redundant_session \<times> u64) prog" where
  "server_session c K cr ca =
     act_then (kernel_call (io_call (ek_now K) (\<lambda>now. io_ret (Inr now)))) (\<lambda>started.
     act_then (kernel_call (deadline_after K 5000000000)) (\<lambda>listen_deadline.
     act_then (kernel_step (end_random K 16)) (\<lambda>boot.
     act_then (kernel_step (end_random K 32)) (\<lambda>current.
     act_then (kernel_step (end_random K 32)) (\<lambda>previous.
     act_then (the_ok (ServerMachine_new c (end_config cr) (cr_signing cr)
       \<lparr>svm_boot_instance = boot, svm_current_cookie_key = current, svm_previous_cookie_key = previous,
        svm_previous_key_rotated_ms = 0\<rparr>)) (\<lambda>server.
     act_then (kernel_step (receive_control K ca listen_deadline)) (\<lambda>(opening, observed).
     act_then (the_ok (unpack opening)) (\<lambda>(h, _).
     act_then (the_ok (ServerMachine_receive_open c server opening observed 0)) (\<lambda>verify.
     act_then (kernel_call (transmit K ca verify)) (\<lambda>_.
     act_then (kernel_call (deadline_after K 5000000000)) (\<lambda>auth_deadline.
     act_then (kernel_step (receive_control K ca auth_deadline)) (\<lambda>(auth, observed).
     act_then (kernel_call (end_elapsed_ms K started)) (\<lambda>now.
     act_then (kernel_step (end_random K 32)) (\<lambda>ephemeral_secret.
     act_then (kernel_step (end_random K 32)) (\<lambda>nonce.
     act_then (\<lambda>w. case ServerMachine_receive_open_auth c server auth observed now 0
           (Some \<lparr>shm_ephemeral_secret = ephemeral_secret, shm_nonce = nonce\<rparr>) (pr_owner w) of
         None \<Rightarrow> None
       | Some (r, server, n) \<Rightarrow>
           Some (map_err (\<lambda>_. ()) (and_then r (\<lambda>ack. Inr (ack, server))), w\<lparr>pr_owner := n\<rparr>))
       (\<lambda>(ack, server).
     act_then (kernel_call (deadline_after K 5000000000)) (\<lambda>pending_deadline.
     act_then (kernel_call (transmit K ca ack)) (\<lambda>_.
     act_then (kernel_step (receive_control K ca pending_deadline)) (\<lambda>(accept, _).
     act_then (kernel_call (end_elapsed_ms K started)) (\<lambda>now.
     case ServerMachine_receive_accept c server accept now of
       (accepted, server) \<Rightarrow>
     act_then (the_ok accepted) (\<lambda>_.
     act_then (the_ok (fst (ServerMachine_take_profile3_bootstrap server (h_scid h)))) (\<lambda>bootstrap.
     act_then (new_redundant K bootstrap (native_binding 4 (ca_peer ca))) (\<lambda>session.
     act_ret (Inr (session, h_scid h)))))))))))))))))))))))))"

section \<open>Moving to the second interface\<close>

definition send_control ::
    "crypto \<Rightarrow> 'k end_kernel \<Rightarrow> carrier \<Rightarrow> redundant_session \<Rightarrow> Control \<Rightarrow> ('k, redundant_session) prog" where
  "send_control c K ca state control =
     act_then (the_ok (Control_encode control)) (\<lambda>bytes w.
     case RedundantSession_outbound c state (pr_leases w) bytes of
       (Inr (Enqueued _ packets), state, lh) \<Rightarrow>
         (if length packets \<noteq> 1 \<or> op_slot (packets ! 0) \<noteq> 0 then Some (Inl (), w\<lparr>pr_leases := lh\<rparr>)
          else
            let packet = op_packet (packets ! 0) in
            act_then (kernel_call (transmit K ca packet)) (\<lambda>_.
              case RedundantSession_confirm_sent state 0 packet of
                (r, state) \<Rightarrow> the_ok (and_then r (\<lambda>_. Inr state))) (w\<lparr>pr_leases := lh\<rparr>))
     | (_, _, lh) \<Rightarrow> Some (Inl (), w\<lparr>pr_leases := lh\<rparr>))"

text \<open>The owner's capability is the process's only one, alive from its issue until it is spent.\<close>

definition open_slot1 ::
    "crypto \<Rightarrow> redundant_session \<Rightarrow> candidate_manager \<Rightarrow> ('k, redundant_session) prog" where
  "open_slot1 c state manager w =
     (case fst (CandidateManager_take_profile3_admissions manager) of
        [admission] \<Rightarrow>
          (case RedundantSession_activate c {0} (pr_leases w) state admission 1280 (pr_owner w) of
             None \<Rightarrow> None
           | Some (Inl _, _, n) \<Rightarrow> Some (Inl (), w\<lparr>pr_owner := n\<rparr>)
           | Some (Inr _, state, n) \<Rightarrow> Some (Inr state, w\<lparr>pr_owner := n\<rparr>))
      | _ \<Rightarrow> Some (Inl (), w))"

text \<open>A control that is received, committed and answered or not.\<close>

definition take_control ::
    "crypto \<Rightarrow> 'k end_kernel \<Rightarrow> carrier \<Rightarrow> nat \<Rightarrow> nat \<Rightarrow> redundant_session \<Rightarrow> candidate_manager \<Rightarrow>
      ('k, u64 \<times> Control option \<times> redundant_session \<times> candidate_manager) prog" where
  "take_control c K ca started deadline state manager =
     act_then (kernel_step (receive_control K ca deadline)) (\<lambda>(packet, observed).
     act_then (kernel_call (end_elapsed_ms K started)) (\<lambda>now.
     act_then (commit_control c state manager observed packet now) (\<lambda>r.
     act_ret (Inr (now, r)))))"

definition move_client ::
    "crypto \<Rightarrow> 'k end_kernel \<Rightarrow> nat \<Rightarrow> carrier \<Rightarrow> carrier \<Rightarrow> redundant_session \<Rightarrow> candidate_manager \<Rightarrow>
      ('k, redundant_session) prog" where
  "move_client c K started ca0 ca1 state mover =
     act_then (kernel_step (end_random K 16)) (\<lambda>candidate_loc.
     act_then (kernel_step (end_random K 16)) (\<lambda>candidate_id.
     act_then (kernel_call (end_elapsed_ms K started)) (\<lambda>proposal_now_ms.
     act_then (act_ret (and_then (ok_or () (checked_add proposal_now_ms 5000)) (deadline_at_ms started)))
       (\<lambda>candidate_deadline.
     case CandidateManager_propose_local c mover candidate_id candidate_loc 1 1 proposal_now_ms of
       (proposed, mover) \<Rightarrow>
     act_then (the_ok proposed) (\<lambda>update.
     act_then (send_control c K ca0 state update) (\<lambda>state.
     act_then (kernel_step (end_random K 16)) (\<lambda>probe_nonce.
     act_then (kernel_call (end_elapsed_ms K started)) (\<lambda>probe_now_ms.
     case CandidateManager_make_probe mover candidate_id (native_binding 3 (ca_peer ca1)) probe_nonce probe_now_ms of
       (probed, mover) \<Rightarrow>
     act_then (the_ok probed) (\<lambda>probe.
     act_then (send_control c K ca1 state probe) (\<lambda>state.
     act_then (take_control c K ca1 started candidate_deadline state mover) (\<lambda>(_, response, state, mover).
     act_then (act_ret (ok_or () response)) (\<lambda>response.
     act_then (send_control c K ca1 state response) (\<lambda>state.
     act_then (take_control c K ca1 started candidate_deadline state mover) (\<lambda>(_, more, state, mover).
     if more \<noteq> None then act_ret (Inl ()) else open_slot1 c state mover))))))))))))))"

definition move_server ::
    "crypto \<Rightarrow> 'k end_kernel \<Rightarrow> nat \<Rightarrow> carrier \<Rightarrow> carrier \<Rightarrow> redundant_session \<Rightarrow> candidate_manager \<Rightarrow>
      ('k, redundant_session) prog" where
  "move_server c K started ca0 ca1 state receiver =
     act_then (kernel_call (deadline_after K 5000000000)) (\<lambda>update_receive_deadline.
     act_then (take_control c K ca0 started update_receive_deadline state receiver) (\<lambda>(update_now_ms, more, state, receiver).
     if more \<noteq> None then act_ret (Inl ())
     else
     act_then (act_ret (and_then (ok_or () (checked_add update_now_ms 5000)) (deadline_at_ms started)))
       (\<lambda>candidate_deadline.
     act_then (take_control c K ca1 started candidate_deadline state receiver) (\<lambda>(_, challenge, state, receiver).
     case challenge of
       Some (BindChallenge cid nl ep sl expiry_ms tk) \<Rightarrow>
     act_then (act_ret (deadline_at_ms started expiry_ms)) (\<lambda>challenge_deadline.
     act_then (send_control c K ca1 state (BindChallenge cid nl ep sl expiry_ms tk)) (\<lambda>state.
     act_then (take_control c K ca1 started challenge_deadline state receiver) (\<lambda>(_, more, state, receiver).
     if more \<noteq> None then act_ret (Inl ())
     else case CandidateManager_take_results receiver of
       ([result], receiver) \<Rightarrow>
         act_then (send_control c K ca1 state result) (\<lambda>state. open_slot1 c state receiver)
     | _ \<Rightarrow> act_ret (Inl ()))))
     | _ \<Rightarrow> act_ret (Inl ())))))"

section \<open>The delivery\<close>

fun send_copies ::
    "'k end_kernel \<Rightarrow> carrier \<Rightarrow> carrier \<Rightarrow> redundant_session \<Rightarrow> outbound_packet list \<Rightarrow> ('k, unit) prog" where
  "send_copies K ca0 ca1 state [] = act_ret (Inr ())"
| "send_copies K ca0 ca1 state (p # ps) =
     (if \<not> (op_slot p = 0 \<or> op_slot p = 1) then act_ret (Inl ())
      else act_then (kernel_call (transmit K (if op_slot p = 0 then ca0 else ca1) (op_packet p))) (\<lambda>_.
        case RedundantSession_confirm_sent state (op_slot p) (op_packet p) of
          (r, state) \<Rightarrow> act_then (the_ok r) (\<lambda>_. send_copies K ca0 ca1 state ps)))"

definition application_bytes :: bytes where
  "application_bytes = replicate 64 0x5a"

definition send_application ::
    "crypto \<Rightarrow> 'k end_kernel \<Rightarrow> carrier \<Rightarrow> carrier \<Rightarrow> redundant_session \<Rightarrow> ('k, unit) prog" where
  "send_application c K ca0 ca1 state w =
     (case RedundantSession_outbound c state (pr_leases w) application_bytes of
        (Inr (Enqueued _ packets), state, lh) \<Rightarrow>
          (if length packets \<noteq> 2 then Some (Inl (), w\<lparr>pr_leases := lh\<rparr>)
           else send_copies K ca0 ca1 state packets (w\<lparr>pr_leases := lh\<rparr>))
      | (_, _, lh) \<Rightarrow> Some (Inl (), w\<lparr>pr_leases := lh\<rparr>))"

definition take_inbound ::
    "crypto \<Rightarrow> redundant_session \<Rightarrow> u8 \<Rightarrow> ObservedBinding \<Rightarrow> bytes \<Rightarrow> u64 \<Rightarrow>
      ('k, ReceiveOutcome \<times> redundant_session) prog" where
  "take_inbound c state slot binding packet now w =
     (case RedundantSession_inbound c state (pr_leases w) slot binding packet now of
        (r, state, lh) \<Rightarrow>
          Some (map_err (\<lambda>_. ()) (and_then r (\<lambda>outcome. Inr (outcome, state))), w\<lparr>pr_leases := lh\<rparr>))"

definition receive_application ::
    "crypto \<Rightarrow> 'k end_kernel \<Rightarrow> nat \<Rightarrow> carrier \<Rightarrow> carrier \<Rightarrow> redundant_session \<Rightarrow> ('k, unit) prog" where
  "receive_application c K started ca0 ca1 state =
     act_then (kernel_call (deadline_after K 5000000000)) (\<lambda>application_deadline.
     act_then (kernel_step (receive_control K ca0 application_deadline)) (\<lambda>(first, first_binding).
     act_then (kernel_step (receive_control K ca1 application_deadline)) (\<lambda>(second, second_binding).
     act_then (kernel_call (end_elapsed_ms K started)) (\<lambda>now.
     act_then (take_inbound c state 0 first_binding first now) (\<lambda>(one, state).
     act_then (kernel_call (end_elapsed_ms K started)) (\<lambda>now.
     act_then (take_inbound c state 1 second_binding second now) (\<lambda>(two, state).
     act_ret (if one = Delivered application_bytes \<and> two = Suppressed then Inr () else Inl ()))))))))"

section \<open>The program\<close>

text \<open>Up to the drop of privileges: key material, the clock's start, both sockets.\<close>

definition end_start ::
    "crypto \<Rightarrow> 'k end_kernel \<Rightarrow> end_args \<Rightarrow> ('k, credentials \<times> nat \<times> carrier \<times> carrier) prog" where
  "end_start c K args =
     act_then (kernel_call (io_call (ek_geteuid K) (\<lambda>euid. io_ret (if euid \<noteq> 0 then Inl () else Inr ())))) (\<lambda>_.
     act_then (kernel_step (load_credentials c K (if ea_mode args = Send then 1 else 2))) (\<lambda>cr.
     act_then (kernel_call (io_call (ek_now K) (\<lambda>now. io_ret (Inr now)))) (\<lambda>started.
     act_then (kernel_call (packet_socket K (ea_interfaces args ! 0))) (\<lambda>(fd0, index0).
     act_then (kernel_call (packet_socket K (ea_interfaces args ! 1))) (\<lambda>(fd1, index1).
     act_then (kernel_call (lift_err (\<lambda>_. ()) (drop_privileges (ek_cred K) ENDPOINT_UID ENDPOINT_GID))) (\<lambda>_.
     act_ret (Inr (cr, started,
       \<lparr>ca_fd = fd0, ca_index = index0, ca_local = ea_local args ! 0, ca_peer = ea_peer args ! 0,
        ca_descriptor_id = (if ea_mode args = Send then 2 else 4)\<rparr>,
       \<lparr>ca_fd = fd1, ca_index = index1, ca_local = ea_local args ! 1, ca_peer = ea_peer args ! 1,
        ca_descriptor_id = (if ea_mode args = Send then 3 else 5)\<rparr>))))))))"

definition issue_owner :: "redundant_session \<Rightarrow> (unit + admission_owner \<times> redundant_session)" where
  "issue_owner state =
     (case RedundantSession_issue_profile3_admission_owner {} 0 state 9 of
        (r, state) \<Rightarrow> map_err (\<lambda>_. ()) (and_then r (\<lambda>owner. Inr (owner, state))))"

definition end_send ::
    "crypto \<Rightarrow> 'k end_kernel \<Rightarrow> credentials \<Rightarrow> nat \<Rightarrow> carrier \<Rightarrow> carrier \<Rightarrow> ('k, unit) prog" where
  "end_send c K cr started ca0 ca1 =
     act_then (client_session c K cr ca0) (\<lambda>(state, scid).
     act_then (act_ret (issue_owner state)) (\<lambda>(owner, state).
     act_then (end_manager c K cr CLIENT_LOC SERVER_LOC scid (native_binding 2 (ca_peer ca0)) owner) (\<lambda>mover.
     act_then (move_client c K started ca0 ca1 state mover) (\<lambda>state.
     send_application c K ca0 ca1 state))))"

definition end_receive ::
    "crypto \<Rightarrow> 'k end_kernel \<Rightarrow> credentials \<Rightarrow> nat \<Rightarrow> carrier \<Rightarrow> carrier \<Rightarrow> ('k, unit) prog" where
  "end_receive c K cr started ca0 ca1 =
     act_then (server_session c K cr ca0) (\<lambda>(state, scid).
     act_then (act_ret (issue_owner state)) (\<lambda>(owner, state).
     act_then (end_manager c K cr SERVER_LOC CLIENT_LOC scid (native_binding 4 (ca_peer ca0)) owner) (\<lambda>receiver.
     act_then (move_server c K started ca0 ca1 state receiver) (\<lambda>state.
     receive_application c K started ca0 ca1 state))))"

definition end_run :: "crypto \<Rightarrow> 'k end_kernel \<Rightarrow> end_args \<Rightarrow> ('k, unit) prog" where
  "end_run c K args =
     act_then (end_start c K args) (\<lambda>(cr, started, ca0, ca1).
       case ea_mode args of
         Send \<Rightarrow> end_send c K cr started ca0 ca1
       | Receive \<Rightarrow> end_receive c K cr started ca0 ca1)"

text \<open>\<open>main\<close>: \<open>Inl\<close> is exit code 1.\<close>

definition r8_redundant_native :: "crypto \<Rightarrow> 'k end_kernel \<Rightarrow> string list \<Rightarrow> ('k, unit) prog" where
  "r8_redundant_native c K values =
     (case end_arguments values of None \<Rightarrow> act_ret (Inl ()) | Some args \<Rightarrow> end_run c K args)"

end
