(* ===== verification/Endpoint_Run.thy ===== *)
theory Endpoint_Run
  imports Redundant_Native Redundant_Run Handshake_Run Kernel_Frame
begin

text \<open>
  The endpoint of \<open>Redundant_Native\<close>: which frames it accepts, that it exchanges none before it has
  dropped its privileges, and that its waiting for the peer ends after a bounded number of retries.
\<close>

section \<open>Frames\<close>

text \<open>
  C36: Frames, exactly. What \<open>recvfrom\<close> stored in the buffer is accepted with payload \<open>p\<close> if and only
  if it is, byte for byte, the frame that \<open>transmit\<close> of the end with the mirrored addresses builds for
  \<open>p\<close>, with at most 1280 bytes of payload: nothing is padded, cut or read from beyond what arrived.
\<close>

theorem accepted_frame_exact:
  assumes "length data \<le> MAX_FRAME_LEN + 1" "length local_mac = 6" "length peer = 6"
  shows "accepted_frame (filled_buffer data) (length data) local_mac peer = Some p \<longleftrightarrow>
    data = frame_to local_mac peer p \<and> length p \<le> 1280"
proof -
  let ?n = "length data" and ?b = "filled_buffer data"
  have b: "?b = data @ replicate (MAX_FRAME_LEN + 1 - ?n) 0"
    using assms(1) by (simp add: filled_buffer_def take_replicate min_def del: replicate_Suc replicate.simps)
  have sl: "slice_of i j ?b = slice_of i j data" if "j \<le> ?n" for i j
    using that by (simp add: b slice_of_def)
  have e: "length (u16_to_be_bytes ETH_P_R8) = 2" by simp
  show ?thesis
  proof (cases "14 \<le> ?n \<and> ?n \<le> MAX_FRAME_LEN")
    case True
    obtain a m t r where d: "data = a @ m @ t @ r" "length a = 6" "length m = 6" "length t = 2"
    proof
      show "data = take 6 data @ take 6 (drop 6 data) @ take 2 (drop 12 data) @ drop 14 data"
        using append_take_drop_id [of 6 data] append_take_drop_id [of 6 "drop 6 data"]
          append_take_drop_id [of 2 "drop 12 data"] by simp
    qed (use True in auto)
    then have "slice_of 0 6 data = a" "slice_of 6 12 data = m" "slice_of 12 14 data = t" "drop 14 data = r"
      by (simp_all add: slice_of_def)
    moreover have "data = frame_to local_mac peer p \<longleftrightarrow> a = local_mac \<and> m = peer
        \<and> t = u16_to_be_bytes ETH_P_R8 \<and> r = p"
      using assms(2,3) d e by (simp add: frame_to_def)
    moreover have "?n = 14 + length r" using d by simp
    moreover have "slice_of 14 ?n ?b = drop 14 data" using sl [of ?n 14] by (simp add: slice_of_def)
    ultimately show ?thesis
      using True sl by (auto simp: accepted_frame_def b MAX_FRAME_LEN_def)
  next
    case False
    then show ?thesis
      using assms(2,3) e by (auto simp: accepted_frame_def frame_to_def MAX_FRAME_LEN_def)
  qed
qed

theorem accepted_frame_exact_witness:
  "accepted_frame (filled_buffer (frame_to (replicate 6 1) (replicate 6 2) (replicate 1280 7))) 1294
      (replicate 6 1) (replicate 6 2) = Some (replicate 1280 7)
   \<and> (\<forall>p. accepted_frame (filled_buffer (frame_to (replicate 6 1) (replicate 6 2) (replicate 1281 7))) 1295
      (replicate 6 1) (replicate 6 2) \<noteq> Some p)"
proof -
  let ?f = "\<lambda>n. frame_to (replicate 6 1) (replicate 6 2) (replicate n 7)"
  have l: "length (?f n) = n + 14" for n by (simp add: frame_to_def)
  have "accepted_frame (filled_buffer (?f 1280)) (length (?f 1280)) (replicate 6 1) (replicate 6 2) = Some (replicate 1280 7)"
    by (subst accepted_frame_exact) (simp_all add: l MAX_FRAME_LEN_def)
  moreover have "accepted_frame (filled_buffer (?f 1281)) (length (?f 1281)) (replicate 6 1) (replicate 6 2) \<noteq> Some p" for p
    by (subst accepted_frame_exact) (auto simp: l MAX_FRAME_LEN_def frame_to_def)
  ultimately show ?thesis by (simp add: l)
qed

section \<open>The program along a relation between kernel states\<close>

context step_relation
begin

lemma fill_loop_in:
  assumes g: "\<And>n. io_in R (get n)"
  shows "act_in R (fill_loop get buf filled)"
proof -
  have "R k k'" if "fill_loop get buf filled k = Some (r, k')" for buf filled k r k'
    using that
  proof (induction "length buf - filled" arbitrary: buf filled k rule: less_induct)
    case less
    show ?case
    proof (cases "filled < length buf")
      case True
      obtain n bs k1 where c: "get (length buf - filled) k = ((n, bs), k1)" by (metis surj_pair)
      have s: "R k k1" using io_inD [OF g c] .
      show ?thesis
      proof (cases "n \<le> 0")
        case False
        have "fill_loop get (copy_at filled (take (length buf - filled) bs) buf) (filled + nat n) k1 = Some (r, k')"
          using less.prems True c False by (simp add: fill_loop.simps [of get buf])
        from less.hyps [OF _ this] True False have "R k1 k'" by simp
        with s show ?thesis by (rule R_trans)
      qed (use less.prems True c s in \<open>simp add: fill_loop.simps [of get buf]\<close>)
    qed (use less.prems R_refl in \<open>auto simp: fill_loop.simps [of get buf] split: if_splits\<close>)
  qed
  then show ?thesis by (simp add: act_in_def)
qed

lemma random_in: "(\<And>n. io_in R (ek_getrandom K n)) \<Longrightarrow> act_in R (end_random K n)"
  unfolding end_random_def by (rule fill_loop_in)

lemma random_scid_in:
  assumes g: "\<And>n. io_in R (ek_getrandom K n)"
  shows "act_in R (end_random_scid K)"
proof -
  have "(\<forall>n. io_in R (ek_getrandom K n)) \<longrightarrow> R k (snd res)" if "end_random_scid K k = Some res" for k res
  proof (rule end_random_scid.raw_induct [OF _ that], goal_cases)
    case (1 W K k res)
    show ?case
    proof
      assume a: "\<forall>n. io_in R (ek_getrandom K n)"
      with 1(2) obtain r k1 where c: "end_random K 8 k = Some (r, k1)" by (auto split: option.splits)
      have s: "R k k1" by (rule act_inD [OF random_in c]) (use a in simp)
      have "W K k1 = Some res \<Longrightarrow> R k (snd res)" using 1(1) a s R_trans by blast
      with 1(2) c s show "R k (snd res)" by (auto split: sum.splits if_splits)
    qed
  qed
  then show ?thesis using g by (auto simp: act_in_def)
qed

lemma receive_frame_in:
  assumes g: "io_in R (ek_now K)" "\<And>fd t. io_in R (ek_poll K fd t)" "\<And>fd n. io_in R (ek_recvfrom K fd n)"
  shows "act_in R (receive_frame K ca deadline)"
proof -
  have "io_in R (ek_now K) \<and> (\<forall>fd t. io_in R (ek_poll K fd t)) \<and> (\<forall>fd n. io_in R (ek_recvfrom K fd n))
      \<longrightarrow> R k (snd res)" if "receive_frame K ca deadline k = Some res" for k res
  proof (rule receive_frame.raw_induct [OF _ that], goal_cases)
    case (1 W K ca deadline k res)
    show ?case
    proof
      assume a: "io_in R (ek_now K) \<and> (\<forall>fd t. io_in R (ek_poll K fd t)) \<and> (\<forall>fd n. io_in R (ek_recvfrom K fd n))"
      obtain now k1 ready e1 k2 n e2 bs address k3 where c: "ek_now K k = (now, k1)"
        "ek_poll K (ca_fd ca) (poll_timeout (deadline - now)) k1 = ((ready, e1), k2)"
        "ek_recvfrom K (ca_fd ca) (MAX_FRAME_LEN + 1) k2 = ((n, e2, bs, address), k3)"
        by (metis surj_pair)
      have s: "R k k1" "R k1 k2" "R k2 k3" using a c io_inD by metis+
      then have t: "R k k2" "R k k3" using R_trans by blast+
      have "W K ca deadline k3 = Some res \<Longrightarrow> R k (snd res)" using 1(1) a t(2) R_trans by blast
      then show "R k (snd res)"
        using 1(2) s(1) t by (auto simp: c [simplified] Let_def split: if_splits option.splits)
    qed
  qed
  then show ?thesis using g by (auto simp: act_in_def)
qed

lemma owning_in: "io_in R m \<Longrightarrow> io_in R (\<lambda>k. ((), cl fd k)) \<Longrightarrow> io_in R (owning cl fd m)"
  unfolding io_in_def owning_def by (auto split: prod.splits sum.splits) (metis R_trans snd_conv)+

end

text \<open>The calls that set the process up, and those that exchange frames.\<close>

definition setup_in :: "('k \<Rightarrow> 'k \<Rightarrow> bool) \<Rightarrow> 'k end_kernel \<Rightarrow> bool" where
  "setup_in R K \<longleftrightarrow>
     io_in R (ek_geteuid K) \<and> (\<forall>fd. io_in R (ek_fcntl_getfd K fd)) \<and> (\<forall>fd. io_in R (ek_fstat_mode K fd))
     \<and> (\<forall>fd n. io_in R (ek_read K fd n)) \<and> (\<forall>n. io_in R (ek_getrandom K n))
     \<and> (\<forall>name. io_in R (ek_nametoindex K name)) \<and> io_in R (ek_now K)
     \<and> (\<forall>a b c. io_in R (sk_socket (ek_sock K) a b c)) \<and> (\<forall>fd. io_in R (\<lambda>k. ((), sk_close (ek_sock K) fd k)))
     \<and> (\<forall>fd a. io_in R (sk_bind (ek_sock K) fd a)) \<and> (\<forall>fd l n v. io_in R (sk_setsockopt (ek_sock K) fd l n v))"

definition traffic_in :: "('k \<Rightarrow> 'k \<Rightarrow> bool) \<Rightarrow> 'k end_kernel \<Rightarrow> bool" where
  "traffic_in R K \<longleftrightarrow>
     (\<forall>fd f a p. io_in R (ek_sendto K fd f a p)) \<and> (\<forall>fd t. io_in R (ek_poll K fd t))
     \<and> (\<forall>fd n. io_in R (ek_recvfrom K fd n))"

definition over :: "('k \<Rightarrow> 'k \<Rightarrow> bool) \<Rightarrow> 'k process \<Rightarrow> 'k process \<Rightarrow> bool" where
  "over R w w' = R (pr_kernel w) (pr_kernel w')"

lemma kernel_step_in: "act_in R m \<Longrightarrow> act_in (over R) (kernel_step m)"
  by (auto simp: act_in_def over_def kernel_step_def)

lemma kernel_call_in: "io_in R m \<Longrightarrow> act_in (over R) (kernel_call m)"
  unfolding kernel_call_def by (intro kernel_step_in act_in_io)

context step_relation
begin

lemma over_steps: "step_relation (over R)"
  by unfold_locales (auto simp: over_def R_refl intro: R_trans)

lemmas program = step_relation.act_in_ret [OF over_steps] step_relation.act_in_then [OF over_steps] moving

lemma still_in: "(\<And>w r w'. m w = Some (r, w') \<Longrightarrow> pr_kernel w' = pr_kernel w) \<Longrightarrow> act_in (over R) m"
  by (auto simp: act_in_def over_def R_refl)

lemma the_ok_in: "act_in (over R) (the_ok r)"
  unfolding the_ok_def by (rule program)

lemma transmit_in: "traffic_in R K \<Longrightarrow> io_in R (transmit K ca p)"
  unfolding transmit_def Let_def by (intro rules) (auto simp: traffic_in_def)

lemma receive_control_in: "setup_in R K \<Longrightarrow> traffic_in R K \<Longrightarrow> act_in R (receive_control K ca d)"
  using receive_frame_in [of K ca d]
  by (auto simp: receive_control_def act_in_def setup_in_def traffic_in_def)

lemma elapsed_in: "setup_in R K \<Longrightarrow> io_in R (end_elapsed_ms K s)"
  unfolding end_elapsed_ms_def Let_def by (intro rules) (auto simp: setup_in_def)

lemma now_in: "setup_in R K \<Longrightarrow> io_in R (io_call (ek_now K) (\<lambda>now. io_ret (Inr now)))"
  by (intro rules) (auto simp: setup_in_def)

lemma deadline_in: "setup_in R K \<Longrightarrow> io_in R (deadline_after K d)"
  unfolding deadline_after_def by (intro rules) (auto simp: setup_in_def)

lemma skip_retries_in: "setup_in R K \<Longrightarrow> io_in R (skip_retries K started i)"
proof (induction "length CONTROL_RETRY_DELAYS - i" arbitrary: i rule: less_induct)
  case less
  have "io_in R (if i < length CONTROL_RETRY_DELAYS then
        (case instant_add started (control_retry_offset i) of
           None \<Rightarrow> io_ret (Inl ())
         | Some t \<Rightarrow> io_call (ek_now K) (\<lambda>now.
              if t \<le> now then skip_retries K started (Suc i) else io_ret (Inr i)))
      else io_ret (Inr i))"
    by (intro rules) (use less in \<open>auto simp: setup_in_def\<close>)
  then show ?case
    unfolding io_in_def
    by (auto simp: skip_retries.simps [of K started i] io_call_def split: option.splits prod.splits if_splits)
qed

lemma send_retry_in: "setup_in R K \<Longrightarrow> traffic_in R K \<Longrightarrow> io_in R (send_retry K ca started client)"
  unfolding send_retry_def by (intro rules elapsed_in transmit_in)

lemma client_loop_in:
  assumes "setup_in R K" "traffic_in R K"
  shows "act_in R (client_control_loop K ca started deadline client i)"
proof (induction "length CONTROL_RETRY_DELAYS - i" arbitrary: i client rule: less_induct)
  case less
  have f: "act_in R (receive_frame K ca l)" for l
    by (rule receive_frame_in) (use assms in \<open>auto simp: setup_in_def traffic_in_def\<close>)
  have s: "io_in R (send_retry K ca started client)" by (rule send_retry_in [OF assms])
  have "R k k'" if run: "client_control_loop K ca started deadline client i k = Some (r, k')" for k r k'
  proof (cases "retry_deadline started deadline i")
    case None
    with run R_refl show ?thesis by (simp add: client_control_loop.simps [of K ca started deadline client i])
  next
    case (Some limit)
    with run obtain q k1 where q: "receive_frame K ca limit k = Some (q, k1)"
      by (auto simp: client_control_loop.simps [of K ca started deadline client i] split: option.splits)
    obtain z k2 where z: "send_retry K ca started client k1 = (z, k2)" by force
    have s: "R k k1" "R k k2" using act_inD [OF f q] io_inD [OF s z] R_trans by blast+
    have "R k2 k'" if "i < length CONTROL_RETRY_DELAYS" "z = Inr client'"
      "client_control_loop K ca started deadline client' (Suc i) k2 = Some (r, k')" for client'
      by (rule act_inD [OF less that(3)]) (use that in auto)
    with s have "R k k'" if "i < length CONTROL_RETRY_DELAYS" "z = Inr client'"
      "client_control_loop K ca started deadline client' (Suc i) k2 = Some (r, k')" for client'
      using that R_trans by blast
    with run q z s Some show ?thesis
      by (auto simp: client_control_loop.simps [of K ca started deadline client i]
          split: sum.splits if_splits)
  qed
  then show ?case by (simp add: act_in_def)
qed

lemma client_control_in:
  assumes "setup_in R K" "traffic_in R K"
  shows "act_in R (receive_client_control K ca started deadline client i)"
  unfolding act_in_def receive_client_control_def
  by (auto split: sum.splits prod.splits dest!: io_inD [OF skip_retries_in [OF assms(1)]]
      act_inD [OF client_loop_in [OF assms]] intro: R_trans)

end

context step_relation
begin

lemma end_random_in: "setup_in R K \<Longrightarrow> act_in R (end_random K n)"
  by (rule random_in) (simp add: setup_in_def)

lemma end_scid_in: "setup_in R K \<Longrightarrow> act_in R (end_random_scid K)"
  by (rule random_scid_in) (simp add: setup_in_def)

lemmas program_calls = program the_ok_in kernel_step_in kernel_call_in end_random_in end_scid_in
  receive_control_in client_control_in elapsed_in now_in deadline_in transmit_in

lemma machine_in:
  "act_in (over R) (\<lambda>w. case f w of Inl e \<Rightarrow> Some (Inl (), w) | Inr (x, n) \<Rightarrow> Some (Inr x, w\<lparr>pr_manager := n\<rparr>))"
  "act_in (over R) (\<lambda>w. case f w of Inl e \<Rightarrow> Some (Inl (), w) | Inr (x, n) \<Rightarrow> Some (Inr x, w\<lparr>pr_receive := n\<rparr>))"
  by (rule still_in, auto split: sum.splits)+

lemma owner_in:
  "act_in (over R) (\<lambda>w. case f w of None \<Rightarrow> None | Some (r, x, n) \<Rightarrow> Some (g r x, w\<lparr>pr_owner := n\<rparr>))"
  by (rule still_in) (auto split: option.splits)

lemma end_manager_in: "setup_in R K \<Longrightarrow> act_in (over R) (end_manager c K cr l p scid b owner)"
  unfolding end_manager_def by (intro program_calls machine_in)

lemma new_redundant_in: "setup_in R K \<Longrightarrow> act_in (over R) (new_redundant K bootstrap b)"
  unfolding new_redundant_def by (intro program_calls machine_in)

lemma commit_control_in: "act_in (over R) (commit_control c receiver manager observed packet now)"
  by (rule still_in) (auto simp: commit_control_def split: prod.splits sum.splits option.splits)

lemma client_session_in:
  "setup_in R K \<Longrightarrow> traffic_in R K \<Longrightarrow> act_in (over R) (client_session c K cr ca)"
  unfolding client_session_def by (intro program_calls owner_in new_redundant_in)

lemma server_session_in:
  "setup_in R K \<Longrightarrow> traffic_in R K \<Longrightarrow> act_in (over R) (server_session c K cr ca)"
  unfolding server_session_def by (intro program_calls owner_in new_redundant_in)

lemma send_control_in: "traffic_in R K \<Longrightarrow> act_in (over R) (send_control c K ca state control)"
proof -
  assume t: "traffic_in R K"
  have s: "act_in (over R) (act_then (kernel_call (transmit K ca packet)) (\<lambda>_. the_ok r))"
    for packet and r :: "RedundantError + redundant_session" by (intro program_calls t)
  have "act_in (over R) (\<lambda>w. case RedundantSession_outbound c state (pr_leases w) bytes of
       (Inr (Enqueued _ packets), state, lh) \<Rightarrow>
         (if length packets \<noteq> 1 \<or> op_slot (packets ! 0) \<noteq> 0 then Some (Inl (), w\<lparr>pr_leases := lh\<rparr>)
          else
            let packet = op_packet (packets ! 0) in
            act_then (kernel_call (transmit K ca packet)) (\<lambda>_.
              case RedundantSession_confirm_sent state 0 packet of
                (r, state) \<Rightarrow> the_ok (and_then r (\<lambda>_. Inr state))) (w\<lparr>pr_leases := lh\<rparr>))
     | (_, _, lh) \<Rightarrow> Some (Inl (), w\<lparr>pr_leases := lh\<rparr>))" for bytes
    unfolding act_in_def
    by (auto simp: over_def R_refl Let_def split: prod.splits sum.splits SendOutcome.splits if_splits
        dest!: act_inD [OF s])
  then show ?thesis unfolding send_control_def by (intro program_calls)
qed

lemma open_slot1_in: "act_in (over R) (open_slot1 c state manager)"
  by (rule still_in) (auto simp: open_slot1_def split: list.splits option.splits sum.splits)

lemma take_control_in:
  "setup_in R K \<Longrightarrow> traffic_in R K \<Longrightarrow> act_in (over R) (take_control c K ca started d state manager)"
  unfolding take_control_def by (intro program_calls commit_control_in)

lemmas program_parts = program_calls end_manager_in client_session_in server_session_in send_control_in
  open_slot1_in take_control_in

lemma move_client_in:
  "setup_in R K \<Longrightarrow> traffic_in R K \<Longrightarrow> act_in (over R) (move_client c K started ca0 ca1 state mover)"
  unfolding move_client_def by (intro program_parts)

lemma take_inbound_in: "act_in (over R) (take_inbound c state slot b packet now)"
  by (rule still_in) (auto simp: take_inbound_def split: prod.splits)

lemma receive_application_in:
  "setup_in R K \<Longrightarrow> traffic_in R K \<Longrightarrow> act_in (over R) (receive_application c K started ca0 ca1 state)"
  unfolding receive_application_def by (intro program_parts take_inbound_in)

lemma send_copies_in: "traffic_in R K \<Longrightarrow> act_in (over R) (send_copies K ca0 ca1 state ps)"
  by (induction ps arbitrary: state) (auto intro!: program_calls split del: if_split)

lemma send_application_in:
  assumes "traffic_in R K"
  shows "act_in (over R) (send_application c K ca0 ca1 state)"
  unfolding act_in_def send_application_def
  by (auto simp: over_def R_refl split: prod.splits sum.splits SendOutcome.splits if_splits
      dest!: act_inD [OF send_copies_in [OF assms]])

end

lemma in_list: "act_in R f \<Longrightarrow> (\<And>x xs. act_in R (g x xs)) \<Longrightarrow> act_in R (case v of [] \<Rightarrow> f | x # xs \<Rightarrow> g x xs)"
  by (simp split: list.splits)

lemma in_control:
  "(\<And>a b c d e f g h. act_in R (u a b c d e f g h)) \<Longrightarrow> (\<And>a b c d e. act_in R (v a b c d e)) \<Longrightarrow>
   (\<And>a b c d e f. act_in R (x a b c d e f)) \<Longrightarrow> (\<And>a b c d e f. act_in R (y a b c d e f)) \<Longrightarrow>
   (\<And>a b c d. act_in R (z a b c d)) \<Longrightarrow>
   act_in R (case m of LocUpdate a b c d e f g h \<Rightarrow> u a b c d e f g h | BindProbe a b c d e \<Rightarrow> v a b c d e
     | BindChallenge a b c d e f \<Rightarrow> x a b c d e f | BindResponse a b c d e f \<Rightarrow> y a b c d e f
     | CandidateResult a b c d \<Rightarrow> z a b c d)"
  by (simp split: Control.splits)

context step_relation
begin

lemma move_server_in:
  "setup_in R K \<Longrightarrow> traffic_in R K \<Longrightarrow> act_in (over R) (move_server c K started ca0 ca1 state receiver)"
  unfolding move_server_def by (intro program_parts in_list in_control)

lemma end_send_in:
  "setup_in R K \<Longrightarrow> traffic_in R K \<Longrightarrow> act_in (over R) (end_send c K cr started ca0 ca1)"
  unfolding end_send_def by (intro program_parts move_client_in send_application_in)

lemma end_receive_in:
  "setup_in R K \<Longrightarrow> traffic_in R K \<Longrightarrow> act_in (over R) (end_receive c K cr started ca0 ca1)"
  unfolding end_receive_def by (intro program_parts move_server_in receive_application_in)

lemma load_credentials_in:
  assumes "setup_in R K"
  shows "act_in R (load_credentials c K role)"
proof -
  have "io_in R (ek_read K KEY_FD 1)" using assms by (simp add: setup_in_def)
  note rd = io_inD [OF this]
  have "act_in R (\<lambda>k. case ek_read K KEY_FD 1 k of ((n, _), k) \<Rightarrow> if n \<noteq> 0 then Some (Inl (), k) else Some (z, k))"
    for z :: "unit + credentials"
    by (auto simp: act_in_def simp del: One_nat_def split: prod.splits if_splits dest: rd)
  then have m: "act_in R (read_credentials c K role)"
    unfolding read_credentials_def Let_def
    by (intro act_in_then fill_loop_in) (use assms in \<open>auto simp: setup_in_def\<close>)
  have g: "io_in R (ek_fcntl_getfd K KEY_FD)" "io_in R (ek_fstat_mode K KEY_FD)"
    "io_in R (\<lambda>k. ((), sk_close (ek_sock K) KEY_FD k))" using assms by (simp_all add: setup_in_def)
  have cl: "R k (sk_close (ek_sock K) KEY_FD k)" for k using g(3) by (simp add: io_in_def)
  show ?thesis
    unfolding act_in_def load_credentials_def
    by (auto split: prod.splits if_splits dest!: io_inD [OF g(1)] io_inD [OF g(2)] act_inD [OF m]
        intro: R_trans cl R_trans [OF _ R_trans [OF _ R_trans [OF _ cl]]])
qed

lemma packet_socket_in: "setup_in R K \<Longrightarrow> io_in R (packet_socket K i)"
  unfolding packet_socket_def Let_def by (intro rules owning_in) (auto simp: setup_in_def)

end

section \<open>No frame before the drop\<close>

definition endpoint_creds :: creds where
  "endpoint_creds =
     \<lparr>cr_uid = replicate 4 ENDPOINT_UID, cr_gid = replicate 4 ENDPOINT_GID, cr_groups = [],
      cr_capabilities = replicate 5 0, cr_no_new_privs = True, cr_dumpable = 0\<rparr>"

text \<open>From the drop on: the process stays unprivileged, and so does all its traffic.\<close>

definition unprivileged :: "('k \<Rightarrow> creds) \<Rightarrow> ('k \<Rightarrow> creds list) \<Rightarrow> 'k \<Rightarrow> 'k \<Rightarrow> bool" where
  "unprivileged cr tr k k' \<longleftrightarrow>
     (cr k = endpoint_creds \<longrightarrow> cr k' = endpoint_creds \<and> (\<exists>n. tr k' = tr k @ replicate n endpoint_creds))"

interpretation wire: step_relation "unprivileged cr tr" for cr tr
proof
  show "unprivileged cr tr s s" for s by (simp add: unprivileged_def)
  show "unprivileged cr tr s u" if "unprivileged cr tr s t" "unprivileged cr tr t u" for s t u
    using that unfolding unprivileged_def by (metis append.assoc replicate_add)
qed

text \<open>
  \<open>cr\<close> are the credentials the kernel holds for the process, \<open>tr\<close> lists them as they were at each
  \<open>sendto\<close> and \<open>recvfrom\<close>. Only the calls of \<open>drop_privileges\<close> may change credentials.
\<close>

definition end_laws :: "'k end_kernel \<Rightarrow> ('k \<Rightarrow> creds) \<Rightarrow> ('k \<Rightarrow> creds list) \<Rightarrow> bool" where
  "end_laws K cr tr \<longleftrightarrow>
     cred_laws (ek_cred K) cr \<and> cred_frame (ek_cred K) tr
     \<and> setup_in (same cr) K \<and> setup_in (same tr) K \<and> traffic_in (same cr) K
     \<and> (\<forall>fd t. keeps tr (ek_poll K fd t))
     \<and> (\<forall>fd f a p k. tr (snd (ek_sendto K fd f a p k)) = tr k @ [cr k])
     \<and> (\<forall>fd n k. tr (snd (ek_recvfrom K fd n k)) = tr k @ [cr k])"

lemma wire_quiet: "keeps cr m \<Longrightarrow> keeps tr m \<Longrightarrow> io_in (unprivileged cr tr) m"
  by (simp add: io_in_def unprivileged_def)

lemma wire_traffic: "keeps cr m \<Longrightarrow> (\<And>k. tr (snd (m k)) = tr k @ [cr k]) \<Longrightarrow> io_in (unprivileged cr tr) m"
  by (simp add: io_in_def unprivileged_def) (metis One_nat_def replicate_0 replicate_Suc)

lemma end_laws_wire:
  assumes "end_laws K cr tr"
  shows "setup_in (unprivileged cr tr) K" "traffic_in (unprivileged cr tr) K"
  using assms by (simp_all add: end_laws_def setup_in_def traffic_in_def wire_quiet wire_traffic)

lemma kernel_call_Inr:
  "kernel_call m w = Some (Inr x, w') \<longleftrightarrow> (\<exists>k. m (pr_kernel w) = (Inr x, k) \<and> w' = w\<lparr>pr_kernel := k\<rparr>)"
  by (auto simp: kernel_call_def kernel_step_def split: prod.splits)

lemma end_start_laws:
  assumes "end_laws K cr tr" "end_start c K args w = Some (r, w')"
  shows "tr (pr_kernel w') = tr (pr_kernel w)" "r = Inr x \<Longrightarrow> cr (pr_kernel w') = endpoint_creds"
proof -
  have s: "setup_in (same tr) K" "cred_frame (ek_cred K) tr" "cred_laws (ek_cred K) cr"
    using assms(1) by (simp_all add: end_laws_def)
  have "io_in (same tr) (ek_geteuid K)" using s(1) by (simp add: setup_in_def)
  then have "act_in (over (same tr)) (end_start c K args)"
    unfolding end_start_def
    by (intro frame.program_calls frame.rules frame.load_credentials_in frame.packet_socket_in
        drop_privileges_keeps s)
  from act_inD [OF this assms(2)] show "tr (pr_kernel w') = tr (pr_kernel w)" by (simp add: over_def)
  assume "r = Inr x"
  with assms(2) obtain k k' where "drop_privileges (ek_cred K) ENDPOINT_UID ENDPOINT_GID k = (Inr (), k')"
    "pr_kernel w' = k'"
    by (auto simp: end_start_def act_then_Inr act_ret_Inr kernel_call_Inr lift_err_Inr split: prod.splits)
  with drop_laws [OF s(3) this(1)] show "cr (pr_kernel w') = endpoint_creds" by (simp add: endpoint_creds_def)
qed

text \<open>
  C34: No frame before the drop. Whatever the arguments, the key material, the network and the
  outcome, each frame the endpoint sends or receives is sent or received by a process without
  privileges: all its ids are 65534, it has no groups and no capabilities, \<open>no_new_privs\<close> is set and it is
  not dumpable. A run that succeeds ends so.
\<close>

theorem frames_only_unprivileged:
  assumes "end_laws K cr tr" "r8_redundant_native c K values w = Some (r, w')"
  shows "(\<exists>n. tr (pr_kernel w') = tr (pr_kernel w) @ replicate n endpoint_creds)
    \<and> (r = Inr () \<longrightarrow> cr (pr_kernel w') = endpoint_creds)"
proof (cases "end_arguments values")
  case None
  with assms(2) show ?thesis by (auto simp: r8_redundant_native_def act_ret_def)
next
  case (Some args)
  with assms(2) have "end_run c K args w = Some (r, w')" by (simp add: r8_redundant_native_def)
  then show ?thesis
    unfolding end_run_def
  proof (cases rule: act_then_cases)
    case (stop e)
    with end_start_laws(1) [OF assms(1) stop(1)] show ?thesis by simp
  next
    case (go x w1)
    obtain cd started ca0 ca1 where x: "x = (cd, started, ca0, ca1)" by (metis surj_pair)
    note s = end_start_laws [OF assms(1) go(1)]
    have "act_in (over (unprivileged cr tr)) (case ea_mode args of Send \<Rightarrow> end_send c K cd started ca0 ca1
        | Receive \<Rightarrow> end_receive c K cd started ca0 ca1)"
      using wire.end_send_in [OF end_laws_wire [OF assms(1)]] wire.end_receive_in [OF end_laws_wire [OF assms(1)]]
      by (simp split: EndMode.split)
    from act_inD [OF this, of w1 r w'] go(2) s(2) x s(1) show ?thesis
      by (auto simp: over_def unprivileged_def)
  qed
qed

section \<open>An endpoint nobody answers\<close>

text \<open>A process of \<open>Linux_Process\<close> with the credentials it had at each exchange.\<close>

type_synonym end_state = "sample_proc \<times> creds list"

definition on_first :: "(sample_proc \<Rightarrow> 'a \<times> sample_proc) \<Rightarrow> end_state \<Rightarrow> 'a \<times> end_state" where
  "on_first m k = (case m (fst k) of (r, p) \<Rightarrow> (r, p, snd k))"

definition end_cred :: "end_state cred_kernel" where
  "end_cred =
     \<lparr>read_to_string = (\<lambda>p. on_first (read_to_string sample_cred_kernel p)),
      sys_prctl = (\<lambda>i a. on_first (sys_prctl sample_cred_kernel i a)),
      sys_setgroups = (\<lambda>gs. on_first (sys_setgroups sample_cred_kernel gs)),
      sys_setresgid = (\<lambda>a b c. on_first (sys_setresgid sample_cred_kernel a b c)),
      sys_setresuid = (\<lambda>a b c. on_first (sys_setresuid sample_cred_kernel a b c)),
      sys_capset = (\<lambda>h d. on_first (sys_capset sample_cred_kernel h d)),
      sys_getgroups = (\<lambda>n. on_first (sys_getgroups sample_cred_kernel n)),
      sys_getresuid = on_first (sys_getresuid sample_cred_kernel),
      sys_getresgid = on_first (sys_getresgid sample_cred_kernel),
      sys_setfsuid = (\<lambda>u. on_first (sys_setfsuid sample_cred_kernel u)),
      sys_setfsgid = (\<lambda>g. on_first (sys_setfsgid sample_cred_kernel g))\<rparr>"

definition note_creds :: "end_state \<Rightarrow> end_state" where
  "note_creds k = (fst k, snd k @ [sample_creds (fst k)])"

definition idle_sock :: "'k socket_kernel" where
  "idle_sock =
     \<lparr>sk_socket = (\<lambda>_ _ _ k. (4, k)), sk_close = (\<lambda>_ k. k),
      sk_ioctl = (\<lambda>_ _ _ k. ((- 1, \<lparr>ifr_value = 0, ifr_sa_data = []\<rparr>), k)),
      sk_bind = (\<lambda>_ _ k. (0, k)), sk_setsockopt = (\<lambda>_ _ _ _ k. ((0, 0), k))\<rparr>"

definition lonely_kernel :: "end_state end_kernel" where
  "lonely_kernel =
     \<lparr>ek_cred = end_cred, ek_sock = idle_sock, ek_geteuid = (\<lambda>k. (0, k)), ek_fcntl_getfd = (\<lambda>_ k. (0, k)),
      ek_fstat_mode = (\<lambda>_ k. ((0, 0x8000), k)),
      ek_read = (\<lambda>_ n k. (if n = 1 then (0, []) else (int n, replicate n 1), k)),
      ek_getrandom = (\<lambda>n k. ((int n, replicate n 1), k)), ek_nametoindex = (\<lambda>_ k. (1, k)),
      ek_sendto = (\<lambda>_ f _ _ k. (int (length f), note_creds k)),
      ek_poll = (\<lambda>_ _ k. ((0, 0), k)), ek_poll_waits = (\<lambda>_ t _. t < 0), ek_recv_waits = (\<lambda>_ _. True),
      ek_recvfrom = (\<lambda>_ _ k. ((- 1, 11, [], \<lparr>pk_len = 0, pk_ifindex = 0, pk_halen = 0, pk_addr = []\<rparr>), note_creds k)),
      ek_now = (\<lambda>k. (0, k))\<rparr>"

abbreviation end_creds :: "end_state \<Rightarrow> creds" where
  "end_creds k \<equiv> sample_creds (fst k)"

lemma on_first_pair: "on_first m k = (q, k') \<longleftrightarrow> (\<exists>x. m (fst k) = (q, x) \<and> k' = (x, snd k))"
  by (auto simp: on_first_def split: prod.splits)

lemma lonely_laws: "end_laws lonely_kernel end_creds snd"
proof -
  have "cred_laws end_cred end_creds"
    unfolding cred_laws_def end_cred_def
    by (intro conjI allI impI) (auto simp: on_first_pair dest: cred_lawsD [OF sample_cred_laws])
  moreover have "keeps snd (on_first m)" for m :: "sample_proc \<Rightarrow> 'x \<times> sample_proc"
    by (auto simp: io_in_def on_first_def split: prod.splits)
  moreover have "cred_frame end_cred snd"
    by (auto simp: cred_frame_def end_cred_def io_in_def on_first_def split: prod.splits)
  ultimately show ?thesis
    by (auto simp: end_laws_def lonely_kernel_def setup_in_def traffic_in_def io_in_def idle_sock_def note_creds_def)
qed

lemma lonely_drop: "fst (drop_privileges end_cred ENDPOINT_UID ENDPOINT_GID (root_process, t)) = Inr ()"
  by (simp add: drop_privileges_def drop_bounding_capabilities_def set_nondumpable_def
      current_full_privilege_snapshot_def io_then_def io_call_def zero_or_def root_process_def end_cred_def on_first_def
      sample_cred_kernel_def sample_prctl_def pr_simps sample_last_cap upt_rec replicate_4_5 ENDPOINT_UID_def ENDPOINT_GID_def
      capabilities_reported [OF sample_status_reports] validate_full_privilege_snapshot_def)

definition lonely_credentials :: credentials where
  "lonely_credentials =
     (let i = (\<lambda>r. \<lparr>id_role = r, id_service_context = 7, id_eid = eid sample_crypto (replicate 32 1),
        id_public_key = replicate 32 1\<rparr>) in
      \<lparr>cr_signing = replicate 32 1, cr_local = i 1, cr_peer = i 2\<rparr>)"

definition lonely_client :: client_machine where
  "lonely_client =
     \<lparr>cl_config = end_config lonely_credentials, cl_signing_key = replicate 32 1, cl_state = Idle,
      cl_local_loc = CLIENT_LOC, cl_peer_loc = SERVER_LOC\<rparr>"

definition lonely_material :: client_material where
  "lonely_material = \<lparr>cm_ephemeral_secret = replicate 32 1, cm_nonce = replicate 32 1\<rparr>"

definition lonely_process :: "end_state process" where
  "lonely_process = \<lparr>pr_kernel = (root_process, []), pr_owner = 1, pr_receive = 1, pr_manager = 1,
     pr_leases = \<lparr>lh_next = 0, lh_active = {}\<rparr>\<rparr>"

definition lonely_carrier :: "bytes \<Rightarrow> bytes \<Rightarrow> u32 \<Rightarrow> carrier" where
  "lonely_carrier local_mac peer i =
     \<lparr>ca_fd = 4, ca_index = 1, ca_local = local_mac, ca_peer = peer, ca_descriptor_id = i\<rparr>"

lemma pad_self: "length xs = n \<Longrightarrow> pad n xs = xs"
  by (simp add: pad_def)

lemma fill_once:
  assumes "get n k = ((int n, bs), k')" "0 < n" "length bs = n"
  shows "fill_loop get (replicate n 0) 0 k = Some (Inr bs, k')"
  using assms by (simp add: fill_loop.simps [of get "replicate n 0"] fill_loop.simps [of get bs] copy_at_def)

lemma lonely_random: "0 < n \<Longrightarrow> end_random lonely_kernel n k = Some (Inr (replicate n 1), k)"
  unfolding end_random_def by (rule fill_once) (simp_all add: lonely_kernel_def)

lemma lonely_scid: "end_random_scid lonely_kernel k = Some (Inr (u64_from_be_bytes (replicate 8 1)), k)"
  "u64_from_be_bytes (replicate 8 1) \<noteq> 0"
proof -
  have "replicate 8 (1 :: u8) = [1, 1, 1, 1, 1, 1, 1, 1]" by (simp add: numeral_eq_Suc)
  then show n: "u64_from_be_bytes (replicate 8 1) \<noteq> 0" by (simp add: from_be_def)
  show "end_random_scid lonely_kernel k = Some (Inr (u64_from_be_bytes (replicate 8 1)), k)"
    by (subst end_random_scid.simps) (simp add: lonely_random n)
qed

lemma lonely_key: "ed_verifying_key sample_crypto (replicate 32 1) = replicate 32 1"
  by (simp add: sample_crypto_def pad_self)

lemma lonely_loads: "load_credentials sample_crypto lonely_kernel 1 k = Some (Inr lonely_credentials, k)"
proof -
  have r: "fill_loop (ek_read lonely_kernel KEY_FD) (replicate 64 0) 0 k = Some (Inr (replicate 64 1), k)"
    by (rule fill_once) (simp_all add: lonely_kernel_def)
  have "read_credentials sample_crypto lonely_kernel 1 k = Some (Inr lonely_credentials, k)"
    unfolding read_credentials_def act_then_def KEY_MATERIAL_LEN_def r
    by (simp add: lonely_kernel_def lonely_key lonely_credentials_def Let_def Identity_from_public_key_def)
  then show ?thesis
    by (simp add: load_credentials_def) (simp add: lonely_kernel_def idle_sock_def S_IFMT_def S_IFSOCK_def)
qed

lemma lonely_frame: "receive_frame lonely_kernel ca d k = Some (Inl ETIMEDOUT, k)"
  by (subst receive_frame.simps) (simp add: lonely_kernel_def poll_timeout_def)

lemma lonely_transmit: "length p \<le> 1280 \<Longrightarrow> transmit lonely_kernel ca p k = (Inr (), note_creds k)"
  by (simp add: transmit_def usize_checked_add_def io_call_def Let_def lonely_kernel_def frame_to_def)

lemma lonely_honest:
  obtains s hm where "honest_pair sample_crypto lonely_client s lonely_material hm"
proof -
  let ?cfg = "end_config lonely_credentials"
  let ?s = "\<lparr>sv_config = ?cfg\<lparr>hc_local := hc_peer ?cfg, hc_peer := hc_local ?cfg\<rparr>, sv_signing_key = replicate 32 1,
     sv_material = \<lparr>svm_boot_instance = replicate 16 1, svm_current_cookie_key = [], svm_previous_cookie_key = [],
       svm_previous_key_rotated_ms = 0\<rparr>, sv_pending = [], sv_established = [],
     sv_local_loc = CLIENT_LOC, sv_peer_loc = SERVER_LOC\<rparr>"
  have "length (eid sample_crypto key) = 16" for key
    by (simp add: eid_def sample_crypto_def)
  then have "honest_pair sample_crypto lonely_client ?s lonely_material \<lparr>shm_ephemeral_secret = [], shm_nonce = replicate 32 1\<rparr>"
    using sample_crypto_ok
    by (simp add: honest_pair_def HandshakeConfig_validate_Inr matched_def wf_config_def wf_identity_def
        lonely_client_def end_config_def lonely_credentials_def Let_def Identity_validate_def lonely_key
        lonely_material_def CLIENT_LOC_def SERVER_LOC_def)
  then show ?thesis using that by blast
qed

lemma lonely_start:
  "\<exists>d. ClientMachine_start sample_crypto lonely_client (u64_from_be_bytes (replicate 8 1)) lonely_material 0
      = (Inr d, lonely_client\<lparr>cl_state := CookieWait (u64_from_be_bytes (replicate 8 1)) lonely_material d 5000\<rparr>)
    \<and> length d = 170"
proof -
  obtain s hm where h: "honest_pair sample_crypto lonely_client s lonely_material hm" by (rule lonely_honest)
  have "length (client_open sample_crypto lonely_client lonely_material n) = 170" for n
    using open_body_length [OF h] honest_facts(5,6) [OF h] by (simp add: handshake_image_def length_header_image)
  with run_start [OF h _ lonely_scid(2), of 0] show ?thesis
    by (simp add: lonely_client_def saturating_add_def)
qed

lemma lonely_waits:
  assumes "length d = 170"
  shows "receive_client_control lonely_kernel ca 0 5000000000
      (lonely_client\<lparr>cl_state := CookieWait n lonely_material d 5000\<rparr>) 0 k
    = Some (Inl (), note_creds (note_creds (note_creds k)))"
proof -
  let ?m = "lonely_client\<lparr>cl_state := CookieWait n lonely_material d 5000\<rparr>"
  have e: "end_elapsed_ms lonely_kernel 0 k = (Inr 0, k)" for k
    by (simp add: end_elapsed_ms_def io_call_def lonely_kernel_def)
  have "ClientMachine_retry ?m 0 = (Inr d, ?m)"
    by (simp add: ClientMachine_retry_def ClientMachine_release_cookie_wait_if_expired_def)
  then have r: "send_retry lonely_kernel ca 0 ?m k = (Inr ?m, note_creds k)" for k
    using assms by (simp add: send_retry_def io_then_def e lonely_transmit)
  have t: "retry_deadline 0 5000000000 0 = Some 500000000" "retry_deadline 0 5000000000 (Suc 0) = Some 1500000000"
    "retry_deadline 0 5000000000 (Suc (Suc 0)) = Some 3500000000"
    "retry_deadline 0 5000000000 (Suc (Suc (Suc 0))) = Some 5000000000"
    by (simp_all add: retry_deadline_def CONTROL_RETRY_DELAYS_def instant_add_def control_retry_offset_def)
  have l: "length CONTROL_RETRY_DELAYS = 3" by (simp add: CONTROL_RETRY_DELAYS_def)
  have "skip_retries lonely_kernel 0 0 k = (Inr 0, k)"
    unfolding skip_retries.simps [of lonely_kernel 0 0]
    by (simp add: l instant_add_def control_retry_offset_def CONTROL_RETRY_DELAYS_def)
      (simp add: lonely_kernel_def)
  then show ?thesis
    by (simp add: receive_client_control_def client_control_loop.simps [of lonely_kernel] lonely_frame t l r)
qed

definition lonely_values :: "string list" where
  "lonely_values = [''r8-redundant-native'', ''send'', ''r8a'', ''r8b'', ''02:00:00:00:00:01'', ''02:00:00:00:00:02'',
     ''02:00:00:00:01:01'', ''02:00:00:00:01:02'']"

lemma lonely_arguments:
  "end_arguments lonely_values =
     Some \<lparr>ea_mode = Send, ea_interfaces = [''r8a'', ''r8b''],
       ea_local = [[2, 0, 0, 0, 0, 1], [2, 0, 0, 0, 1, 1]], ea_peer = [[2, 0, 0, 0, 0, 2], [2, 0, 0, 0, 1, 2]]\<rparr>"
  by (simp add: end_arguments_def lonely_values_def parse_mac_def from_str_radix_def to_digit_def ascii_simps)

lemma lonely_socket: "CHR 0x00 \<notin> set i \<Longrightarrow> packet_socket lonely_kernel i k = (Inr (4, 1), k)"
  by (simp add: packet_socket_def io_call_def Let_def io_then_def zero_or_def owning_def lonely_kernel_def idle_sock_def)

lemma act_then_step:
  "m w = Some (Inr x, w1) \<Longrightarrow> act_then m f w = f x w1"
  "m w = Some (Inl e, w1) \<Longrightarrow> act_then m f w = Some (Inl e, w1)"
  by (simp_all add: act_then_def)

lemma lonely_session:
  "client_session sample_crypto lonely_kernel lonely_credentials ca w
    = Some (Inl (), w\<lparr>pr_kernel := note_creds (note_creds (note_creds (note_creds (pr_kernel w))))\<rparr>)"
proof -
  obtain d where d: "ClientMachine_start sample_crypto lonely_client (u64_from_be_bytes (replicate 8 1)) lonely_material 0
      = (Inr d, lonely_client\<lparr>cl_state := CookieWait (u64_from_be_bytes (replicate 8 1)) lonely_material d 5000\<rparr>)"
    "length d = 170" using lonely_start by blast
  obtain s hm where h: "honest_pair sample_crypto lonely_client s lonely_material hm" by (rule lonely_honest)
  have new: "ClientMachine_new sample_crypto (end_config lonely_credentials) (cr_signing lonely_credentials) = Inr lonely_client"
    using h by (simp add: honest_pair_def ClientMachine_new_def lonely_client_def)
      (simp add: end_config_def lonely_credentials_def Let_def)
  have r: "kernel_step (end_random lonely_kernel 32) w = Some (Inr (replicate 32 1), w)"
    "kernel_step (end_random_scid lonely_kernel) w = Some (Inr (u64_from_be_bytes (replicate 8 1)), w)"
    "kernel_call (io_call (ek_now lonely_kernel) (\<lambda>now. io_ret (Inr now))) w = Some (Inr 0, w)" for w
    by (simp_all add: kernel_step_def kernel_call_def lonely_random lonely_scid io_call_def) (simp_all add: lonely_kernel_def)
  have t: "kernel_call (transmit lonely_kernel ca d) w = Some (Inr (), w\<lparr>pr_kernel := note_creds (pr_kernel w)\<rparr>)" for w
    using d(2) by (simp add: kernel_call_def kernel_step_def lonely_transmit)
  have m: "\<lparr>cm_ephemeral_secret = replicate 32 1, cm_nonce = replicate 32 1\<rparr> = lonely_material"
    by (simp add: lonely_material_def)
  have i: "instant_add 0 5000000000 = Some 5000000000" by (simp add: instant_add_def)
  have o: "the_ok (Inr x) w = Some (Inr x, w)" "act_ret y w = Some (y, w)"
    for x :: 'x and y :: "unit + 'y" and w :: "end_state process" by (simp_all add: the_ok_def act_ret_def)
  note wt = lonely_waits [OF d(2)]
  show ?thesis
    unfolding client_session_def
    by (simp add: act_then_step r o new m d(1) i t ok_or_def kernel_step_def [of "receive_client_control K c s dl cl n" for K c s dl cl n] wt)
qed

theorem frames_only_unprivileged_witness:
  "end_laws lonely_kernel end_creds snd
   \<and> (\<exists>w'. r8_redundant_native sample_crypto lonely_kernel lonely_values lonely_process = Some (Inl (), w')
        \<and> snd (pr_kernel w') = replicate 4 endpoint_creds)"
proof -
  obtain k1 where drop: "drop_privileges end_cred ENDPOINT_UID ENDPOINT_GID (root_process, []) = (Inr (), k1)"
    using lonely_drop by (metis prod.collapse)
  have c: "ek_cred lonely_kernel = end_cred" by (simp add: lonely_kernel_def)
  have "snd k1 = []"
    using keepsD [OF drop_privileges_keeps drop, of snd] lonely_laws by (simp add: end_laws_def c)
  let ?w = "lonely_process\<lparr>pr_kernel := k1\<rparr>"
  have e: "kernel_call (io_call (ek_geteuid lonely_kernel) (\<lambda>euid. io_ret (if euid \<noteq> 0 then Inl () else Inr ()))) w
        = Some (Inr (), w)"
    "kernel_step (load_credentials sample_crypto lonely_kernel 1) w = Some (Inr lonely_credentials, w)"
    "kernel_call (io_call (ek_now lonely_kernel) (\<lambda>now. io_ret (Inr now))) w = Some (Inr 0, w)"
    "CHR 0x00 \<notin> set i \<Longrightarrow> kernel_call (packet_socket lonely_kernel i) w = Some (Inr (4, 1), w)" for w i
    by (simp_all add: kernel_call_def kernel_step_def lonely_loads lonely_socket io_call_def)
      (simp_all add: lonely_kernel_def)
  have dr: "kernel_call (lift_err (\<lambda>_. ()) (drop_privileges (ek_cred lonely_kernel) ENDPOINT_UID ENDPOINT_GID)) lonely_process
      = Some (Inr (), ?w)"
    by (simp add: kernel_call_def kernel_step_def lift_err_def io_call_def c drop lonely_process_def)
  have start: "end_start sample_crypto lonely_kernel
      \<lparr>ea_mode = Send, ea_interfaces = [''r8a'', ''r8b''],
       ea_local = [[2, 0, 0, 0, 0, 1], [2, 0, 0, 0, 1, 1]], ea_peer = [[2, 0, 0, 0, 0, 2], [2, 0, 0, 0, 1, 2]]\<rparr> lonely_process
    = Some (Inr (lonely_credentials, 0, lonely_carrier [2, 0, 0, 0, 0, 1] [2, 0, 0, 0, 0, 2] 2,
        lonely_carrier [2, 0, 0, 0, 1, 1] [2, 0, 0, 0, 1, 2] 3), ?w)"
    unfolding end_start_def
    by (simp add: act_then_step e dr act_ret_def lonely_carrier_def)
  obtain w' where run: "r8_redundant_native sample_crypto lonely_kernel lonely_values lonely_process = Some (Inl (), w')"
    and l: "length (snd (pr_kernel w')) = 4"
    using \<open>snd k1 = []\<close>
    by (simp add: r8_redundant_native_def lonely_arguments end_run_def act_then_step start end_send_def lonely_session)
      (simp add: note_creds_def)
  from frames_only_unprivileged [OF lonely_laws run] l lonely_laws run show ?thesis
    by (auto simp: lonely_process_def)
qed

section \<open>Waiting for the peer ends\<close>

text \<open>
  Time, as the kernel keeps it. \<open>Instant\<close> never runs back, and while it stands still only finitely many
  frames are received (\<open>queued\<close>). \<open>poll\<close> with a timeout that is not negative returns when it is over, and a
  read after it reported the descriptor ready does not wait; any call may be late by up to \<open>slack\<close>
  nanoseconds. \<open>sent\<close> counts the frames handed to \<open>sendto\<close>.
\<close>

definition end_clock ::
    "'k end_kernel \<Rightarrow> ('k \<Rightarrow> nat) \<Rightarrow> ('k \<Rightarrow> nat) \<Rightarrow> nat \<Rightarrow> ('k \<Rightarrow> nat) \<Rightarrow> bool" where
  "end_clock K time queued slack sent \<longleftrightarrow>
     (\<forall>k t k'. ek_now K k = (t, k') \<longrightarrow>
        t = time k' \<and> moves_on time queued k k' \<and> time k' \<le> time k + slack \<and> sent k' = sent k)
     \<and> (\<forall>fd t k. 0 \<le> t \<longrightarrow> \<not> ek_poll_waits K fd t k)
     \<and> (\<forall>fd t k ready e k'. 0 \<le> t \<longrightarrow> ek_poll K fd t k = ((ready, e), k') \<longrightarrow>
        moves_on time queued k k' \<and> time k' \<le> time k + nat t * 1000000 + slack \<and> sent k' = sent k
        \<and> (0 < ready \<longrightarrow> \<not> ek_recv_waits K fd k'))
     \<and> (\<forall>fd n k stored r k'. \<not> ek_recv_waits K fd k \<longrightarrow> ek_recvfrom K fd n k = ((stored, r), k') \<longrightarrow>
        time k' \<le> time k + slack \<and> sent k' = sent k \<and> (0 \<le> stored \<longrightarrow> uses_up time queued k k'))
     \<and> (\<forall>fd f a p k r k'. ek_sendto K fd f a p k = (r, k') \<longrightarrow> sent k' = Suc (sent k) \<and> time k' \<le> time k + slack)"

lemma end_clockD:
  assumes "end_clock K time queued slack sent"
  shows "ek_now K k = (t, k') \<Longrightarrow>
      t = time k' \<and> moves_on time queued k k' \<and> time k' \<le> time k + slack \<and> sent k' = sent k"
    "0 \<le> i \<Longrightarrow> \<not> ek_poll_waits K fd i k"
    "0 \<le> i \<Longrightarrow> ek_poll K fd i k = ((ready, e), k') \<Longrightarrow>
      moves_on time queued k k' \<and> time k' \<le> time k + nat i * 1000000 + slack \<and> sent k' = sent k
      \<and> (0 < ready \<longrightarrow> \<not> ek_recv_waits K fd k')"
    "\<not> ek_recv_waits K fd k \<Longrightarrow> ek_recvfrom K fd n k = ((stored, r), k') \<Longrightarrow>
      time k' \<le> time k + slack \<and> sent k' = sent k \<and> (0 \<le> stored \<longrightarrow> uses_up time queued k k')"
    "ek_sendto K fd f a p k = (s, k') \<Longrightarrow> sent k' = Suc (sent k) \<and> time k' \<le> time k + slack"
  using assms unfolding end_clock_def by metis+

lemma poll_timeout_bounds: "0 \<le> poll_timeout left" "nat (poll_timeout left) * 1000000 \<le> left"
proof -
  have "min (left div 1000000) (2 ^ 31 - 1) * 1000000 \<le> left div 1000000 * 1000000" by (rule mult_right_mono) simp_all
  also have "\<dots> \<le> left" by simp
  finally show "nat (poll_timeout left) * 1000000 \<le> left" by (simp add: poll_timeout_def del: of_nat_min)
  show "0 \<le> poll_timeout left" by (simp add: poll_timeout_def)
qed

lemma receive_frame_returns:
  assumes clk: "end_clock K time queued slack sent" and "deadline \<le> b" "time k \<le> b + 2 * slack"
  shows "\<exists>r k'. receive_frame K ca deadline k = Some (r, k') \<and> sent k' = sent k \<and> time k' \<le> b + 3 * slack"
  using assms(3)
proof (induction k rule: deadline_induct [where time = time and deadline = deadline and queued = queued])
  case (pass k)
  obtain now k1 ready e1 k2 where c: "ek_now K k = (now, k1)"
    "ek_poll K (ca_fd ca) (poll_timeout (deadline - now)) k1 = ((ready, e1), k2)"
    by (metis surj_pair)
  obtain n e2 bs address k3 where
    c3: "ek_recvfrom K (ca_fd ca) (MAX_FRAME_LEN + 1) k2 = ((n, e2, bs, address), k3)" by (metis surj_pair)
  note t1 = end_clockD(1) [OF clk c(1)]
  note t2 = end_clockD(3) [OF clk poll_timeout_bounds(1) c(2)]
  note w = end_clockD(2) [OF clk poll_timeout_bounds(1)]
  show ?case
  proof (cases "deadline < now \<or> ready \<le> 0")
    case True
    have "time k2 \<le> b + 3 * slack" if "\<not> deadline < now"
      using t1 t2 that poll_timeout_bounds(2) [of "deadline - now"] assms(2) by linarith
    with True c t1 t2 w pass.prems show ?thesis
      by (subst receive_frame.simps) auto
  next
    case False
    then have t3: "time k3 \<le> time k2 + slack" "sent k3 = sent k2" "0 \<le> n \<Longrightarrow> uses_up time queued k2 k3"
      using t2 end_clockD(4) [OF clk _ c3] by auto
    have k3: "time k3 \<le> b + 2 * slack"
      using t1 t2 t3(1) False poll_timeout_bounds(2) [of "deadline - now"] assms(2) by linarith
    have IH: "\<exists>r k'. receive_frame K ca deadline k3 = Some (r, k') \<and> sent k' = sent k \<and> time k' \<le> b + 3 * slack"
      if "0 \<le> n"
    proof -
      have m: "moves_on time queued k k1" "moves_on time queued k1 k2" using t1 t2 by simp_all
      have "uses_up time queued k k3"
        by (rule moves_on_uses_up [OF m(1) moves_on_uses_up [OF m(2) t3(3) [OF that]]])
      moreover have "time k \<le> deadline" using moves_on_time [OF m(1)] t1 False by simp
      ultimately show ?thesis using pass.IH [of k3] k3 t1 t2 t3(2) by auto
    qed
    have step: "receive_frame K ca deadline k =
        (if n < 0 then Some (Inl e2, k3)
         else if pk_len address \<noteq> SOCKADDR_LL_LEN \<or> pk_ifindex address \<noteq> ca_index ca \<or> pk_halen address \<noteq> 6
           \<or> take 6 (pk_addr address) \<noteq> ca_peer ca then receive_frame K ca deadline k3
         else case accepted_frame (filled_buffer bs) (nat n) (ca_local ca) (ca_peer ca) of
             Some payload \<Rightarrow> Some (Inr (payload, ca_peer ca), k3)
           | None \<Rightarrow> receive_frame K ca deadline k3)"
      using False t2 w by (subst receive_frame.simps) (simp add: c c3 [simplified] Let_def split: option.split)
    have s: "sent k3 = sent k" "time k3 \<le> b + 3 * slack" using t1 t2 t3(2) k3 by simp_all
    show ?thesis unfolding step using IH s by (auto split: option.split)
  qed
qed

lemma transmit_clock:
  assumes "end_clock K time queued slack sent" "transmit K ca p k = (r, k')"
  shows "sent k' \<le> Suc (sent k) \<and> time k' \<le> time k + slack"
  using assms(2)
  by (auto simp: transmit_def io_call_def Let_def split: option.splits if_splits prod.splits
      dest!: end_clockD(5) [OF assms(1)])

lemma send_retry_clock:
  assumes "end_clock K time queued slack sent" "send_retry K ca started client k = (r, k')"
  shows "sent k' \<le> Suc (sent k) \<and> time k' \<le> time k + 2 * slack"
proof -
  obtain now k1 where c: "ek_now K k = (now, k1)" by force
  note t = end_clockD(1) [OF assms(1) c]
  have "k' = k1 \<or> (\<exists>p q. transmit K ca p k1 = (q, k'))"
    using assms(2) c
    by (fastforce simp: send_retry_def end_elapsed_ms_def io_then_def io_call_def Let_def
        split: prod.splits sum.splits if_splits)
  with t transmit_clock [OF assms(1), of ca _ k1 _ k'] show ?thesis by fastforce
qed

lemma skip_retries_clock:
  assumes "end_clock K time queued slack sent" "skip_retries K started i k = (r, k')"
  shows "sent k' = sent k \<and> (\<forall>j. r = Inr j \<longrightarrow> i \<le> j \<and> j \<le> max i (length CONTROL_RETRY_DELAYS))
    \<and> time k' \<le> time k + (length CONTROL_RETRY_DELAYS - i) * slack"
  using assms(2)
proof (induction "length CONTROL_RETRY_DELAYS - i" arbitrary: i k rule: less_induct)
  case less
  obtain now k1 where c: "ek_now K k = (now, k1)" by force
  note e = end_clockD(1) [OF assms(1) c]
  show ?case
  proof (cases "i < length CONTROL_RETRY_DELAYS")
    case True
    then have more: "length CONTROL_RETRY_DELAYS - i = Suc (length CONTROL_RETRY_DELAYS - Suc i)" by arith
    have "sent k' = sent k \<and> (\<forall>j. r = Inr j \<longrightarrow> i \<le> j \<and> j \<le> max i (length CONTROL_RETRY_DELAYS))
        \<and> time k' \<le> time k + (length CONTROL_RETRY_DELAYS - i) * slack"
      if "skip_retries K started (Suc i) k1 = (r, k')"
      using less.hyps [OF _ that] True e more by auto
    with less.prems e more show ?thesis
      by (auto simp: skip_retries.simps [of K started i] c split: if_splits option.splits)
  next
    case False
    with less.prems show ?thesis by (auto simp: skip_retries.simps [of K started i])
  qed
qed

text \<open>The index handed on counts the retries, and each of them costs at most \<open>5 * slack\<close> past the
  deadline.\<close>

definition wait_ok :: "('k \<Rightarrow> nat) \<Rightarrow> ('k \<Rightarrow> nat) \<Rightarrow> nat \<Rightarrow> nat \<Rightarrow> nat \<Rightarrow> 'k \<Rightarrow>
    (unit + 'p \<times> 'm \<times> nat) \<Rightarrow> 'k \<Rightarrow> bool" where
  "wait_ok time sent slack deadline i k r k' \<longleftrightarrow>
     sent k' \<le> sent k + (length CONTROL_RETRY_DELAYS - i)
     \<and> time k' \<le> max (time k) deadline + (5 * (length CONTROL_RETRY_DELAYS - i) + 3) * slack
     \<and> (\<forall>p m j. r = Inr (p, m, j) \<longrightarrow>
          i \<le> j \<and> j \<le> max i (length CONTROL_RETRY_DELAYS) \<and> sent k' \<le> sent k + (j - i))"

lemma client_loop_returns:
  assumes clk: "end_clock K time queued slack sent"
  shows "\<exists>r k'. client_control_loop K ca started deadline client i k = Some (r, k')
    \<and> wait_ok time sent slack deadline i k r k'"
proof (induction "length CONTROL_RETRY_DELAYS - i" arbitrary: i client k rule: less_induct)
  case less
  let ?n = "length CONTROL_RETRY_DELAYS"
  note loop = client_control_loop.simps [of K ca started deadline client i]
  show ?case
  proof (cases "retry_deadline started deadline i")
    case None
    then show ?thesis by (simp add: loop wait_ok_def)
  next
    case (Some limit)
    then have "limit \<le> max (time k) deadline" by (auto simp: retry_deadline_def split: if_splits)
    moreover have "time k \<le> max (time k) deadline + 2 * slack" by simp
    ultimately obtain q k1 where
      q: "receive_frame K ca limit k = Some (q, k1)" "sent k1 = sent k" "time k1 \<le> max (time k) deadline + 3 * slack"
      using receive_frame_returns [OF clk] by blast
    obtain z k2 where z: "send_retry K ca started client k1 = (z, k2)" by force
    have s: "sent k2 \<le> Suc (sent k)" "time k2 \<le> max (time k) deadline + 5 * slack"
      using send_retry_clock [OF clk z] q by simp_all
    show ?thesis
    proof (cases "q = Inl ETIMEDOUT \<and> i < ?n \<and> limit < deadline")
      case False
      have "time k1 \<le> max (time k) deadline + (5 * (?n - i) + 3) * slack" using q(3) by (simp add: algebra_simps)
      with False Some q show ?thesis by (auto simp: loop wait_ok_def split: sum.split)
    next
      case True
      then have "?n - i = Suc (?n - Suc i)" by arith
      then obtain d where d: "?n - i = Suc d" "?n - Suc i = d" by blast
      show ?thesis
      proof (cases z)
        case (Inl u)
        have "wait_ok time sent slack deadline i k (Inl u :: unit + bytes \<times> client_machine \<times> nat) k2"
          using s unfolding wait_ok_def d by (simp add: distrib_right)
        with True Some q z Inl show ?thesis by (simp add: loop)
      next
        case (Inr m)
        from less [of "Suc i" m k2] d obtain r k' where
          r: "client_control_loop K ca started deadline m (Suc i) k2 = Some (r, k')"
          "wait_ok time sent slack deadline (Suc i) k2 r k'" by auto
        have "max (time k2) deadline + (5 * d + 3) * slack \<le> max (time k) deadline + (5 * Suc d + 3) * slack"
          using s(2) by (simp add: distrib_right)
        with r(2) s(1) True have "wait_ok time sent slack deadline i k r k'"
          unfolding wait_ok_def d by fastforce
        with True Some q z Inr r(1) show ?thesis by (simp add: loop)
      qed
    qed
  qed
qed

text \<open>
  C35: Waiting for the peer ends in time. The client's wait for a handshake message returns,
  whatever the network delivers or withholds, because every \<open>poll\<close> has a timeout: at its deadline,
  give or take what its calls are late (at most 21 of them count). It sends no more than the retries
  that are left of the three: the index it hands on counts every one it sent, so that the two waits of
  a handshake send three between them.
\<close>

theorem client_wait_bounded:
  assumes "end_clock K time queued slack sent"
  shows "\<exists>r k'. receive_client_control K ca started deadline client i k = Some (r, k')
    \<and> time k' \<le> max (time k) deadline + 21 * slack
    \<and> sent k' \<le> sent k + (3 - i)
    \<and> (\<forall>packet m j. r = Inr (packet, m, j) \<longrightarrow> i \<le> j \<and> j \<le> max i 3 \<and> sent k' \<le> sent k + (j - i))"
proof -
  have l: "length CONTROL_RETRY_DELAYS = 3" by (simp add: CONTROL_RETRY_DELAYS_def)
  obtain q k1 where q: "skip_retries K started i k = (q, k1)" by force
  note s = skip_retries_clock [OF assms q, unfolded l]
  have "(3 - i) * slack \<le> 3 * slack" by (rule mult_right_mono) simp_all
  with s have k1: "time k1 \<le> time k + 3 * slack" by linarith
  show ?thesis
  proof (cases q)
    case (Inl u)
    have "time k1 \<le> max (time k) deadline + 21 * slack"
      using k1 by simp
    with Inl q s show ?thesis by (simp add: receive_client_control_def)
  next
    case (Inr j)
    from client_loop_returns [OF assms, of ca started deadline client j k1] obtain r k' where
      r: "client_control_loop K ca started deadline client j k1 = Some (r, k')"
      "wait_ok time sent slack deadline j k1 r k'" by blast
    have "(5 * (3 - j) + 3) * slack \<le> 18 * slack" by (rule mult_right_mono) simp_all
    moreover have "max (time k1) deadline \<le> max (time k) deadline + 3 * slack" using k1 by linarith
    moreover have "time k' \<le> max (time k1) deadline + (5 * (3 - j) + 3) * slack"
      using r(2) unfolding wait_ok_def l by blast
    ultimately have "time k' \<le> max (time k) deadline + 21 * slack" by linarith
    moreover have "i \<le> j" "j \<le> max i 3" "sent k1 = sent k" using s Inr by simp_all
    ultimately show ?thesis
      using q Inr r by (fastforce simp: receive_client_control_def wait_ok_def l)
  qed
qed

text \<open>A network that delivers nothing but empty frames, one each millisecond and without end: the state is
  the clock and the number of frames sent.\<close>

definition idle_cred :: "'k cred_kernel" where
  "idle_cred =
     \<lparr>read_to_string = (\<lambda>_ k. (None, k)), sys_prctl = (\<lambda>_ _ k. (0, k)), sys_setgroups = (\<lambda>_ k. (0, k)),
      sys_setresgid = (\<lambda>_ _ _ k. (0, k)), sys_setresuid = (\<lambda>_ _ _ k. (0, k)), sys_capset = (\<lambda>_ _ k. (0, k)),
      sys_getgroups = (\<lambda>_ k. ((0, []), k)), sys_getresuid = (\<lambda>k. ((0, 0, 0, 0), k)),
      sys_getresgid = (\<lambda>k. ((0, 0, 0, 0), k)), sys_setfsuid = (\<lambda>_ k. (0, k)), sys_setfsgid = (\<lambda>_ k. (0, k))\<rparr>"

definition noisy_kernel :: "(nat \<times> nat) end_kernel" where
  "noisy_kernel =
     \<lparr>ek_cred = idle_cred, ek_sock = idle_sock, ek_geteuid = (\<lambda>k. (0, k)), ek_fcntl_getfd = (\<lambda>_ k. (0, k)),
      ek_fstat_mode = (\<lambda>_ k. ((0, 0x8000), k)), ek_read = (\<lambda>_ n k. ((0, []), k)),
      ek_getrandom = (\<lambda>n k. ((int n, replicate n 1), k)), ek_nametoindex = (\<lambda>_ k. (1, k)),
      ek_sendto = (\<lambda>_ f _ _ k. (int (length f), fst k, Suc (snd k))),
      ek_poll = (\<lambda>_ _ k. ((1, 0), k)), ek_poll_waits = (\<lambda>_ t _. t < 0), ek_recv_waits = (\<lambda>_ _. False),
      ek_recvfrom = (\<lambda>_ _ k. ((0, 0, [], \<lparr>pk_len = 20, pk_ifindex = 1, pk_halen = 6, pk_addr = replicate 8 0\<rparr>),
        fst k + 1000000, snd k)),
      ek_now = (\<lambda>k. (fst k, k))\<rparr>"

theorem client_wait_bounded_witness:
  "end_clock noisy_kernel fst (\<lambda>_. 0) 1000000 snd
   \<and> (\<exists>r k'. receive_client_control noisy_kernel (lonely_carrier (replicate 6 1) (replicate 6 0) 2) 0 5000000000
        lonely_client 0 (0, 0) = Some (r, k') \<and> snd k' \<le> 3 \<and> fst k' \<le> 5021000000)"
proof -
  have "end_clock noisy_kernel fst (\<lambda>_. 0) 1000000 snd"
    by (simp add: end_clock_def noisy_kernel_def moves_on_def uses_up_def)
  from client_wait_bounded [OF this, of "lonely_carrier (replicate 6 1) (replicate 6 0) 2" 0 5000000000
      lonely_client 0 "(0, 0)"] this
  show ?thesis by auto
qed

end
