(* ===== verification/Spec2Isabelle.thy ===== *)
theory Spec2Isabelle
  imports Handshake_Run Native_Main Mobility_Run Redundant_Run Echo Session_Serve Endpoint_Run
begin

text \<open>
  A verification development for the R8 protocol stack, the Rust crates under \<open>src/rust/crates\<close>.

  \<^bold>\<open>The program.\<close> R8 is a routed datagram protocol with protected sessions that survive a change of
  locator. \<open>r8-proto\<close> is the wire format. \<open>r8-session\<close> holds the handshake machines of client and
  server, the key schedule and the protected directional sessions with their replay windows.
  \<open>r8d\<close> is the node: a manifest, a frame forwarder and a polling runtime. \<open>r8-mobility\<close> moves a
  session to a new binding after a challenge and, in Profile 3, mints the one admission for a second
  path. \<open>r8-redundant\<close> sends every packet over both paths and delivers it once.

  \<^bold>\<open>Theories.\<close>
  \<^item> \<open>R8_Prelude\<close>: byte strings, results (\<open>Inl\<close> the error), saturating and checked arithmetic, loops,
    and the interfaces \<open>codec\<close>, \<open>anti_replay\<close> and \<open>preserved\<close>.
  \<^item> \<open>Wire\<close> (\<open>r8-proto/src/lib.rs\<close>): \<open>header\<close>, \<open>pack_with_budget\<close>, \<open>unpack_with_budget\<close>, checksums,
    the CTL and DGRAM builders and parsers. Packing and parsing are inverse on every accepted packet,
    the checksum is the one's-complement sum and rejects every single-byte error.
  \<^item> \<open>Session_Types\<close>, \<open>Session_Codec\<close>, \<open>Replay\<close>, \<open>Directional\<close>, \<open>Limiter\<close> (\<open>r8-session/src/lib.rs\<close>):
    messages, bindings, cookies, transcript, keys; the 4096-bit window as an implementation of the
    full counter history; sealing, preview and commit, replay proofs; the token bucket. Canonical
    codecs, unambiguous authenticated strings, no nonce and no counter used twice, refused packets
    without effect.
  \<^item> \<open>Handshake\<close>, \<open>Client_Machine\<close>, \<open>Server_Machine\<close>, \<open>Handshake_Run\<close> (\<open>r8-session/src/lib.rs\<close>): both
    machines, method by method, with their step relations. Each end authenticates the other, an
    honest exchange ends with matching keys, the server's tables keep their bounds, the client only
    moves forward.
  \<^item> \<open>Manifest\<close>, \<open>Forward\<close>, \<open>Native\<close> (\<open>r8d/src/manifest.rs\<close>, \<open>forward.rs\<close>, \<open>native.rs\<close>): validation,
    longest-prefix routing, \<open>process_frame\<close>, the runtime step over its I/O seams. A forwarder changes
    only the hop limit, a chain of forwarders ends, the runtime fails closed and keeps running when
    its environment works.
  \<^item> \<open>Rust_Str\<close>, \<open>Linux_Process\<close>, \<open>Linux_Net\<close>, \<open>Linux_Socket\<close> (\<open>r8d/src/linux.rs\<close>): the string operations
    of the standard library that the source uses; dropping privileges and the sealed manifest; the
    route table reader and the check of an isolated topology; the packet filter and the packet
    socket. Privileges are gone after a successful drop whatever the process held, a sealed manifest
    is read back unchanged, the topology check accepts exactly the isolated hosts, the filter passes
    exactly R8 frames and a socket is never returned unfiltered. A defect of the route table reader
    is shown by \<open>default_route_hidden_by_name\<close>.
  \<^item> \<open>Kernel_Frame\<close>: what calls leave alone and how programs over a kernel move its state, as the locale
    \<open>step_relation\<close>.
  \<^item> \<open>Native_Main\<close> (\<open>r8d/src/bin/r8-native.rs\<close>): the command line, the start-up sequence and the serving
    loop over the runtime of \<open>Native\<close> and the operations above. Readiness is announced only by an
    unprivileged process on an isolated host with guarded sockets.
  \<^item> \<open>Udp_Socket\<close>, \<open>Echo\<close> (\<open>r8d/src/main.rs\<close>, \<open>r8ping/src/main.rs\<close>): socket addresses, I/O errors and the
    calls on UDP sockets; the echo responder and the ping client. The responder answers exactly the
    requests for its own locator and never a reply, a reported reply is one that was received, the
    client ends, and against the responder it succeeds. \<open>ping_aborts_at_deadline\<close> shows a defect.
  \<^item> \<open>Session_Options\<close>, \<open>Session_Main\<close>, \<open>Session_Serve\<close> (\<open>r8-session/src/main.rs\<close>): the command line; the
    client's exchange with its retries and the server's loop around the machines of the handshake;
    the loop's invariant. Accepted options are well formed, the server's books stay bounded and
    consistent with the machine's tables, its answers are no longer than what they answer and go back
    to the sender. \<open>hex_not_strict\<close> and \<open>oversize_datagram_stops_server\<close> show defects.
  \<^item> \<open>Mobility_Codec\<close>, \<open>Mobility\<close>, \<open>Mobility_Safety\<close>, \<open>Mobility_Run\<close> (\<open>r8-mobility/src/lib.rs\<close>): the
    control codec and tokens; \<open>CandidateManager\<close> with proposals, probes, challenges, cohorts, expiry
    and admissions; the invariant of its step relation; the properties. Two of these are defects of
    the code, each shown on a concrete run: \<open>unproven_binding_promoted\<close> and \<open>result_cache_overflows\<close>.
  \<^item> \<open>Delivered_Window\<close>, \<open>Redundant\<close>, \<open>Redundant_Safety\<close>, \<open>Redundant_Run\<close> (\<open>r8-redundant/src/lib.rs\<close>):
    the ring of delivered ids as an implementation of the delivery history; \<open>RedundantSession\<close> with
    its paths, queues, previews, leases and mobility commits; the invariant of every operation; the
    step relation \<open>link_step\<close> and exactly-once delivery.
  \<^item> \<open>Redundant_Native\<close>, \<open>Endpoint_Run\<close> (\<open>r8-redundant/src/bin/r8-redundant-native.rs\<close>): an endpoint over two
    packet sockets, from its key material to the redundant delivery. It exchanges no frame before it
    has dropped its privileges, accepts exactly the frames its peer builds, and its waiting ends.
  \<^item> this theory: the properties that span components, namely protected traffic through forwarders
    and a mobility admission that opens the second path.

  \<^bold>\<open>How the code is modelled.\<close> A struct is a \<open>record\<close>, an enum a \<open>datatype\<close>, \<open>u8\<close> to \<open>u64\<close> are words, \<open>usize\<close>
  is \<open>nat\<close> with its 64-bit bound where the code checks it, and \<open>Result\<close> is a sum. A \<open>&mut self\<close>
  method takes the state and returns its result with the new state; an \<open>Option\<close> around that is a
  panic. Random material, clocks and process-wide counters are arguments. Reference-counted
  capabilities and leases are numbered, with a set of those alive.

  \<^bold>\<open>Parameters.\<close> The cryptographic crates are the record \<open>crypto\<close> of functions; \<open>hash_ok\<close>,
  \<open>signature_ok\<close>, \<open>kex_ok\<close> and \<open>aead_ok\<close> state what the code relies on (lengths, that signing verifies,
  that the exchange commutes, that decryption inverts encryption), and \<open>sample_crypto\<close> shows that
  they can hold. No secrecy or unforgeability is assumed; authentication theorems say which check
  was passed. The JSON deserialiser and the runtime's I/O, event, clock and delivery traits are
  parameters too. The operating system is a record of system calls over a kernel state
  (\<open>cred_kernel\<close>, \<open>memfd_kernel\<close>, \<open>net_kernel\<close>, \<open>socket_kernel\<close>, \<open>launcher_kernel\<close>) with the documented
  behaviour of each call as the predicates \<open>cred_laws\<close>, \<open>memfd_laws\<close>, \<open>net_laws\<close> and \<open>socket_laws\<close>; sample
  kernels show that they can hold; \<open>index_laws\<close> ties the name of an interface to its index. \<open>listed_routes\<close>
  leaves out the routes that the route table reader skips, those on an interface called \<open>Iface\<close>. The UDP
  programs run over \<open>udp_kernel\<close>, where \<open>receive_log\<close> and \<open>send_log\<close> name the datagrams that went through,
  and over \<open>addr_text\<close>, the parsers of address texts; \<open>r8-redundant-native\<close> runs over \<open>end_kernel\<close> with
  \<open>end_laws\<close>. A call of these kernels that may wait has a predicate that says when it waits for ever
  (\<open>uk_recv_waits\<close>, \<open>ek_poll_waits\<close>, \<open>ek_recv_waits\<close>). \<open>udp_clock\<close> and \<open>end_clock\<close> are the documented
  behaviour of clocks and waiting: an \<open>Instant\<close> never goes back, finitely many datagrams arrive while
  the clock stands still, a call takes at most its time-out and some slack, and a receive without a time-out waits
  for a datagram. \<open>aead_length\<close> says that decryption keeps the length of any text.

  \<^bold>\<open>Bounds and fuel.\<close> Every loop recurs on the list or range it walks over, with these exceptions. The
  endless loops \<open>serve\<close> of \<open>r8-native\<close>, \<open>respond_loop\<close> of \<open>r8d\<close> and \<open>serve_loop\<close> of \<open>r8session\<close> take the
  number of passes they are run for, and what is proved of them holds for every such number.
  \<open>wait_reply\<close>, \<open>receive_frame\<close> and the drawing of a connection id wait for an event; they are partial
  functions, and \<open>ping_terminates\<close> and \<open>client_wait_bounded\<close> show that the first two return, and by when,
  because the code sets a time-out before it waits. The passes of \<open>respond_loop\<close> and \<open>serve_loop\<close> are those whose
  receive returned.
  Hypotheses of the form \<open>unat g + 1 < 2 ^ 64\<close> say that a generation counter has not reached its
  end, where the code refuses to go on.

  \<^bold>\<open>Not modelled.\<close> The executable \<open>r8-mobility\<close> (command line, files, sockets and the loops
  around the components above), what the programs print, zeroisation of memory, the
  mutex of the candidate manager (a method is one step), debug formatting, and the Python reference
  and benchmark tools. The build is one without debug assertions: the one \<open>debug_assert!\<close> of the
  code above, in \<open>settle_frozen_cohort\<close>, has no counterpart, \<open>mobility_expects_hold\<close> is about the
  \<open>expect\<close> calls only, and \<open>result_cache_overflows\<close> shows a run on which that assertion would fail.
\<close>

section \<open>Protected traffic across the network\<close>

text \<open>
  C4: End to end over any path. A packet sealed by one end of a direction and carried by \<open>n\<close>
  \<open>r8d\<close> forwarders in a row, whatever their manifests and budgets, is accepted at the other end:
  it opens to the plaintext that was sent and its counter is recorded, because a forwarder
  rewrites only the hop limit and the associated data leaves exactly that byte out.
\<close>

theorem protected_path_roundtrip:
  assumes "aead_ok c" "wf_header h" "ds_send_key a = ds_receive_key b"
    and "DirectionalSession_encrypt c a h t m budget = (Inr d, a')"
    and "(forwards ^^ n) d q" "length d \<le> ds_receive_budget b"
    and "replay_hist (ds_replay b) H" "replay_accepts H (c_next (ds_send_counters a))"
    and "unat (rw_generation (ds_replay b)) + 1 < 2 ^ 64"
  shows "n < unat (h_hop_limit h)
    \<and> (\<exists>b'. DirectionalSession_decrypt c b q = (Inr m, b')
         \<and> replay_hist (ds_replay b') (insert (c_next (ds_send_counters a)) H))"
proof -
  obtain ct where u: "unpack_with_budget d budget = Inr (h, ct)"
    by (rule encrypt_unpacks [OF assms(1,2,4)])
  have n: "n < unat (h_hop_limit h)" "q = d[5 := h_hop_limit h - of_nat n]"
    using forwarding.path_parsed [OF assms(5) u] by auto
  have "h_hop_limit h - of_nat n \<noteq> 0" using unat_sub_of_nat [OF n(1)] n(1) by auto
  from encrypt_decrypt [OF assms(1-4) this assms(6-9)] n show ?thesis by auto
qed

definition sample_remote_header :: header where
  "sample_remote_header = (sample_ses_header 0)\<lparr>h_dst := 8 # 8 # replicate 14 7\<rparr>"

lemma sample_remote_encrypts:
  "\<exists>d. DirectionalSession_encrypt sample_crypto (sample_session 1) sample_remote_header
     SESSION_DATA [1, 2, 3] 100 = (Inr d, counter_used (sample_session 1))"
  using sample_crypto_ok
  by (intro encrypt_ok) (simp_all add: crypto_ok_def protected_type_def plaintext_fits_def
      ses_header_ok_def sample_remote_header_def sample_ses_header_def validate_ses_header_def
      session_consts sample_session_def Counters_new_def wf_header_def)

theorem protected_path_roundtrip_witness:
  "\<exists>d q b'. fst (DirectionalSession_encrypt sample_crypto (sample_session 1) sample_remote_header
       SESSION_DATA [1, 2, 3] 100) = Inr d
     \<and> forwards d q \<and> DirectionalSession_decrypt sample_crypto (sample_session 2) q = (Inr [1, 2, 3], b')"
proof -
  have c: "aead_ok sample_crypto" using sample_crypto_ok by (simp add: crypto_ok_def)
  have w: "wf_header sample_remote_header" by (simp add: sample_remote_header_def wf_header_def sample_ses_header_def)
  obtain d where e: "DirectionalSession_encrypt sample_crypto (sample_session 1) sample_remote_header
      SESSION_DATA [1, 2, 3] 100 = (Inr d, counter_used (sample_session 1))"
    using sample_remote_encrypts by blast
  have len: "length d = 79" using encrypt_length [OF c w e] by simp
  obtain ct where "unpack_with_budget d 100 = Inr (sample_remote_header, ct)"
    by (rule encrypt_unpacks [OF c w e])
  then have "unpack_with_budget d 1280 = Inr (sample_remote_header, ct)"
    by (rule unpack_budget_mono) (simp add: len)
  moreover have "h_dst sample_remote_header = 8 # 8 # replicate 14 7" "1 < h_hop_limit sample_remote_header"
    by (simp_all add: sample_remote_header_def sample_ses_header_def)
  ultimately have f: "forwards d (d[5 := d ! 5 - 1])"
    by (intro forwards.intros [OF _ _ sample_forwards_packet]) simp_all
  then have path: "(forwards ^^ 1) d (d[5 := d ! 5 - 1])" by (simp add: relcompp_apply)
  have "ds_send_key (sample_session 1) = ds_receive_key (sample_session 2)"
    "length d \<le> ds_receive_budget (sample_session 2)"
    "replay_accepts {} (next_counter (sample_session 1))"
    "unat (rw_generation (ds_replay (sample_session 2))) + 1 < 2 ^ 64"
    by (simp_all add: sample_session_def replay_accepts_def Counters_new_def ReplayWindow_new_def len)
  from protected_path_roundtrip [OF c w this(1) e path this(2) sample_replay this(3,4)] e f
  show ?thesis by fastforce
qed

section \<open>A mobility admission opens the second path\<close>

lemma run_same_scid:
  assumes "CandidateManager_new_inner c cfg owner rb n = Inr (m0, n')"
    and "(mobility_step c)\<^sup>*\<^sup>* (m0, [], []) w"
  shows "cm_scid (fst w) = cm_scid m0"
  using assms(2)
proof (induction rule: rtranclp_induct)
  case (step v w)
  from mobility_step_inv [OF step(2) reachable_inv [OF assms(1) step(1)]] step(3) show ?case
    by (auto dest: same_managerD)
qed simp

lemma slot1_session:
  assumes "kex_ok c" "pb_schedule b \<noteq> None" "k \<noteq> 0" "k \<noteq> u64_max"
    and "{pb_local_role b, pb_peer_role b} = {1, 2}"
  obtains d b' k' where "Profile3Bootstrap_take_slot1_after_admission c b k = Some (Inr d, b', k')"
    "DirectionalSession_can_reserve d"
proof -
  have "\<exists>key. derive_key_from_prk c prk th 3 x y 1 = Inr key" if "{x, y} = {1, 2}" for prk th x y
  proof -
    obtain key where "hkdf_expand c prk (ascii ''R8 key v1'' @ [WIRE_VERSION, SESSION_VERSION, 3] @ th @ [x, y, 1]) 32 = Some key"
      using assms(1) unfolding kex_ok_def by meson
    with that show ?thesis by (auto simp: derive_key_from_prk_def doubleton_eq_iff)
  qed
  note key = this
  obtain y where y: "pb_schedule b = Some y" using assms(2) by auto
  obtain sk where sk: "derive_key_from_prk c y (pb_transcript_hash b) 3 (pb_local_role b) (pb_peer_role b) 1 = Inr sk"
    using key [OF assms(5)] by blast
  obtain rk where rk: "derive_key_from_prk c y (pb_transcript_hash b) 3 (pb_peer_role b) (pb_local_role b) 1 = Inr rk"
    using key [of "pb_peer_role b" "pb_local_role b"] assms(5) by (metis insert_commute)
  show ?thesis
    by (rule that, simp add: Profile3Bootstrap_take_slot1_after_admission_def DirectionalSession_new_def Let_def
        allocate_session_owner_def y sk rk assms(3,4))
      (simp add: DirectionalSession_can_reserve_def Counters_can_reserve_def Counters_new_def)
qed

text \<open>
  C8: The second path, end to end over the two components. A redundant session issues an admission
  owner, a mobility manager is created with it, and after any run of that manager the admission it
  hands out is accepted by the session: the capability, the SCID and the replay domain all agree.
  The session opens slot 1 with the binding, the local and the peer locator that the admission
  carries, the given budget and a session of its own, and leaves slot 0 as it was.
\<close>

theorem admission_opens_slot1:
  assumes "kex_ok c" "redundant_inv s" "rs_bootstrap s = Some b" "pb_schedule b \<noteq> None"
    and "{pb_local_role b, pb_peer_role b} = {1, 2}"
    and issue: "RedundantSession_issue_profile3_admission_owner live cap s policy = (Inr owner, s1)"
    and new: "CandidateManager_new_with_profile3_admission_owner c cfg owner n = Inr (m0, n')"
    and run: "(mobility_step c)\<^sup>*\<^sup>* (m0, [], []) (m, trs, taken)" "ad \<in> set taken"
    and "is_ok (ObservedBinding_validate (ad_binding ad))"
    and "cap \<in> live'" "84 \<le> budget" "budget \<le> 1280" "rs_receive_preview s = None"
    and "unat (rs_receive_generation s) + 1 < 2 ^ 64" "k \<noteq> 0" "k \<noteq> u64_max"
  shows "\<exists>s2 k2. RedundantSession_activate c live' lh s1 ad budget k = Some (Inr (), s2, k2)
    \<and> pa_state (rs_paths s2 ! 1) = Active_path \<and> pa_binding (rs_paths s2 ! 1) = Some (ad_binding ad)
    \<and> pa_local_loc (rs_paths s2 ! 1) = Some (ad_local_loc ad)
    \<and> pa_peer_loc (rs_paths s2 ! 1) = Some (ad_peer_loc ad)
    \<and> pa_budget (rs_paths s2 ! 1) = budget \<and> pa_session (rs_paths s2 ! 1) \<noteq> None
    \<and> rs_paths s2 ! 0 = rs_paths s ! 0"
proof -
  from issue obtain d0 where i: "rs_state s = Active_session" "pa_state (rs_paths s ! 1) = Absent_path"
      "pa_session (rs_paths s ! 0) = Some d0" "ao_scid owner = pb_scid b" "ao_capability owner = cap"
      "ao_replay_binding owner = profile3_replay_binding d0" "s1 = s\<lparr>rs_admission_issuer := Some cap\<rparr>"
    using assms(3) by (auto simp: RedundantSession_issue_profile3_admission_owner_def RedundantSession_live_def
        Profile3AdmissionOwner_issue_def Let_def split: if_splits option.splits sum.splits)
  note new' = new [unfolded CandidateManager_new_with_profile3_admission_owner_def]
  have "owner_once (Some owner) (cm_scid m) taken (cm_state m)"
    using reachable_inv [OF new' run(1)] by (simp add: world_inv_def mobility_inv_def)
  then have ad: "ad_owner ad = owner" "ad_scid ad = cm_scid m"
    using run(2) by (auto simp: owner_once_def issued_from_def)
  have "cm_scid m0 = ao_scid owner"
    using new' by (auto simp: CandidateManager_new_inner_def split: if_splits option.splits)
  then have scid: "ad_scid ad = pb_scid b" using run_same_scid [OF new' run(1)] ad(2) i(4) by simp
  obtain d b' k' where d: "Profile3Bootstrap_take_slot1_after_admission c b k = Some (Inr d, b', k')"
    "DirectionalSession_can_reserve d"
    by (rule slot1_session [OF assms(1,4,16,17,5)])
  have len: "length (rs_paths s) = 2" using assms(2) by (simp add: redundant_inv_def)
  have reap: "RedundantSession_reap_preview (s\<lparr>rs_admission_issuer := x\<rparr>) lh = s\<lparr>rs_admission_issuer := x\<rparr>" for x
    using assms(14) by (simp add: RedundantSession_reap_preview_def)
  have "activate_session c live' (put_path 1 x s1) ad k = Some (Inr d, (put_path 1 x s1)\<lparr>rs_bootstrap := Some b'\<rparr>, k')" for x
    using d i ad assms(3,11) scid
    by (simp add: activate_session_def put_path_def Profile3AdmissionIssuer_admits_def
        Profile3Admission_matches_replay_binding_def Let_def)
  then show ?thesis
    using i assms(10,12-15) len
    by (simp add: RedundantSession_activate_def RedundantSession_live_def reap OVERHEAD_def checked_add_def Let_def
        put_path_def RedundantSession_event_def)
qed

theorem admission_opens_slot1_witness:
  "\<exists>s1 m s2 k2. RedundantSession_issue_profile3_admission_owner {} 0 (sample_new sample_here sample_there 1) 9
       = (Inr sample_owner, s1)
     \<and> (mobility_step sample_crypto)\<^sup>*\<^sup>* (sample3_at sample3_start, [], []) (m, [], [sample3_admission])
     \<and> RedundantSession_activate sample_crypto {0} sample_leases s1 sample3_admission 1280 3 = Some (Inr (), s2, k2)
     \<and> pa_state (rs_paths s2 ! 1) = Active_path
     \<and> pa_local_loc (rs_paths s2 ! 1) = Some (replicate 16 40)
     \<and> pa_peer_loc (rs_paths s2 ! 1) = Some (replicate 16 20)"
proof -
  let ?s = "sample_new sample_here sample_there 1"
  obtain s1 where s1: "RedundantSession_issue_profile3_admission_owner {} 0 ?s 9 = (Inr sample_owner, s1)"
    by (simp add: RedundantSession_issue_profile3_admission_owner_def RedundantSession_live_def sample_new_def
        sample_path_def sample_end_def Profile3AdmissionOwner_issue_def sample_owner_def sample_session_def
        profile3_replay_binding_def Let_def)
  obtain m where m: "(mobility_step sample_crypto)\<^sup>*\<^sup>* (sample3_at sample3_start, [], []) (m, [], [sample3_admission])"
    using sample3_admits by blast
  have "\<exists>s2 k2. RedundantSession_activate sample_crypto {0} sample_leases s1 sample3_admission 1280 3 = Some (Inr (), s2, k2)
    \<and> pa_state (rs_paths s2 ! 1) = Active_path \<and> pa_binding (rs_paths s2 ! 1) = Some (ad_binding sample3_admission)
    \<and> pa_local_loc (rs_paths s2 ! 1) = Some (ad_local_loc sample3_admission)
    \<and> pa_peer_loc (rs_paths s2 ! 1) = Some (ad_peer_loc sample3_admission)
    \<and> pa_budget (rs_paths s2 ! 1) = 1280 \<and> pa_session (rs_paths s2 ! 1) \<noteq> None
    \<and> rs_paths s2 ! 0 = rs_paths ?s ! 0"
    by (rule admission_opens_slot1 [OF _ sample_invs(1) _ _ _ s1 _ m, where b = "(sample_end sample_here sample_there 1)\<lparr>pb_slot0 := None\<rparr>"])
      (use sample_crypto_ok sample3_new in \<open>auto simp: crypto_ok_def sample_new_def sample_end_def
        CandidateManager_new_with_profile3_admission_owner_def sample3_admission_def sample_carrier_def\<close>)
  with s1 m show ?thesis by (auto simp: sample3_admission_def)
qed

end
